(* ===== verification/Prelude.thy ===== *)
theory Prelude
  imports "HOL-Library.AList" "HOL-Library.Char_ord" "HOL-Library.List_Lexorder"
    "HOL-Library.Option_ord" "HOL-Library.Product_Lexorder" "HOL-Library.Sublist" "HOL-Library.Multiset"
begin

text \<open>
  Shared vocabulary of the development.

  A Go map is an association list with distinct keys (\<open>wf_map\<close>), changed by
  \<open>mput\<close> and \<open>mdel\<close> and read by \<open>map_of\<close>.  The order of the list
  is the order in which a \<open>range\<close> loop visits the map; Go leaves that order open,
  so a statement about every association list covers every order.  A Go set
  (\<open>map[K]struct{}\<close>) is a map with \<open>unit\<close> values.  A nil pointer is
  \<open>None\<close>.  Reading a missing key gives the zero value, which each reader writes out.

  The locale \<open>map_adt\<close> is the contract of the map operations; it is interpreted on
  the association lists below and its facts carry the proofs of the components.
\<close>

named_theorems go_simps \<open>unfolding rules of small operations shared by the components\<close>
named_theorems wf_intros \<open>preservation of the well-formedness of maps\<close>

type_synonym ('k, 'v) gomap = "('k \<times> 'v) list"
type_synonym 'k goset = "('k \<times> unit) list"

abbreviation mput :: "'k \<Rightarrow> 'v \<Rightarrow> ('k, 'v) gomap \<Rightarrow> ('k, 'v) gomap" where
  "mput \<equiv> AList.update"

abbreviation mdel :: "'k \<Rightarrow> ('k, 'v) gomap \<Rightarrow> ('k, 'v) gomap" where
  "mdel \<equiv> AList.delete"

definition mkeys :: "('k, 'v) gomap \<Rightarrow> 'k set" where
  "mkeys m = fst ` set m"

definition mhas :: "('k, 'v) gomap \<Rightarrow> 'k \<Rightarrow> bool" where
  "mhas m k = (map_of m k \<noteq> None)"

definition wf_map :: "('k, 'v) gomap \<Rightarrow> bool" where
  "wf_map m = distinct (map fst m)"

definition sput :: "'k \<Rightarrow> 'k goset \<Rightarrow> 'k goset" where
  "sput k s = mput k () s"

definition map_get_default :: "'v \<Rightarrow> ('k, 'v) gomap \<Rightarrow> 'k \<Rightarrow> 'v" where
  "map_get_default z m k = (case map_of m k of None \<Rightarrow> z | Some v \<Rightarrow> v)"

subsection \<open>The contract of a map\<close>

locale map_adt =
  fixes empty :: "'m" and get :: "'m \<Rightarrow> 'k \<Rightarrow> 'v option"
    and put :: "'k \<Rightarrow> 'v \<Rightarrow> 'm \<Rightarrow> 'm" and del :: "'k \<Rightarrow> 'm \<Rightarrow> 'm"
    and inv :: "'m \<Rightarrow> bool"
  assumes inv_empty: "inv empty"
    and inv_put: "inv m \<Longrightarrow> inv (put k v m)"
    and inv_del: "inv m \<Longrightarrow> inv (del k m)"
    and get_empty: "get empty k = None"
    and get_put: "get (put k v m) k' = (if k' = k then Some v else get m k')"
    and get_del: "get (del k m) k' = (if k' = k then None else get m k')"
begin

lemma get_del_put: "get (del k (put k v m)) = get (del k m)"
  by (rule ext) (simp add: get_del get_put)

lemma get_put_del: "get (put k v (del k m)) = get (put k v m)"
  by (rule ext) (simp add: get_del get_put)

lemma get_put_put: "get (put k v (put k w m)) = get (put k v m)"
  by (rule ext) (simp add: get_put)

lemma get_put_comm: "k \<noteq> k' \<Longrightarrow> get (put k v (put k' w m)) = get (put k' w (put k v m))"
  by (rule ext) (simp add: get_put)

lemma get_fold_put:
  "get (fold (\<lambda>(k, v). put k v) kvs m) k
     = (case map_of (rev kvs) k of None \<Rightarrow> get m k | Some v \<Rightarrow> Some v)"
  by (induction kvs arbitrary: m)
    (auto simp: get_put map_add_def split: option.splits)

lemma get_fold_del: "get (fold del ks m) k = (if k \<in> set ks then None else get m k)"
  by (induction ks arbitrary: m) (auto simp: get_del)

lemma inv_fold_put: "inv m \<Longrightarrow> inv (fold (\<lambda>(k, v). put k v) kvs m)"
  by (induction kvs arbitrary: m) (auto simp: inv_put)

lemma inv_fold_del: "inv m \<Longrightarrow> inv (fold del ks m)"
  by (induction ks arbitrary: m) (auto simp: inv_del)

end

lemma map_of_mput: "map_of (mput k v m) k' = (if k' = k then Some v else map_of m k')"
  by (simp add: update_conv)

lemma map_of_mdel: "map_of (mdel k m) k' = (if k' = k then None else map_of m k')"
  by (simp add: delete_conv)

lemma wf_mput [wf_intros]: "wf_map m \<Longrightarrow> wf_map (mput k v m)"
  by (simp add: wf_map_def distinct_update)

lemma wf_mdel [wf_intros]: "wf_map m \<Longrightarrow> wf_map (mdel k m)"
  by (simp add: wf_map_def distinct_delete)

lemma wf_empty [simp, wf_intros]: "wf_map []"
  by (simp add: wf_map_def)

interpretation gm: map_adt "[]" map_of mput mdel wf_map
  by unfold_locales (auto simp: map_of_mput map_of_mdel intro: wf_intros)

subsection \<open>Lemmas on maps as lists\<close>

lemma mhas_iff: "mhas m k \<longleftrightarrow> k \<in> mkeys m"
  by (simp add: mhas_def mkeys_def map_of_eq_None_iff)

lemma map_of_None_mkeys: "map_of m k = None \<longleftrightarrow> k \<notin> mkeys m"
  by (simp add: mkeys_def map_of_eq_None_iff)

lemma mkeys_Nil [simp]: "mkeys [] = {}"
  by (simp add: mkeys_def)

lemma mkeys_Cons [simp]: "mkeys (p # m) = insert (fst p) (mkeys m)"
  by (simp add: mkeys_def)

lemma mkeys_mput [simp]: "mkeys (mput k v m) = insert k (mkeys m)"
  by (simp add: mkeys_def dom_update)

lemma mkeys_mdel [simp]: "mkeys (mdel k m) = mkeys m - {k}"
  unfolding mkeys_def by (metis delete_keys list.set_map set_removeAll)

lemma mkeys_sput [simp]: "mkeys (sput k s) = insert k (mkeys s)"
  by (simp add: sput_def)

lemma wf_sput [wf_intros]: "wf_map s \<Longrightarrow> wf_map (sput k s)"
  by (simp add: sput_def wf_mput)

lemma finite_mkeys [simp]: "finite (mkeys m)"
  by (simp add: mkeys_def)

lemma mkeys_fold_sput: "mkeys (fold sput ks s) = set ks \<union> mkeys s"
  by (induction ks arbitrary: s) auto

lemma wf_fold_sput [wf_intros]: "wf_map s \<Longrightarrow> wf_map (fold sput ks s)"
  by (induction ks arbitrary: s) (auto intro: wf_intros)

lemma wf_map_Cons: "wf_map (p # m) \<longleftrightarrow> fst p \<notin> mkeys m \<and> wf_map m"
  by (simp add: wf_map_def mkeys_def)

lemma map_of_wf_mem: "wf_map m \<Longrightarrow> (k, v) \<in> set m \<longleftrightarrow> map_of m k = Some v"
  by (simp add: wf_map_def)

lemma wf_map_values:
  assumes "wf_map m" shows "wf_map (map (\<lambda>(k, v). (k, f k v)) m)"
  using assms by (simp add: wf_map_def case_prod_beta comp_def)

lemma map_of_map_values: "map_of (map (\<lambda>(k, v). (k, f k v)) m) k = map_option (f k) (map_of m k)"
  by (induction m) auto

lemma wf_map_filter: "wf_map m \<Longrightarrow> wf_map (filter P m)"
  unfolding wf_map_def by (rule distinct_map_filter)

lemma map_of_filter_wf:
  "wf_map m \<Longrightarrow> map_of (filter (\<lambda>(k, v). P k v) m) k
     = (case map_of m k of None \<Rightarrow> None | Some v \<Rightarrow> if P k v then Some v else None)"
  by (induction m) (auto simp: wf_map_Cons mkeys_def map_of_eq_None_iff split: option.splits dest: map_of_SomeD)

lemma map_get_default_simps [simp]:
  "map_get_default z [] k = z"
  "map_get_default z (mput k v m) k' = (if k' = k then v else map_get_default z m k')"
  by (simp_all add: map_get_default_def map_of_mput)

lemma map_get_default_mdel [simp]:
  "map_get_default z (mdel k m) k' = (if k' = k then z else map_get_default z m k')"
  by (simp add: map_get_default_def map_of_mdel)

lemma map_get_default_Cons [simp]:
  "map_get_default z ((a, b) # m) k = (if k = a then b else map_get_default z m k)"
  by (simp add: map_get_default_def)

lemma map_of_rev_wf: "wf_map m \<Longrightarrow> map_of (rev m) = map_of m"
proof (rule ext, rule option.expand)
  fix k assume "wf_map m"
  then have "map_of (rev m) k = Some v \<longleftrightarrow> map_of m k = Some v" for v
    using map_of_wf_mem[of m k v] map_of_wf_mem[of "rev m" k v] by (simp add: wf_map_def rev_map[symmetric])
  then show "(map_of (rev m) k = None) = (map_of m k = None)"
    and "map_of (rev m) k \<noteq> None \<Longrightarrow> map_of m k \<noteq> None \<Longrightarrow> the (map_of (rev m) k) = the (map_of m k)"
    by (metis not_None_eq, force)
qed

lemma map_of_own_keys: "\<forall>(k, v) \<in> set m. map_of m k \<noteq> None"
  by (auto dest: weak_map_of_SomeI)

lemma length_wf_map: "wf_map m \<Longrightarrow> length m = card (mkeys m)"
  unfolding wf_map_def mkeys_def by (metis distinct_card length_map list.set_map)

subsection \<open>Folds that visit every entry\<close>

lemma fold_mput_fresh:
  "distinct (map fst kvs) \<Longrightarrow> (\<forall>k \<in> fst ` set kvs. k \<notin> mkeys m) \<Longrightarrow> fold (\<lambda>(k, v). mput k v) kvs m = m @ kvs"
proof (induction kvs arbitrary: m)
  case (Cons p kvs)
  have "mput k v m = m @ [(k, v)]" if "k \<notin> mkeys m" for k v
    using that by (induction m) auto
  then show ?case using Cons.IH[of "m @ [p]"] Cons.prems
    by (cases p) (auto simp: mkeys_def)
qed simp

lemma fold_invariant_all:
  assumes "P s" and "\<And>x s. x \<in> set xs \<Longrightarrow> P s \<Longrightarrow> P (f x s)"
  shows "P (fold f xs s)"
  using assms by (induction xs arbitrary: s) auto

lemma fold_pres: "(\<And>x s. x \<in> set xs \<Longrightarrow> g (f x s) = g s) \<Longrightarrow> g (fold f xs s) = g s"
  by (induction xs arbitrary: s) auto

end
