(* ===== verification/GoStrings.thy ===== *)
theory GoStrings
  imports Prelude
begin

text \<open>
  The parts of Go's \<open>strings\<close>, \<open>cmp\<close> and \<open>sort\<close> packages that the
  program uses, on byte strings (a \<open>string\<close> here is a list of bytes and its order,
  from \<open>List_Lexorder\<close>, is Go's bytewise order), and the key type
  \<open>types.NamespacedName\<close> with its order.
\<close>

subsection \<open>Splitting and joining\<close>

text \<open>\<open>strings.Split\<close> with a one-byte separator.\<close>

fun split_on :: "char \<Rightarrow> string \<Rightarrow> string list" where
  "split_on c [] = [[]]"
| "split_on c (x # xs) =
     (if x = c then [] # split_on c xs
      else (case split_on c xs of [] \<Rightarrow> [[x]] | w # ws \<Rightarrow> (x # w) # ws))"

text \<open>\<open>strings.SplitN\<close> with limit 2: the text before and after the first separator.\<close>

fun split_two :: "char \<Rightarrow> string \<Rightarrow> string list" where
  "split_two c s =
     (case dropWhile (\<lambda>x. x \<noteq> c) s of
        [] \<Rightarrow> [s]
      | _ # rest \<Rightarrow> [takeWhile (\<lambda>x. x \<noteq> c) s, rest])"

fun join :: "string \<Rightarrow> string list \<Rightarrow> string" where
  "join sep [] = []"
| "join sep [s] = s"
| "join sep (s # ss) = s @ sep @ join sep ss"

definition has_prefix :: "string \<Rightarrow> string \<Rightarrow> bool" where
  "has_prefix s p = (take (length p) s = p)"

definition has_suffix :: "string \<Rightarrow> string \<Rightarrow> bool" where
  "has_suffix s p = (length p \<le> length s \<and> drop (length s - length p) s = p)"

text \<open>\<open>cmp.Compare\<close>.\<close>

definition go_compare :: "'a::linorder \<Rightarrow> 'a \<Rightarrow> int" where
  "go_compare a b = (if a < b then -1 else if b < a then 1 else 0)"

text \<open>\<open>strings.EqualFold\<close> on the ASCII letters (Kubernetes group, kind and object names
  are ASCII).\<close>

definition to_lower :: "char \<Rightarrow> char" where
  "to_lower c = (if CHR ''A'' \<le> c \<and> c \<le> CHR ''Z'' then char_of (of_char c + 32 :: nat) else c)"

definition equal_fold :: "string \<Rightarrow> string \<Rightarrow> bool" where
  "equal_fold s t = (map to_lower s = map to_lower t)"

lemma split_on_ne [simp]: "split_on c s \<noteq> []"
  by (induction s) (auto split: list.splits)

lemma split_on_none: "c \<notin> set s \<Longrightarrow> split_on c s = [s]"
  by (induction s) auto

lemma split_on_append: "c \<notin> set s \<Longrightarrow> split_on c (s @ c # t) = s # split_on c t"
  by (induction s) auto

lemma split_on_parts: "w \<in> set (split_on c s) \<Longrightarrow> c \<notin> set w"
  by (induction s arbitrary: w) (fastforce split: list.splits if_splits)+

text \<open>Splitting undoes joining when no part has the separator, and joining always undoes splitting.\<close>

lemma split_join:
  "ss \<noteq> [] \<Longrightarrow> (\<forall>s\<in>set ss. c \<notin> set s) \<Longrightarrow> split_on c (join [c] ss) = ss"
proof (induction ss rule: induct_list012)
  case (3 a b xs)
  then show ?case by (simp add: split_on_append)
qed (simp_all add: split_on_none)

lemma join_split: "join [c] (split_on c s) = s"
proof (induction s)
  case (Cons x xs)
  obtain w ws where "split_on c xs = w # ws" by (cases "split_on c xs") auto
  with Cons show ?case by (cases ws) auto
qed simp

lemma split_two_sep:
  assumes "c \<notin> set a" shows "split_two c (a @ c # b) = [a, b]"
proof -
  have "dropWhile (\<lambda>x. x \<noteq> c) (a @ c # b) = c # b" using assms
    by (subst dropWhile_append2) auto
  moreover have "takeWhile (\<lambda>x. x \<noteq> c) (a @ c # b) = a" using assms
    by (subst takeWhile_append2) auto
  ultimately show ?thesis by simp
qed

lemma has_suffix_iff: "has_suffix s p \<longleftrightarrow> (\<exists>q. s = q @ p)"
proof
  assume "has_suffix s p"
  then show "\<exists>q. s = q @ p" unfolding has_suffix_def by (metis append_take_drop_id)
qed (auto simp: has_suffix_def)

lemma has_suffix_suffix: "has_suffix s p \<longleftrightarrow> suffix p s"
  by (simp add: has_suffix_iff suffix_def)

lemma has_prefix_prefix: "has_prefix s p \<longleftrightarrow> prefix p s"
  by (auto simp: has_prefix_def prefix_def) (metis append_take_drop_id)

lemma go_compare_simps [simp]:
  "go_compare a b = 0 \<longleftrightarrow> a = b" "go_compare a b < 0 \<longleftrightarrow> a < b" "go_compare a b > 0 \<longleftrightarrow> b < a"
  by (auto simp: go_compare_def)

lemma equal_fold_equivp: "equal_fold s s" "equal_fold s t \<Longrightarrow> equal_fold t s"
  "equal_fold s t \<Longrightarrow> equal_fold t u \<Longrightarrow> equal_fold s u"
  by (simp_all add: equal_fold_def)

subsection \<open>Namespaced names and group-version-kinds\<close>

datatype namespaced_name = NamespacedName (nn_namespace: string) (nn_name: string)

datatype gvk = GVK (gvk_group: string) (gvk_version: string) (gvk_kind: string)

text \<open>\<open>NamespacedName.String\<close>.\<close>

definition nn_string :: "namespaced_name \<Rightarrow> string" where
  "nn_string n = nn_namespace n @ ''/'' @ nn_name n"

instantiation namespaced_name :: linorder
begin

definition less_eq_namespaced_name :: "namespaced_name \<Rightarrow> namespaced_name \<Rightarrow> bool" where
  "a \<le> b \<longleftrightarrow> (nn_namespace a, nn_name a) \<le> (nn_namespace b, nn_name b)"

definition less_namespaced_name :: "namespaced_name \<Rightarrow> namespaced_name \<Rightarrow> bool" where
  "a < b \<longleftrightarrow> (nn_namespace a, nn_name a) < (nn_namespace b, nn_name b)"

instance
proof
  fix a b c :: namespaced_name
  show "a < b \<longleftrightarrow> a \<le> b \<and> \<not> b \<le> a"
    unfolding less_eq_namespaced_name_def less_namespaced_name_def by (rule less_le_not_le)
  show "a \<le> a" by (simp add: less_eq_namespaced_name_def)
  show "a \<le> b \<Longrightarrow> b \<le> c \<Longrightarrow> a \<le> c"
    unfolding less_eq_namespaced_name_def by (rule order_trans)
  show "a \<le> b \<Longrightarrow> b \<le> a \<Longrightarrow> a = b"
    unfolding less_eq_namespaced_name_def
    by (drule (1) order_antisym) (simp add: namespaced_name.expand)
  show "a \<le> b \<or> b \<le> a"
    unfolding less_eq_namespaced_name_def by (rule linear)
qed

end

lemma nn_string_inj:
  assumes "CHR ''/'' \<notin> set (nn_namespace a)" "CHR ''/'' \<notin> set (nn_namespace b)"
    and "nn_string a = nn_string b"
  shows "a = b"
proof -
  have "split_two (CHR ''/'') (nn_string a) = [nn_namespace a, nn_name a]"
    "split_two (CHR ''/'') (nn_string b) = [nn_namespace b, nn_name b]"
    using split_two_sep assms(1,2) by (simp_all add: nn_string_def)
  with assms(3) show ?thesis by (simp add: namespaced_name.expand)
qed

end
