(* ===== verification/Utils.thy ===== *)
theory Utils
  imports GoStrings
begin

text \<open>
  \<open>k8s/gate/utils/utils.go\<close> and \<open>errors.go\<close>: parsing of namespaced names, set
  operations on maps, ordering of optional values, creation-time ordering, hostname
  intersection between a listener and a route, and the error accumulator.
\<close>

subsection \<open>Sorting by creation time\<close>

record object_with_timestamp =
  ot_creation :: int
  ot_name :: string

text \<open>The order given to \<open>sort.Slice\<close>.  The library sort is not stable: objects with
  the same time and the same name (in different namespaces) may come out in either order.
  The model uses the stable order.\<close>

definition creation_less :: "object_with_timestamp \<Rightarrow> object_with_timestamp \<Rightarrow> bool" where
  "creation_less a b \<longleftrightarrow> ot_creation a < ot_creation b
     \<or> (ot_creation a = ot_creation b \<and> ot_name a < ot_name b)"

definition SortByCreationTimestamp :: "object_with_timestamp list \<Rightarrow> object_with_timestamp list" where
  "SortByCreationTimestamp objs = sort_key (\<lambda>o'. (ot_creation o', ot_name o')) objs"

definition MapToSortedListByCreationTimestamp ::
    "(namespaced_name, object_with_timestamp) gomap \<Rightarrow> object_with_timestamp list" where
  "MapToSortedListByCreationTimestamp objects = SortByCreationTimestamp (map snd objects)"

subsection \<open>Namespaced names\<close>

datatype format_error = InvalidFormat string

definition ParseNamespacedName :: "string \<Rightarrow> format_error + namespaced_name" where
  "ParseNamespacedName s =
     (let parts = split_two (CHR ''/'') s in
      if length parts \<noteq> 2 then Inl (InvalidFormat s)
      else Inr (NamespacedName (parts ! 0) (parts ! 1)))"

definition ObjectKeyFromNamespacedName :: "string \<Rightarrow> format_error + namespaced_name" where
  "ObjectKeyFromNamespacedName s =
     (let parts = split_on (CHR ''/'') s in
      if length parts \<noteq> 2 then Inl (InvalidFormat s)
      else Inr (NamespacedName (parts ! 0) (parts ! 1)))"

definition NamespaceAsString :: "string option \<Rightarrow> string" where
  "NamespaceAsString ns = (case ns of None \<Rightarrow> [] | Some n \<Rightarrow> n)"

definition GetNamespacedName :: "string \<Rightarrow> string \<Rightarrow> string \<Rightarrow> namespaced_name" where
  "GetNamespacedName name namespace defaultNamespace =
     (let namespace = (if namespace = [] then defaultNamespace else namespace)
      in NamespacedName namespace name)"

subsection \<open>Maps, sets and pointers\<close>

definition ClearMap :: "('k, 'v) gomap \<Rightarrow> ('k, 'v) gomap" where
  "ClearMap m = fold mdel (map fst m) m"

definition Keys :: "('k, 'v) gomap \<Rightarrow> 'k goset" where
  "Keys src = fold (\<lambda>(k, _) dst. sput k dst) src []"

definition SetDifference :: "('k, 'v) gomap \<Rightarrow> ('k, 'v) gomap \<Rightarrow> 'k goset" where
  "SetDifference mapA mapB = fold (\<lambda>(k, _) d. if mhas mapB k then d else sput k d) mapA []"

definition SetIntersection :: "('k, 'v) gomap \<Rightarrow> ('k, 'v) gomap \<Rightarrow> 'k goset" where
  "SetIntersection mapA mapB = fold (\<lambda>(k, _) d. if mhas mapB k then sput k d else d) mapA []"

definition ComparePointers :: "'a::linorder option \<Rightarrow> 'a option \<Rightarrow> int" where
  "ComparePointers a b =
     (case (a, b) of
        (None, Some _) \<Rightarrow> -1
      | (Some _, None) \<Rightarrow> 1
      | (Some x, Some y) \<Rightarrow> go_compare x y
      | (None, None) \<Rightarrow> 0)"

definition PointerDefaultValueIfNil :: "'a \<Rightarrow> 'a option \<Rightarrow> 'a" where
  "PointerDefaultValueIfNil zero arg = (case arg of None \<Rightarrow> zero | Some v \<Rightarrow> v)"

definition ConvertSliceWithFunc :: "'u list \<Rightarrow> ('u \<Rightarrow> 'v) \<Rightarrow> 'v list" where
  "ConvertSliceWithFunc arg f = map f arg"

text \<open>A route kind: optional group and kind (\<open>gatewayv1.RouteGroupKind\<close>).\<close>

datatype route_group_kind = RouteGroupKind (rgk_group: "string option") (rgk_kind: string)

definition RouteGroupKindsToString :: "route_group_kind list \<Rightarrow> string" where
  "RouteGroupKindsToString routesGK = ''['' @ join '', '' (map rgk_kind routesGK) @ '']''"

subsection \<open>Hostnames\<close>

definition hostnamesMatchingRouteAndListener :: "string \<Rightarrow> string \<Rightarrow> bool" where
  "hostnamesMatchingRouteAndListener pattern hostname =
     (if \<not> has_prefix pattern ''*.'' then pattern = hostname
      else has_suffix hostname (drop 1 pattern))"

definition host_step :: "string \<Rightarrow> string \<Rightarrow> string goset \<Rightarrow> string goset" where
  "host_step l r matched =
     (if hostnamesMatchingRouteAndListener r l then sput l matched
      else if hostnamesMatchingRouteAndListener l r then sput r matched
      else matched)"

definition GetHostnamesForRouteWithListener :: "string option \<Rightarrow> string list \<Rightarrow> string list" where
  "GetHostnamesForRouteWithListener listenerHostname routeHostnames =
     (case listenerHostname of
        None \<Rightarrow> routeHostnames
      | Some l \<Rightarrow>
          if routeHostnames = [] then [l]
          else sort (map fst (fold (host_step l) routeHostnames [])))"

subsection \<open>Error accumulator\<close>

text \<open>An error is its text; a nil error is \<open>None\<close>.\<close>

type_synonym go_error = "string option"

definition Errors_Add :: "go_error list \<Rightarrow> string list \<Rightarrow> string list" where
  "Errors_Add errs e = fold (\<lambda>err e. case err of None \<Rightarrow> e | Some m \<Rightarrow> e @ [m]) errs e"

definition Errors_Result :: "string list \<Rightarrow> go_error" where
  "Errors_Result e =
     (let result = fold (\<lambda>err r. r @ err @ [CHR 0x0A]) e [] in
      if result = [] then None else Some result)"

definition Errors_AddErrors :: "string list \<Rightarrow> string list \<Rightarrow> string list" where
  "Errors_AddErrors errs e = fold (\<lambda>err e. Errors_Add [Some err] e) errs e"

subsection \<open>Lemmas\<close>

lemma ClearMap_empty [simp]: "ClearMap m = []"
proof -
  have "mkeys (ClearMap m) = {}"
    unfolding ClearMap_def using gm.get_fold_del[of "map fst m" m]
    by (auto simp: map_of_None_mkeys mkeys_def[of m]) (metis map_of_None_mkeys mkeys_def)
  then show ?thesis by (simp add: mkeys_def)
qed

lemma mkeys_Keys [simp]: "mkeys (Keys m) = mkeys m"
proof -
  have "mkeys (fold (\<lambda>(k, _) dst. sput k dst) m d) = mkeys m \<union> mkeys d" for d
    by (induction m arbitrary: d) auto
  then show ?thesis by (simp add: Keys_def)
qed

lemma mkeys_SetDifference [simp]: "mkeys (SetDifference a b) = mkeys a - mkeys b"
proof -
  have "mkeys (fold (\<lambda>(k, _) d. if mhas b k then d else sput k d) a d)
      = (mkeys a - mkeys b) \<union> mkeys d" for d
    by (induction a arbitrary: d) (auto simp: mhas_iff split: if_splits)
  then show ?thesis by (simp add: SetDifference_def)
qed

lemma mkeys_SetIntersection [simp]: "mkeys (SetIntersection a b) = mkeys a \<inter> mkeys b"
proof -
  have "mkeys (fold (\<lambda>(k, _) d. if mhas b k then sput k d else d) a d)
      = (mkeys a \<inter> mkeys b) \<union> mkeys d" for d
    by (induction a arbitrary: d) (auto simp: mhas_iff split: if_splits)
  then show ?thesis by (simp add: SetIntersection_def)
qed

lemma wf_SetDifference [wf_intros]: "wf_map (SetDifference a b)"
  unfolding SetDifference_def by (rule fold_invariant_all) (auto intro: wf_intros)

lemma wf_SetIntersection [wf_intros]: "wf_map (SetIntersection a b)"
  unfolding SetIntersection_def by (rule fold_invariant_all) (auto intro: wf_intros)

text \<open>\<open>ComparePointers\<close> is the order of \<open>Option_ord\<close>: nil first.\<close>

lemma ComparePointers_order:
  "ComparePointers a b < 0 \<longleftrightarrow> a < b" "ComparePointers a b = 0 \<longleftrightarrow> a = b" "ComparePointers a b > 0 \<longleftrightarrow> b < a"
  by (auto simp: ComparePointers_def split: option.splits)

lemma Errors_Add_filter: "Errors_Add errs e = e @ List.map_filter id errs"
  unfolding Errors_Add_def
  by (induction errs arbitrary: e) (auto simp: List.map_filter_simps split: option.splits)

lemma Errors_AddErrors_append: "Errors_AddErrors errs e = e @ errs"
  unfolding Errors_AddErrors_def by (induction errs arbitrary: e) (auto simp: Errors_Add_def)

lemma Errors_Result_text: "fold (\<lambda>err r. r @ err @ [nl]) e r = r @ concat (map (\<lambda>x. x @ [nl]) e)"
  by (induction e arbitrary: r) auto

text \<open>The accumulator reports an error exactly when one was added.\<close>

lemma Errors_Result_None: "Errors_Result e = None \<longleftrightarrow> e = []"
  unfolding Errors_Result_def Errors_Result_text by (cases e) (auto simp: Let_def)

lemma SortByCreationTimestamp_mset: "mset (SortByCreationTimestamp xs) = mset xs"
  by (simp add: SortByCreationTimestamp_def)

lemma SortByCreationTimestamp_sorted:
  "sorted_wrt (\<lambda>a b. \<not> creation_less b a) (SortByCreationTimestamp xs)"
proof -
  let ?k = "\<lambda>o'. (ot_creation o', ot_name o')"
  have "sorted_wrt (\<lambda>a b. ?k a \<le> ?k b) (sort_key ?k xs)"
    using sorted_sort_key[of ?k xs] by (simp add: sorted_map)
  moreover have "\<not> creation_less b a" if "?k a \<le> ?k b" for a b
    using that by (auto simp: creation_less_def less_eq_prod_def)
  ultimately show ?thesis
    unfolding SortByCreationTimestamp_def by (rule sorted_wrt_mono_rel[rotated]) auto
qed

text \<open>Parsing undoes printing for a namespace without a slash; the strict variant also needs
  a name without a slash.\<close>

lemma ParseNamespacedName_print:
  "CHR ''/'' \<notin> set (nn_namespace n) \<Longrightarrow> ParseNamespacedName (nn_string n) = Inr n"
  using split_two_sep[of "CHR ''/''" "nn_namespace n" "nn_name n"]
  by (simp add: ParseNamespacedName_def nn_string_def Let_def)

lemma ObjectKey_print:
  assumes "CHR ''/'' \<notin> set (nn_namespace n)" "CHR ''/'' \<notin> set (nn_name n)"
  shows "ObjectKeyFromNamespacedName (nn_string n) = Inr n"
  using assms by (simp add: ObjectKeyFromNamespacedName_def nn_string_def split_on_append split_on_none)

lemma ParseNamespacedName_error:
  "(\<exists>e. ParseNamespacedName s = Inl e) \<longleftrightarrow> CHR ''/'' \<notin> set s"
proof (cases "CHR ''/'' \<in> set s")
  case True
  then obtain a b where "s = a @ CHR ''/'' # b" "CHR ''/'' \<notin> set a"
    by (meson split_list_first)
  then show ?thesis using True split_two_sep[of "CHR ''/''" a b]
    by (simp add: ParseNamespacedName_def Let_def)
next
  case False
  then have "dropWhile (\<lambda>x. x \<noteq> CHR ''/'') s = []" by (auto simp: dropWhile_eq_Nil_conv)
  then have "split_two (CHR ''/'') s = [s]" by (simp only: split_two.simps list.case)
  with False show ?thesis by (simp add: ParseNamespacedName_def Let_def del: split_two.simps)
qed

subsubsection \<open>Hostname matching as sets of hosts\<close>

lemma matching_wild:
  "has_prefix p ''*.'' \<Longrightarrow> hostnamesMatchingRouteAndListener p h \<longleftrightarrow> suffix (drop 1 p) h"
  by (simp add: hostnamesMatchingRouteAndListener_def has_suffix_suffix)

lemma matching_exact:
  "\<not> has_prefix p ''*.'' \<Longrightarrow> hostnamesMatchingRouteAndListener p h \<longleftrightarrow> p = h"
  by (simp add: hostnamesMatchingRouteAndListener_def)

lemma wild_form: "has_prefix p ''*.'' \<Longrightarrow> \<exists>s. p = CHR ''*'' # CHR ''.'' # s"
  by (auto simp: has_prefix_prefix prefix_def)

lemma suffix_dot_star: "suffix (CHR ''.'' # s) (CHR ''*'' # t) \<longleftrightarrow> suffix (CHR ''.'' # s) t"
  by (auto simp: suffix_Cons)

text \<open>Two patterns are nested or disjoint, so the more specific one stands for their
  intersection.\<close>

lemma matching_inter:
  "hostnamesMatchingRouteAndListener l h \<and> hostnamesMatchingRouteAndListener r h \<longleftrightarrow>
     (if hostnamesMatchingRouteAndListener r l then hostnamesMatchingRouteAndListener l h
      else hostnamesMatchingRouteAndListener l r \<and> hostnamesMatchingRouteAndListener r h)"
proof (cases "has_prefix r ''*.''"; cases "has_prefix l ''*.''")
  assume r: "has_prefix r ''*.''" and l: "has_prefix l ''*.''"
  then obtain s t where st: "r = CHR ''*'' # CHR ''.'' # s" "l = CHR ''*'' # CHR ''.'' # t"
    using wild_form by blast
  show ?thesis unfolding matching_wild[OF r] matching_wild[OF l]
    using suffix_same_cases[of "CHR ''.'' # s" h "CHR ''.'' # t"] suffix_order.trans
    by (auto simp: st suffix_dot_star)
next
  assume r: "\<not> has_prefix r ''*.''" and l: "has_prefix l ''*.''"
  then show ?thesis unfolding matching_wild[OF l] matching_exact[OF r] by auto
next
  assume r: "has_prefix r ''*.''" and l: "\<not> has_prefix l ''*.''"
  then show ?thesis unfolding matching_wild[OF r] matching_exact[OF l] by auto
next
  assume "\<not> has_prefix r ''*.''" "\<not> has_prefix l ''*.''"
  then show ?thesis by (auto simp: matching_exact)
qed

lemma mkeys_host_fold:
  "mkeys (fold (host_step l) rs m) = mkeys m
     \<union> {l | r. r \<in> set rs \<and> hostnamesMatchingRouteAndListener r l}
     \<union> {r \<in> set rs. \<not> hostnamesMatchingRouteAndListener r l \<and> hostnamesMatchingRouteAndListener l r}"
  by (induction rs arbitrary: m) (auto simp: host_step_def)

lemma wf_host_fold: "wf_map (fold (host_step l) rs [])"
  by (rule fold_invariant_all) (auto simp: host_step_def intro: wf_intros)

lemma set_GetHostnames:
  assumes "rs \<noteq> []"
  shows "set (GetHostnamesForRouteWithListener (Some l) rs)
     = {l | r. r \<in> set rs \<and> hostnamesMatchingRouteAndListener r l}
     \<union> {r \<in> set rs. \<not> hostnamesMatchingRouteAndListener r l \<and> hostnamesMatchingRouteAndListener l r}"
  using assms mkeys_host_fold[of l rs "[]"]
  by (simp add: GetHostnamesForRouteWithListener_def mkeys_def)

text \<open>C16: the hostnames computed for a route attached to a listener accept exactly the hosts
  that both the listener hostname and one of the route hostnames accept (wildcards included),
  and the list is sorted and has no duplicates.\<close>

theorem GetHostnamesForRouteWithListener_exact:
  assumes "rs \<noteq> []"
  shows "((\<exists>p \<in> set (GetHostnamesForRouteWithListener (Some l) rs). hostnamesMatchingRouteAndListener p h)
      \<longleftrightarrow> hostnamesMatchingRouteAndListener l h
        \<and> (\<exists>r \<in> set rs. hostnamesMatchingRouteAndListener r h))
    \<and> sorted (GetHostnamesForRouteWithListener (Some l) rs)
    \<and> distinct (GetHostnamesForRouteWithListener (Some l) rs)"
proof -
  have "(\<exists>p \<in> set (GetHostnamesForRouteWithListener (Some l) rs). hostnamesMatchingRouteAndListener p h)
      \<longleftrightarrow> (\<exists>r \<in> set rs. if hostnamesMatchingRouteAndListener r l
            then hostnamesMatchingRouteAndListener l h
            else hostnamesMatchingRouteAndListener l r \<and> hostnamesMatchingRouteAndListener r h)"
    unfolding set_GetHostnames[OF assms] by auto
  also have "\<dots> \<longleftrightarrow> hostnamesMatchingRouteAndListener l h
        \<and> (\<exists>r \<in> set rs. hostnamesMatchingRouteAndListener r h)"
    unfolding matching_inter[symmetric] by blast
  moreover have "sorted (GetHostnamesForRouteWithListener (Some l) rs)"
    "distinct (GetHostnamesForRouteWithListener (Some l) rs)"
    using assms wf_host_fold[of l rs]
    by (simp_all add: GetHostnamesForRouteWithListener_def wf_map_def)
  ultimately show ?thesis by blast
qed

theorem GetHostnamesForRouteWithListener_witness:
  "distinct (GetHostnamesForRouteWithListener (Some ''*.a.com'') [''x.a.com'', ''*.com'', ''b.org''])
     \<and> set (GetHostnamesForRouteWithListener (Some ''*.a.com'') [''x.a.com'', ''*.com'', ''b.org''])
       = {''x.a.com'', ''*.a.com''}"
proof
  show "distinct (GetHostnamesForRouteWithListener (Some ''*.a.com'') [''x.a.com'', ''*.com'', ''b.org''])"
    using GetHostnamesForRouteWithListener_exact[of "[''x.a.com'', ''*.com'', ''b.org'']" "''*.a.com''"]
    by simp
  show "set (GetHostnamesForRouteWithListener (Some ''*.a.com'') [''x.a.com'', ''*.com'', ''b.org''])
       = {''x.a.com'', ''*.a.com''}"
    by (auto simp: GetHostnamesForRouteWithListener_def host_step_def sput_def
        hostnamesMatchingRouteAndListener_def has_prefix_def has_suffix_def)
qed

end
