(* ===== verification/K8sTypes.thy ===== *)
theory K8sTypes
  imports Utils
begin

text \<open>
  The Kubernetes and Gateway API objects, with the fields that the program reads, the
  program's own custom resources (\<open>api/gate/v3\<close>), and the sum \<open>k8s_object\<close>
  that stands for the interface type \<open>client.Object\<close>: one constructor per Go type.
\<close>

subsection \<open>Metadata\<close>

record objmeta =
  om_name :: string
  om_namespace :: string
  om_generation :: int
  om_creationTimestamp :: int
  om_annotations :: "(string, string) gomap"
  om_labels :: "(string, string) gomap"

definition meta0 :: objmeta where
  "meta0 = \<lparr>om_name = [], om_namespace = [], om_generation = 0, om_creationTimestamp = 0,
     om_annotations = [], om_labels = []\<rparr>"

text \<open>\<open>client.ObjectKeyFromObject\<close> on the metadata of an object.\<close>

definition meta_key :: "objmeta \<Rightarrow> namespaced_name" where
  "meta_key m = NamespacedName (om_namespace m) (om_name m)"

record metav1_condition =
  mc_type :: string
  mc_status :: string
  mc_reason :: string
  mc_message :: string
  mc_observedGeneration :: int
  mc_lastTransitionTime :: int

subsection \<open>References\<close>

datatype parent_reference = ParentReference
  (pref_group: "string option") (pref_kind: "string option") (pref_namespace: "string option")
  (pref_name: string) (pref_sectionName: "string option") (pref_port: "int option")

datatype backend_object_reference = BackendObjectReference
  (bref_group: "string option") (bref_kind: "string option") (bref_namespace: "string option")
  (bref_name: string) (bref_port: "int option")

datatype secret_object_reference = SecretObjectReference
  (sref_group: "string option") (sref_kind: "string option") (sref_namespace: "string option")
  (sref_name: string)

datatype local_object_reference = LocalObjectReference
  (lref_group: string) (lref_kind: string) (lref_name: string)

datatype parameters_reference = ParametersReference
  (pmref_group: string) (pmref_kind: string) (pmref_name: string) (pmref_namespace: "string option")

datatype local_parameters_reference = LocalParametersReference
  (lpref_group: string) (lpref_kind: string) (lpref_name: string)

subsection \<open>The program's custom resources\<close>

record hug_gate =
  hg_meta :: objmeta
  hg_mworkerMaxReload :: int

text \<open>The specification of a \<open>Backend\<close> resource is a third-party model; it is kept as its
  JSON text (\<open>MarshalBinary\<close>).\<close>

record backend_cr =
  bcr_meta :: objmeta
  bcr_spec :: string

record hug_conf =
  hc_meta :: objmeta
  hc_defaultLevel :: string
  hc_categoryLevelList :: "(string \<times> string) list"

subsection \<open>Gateway API objects\<close>

record gateway_class_k8s =
  gck_meta :: objmeta
  gck_controllerName :: string
  gck_parametersRef :: "parameters_reference option"
  gck_statusConditions :: "metav1_condition list"

record allowed_routes =
  ar_namespacesFrom :: "string option"
  ar_kinds :: "route_group_kind list"

record listener_k8s =
  ls_name :: string
  ls_hostname :: "string option"
  ls_port :: int
  ls_protocol :: string
  ls_tls :: "secret_object_reference list option"
  ls_tlsMode :: "string option"
  ls_allowedRoutes :: "allowed_routes option"

record listener_status =
  lst_name :: string
  lst_supportedKinds :: "route_group_kind list"
  lst_attachedRoutes :: int
  lst_conditions :: "metav1_condition list"

record gateway_k8s =
  gwk_meta :: objmeta
  gwk_gatewayClassName :: string
  gwk_listeners :: "listener_k8s list"
  gwk_infrastructure :: "local_parameters_reference option option"
  gwk_statusConditions :: "metav1_condition list"
  gwk_statusListeners :: "listener_status list"

text \<open>\<open>gwk_infrastructure\<close> is \<open>Spec.Infrastructure\<close> (outer pointer) with its only used
  field \<open>ParametersRef\<close> (inner pointer); \<open>ls_tls\<close> is \<open>TLS\<close> with its
  \<open>CertificateRefs\<close>, and \<open>ls_tlsMode\<close> is the \<open>Mode\<close> of that structure, with
  no meaning when \<open>ls_tls\<close> is nil.\<close>

record route_parent_status =
  rps_parentRef :: parent_reference
  rps_controllerName :: string
  rps_conditions :: "metav1_condition list"

record http_path_match =
  pm_type :: "string option"
  pm_value :: "string option"

record http_filter =
  hf_type :: string
  hf_extensionRef :: "local_object_reference option"

record http_backend_ref =
  hb_ref :: backend_object_reference
  hb_weight :: "int option"
  hb_filters :: "http_filter list"

text \<open>A match is its \<open>Path\<close> pointer, the only field the program reads.\<close>

record http_route_rule =
  hr_matches :: "http_path_match option list"
  hr_filters :: "http_filter list"
  hr_backendRefs :: "http_backend_ref list"

record http_route_k8s =
  hrk_meta :: objmeta
  hrk_parentRefs :: "parent_reference list"
  hrk_hostnames :: "string list"
  hrk_rules :: "http_route_rule list"
  hrk_statusParents :: "route_parent_status list"

record tls_backend_ref =
  tb_ref :: backend_object_reference
  tb_weight :: "int option"

record tls_route_k8s =
  trk_meta :: objmeta
  trk_parentRefs :: "parent_reference list"
  trk_hostnames :: "string list"
  trk_rules :: "tls_backend_ref list list"
  trk_statusParents :: "route_parent_status list"

subsection \<open>Core objects\<close>

datatype int_or_string = IntVal int | StrVal string

record service_port =
  sp_name :: string
  sp_port :: int
  sp_targetPort :: int_or_string

record service_k8s =
  svk_meta :: objmeta
  svk_ports :: "service_port list"

record secret_k8s =
  sck_meta :: objmeta
  sck_data :: "(string, string) gomap"

record endpoint =
  ep_addresses :: "string list"
  ep_ready :: "bool option"

record endpoint_port =
  epp_name :: "string option"
  epp_port :: "int option"

record endpoint_slice =
  es_meta :: objmeta
  es_addressType :: string
  es_endpoints :: "endpoint list"
  es_ports :: "endpoint_port list"

subsection \<open>\<open>client.Object\<close>\<close>

text \<open>\<open>metav1.PartialObjectMetadata\<close>: type and metadata of an object.\<close>

datatype partial_meta = PartialMeta (pmd_gvk: gvk) (pmd_meta: objmeta)

datatype k8s_object =
    OGatewayClass gateway_class_k8s
  | OGateway gateway_k8s
  | OHTTPRoute http_route_k8s
  | OTLSRoute tls_route_k8s
  | OService service_k8s
  | ONamespace objmeta
  | OSecret secret_k8s
  | OConfigMap objmeta
  | OPartialMetadata partial_meta
  | OCustomResourceDefinition objmeta
  | OHugGate hug_gate
  | OBackend backend_cr
  | OHugConf hug_conf
  | OEndpointSlice endpoint_slice
  | OOther string objmeta

fun obj_meta :: "k8s_object \<Rightarrow> objmeta" where
  "obj_meta (OGatewayClass x) = gck_meta x"
| "obj_meta (OGateway x) = gwk_meta x"
| "obj_meta (OHTTPRoute x) = hrk_meta x"
| "obj_meta (OTLSRoute x) = trk_meta x"
| "obj_meta (OService x) = svk_meta x"
| "obj_meta (ONamespace m) = m"
| "obj_meta (OSecret x) = sck_meta x"
| "obj_meta (OConfigMap m) = m"
| "obj_meta (OPartialMetadata x) = pmd_meta x"
| "obj_meta (OCustomResourceDefinition m) = m"
| "obj_meta (OHugGate x) = hg_meta x"
| "obj_meta (OBackend x) = bcr_meta x"
| "obj_meta (OHugConf x) = hc_meta x"
| "obj_meta (OEndpointSlice x) = es_meta x"
| "obj_meta (OOther t m) = m"

definition ObjectKeyFromObject :: "k8s_object \<Rightarrow> namespaced_name" where
  "ObjectKeyFromObject obj = meta_key (obj_meta obj)"

text \<open>The empty objects used as type prototypes (\<open>object-types/object_types.go\<close>).\<close>

definition gateway_class0 :: gateway_class_k8s where
  "gateway_class0 = \<lparr>gck_meta = meta0, gck_controllerName = [], gck_parametersRef = None,
     gck_statusConditions = []\<rparr>"

definition gateway0 :: gateway_k8s where
  "gateway0 = \<lparr>gwk_meta = meta0, gwk_gatewayClassName = [], gwk_listeners = [],
     gwk_infrastructure = None, gwk_statusConditions = [], gwk_statusListeners = []\<rparr>"

definition http_route0 :: http_route_k8s where
  "http_route0 = \<lparr>hrk_meta = meta0, hrk_parentRefs = [], hrk_hostnames = [], hrk_rules = [],
     hrk_statusParents = []\<rparr>"

definition tls_route0 :: tls_route_k8s where
  "tls_route0 = \<lparr>trk_meta = meta0, trk_parentRefs = [], trk_hostnames = [], trk_rules = [],
     trk_statusParents = []\<rparr>"

definition service0 :: service_k8s where "service0 = \<lparr>svk_meta = meta0, svk_ports = []\<rparr>"
definition secret0 :: secret_k8s where "secret0 = \<lparr>sck_meta = meta0, sck_data = []\<rparr>"
definition hug_gate0 :: hug_gate where "hug_gate0 = \<lparr>hg_meta = meta0, hg_mworkerMaxReload = 0\<rparr>"
definition backend_cr0 :: backend_cr where "backend_cr0 = \<lparr>bcr_meta = meta0, bcr_spec = []\<rparr>"
definition hug_conf0 :: hug_conf where
  "hug_conf0 = \<lparr>hc_meta = meta0, hc_defaultLevel = [], hc_categoryLevelList = []\<rparr>"
definition endpoint_slice0 :: endpoint_slice where
  "endpoint_slice0 = \<lparr>es_meta = meta0, es_addressType = [], es_endpoints = [], es_ports = []\<rparr>"

text \<open>The Gateway API group name and the route kinds.\<close>

definition GatewayGroupName :: string where "GatewayGroupName = ''gateway.networking.k8s.io''"
definition RouteKindHTTP :: route_group_kind where
  "RouteKindHTTP = RouteGroupKind (Some GatewayGroupName) ''HTTPRoute''"
definition RouteKindTLS :: route_group_kind where
  "RouteKindTLS = RouteGroupKind (Some GatewayGroupName) ''TLSRoute''"

end
