(* ===== verification/KeyMap.thy ===== *)
theory KeyMap
  imports K8sTypes
begin

text \<open>
  \<open>k8s/gate/utils/keymap.go\<close>: a map whose keys are structures, stored under a computed
  string, and the two codecs used for it: parent references and backend references.

  The locale \<open>key_codec\<close> is the contract between the map and a codec: decoding undoes
  encoding on the admissible keys.  From it follow the map laws of \<open>KeyMap\<close>; both codecs
  are interpreted below.
\<close>

subsection \<open>The map\<close>

record ('k, 'v) key_map =
  km_data :: "(string, 'v) gomap"
  km_computeKey :: "'k \<Rightarrow> string"

definition NewKeyMap :: "('k \<Rightarrow> string) \<Rightarrow> ('k, 'v) key_map" where
  "NewKeyMap keygen = \<lparr>km_data = [], km_computeKey = keygen\<rparr>"

definition KeyMap_Get :: "('k, 'v) key_map \<Rightarrow> 'k \<Rightarrow> 'v option" where
  "KeyMap_Get m key = map_of (km_data m) (km_computeKey m key)"

definition KeyMap_Exists :: "('k, 'v) key_map \<Rightarrow> 'k \<Rightarrow> bool" where
  "KeyMap_Exists m key = mhas (km_data m) (km_computeKey m key)"

definition KeyMap_Set :: "'k \<Rightarrow> 'v \<Rightarrow> ('k, 'v) key_map \<Rightarrow> ('k, 'v) key_map" where
  "KeyMap_Set key value m = m\<lparr>km_data := mput (km_computeKey m key) value (km_data m)\<rparr>"

definition KeyMap_Delete :: "'k \<Rightarrow> ('k, 'v) key_map \<Rightarrow> ('k, 'v) key_map" where
  "KeyMap_Delete key m = m\<lparr>km_data := mdel (km_computeKey m key) (km_data m)\<rparr>"

text \<open>The callback may change state \<open>'s\<close>; the loop stops when it returns false.\<close>

fun iterate_data :: "(string \<Rightarrow> 'v \<Rightarrow> 's \<Rightarrow> bool \<times> 's) \<Rightarrow> (string, 'v) gomap \<Rightarrow> 's \<Rightarrow> 's" where
  "iterate_data callback [] s = s"
| "iterate_data callback ((k, v) # rest) s =
     (let (continue, s') = callback k v s in
      if \<not> continue then s' else iterate_data callback rest s')"

definition KeyMap_Iterate ::
    "(string \<Rightarrow> 'v \<Rightarrow> 's \<Rightarrow> bool \<times> 's) \<Rightarrow> ('k, 'v) key_map \<Rightarrow> 's \<Rightarrow> 's" where
  "KeyMap_Iterate callback m s = iterate_data callback (km_data m) s"

definition KeyMap_Len :: "('k, 'v) key_map \<Rightarrow> nat" where
  "KeyMap_Len m = length (km_data m)"

definition KeyMap_Clear :: "('k, 'v) key_map \<Rightarrow> ('k, 'v) key_map" where
  "KeyMap_Clear m = m\<lparr>km_data := []\<rparr>"

text \<open>\<open>copier\<close> is the value type's \<open>DeepCopy\<close> method, if it has one; without it
  the type assertion in the loop fails and the entry is left out.\<close>

definition KeyMap_DeepCopy :: "('v \<Rightarrow> 'v) option \<Rightarrow> ('k, 'v) key_map \<Rightarrow> ('k, 'v) key_map" where
  "KeyMap_DeepCopy copier m =
     (NewKeyMap (km_computeKey m))
       \<lparr>km_data := fold (\<lambda>(k, v) d. case copier of None \<Rightarrow> d | Some c \<Rightarrow> mput k (c v) d) (km_data m) []\<rparr>"

subsection \<open>The codecs\<close>

definition StrPtrToString :: "string option \<Rightarrow> string" where
  "StrPtrToString p = (case p of None \<Rightarrow> ''_'' | Some s \<Rightarrow> s)"

definition StringToPtr :: "string \<Rightarrow> string option" where
  "StringToPtr s = (if s = ''_'' then None else Some s)"

definition ParentRefToKey :: "parent_reference \<Rightarrow> string" where
  "ParentRefToKey p = join '':'' [StrPtrToString (pref_group p), StrPtrToString (pref_kind p),
     StrPtrToString (pref_namespace p), pref_name p, StrPtrToString (pref_sectionName p)]"

datatype key_error = WrongPartCount nat

definition KeyToParentRef :: "string \<Rightarrow> key_error + parent_reference" where
  "KeyToParentRef key =
     (let parts = split_on (CHR '':'') key in
      if length parts \<noteq> 5 then Inl (WrongPartCount (length parts))
      else Inr (ParentReference (StringToPtr (parts ! 0)) (StringToPtr (parts ! 1))
                 (StringToPtr (parts ! 2)) (parts ! 3) (StringToPtr (parts ! 4)) None))"

definition BackendObjectReferenceToKey :: "backend_object_reference \<Rightarrow> string" where
  "BackendObjectReferenceToKey b = join '':'' [StrPtrToString (bref_group b),
     StrPtrToString (bref_kind b), StrPtrToString (bref_namespace b), bref_name b]"

definition KeyToBackendObjectReference :: "string \<Rightarrow> key_error + backend_object_reference" where
  "KeyToBackendObjectReference key =
     (let parts = split_on (CHR '':'') key in
      if length parts \<noteq> 4 then Inl (WrongPartCount (length parts))
      else Inr (BackendObjectReference (StringToPtr (parts ! 0)) (StringToPtr (parts ! 1))
                 (StringToPtr (parts ! 2)) (parts ! 3) None))"

text \<open>A part survives the encoding when it has no colon and is not the placeholder.\<close>

definition plain_part :: "string \<Rightarrow> bool" where
  "plain_part s = (CHR '':'' \<notin> set s)"

definition plain_ptr :: "string option \<Rightarrow> bool" where
  "plain_ptr p = (case p of None \<Rightarrow> True | Some s \<Rightarrow> plain_part s \<and> s \<noteq> ''_'')"

definition plain_parent_ref :: "parent_reference \<Rightarrow> bool" where
  "plain_parent_ref p \<longleftrightarrow> plain_ptr (pref_group p) \<and> plain_ptr (pref_kind p)
     \<and> plain_ptr (pref_namespace p) \<and> plain_part (pref_name p) \<and> plain_ptr (pref_sectionName p)
     \<and> pref_port p = None"

definition plain_backend_ref :: "backend_object_reference \<Rightarrow> bool" where
  "plain_backend_ref b \<longleftrightarrow> plain_ptr (bref_group b) \<and> plain_ptr (bref_kind b)
     \<and> plain_ptr (bref_namespace b) \<and> plain_part (bref_name b) \<and> bref_port b = None"

lemma StringToPtr_StrPtr: "plain_ptr p \<Longrightarrow> StringToPtr (StrPtrToString p) = p"
  by (auto simp: StringToPtr_def StrPtrToString_def plain_ptr_def split: option.splits)

lemma StrPtr_plain: "plain_ptr p \<Longrightarrow> CHR '':'' \<notin> set (StrPtrToString p)"
  by (auto simp: StrPtrToString_def plain_ptr_def plain_part_def split: option.splits)

lemma parent_ref_parts:
  "plain_parent_ref p \<Longrightarrow> split_on (CHR '':'') (ParentRefToKey p)
     = [StrPtrToString (pref_group p), StrPtrToString (pref_kind p),
        StrPtrToString (pref_namespace p), pref_name p, StrPtrToString (pref_sectionName p)]"
  unfolding ParentRefToKey_def
  by (rule split_join) (auto simp: plain_parent_ref_def plain_part_def dest: StrPtr_plain)

lemma backend_ref_parts:
  "plain_backend_ref b \<Longrightarrow> split_on (CHR '':'') (BackendObjectReferenceToKey b)
     = [StrPtrToString (bref_group b), StrPtrToString (bref_kind b),
        StrPtrToString (bref_namespace b), bref_name b]"
  unfolding BackendObjectReferenceToKey_def
  by (rule split_join) (auto simp: plain_backend_ref_def plain_part_def dest: StrPtr_plain)

lemma parent_ref_decode: "plain_parent_ref p \<Longrightarrow> KeyToParentRef (ParentRefToKey p) = Inr p"
  by (cases p) (simp add: KeyToParentRef_def parent_ref_parts plain_parent_ref_def StringToPtr_StrPtr)

lemma backend_ref_decode:
  "plain_backend_ref b \<Longrightarrow> KeyToBackendObjectReference (BackendObjectReferenceToKey b) = Inr b"
  by (cases b)
    (simp add: KeyToBackendObjectReference_def backend_ref_parts plain_backend_ref_def StringToPtr_StrPtr)

subsection \<open>The contract of a codec and the map laws it gives\<close>

locale key_codec =
  fixes enc :: "'k \<Rightarrow> string" and dec :: "string \<Rightarrow> 'e + 'k" and admissible :: "'k \<Rightarrow> bool"
  assumes dec_enc: "admissible k \<Longrightarrow> dec (enc k) = Inr k"
begin

lemma enc_inj: "admissible a \<Longrightarrow> admissible b \<Longrightarrow> enc a = enc b \<longleftrightarrow> a = b"
  using dec_enc by (metis sum.inject(2))

lemma get_set:
  assumes "km_computeKey m = enc" "admissible a" "admissible b"
  shows "KeyMap_Get (KeyMap_Set a v m) b = (if a = b then Some v else KeyMap_Get m b)"
  using assms enc_inj[of a b] by (auto simp: KeyMap_Get_def KeyMap_Set_def map_of_mput)

lemma get_delete:
  assumes "km_computeKey m = enc" "admissible a" "admissible b"
  shows "KeyMap_Get (KeyMap_Delete a m) b = (if a = b then None else KeyMap_Get m b)"
  using assms enc_inj[of a b] by (auto simp: KeyMap_Get_def KeyMap_Delete_def map_of_mdel)

lemma get_new: "KeyMap_Get (NewKeyMap enc) k = None"
  by (simp add: KeyMap_Get_def NewKeyMap_def)

lemma key_kept:
  "km_computeKey (KeyMap_Set a v m) = km_computeKey m"
  "km_computeKey (KeyMap_Delete a m) = km_computeKey m"
  "km_computeKey (KeyMap_Clear m) = km_computeKey m"
  by (simp_all add: KeyMap_Set_def KeyMap_Delete_def KeyMap_Clear_def)

end

interpretation prefs: key_codec ParentRefToKey KeyToParentRef plain_parent_ref
  by unfold_locales (rule parent_ref_decode)

interpretation brefs: key_codec BackendObjectReferenceToKey KeyToBackendObjectReference plain_backend_ref
  by unfold_locales (rule backend_ref_decode)

subsection \<open>Properties\<close>

text \<open>C17: a map keyed by parent references behaves as a map on the references that the key
  format can express (no colon in a field, no field equal to the placeholder, no port): reading
  after writing gives the written value and leaves every other reference alone, and the written
  key decodes to the reference.\<close>

theorem parent_ref_map_laws:
  assumes "plain_parent_ref a" "plain_parent_ref b" "km_computeKey m = ParentRefToKey"
  shows "KeyMap_Get (KeyMap_Set a v m) b = (if a = b then Some v else KeyMap_Get m b)
    \<and> KeyMap_Get (KeyMap_Delete a m) b = (if a = b then None else KeyMap_Get m b)
    \<and> KeyToParentRef (ParentRefToKey a) = Inr a"
  using assms by (simp add: prefs.get_set prefs.get_delete prefs.dec_enc)

definition ref_http :: parent_reference where
  "ref_http = ParentReference None (Some ''Gateway'') (Some ''ns'') ''gw'' (Some ''http'') None"

definition ref_https :: parent_reference where
  "ref_https = ParentReference None (Some ''Gateway'') (Some ''ns'') ''gw'' (Some ''https'') None"

theorem parent_ref_map_laws_witness:
  "KeyMap_Get (KeyMap_Set ref_http (7::nat) (NewKeyMap ParentRefToKey)) ref_https = None
     \<and> KeyToParentRef (ParentRefToKey ref_http) = Inr ref_http"
  using parent_ref_map_laws[of ref_http ref_https "NewKeyMap ParentRefToKey" "7::nat"]
  by (simp add: ref_http_def ref_https_def plain_parent_ref_def plain_ptr_def plain_part_def
      NewKeyMap_def KeyMap_Get_def)

text \<open>The key does not contain the port: references that differ only in it share a key, so the
  decoder is not an inverse on references with a port.\<close>

lemma parent_ref_port_lost:
  "ParentRefToKey (ParentReference g k n nm s (Some 80)) = ParentRefToKey (ParentReference g k n nm s (Some 443))
   \<and> KeyToParentRef (ParentRefToKey (ParentReference g k n nm s (Some port)))
       \<noteq> Inr (ParentReference g k n nm s (Some port))"
  by (simp add: ParentRefToKey_def KeyToParentRef_def Let_def)

lemma backend_ref_map_laws:
  assumes "plain_backend_ref a" "plain_backend_ref b" "km_computeKey m = BackendObjectReferenceToKey"
  shows "KeyMap_Get (KeyMap_Set a v m) b = (if a = b then Some v else KeyMap_Get m b)
    \<and> KeyMap_Get (KeyMap_Delete a m) b = (if a = b then None else KeyMap_Get m b)"
  using assms by (simp add: brefs.get_set brefs.get_delete)

lemma wf_KeyMap_ops:
  "wf_map (km_data m) \<Longrightarrow> wf_map (km_data (KeyMap_Set k v m))"
  "wf_map (km_data m) \<Longrightarrow> wf_map (km_data (KeyMap_Delete k m))"
  by (simp_all add: KeyMap_Set_def KeyMap_Delete_def wf_mput wf_mdel)

text \<open>A deep copy has the copied values when the value type can be copied, and nothing otherwise.\<close>

lemma KeyMap_DeepCopy_get:
  assumes "wf_map (km_data m)"
  shows "KeyMap_Get (KeyMap_DeepCopy (Some c) m) k = map_option c (KeyMap_Get m k)"
proof -
  have "wf_map d \<Longrightarrow> map_of (fold (\<lambda>(k, v) d. mput k (c v) d) d acc) j
      = (case map_of d j of None \<Rightarrow> map_of acc j | Some v \<Rightarrow> Some (c v))" for d acc j
    by (induction d arbitrary: acc)
      (auto simp: wf_map_Cons map_of_mput map_of_None_mkeys[symmetric] split: option.splits)
  from this[OF assms, of "[]"] show ?thesis
    by (auto simp: KeyMap_DeepCopy_def KeyMap_Get_def NewKeyMap_def split: option.splits)
qed

lemma KeyMap_DeepCopy_lost: "km_data (KeyMap_DeepCopy None m) = []"
  unfolding KeyMap_DeepCopy_def by (simp add: fold_pres[where g = id, simplified] case_prod_unfold)

end
