(* ===== verification/Conditions.thy ===== *)
theory Conditions
  imports K8sTypes
begin

text \<open>
  \<open>k8s/gate/conditions\<close>: conditions keyed by their type, the conversion to and from the
  Kubernetes list form, and the constructors used for gateway classes, gateways, listeners and
  routes.  Condition types and reasons are the Gateway API constants, written out.
\<close>

record condition =
  Cond_Type :: string
  Cond_Status :: string
  Cond_Reason :: string
  Cond_Message :: string
  Cond_ObservedGeneration :: int

type_synonym conditions = "(string, condition) gomap"

definition condition0 :: condition where
  "condition0 = \<lparr>Cond_Type = [], Cond_Status = [], Cond_Reason = [], Cond_Message = [],
     Cond_ObservedGeneration = 0\<rparr>"

definition MergeOverrideConditions :: "conditions \<Rightarrow> conditions \<Rightarrow> conditions" where
  "MergeOverrideConditions c b = fold (\<lambda>(k, v). mput k v) b c"

definition Conditions_Equal :: "conditions \<Rightarrow> conditions \<Rightarrow> bool" where
  "Conditions_Equal c b =
     (if length c \<noteq> length b then False
      else list_all (\<lambda>(k, v). map_get_default condition0 b k = v) c)"

text \<open>The loop writes the map it ranges over: an entry is read when it is visited and written
  under its own type.\<close>

definition SetGeneration :: "int \<Rightarrow> conditions \<Rightarrow> conditions" where
  "SetGeneration generation c =
     fold (\<lambda>(k, _) c'. let condition = (map_get_default condition0 c' k)\<lparr>Cond_ObservedGeneration := generation\<rparr>
             in mput (Cond_Type condition) condition c') c c"

definition NewConditionFromMetav1Condition :: "metav1_condition \<Rightarrow> condition" where
  "NewConditionFromMetav1Condition c =
     \<lparr>Cond_Type = mc_type c, Cond_Status = mc_status c, Cond_Reason = mc_reason c,
      Cond_Message = mc_message c, Cond_ObservedGeneration = mc_observedGeneration c\<rparr>"

definition NewConditionsFromMetav1Conditions :: "metav1_condition list \<Rightarrow> conditions" where
  "NewConditionsFromMetav1Conditions cs =
     fold (\<lambda>c m. mput (mc_type c) (NewConditionFromMetav1Condition c) m) cs []"

definition ToMetav1Conditions :: "int \<Rightarrow> conditions \<Rightarrow> metav1_condition list" where
  "ToMetav1Conditions now c = map (\<lambda>(_, condition).
     \<lparr>mc_type = Cond_Type condition, mc_status = Cond_Status condition, mc_reason = Cond_Reason condition,
      mc_message = Cond_Message condition, mc_observedGeneration = Cond_ObservedGeneration condition,
      mc_lastTransitionTime = now\<rparr>) c"

definition GetCondition :: "conditions \<Rightarrow> string \<Rightarrow> condition option" where
  "GetCondition c t = map_of c t"

definition GetMessage :: "conditions \<Rightarrow> string \<Rightarrow> string" where
  "GetMessage c t = (case GetCondition c t of None \<Rightarrow> [] | Some condition \<Rightarrow> Cond_Message condition)"

subsection \<open>Constructors\<close>

text \<open>A literal entry of a \<open>Conditions\<close> map: key, type, status, reason, message.\<close>

definition cond_entry :: "string \<Rightarrow> string \<Rightarrow> string \<Rightarrow> string \<Rightarrow> string \<Rightarrow> string \<times> condition" where
  "cond_entry key t s r m =
     (key, \<lparr>Cond_Type = t, Cond_Status = s, Cond_Reason = r, Cond_Message = m, Cond_ObservedGeneration = 0\<rparr>)"

definition quote :: "string \<Rightarrow> string" where "quote s = [CHR 0x27] @ s @ [CHR 0x27]"

subsubsection \<open>Gateways (\<open>conditions/gateway.go\<close>)\<close>

definition NewGatewayAcceptedOK :: "conditions" where
  "NewGatewayAcceptedOK = [cond_entry ''Accepted'' ''Accepted'' ''True'' ''Accepted'' ''Gateway is accepted'']"

definition NewGatewayAcceptedInvalidConditions :: "string \<Rightarrow> conditions" where
  "NewGatewayAcceptedInvalidConditions msg = [cond_entry ''Accepted'' ''Accepted'' ''False'' ''Invalid'' (''GatewayClass '' @ quote msg @ '' is not accepted'')]"

definition NewGatewayAcceptedInvalidParameters :: "string \<Rightarrow> conditions" where
  "NewGatewayAcceptedInvalidParameters err = [cond_entry ''Accepted'' ''InvalidParameters'' ''False'' ''InvalidParameters'' (''invalid parametersRef: '' @ err)]"

definition NewGatewayAcceptedListenerNotValidAtLeast1Valid :: "conditions" where
  "NewGatewayAcceptedListenerNotValidAtLeast1Valid = [cond_entry ''Accepted'' ''Accepted'' ''True'' ''ListenersNotValid'' ''Some listeners are Conflicting'']"

definition NewGatewayAcceptedListenerNotValidAllInvalid :: "conditions" where
  "NewGatewayAcceptedListenerNotValidAllInvalid = [cond_entry ''Accepted'' ''Accepted'' ''False'' ''ListenersNotValid'' ''GatewayClass is not accepted - All listeners are conflicting'']"

definition NewGatewayProgrammedOK :: "conditions" where
  "NewGatewayProgrammedOK = [cond_entry ''Programmed'' ''Programmed'' ''True'' ''Programmed'' ''Gateway is programmed'']"

definition NewGatewayProgrammedInvalidParameters :: "string \<Rightarrow> conditions" where
  "NewGatewayProgrammedInvalidParameters msg = [cond_entry ''Programmed'' ''Programmed'' ''False'' ''InvalidParameters'' msg]"

subsubsection \<open>Listeners (\<open>conditions/gateway_listener.go\<close>)\<close>

definition NewListenerResolvedRefInvalidRouteKinds :: "string \<Rightarrow> conditions" where
  "NewListenerResolvedRefInvalidRouteKinds msg = [cond_entry ''ResolvedRefs'' ''ResolvedRefs'' ''False'' ''InvalidRouteKinds'' msg]"

definition NewListenerResolvedRefInvalidCertificateRefs :: "string \<Rightarrow> conditions" where
  "NewListenerResolvedRefInvalidCertificateRefs msg = [cond_entry ''ResolvedRefs'' ''ResolvedRefs'' ''False'' ''ResolvedRefs'' msg]"

definition NewListenerResolvedRefOK :: "conditions" where
  "NewListenerResolvedRefOK = [cond_entry ''ResolvedRefs'' ''ResolvedRefs'' ''True'' ''ResolvedRefs'' ''Listener references have been resolved'']"

definition NewListenerProgrammedPending :: "conditions" where
  "NewListenerProgrammedPending = [cond_entry ''Programmed'' ''Programmed'' ''Unknown'' ''Pending'' ''Listener is pending Haproxy programmation'']"

definition NewListenerProgrammedInvalid :: "conditions" where
  "NewListenerProgrammedInvalid = [cond_entry ''Programmed'' ''Programmed'' ''False'' ''Invalid'' ''Listener is invalid'']"

definition NewListenerProgrammedOK :: "conditions" where
  "NewListenerProgrammedOK = [cond_entry ''Programmed'' ''Programmed'' ''True'' ''Programmed'' ''Listener is programmed in Haproxy'']"

definition NewListenerAcceptedUnsupportedProtocol :: "string \<Rightarrow> conditions" where
  "NewListenerAcceptedUnsupportedProtocol msg = [cond_entry ''Accepted'' ''Accepted'' ''False'' ''UnsupportedProtocol'' msg]"

definition NewListenerAcceptedOK :: "conditions" where
  "NewListenerAcceptedOK = [cond_entry ''Accepted'' ''Accepted'' ''True'' ''Accepted'' ''Listener is accepted'']"

definition NewListenerConflicted :: "string \<Rightarrow> conditions" where
  "NewListenerConflicted msg = [cond_entry ''Conflicted'' ''Conflicted'' ''True'' ''ProtocolConflict'' msg,
      cond_entry ''Accepted'' ''Accepted'' ''False'' ''Invalid'' ''Listener is invalid (see ConditionType Conflicted)'']"

subsubsection \<open>Gateway classes (\<open>conditions/gatewayclass.go\<close>)\<close>

definition NewDefaultGatewayClassConditions :: "conditions" where
  "NewDefaultGatewayClassConditions = [cond_entry ''Accepted'' ''Accepted'' ''True'' ''Accepted'' ''GatewayClass is accepted'',
      cond_entry ''SupportedVersion'' ''SupportedVersion'' ''True'' ''SupportedVersion'' ''Gateway API CRD versions are supported'']"

definition NewGatewayClassAcceptedOK :: "conditions" where
  "NewGatewayClassAcceptedOK = [cond_entry ''Accepted'' ''Accepted'' ''True'' ''Accepted'' ''GatewayClass is accepted'']"

definition NewGatewayClassAcceptedConflict :: "conditions" where
  "NewGatewayClassAcceptedConflict = [cond_entry ''Accepted'' ''Accepted'' ''False'' ''GatewayClassConflict'' ''Resource ignored due to a conflicting GatewayClass resource'']"

definition NewGatewayClassAcceptedUnsupported :: "conditions" where
  "NewGatewayClassAcceptedUnsupported = [cond_entry ''Accepted'' ''Accepted'' ''False'' ''Unsupported'' ''Resource ignored due to an unsupported GatewayClass'']"

definition NewGatewayClassAcceptedInvalidParameters :: "string \<Rightarrow> conditions" where
  "NewGatewayClassAcceptedInvalidParameters err = [cond_entry ''Accepted'' ''Accepted'' ''False'' ''InvalidParameters'' (''invalid parametersRef: '' @ err)]"

definition NewGatewayClassSupportedVersionUnsupportedVersion :: "string \<Rightarrow> conditions" where
  "NewGatewayClassSupportedVersionUnsupportedVersion recommendedVersion = [cond_entry ''SupportedVersion'' ''SupportedVersion'' ''False'' ''UnsupportedVersion'' (''Gateway API CRD versions are not supported. Please install version '' @ recommendedVersion)]"

definition NewGatewayClassSupportedVersionOK :: "conditions" where
  "NewGatewayClassSupportedVersionOK = [cond_entry ''SupportedVersion'' ''SupportedVersion'' ''True'' ''SupportedVersion'' ''Gateway API CRD versions are supported'']"

subsubsection \<open>Routes (\<open>conditions/routes/http-route.go\<close>)\<close>

definition ConditionAccepted :: "conditions" where
  "ConditionAccepted = [cond_entry ''Accepted'' ''Accepted'' ''True'' ''Accepted'' ''Route Accepted'']"

definition ConditionNotAcceptedNoMatchingParent :: "conditions" where
  "ConditionNotAcceptedNoMatchingParent = [cond_entry ''Accepted'' ''Accepted'' ''False'' ''NoMatchingParent'' ''No matching parent found'']"

definition ConditionNotAcceptedNoMatchingHostname :: "conditions" where
  "ConditionNotAcceptedNoMatchingHostname = [cond_entry ''Accepted'' ''Accepted'' ''False'' ''NoMatchingListenerHostname'' ''No matching hostname found'']"

definition ConditionNotAcceptedRouteReasonNotAllowedByListeners :: "conditions" where
  "ConditionNotAcceptedRouteReasonNotAllowedByListeners = [cond_entry ''Accepted'' ''Accepted'' ''False'' ''NotAllowedByListeners'' ''Route kind not allowed by listeners'']"

definition ConditionKOResolvedRefInvalidKind :: "string \<Rightarrow> conditions" where
  "ConditionKOResolvedRefInvalidKind backendRef = [cond_entry ''ResolvedRefs'' ''ResolvedRefs'' ''False'' ''InvalidKind'' (''Invalid Kind/Group for backendRef '' @ backendRef)]"

definition ConditionKOResolvedRefNotFound :: "string \<Rightarrow> conditions" where
  "ConditionKOResolvedRefNotFound backendRef = [cond_entry ''ResolvedRefs'' ''ResolvedRefs'' ''False'' ''BackendNotFound'' (''backendRef not found '' @ backendRef)]"

definition ConditionOKResolvedRef :: "conditions" where
  "ConditionOKResolvedRef = [cond_entry ''ResolvedRefs'' ''ResolvedRefs'' ''True'' ''ResolvedRefs'' ''References resolved'']"

lemmas condition_constructors = NewGatewayAcceptedOK_def
  NewGatewayAcceptedInvalidConditions_def
  NewGatewayAcceptedInvalidParameters_def
  NewGatewayAcceptedListenerNotValidAtLeast1Valid_def
  NewGatewayAcceptedListenerNotValidAllInvalid_def
  NewGatewayProgrammedOK_def
  NewGatewayProgrammedInvalidParameters_def
  NewListenerResolvedRefInvalidRouteKinds_def
  NewListenerResolvedRefInvalidCertificateRefs_def
  NewListenerResolvedRefOK_def
  NewListenerProgrammedPending_def
  NewListenerProgrammedInvalid_def
  NewListenerProgrammedOK_def
  NewListenerAcceptedUnsupportedProtocol_def
  NewListenerAcceptedOK_def
  NewListenerConflicted_def
  NewDefaultGatewayClassConditions_def
  NewGatewayClassAcceptedOK_def
  NewGatewayClassAcceptedConflict_def
  NewGatewayClassAcceptedUnsupported_def
  NewGatewayClassAcceptedInvalidParameters_def
  NewGatewayClassSupportedVersionUnsupportedVersion_def
  NewGatewayClassSupportedVersionOK_def
  ConditionAccepted_def
  ConditionNotAcceptedNoMatchingParent_def
  ConditionNotAcceptedNoMatchingHostname_def
  ConditionNotAcceptedRouteReasonNotAllowedByListeners_def
  ConditionKOResolvedRefInvalidKind_def
  ConditionKOResolvedRefNotFound_def
  ConditionOKResolvedRef_def

subsection \<open>Coherent condition maps\<close>

text \<open>Every entry is stored under its own, nonempty type.\<close>

definition coherent :: "conditions \<Rightarrow> bool" where
  "coherent c \<longleftrightarrow> wf_map c \<and> (\<forall>k v. map_of c k = Some v \<longrightarrow> Cond_Type v = k \<and> k \<noteq> [])"

lemma coherent_Nil [simp, wf_intros]: "coherent []"
  by (simp add: coherent_def)

lemma map_of_Merge:
  "map_of (MergeOverrideConditions c b) k = (case map_of (rev b) k of None \<Rightarrow> map_of c k | Some v \<Rightarrow> Some v)"
  unfolding MergeOverrideConditions_def by (rule gm.get_fold_put)

lemma map_of_Merge_wf:
  "wf_map b \<Longrightarrow> map_of (MergeOverrideConditions c b) k = (case map_of b k of None \<Rightarrow> map_of c k | Some v \<Rightarrow> Some v)"
  by (simp add: map_of_Merge map_of_rev_wf)

lemma coherent_Merge [wf_intros]: "coherent c \<Longrightarrow> coherent b \<Longrightarrow> coherent (MergeOverrideConditions c b)"
  using gm.inv_fold_put[of c b]
  by (auto simp: coherent_def map_of_Merge_wf MergeOverrideConditions_def[symmetric] split: option.splits)

lemma SetGeneration_loop:
  assumes "coherent c" "\<forall>(k, v) \<in> set xs. map_of c k \<noteq> None"
  shows "coherent (fold (\<lambda>(k, _) c'. let condition = (map_get_default condition0 c' k)\<lparr>Cond_ObservedGeneration := g\<rparr>
             in mput (Cond_Type condition) condition c') xs c)
    \<and> map_of (fold (\<lambda>(k, _) c'. let condition = (map_get_default condition0 c' k)\<lparr>Cond_ObservedGeneration := g\<rparr>
             in mput (Cond_Type condition) condition c') xs c) k
      = (if k \<in> fst ` set xs then map_option (\<lambda>v. v\<lparr>Cond_ObservedGeneration := g\<rparr>) (map_of c k) else map_of c k)"
  using assms
proof (induction xs arbitrary: c)
  case (Cons p xs)
  obtain j u where p: "p = (j, u)" by (cases p)
  obtain v where v: "map_of c j = Some v" using Cons.prems p by auto
  let ?v = "v\<lparr>Cond_ObservedGeneration := g\<rparr>"
  have t: "Cond_Type v = j" "j \<noteq> []" using Cons.prems(1) v by (auto simp: coherent_def)
  have coh: "coherent (mput j ?v c)" using Cons.prems(1) t
    by (auto simp: coherent_def map_of_mput wf_mput)
  have "\<forall>(k, v) \<in> set xs. map_of (mput j ?v c) k \<noteq> None"
    using Cons.prems(2) by (auto simp: map_of_mput)
  from Cons.IH[OF coh this] show ?case
    using v t by (auto simp: p Let_def map_get_default_def map_of_mput)
qed simp

lemma coherent_SetGeneration [wf_intros]: "coherent c \<Longrightarrow> coherent (SetGeneration g c)"
  using SetGeneration_loop[OF _ map_of_own_keys, of c g] unfolding SetGeneration_def by blast

lemma map_of_SetGeneration:
  "coherent c \<Longrightarrow> map_of (SetGeneration g c) k = map_option (\<lambda>v. v\<lparr>Cond_ObservedGeneration := g\<rparr>) (map_of c k)"
  using SetGeneration_loop[OF _ map_of_own_keys, of c g k] map_of_eq_None_iff[of c k]
  unfolding SetGeneration_def by auto

lemma coherent_entries [simp]:
  "coherent [cond_entry k k s r m] \<longleftrightarrow> k \<noteq> []"
  by (auto simp: coherent_def cond_entry_def wf_map_def)

lemma coherent_two_entries:
  "k \<noteq> [] \<Longrightarrow> k' \<noteq> [] \<Longrightarrow> k \<noteq> k' \<Longrightarrow> coherent [cond_entry k k s r m, cond_entry k' k' s' r' m']"
  by (auto simp: coherent_def cond_entry_def wf_map_def)

lemma coherent_constructors [simp, wf_intros]:
  "coherent NewGatewayAcceptedOK"
  "coherent (NewGatewayAcceptedInvalidConditions x)"
  "coherent NewGatewayAcceptedListenerNotValidAtLeast1Valid"
  "coherent NewGatewayAcceptedListenerNotValidAllInvalid"
  "coherent NewGatewayProgrammedOK"
  "coherent (NewGatewayProgrammedInvalidParameters x)"
  "coherent (NewListenerResolvedRefInvalidRouteKinds x)"
  "coherent (NewListenerResolvedRefInvalidCertificateRefs x)"
  "coherent NewListenerResolvedRefOK"
  "coherent NewListenerProgrammedPending"
  "coherent NewListenerProgrammedInvalid"
  "coherent NewListenerProgrammedOK"
  "coherent (NewListenerAcceptedUnsupportedProtocol x)"
  "coherent NewListenerAcceptedOK"
  "coherent (NewListenerConflicted x)"
  "coherent NewDefaultGatewayClassConditions"
  "coherent NewGatewayClassAcceptedOK"
  "coherent NewGatewayClassAcceptedConflict"
  "coherent NewGatewayClassAcceptedUnsupported"
  "coherent (NewGatewayClassAcceptedInvalidParameters x)"
  "coherent (NewGatewayClassSupportedVersionUnsupportedVersion x)"
  "coherent NewGatewayClassSupportedVersionOK"
  "coherent ConditionAccepted"
  "coherent ConditionNotAcceptedNoMatchingParent"
  "coherent ConditionNotAcceptedNoMatchingHostname"
  "coherent ConditionNotAcceptedRouteReasonNotAllowedByListeners"
  "coherent (ConditionKOResolvedRefInvalidKind x)"
  "coherent (ConditionKOResolvedRefNotFound x)"
  "coherent ConditionOKResolvedRef"
  by (simp_all add: condition_constructors coherent_two_entries)

subsection \<open>Equality and the list form\<close>

lemma coherent_not_zero: "coherent c \<Longrightarrow> map_of c k = Some v \<Longrightarrow> v \<noteq> condition0"
  unfolding coherent_def condition0_def by (metis condition.select_convs(1))

lemma Equal_entry:
  assumes "coherent c" "(k, v) \<in> set c"
  shows "map_get_default condition0 b k = v \<longleftrightarrow> map_of b k = Some v"
proof -
  have "v \<noteq> condition0" using assms coherent_not_zero by (auto simp: coherent_def map_of_wf_mem)
  then show ?thesis by (auto simp: map_get_default_def split: option.splits)
qed

lemma Equal_iff:
  assumes c: "coherent c" and b: "coherent b"
  shows "Conditions_Equal c b \<longleftrightarrow> map_of c = map_of b"
proof
  have wf: "wf_map c" "wf_map b" using c b by (auto simp: coherent_def)
  assume eq: "Conditions_Equal c b"
  then have len: "length c = length b" and all: "\<forall>(k, v) \<in> set c. map_get_default condition0 b k = v"
    by (simp_all add: Conditions_Equal_def list_all_iff split: if_splits)
  have sub: "map_of b k = Some v" if "map_of c k = Some v" for k v
  proof -
    have m: "(k, v) \<in> set c" by (rule map_of_SomeD[OF that])
    show ?thesis using all m Equal_entry[OF c m, of b] by auto
  qed
  have "mkeys c \<subseteq> mkeys b" using sub by (fastforce simp: mhas_iff[symmetric] mhas_def)
  then have "mkeys c = mkeys b"
    using len length_wf_map[OF wf(1)] length_wf_map[OF wf(2)] by (simp add: card_subset_eq)
  then have "map_of c x = map_of b x" for x
    using sub map_of_None_mkeys[of c x] map_of_None_mkeys[of b x] by (cases "map_of c x") auto
  then show "map_of c = map_of b" by blast
next
  have wf: "wf_map c" "wf_map b" using c b by (auto simp: coherent_def)
  assume eq: "map_of c = map_of b"
  then have "mkeys c = mkeys b" using map_of_None_mkeys[of c] map_of_None_mkeys[of b] by auto
  then have "length c = length b" using length_wf_map[OF wf(1)] length_wf_map[OF wf(2)] by simp
  then show "Conditions_Equal c b" using Equal_entry[OF c] wf(1) eq
    by (auto simp: Conditions_Equal_def list_all_iff map_of_wf_mem[OF wf(1)])
qed

lemma metav1_condition_id:
  "Cond_Type v = t \<Longrightarrow> NewConditionFromMetav1Condition \<lparr>mc_type = t, mc_status = Cond_Status v, mc_reason = Cond_Reason v,
     mc_message = Cond_Message v, mc_observedGeneration = Cond_ObservedGeneration v, mc_lastTransitionTime = now\<rparr> = v"
  by (cases v) (auto simp: NewConditionFromMetav1Condition_def)

lemma list_roundtrip: "coherent c \<Longrightarrow> NewConditionsFromMetav1Conditions (ToMetav1Conditions now c) = c"
proof -
  assume c: "coherent c"
  have "Cond_Type v = k" if "(k, v) \<in> set c" for k v
    using c that by (auto simp: coherent_def map_of_wf_mem)
  then have "NewConditionsFromMetav1Conditions (ToMetav1Conditions now c) = fold (\<lambda>(k, v). mput k v) c []"
    unfolding NewConditionsFromMetav1Conditions_def ToMetav1Conditions_def fold_map
    by (intro fold_cong) (auto simp: metav1_condition_id comp_def)
  then show ?thesis using c by (simp add: coherent_def wf_map_def fold_mput_fresh)
qed

text \<open>C18: a coherent condition map (each condition stored under its own type) survives the
  conversion to the Kubernetes list form and back, \<open>Equal\<close> decides equality of such maps
  although it reads missing keys as zero conditions, and setting the generation changes the observed
  generation of every condition and nothing else.\<close>

theorem conditions_roundtrip_and_generation:
  assumes "coherent c" "coherent b"
  shows "NewConditionsFromMetav1Conditions (ToMetav1Conditions now c) = c
    \<and> (Conditions_Equal c b \<longleftrightarrow> map_of c = map_of b)
    \<and> map_of (SetGeneration g c) k = map_option (\<lambda>v. v\<lparr>Cond_ObservedGeneration := g\<rparr>) (map_of c k)
    \<and> coherent (SetGeneration g c) \<and> coherent (MergeOverrideConditions c b)"
  using assms by (simp add: list_roundtrip Equal_iff map_of_SetGeneration coherent_SetGeneration coherent_Merge)

theorem conditions_roundtrip_and_generation_witness:
  "NewConditionsFromMetav1Conditions (ToMetav1Conditions 5 (NewListenerConflicted ''m'')) = NewListenerConflicted ''m''
    \<and> \<not> Conditions_Equal NewGatewayAcceptedOK NewGatewayProgrammedOK"
proof
  show "NewConditionsFromMetav1Conditions (ToMetav1Conditions 5 (NewListenerConflicted ''m'')) = NewListenerConflicted ''m''"
    using conditions_roundtrip_and_generation[of "NewListenerConflicted ''m''" NewGatewayAcceptedOK] by simp
  have "map_of NewGatewayAcceptedOK ''Accepted'' \<noteq> map_of NewGatewayProgrammedOK ''Accepted''"
    by (simp add: NewGatewayAcceptedOK_def NewGatewayProgrammedOK_def cond_entry_def)
  then show "\<not> Conditions_Equal NewGatewayAcceptedOK NewGatewayProgrammedOK"
    using conditions_roundtrip_and_generation[of NewGatewayAcceptedOK NewGatewayProgrammedOK] by auto
qed

text \<open>The constructor for invalid gateway parameters stores a condition under another type:
  setting the generation then leaves the entry as it is and adds a second one.\<close>

lemma InvalidParameters_incoherent:
  "\<not> coherent (NewGatewayAcceptedInvalidParameters err)
   \<and> map_of (SetGeneration 7 (NewGatewayAcceptedInvalidParameters err)) ''Accepted''
       = map_of (NewGatewayAcceptedInvalidParameters err) ''Accepted''
   \<and> map_of (SetGeneration 7 (NewGatewayAcceptedInvalidParameters err)) ''InvalidParameters'' \<noteq> None"
  by (auto simp: NewGatewayAcceptedInvalidParameters_def cond_entry_def coherent_def wf_map_def
      SetGeneration_def Let_def)

end
