(* ===== verification/RouteConditions.thy ===== *)
theory RouteConditions
  imports KeyMap Conditions
begin

text \<open>
  \<open>k8s/gate/conditions/routes/conditions-route.go\<close>: the conditions of a route, one map of
  conditions per parent reference, kept in a \<open>KeyMap\<close> under the string form of the reference.
\<close>

record route_conditions =
  rc_Conditions :: "(parent_reference, conditions) key_map"
  rc_ControllerName :: string

definition MergeOverrideConditionsForParentRef ::
    "parent_reference \<Rightarrow> conditions \<Rightarrow> route_conditions \<Rightarrow> route_conditions" where
  "MergeOverrideConditionsForParentRef parentRef conds c =
     (let parentConds = (case KeyMap_Get (rc_Conditions c) parentRef of None \<Rightarrow> [] | Some pc \<Rightarrow> pc)
      in c\<lparr>rc_Conditions := KeyMap_Set parentRef (MergeOverrideConditions parentConds conds) (rc_Conditions c)\<rparr>)"

definition RouteConditions_Equal :: "route_conditions \<Rightarrow> route_conditions \<Rightarrow> bool" where
  "RouteConditions_Equal c b =
     (if rc_ControllerName c \<noteq> rc_ControllerName b then False
      else if KeyMap_Len (rc_Conditions c) \<noteq> KeyMap_Len (rc_Conditions b) then False
      else KeyMap_Iterate (\<lambda>key valA equal.
             case KeyToParentRef key of
               Inl _ \<Rightarrow> (False, False)
             | Inr parentRef \<Rightarrow>
                 (case KeyMap_Get (rc_Conditions b) parentRef of
                    None \<Rightarrow> (False, False)
                  | Some valB \<Rightarrow> if \<not> Conditions_Equal valA valB then (False, False) else (True, equal)))
           (rc_Conditions c) True)"

definition RouteConditions_SetGeneration :: "int \<Rightarrow> route_conditions \<Rightarrow> route_conditions" where
  "RouteConditions_SetGeneration generation c =
     c\<lparr>rc_Conditions := (rc_Conditions c)
        \<lparr>km_data := map (\<lambda>(k, v). (k, SetGeneration generation v)) (km_data (rc_Conditions c))\<rparr>\<rparr>"

definition NewRouteConditionsFromV1RouteConditions ::
    "route_parent_status list \<Rightarrow> string \<Rightarrow> route_conditions" where
  "NewRouteConditionsFromV1RouteConditions parents controllerName =
     \<lparr>rc_Conditions = fold (\<lambda>pc m.
         if rps_controllerName pc \<noteq> controllerName then m
         else let conds = (case KeyMap_Get m (rps_parentRef pc) of None \<Rightarrow> [] | Some v \<Rightarrow> v)
              in KeyMap_Set (rps_parentRef pc)
                   (fold (\<lambda>c d. mput (mc_type c) (NewConditionFromMetav1Condition c) d) (rps_conditions pc) conds) m)
         parents (NewKeyMap ParentRefToKey),
      rc_ControllerName = controllerName\<rparr>"

definition ToV1RouteConditions :: "int \<Rightarrow> route_conditions \<Rightarrow> route_parent_status list" where
  "ToV1RouteConditions now c =
     KeyMap_Iterate (\<lambda>key conds parents.
         case KeyToParentRef key of
           Inl _ \<Rightarrow> (True, parents)
         | Inr parentRef \<Rightarrow>
             (True, parents @ [\<lparr>rps_parentRef = parentRef, rps_controllerName = rc_ControllerName c,
                                rps_conditions = ToMetav1Conditions now conds\<rparr>]))
       (rc_Conditions c) []"

definition RouteConditions_GetCondition :: "route_conditions \<Rightarrow> string \<Rightarrow> parent_reference \<Rightarrow> condition option" where
  "RouteConditions_GetCondition c conditionType parentRef =
     (case KeyMap_Get (rc_Conditions c) parentRef of
        None \<Rightarrow> None
      | Some parent \<Rightarrow> map_of parent conditionType)"

subsection \<open>Invariant\<close>

definition data_inv :: "(string, conditions) gomap \<Rightarrow> bool" where
  "data_inv d \<longleftrightarrow> wf_map d \<and>
     (\<forall>k v. map_of d k = Some v \<longrightarrow> coherent v \<and> (\<exists>p. plain_parent_ref p \<and> k = ParentRefToKey p))"

definition rc_inv :: "route_conditions \<Rightarrow> bool" where
  "rc_inv c \<longleftrightarrow> km_computeKey (rc_Conditions c) = ParentRefToKey \<and> data_inv (km_data (rc_Conditions c))"

lemma data_inv_entry:
  "data_inv d \<Longrightarrow> (k, v) \<in> set d \<Longrightarrow> coherent v \<and> (\<exists>p. plain_parent_ref p \<and> k = ParentRefToKey p)"
  by (auto simp: data_inv_def map_of_wf_mem)

lemma data_inv_key:
  "data_inv d \<Longrightarrow> (k, v) \<in> set d \<Longrightarrow> \<exists>p. KeyToParentRef k = Inr p \<and> ParentRefToKey p = k"
  using data_inv_entry prefs.dec_enc by metis

lemma rc_inv_new: "rc_inv (NewRouteConditionsFromV1RouteConditions [] n)"
  by (simp add: rc_inv_def data_inv_def NewRouteConditionsFromV1RouteConditions_def NewKeyMap_def)

lemma rc_inv_merge:
  assumes "rc_inv c" "plain_parent_ref p" "coherent conds"
  shows "rc_inv (MergeOverrideConditionsForParentRef p conds c)"
  using assms coherent_Merge[of _ conds]
  by (auto simp: rc_inv_def data_inv_def MergeOverrideConditionsForParentRef_def Let_def KeyMap_Set_def
      KeyMap_Get_def wf_mput map_of_mput split: option.splits if_splits)

lemma rc_inv_generation: "rc_inv c \<Longrightarrow> rc_inv (RouteConditions_SetGeneration g c)"
  using wf_map_values[of "km_data (rc_Conditions c)" "\<lambda>_. SetGeneration g"]
  by (auto simp: rc_inv_def data_inv_def RouteConditions_SetGeneration_def map_of_map_values
      coherent_SetGeneration)

text \<open>The conditions of one parent after a merge, the other parents being untouched.\<close>

lemma merge_get:
  assumes "rc_inv c" "plain_parent_ref p" "plain_parent_ref q" "coherent conds"
  shows "RouteConditions_GetCondition (MergeOverrideConditionsForParentRef p conds c) t q
     = (if p = q \<and> map_of conds t \<noteq> None then map_of conds t else RouteConditions_GetCondition c t q)"
proof -
  have "km_computeKey (rc_Conditions c) = ParentRefToKey" using assms(1) by (simp add: rc_inv_def)
  from prefs.get_set[OF this assms(2,3)] show ?thesis
    using assms(4) unfolding coherent_def
    by (auto simp: RouteConditions_GetCondition_def MergeOverrideConditionsForParentRef_def Let_def
        map_of_Merge_wf split: option.splits)
qed

subsection \<open>Equality\<close>

lemma Equal_loop:
  assumes "\<And>k v. (k, v) \<in> set d \<Longrightarrow> \<exists>p. KeyToParentRef k = Inr p \<and> ParentRefToKey p = k"
    and "km_computeKey b = ParentRefToKey"
  shows "iterate_data (\<lambda>key valA equal.
             case KeyToParentRef key of
               Inl _ \<Rightarrow> (False, False)
             | Inr parentRef \<Rightarrow>
                 (case KeyMap_Get b parentRef of
                    None \<Rightarrow> (False, False)
                  | Some valB \<Rightarrow> if \<not> Conditions_Equal valA valB then (False, False) else (True, equal))) d True
     \<longleftrightarrow> (\<forall>(k, v) \<in> set d. \<exists>v'. map_of (km_data b) k = Some v' \<and> Conditions_Equal v v')"
  using assms(1)
proof (induction d)
  case (Cons x d)
  obtain k v where x: "x = (k, v)" by (cases x)
  obtain p where p: "KeyToParentRef k = Inr p" "ParentRefToKey p = k" using Cons.prems x by auto
  have "KeyMap_Get b p = map_of (km_data b) k" using p assms(2) by (simp add: KeyMap_Get_def)
  with Cons p show ?case by (auto simp: x Let_def split: option.splits)
qed simp

lemma RouteConditions_Equal_iff:
  assumes "rc_inv c" "rc_inv b"
  shows "RouteConditions_Equal c b \<longleftrightarrow> rc_ControllerName c = rc_ControllerName b
    \<and> length (km_data (rc_Conditions c)) = length (km_data (rc_Conditions b))
    \<and> (\<forall>k v. map_of (km_data (rc_Conditions c)) k = Some v \<longrightarrow>
         (\<exists>v'. map_of (km_data (rc_Conditions b)) k = Some v' \<and> map_of v = map_of v'))"
proof -
  let ?d = "km_data (rc_Conditions c)" and ?e = "km_data (rc_Conditions b)"
  have inv: "data_inv ?d" "data_inv ?e" using assms by (auto simp: rc_inv_def)
  have "(\<forall>(k, v) \<in> set ?d. \<exists>v'. map_of ?e k = Some v' \<and> Conditions_Equal v v')
      \<longleftrightarrow> (\<forall>k v. map_of ?d k = Some v \<longrightarrow> (\<exists>v'. map_of ?e k = Some v' \<and> map_of v = map_of v'))"
    using inv Equal_iff unfolding data_inv_def
    by (simp add: map_of_wf_mem split_beta' Ball_def) blast
  then show ?thesis
    using Equal_loop[of ?d "rc_Conditions b"] data_inv_key[OF inv(1)] assms(2)
    by (simp add: RouteConditions_Equal_def KeyMap_Len_def KeyMap_Iterate_def rc_inv_def)
qed

subsection \<open>The Kubernetes list form\<close>

definition parent_row :: "int \<Rightarrow> string \<Rightarrow> string \<times> conditions \<Rightarrow> route_parent_status" where
  "parent_row now name kv = \<lparr>rps_parentRef = projr (KeyToParentRef (fst kv)), rps_controllerName = name,
     rps_conditions = ToMetav1Conditions now (snd kv)\<rparr>"

lemma ToV1_rows:
  assumes "rc_inv c"
  shows "ToV1RouteConditions now c = map (parent_row now (rc_ControllerName c)) (km_data (rc_Conditions c))"
proof -
  let ?cb = "\<lambda>key conds parents. case KeyToParentRef key of Inl _ \<Rightarrow> (True, parents)
     | Inr parentRef \<Rightarrow> (True, parents @ [\<lparr>rps_parentRef = parentRef, rps_controllerName = rc_ControllerName c,
                                rps_conditions = ToMetav1Conditions now conds\<rparr>])"
  have rows: "(\<And>k v. (k, v) \<in> set d \<Longrightarrow> \<exists>p. KeyToParentRef k = Inr p)
      \<Longrightarrow> iterate_data ?cb d acc = acc @ map (parent_row now (rc_ControllerName c)) d" for d acc
  proof (induction d arbitrary: acc)
    case (Cons x d)
    obtain k v where "x = (k, v)" by (cases x)
    with Cons.prems obtain q where "x = (k, v)" "KeyToParentRef k = Inr q" by auto
    moreover have "iterate_data ?cb d a = a @ map (parent_row now (rc_ControllerName c)) d" for a
      by (rule Cons.IH) (use Cons.prems in auto)
    ultimately show ?case by (simp add: parent_row_def)
  qed simp
  have "data_inv (km_data (rc_Conditions c))" using assms by (simp add: rc_inv_def)
  then have "\<exists>p. KeyToParentRef k = Inr p" if "(k, v) \<in> set (km_data (rc_Conditions c))" for k v
    using data_inv_key that by blast
  then have "iterate_data ?cb (km_data (rc_Conditions c)) []
      = [] @ map (parent_row now (rc_ControllerName c)) (km_data (rc_Conditions c))" by (rule rows)
  then show ?thesis by (simp add: ToV1RouteConditions_def KeyMap_Iterate_def)
qed

lemma mput_fresh: "k \<notin> mkeys m \<Longrightarrow> mput k v m = m @ [(k, v)]"
  by (induction m) auto

lemma rows_back:
  assumes "data_inv (acc @ d)"
  shows "fold (\<lambda>pc m. if rps_controllerName pc \<noteq> name then m
         else let conds = (case KeyMap_Get m (rps_parentRef pc) of None \<Rightarrow> [] | Some v \<Rightarrow> v)
              in KeyMap_Set (rps_parentRef pc)
                   (fold (\<lambda>c d. mput (mc_type c) (NewConditionFromMetav1Condition c) d) (rps_conditions pc) conds) m)
         (map (parent_row now name) d) \<lparr>km_data = acc, km_computeKey = ParentRefToKey\<rparr>
       = \<lparr>km_data = acc @ d, km_computeKey = ParentRefToKey\<rparr>"
  using assms
proof (induction d arbitrary: acc)
  case (Cons x d)
  obtain k v where x: "x = (k, v)" by (cases x)
  obtain q where q: "KeyToParentRef k = Inr q" "ParentRefToKey q = k"
    using data_inv_key[OF Cons.prems, of k v] x by auto
  have "k \<notin> mkeys acc" using Cons.prems x by (auto simp: data_inv_def wf_map_def mkeys_def)
  moreover have "coherent v" using data_inv_entry[OF Cons.prems, of k v] x by auto
  ultimately have "KeyMap_Get \<lparr>km_data = acc, km_computeKey = ParentRefToKey\<rparr> q = None"
    "KeyMap_Set q v \<lparr>km_data = acc, km_computeKey = ParentRefToKey\<rparr>
       = \<lparr>km_data = acc @ [x], km_computeKey = ParentRefToKey\<rparr>"
    "fold (\<lambda>c d. mput (mc_type c) (NewConditionFromMetav1Condition c) d) (ToMetav1Conditions now v) [] = v"
    using q list_roundtrip[of v now]
    by (simp_all add: KeyMap_Get_def KeyMap_Set_def mput_fresh x map_of_None_mkeys
        NewConditionsFromMetav1Conditions_def)
  then show ?case using Cons.IH[of "acc @ [x]"] Cons.prems q by (simp add: x parent_row_def Let_def)
qed simp

text \<open>C19: the conditions of a route, kept per parent reference, survive the conversion to the
  status list of the route and back, and the status comparison that decides whether a status is
  written is exact: it holds for two route conditions exactly when they have the same controller, the same
  parents and, for each parent, the same conditions.\<close>

theorem route_conditions_roundtrip:
  assumes "rc_inv c" "rc_inv b"
  shows "NewRouteConditionsFromV1RouteConditions (ToV1RouteConditions now c) (rc_ControllerName c) = c
    \<and> (RouteConditions_Equal c b \<longleftrightarrow> rc_ControllerName c = rc_ControllerName b
        \<and> length (km_data (rc_Conditions c)) = length (km_data (rc_Conditions b))
        \<and> (\<forall>k v. map_of (km_data (rc_Conditions c)) k = Some v \<longrightarrow>
             (\<exists>v'. map_of (km_data (rc_Conditions b)) k = Some v' \<and> map_of v = map_of v')))"
proof
  have "data_inv ([] @ km_data (rc_Conditions c))" "km_computeKey (rc_Conditions c) = ParentRefToKey"
    using assms(1) by (simp_all add: rc_inv_def)
  from rows_back[OF this(1), of "rc_ControllerName c" now] this(2)
  show "NewRouteConditionsFromV1RouteConditions (ToV1RouteConditions now c) (rc_ControllerName c) = c"
    by (simp add: NewRouteConditionsFromV1RouteConditions_def ToV1_rows[OF assms(1)] NewKeyMap_def)
  show "RouteConditions_Equal c b \<longleftrightarrow> rc_ControllerName c = rc_ControllerName b
        \<and> length (km_data (rc_Conditions c)) = length (km_data (rc_Conditions b))
        \<and> (\<forall>k v. map_of (km_data (rc_Conditions c)) k = Some v \<longrightarrow>
             (\<exists>v'. map_of (km_data (rc_Conditions b)) k = Some v' \<and> map_of v = map_of v'))"
    by (rule RouteConditions_Equal_iff[OF assms])
qed

definition rc_example :: route_conditions where
  "rc_example = MergeOverrideConditionsForParentRef ref_http ConditionAccepted
     (NewRouteConditionsFromV1RouteConditions [] ''hug'')"

theorem route_conditions_roundtrip_witness:
  "NewRouteConditionsFromV1RouteConditions (ToV1RouteConditions 3 rc_example) (rc_ControllerName rc_example) = rc_example
   \<and> km_data (rc_Conditions rc_example) \<noteq> []"
proof
  have "plain_parent_ref ref_http"
    by (simp add: ref_http_def plain_parent_ref_def plain_ptr_def plain_part_def)
  then have "rc_inv rc_example"
    unfolding rc_example_def by (rule rc_inv_merge[OF rc_inv_new]) simp
  from route_conditions_roundtrip[OF this this]
  show "NewRouteConditionsFromV1RouteConditions (ToV1RouteConditions 3 rc_example) (rc_ControllerName rc_example) = rc_example"
    by blast
  show "km_data (rc_Conditions rc_example) \<noteq> []"
    by (simp add: rc_example_def MergeOverrideConditionsForParentRef_def Let_def KeyMap_Set_def
        NewRouteConditionsFromV1RouteConditions_def NewKeyMap_def)
qed

end
