(* ===== verification/EventLoop.thy ===== *)
theory EventLoop
  imports Prelude
begin

text \<open>
  \<open>k8s/gate/handler/monitor.go\<close>: the loop that collects events into batches and hands
  the batches to the handler, which runs in a goroutine of its own.

  The two batches are slices that share their backing arrays with the goroutine, so the arrays are
  an explicit heap.  \<open>extra\<close> is the spare capacity that \<open>append\<close> gives to a new array of
  a given length (Go leaves it open).  Logging is left out.  The select statement is
  nondeterministic: an action of the loop, of a goroutine or of the environment is one transition,
  and every order of enabled actions is a run.
\<close>

record slice =
  sl_arr :: nat
  sl_len :: nat
  sl_cap :: nat

record slice_batch =
  Events :: slice
  BatchID :: int

datatype goroutine = Running slice_batch | Sending

datatype loop_phase = Looping | Draining | Returned

record loop_config =
  SyncPeriod :: int
  StartupSyncPeriod :: int

record 'e event_loop =
  el_heap :: "nat \<Rightarrow> 'e list"
  el_fresh :: nat
  el_currentBatch :: slice_batch
  el_nextBatch :: slice_batch
  el_timer :: "int option"
  el_handling :: bool
  el_isStartup :: bool
  el_goroutines :: "goroutine list"
  el_phase :: loop_phase

definition NewEventLoop :: "'e event_loop" where
  "NewEventLoop =
     \<lparr>el_heap = (\<lambda>_. []), el_fresh = 2,
      el_currentBatch = \<lparr>Events = \<lparr>sl_arr = 0, sl_len = 0, sl_cap = 0\<rparr>, BatchID = 0\<rparr>,
      el_nextBatch = \<lparr>Events = \<lparr>sl_arr = 1, sl_len = 0, sl_cap = 0\<rparr>, BatchID = 1\<rparr>,
      el_timer = None, el_handling = False, el_isStartup = True, el_goroutines = [], el_phase = Looping\<rparr>"

subsection \<open>Slices\<close>

definition contents :: "(nat \<Rightarrow> 'e list) \<Rightarrow> slice \<Rightarrow> 'e list" where
  "contents heap sl = take (sl_len sl) (heap (sl_arr sl))"

text \<open>\<open>append\<close> writes into the backing array when it has room, whoever shares it, and moves to a
  new array otherwise.\<close>

definition append_next :: "(nat \<Rightarrow> nat) \<Rightarrow> 'e \<Rightarrow> 'e event_loop \<Rightarrow> 'e event_loop" where
  "append_next extra e el =
     (let sl = Events (el_nextBatch el); a = sl_arr sl; n = sl_len sl; cells = el_heap el a in
      if n < sl_cap sl
      then el\<lparr>el_heap := (el_heap el)(a := take n cells @ e # drop (Suc n) cells),
              el_nextBatch := (el_nextBatch el)\<lparr>Events := sl\<lparr>sl_len := Suc n\<rparr>\<rparr>\<rparr>
      else el\<lparr>el_heap := (el_heap el)(el_fresh el := take n cells @ [e]), el_fresh := Suc (el_fresh el),
              el_nextBatch := (el_nextBatch el)
                \<lparr>Events := \<lparr>sl_arr = el_fresh el, sl_len = Suc n, sl_cap = Suc n + extra (Suc n)\<rparr>\<rparr>\<rparr>)"

subsection \<open>Operations\<close>

definition sleepTime :: "loop_config \<Rightarrow> 'e event_loop \<Rightarrow> int \<times> 'e event_loop" where
  "sleepTime cfg el =
     (if el_isStartup el
      then ((if StartupSyncPeriod cfg = 0 then SyncPeriod cfg else StartupSyncPeriod cfg), el\<lparr>el_isStartup := False\<rparr>)
      else (SyncPeriod cfg, el))"

definition startTimer :: "loop_config \<Rightarrow> 'e event_loop \<Rightarrow> 'e event_loop" where
  "startTimer cfg el =
     (case el_timer el of
        Some _ \<Rightarrow> el
      | None \<Rightarrow> let (d, el') = sleepTime cfg el in el'\<lparr>el_timer := Some d\<rparr>)"

definition stopTimer :: "'e event_loop \<Rightarrow> 'e event_loop" where
  "stopTimer el = el\<lparr>el_timer := None\<rparr>"

definition swapBatches :: "'e event_loop \<Rightarrow> 'e event_loop" where
  "swapBatches el =
     (let cur = el_nextBatch el; nxt = el_currentBatch el
      in el\<lparr>el_currentBatch := cur,
            el_nextBatch := nxt\<lparr>Events := (Events nxt)\<lparr>sl_len := 0\<rparr>, BatchID := BatchID cur + 1\<rparr>\<rparr>)"

definition handleBatch :: "'e event_loop \<Rightarrow> 'e event_loop" where
  "handleBatch el = el\<lparr>el_handling := True, el_goroutines := el_goroutines el @ [Running (el_currentBatch el)]\<rparr>"

definition swapAndHandleBatch :: "'e event_loop \<Rightarrow> 'e event_loop" where
  "swapAndHandleBatch el = handleBatch (swapBatches el)"

subsection \<open>The loop\<close>

text \<open>\<open>Receive\<close>, \<open>TimerTick\<close>, \<open>HandlingDone\<close> and \<open>CtxDone\<close> are the cases of the select
  statement; \<open>HandlerReturns i\<close> is the end of the handler in the \<open>i\<close>-th goroutine, which then
  blocks on the unbuffered channel; \<open>Drained\<close> is the receive after the context is done.\<close>

datatype 'e loop_action = Receive 'e | TimerTick | HandlingDone nat | CtxDone | HandlerReturns nat | Drained nat

definition sending :: "'e event_loop \<Rightarrow> nat \<Rightarrow> bool" where
  "sending el i \<longleftrightarrow> i < length (el_goroutines el) \<and> el_goroutines el ! i = Sending"

definition end_goroutine :: "nat \<Rightarrow> 'e event_loop \<Rightarrow> 'e event_loop" where
  "end_goroutine i el = el\<lparr>el_goroutines := take i (el_goroutines el) @ drop (Suc i) (el_goroutines el)\<rparr>"

definition tick_hands_over :: "'e event_loop \<Rightarrow> bool" where
  "tick_hands_over el \<longleftrightarrow> \<not> el_handling el \<and> sl_len (Events (el_nextBatch el)) > 0"

fun loop_step :: "loop_config \<Rightarrow> (nat \<Rightarrow> nat) \<Rightarrow> 'e loop_action \<Rightarrow> 'e event_loop \<Rightarrow> 'e event_loop option" where
  "loop_step cfg extra (Receive e) el =
     (if el_phase el \<noteq> Looping then None
      else let el1 = append_next extra e el
           in Some (if BatchID (el_nextBatch el1) = 1 then startTimer cfg el1 else el1))"
| "loop_step cfg extra TimerTick el =
     (if el_phase el \<noteq> Looping \<or> el_timer el = None then None
      else let el1 = el\<lparr>el_timer := None\<rparr>
           in Some (if tick_hands_over el1 then swapAndHandleBatch el1 else startTimer cfg el1))"
| "loop_step cfg extra (HandlingDone i) el =
     (if el_phase el \<noteq> Looping \<or> \<not> sending el i then None
      else Some (startTimer cfg ((end_goroutine i el)\<lparr>el_handling := False\<rparr>)))"
| "loop_step cfg extra CtxDone el =
     (if el_phase el \<noteq> Looping then None
      else Some ((stopTimer el)\<lparr>el_phase := if el_handling el then Draining else Returned\<rparr>))"
| "loop_step cfg extra (HandlerReturns i) el =
     (if i < length (el_goroutines el) \<and> el_goroutines el ! i \<noteq> Sending
      then Some (el\<lparr>el_goroutines := (el_goroutines el)[i := Sending]\<rparr>) else None)"
| "loop_step cfg extra (Drained i) el =
     (if el_phase el \<noteq> Draining \<or> \<not> sending el i then None
      else Some ((end_goroutine i el)\<lparr>el_phase := Returned\<rparr>))"

text \<open>What an action takes from the channel, and the batch it hands to a new goroutine.\<close>

fun received :: "'e loop_action \<Rightarrow> 'e list" where
  "received (Receive e) = [e]"
| "received _ = []"

definition handed :: "'e loop_action \<Rightarrow> 'e event_loop \<Rightarrow> (int \<times> 'e list) list" where
  "handed a el =
     (case a of TimerTick \<Rightarrow>
        if el_phase el = Looping \<and> el_timer el \<noteq> None \<and> tick_hands_over el
        then [(BatchID (el_nextBatch el), contents (el_heap el) (Events (el_nextBatch el)))] else []
      | _ \<Rightarrow> [])"

text \<open>The states of all runs, with the events received and the batches handed over so far.\<close>

inductive loop_reach :: "loop_config \<Rightarrow> (nat \<Rightarrow> nat) \<Rightarrow> 'e event_loop \<Rightarrow> 'e list \<Rightarrow> (int \<times> 'e list) list \<Rightarrow> bool"
  for cfg extra where
  start: "loop_reach cfg extra NewEventLoop [] []"
| step: "loop_reach cfg extra el r h \<Longrightarrow> loop_step cfg extra a el = Some el'
    \<Longrightarrow> loop_reach cfg extra el' (r @ received a) (h @ handed a el)"

fun loop_run :: "loop_config \<Rightarrow> (nat \<Rightarrow> nat) \<Rightarrow> 'e loop_action list \<Rightarrow> 'e event_loop \<Rightarrow> ('e event_loop \<times> (int \<times> 'e list) list) option" where
  "loop_run cfg extra [] el = Some (el, [])"
| "loop_run cfg extra (a # as) el =
     (case loop_step cfg extra a el of
        None \<Rightarrow> None
      | Some el' \<Rightarrow> map_option (\<lambda>(el'', h). (el'', handed a el @ h)) (loop_run cfg extra as el'))"

subsection \<open>The invariant\<close>

definition slices_ok :: "'e event_loop \<Rightarrow> bool" where
  "slices_ok el \<longleftrightarrow>
     sl_arr (Events (el_nextBatch el)) \<noteq> sl_arr (Events (el_currentBatch el))
     \<and> sl_arr (Events (el_nextBatch el)) < el_fresh el \<and> sl_arr (Events (el_currentBatch el)) < el_fresh el
     \<and> sl_len (Events (el_nextBatch el)) \<le> length (el_heap el (sl_arr (Events (el_nextBatch el))))"

definition goroutines_ok :: "'e event_loop \<Rightarrow> (int \<times> 'e list) list \<Rightarrow> bool" where
  "goroutines_ok el h \<longleftrightarrow>
     (el_goroutines el = [] \<or> el_goroutines el = [Sending]
      \<or> el_goroutines el = [Running (el_currentBatch el)] \<and> h \<noteq> []
        \<and> last h = (BatchID (el_currentBatch el), contents (el_heap el) (Events (el_currentBatch el))))
     \<and> (el_phase el = Looping \<longrightarrow> (el_handling el \<longleftrightarrow> el_goroutines el \<noteq> []))"

definition loop_inv :: "'e event_loop \<Rightarrow> 'e list \<Rightarrow> (int \<times> 'e list) list \<Rightarrow> bool" where
  "loop_inv el r h \<longleftrightarrow> slices_ok el \<and> goroutines_ok el h
     \<and> r = concat (map snd h) @ contents (el_heap el) (Events (el_nextBatch el))
     \<and> BatchID (el_nextBatch el) = int (length h) + 1
     \<and> map fst h = map (\<lambda>i. int i + 1) [0..<length h] \<and> [] \<notin> snd ` set h
     \<and> (el_phase el = Looping \<longrightarrow> el_timer el \<noteq> None \<or> el_handling el \<or> h = [] \<and> r = [])"

lemma startTimer_fields [simp]:
  "el_heap (startTimer cfg el) = el_heap el" "el_fresh (startTimer cfg el) = el_fresh el"
  "el_currentBatch (startTimer cfg el) = el_currentBatch el" "el_nextBatch (startTimer cfg el) = el_nextBatch el"
  "el_handling (startTimer cfg el) = el_handling el" "el_goroutines (startTimer cfg el) = el_goroutines el"
  "el_phase (startTimer cfg el) = el_phase el" "el_timer (startTimer cfg el) \<noteq> None"
  by (auto simp: startTimer_def sleepTime_def split: option.split)

lemma startTimer_inv:
  "slices_ok (startTimer cfg el) = slices_ok el" "goroutines_ok (startTimer cfg el) h = goroutines_ok el h"
  by (simp_all add: slices_ok_def goroutines_ok_def)

lemma append_next_ok:
  assumes "slices_ok el"
  shows "slices_ok (append_next extra e el)"
    "contents (el_heap (append_next extra e el)) (Events (el_nextBatch (append_next extra e el)))
       = contents (el_heap el) (Events (el_nextBatch el)) @ [e]"
    "contents (el_heap (append_next extra e el)) (Events (el_currentBatch el)) = contents (el_heap el) (Events (el_currentBatch el))"
  using assms by (auto simp: slices_ok_def append_next_def Let_def contents_def)

lemma append_next_fields [simp]:
  "el_currentBatch (append_next extra e el) = el_currentBatch el" "el_timer (append_next extra e el) = el_timer el"
  "el_handling (append_next extra e el) = el_handling el" "el_goroutines (append_next extra e el) = el_goroutines el"
  "el_phase (append_next extra e el) = el_phase el" "BatchID (el_nextBatch (append_next extra e el)) = BatchID (el_nextBatch el)"
  by (simp_all add: append_next_def Let_def)

lemma inv_receive:
  assumes "loop_inv el r h" "loop_step cfg extra (Receive e) el = Some el'"
  shows "loop_inv el' (r @ [e]) h"
proof -
  let ?el1 = "append_next extra e el"
  have s: "slices_ok el" and g: "goroutines_ok el h" using assms(1) by (auto simp: loop_inv_def)
  note ok = append_next_ok[OF s, of extra e]
  have g1: "goroutines_ok ?el1 h" using g by (simp add: goroutines_ok_def ok(3))
  have "el' = (if BatchID (el_nextBatch el) = 1 then startTimer cfg ?el1 else ?el1)" "el_phase el = Looping"
    using assms(2) by (auto simp: Let_def split: if_splits)
  then show ?thesis using assms(1) ok g1 by (auto simp: loop_inv_def startTimer_inv)
qed

lemma swap_ok:
  assumes "slices_ok el" shows "slices_ok (swapAndHandleBatch el)"
  using assms by (auto simp: slices_ok_def swapAndHandleBatch_def swapBatches_def handleBatch_def Let_def)

lemma swap_fields [simp]:
  "el_currentBatch (swapAndHandleBatch el) = el_nextBatch el" "el_heap (swapAndHandleBatch el) = el_heap el"
  "el_handling (swapAndHandleBatch el)" "el_phase (swapAndHandleBatch el) = el_phase el"
  "el_goroutines (swapAndHandleBatch el) = el_goroutines el @ [Running (el_nextBatch el)]"
  "BatchID (el_nextBatch (swapAndHandleBatch el)) = BatchID (el_nextBatch el) + 1"
  "contents heap (Events (el_nextBatch (swapAndHandleBatch el))) = []"
  by (simp_all add: swapAndHandleBatch_def swapBatches_def handleBatch_def Let_def contents_def)

lemma inv_tick:
  assumes "loop_inv el r h" "loop_step cfg extra TimerTick el = Some el'"
  shows "loop_inv el' r (h @ handed TimerTick el)"
proof -
  let ?el1 = "el\<lparr>el_timer := None\<rparr>"
  have s: "slices_ok ?el1" using assms(1) by (simp add: loop_inv_def slices_ok_def)
  have p: "el_phase el = Looping" "el_timer el \<noteq> None" using assms(2) by (auto split: if_splits)
  show ?thesis
  proof (cases "tick_hands_over el")
    case True
    then have el': "el' = swapAndHandleBatch ?el1" using assms(2) p by (simp add: tick_hands_over_def Let_def)
    have hd: "handed TimerTick el = [(BatchID (el_nextBatch el), contents (el_heap el) (Events (el_nextBatch el)))]"
      using p True by (simp add: handed_def)
    have "el_goroutines el = []" using assms(1) True p by (auto simp: loop_inv_def goroutines_ok_def tick_hands_over_def)
    then have "goroutines_ok el' (h @ handed TimerTick el)" unfolding el' hd by (simp add: goroutines_ok_def)
    moreover have "contents (el_heap el) (Events (el_nextBatch el)) \<noteq> []"
      using True assms(1) by (auto simp: tick_hands_over_def contents_def loop_inv_def slices_ok_def)
    ultimately show ?thesis using assms(1) swap_ok[OF s] by (auto simp: loop_inv_def el' hd)
  next
    case False
    then have "el' = startTimer cfg ?el1" "handed TimerTick el = []"
      using assms(2) p by (auto simp: tick_hands_over_def Let_def handed_def)
    then show ?thesis using assms(1) s by (auto simp: loop_inv_def startTimer_inv goroutines_ok_def)
  qed
qed

lemma one_goroutine:
  "goroutines_ok el h \<Longrightarrow> i < length (el_goroutines el) \<Longrightarrow> i = 0 \<and> length (el_goroutines el) = 1"
  by (auto simp: goroutines_ok_def)

lemma inv_goroutine_steps:
  assumes "loop_inv el r h" "loop_step cfg extra a el = Some el'" "a = HandlingDone i \<or> a = Drained i \<or> a = HandlerReturns i"
  shows "loop_inv el' r h"
proof -
  have g: "goroutines_ok el h" using assms(1) by (simp add: loop_inv_def)
  have "i < length (el_goroutines el)" using assms(2,3) by (auto simp: sending_def split: if_splits)
  note i = one_goroutine[OF g this]
  then have e: "el_goroutines (end_goroutine i el) = []" by (simp add: end_goroutine_def)
  have f: "el_heap (end_goroutine i el) = el_heap el" "slices_ok (end_goroutine i el) = slices_ok el"
    "el_nextBatch (end_goroutine i el) = el_nextBatch el" by (simp_all add: end_goroutine_def slices_ok_def)
  show ?thesis using assms(3)
  proof (elim disjE)
    assume a: "a = HandlingDone i"
    let ?el1 = "(end_goroutine i el)\<lparr>el_handling := False\<rparr>"
    have "el' = startTimer cfg ?el1" using assms(2) by (simp add: a split: if_splits)
    moreover have "slices_ok ?el1" "goroutines_ok ?el1 h"
      using e f assms(1) by (simp_all add: goroutines_ok_def loop_inv_def slices_ok_def)
    ultimately show ?thesis using assms(1) f by (simp add: loop_inv_def startTimer_inv)
  next
    assume a: "a = Drained i"
    have "el' = (end_goroutine i el)\<lparr>el_phase := Returned\<rparr>" using assms(2) by (simp add: a split: if_splits)
    then show ?thesis using assms(1) e f by (simp add: loop_inv_def goroutines_ok_def slices_ok_def)
  next
    assume a: "a = HandlerReturns i"
    have "el' = el\<lparr>el_goroutines := [Sending]\<rparr>" "el_goroutines el \<noteq> []"
      using assms(2) i by (cases "el_goroutines el"; simp add: a split: if_splits)+
    then show ?thesis using assms(1) by (simp add: loop_inv_def goroutines_ok_def slices_ok_def)
  qed
qed

lemma loop_reach_inv: "loop_reach cfg extra el r h \<Longrightarrow> loop_inv el r h"
proof (induction rule: loop_reach.induct)
  case start
  show ?case by (simp add: loop_inv_def NewEventLoop_def slices_ok_def goroutines_ok_def contents_def)
next
  case (step el r h a el')
  show ?case
  proof (cases a)
    case (Receive e) then show ?thesis using inv_receive step by (simp add: handed_def)
  next
    case TimerTick then show ?thesis using inv_tick step by simp
  next
    case CtxDone
    then have "el' = (stopTimer el)\<lparr>el_phase := if el_handling el then Draining else Returned\<rparr>"
      using step.hyps by (simp split: if_splits)
    then show ?thesis using step.IH CtxDone by (simp add: loop_inv_def handed_def stopTimer_def slices_ok_def goroutines_ok_def)
  qed (use inv_goroutine_steps[OF step.IH step.hyps(2)] in \<open>auto simp: handed_def\<close>)
qed

subsection \<open>Delivery\<close>

text \<open>C8: in every run of the event loop, whatever the interleaving of events, timer, handler and
  shutdown: at most one goroutine exists; the batches handed over are numbered 1, 2, 3, ..., none is
  empty, and together with the pending batch they are exactly the received events in order, so that
  none is lost, repeated or reordered; and while a handler runs, the slice it was given still holds the events it
  was given, although the loop appends to a recycled array at the same time.\<close>

theorem event_loop_delivery:
  assumes "loop_reach cfg extra el r h"
  shows "length (el_goroutines el) \<le> 1
    \<and> map fst h = map (\<lambda>i. int i + 1) [0..<length h] \<and> [] \<notin> snd ` set h
    \<and> r = concat (map snd h) @ contents (el_heap el) (Events (el_nextBatch el))
    \<and> (\<forall>b. Running b \<in> set (el_goroutines el) \<longrightarrow> h \<noteq> [] \<and> (BatchID b, contents (el_heap el) (Events b)) = last h)"
  using loop_reach_inv[OF assms] by (auto simp: loop_inv_def goroutines_ok_def)

definition demo_config :: loop_config where
  "demo_config = \<lparr>SyncPeriod = 5, StartupSyncPeriod = 1\<rparr>"

definition demo_actions :: "int loop_action list" where
  "demo_actions = [Receive 10, Receive 20, TimerTick, Receive 30, HandlerReturns 0, HandlingDone 0, TimerTick, Receive 40]"

lemma demo_loop_run:
  "map_option (\<lambda>(el, h). (el_goroutines el, contents (el_heap el) (Events (el_nextBatch el)), el_timer el, h))
     (loop_run demo_config (\<lambda>_. 1) demo_actions NewEventLoop)
   = Some ([Running \<lparr>Events = \<lparr>sl_arr = 3, sl_len = 1, sl_cap = 2\<rparr>, BatchID = 2\<rparr>], [40], None, [(1, [10, 20]), (2, [30])])"
  by code_simp

lemma loop_reach_run:
  "loop_reach cfg extra el r h \<Longrightarrow> loop_run cfg extra as el = Some (el', h')
     \<Longrightarrow> loop_reach cfg extra el' (r @ concat (map received as)) (h @ h')"
proof (induction as arbitrary: el r h h')
  case (Cons a as)
  from Cons.prems(2) obtain el1 h1 where s: "loop_step cfg extra a el = Some el1"
    "loop_run cfg extra as el1 = Some (el', h1)" "h' = handed a el @ h1"
    by (auto split: option.splits)
  from Cons.IH[OF loop_reach.step[OF Cons.prems(1) s(1)] s(2)] show ?case by (simp add: s(3))
qed simp

text \<open>C26: the event loop does not get stuck with events: in every reachable state of a loop that
  was not stopped, if events are pending then within three actions (the handler returning, its
  completion being received, the timer firing) the whole pending batch is handed to the handler.\<close>

theorem event_loop_progress:
  assumes "loop_reach cfg extra el r h" "el_phase el = Looping"
    and "contents (el_heap el) (Events (el_nextBatch el)) \<noteq> []"
  shows "\<exists>as el'. length as \<le> 3
    \<and> loop_run cfg extra as el = Some (el', [(BatchID (el_nextBatch el), contents (el_heap el) (Events (el_nextBatch el)))])"
proof -
  have inv: "loop_inv el r h" by (rule loop_reach_inv[OF assms(1)])
  have n: "sl_len (Events (el_nextBatch el)) > 0" using assms(3) by (auto simp: contents_def)
  have tick: "\<exists>e2. loop_run cfg extra [TimerTick] e1
      = Some (e2, [(BatchID (el_nextBatch e1), contents (el_heap e1) (Events (el_nextBatch e1)))])"
    if "el_phase e1 = Looping" "el_timer e1 \<noteq> None" "\<not> el_handling e1" "sl_len (Events (el_nextBatch e1)) > 0" for e1 :: "'a event_loop"
    using that by (simp add: handed_def tick_hands_over_def Let_def)
  have done0: "\<exists>e2. loop_run cfg extra [HandlingDone 0, TimerTick] e1
      = Some (e2, [(BatchID (el_nextBatch e1), contents (el_heap e1) (Events (el_nextBatch e1)))])"
    if "el_phase e1 = Looping" "el_goroutines e1 = [Sending]" "sl_len (Events (el_nextBatch e1)) > 0" for e1 :: "'a event_loop"
    using that tick[of "startTimer cfg ((end_goroutine 0 e1)\<lparr>el_handling := False\<rparr>)"]
    by (auto simp: sending_def handed_def end_goroutine_def simp del: loop_step.simps(2))
  consider "el_goroutines el = []" | "el_goroutines el = [Sending]" | b where "el_goroutines el = [Running b]"
    using inv by (auto simp: loop_inv_def goroutines_ok_def)
  then show ?thesis
  proof cases
    case 1
    then have "\<not> el_handling el" "el_timer el \<noteq> None"
      using inv assms(2,3) by (auto simp: loop_inv_def goroutines_ok_def)
    then show ?thesis using tick[of el] assms(2) n by (intro exI[of _ "[TimerTick]"]) auto
  next
    case 2
    then show ?thesis using done0[of el] assms(2) n by (intro exI[of _ "[HandlingDone 0, TimerTick]"]) auto
  next
    case 3
    then show ?thesis using done0[of "el\<lparr>el_goroutines := [Sending]\<rparr>"] assms(2) n
      by (intro exI[of _ "[HandlerReturns 0, HandlingDone 0, TimerTick]"])
        (auto simp: handed_def simp del: loop_step.simps(1-4))
  qed
qed

text \<open>Witnesses: the second batch is in the hands of its goroutine while event 40 is written into
  the array of the first.\<close>

definition demo_loop :: "int event_loop" where
  "demo_loop = fst (the (loop_run demo_config (\<lambda>_. 1) demo_actions NewEventLoop))"

lemma demo_loop_reach: "loop_reach demo_config (\<lambda>_. 1) demo_loop [10, 20, 30, 40] [(1, [10, 20]), (2, [30])]"
proof -
  obtain el h where run: "loop_run demo_config (\<lambda>_. 1) demo_actions NewEventLoop = Some (el, h)" "h = [(1, [10, 20]), (2, [30])]"
    using demo_loop_run by auto
  then have "loop_reach demo_config (\<lambda>_. 1) el ([] @ concat (map received demo_actions)) ([] @ h)"
    by (intro loop_reach_run[OF loop_reach.start])
  then show ?thesis using run by (simp add: demo_loop_def demo_actions_def)
qed

theorem event_loop_delivery_witness:
  "contents (el_heap demo_loop) (Events (el_nextBatch demo_loop)) = [40]
   \<and> (\<exists>b. el_goroutines demo_loop = [Running b] \<and> contents (el_heap demo_loop) (Events b) = [30])"
proof -
  have "el_goroutines demo_loop = [Running \<lparr>Events = \<lparr>sl_arr = 3, sl_len = 1, sl_cap = 2\<rparr>, BatchID = 2\<rparr>]"
    by code_simp
  then show ?thesis using event_loop_delivery[OF demo_loop_reach] by simp
qed

theorem event_loop_progress_witness:
  "\<exists>as el'. length as \<le> 3 \<and> loop_run demo_config (\<lambda>_. 1) as demo_loop = Some (el', [(3, [40])])"
proof -
  have "el_phase demo_loop = Looping \<and> contents (el_heap demo_loop) (Events (el_nextBatch demo_loop)) = [40] \<and> BatchID (el_nextBatch demo_loop) = 3"
    by code_simp
  then show ?thesis using event_loop_progress[OF demo_loop_reach] by simp
qed

end
