(* ===== verification/ObjectStore.thy ===== *)
theory ObjectStore
  imports K8sTypes
begin

text \<open>
  \<open>k8s/gate/store/object-store.go\<close> and the update records of \<open>cluster-updates.go\<close>:
  one typed store per resource kind, holding the current objects and, for the current sync cycle,
  one update per touched key with the object before the cycle and the object now.

  The locale \<open>object_store\<close> states what a store promises; its consequence for a whole
  cycle of events is proved once inside it.  It is interpreted on \<open>objectStoreImpl\<close> here
  and on the cluster store (all kinds at once) in \<open>ClusterStore\<close>.
\<close>

datatype status = StatusUpserted | StatusDeleted | StatusUnchanged

text \<open>\<open>store.Update[T]\<close>; \<open>T\<close> is a pointer type, so a zero value is \<open>None\<close>.\<close>

record 't update =
  OldObject :: "'t option"
  NewObject :: "'t option"
  Status :: status
  Indirect :: bool

definition update0 :: "'t update" where
  "update0 = \<lparr>OldObject = None, NewObject = None, Status = StatusUnchanged, Indirect = False\<rparr>"

record 't objectStoreImpl =
  objects :: "(namespaced_name, 't) gomap"
  updates :: "(namespaced_name, 't update) gomap"

definition newObjectStoreImpl ::
    "(namespaced_name, 't) gomap \<Rightarrow> (namespaced_name, 't update) gomap \<Rightarrow> 't objectStoreImpl" where
  "newObjectStoreImpl objs upds = \<lparr>objects = objs, updates = upds\<rparr>"

text \<open>\<open>cast\<close> is the type assertion \<open>obj.(T)\<close>.\<close>

definition os_upsert :: "(k8s_object \<Rightarrow> 't option) \<Rightarrow> k8s_object \<Rightarrow> 't objectStoreImpl \<Rightarrow> 't objectStoreImpl" where
  "os_upsert cast obj m =
     (case cast obj of
        None \<Rightarrow> m
      | Some t \<Rightarrow>
          let key = ObjectKeyFromObject obj;
              previousObj = map_of (objects m) key;
              update = (case map_of (updates m) key of
                          None \<Rightarrow> update0\<lparr>OldObject := previousObj\<rparr>
                        | Some u \<Rightarrow> u)
          in m\<lparr>objects := mput key t (objects m),
               updates := mput key (update\<lparr>Status := StatusUpserted, NewObject := Some t\<rparr>) (updates m)\<rparr>)"

definition os_delete :: "namespaced_name \<Rightarrow> 't objectStoreImpl \<Rightarrow> 't objectStoreImpl" where
  "os_delete nsname m =
     (let previousObj = map_of (objects m) nsname;
          update = (case map_of (updates m) nsname of
                      None \<Rightarrow> update0\<lparr>OldObject := previousObj\<rparr>
                    | Some u \<Rightarrow> u)
      in m\<lparr>objects := mdel nsname (objects m),
           updates := mput nsname (update\<lparr>Status := StatusDeleted, NewObject := None\<rparr>) (updates m)\<rparr>)"

definition os_resetUpdates :: "'t objectStoreImpl \<Rightarrow> 't objectStoreImpl" where
  "os_resetUpdates m = m\<lparr>updates := ClearMap (updates m)\<rparr>"

subsection \<open>The contract of a store\<close>

text \<open>What a write leaves in the update map, given the objects and updates before it.\<close>

definition note_write :: "'v option \<Rightarrow> 'v option \<Rightarrow> 'v update option \<Rightarrow> 'v update" where
  "note_write prev new u =
     (case u of None \<Rightarrow> update0\<lparr>OldObject := prev\<rparr> | Some u \<Rightarrow> u)
       \<lparr>Status := (if new = None then StatusDeleted else StatusUpserted), NewObject := new\<rparr>"

text \<open>The updates describe the change from the objects \<open>o0\<close> at the start of the cycle to the
  objects \<open>o1\<close> now: an untouched key has not changed, and a touched one has its first and
  its current object.\<close>

definition entry_ok :: "'v option \<Rightarrow> 'v option \<Rightarrow> 'v update option \<Rightarrow> bool" where
  "entry_ok before now u \<longleftrightarrow> (case u of
      None \<Rightarrow> now = before
    | Some up \<Rightarrow> OldObject up = before \<and> NewObject up = now \<and> \<not> Indirect up
        \<and> Status up = (if now = None then StatusDeleted else StatusUpserted))"

definition cycle_ok :: "('k \<Rightarrow> 'v option) \<Rightarrow> ('k \<Rightarrow> 'v option) \<Rightarrow> ('k \<Rightarrow> 'v update option) \<Rightarrow> bool" where
  "cycle_ok o0 o1 u \<longleftrightarrow> (\<forall>k. entry_ok (o0 k) (o1 k) (u k))"

definition run_ops :: "('o \<Rightarrow> 's \<Rightarrow> 's) \<Rightarrow> ('d \<Rightarrow> 's \<Rightarrow> 's) \<Rightarrow> ('o + 'd) list \<Rightarrow> 's \<Rightarrow> 's" where
  "run_ops ups del es s = fold (\<lambda>e. case e of Inl x \<Rightarrow> ups x | Inr d \<Rightarrow> del d) es s"

lemma entry_ok_write: "entry_ok a b u \<Longrightarrow> entry_ok a new (Some (note_write b new u))"
  by (cases u) (auto simp: entry_ok_def note_write_def update0_def)

lemma cycle_ok_start: "cycle_ok o0 o0 (\<lambda>_. None)"
  by (simp add: cycle_ok_def entry_ok_def)

lemma cycle_ok_write:
  "cycle_ok o0 o1 u \<Longrightarrow> cycle_ok o0 (o1(k := new)) (u(k \<mapsto> note_write (o1 k) new (u k)))"
  by (simp add: cycle_ok_def entry_ok_write)

locale object_store =
  fixes objs :: "'s \<Rightarrow> 'k \<Rightarrow> 'v option" and upds :: "'s \<Rightarrow> 'k \<Rightarrow> 'v update option"
    and upsert :: "'o \<Rightarrow> 's \<Rightarrow> 's" and delete :: "'d \<Rightarrow> 's \<Rightarrow> 's" and reset :: "'s \<Rightarrow> 's"
    and utarget :: "'o \<Rightarrow> ('k \<times> 'v) option" and dtarget :: "'d \<Rightarrow> 'k option"
  assumes upsert_effect:
    "(objs (upsert x s), upds (upsert x s)) =
       (case utarget x of None \<Rightarrow> (objs s, upds s)
        | Some (k, v) \<Rightarrow> ((objs s)(k \<mapsto> v), (upds s)(k \<mapsto> note_write (objs s k) (Some v) (upds s k))))"
    and delete_effect:
    "(objs (delete d s), upds (delete d s)) =
       (case dtarget d of None \<Rightarrow> (objs s, upds s)
        | Some k \<Rightarrow> ((objs s)(k := None), (upds s)(k \<mapsto> note_write (objs s k) None (upds s k))))"
    and reset_effect: "objs (reset s) = objs s" "upds (reset s) = (\<lambda>_. None)"
begin

lemma upsert_keeps: "cycle_ok o0 (objs s) (upds s) \<Longrightarrow> cycle_ok o0 (objs (upsert x s)) (upds (upsert x s))"
  using upsert_effect[of x s] cycle_ok_write[of o0 "objs s" "upds s"]
  by (cases "utarget x") auto

lemma delete_keeps: "cycle_ok o0 (objs s) (upds s) \<Longrightarrow> cycle_ok o0 (objs (delete d s)) (upds (delete d s))"
  using delete_effect[of d s] cycle_ok_write[of o0 "objs s" "upds s"]
  by (cases "dtarget d") auto

lemma run_keeps:
  "cycle_ok o0 (objs s) (upds s) \<Longrightarrow> cycle_ok o0 (objs (run_ops upsert delete es s)) (upds (run_ops upsert delete es s))"
  unfolding run_ops_def
  by (induction es arbitrary: s) (auto split: sum.splits dest: upsert_keeps delete_keeps)

lemma cycle:
  "cycle_ok (objs s) (objs (run_ops upsert delete es (reset s))) (upds (run_ops upsert delete es (reset s)))"
  by (rule run_keeps) (simp add: reset_effect cycle_ok_start)

text \<open>The last event on a key decides what the store holds for it.\<close>

lemma last_upsert_wins: "utarget x = Some (k, v) \<Longrightarrow> objs (run_ops upsert delete (es @ [Inl x]) s) k = Some v"
  using upsert_effect[of x] by (simp add: run_ops_def)

lemma last_delete_wins: "dtarget d = Some k \<Longrightarrow> objs (run_ops upsert delete (es @ [Inr d]) s) k = None"
  using delete_effect[of d] by (simp add: run_ops_def)

end

subsection \<open>\<open>objectStoreImpl\<close> implements it\<close>

definition os_utarget :: "(k8s_object \<Rightarrow> 't option) \<Rightarrow> k8s_object \<Rightarrow> (namespaced_name \<times> 't) option" where
  "os_utarget cast obj = map_option (Pair (ObjectKeyFromObject obj)) (cast obj)"

lemma os_upsert_effect:
  "(map_of (objects (os_upsert cast x s)), map_of (updates (os_upsert cast x s))) =
     (case os_utarget cast x of None \<Rightarrow> (map_of (objects s), map_of (updates s))
      | Some (k, v) \<Rightarrow> ((map_of (objects s))(k \<mapsto> v),
          (map_of (updates s))(k \<mapsto> note_write (map_of (objects s) k) (Some v) (map_of (updates s) k))))"
  by (auto simp: os_upsert_def os_utarget_def note_write_def Let_def update_conv'
      split: option.splits)

lemma os_delete_effect:
  "(map_of (objects (os_delete k s)), map_of (updates (os_delete k s))) =
     ((map_of (objects s))(k := None),
      (map_of (updates s))(k \<mapsto> note_write (map_of (objects s) k) None (map_of (updates s) k)))"
  by (auto simp: os_delete_def note_write_def Let_def update_conv' delete_conv' split: option.splits)

interpretation os: object_store "\<lambda>s. map_of (objects s)" "\<lambda>s. map_of (updates s)"
    "os_upsert cast" os_delete os_resetUpdates "os_utarget cast" Some
  by unfold_locales (simp_all add: os_upsert_effect os_delete_effect os_resetUpdates_def fun_eq_iff)

lemma wf_os_ops:
  assumes "wf_map (objects s)" "wf_map (updates s)"
  shows "wf_map (objects (os_upsert cast x s)) \<and> wf_map (updates (os_upsert cast x s))"
    and "wf_map (objects (os_delete k s)) \<and> wf_map (updates (os_delete k s))"
    and "wf_map (objects (os_resetUpdates s)) \<and> wf_map (updates (os_resetUpdates s))"
  using assms
  by (auto simp: os_upsert_def os_delete_def os_resetUpdates_def Let_def wf_mput wf_mdel split: option.splits)

end
