(* ===== verification/ClusterStore.thy ===== *)
theory ClusterStore
  imports ObjectStore
begin

text \<open>
  \<open>k8s/gate/store/cluster-store.go\<close>, \<open>cluster-updates.go\<close>, the events of
  \<open>events/event.go\<close> and the batch step of \<open>handler/batch.go\<close>
  (\<open>processBatch\<close>, \<open>updateClusterStore\<close>).

  A field of the record is one \<open>objectStoreImpl\<close>: its \<open>objects\<close> are the map
  \<open>ClusterStore.X\<close> and its \<open>updates\<close> the map \<open>ClusterStore.Updates.X\<close>,
  the two maps on which \<open>NewClusterStoreUpdaterImpl\<close> builds that store.  The group, version and
  kind of an object come from a function of the Kubernetes scheme, the parameter
  \<open>extractGVK\<close>; the locale \<open>gvk_scheme\<close> says what the program relies on: the
  registered types have different group-version-kinds.
\<close>

datatype store_id =
    SGatewayClass
  | SGateway
  | SHTTPRoute
  | STLSRoute
  | SService
  | SNamespace
  | SSecret
  | SConfigMap
  | SGatewayAPICRD
  | SHugGate
  | SBackendCR
  | SHugConf
  | SEndpointSlice

record cluster_store =
  cs_GatewayClasses :: "gateway_class_k8s objectStoreImpl"
  cs_Gateways :: "gateway_k8s objectStoreImpl"
  cs_HTTPRoutes :: "http_route_k8s objectStoreImpl"
  cs_TLSRoutes :: "tls_route_k8s objectStoreImpl"
  cs_Services :: "service_k8s objectStoreImpl"
  cs_Namespaces :: "objmeta objectStoreImpl"
  cs_Secrets :: "secret_k8s objectStoreImpl"
  cs_ConfigMaps :: "objmeta objectStoreImpl"
  cs_GatewayAPICRDs :: "partial_meta objectStoreImpl"
  cs_HugGates :: "hug_gate objectStoreImpl"
  cs_BackendCRs :: "backend_cr objectStoreImpl"
  cs_ControllerConfs :: "hug_conf objectStoreImpl"
  cs_EndpointSlices :: "endpoint_slice objectStoreImpl"

definition empty_cluster_store :: cluster_store where
  "empty_cluster_store = 
     \<lparr>cs_GatewayClasses = newObjectStoreImpl [] [],
      cs_Gateways = newObjectStoreImpl [] [],
      cs_HTTPRoutes = newObjectStoreImpl [] [],
      cs_TLSRoutes = newObjectStoreImpl [] [],
      cs_Services = newObjectStoreImpl [] [],
      cs_Namespaces = newObjectStoreImpl [] [],
      cs_Secrets = newObjectStoreImpl [] [],
      cs_ConfigMaps = newObjectStoreImpl [] [],
      cs_GatewayAPICRDs = newObjectStoreImpl [] [],
      cs_HugGates = newObjectStoreImpl [] [],
      cs_BackendCRs = newObjectStoreImpl [] [],
      cs_ControllerConfs = newObjectStoreImpl [] [],
      cs_EndpointSlices = newObjectStoreImpl [] []\<rparr>"

text \<open>The type assertions \<open>obj.(T)\<close> of the stores.\<close>

definition as_GatewayClass :: "k8s_object \<Rightarrow> gateway_class_k8s option" where
  "as_GatewayClass obj = (case obj of OGatewayClass x \<Rightarrow> Some x | _ \<Rightarrow> None)"
definition as_Gateway :: "k8s_object \<Rightarrow> gateway_k8s option" where
  "as_Gateway obj = (case obj of OGateway x \<Rightarrow> Some x | _ \<Rightarrow> None)"
definition as_HTTPRoute :: "k8s_object \<Rightarrow> http_route_k8s option" where
  "as_HTTPRoute obj = (case obj of OHTTPRoute x \<Rightarrow> Some x | _ \<Rightarrow> None)"
definition as_TLSRoute :: "k8s_object \<Rightarrow> tls_route_k8s option" where
  "as_TLSRoute obj = (case obj of OTLSRoute x \<Rightarrow> Some x | _ \<Rightarrow> None)"
definition as_Service :: "k8s_object \<Rightarrow> service_k8s option" where
  "as_Service obj = (case obj of OService x \<Rightarrow> Some x | _ \<Rightarrow> None)"
definition as_Namespace :: "k8s_object \<Rightarrow> objmeta option" where
  "as_Namespace obj = (case obj of ONamespace x \<Rightarrow> Some x | _ \<Rightarrow> None)"
definition as_Secret :: "k8s_object \<Rightarrow> secret_k8s option" where
  "as_Secret obj = (case obj of OSecret x \<Rightarrow> Some x | _ \<Rightarrow> None)"
definition as_ConfigMap :: "k8s_object \<Rightarrow> objmeta option" where
  "as_ConfigMap obj = (case obj of OConfigMap x \<Rightarrow> Some x | _ \<Rightarrow> None)"
definition as_GatewayAPICRD :: "k8s_object \<Rightarrow> partial_meta option" where
  "as_GatewayAPICRD obj = (case obj of OPartialMetadata x \<Rightarrow> Some x | _ \<Rightarrow> None)"
definition as_HugGate :: "k8s_object \<Rightarrow> hug_gate option" where
  "as_HugGate obj = (case obj of OHugGate x \<Rightarrow> Some x | _ \<Rightarrow> None)"
definition as_BackendCR :: "k8s_object \<Rightarrow> backend_cr option" where
  "as_BackendCR obj = (case obj of OBackend x \<Rightarrow> Some x | _ \<Rightarrow> None)"
definition as_HugConf :: "k8s_object \<Rightarrow> hug_conf option" where
  "as_HugConf obj = (case obj of OHugConf x \<Rightarrow> Some x | _ \<Rightarrow> None)"
definition as_EndpointSlice :: "k8s_object \<Rightarrow> endpoint_slice option" where
  "as_EndpointSlice obj = (case obj of OEndpointSlice x \<Rightarrow> Some x | _ \<Rightarrow> None)"

lemmas as_defs = as_GatewayClass_def as_Gateway_def as_HTTPRoute_def as_TLSRoute_def as_Service_def as_Namespace_def as_Secret_def as_ConfigMap_def as_GatewayAPICRD_def as_HugGate_def as_BackendCR_def as_HugConf_def as_EndpointSlice_def

text \<open>The map literal of \<open>NewClusterStoreUpdaterImpl\<close>: prototype and store, in the
  order of the source.\<close>

definition store_table :: "(k8s_object \<times> store_id) list" where
  "store_table = [
    (OGatewayClass gateway_class0, SGatewayClass),
    (OGateway gateway0, SGateway),
    (OHTTPRoute http_route0, SHTTPRoute),
    (OTLSRoute tls_route0, STLSRoute),
    (OService service0, SService),
    (ONamespace meta0, SNamespace),
    (OSecret secret0, SSecret),
    (OConfigMap meta0, SConfigMap),
    (OCustomResourceDefinition meta0, SGatewayAPICRD),
    (OHugGate hug_gate0, SHugGate),
    (OBackend backend_cr0, SBackendCR),
    (OHugConf hug_conf0, SHugConf),
    (OEndpointSlice endpoint_slice0, SEndpointSlice)]"

definition stores :: "(k8s_object \<Rightarrow> gvk) \<Rightarrow> (gvk, store_id) gomap" where
  "stores extractGVK = fold (\<lambda>(proto, sid). mput (extractGVK proto) sid) store_table []"

text \<open>The calls \<open>objectStore.upsert\<close>, \<open>delete\<close> and \<open>resetUpdates\<close>
  through the interface value found in the map.\<close>

fun store_upsert :: "store_id \<Rightarrow> k8s_object \<Rightarrow> cluster_store \<Rightarrow> cluster_store" where
  "store_upsert SGatewayClass obj cs = cs\<lparr>cs_GatewayClasses := os_upsert as_GatewayClass obj (cs_GatewayClasses cs)\<rparr>"
| "store_upsert SGateway obj cs = cs\<lparr>cs_Gateways := os_upsert as_Gateway obj (cs_Gateways cs)\<rparr>"
| "store_upsert SHTTPRoute obj cs = cs\<lparr>cs_HTTPRoutes := os_upsert as_HTTPRoute obj (cs_HTTPRoutes cs)\<rparr>"
| "store_upsert STLSRoute obj cs = cs\<lparr>cs_TLSRoutes := os_upsert as_TLSRoute obj (cs_TLSRoutes cs)\<rparr>"
| "store_upsert SService obj cs = cs\<lparr>cs_Services := os_upsert as_Service obj (cs_Services cs)\<rparr>"
| "store_upsert SNamespace obj cs = cs\<lparr>cs_Namespaces := os_upsert as_Namespace obj (cs_Namespaces cs)\<rparr>"
| "store_upsert SSecret obj cs = cs\<lparr>cs_Secrets := os_upsert as_Secret obj (cs_Secrets cs)\<rparr>"
| "store_upsert SConfigMap obj cs = cs\<lparr>cs_ConfigMaps := os_upsert as_ConfigMap obj (cs_ConfigMaps cs)\<rparr>"
| "store_upsert SGatewayAPICRD obj cs = cs\<lparr>cs_GatewayAPICRDs := os_upsert as_GatewayAPICRD obj (cs_GatewayAPICRDs cs)\<rparr>"
| "store_upsert SHugGate obj cs = cs\<lparr>cs_HugGates := os_upsert as_HugGate obj (cs_HugGates cs)\<rparr>"
| "store_upsert SBackendCR obj cs = cs\<lparr>cs_BackendCRs := os_upsert as_BackendCR obj (cs_BackendCRs cs)\<rparr>"
| "store_upsert SHugConf obj cs = cs\<lparr>cs_ControllerConfs := os_upsert as_HugConf obj (cs_ControllerConfs cs)\<rparr>"
| "store_upsert SEndpointSlice obj cs = cs\<lparr>cs_EndpointSlices := os_upsert as_EndpointSlice obj (cs_EndpointSlices cs)\<rparr>"

fun store_delete :: "store_id \<Rightarrow> namespaced_name \<Rightarrow> cluster_store \<Rightarrow> cluster_store" where
  "store_delete SGatewayClass n cs = cs\<lparr>cs_GatewayClasses := os_delete n (cs_GatewayClasses cs)\<rparr>"
| "store_delete SGateway n cs = cs\<lparr>cs_Gateways := os_delete n (cs_Gateways cs)\<rparr>"
| "store_delete SHTTPRoute n cs = cs\<lparr>cs_HTTPRoutes := os_delete n (cs_HTTPRoutes cs)\<rparr>"
| "store_delete STLSRoute n cs = cs\<lparr>cs_TLSRoutes := os_delete n (cs_TLSRoutes cs)\<rparr>"
| "store_delete SService n cs = cs\<lparr>cs_Services := os_delete n (cs_Services cs)\<rparr>"
| "store_delete SNamespace n cs = cs\<lparr>cs_Namespaces := os_delete n (cs_Namespaces cs)\<rparr>"
| "store_delete SSecret n cs = cs\<lparr>cs_Secrets := os_delete n (cs_Secrets cs)\<rparr>"
| "store_delete SConfigMap n cs = cs\<lparr>cs_ConfigMaps := os_delete n (cs_ConfigMaps cs)\<rparr>"
| "store_delete SGatewayAPICRD n cs = cs\<lparr>cs_GatewayAPICRDs := os_delete n (cs_GatewayAPICRDs cs)\<rparr>"
| "store_delete SHugGate n cs = cs\<lparr>cs_HugGates := os_delete n (cs_HugGates cs)\<rparr>"
| "store_delete SBackendCR n cs = cs\<lparr>cs_BackendCRs := os_delete n (cs_BackendCRs cs)\<rparr>"
| "store_delete SHugConf n cs = cs\<lparr>cs_ControllerConfs := os_delete n (cs_ControllerConfs cs)\<rparr>"
| "store_delete SEndpointSlice n cs = cs\<lparr>cs_EndpointSlices := os_delete n (cs_EndpointSlices cs)\<rparr>"

fun store_reset :: "store_id \<Rightarrow> cluster_store \<Rightarrow> cluster_store" where
  "store_reset SGatewayClass cs = cs\<lparr>cs_GatewayClasses := os_resetUpdates (cs_GatewayClasses cs)\<rparr>"
| "store_reset SGateway cs = cs\<lparr>cs_Gateways := os_resetUpdates (cs_Gateways cs)\<rparr>"
| "store_reset SHTTPRoute cs = cs\<lparr>cs_HTTPRoutes := os_resetUpdates (cs_HTTPRoutes cs)\<rparr>"
| "store_reset STLSRoute cs = cs\<lparr>cs_TLSRoutes := os_resetUpdates (cs_TLSRoutes cs)\<rparr>"
| "store_reset SService cs = cs\<lparr>cs_Services := os_resetUpdates (cs_Services cs)\<rparr>"
| "store_reset SNamespace cs = cs\<lparr>cs_Namespaces := os_resetUpdates (cs_Namespaces cs)\<rparr>"
| "store_reset SSecret cs = cs\<lparr>cs_Secrets := os_resetUpdates (cs_Secrets cs)\<rparr>"
| "store_reset SConfigMap cs = cs\<lparr>cs_ConfigMaps := os_resetUpdates (cs_ConfigMaps cs)\<rparr>"
| "store_reset SGatewayAPICRD cs = cs\<lparr>cs_GatewayAPICRDs := os_resetUpdates (cs_GatewayAPICRDs cs)\<rparr>"
| "store_reset SHugGate cs = cs\<lparr>cs_HugGates := os_resetUpdates (cs_HugGates cs)\<rparr>"
| "store_reset SBackendCR cs = cs\<lparr>cs_BackendCRs := os_resetUpdates (cs_BackendCRs cs)\<rparr>"
| "store_reset SHugConf cs = cs\<lparr>cs_ControllerConfs := os_resetUpdates (cs_ControllerConfs cs)\<rparr>"
| "store_reset SEndpointSlice cs = cs\<lparr>cs_EndpointSlices := os_resetUpdates (cs_EndpointSlices cs)\<rparr>"

definition Upsert :: "(k8s_object \<Rightarrow> gvk) \<Rightarrow> k8s_object \<Rightarrow> cluster_store \<Rightarrow> cluster_store" where
  "Upsert extractGVK obj cs =
     (case map_of (stores extractGVK) (extractGVK obj) of
        None \<Rightarrow> cs
      | Some sid \<Rightarrow> store_upsert sid obj cs)"

definition Delete :: "(k8s_object \<Rightarrow> gvk) \<Rightarrow> k8s_object \<Rightarrow> namespaced_name \<Rightarrow> cluster_store \<Rightarrow> cluster_store" where
  "Delete extractGVK obj nsname cs =
     (case map_of (stores extractGVK) (extractGVK obj) of
        None \<Rightarrow> cs
      | Some sid \<Rightarrow> store_delete sid nsname cs)"

definition ResetUpdates :: "(k8s_object \<Rightarrow> gvk) \<Rightarrow> cluster_store \<Rightarrow> cluster_store" where
  "ResetUpdates extractGVK cs = fold (\<lambda>(_, sid). store_reset sid) (stores extractGVK) cs"

subsection \<open>Events and batches\<close>

datatype event = UpsertEvent k8s_object | DeleteEvent k8s_object namespaced_name | UnknownEvent

record event_batch =
  eb_Events :: "event list"
  eb_BatchID :: int

definition updateClusterStore :: "(k8s_object \<Rightarrow> gvk) \<Rightarrow> event \<Rightarrow> cluster_store \<Rightarrow> cluster_store" where
  "updateClusterStore extractGVK e cs =
     (case e of
        UpsertEvent obj \<Rightarrow> Upsert extractGVK obj cs
      | DeleteEvent typ nsname \<Rightarrow> Delete extractGVK typ nsname cs
      | UnknownEvent \<Rightarrow> cs)"

definition processBatch :: "(k8s_object \<Rightarrow> gvk) \<Rightarrow> event_batch \<Rightarrow> cluster_store \<Rightarrow> cluster_store" where
  "processBatch extractGVK batch cs =
     fold (updateClusterStore extractGVK) (eb_Events batch) (ResetUpdates extractGVK cs)"

subsection \<open>All kinds seen as one map\<close>

definition wrap_objects :: "('t \<Rightarrow> k8s_object) \<Rightarrow> 't objectStoreImpl \<Rightarrow> namespaced_name \<Rightarrow> k8s_object option" where
  "wrap_objects f s k = map_option f (map_of (objects s) k)"

definition wrap_update :: "('t \<Rightarrow> k8s_object) \<Rightarrow> 't update \<Rightarrow> k8s_object update" where
  "wrap_update f u = \<lparr>OldObject = map_option f (OldObject u), NewObject = map_option f (NewObject u),
     Status = Status u, Indirect = Indirect u\<rparr>"

definition wrap_updates :: "('t \<Rightarrow> k8s_object) \<Rightarrow> 't objectStoreImpl \<Rightarrow> namespaced_name \<Rightarrow> k8s_object update option" where
  "wrap_updates f s k = map_option (wrap_update f) (map_of (updates s) k)"

fun view_objects :: "cluster_store \<Rightarrow> store_id \<times> namespaced_name \<Rightarrow> k8s_object option" where
  "view_objects cs (SGatewayClass, k) = wrap_objects OGatewayClass (cs_GatewayClasses cs) k"
| "view_objects cs (SGateway, k) = wrap_objects OGateway (cs_Gateways cs) k"
| "view_objects cs (SHTTPRoute, k) = wrap_objects OHTTPRoute (cs_HTTPRoutes cs) k"
| "view_objects cs (STLSRoute, k) = wrap_objects OTLSRoute (cs_TLSRoutes cs) k"
| "view_objects cs (SService, k) = wrap_objects OService (cs_Services cs) k"
| "view_objects cs (SNamespace, k) = wrap_objects ONamespace (cs_Namespaces cs) k"
| "view_objects cs (SSecret, k) = wrap_objects OSecret (cs_Secrets cs) k"
| "view_objects cs (SConfigMap, k) = wrap_objects OConfigMap (cs_ConfigMaps cs) k"
| "view_objects cs (SGatewayAPICRD, k) = wrap_objects OPartialMetadata (cs_GatewayAPICRDs cs) k"
| "view_objects cs (SHugGate, k) = wrap_objects OHugGate (cs_HugGates cs) k"
| "view_objects cs (SBackendCR, k) = wrap_objects OBackend (cs_BackendCRs cs) k"
| "view_objects cs (SHugConf, k) = wrap_objects OHugConf (cs_ControllerConfs cs) k"
| "view_objects cs (SEndpointSlice, k) = wrap_objects OEndpointSlice (cs_EndpointSlices cs) k"

fun view_updates :: "cluster_store \<Rightarrow> store_id \<times> namespaced_name \<Rightarrow> k8s_object update option" where
  "view_updates cs (SGatewayClass, k) = wrap_updates OGatewayClass (cs_GatewayClasses cs) k"
| "view_updates cs (SGateway, k) = wrap_updates OGateway (cs_Gateways cs) k"
| "view_updates cs (SHTTPRoute, k) = wrap_updates OHTTPRoute (cs_HTTPRoutes cs) k"
| "view_updates cs (STLSRoute, k) = wrap_updates OTLSRoute (cs_TLSRoutes cs) k"
| "view_updates cs (SService, k) = wrap_updates OService (cs_Services cs) k"
| "view_updates cs (SNamespace, k) = wrap_updates ONamespace (cs_Namespaces cs) k"
| "view_updates cs (SSecret, k) = wrap_updates OSecret (cs_Secrets cs) k"
| "view_updates cs (SConfigMap, k) = wrap_updates OConfigMap (cs_ConfigMaps cs) k"
| "view_updates cs (SGatewayAPICRD, k) = wrap_updates OPartialMetadata (cs_GatewayAPICRDs cs) k"
| "view_updates cs (SHugGate, k) = wrap_updates OHugGate (cs_HugGates cs) k"
| "view_updates cs (SBackendCR, k) = wrap_updates OBackend (cs_BackendCRs cs) k"
| "view_updates cs (SHugConf, k) = wrap_updates OHugConf (cs_ControllerConfs cs) k"
| "view_updates cs (SEndpointSlice, k) = wrap_updates OEndpointSlice (cs_EndpointSlices cs) k"

text \<open>Where an object goes: its store, if its type is the one of the store, and its key.\<close>

fun accepts :: "store_id \<Rightarrow> k8s_object \<Rightarrow> bool" where
  "accepts SGatewayClass obj = (as_GatewayClass obj \<noteq> None)"
| "accepts SGateway obj = (as_Gateway obj \<noteq> None)"
| "accepts SHTTPRoute obj = (as_HTTPRoute obj \<noteq> None)"
| "accepts STLSRoute obj = (as_TLSRoute obj \<noteq> None)"
| "accepts SService obj = (as_Service obj \<noteq> None)"
| "accepts SNamespace obj = (as_Namespace obj \<noteq> None)"
| "accepts SSecret obj = (as_Secret obj \<noteq> None)"
| "accepts SConfigMap obj = (as_ConfigMap obj \<noteq> None)"
| "accepts SGatewayAPICRD obj = (as_GatewayAPICRD obj \<noteq> None)"
| "accepts SHugGate obj = (as_HugGate obj \<noteq> None)"
| "accepts SBackendCR obj = (as_BackendCR obj \<noteq> None)"
| "accepts SHugConf obj = (as_HugConf obj \<noteq> None)"
| "accepts SEndpointSlice obj = (as_EndpointSlice obj \<noteq> None)"

definition object_target :: "(k8s_object \<Rightarrow> gvk) \<Rightarrow> k8s_object \<Rightarrow> ((store_id \<times> namespaced_name) \<times> k8s_object) option" where
  "object_target extractGVK obj =
     (case map_of (stores extractGVK) (extractGVK obj) of
        None \<Rightarrow> None
      | Some sid \<Rightarrow> if accepts sid obj then Some ((sid, ObjectKeyFromObject obj), obj) else None)"

definition delete_target :: "(k8s_object \<Rightarrow> gvk) \<Rightarrow> k8s_object \<times> namespaced_name \<Rightarrow> (store_id \<times> namespaced_name) option" where
  "delete_target extractGVK d = map_option (\<lambda>sid. (sid, snd d)) (map_of (stores extractGVK) (extractGVK (fst d)))"

lemma wrap_note_write:
  "wrap_update f (note_write prev new u)
     = note_write (map_option f prev) (map_option f new) (map_option (wrap_update f) u)"
  by (cases u) (auto simp: wrap_update_def note_write_def update0_def)

lemma wrap_upsert:
  assumes "\<And>t. cast obj = Some t \<Longrightarrow> f t = obj"
  shows "wrap_objects f (os_upsert cast obj s) = (if cast obj \<noteq> None
           then (wrap_objects f s)(ObjectKeyFromObject obj \<mapsto> obj) else wrap_objects f s)"
    and "wrap_updates f (os_upsert cast obj s) = (if cast obj \<noteq> None
           then (wrap_updates f s)(ObjectKeyFromObject obj \<mapsto>
             note_write (wrap_objects f s (ObjectKeyFromObject obj)) (Some obj)
               (wrap_updates f s (ObjectKeyFromObject obj))) else wrap_updates f s)"
  using os_upsert_effect[of cast obj s] assms
  by (auto simp: os_utarget_def wrap_objects_def wrap_updates_def wrap_note_write fun_eq_iff)

lemma wrap_delete:
  "wrap_objects f (os_delete n s) = (wrap_objects f s)(n := None)"
  "wrap_updates f (os_delete n s) = (wrap_updates f s)(n \<mapsto>
     note_write (wrap_objects f s n) None (wrap_updates f s n))"
  using os_delete_effect[of n s]
  by (auto simp: wrap_objects_def wrap_updates_def wrap_note_write fun_eq_iff)

lemma wrap_reset:
  "wrap_objects f (os_resetUpdates s) = wrap_objects f s"
  "wrap_updates f (os_resetUpdates s) = (\<lambda>_. None)"
  by (simp_all add: wrap_objects_def wrap_updates_def os_resetUpdates_def fun_eq_iff)

lemma as_retract:
  "as_GatewayClass obj = Some tGatewayClass \<Longrightarrow> OGatewayClass tGatewayClass = obj"
  "as_Gateway obj = Some tGateway \<Longrightarrow> OGateway tGateway = obj"
  "as_HTTPRoute obj = Some tHTTPRoute \<Longrightarrow> OHTTPRoute tHTTPRoute = obj"
  "as_TLSRoute obj = Some tTLSRoute \<Longrightarrow> OTLSRoute tTLSRoute = obj"
  "as_Service obj = Some tService \<Longrightarrow> OService tService = obj"
  "as_Namespace obj = Some tNamespace \<Longrightarrow> ONamespace tNamespace = obj"
  "as_Secret obj = Some tSecret \<Longrightarrow> OSecret tSecret = obj"
  "as_ConfigMap obj = Some tConfigMap \<Longrightarrow> OConfigMap tConfigMap = obj"
  "as_GatewayAPICRD obj = Some tGatewayAPICRD \<Longrightarrow> OPartialMetadata tGatewayAPICRD = obj"
  "as_HugGate obj = Some tHugGate \<Longrightarrow> OHugGate tHugGate = obj"
  "as_BackendCR obj = Some tBackendCR \<Longrightarrow> OBackend tBackendCR = obj"
  "as_HugConf obj = Some tHugConf \<Longrightarrow> OHugConf tHugConf = obj"
  "as_EndpointSlice obj = Some tEndpointSlice \<Longrightarrow> OEndpointSlice tEndpointSlice = obj"
  by (auto simp: as_defs split: k8s_object.splits)

lemma view_upsert_objects:
  "view_objects (store_upsert sid obj cs) = (if accepts sid obj
     then (view_objects cs)((sid, ObjectKeyFromObject obj) \<mapsto> obj) else view_objects cs)"
proof (rule ext, clarify)
  fix sid' k
  show "view_objects (store_upsert sid obj cs) (sid', k) = (if accepts sid obj
     then (view_objects cs)((sid, ObjectKeyFromObject obj) \<mapsto> obj) else view_objects cs) (sid', k)"
    by (cases sid; cases sid') (simp_all add: wrap_upsert as_retract)
qed

lemma view_upsert_updates:
  "view_updates (store_upsert sid obj cs) = (if accepts sid obj
     then (view_updates cs)((sid, ObjectKeyFromObject obj) \<mapsto>
       note_write (view_objects cs (sid, ObjectKeyFromObject obj)) (Some obj)
         (view_updates cs (sid, ObjectKeyFromObject obj))) else view_updates cs)"
proof (rule ext, clarify)
  fix sid' k
  show "view_updates (store_upsert sid obj cs) (sid', k) = (if accepts sid obj
     then (view_updates cs)((sid, ObjectKeyFromObject obj) \<mapsto>
       note_write (view_objects cs (sid, ObjectKeyFromObject obj)) (Some obj)
         (view_updates cs (sid, ObjectKeyFromObject obj))) else view_updates cs) (sid', k)"
    by (cases sid; cases sid') (simp_all add: wrap_upsert as_retract)
qed

lemma view_delete_objects: "view_objects (store_delete sid n cs) = (view_objects cs)((sid, n) := None)"
proof (rule ext, clarify)
  fix sid' k
  show "view_objects (store_delete sid n cs) (sid', k) = ((view_objects cs)((sid, n) := None)) (sid', k)"
    by (cases sid; cases sid') (simp_all add: wrap_delete)
qed

lemma view_delete_updates:
  "view_updates (store_delete sid n cs) = (view_updates cs)((sid, n) \<mapsto>
     note_write (view_objects cs (sid, n)) None (view_updates cs (sid, n)))"
proof (rule ext, clarify)
  fix sid' k
  show "view_updates (store_delete sid n cs) (sid', k) = ((view_updates cs)((sid, n) \<mapsto>
     note_write (view_objects cs (sid, n)) None (view_updates cs (sid, n)))) (sid', k)"
    by (cases sid; cases sid') (simp_all add: wrap_delete)
qed

lemma view_reset:
  "view_objects (store_reset sid cs) (sid', k) = view_objects cs (sid', k)"
  "view_updates (store_reset sid cs) (sid', k) = (if sid' = sid then None else view_updates cs (sid', k))"
  by (cases sid; cases sid'; simp add: wrap_reset)+

subsection \<open>Invariant of the store\<close>

definition os_wf :: "'t objectStoreImpl \<Rightarrow> bool" where
  "os_wf s \<longleftrightarrow> wf_map (objects s) \<and> wf_map (updates s)"

fun store_wf :: "store_id \<Rightarrow> cluster_store \<Rightarrow> bool" where
  "store_wf SGatewayClass cs = os_wf (cs_GatewayClasses cs)"
| "store_wf SGateway cs = os_wf (cs_Gateways cs)"
| "store_wf SHTTPRoute cs = os_wf (cs_HTTPRoutes cs)"
| "store_wf STLSRoute cs = os_wf (cs_TLSRoutes cs)"
| "store_wf SService cs = os_wf (cs_Services cs)"
| "store_wf SNamespace cs = os_wf (cs_Namespaces cs)"
| "store_wf SSecret cs = os_wf (cs_Secrets cs)"
| "store_wf SConfigMap cs = os_wf (cs_ConfigMaps cs)"
| "store_wf SGatewayAPICRD cs = os_wf (cs_GatewayAPICRDs cs)"
| "store_wf SHugGate cs = os_wf (cs_HugGates cs)"
| "store_wf SBackendCR cs = os_wf (cs_BackendCRs cs)"
| "store_wf SHugConf cs = os_wf (cs_ControllerConfs cs)"
| "store_wf SEndpointSlice cs = os_wf (cs_EndpointSlices cs)"

text \<open>Maps are well-formed and every object is stored under its own key.\<close>

definition store_inv :: "cluster_store \<Rightarrow> bool" where
  "store_inv cs \<longleftrightarrow> (\<forall>sid. store_wf sid cs)
     \<and> (\<forall>sid k x. view_objects cs (sid, k) = Some x \<longrightarrow> ObjectKeyFromObject x = k)"

lemma os_wf_ops:
  "os_wf s \<Longrightarrow> os_wf (os_upsert cast x s)" "os_wf s \<Longrightarrow> os_wf (os_delete k s)"
  "os_wf s \<Longrightarrow> os_wf (os_resetUpdates s)"
  using wf_os_ops[of s] by (simp_all add: os_wf_def)

lemma store_wf_ops:
  "store_wf sid' cs \<Longrightarrow> store_wf sid' (store_upsert sid x cs)"
  "store_wf sid' cs \<Longrightarrow> store_wf sid' (store_delete sid k cs)"
  "store_wf sid' cs \<Longrightarrow> store_wf sid' (store_reset sid cs)"
  by (cases sid; cases sid'; simp add: os_wf_ops)+

lemma store_inv_upsert: "store_inv cs \<Longrightarrow> store_inv (Upsert ex x cs)"
  by (auto simp: store_inv_def Upsert_def store_wf_ops view_upsert_objects split: option.splits if_splits)

lemma store_inv_delete: "store_inv cs \<Longrightarrow> store_inv (Delete ex x n cs)"
  by (auto simp: store_inv_def Delete_def store_wf_ops view_delete_objects split: option.splits if_splits)

lemma store_inv_reset: "store_inv cs \<Longrightarrow> store_inv (ResetUpdates ex cs)"
  unfolding ResetUpdates_def
  by (rule fold_invariant_all) (auto simp: store_inv_def store_wf_ops view_reset)

lemma store_inv_batch: "store_inv cs \<Longrightarrow> store_inv (processBatch ex b cs)"
  unfolding processBatch_def
  by (rule fold_invariant_all)
    (auto simp: store_inv_reset store_inv_upsert store_inv_delete updateClusterStore_def split: event.splits)

lemma store_inv_empty: "store_inv empty_cluster_store"
proof -
  have "store_wf sid empty_cluster_store \<and> view_objects empty_cluster_store (sid, k) = None" for sid k
    by (cases sid) (simp_all add: empty_cluster_store_def newObjectStoreImpl_def os_wf_def wrap_objects_def)
  then show ?thesis by (simp add: store_inv_def)
qed

text \<open>From the wrapped view back to one typed store.\<close>

lemma entry_ok_unwrap:
  assumes "inj f" "entry_ok (map_option f a) (map_option f b) (map_option (wrap_update f) u)"
  shows "entry_ok a b u"
proof -
  have "map_option f x = map_option f y \<longleftrightarrow> x = y" for x y
    using assms(1) by (cases x; cases y) (auto dest: injD)
  then show ?thesis using assms(2)
    by (cases u) (auto simp: entry_ok_def wrap_update_def split: if_splits)
qed

lemma cycle_ok_unwrap:
  assumes "inj f" "cycle_ok o0 o1 u"
    and "\<And>k. o0 (sid, k) = wrap_objects f s0 k" "\<And>k. o1 (sid, k) = wrap_objects f s1 k"
    and "\<And>k. u (sid, k) = wrap_updates f s1 k"
  shows "cycle_ok (map_of (objects s0)) (map_of (objects s1)) (map_of (updates s1))"
  unfolding cycle_ok_def
proof
  fix k
  have "entry_ok (wrap_objects f s0 k) (wrap_objects f s1 k) (wrap_updates f s1 k)"
    using assms(2)[unfolded cycle_ok_def, rule_format, of "(sid, k)"] assms(3-5) by simp
  then show "entry_ok (map_of (objects s0) k) (map_of (objects s1) k) (map_of (updates s1) k)"
    using entry_ok_unwrap[OF assms(1)] by (simp add: wrap_objects_def wrap_updates_def)
qed

subsection \<open>The scheme contract and the store it gives\<close>

lemma fold_map_pairs: "fold (\<lambda>(p, v). g (f p) v) xs = fold (\<lambda>(k, v). g k v) (map (\<lambda>(p, v). (f p, v)) xs)"
  by (induction xs) auto

definition store_op :: "(k8s_object \<Rightarrow> gvk) \<Rightarrow> event \<Rightarrow> (k8s_object + k8s_object \<times> namespaced_name) list" where
  "store_op extractGVK e = (case e of UpsertEvent obj \<Rightarrow> [Inl obj] | DeleteEvent t n \<Rightarrow> [Inr (t, n)] | UnknownEvent \<Rightarrow> [])"

lemma processBatch_run:
  "processBatch extractGVK b cs = run_ops (Upsert extractGVK) (\<lambda>d. Delete extractGVK (fst d) (snd d))
     (concat (map (store_op extractGVK) (eb_Events b))) (ResetUpdates extractGVK cs)"
proof -
  have "fold (updateClusterStore extractGVK) es c = run_ops (Upsert extractGVK)
     (\<lambda>d. Delete extractGVK (fst d) (snd d)) (concat (map (store_op extractGVK) es)) c" for es c
    by (induction es arbitrary: c)
      (auto simp: run_ops_def updateClusterStore_def store_op_def split: event.splits)
  then show ?thesis by (simp add: processBatch_def)
qed

locale gvk_scheme =
  fixes extractGVK :: "k8s_object \<Rightarrow> gvk"
  assumes distinct_protos: "distinct (map (\<lambda>p. extractGVK (fst p)) store_table)"
begin

lemma stores_eq: "stores extractGVK = map (\<lambda>(p, sid). (extractGVK p, sid)) store_table"
proof -
  have "distinct (map fst (map (\<lambda>(p, sid). (extractGVK p, sid)) store_table))"
    using distinct_protos by (simp add: comp_def case_prod_unfold)
  moreover have "stores extractGVK
      = fold (\<lambda>(k, v). mput k v) (map (\<lambda>(p, sid). (extractGVK p, sid)) store_table) []"
    unfolding stores_def by (rule fold_map_pairs[where g = mput, THEN fun_cong])
  ultimately show ?thesis by (simp add: fold_mput_fresh)
qed

lemma reset_objects: "view_objects (ResetUpdates extractGVK cs) = view_objects cs"
proof -
  have "view_objects (fold (\<lambda>(_, sid). store_reset sid) xs cs) = view_objects cs" for xs :: "(gvk \<times> store_id) list"
    by (rule fold_pres[where g = view_objects]) (auto simp: view_reset fun_eq_iff)
  then show ?thesis by (simp add: ResetUpdates_def)
qed

lemma reset_updates: "view_updates (ResetUpdates extractGVK cs) = (\<lambda>_. None)"
proof (rule ext, clarify)
  fix sid k
  have *: "view_updates (fold (\<lambda>(_, sid). store_reset sid) xs cs) (sid, k)
      = (if sid \<in> snd ` set xs then None else view_updates cs (sid, k))"
    for xs :: "(gvk \<times> store_id) list"
    by (induction xs arbitrary: cs) (auto simp: view_reset)
  have "sid \<in> snd ` set (stores extractGVK)"
    by (cases sid) (simp_all add: stores_eq store_table_def)
  then show "view_updates (ResetUpdates extractGVK cs) (sid, k) = None"
    by (simp add: ResetUpdates_def *)
qed

lemma target_of_typed:
  "(p, sid) \<in> set store_table \<Longrightarrow> extractGVK obj = extractGVK p \<Longrightarrow> accepts sid obj
     \<Longrightarrow> object_target extractGVK obj = Some ((sid, ObjectKeyFromObject obj), obj)"
  unfolding object_target_def
proof -
  assume a: "(p, sid) \<in> set store_table" "extractGVK obj = extractGVK p" "accepts sid obj"
  have "wf_map (stores extractGVK)"
    using distinct_protos by (simp add: stores_eq wf_map_def comp_def case_prod_unfold)
  moreover have "(extractGVK p, sid) \<in> set (stores extractGVK)" using a(1) by (force simp: stores_eq)
  ultimately have "map_of (stores extractGVK) (extractGVK obj) = Some sid"
    using a(2) by (simp add: map_of_wf_mem)
  with a(3) show "(case map_of (stores extractGVK) (extractGVK obj) of None \<Rightarrow> None
      | Some sid \<Rightarrow> if accepts sid obj then Some ((sid, ObjectKeyFromObject obj), obj) else None)
      = Some ((sid, ObjectKeyFromObject obj), obj)" by simp
qed

end

sublocale gvk_scheme \<subseteq> cs: object_store view_objects view_updates "Upsert extractGVK"
    "\<lambda>d. Delete extractGVK (fst d) (snd d)" "ResetUpdates extractGVK"
    "object_target extractGVK" "delete_target extractGVK"
  by unfold_locales
    (auto simp: Upsert_def Delete_def object_target_def delete_target_def view_upsert_objects
      view_upsert_updates view_delete_objects view_delete_updates reset_objects reset_updates
      split: option.splits)

context gvk_scheme
begin

lemma batch_cycle:
  "cycle_ok (view_objects c) (view_objects (processBatch extractGVK b c)) (view_updates (processBatch extractGVK b c))"
  unfolding processBatch_run by (rule cs.cycle)

lemma batch_last_upsert:
  assumes "(p, sid) \<in> set store_table" "extractGVK obj = extractGVK p" "accepts sid obj"
    and "eb_Events b = es @ [UpsertEvent obj]"
  shows "view_objects (processBatch extractGVK b c) (sid, ObjectKeyFromObject obj) = Some obj"
  using cs.last_upsert_wins[OF target_of_typed[OF assms(1-3)]] assms(4)
  by (simp add: processBatch_run store_op_def)

lemma batch_last_delete:
  assumes "(p, sid) \<in> set store_table" "extractGVK t = extractGVK p"
    and "eb_Events b = es @ [DeleteEvent t n]"
  shows "view_objects (processBatch extractGVK b c) (sid, n) = None"
proof -
  have "wf_map (stores extractGVK)"
    using distinct_protos by (simp add: stores_eq wf_map_def comp_def case_prod_unfold)
  moreover have "(extractGVK p, sid) \<in> set (stores extractGVK)" using assms(1) by (force simp: stores_eq)
  ultimately have "delete_target extractGVK (t, n) = Some (sid, n)"
    using assms(2) by (simp add: map_of_wf_mem delete_target_def)
  from cs.last_delete_wins[OF this] show ?thesis
    using assms(3) by (simp add: processBatch_run store_op_def)
qed

end

text \<open>The group-version-kinds under which the Kubernetes, Gateway API and gate types are
  registered.\<close>

fun scheme_gvk :: "k8s_object \<Rightarrow> gvk" where
  "scheme_gvk (OGatewayClass x) = GVK GatewayGroupName ''v1'' ''GatewayClass''"
| "scheme_gvk (OGateway x) = GVK GatewayGroupName ''v1'' ''Gateway''"
| "scheme_gvk (OHTTPRoute x) = GVK GatewayGroupName ''v1'' ''HTTPRoute''"
| "scheme_gvk (OTLSRoute x) = GVK GatewayGroupName ''v1alpha2'' ''TLSRoute''"
| "scheme_gvk (OService x) = GVK [] ''v1'' ''Service''"
| "scheme_gvk (ONamespace x) = GVK [] ''v1'' ''Namespace''"
| "scheme_gvk (OSecret x) = GVK [] ''v1'' ''Secret''"
| "scheme_gvk (OConfigMap x) = GVK [] ''v1'' ''ConfigMap''"
| "scheme_gvk (OPartialMetadata x) = pmd_gvk x"
| "scheme_gvk (OCustomResourceDefinition x) = GVK ''apiextensions.k8s.io'' ''v1'' ''CustomResourceDefinition''"
| "scheme_gvk (OHugGate x) = GVK ''gate.v3.haproxy.org'' ''v3'' ''HugGate''"
| "scheme_gvk (OBackend x) = GVK ''gate.v3.haproxy.org'' ''v3'' ''Backend''"
| "scheme_gvk (OHugConf x) = GVK ''gate.v3.haproxy.org'' ''v3'' ''HugConf''"
| "scheme_gvk (OEndpointSlice x) = GVK ''discovery.k8s.io'' ''v1'' ''EndpointSlice''"
| "scheme_gvk (OOther t x) = GVK ''other'' ''v1'' t"

lemma scheme_distinct: "distinct (map (\<lambda>p. scheme_gvk (fst p)) store_table)"
  by (simp add: store_table_def GatewayGroupName_def)

interpretation scheme: gvk_scheme scheme_gvk
  by unfold_locales (rule scheme_distinct)

subsection \<open>Properties\<close>

text \<open>C7: after a batch of events, the update maps of all thirteen resource kinds describe
  exactly what the batch changed: a key without an update holds the object it held before the batch,
  and a key with an update has the object before the batch as old object, the current object as new
  object, and status deleted exactly when nothing is stored any more, whatever the events, their
  order and their duplicates.\<close>

theorem processBatch_updates_exact:
  assumes "distinct (map (\<lambda>p. extractGVK (fst p)) store_table)"
  shows "cycle_ok (view_objects cs) (view_objects (processBatch extractGVK b cs))
           (view_updates (processBatch extractGVK b cs))"
  by (rule gvk_scheme.batch_cycle[OF gvk_scheme.intro[OF assms]])

definition gw_named :: "string \<Rightarrow> string \<Rightarrow> gateway_k8s" where
  "gw_named n cls = gateway0\<lparr>gwk_meta := meta0\<lparr>om_name := n\<rparr>, gwk_gatewayClassName := cls\<rparr>"

definition witness_batch :: event_batch where
  "witness_batch = \<lparr>eb_Events = [UpsertEvent (OGateway (gw_named ''g'' ''a'')),
     DeleteEvent (OGateway gateway0) (NamespacedName [] ''g''),
     UpsertEvent (OGateway (gw_named ''g'' ''b''))], eb_BatchID = 1\<rparr>"

theorem processBatch_updates_exact_witness:
  "cycle_ok (view_objects empty_cluster_store)
     (view_objects (processBatch scheme_gvk witness_batch empty_cluster_store))
     (view_updates (processBatch scheme_gvk witness_batch empty_cluster_store))"
  by (rule processBatch_updates_exact) (rule scheme_distinct)

text \<open>C15: an upsert event whose type is registered puts the object into the store of its kind
  under its own key, and it is there at the end of the batch when it is the last event of the
  batch, whatever came before it.\<close>

theorem processBatch_last_upsert:
  assumes "distinct (map (\<lambda>p. extractGVK (fst p)) store_table)"
    and "(p, sid) \<in> set store_table" "extractGVK obj = extractGVK p" "accepts sid obj"
    and "eb_Events b = es @ [UpsertEvent obj]"
  shows "view_objects (processBatch extractGVK b cs) (sid, ObjectKeyFromObject obj) = Some obj"
  by (rule gvk_scheme.batch_last_upsert[OF gvk_scheme.intro[OF assms(1)] assms(2-5)])

theorem processBatch_last_upsert_witness:
  "view_objects (processBatch scheme_gvk witness_batch empty_cluster_store) (SGateway, NamespacedName [] ''g'')
     = Some (OGateway (gw_named ''g'' ''b''))"
  using processBatch_last_upsert[OF scheme_distinct, of "OGateway gateway0" SGateway
      "OGateway (gw_named ''g'' ''b'')" witness_batch "butlast (eb_Events witness_batch)"]
  by (simp add: store_table_def witness_batch_def as_Gateway_def ObjectKeyFromObject_def
      meta_key_def gw_named_def meta0_def)

end
