(* ===== verification/References.thy ===== *)
theory References
  imports ClusterStore
begin

text \<open>
  \<open>k8s/gate/references/references.go\<close>: which objects are referenced by which owners.
  The nested maps represent a relation between owned keys, owner kinds and owner keys
  (\<open>ref_rel\<close>); the locale \<open>reference_index\<close> states the operations on that relation
  and is interpreted on the nested maps.
\<close>

type_synonym owner_map = "(namespaced_name, (gvk, namespaced_name goset) gomap) gomap"

record referenced_by =
  rb_extractGVK :: "k8s_object \<Rightarrow> gvk"
  rb_Owner :: owner_map
  rb_Name :: string

definition NewReferencedBy :: "string \<Rightarrow> (k8s_object \<Rightarrow> gvk) \<Rightarrow> referenced_by" where
  "NewReferencedBy name ex = \<lparr>rb_extractGVK = ex, rb_Owner = [], rb_Name = name\<rparr>"

definition AddReferencedByUsingKeys ::
    "namespaced_name \<Rightarrow> namespaced_name \<Rightarrow> gvk \<Rightarrow> referenced_by \<Rightarrow> referenced_by" where
  "AddReferencedByUsingKeys ownedKey ownerKey ownerGVK r =
     (let o1 = (if mhas (rb_Owner r) ownedKey then rb_Owner r else mput ownedKey [] (rb_Owner r));
          byGVK = map_get_default [] o1 ownedKey;
          byGVK1 = (if mhas byGVK ownerGVK then byGVK else mput ownerGVK [] byGVK);
          owners = sput ownerKey (map_get_default [] byGVK1 ownerGVK)
      in r\<lparr>rb_Owner := mput ownedKey (mput ownerGVK owners byGVK1) o1\<rparr>)"

definition AddReferencedBy :: "namespaced_name \<Rightarrow> k8s_object \<Rightarrow> referenced_by \<Rightarrow> referenced_by" where
  "AddReferencedBy ownedKey owner r =
     AddReferencedByUsingKeys ownedKey (ObjectKeyFromObject owner) (rb_extractGVK r owner) r"

definition RemoveReferencedByUsingKeys ::
    "namespaced_name \<Rightarrow> namespaced_name \<Rightarrow> gvk \<Rightarrow> referenced_by \<Rightarrow> referenced_by" where
  "RemoveReferencedByUsingKeys ownedKey ownerKey ownerGVK r =
     (case map_of (rb_Owner r) ownedKey of
        None \<Rightarrow> r
      | Some byGVK \<Rightarrow>
          (case map_of byGVK ownerGVK of
             None \<Rightarrow> r
           | Some owners \<Rightarrow>
               let owners1 = mdel ownerKey owners;
                   byGVK1 = mput ownerGVK owners1 byGVK;
                   byGVK2 = (if owners1 = [] then mdel ownerGVK byGVK1 else byGVK1);
                   o1 = mput ownedKey byGVK2 (rb_Owner r);
                   o2 = (if byGVK2 = [] then mdel ownedKey o1 else o1)
               in r\<lparr>rb_Owner := o2\<rparr>))"

definition RemoveReferencedBy :: "namespaced_name \<Rightarrow> k8s_object \<Rightarrow> referenced_by \<Rightarrow> referenced_by" where
  "RemoveReferencedBy ownedKey owner r =
     RemoveReferencedByUsingKeys ownedKey (ObjectKeyFromObject owner) (rb_extractGVK r owner) r"

definition ReferencedByUsingKeys :: "referenced_by \<Rightarrow> namespaced_name \<Rightarrow> gvk \<Rightarrow> namespaced_name goset" where
  "ReferencedByUsingKeys r ownedKey ownerGVK =
     (case map_of (rb_Owner r) ownedKey of
        None \<Rightarrow> []
      | Some byGVK \<Rightarrow> map_get_default [] byGVK ownerGVK)"

definition ReferencedBy :: "referenced_by \<Rightarrow> k8s_object \<Rightarrow> gvk \<Rightarrow> namespaced_name goset" where
  "ReferencedBy r owned ownerGVK = ReferencedByUsingKeys r (ObjectKeyFromObject owned) ownerGVK"

definition AllReferenced :: "referenced_by \<Rightarrow> gvk \<Rightarrow> (namespaced_name, namespaced_name goset) gomap" where
  "AllReferenced r ownerGVK =
     fold (\<lambda>(ownedKey, byGVK) acc.
        let gwOwners = map_get_default [] byGVK ownerGVK in
        if length gwOwners \<noteq> 0 then mput ownedKey gwOwners acc else acc) (rb_Owner r) []"

definition ReferencedBy_DeepCopy :: "referenced_by \<Rightarrow> referenced_by" where
  "ReferencedBy_DeepCopy r =
     \<lparr>rb_extractGVK = rb_extractGVK r,
      rb_Owner = fold (\<lambda>(k1, v1) ownerCopy.
          mput k1 (fold (\<lambda>(k2, v2) innerCopy.
              mput k2 (fold (\<lambda>(k3, _) deepest. sput k3 deepest) v2 []) innerCopy) v1 [])
            ownerCopy) (rb_Owner r) [],
      rb_Name = rb_Name r\<rparr>"

definition CleanOwners :: "referenced_by \<Rightarrow> referenced_by" where
  "CleanOwners r = r\<lparr>rb_Owner := fold mdel (map fst (rb_Owner r)) (rb_Owner r)\<rparr>"

subsection \<open>The relation and the invariant\<close>

definition owner_rel :: "owner_map \<Rightarrow> (namespaced_name \<times> gvk \<times> namespaced_name) set" where
  "owner_rel m = {(k, g, w). \<exists>a s. map_of m k = Some a \<and> map_of a g = Some s \<and> w \<in> mkeys s}"

definition ref_rel :: "referenced_by \<Rightarrow> (namespaced_name \<times> gvk \<times> namespaced_name) set" where
  "ref_rel r = owner_rel (rb_Owner r)"

text \<open>Maps are well-formed and no inner map is empty, so that the presence of a key means that
  something refers to it.\<close>

definition inner_inv :: "(gvk, namespaced_name goset) gomap \<Rightarrow> bool" where
  "inner_inv a \<longleftrightarrow> wf_map a \<and> (\<forall>g s. map_of a g = Some s \<longrightarrow> wf_map s \<and> s \<noteq> [])"

definition ref_inv :: "referenced_by \<Rightarrow> bool" where
  "ref_inv r \<longleftrightarrow> wf_map (rb_Owner r)
     \<and> (\<forall>k a. map_of (rb_Owner r) k = Some a \<longrightarrow> inner_inv a \<and> a \<noteq> [])"

lemma mput_ne [simp]: "mput k v m \<noteq> []"
  by (cases m) auto

lemma sput_ne [simp]: "sput k s \<noteq> []"
  by (simp add: sput_def)

lemma mput_mput: "mput k v (mput k w m) = mput k v m"
  by (induction m) auto

lemma add_owner_map:
  "rb_Owner (AddReferencedByUsingKeys k w g r)
     = (let a = map_get_default [] (rb_Owner r) k
        in mput k (mput g (sput w (map_get_default [] a g)) a) (rb_Owner r))"
proof -
  have [simp]: "map_get_default [] m x = []" if "\<not> mhas m x" for m :: "('a, 'b list) gomap" and x
    using that by (simp add: map_get_default_def mhas_def)
  show ?thesis by (simp add: AddReferencedByUsingKeys_def Let_def mput_mput)
qed

lemma get_default_Some: "map_of m k = Some v \<Longrightarrow> map_get_default z m k = v"
  by (simp add: map_get_default_def)

lemma get_default_None: "map_of m k = None \<Longrightarrow> map_get_default z m k = z"
  by (simp add: map_get_default_def)

lemma owner_rel_alt:
  "(k, g, w) \<in> owner_rel m \<longleftrightarrow> w \<in> mkeys (map_get_default [] (map_get_default [] m k) g)"
  by (auto simp: owner_rel_def map_get_default_def split: option.splits)

lemma rel_add: "ref_rel (AddReferencedByUsingKeys k w g r) = insert (k, g, w) (ref_rel r)"
  unfolding ref_rel_def by (auto simp: owner_rel_alt add_owner_map Let_def split: if_splits)

lemma inner_inv_default: "ref_inv r \<Longrightarrow> inner_inv (map_get_default [] (rb_Owner r) k)"
  by (auto simp: ref_inv_def map_get_default_def inner_inv_def split: option.splits)

lemma inv_add: "ref_inv r \<Longrightarrow> ref_inv (AddReferencedByUsingKeys k w g r)"
  using inner_inv_default[of r k]
  by (auto simp: ref_inv_def add_owner_map Let_def inner_inv_def map_of_mput wf_mput
      map_get_default_def wf_sput split: if_splits option.splits)

lemma remove_cases:
  obtains "map_of (rb_Owner r) k = None" "RemoveReferencedByUsingKeys k w g r = r"
  | a where "map_of (rb_Owner r) k = Some a" "map_of a g = None" "RemoveReferencedByUsingKeys k w g r = r"
  | a s where "map_of (rb_Owner r) k = Some a" "map_of a g = Some s"
      "rb_Owner (RemoveReferencedByUsingKeys k w g r) =
        (let a' = (if mdel w s = [] then mdel g a else mput g (mdel w s) a)
         in if a' = [] then mdel k (rb_Owner r) else mput k a' (rb_Owner r))"
  by (cases "map_of (rb_Owner r) k"; cases "map_of (the (map_of (rb_Owner r) k)) g")
    (auto simp: RemoveReferencedByUsingKeys_def Let_def delete_update_same)

lemma mdel_Nil_keys: "mdel w s = [] \<Longrightarrow> mkeys s \<subseteq> {w}"
  by (metis Diff_eq_empty_iff mkeys_Nil mkeys_mdel)

lemma rel_remove: "ref_rel (RemoveReferencedByUsingKeys k w g r) = ref_rel r - {(k, g, w)}"
proof (rule remove_cases[of r k w g])
  fix a s assume a: "map_of (rb_Owner r) k = Some a" "map_of a g = Some s"
    and eq: "rb_Owner (RemoveReferencedByUsingKeys k w g r) =
        (let a' = (if mdel w s = [] then mdel g a else mput g (mdel w s) a)
         in if a' = [] then mdel k (rb_Owner r) else mput k a' (rb_Owner r))"
  define a' where "a' = (if mdel w s = [] then mdel g a else mput g (mdel w s) a)"
  have s: "mkeys (map_get_default [] a' g') = mkeys (map_get_default [] a g') - (if g' = g then {w} else {})" for g'
    using mdel_Nil_keys[of w s] a(2) by (auto simp: a'_def get_default_Some)
  have "map_get_default [] (rb_Owner (RemoveReferencedByUsingKeys k w g r)) k'
      = (if k' = k then a' else map_get_default [] (rb_Owner r) k')" for k'
    by (simp add: eq a'_def[symmetric] Let_def)
  then show ?thesis using s a(1)
    by (auto simp: ref_rel_def owner_rel_alt get_default_Some split: if_splits)
qed (auto simp: ref_rel_def owner_rel_def)

lemma inv_remove: "ref_inv r \<Longrightarrow> ref_inv (RemoveReferencedByUsingKeys k w g r)"
  by (rule remove_cases[of r k w g])
    (auto simp: ref_inv_def inner_inv_def Let_def map_of_mput map_of_mdel wf_mput wf_mdel split: if_splits)

lemma rel_clean: "ref_rel (CleanOwners r) = {}" "ref_inv (CleanOwners r)"
  using ClearMap_empty[of "rb_Owner r", unfolded ClearMap_def]
  by (simp_all add: CleanOwners_def ref_rel_def owner_rel_def ref_inv_def)

lemma fold_sput_id:
  fixes s acc :: "'k goset"
  shows "wf_map s \<Longrightarrow> (\<forall>k \<in> mkeys s. k \<notin> mkeys acc) \<Longrightarrow> fold (\<lambda>(k, _) d. sput k d) s acc = acc @ s"
  using fold_mput_fresh[of s acc] unfolding sput_def wf_map_def mkeys_def
  by (simp add: case_prod_unfold)

text \<open>The deep copy has the same content.\<close>

lemma DeepCopy_same: "ref_inv r \<Longrightarrow> ReferencedBy_DeepCopy r = r"
proof -
  assume inv: "ref_inv r"
  have inner: "fold (\<lambda>(k2, v2) c. mput k2 (fold (\<lambda>(k3, _) d. sput k3 d) v2 []) c) a [] = a"
    if "inner_inv a" for a :: "(gvk, namespaced_name goset) gomap"
  proof -
    have "wf_map v" if "(g, v) \<in> set a" for g v
      using that \<open>inner_inv a\<close> by (auto simp: inner_inv_def map_of_wf_mem)
    then have "fold (\<lambda>(k2, v2) c. mput k2 (fold (\<lambda>(k3, _) d. sput k3 d) v2 []) c) a []
        = fold (\<lambda>(k2, v2). mput k2 v2) a []"
      by (intro fold_cong) (auto simp: fold_sput_id)
    then show ?thesis using that by (simp add: fold_mput_fresh inner_inv_def wf_map_def)
  qed
  have "inner_inv a" if "(k, a) \<in> set (rb_Owner r)" for k a
    using that inv by (auto simp: ref_inv_def map_of_wf_mem)
  then have "fold (\<lambda>(k1, v1) c. mput k1 (fold (\<lambda>(k2, v2) c. mput k2 (fold (\<lambda>(k3, _) d. sput k3 d) v2 []) c) v1 []) c)
      (rb_Owner r) [] = fold (\<lambda>(k, v). mput k v) (rb_Owner r) []"
    by (intro fold_cong) (auto simp: inner)
  then show ?thesis using inv
    by (simp add: ReferencedBy_DeepCopy_def fold_mput_fresh ref_inv_def wf_map_def)
qed

lemma rel_lookup: "w \<in> mkeys (ReferencedByUsingKeys r k g) \<longleftrightarrow> (k, g, w) \<in> ref_rel r"
  by (auto simp: ref_rel_def owner_rel_alt ReferencedByUsingKeys_def map_get_default_def split: option.splits)

lemma map_of_AllReferenced:
  assumes "wf_map (rb_Owner r)"
  shows "map_of (AllReferenced r g) k = (let s = ReferencedByUsingKeys r k g in if s = [] then None else Some s)"
proof -
  have "wf_map m \<Longrightarrow> map_of (fold (\<lambda>(ownedKey, byGVK) acc.
        let gwOwners = map_get_default [] byGVK g in
        if length gwOwners \<noteq> 0 then mput ownedKey gwOwners acc else acc) m acc) k
      = (case map_of m k of None \<Rightarrow> map_of acc k
         | Some a \<Rightarrow> if map_get_default [] a g = [] then map_of acc k else Some (map_get_default [] a g))"
    for m :: owner_map and acc
    by (induction m arbitrary: acc)
      (auto simp: wf_map_Cons map_of_mput map_of_None_mkeys[symmetric] Let_def split: option.splits)
  from this[OF assms, of "[]"] show ?thesis
    by (auto simp: AllReferenced_def ReferencedByUsingKeys_def Let_def split: option.splits)
qed

subsection \<open>The contract of a reference index\<close>

locale reference_index =
  fixes rel :: "'r \<Rightarrow> ('k \<times> 'g \<times> 'w) set" and add :: "'k \<Rightarrow> 'w \<Rightarrow> 'g \<Rightarrow> 'r \<Rightarrow> 'r"
    and remove :: "'k \<Rightarrow> 'w \<Rightarrow> 'g \<Rightarrow> 'r \<Rightarrow> 'r" and inv :: "'r \<Rightarrow> bool"
  assumes rel_of_add: "rel (add k w g r) = insert (k, g, w) (rel r)"
    and rel_of_remove: "rel (remove k w g r) = rel r - {(k, g, w)}"
    and inv_of_add: "inv r \<Longrightarrow> inv (add k w g r)"
    and inv_of_remove: "inv r \<Longrightarrow> inv (remove k w g r)"
begin

lemma rel_add_all: "rel (fold (\<lambda>(k, w). add k w g) kws r) = (\<lambda>(k, w). (k, g, w)) ` set kws \<union> rel r"
  by (induction kws arbitrary: r) (auto simp: rel_of_add)

lemma inv_add_all: "inv r \<Longrightarrow> inv (fold (\<lambda>(k, w). add k w g) kws r)"
  by (induction kws arbitrary: r) (auto simp: inv_of_add)

lemma add_remove: "(k, g, w) \<notin> rel r \<Longrightarrow> rel (remove k w g (add k w g r)) = rel r"
  by (auto simp: rel_of_add rel_of_remove)

end

interpretation refs: reference_index ref_rel AddReferencedByUsingKeys RemoveReferencedByUsingKeys ref_inv
  by unfold_locales (auto simp: rel_add rel_remove inv_add inv_remove)

text \<open>C14: the nested reference maps implement a relation between owned keys, owner kinds and
  owner keys: adding inserts one triple, removing deletes one triple (and never leaves an empty
  inner map behind), cleaning empties it, copying keeps it, and listing the references of an owner
  kind returns exactly the owned keys with at least one owner, with those owners.\<close>

theorem references_implement_relation:
  assumes "ref_inv r"
  shows "ref_rel (AddReferencedByUsingKeys k w g r) = insert (k, g, w) (ref_rel r)
    \<and> ref_rel (RemoveReferencedByUsingKeys k w g r) = ref_rel r - {(k, g, w)}
    \<and> ref_inv (AddReferencedByUsingKeys k w g r) \<and> ref_inv (RemoveReferencedByUsingKeys k w g r)
    \<and> ReferencedBy_DeepCopy r = r \<and> ref_rel (CleanOwners r) = {}
    \<and> mkeys (AllReferenced r g) = {k. \<exists>w. (k, g, w) \<in> ref_rel r}
    \<and> (\<forall>k s. map_of (AllReferenced r g) k = Some s \<longrightarrow> mkeys s = {w. (k, g, w) \<in> ref_rel r})"
proof -
  have wf: "wf_map (rb_Owner r)" using assms by (simp add: ref_inv_def)
  have "k \<in> mkeys (AllReferenced r g) \<longleftrightarrow> (\<exists>w. (k, g, w) \<in> ref_rel r)" for k
    using map_of_AllReferenced[OF wf, of g k] rel_lookup[of _ r k g]
    by (cases "ReferencedByUsingKeys r k g") (auto simp: Let_def mhas_iff[symmetric] mhas_def)
  moreover have "mkeys s = {w. (k, g, w) \<in> ref_rel r}" if "map_of (AllReferenced r g) k = Some s" for k s
    using that map_of_AllReferenced[OF wf, of g k] rel_lookup[of _ r k g]
    by (auto simp: Let_def split: if_splits)
  ultimately show ?thesis using assms
    by (auto simp: refs.rel_of_add refs.rel_of_remove inv_add inv_remove DeepCopy_same rel_clean)
qed

theorem references_implement_relation_witness:
  "ref_rel (RemoveReferencedByUsingKeys (NamespacedName ''n'' ''s'') (NamespacedName ''n'' ''g'') (GVK [] ''v1'' ''Gateway'')
     (AddReferencedByUsingKeys (NamespacedName ''n'' ''s'') (NamespacedName ''n'' ''g'') (GVK [] ''v1'' ''Gateway'')
       (NewReferencedBy ''secret'' scheme_gvk))) = {}"
  using references_implement_relation[of "NewReferencedBy ''secret'' scheme_gvk"]
    references_implement_relation[of "AddReferencedByUsingKeys (NamespacedName ''n'' ''s'')
      (NamespacedName ''n'' ''g'') (GVK [] ''v1'' ''Gateway'') (NewReferencedBy ''secret'' scheme_gvk)"]
  by (auto simp: ref_inv_def NewReferencedBy_def ref_rel_def owner_rel_def)

end
