(* ===== verification/CertStorage.thy ===== *)
theory CertStorage
  imports K8sTypes
begin

text \<open>
  \<open>k8s/gate/fileutils/filepath.go\<close>, \<open>haproxy/certificate\<close> and the path and content
  computations of \<open>haproxy/storage/cert.go\<close> and \<open>crt-list.go\<close>.  The disk is a map
  from full paths to contents; directory creation and removal are left out.
  \<open>CertPath\<close> slices two bytes off the secret name, which panics on a shorter name: the model
  returns \<open>None\<close> there.
\<close>

record file_path =
  fp_Dir :: string
  fp_FileName :: string

text \<open>\<open>filepath.Clean\<close> and \<open>filepath.Join\<close> of the standard library.  \<open>clean_elem\<close>
  is the treatment of one path element, with the elements kept so far.\<close>

definition clean_elem :: "bool \<Rightarrow> string \<Rightarrow> string list \<Rightarrow> string list" where
  "clean_elem rooted e st =
     (if e = [] \<or> e = ''.'' then st
      else if e = ''..'' then
        (if st = [] then (if rooted then [] else [''..'']) else if last st = ''..'' then st @ [''..''] else butlast st)
      else st @ [e])"

definition path_clean :: "string \<Rightarrow> string" where
  "path_clean p =
     (let rooted = (p \<noteq> [] \<and> hd p = CHR ''/'');
          s = join ''/'' (fold (clean_elem rooted) (split_on (CHR ''/'') p) [])
      in if rooted then CHR ''/'' # s else if s = [] then ''.'' else s)"

definition path_join :: "string list \<Rightarrow> string" where
  "path_join es = (case filter (\<lambda>e. e \<noteq> []) es of [] \<Rightarrow> [] | es' \<Rightarrow> path_clean (join ''/'' es'))"

definition FullPath :: "file_path \<Rightarrow> string" where
  "FullPath fp = path_join [fp_Dir fp, fp_FileName fp]"

record certificate_data =
  cd_Path :: file_path
  cd_Data :: string
  cd_ReloadNeeded :: bool

definition NewCertificateData :: "file_path \<Rightarrow> string \<Rightarrow> certificate_data" where
  "NewCertificateData path data = \<lparr>cd_Path = path, cd_Data = data, cd_ReloadNeeded = True\<rparr>"

definition CertificateData_MapKey :: "certificate_data \<Rightarrow> string" where
  "CertificateData_MapKey c = fp_FileName (cd_Path c)"

record crt_list_data =
  cl_ImpactedFrontends :: "string goset"
  cl_ImpactedListeners :: "namespaced_name goset"
  cl_Path :: file_path
  cl_Content :: "string list"
  cl_ReloadNeeded :: bool

definition NewCrtListData :: "file_path \<Rightarrow> string list \<Rightarrow> crt_list_data" where
  "NewCrtListData path certificateFullPaths =
     \<lparr>cl_ImpactedFrontends = [], cl_ImpactedListeners = [], cl_Path = path,
      cl_Content = certificateFullPaths, cl_ReloadNeeded = True\<rparr>"

definition CrtListData_MapKey :: "crt_list_data \<Rightarrow> string" where
  "CrtListData_MapKey c = fp_FileName (cl_Path c)"

record certificate_storage =
  CertsBaseDir :: string
  CertFilesBaseDir :: string

subsection \<open>Paths and contents\<close>

definition CertPath :: "certificate_storage \<Rightarrow> namespaced_name \<Rightarrow> file_path option" where
  "CertPath c secretKey =
     (if length (nn_name secretKey) < 2 then None
      else Some \<lparr>fp_Dir = path_join [CertsBaseDir c, nn_namespace secretKey, take 2 (nn_name secretKey)],
                 fp_FileName = nn_namespace secretKey @ ''_'' @ nn_name secretKey @ ''.pem''\<rparr>)"

definition certContent :: "string \<Rightarrow> string \<Rightarrow> string" where
  "certContent key crt =
     key @ (if length key > 0 \<and> last key \<noteq> CHR 0x0A then [CHR 0x0A] else []) @ crt"

datatype cert_error = PemMissing namespaced_name

text \<open>One iteration of the loop over the key kinds; \<open>None\<close> in the outer option is the panic
  of \<open>CertPath\<close>, the inner option is \<open>pemOk\<close> with the data.\<close>

definition cert_step ::
    "certificate_storage \<Rightarrow> secret_k8s \<Rightarrow> string \<Rightarrow> certificate_data option option \<Rightarrow> certificate_data option option" where
  "cert_step c s k acc =
     (case acc of None \<Rightarrow> None
      | Some cd \<Rightarrow>
          (case (map_of (sck_data s) (k @ ''.key''), map_of (sck_data s) (k @ ''.crt'')) of
             (Some keyValue, Some crtValue) \<Rightarrow>
               (case CertPath c (meta_key (sck_meta s)) of
                  None \<Rightarrow> None
                | Some fp \<Rightarrow>
                    let fp' = (if k \<noteq> ''tls'' then fp\<lparr>fp_FileName := FullPath fp @ ''.'' @ k\<rparr> else fp)
                    in Some (Some (NewCertificateData fp' (certContent keyValue crtValue))))
           | _ \<Rightarrow> Some cd))"

definition Storage_NewCertificateData ::
    "certificate_storage \<Rightarrow> secret_k8s \<Rightarrow> (cert_error + certificate_data) option" where
  "Storage_NewCertificateData c s =
     (case fold (cert_step c s) [''tls'', ''rsa'', ''ecdsa'', ''dsa''] (Some None) of
        None \<Rightarrow> None
      | Some None \<Rightarrow> Some (Inl (PemMissing (meta_key (sck_meta s))))
      | Some (Some cd) \<Rightarrow> Some (Inr cd))"

definition CertListPath :: "certificate_storage \<Rightarrow> namespaced_name \<Rightarrow> file_path" where
  "CertListPath c listenerKey =
     \<lparr>fp_Dir = CertFilesBaseDir c,
      fp_FileName = nn_namespace listenerKey @ ''_'' @ nn_name listenerKey @ ''.list''\<rparr>"

text \<open>All certificate paths, or the panic of the first short name.\<close>

fun cert_paths :: "certificate_storage \<Rightarrow> namespaced_name list \<Rightarrow> string list option" where
  "cert_paths c [] = Some []"
| "cert_paths c (k # ks) =
     (case CertPath c k of None \<Rightarrow> None | Some fp \<Rightarrow> map_option (\<lambda>ps. FullPath fp # ps) (cert_paths c ks))"

definition Storage_NewCrtListData ::
    "certificate_storage \<Rightarrow> namespaced_name \<Rightarrow> namespaced_name goset \<Rightarrow> crt_list_data option" where
  "Storage_NewCrtListData c listenerKey secretKeys =
     map_option (\<lambda>ps. NewCrtListData (CertListPath c listenerKey) (sort ps)) (cert_paths c (map fst secretKeys))"

text \<open>\<open>filepath.Ext\<close>: the suffix from the last dot of the last path element, and
  \<open>filepath.Base\<close> of a path without a trailing slash.\<close>

definition base_name :: "string \<Rightarrow> string" where
  "base_name p = rev (takeWhile (\<lambda>x. x \<noteq> CHR ''/'') (rev p))"

definition path_ext :: "string \<Rightarrow> string" where
  "path_ext p = (let b = base_name p in
     if CHR ''.'' \<in> set b then CHR ''.'' # rev (takeWhile (\<lambda>x. x \<noteq> CHR ''.'') (rev b)) else [])"

definition removeFileExtension :: "string \<Rightarrow> string" where
  "removeFileExtension filename = take (length filename - length (path_ext filename)) filename"

definition secretKeyFromCertificateFullPath :: "string \<Rightarrow> format_error + namespaced_name" where
  "secretKeyFromCertificateFullPath path =
     (let parts = split_on (CHR ''_'') (base_name (removeFileExtension path)) in
      if length parts \<noteq> 2 then Inl (InvalidFormat path)
      else Inr (NamespacedName (parts ! 0) (parts ! 1)))"

subsection \<open>The disk\<close>

type_synonym disk = "(string, string) gomap"

text \<open>What the file system does is a parameter: whether an atomic write or a removal at a path
  succeeds, and how far the writing of a created file gets.\<close>

datatype io_error = WriteFailed string | RemoveFailed string

datatype write_outcome = Written | NotCreated | CutAfter nat

definition WriteOnDisk :: "(string \<Rightarrow> bool) \<Rightarrow> certificate_data \<Rightarrow> disk \<Rightarrow> io_error option \<times> disk" where
  "WriteOnDisk io certData d =
     (let certFullPath = FullPath (cd_Path certData) in
      if io certFullPath then (None, mput certFullPath (cd_Data certData) d)
      else (Some (WriteFailed certFullPath), d))"

definition remove_file :: "(string \<Rightarrow> bool) \<Rightarrow> string \<Rightarrow> disk \<Rightarrow> io_error option \<times> disk" where
  "remove_file io fullPath d =
     (if \<not> mhas d fullPath then (None, d)
      else if io fullPath then (None, mdel fullPath d) else (Some (RemoveFailed fullPath), d))"

definition DeleteFromDisk :: "(string \<Rightarrow> bool) \<Rightarrow> certificate_data \<Rightarrow> disk \<Rightarrow> io_error option \<times> disk" where
  "DeleteFromDisk io certData d = remove_file io (FullPath (cd_Path certData)) d"

definition crt_list_text :: "crt_list_data \<Rightarrow> string" where
  "crt_list_text crtList = concat (map (\<lambda>p. p @ [CHR 0x0A]) (sort (cl_Content crtList)))"

definition WriteCrtListOnDisk :: "(string \<Rightarrow> write_outcome) \<Rightarrow> crt_list_data \<Rightarrow> disk \<Rightarrow> io_error option \<times> disk" where
  "WriteCrtListOnDisk io crtList d =
     (let crtListFullPath = FullPath (cl_Path crtList) in
      case io crtListFullPath of
        NotCreated \<Rightarrow> (Some (WriteFailed crtListFullPath), d)
      | CutAfter n \<Rightarrow> (Some (WriteFailed crtListFullPath), mput crtListFullPath (take n (crt_list_text crtList)) d)
      | Written \<Rightarrow> (None, mput crtListFullPath (crt_list_text crtList) d))"

definition DeleteCrtListFromDisk :: "(string \<Rightarrow> bool) \<Rightarrow> crt_list_data \<Rightarrow> disk \<Rightarrow> io_error option \<times> disk" where
  "DeleteCrtListFromDisk io crtListData d = remove_file io (FullPath (cl_Path crtListData)) d"

subsection \<open>Lemmas\<close>

lemma CertPath_panics: "CertPath c k = None \<longleftrightarrow> length (nn_name k) < 2"
  by (simp add: CertPath_def)

lemma underscore_file_inj:
  assumes "CHR ''_'' \<notin> set (nn_namespace a)" "CHR ''_'' \<notin> set (nn_namespace b)"
    and "nn_namespace a @ ''_'' @ nn_name a @ ext = nn_namespace b @ ''_'' @ nn_name b @ ext"
  shows "a = b"
proof -
  have "nn_namespace a @ CHR ''_'' # nn_name a = nn_namespace b @ CHR ''_'' # nn_name b"
    using assms(3) by simp
  then have "[nn_namespace a, nn_name a] = [nn_namespace b, nn_name b]"
    using split_two_sep[OF assms(1), of "nn_name a"] split_two_sep[OF assms(2), of "nn_name b"] by metis
  then show ?thesis by (simp add: namespaced_name.expand)
qed

text \<open>Certificate files of different secrets have different names when namespaces have no
  underscore (Kubernetes names have none), so the maps keyed by file name do not mix secrets.\<close>

lemma CertPath_inj:
  assumes "CertPath c a = Some p" "CertPath c b = Some q"
    and "CHR ''_'' \<notin> set (nn_namespace a)" "CHR ''_'' \<notin> set (nn_namespace b)"
    and "fp_FileName p = fp_FileName q"
  shows "a = b"
  using assms underscore_file_inj[of a b "''.pem''"] by (auto simp: CertPath_def split: if_splits)

lemma CertListPath_inj:
  assumes "CHR ''_'' \<notin> set (nn_namespace a)" "CHR ''_'' \<notin> set (nn_namespace b)"
    and "fp_FileName (CertListPath c a) = fp_FileName (CertListPath c b)"
  shows "a = b"
  using assms underscore_file_inj[of a b "''.list''"] by (auto simp: CertListPath_def)

text \<open>A file name that is one plain path element.\<close>

definition plain_name :: "string \<Rightarrow> bool" where
  "plain_name f \<longleftrightarrow> CHR ''/'' \<notin> set f \<and> f \<noteq> [] \<and> f \<noteq> ''.'' \<and> f \<noteq> ''..''"

lemma join_snoc: "join sep (xs @ [x]) = (if xs = [] then x else join sep xs @ sep @ x)"
  by (induction sep xs rule: join.induct) auto

lemma split_on_at: "split_on c (s @ c # t) = split_on c s @ split_on c t"
  by (induction s) (auto split: list.splits)

lemma path_join_prefix:
  "\<exists>P. (\<forall>f. plain_name f \<longrightarrow> path_join [d, f] = P @ f) \<and> (P = [] \<or> last P = CHR ''/'')"
proof -
  define r where "r = (d \<noteq> [] \<and> hd d = CHR ''/'')"
  define st where "st = (if d = [] then [] else fold (clean_elem r) (split_on (CHR ''/'') d) [])"
  define P where "P = (if r then ''/'' else []) @ (if st = [] then [] else join ''/'' st @ ''/'')"
  have "path_join [d, f] = P @ f" if f: "plain_name f" for f
  proof -
    have s: "split_on (CHR ''/'') f = [f]" using f by (simp add: plain_name_def split_on_none)
    have hd: "hd f \<noteq> CHR ''/''" using f by (cases f) (auto simp: plain_name_def)
    let ?p = "(if d = [] then f else d @ CHR ''/'' # f)"
    have pj: "path_join [d, f] = path_clean ?p" using f by (simp add: path_join_def plain_name_def)
    have rt: "(?p \<noteq> [] \<and> hd ?p = CHR ''/'') = r" using f hd by (simp add: r_def plain_name_def)
    have fd: "fold (clean_elem r) (split_on (CHR ''/'') ?p) [] = st @ [f]"
      using f s by (simp add: st_def split_on_at clean_elem_def plain_name_def)
    show ?thesis unfolding pj path_clean_def Let_def rt fd using f by (simp add: join_snoc P_def plain_name_def)
  qed
  then show ?thesis by (intro exI[of _ P]) (simp add: P_def)
qed

lemma base_name_prefix:
  assumes "CHR ''/'' \<notin> set f" "P = [] \<or> last P = CHR ''/''"
  shows "base_name (P @ f) = f"
proof -
  have "takeWhile (\<lambda>x. x \<noteq> CHR ''/'') (rev f @ rev P) = rev f"
  proof (cases P rule: rev_cases)
    case Nil then show ?thesis using assms(1) by (auto simp: takeWhile_eq_all_conv)
  next
    case (snoc Q x) then show ?thesis using assms by (subst takeWhile_append2) auto
  qed
  then show ?thesis by (simp add: base_name_def)
qed

lemma remove_ext_prefix:
  assumes "CHR ''/'' \<notin> set (f @ e)" "CHR ''.'' \<notin> set e" "P = [] \<or> last P = CHR ''/''"
  shows "removeFileExtension (P @ f @ CHR ''.'' # e) = P @ f"
proof -
  have "takeWhile (\<lambda>x. x \<noteq> CHR ''.'') (rev (f @ CHR ''.'' # e)) = rev e"
    using assms(2) by (simp, subst takeWhile_append2) auto
  then have "path_ext (P @ f @ CHR ''.'' # e) = CHR ''.'' # e"
    using assms(1) base_name_prefix[OF _ assms(3), of "f @ CHR ''.'' # e"] by (simp add: path_ext_def Let_def)
  then show ?thesis by (simp add: removeFileExtension_def)
qed



text \<open>A secret whose name is one byte long makes the path computation panic.\<close>

lemma short_secret_name_panics: "CertPath c (NamespacedName ns ''s'') = None"
  by (simp add: CertPath_def)

text \<open>For the key kinds other than \<open>tls\<close> the file name is set to the full path, so that
  joining it to the directory repeats the directory.\<close>

lemma bundle_path_doubled:
  assumes "CertPath c (meta_key (sck_meta s)) = Some fp"
    and "sck_data s = [(''rsa.key'', kv), (''rsa.crt'', cv)]"
  shows "\<exists>cd. Storage_NewCertificateData c s = Some (Inr cd)
           \<and> FullPath (cd_Path cd) = path_join [fp_Dir fp, FullPath fp @ ''.rsa'']"
  using assms
  by (simp add: Storage_NewCertificateData_def cert_step_def Let_def NewCertificateData_def FullPath_def)

lemma bundle_path_doubled_example:
  "path_join [''/certs/ns/my'', ''/certs/ns/my/ns_my.pem.rsa''] = ''/certs/ns/my/certs/ns/my/ns_my.pem.rsa''"
  by code_simp

end
