(* ===== verification/TreeCore.thy ===== *)
theory TreeCore
  imports References RouteConditions CertStorage
begin

text \<open>
  \<open>k8s/gate/tree/tree.go\<close>, \<open>controller_store.go\<close> and the structures of the tree
  nodes (\<open>gatewayclass.go\<close>, \<open>gateway.go\<close>, \<open>gateway_listener.go\<close>,
  \<open>secret.go\<close>, \<open>service.go\<close>, \<open>HTTPRoute.go\<close>, \<open>TLSRoute.go\<close>,
  \<open>installed_versions.go\<close>).

  A tree node is a core (the fields of the Go structure other than \<open>TreeStatus\<close>) with a
  status.  The old resource kept in a status is a copy made by \<open>DeepCopy\<close>, which clears the
  status of the copy, so it is a core.  \<open>DeepCopy\<close> goes through JSON; except for routes
  (\<open>RouteTree\<close>) it returns the same core.

  The locale \<open>mirrored_tree\<close> is the contract of a builder that keeps one tree node per
  stored object; it is interpreted in the builder theories.
\<close>

record 'c tree_update =
  OldTreeResource :: "'c option"
  TreeStatus :: status

record 'c tree_res =
  tr_status :: "'c tree_update"
  tr_core :: 'c

type_synonym 'c tree_map = "(namespaced_name, 'c tree_res) gomap"

definition new_tree_res :: "'c \<Rightarrow> 'c tree_res" where
  "new_tree_res c = \<lparr>tr_status = \<lparr>OldTreeResource = None, TreeStatus = StatusUpserted\<rparr>, tr_core = c\<rparr>"

definition cleanTreeUpdates :: "'c tree_map \<Rightarrow> 'c tree_map" where
  "cleanTreeUpdates resourceMap =
     fold (\<lambda>(key, resource) m.
        if TreeStatus (tr_status resource) = StatusDeleted then mdel key m
        else mput key (resource\<lparr>tr_status := \<lparr>OldTreeResource = None, TreeStatus = StatusUnchanged\<rparr>\<rparr>) m)
      resourceMap resourceMap"

definition setResourceStatus :: "status \<Rightarrow> 'c tree_res \<Rightarrow> 'c tree_res" where
  "setResourceStatus st r = r\<lparr>tr_status := \<lparr>OldTreeResource = Some (tr_core r), TreeStatus = st\<rparr>\<rparr>"

subsection \<open>Structures\<close>

record check_result =
  cr_Conditions :: conditions
  cr_Valid :: bool

definition check_result0 :: check_result where
  "check_result0 = \<lparr>cr_Conditions = [], cr_Valid = False\<rparr>"

record gateway_class =
  gc_K8sResource :: "gateway_class_k8s option"
  gc_HugGate :: "hug_gate option"
  gc_Conditions :: conditions
  gc_CheckParamsRef :: check_result
  gc_Valid :: bool
  gc_Managed :: bool

record listener =
  li_K8sResource :: listener_k8s
  li_Conditions :: conditions
  li_AttachedRoutes :: "namespaced_name goset"
  li_Owner :: namespaced_name
  li_CheckRouteGroupKind :: check_result
  li_CheckProtocol :: check_result
  li_CheckSecret :: check_result
  li_CheckConflict :: check_result
  li_AllowedRouteKinds :: "route_group_kind list"
  li_Valid :: bool

record gateway =
  gw_K8sResource :: "gateway_k8s option"
  gw_HugGate :: "hug_gate option"
  gw_Conditions :: conditions
  gw_Listeners :: "(string, listener) gomap"
  gw_CheckParamsRef :: check_result
  gw_CheckValidGatewayClass :: check_result
  gw_CheckConflict :: check_result
  gw_Valid :: bool

record secret =
  se_K8sResource :: "secret_k8s option"

record service =
  sv_K8sResource :: "service_k8s option"

text \<open>A route: an HTTPRoute or a TLSRoute, by the type of its resource and of its rules.  A route
  keeps pointers to listeners; of the listener it reads the owner and the specification, which never change after the
  listener was built, and \<open>lp_current\<close> says whether the pointer still is the listener that the
  gateway tree holds under this owner and name.\<close>

record listener_ptr =
  lp_Owner :: namespaced_name
  lp_K8sResource :: listener_k8s
  lp_current :: bool

record check_result_route =
  crr_Conditions :: route_conditions
  crr_Valid :: bool

record 'r route_rule =
  rr_K8sResource :: 'r
  rr_CheckBackendRef :: "(backend_object_reference, check_result) key_map"
  rr_Valid :: bool

record ('k, 'r) route =
  rt_K8sResource :: "'k option"
  rt_Listeners :: "(parent_reference, listener_ptr list) key_map"
  rt_Rules :: "'r route_rule list"
  rt_Conditions :: route_conditions
  rt_ControllerName :: string
  rt_CheckParentRefs :: check_result_route
  rt_Valid :: bool

type_synonym http_route = "(http_route_k8s, http_route_rule) route"
type_synonym tls_route = "(tls_route_k8s, tls_backend_ref list) route"

record gate_tree =
  GatewayClasses :: "gateway_class tree_map"
  Gateways :: "gateway tree_map"
  Secrets :: "secret tree_map"
  Services :: "service tree_map"
  HTTPRoutes :: "http_route tree_map"
  TLSRoutes :: "tls_route tree_map"

definition NewGateTree :: gate_tree where
  "NewGateTree = \<lparr>GatewayClasses = [], Gateways = [], Secrets = [], Services = [], HTTPRoutes = [], TLSRoutes = []\<rparr>"

record referenced_objects =
  ReferencedSecrets :: referenced_by
  PreviousReferencedSecrets :: referenced_by

definition NewReferencedObjects :: "(k8s_object \<Rightarrow> gvk) \<Rightarrow> referenced_objects" where
  "NewReferencedObjects extractGVK =
     \<lparr>ReferencedSecrets = NewReferencedBy ''secret'' extractGVK,
      PreviousReferencedSecrets = NewReferencedBy ''secret'' extractGVK\<rparr>"

record installed_versions =
  iv_Versions :: "(string, int) gomap"
  iv_Updated :: "bool option"
  iv_Valid :: bool

record 'd storage_updates =
  su_Created :: "(string, 'd) gomap"
  su_Updated :: "(string, 'd) gomap"
  su_Deleted :: "(string, 'd) gomap"

definition storage_updates0 :: "'d storage_updates" where
  "storage_updates0 = \<lparr>su_Created = [], su_Updated = [], su_Deleted = []\<rparr>"

record controller_store =
  cst_ClusterStore :: cluster_store
  cst_GateTree :: gate_tree
  cst_UnmanagedGateTree :: gate_tree
  cst_ReferencedObjects :: referenced_objects
  cst_InstalledGwAPIVersions :: installed_versions
  cst_CertUpdates :: "certificate_data storage_updates"
  cst_CrtListUpdates :: "crt_list_data storage_updates"
  cst_ControllerName :: string

subsection \<open>\<open>ControllerStore\<close> operations\<close>

definition CleanInstalledVersionsUpdates :: "controller_store \<Rightarrow> controller_store" where
  "CleanInstalledVersionsUpdates b =
     (case iv_Updated (cst_InstalledGwAPIVersions b) of
        None \<Rightarrow> b
      | Some _ \<Rightarrow> b\<lparr>cst_InstalledGwAPIVersions := (cst_InstalledGwAPIVersions b)\<lparr>iv_Updated := Some False\<rparr>\<rparr>)"

definition addCreatedCertificate :: "certificate_data \<Rightarrow> controller_store \<Rightarrow> controller_store" where
  "addCreatedCertificate d b = b\<lparr>cst_CertUpdates := (cst_CertUpdates b)
     \<lparr>su_Created := mput (CertificateData_MapKey d) d (su_Created (cst_CertUpdates b))\<rparr>\<rparr>"

definition addUpdatedCertificate :: "certificate_data \<Rightarrow> controller_store \<Rightarrow> controller_store" where
  "addUpdatedCertificate d b = b\<lparr>cst_CertUpdates := (cst_CertUpdates b)
     \<lparr>su_Updated := mput (CertificateData_MapKey d) d (su_Updated (cst_CertUpdates b))\<rparr>\<rparr>"

definition addDeletedCertificate :: "certificate_data \<Rightarrow> controller_store \<Rightarrow> controller_store" where
  "addDeletedCertificate d b = b\<lparr>cst_CertUpdates := (cst_CertUpdates b)
     \<lparr>su_Deleted := mput (CertificateData_MapKey d) d (su_Deleted (cst_CertUpdates b))\<rparr>\<rparr>"

definition ResetCertificateUpdates :: "controller_store \<Rightarrow> controller_store" where
  "ResetCertificateUpdates b = b\<lparr>cst_CertUpdates := storage_updates0\<rparr>"

definition addCreatedCrtList :: "crt_list_data \<Rightarrow> controller_store \<Rightarrow> controller_store" where
  "addCreatedCrtList d b = b\<lparr>cst_CrtListUpdates := (cst_CrtListUpdates b)
     \<lparr>su_Created := mput (CrtListData_MapKey d) d (su_Created (cst_CrtListUpdates b))\<rparr>\<rparr>"

definition addUpdatedCrtList :: "crt_list_data \<Rightarrow> controller_store \<Rightarrow> controller_store" where
  "addUpdatedCrtList d b = b\<lparr>cst_CrtListUpdates := (cst_CrtListUpdates b)
     \<lparr>su_Updated := mput (CrtListData_MapKey d) d (su_Updated (cst_CrtListUpdates b))\<rparr>\<rparr>"

definition addDeletedCrtList :: "crt_list_data \<Rightarrow> controller_store \<Rightarrow> controller_store" where
  "addDeletedCrtList d b = b\<lparr>cst_CrtListUpdates := (cst_CrtListUpdates b)
     \<lparr>su_Deleted := mput (CrtListData_MapKey d) d (su_Deleted (cst_CrtListUpdates b))\<rparr>\<rparr>"

definition ResetCrtListUpdates :: "controller_store \<Rightarrow> controller_store" where
  "ResetCrtListUpdates b = b\<lparr>cst_CrtListUpdates := storage_updates0\<rparr>"

definition CheckGatewayClassExists :: "string \<Rightarrow> controller_store \<Rightarrow> bool" where
  "CheckGatewayClassExists gwcName b = mhas (GatewayClasses (cst_GateTree b)) (NamespacedName [] gwcName)"

subsection \<open>Live nodes and the contract of a builder\<close>

text \<open>The resource of a node that is not marked as deleted.\<close>

definition live :: "('c \<Rightarrow> 'o option) \<Rightarrow> 'c tree_map \<Rightarrow> namespaced_name \<Rightarrow> 'o option" where
  "live k8s t k = (case map_of t k of None \<Rightarrow> None
     | Some r \<Rightarrow> if TreeStatus (tr_status r) = StatusDeleted then None else k8s (tr_core r))"

lemma map_of_clean:
  assumes "wf_map t"
  shows "map_of (cleanTreeUpdates t) k = (case map_of t k of None \<Rightarrow> None
     | Some r \<Rightarrow> if TreeStatus (tr_status r) = StatusDeleted then None
         else Some (r\<lparr>tr_status := \<lparr>OldTreeResource = None, TreeStatus = StatusUnchanged\<rparr>\<rparr>))"
proof -
  have "wf_map xs \<Longrightarrow> map_of (fold (\<lambda>(key, resource) m.
        if TreeStatus (tr_status resource) = StatusDeleted then mdel key m
        else mput key (resource\<lparr>tr_status := \<lparr>OldTreeResource = None, TreeStatus = StatusUnchanged\<rparr>\<rparr>) m) xs m) k
      = (case map_of xs k of None \<Rightarrow> map_of m k
         | Some r \<Rightarrow> if TreeStatus (tr_status r) = StatusDeleted then None
             else Some (r\<lparr>tr_status := \<lparr>OldTreeResource = None, TreeStatus = StatusUnchanged\<rparr>\<rparr>))"
    for xs :: "'a tree_map" and m
    by (induction xs arbitrary: m)
      (auto simp: wf_map_Cons map_of_mput map_of_mdel map_of_None_mkeys[symmetric] split: option.splits)
  from this[OF assms, of t] show ?thesis
    by (auto simp: cleanTreeUpdates_def split: option.splits)
qed

lemma wf_clean [wf_intros]: "wf_map t \<Longrightarrow> wf_map (cleanTreeUpdates t)"
  unfolding cleanTreeUpdates_def by (rule fold_invariant_all) (auto intro: wf_intros)

lemma live_clean: "wf_map t \<Longrightarrow> live k8s (cleanTreeUpdates t) = live k8s t"
  by (rule ext) (simp add: live_def map_of_clean split: option.splits)

text \<open>After cleaning, no node is marked.\<close>

lemma clean_unmarked:
  "wf_map t \<Longrightarrow> map_of (cleanTreeUpdates t) k = Some r
     \<Longrightarrow> TreeStatus (tr_status r) = StatusUnchanged \<and> OldTreeResource (tr_status r) = None"
  by (auto simp: map_of_clean split: option.splits if_splits)

lemma live_mput:
  "live k8s (mput k r t) = (live k8s t)(k := if TreeStatus (tr_status r) = StatusDeleted then None else k8s (tr_core r))"
  by (auto simp: live_def map_of_mput)

text \<open>Updates as the store records them in a cycle: the new object under its own key, or a
  deletion.\<close>

definition regular_update :: "('o \<Rightarrow> namespaced_name) \<Rightarrow> namespaced_name \<Rightarrow> 'o update \<Rightarrow> bool" where
  "regular_update okey k u \<longleftrightarrow>
     (case NewObject u of None \<Rightarrow> Status u = StatusDeleted | Some x \<Rightarrow> Status u = StatusUpserted \<and> okey x = k)"

lemma cycle_regular:
  assumes "cycle_ok o0 o1 (map_of upds)" "\<And>k x. o1 k = Some x \<Longrightarrow> okey x = k" "map_of upds k = Some u"
  shows "regular_update okey k u"
  using assms(1)[unfolded cycle_ok_def, rule_format, of k] assms(2)[of k] assms(3)
  by (auto simp: entry_ok_def regular_update_def split: option.splits)

locale mirrored_tree =
  fixes live_of :: "'s \<Rightarrow> namespaced_name \<Rightarrow> 'o option" and clean :: "'s \<Rightarrow> 's"
    and compute :: "namespaced_name \<Rightarrow> 'o update \<Rightarrow> 's \<Rightarrow> 's" and okey :: "'o \<Rightarrow> namespaced_name"
    and inv :: "'s \<Rightarrow> bool"
  assumes live_of_clean: "inv s \<Longrightarrow> live_of (clean s) = live_of s"
    and inv_clean: "inv s \<Longrightarrow> inv (clean s)"
    and inv_compute: "inv s \<Longrightarrow> regular_update okey k u \<Longrightarrow> inv (compute k u s)"
    and live_of_compute: "inv s \<Longrightarrow> regular_update okey k u \<Longrightarrow> live_of (compute k u s) = (live_of s)(k := NewObject u)"
begin

lemma live_of_fold:
  assumes "inv s" "wf_map upds" "\<And>k u. (k, u) \<in> set upds \<Longrightarrow> regular_update okey k u"
  shows "live_of (fold (\<lambda>(k, u). compute k u) upds s) k
     = (case map_of upds k of None \<Rightarrow> live_of s k | Some u \<Rightarrow> NewObject u)"
  using assms
proof (induction upds arbitrary: s)
  case (Cons p upds)
  obtain j u where p: "p = (j, u)" by (cases p)
  have "live_of (compute j u s) = (live_of s)(j := NewObject u)"
    using Cons.prems p by (intro live_of_compute) auto
  moreover have "live_of (fold (\<lambda>(k, u). compute k u) upds (compute j u s)) k
     = (case map_of upds k of None \<Rightarrow> live_of (compute j u s) k | Some u \<Rightarrow> NewObject u)"
    using Cons.prems inv_compute by (intro Cons.IH) (auto simp: wf_map_Cons p)
  moreover have "map_of upds j = None" using Cons.prems(2) by (simp add: p wf_map_Cons map_of_None_mkeys)
  ultimately show ?case by (auto simp: p split: option.splits)
qed simp

text \<open>If the tree mirrored the objects before the cycle, it mirrors them after it.\<close>

lemma mirror:
  assumes "inv s" "wf_map upds" "cycle_ok o0 o1 (map_of upds)" "\<And>k x. o1 k = Some x \<Longrightarrow> okey x = k"
    and "live_of s = o0"
  shows "live_of (fold (\<lambda>(k, u). compute k u) upds (clean s)) = o1"
proof (rule ext)
  fix k
  have "regular_update okey j u" if "(j, u) \<in> set upds" for j u
    using cycle_regular[OF assms(3,4)] that assms(2) by (simp add: map_of_wf_mem)
  then have "live_of (fold (\<lambda>(k, u). compute k u) upds (clean s)) k
      = (case map_of upds k of None \<Rightarrow> live_of (clean s) k | Some u \<Rightarrow> NewObject u)"
    by (intro live_of_fold) (auto simp: assms(1,2) inv_clean)
  then show "live_of (fold (\<lambda>(k, u). compute k u) upds (clean s)) k = o1 k"
    using assms(3)[unfolded cycle_ok_def, rule_format, of k] assms(1,5)
    by (auto simp: live_of_clean entry_ok_def split: option.splits)
qed

end

end
