(* ===== verification/SecretServiceTree.thy ===== *)
theory SecretServiceTree
  imports TreeCore
begin

text \<open>
  \<open>k8s/gate/tree/secret.go\<close>, \<open>secret_builder.go\<close>, \<open>service.go\<close> and
  \<open>service_builder.go\<close>: one tree node per stored secret and service.  A node found in the
  tree is changed in place (written back under its key) and then stored under the key of its new
  resource.  An upserted update without a new object would be a nil dereference; the store never
  produces one, and the model leaves the tree unchanged.
\<close>

subsection \<open>Secrets\<close>

definition NewSecret :: "secret_k8s \<Rightarrow> secret tree_res" where
  "NewSecret k8sObject = new_tree_res \<lparr>se_K8sResource = Some k8sObject\<rparr>"

definition Secret_SetAsUpserted :: "secret_k8s \<Rightarrow> secret tree_res \<Rightarrow> secret tree_res" where
  "Secret_SetAsUpserted newK8sResource s =
     (setResourceStatus StatusUpserted s)\<lparr>tr_core := (tr_core s)\<lparr>se_K8sResource := Some newK8sResource\<rparr>\<rparr>"

definition Secret_SetAsDeleted :: "secret tree_res \<Rightarrow> secret tree_res" where
  "Secret_SetAsDeleted s =
     (setResourceStatus StatusDeleted s)\<lparr>tr_core := (tr_core s)\<lparr>se_K8sResource := None\<rparr>\<rparr>"

definition put_secret :: "namespaced_name \<Rightarrow> secret tree_res \<Rightarrow> controller_store \<Rightarrow> controller_store" where
  "put_secret k s b = b\<lparr>cst_GateTree := (cst_GateTree b)\<lparr>Secrets := mput k s (Secrets (cst_GateTree b))\<rparr>\<rparr>"

definition Secret_SetAsManaged :: "secret_k8s \<Rightarrow> secret tree_res \<Rightarrow> controller_store \<Rightarrow> controller_store" where
  "Secret_SetAsManaged k8s s b = put_secret (meta_key (sck_meta k8s)) s b"

definition computeTreeSecretUpdate ::
    "namespaced_name \<Rightarrow> secret_k8s update \<Rightarrow> controller_store \<Rightarrow> controller_store" where
  "computeTreeSecretUpdate secretKey u b =
     (let treeSecret = map_of (Secrets (cst_GateTree b)) secretKey in
      case Status u of
        StatusUpserted \<Rightarrow>
          (case NewObject u of
             None \<Rightarrow> b
           | Some k8s \<Rightarrow>
               (case treeSecret of
                  Some s \<Rightarrow>
                    let s' = Secret_SetAsUpserted k8s s
                    in Secret_SetAsManaged k8s s' (put_secret secretKey s' b)
                | None \<Rightarrow> Secret_SetAsManaged k8s (NewSecret k8s) b))
      | StatusDeleted \<Rightarrow>
          (case treeSecret of
             Some s \<Rightarrow> put_secret secretKey (Secret_SetAsDeleted s) b
           | None \<Rightarrow> b)
      | StatusUnchanged \<Rightarrow> b)"

definition Secret_computeGateTreeUpdates :: "controller_store \<Rightarrow> controller_store" where
  "Secret_computeGateTreeUpdates b =
     fold (\<lambda>(k, u). computeTreeSecretUpdate k u) (updates (cs_Secrets (cst_ClusterStore b))) b"

definition Secret_CleanTreeUpdates :: "controller_store \<Rightarrow> controller_store" where
  "Secret_CleanTreeUpdates b =
     b\<lparr>cst_GateTree := (cst_GateTree b)\<lparr>Secrets := cleanTreeUpdates (Secrets (cst_GateTree b))\<rparr>,
       cst_UnmanagedGateTree := (cst_UnmanagedGateTree b)
         \<lparr>Secrets := cleanTreeUpdates (Secrets (cst_UnmanagedGateTree b))\<rparr>\<rparr>"

definition GetCertificateRefNamespacedName :: "secret_object_reference \<Rightarrow> gateway_k8s \<Rightarrow> namespaced_name" where
  "GetCertificateRefNamespacedName certRef gw =
     NamespacedName (case sref_namespace certRef of None \<Rightarrow> om_namespace (gwk_meta gw) | Some ns \<Rightarrow> ns)
       (sref_name certRef)"

subsection \<open>Services\<close>

definition NewService :: "service_k8s \<Rightarrow> service tree_res" where
  "NewService k8sObject = new_tree_res \<lparr>sv_K8sResource = Some k8sObject\<rparr>"

definition Service_SetAsUpserted :: "service_k8s \<Rightarrow> service tree_res \<Rightarrow> service tree_res" where
  "Service_SetAsUpserted newK8sResource s =
     (setResourceStatus StatusUpserted s)\<lparr>tr_core := (tr_core s)\<lparr>sv_K8sResource := Some newK8sResource\<rparr>\<rparr>"

definition Service_SetAsDeleted :: "service tree_res \<Rightarrow> service tree_res" where
  "Service_SetAsDeleted s =
     (setResourceStatus StatusDeleted s)\<lparr>tr_core := (tr_core s)\<lparr>sv_K8sResource := None\<rparr>\<rparr>"

definition put_service :: "namespaced_name \<Rightarrow> service tree_res \<Rightarrow> controller_store \<Rightarrow> controller_store" where
  "put_service k s b = b\<lparr>cst_GateTree := (cst_GateTree b)\<lparr>Services := mput k s (Services (cst_GateTree b))\<rparr>\<rparr>"

definition Service_SetAsManaged :: "service_k8s \<Rightarrow> service tree_res \<Rightarrow> controller_store \<Rightarrow> controller_store" where
  "Service_SetAsManaged k8s s b = put_service (meta_key (svk_meta k8s)) s b"

definition computeTreeServiceUpdate ::
    "namespaced_name \<Rightarrow> service_k8s update \<Rightarrow> controller_store \<Rightarrow> controller_store" where
  "computeTreeServiceUpdate serviceKey u b =
     (let treeService = map_of (Services (cst_GateTree b)) serviceKey in
      case Status u of
        StatusUpserted \<Rightarrow>
          (case NewObject u of
             None \<Rightarrow> b
           | Some k8s \<Rightarrow>
               (case treeService of
                  Some s \<Rightarrow>
                    let s' = Service_SetAsUpserted k8s s
                    in Service_SetAsManaged k8s s' (put_service serviceKey s' b)
                | None \<Rightarrow> Service_SetAsManaged k8s (NewService k8s) b))
      | StatusDeleted \<Rightarrow>
          (case treeService of
             Some s \<Rightarrow> put_service serviceKey (Service_SetAsDeleted s) b
           | None \<Rightarrow> b)
      | StatusUnchanged \<Rightarrow> b)"

definition Service_computeGateTreeUpdates :: "controller_store \<Rightarrow> controller_store" where
  "Service_computeGateTreeUpdates b =
     fold (\<lambda>(k, u). computeTreeServiceUpdate k u) (updates (cs_Services (cst_ClusterStore b))) b"

definition Service_CleanTreeUpdates :: "controller_store \<Rightarrow> controller_store" where
  "Service_CleanTreeUpdates b =
     b\<lparr>cst_GateTree := (cst_GateTree b)\<lparr>Services := cleanTreeUpdates (Services (cst_GateTree b))\<rparr>,
       cst_UnmanagedGateTree := (cst_UnmanagedGateTree b)
         \<lparr>Services := cleanTreeUpdates (Services (cst_UnmanagedGateTree b))\<rparr>\<rparr>"

subsection \<open>Both builders mirror the store\<close>

definition live_secrets :: "controller_store \<Rightarrow> namespaced_name \<Rightarrow> secret_k8s option" where
  "live_secrets b = live se_K8sResource (Secrets (cst_GateTree b))"

definition live_services :: "controller_store \<Rightarrow> namespaced_name \<Rightarrow> service_k8s option" where
  "live_services b = live sv_K8sResource (Services (cst_GateTree b))"

lemmas secret_ops = put_secret_def Secret_SetAsManaged_def Secret_SetAsUpserted_def Secret_SetAsDeleted_def
  NewSecret_def new_tree_res_def setResourceStatus_def
lemmas service_ops = put_service_def Service_SetAsManaged_def Service_SetAsUpserted_def Service_SetAsDeleted_def
  NewService_def new_tree_res_def setResourceStatus_def

lemma live_secrets_compute:
  "regular_update (\<lambda>x. meta_key (sck_meta x)) k u
     \<Longrightarrow> live_secrets (computeTreeSecretUpdate k u b) = (live_secrets b)(k := NewObject u)"
  by (cases "map_of (Secrets (cst_GateTree b)) k"; cases "NewObject u")
    (auto simp: regular_update_def live_secrets_def computeTreeSecretUpdate_def Let_def secret_ops
      live_mput fun_eq_iff live_def split: option.splits)

lemma live_services_compute:
  "regular_update (\<lambda>x. meta_key (svk_meta x)) k u
     \<Longrightarrow> live_services (computeTreeServiceUpdate k u b) = (live_services b)(k := NewObject u)"
  by (cases "map_of (Services (cst_GateTree b)) k"; cases "NewObject u")
    (auto simp: regular_update_def live_services_def computeTreeServiceUpdate_def Let_def service_ops
      live_mput fun_eq_iff live_def split: option.splits)

lemma wf_secrets_compute:
  "wf_map (Secrets (cst_GateTree b)) \<Longrightarrow> wf_map (Secrets (cst_GateTree (computeTreeSecretUpdate k u b)))"
  by (simp add: computeTreeSecretUpdate_def Let_def secret_ops wf_mput split: status.splits option.splits)

lemma wf_services_compute:
  "wf_map (Services (cst_GateTree b)) \<Longrightarrow> wf_map (Services (cst_GateTree (computeTreeServiceUpdate k u b)))"
  by (simp add: computeTreeServiceUpdate_def Let_def service_ops wf_mput split: status.splits option.splits)

interpretation secret_tree: mirrored_tree live_secrets Secret_CleanTreeUpdates computeTreeSecretUpdate
    "\<lambda>x. meta_key (sck_meta x)" "\<lambda>b. wf_map (Secrets (cst_GateTree b))"
  by unfold_locales
    (auto simp: live_secrets_compute[unfolded live_secrets_def] wf_secrets_compute live_secrets_def Secret_CleanTreeUpdates_def live_clean wf_clean)

interpretation service_tree: mirrored_tree live_services Service_CleanTreeUpdates computeTreeServiceUpdate
    "\<lambda>x. meta_key (svk_meta x)" "\<lambda>b. wf_map (Services (cst_GateTree b))"
  by unfold_locales
    (auto simp: live_services_compute[unfolded live_services_def] wf_services_compute live_services_def Service_CleanTreeUpdates_def live_clean wf_clean)

text \<open>A node whose resource changes in a cycle keeps the resource it had as its old one.\<close>

lemma secret_old_resource:
  assumes "map_of (Secrets (cst_GateTree b)) k = Some s" "Status u = StatusUpserted"
    "NewObject u = Some x" "meta_key (sck_meta x) = k"
  shows "\<exists>s'. map_of (Secrets (cst_GateTree (computeTreeSecretUpdate k u b))) k = Some s'
     \<and> TreeStatus (tr_status s') = StatusUpserted \<and> OldTreeResource (tr_status s') = Some (tr_core s)
     \<and> se_K8sResource (tr_core s') = Some x"
  using assms by (simp add: computeTreeSecretUpdate_def Let_def secret_ops map_of_mput)

end
