(* ===== verification/InstalledVersions.thy ===== *)
theory InstalledVersions
  imports TreeCore
begin

text \<open>
  \<open>k8s/gate/tree/installed_versions.go\<close>: how many of the installed Gateway API resource
  definitions have which bundle version, and whether all of them are supported.  The semantic version library
  is a parameter: the parsers of a constraint and of a version (\<open>None\<close> is a parse error) and the
  check.  Reading the annotations of a nil object panics: \<open>Build\<close> is \<open>None\<close> there.
\<close>

definition BundleVersionAnnotation :: string where
  "BundleVersionAnnotation = ''gateway.networking.k8s.io/bundle-version''"

definition SupportedGatewayAPIBundleVersion :: "string list" where
  "SupportedGatewayAPIBundleVersion = [''v1.2'', ''v1.3'']"

definition SupportedVersions_String :: "string list \<Rightarrow> string" where
  "SupportedVersions_String s = join '', '' s"

definition bundle_version :: "partial_meta \<Rightarrow> string" where
  "bundle_version crd = map_get_default [] (om_annotations (pmd_meta crd)) BundleVersionAnnotation"

type_synonym version_counts = "(string, int) gomap"

definition decrement :: "string \<Rightarrow> version_counts \<Rightarrow> version_counts" where
  "decrement v m = (let m' = mput v (map_get_default 0 m v - 1) m
     in if map_get_default 0 m' v = 0 then mdel v m' else m')"

definition increment :: "string \<Rightarrow> version_counts \<Rightarrow> version_counts" where
  "increment v m = mput v (map_get_default 0 m v + 1) m"

definition buildUpserted ::
    "(namespaced_name, partial_meta) gomap \<Rightarrow> namespaced_name \<Rightarrow> partial_meta update \<Rightarrow> version_counts \<Rightarrow> version_counts" where
  "buildUpserted crds nsname u m =
     (case map_of crds nsname of
        None \<Rightarrow> m
      | Some gwapiCRD \<Rightarrow>
          let bundleVersion = bundle_version gwapiCRD in
          (case OldObject u of
             None \<Rightarrow> increment bundleVersion m
           | Some old \<Rightarrow>
               if bundle_version old = bundleVersion then m
               else increment bundleVersion (decrement (bundle_version old) m)))"

definition buildDeleted :: "partial_meta option \<Rightarrow> version_counts \<Rightarrow> version_counts option" where
  "buildDeleted previous m =
     (case previous of None \<Rightarrow> None | Some old \<Rightarrow> Some (decrement (bundle_version old) m))"

definition validateOneInstalledGwAPIVersion ::
    "(string \<Rightarrow> 'c option) \<Rightarrow> (string \<Rightarrow> 'v option) \<Rightarrow> ('c \<Rightarrow> 'v \<Rightarrow> bool) \<Rightarrow> string list \<Rightarrow> string \<Rightarrow> bool" where
  "validateOneInstalledGwAPIVersion newConstraint newVersion check supported installed =
     (let cs = map (\<lambda>v. newConstraint (''~'' @ v)) supported in
      if None \<in> set cs then False
      else (case newVersion installed of
              None \<Rightarrow> False
            | Some sv \<Rightarrow> list_ex (\<lambda>c. check (the c) sv) cs))"

definition checkSupportedVersion ::
    "(string \<Rightarrow> 'c option) \<Rightarrow> (string \<Rightarrow> 'v option) \<Rightarrow> ('c \<Rightarrow> 'v \<Rightarrow> bool) \<Rightarrow> installed_versions \<Rightarrow> bool \<times> installed_versions" where
  "checkSupportedVersion newConstraint newVersion check iv =
     (let newValue = fold (\<lambda>(v, _) b. b \<and> validateOneInstalledGwAPIVersion newConstraint newVersion check
                        SupportedGatewayAPIBundleVersion v) (iv_Versions iv) True
      in (newValue \<noteq> iv_Valid iv, iv\<lparr>iv_Valid := newValue\<rparr>))"

definition onUpdateInstalledVersion ::
    "(string \<Rightarrow> 'c option) \<Rightarrow> (string \<Rightarrow> 'v option) \<Rightarrow> ('c \<Rightarrow> 'v \<Rightarrow> bool) \<Rightarrow> installed_versions \<Rightarrow> installed_versions" where
  "onUpdateInstalledVersion newConstraint newVersion check iv =
     (let (versionValidUpdated, iv') = checkSupportedVersion newConstraint newVersion check iv
      in if iv_Updated iv' = None then iv'\<lparr>iv_Updated := Some True\<rparr>
         else iv'\<lparr>iv_Updated := Some versionValidUpdated\<rparr>)"

fun count_updates ::
    "(namespaced_name, partial_meta) gomap \<Rightarrow> (namespaced_name \<times> partial_meta update) list \<Rightarrow> version_counts \<Rightarrow> version_counts option" where
  "count_updates crds [] m = Some m"
| "count_updates crds ((nsname, u) # rest) m =
     (case Status u of
        StatusUpserted \<Rightarrow> count_updates crds rest (buildUpserted crds nsname u m)
      | StatusDeleted \<Rightarrow>
          (case buildDeleted (OldObject u) m of None \<Rightarrow> None | Some m' \<Rightarrow> count_updates crds rest m')
      | StatusUnchanged \<Rightarrow> count_updates crds rest m)"

definition InstalledVersions_Build ::
    "(string \<Rightarrow> 'c option) \<Rightarrow> (string \<Rightarrow> 'v option) \<Rightarrow> ('c \<Rightarrow> 'v \<Rightarrow> bool) \<Rightarrow> partial_meta objectStoreImpl \<Rightarrow> installed_versions \<Rightarrow> installed_versions option" where
  "InstalledVersions_Build newConstraint newVersion check store iv =
     (case count_updates (objects store) (updates store) (iv_Versions iv) of
        None \<Rightarrow> None
      | Some m \<Rightarrow>
          let iv' = iv\<lparr>iv_Versions := m\<rparr>
          in Some (if length (updates store) \<noteq> 0
                   then onUpdateInstalledVersion newConstraint newVersion check iv' else iv'))"

subsection \<open>The counters count\<close>

definition version_keys :: "('k \<Rightarrow> partial_meta option) \<Rightarrow> string \<Rightarrow> 'k set" where
  "version_keys f v = {k. map_option bundle_version (f k) = Some v}"

definition counts_ok :: "('k \<Rightarrow> partial_meta option) \<Rightarrow> version_counts \<Rightarrow> bool" where
  "counts_ok f m \<longleftrightarrow> finite (dom f) \<and> (\<forall>v. map_of m v =
     (if version_keys f v = {} then None else Some (int (card (version_keys f v)))))"

lemma finite_version_keys: "finite (dom f) \<Longrightarrow> finite (version_keys f v)"
  by (rule finite_subset[of _ "dom f"]) (auto simp: version_keys_def)

lemma version_keys_del:
  "version_keys (f(k := None)) v = version_keys f v - {k}"
  by (auto simp: version_keys_def)

lemma version_keys_put:
  "f k = None \<Longrightarrow> version_keys (f(k \<mapsto> x)) v = (if bundle_version x = v then insert k (version_keys f v) else version_keys f v)"
  by (auto simp: version_keys_def)

lemma counts_default: "counts_ok f m \<Longrightarrow> map_get_default 0 m v = int (card (version_keys f v))"
  by (simp add: counts_ok_def map_get_default_def)

lemma card_version_keys_del:
  assumes "finite (dom f)" "f k = Some x"
  shows "int (card (version_keys (f(k := None)) (bundle_version x))) = int (card (version_keys f (bundle_version x))) - 1"
proof -
  have "k \<in> version_keys f (bundle_version x)" using assms(2) by (simp add: version_keys_def)
  moreover from this have "card (version_keys f (bundle_version x)) \<ge> 1"
    using finite_version_keys[OF assms(1)] by (metis One_nat_def Suc_leI card_gt_0_iff empty_iff)
  ultimately show ?thesis using finite_version_keys[OF assms(1)] by (simp add: version_keys_del card_Diff_singleton)
qed

lemma counts_decrement:
  assumes "counts_ok f m" "f k = Some x"
  shows "counts_ok (f(k := None)) (decrement (bundle_version x) m)"
proof -
  let ?v = "bundle_version x" and ?g = "f(k := None)"
  have fin: "finite (dom f)" using assms(1) by (simp add: counts_ok_def)
  then have fin': "finite (dom ?g)" by simp
  have other: "version_keys ?g w = version_keys f w" if "w \<noteq> ?v" for w
    using that assms(2) by (auto simp: version_keys_def)
  have c: "map_get_default 0 m ?v - 1 = int (card (version_keys ?g ?v))"
    using counts_default[OF assms(1), of ?v] card_version_keys_del[OF fin assms(2)] by simp
  have "card (version_keys ?g ?v) = 0 \<longleftrightarrow> version_keys ?g ?v = {}"
    using finite_version_keys[OF fin'] by simp
  then have "map_of (decrement ?v m) w
      = (if version_keys ?g w = {} then None else Some (int (card (version_keys ?g w))))" for w
    using assms(1) other[of w] c by (auto simp: decrement_def Let_def map_of_mput map_of_mdel counts_ok_def)
  then show ?thesis using fin' by (simp add: counts_ok_def)
qed

lemma counts_increment:
  assumes "counts_ok f m" "f k = None"
  shows "counts_ok (f(k \<mapsto> x)) (increment (bundle_version x) m)"
proof -
  let ?v = "bundle_version x" and ?g = "f(k \<mapsto> x)"
  have fin: "finite (dom f)" using assms(1) by (simp add: counts_ok_def)
  have "k \<notin> version_keys f ?v" using assms(2) by (simp add: version_keys_def)
  then have "map_of (increment ?v m) w
      = (if version_keys ?g w = {} then None else Some (int (card (version_keys ?g w))))" for w
    using assms finite_version_keys[OF fin] counts_default[OF assms(1), of ?v]
    by (auto simp: increment_def map_of_mput version_keys_put counts_ok_def)
  then show ?thesis using fin by (simp add: counts_ok_def)
qed

lemma counts_same_version:
  assumes "counts_ok f m" "f k = Some x" "bundle_version y = bundle_version x"
  shows "counts_ok (f(k \<mapsto> y)) m"
proof -
  have "version_keys (f(k \<mapsto> y)) v = version_keys f v" for v using assms(2,3) by (auto simp: version_keys_def)
  then show ?thesis using assms(1) by (simp add: counts_ok_def)
qed

text \<open>One pass over the updates of a cycle: \<open>f\<close> is the map of the objects, with the keys
  already visited at their new value.\<close>

lemma count_updates_ok:
  assumes "counts_ok f m" "wf_map upds"
    and "\<And>k u. (k, u) \<in> set upds \<Longrightarrow> entry_ok (f k) (map_of crds k) (Some u)"
    and "\<And>k u. (k, u) \<in> set upds \<Longrightarrow> Status u = StatusDeleted \<Longrightarrow> OldObject u \<noteq> None"
  shows "\<exists>m'. count_updates crds upds m = Some m'
           \<and> counts_ok (\<lambda>k. if k \<in> mkeys upds then map_of crds k else f k) m'"
  using assms
proof (induction upds arbitrary: f m)
  case (Cons p upds)
  obtain k u where p: "p = (k, u)" by (cases p)
  have e: "OldObject u = f k" "NewObject u = map_of crds k" and
    st: "Status u = (if map_of crds k = None then StatusDeleted else StatusUpserted)"
    using Cons.prems(3)[of k u] p by (auto simp: entry_ok_def)
  have fresh: "k \<notin> mkeys upds" "wf_map upds" using Cons.prems(2) by (auto simp: p wf_map_Cons)
  let ?f = "f(k := map_of crds k)"
  obtain m1 where m1: "count_updates crds (p # upds) m = count_updates crds upds m1" "counts_ok ?f m1"
  proof (cases "map_of crds k")
    case None
    then obtain x where x: "f k = Some x" using Cons.prems(4)[of k u] st e p by auto
    show ?thesis
    proof (rule that)
      show "count_updates crds (p # upds) m = count_updates crds upds (decrement (bundle_version x) m)"
        using None st e x by (simp add: p buildDeleted_def)
      show "counts_ok ?f (decrement (bundle_version x) m)"
        using counts_decrement[OF Cons.prems(1) x] None by simp
    qed
  next
    case (Some y)
    have step: "count_updates crds (p # upds) m = count_updates crds upds (buildUpserted crds k u m)"
      using Some st by (simp add: p)
    have "counts_ok ?f (buildUpserted crds k u m)"
    proof (cases "f k")
      case None
      then show ?thesis using counts_increment[OF Cons.prems(1) None, of y] Some e
        by (simp add: buildUpserted_def Let_def)
    next
      case (Some x)
      show ?thesis
      proof (cases "bundle_version x = bundle_version y")
        case True
        then show ?thesis using counts_same_version[OF Cons.prems(1) Some, of y] \<open>map_of crds k = Some y\<close> Some e
          by (simp add: buildUpserted_def Let_def)
      next
        case False
        have "counts_ok (f(k := None, k \<mapsto> y)) (increment (bundle_version y) (decrement (bundle_version x) m))"
          by (rule counts_increment[OF counts_decrement[OF Cons.prems(1) Some]]) simp
        then show ?thesis using False \<open>map_of crds k = Some y\<close> Some e by (simp add: buildUpserted_def Let_def)
      qed
    qed
    with step show ?thesis by (rule that)
  qed
  have "\<exists>m'. count_updates crds upds m1 = Some m'
      \<and> counts_ok (\<lambda>j. if j \<in> mkeys upds then map_of crds j else ?f j) m'"
  proof (rule Cons.IH[OF m1(2) fresh(2)])
    fix j w assume jw: "(j, w) \<in> set upds"
    then have "j \<noteq> k" using fresh(1) by (force simp: mkeys_def)
    then show "entry_ok (?f j) (map_of crds j) (Some w)" using Cons.prems(3)[of j w] jw by simp
    show "Status w = StatusDeleted \<Longrightarrow> OldObject w \<noteq> None" using Cons.prems(4)[of j w] jw by simp
  qed
  moreover have "(\<lambda>j. if j \<in> mkeys upds then map_of crds j else ?f j)
      = (\<lambda>j. if j \<in> mkeys (p # upds) then map_of crds j else f j)" by (auto simp: p)
  ultimately show ?case using m1(1) by simp
qed simp

lemma fold_all: "fold (\<lambda>(v, _) b. b \<and> P v) m b \<longleftrightarrow> b \<and> (\<forall>v \<in> mkeys m. P v)"
  by (induction m arbitrary: b) auto

lemma onUpdate_fields:
  "iv_Versions (onUpdateInstalledVersion nc nv ch iv) = iv_Versions iv"
  "iv_Valid (onUpdateInstalledVersion nc nv ch iv) \<longleftrightarrow> (\<forall>v \<in> mkeys (iv_Versions iv).
     validateOneInstalledGwAPIVersion nc nv ch SupportedGatewayAPIBundleVersion v)"
  "iv_Updated (onUpdateInstalledVersion nc nv ch iv) = (if iv_Updated iv = None then Some True
     else Some (iv_Valid (onUpdateInstalledVersion nc nv ch iv) \<noteq> iv_Valid iv))"
  by (auto simp: onUpdateInstalledVersion_def checkSupportedVersion_def Let_def fold_all)

lemma installed_versions_step:
  assumes "counts_ok o0 (iv_Versions iv)"
    and "cycle_ok o0 (map_of (objects st)) (map_of (updates st))" "wf_map (updates st)"
    and "\<forall>k u. map_of (updates st) k = Some u \<longrightarrow> Status u = StatusDeleted \<longrightarrow> OldObject u \<noteq> None"
  shows "\<exists>iv'. InstalledVersions_Build nc nv ch st iv = Some iv'
    \<and> counts_ok (map_of (objects st)) (iv_Versions iv')
    \<and> (updates st \<noteq> [] \<longrightarrow> (iv_Valid iv' \<longleftrightarrow> (\<forall>v \<in> mkeys (iv_Versions iv').
          validateOneInstalledGwAPIVersion nc nv ch SupportedGatewayAPIBundleVersion v)))"
proof -
  have ent: "entry_ok (o0 k) (map_of (objects st) k) (map_of (updates st) k)" for k
    using assms(2) by (simp add: cycle_ok_def)
  have "entry_ok (o0 k) (map_of (objects st) k) (Some u)" if "(k, u) \<in> set (updates st)" for k u
    using that ent[of k] assms(3) by (simp add: map_of_wf_mem)
  then obtain m' where m': "count_updates (objects st) (updates st) (iv_Versions iv) = Some m'"
    "counts_ok (\<lambda>k. if k \<in> mkeys (updates st) then map_of (objects st) k else o0 k) m'"
    using count_updates_ok[OF assms(1,3), of "objects st"] assms(3,4) by (simp add: map_of_wf_mem) blast
  have "o0 k = map_of (objects st) k" if "k \<notin> mkeys (updates st)" for k
    using that ent[of k] by (simp add: map_of_None_mkeys[symmetric] entry_ok_def)
  then have "(\<lambda>k. if k \<in> mkeys (updates st) then map_of (objects st) k else o0 k) = map_of (objects st)"
    by auto
  then show ?thesis using m' by (auto simp: InstalledVersions_Build_def Let_def onUpdate_fields)
qed


definition crd_v12 :: "partial_meta" where
  "crd_v12 = PartialMeta (GVK ''apiextensions.k8s.io'' ''v1'' ''CustomResourceDefinition'')
     (meta0\<lparr>om_name := ''gateways'', om_annotations := [(BundleVersionAnnotation, ''v1.2'')]\<rparr>)"

definition witness_crd_store :: "partial_meta objectStoreImpl" where
  "witness_crd_store = os_upsert as_GatewayAPICRD (OPartialMetadata crd_v12) (newObjectStoreImpl [] [])"

lemma witness_crd_cycle:
  "cycle_ok (\<lambda>_. None) (map_of (objects witness_crd_store)) (map_of (updates witness_crd_store))"
  using os.upsert_keeps[of "\<lambda>_. None" "newObjectStoreImpl [] []"]
  by (simp add: witness_crd_store_def newObjectStoreImpl_def cycle_ok_start)


text \<open>Deleting a resource definition that is not stored (or one that was created in the same cycle)
  leaves a deletion without an old object, and the build panics on it.\<close>

lemma deleted_unknown_crd_panics:
  assumes "map_of (objects st) k = None" "updates st = []"
  shows "InstalledVersions_Build nc nv ch (os_delete k st) iv = None"
    and "InstalledVersions_Build nc nv ch (os_delete (ObjectKeyFromObject x) (os_upsert as_GatewayAPICRD x
           (newObjectStoreImpl [] []))) iv = None"
  using assms
  by (auto simp: InstalledVersions_Build_def os_delete_def os_upsert_def Let_def update0_def buildDeleted_def
      newObjectStoreImpl_def split: option.splits)

end
