(* ===== verification/GatewayClassTree.thy ===== *)
theory GatewayClassTree
  imports InstalledVersions
begin

text \<open>
  \<open>k8s/gate/tree/gate.go\<close> (resolution of a \<open>parametersRef\<close>),
  \<open>gatewayclass.go\<close> and \<open>gatewayclass_builder.go\<close>.  The texts of the validation
  errors come from the Kubernetes \<open>field\<close> package and are a parameter.
\<close>

record field_text =
  ft_NotSupported :: "string \<Rightarrow> string \<Rightarrow> string list \<Rightarrow> string"
  ft_Required :: "string \<Rightarrow> string \<Rightarrow> string"
  ft_NotFound :: "string \<Rightarrow> string \<Rightarrow> string"

definition SupportedParametersRefKind :: string where "SupportedParametersRefKind = ''HugGate''"
definition SupportedParametersRefGroup :: string where "SupportedParametersRefGroup = ''gate.v3.haproxy.org''"

subsection \<open>\<open>HugGateParamsRefChecker\<close>\<close>

text \<open>The body shared by \<open>CheckGatewayClass\<close> and \<open>CheckGateway\<close>, which differ in the
  conditions they return.\<close>

definition check_params_ref ::
    "(string \<Rightarrow> conditions) \<Rightarrow> conditions \<Rightarrow> field_text \<Rightarrow> (namespaced_name, hug_gate) gomap
       \<Rightarrow> parameters_reference option \<Rightarrow> check_result \<times> hug_gate option" where
  "check_params_ref invalid ok ft storeHugGates paramRef =
     (case paramRef of
        None \<Rightarrow> (\<lparr>cr_Conditions = ok, cr_Valid = True\<rparr>, None)
      | Some p \<Rightarrow>
          let fail = (\<lambda>txt. (\<lparr>cr_Conditions = MergeOverrideConditions [] (invalid txt), cr_Valid = False\<rparr>, None)) in
          if pmref_kind p \<noteq> SupportedParametersRefKind then
            fail (ft_NotSupported ft ''spec.parametersRef.kind'' (pmref_kind p) [SupportedParametersRefKind])
          else if pmref_group p \<noteq> SupportedParametersRefGroup then
            fail (ft_NotSupported ft ''spec.parametersRef.group'' (pmref_group p) [SupportedParametersRefGroup])
          else (case pmref_namespace p of
             None \<Rightarrow> fail (ft_Required ft ''spec.parametersRef.namespace'' ''namespace is required'')
           | Some ns \<Rightarrow>
               (case map_of storeHugGates (NamespacedName ns (pmref_name p)) of
                  None \<Rightarrow> fail (ft_NotFound ft ''spec.parametersRef'' (pmref_name p))
                | Some huggate \<Rightarrow> (\<lparr>cr_Conditions = ok, cr_Valid = True\<rparr>, Some huggate))))"

definition CheckGatewayClass ::
    "field_text \<Rightarrow> (namespaced_name, hug_gate) gomap \<Rightarrow> parameters_reference option \<Rightarrow> check_result \<times> hug_gate option" where
  "CheckGatewayClass = check_params_ref NewGatewayClassAcceptedInvalidParameters NewGatewayClassAcceptedOK"

definition CheckGateway ::
    "field_text \<Rightarrow> (namespaced_name, hug_gate) gomap \<Rightarrow> parameters_reference option \<Rightarrow> check_result \<times> hug_gate option" where
  "CheckGateway = check_params_ref NewGatewayAcceptedInvalidParameters NewGatewayAcceptedOK"

subsection \<open>\<open>GatewayClass\<close>\<close>

definition NewGatewayClass :: "gateway_class_k8s \<Rightarrow> gateway_class tree_res" where
  "NewGatewayClass k8sObject = new_tree_res
     \<lparr>gc_K8sResource = Some k8sObject, gc_HugGate = None, gc_Conditions = NewGatewayClassAcceptedOK,
      gc_CheckParamsRef = check_result0, gc_Valid = False, gc_Managed = True\<rparr>"

definition GatewayClass_SetAsUpserted :: "gateway_class_k8s \<Rightarrow> gateway_class tree_res \<Rightarrow> gateway_class tree_res" where
  "GatewayClass_SetAsUpserted k8s g =
     (setResourceStatus StatusUpserted g)\<lparr>tr_core := (tr_core g)\<lparr>gc_K8sResource := Some k8s\<rparr>\<rparr>"

definition GatewayClass_SetAsDeleted :: "gateway_class tree_res \<Rightarrow> gateway_class tree_res" where
  "GatewayClass_SetAsDeleted g =
     (setResourceStatus StatusDeleted g)\<lparr>tr_core := (tr_core g)\<lparr>gc_K8sResource := None\<rparr>\<rparr>"

definition GatewayClass_ResetChecks :: "gateway_class tree_res \<Rightarrow> gateway_class tree_res" where
  "GatewayClass_ResetChecks g = g\<lparr>tr_core := (tr_core g)
     \<lparr>gc_Conditions := NewGatewayClassAcceptedOK, gc_HugGate := None,
      gc_CheckParamsRef := check_result0, gc_Valid := False\<rparr>\<rparr>"

definition put_gwc :: "namespaced_name \<Rightarrow> gateway_class tree_res \<Rightarrow> controller_store \<Rightarrow> controller_store" where
  "put_gwc k g b = b\<lparr>cst_GateTree := (cst_GateTree b)\<lparr>GatewayClasses := mput k g (GatewayClasses (cst_GateTree b))\<rparr>\<rparr>"

definition put_unmanaged_gwc :: "namespaced_name \<Rightarrow> gateway_class tree_res \<Rightarrow> controller_store \<Rightarrow> controller_store" where
  "put_unmanaged_gwc k g b = b\<lparr>cst_UnmanagedGateTree := (cst_UnmanagedGateTree b)
     \<lparr>GatewayClasses := mput k g (GatewayClasses (cst_UnmanagedGateTree b))\<rparr>\<rparr>"

definition GatewayClass_SetAsManaged ::
    "gateway_class_k8s \<Rightarrow> gateway_class tree_res \<Rightarrow> controller_store \<Rightarrow> controller_store" where
  "GatewayClass_SetAsManaged k8s g b =
     (let key = meta_key (gck_meta k8s); b1 = put_gwc key g b
      in b1\<lparr>cst_UnmanagedGateTree := (cst_UnmanagedGateTree b1)
           \<lparr>GatewayClasses := mdel key (GatewayClasses (cst_UnmanagedGateTree b1))\<rparr>\<rparr>)"

definition GatewayClass_SetAsUnmanaged ::
    "gateway_class_k8s \<Rightarrow> gateway_class tree_res \<Rightarrow> controller_store \<Rightarrow> controller_store" where
  "GatewayClass_SetAsUnmanaged k8s g b =
     (let key = meta_key (gck_meta k8s); b1 = put_unmanaged_gwc key g b
      in b1\<lparr>cst_GateTree := (cst_GateTree b1)
           \<lparr>GatewayClasses := mdel key (GatewayClasses (cst_GateTree b1))\<rparr>\<rparr>)"

definition GatewayClass_checkParametersRef ::
    "field_text \<Rightarrow> controller_store \<Rightarrow> gateway_class tree_res \<Rightarrow> gateway_class tree_res" where
  "GatewayClass_checkParametersRef ft b g =
     (case (TreeStatus (tr_status g), gc_K8sResource (tr_core g)) of
        (StatusUpserted, Some k8s) \<Rightarrow>
          let (check, hugGate) = CheckGatewayClass ft (objects (cs_HugGates (cst_ClusterStore b))) (gck_parametersRef k8s);
              core1 = (tr_core g)\<lparr>gc_CheckParamsRef := check\<rparr>
          in g\<lparr>tr_core := (if cr_Valid check then core1\<lparr>gc_HugGate := hugGate\<rparr> else core1)\<rparr>
      | _ \<Rightarrow> g)"

text \<open>\<open>g.K8sResource.GetGeneration()\<close>.\<close>

definition gwc_generation :: "gateway_class \<Rightarrow> int" where
  "gwc_generation g = (case gc_K8sResource g of None \<Rightarrow> 0 | Some k8s \<Rightarrow> om_generation (gck_meta k8s))"

definition buildConditionsManaged :: "installed_versions \<Rightarrow> gateway_class \<Rightarrow> gateway_class" where
  "buildConditionsManaged iv g =
     (let c1 = MergeOverrideConditions (gc_Conditions g)
                 (if iv_Valid iv then NewGatewayClassSupportedVersionOK
                  else NewGatewayClassSupportedVersionUnsupportedVersion
                         (SupportedVersions_String SupportedGatewayAPIBundleVersion));
          c2 = MergeOverrideConditions c1 (cr_Conditions (gc_CheckParamsRef g))
      in g\<lparr>gc_Conditions := SetGeneration (gwc_generation g) c2\<rparr>)"

definition buildConditionsIgnored :: "gateway_class \<Rightarrow> gateway_class" where
  "buildConditionsIgnored g =
     g\<lparr>gc_Conditions := SetGeneration (gwc_generation g)
        (MergeOverrideConditions (gc_Conditions g) NewGatewayClassAcceptedUnsupported)\<rparr>"

definition GatewayClass_BuildConditions :: "controller_store \<Rightarrow> gateway_class tree_res \<Rightarrow> gateway_class tree_res" where
  "GatewayClass_BuildConditions b g =
     g\<lparr>tr_core := (if gc_Managed (tr_core g)
                   then buildConditionsManaged (cst_InstalledGwAPIVersions b) (tr_core g)
                   else buildConditionsIgnored (tr_core g))\<rparr>"

subsection \<open>\<open>GatewayClassBuilderImpl\<close>\<close>

definition addIndirectGatewayClassesFromInstalledVersions :: "controller_store \<Rightarrow> controller_store" where
  "addIndirectGatewayClassesFromInstalledVersions b =
     (if iv_Updated (cst_InstalledGwAPIVersions b) = Some True then
        (let st = cs_GatewayClasses (cst_ClusterStore b);
             upds = fold (\<lambda>(gwcKey, gwc) u.
                if mhas u gwcKey then u
                else mput gwcKey \<lparr>OldObject = Some gwc, NewObject = Some gwc, Status = StatusUpserted, Indirect = True\<rparr> u)
               (objects st) (updates st)
         in b\<lparr>cst_ClusterStore := (cst_ClusterStore b)\<lparr>cs_GatewayClasses := st\<lparr>updates := upds\<rparr>\<rparr>\<rparr>)
      else b)"

text \<open>The checks made on an upserted node, before it is placed in a tree.\<close>

definition gwc_checked :: "field_text \<Rightarrow> controller_store \<Rightarrow> gateway_class tree_res \<Rightarrow> gateway_class tree_res" where
  "gwc_checked ft b g =
     (let g1 = GatewayClass_checkParametersRef ft b g;
          g2 = g1\<lparr>tr_core := (tr_core g1)\<lparr>gc_Valid := cr_Valid (gc_CheckParamsRef (tr_core g1))\<rparr>\<rparr>
      in GatewayClass_BuildConditions b g2)"

definition computeTreeGatewayClassUpdate ::
    "field_text \<Rightarrow> namespaced_name \<Rightarrow> gateway_class_k8s update \<Rightarrow> controller_store \<Rightarrow> controller_store" where
  "computeTreeGatewayClassUpdate ft gwcKey u b =
     (let managed = map_of (GatewayClasses (cst_GateTree b)) gwcKey;
          unmanaged = map_of (GatewayClasses (cst_UnmanagedGateTree b)) gwcKey;
          found = (if managed \<noteq> None then managed else unmanaged);
          in_place = (\<lambda>g b. if managed \<noteq> None then put_gwc gwcKey g b
                            else if unmanaged \<noteq> None then put_unmanaged_gwc gwcKey g b else b)
      in case Status u of
           StatusUpserted \<Rightarrow>
             (case NewObject u of
                None \<Rightarrow> b
              | Some k8s \<Rightarrow>
                  let g = (case found of
                             Some g0 \<Rightarrow> GatewayClass_ResetChecks (GatewayClass_SetAsUpserted k8s g0)
                           | None \<Rightarrow> NewGatewayClass k8s);
                      g' = gwc_checked ft b g
                  in if gc_Managed (tr_core g') then GatewayClass_SetAsManaged k8s g' (in_place g' b)
                     else GatewayClass_SetAsUnmanaged k8s g' (in_place g' b))
         | StatusDeleted \<Rightarrow>
             (case found of
                Some g0 \<Rightarrow> in_place (GatewayClass_ResetChecks (GatewayClass_SetAsDeleted g0)) b
              | None \<Rightarrow> b)
         | StatusUnchanged \<Rightarrow> b)"

definition GatewayClass_computeGateTreeUpdates :: "field_text \<Rightarrow> controller_store \<Rightarrow> controller_store" where
  "GatewayClass_computeGateTreeUpdates ft b =
     fold (\<lambda>(k, u). computeTreeGatewayClassUpdate ft k u) (updates (cs_GatewayClasses (cst_ClusterStore b))) b"

definition GatewayClass_ComputeTreeUpdates :: "field_text \<Rightarrow> controller_store \<Rightarrow> controller_store" where
  "GatewayClass_ComputeTreeUpdates ft b =
     GatewayClass_computeGateTreeUpdates ft (addIndirectGatewayClassesFromInstalledVersions b)"

definition GatewayClass_CleanTreeUpdates :: "controller_store \<Rightarrow> controller_store" where
  "GatewayClass_CleanTreeUpdates b =
     b\<lparr>cst_GateTree := (cst_GateTree b)\<lparr>GatewayClasses := cleanTreeUpdates (GatewayClasses (cst_GateTree b))\<rparr>,
       cst_UnmanagedGateTree := (cst_UnmanagedGateTree b)
         \<lparr>GatewayClasses := cleanTreeUpdates (GatewayClasses (cst_UnmanagedGateTree b))\<rparr>\<rparr>"

subsection \<open>When a \<open>parametersRef\<close> resolves\<close>

definition params_target :: "(namespaced_name, hug_gate) gomap \<Rightarrow> parameters_reference \<Rightarrow> hug_gate option" where
  "params_target hugs p =
     (case pmref_namespace p of None \<Rightarrow> None | Some ns \<Rightarrow> map_of hugs (NamespacedName ns (pmref_name p)))"

definition params_resolved :: "(namespaced_name, hug_gate) gomap \<Rightarrow> parameters_reference option \<Rightarrow> bool" where
  "params_resolved hugs paramRef = (case paramRef of None \<Rightarrow> True
     | Some p \<Rightarrow> pmref_kind p = SupportedParametersRefKind \<and> pmref_group p = SupportedParametersRefGroup
         \<and> params_target hugs p \<noteq> None)"

lemma check_params_ref_result:
  "check_params_ref invalid ok ft hugs paramRef =
     (if params_resolved hugs paramRef
      then (\<lparr>cr_Conditions = ok, cr_Valid = True\<rparr>, case paramRef of None \<Rightarrow> None | Some p \<Rightarrow> params_target hugs p)
      else (fst (check_params_ref invalid ok ft hugs paramRef), None))"
  by (auto simp: check_params_ref_def params_resolved_def params_target_def Let_def split: option.splits)

lemma check_params_ref_invalid:
  "\<not> params_resolved hugs paramRef \<Longrightarrow> \<exists>txt. fst (check_params_ref invalid ok ft hugs paramRef)
     = \<lparr>cr_Conditions = MergeOverrideConditions [] (invalid txt), cr_Valid = False\<rparr>"
  by (auto simp: check_params_ref_def params_resolved_def params_target_def Let_def split: option.splits)

subsection \<open>The conditions of a gateway class\<close>

definition gwc_expected :: "field_text \<Rightarrow> controller_store \<Rightarrow> gateway_class_k8s \<Rightarrow> gateway_class \<Rightarrow> bool" where
  "gwc_expected ft b k8s g \<longleftrightarrow> (let hugs = objects (cs_HugGates (cst_ClusterStore b));
       ok = params_resolved hugs (gck_parametersRef k8s);
       gen = om_generation (gck_meta k8s) in
     gc_K8sResource g = Some k8s \<and> gc_Managed g \<and> (gc_Valid g \<longleftrightarrow> ok)
     \<and> gc_HugGate g = (if ok then (case gck_parametersRef k8s of None \<Rightarrow> None | Some p \<Rightarrow> params_target hugs p) else None)
     \<and> dom (map_of (gc_Conditions g)) = {''Accepted'', ''SupportedVersion''}
     \<and> (\<forall>c. map_of (gc_Conditions g) ''Accepted'' = Some c \<longrightarrow>
          Cond_Status c = (if ok then ''True'' else ''False'') \<and> Cond_ObservedGeneration c = gen)
     \<and> (\<forall>c. map_of (gc_Conditions g) ''SupportedVersion'' = Some c \<longrightarrow>
          Cond_Status c = (if iv_Valid (cst_InstalledGwAPIVersions b) then ''True'' else ''False'')
          \<and> Cond_ObservedGeneration c = gen))"

lemma map_of_two_merges:
  assumes "wf_map b" "wf_map c" "map_of a = [k1 \<mapsto> x]" "map_of b = [k2 \<mapsto> y]" "map_of c = [k1 \<mapsto> z]" "k1 \<noteq> k2"
  shows "map_of (MergeOverrideConditions (MergeOverrideConditions a b) c) = [k1 \<mapsto> z, k2 \<mapsto> y]"
  using assms by (auto simp: fun_eq_iff map_of_Merge_wf)

lemma map_of_gwc_conditions:
  assumes "coherent chk" "gc_Conditions g = NewGatewayClassAcceptedOK" "cr_Conditions (gc_CheckParamsRef g) = chk"
    and "chk = NewGatewayClassAcceptedOK \<or> chk = MergeOverrideConditions [] (NewGatewayClassAcceptedInvalidParameters txt)"
  shows "map_of (gc_Conditions (buildConditionsManaged iv g)) =
     [''Accepted'' \<mapsto> (the (map_of chk ''Accepted''))\<lparr>Cond_ObservedGeneration := gwc_generation g\<rparr>,
      ''SupportedVersion'' \<mapsto> (snd (hd (if iv_Valid iv then NewGatewayClassSupportedVersionOK
         else NewGatewayClassSupportedVersionUnsupportedVersion (SupportedVersions_String SupportedGatewayAPIBundleVersion))))
            \<lparr>Cond_ObservedGeneration := gwc_generation g\<rparr>]"
proof -
  let ?sv = "if iv_Valid iv then NewGatewayClassSupportedVersionOK
     else NewGatewayClassSupportedVersionUnsupportedVersion (SupportedVersions_String SupportedGatewayAPIBundleVersion)"
  have sv: "coherent ?sv" by simp
  have wf: "wf_map ?sv" "wf_map chk" using sv assms(1) by (auto simp: coherent_def)
  let ?c = "MergeOverrideConditions (MergeOverrideConditions NewGatewayClassAcceptedOK ?sv) chk"
  have c: "coherent ?c" by (intro coherent_Merge) (auto simp: assms(1))
  have "map_of chk = [''Accepted'' \<mapsto> the (map_of chk ''Accepted'')]"
    using assms(4) by (auto simp: map_of_Merge condition_constructors cond_entry_def fun_eq_iff)
  moreover have "map_of ?sv = [''SupportedVersion'' \<mapsto> snd (hd ?sv)]"
    "map_of NewGatewayClassAcceptedOK = [''Accepted'' \<mapsto> snd (hd NewGatewayClassAcceptedOK)]"
    by (simp_all add: condition_constructors cond_entry_def)
  ultimately have "map_of ?c = [''Accepted'' \<mapsto> the (map_of chk ''Accepted''), ''SupportedVersion'' \<mapsto> snd (hd ?sv)]"
    by (intro map_of_two_merges[OF wf]) simp_all
  then have sg: "map_of (SetGeneration gen ?c) = (\<lambda>k. map_option (\<lambda>v. v\<lparr>Cond_ObservedGeneration := gen\<rparr>)
      (([''Accepted'' \<mapsto> the (map_of chk ''Accepted''), ''SupportedVersion'' \<mapsto> snd (hd ?sv)]) k))" for gen
    using map_of_SetGeneration[OF c, of gen] by (intro ext) (simp only:)
  have gcs: "gc_Conditions (h\<lparr>gc_Conditions := c\<rparr>) = c" for h :: gateway_class and c by simp
  show ?thesis unfolding buildConditionsManaged_def Let_def assms(2,3) gcs sg by auto
qed

lemma gwc_checked_expected:
  assumes "TreeStatus (tr_status g) = StatusUpserted" "gc_K8sResource (tr_core g) = Some k8s"
    and "gc_Conditions (tr_core g) = NewGatewayClassAcceptedOK" "gc_HugGate (tr_core g) = None" "gc_Managed (tr_core g)"
  shows "gwc_expected ft b k8s (tr_core (gwc_checked ft b g))"
proof -
  define hugs where "hugs = objects (cs_HugGates (cst_ClusterStore b))"
  define ok where "ok = params_resolved hugs (gck_parametersRef k8s)"
  obtain chk gate where cg: "CheckGatewayClass ft hugs (gck_parametersRef k8s) = (chk, gate)" by fastforce
  have res: "(chk, gate) = (if ok then (\<lparr>cr_Conditions = NewGatewayClassAcceptedOK, cr_Valid = True\<rparr>,
      case gck_parametersRef k8s of None \<Rightarrow> None | Some p \<Rightarrow> params_target hugs p) else (chk, None))"
    using check_params_ref_result[of NewGatewayClassAcceptedInvalidParameters NewGatewayClassAcceptedOK ft hugs]
      cg unfolding CheckGatewayClass_def ok_def by (metis fst_conv)
  have inv: "\<exists>txt. chk = \<lparr>cr_Conditions = MergeOverrideConditions [] (NewGatewayClassAcceptedInvalidParameters txt), cr_Valid = False\<rparr>"
    if "\<not> ok" using check_params_ref_invalid that cg unfolding CheckGatewayClass_def ok_def by (metis fst_conv)
  define g3 where "g3 = (if cr_Valid chk then (tr_core g)\<lparr>gc_CheckParamsRef := chk, gc_HugGate := gate\<rparr>
      else (tr_core g)\<lparr>gc_CheckParamsRef := chk\<rparr>)\<lparr>gc_Valid := cr_Valid chk\<rparr>"
  have core: "tr_core (gwc_checked ft b g) = buildConditionsManaged (cst_InstalledGwAPIVersions b) g3"
    using assms cg by (auto simp: gwc_checked_def GatewayClass_checkParametersRef_def GatewayClass_BuildConditions_def
        g3_def hugs_def Let_def)
  have gen: "gwc_generation g3 = om_generation (gck_meta k8s)" using assms(2) by (simp add: gwc_generation_def g3_def)
  obtain msg where chk: "cr_Conditions chk = NewGatewayClassAcceptedOK
      \<or> cr_Conditions chk = MergeOverrideConditions [] (NewGatewayClassAcceptedInvalidParameters msg)"
  proof (cases ok)
    case True
    then show ?thesis using res that by simp
  next
    case False
    then show ?thesis using inv that by (metis check_result.select_convs(1))
  qed
  then have coh: "coherent (cr_Conditions chk)" by (auto simp: coherent_Merge)
  have m: "map_of (gc_Conditions (buildConditionsManaged iv g3)) =
     [''Accepted'' \<mapsto> (the (map_of (cr_Conditions chk) ''Accepted''))\<lparr>Cond_ObservedGeneration := om_generation (gck_meta k8s)\<rparr>,
      ''SupportedVersion'' \<mapsto> (snd (hd (if iv_Valid iv then NewGatewayClassSupportedVersionOK
         else NewGatewayClassSupportedVersionUnsupportedVersion (SupportedVersions_String SupportedGatewayAPIBundleVersion))))
            \<lparr>Cond_ObservedGeneration := om_generation (gck_meta k8s)\<rparr>]" for iv
    using map_of_gwc_conditions[OF coh _ _ chk, of g3 iv] assms(3) gen by (simp add: g3_def)
  have acc: "Cond_Status (the (map_of (cr_Conditions chk) ''Accepted'')) = (if ok then ''True'' else ''False'')"
    using res inv by (cases ok) (auto simp: condition_constructors cond_entry_def map_of_Merge)
  have fields: "gc_K8sResource (buildConditionsManaged iv g3) = Some k8s" "gc_Managed (buildConditionsManaged iv g3)"
    "gc_Valid (buildConditionsManaged iv g3) = ok"
    "gc_HugGate (buildConditionsManaged iv g3)
       = (if ok then (case gck_parametersRef k8s of None \<Rightarrow> None | Some p \<Rightarrow> params_target hugs p) else None)" for iv
    using assms res inv by (auto simp: buildConditionsManaged_def Let_def g3_def split: if_splits)
  show ?thesis unfolding gwc_expected_def core Let_def hugs_def[symmetric] ok_def[symmetric]
    by (simp add: fields m acc) (auto simp: condition_constructors cond_entry_def)
qed

subsection \<open>The gateway class tree mirrors the store\<close>

definition gwc_inv :: "controller_store \<Rightarrow> bool" where
  "gwc_inv b \<longleftrightarrow> wf_map (GatewayClasses (cst_GateTree b)) \<and> GatewayClasses (cst_UnmanagedGateTree b) = []
     \<and> (\<forall>k g. map_of (GatewayClasses (cst_GateTree b)) k = Some g \<longrightarrow> gc_Managed (tr_core g))"

definition live_gateway_classes :: "controller_store \<Rightarrow> namespaced_name \<Rightarrow> gateway_class_k8s option" where
  "live_gateway_classes b = live gc_K8sResource (GatewayClasses (cst_GateTree b))"

lemma gwc_checked_status [simp]: "tr_status (gwc_checked ft b g) = tr_status g"
  by (auto simp: gwc_checked_def GatewayClass_checkParametersRef_def GatewayClass_BuildConditions_def Let_def
      split: option.splits status.splits prod.splits)

lemma compute_upserted:
  assumes "gwc_inv b" "Status u = StatusUpserted" "NewObject u = Some k8s" "meta_key (gck_meta k8s) = k"
  obtains g where "GatewayClasses (cst_GateTree (computeTreeGatewayClassUpdate ft k u b)) = mput k g (GatewayClasses (cst_GateTree b))"
    "GatewayClasses (cst_UnmanagedGateTree (computeTreeGatewayClassUpdate ft k u b)) = []"
    "TreeStatus (tr_status g) = StatusUpserted" "gwc_expected ft b k8s (tr_core g)"
    "OldTreeResource (tr_status g) = map_option tr_core (map_of (GatewayClasses (cst_GateTree b)) k)"
proof -
  let ?m = "map_of (GatewayClasses (cst_GateTree b)) k"
  have un: "GatewayClasses (cst_UnmanagedGateTree b) = []" using assms(1) by (simp add: gwc_inv_def)
  define g where "g = (case ?m of Some g0 \<Rightarrow> GatewayClass_ResetChecks (GatewayClass_SetAsUpserted k8s g0)
     | None \<Rightarrow> NewGatewayClass k8s)"
  have "gc_Managed (tr_core g0)" if "?m = Some g0" for g0 using that assms(1) by (auto simp: gwc_inv_def)
  then have g: "TreeStatus (tr_status g) = StatusUpserted" "gc_K8sResource (tr_core g) = Some k8s"
    "gc_Conditions (tr_core g) = NewGatewayClassAcceptedOK" "gc_HugGate (tr_core g) = None" "gc_Managed (tr_core g)"
    "OldTreeResource (tr_status g) = map_option tr_core ?m"
    by (auto simp: g_def NewGatewayClass_def new_tree_res_def GatewayClass_ResetChecks_def
        GatewayClass_SetAsUpserted_def setResourceStatus_def split: option.splits)
  have e: "gwc_expected ft b k8s (tr_core (gwc_checked ft b g))" by (rule gwc_checked_expected[OF g(1-5)])
  then have mg: "gc_Managed (tr_core (gwc_checked ft b g))" by (simp add: gwc_expected_def Let_def)
  have g_eq: "(case (if ?m \<noteq> None then ?m else None) of None \<Rightarrow> NewGatewayClass k8s
      | Some g0 \<Rightarrow> GatewayClass_ResetChecks (GatewayClass_SetAsUpserted k8s g0)) = g"
    by (cases ?m) (auto simp: g_def)
  have "computeTreeGatewayClassUpdate ft k u b = GatewayClass_SetAsManaged k8s (gwc_checked ft b g)
      (if ?m \<noteq> None then put_gwc k (gwc_checked ft b g) b else b)"
    unfolding computeTreeGatewayClassUpdate_def Let_def un map_of.simps(1) assms(2,3) status.case option.case g_eq
    by (simp add: mg)
  then have "GatewayClasses (cst_GateTree (computeTreeGatewayClassUpdate ft k u b))
      = mput k (gwc_checked ft b g) (GatewayClasses (cst_GateTree b))"
    "GatewayClasses (cst_UnmanagedGateTree (computeTreeGatewayClassUpdate ft k u b)) = []"
    using un assms(4) by (auto simp: GatewayClass_SetAsManaged_def put_gwc_def Let_def mput_mput)
  then show ?thesis using g e by (intro that[of "gwc_checked ft b g"]) auto
qed

lemma compute_deleted:
  assumes "gwc_inv b" "Status u = StatusDeleted"
  shows "GatewayClasses (cst_UnmanagedGateTree (computeTreeGatewayClassUpdate ft k u b)) = []"
    and "GatewayClasses (cst_GateTree (computeTreeGatewayClassUpdate ft k u b))
      = (case map_of (GatewayClasses (cst_GateTree b)) k of None \<Rightarrow> GatewayClasses (cst_GateTree b)
         | Some g \<Rightarrow> mput k (GatewayClass_ResetChecks (GatewayClass_SetAsDeleted g)) (GatewayClasses (cst_GateTree b)))"
  using assms by (auto simp: computeTreeGatewayClassUpdate_def Let_def gwc_inv_def put_gwc_def split: option.splits)

lemma reset_deleted_fields:
  "TreeStatus (tr_status (GatewayClass_ResetChecks (GatewayClass_SetAsDeleted g))) = StatusDeleted"
  "gc_Managed (tr_core (GatewayClass_ResetChecks (GatewayClass_SetAsDeleted g))) = gc_Managed (tr_core g)"
  by (simp_all add: GatewayClass_ResetChecks_def GatewayClass_SetAsDeleted_def setResourceStatus_def)

lemma gwc_inv_compute:
  assumes "gwc_inv b" "regular_update (\<lambda>x. meta_key (gck_meta x)) k u"
  shows "gwc_inv (computeTreeGatewayClassUpdate ft k u b)"
    and "live_gateway_classes (computeTreeGatewayClassUpdate ft k u b) = (live_gateway_classes b)(k := NewObject u)"
proof -
  consider (up) k8s where "NewObject u = Some k8s" "Status u = StatusUpserted" "meta_key (gck_meta k8s) = k"
    | (del) "NewObject u = None" "Status u = StatusDeleted"
    using assms(2) by (auto simp: regular_update_def split: option.splits)
  then have "gwc_inv (computeTreeGatewayClassUpdate ft k u b)
    \<and> live_gateway_classes (computeTreeGatewayClassUpdate ft k u b) = (live_gateway_classes b)(k := NewObject u)"
  proof cases
    case up
    obtain g where "GatewayClasses (cst_GateTree (computeTreeGatewayClassUpdate ft k u b)) = mput k g (GatewayClasses (cst_GateTree b))"
      "GatewayClasses (cst_UnmanagedGateTree (computeTreeGatewayClassUpdate ft k u b)) = []"
      "TreeStatus (tr_status g) = StatusUpserted" "gwc_expected ft b k8s (tr_core g)"
      by (rule compute_upserted[OF assms(1) up(2,1,3)])
    then show ?thesis using assms(1) up
      by (auto simp: gwc_inv_def live_gateway_classes_def live_mput wf_mput map_of_mput gwc_expected_def Let_def)
  next
    case del
    from compute_deleted[OF assms(1) del(2), of ft k] show ?thesis using assms(1) del
      by (cases "map_of (GatewayClasses (cst_GateTree b)) k")
        (auto simp: gwc_inv_def live_gateway_classes_def live_mput wf_mput map_of_mput reset_deleted_fields
          fun_eq_iff live_def)
  qed
  then show "gwc_inv (computeTreeGatewayClassUpdate ft k u b)"
    "live_gateway_classes (computeTreeGatewayClassUpdate ft k u b) = (live_gateway_classes b)(k := NewObject u)" by auto
qed

lemma gwc_clean:
  assumes "gwc_inv b"
  shows "gwc_inv (GatewayClass_CleanTreeUpdates b)"
    and "live_gateway_classes (GatewayClass_CleanTreeUpdates b) = live_gateway_classes b"
  using assms
  by (auto simp: gwc_inv_def GatewayClass_CleanTreeUpdates_def live_gateway_classes_def live_clean wf_clean
      map_of_clean cleanTreeUpdates_def[of "[]"] split: option.splits if_splits)

interpretation gwc_tree: mirrored_tree live_gateway_classes GatewayClass_CleanTreeUpdates
    "computeTreeGatewayClassUpdate ft" "\<lambda>x. meta_key (gck_meta x)" gwc_inv
  by unfold_locales (auto simp: gwc_clean gwc_inv_compute)

text \<open>When the installed versions changed, every stored class has an update, the direct ones kept.\<close>

lemma addIndirect_updates:
  assumes "iv_Updated (cst_InstalledGwAPIVersions b) = Some True"
  defines "st \<equiv> cs_GatewayClasses (cst_ClusterStore b)"
    and "st' \<equiv> cs_GatewayClasses (cst_ClusterStore (addIndirectGatewayClassesFromInstalledVersions b))"
  shows "objects st' = objects st" "mkeys (updates st') = mkeys (updates st) \<union> mkeys (objects st)"
    and "k \<in> mkeys (updates st) \<Longrightarrow> map_of (updates st') k = map_of (updates st) k"
proof -
  let ?f = "\<lambda>(gwcKey, gwc) u. if mhas u gwcKey then u
     else mput gwcKey \<lparr>OldObject = Some gwc, NewObject = Some gwc, Status = StatusUpserted, Indirect = True\<rparr> u"
  have keys: "mkeys (fold ?f xs u) = mkeys u \<union> mkeys xs" for xs :: "(namespaced_name, gateway_class_k8s) gomap" and u
    by (induction xs arbitrary: u) (auto simp: mhas_iff split: if_splits)
  have kept: "j \<in> mkeys u \<Longrightarrow> map_of (fold ?f xs u) j = map_of u j"
    for xs :: "(namespaced_name, gateway_class_k8s) gomap" and u j
    by (induction xs arbitrary: u) (auto simp: mhas_iff map_of_mput)
  show "objects st' = objects st" "mkeys (updates st') = mkeys (updates st) \<union> mkeys (objects st)"
    "k \<in> mkeys (updates st) \<Longrightarrow> map_of (updates st') k = map_of (updates st) k"
    using assms(1) keys kept
    by (simp_all add: st_def st'_def addIndirectGatewayClassesFromInstalledVersions_def Let_def)
qed


definition empty_controller_store :: "(k8s_object \<Rightarrow> gvk) \<Rightarrow> string \<Rightarrow> controller_store" where
  "empty_controller_store ex name =
     \<lparr>cst_ClusterStore = empty_cluster_store, cst_GateTree = NewGateTree, cst_UnmanagedGateTree = NewGateTree,
      cst_ReferencedObjects = NewReferencedObjects ex,
      cst_InstalledGwAPIVersions = \<lparr>iv_Versions = [], iv_Updated = None, iv_Valid = False\<rparr>,
      cst_CertUpdates = storage_updates0, cst_CrtListUpdates = storage_updates0, cst_ControllerName = name\<rparr>"

definition plain_text :: field_text where
  "plain_text = \<lparr>ft_NotSupported = \<lambda>p v s. p @ '': '' @ v, ft_Required = \<lambda>p m. p @ '': '' @ m, ft_NotFound = \<lambda>p v. p @ '': '' @ v\<rparr>"


end
