(* ===== verification/ListenerTree.thy ===== *)
theory ListenerTree
  imports SecretServiceTree GatewayClassTree
begin

text \<open>
  \<open>k8s/gate/tree/gateway_listener.go\<close> and \<open>attached_routes.go\<close>: the checks made on
  the listeners of a gateway, their conditions, and the listener keys.
\<close>

definition HTTPProtocolType :: string where "HTTPProtocolType = ''HTTP''"
definition HTTPSProtocolType :: string where "HTTPSProtocolType = ''HTTPS''"
definition TLSProtocolType :: string where "TLSProtocolType = ''TLS''"

type_synonym route_kinds = "(string, route_group_kind list) gomap"

definition gateSupportedRouteKindsByProtocol :: route_kinds where
  "gateSupportedRouteKindsByProtocol =
     [(HTTPProtocolType, [RouteKindHTTP]), (HTTPSProtocolType, [RouteKindHTTP]), (TLSProtocolType, [RouteKindTLS])]"

subsection \<open>Route kinds\<close>

definition effective_group :: "route_group_kind \<Rightarrow> string" where
  "effective_group k = (case rgk_group k of None \<Rightarrow> GatewayGroupName | Some g \<Rightarrow> g)"

definition sortRouteKinds :: "route_group_kind \<Rightarrow> route_group_kind \<Rightarrow> int" where
  "sortRouteKinds a b =
     (let c = go_compare (effective_group a) (effective_group b) in
      if c \<noteq> 0 then c else go_compare (rgk_kind a) (rgk_kind b))"

text \<open>\<open>slices.SortFunc\<close> with that comparison.  It is not stable: kinds that compare equal (one
  with a nil group, one with the default group) may come out in either order.\<close>

definition sort_route_kinds :: "route_group_kind list \<Rightarrow> route_group_kind list" where
  "sort_route_kinds ks = sort_key (\<lambda>k. (effective_group k, rgk_kind k)) ks"

definition isSupportedProtocolRouteKind :: "route_group_kind \<Rightarrow> route_group_kind list \<Rightarrow> bool" where
  "isSupportedProtocolRouteKind kind supportedRouteKinds =
     (case rgk_group kind of
        Some g \<Rightarrow> if g \<noteq> GatewayGroupName then False
                  else list_ex (\<lambda>k. rgk_kind k = rgk_kind kind) supportedRouteKinds
      | None \<Rightarrow> list_ex (\<lambda>k. rgk_kind k = rgk_kind kind) supportedRouteKinds)"

definition allowed_kinds :: "listener_k8s \<Rightarrow> route_group_kind list" where
  "allowed_kinds l = (case ls_allowedRoutes l of None \<Rightarrow> [] | Some ar \<Rightarrow> ar_kinds ar)"

definition supportedKinds :: "listener_k8s \<Rightarrow> route_kinds \<Rightarrow> route_group_kind list" where
  "supportedKinds l gateSupportedRouteKinds =
     (let forProtocol = map_get_default [] gateSupportedRouteKinds (ls_protocol l) in
      if allowed_kinds l = [] then sort_route_kinds forProtocol
      else sort_route_kinds (filter (\<lambda>k. isSupportedProtocolRouteKind k forProtocol) (allowed_kinds l)))"

subsection \<open>Checks\<close>

definition checkRouteGroupKind :: "bool \<Rightarrow> route_kinds \<Rightarrow> listener \<Rightarrow> listener" where
  "checkRouteGroupKind gwValid gateSupportedRouteKinds l =
     (if \<not> gwValid then l\<lparr>li_CheckRouteGroupKind := check_result0\<rparr>
      else let k8s = li_K8sResource l;
               forProtocol = map_get_default [] gateSupportedRouteKinds (ls_protocol k8s) in
        if allowed_kinds k8s = [] then l\<lparr>li_CheckRouteGroupKind := \<lparr>cr_Conditions = [], cr_Valid = True\<rparr>\<rparr>
        else let unsupportedRoute = fold (\<lambda>k u. if isSupportedProtocolRouteKind k forProtocol then u else rgk_kind k)
                                      (allowed_kinds k8s) [] in
          if unsupportedRoute \<noteq> [] then
            let msg = unsupportedRoute @ '' is not supported. Supported Route Kinds for this protocol ''
                        @ RouteGroupKindsToString (sort_route_kinds forProtocol)
            in l\<lparr>li_CheckRouteGroupKind := \<lparr>cr_Conditions = NewListenerResolvedRefInvalidRouteKinds msg, cr_Valid = False\<rparr>\<rparr>
          else l\<lparr>li_CheckRouteGroupKind := \<lparr>cr_Conditions = [], cr_Valid = True\<rparr>\<rparr>)"

definition checkProtocol :: "field_text \<Rightarrow> route_kinds \<Rightarrow> listener \<Rightarrow> listener" where
  "checkProtocol ft gateSupportedRouteKinds l =
     (if map_get_default [] gateSupportedRouteKinds (ls_protocol (li_K8sResource l)) = [] then
        l\<lparr>li_CheckProtocol := \<lparr>cr_Conditions = NewListenerAcceptedUnsupportedProtocol
            (ft_NotSupported ft ''protocol'' (ls_protocol (li_K8sResource l)) (sort (map fst gateSupportedRouteKinds))),
          cr_Valid = False\<rparr>\<rparr>
      else l\<lparr>li_CheckProtocol := \<lparr>cr_Conditions = [], cr_Valid = True\<rparr>\<rparr>)"

definition isSupportedCertKindGroup :: "secret_object_reference \<Rightarrow> bool" where
  "isSupportedCertKindGroup certRef =
     ((sref_kind certRef = None \<or> sref_kind certRef = Some ''Secret'')
      \<and> (sref_group certRef = None \<or> sref_group certRef = Some []))"

text \<open>The loop over the certificate references: an unsupported kind ends it, a missing secret does
  not.\<close>

fun cert_refs_loop :: "gateway_k8s \<Rightarrow> secret tree_map \<Rightarrow> secret_object_reference list \<Rightarrow> check_result \<Rightarrow> check_result" where
  "cert_refs_loop gw gateSecrets [] acc = acc"
| "cert_refs_loop gw gateSecrets (certRef # rest) acc =
     (if \<not> isSupportedCertKindGroup certRef then
        \<lparr>cr_Conditions = NewListenerResolvedRefInvalidCertificateRefs ''Listener CertificateRefs must be of Group/Kind Secret'',
         cr_Valid = False\<rparr>
      else let nsName = GetCertificateRefNamespacedName certRef gw in
        if (case map_of gateSecrets nsName of None \<Rightarrow> True
            | Some s \<Rightarrow> TreeStatus (tr_status s) = StatusDeleted)
        then cert_refs_loop gw gateSecrets rest
               \<lparr>cr_Conditions = NewListenerResolvedRefInvalidCertificateRefs
                  (''Secret '' @ nn_namespace nsName @ ''/'' @ nn_name nsName @ '' does not exist''), cr_Valid = False\<rparr>
        else cert_refs_loop gw gateSecrets rest acc)"

definition checkCertificateRefs :: "bool \<Rightarrow> gateway_k8s \<Rightarrow> secret tree_map \<Rightarrow> listener \<Rightarrow> listener" where
  "checkCertificateRefs gwValid gw gateSecrets l =
     (if \<not> gwValid then l\<lparr>li_CheckSecret := check_result0\<rparr>
      else case ls_tls (li_K8sResource l) of
        None \<Rightarrow> l\<lparr>li_CheckSecret := \<lparr>cr_Conditions = [], cr_Valid = True\<rparr>\<rparr>
      | Some refs \<Rightarrow>
          if refs = [] then l\<lparr>li_CheckSecret := \<lparr>cr_Conditions = [], cr_Valid = True\<rparr>\<rparr>
          else l\<lparr>li_CheckSecret := cert_refs_loop gw gateSecrets refs (li_CheckSecret l)\<rparr>)"

record gatewaylistener =
  gl_listenerKey :: namespaced_name
  gl_gatewayKey :: namespaced_name

type_synonym port_listeners = "(int, gatewaylistener list) gomap"

definition checkConflict :: "bool \<Rightarrow> port_listeners \<Rightarrow> listener \<Rightarrow> listener" where
  "checkConflict gwValid multipleListenersPerPort l =
     (if \<not> gwValid then l\<lparr>li_CheckConflict := check_result0\<rparr>
      else case map_of multipleListenersPerPort (ls_port (li_K8sResource l)) of
        None \<Rightarrow> l
      | Some gls \<Rightarrow>
          let conflictingKeys = sort (map (\<lambda>gl. nn_string (gl_listenerKey gl)) gls);
              msg = ''Conflicting listeners: '' @ join '', '' conflictingKeys
          in l\<lparr>li_CheckConflict := \<lparr>cr_Conditions = NewListenerConflicted msg, cr_Valid = False\<rparr>\<rparr>)"

definition resetChecks :: "listener \<Rightarrow> listener" where
  "resetChecks l = l\<lparr>li_CheckRouteGroupKind := check_result0, li_CheckProtocol := check_result0,
     li_CheckSecret := check_result0, li_CheckConflict := check_result0\<rparr>"

subsection \<open>Conditions of a listener\<close>

definition check_conditions :: "listener \<Rightarrow> conditions" where
  "check_conditions l =
     MergeOverrideConditions (MergeOverrideConditions (MergeOverrideConditions (MergeOverrideConditions []
       (cr_Conditions (li_CheckRouteGroupKind l))) (cr_Conditions (li_CheckProtocol l)))
       (cr_Conditions (li_CheckSecret l))) (cr_Conditions (li_CheckConflict l))"

definition Listener_BuildConditions :: "int \<Rightarrow> listener \<Rightarrow> listener" where
  "Listener_BuildConditions generation l =
     (let c0 = check_conditions l;
          (c1, p1) = (if GetCondition c0 ''Accepted'' = None then (MergeOverrideConditions c0 NewListenerAcceptedOK, True)
                      else (MergeOverrideConditions c0 NewListenerProgrammedInvalid, False));
          (c2, p2) = (if GetCondition c1 ''ResolvedRefs'' = None then (MergeOverrideConditions c1 NewListenerResolvedRefOK, p1)
                      else (MergeOverrideConditions c1 NewListenerProgrammedInvalid, False));
          (c3, p3) = (if GetCondition c2 ''Conflicted'' \<noteq> None then (MergeOverrideConditions c2 NewListenerProgrammedInvalid, False)
                      else (c2, p2));
          c4 = (if p3 then MergeOverrideConditions c3 NewListenerProgrammedPending else c3)
      in l\<lparr>li_Conditions := SetGeneration generation c4, li_Valid := p3\<rparr>)"

subsection \<open>Listener keys\<close>

definition ListenerKeyFromListenerName :: "gateway_k8s \<Rightarrow> string \<Rightarrow> namespaced_name" where
  "ListenerKeyFromListenerName gw listenerName =
     NamespacedName (om_namespace (gwk_meta gw)) (om_name (gwk_meta gw) @ ''_'' @ listenerName)"

definition ListenerKey :: "gateway_k8s \<Rightarrow> listener_k8s \<Rightarrow> namespaced_name" where
  "ListenerKey gw l = ListenerKeyFromListenerName gw (ls_name l)"

definition ConvertListenerKeyToGatewayKeyAndListenerName ::
    "namespaced_name \<Rightarrow> format_error + (namespaced_name \<times> string)" where
  "ConvertListenerKeyToGatewayKeyAndListenerName listenerKey =
     (let parts = split_on (CHR ''_'') (nn_name listenerKey) in
      if length parts \<noteq> 2 then Inl (InvalidFormat (nn_name listenerKey))
      else Inr (NamespacedName (nn_namespace listenerKey) (parts ! 0), parts ! 1))"

definition ConvertListenerKeyToGatewayKey :: "namespaced_name \<Rightarrow> namespaced_name" where
  "ConvertListenerKeyToGatewayKey listenerKey =
     (case ConvertListenerKeyToGatewayKeyAndListenerName listenerKey of
        Inl _ \<Rightarrow> listenerKey
      | Inr (gatewayKey, _) \<Rightarrow> gatewayKey)"

subsection \<open>The JSON form of the attached routes\<close>

definition AttachedRoutes_MarshalJSON :: "namespaced_name goset \<Rightarrow> string goset" where
  "AttachedRoutes_MarshalJSON m = fold (\<lambda>(k, _) t. sput (nn_string k) t) m []"

fun unmarshal_routes :: "string list \<Rightarrow> namespaced_name goset \<Rightarrow> format_error + namespaced_name goset" where
  "unmarshal_routes [] m = Inr m"
| "unmarshal_routes (kStr # rest) m =
     (case ParseNamespacedName kStr of Inl e \<Rightarrow> Inl e | Inr key \<Rightarrow> unmarshal_routes rest (sput key m))"

definition AttachedRoutes_UnmarshalJSON :: "string goset \<Rightarrow> format_error + namespaced_name goset" where
  "AttachedRoutes_UnmarshalJSON tempMap = unmarshal_routes (map fst tempMap) []"

subsection \<open>Listener keys identify listeners\<close>

text \<open>C24: a listener key gives back the gateway key and the listener name it was built from, for
  names without underscore (Kubernetes names have none).\<close>

theorem listener_key_roundtrip:
  assumes "CHR ''_'' \<notin> set (om_name (gwk_meta gw))" "CHR ''_'' \<notin> set (ls_name l)"
  shows "ConvertListenerKeyToGatewayKeyAndListenerName (ListenerKey gw l) = Inr (meta_key (gwk_meta gw), ls_name l)
    \<and> ConvertListenerKeyToGatewayKey (ListenerKey gw l) = meta_key (gwk_meta gw)"
proof -
  have "split_on (CHR ''_'') (om_name (gwk_meta gw) @ CHR ''_'' # ls_name l) = [om_name (gwk_meta gw), ls_name l]"
    using assms by (simp add: split_on_append split_on_none)
  then show ?thesis
    by (simp add: ConvertListenerKeyToGatewayKey_def ConvertListenerKeyToGatewayKeyAndListenerName_def
        ListenerKey_def ListenerKeyFromListenerName_def meta_key_def)
qed

definition listener0 :: listener_k8s where
  "listener0 = \<lparr>ls_name = ''https'', ls_hostname = None, ls_port = 443, ls_protocol = ''HTTPS'', ls_tls = None, ls_tlsMode = None,
     ls_allowedRoutes = None\<rparr>"

theorem listener_key_roundtrip_witness:
  "ConvertListenerKeyToGatewayKeyAndListenerName (ListenerKey (gw_named ''g'' ''c'') listener0)
     = Inr (NamespacedName [] ''g'', ''https'')"
  using listener_key_roundtrip[of "gw_named ''g'' ''c''" listener0]
  by (simp add: gw_named_def listener0_def meta_key_def meta0_def)

subsection \<open>Attached routes survive the JSON form\<close>

lemma unmarshal_ok:
  assumes "\<And>k. k \<in> set ks \<Longrightarrow> CHR ''/'' \<notin> set (nn_namespace k)"
  shows "unmarshal_routes (map nn_string ks) m = Inr (fold sput ks m)"
  using assms by (induction ks arbitrary: m) (simp_all add: ParseNamespacedName_print)

lemma attached_routes_roundtrip:
  assumes "\<forall>k \<in> mkeys m. CHR ''/'' \<notin> set (nn_namespace k)"
  shows "\<exists>m'. AttachedRoutes_UnmarshalJSON (AttachedRoutes_MarshalJSON m) = Inr m' \<and> mkeys m' = mkeys m"
proof -
  let ?t = "AttachedRoutes_MarshalJSON m"
  have "mkeys (fold (\<lambda>(k, _) t. sput (nn_string k) t) xs t) = nn_string ` mkeys xs \<union> mkeys t"
    for xs :: "namespaced_name goset" and t
    by (induction xs arbitrary: t) auto
  then have keys: "mkeys ?t = nn_string ` mkeys m" by (simp add: AttachedRoutes_MarshalJSON_def)
  then have "\<forall>s \<in> set (map fst ?t). \<exists>k \<in> mkeys m. s = nn_string k" by (auto simp: mkeys_def)
  then obtain f where f: "\<forall>s \<in> set (map fst ?t). f s \<in> mkeys m \<and> s = nn_string (f s)" by metis
  then have eq: "map fst ?t = map nn_string (map f (map fst ?t))" by (simp add: map_idI comp_def)
  have ok: "CHR ''/'' \<notin> set (nn_namespace k)" if "k \<in> set (map f (map fst ?t))" for k
    using that f assms by auto
  have "mkeys (fold sput (map f (map fst ?t)) []) = f ` mkeys ?t"
    unfolding mkeys_fold_sput by (simp add: mkeys_def image_image)
  also have "\<dots> = mkeys m"
  proof -
    have "f (nn_string k) = k" if "k \<in> mkeys m" for k
    proof (rule nn_string_inj)
      have s: "nn_string k \<in> set (map fst ?t)" using that keys by (auto simp: mkeys_def)
      then show "nn_string (f (nn_string k)) = nn_string k" using f by metis
      show "CHR ''/'' \<notin> set (nn_namespace (f (nn_string k)))" using f s assms by blast
      show "CHR ''/'' \<notin> set (nn_namespace k)" using that assms by blast
    qed
    then show ?thesis by (force simp: keys image_image)
  qed
  finally show ?thesis unfolding AttachedRoutes_UnmarshalJSON_def
    by (subst eq) (use unmarshal_ok[of "map f (map fst ?t)" "[]"] ok in simp)
qed

subsection \<open>The conditions of a listener\<close>

definition checks_coherent :: "listener \<Rightarrow> bool" where
  "checks_coherent l \<longleftrightarrow> coherent (cr_Conditions (li_CheckRouteGroupKind l)) \<and> coherent (cr_Conditions (li_CheckProtocol l))
     \<and> coherent (cr_Conditions (li_CheckSecret l)) \<and> coherent (cr_Conditions (li_CheckConflict l))"

lemma check_conditions_coherent: "checks_coherent l \<Longrightarrow> coherent (check_conditions l)"
  by (simp add: checks_coherent_def check_conditions_def coherent_Merge)

lemma map_of_Merge_single:
  "map_of (MergeOverrideConditions c [cond_entry k t s r m]) = (map_of c)(k \<mapsto> snd (cond_entry k t s r m))"
  by (auto simp: map_of_Merge fun_eq_iff cond_entry_def)

lemma map_of_listener_merges:
  "map_of (MergeOverrideConditions c NewListenerAcceptedOK) = (map_of c)(''Accepted'' \<mapsto> snd (hd NewListenerAcceptedOK))"
  "map_of (MergeOverrideConditions c NewListenerResolvedRefOK) = (map_of c)(''ResolvedRefs'' \<mapsto> snd (hd NewListenerResolvedRefOK))"
  "map_of (MergeOverrideConditions c NewListenerProgrammedInvalid) = (map_of c)(''Programmed'' \<mapsto> snd (hd NewListenerProgrammedInvalid))"
  "map_of (MergeOverrideConditions c NewListenerProgrammedPending) = (map_of c)(''Programmed'' \<mapsto> snd (hd NewListenerProgrammedPending))"
  by (simp_all add: NewListenerAcceptedOK_def NewListenerResolvedRefOK_def NewListenerProgrammedInvalid_def
      NewListenerProgrammedPending_def map_of_Merge_single)

lemma listener_statuses:
  "Cond_Status (snd (hd NewListenerAcceptedOK)) = ''True''" "Cond_Status (snd (hd NewListenerResolvedRefOK)) = ''True''"
  "Cond_Status (snd (hd NewListenerProgrammedInvalid)) = ''False''" "Cond_Status (snd (hd NewListenerProgrammedPending)) = ''Unknown''"
  by (simp_all add: condition_constructors cond_entry_def)

lemma final_condition_map:
  fixes m0 :: "'k \<Rightarrow> 'c option"
  assumes "a \<noteq> r" "a \<noteq> g" "r \<noteq> g"
    and "m1 = (if m0 a = None then m0(a \<mapsto> A) else m0(g \<mapsto> I))" "m2 = (if m0 r = None then m1(r \<mapsto> R) else m1(g \<mapsto> I))"
    and "m3 = (if m0 c = None then m2 else m2(g \<mapsto> I))" "p = (m0 a = None \<and> m0 r = None \<and> m0 c = None)"
    and "m4 = (if p then m3(g \<mapsto> P) else m3)"
  shows "m4 = (\<lambda>k. if k = g then Some (if p then P else I) else if k = a \<and> m0 k = None then Some A
     else if k = r \<and> m0 k = None then Some R else m0 k)"
  unfolding assms(8,6,5,4) assms(7) by (rule ext) (use assms(1-3) in auto)

text \<open>The conditions before the generation is set.\<close>

lemma BuildConditions_result:
  fixes l :: listener
  assumes "checks_coherent l"
  defines "m0 \<equiv> map_of (check_conditions l)"
  defines "p \<equiv> m0 ''Accepted'' = None \<and> m0 ''ResolvedRefs'' = None \<and> m0 ''Conflicted'' = None"
  obtains c where "Listener_BuildConditions gen l = l\<lparr>li_Conditions := SetGeneration gen c, li_Valid := p\<rparr>" "coherent c"
    "map_of c = (\<lambda>k. if k = ''Programmed'' then Some (snd (hd (if p then NewListenerProgrammedPending else NewListenerProgrammedInvalid)))
       else if k = ''Accepted'' \<and> m0 k = None then Some (snd (hd NewListenerAcceptedOK))
       else if k = ''ResolvedRefs'' \<and> m0 k = None then Some (snd (hd NewListenerResolvedRefOK)) else m0 k)"
proof -
  let ?c0 = "check_conditions l"
  have c0: "coherent ?c0" using assms(1) by (rule check_conditions_coherent)
  define c1 where "c1 = (if m0 ''Accepted'' = None then MergeOverrideConditions ?c0 NewListenerAcceptedOK
     else MergeOverrideConditions ?c0 NewListenerProgrammedInvalid)"
  define c2 where "c2 = (if m0 ''ResolvedRefs'' = None then MergeOverrideConditions c1 NewListenerResolvedRefOK
     else MergeOverrideConditions c1 NewListenerProgrammedInvalid)"
  define c3 where "c3 = (if m0 ''Conflicted'' = None then c2 else MergeOverrideConditions c2 NewListenerProgrammedInvalid)"
  define c4 where "c4 = (if p then MergeOverrideConditions c3 NewListenerProgrammedPending else c3)"
  have coh: "coherent c4" using c0 by (simp add: c4_def c3_def c2_def c1_def coherent_Merge)
  have m1: "map_of c1 = (if m0 ''Accepted'' = None then m0(''Accepted'' \<mapsto> snd (hd NewListenerAcceptedOK))
      else m0(''Programmed'' \<mapsto> snd (hd NewListenerProgrammedInvalid)))"
    by (simp add: c1_def m0_def map_of_listener_merges)
  have m2: "map_of c2 = (if m0 ''ResolvedRefs'' = None then (map_of c1)(''ResolvedRefs'' \<mapsto> snd (hd NewListenerResolvedRefOK))
      else (map_of c1)(''Programmed'' \<mapsto> snd (hd NewListenerProgrammedInvalid)))"
    by (simp add: c2_def map_of_listener_merges)
  have m3: "map_of c3 = (if m0 ''Conflicted'' = None then map_of c2
      else (map_of c2)(''Programmed'' \<mapsto> snd (hd NewListenerProgrammedInvalid)))"
    by (simp add: c3_def map_of_listener_merges)
  have m4: "map_of c4 = (if p then (map_of c3)(''Programmed'' \<mapsto> snd (hd NewListenerProgrammedPending)) else map_of c3)"
    by (simp add: c4_def map_of_listener_merges)
  have r1: "GetCondition c1 ''ResolvedRefs'' = m0 ''ResolvedRefs''" by (simp add: GetCondition_def m1)
  have r2: "GetCondition c2 ''Conflicted'' = m0 ''Conflicted''" by (simp add: GetCondition_def m1 m2)
  have r0: "GetCondition ?c0 ''Accepted'' = m0 ''Accepted''" by (simp add: GetCondition_def m0_def)
  have e1: "(if GetCondition ?c0 ''Accepted'' = None then (MergeOverrideConditions ?c0 NewListenerAcceptedOK, True)
      else (MergeOverrideConditions ?c0 NewListenerProgrammedInvalid, False)) = (c1, m0 ''Accepted'' = None)"
    by (simp add: r0 c1_def)
  have e2: "(if GetCondition c1 ''ResolvedRefs'' = None then (MergeOverrideConditions c1 NewListenerResolvedRefOK, m0 ''Accepted'' = None)
      else (MergeOverrideConditions c1 NewListenerProgrammedInvalid, False)) = (c2, m0 ''Accepted'' = None \<and> m0 ''ResolvedRefs'' = None)"
    by (simp add: r1 c2_def)
  have e3: "(if GetCondition c2 ''Conflicted'' \<noteq> None then (MergeOverrideConditions c2 NewListenerProgrammedInvalid, False)
      else (c2, m0 ''Accepted'' = None \<and> m0 ''ResolvedRefs'' = None)) = (c3, p)"
    by (auto simp: r2 c3_def p_def)
  have build: "Listener_BuildConditions gen l = l\<lparr>li_Conditions := SetGeneration gen c4, li_Valid := p\<rparr>"
    unfolding Listener_BuildConditions_def Let_def e1 prod.case e2 e3 c4_def by (rule refl)
  have "map_of c4 = (\<lambda>k. if k = ''Programmed'' then Some (snd (hd (if p then NewListenerProgrammedPending else NewListenerProgrammedInvalid)))
       else if k = ''Accepted'' \<and> m0 k = None then Some (snd (hd NewListenerAcceptedOK))
       else if k = ''ResolvedRefs'' \<and> m0 k = None then Some (snd (hd NewListenerResolvedRefOK)) else m0 k)"
    using final_condition_map[OF _ _ _ m1 m2 m3 p_def[THEN meta_eq_to_obj_eq] m4]
    by (simp only: if_distrib[where f = "\<lambda>x. snd (hd x)"]) simp
  with build coh show ?thesis by (rule that)
qed

text \<open>C21: a listener is valid exactly when its checks left no Accepted, ResolvedRefs or
  Conflicted condition; its final conditions are the ones of the checks completed by Accepted
  and ResolvedRefs (true unless a check set them) and Programmed (unknown when valid, false otherwise), all with
  the generation of the gateway.\<close>

theorem listener_conditions_spec:
  assumes "checks_coherent l"
  shows "let l' = Listener_BuildConditions gen l; m0 = map_of (check_conditions l); m = map_of (li_Conditions l') in
    (li_Valid l' \<longleftrightarrow> m0 ''Accepted'' = None \<and> m0 ''ResolvedRefs'' = None \<and> m0 ''Conflicted'' = None)
    \<and> dom m = dom m0 \<union> {''Accepted'', ''ResolvedRefs'', ''Programmed''}
    \<and> map_option Cond_Status (m ''Programmed'') = Some (if li_Valid l' then ''Unknown'' else ''False'')
    \<and> map_option Cond_Status (m ''Accepted'') = (if m0 ''Accepted'' = None then Some ''True'' else map_option Cond_Status (m0 ''Accepted''))
    \<and> map_option Cond_Status (m ''ResolvedRefs'') = (if m0 ''ResolvedRefs'' = None then Some ''True'' else map_option Cond_Status (m0 ''ResolvedRefs''))
    \<and> (\<forall>k c. m k = Some c \<longrightarrow> Cond_ObservedGeneration c = gen)"
proof -
  define m0 where "m0 = map_of (check_conditions l)"
  define p where "p = (m0 ''Accepted'' = None \<and> m0 ''ResolvedRefs'' = None \<and> m0 ''Conflicted'' = None)"
  obtain c where l': "Listener_BuildConditions gen l = l\<lparr>li_Conditions := SetGeneration gen c, li_Valid := p\<rparr>"
    and c: "coherent c" and m: "map_of c = (\<lambda>k. if k = ''Programmed'' then Some (snd (hd (if p then NewListenerProgrammedPending else NewListenerProgrammedInvalid)))
       else if k = ''Accepted'' \<and> m0 k = None then Some (snd (hd NewListenerAcceptedOK))
       else if k = ''ResolvedRefs'' \<and> m0 k = None then Some (snd (hd NewListenerResolvedRefOK)) else m0 k)"
    using BuildConditions_result[OF assms] unfolding m0_def p_def by blast
  have sel: "li_Valid (Listener_BuildConditions gen l) = p"
    "li_Conditions (Listener_BuildConditions gen l) = SetGeneration gen c" using l' by simp_all
  have ms: "map_of (SetGeneration gen c) k = map_option (\<lambda>v. v\<lparr>Cond_ObservedGeneration := gen\<rparr>) (map_of c k)" for k
    by (rule map_of_SetGeneration[OF c])
  have st: "map_option Cond_Status (map_of (SetGeneration gen c) k) = map_option Cond_Status (map_of c k)" for k
    by (cases "map_of c k") (simp_all add: ms)
  have "dom (map_of (SetGeneration gen c)) = dom (map_of c)" by (auto simp: dom_def ms)
  also have "\<dots> = dom m0 \<union> {''Accepted'', ''ResolvedRefs'', ''Programmed''}"
    unfolding m by (auto split: if_splits)
  finally have dom: "dom (map_of (SetGeneration gen c)) = dom m0 \<union> {''Accepted'', ''ResolvedRefs'', ''Programmed''}" .
  show ?thesis unfolding Let_def sel m0_def[symmetric] st
    by (intro conjI allI impI) (rule p_def, rule dom, auto simp: m ms listener_statuses)
qed

definition listener_node :: "listener_k8s \<Rightarrow> listener" where
  "listener_node k8s = \<lparr>li_K8sResource = k8s, li_Conditions = [], li_AttachedRoutes = [], li_Owner = NamespacedName [] [],
     li_CheckRouteGroupKind = check_result0, li_CheckProtocol = check_result0, li_CheckSecret = check_result0,
     li_CheckConflict = check_result0, li_AllowedRouteKinds = [], li_Valid = False\<rparr>"

theorem listener_conditions_spec_witness:
  "li_Valid (Listener_BuildConditions 3 (listener_node listener0))
    \<and> \<not> li_Valid (Listener_BuildConditions 3 (checkProtocol plain_text [] (listener_node listener0)))"
  using listener_conditions_spec[of "listener_node listener0" 3]
    listener_conditions_spec[of "checkProtocol plain_text [] (listener_node listener0)" 3]
  by (simp add: Let_def checks_coherent_def listener_node_def check_result0_def check_conditions_def
      MergeOverrideConditions_def checkProtocol_def NewListenerAcceptedUnsupportedProtocol_def cond_entry_def
      listener0_def coherent_def wf_map_def)

end
