(* ===== verification/GatewayTree.thy ===== *)
theory GatewayTree
  imports ListenerTree
begin

text \<open>
  \<open>k8s/gate/tree/gateway.go\<close> and \<open>gateway_builder.go\<close>: gateways, their management and
  parameter checks, the detection of port conflicts between all listeners, and their conditions.
  The merge of two HugGates is the third-party \<open>mergo.MergeWithOverwrite\<close>, a parameter
  \<open>merge\<close> (destination, source).
\<close>

subsection \<open>\<open>Gateway\<close>\<close>

definition NewGateway :: "gateway_k8s \<Rightarrow> gateway tree_res" where
  "NewGateway k8sObject = new_tree_res
     \<lparr>gw_K8sResource = Some k8sObject, gw_HugGate = None, gw_Conditions = NewGatewayAcceptedOK, gw_Listeners = [],
      gw_CheckParamsRef = check_result0, gw_CheckValidGatewayClass = check_result0, gw_CheckConflict = check_result0,
      gw_Valid = False\<rparr>"

definition GetK8sResource :: "gateway tree_res \<Rightarrow> gateway_k8s option" where
  "GetK8sResource g =
     (case gw_K8sResource (tr_core g) of
        Some k \<Rightarrow> Some k
      | None \<Rightarrow> (case OldTreeResource (tr_status g) of None \<Rightarrow> None | Some old \<Rightarrow> gw_K8sResource old))"

definition Gateway_reset :: "gateway \<Rightarrow> gateway" where
  "Gateway_reset g = g\<lparr>gw_Conditions := [], gw_HugGate := None, gw_CheckParamsRef := check_result0,
     gw_CheckValidGatewayClass := check_result0, gw_CheckConflict := check_result0, gw_Valid := False, gw_Listeners := []\<rparr>"

definition Gateway_SetAsUpserted :: "gateway_k8s \<Rightarrow> gateway tree_res \<Rightarrow> gateway tree_res" where
  "Gateway_SetAsUpserted newK8sResource g =
     (setResourceStatus StatusUpserted g)
       \<lparr>tr_core := Gateway_reset ((tr_core g)\<lparr>gw_K8sResource := Some newK8sResource\<rparr>)\<rparr>"

definition Gateway_SetAsDeleted :: "gateway tree_res \<Rightarrow> gateway tree_res" where
  "Gateway_SetAsDeleted g =
     (setResourceStatus StatusDeleted g)\<lparr>tr_core := Gateway_reset ((tr_core g)\<lparr>gw_K8sResource := None\<rparr>)\<rparr>"

definition put_gw :: "namespaced_name \<Rightarrow> gateway tree_res \<Rightarrow> controller_store \<Rightarrow> controller_store" where
  "put_gw k g b = b\<lparr>cst_GateTree := (cst_GateTree b)\<lparr>Gateways := mput k g (Gateways (cst_GateTree b))\<rparr>\<rparr>"

definition put_unmanaged_gw :: "namespaced_name \<Rightarrow> gateway tree_res \<Rightarrow> controller_store \<Rightarrow> controller_store" where
  "put_unmanaged_gw k g b = b\<lparr>cst_UnmanagedGateTree := (cst_UnmanagedGateTree b)
     \<lparr>Gateways := mput k g (Gateways (cst_UnmanagedGateTree b))\<rparr>\<rparr>"

definition Gateway_SetAsManaged :: "gateway_k8s \<Rightarrow> gateway tree_res \<Rightarrow> controller_store \<Rightarrow> controller_store" where
  "Gateway_SetAsManaged k8s g b =
     (let key = meta_key (gwk_meta k8s); b1 = put_gw key g b
      in b1\<lparr>cst_UnmanagedGateTree := (cst_UnmanagedGateTree b1)\<lparr>Gateways := mdel key (Gateways (cst_UnmanagedGateTree b1))\<rparr>\<rparr>)"

definition Gateway_SetAsUnmanaged :: "gateway_k8s \<Rightarrow> gateway tree_res \<Rightarrow> controller_store \<Rightarrow> controller_store" where
  "Gateway_SetAsUnmanaged k8s g b =
     (let key = meta_key (gwk_meta k8s); b1 = put_unmanaged_gw key g b
      in b1\<lparr>cst_GateTree := (cst_GateTree b1)\<lparr>Gateways := mdel key (Gateways (cst_GateTree b1))\<rparr>\<rparr>)"

definition isManaged :: "gateway \<Rightarrow> bool" where
  "isManaged g = cr_Valid (gw_CheckValidGatewayClass g)"

subsection \<open>Management checks\<close>

definition tree_gwc :: "controller_store \<Rightarrow> gateway_k8s \<Rightarrow> gateway_class tree_res option" where
  "tree_gwc b k8s = map_of (GatewayClasses (cst_GateTree b)) (NamespacedName [] (gwk_gatewayClassName k8s))"

definition Gateway_checkParametersRef ::
    "field_text \<Rightarrow> (hug_gate \<Rightarrow> hug_gate \<Rightarrow> hug_gate) \<Rightarrow> controller_store \<Rightarrow> gateway_k8s \<Rightarrow> gateway \<Rightarrow> gateway" where
  "Gateway_checkParametersRef ft merge b k8s g =
     (case gwk_infrastructure k8s of
        Some (Some gwParamRef) \<Rightarrow>
          let paramRef = ParametersReference (lpref_group gwParamRef) (lpref_kind gwParamRef) (lpref_name gwParamRef)
                           (Some (om_namespace (gwk_meta k8s)));
              (check, gwHugGate) = CheckGatewayClass ft (objects (cs_HugGates (cst_ClusterStore b))) (Some paramRef);
              g1 = g\<lparr>gw_CheckParamsRef := check\<rparr>
          in if cr_Valid check then
               (case tree_gwc b k8s of
                  Some treeGwc \<Rightarrow>
                    if gc_Valid (tr_core treeGwc) then
                      (case gc_HugGate (tr_core treeGwc) of
                         Some gwcHugGate \<Rightarrow>
                           let merged = merge hug_gate0 gwcHugGate;
                               merged' = (case gwHugGate of None \<Rightarrow> merged | Some gh \<Rightarrow> merge merged gh)
                           in g1\<lparr>gw_HugGate := Some merged'\<rparr>
                       | None \<Rightarrow> g1)
                    else g1\<lparr>gw_HugGate := gwHugGate\<rparr>
                | None \<Rightarrow> g1\<lparr>gw_HugGate := gwHugGate\<rparr>)
             else g1
      | _ \<Rightarrow> g\<lparr>gw_CheckParamsRef := \<lparr>cr_Conditions = NewGatewayAcceptedOK, cr_Valid = True\<rparr>\<rparr>)"

definition checkGatewayClassIsValid :: "controller_store \<Rightarrow> gateway_k8s \<Rightarrow> gateway \<Rightarrow> gateway" where
  "checkGatewayClassIsValid b k8s g =
     (if (case tree_gwc b k8s of None \<Rightarrow> False | Some treeGwc \<Rightarrow> gc_Valid (tr_core treeGwc))
      then g\<lparr>gw_CheckValidGatewayClass := \<lparr>cr_Conditions = NewGatewayAcceptedOK, cr_Valid = True\<rparr>\<rparr>
      else g\<lparr>gw_CheckValidGatewayClass :=
             \<lparr>cr_Conditions = NewGatewayAcceptedInvalidConditions (gwk_gatewayClassName k8s), cr_Valid = False\<rparr>\<rparr>)"

text \<open>The checks of \<open>processManagementChecks\<close> on a node, then its placement.  \<open>in_place\<close>
  writes the node back to the tree it was found in (it is changed through its pointer).\<close>

definition gw_checked ::
    "field_text \<Rightarrow> (hug_gate \<Rightarrow> hug_gate \<Rightarrow> hug_gate) \<Rightarrow> controller_store \<Rightarrow> gateway_k8s \<Rightarrow> gateway \<Rightarrow> gateway" where
  "gw_checked ft merge b k8s g =
     (let g1 = Gateway_checkParametersRef ft merge b k8s g;
          g2 = checkGatewayClassIsValid b k8s g1
      in g2\<lparr>gw_Valid := (cr_Valid (gw_CheckParamsRef g2) \<and> cr_Valid (gw_CheckValidGatewayClass g2))\<rparr>)"

definition processManagementChecks ::
    "field_text \<Rightarrow> (hug_gate \<Rightarrow> hug_gate \<Rightarrow> hug_gate) \<Rightarrow> (gateway tree_res \<Rightarrow> controller_store \<Rightarrow> controller_store)
       \<Rightarrow> gateway_k8s \<Rightarrow> gateway tree_res \<Rightarrow> controller_store \<Rightarrow> controller_store" where
  "processManagementChecks ft merge in_place k8s g b =
     (if \<not> CheckGatewayClassExists (gwk_gatewayClassName k8s) b then in_place g b
      else let g' = g\<lparr>tr_core := gw_checked ft merge b k8s (tr_core g)\<rparr>
           in if isManaged (tr_core g') then Gateway_SetAsManaged k8s g' (in_place g' b)
              else Gateway_SetAsUnmanaged k8s g' (in_place g' b))"

definition computeTreeGatewayUpdate ::
    "field_text \<Rightarrow> (hug_gate \<Rightarrow> hug_gate \<Rightarrow> hug_gate) \<Rightarrow> namespaced_name \<Rightarrow> gateway_k8s update \<Rightarrow> controller_store \<Rightarrow> controller_store" where
  "computeTreeGatewayUpdate ft merge gwKey u b =
     (let managed = map_of (Gateways (cst_GateTree b)) gwKey;
          unmanaged = map_of (Gateways (cst_UnmanagedGateTree b)) gwKey;
          found = (if managed \<noteq> None then managed else unmanaged);
          in_place = (\<lambda>g b. if managed \<noteq> None then put_gw gwKey g b
                            else if unmanaged \<noteq> None then put_unmanaged_gw gwKey g b else b)
      in case Status u of
           StatusUpserted \<Rightarrow>
             (case NewObject u of
                None \<Rightarrow> b
              | Some k8s \<Rightarrow>
                  let g = (case found of Some g0 \<Rightarrow> Gateway_SetAsUpserted k8s g0 | None \<Rightarrow> NewGateway k8s)
                  in processManagementChecks ft merge in_place k8s g b)
         | StatusDeleted \<Rightarrow> (case found of Some g0 \<Rightarrow> in_place (Gateway_SetAsDeleted g0) b | None \<Rightarrow> b)
         | StatusUnchanged \<Rightarrow> b)"

subsection \<open>Port conflicts\<close>

record gateway_builder =
  portsWithOneListener :: "int goset"
  portsWithMutipleListeners :: port_listeners
  previousPortsWithMutipleListeners :: port_listeners

definition resetListenerConflicts :: "gateway_builder \<Rightarrow> gateway_builder" where
  "resetListenerConflicts gb =
     \<lparr>portsWithOneListener = [], portsWithMutipleListeners = [],
      previousPortsWithMutipleListeners = portsWithMutipleListeners gb\<rparr>"

definition add_listener_port :: "gateway_k8s \<Rightarrow> listener_k8s \<Rightarrow> port_listeners \<Rightarrow> port_listeners" where
  "add_listener_port gw l m =
     mput (ls_port l) (map_get_default [] m (ls_port l)
        @ [\<lparr>gl_listenerKey = ListenerKey gw l, gl_gatewayKey = meta_key (gwk_meta gw)\<rparr>]) m"

definition listenersByPort :: "gateway tree_map \<Rightarrow> port_listeners" where
  "listenersByPort gws = fold (\<lambda>(_, g) m. case gw_K8sResource (tr_core g) of None \<Rightarrow> m
     | Some k8s \<Rightarrow> fold (add_listener_port k8s) (gwk_listeners k8s) m) gws []"

definition gatewaysWithPortConflicts :: "port_listeners \<Rightarrow> namespaced_name goset" where
  "gatewaysWithPortConflicts m = fold (\<lambda>(_, gls) s. fold (\<lambda>gl. sput (gl_gatewayKey gl)) gls s) m []"

definition classify_ports :: "port_listeners \<Rightarrow> gateway_builder \<Rightarrow> gateway_builder" where
  "classify_ports m gb = fold (\<lambda>(port, gls) gb.
      if length gls > 1
      then gb\<lparr>portsWithMutipleListeners := mput port gls (portsWithMutipleListeners gb)\<rparr>
      else gb\<lparr>portsWithOneListener := sput port (portsWithOneListener gb)\<rparr>) m gb"

text \<open>A gateway with a port conflict, now or before, is processed again unless it already is.\<close>

definition reupsert_conflicted ::
    "field_text \<Rightarrow> (hug_gate \<Rightarrow> hug_gate \<Rightarrow> hug_gate) \<Rightarrow> namespaced_name \<Rightarrow> controller_store \<Rightarrow> controller_store" where
  "reupsert_conflicted ft merge gwKey b =
     (case map_of (Gateways (cst_GateTree b)) gwKey of
        None \<Rightarrow> b
      | Some g \<Rightarrow>
          if TreeStatus (tr_status g) \<noteq> StatusUpserted \<and> TreeStatus (tr_status g) \<noteq> StatusDeleted then
            (case gw_K8sResource (tr_core g) of
               None \<Rightarrow> b
             | Some k8s \<Rightarrow> processManagementChecks ft merge (put_gw gwKey) k8s (Gateway_SetAsUpserted k8s g) b)
          else b)"

definition Builder_checkListenerConflicts ::
    "field_text \<Rightarrow> (hug_gate \<Rightarrow> hug_gate \<Rightarrow> hug_gate) \<Rightarrow> gateway_builder \<times> controller_store \<Rightarrow> gateway_builder \<times> controller_store" where
  "Builder_checkListenerConflicts ft merge st =
     (let (gb, b) = st;
          old = gatewaysWithPortConflicts (previousPortsWithMutipleListeners gb);
          gb' = classify_ports (listenersByPort (Gateways (cst_GateTree b))) gb;
          new = gatewaysWithPortConflicts (portsWithMutipleListeners gb');
          both = fold sput (map fst old) (fold sput (map fst new) [])
      in (gb', fold (reupsert_conflicted ft merge) (map fst both) b))"

subsection \<open>Listeners and conditions of a gateway\<close>

definition check_listener ::
    "field_text \<Rightarrow> bool \<Rightarrow> gateway_k8s \<Rightarrow> secret tree_map \<Rightarrow> port_listeners \<Rightarrow> listener \<Rightarrow> listener" where
  "check_listener ft gwValid k8s secrets multiple l0 =
     (let l = resetChecks l0; kinds = gateSupportedRouteKindsByProtocol in
      if ls_protocol (li_K8sResource l) = HTTPProtocolType then
        checkConflict gwValid multiple (checkProtocol ft kinds (checkRouteGroupKind gwValid kinds l))
      else if ls_protocol (li_K8sResource l) = HTTPSProtocolType then
        checkConflict gwValid multiple (checkProtocol ft kinds
          (checkCertificateRefs gwValid k8s secrets (checkRouteGroupKind gwValid kinds l)))
      else checkConflict gwValid multiple (checkProtocol ft kinds l))"

definition new_listener :: "gateway_k8s \<Rightarrow> listener_k8s \<Rightarrow> listener" where
  "new_listener gw l =
     \<lparr>li_K8sResource = l, li_Conditions = [], li_AttachedRoutes = [], li_Owner = meta_key (gwk_meta gw),
      li_CheckRouteGroupKind = check_result0, li_CheckProtocol = check_result0, li_CheckSecret = check_result0,
      li_CheckConflict = check_result0, li_AllowedRouteKinds = supportedKinds l gateSupportedRouteKindsByProtocol,
      li_Valid = False\<rparr>"

definition buildListeners ::
    "field_text \<Rightarrow> secret tree_map \<Rightarrow> port_listeners \<Rightarrow> gateway_k8s \<Rightarrow> gateway \<Rightarrow> gateway" where
  "buildListeners ft secrets multiple k8s g =
     (let processed = fold (\<lambda>l m. mput (ls_name l) (new_listener k8s l) m) (gwk_listeners k8s) []
      in g\<lparr>gw_Listeners := map (\<lambda>(n, l). (n, check_listener ft (gw_Valid g) k8s secrets multiple l)) processed\<rparr>)"

definition Gateway_checkListenerConflicts :: "int goset \<Rightarrow> gateway_k8s \<Rightarrow> gateway \<Rightarrow> gateway" where
  "Gateway_checkListenerConflicts portWithoutConflict k8s g =
     (let found1PortWithoutConflict = list_ex (\<lambda>l. mhas portWithoutConflict (ls_port l)) (gwk_listeners k8s);
          someConflicted = list_ex (\<lambda>(_, l). GetCondition (li_Conditions l) ''Conflicted'' \<noteq> None) (gw_Listeners g);
          check = (if someConflicted then
                     (if \<not> found1PortWithoutConflict
                      then \<lparr>cr_Conditions = NewGatewayAcceptedListenerNotValidAllInvalid, cr_Valid = False\<rparr>
                      else \<lparr>cr_Conditions = NewGatewayAcceptedListenerNotValidAtLeast1Valid, cr_Valid = True\<rparr>)
                   else (gw_CheckConflict g)\<lparr>cr_Valid := True\<rparr>)
      in g\<lparr>gw_CheckConflict := check, gw_Valid := gw_Valid g \<and> cr_Valid check\<rparr>)"

definition Gateway_BuildConditions :: "gateway_k8s \<Rightarrow> gateway \<Rightarrow> gateway" where
  "Gateway_BuildConditions k8s g =
     (let gen = om_generation (gwk_meta k8s) in
      if \<not> isManaged g then g
      else if \<not> cr_Valid (gw_CheckValidGatewayClass g) then
        g\<lparr>gw_Conditions := SetGeneration gen (MergeOverrideConditions [] (cr_Conditions (gw_CheckValidGatewayClass g)))\<rparr>
      else if \<not> cr_Valid (gw_CheckParamsRef g) then
        (let c = MergeOverrideConditions [] (cr_Conditions (gw_CheckParamsRef g));
             messageInvalidParams = GetMessage c ''Accepted''
         in g\<lparr>gw_Conditions := SetGeneration gen (MergeOverrideConditions c (NewGatewayProgrammedInvalidParameters messageInvalidParams))\<rparr>)
      else if GetCondition (cr_Conditions (gw_CheckConflict g)) ''Accepted'' \<noteq> None then
        (if \<not> cr_Valid (gw_CheckConflict g)
         then g\<lparr>gw_Conditions := SetGeneration gen (MergeOverrideConditions [] (cr_Conditions (gw_CheckConflict g)))\<rparr>
         else g\<lparr>gw_Conditions := SetGeneration gen (MergeOverrideConditions
                 (MergeOverrideConditions [] (cr_Conditions (gw_CheckConflict g))) NewGatewayProgrammedOK)\<rparr>)
      else g\<lparr>gw_Conditions := SetGeneration gen (MergeOverrideConditions
               (MergeOverrideConditions [] NewGatewayAcceptedOK) NewGatewayProgrammedOK)\<rparr>)"

text \<open>The last loop of \<open>computeGateTreeUpdates\<close> on one node of the managed tree.\<close>

definition finish_gateway :: "field_text \<Rightarrow> secret tree_map \<Rightarrow> gateway_builder \<Rightarrow> gateway tree_res \<Rightarrow> gateway tree_res" where
  "finish_gateway ft secrets gb g =
     (if TreeStatus (tr_status g) \<noteq> StatusUpserted then g
      else if isManaged (tr_core g) then
        (case gw_K8sResource (tr_core g) of
           None \<Rightarrow> g
         | Some k8s \<Rightarrow>
             let g1 = buildListeners ft secrets (portsWithMutipleListeners gb) k8s (tr_core g);
                 g2 = g1\<lparr>gw_Listeners := map (\<lambda>(n, l). (n, Listener_BuildConditions (om_generation (gwk_meta k8s)) l)) (gw_Listeners g1)\<rparr>;
                 g3 = Gateway_checkListenerConflicts (portsWithOneListener gb) k8s g2
             in g\<lparr>tr_core := Gateway_BuildConditions k8s g3\<rparr>)
      else g)"

definition Gateway_computeGateTreeUpdates ::
    "field_text \<Rightarrow> (hug_gate \<Rightarrow> hug_gate \<Rightarrow> hug_gate) \<Rightarrow> gateway_builder \<times> controller_store \<Rightarrow> gateway_builder \<times> controller_store" where
  "Gateway_computeGateTreeUpdates ft merge st =
     (let (gb, b) = st;
          b1 = fold (\<lambda>(k, u). computeTreeGatewayUpdate ft merge k u) (updates (cs_Gateways (cst_ClusterStore b))) b;
          (gb2, b2) = Builder_checkListenerConflicts ft merge (gb, b1);
          b3 = b2\<lparr>cst_GateTree := (cst_GateTree b2)
                 \<lparr>Gateways := map (\<lambda>(k, g). (k, finish_gateway ft (Secrets (cst_GateTree b2)) gb2 g)) (Gateways (cst_GateTree b2))\<rparr>\<rparr>
      in (gb2, b3))"

definition Gateway_ComputeTreeUpdates ::
    "field_text \<Rightarrow> (hug_gate \<Rightarrow> hug_gate \<Rightarrow> hug_gate) \<Rightarrow> gateway_builder \<times> controller_store \<Rightarrow> gateway_builder \<times> controller_store" where
  "Gateway_ComputeTreeUpdates ft merge st =
     Gateway_computeGateTreeUpdates ft merge (resetListenerConflicts (fst st), snd st)"

definition Gateway_CleanTreeUpdates :: "controller_store \<Rightarrow> controller_store" where
  "Gateway_CleanTreeUpdates b =
     b\<lparr>cst_GateTree := (cst_GateTree b)\<lparr>Gateways := cleanTreeUpdates (Gateways (cst_GateTree b))\<rparr>,
       cst_UnmanagedGateTree := (cst_UnmanagedGateTree b)\<lparr>Gateways := cleanTreeUpdates (Gateways (cst_UnmanagedGateTree b))\<rparr>\<rparr>"

subsection \<open>Which listeners use a port\<close>

definition spec_users :: "gateway_k8s \<Rightarrow> int \<Rightarrow> gatewaylistener list" where
  "spec_users k8s p = map (\<lambda>l. \<lparr>gl_listenerKey = ListenerKey k8s l, gl_gatewayKey = meta_key (gwk_meta k8s)\<rparr>)
     (filter (\<lambda>l. ls_port l = p) (gwk_listeners k8s))"

definition node_users :: "gateway tree_res \<Rightarrow> int \<Rightarrow> gatewaylistener list" where
  "node_users g p = (case gw_K8sResource (tr_core g) of None \<Rightarrow> [] | Some k8s \<Rightarrow> spec_users k8s p)"

definition port_users :: "gateway tree_map \<Rightarrow> int \<Rightarrow> gatewaylistener list" where
  "port_users gws p = concat (map (\<lambda>(_, g). node_users g p) gws)"

definition ports_wf :: "port_listeners \<Rightarrow> bool" where
  "ports_wf m \<longleftrightarrow> wf_map m \<and> (\<forall>p gls. map_of m p = Some gls \<longrightarrow> gls \<noteq> [])"

lemma add_port: "ports_wf m \<Longrightarrow> ports_wf (add_listener_port gw l m)"
  by (auto simp: ports_wf_def add_listener_port_def wf_mput map_of_mput)

lemma add_ports_default:
  "map_get_default [] (fold (add_listener_port k8s) ls m) p
     = map_get_default [] m p @ map (\<lambda>l. \<lparr>gl_listenerKey = ListenerKey k8s l, gl_gatewayKey = meta_key (gwk_meta k8s)\<rparr>)
         (filter (\<lambda>l. ls_port l = p) ls)"
  by (induction ls arbitrary: m) (auto simp: add_listener_port_def)

lemma add_ports_wf: "ports_wf m \<Longrightarrow> ports_wf (fold (add_listener_port k8s) ls m)"
  by (rule fold_invariant_all) (auto intro: add_port)

lemma listenersByPort_spec:
  "ports_wf (listenersByPort gws) \<and> map_get_default [] (listenersByPort gws) p = port_users gws p"
proof -
  let ?f = "\<lambda>(_ :: namespaced_name, g) m. case gw_K8sResource (tr_core g) of None \<Rightarrow> m
     | Some k8s \<Rightarrow> fold (add_listener_port k8s) (gwk_listeners k8s) m"
  have "ports_wf m \<Longrightarrow> ports_wf (fold ?f gws m) \<and> map_get_default [] (fold ?f gws m) p = map_get_default [] m p @ port_users gws p" for m
    by (induction gws arbitrary: m)
      (auto simp: port_users_def node_users_def spec_users_def add_ports_default add_ports_wf split: option.splits)
  from this[of "[]"] show ?thesis by (simp add: listenersByPort_def ports_wf_def)
qed

lemma map_of_listenersByPort:
  "map_of (listenersByPort gws) p = (if port_users gws p = [] then None else Some (port_users gws p))"
  using listenersByPort_spec[of gws p]
  by (cases "map_of (listenersByPort gws) p") (auto simp: ports_wf_def map_get_default_def)

lemma classify_ports_spec:
  assumes "ports_wf m"
  shows "map_of (portsWithMutipleListeners (classify_ports m gb)) p =
       (case map_of m p of None \<Rightarrow> map_of (portsWithMutipleListeners gb) p
        | Some gls \<Rightarrow> if length gls > 1 then Some gls else map_of (portsWithMutipleListeners gb) p)
    \<and> mkeys (portsWithOneListener (classify_ports m gb))
        = mkeys (portsWithOneListener gb) \<union> {q. \<exists>gls. map_of m q = Some gls \<and> length gls \<le> 1}"
proof -
  have "wf_map m" using assms by (simp add: ports_wf_def)
  then show ?thesis unfolding classify_ports_def
  proof (induction m arbitrary: gb)
    case (Cons x m)
    obtain q gls where x: "x = (q, gls)" by (cases x)
    have q: "map_of m q = None" "wf_map m" using Cons.prems by (auto simp: x wf_map_Cons map_of_None_mkeys)
    then have "{r. \<exists>g. map_of (x # m) r = Some g \<and> length g \<le> 1}
        = (if length gls \<le> 1 then {q} else {}) \<union> {r. \<exists>g. map_of m r = Some g \<and> length g \<le> 1}"
      by (auto simp: x split: if_splits)
    with Cons.IH[OF q(2)] q(1) show ?case by (auto simp: x map_of_mput split: option.splits)
  qed simp
qed

lemma classification:
  "map_of (portsWithMutipleListeners (classify_ports (listenersByPort gws) (resetListenerConflicts gb))) p
      = (if length (port_users gws p) > 1 then Some (port_users gws p) else None)
   \<and> (p \<in> mkeys (portsWithOneListener (classify_ports (listenersByPort gws) (resetListenerConflicts gb)))
      \<longleftrightarrow> length (port_users gws p) = 1)"
proof -
  have "ports_wf (listenersByPort gws)" using listenersByPort_spec by blast
  from classify_ports_spec[OF this, of "resetListenerConflicts gb" p] show ?thesis
    by (auto simp: map_of_listenersByPort resetListenerConflicts_def le_Suc_eq)
qed

text \<open>C20: the ports of all listeners of the managed gateways are classified exactly: a port is
  recorded as conflicting, with all its listeners, exactly when two or more listeners use it, and as
  free of conflict exactly when one listener uses it.\<close>

theorem port_classification_exact:
  "map_of (portsWithMutipleListeners (classify_ports (listenersByPort gws) (resetListenerConflicts gb))) p
      = (if length (port_users gws p) > 1 then Some (port_users gws p) else None)
   \<and> (p \<in> mkeys (portsWithOneListener (classify_ports (listenersByPort gws) (resetListenerConflicts gb)))
      \<longleftrightarrow> length (port_users gws p) = 1)"
  by (rule classification)

subsection \<open>A listener on a conflicting port is not valid\<close>

lemma coherent_cert_refs:
  "coherent (cr_Conditions acc) \<Longrightarrow> coherent (cr_Conditions (cert_refs_loop gw secrets refs acc))"
  by (induction refs arbitrary: acc) (auto simp: Let_def)

lemma coherent_empty: "coherent []" "coherent (cr_Conditions check_result0)"
  by (simp_all add: coherent_def wf_map_def check_result0_def)

lemma coherent_resetChecks: "checks_coherent (resetChecks l)"
  by (simp add: checks_coherent_def resetChecks_def coherent_empty)

lemma coherent_checkRouteGroupKind: "checks_coherent l \<Longrightarrow> checks_coherent (checkRouteGroupKind v kinds l)"
  by (simp add: checks_coherent_def checkRouteGroupKind_def Let_def coherent_empty)

lemma coherent_checkProtocol: "checks_coherent l \<Longrightarrow> checks_coherent (checkProtocol ft kinds l)"
  by (simp add: checks_coherent_def checkProtocol_def coherent_empty)

lemma coherent_checkCertificateRefs: "checks_coherent l \<Longrightarrow> checks_coherent (checkCertificateRefs v k8s secrets l)"
  by (simp add: checks_coherent_def checkCertificateRefs_def coherent_empty coherent_cert_refs split: option.split)

lemma coherent_checkConflict: "checks_coherent l \<Longrightarrow> checks_coherent (checkConflict v multiple l)"
  by (simp add: checks_coherent_def checkConflict_def Let_def coherent_empty split: option.split)

lemma check_listener_coherent:
  "checks_coherent (check_listener ft v k8s secrets multiple l)"
  unfolding check_listener_def Let_def
  by (simp only: split: if_split)
    (intro conjI impI coherent_checkConflict coherent_checkProtocol coherent_checkRouteGroupKind
      coherent_checkCertificateRefs coherent_resetChecks)

lemma checks_k8s [simp]:
  "li_K8sResource (resetChecks l) = li_K8sResource l"
  "li_K8sResource (checkRouteGroupKind v kinds l) = li_K8sResource l"
  "li_K8sResource (checkProtocol ft kinds l) = li_K8sResource l"
  "li_K8sResource (checkCertificateRefs v k8s secrets l) = li_K8sResource l"
  "li_K8sResource (checkConflict v multiple l) = li_K8sResource l"
  by (simp_all add: resetChecks_def checkRouteGroupKind_def checkProtocol_def checkCertificateRefs_def
      checkConflict_def Let_def split: option.split)

lemma check_listener_k8s [simp]: "li_K8sResource (check_listener ft v k8s secrets multiple l) = li_K8sResource l"
  by (simp add: check_listener_def Let_def)

lemma check_listener_last: "\<exists>l'. check_listener ft v k8s secrets multiple l = checkConflict v multiple l' \<and> li_K8sResource l' = li_K8sResource l"
  unfolding check_listener_def Let_def by (simp only: split: if_split) (metis checks_k8s)

lemma check_listener_conflict:
  assumes "map_of multiple (ls_port (li_K8sResource l)) = Some gls"
  shows "\<exists>msg. cr_Conditions (li_CheckConflict (check_listener ft True k8s secrets multiple l)) = NewListenerConflicted msg"
  using check_listener_last[of ft True k8s secrets multiple l] assms
  by (auto simp: checkConflict_def Let_def)

lemma conflicted_listener_invalid:
  assumes "map_of multiple (ls_port (li_K8sResource l)) = Some gls"
  shows "\<not> li_Valid (Listener_BuildConditions gen (check_listener ft True k8s secrets multiple l))"
proof -
  let ?l = "check_listener ft True k8s secrets multiple l"
  obtain msg where m: "cr_Conditions (li_CheckConflict ?l) = NewListenerConflicted msg"
    using check_listener_conflict[OF assms] by blast
  have c: "map_of (check_conditions ?l) ''Conflicted'' \<noteq> None"
    unfolding check_conditions_def m
    by (simp add: map_of_Merge NewListenerConflicted_def cond_entry_def)
  obtain c' where "Listener_BuildConditions gen ?l = ?l\<lparr>li_Conditions := SetGeneration gen c',
      li_Valid := map_of (check_conditions ?l) ''Accepted'' = None \<and> map_of (check_conditions ?l) ''ResolvedRefs'' = None
        \<and> map_of (check_conditions ?l) ''Conflicted'' = None\<rparr>"
    by (rule BuildConditions_result[OF check_listener_coherent])
  with c show ?thesis by simp
qed

subsection \<open>The invariant of the gateway tree\<close>

text \<open>A node is under the key of its resource, its listeners come from the resource, a deleted node
  has none, and a node that was just processed has listeners only when it is managed.\<close>

definition gw_node_ok :: "namespaced_name \<Rightarrow> gateway tree_res \<Rightarrow> bool" where
  "gw_node_ok k g \<longleftrightarrow>
     (case gw_K8sResource (tr_core g) of
        None \<Rightarrow> gw_Listeners (tr_core g) = []
      | Some k8s \<Rightarrow> meta_key (gwk_meta k8s) = k
          \<and> (\<forall>(n, l) \<in> set (gw_Listeners (tr_core g)). li_K8sResource l \<in> set (gwk_listeners k8s)))
     \<and> (TreeStatus (tr_status g) = StatusDeleted \<longrightarrow> gw_K8sResource (tr_core g) = None)
     \<and> (\<not> isManaged (tr_core g) \<longrightarrow> gw_Listeners (tr_core g) = [])"

definition gws_ok :: "gateway tree_map \<Rightarrow> bool" where
  "gws_ok gws \<longleftrightarrow> wf_map gws \<and> (\<forall>k g. map_of gws k = Some g \<longrightarrow> gw_node_ok k g)"

definition gw_inv :: "controller_store \<Rightarrow> bool" where
  "gw_inv b \<longleftrightarrow> gws_ok (Gateways (cst_GateTree b))"

lemma gws_ok_mput: "gws_ok m \<Longrightarrow> gw_node_ok k g \<Longrightarrow> gws_ok (mput k g m)"
  by (auto simp: gws_ok_def wf_mput map_of_mput)

lemma gws_ok_mdel: "gws_ok m \<Longrightarrow> gws_ok (mdel k m)"
  by (auto simp: gws_ok_def wf_mdel map_of_mdel)

lemma gw_node_ok_clean: "gw_node_ok k g \<Longrightarrow> gw_node_ok k (g\<lparr>tr_status := \<lparr>OldTreeResource = None, TreeStatus = StatusUnchanged\<rparr>\<rparr>)"
  by (cases "gw_K8sResource (tr_core g)") (simp_all add: gw_node_ok_def)

lemma gw_node_key:
  "gws_ok m \<Longrightarrow> map_of m k = Some g \<Longrightarrow> gw_K8sResource (tr_core g) = Some k8s \<Longrightarrow> meta_key (gwk_meta k8s) = k"
  by (fastforce simp: gws_ok_def gw_node_ok_def)

lemma gws_ok_clean: "gws_ok m \<Longrightarrow> gws_ok (cleanTreeUpdates m)"
  unfolding gws_ok_def by (auto simp: wf_clean map_of_clean intro: gw_node_ok_clean split: option.splits if_splits)

text \<open>A node that was just created or upserted.\<close>

definition fresh_gw :: "gateway_k8s \<Rightarrow> gateway tree_res \<Rightarrow> bool" where
  "fresh_gw k8s g \<longleftrightarrow> gw_K8sResource (tr_core g) = Some k8s \<and> gw_Listeners (tr_core g) = []
     \<and> TreeStatus (tr_status g) = StatusUpserted"

lemma fresh_node_ok: "fresh_gw k8s g \<Longrightarrow> gw_node_ok (meta_key (gwk_meta k8s)) g"
  by (simp add: fresh_gw_def gw_node_ok_def)

lemma fresh_NewGateway: "fresh_gw k8s (NewGateway k8s)"
  by (simp add: fresh_gw_def NewGateway_def new_tree_res_def)

lemma fresh_SetAsUpserted: "fresh_gw k8s (Gateway_SetAsUpserted k8s g)"
  by (simp add: fresh_gw_def Gateway_SetAsUpserted_def setResourceStatus_def Gateway_reset_def)

lemma SetAsDeleted_node_ok: "gw_node_ok k (Gateway_SetAsDeleted g)"
  by (simp add: gw_node_ok_def Gateway_SetAsDeleted_def setResourceStatus_def Gateway_reset_def)

lemma checkParametersRef_keeps:
  "gw_K8sResource (Gateway_checkParametersRef ft merge b k8s g) = gw_K8sResource g
   \<and> gw_Listeners (Gateway_checkParametersRef ft merge b k8s g) = gw_Listeners g"
  by (simp add: Gateway_checkParametersRef_def Let_def split: option.split prod.split)

lemma gw_checked_keeps:
  "gw_K8sResource (gw_checked ft merge b k8s g) = gw_K8sResource g
   \<and> gw_Listeners (gw_checked ft merge b k8s g) = gw_Listeners g"
  using checkParametersRef_keeps[of ft merge b k8s g] by (simp add: gw_checked_def Let_def checkGatewayClassIsValid_def)

lemma fresh_checked: "fresh_gw k8s g \<Longrightarrow> fresh_gw k8s (g\<lparr>tr_core := gw_checked ft merge b k8s (tr_core g)\<rparr>)"
  by (simp add: fresh_gw_def gw_checked_keeps)

lemma gateways_of_puts [simp]:
  "Gateways (cst_GateTree (put_gw k g b)) = mput k g (Gateways (cst_GateTree b))"
  "Gateways (cst_GateTree (put_unmanaged_gw k g b)) = Gateways (cst_GateTree b)"
  "Gateways (cst_GateTree (Gateway_SetAsManaged k8s g b)) = mput (meta_key (gwk_meta k8s)) g (Gateways (cst_GateTree b))"
  "Gateways (cst_GateTree (Gateway_SetAsUnmanaged k8s g b)) = mdel (meta_key (gwk_meta k8s)) (Gateways (cst_GateTree b))"
  by (simp_all add: put_gw_def put_unmanaged_gw_def Gateway_SetAsManaged_def Gateway_SetAsUnmanaged_def Let_def)

text \<open>The management checks place a fresh node under the key of its resource, or remove it from the
  managed tree, and change no other node.\<close>

definition places :: "gateway_k8s \<Rightarrow> gateway tree_map \<Rightarrow> gateway tree_map \<Rightarrow> bool" where
  "places k8s m m' \<longleftrightarrow> (gws_ok m \<longrightarrow> gws_ok m')
     \<and> (\<forall>k. k \<noteq> meta_key (gwk_meta k8s) \<longrightarrow> map_of m' k = map_of m k)
     \<and> (\<forall>g. map_of m' (meta_key (gwk_meta k8s)) = Some g \<longrightarrow> fresh_gw k8s g)"

lemma places_mput: "fresh_gw k8s g \<Longrightarrow> places k8s m (mput (meta_key (gwk_meta k8s)) g m)"
  by (auto simp: places_def gws_ok_mput fresh_node_ok map_of_mput)

lemma places_trans: "places k8s m m' \<Longrightarrow> places k8s m' m'' \<Longrightarrow> places k8s m m''"
  by (auto simp: places_def)

lemma places_mdel: "places k8s m (mdel (meta_key (gwk_meta k8s)) m)"
  by (auto simp: places_def gws_ok_mdel map_of_mdel)

lemma pmc_places_in_tree:
  assumes "fresh_gw k8s g" "k = meta_key (gwk_meta k8s)"
  shows "places k8s (Gateways (cst_GateTree b)) (Gateways (cst_GateTree (processManagementChecks ft merge (put_gw k) k8s g b)))"
  unfolding processManagementChecks_def Let_def assms(2)
  using places_trans[OF places_mput places_mput] places_trans[OF places_mput places_mdel] places_mput
    assms(1) fresh_checked[OF assms(1)]
  by simp

lemma compute_gw_ok:
  assumes "gw_inv b" "regular_update (\<lambda>x. meta_key (gwk_meta x)) k u"
  shows "gw_inv (computeTreeGatewayUpdate ft merge k u b)"
proof (cases "NewObject u")
  case None
  then have "Status u = StatusDeleted" using assms(2) by (simp add: regular_update_def)
  then show ?thesis using assms(1) SetAsDeleted_node_ok
    by (auto simp: computeTreeGatewayUpdate_def Let_def gw_inv_def gws_ok_mput split: option.splits)
next
  case (Some k8s)
  then have u: "Status u = StatusUpserted" "k = meta_key (gwk_meta k8s)" using assms(2) by (auto simp: regular_update_def)
  have pmc: "gw_inv (processManagementChecks ft merge ip k8s g b)"
    if g: "fresh_gw k8s g" and ip: "\<And>g b. fresh_gw k8s g \<Longrightarrow> gw_inv b \<Longrightarrow> gw_inv (ip g b)" for ip g
    using g ip[OF g assms(1)] ip[OF fresh_checked[OF g] assms(1)] fresh_node_ok[OF fresh_checked[OF g]]
    by (simp add: processManagementChecks_def Let_def gw_inv_def gws_ok_mput gws_ok_mdel)
  have ip: "gw_inv (if managed \<noteq> None then put_gw k g b else if unmanaged \<noteq> None then put_unmanaged_gw k g b else b)"
    if "fresh_gw k8s g" "gw_inv b" for g b and managed unmanaged :: "gateway tree_res option"
    using that fresh_node_ok by (simp add: gw_inv_def gws_ok_mput u(2))
  show ?thesis unfolding computeTreeGatewayUpdate_def Let_def
    by (simp only: Some u(1) status.case option.case)
      (intro pmc ip, simp_all add: fresh_NewGateway fresh_SetAsUpserted split: option.split)
qed

text \<open>\<open>narrows m' m\<close>: every node of \<open>m'\<close> has the resource it has in \<open>m\<close>.\<close>

definition narrows :: "gateway tree_map \<Rightarrow> gateway tree_map \<Rightarrow> bool" where
  "narrows m' m \<longleftrightarrow> (\<forall>k g'. map_of m' k = Some g' \<longrightarrow>
     (\<exists>g. map_of m k = Some g \<and> gw_K8sResource (tr_core g') = gw_K8sResource (tr_core g)))"

lemma narrows_refl: "narrows m m" by (simp add: narrows_def)

lemma narrows_trans: "narrows m'' m' \<Longrightarrow> narrows m' m \<Longrightarrow> narrows m'' m"
  unfolding narrows_def by metis

lemma reupsert_step:
  fixes b :: controller_store and ft :: field_text and merge :: "hug_gate \<Rightarrow> hug_gate \<Rightarrow> hug_gate" and k :: namespaced_name
  assumes "gws_ok (Gateways (cst_GateTree b))"
  defines "m \<equiv> Gateways (cst_GateTree b)" and "m' \<equiv> Gateways (cst_GateTree (reupsert_conflicted ft merge k b))"
  shows "gws_ok m' \<and> narrows m' m \<and> (\<forall>j. j \<noteq> k \<longrightarrow> map_of m' j = map_of m j)
    \<and> (\<forall>g. map_of m' k = Some g \<longrightarrow> TreeStatus (tr_status g) \<noteq> StatusUnchanged \<or> gw_K8sResource (tr_core g) = None)"
proof (cases "\<exists>g k8s. map_of m k = Some g \<and> TreeStatus (tr_status g) = StatusUnchanged \<and> gw_K8sResource (tr_core g) = Some k8s")
  case True
  then obtain g k8s where g: "map_of m k = Some g" "TreeStatus (tr_status g) = StatusUnchanged" "gw_K8sResource (tr_core g) = Some k8s"
    by blast
  then have k: "k = meta_key (gwk_meta k8s)" using gw_node_key[OF assms(1)] by (simp add: m_def)
  have "places k8s m m'" unfolding m_def m'_def reupsert_conflicted_def
    using pmc_places_in_tree[OF fresh_SetAsUpserted k] g by (simp add: m_def)
  then show ?thesis using assms(1) g unfolding places_def k[symmetric] narrows_def m_def[symmetric] fresh_gw_def
    by (metis status.distinct)
next
  case False
  then have "m' = m" unfolding m_def m'_def reupsert_conflicted_def
    by (auto split: option.split) (metis status.exhaust)+
  then show ?thesis using False assms(1) narrows_refl by (auto simp: m_def)
qed

lemma reupsert_all:
  fixes b :: controller_store and ft :: field_text and merge :: "hug_gate \<Rightarrow> hug_gate \<Rightarrow> hug_gate" and ks :: "namespaced_name list"
  assumes "gws_ok (Gateways (cst_GateTree b))"
  defines "m \<equiv> Gateways (cst_GateTree b)" and "m' \<equiv> Gateways (cst_GateTree (fold (reupsert_conflicted ft merge) ks b))"
  shows "gws_ok m' \<and> narrows m' m \<and> (\<forall>j. j \<notin> set ks \<longrightarrow> map_of m' j = map_of m j)
    \<and> (\<forall>k g. k \<in> set ks \<longrightarrow> map_of m' k = Some g \<longrightarrow> TreeStatus (tr_status g) \<noteq> StatusUnchanged \<or> gw_K8sResource (tr_core g) = None)"
  using assms(1) unfolding m_def m'_def
proof (induction ks rule: rev_induct)
  case (snoc k ks)
  let ?b = "fold (reupsert_conflicted ft merge) ks b"
  note all = snoc.IH[OF snoc.prems]
  note IH = all[THEN conjunct1] all[THEN conjunct2, THEN conjunct1]
    all[THEN conjunct2, THEN conjunct2, THEN conjunct1, rule_format]
    all[THEN conjunct2, THEN conjunct2, THEN conjunct2, rule_format]
  note st = reupsert_step[OF IH(1), of ft merge k]
  have step: "fold (reupsert_conflicted ft merge) (ks @ [k]) b = reupsert_conflicted ft merge k ?b" by simp
  have keep: "map_of (Gateways (cst_GateTree (reupsert_conflicted ft merge k ?b))) j = map_of (Gateways (cst_GateTree ?b)) j"
    if "j \<noteq> k" for j using st that by blast
  show ?case unfolding step
  proof (intro conjI allI impI)
    fix j g assume "j \<in> set (ks @ [k])" "map_of (Gateways (cst_GateTree (reupsert_conflicted ft merge k ?b))) j = Some g"
    then show "TreeStatus (tr_status g) \<noteq> StatusUnchanged \<or> gw_K8sResource (tr_core g) = None"
      using st IH(4)[of j g] keep[of j] by (cases "j = k") auto
  next
    show "narrows (Gateways (cst_GateTree (reupsert_conflicted ft merge k ?b))) (Gateways (cst_GateTree b))"
      using st IH(2) narrows_trans by blast
  next
    fix j assume "j \<notin> set (ks @ [k])"
    then show "map_of (Gateways (cst_GateTree (reupsert_conflicted ft merge k ?b))) j = map_of (Gateways (cst_GateTree b)) j"
      using IH(3)[of j] keep[of j] by simp
  qed (use st in blast)
qed (simp add: narrows_refl)

lemma length_port_users:
  "wf_map m \<Longrightarrow> length (port_users m p) = (\<Sum>k \<in> mkeys m. length (node_users (the (map_of m k)) p))"
proof (induction m)
  case (Cons x m)
  have "(\<Sum>k \<in> mkeys m. length (node_users (the (map_of (x # m) k)) p)) = (\<Sum>k \<in> mkeys m. length (node_users (the (map_of m k)) p))"
    using Cons.prems by (intro sum.cong) (auto simp: wf_map_Cons)
  with Cons show ?case by (cases x) (simp add: wf_map_Cons port_users_def)
qed (simp add: port_users_def)

lemma port_users_narrows:
  assumes "wf_map m" "wf_map m'" "narrows m' m"
  shows "length (port_users m' p) \<le> length (port_users m p)"
proof -
  have both: "k \<in> mkeys m \<and> node_users (the (map_of m' k)) p = node_users (the (map_of m k)) p" if k: "k \<in> mkeys m'" for k
  proof -
    obtain g' where g': "map_of m' k = Some g'" using k map_of_None_mkeys[of m' k] by auto
    then obtain g where "map_of m k = Some g" "gw_K8sResource (tr_core g') = gw_K8sResource (tr_core g)"
      using assms(3) by (auto simp: narrows_def)
    then show ?thesis using g' map_of_None_mkeys[of m k] by (auto simp: node_users_def)
  qed
  have "length (port_users m' p) = (\<Sum>k \<in> mkeys m'. length (node_users (the (map_of m k)) p))"
    unfolding length_port_users[OF assms(2)] using both by (intro sum.cong) simp_all
  also have "\<dots> \<le> length (port_users m p)" unfolding length_port_users[OF assms(1)]
    using both by (intro sum_mono2) auto
  finally show ?thesis .
qed

lemma port_users_mem:
  assumes "map_of m k = Some g" "gw_K8sResource (tr_core g) = Some k8s" "l \<in> set (gwk_listeners k8s)"
  shows "\<lparr>gl_listenerKey = ListenerKey k8s l, gl_gatewayKey = meta_key (gwk_meta k8s)\<rparr> \<in> set (port_users m (ls_port l))"
  using map_of_SomeD[OF assms(1)] assms(2,3)
  by (force simp: port_users_def node_users_def spec_users_def)

lemma conflict_gateways_mem:
  "map_of m p = Some gls \<Longrightarrow> gl \<in> set gls \<Longrightarrow> gl_gatewayKey gl \<in> mkeys (gatewaysWithPortConflicts m)"
proof -
  have inner: "mkeys (fold (\<lambda>gl. sput (gl_gatewayKey gl)) gls s) = gl_gatewayKey ` set gls \<union> mkeys s" for gls s
    by (induction gls arbitrary: s) auto
  have "mkeys (fold (\<lambda>(_, gls) s. fold (\<lambda>gl. sput (gl_gatewayKey gl)) gls s) m s)
      = (\<Union>(_, gls) \<in> set m. gl_gatewayKey ` set gls) \<union> mkeys s" for s
    by (induction m arbitrary: s) (auto simp: inner)
  then show "map_of m p = Some gls \<Longrightarrow> gl \<in> set gls \<Longrightarrow> ?thesis"
    by (force simp: gatewaysWithPortConflicts_def dest: map_of_SomeD)
qed

text \<open>The last loop: what it does to the listeners of a node.\<close>

lemma BuildConditions_k8s [simp]:
  "li_K8sResource (Listener_BuildConditions gen l) = li_K8sResource l"
  by (simp add: Listener_BuildConditions_def Let_def split: prod.split)

lemma Gateway_BuildConditions_keeps [simp]:
  "gw_K8sResource (Gateway_BuildConditions k8s g) = gw_K8sResource g"
  "gw_Listeners (Gateway_BuildConditions k8s g) = gw_Listeners g"
  "gw_Valid (Gateway_BuildConditions k8s g) = gw_Valid g"
  "isManaged (Gateway_BuildConditions k8s g) = isManaged g"
  by (simp_all add: Gateway_BuildConditions_def Let_def isManaged_def)

lemma Gateway_checkListenerConflicts_keeps:
  "gw_K8sResource (Gateway_checkListenerConflicts ports k8s g) = gw_K8sResource g"
  "gw_Listeners (Gateway_checkListenerConflicts ports k8s g) = gw_Listeners g"
  "gw_Valid (Gateway_checkListenerConflicts ports k8s g) \<Longrightarrow> gw_Valid g"
  "isManaged (Gateway_checkListenerConflicts ports k8s g) = isManaged g"
  by (simp_all add: Gateway_checkListenerConflicts_def Let_def isManaged_def)

definition built_listener ::
    "field_text \<Rightarrow> bool \<Rightarrow> gateway_k8s \<Rightarrow> secret tree_map \<Rightarrow> port_listeners \<Rightarrow> listener_k8s \<Rightarrow> listener" where
  "built_listener ft v k8s secrets multiple l =
     Listener_BuildConditions (om_generation (gwk_meta k8s)) (check_listener ft v k8s secrets multiple (new_listener k8s l))"

lemma processed_listeners:
  "(n, l) \<in> set (fold (\<lambda>l m. mput (ls_name l) (new_listener k8s l) m) ls m)
     \<Longrightarrow> (n, l) \<in> set m \<or> (\<exists>x \<in> set ls. l = new_listener k8s x)"
proof (induction ls arbitrary: m)
  case (Cons a ls)
  have "set (mput k v m) \<subseteq> insert (k, v) (set m)" for k and v :: listener
    by (induction m) auto
  with Cons show ?case by fastforce
qed simp

lemma finish_gateway_cases:
  "finish_gateway ft secrets gb g = g \<and> (TreeStatus (tr_status g) = StatusUpserted \<and> isManaged (tr_core g) \<longrightarrow> gw_K8sResource (tr_core g) = None)
   \<or> (\<exists>k8s. TreeStatus (tr_status g) = StatusUpserted \<and> isManaged (tr_core g) \<and> gw_K8sResource (tr_core g) = Some k8s
      \<and> tr_status (finish_gateway ft secrets gb g) = tr_status g
      \<and> gw_K8sResource (tr_core (finish_gateway ft secrets gb g)) = Some k8s
      \<and> isManaged (tr_core (finish_gateway ft secrets gb g))
      \<and> (gw_Valid (tr_core (finish_gateway ft secrets gb g)) \<longrightarrow> gw_Valid (tr_core g))
      \<and> (\<forall>(n, l) \<in> set (gw_Listeners (tr_core (finish_gateway ft secrets gb g))). \<exists>x \<in> set (gwk_listeners k8s).
           l = built_listener ft (gw_Valid (tr_core g)) k8s secrets (portsWithMutipleListeners gb) x))"
proof (cases "TreeStatus (tr_status g) = StatusUpserted \<and> isManaged (tr_core g) \<and> gw_K8sResource (tr_core g) \<noteq> None")
  case True
  then obtain k8s where k: "gw_K8sResource (tr_core g) = Some k8s" by blast
  let ?g1 = "buildListeners ft secrets (portsWithMutipleListeners gb) k8s (tr_core g)"
  define g2 where "g2 = ?g1\<lparr>gw_Listeners := map (\<lambda>(n, l). (n, Listener_BuildConditions (om_generation (gwk_meta k8s)) l)) (gw_Listeners ?g1)\<rparr>"
  have f: "finish_gateway ft secrets gb g
      = g\<lparr>tr_core := Gateway_BuildConditions k8s (Gateway_checkListenerConflicts (portsWithOneListener gb) k8s g2)\<rparr>"
    using True by (simp add: finish_gateway_def k g2_def Let_def)
  have g2: "gw_K8sResource g2 = Some k8s" "gw_Valid g2 = gw_Valid (tr_core g)" "isManaged g2 = isManaged (tr_core g)"
    by (simp_all add: g2_def buildListeners_def Let_def k isManaged_def)
  have "\<exists>x \<in> set (gwk_listeners k8s). l = built_listener ft (gw_Valid (tr_core g)) k8s secrets (portsWithMutipleListeners gb) x"
    if "(n, l) \<in> set (gw_Listeners g2)" for n l
    using that processed_listeners[of _ _ k8s "gwk_listeners k8s" "[]"]
    by (fastforce simp: g2_def buildListeners_def Let_def built_listener_def)
  then show ?thesis using True g2
    by (intro disjI2 exI[of _ k8s]) (auto simp: f k Gateway_checkListenerConflicts_keeps)
next
  case False
  then show ?thesis by (intro disjI1) (auto simp: finish_gateway_def split: option.split)
qed

lemma built_listener_k8s: "li_K8sResource (built_listener ft v k8s secrets multiple x) = x"
  by (simp add: built_listener_def new_listener_def)

lemma finish_node_ok:
  assumes "gw_node_ok k g"
  shows "gw_node_ok k (finish_gateway ft secrets gb g)
    \<and> gw_K8sResource (tr_core (finish_gateway ft secrets gb g)) = gw_K8sResource (tr_core g)"
  using finish_gateway_cases[of ft secrets gb g]
proof (elim disjE exE conjE)
  fix k8s assume a: "TreeStatus (tr_status g) = StatusUpserted" "gw_K8sResource (tr_core g) = Some k8s"
    "tr_status (finish_gateway ft secrets gb g) = tr_status g" "isManaged (tr_core (finish_gateway ft secrets gb g))"
    "gw_K8sResource (tr_core (finish_gateway ft secrets gb g)) = Some k8s"
    "\<forall>(n, l) \<in> set (gw_Listeners (tr_core (finish_gateway ft secrets gb g))). \<exists>x \<in> set (gwk_listeners k8s).
           l = built_listener ft (gw_Valid (tr_core g)) k8s secrets (portsWithMutipleListeners gb) x"
  then show ?thesis using assms by (fastforce simp: gw_node_ok_def built_listener_k8s)
qed (use assms in simp)

lemma finish_all_ok:
  fixes m :: "gateway tree_map" and ft :: field_text and secrets :: "secret tree_map" and gb :: gateway_builder
  assumes "gws_ok m"
  defines "m' \<equiv> map (\<lambda>(k, g). (k, finish_gateway ft secrets gb g)) m"
  shows "gws_ok m' \<and> narrows m' m"
proof -
  have "map_of m' k = map_option (finish_gateway ft secrets gb) (map_of m k)" for k
    unfolding m'_def by (rule map_of_map_values)
  moreover have "wf_map m'" using assms(1) by (simp add: m'_def wf_map_values gws_ok_def)
  ultimately show ?thesis using assms(1) finish_node_ok by (fastforce simp: gws_ok_def narrows_def)
qed

text \<open>The state between the loops: \<open>m1\<close> after the updates, \<open>m2\<close> after the gateways
  with a conflict were processed again.\<close>

lemma unshared_port:
  assumes m1: "gws_ok m1" and m2: "gws_ok m2" "narrows m2 m1"
    and multiple: "\<And>p. map_of (portsWithMutipleListeners gb) p = (if length (port_users m1 p) > 1 then Some (port_users m1 p) else None)"
    and same: "\<And>k. k \<notin> set ks \<Longrightarrow> map_of m2 k = map_of m1 k"
    and again: "\<And>k g. k \<in> set ks \<Longrightarrow> map_of m2 k = Some g \<Longrightarrow> TreeStatus (tr_status g) \<noteq> StatusUnchanged \<or> gw_K8sResource (tr_core g) = None"
    and conflicts: "mkeys (gatewaysWithPortConflicts (portsWithMutipleListeners gb)) \<subseteq> set ks"
    and g: "map_of m2 k = Some g"
    and valid: "gw_Valid (tr_core (finish_gateway ft secrets gb g))"
    and l: "(n, l) \<in> set (gw_Listeners (tr_core (finish_gateway ft secrets gb g)))" "li_Valid l"
  shows "length (port_users m1 (ls_port (li_K8sResource l))) \<le> 1"
  using finish_gateway_cases[of ft secrets gb g]
proof (elim disjE exE conjE)
  fix k8s assume a: "gw_Valid (tr_core (finish_gateway ft secrets gb g)) \<longrightarrow> gw_Valid (tr_core g)"
    "\<forall>(n, l) \<in> set (gw_Listeners (tr_core (finish_gateway ft secrets gb g))). \<exists>x \<in> set (gwk_listeners k8s).
           l = built_listener ft (gw_Valid (tr_core g)) k8s secrets (portsWithMutipleListeners gb) x"
  then obtain x where x: "l = built_listener ft True k8s secrets (portsWithMutipleListeners gb) x" using l(1) valid by auto
  have "map_of (portsWithMutipleListeners gb) (ls_port x) = None"
    using l(2) conflicted_listener_invalid[of "portsWithMutipleListeners gb" "new_listener k8s x"]
    unfolding x built_listener_def by (cases "map_of (portsWithMutipleListeners gb) (ls_port x)") (auto simp: new_listener_def)
  then show ?thesis unfolding x built_listener_k8s multiple by (simp split: if_splits)
next
  assume a: "finish_gateway ft secrets gb g = g"
    "TreeStatus (tr_status g) = StatusUpserted \<and> isManaged (tr_core g) \<longrightarrow> gw_K8sResource (tr_core g) = None"
  have ok: "gw_node_ok k g" using m2(1) g by (simp add: gws_ok_def)
  then obtain k8s where k8s: "gw_K8sResource (tr_core g) = Some k8s" "li_K8sResource l \<in> set (gwk_listeners k8s)" "meta_key (gwk_meta k8s) = k"
    using l(1) a(1) by (cases "gw_K8sResource (tr_core g)") (auto simp: gw_node_ok_def)
  have "TreeStatus (tr_status g) = StatusUnchanged"
    using ok l(1) a k8s by (cases "TreeStatus (tr_status g)") (auto simp: gw_node_ok_def)
  then have k: "k \<notin> set ks" using again[OF _ g] k8s(1) by auto
  then have "map_of m1 k = Some g" using same g by simp
  note user = port_users_mem[OF this k8s(1,2)]
  show ?thesis
  proof (rule ccontr)
    assume "\<not> ?thesis"
    then have "map_of (portsWithMutipleListeners gb) (ls_port (li_K8sResource l)) = Some (port_users m1 (ls_port (li_K8sResource l)))"
      unfolding multiple by simp
    from conflict_gateways_mem[OF this user] conflicts k k8s(3) show False by auto
  qed
qed

lemma listener_ports_step:
  assumes inv: "gw_inv b"
    and upds: "\<forall>(k, u) \<in> set (updates (cs_Gateways (cst_ClusterStore b))). regular_update (\<lambda>x. meta_key (gwk_meta x)) k u"
  shows "let gws = Gateways (cst_GateTree (snd (Gateway_ComputeTreeUpdates ft merge (gb, b)))) in
    gws_ok gws \<and>
    (\<forall>k g n l. map_of gws k = Some g \<and> gw_Valid (tr_core g) \<and> (n, l) \<in> set (gw_Listeners (tr_core g)) \<and> li_Valid l \<longrightarrow>
      (\<exists>k8s. gw_K8sResource (tr_core g) = Some k8s \<and>
        port_users gws (ls_port (li_K8sResource l)) = [\<lparr>gl_listenerKey = ListenerKey k8s (li_K8sResource l), gl_gatewayKey = k\<rparr>]))"
proof -
  define b1 where "b1 = fold (\<lambda>(k, u). computeTreeGatewayUpdate ft merge k u) (updates (cs_Gateways (cst_ClusterStore b))) b"
  let ?m1 = "Gateways (cst_GateTree b1)"
  define gb2 where "gb2 = classify_ports (listenersByPort ?m1) (resetListenerConflicts gb)"
  define ks where "ks = map fst (fold sput (map fst (gatewaysWithPortConflicts (previousPortsWithMutipleListeners (resetListenerConflicts gb))))
     (fold sput (map fst (gatewaysWithPortConflicts (portsWithMutipleListeners gb2))) []))"
  define b2 where "b2 = fold (reupsert_conflicted ft merge) ks b1"
  let ?m2 = "Gateways (cst_GateTree b2)"
  define m3 where "m3 = map (\<lambda>(k, g). (k, finish_gateway ft (Secrets (cst_GateTree b2)) gb2 g)) ?m2"
  have m3: "Gateways (cst_GateTree (snd (Gateway_ComputeTreeUpdates ft merge (gb, b)))) = m3"
    unfolding m3_def b2_def ks_def gb2_def b1_def
    by (simp add: Gateway_ComputeTreeUpdates_def Gateway_computeGateTreeUpdates_def Builder_checkListenerConflicts_def Let_def)
  have ok1: "gws_ok ?m1"
  proof -
    have "gw_inv b1" unfolding b1_def
      by (rule fold_invariant_all) (use inv upds compute_gw_ok in auto)
    then show ?thesis by (simp add: gw_inv_def)
  qed
  note two = reupsert_all[OF ok1, of ft merge ks, folded b2_def]
  note ok2 = two[THEN conjunct1] and n2 = two[THEN conjunct2, THEN conjunct1]
  have three: "gws_ok m3" "narrows m3 ?m2" unfolding m3_def using finish_all_ok[OF ok2] by auto
  have ks: "mkeys (gatewaysWithPortConflicts (portsWithMutipleListeners gb2)) \<subseteq> set ks"
  proof -
    have "set ks = mkeys (fold sput (map fst (gatewaysWithPortConflicts (previousPortsWithMutipleListeners (resetListenerConflicts gb))))
     (fold sput (map fst (gatewaysWithPortConflicts (portsWithMutipleListeners gb2))) []))" by (simp add: ks_def mkeys_def)
    then show ?thesis unfolding mkeys_fold_sput by (auto simp: mkeys_def)
  qed
  have multiple: "map_of (portsWithMutipleListeners gb2) p = (if length (port_users ?m1 p) > 1 then Some (port_users ?m1 p) else None)" for p
    unfolding gb2_def using classification by simp
  show ?thesis unfolding m3 Let_def
  proof (intro conjI allI impI three(1), elim conjE)
    fix k g n l
    assume g: "map_of m3 k = Some g" and v: "gw_Valid (tr_core g)" and l: "(n, l) \<in> set (gw_Listeners (tr_core g))" "li_Valid l"
    let ?p = "ls_port (li_K8sResource l)"
    obtain g0 where g0: "map_of ?m2 k = Some g0" "g = finish_gateway ft (Secrets (cst_GateTree b2)) gb2 g0"
      using g unfolding m3_def map_of_map_values by auto
    have "length (port_users ?m1 ?p) \<le> 1"
      by (rule unshared_port[OF ok1 ok2 n2 multiple _ _ ks g0(1), of ft "Secrets (cst_GateTree b2)" n])
        (use two v l g0(2) in auto)
    then have le: "length (port_users m3 ?p) \<le> 1"
      using port_users_narrows[of ?m1 m3 ?p] narrows_trans[OF three(2) n2] ok1 three(1) by (force simp: gws_ok_def)
    have "gw_node_ok k g" using three(1) g by (simp add: gws_ok_def)
    then obtain k8s where k8s: "gw_K8sResource (tr_core g) = Some k8s" "li_K8sResource l \<in> set (gwk_listeners k8s)" "meta_key (gwk_meta k8s) = k"
      using l(1) by (cases "gw_K8sResource (tr_core g)") (auto simp: gw_node_ok_def)
    have "\<lparr>gl_listenerKey = ListenerKey k8s (li_K8sResource l), gl_gatewayKey = k\<rparr> \<in> set (port_users m3 ?p)"
      using port_users_mem[OF g k8s(1,2)] k8s(3) by simp
    then have "port_users m3 ?p = [\<lparr>gl_listenerKey = ListenerKey k8s (li_K8sResource l), gl_gatewayKey = k\<rparr>]"
      using le by (cases "port_users m3 ?p") auto
    with k8s(1) show "\<exists>k8s. gw_K8sResource (tr_core g) = Some k8s \<and>
        port_users m3 ?p = [\<lparr>gl_listenerKey = ListenerKey k8s (li_K8sResource l), gl_gatewayKey = k\<rparr>]" by blast
  qed
qed

text \<open>C10: after a cycle no two listeners of the managed gateways that are reported as valid, in a
  valid gateway, use the same port: such a listener is the only listener using its port among all
  managed gateways, changed in this cycle or not; and the invariant of the gateway tree is kept.\<close>

theorem no_valid_listener_shares_port:
  assumes inv: "gw_inv b"
    and upds: "\<forall>(k, u) \<in> set (updates (cs_Gateways (cst_ClusterStore b))). regular_update (\<lambda>x. meta_key (gwk_meta x)) k u"
  shows "let gws = Gateways (cst_GateTree (snd (Gateway_ComputeTreeUpdates ft merge (gb, b)))) in
    gws_ok gws \<and>
    (\<forall>k g n l. map_of gws k = Some g \<and> gw_Valid (tr_core g) \<and> (n, l) \<in> set (gw_Listeners (tr_core g)) \<and> li_Valid l \<longrightarrow>
      (\<exists>k8s. gw_K8sResource (tr_core g) = Some k8s \<and>
        port_users gws (ls_port (li_K8sResource l)) = [\<lparr>gl_listenerKey = ListenerKey k8s (li_K8sResource l), gl_gatewayKey = k\<rparr>]))"
  by (rule listener_ports_step[OF assms])

text \<open>Two gateways that share port 80; the first has a second listener, on port 443.\<close>

definition demo_listener :: "string \<Rightarrow> int \<Rightarrow> listener_k8s" where
  "demo_listener n p = \<lparr>ls_name = n, ls_hostname = None, ls_port = p, ls_protocol = ''HTTP'', ls_tls = None, ls_tlsMode = None, ls_allowedRoutes = None\<rparr>"

definition demo_gateway :: "string \<Rightarrow> listener_k8s list \<Rightarrow> gateway_k8s" where
  "demo_gateway n ls = (gw_named n ''c'')\<lparr>gwk_listeners := ls, gwk_infrastructure := None\<rparr>"

definition demo_class :: "gateway_class tree_res" where
  "demo_class = \<lparr>tr_status = \<lparr>OldTreeResource = None, TreeStatus = StatusUnchanged\<rparr>,
     tr_core = \<lparr>gc_K8sResource = None, gc_HugGate = None, gc_Conditions = [], gc_CheckParamsRef = check_result0,
       gc_Valid = True, gc_Managed = True\<rparr>\<rparr>"

definition demo_update :: "'a \<Rightarrow> 'a update" where
  "demo_update x = \<lparr>OldObject = None, NewObject = Some x, Status = StatusUpserted, Indirect = False\<rparr>"

definition demo_store :: controller_store where
  "demo_store = (let b = empty_controller_store scheme_gvk ''hug'' in
     b\<lparr>cst_GateTree := NewGateTree\<lparr>GatewayClasses := [(NamespacedName [] ''c'', demo_class)]\<rparr>,
       cst_ClusterStore := (cst_ClusterStore b)\<lparr>cs_Gateways := \<lparr>objects = [], updates =
         [(NamespacedName [] ''g'', demo_update (demo_gateway ''g'' [demo_listener ''a'' 80, demo_listener ''b'' 443])),
          (NamespacedName [] ''h'', demo_update (demo_gateway ''h'' [demo_listener ''a'' 80]))]\<rparr>\<rparr>\<rparr>)"

definition demo_builder :: gateway_builder where
  "demo_builder = \<lparr>portsWithOneListener = [], portsWithMutipleListeners = [], previousPortsWithMutipleListeners = []\<rparr>"

definition demo_result :: "gateway tree_map" where
  "demo_result = Gateways (cst_GateTree (snd (Gateway_ComputeTreeUpdates plain_text (\<lambda>a b. b) (demo_builder, demo_store))))"

lemma demo_run:
  "map (\<lambda>(k, g). (k, gw_Valid (tr_core g), map (\<lambda>(n, l). (n, ls_port (li_K8sResource l), li_Valid l)) (gw_Listeners (tr_core g)))) demo_result
   = [(NamespacedName [] ''g'', True, [(''a'', 80, False), (''b'', 443, True)]),
      (NamespacedName [] ''h'', False, [(''a'', 80, False)])]"
  by code_simp

theorem no_valid_listener_shares_port_witness:
  "\<exists>(g :: gateway tree_res) k8s. map_of demo_result (NamespacedName [] ''g'') = Some g \<and> gw_K8sResource (tr_core g) = Some k8s
     \<and> (\<exists>l :: listener. li_Valid l \<and> port_users demo_result 443
         = [\<lparr>gl_listenerKey = ListenerKey k8s (li_K8sResource l), gl_gatewayKey = NamespacedName [] ''g''\<rparr>])"
proof -
  have inv: "gw_inv demo_store"
    by (simp add: gw_inv_def gws_ok_def demo_store_def empty_controller_store_def NewGateTree_def Let_def)
  have upds: "\<forall>(k, u) \<in> set (updates (cs_Gateways (cst_ClusterStore demo_store))). regular_update (\<lambda>x. meta_key (gwk_meta x)) k u"
    by (simp add: demo_store_def Let_def regular_update_def demo_update_def demo_gateway_def gw_named_def meta_key_def meta0_def)
  obtain g h x l where D: "demo_result = [(NamespacedName [] ''g'', g), (NamespacedName [] ''h'', h)]" "gw_Valid (tr_core g)"
    "gw_Listeners (tr_core g) = [(''a'', x), (''b'', l)]" "li_Valid l" "ls_port (li_K8sResource l) = 443"
    using demo_run by (auto simp: map_eq_Cons_conv)
  have g: "map_of demo_result (NamespacedName [] ''g'') = Some g" unfolding D(1) by simp
  have l: "(''b'', l) \<in> set (gw_Listeners (tr_core g))" unfolding D(3) by simp
  note result = no_valid_listener_shares_port[OF inv upds, of plain_text "\<lambda>a b. b" demo_builder, folded demo_result_def, unfolded Let_def]
  obtain k8s where "gw_K8sResource (tr_core g) = Some k8s" "port_users demo_result (ls_port (li_K8sResource l))
      = [\<lparr>gl_listenerKey = ListenerKey k8s (li_K8sResource l), gl_gatewayKey = NamespacedName [] ''g''\<rparr>]"
    using result[THEN conjunct2, rule_format, OF conjI[OF g conjI[OF D(2) conjI[OF l D(4)]]]] by blast
  then show ?thesis unfolding D(5) using g D(4) by blast
qed

end
