(* ===== verification/CertificateBuilder.thy ===== *)
theory CertificateBuilder
  imports ListenerTree Utils
begin

text \<open>
  \<open>k8s/gate/utils-k8s/supported.go\<close>, \<open>k8s/gate/tree/references_manager.go\<close> and
  \<open>certificate_builder.go\<close>: which secrets the listeners refer to, and the certificate and
  crt-list files that follow from it.

  \<open>None\<close> is a panic (a secret name shorter than two bytes, a nil resource).  The loops are over Go
  maps, whose order Go leaves open; the files written do not depend on it.
  \<open>keepOnlyExistingSecrets\<close> also deletes the discarded keys from the map it is given, which
  its callers do not read again.
\<close>

subsection \<open>Supported references\<close>

definition IsFilterExtensionRefKindSupported :: "local_object_reference option \<Rightarrow> (k8s_object \<Rightarrow> gvk) \<Rightarrow> bool" where
  "IsFilterExtensionRefKindSupported extensionRef extractGVK =
     (let backendGVK = extractGVK (OBackend backend_cr0) in
      case extensionRef of
        None \<Rightarrow> False
      | Some r \<Rightarrow> if \<not> equal_fold (gvk_kind backendGVK) (lref_kind r) then False
                  else if gvk_group backendGVK \<noteq> lref_group r then False else True)"

definition IsFilterExtensionRefKindMergeType :: "local_object_reference option \<Rightarrow> (k8s_object \<Rightarrow> gvk) \<Rightarrow> bool" where
  "IsFilterExtensionRefKindMergeType extensionRef extractGVK =
     (let backendGVK = extractGVK (OBackend backend_cr0) in
      case extensionRef of
        None \<Rightarrow> False
      | Some r \<Rightarrow> if \<not> equal_fold ''MergeType'' (lref_kind r) then False
                  else if gvk_group backendGVK \<noteq> lref_group r then False
                  else if \<not> (equal_fold ''Override'' (lref_name r) \<or> equal_fold ''Append'' (lref_name r)) then False
                  else True)"

definition IsBackendRefGroupKindSupported :: "backend_object_reference \<Rightarrow> (k8s_object \<Rightarrow> gvk) \<Rightarrow> bool" where
  "IsBackendRefGroupKindSupported backendRef extractGVK =
     (let serviceGVK = extractGVK (OService service0) in
      if bref_kind backendRef \<noteq> None \<and> bref_kind backendRef \<noteq> Some (gvk_kind serviceGVK) then False
      else if bref_group backendRef \<noteq> None \<and> bref_group backendRef \<noteq> Some (gvk_group serviceGVK) then False
      else True)"

definition IsParentRefGroupKindSupported :: "parent_reference \<Rightarrow> (k8s_object \<Rightarrow> gvk) \<Rightarrow> bool" where
  "IsParentRefGroupKindSupported parentRef extractGVK =
     (let g = extractGVK (OGateway gateway0) in
      if pref_kind parentRef \<noteq> None \<and> pref_kind parentRef \<noteq> Some (gvk_kind g) then False
      else if pref_group parentRef \<noteq> None \<and> pref_group parentRef \<noteq> Some (gvk_group g) then False
      else True)"

definition IsSecretGroupKindSupported :: "secret_object_reference \<Rightarrow> bool" where
  "IsSecretGroupKindSupported certRef =
     (if sref_kind certRef \<noteq> None \<and> sref_kind certRef \<noteq> Some ''Secret'' then False
      else if sref_group certRef \<noteq> None \<and> sref_group certRef \<noteq> Some [] then False
      else True)"

subsection \<open>The reference manager\<close>

definition needsReferencedSecretsRebuild :: "controller_store \<Rightarrow> bool" where
  "needsReferencedSecretsRebuild b \<longleftrightarrow> length (updates (cs_Gateways (cst_ClusterStore b))) > 0"

definition cleanReferencedObjects :: "controller_store \<Rightarrow> controller_store" where
  "cleanReferencedObjects b =
     (let ro = cst_ReferencedObjects b;
          ro1 = ro\<lparr>PreviousReferencedSecrets := ReferencedBy_DeepCopy (ReferencedSecrets ro)\<rparr>;
          ro2 = (if needsReferencedSecretsRebuild b then ro1\<lparr>ReferencedSecrets := CleanOwners (ReferencedSecrets ro1)\<rparr> else ro1)
      in b\<lparr>cst_ReferencedObjects := ro2\<rparr>)"

definition add_listener_refs :: "gvk \<Rightarrow> gateway_k8s \<Rightarrow> listener_k8s \<Rightarrow> referenced_by \<Rightarrow> referenced_by" where
  "add_listener_refs ownerGVK gw l r =
     (case ls_tls l of
        None \<Rightarrow> r
      | Some certificateRefs \<Rightarrow>
          fold (\<lambda>certRef r. if \<not> IsSecretGroupKindSupported certRef then r
                  else AddReferencedByUsingKeys (GetCertificateRefNamespacedName certRef gw) (ListenerKey gw l) ownerGVK r)
            certificateRefs r)"

definition buildSecretReferences :: "(k8s_object \<Rightarrow> gvk) \<Rightarrow> controller_store \<Rightarrow> controller_store" where
  "buildSecretReferences extractGVK b =
     (if \<not> needsReferencedSecretsRebuild b then b
      else b\<lparr>cst_ReferencedObjects := (cst_ReferencedObjects b)\<lparr>ReferencedSecrets :=
             fold (\<lambda>(_, gw) r. fold (add_listener_refs (extractGVK (OGateway gateway0)) gw) (gwk_listeners gw) r)
               (objects (cs_Gateways (cst_ClusterStore b))) (ReferencedSecrets (cst_ReferencedObjects b))\<rparr>\<rparr>)"

definition UpdateRefences :: "(k8s_object \<Rightarrow> gvk) \<Rightarrow> controller_store \<Rightarrow> controller_store" where
  "UpdateRefences extractGVK b =
     (let b1 = cleanReferencedObjects b in
      if \<not> needsReferencedSecretsRebuild b1 then b1 else buildSecretReferences extractGVK b1)"

subsection \<open>The certificate builder\<close>

text \<open>A loop that may panic.\<close>

primrec foldo :: "('a \<Rightarrow> 's \<Rightarrow> 's option) \<Rightarrow> 'a list \<Rightarrow> 's \<Rightarrow> 's option" where
  "foldo f [] s = Some s"
| "foldo f (x # xs) s = (case f x s of None \<Rightarrow> None | Some s' \<Rightarrow> foldo f xs s')"

type_synonym secret_refs = "(namespaced_name, namespaced_name goset) gomap"

definition handleNewReferencedSecretsStorage ::
    "certificate_storage \<Rightarrow> secret_refs \<Rightarrow> secret_refs \<Rightarrow> controller_store \<Rightarrow> controller_store option" where
  "handleNewReferencedSecretsStorage cs previousRefSecrets newRefSecrets b =
     foldo (\<lambda>nsName b.
        case map_of (Secrets (cst_GateTree b)) nsName of
          None \<Rightarrow> Some b
        | Some secret \<Rightarrow>
            if TreeStatus (tr_status secret) = StatusDeleted then Some b
            else (case se_K8sResource (tr_core secret) of
                    None \<Rightarrow> None
                  | Some k8s \<Rightarrow>
                      (case Storage_NewCertificateData cs k8s of
                         None \<Rightarrow> None
                       | Some (Inl _) \<Rightarrow> Some b
                       | Some (Inr certData) \<Rightarrow> Some (addCreatedCertificate certData b))))
       (map fst (SetDifference newRefSecrets previousRefSecrets)) b"

definition delete_cert :: "certificate_storage \<Rightarrow> namespaced_name \<Rightarrow> controller_store \<Rightarrow> controller_store option" where
  "delete_cert cs nsName b =
     (case CertPath cs nsName of
        None \<Rightarrow> None
      | Some certPath \<Rightarrow> Some (addDeletedCertificate (NewCertificateData certPath []) b))"

definition handleDeReferencedSecretsStorage ::
    "certificate_storage \<Rightarrow> secret_refs \<Rightarrow> secret_refs \<Rightarrow> controller_store \<Rightarrow> controller_store option" where
  "handleDeReferencedSecretsStorage cs previousRefSecrets newRefSecrets b =
     foldo (delete_cert cs) (map fst (SetDifference previousRefSecrets newRefSecrets)) b"

definition handleUpdatedSecretsStorage ::
    "certificate_storage \<Rightarrow> secret_refs \<Rightarrow> secret_refs \<Rightarrow> controller_store \<Rightarrow> controller_store option" where
  "handleUpdatedSecretsStorage cs previousRefSecrets newRefSecrets b =
     foldo (\<lambda>secretKey b.
        case map_of (updates (cs_Secrets (cst_ClusterStore b))) secretKey of
          None \<Rightarrow> Some b
        | Some secretUpdate \<Rightarrow>
            (case Status secretUpdate of
               StatusUpserted \<Rightarrow>
                 (case NewObject secretUpdate of
                    None \<Rightarrow> None
                  | Some k8s \<Rightarrow>
                      (case Storage_NewCertificateData cs k8s of
                         None \<Rightarrow> None
                       | Some (Inl _) \<Rightarrow> Some b
                       | Some (Inr certData) \<Rightarrow>
                           Some (if OldObject secretUpdate = None then addCreatedCertificate certData b
                                 else addUpdatedCertificate certData b)))
             | StatusDeleted \<Rightarrow> delete_cert cs secretKey b
             | StatusUnchanged \<Rightarrow> Some b))
       (map fst (SetIntersection previousRefSecrets newRefSecrets)) b"

subsection \<open>crt-lists\<close>

definition secretsPerGatewayListener :: "secret_refs \<Rightarrow> secret_refs" where
  "secretsPerGatewayListener gatewaysPerSecret =
     fold (\<lambda>(secretKey, gateways) acc.
        fold (\<lambda>(gatewayKey, _) acc. mput gatewayKey (sput secretKey (map_get_default [] acc gatewayKey)) acc) gateways acc)
       gatewaysPerSecret []"

definition keepOnlyExistingSecrets :: "secret tree_map \<Rightarrow> namespaced_name goset \<Rightarrow> namespaced_name goset" where
  "keepOnlyExistingSecrets secrets secretKeys =
     fold (\<lambda>(secretKey, _) res.
        case map_of secrets secretKey of
          None \<Rightarrow> res
        | Some s \<Rightarrow> if TreeStatus (tr_status s) = StatusDeleted then res else sput secretKey res) secretKeys []"

definition handleNewReferencedCrtList ::
    "certificate_storage \<Rightarrow> secret_refs \<Rightarrow> secret_refs \<Rightarrow> controller_store \<Rightarrow> controller_store option" where
  "handleNewReferencedCrtList cs previousSecrets newSecrets b =
     foldo (\<lambda>listenerKey b.
        let filteredSecretKeys = keepOnlyExistingSecrets (Secrets (cst_GateTree b)) (map_get_default [] newSecrets listenerKey)
        in map_option (\<lambda>d. addCreatedCrtList d b) (Storage_NewCrtListData cs listenerKey filteredSecretKeys))
       (map fst (SetDifference newSecrets previousSecrets)) b"

definition handleDeReferencedCrtList ::
    "certificate_storage \<Rightarrow> secret_refs \<Rightarrow> secret_refs \<Rightarrow> controller_store \<Rightarrow> controller_store option" where
  "handleDeReferencedCrtList cs previousSecrets newSecrets b =
     foldo (\<lambda>listenerKey b. map_option (\<lambda>d. addDeletedCrtList d b) (Storage_NewCrtListData cs listenerKey []))
       (map fst (SetDifference previousSecrets newSecrets)) b"

definition unchanged_ref_step ::
    "secret tree_map \<Rightarrow> namespaced_name \<Rightarrow> namespaced_name goset \<times> bool \<Rightarrow> namespaced_name goset \<times> bool" where
  "unchanged_ref_step secrets secretKey st =
     (let (secretKeys, crtlistUpdated) = st in
      case map_of secrets secretKey of
        None \<Rightarrow> (secretKeys, crtlistUpdated)
      | Some treeSecret \<Rightarrow>
          if TreeStatus (tr_status treeSecret) = StatusUpserted then (sput secretKey secretKeys, True)
          else if TreeStatus (tr_status treeSecret) = StatusDeleted then (secretKeys, True)
          else (sput secretKey secretKeys, crtlistUpdated))"

definition crt_list_content ::
    "secret tree_map \<Rightarrow> namespaced_name goset \<Rightarrow> namespaced_name goset \<Rightarrow> namespaced_name goset \<times> bool" where
  "crt_list_content secrets previousSecretRefKeys newSecretRefKeys =
     (let added = SetDifference newSecretRefKeys previousSecretRefKeys;
          unchanged = SetIntersection newSecretRefKeys previousSecretRefKeys;
          removed = SetDifference previousSecretRefKeys newSecretRefKeys;
          secretKeys0 = fold (\<lambda>(k, _) s. sput k s) added [];
          secretKeys1 = keepOnlyExistingSecrets secrets secretKeys0;
          (secretKeys2, upd2) = fold (unchanged_ref_step secrets) (map fst unchanged) (secretKeys1, length secretKeys1 \<noteq> 0)
      in (secretKeys2, upd2 \<or> length removed \<noteq> 0))"

definition handleUpdatedCrtList ::
    "certificate_storage \<Rightarrow> secret_refs \<Rightarrow> secret_refs \<Rightarrow> controller_store \<Rightarrow> controller_store option" where
  "handleUpdatedCrtList cs previousSecrets newSecrets b =
     foldo (\<lambda>listenerKey b.
        let (secretKeys, crtlistUpdated) = crt_list_content (Secrets (cst_GateTree b))
               (map_get_default [] previousSecrets listenerKey) (map_get_default [] newSecrets listenerKey)
        in if crtlistUpdated then
             (if length secretKeys \<noteq> 0
              then map_option (\<lambda>d. addUpdatedCrtList d b) (Storage_NewCrtListData cs listenerKey secretKeys)
              else map_option (\<lambda>d. addDeletedCrtList d b) (Storage_NewCrtListData cs listenerKey []))
           else Some b)
       (map fst (SetIntersection previousSecrets newSecrets)) b"

definition handleCrtList ::
    "certificate_storage \<Rightarrow> secret_refs \<Rightarrow> secret_refs \<Rightarrow> controller_store \<Rightarrow> controller_store option" where
  "handleCrtList cs previousRefSecrets newRefSecrets b =
     (let previousByListener = secretsPerGatewayListener previousRefSecrets;
          newByListener = secretsPerGatewayListener newRefSecrets in
      case handleNewReferencedCrtList cs previousByListener newByListener b of
        None \<Rightarrow> None
      | Some b1 \<Rightarrow> (case handleDeReferencedCrtList cs previousByListener newByListener b1 of
                      None \<Rightarrow> None
                    | Some b2 \<Rightarrow> handleUpdatedCrtList cs previousByListener newByListener b2))"

definition computeCertificateDiffs ::
    "(k8s_object \<Rightarrow> gvk) \<Rightarrow> certificate_storage \<Rightarrow> controller_store \<Rightarrow> controller_store option" where
  "computeCertificateDiffs extractGVK cs b =
     (let g = extractGVK (OGateway gateway0);
          current = AllReferenced (ReferencedSecrets (cst_ReferencedObjects b)) g;
          previous = AllReferenced (PreviousReferencedSecrets (cst_ReferencedObjects b)) g in
      case handleNewReferencedSecretsStorage cs previous current b of
        None \<Rightarrow> None
      | Some b1 \<Rightarrow> (case handleDeReferencedSecretsStorage cs previous current b1 of
            None \<Rightarrow> None
          | Some b2 \<Rightarrow> (case handleUpdatedSecretsStorage cs previous current b2 of
                None \<Rightarrow> None
              | Some b3 \<Rightarrow> handleCrtList cs previous current b3)))"

record file_system =
  fs_write :: "string \<Rightarrow> bool"
  fs_create :: "string \<Rightarrow> write_outcome"
  fs_remove :: "string \<Rightarrow> bool"

definition ensureCertificatesStorage :: "file_system \<Rightarrow> controller_store \<Rightarrow> disk \<Rightarrow> disk" where
  "ensureCertificatesStorage io b d =
     (let cu = cst_CertUpdates b; lu = cst_CrtListUpdates b;
          d1 = fold (\<lambda>(_, c) d. snd (WriteOnDisk (fs_write io) c d)) (su_Created cu) d;
          d2 = fold (\<lambda>(_, c) d. snd (WriteOnDisk (fs_write io) c d)) (su_Updated cu) d1;
          d3 = fold (\<lambda>(_, c) d. snd (DeleteFromDisk (fs_remove io) c d)) (su_Deleted cu) d2;
          d4 = fold (\<lambda>(_, l) d. snd (WriteCrtListOnDisk (fs_create io) l d)) (su_Created lu) d3;
          d5 = fold (\<lambda>(_, l) d. snd (WriteCrtListOnDisk (fs_create io) l d)) (su_Updated lu) d4
      in fold (\<lambda>(_, l) d. snd (DeleteCrtListFromDisk (fs_remove io) l d)) (su_Deleted lu) d5)"

definition Certificate_ComputeTreeUpdates ::
    "(k8s_object \<Rightarrow> gvk) \<Rightarrow> certificate_storage \<Rightarrow> bool \<Rightarrow> file_system \<Rightarrow> controller_store \<Rightarrow> disk \<Rightarrow> (controller_store \<times> disk) option" where
  "Certificate_ComputeTreeUpdates extractGVK cs storeCertificateOnDisk io b d =
     (case computeCertificateDiffs extractGVK cs b of
        None \<Rightarrow> None
      | Some b' \<Rightarrow> Some (b', if storeCertificateOnDisk then ensureCertificatesStorage io b' d else d))"

end
