(* ===== verification/StoredFiles.thy ===== *)
theory StoredFiles
  imports TreeCore
begin

text \<open>
  The contract behind the update maps of the controller store (\<open>CertUpdates\<close> and
  \<open>CrtListUpdates\<close> of \<open>k8s/gate/tree/controller_store.go\<close>): one operation per key is
  recorded in three maps, and writing the created and updated entries and then removing the deleted
  ones performs exactly these operations on the files.  The locale \<open>stored_files\<close> is
  interpreted for certificates and for crt-lists in \<open>CertificateFiles\<close>.
\<close>

datatype 'd file_op = NoOp | Create 'd | Update 'd | Remove 'd

fun record_op :: "('d \<Rightarrow> string) \<Rightarrow> 'd file_op \<Rightarrow> 'd storage_updates \<Rightarrow> 'd storage_updates" where
  "record_op key NoOp u = u"
| "record_op key (Create d) u = u\<lparr>su_Created := mput (key d) d (su_Created u)\<rparr>"
| "record_op key (Update d) u = u\<lparr>su_Updated := mput (key d) d (su_Updated u)\<rparr>"
| "record_op key (Remove d) u = u\<lparr>su_Deleted := mput (key d) d (su_Deleted u)\<rparr>"

fun op_data :: "'d file_op \<Rightarrow> 'd option" where
  "op_data NoOp = None"
| "op_data (Create d) = Some d"
| "op_data (Update d) = Some d"
| "op_data (Remove d) = Some d"

definition sync_files :: "('d \<Rightarrow> disk \<Rightarrow> disk) \<Rightarrow> ('d \<Rightarrow> disk \<Rightarrow> disk) \<Rightarrow> 'd storage_updates \<Rightarrow> disk \<Rightarrow> disk" where
  "sync_files put_file del_file u d =
     fold (\<lambda>(_, c). del_file c) (su_Deleted u) (fold (\<lambda>(_, c). put_file c) (su_Updated u) (fold (\<lambda>(_, c). put_file c) (su_Created u) d))"

text \<open>What the maps hold after recording one operation per key.\<close>

lemma recorded:
  fixes oper :: "'k \<Rightarrow> 'd file_op"
  assumes "\<And>k d. k \<in> set ks \<Longrightarrow> op_data (oper k) = Some d \<Longrightarrow> key d = F k" "inj_on F (set ks)"
  defines "u \<equiv> fold (record_op key) (map oper ks) storage_updates0"
  shows "map_of (su_Created u) f = Some d \<longleftrightarrow> (\<exists>k \<in> set ks. oper k = Create d \<and> F k = f)"
    and "map_of (su_Updated u) f = Some d \<longleftrightarrow> (\<exists>k \<in> set ks. oper k = Update d \<and> F k = f)"
    and "map_of (su_Deleted u) f = Some d \<longleftrightarrow> (\<exists>k \<in> set ks. oper k = Remove d \<and> F k = f)"
    and "wf_map (su_Created u) \<and> wf_map (su_Updated u) \<and> wf_map (su_Deleted u)"
proof -
  define P where "P ks u \<longleftrightarrow> (wf_map (su_Created u) \<and> wf_map (su_Updated u) \<and> wf_map (su_Deleted u))
     \<and> (\<forall>f d. map_of (su_Created u) f = Some d \<longleftrightarrow> (\<exists>k \<in> set ks. oper k = Create d \<and> F k = f))
     \<and> (\<forall>f d. map_of (su_Updated u) f = Some d \<longleftrightarrow> (\<exists>k \<in> set ks. oper k = Update d \<and> F k = f))
     \<and> (\<forall>f d. map_of (su_Deleted u) f = Some d \<longleftrightarrow> (\<exists>k \<in> set ks. oper k = Remove d \<and> F k = f))"
    for ks and u :: "'d storage_updates"
  have "P ks (fold (record_op key) (map oper ks) storage_updates0)"
    using assms(1,2)
  proof (induction ks rule: rev_induct)
    case Nil show ?case by (simp add: P_def storage_updates0_def)
  next
    case (snoc k ks)
    let ?u = "fold (record_op key) (map oper ks) storage_updates0"
    have IH: "P ks ?u" using snoc.prems by (intro snoc.IH) (auto simp: inj_on_def)
    have inj: "j \<in> set ks \<Longrightarrow> F j = F k \<Longrightarrow> j = k" for j using snoc.prems(2) by (auto simp: inj_on_def)
    have "op_data (oper k) = Some d \<Longrightarrow> key d = F k" for d using snoc.prems(1) by simp
    then show ?case using IH inj by (cases "oper k") (auto simp: P_def wf_mput map_of_mput dest: inj)
  qed
  then show "map_of (su_Created u) f = Some d \<longleftrightarrow> (\<exists>k \<in> set ks. oper k = Create d \<and> F k = f)"
    "map_of (su_Updated u) f = Some d \<longleftrightarrow> (\<exists>k \<in> set ks. oper k = Update d \<and> F k = f)"
    "map_of (su_Deleted u) f = Some d \<longleftrightarrow> (\<exists>k \<in> set ks. oper k = Remove d \<and> F k = f)"
    "wf_map (su_Created u) \<and> wf_map (su_Updated u) \<and> wf_map (su_Deleted u)"
    unfolding P_def u_def by blast+
qed

locale stored_files =
  fixes fpath :: "'d \<Rightarrow> string" and text_of :: "'d \<Rightarrow> string"
    and put_file :: "'d \<Rightarrow> disk \<Rightarrow> disk" and del_file :: "'d \<Rightarrow> disk \<Rightarrow> disk"
  assumes map_of_write: "map_of (put_file x d) = (map_of d)(fpath x \<mapsto> text_of x)"
    and map_of_remove: "map_of (del_file x d) = (map_of d)(fpath x := None)"
begin

lemma fold_write_out: "\<forall>x \<in> set m. fpath (snd x) \<noteq> p \<Longrightarrow> map_of (fold (\<lambda>(_, c). put_file c) m d) p = map_of d p"
  by (induction m arbitrary: d) (auto simp: map_of_write)

lemma fold_write_in:
  assumes "(f, x) \<in> set m" "\<And>g y. (g, y) \<in> set m \<Longrightarrow> fpath y = fpath x \<Longrightarrow> y = x"
  shows "map_of (fold (\<lambda>(_, c). put_file c) m d) (fpath x) = Some (text_of x)"
  using assms
proof (induction m arbitrary: d f)
  case (Cons a m)
  show ?case
  proof (cases "\<exists>g. (g, x) \<in> set m")
    case True
    then show ?thesis using Cons by (cases a) auto
  next
    case False
    then have a: "a = (f, x)" using Cons.prems(1) by auto
    have "\<forall>y \<in> set m. fpath (snd y) \<noteq> fpath x" using Cons.prems(2) False by (metis list.set_intros(2) prod.collapse)
    then show ?thesis using fold_write_out[of m "fpath x" "put_file x d"] by (simp add: a map_of_write)
  qed
qed simp

lemma fold_remove:
  "map_of (fold (\<lambda>(_, c). del_file c) m d) p = (if \<exists>x \<in> set m. fpath (snd x) = p then None else map_of d p)"
  by (induction m arbitrary: d) (auto simp: map_of_remove)

text \<open>The operations of all keys take effect, and no other file changes.\<close>

lemma sync_effect:
  fixes oper :: "'k \<Rightarrow> 'd file_op" and d :: disk
  assumes data: "\<And>k x. k \<in> set ks \<Longrightarrow> op_data (oper k) = Some x \<Longrightarrow> key x = F k \<and> fpath x = P k"
    and inj: "inj_on F (set ks)" "inj_on P (set ks)"
  defines "d' \<equiv> sync_files put_file del_file (fold (record_op key) (map oper ks) storage_updates0) d"
  shows "j \<in> set ks \<Longrightarrow> map_of d' (P j) = (case oper j of NoOp \<Rightarrow> map_of d (P j) | Create x \<Rightarrow> Some (text_of x)
            | Update x \<Rightarrow> Some (text_of x) | Remove x \<Rightarrow> None)"
    and "p \<notin> P ` set ks \<Longrightarrow> map_of d' p = map_of d p"
proof -
  define u where "u = fold (record_op key) (map oper ks) storage_updates0"
  have rec: "map_of (su_Created u) f = Some x \<longleftrightarrow> (\<exists>k \<in> set ks. oper k = Create x \<and> F k = f)"
    "map_of (su_Updated u) f = Some x \<longleftrightarrow> (\<exists>k \<in> set ks. oper k = Update x \<and> F k = f)"
    "map_of (su_Deleted u) f = Some x \<longleftrightarrow> (\<exists>k \<in> set ks. oper k = Remove x \<and> F k = f)"
    "wf_map (su_Created u) \<and> wf_map (su_Updated u) \<and> wf_map (su_Deleted u)" for f x
    unfolding u_def using recorded[of ks oper key F, OF _ inj(1)] data by simp_all
  have mem: "(f, x) \<in> set (su_Created u) \<longleftrightarrow> (\<exists>k \<in> set ks. oper k = Create x \<and> F k = f)"
    "(f, x) \<in> set (su_Updated u) \<longleftrightarrow> (\<exists>k \<in> set ks. oper k = Update x \<and> F k = f)"
    "(f, x) \<in> set (su_Deleted u) \<longleftrightarrow> (\<exists>k \<in> set ks. oper k = Remove x \<and> F k = f)" for f x
    using rec(4) by (simp_all add: map_of_wf_mem rec(1-3))
  have fp: "k \<in> set ks \<Longrightarrow> oper k = Create x \<or> oper k = Update x \<or> oper k = Remove x \<Longrightarrow> fpath x = P k" for k x
    using data[of k x] by auto
  have same: "k \<in> set ks \<Longrightarrow> k' \<in> set ks \<Longrightarrow> P k = P k' \<Longrightarrow> k = k'" for k k' using inj(2) by (auto simp: inj_on_def)
  define d1 where "d1 = fold (\<lambda>(_, c). put_file c) (su_Created u) d"
  define d2 where "d2 = fold (\<lambda>(_, c). put_file c) (su_Updated u) d1"
  have d': "d' = fold (\<lambda>(_, c). del_file c) (su_Deleted u) d2"
    by (simp add: d'_def sync_files_def u_def[symmetric] d1_def d2_def)
  have out1: "map_of d1 p = map_of d p" if "\<And>k x. k \<in> set ks \<Longrightarrow> oper k = Create x \<Longrightarrow> P k \<noteq> p" for p
    unfolding d1_def by (rule fold_write_out) (use mem(1) that fp in force)
  have out2: "map_of d2 p = map_of d1 p" if "\<And>k x. k \<in> set ks \<Longrightarrow> oper k = Update x \<Longrightarrow> P k \<noteq> p" for p
    unfolding d2_def by (rule fold_write_out) (use mem(2) that fp in force)
  have out3: "map_of d' p = map_of d2 p" if "\<And>k x. k \<in> set ks \<Longrightarrow> oper k = Remove x \<Longrightarrow> P k \<noteq> p" for p
    unfolding d' fold_remove using mem(3) that fp by force
  show "p \<notin> P ` set ks \<Longrightarrow> map_of d' p = map_of d p" using out1 out2 out3 by (metis imageI)
  assume j: "j \<in> set ks"
  show "map_of d' (P j) = (case oper j of NoOp \<Rightarrow> map_of d (P j) | Create x \<Rightarrow> Some (text_of x)
            | Update x \<Rightarrow> Some (text_of x) | Remove x \<Rightarrow> None)"
  proof (cases "oper j")
    case NoOp
    then show ?thesis using out1[of "P j"] out2[of "P j"] out3[of "P j"] same[OF _ j] by force
  next
    case (Create x)
    have "map_of d1 (fpath x) = Some (text_of x)" unfolding d1_def
      by (rule fold_write_in[of "F j"]) (use mem(1) j Create fp same in force)+
    then show ?thesis using Create out2[of "P j"] out3[of "P j"] same[OF _ j] fp[OF j] by force
  next
    case (Update x)
    have "map_of d2 (fpath x) = Some (text_of x)" unfolding d2_def
      by (rule fold_write_in[of "F j"]) (use mem(2) j Update fp same in force)+
    then show ?thesis using Update out3[of "P j"] same[OF _ j] fp[OF j] by force
  next
    case (Remove x)
    then show ?thesis unfolding d' fold_remove using mem(3) j fp[OF j] by force
  qed
qed

end

end
