(* ===== verification/CertificateFiles.thy ===== *)
theory CertificateFiles
  imports CertificateBuilder StoredFiles
begin

text \<open>
  The files that the certificate builder (\<open>certificate_builder.go\<close>) leaves on disk: after
  every cycle exactly the certificates of the existing secrets that a listener refers to, and one
  crt-list per listener that names exactly these certificates.  File operations are assumed to
  succeed (\<open>io_ok\<close>).
\<close>

subsection \<open>File names\<close>

definition good_owner :: "namespaced_name \<Rightarrow> bool" where
  "good_owner k \<longleftrightarrow> CHR ''_'' \<notin> set (nn_namespace k) \<and> CHR ''/'' \<notin> set (nn_namespace k) \<and> CHR ''/'' \<notin> set (nn_name k)"

definition good_key :: "namespaced_name \<Rightarrow> bool" where
  "good_key k \<longleftrightarrow> good_owner k \<and> length (nn_name k) \<ge> 2"

definition cert_path :: "certificate_storage \<Rightarrow> namespaced_name \<Rightarrow> file_path" where
  "cert_path cs k = the (CertPath cs k)"

definition cert_file :: "certificate_storage \<Rightarrow> namespaced_name \<Rightarrow> string" where
  "cert_file cs k = FullPath (cert_path cs k)"

definition list_file :: "certificate_storage \<Rightarrow> namespaced_name \<Rightarrow> string" where
  "list_file cs w = FullPath (CertListPath cs w)"

lemma CertPath_good: "good_key k \<Longrightarrow> CertPath cs k = Some (cert_path cs k)"
  by (simp add: good_key_def cert_path_def CertPath_def)

lemma cert_path_name: "good_key k \<Longrightarrow> fp_FileName (cert_path cs k) = nn_namespace k @ ''_'' @ nn_name k @ ''.pem''"
  by (simp add: good_key_def cert_path_def CertPath_def)

lemma base_FullPath:
  assumes "plain_name (fp_FileName fp)"
  shows "base_name (FullPath fp) = fp_FileName fp"
proof -
  obtain P where "path_join [fp_Dir fp, fp_FileName fp] = P @ fp_FileName fp" "P = [] \<or> last P = CHR ''/''"
    using path_join_prefix[of "fp_Dir fp"] assms by blast
  then show ?thesis using base_name_prefix[of "fp_FileName fp" P] assms by (simp add: FullPath_def plain_name_def)
qed

lemma base_cert_file: "good_key k \<Longrightarrow> base_name (cert_file cs k) = nn_namespace k @ ''_'' @ nn_name k @ ''.pem''"
  unfolding cert_file_def by (subst base_FullPath) (auto simp: cert_path_name plain_name_def good_key_def good_owner_def)

lemma base_list_file: "good_owner w \<Longrightarrow> base_name (list_file cs w) = nn_namespace w @ ''_'' @ nn_name w @ ''.list''"
  unfolding list_file_def by (subst base_FullPath) (auto simp: CertListPath_def plain_name_def good_owner_def)

lemma cert_file_inj: "good_key a \<Longrightarrow> good_key b \<Longrightarrow> cert_file cs a = cert_file cs b \<Longrightarrow> a = b"
  using base_cert_file[of a cs] base_cert_file[of b cs] underscore_file_inj[of a b "''.pem''"]
  by (simp add: good_key_def good_owner_def)

lemma list_file_inj: "good_owner a \<Longrightarrow> good_owner b \<Longrightarrow> list_file cs a = list_file cs b \<Longrightarrow> a = b"
  using base_list_file[of a cs] base_list_file[of b cs] underscore_file_inj[of a b "''.list''"]
  by (simp add: good_owner_def)

lemma cert_file_not_list:
  assumes "good_key k" "good_owner w" shows "cert_file cs k \<noteq> list_file cs w"
proof
  assume "cert_file cs k = list_file cs w"
  then have "nn_namespace k @ ''_'' @ nn_name k @ ''.pem'' = nn_namespace w @ ''_'' @ nn_name w @ ''.list''"
    using base_cert_file[OF assms(1), of cs] base_list_file[OF assms(2), of cs] by simp
  then have "last (nn_namespace k @ ''_'' @ nn_name k @ ''.pem'') = last (nn_namespace w @ ''_'' @ nn_name w @ ''.list'')" by simp
  then show False by simp
qed

subsection \<open>The operations are recorded and performed\<close>

definition io_ok :: file_system where
  "io_ok = \<lparr>fs_write = (\<lambda>_. True), fs_create = (\<lambda>_. Written), fs_remove = (\<lambda>_. True)\<rparr>"

lemma map_of_remove_file: "map_of (snd (remove_file (\<lambda>_. True) p d)) = (map_of d)(p := None)"
  by (auto simp: remove_file_def mhas_iff map_of_mdel map_of_None_mkeys[symmetric])

lemma map_of_write_cert: "map_of (snd (WriteOnDisk (\<lambda>_. True) c d)) = (map_of d)(FullPath (cd_Path c) \<mapsto> cd_Data c)"
  by (auto simp: WriteOnDisk_def Let_def map_of_mput)

lemma map_of_write_list:
  "map_of (snd (WriteCrtListOnDisk (\<lambda>_. Written) l d)) = (map_of d)(FullPath (cl_Path l) \<mapsto> crt_list_text l)"
  by (auto simp: WriteCrtListOnDisk_def Let_def map_of_mput)

interpretation cert_store: stored_files "\<lambda>c. FullPath (cd_Path c)" cd_Data
    "\<lambda>c d. snd (WriteOnDisk (\<lambda>_. True) c d)" "\<lambda>c d. snd (DeleteFromDisk (\<lambda>_. True) c d)"
  by unfold_locales (simp_all add: map_of_write_cert DeleteFromDisk_def map_of_remove_file)

interpretation list_store: stored_files "\<lambda>l. FullPath (cl_Path l)" crt_list_text
    "\<lambda>l d. snd (WriteCrtListOnDisk (\<lambda>_. Written) l d)" "\<lambda>l d. snd (DeleteCrtListFromDisk (\<lambda>_. True) l d)"
  by unfold_locales (simp_all add: map_of_write_list DeleteCrtListFromDisk_def map_of_remove_file)

lemma ensure_sync:
  "ensureCertificatesStorage io_ok b d =
     sync_files (\<lambda>l d. snd (WriteCrtListOnDisk (\<lambda>_. Written) l d)) (\<lambda>l d. snd (DeleteCrtListFromDisk (\<lambda>_. True) l d))
       (cst_CrtListUpdates b)
       (sync_files (\<lambda>c d. snd (WriteOnDisk (\<lambda>_. True) c d)) (\<lambda>c d. snd (DeleteFromDisk (\<lambda>_. True) c d)) (cst_CertUpdates b) d)"
  by (simp add: ensureCertificatesStorage_def sync_files_def io_ok_def Let_def)

definition note_cert :: "certificate_data file_op \<Rightarrow> controller_store \<Rightarrow> controller_store" where
  "note_cert x b = b\<lparr>cst_CertUpdates := record_op CertificateData_MapKey x (cst_CertUpdates b)\<rparr>"

definition note_list :: "crt_list_data file_op \<Rightarrow> controller_store \<Rightarrow> controller_store" where
  "note_list x b = b\<lparr>cst_CrtListUpdates := record_op CrtListData_MapKey x (cst_CrtListUpdates b)\<rparr>"

lemma note_cert_simps:
  "addCreatedCertificate c b = note_cert (Create c) b" "addUpdatedCertificate c b = note_cert (Update c) b"
  "addDeletedCertificate c b = note_cert (Remove c) b" "note_cert NoOp b = b"
  by (simp_all add: note_cert_def addCreatedCertificate_def addUpdatedCertificate_def addDeletedCertificate_def)

lemma note_list_simps:
  "addCreatedCrtList c b = note_list (Create c) b" "addUpdatedCrtList c b = note_list (Update c) b"
  "addDeletedCrtList c b = note_list (Remove c) b" "note_list NoOp b = b"
  by (simp_all add: note_list_def addCreatedCrtList_def addUpdatedCrtList_def addDeletedCrtList_def)

lemma note_fields [simp]:
  "cst_GateTree (note_cert x b) = cst_GateTree b" "cst_ClusterStore (note_cert x b) = cst_ClusterStore b"
  "cst_GateTree (note_list y b) = cst_GateTree b" "cst_ClusterStore (note_list y b) = cst_ClusterStore b"
  "cst_CrtListUpdates (note_cert x b) = cst_CrtListUpdates b" "cst_CertUpdates (note_list y b) = cst_CertUpdates b"
  by (simp_all add: note_cert_def note_list_def)

text \<open>A loop whose steps record one operation per key, computed from the trees and the store.\<close>

definition same_world :: "controller_store \<Rightarrow> controller_store \<Rightarrow> bool" where
  "same_world b b' \<longleftrightarrow> cst_GateTree b' = cst_GateTree b \<and> cst_ClusterStore b' = cst_ClusterStore b
     \<and> cst_UnmanagedGateTree b' = cst_UnmanagedGateTree b \<and> cst_InstalledGwAPIVersions b' = cst_InstalledGwAPIVersions b
     \<and> cst_ControllerName b' = cst_ControllerName b"

lemma same_world_refl: "same_world b b" by (simp add: same_world_def)

lemma foldo_notes:
  assumes "\<And>k b'. k \<in> set ks \<Longrightarrow> same_world b b' \<Longrightarrow> f k b' = Some (note (oper k) b')"
    and "\<And>x b'. same_world b b' \<Longrightarrow> same_world b (note x b')" "same_world b b'"
  shows "foldo f ks b' = Some (fold note (map oper ks) b') \<and> same_world b (fold note (map oper ks) b')"
  using assms by (induction ks arbitrary: b') auto

lemma fold_note_cert:
  "fold note_cert xs b = b\<lparr>cst_CertUpdates := fold (record_op CertificateData_MapKey) xs (cst_CertUpdates b)\<rparr>"
  by (induction xs arbitrary: b) (simp_all add: note_cert_def)

lemma fold_note_list:
  "fold note_list xs b = b\<lparr>cst_CrtListUpdates := fold (record_op CrtListData_MapKey) xs (cst_CrtListUpdates b)\<rparr>"
  by (induction xs arbitrary: b) (simp_all add: note_list_def)

lemma same_world_note: "same_world b b' \<Longrightarrow> same_world b (note_cert x b')" "same_world b b' \<Longrightarrow> same_world b (note_list y b')"
  by (simp_all add: same_world_def note_cert_def note_list_def)

subsection \<open>References as relations\<close>

definition refs_of :: "secret_refs \<Rightarrow> (namespaced_name \<times> namespaced_name) set" where
  "refs_of m = {(k, w). w \<in> mkeys (map_get_default [] m k)}"

definition refs_wf :: "secret_refs \<Rightarrow> bool" where
  "refs_wf m \<longleftrightarrow> wf_map m \<and> (\<forall>k s. map_of m k = Some s \<longrightarrow> wf_map s \<and> s \<noteq> [])"

lemma mkeys_ne: "s \<noteq> [] \<longleftrightarrow> mkeys s \<noteq> {}"
  by (cases s) (auto simp: mkeys_def)

lemma mkeys_refs: "refs_wf m \<Longrightarrow> mkeys m = Domain (refs_of m)"
proof -
  assume wf: "refs_wf m"
  have "k \<in> mkeys m \<longleftrightarrow> (\<exists>w. w \<in> mkeys (map_get_default [] m k))" for k
  proof (cases "map_of m k")
    case None
    then show ?thesis using map_of_None_mkeys[of m k] by (simp add: map_get_default_def)
  next
    case (Some s)
    then have "k \<in> mkeys m" "s \<noteq> []" using wf map_of_None_mkeys[of m k] by (auto simp: refs_wf_def)
    then show ?thesis using Some mkeys_ne[of s] by (auto simp: map_get_default_def)
  qed
  then show ?thesis by (auto simp: refs_of_def Domain_iff)
qed

lemma refs_default_wf: "refs_wf m \<Longrightarrow> wf_map (map_get_default [] m k)"
  by (cases "map_of m k") (auto simp: refs_wf_def map_get_default_def)

lemma refs_add:
  "refs_of (mput w (sput k (map_get_default [] m w)) m) = insert (w, k) (refs_of m)"
  by (auto simp: refs_of_def split: if_splits)

lemma refs_wf_add: "refs_wf m \<Longrightarrow> refs_wf (mput w (sput k (map_get_default [] m w)) m)"
  using refs_default_wf[of m w] by (auto simp: refs_wf_def wf_mput map_of_mput wf_sput)

lemma secretsPer_refs:
  assumes "refs_wf m"
  shows "refs_wf (secretsPerGatewayListener m) \<and> refs_of (secretsPerGatewayListener m) = (refs_of m)\<inverse>"
proof -
  have inner: "refs_wf acc \<Longrightarrow>
      refs_wf (fold (\<lambda>(gatewayKey, _) acc. mput gatewayKey (sput k (map_get_default [] acc gatewayKey)) acc) s acc)
      \<and> refs_of (fold (\<lambda>(gatewayKey, _) acc. mput gatewayKey (sput k (map_get_default [] acc gatewayKey)) acc) s acc)
        = (\<lambda>w. (w, k)) ` mkeys s \<union> refs_of acc" for s :: "namespaced_name goset" and k acc
    by (induction s arbitrary: acc) (auto simp: refs_add refs_wf_add)
  let ?f = "\<lambda>(secretKey, gateways) acc.
        fold (\<lambda>(gatewayKey, _) acc. mput gatewayKey (sput secretKey (map_get_default [] acc gatewayKey)) acc) gateways acc"
  have "refs_wf acc \<Longrightarrow> refs_wf (fold ?f m acc) \<and> refs_of (fold ?f m acc) = (\<Union>(k, s) \<in> set m. (\<lambda>w. (w, k)) ` mkeys s) \<union> refs_of acc" for acc
  proof (induction m arbitrary: acc)
    case (Cons x m)
    show ?case using Cons.IH[of "?f x acc"] inner[OF Cons.prems, of "fst x" "snd x"] by (cases x) auto
  qed simp
  moreover have "(\<Union>(k, s) \<in> set m. (\<lambda>w. (w, k)) ` mkeys s) = (refs_of m)\<inverse>"
  proof -
    have "(w, k) \<in> (\<Union>(k, s) \<in> set m. (\<lambda>w. (w, k)) ` mkeys s) \<longleftrightarrow> (\<exists>s. map_of m k = Some s \<and> w \<in> mkeys s)" for w k
      using assms by (auto simp: refs_wf_def map_of_wf_mem[symmetric])
    moreover have "(\<exists>s. map_of m k = Some s \<and> w \<in> mkeys s) \<longleftrightarrow> (k, w) \<in> refs_of m" for w k
      by (cases "map_of m k") (auto simp: refs_of_def map_get_default_def)
    ultimately show ?thesis by (intro set_eqI) (metis (no_types, lifting) converse_iff surj_pair)
  qed
  moreover have "refs_wf []" "refs_of [] = {}" by (simp_all add: refs_wf_def refs_of_def map_get_default_def)
  ultimately show ?thesis by (simp add: secretsPerGatewayListener_def)
qed

lemma AllReferenced_refs:
  assumes "ref_inv r"
  shows "refs_wf (AllReferenced r g) \<and> refs_of (AllReferenced r g) = {(k, w). (k, g, w) \<in> ref_rel r}"
proof -
  have wf: "wf_map (rb_Owner r)" using assms by (simp add: ref_inv_def)
  have "wf_map (AllReferenced r g)" unfolding AllReferenced_def
    by (rule fold_invariant_all) (auto simp: Let_def intro: wf_intros)
  moreover have "wf_map (ReferencedByUsingKeys r k g)" for k
    using assms by (auto simp: ReferencedByUsingKeys_def ref_inv_def inner_inv_def map_get_default_def split: option.splits)
  ultimately have "refs_wf (AllReferenced r g)"
    by (auto simp: refs_wf_def map_of_AllReferenced[OF wf] Let_def split: if_splits)
  moreover have "map_get_default [] (AllReferenced r g) k = ReferencedByUsingKeys r k g" for k
    by (simp add: map_get_default_def map_of_AllReferenced[OF wf] Let_def)
  ultimately show ?thesis by (auto simp: refs_of_def rel_lookup)
qed

subsection \<open>The secrets in a cycle\<close>

definition good_secret :: "secret_k8s \<Rightarrow> bool" where
  "good_secret s \<longleftrightarrow> mhas (sck_data s) ''tls.key'' \<and> mhas (sck_data s) ''tls.crt''
     \<and> (\<forall>n \<in> {''rsa'', ''ecdsa'', ''dsa''}. \<not> mhas (sck_data s) (n @ ''.key''))"

definition cert_text :: "secret_k8s \<Rightarrow> string" where
  "cert_text s = certContent (the (map_of (sck_data s) ''tls.key'')) (the (map_of (sck_data s) ''tls.crt''))"

definition cert_of :: "certificate_storage \<Rightarrow> namespaced_name \<Rightarrow> string \<Rightarrow> certificate_data" where
  "cert_of cs k t = NewCertificateData (cert_path cs k) t"

lemma mhas_Some: "mhas m k \<longleftrightarrow> (\<exists>v. map_of m k = Some v)"
  using map_of_None_mkeys[of m k] by (cases "map_of m k") (auto simp: mhas_iff)

lemma NewCertificateData_good:
  assumes "good_secret s" "good_key (meta_key (sck_meta s))"
  shows "Storage_NewCertificateData cs s = Some (Inr (cert_of cs (meta_key (sck_meta s)) (cert_text s)))"
proof -
  obtain kv cv where d: "map_of (sck_data s) ''tls.key'' = Some kv" "map_of (sck_data s) ''tls.crt'' = Some cv"
    using assms(1) by (auto simp: good_secret_def mhas_Some)
  have n: "map_of (sck_data s) ''rsa.key'' = None" "map_of (sck_data s) ''ecdsa.key'' = None" "map_of (sck_data s) ''dsa.key'' = None"
    using assms(1) by (auto simp: good_secret_def mhas_Some)
  show ?thesis
    by (simp add: Storage_NewCertificateData_def cert_step_def d n CertPath_good[OF assms(2)] cert_of_def cert_text_def Let_def)
qed

text \<open>The secret tree and the updates of a cycle that takes the existing secrets from \<open>L0\<close> to
  \<open>L1\<close>.\<close>

definition cycle_node :: "secret_k8s option \<Rightarrow> secret_k8s option \<Rightarrow> secret tree_res option \<Rightarrow> bool" where
  "cycle_node before now n \<longleftrightarrow>
     (case n of None \<Rightarrow> before = None \<and> now = None
      | Some t \<Rightarrow> (case TreeStatus (tr_status t) of
            StatusDeleted \<Rightarrow> now = None
          | StatusUnchanged \<Rightarrow> before = now \<and> now \<noteq> None \<and> se_K8sResource (tr_core t) = now
          | StatusUpserted \<Rightarrow> now \<noteq> None \<and> se_K8sResource (tr_core t) = now))"

definition cycle_secrets ::
    "(namespaced_name \<Rightarrow> secret_k8s option) \<Rightarrow> (namespaced_name \<Rightarrow> secret_k8s option) \<Rightarrow> controller_store \<Rightarrow> bool" where
  "cycle_secrets L0 L1 b \<longleftrightarrow>
     cycle_ok L0 L1 (map_of (updates (cs_Secrets (cst_ClusterStore b))))
     \<and> (\<forall>k. cycle_node (L0 k) (L1 k) (map_of (Secrets (cst_GateTree b)) k))
     \<and> (\<forall>k s. L1 k = Some s \<longrightarrow> meta_key (sck_meta s) = k \<and> good_secret s)"

lemma cycle_secrets_same: "cycle_secrets L0 L1 b \<Longrightarrow> same_world b b' \<Longrightarrow> cycle_secrets L0 L1 b'"
  by (simp add: cycle_secrets_def same_world_def)

subsection \<open>The certificate handlers\<close>

definition cert_op ::
    "certificate_storage \<Rightarrow> (namespaced_name \<Rightarrow> secret_k8s option) \<Rightarrow> (namespaced_name \<Rightarrow> secret_k8s option)
       \<Rightarrow> (namespaced_name \<Rightarrow> secret_k8s update option) \<Rightarrow> namespaced_name set \<Rightarrow> namespaced_name set \<Rightarrow> namespaced_name
       \<Rightarrow> certificate_data file_op" where
  "cert_op cs L0 L1 upds prev cur k =
     (if k \<notin> cur then Remove (cert_of cs k [])
      else if k \<notin> prev then (case L1 k of None \<Rightarrow> NoOp | Some s \<Rightarrow> Create (cert_of cs k (cert_text s)))
      else if upds k = None then NoOp
      else (case L1 k of None \<Rightarrow> Remove (cert_of cs k [])
            | Some s \<Rightarrow> if L0 k = None then Create (cert_of cs k (cert_text s)) else Update (cert_of cs k (cert_text s))))"

lemma secret_data_ok:
  assumes "cycle_secrets L0 L1 b" "L1 k = Some s" "good_key k"
  shows "Storage_NewCertificateData cs s = Some (Inr (cert_of cs k (cert_text s)))"
  using NewCertificateData_good[of s cs] assms by (auto simp: cycle_secrets_def)

lemma handle_new_ops:
  fixes prev cur :: secret_refs
  assumes "cycle_secrets L0 L1 b" "same_world b b'" "\<forall>k \<in> mkeys cur. good_key k"
  defines "ks \<equiv> map fst (SetDifference cur prev)"
  shows "handleNewReferencedSecretsStorage cs prev cur b'
      = Some (fold note_cert (map (cert_op cs L0 L1 u (mkeys prev) (mkeys cur)) ks) b')
    \<and> same_world b (fold note_cert (map (cert_op cs L0 L1 u (mkeys prev) (mkeys cur)) ks) b')"
  unfolding handleNewReferencedSecretsStorage_def ks_def
proof (rule foldo_notes[OF _ same_world_note(1) assms(2)])
  fix k b1 assume k: "k \<in> set (map fst (SetDifference cur prev))" and w: "same_world b b1"
  have "k \<in> mkeys cur" "k \<notin> mkeys prev" using k mkeys_SetDifference[of cur prev] by (auto simp: mkeys_def)
  then have op: "cert_op cs L0 L1 u (mkeys prev) (mkeys cur) k = (case L1 k of None \<Rightarrow> NoOp | Some s \<Rightarrow> Create (cert_of cs k (cert_text s)))"
    and g: "good_key k" using assms(3) by (auto simp: cert_op_def)
  have n: "cycle_node (L0 k) (L1 k) (map_of (Secrets (cst_GateTree b1)) k)"
    using assms(1) w by (simp add: cycle_secrets_def same_world_def)
  show "(case map_of (Secrets (cst_GateTree b1)) k of None \<Rightarrow> Some b1
        | Some secret \<Rightarrow>
            if TreeStatus (tr_status secret) = StatusDeleted then Some b1
            else (case se_K8sResource (tr_core secret) of None \<Rightarrow> None
                  | Some k8s \<Rightarrow> (case Storage_NewCertificateData cs k8s of None \<Rightarrow> None | Some (Inl _) \<Rightarrow> Some b1
                       | Some (Inr certData) \<Rightarrow> Some (addCreatedCertificate certData b1))))
      = Some (note_cert (cert_op cs L0 L1 u (mkeys prev) (mkeys cur) k) b1)"
    unfolding op using n secret_data_ok[OF assms(1) _ g, of _ cs]
    by (cases "L1 k") (auto simp: cycle_node_def note_cert_simps split: option.splits status.splits)
qed

lemma delete_cert_good: "good_key k \<Longrightarrow> delete_cert cs k b = Some (note_cert (Remove (cert_of cs k [])) b)"
  by (simp add: delete_cert_def CertPath_good cert_of_def note_cert_simps)

lemma handle_deref_ops:
  fixes prev cur :: secret_refs
  assumes "same_world b b'" "\<forall>k \<in> mkeys prev. good_key k"
  defines "ks \<equiv> map fst (SetDifference prev cur)"
  shows "handleDeReferencedSecretsStorage cs prev cur b'
      = Some (fold note_cert (map (cert_op cs L0 L1 u (mkeys prev) (mkeys cur)) ks) b')
    \<and> same_world b (fold note_cert (map (cert_op cs L0 L1 u (mkeys prev) (mkeys cur)) ks) b')"
  unfolding handleDeReferencedSecretsStorage_def ks_def
proof (rule foldo_notes[OF _ same_world_note(1) assms(1)])
  fix k b1 assume k: "k \<in> set (map fst (SetDifference prev cur))"
  have "k \<notin> mkeys cur" "k \<in> mkeys prev" using k mkeys_SetDifference[of prev cur] by (auto simp: mkeys_def)
  then show "delete_cert cs k b1 = Some (note_cert (cert_op cs L0 L1 u (mkeys prev) (mkeys cur) k) b1)"
    using assms(2) by (simp add: delete_cert_good cert_op_def)
qed

lemma handle_updated_ops:
  fixes prev cur :: secret_refs
  assumes "cycle_secrets L0 L1 b" "same_world b b'" "\<forall>k \<in> mkeys cur. good_key k"
  defines "ks \<equiv> map fst (SetIntersection prev cur)" and "u \<equiv> map_of (updates (cs_Secrets (cst_ClusterStore b)))"
  shows "handleUpdatedSecretsStorage cs prev cur b'
      = Some (fold note_cert (map (cert_op cs L0 L1 u (mkeys prev) (mkeys cur)) ks) b')
    \<and> same_world b (fold note_cert (map (cert_op cs L0 L1 u (mkeys prev) (mkeys cur)) ks) b')"
  unfolding handleUpdatedSecretsStorage_def ks_def
proof (rule foldo_notes[OF _ same_world_note(1) assms(2)])
  fix k b1 assume k: "k \<in> set (map fst (SetIntersection prev cur))" and w: "same_world b b1"
  have kk: "k \<in> mkeys cur" "k \<in> mkeys prev" using k mkeys_SetIntersection[of prev cur] by (auto simp: mkeys_def)
  then have g: "good_key k" using assms(3) by auto
  have e: "entry_ok (L0 k) (L1 k) (u k)" using assms(1) by (simp add: cycle_secrets_def cycle_ok_def u_def)
  have eq: "map_of (updates (cs_Secrets (cst_ClusterStore b1))) k = u k" using w by (simp add: u_def same_world_def)
  show "(case map_of (updates (cs_Secrets (cst_ClusterStore b1))) k of None \<Rightarrow> Some b1
        | Some secretUpdate \<Rightarrow>
            (case Status secretUpdate of
               StatusUpserted \<Rightarrow>
                 (case NewObject secretUpdate of None \<Rightarrow> None
                  | Some k8s \<Rightarrow> (case Storage_NewCertificateData cs k8s of None \<Rightarrow> None | Some (Inl _) \<Rightarrow> Some b1
                       | Some (Inr certData) \<Rightarrow> Some (if OldObject secretUpdate = None then addCreatedCertificate certData b1
                                 else addUpdatedCertificate certData b1)))
             | StatusDeleted \<Rightarrow> delete_cert cs k b1
             | StatusUnchanged \<Rightarrow> Some b1))
      = Some (note_cert (cert_op cs L0 L1 u (mkeys prev) (mkeys cur) k) b1)"
    unfolding eq using e kk secret_data_ok[OF assms(1) _ g, of _ cs] delete_cert_good[OF g]
    by (cases "L1 k") (auto simp: entry_ok_def cert_op_def note_cert_simps split: option.splits)
qed

subsection \<open>The crt-list handlers\<close>

definition list_of :: "certificate_storage \<Rightarrow> namespaced_name \<Rightarrow> namespaced_name set \<Rightarrow> crt_list_data" where
  "list_of cs w K = NewCrtListData (CertListPath cs w) (sorted_list_of_set (cert_file cs ` K))"

lemma cert_paths_good: "\<forall>k \<in> set ks. good_key k \<Longrightarrow> cert_paths cs ks = Some (map (cert_file cs) ks)"
  by (induction ks) (auto simp: CertPath_good cert_file_def)

lemma NewCrtListData_good:
  assumes "wf_map s" "\<forall>k \<in> mkeys s. good_key k"
  shows "Storage_NewCrtListData cs w s = Some (list_of cs w (mkeys s))"
proof -
  have "distinct (map (cert_file cs) (map fst s))"
    using assms cert_file_inj by (auto simp: distinct_map wf_map_def inj_on_def mkeys_def)
  then have "sort (map (cert_file cs) (map fst s)) = sorted_list_of_set (cert_file cs ` mkeys s)"
    by (simp add: sorted_list_of_set_sort_remdups distinct_remdups_id mkeys_def image_image flip: set_map)
  then show ?thesis using cert_paths_good[of "map fst s" cs] assms(2)
    by (simp add: Storage_NewCrtListData_def list_of_def mkeys_def)
qed

lemma keepOnly_keys:
  assumes "cycle_secrets L0 L1 b"
  shows "wf_map (keepOnlyExistingSecrets (Secrets (cst_GateTree b)) s)
    \<and> mkeys (keepOnlyExistingSecrets (Secrets (cst_GateTree b)) s) = {k \<in> mkeys s. L1 k \<noteq> None}"
proof -
  have n: "cycle_node (L0 k) (L1 k) (map_of (Secrets (cst_GateTree b)) k)" for k using assms by (simp add: cycle_secrets_def)
  let ?f = "\<lambda>(secretKey, _ :: unit) res.
        case map_of (Secrets (cst_GateTree b)) secretKey of None \<Rightarrow> res
        | Some s \<Rightarrow> if TreeStatus (tr_status s) = StatusDeleted then res else sput secretKey res"
  have step: "?f x res = (case x of (k, _) \<Rightarrow> if L1 k \<noteq> None then sput k res else res)" for x res
    using n[of "fst x"] by (cases x) (auto simp: cycle_node_def split: option.splits status.splits)
  have "wf_map res \<Longrightarrow> wf_map (fold (\<lambda>x res. case x of (k, _) \<Rightarrow> if L1 k \<noteq> None then sput k res else res) s res)
      \<and> mkeys (fold (\<lambda>x res. case x of (k, _) \<Rightarrow> if L1 k \<noteq> None then sput k res else res) s res)
        = {k \<in> mkeys s. L1 k \<noteq> None} \<union> mkeys res" for res
    by (induction s arbitrary: res) (auto simp: wf_sput split: if_splits)
  from this[of "[]"] show ?thesis unfolding keepOnlyExistingSecrets_def step by simp
qed

lemma unchanged_refs:
  fixes ks :: "namespaced_name list" and upd :: bool
  assumes "cycle_secrets L0 L1 b" "wf_map s"
  defines "r \<equiv> fold (unchanged_ref_step (Secrets (cst_GateTree b))) ks (s, upd)"
  shows "wf_map (fst r) \<and> mkeys (fst r) = mkeys s \<union> {k \<in> set ks. L1 k \<noteq> None}
    \<and> (\<not> snd r \<longrightarrow> \<not> upd \<and> (\<forall>k \<in> set ks. L0 k = L1 k))"
  using assms(2) unfolding r_def
proof (induction ks arbitrary: s upd)
  case (Cons k ks)
  have n: "cycle_node (L0 k) (L1 k) (map_of (Secrets (cst_GateTree b)) k)" using assms(1) by (simp add: cycle_secrets_def)
  obtain s' upd' where st: "unchanged_ref_step (Secrets (cst_GateTree b)) k (s, upd) = (s', upd')" by (cases "unchanged_ref_step (Secrets (cst_GateTree b)) k (s, upd)")
  have "wf_map s' \<and> mkeys s' = mkeys s \<union> (if L1 k \<noteq> None then {k} else {}) \<and> (\<not> upd' \<longrightarrow> \<not> upd \<and> L0 k = L1 k)"
    using n st Cons.prems by (auto simp: cycle_node_def unchanged_ref_step_def wf_sput split: option.splits status.splits if_splits)
  then show ?case using Cons.IH[of s' upd'] by (auto simp: st)
qed simp

lemma crt_list_content_ok:
  fixes prev new :: "namespaced_name goset"
  assumes "cycle_secrets L0 L1 b" "wf_map new"
  defines "r \<equiv> crt_list_content (Secrets (cst_GateTree b)) prev new"
  shows "wf_map (fst r) \<and> mkeys (fst r) = {k \<in> mkeys new. L1 k \<noteq> None}
    \<and> (\<not> snd r \<longrightarrow> {k \<in> mkeys new. L1 k \<noteq> None} = {k \<in> mkeys prev. L0 k \<noteq> None})"
proof -
  let ?T = "Secrets (cst_GateTree b)"
  define s1 where "s1 = keepOnlyExistingSecrets ?T (fold (\<lambda>(k, _) s. sput k s) (SetDifference new prev) [])"
  have "mkeys (fold (\<lambda>(k, _) s. sput k s) xs t) = mkeys xs \<union> mkeys t" for xs t :: "namespaced_name goset"
    by (induction xs arbitrary: t) auto
  then have s1: "wf_map s1" "mkeys s1 = {k \<in> mkeys new - mkeys prev. L1 k \<noteq> None}"
    using keepOnly_keys[OF assms(1)] by (simp_all add: s1_def)
  obtain s2 u2 where f: "fold (unchanged_ref_step ?T) (map fst (SetIntersection new prev)) (s1, length s1 \<noteq> 0) = (s2, u2)" by fastforce
  have r: "r = (s2, u2 \<or> length (SetDifference prev new) \<noteq> 0)"
    unfolding r_def crt_list_content_def Let_def s1_def[symmetric] f by simp
  have "set (map fst (SetIntersection new prev)) = mkeys new \<inter> mkeys prev" using mkeys_SetIntersection[of new prev] by (simp add: mkeys_def)
  then have s2: "wf_map s2" "mkeys s2 = mkeys s1 \<union> {k \<in> mkeys new \<inter> mkeys prev. L1 k \<noteq> None}"
    "\<not> u2 \<Longrightarrow> mkeys s1 = {} \<and> (\<forall>k \<in> mkeys new \<inter> mkeys prev. L0 k = L1 k)"
    using unchanged_refs[OF assms(1) s1(1), of "map fst (SetIntersection new prev)" "length s1 \<noteq> 0"] f mkeys_ne[of s1] by auto
  have "mkeys prev \<subseteq> mkeys new" if "length (SetDifference prev new) = 0"
    using that mkeys_SetDifference[of prev new] by auto
  moreover have "{k \<in> mkeys new. L1 k \<noteq> None} = {k \<in> mkeys prev. L0 k \<noteq> None}"
    if "\<not> u2" "mkeys prev \<subseteq> mkeys new"
  proof -
    have "{k \<in> mkeys new - mkeys prev. L1 k \<noteq> None} = {}" using s2(3)[OF that(1)] s1(2) by blast
    moreover have "\<forall>k \<in> mkeys new \<inter> mkeys prev. (L1 k \<noteq> None) = (L0 k \<noteq> None)" using s2(3)[OF that(1)] by simp
    ultimately show ?thesis using that(2) by blast
  qed
  ultimately show ?thesis using s2(1,2) s1(2) by (simp add: r) blast
qed

definition list_op ::
    "certificate_storage \<Rightarrow> (namespaced_name \<Rightarrow> secret_k8s option) \<Rightarrow> secret tree_map \<Rightarrow> secret_refs \<Rightarrow> secret_refs \<Rightarrow> namespaced_name
       \<Rightarrow> crt_list_data file_op" where
  "list_op cs L1 T prev new w =
     (let K = {k \<in> mkeys (map_get_default [] new w). L1 k \<noteq> None} in
      if w \<notin> mkeys new then Remove (list_of cs w {})
      else if w \<notin> mkeys prev then Create (list_of cs w K)
      else if snd (crt_list_content T (map_get_default [] prev w) (map_get_default [] new w))
           then (if K = {} then Remove (list_of cs w {}) else Update (list_of cs w K)) else NoOp)"

lemma set_SetDifference: "set (map fst (SetDifference a b)) = mkeys a - mkeys b"
  using mkeys_SetDifference[of a b] by (simp add: mkeys_def)

lemma set_SetIntersection: "set (map fst (SetIntersection a b)) = mkeys a \<inter> mkeys b"
  using mkeys_SetIntersection[of a b] by (simp add: mkeys_def)

lemma NewCrtListData_none: "Storage_NewCrtListData cs w [] = Some (list_of cs w {})"
  by (simp add: Storage_NewCrtListData_def list_of_def)

lemma handle_crt_list_ops:
  assumes cyc: "cycle_secrets L0 L1 b" and w: "same_world b b'" and wf: "refs_wf prev" "refs_wf cur"
    and good: "\<And>k. k \<in> mkeys cur \<Longrightarrow> good_key k"
  defines "p \<equiv> secretsPerGatewayListener prev" and "c \<equiv> secretsPerGatewayListener cur"
  defines "ws \<equiv> map fst (SetDifference c p) @ map fst (SetDifference p c) @ map fst (SetIntersection p c)"
  shows "handleCrtList cs prev cur b' = Some (fold note_list (map (list_op cs L1 (Secrets (cst_GateTree b)) p c) ws) b')"
proof -
  let ?T = "Secrets (cst_GateTree b)" and ?op = "list_op cs L1 (Secrets (cst_GateTree b)) p c"
  have rc: "refs_wf c" "refs_of c = (refs_of cur)\<inverse>" using secretsPer_refs[OF wf(2)] by (auto simp: c_def)
  have gk: "good_key k" if "k \<in> mkeys (map_get_default [] c x)" for k x
    using that rc(2) good mkeys_refs[OF wf(2)] by (auto simp: refs_of_def set_eq_iff)
  have 1: "handleNewReferencedCrtList cs p c b1 = Some (fold note_list (map ?op (map fst (SetDifference c p))) b1)
      \<and> same_world b (fold note_list (map ?op (map fst (SetDifference c p))) b1)" if "same_world b b1" for b1
    unfolding handleNewReferencedCrtList_def
  proof (rule foldo_notes[OF _ same_world_note(2) that])
    fix x b2 assume x: "x \<in> set (map fst (SetDifference c p))" and s: "same_world b b2"
    let ?s = "keepOnlyExistingSecrets (Secrets (cst_GateTree b2)) (map_get_default [] c x)"
    have k: "wf_map ?s" "mkeys ?s = {k \<in> mkeys (map_get_default [] c x). L1 k \<noteq> None}"
      using keepOnly_keys[OF cycle_secrets_same[OF cyc s]] by auto
    show "(let filteredSecretKeys = ?s in map_option (\<lambda>d. addCreatedCrtList d b2) (Storage_NewCrtListData cs x filteredSecretKeys))
        = Some (note_list (?op x) b2)"
      using NewCrtListData_good[OF k(1), of cs x] k(2) gk x unfolding set_SetDifference
      by (auto simp: list_op_def Let_def note_list_simps)
  qed
  have 2: "handleDeReferencedCrtList cs p c b1 = Some (fold note_list (map ?op (map fst (SetDifference p c))) b1)
      \<and> same_world b (fold note_list (map ?op (map fst (SetDifference p c))) b1)" if "same_world b b1" for b1
    unfolding handleDeReferencedCrtList_def
    by (rule foldo_notes[OF _ same_world_note(2) that])
      (simp_all only: set_SetDifference, simp add: NewCrtListData_none list_op_def Let_def note_list_simps)
  have 3: "handleUpdatedCrtList cs p c b1 = Some (fold note_list (map ?op (map fst (SetIntersection p c))) b1)
      \<and> same_world b (fold note_list (map ?op (map fst (SetIntersection p c))) b1)" if "same_world b b1" for b1
    unfolding handleUpdatedCrtList_def
  proof (rule foldo_notes[OF _ same_world_note(2) that])
    fix x b2 assume x: "x \<in> set (map fst (SetIntersection p c))" and s: "same_world b b2"
    obtain S u where cc: "crt_list_content ?T (map_get_default [] p x) (map_get_default [] c x) = (S, u)" by fastforce
    have k: "wf_map S" "mkeys S = {k \<in> mkeys (map_get_default [] c x). L1 k \<noteq> None}"
      using crt_list_content_ok[OF cyc refs_default_wf[OF rc(1)], of "map_get_default [] p x" x] cc by auto
    have T: "Secrets (cst_GateTree b2) = ?T" using s by (simp add: same_world_def)
    show "(let (secretKeys, crtlistUpdated) = crt_list_content (Secrets (cst_GateTree b2)) (map_get_default [] p x) (map_get_default [] c x)
        in if crtlistUpdated then
             (if length secretKeys \<noteq> 0 then map_option (\<lambda>d. addUpdatedCrtList d b2) (Storage_NewCrtListData cs x secretKeys)
              else map_option (\<lambda>d. addDeletedCrtList d b2) (Storage_NewCrtListData cs x []))
           else Some b2) = Some (note_list (?op x) b2)"
      using NewCrtListData_good[OF k(1), of cs x] k(2) gk x mkeys_ne[of S] unfolding T cc set_SetIntersection
      by (auto simp: list_op_def Let_def note_list_simps NewCrtListData_none cc)
  qed
  show ?thesis unfolding handleCrtList_def Let_def p_def[symmetric] c_def[symmetric]
    using 1[OF w] 2 3 by (simp add: ws_def)
qed

lemma computeCertificateDiffs_ops:
  fixes ro :: referenced_objects and extractGVK :: "k8s_object \<Rightarrow> gvk"
  assumes cyc: "cycle_secrets L0 L1 b" and ro: "ro = cst_ReferencedObjects b"
    and inv: "ref_inv (ReferencedSecrets ro)" "ref_inv (PreviousReferencedSecrets ro)"
  defines "cur \<equiv> AllReferenced (ReferencedSecrets ro) (extractGVK (OGateway gateway0))"
    and "prev \<equiv> AllReferenced (PreviousReferencedSecrets ro) (extractGVK (OGateway gateway0))"
    and "u \<equiv> map_of (updates (cs_Secrets (cst_ClusterStore b)))"
  defines "p \<equiv> secretsPerGatewayListener prev" and "c \<equiv> secretsPerGatewayListener cur"
  assumes good: "\<And>k. k \<in> mkeys cur \<union> mkeys prev \<Longrightarrow> good_key k"
  shows "computeCertificateDiffs extractGVK cs b =
     Some (fold note_list (map (list_op cs L1 (Secrets (cst_GateTree b)) p c)
         (map fst (SetDifference c p) @ map fst (SetDifference p c) @ map fst (SetIntersection p c)))
       (fold note_cert (map (cert_op cs L0 L1 u (mkeys prev) (mkeys cur))
         (map fst (SetDifference cur prev) @ map fst (SetDifference prev cur) @ map fst (SetIntersection prev cur))) b))"
proof -
  have g: "\<forall>k \<in> mkeys cur. good_key k" "\<forall>k \<in> mkeys prev. good_key k" using good by auto
  have wf: "refs_wf prev" "refs_wf cur" using AllReferenced_refs inv by (auto simp: prev_def cur_def)
  note 1 = handle_new_ops[OF cyc same_world_refl g(1), of cs prev u]
  note 2 = handle_deref_ops[OF 1[THEN conjunct2] g(2), of cs cur L0 L1 u]
  note 3 = handle_updated_ops[OF cyc 2[THEN conjunct2] g(1), of cs prev, folded u_def]
  note 4 = handle_crt_list_ops[OF cyc 3[THEN conjunct2] wf, of cs]
  show ?thesis unfolding computeCertificateDiffs_def Let_def ro[symmetric] cur_def[symmetric] prev_def[symmetric]
    using 1 2 3 4 g(1) by (simp add: p_def c_def)
qed

subsection \<open>The files after a cycle\<close>

definition crt_text :: "certificate_storage \<Rightarrow> namespaced_name set \<Rightarrow> string" where
  "crt_text cs K = concat (map (\<lambda>p. p @ [CHR 0x0A]) (sorted_list_of_set (cert_file cs ` K)))"

definition served :: "(namespaced_name \<times> namespaced_name) set \<Rightarrow> (namespaced_name \<Rightarrow> secret_k8s option) \<Rightarrow> namespaced_name \<Rightarrow> namespaced_name set" where
  "served R L w = {k. (k, w) \<in> R \<and> L k \<noteq> None}"

definition cert_files_ok ::
    "certificate_storage \<Rightarrow> (namespaced_name \<times> namespaced_name) set \<Rightarrow> (namespaced_name \<Rightarrow> secret_k8s option) \<Rightarrow> disk \<Rightarrow> bool" where
  "cert_files_ok cs R L d \<longleftrightarrow>
     (\<forall>k. good_key k \<longrightarrow> map_of d (cert_file cs k) = (if k \<in> Domain R then map_option cert_text (L k) else None))
     \<and> (\<forall>w. good_owner w \<longrightarrow>
          (if served R L w = {} then map_of d (list_file cs w) = None \<or> map_of d (list_file cs w) = Some []
           else map_of d (list_file cs w) = Some (crt_text cs (served R L w))))"

lemma list_text: "crt_list_text (list_of cs w K) = crt_text cs K"
  by (simp add: crt_list_text_def list_of_def NewCrtListData_def crt_text_def sorted_sort_id)

lemma cert_op_data:
  assumes "op_data (cert_op cs L0 L1 u prev cur k) = Some x"
  shows "CertificateData_MapKey x = fp_FileName (cert_path cs k) \<and> FullPath (cd_Path x) = cert_file cs k"
  using assms by (auto simp: cert_op_def cert_of_def NewCertificateData_def CertificateData_MapKey_def cert_file_def
      split: if_splits option.splits)

lemma list_op_data:
  assumes "op_data (list_op cs L1 T p c w) = Some x"
  shows "CrtListData_MapKey x = fp_FileName (CertListPath cs w) \<and> FullPath (cl_Path x) = list_file cs w"
  using assms by (auto simp: list_op_def Let_def list_of_def NewCrtListData_def CrtListData_MapKey_def list_file_def
      split: if_splits)

lemma file_names_inj:
  "\<forall>k \<in> K. good_key k \<Longrightarrow> inj_on (\<lambda>k. fp_FileName (cert_path cs k)) K \<and> inj_on (cert_file cs) K"
  "\<forall>w \<in> W. good_owner w \<Longrightarrow> inj_on (\<lambda>w. fp_FileName (CertListPath cs w)) W \<and> inj_on (list_file cs) W"
proof -
  assume "\<forall>k \<in> K. good_key k"
  then show "inj_on (\<lambda>k. fp_FileName (cert_path cs k)) K \<and> inj_on (cert_file cs) K"
    using underscore_file_inj[of _ _ "''.pem''"] cert_file_inj
    by (auto simp: inj_on_def cert_path_name good_key_def good_owner_def)
next
  assume "\<forall>w \<in> W. good_owner w"
  then show "inj_on (\<lambda>w. fp_FileName (CertListPath cs w)) W \<and> inj_on (list_file cs) W"
    using list_file_inj CertListPath_inj by (auto simp: inj_on_def good_owner_def)
qed

text \<open>The part of the disk with the certificates, and the part with the crt-lists.\<close>

lemma cert_disk:
  fixes cs :: certificate_storage and d :: disk
  assumes cyc: "cycle_secrets L0 L1 b" and good: "\<forall>k \<in> set ks. good_key k" and ks: "set ks = prev \<union> cur"
    and k: "good_key k" and old: "map_of d (cert_file cs k) = (if k \<in> prev then map_option cert_text (L0 k) else None)"
  defines "u \<equiv> map_of (updates (cs_Secrets (cst_ClusterStore b)))"
  defines "d' \<equiv> sync_files (\<lambda>c d. snd (WriteOnDisk (\<lambda>_. True) c d)) (\<lambda>c d. snd (DeleteFromDisk (\<lambda>_. True) c d))
     (fold (record_op CertificateData_MapKey) (map (cert_op cs L0 L1 u prev cur) ks) storage_updates0) d"
  shows "map_of d' (cert_file cs k) = (if k \<in> cur then map_option cert_text (L1 k) else None)"
proof -
  note inj = file_names_inj(1)[OF good, of cs]
  have eff: "j \<in> set ks \<Longrightarrow> map_of d' (cert_file cs j) = (case cert_op cs L0 L1 u prev cur j of NoOp \<Rightarrow> map_of d (cert_file cs j)
      | Create x \<Rightarrow> Some (cd_Data x) | Update x \<Rightarrow> Some (cd_Data x) | Remove x \<Rightarrow> None)"
    "q \<notin> cert_file cs ` set ks \<Longrightarrow> map_of d' q = map_of d q" for j q
    unfolding d'_def
    by (rule cert_store.sync_effect[where F = "\<lambda>k. fp_FileName (cert_path cs k)"]; use cert_op_data inj in blast)+
  have e: "entry_ok (L0 k) (L1 k) (u k)" using cyc by (simp add: cycle_secrets_def cycle_ok_def u_def)
  show ?thesis
  proof (cases "k \<in> set ks")
    case True
    then show ?thesis using eff(1)[OF True] old e ks
      by (auto simp: cert_op_def cert_of_def NewCertificateData_def entry_ok_def split: option.splits)
  next
    case False
    have "cert_file cs k \<notin> cert_file cs ` set ks" using False good k cert_file_inj by (auto simp: image_iff)
    then show ?thesis using eff(2) old ks False by auto
  qed
qed

lemma list_disk:
  fixes cs :: certificate_storage and d :: disk and prev cur :: secret_refs
  assumes cyc: "cycle_secrets L0 L1 b" and wf: "refs_wf prev" "refs_wf cur"
    and good: "\<forall>w \<in> set ws. good_owner w" and w: "good_owner w"
  defines "p \<equiv> secretsPerGatewayListener prev" and "c \<equiv> secretsPerGatewayListener cur"
  assumes ws: "set ws = mkeys p \<union> mkeys c"
    and old: "if served (refs_of prev) L0 w = {} then map_of d (list_file cs w) = None \<or> map_of d (list_file cs w) = Some []
           else map_of d (list_file cs w) = Some (crt_text cs (served (refs_of prev) L0 w))"
  defines "d' \<equiv> sync_files (\<lambda>l d. snd (WriteCrtListOnDisk (\<lambda>_. Written) l d)) (\<lambda>l d. snd (DeleteCrtListFromDisk (\<lambda>_. True) l d))
     (fold (record_op CrtListData_MapKey) (map (list_op cs L1 (Secrets (cst_GateTree b)) p c) ws) storage_updates0) d"
  shows "if served (refs_of cur) L1 w = {} then map_of d' (list_file cs w) = None \<or> map_of d' (list_file cs w) = Some []
           else map_of d' (list_file cs w) = Some (crt_text cs (served (refs_of cur) L1 w))"
proof -
  note inj = file_names_inj(2)[OF good, of cs]
  have eff: "j \<in> set ws \<Longrightarrow> map_of d' (list_file cs j) = (case list_op cs L1 (Secrets (cst_GateTree b)) p c j of
      NoOp \<Rightarrow> map_of d (list_file cs j) | Create x \<Rightarrow> Some (crt_list_text x) | Update x \<Rightarrow> Some (crt_list_text x) | Remove x \<Rightarrow> None)"
    "q \<notin> list_file cs ` set ws \<Longrightarrow> map_of d' q = map_of d q" for j q
    unfolding d'_def
    by (rule list_store.sync_effect[where F = "\<lambda>w. fp_FileName (CertListPath cs w)"]; use list_op_data inj in blast)+
  have rp: "refs_wf p" "refs_of p = (refs_of prev)\<inverse>" using secretsPer_refs[OF wf(1)] by (auto simp: p_def)
  have rc: "refs_wf c" "refs_of c = (refs_of cur)\<inverse>" using secretsPer_refs[OF wf(2)] by (auto simp: c_def)
  have sc: "served (refs_of cur) L1 w = {k \<in> mkeys (map_get_default [] c w). L1 k \<noteq> None}"
    using rc(2) by (auto simp: served_def refs_of_def set_eq_iff)
  have sp: "served (refs_of prev) L0 w = {k \<in> mkeys (map_get_default [] p w). L0 k \<noteq> None}"
    using rp(2) by (auto simp: served_def refs_of_def set_eq_iff)
  have nc: "w \<notin> mkeys c \<Longrightarrow> served (refs_of cur) L1 w = {}"
    using map_of_None_mkeys[of c w] by (simp add: sc map_get_default_def)
  have np: "w \<notin> mkeys p \<Longrightarrow> served (refs_of prev) L0 w = {}"
    using map_of_None_mkeys[of p w] by (simp add: sp map_get_default_def)
  note content = crt_list_content_ok[OF cyc refs_default_wf[OF rc(1)], of "map_get_default [] p w" w, folded sc sp, THEN conjunct2, THEN conjunct2]
  show ?thesis
  proof (cases "w \<in> set ws")
    case True
    have "map_of d' (list_file cs w) = (if w \<notin> mkeys c then None
        else if w \<notin> mkeys p then Some (crt_text cs (served (refs_of cur) L1 w))
        else if snd (crt_list_content (Secrets (cst_GateTree b)) (map_get_default [] p w) (map_get_default [] c w))
          then (if served (refs_of cur) L1 w = {} then None else Some (crt_text cs (served (refs_of cur) L1 w)))
          else map_of d (list_file cs w))"
      unfolding eff(1)[OF True] list_op_def Let_def sc[symmetric] by (simp add: list_text)
    moreover have "crt_text cs {} = []" by (simp add: crt_text_def)
    ultimately show ?thesis using nc old content by (simp split: if_splits)
  next
    case False
    have "list_file cs w \<notin> list_file cs ` set ws" using False good w list_file_inj by (auto simp: image_iff)
    then show ?thesis using eff(2) old ws False nc np by auto
  qed
qed

definition gateway_refs :: "(k8s_object \<Rightarrow> gvk) \<Rightarrow> referenced_by \<Rightarrow> (namespaced_name \<times> namespaced_name) set" where
  "gateway_refs extractGVK r = {(k, w). (k, extractGVK (OGateway gateway0), w) \<in> ref_rel r}"

lemma certificate_files_step:
  fixes extractGVK :: "k8s_object \<Rightarrow> gvk" and ro :: referenced_objects
  assumes cyc: "cycle_secrets L0 L1 b" and ro: "ro = cst_ReferencedObjects b"
    and inv: "ref_inv (ReferencedSecrets ro)" "ref_inv (PreviousReferencedSecrets ro)"
    and empty: "cst_CertUpdates b = storage_updates0" "cst_CrtListUpdates b = storage_updates0"
  defines "R0 \<equiv> gateway_refs extractGVK (PreviousReferencedSecrets ro)" and "R1 \<equiv> gateway_refs extractGVK (ReferencedSecrets ro)"
  assumes good: "\<And>k w. (k, w) \<in> R0 \<union> R1 \<Longrightarrow> good_key k \<and> good_owner w"
    and files: "cert_files_ok cs R0 L0 d"
  shows "\<exists>b' d'. Certificate_ComputeTreeUpdates extractGVK cs True io_ok b d = Some (b', d') \<and> same_world b b'
    \<and> cst_ReferencedObjects b' = ro \<and> cert_files_ok cs R1 L1 d'"
proof -
  define g where "g = extractGVK (OGateway gateway0)"
  define cur where "cur = AllReferenced (ReferencedSecrets ro) g"
  define prev where "prev = AllReferenced (PreviousReferencedSecrets ro) g"
  define u where "u = map_of (updates (cs_Secrets (cst_ClusterStore b)))"
  define p where "p = secretsPerGatewayListener prev"
  define c where "c = secretsPerGatewayListener cur"
  define ks where "ks = map fst (SetDifference cur prev) @ map fst (SetDifference prev cur) @ map fst (SetIntersection prev cur)"
  define ws where "ws = map fst (SetDifference c p) @ map fst (SetDifference p c) @ map fst (SetIntersection p c)"
  have wf: "refs_wf cur" "refs_wf prev" and R: "refs_of cur = R1" "refs_of prev = R0"
    using AllReferenced_refs inv by (auto simp: cur_def prev_def R0_def R1_def gateway_refs_def g_def)
  have doms: "mkeys cur = Domain R1" "mkeys prev = Domain R0" using mkeys_refs wf R by auto
  have lds: "mkeys c = Range R1" "mkeys p = Range R0"
    using secretsPer_refs[OF wf(1)] secretsPer_refs[OF wf(2)] mkeys_refs R by (auto simp: c_def p_def)
  have ks: "set ks = mkeys prev \<union> mkeys cur" and gk: "\<forall>k \<in> set ks. good_key k"
    using good doms unfolding ks_def set_append set_SetDifference set_SetIntersection by auto
  have ws: "set ws = mkeys p \<union> mkeys c" and gw: "\<forall>w \<in> set ws. good_owner w"
    using good lds unfolding ws_def set_append set_SetDifference set_SetIntersection by auto
  let ?certs = "fold (record_op CertificateData_MapKey) (map (cert_op cs L0 L1 u (mkeys prev) (mkeys cur)) ks) storage_updates0"
  let ?lists = "fold (record_op CrtListData_MapKey) (map (list_op cs L1 (Secrets (cst_GateTree b)) p c) ws) storage_updates0"
  define b' where "b' = fold note_list (map (list_op cs L1 (Secrets (cst_GateTree b)) p c) ws)
      (fold note_cert (map (cert_op cs L0 L1 u (mkeys prev) (mkeys cur)) ks) b)"
  have diffs: "computeCertificateDiffs extractGVK cs b = Some b'"
    using computeCertificateDiffs_ops[OF cyc ro inv, of extractGVK cs] good doms
    unfolding g_def[symmetric] cur_def[symmetric] prev_def[symmetric] u_def[symmetric] p_def[symmetric] c_def[symmetric]
      ks_def[symmetric] ws_def[symmetric] b'_def[symmetric] by auto
  have b': "cst_CertUpdates b' = ?certs" "cst_CrtListUpdates b' = ?lists" "same_world b b'" "cst_ReferencedObjects b' = ro"
    by (simp_all add: b'_def fold_note_cert fold_note_list empty same_world_def ro)
  define d1 where "d1 = sync_files (\<lambda>c d. snd (WriteOnDisk (\<lambda>_. True) c d)) (\<lambda>c d. snd (DeleteFromDisk (\<lambda>_. True) c d)) ?certs d"
  define d2 where "d2 = sync_files (\<lambda>l d. snd (WriteCrtListOnDisk (\<lambda>_. Written) l d)) (\<lambda>l d. snd (DeleteCrtListFromDisk (\<lambda>_. True) l d)) ?lists d1"
  have run: "Certificate_ComputeTreeUpdates extractGVK cs True io_ok b d = Some (b', d2)"
    by (simp add: Certificate_ComputeTreeUpdates_def diffs ensure_sync b' d1_def d2_def)
  have apart: "good_key k \<Longrightarrow> cert_file cs k \<notin> list_file cs ` set ws" "good_owner w \<Longrightarrow> list_file cs w \<notin> cert_file cs ` set ks" for k w
    using cert_file_not_list[of k _ cs] cert_file_not_list[of _ w cs] gk gw by (metis imageE)+
  note inj = file_names_inj(2)[OF gw, of cs] file_names_inj(1)[OF gk, of cs]
  have certs_kept: "map_of d2 (cert_file cs k) = map_of d1 (cert_file cs k)" if "good_key k" for k
    unfolding d2_def
    by (rule list_store.sync_effect(2)[OF _ inj(1)[THEN conjunct1] inj(1)[THEN conjunct2] apart(1)[OF that]])
      (rule list_op_data)
  have lists_kept: "map_of d1 (list_file cs w) = map_of d (list_file cs w)" if "good_owner w" for w
    unfolding d1_def
    by (rule cert_store.sync_effect(2)[OF _ inj(2)[THEN conjunct1] inj(2)[THEN conjunct2] apart(2)[OF that]])
      (rule cert_op_data)
  have "map_of d2 (cert_file cs k) = (if k \<in> Domain R1 then map_option cert_text (L1 k) else None)" if k: "good_key k" for k
    unfolding certs_kept[OF k] d1_def u_def doms(1)[symmetric]
    by (rule cert_disk[OF cyc gk ks k]) (use files k doms in \<open>simp add: cert_files_ok_def\<close>)
  moreover have "if served R1 L1 w = {} then map_of d2 (list_file cs w) = None \<or> map_of d2 (list_file cs w) = Some []
           else map_of d2 (list_file cs w) = Some (crt_text cs (served R1 L1 w))" if w: "good_owner w" for w
    unfolding d2_def R(1)[symmetric] c_def p_def
    by (rule list_disk[OF cyc wf(2,1) gw w ws[unfolded c_def p_def]]) (use files w lists_kept[OF w] R(2) in \<open>simp add: cert_files_ok_def\<close>)
  ultimately show ?thesis using run b'(3,4) by (auto simp: cert_files_ok_def)
qed

end
