(* ===== verification/RouteTree.thy ===== *)
theory RouteTree
  imports ListenerTree CertificateBuilder
begin

text \<open>
  \<open>k8s/gate/tree/HTTPRoute.go\<close>, \<open>HTTPRoute-builder.go\<close>, \<open>route-rule.go\<close>,
  \<open>TLSRoute.go\<close>, \<open>TLSRoute-builder.go\<close>, \<open>tls-route-rule.go\<close> and the attached
  routes of \<open>gateway_listener.go\<close>.

  The two kinds of routes have the same code up to the type of the resource, the check of the TLS
  mode and the copy of a node; \<open>route_kind\<close> holds these differences, the functions below take
  it as an argument, and each function of the source is the function at its kind.

  A node that was managed and becomes unmanaged (or the other way round) is in both trees: one Go
  object with two pointers.  \<open>write_route\<close> writes the node wherever the trees hold it.
\<close>

subsection \<open>The two kinds of routes\<close>

record ('k, 'r) route_kind =
  rk_object :: "'k \<Rightarrow> k8s_object"
  rk_parentRefs :: "'k \<Rightarrow> parent_reference list"
  rk_hostnames :: "'k \<Rightarrow> string list"
  rk_rules :: "'k \<Rightarrow> 'r list"
  rk_backendRefs :: "'r \<Rightarrow> backend_object_reference list"
  rk_section_ok :: "listener \<Rightarrow> bool"
  rk_copy_clears :: bool
  rk_tree :: "gate_tree \<Rightarrow> ('k, 'r) route tree_map"
  rk_set_tree :: "('k, 'r) route tree_map \<Rightarrow> gate_tree \<Rightarrow> gate_tree"
  rk_updates :: "cluster_store \<Rightarrow> (namespaced_name, 'k update) gomap"

definition HTTPRoute_kind :: "(http_route_k8s, http_route_rule) route_kind" where
  "HTTPRoute_kind = \<lparr>rk_object = OHTTPRoute, rk_parentRefs = hrk_parentRefs, rk_hostnames = hrk_hostnames,
     rk_rules = hrk_rules, rk_backendRefs = (\<lambda>r. map hb_ref (hr_backendRefs r)), rk_section_ok = (\<lambda>_. True),
     rk_copy_clears = True, rk_tree = HTTPRoutes, rk_set_tree = (\<lambda>t g. g\<lparr>HTTPRoutes := t\<rparr>),
     rk_updates = (\<lambda>c. updates (cs_HTTPRoutes c))\<rparr>"

text \<open>\<open>PointerDefaultValueIfNil(listener.K8sResource.TLS).Mode\<close> is \<open>Passthrough\<close>.\<close>

definition is_passthrough :: "listener \<Rightarrow> bool" where
  "is_passthrough l \<longleftrightarrow> ls_tls (li_K8sResource l) \<noteq> None \<and> ls_tlsMode (li_K8sResource l) = Some ''Passthrough''"

definition TLSRoute_kind :: "(tls_route_k8s, tls_backend_ref list) route_kind" where
  "TLSRoute_kind = \<lparr>rk_object = OTLSRoute, rk_parentRefs = trk_parentRefs, rk_hostnames = trk_hostnames,
     rk_rules = trk_rules, rk_backendRefs = map tb_ref, rk_section_ok = is_passthrough,
     rk_copy_clears = False, rk_tree = TLSRoutes, rk_set_tree = (\<lambda>t g. g\<lparr>TLSRoutes := t\<rparr>),
     rk_updates = (\<lambda>c. updates (cs_TLSRoutes c))\<rparr>"

definition rk_meta :: "('k, 'r) route_kind \<Rightarrow> 'k \<Rightarrow> objmeta" where
  "rk_meta K x = obj_meta (rk_object K x)"

subsection \<open>Nodes\<close>

text \<open>The zero value of a \<open>RouteConditions\<close> has no key function; nothing is stored in it.\<close>

definition route_conditions0 :: "string \<Rightarrow> route_conditions" where
  "route_conditions0 controllerName = \<lparr>rc_Conditions = NewKeyMap ParentRefToKey, rc_ControllerName = controllerName\<rparr>"

definition check_result_route0 :: check_result_route where
  "check_result_route0 = \<lparr>crr_Conditions = route_conditions0 [], crr_Valid = False\<rparr>"

definition NewRoute :: "'k \<Rightarrow> string \<Rightarrow> ('k, 'r) route tree_res" where
  "NewRoute k8sObject controllerName = new_tree_res
     \<lparr>rt_K8sResource = Some k8sObject, rt_Listeners = NewKeyMap ParentRefToKey, rt_Rules = [],
      rt_Conditions = route_conditions0 [], rt_ControllerName = controllerName,
      rt_CheckParentRefs = \<lparr>crr_Conditions = route_conditions0 controllerName, crr_Valid = False\<rparr>, rt_Valid = False\<rparr>"

text \<open>The copy goes through JSON, which leaves out the unexported fields of a \<open>KeyMap\<close>, and the
  listeners are copied by \<open>KeyMap.DeepCopy\<close>, which leaves out values without a
  \<open>DeepCopy\<close> method, such as slices.\<close>

definition route_copy :: "('k, 'r) route \<Rightarrow> ('k, 'r) route" where
  "route_copy r = r\<lparr>rt_Listeners := KeyMap_DeepCopy None (rt_Listeners r),
     rt_Rules := map (\<lambda>rule. rule\<lparr>rr_CheckBackendRef := NewKeyMap BackendObjectReferenceToKey\<rparr>) (rt_Rules r),
     rt_Conditions := route_conditions0 (rc_ControllerName (rt_Conditions r)),
     rt_CheckParentRefs := \<lparr>crr_Conditions = route_conditions0 (rc_ControllerName (crr_Conditions (rt_CheckParentRefs r))),
       crr_Valid = crr_Valid (rt_CheckParentRefs r)\<rparr>\<rparr>"

text \<open>\<open>DeepCopy\<close> of an HTTPRoute also empties the listeners of the copied node.\<close>

definition set_route_status :: "('k, 'r) route_kind \<Rightarrow> status \<Rightarrow> ('k, 'r) route tree_res \<Rightarrow> ('k, 'r) route tree_res" where
  "set_route_status K st r = \<lparr>tr_status = \<lparr>OldTreeResource = Some (route_copy (tr_core r)), TreeStatus = st\<rparr>,
     tr_core = (if rk_copy_clears K then (tr_core r)\<lparr>rt_Listeners := KeyMap_Clear (rt_Listeners (tr_core r))\<rparr> else tr_core r)\<rparr>"

definition Route_SetAsUpserted :: "('k, 'r) route_kind \<Rightarrow> 'k \<Rightarrow> ('k, 'r) route tree_res \<Rightarrow> ('k, 'r) route tree_res" where
  "Route_SetAsUpserted K newK8sResource r =
     (let r = set_route_status K StatusUpserted r in r\<lparr>tr_core := (tr_core r)\<lparr>rt_K8sResource := Some newK8sResource\<rparr>\<rparr>)"

definition Route_SetAsDeleted :: "('k, 'r) route_kind \<Rightarrow> ('k, 'r) route tree_res \<Rightarrow> ('k, 'r) route tree_res" where
  "Route_SetAsDeleted K r =
     (let r = set_route_status K StatusDeleted r in r\<lparr>tr_core := (tr_core r)\<lparr>rt_K8sResource := None\<rparr>\<rparr>)"

definition Route_isManaged :: "('k, 'r) route \<Rightarrow> bool" where
  "Route_isManaged r = crr_Valid (rt_CheckParentRefs r)"

definition Route_ResetChecks :: "('k, 'r) route \<Rightarrow> ('k, 'r) route" where
  "Route_ResetChecks r = r\<lparr>rt_CheckParentRefs := check_result_route0, rt_Listeners := KeyMap_Clear (rt_Listeners r)\<rparr>"

subsection \<open>Hostnames\<close>

definition match_host :: "string \<Rightarrow> string \<Rightarrow> bool" where
  "match_host routeHostname listenerHostname =
     (routeHostname = listenerHostname
      \<or> has_prefix listenerHostname ''*.''
        \<and> (let domain = drop 2 listenerHostname in routeHostname \<noteq> domain \<and> has_suffix routeHostname (''.'' @ domain))
      \<or> has_prefix routeHostname ''*.''
        \<and> (let domain = drop 2 routeHostname in listenerHostname \<noteq> domain \<and> has_suffix listenerHostname (''.'' @ domain)))"

definition matchHostname :: "string list \<Rightarrow> string option \<Rightarrow> bool" where
  "matchHostname routeHostnames listenerHostname =
     (case listenerHostname of
        None \<Rightarrow> True
      | Some h \<Rightarrow> h = [] \<or> list_ex (\<lambda>r. r = [] \<or> match_host r h) routeHostnames \<or> routeHostnames = [])"

definition Route_isAllowedRouteKind :: "gvk \<Rightarrow> listener \<Rightarrow> bool" where
  "Route_isAllowedRouteKind g l = list_ex (\<lambda>allowed.
     (case rgk_group allowed of Some grp \<Rightarrow> grp = gvk_group g | None \<Rightarrow> True) \<and> rgk_kind allowed = gvk_kind g)
     (li_AllowedRouteKinds l)"

subsection \<open>Attached routes\<close>

definition update_gw :: "namespaced_name \<Rightarrow> (gateway tree_res \<Rightarrow> gateway tree_res) \<Rightarrow> controller_store \<Rightarrow> controller_store" where
  "update_gw k f b = (case map_of (Gateways (cst_GateTree b)) k of None \<Rightarrow> b
     | Some g \<Rightarrow> b\<lparr>cst_GateTree := (cst_GateTree b)\<lparr>Gateways := mput k (f g) (Gateways (cst_GateTree b))\<rparr>\<rparr>)"

definition update_listener :: "string \<Rightarrow> (listener \<Rightarrow> listener) \<Rightarrow> gateway tree_res \<Rightarrow> gateway tree_res" where
  "update_listener n f g = (case map_of (gw_Listeners (tr_core g)) n of None \<Rightarrow> g
     | Some l \<Rightarrow> g\<lparr>tr_core := (tr_core g)\<lparr>gw_Listeners := mput n (f l) (gw_Listeners (tr_core g))\<rparr>\<rparr>)"

text \<open>The listener is the one named \<open>n\<close> of the gateway \<open>gwKey\<close>, with owner \<open>owner\<close>.\<close>

definition addAttachedRoute ::
    "namespaced_name \<Rightarrow> namespaced_name \<Rightarrow> string \<Rightarrow> namespaced_name \<Rightarrow> controller_store \<Rightarrow> controller_store" where
  "addAttachedRoute routeKey gwKey n owner b =
     update_gw owner (\<lambda>g. if TreeStatus (tr_status g) = StatusDeleted then g
        else g\<lparr>tr_status := \<lparr>OldTreeResource = Some (tr_core g), TreeStatus = StatusUpserted\<rparr>\<rparr>)
      (update_gw gwKey (update_listener n (\<lambda>l. l\<lparr>li_AttachedRoutes := sput routeKey (li_AttachedRoutes l)\<rparr>)) b)"

definition deleteAttachedRoute :: "namespaced_name \<Rightarrow> listener_ptr \<Rightarrow> controller_store \<Rightarrow> controller_store" where
  "deleteAttachedRoute routeKey p b =
     update_gw (lp_Owner p) (\<lambda>g. if TreeStatus (tr_status g) = StatusDeleted then g
        else g\<lparr>tr_status := (tr_status g)\<lparr>TreeStatus := StatusUpserted\<rparr>\<rparr>)
      (if lp_current p
       then update_gw (lp_Owner p) (update_listener (ls_name (lp_K8sResource p))
              (\<lambda>l. l\<lparr>li_AttachedRoutes := mdel routeKey (li_AttachedRoutes l)\<rparr>)) b
       else b)"

text \<open>Rebuilding a gateway makes new listeners, so every older pointer to one of its listeners is no
  longer the listener of the tree; this step on the pointers follows the gateway builder.\<close>

definition retire_ptr :: "gateway tree_map \<Rightarrow> listener_ptr \<Rightarrow> listener_ptr" where
  "retire_ptr gws p = p\<lparr>lp_current := lp_current p \<and> (case map_of gws (lp_Owner p) of None \<Rightarrow> False
     | Some g \<Rightarrow> TreeStatus (tr_status g) = StatusUnchanged)\<rparr>"

definition retire_route :: "gateway tree_map \<Rightarrow> ('k, 'r) route tree_res \<Rightarrow> ('k, 'r) route tree_res" where
  "retire_route gws r = r\<lparr>tr_core := (tr_core r)\<lparr>rt_Listeners := (rt_Listeners (tr_core r))
     \<lparr>km_data := map (\<lambda>(k, ps). (k, map (retire_ptr gws) ps)) (km_data (rt_Listeners (tr_core r)))\<rparr>\<rparr>\<rparr>"

definition retire_tree :: "gateway tree_map \<Rightarrow> gate_tree \<Rightarrow> gate_tree" where
  "retire_tree gws t = t\<lparr>HTTPRoutes := map (\<lambda>(k, r). (k, retire_route gws r)) (HTTPRoutes t),
     TLSRoutes := map (\<lambda>(k, r). (k, retire_route gws r)) (TLSRoutes t)\<rparr>"

definition retire_listeners :: "controller_store \<Rightarrow> controller_store" where
  "retire_listeners b = (let gws = Gateways (cst_GateTree b) in
     b\<lparr>cst_GateTree := retire_tree gws (cst_GateTree b), cst_UnmanagedGateTree := retire_tree gws (cst_UnmanagedGateTree b)\<rparr>)"

subsection \<open>The parent references of a route\<close>

record check_parent_ref_result =
  cpr_Conditions :: conditions
  cpr_Managed :: bool
  cpr_Valid :: bool

definition getNamespace :: "string option \<Rightarrow> string \<Rightarrow> string" where
  "getNamespace ns defaultNamespace = (case ns of None \<Rightarrow> defaultNamespace | Some n \<Rightarrow> n)"

definition GetParentRefNamespacedName :: "parent_reference \<Rightarrow> string \<Rightarrow> namespaced_name" where
  "GetParentRefNamespacedName p defaultNamespace = NamespacedName (getNamespace (pref_namespace p) defaultNamespace) (pref_name p)"

definition GetBackendRefNamespacedName :: "backend_object_reference \<Rightarrow> string \<Rightarrow> namespaced_name" where
  "GetBackendRefNamespacedName r defaultNamespace = NamespacedName (getNamespace (bref_namespace r) defaultNamespace) (bref_name r)"

text \<open>Why a listener does not take a route: \<open>None\<close> when it does.\<close>

definition listener_refusal :: "gvk \<Rightarrow> string list \<Rightarrow> listener \<Rightarrow> conditions option" where
  "listener_refusal g hostnames l =
     (if \<not> li_Valid l then Some ConditionNotAcceptedNoMatchingParent
      else if \<not> matchHostname hostnames (ls_hostname (li_K8sResource l)) then Some ConditionNotAcceptedNoMatchingHostname
      else if \<not> Route_isAllowedRouteKind g l then Some ConditionNotAcceptedRouteReasonNotAllowedByListeners
      else None)"

text \<open>The loop over the attachable listeners: the conditions so far, whether a listener was valid, the
  listeners of the route and the store.\<close>

definition attach_listener ::
    "gvk \<Rightarrow> namespaced_name \<Rightarrow> string list \<Rightarrow> parent_reference \<Rightarrow> namespaced_name \<Rightarrow> string \<times> listener
     \<Rightarrow> conditions \<times> bool \<times> (parent_reference, listener_ptr list) key_map \<times> controller_store
     \<Rightarrow> conditions \<times> bool \<times> (parent_reference, listener_ptr list) key_map \<times> controller_store" where
  "attach_listener g routeKey hostnames parentRef gwKey nl s =
     (case (nl, s) of ((n, l), (conds, anyValid, ls, b)) \<Rightarrow>
        (case listener_refusal g hostnames l of
           Some c \<Rightarrow> (MergeOverrideConditions conds c, anyValid, ls, b)
         | None \<Rightarrow>
             (let existing = (case KeyMap_Get ls parentRef of None \<Rightarrow> [] | Some ps \<Rightarrow> ps);
                  p = \<lparr>lp_Owner = li_Owner l, lp_K8sResource = li_K8sResource l, lp_current = True\<rparr>
              in (conds, True, KeyMap_Set parentRef (existing @ [p]) ls, addAttachedRoute routeKey gwKey n (li_Owner l) b))))"

definition parent_ref_result :: "conditions \<Rightarrow> bool \<Rightarrow> bool \<Rightarrow> check_parent_ref_result" where
  "parent_ref_result c managed valid = \<lparr>cpr_Conditions = c, cpr_Managed = managed, cpr_Valid = valid\<rparr>"

text \<open>The listeners that the section name allows, or the conditions of a reference that names none.\<close>

definition attachable_listeners ::
    "('k, 'r) route_kind \<Rightarrow> parent_reference \<Rightarrow> gateway \<Rightarrow> conditions + (string, listener) gomap" where
  "attachable_listeners K parentRef gw =
     (case pref_sectionName parentRef of
        None \<Rightarrow> Inr (gw_Listeners gw)
      | Some n \<Rightarrow> (case map_of (gw_Listeners gw) n of
          None \<Rightarrow> Inl ConditionNotAcceptedNoMatchingParent
        | Some l \<Rightarrow> if \<not> rk_section_ok K l then Inl ConditionNotAcceptedRouteReasonNotAllowedByListeners
                   else Inr [(n, l)]))"

definition Route_checkParentRef ::
    "(k8s_object \<Rightarrow> gvk) \<Rightarrow> ('k, 'r) route_kind \<Rightarrow> 'k \<Rightarrow> parent_reference \<Rightarrow> ('k, 'r) route \<times> controller_store
     \<Rightarrow> check_parent_ref_result \<times> ('k, 'r) route \<times> controller_store" where
  "Route_checkParentRef extractGVK K k8s parentRef rb =
     (let (r, b) = rb; gwKey = GetParentRefNamespacedName parentRef (om_namespace (rk_meta K k8s)) in
      if \<not> IsParentRefGroupKindSupported parentRef extractGVK then (parent_ref_result [] False False, rb)
      else case map_of (Gateways (cst_GateTree b)) gwKey of
        None \<Rightarrow> (parent_ref_result [] False False, rb)
      | Some treeGw \<Rightarrow>
          if TreeStatus (tr_status treeGw) = StatusDeleted
          then (parent_ref_result ConditionNotAcceptedNoMatchingParent True False, rb)
          else
            (case attachable_listeners K parentRef (tr_core treeGw) of
               Inl c \<Rightarrow> (parent_ref_result c True False, rb)
             | Inr attachable \<Rightarrow>
                 (let (conds, anyValid, ls, b') =
                    fold (attach_listener (extractGVK (rk_object K k8s)) (meta_key (rk_meta K k8s)) (rk_hostnames K k8s) parentRef gwKey)
                      attachable ([], False, rt_Listeners r, b)
                  in (if anyValid then parent_ref_result ConditionAccepted True True else parent_ref_result conds True False,
                      r\<lparr>rt_Listeners := ls\<rparr>, b'))))"

definition Route_checkParentRefs ::
    "(k8s_object \<Rightarrow> gvk) \<Rightarrow> ('k, 'r) route_kind \<Rightarrow> ('k, 'r) route \<times> controller_store \<Rightarrow> ('k, 'r) route \<times> controller_store" where
  "Route_checkParentRefs extractGVK K rb =
     (let (r, b) = rb; conds0 = route_conditions0 (rt_ControllerName r) in
      case rt_K8sResource r of
        None \<Rightarrow> (r\<lparr>rt_CheckParentRefs := \<lparr>crr_Conditions = conds0, crr_Valid = False\<rparr>\<rparr>, b)
      | Some k8s \<Rightarrow>
          (let (conds, valid, r', b') = fold (\<lambda>parentRef (conds, valid, r, b).
                 let (result, r', b') = Route_checkParentRef extractGVK K k8s parentRef (r, b) in
                 if \<not> cpr_Managed result then (conds, valid, r', b')
                 else (MergeOverrideConditionsForParentRef parentRef (cpr_Conditions result) conds,
                       valid \<or> cpr_Valid result, r', b'))
               (rk_parentRefs K k8s) (conds0, False, r, b)
           in (r'\<lparr>rt_CheckParentRefs := \<lparr>crr_Conditions = conds, crr_Valid = valid\<rparr>\<rparr>, b')))"

definition Route_processChecks ::
    "(k8s_object \<Rightarrow> gvk) \<Rightarrow> ('k, 'r) route_kind \<Rightarrow> ('k, 'r) route \<times> controller_store \<Rightarrow> ('k, 'r) route \<times> controller_store" where
  "Route_processChecks extractGVK K rb =
     (let (r, b) = Route_checkParentRefs extractGVK K rb in (r\<lparr>rt_Valid := crr_Valid (rt_CheckParentRefs r)\<rparr>, b))"

subsection \<open>Conditions\<close>

definition merge_for_key :: "string \<Rightarrow> conditions \<Rightarrow> route_conditions \<Rightarrow> bool \<times> route_conditions" where
  "merge_for_key key conds c = (True, case KeyToParentRef key of Inl _ \<Rightarrow> c
     | Inr parentRef \<Rightarrow> MergeOverrideConditionsForParentRef parentRef conds c)"

definition Route_BuildConditions :: "('k, 'r) route_kind \<Rightarrow> ('k, 'r) route \<Rightarrow> ('k, 'r) route" where
  "Route_BuildConditions K r =
     (if \<not> Route_isManaged r then r
      else let conds0 = (case rt_K8sResource r of None \<Rightarrow> route_conditions0 (rt_ControllerName r)
                 | Some k8s \<Rightarrow> RouteConditions_SetGeneration (om_generation (rk_meta K k8s)) (route_conditions0 (rt_ControllerName r)))
      in r\<lparr>rt_Conditions := KeyMap_Iterate merge_for_key (rc_Conditions (crr_Conditions (rt_CheckParentRefs r))) conds0,
           rt_Valid := crr_Valid (rt_CheckParentRefs r)\<rparr>)"

definition ko_conditions :: "'r route_rule list \<Rightarrow> conditions" where
  "ko_conditions rules = fold (\<lambda>rule conds. KeyMap_Iterate (\<lambda>_ res conds.
     (True, if \<not> cr_Valid res then MergeOverrideConditions conds (cr_Conditions res) else conds)) (rr_CheckBackendRef rule) conds) rules []"

definition Route_mergeBackendConditions :: "('k, 'r) route \<Rightarrow> ('k, 'r) route" where
  "Route_mergeBackendConditions r =
     (let ko = ko_conditions (rt_Rules r); resolved = (if ko \<noteq> [] then ko else ConditionOKResolvedRef)
      in r\<lparr>rt_Conditions := KeyMap_Iterate (\<lambda>key _. merge_for_key key resolved) (rc_Conditions (rt_Conditions r)) (rt_Conditions r)\<rparr>)"

subsection \<open>Rules\<close>

definition ServiceNsNameKey :: "string \<Rightarrow> backend_object_reference \<Rightarrow> namespaced_name" where
  "ServiceNsNameKey routeNs backendRef =
     (if bref_namespace backendRef = None \<or> bref_namespace backendRef = Some [] then NamespacedName routeNs (bref_name backendRef)
      else NamespacedName (the (bref_namespace backendRef)) (bref_name backendRef))"

definition backend_ref_check :: "(k8s_object \<Rightarrow> gvk) \<Rightarrow> service tree_map \<Rightarrow> string \<Rightarrow> backend_object_reference \<Rightarrow> check_result" where
  "backend_ref_check extractGVK services routeNs backendRef =
     (if \<not> IsBackendRefGroupKindSupported backendRef extractGVK
      then \<lparr>cr_Conditions = ConditionKOResolvedRefInvalidKind (BackendObjectReferenceToKey backendRef), cr_Valid = False\<rparr>
      else if (case map_of services (ServiceNsNameKey routeNs backendRef) of None \<Rightarrow> True
               | Some s \<Rightarrow> TreeStatus (tr_status s) = StatusDeleted)
      then \<lparr>cr_Conditions = ConditionKOResolvedRefNotFound (BackendObjectReferenceToKey backendRef), cr_Valid = False\<rparr>
      else \<lparr>cr_Conditions = ConditionOKResolvedRef, cr_Valid = True\<rparr>)"

text \<open>\<open>Valid\<close> of the rule is only written after a reference that passed, with the value of
  \<open>routeValid\<close> at that moment.\<close>

definition Rule_checkBackendRef ::
    "(k8s_object \<Rightarrow> gvk) \<Rightarrow> ('k, 'r) route_kind \<Rightarrow> service tree_map \<Rightarrow> string \<Rightarrow> 'r route_rule \<Rightarrow> 'r route_rule" where
  "Rule_checkBackendRef extractGVK K services routeNs rule =
     snd (fold (\<lambda>backendRef (routeValid, rule).
       let res = backend_ref_check extractGVK services routeNs backendRef;
           rule' = rule\<lparr>rr_CheckBackendRef := KeyMap_Set backendRef res (rr_CheckBackendRef rule)\<rparr>
       in if \<not> cr_Valid res then (False, rule') else (routeValid, rule'\<lparr>rr_Valid := routeValid\<rparr>))
     (rk_backendRefs K (rr_K8sResource rule)) (True, rule))"

definition Route_buildRules ::
    "(k8s_object \<Rightarrow> gvk) \<Rightarrow> ('k, 'r) route_kind \<Rightarrow> service tree_map \<Rightarrow> ('k, 'r) route \<Rightarrow> ('k, 'r) route" where
  "Route_buildRules extractGVK K services r =
     (case rt_K8sResource r of None \<Rightarrow> r
      | Some k8s \<Rightarrow> r\<lparr>rt_Rules := map (\<lambda>rule. Rule_checkBackendRef extractGVK K services (om_namespace (rk_meta K k8s))
            \<lparr>rr_K8sResource = rule, rr_CheckBackendRef = NewKeyMap BackendObjectReferenceToKey, rr_Valid = False\<rparr>) (rk_rules K k8s)\<rparr>)"

subsection \<open>The builders\<close>

definition put_route :: "('k, 'r) route_kind \<Rightarrow> namespaced_name \<Rightarrow> ('k, 'r) route tree_res \<Rightarrow> gate_tree \<Rightarrow> gate_tree" where
  "put_route K k r t = rk_set_tree K (mput k r (rk_tree K t)) t"

definition Route_SetAsManaged ::
    "('k, 'r) route_kind \<Rightarrow> namespaced_name \<Rightarrow> ('k, 'r) route tree_res \<Rightarrow> controller_store \<Rightarrow> controller_store" where
  "Route_SetAsManaged K key r b = b\<lparr>cst_GateTree := put_route K key r (cst_GateTree b),
     cst_UnmanagedGateTree := (cst_UnmanagedGateTree b)\<lparr>Gateways := mdel key (Gateways (cst_UnmanagedGateTree b))\<rparr>\<rparr>"

definition Route_SetAsUnmanaged ::
    "('k, 'r) route_kind \<Rightarrow> namespaced_name \<Rightarrow> ('k, 'r) route tree_res \<Rightarrow> controller_store \<Rightarrow> controller_store" where
  "Route_SetAsUnmanaged K key r b = b\<lparr>cst_UnmanagedGateTree := put_route K key r (cst_UnmanagedGateTree b),
     cst_GateTree := (cst_GateTree b)\<lparr>Gateways := mdel key (Gateways (cst_GateTree b))\<rparr>\<rparr>"

definition write_tree :: "('k, 'r) route_kind \<Rightarrow> namespaced_name \<Rightarrow> ('k, 'r) route tree_res \<Rightarrow> gate_tree \<Rightarrow> gate_tree" where
  "write_tree K k r t = (if mhas (rk_tree K t) k then put_route K k r t else t)"

definition write_route ::
    "('k, 'r) route_kind \<Rightarrow> namespaced_name \<Rightarrow> ('k, 'r) route tree_res \<Rightarrow> controller_store \<Rightarrow> controller_store" where
  "write_route K k r b = b\<lparr>cst_GateTree := write_tree K k r (cst_GateTree b),
     cst_UnmanagedGateTree := write_tree K k r (cst_UnmanagedGateTree b)\<rparr>"

definition find_route :: "('k, 'r) route_kind \<Rightarrow> namespaced_name \<Rightarrow> controller_store \<Rightarrow> ('k, 'r) route tree_res option" where
  "find_route K k b = (case map_of (rk_tree K (cst_GateTree b)) k of
     Some r \<Rightarrow> Some r | None \<Rightarrow> map_of (rk_tree K (cst_UnmanagedGateTree b)) k)"

definition route_ptrs :: "('k, 'r) route \<Rightarrow> listener_ptr list" where
  "route_ptrs r = concat (map snd (km_data (rt_Listeners r)))"

definition Route_computeTreeUpdate ::
    "(k8s_object \<Rightarrow> gvk) \<Rightarrow> ('k, 'r) route_kind \<Rightarrow> namespaced_name \<Rightarrow> 'k update \<Rightarrow> controller_store \<Rightarrow> controller_store" where
  "Route_computeTreeUpdate extractGVK K k u b =
     (case Status u of
        StatusUpserted \<Rightarrow>
          (case NewObject u of
             None \<Rightarrow> b
           | Some k8s \<Rightarrow>
               (let node = (case find_route K k b of
                      Some r \<Rightarrow> (let r = Route_SetAsUpserted K k8s r in r\<lparr>tr_core := Route_ResetChecks (tr_core r)\<rparr>)
                    | None \<Rightarrow> NewRoute k8s (cst_ControllerName b));
                    (core, b') = Route_processChecks extractGVK K (tr_core node, b);
                    node' = node\<lparr>tr_core := Route_BuildConditions K core\<rparr>;
                    b'' = write_route K k node' b';
                    key = meta_key (rk_meta K k8s)
                in if Route_isManaged core then Route_SetAsManaged K key node' b'' else Route_SetAsUnmanaged K key node' b''))
      | StatusDeleted \<Rightarrow>
          (case find_route K k b of
             None \<Rightarrow> b
           | Some r \<Rightarrow>
               (let b' = (case rt_K8sResource (tr_core r) of None \<Rightarrow> b
                      | Some k8s \<Rightarrow> fold (deleteAttachedRoute (meta_key (rk_meta K k8s))) (route_ptrs (tr_core r)) b);
                    r' = Route_SetAsDeleted K r
                in write_route K k (r'\<lparr>tr_core := Route_ResetChecks (tr_core r')\<rparr>) b'))
      | StatusUnchanged \<Rightarrow> b)"

definition finish_route ::
    "(k8s_object \<Rightarrow> gvk) \<Rightarrow> ('k, 'r) route_kind \<Rightarrow> service tree_map \<Rightarrow> ('k, 'r) route \<Rightarrow> ('k, 'r) route" where
  "finish_route extractGVK K services r =
     Route_mergeBackendConditions (if Route_isManaged r then Route_buildRules extractGVK K services r else r)"

definition finish_step ::
    "(k8s_object \<Rightarrow> gvk) \<Rightarrow> ('k, 'r) route_kind \<Rightarrow> namespaced_name \<times> ('k, 'r) route tree_res \<Rightarrow> controller_store \<Rightarrow> controller_store" where
  "finish_step extractGVK K kr b = (case kr of (k, r) \<Rightarrow>
     if TreeStatus (tr_status r) \<noteq> StatusUpserted then b
     else write_route K k (r\<lparr>tr_core := finish_route extractGVK K (Services (cst_GateTree b)) (tr_core r)\<rparr>) b)"

definition Route_computeGateTreeUpdates ::
    "(k8s_object \<Rightarrow> gvk) \<Rightarrow> ('k, 'r) route_kind \<Rightarrow> controller_store \<Rightarrow> controller_store" where
  "Route_computeGateTreeUpdates extractGVK K b =
     (let b1 = fold (\<lambda>(k, u). Route_computeTreeUpdate extractGVK K k u) (rk_updates K (cst_ClusterStore b)) b
      in fold (finish_step extractGVK K) (rk_tree K (cst_GateTree b1)) b1)"

definition Route_CleanTreeUpdates :: "('k, 'r) route_kind \<Rightarrow> controller_store \<Rightarrow> controller_store" where
  "Route_CleanTreeUpdates K b =
     b\<lparr>cst_GateTree := rk_set_tree K (cleanTreeUpdates (rk_tree K (cst_GateTree b))) (cst_GateTree b),
       cst_UnmanagedGateTree := rk_set_tree K (cleanTreeUpdates (rk_tree K (cst_UnmanagedGateTree b))) (cst_UnmanagedGateTree b)\<rparr>"

text \<open>The functions of the source, at their kinds.\<close>

definition HTTPRoute_checkParentRefs where "HTTPRoute_checkParentRefs extractGVK = Route_checkParentRefs extractGVK HTTPRoute_kind"
definition TLSRoute_checkParentRefs where "TLSRoute_checkParentRefs extractGVK = Route_checkParentRefs extractGVK TLSRoute_kind"
definition HTTPRoute_checkParentRef where "HTTPRoute_checkParentRef extractGVK = Route_checkParentRef extractGVK HTTPRoute_kind"
definition TLSRoute_checkParentRef where "TLSRoute_checkParentRef extractGVK = Route_checkParentRef extractGVK TLSRoute_kind"
definition HTTPRoute_computeTreeGatewayUpdate where
  "HTTPRoute_computeTreeGatewayUpdate extractGVK = Route_computeTreeUpdate extractGVK HTTPRoute_kind"
definition TLSRoute_computeTreeGatewayUpdate where
  "TLSRoute_computeTreeGatewayUpdate extractGVK = Route_computeTreeUpdate extractGVK TLSRoute_kind"
definition HTTPRoute_computeGateTreeUpdates where
  "HTTPRoute_computeGateTreeUpdates extractGVK = Route_computeGateTreeUpdates extractGVK HTTPRoute_kind"
definition TLSRoute_computeGateTreeUpdates where
  "TLSRoute_computeGateTreeUpdates extractGVK = Route_computeGateTreeUpdates extractGVK TLSRoute_kind"
definition HTTPRoute_CleanTreeUpdates where "HTTPRoute_CleanTreeUpdates = Route_CleanTreeUpdates HTTPRoute_kind"
definition TLSRoute_CleanTreeUpdates where "TLSRoute_CleanTreeUpdates = Route_CleanTreeUpdates TLSRoute_kind"
definition HTTPRouteRule_checkBackendRef where
  "HTTPRouteRule_checkBackendRef extractGVK = Rule_checkBackendRef extractGVK HTTPRoute_kind"
definition TLSRouteRule_checkBackendRef where
  "TLSRouteRule_checkBackendRef extractGVK = Rule_checkBackendRef extractGVK TLSRoute_kind"

subsection \<open>Hostnames: the check and the maps agree\<close>

lemma match_self: "hostnamesMatchingRouteAndListener p p"
  by (cases "has_prefix p ''*.''") (simp_all add: matching_wild matching_exact suffix_drop)

lemma match_host_iff:
  "match_host r l \<longleftrightarrow> hostnamesMatchingRouteAndListener l r \<or> hostnamesMatchingRouteAndListener r l"
proof -
  have wild: "drop 1 p = CHR ''.'' # drop 2 p" if "has_prefix p ''*.''" for p
    using wild_form[OF that] by auto
  have longer: "\<not> suffix (CHR ''.'' # d) d" for d using suffix_length_le[of "CHR ''.'' # d" d] by auto
  have side: "has_prefix p ''*.'' \<and> (let domain = drop 2 p in h \<noteq> domain \<and> has_suffix h (''.'' @ domain))
      \<longleftrightarrow> has_prefix p ''*.'' \<and> hostnamesMatchingRouteAndListener p h" for p h
    using longer wild by (auto simp: matching_wild has_suffix_suffix Let_def)
  have split: "hostnamesMatchingRouteAndListener p h \<longleftrightarrow> p = h \<or> has_prefix p ''*.'' \<and> hostnamesMatchingRouteAndListener p h" for p h
    using match_self matching_exact by blast
  show ?thesis unfolding match_host_def side using split[of l r] split[of r l] by argo
qed

text \<open>C30: a route passes the hostname check of a listener exactly when there is a host that both the
  listener and the route accept, and exactly when the list of hostnames under which the route is
  later written to the maps of the listener is not empty.\<close>

theorem matchHostname_iff_map_hostnames:
  assumes "rs \<noteq> []" "[] \<notin> set rs" "l \<noteq> []"
  shows "(matchHostname rs (Some l) \<longleftrightarrow> GetHostnamesForRouteWithListener (Some l) rs \<noteq> [])
    \<and> (matchHostname rs (Some l) \<longleftrightarrow>
        (\<exists>h. hostnamesMatchingRouteAndListener l h \<and> (\<exists>r \<in> set rs. hostnamesMatchingRouteAndListener r h)))"
proof -
  have m: "matchHostname rs (Some l) \<longleftrightarrow> (\<exists>r \<in> set rs. hostnamesMatchingRouteAndListener l r \<or> hostnamesMatchingRouteAndListener r l)"
    using assms by (auto simp: matchHostname_def list_ex_iff match_host_iff)
  have "GetHostnamesForRouteWithListener (Some l) rs \<noteq> []
      \<longleftrightarrow> set (GetHostnamesForRouteWithListener (Some l) rs) \<noteq> {}" by simp
  also have "\<dots> \<longleftrightarrow> matchHostname rs (Some l)" unfolding m set_GetHostnames[OF assms(1)] by blast
  finally have hosts: "matchHostname rs (Some l) \<longleftrightarrow> GetHostnamesForRouteWithListener (Some l) rs \<noteq> []" by simp
  have "hostnamesMatchingRouteAndListener l h \<and> hostnamesMatchingRouteAndListener r h
      \<Longrightarrow> hostnamesMatchingRouteAndListener l r \<or> hostnamesMatchingRouteAndListener r l" for r h
    using matching_inter[of l h r] by (auto split: if_splits)
  then show ?thesis using hosts match_self unfolding m by blast
qed

theorem matchHostname_iff_map_hostnames_witness:
  "matchHostname [''b.org'', ''*.com''] (Some ''*.a.com'')
   \<and> GetHostnamesForRouteWithListener (Some ''*.a.com'') [''b.org'', ''*.com''] \<noteq> []"
proof -
  have "matchHostname [''b.org'', ''*.com''] (Some ''*.a.com'')" by code_simp
  then show ?thesis using matchHostname_iff_map_hostnames[of "[''b.org'', ''*.com'']" "''*.a.com''"] by simp
qed

subsection \<open>Attached routes\<close>

definition listener_at :: "controller_store \<Rightarrow> namespaced_name \<Rightarrow> string \<Rightarrow> listener option" where
  "listener_at b gk n = (case map_of (Gateways (cst_GateTree b)) gk of None \<Rightarrow> None
     | Some g \<Rightarrow> map_of (gw_Listeners (tr_core g)) n)"

definition attached :: "controller_store \<Rightarrow> namespaced_name \<Rightarrow> string \<Rightarrow> namespaced_name set" where
  "attached b gk n = (case listener_at b gk n of None \<Rightarrow> {} | Some l \<Rightarrow> mkeys (li_AttachedRoutes l))"

text \<open>A gateway without its attached routes, and the gateways of a store up to attached routes and
  the mark \<open>Upserted\<close>.\<close>

definition bare_listener :: "listener \<Rightarrow> listener" where
  "bare_listener l = l\<lparr>li_AttachedRoutes := []\<rparr>"

definition bare :: "gateway \<Rightarrow> gateway" where
  "bare g = g\<lparr>gw_Listeners := map (\<lambda>(n, l). (n, bare_listener l)) (gw_Listeners g)\<rparr>"

definition bare_gateways :: "controller_store \<Rightarrow> namespaced_name \<Rightarrow> (gateway \<times> bool) option" where
  "bare_gateways b k = map_option (\<lambda>g. (bare (tr_core g), TreeStatus (tr_status g) = StatusDeleted))
     (map_of (Gateways (cst_GateTree b)) k)"

lemma bare_mput:
  assumes "map_of m n = Some l" "bare_listener (f l) = bare_listener l"
  shows "map (\<lambda>(n, l). (n, bare_listener l)) (mput n (f l) m) = map (\<lambda>(n, l). (n, bare_listener l)) m"
  using assms by (induction m) (auto split: if_splits)

lemma bare_update_listener:
  "(\<And>l. bare_listener (f l) = bare_listener l) \<Longrightarrow> bare (tr_core (update_listener n f g)) = bare (tr_core g)"
  by (auto simp: update_listener_def bare_def bare_mput split: option.splits)

lemma gateways_update_gw:
  "map_of (Gateways (cst_GateTree (update_gw k f b))) j
     = (if j = k then map_option f (map_of (Gateways (cst_GateTree b)) k) else map_of (Gateways (cst_GateTree b)) j)"
  by (auto simp: update_gw_def map_of_mput split: option.splits)

lemma bare_update_gw:
  assumes "\<And>g. bare (tr_core (f g)) = bare (tr_core g)"
    and "\<And>g. TreeStatus (tr_status (f g)) = StatusDeleted \<longleftrightarrow> TreeStatus (tr_status g) = StatusDeleted"
  shows "bare_gateways (update_gw k f b) = bare_gateways b"
  by (rule ext) (simp add: bare_gateways_def gateways_update_gw assms option.map_comp comp_def)

lemma status_update_listener: "tr_status (update_listener n f g) = tr_status g"
  by (auto simp: update_listener_def split: option.splits)

lemma listener_update_listener:
  "map_of (gw_Listeners (tr_core (update_listener n f g))) m
     = (if m = n then map_option f (map_of (gw_Listeners (tr_core g)) n) else map_of (gw_Listeners (tr_core g)) m)"
  by (auto simp: update_listener_def map_of_mput split: option.splits)

lemma attach_frame:
  "bare_gateways (addAttachedRoute rk gwKey n owner b) = bare_gateways b"
  "bare_gateways (deleteAttachedRoute rk p b) = bare_gateways b"
  unfolding addAttachedRoute_def deleteAttachedRoute_def
  by (auto simp: bare_update_gw bare_update_listener bare_listener_def status_update_listener)

lemma listener_at_mark: "(\<And>g. tr_core (f g) = tr_core g) \<Longrightarrow> listener_at (update_gw k f b) = listener_at b"
  by (intro ext) (auto simp: listener_at_def gateways_update_gw split: option.splits)

lemma listener_at_write:
  "listener_at (update_gw k (update_listener n f) b) gk m
     = (if gk = k \<and> m = n then map_option f (listener_at b k n) else listener_at b gk m)"
  by (auto simp: listener_at_def gateways_update_gw listener_update_listener split: option.splits)

lemma attached_add:
  "attached (addAttachedRoute rk gwKey n owner b) gk m
     = attached b gk m \<union> (if gk = gwKey \<and> m = n \<and> listener_at b gwKey n \<noteq> None then {rk} else {})"
  unfolding addAttachedRoute_def attached_def
  by (subst listener_at_mark) (auto simp: listener_at_write split: option.splits)

lemma attached_delete:
  "attached (deleteAttachedRoute rk p b) gk m
     = attached b gk m - (if lp_current p \<and> gk = lp_Owner p \<and> m = ls_name (lp_K8sResource p) then {rk} else {})"
  unfolding deleteAttachedRoute_def attached_def
  by (subst listener_at_mark) (auto simp: listener_at_write split: option.splits)

definition only_gateways :: "controller_store \<Rightarrow> controller_store \<Rightarrow> bool" where
  "only_gateways b b' \<longleftrightarrow> b' = b\<lparr>cst_GateTree := (cst_GateTree b)\<lparr>Gateways := Gateways (cst_GateTree b')\<rparr>\<rparr>
     \<and> (wf_map (Gateways (cst_GateTree b)) \<longrightarrow> wf_map (Gateways (cst_GateTree b')))"

lemma only_gateways_refl: "only_gateways b b" by (simp add: only_gateways_def)

lemma only_gateways_eq: "only_gateways b b' \<Longrightarrow> b' = b\<lparr>cst_GateTree := (cst_GateTree b)\<lparr>Gateways := Gateways (cst_GateTree b')\<rparr>\<rparr>"
  by (simp add: only_gateways_def)

lemma only_gateways_trans:
  assumes "only_gateways a b" "only_gateways b c" shows "only_gateways a c"
proof -
  have "c = b\<lparr>cst_GateTree := (cst_GateTree b)\<lparr>Gateways := Gateways (cst_GateTree c)\<rparr>\<rparr>"
    by (rule only_gateways_eq[OF assms(2)])
  also have "\<dots> = a\<lparr>cst_GateTree := (cst_GateTree a)\<lparr>Gateways := Gateways (cst_GateTree c)\<rparr>\<rparr>"
    by (subst (1 2) only_gateways_eq[OF assms(1)]) simp
  finally show ?thesis using assms unfolding only_gateways_def by blast
qed

lemma only_update_gw: "only_gateways b (update_gw k f b)"
  by (auto simp: only_gateways_def update_gw_def wf_mput split: option.splits)

lemma only_attach: "only_gateways b (addAttachedRoute rk gwKey n owner b)" "only_gateways b (deleteAttachedRoute rk p b)"
  unfolding addAttachedRoute_def deleteAttachedRoute_def
  by (auto intro: only_gateways_trans[OF _ only_update_gw] only_update_gw only_gateways_refl)

lemma listener_at_bare:
  "map_option bare_listener (listener_at b gk n)
     = (case bare_gateways b gk of None \<Rightarrow> None | Some (g, _) \<Rightarrow> map_of (gw_Listeners g) n)"
  by (auto simp: listener_at_def bare_gateways_def bare_def map_of_map_values split: option.splits)

lemma listener_at_cong:
  "bare_gateways b = bare_gateways b' \<Longrightarrow> listener_at b gk n = None \<longleftrightarrow> listener_at b' gk n = None"
  using listener_at_bare[of b gk n] listener_at_bare[of b' gk n] by (metis option.map_disc_iff)

lemma refusal_bare: "listener_refusal g hosts (bare_listener l) = listener_refusal g hosts l"
  by (simp add: listener_refusal_def bare_listener_def Route_isAllowedRouteKind_def)

lemma attach_fold:
  assumes "fold (attach_listener g rk hosts p gwKey) xs (c, v, ls, b) = (c', v', ls', b')"
  shows "bare_gateways b' = bare_gateways b \<and> only_gateways b b'
    \<and> (v' \<longleftrightarrow> v \<or> (\<exists>(n, l) \<in> set xs. listener_refusal g hosts l = None))
    \<and> (\<forall>gk m. attached b' gk m = attached b gk m \<union>
         (if gk = gwKey \<and> listener_at b gwKey m \<noteq> None \<and> (\<exists>l. (m, l) \<in> set xs \<and> listener_refusal g hosts l = None) then {rk} else {}))"
  using assms
proof (induction xs arbitrary: c v ls b)
  case (Cons x xs)
  obtain n l where x: "x = (n, l)" by (cases x)
  obtain c1 v1 ls1 b1 where s: "attach_listener g rk hosts p gwKey x (c, v, ls, b) = (c1, v1, ls1, b1)"
    by (cases "attach_listener g rk hosts p gwKey x (c, v, ls, b)")
  note ih = Cons.IH[of c1 v1 ls1 b1] Cons.prems[simplified fold.simps comp_def s]
  show ?case
  proof (cases "listener_refusal g hosts l")
    case None
    then have b1: "b1 = addAttachedRoute rk gwKey n (li_Owner l) b" "v1"
      using s by (auto simp: x attach_listener_def Let_def)
    have at: "listener_at b1 gk m = None \<longleftrightarrow> listener_at b gk m = None" for gk m
      by (rule listener_at_cong) (simp add: b1 attach_frame)
    show ?thesis using ih(1)[OF ih(2)] None only_gateways_trans[OF only_attach(1)[of b rk gwKey n "li_Owner l"]]
      unfolding at by (auto simp: b1 attach_frame attached_add x)
  next
    case (Some c2)
    then have "b1 = b" "v1 = v" using s by (auto simp: x attach_listener_def)
    then show ?thesis using ih(1)[OF ih(2)] Some by (auto simp: x)
  qed
qed (simp add: only_gateways_refl)

definition accepted :: "conditions \<Rightarrow> bool" where
  "accepted c \<longleftrightarrow> (\<exists>v. map_of c ''Accepted'' = Some v \<and> Cond_Status v = ''True'')"

lemma not_accepted:
  "\<not> accepted []" "\<not> accepted ConditionNotAcceptedNoMatchingParent" "\<not> accepted ConditionNotAcceptedNoMatchingHostname"
  "\<not> accepted ConditionNotAcceptedRouteReasonNotAllowedByListeners" "accepted ConditionAccepted"
  "map_of ConditionNotAcceptedNoMatchingParent ''Accepted'' \<noteq> None" "map_of ConditionNotAcceptedNoMatchingHostname ''Accepted'' \<noteq> None"
  "map_of ConditionNotAcceptedRouteReasonNotAllowedByListeners ''Accepted'' \<noteq> None"
  by (simp_all add: accepted_def condition_constructors cond_entry_def)

lemma refusal_conditions:
  "listener_refusal g hosts l = Some c \<Longrightarrow> coherent c \<and> \<not> accepted c \<and> map_of c ''Accepted'' \<noteq> None"
  by (auto simp: listener_refusal_def not_accepted split: if_splits simp del: not_None_eq)

lemma accepted_merge: "coherent b \<Longrightarrow> accepted (MergeOverrideConditions c b) \<longleftrightarrow>
    (if map_of b ''Accepted'' = None then accepted c else accepted b)"
  by (auto simp: accepted_def map_of_Merge_wf coherent_def split: option.splits)

lemma attach_conditions:
  assumes "fold (attach_listener g rk hosts p gwKey) xs (c, v, ls, b) = (c', v', ls', b')" "coherent c \<and> \<not> accepted c"
  shows "coherent c' \<and> \<not> accepted c'"
  using assms
proof (induction xs arbitrary: c v ls b)
  case (Cons x xs)
  obtain c1 v1 ls1 b1 where s: "attach_listener g rk hosts p gwKey x (c, v, ls, b) = (c1, v1, ls1, b1)"
    by (cases "attach_listener g rk hosts p gwKey x (c, v, ls, b)")
  have "coherent c1 \<and> \<not> accepted c1"
    using s Cons.prems(2) refusal_conditions[of g hosts "snd x"]
    by (auto simp: attach_listener_def Let_def coherent_Merge accepted_merge split: prod.splits option.splits)
  then show ?case using Cons.IH[of c1 v1 ls1 b1] Cons.prems(1) s by simp
qed simp

subsection \<open>The parent references of a route\<close>

text \<open>The listener \<open>n\<close> of gateway \<open>gk\<close> takes the route through the parent reference.\<close>

definition takes ::
    "(k8s_object \<Rightarrow> gvk) \<Rightarrow> ('k, 'r) route_kind \<Rightarrow> 'k \<Rightarrow> controller_store \<Rightarrow> parent_reference \<Rightarrow> namespaced_name \<Rightarrow> string \<Rightarrow> bool" where
  "takes extractGVK K k8s b p gk n \<longleftrightarrow>
     IsParentRefGroupKindSupported p extractGVK \<and> gk = GetParentRefNamespacedName p (om_namespace (rk_meta K k8s))
     \<and> (\<exists>g l. bare_gateways b gk = Some (g, False) \<and> (n, l) \<in> set (gw_Listeners g)
          \<and> (pref_sectionName p = None \<or> pref_sectionName p = Some n \<and> map_of (gw_Listeners g) n = Some l \<and> rk_section_ok K l)
          \<and> listener_refusal (extractGVK (rk_object K k8s)) (rk_hostnames K k8s) l = None)"

text \<open>The gateway of the parent reference is one of ours.\<close>

definition refers_to_managed :: "(k8s_object \<Rightarrow> gvk) \<Rightarrow> ('k, 'r) route_kind \<Rightarrow> 'k \<Rightarrow> controller_store \<Rightarrow> parent_reference \<Rightarrow> bool" where
  "refers_to_managed extractGVK K k8s b p \<longleftrightarrow> IsParentRefGroupKindSupported p extractGVK
     \<and> bare_gateways b (GetParentRefNamespacedName p (om_namespace (rk_meta K k8s))) \<noteq> None"

lemma takes_attachable:
  fixes K :: "('k, 'r) route_kind" and k8s :: 'k
  assumes sec: "\<And>l. rk_section_ok K (bare_listener l) = rk_section_ok K l"
    and "IsParentRefGroupKindSupported p extractGVK"
  defines "gk0 \<equiv> GetParentRefNamespacedName p (om_namespace (rk_meta K k8s))"
  assumes tg: "map_of (Gateways (cst_GateTree b)) gk0 = Some tg"
  shows "takes extractGVK K k8s b p gk n \<longleftrightarrow> gk = gk0 \<and> TreeStatus (tr_status tg) \<noteq> StatusDeleted
    \<and> (\<exists>xs l. attachable_listeners K p (tr_core tg) = Inr xs \<and> (n, l) \<in> set xs
         \<and> listener_refusal (extractGVK (rk_object K k8s)) (rk_hostnames K k8s) l = None)"
proof -
  let ?refusal = "listener_refusal (extractGVK (rk_object K k8s)) (rk_hostnames K k8s)"
  have "bare_gateways b gk0 = Some (bare (tr_core tg), TreeStatus (tr_status tg) = StatusDeleted)"
    using tg by (simp add: bare_gateways_def)
  then have "takes extractGVK K k8s b p gk n \<longleftrightarrow> gk = gk0 \<and> TreeStatus (tr_status tg) \<noteq> StatusDeleted
      \<and> (\<exists>l. (n, l) \<in> set (gw_Listeners (tr_core tg))
          \<and> (pref_sectionName p = None \<or> pref_sectionName p = Some n
              \<and> map_option bare_listener (map_of (gw_Listeners (tr_core tg)) n) = Some (bare_listener l) \<and> rk_section_ok K l)
          \<and> ?refusal l = None)"
    using assms(2) unfolding takes_def gk0_def[symmetric]
    by (cases "gk = gk0") (auto simp: bare_def map_of_map_values sec refusal_bare)
  also have "\<dots> \<longleftrightarrow> gk = gk0 \<and> TreeStatus (tr_status tg) \<noteq> StatusDeleted
      \<and> (\<exists>xs l. attachable_listeners K p (tr_core tg) = Inr xs \<and> (n, l) \<in> set xs \<and> ?refusal l = None)"
  proof (cases "pref_sectionName p")
    case None then show ?thesis by (auto simp: attachable_listeners_def)
  next
    case (Some m)
    have br: "bare_listener l = bare_listener l' \<Longrightarrow> rk_section_ok K l = rk_section_ok K l' \<and> ?refusal l = ?refusal l'" for l l'
      by (metis sec refusal_bare)
    show ?thesis using Some
      by (cases "map_of (gw_Listeners (tr_core tg)) m") (auto simp: attachable_listeners_def dest: map_of_SomeD br)
  qed
  finally show ?thesis .
qed

definition parent_ref_effect ::
    "(k8s_object \<Rightarrow> gvk) \<Rightarrow> ('k, 'r) route_kind \<Rightarrow> 'k \<Rightarrow> parent_reference \<Rightarrow> ('k, 'r) route \<Rightarrow> controller_store
     \<Rightarrow> check_parent_ref_result \<Rightarrow> ('k, 'r) route \<Rightarrow> controller_store \<Rightarrow> bool" where
  "parent_ref_effect extractGVK K k8s p r b result r' b' \<longleftrightarrow>
     bare_gateways b' = bare_gateways b \<and> only_gateways b b' \<and> (\<exists>ls. r' = r\<lparr>rt_Listeners := ls\<rparr>)
     \<and> (cpr_Managed result \<longleftrightarrow> refers_to_managed extractGVK K k8s b p)
     \<and> (cpr_Valid result \<longleftrightarrow> (\<exists>gk n. takes extractGVK K k8s b p gk n))
     \<and> coherent (cpr_Conditions result) \<and> (accepted (cpr_Conditions result) \<longleftrightarrow> cpr_Valid result)
     \<and> (\<forall>gk n. attached b' gk n = attached b gk n \<union> (if takes extractGVK K k8s b p gk n then {meta_key (rk_meta K k8s)} else {}))"

lemma parent_ref_noop:
  assumes "\<And>gk n. \<not> takes extractGVK K k8s b p gk n" "managed \<longleftrightarrow> refers_to_managed extractGVK K k8s b p"
    and "coherent c" "\<not> accepted c"
  shows "parent_ref_effect extractGVK K k8s p r b (parent_ref_result c managed False) r b"
  using assms by (auto simp: parent_ref_effect_def parent_ref_result_def only_gateways_refl intro: exI[of _ "rt_Listeners r"])

lemma checkParentRef_spec:
  assumes sec: "\<And>l. rk_section_ok K (bare_listener l) = rk_section_ok K l"
    and res: "Route_checkParentRef extractGVK K k8s p (r, b) = (result, r', b')"
  shows "parent_ref_effect extractGVK K k8s p r b result r' b'"
proof (cases "IsParentRefGroupKindSupported p extractGVK")
  case False
  then have "\<And>gk n. \<not> takes extractGVK K k8s b p gk n" "\<not> refers_to_managed extractGVK K k8s b p"
    by (simp_all add: takes_def refers_to_managed_def)
  then show ?thesis using False res by (auto simp: Route_checkParentRef_def not_accepted intro: parent_ref_noop)
next
  case supported: True
  define gk0 where "gk0 = GetParentRefNamespacedName p (om_namespace (rk_meta K k8s))"
  show ?thesis
  proof (cases "map_of (Gateways (cst_GateTree b)) gk0")
    case None
    then have "\<And>gk n. \<not> takes extractGVK K k8s b p gk n" "\<not> refers_to_managed extractGVK K k8s b p"
      by (simp_all add: takes_def refers_to_managed_def bare_gateways_def gk0_def)
    then show ?thesis using None supported res by (auto simp: Route_checkParentRef_def gk0_def not_accepted intro: parent_ref_noop)
  next
    case (Some tg)
    note tk = takes_attachable[OF sec supported Some[unfolded gk0_def], folded gk0_def]
    have man: "refers_to_managed extractGVK K k8s b p"
      using supported Some by (simp add: refers_to_managed_def bare_gateways_def gk0_def)
    show ?thesis
    proof (cases "TreeStatus (tr_status tg) = StatusDeleted \<or> isl (attachable_listeners K p (tr_core tg))")
      case True
      have "\<And>gk n. \<not> takes extractGVK K k8s b p gk n" using True unfolding tk by auto
      then show ?thesis using Some True man supported res
        by (auto simp: Route_checkParentRef_def Let_def gk0_def attachable_listeners_def coherent_constructors not_accepted
            split: sum.splits if_splits option.splits intro: parent_ref_noop)
    next
      case False
      then obtain xs where xs: "attachable_listeners K p (tr_core tg) = Inr xs" and nd: "TreeStatus (tr_status tg) \<noteq> StatusDeleted"
        by (cases "attachable_listeners K p (tr_core tg)") auto
      obtain c v ls b2 where f: "fold (attach_listener (extractGVK (rk_object K k8s)) (meta_key (rk_meta K k8s)) (rk_hostnames K k8s) p gk0) xs
          ([], False, rt_Listeners r, b) = (c, v, ls, b2)"
        by (metis prod_cases4)
      have out: "result = (if v then parent_ref_result ConditionAccepted True True else parent_ref_result c True False)"
        "r' = r\<lparr>rt_Listeners := ls\<rparr>" "b' = b2"
        using res supported Some nd xs f by (auto simp: Route_checkParentRef_def Let_def gk0_def)
      have "n \<in> fst ` set (gw_Listeners (tr_core tg))" if "(n, l) \<in> set xs" for n l
        using that xs by (auto simp: attachable_listeners_def split: option.splits if_splits intro: rev_image_eqI dest: map_of_SomeD)
      then have at: "listener_at b gk0 n \<noteq> None" if "(n, l) \<in> set xs" for n l
        using that Some by (simp add: listener_at_def map_of_eq_None_iff)
      have "gk = gk0 \<and> listener_at b gk0 n \<noteq> None \<and> (\<exists>l. (n, l) \<in> set xs
          \<and> listener_refusal (extractGVK (rk_object K k8s)) (rk_hostnames K k8s) l = None) \<longleftrightarrow> takes extractGVK K k8s b p gk n" for gk n
        using at unfolding tk by (auto simp: xs nd)
      then show ?thesis using attach_fold[OF f] attach_conditions[OF f] man unfolding parent_ref_effect_def tk
        by (auto simp: out parent_ref_result_def xs nd not_accepted coherent_constructors)
    qed
  qed
qed

lemma takes_cong:
  "bare_gateways b = bare_gateways b' \<Longrightarrow> takes extractGVK K k8s b = takes extractGVK K k8s b'"
  "bare_gateways b = bare_gateways b' \<Longrightarrow> refers_to_managed extractGVK K k8s b = refers_to_managed extractGVK K k8s b'"
  by (intro ext; simp add: takes_def refers_to_managed_def)+

lemma takes_managed: "takes extractGVK K k8s b p gk n \<Longrightarrow> refers_to_managed extractGVK K k8s b p"
  by (auto simp: takes_def refers_to_managed_def)

definition parent_ref_step ::
    "(k8s_object \<Rightarrow> gvk) \<Rightarrow> ('k, 'r) route_kind \<Rightarrow> 'k \<Rightarrow> parent_reference
     \<Rightarrow> route_conditions \<times> bool \<times> ('k, 'r) route \<times> controller_store \<Rightarrow> route_conditions \<times> bool \<times> ('k, 'r) route \<times> controller_store" where
  "parent_ref_step extractGVK K k8s parentRef s = (case s of (conds, valid, r, b) \<Rightarrow>
     let (result, r', b') = Route_checkParentRef extractGVK K k8s parentRef (r, b) in
     if \<not> cpr_Managed result then (conds, valid, r', b')
     else (MergeOverrideConditionsForParentRef parentRef (cpr_Conditions result) conds, valid \<or> cpr_Valid result, r', b'))"

lemma checkParentRefs_fold:
  "Route_checkParentRefs extractGVK K (r, b) =
     (case rt_K8sResource r of
        None \<Rightarrow> (r\<lparr>rt_CheckParentRefs := \<lparr>crr_Conditions = route_conditions0 (rt_ControllerName r), crr_Valid = False\<rparr>\<rparr>, b)
      | Some k8s \<Rightarrow> (case fold (parent_ref_step extractGVK K k8s) (rk_parentRefs K k8s) (route_conditions0 (rt_ControllerName r), False, r, b) of
          (conds, valid, r', b') \<Rightarrow> (r'\<lparr>rt_CheckParentRefs := \<lparr>crr_Conditions = conds, crr_Valid = valid\<rparr>\<rparr>, b')))"
proof -
  have "parent_ref_step extractGVK K k8s = (\<lambda>parentRef (conds, valid, r, b).
     let (result, r', b') = Route_checkParentRef extractGVK K k8s parentRef (r, b) in
     if \<not> cpr_Managed result then (conds, valid, r', b')
     else (MergeOverrideConditionsForParentRef parentRef (cpr_Conditions result) conds, valid \<or> cpr_Valid result, r', b'))" for k8s
    by (intro ext) (simp add: parent_ref_step_def split: prod.splits)
  then show ?thesis by (simp add: Route_checkParentRefs_def Let_def split: option.split)
qed

definition attached_by :: "(k8s_object \<Rightarrow> gvk) \<Rightarrow> ('k, 'r) route_kind \<Rightarrow> 'k \<Rightarrow> controller_store \<Rightarrow> parent_reference list \<Rightarrow> controller_store \<Rightarrow> bool" where
  "attached_by extractGVK K k8s b ps b' \<longleftrightarrow> bare_gateways b' = bare_gateways b \<and> only_gateways b b'
     \<and> (\<forall>gk n. attached b' gk n = attached b gk n
          \<union> (if \<exists>p \<in> set ps. takes extractGVK K k8s b p gk n then {meta_key (rk_meta K k8s)} else {}))"

definition accepted_for :: "route_conditions \<Rightarrow> parent_reference \<Rightarrow> bool" where
  "accepted_for c p \<longleftrightarrow> (\<exists>v. RouteConditions_GetCondition c ''Accepted'' p = Some v \<and> Cond_Status v = ''True'')"

lemma parent_refs_effect:
  assumes sec: "\<And>l. rk_section_ok K (bare_listener l) = rk_section_ok K l"
    and "fold (parent_ref_step extractGVK K k8s) ps (c, v, r, b) = (c', v', r', b')"
  shows "attached_by extractGVK K k8s b ps b' \<and> (\<exists>ls. r' = r\<lparr>rt_Listeners := ls\<rparr>)
    \<and> (v' \<longleftrightarrow> v \<or> (\<exists>p \<in> set ps. \<exists>gk n. takes extractGVK K k8s b p gk n))"
  using assms(2)
proof (induction ps arbitrary: c v r b)
  case Nil
  then show ?case by (auto simp: attached_by_def only_gateways_refl intro: exI[of _ "rt_Listeners r"])
next
  case (Cons p ps)
  obtain c1 v1 r1 b1 where s: "parent_ref_step extractGVK K k8s p (c, v, r, b) = (c1, v1, r1, b1)"
    by (cases "parent_ref_step extractGVK K k8s p (c, v, r, b)")
  obtain result where res: "Route_checkParentRef extractGVK K k8s p (r, b) = (result, r1, b1)"
    using s by (auto simp: parent_ref_step_def Let_def split: prod.splits if_splits)
  note e = checkParentRef_spec[OF sec res, unfolded parent_ref_effect_def]
  have v1: "v1 \<longleftrightarrow> v \<or> (\<exists>gk n. takes extractGVK K k8s b p gk n)"
  proof -
    have "v1 \<longleftrightarrow> v \<or> cpr_Managed result \<and> cpr_Valid result"
      using s res by (auto simp: parent_ref_step_def split: if_splits)
    moreover have "cpr_Valid result \<longleftrightarrow> (\<exists>gk n. takes extractGVK K k8s b p gk n)" using e by blast
    moreover have "takes extractGVK K k8s b p gk n \<Longrightarrow> cpr_Managed result" for gk n
      using e by (simp add: takes_managed)
    ultimately show ?thesis by blast
  qed
  have ih: "attached_by extractGVK K k8s b1 ps b' \<and> (\<exists>ls. r' = r1\<lparr>rt_Listeners := ls\<rparr>)
    \<and> (v' \<longleftrightarrow> v1 \<or> (\<exists>p \<in> set ps. \<exists>gk n. takes extractGVK K k8s b1 p gk n))"
    using Cons.prems s by (intro Cons.IH) simp
  have tk: "takes extractGVK K k8s b1 = takes extractGVK K k8s b" using e by (intro takes_cong) simp
  have "attached_by extractGVK K k8s b (p # ps) b'"
    using ih e only_gateways_trans[of b b1 b'] unfolding attached_by_def tk by auto
  moreover have "\<exists>ls. r' = r\<lparr>rt_Listeners := ls\<rparr>" using ih e by auto
  ultimately show ?case using ih v1 unfolding tk by auto
qed

lemma parent_refs_conditions:
  assumes sec: "\<And>l. rk_section_ok K (bare_listener l) = rk_section_ok K l"
    and "fold (parent_ref_step extractGVK K k8s) ps (c, v, r, b) = (c', v', r', b')"
    and "rc_inv c" "list_all plain_parent_ref ps" "distinct ps"
    and "\<And>p. p \<in> set ps \<Longrightarrow> RouteConditions_GetCondition c ''Accepted'' p = None"
  shows "rc_inv c' \<and> (\<forall>p \<in> set ps. accepted_for c' p \<longleftrightarrow> (\<exists>gk n. takes extractGVK K k8s b p gk n))
    \<and> (\<forall>q t. plain_parent_ref q \<longrightarrow> q \<notin> set ps \<longrightarrow> RouteConditions_GetCondition c' t q = RouteConditions_GetCondition c t q)"
  using assms(2-)
proof (induction ps arbitrary: c v r b)
  case (Cons p ps)
  obtain c1 v1 r1 b1 where s: "parent_ref_step extractGVK K k8s p (c, v, r, b) = (c1, v1, r1, b1)"
    by (cases "parent_ref_step extractGVK K k8s p (c, v, r, b)")
  obtain result where res: "Route_checkParentRef extractGVK K k8s p (r, b) = (result, r1, b1)"
    using s by (auto simp: parent_ref_step_def Let_def split: prod.splits if_splits)
  note e = checkParentRef_spec[OF sec res, unfolded parent_ref_effect_def]
  have plain: "plain_parent_ref p" "\<And>q. q \<in> set ps \<Longrightarrow> plain_parent_ref q" using Cons.prems(3) by (auto simp: list_all_iff)
  have c1: "c1 = (if cpr_Managed result then MergeOverrideConditionsForParentRef p (cpr_Conditions result) c else c)"
    using s res by (auto simp: parent_ref_step_def split: if_splits)
  have inv: "rc_inv c1" using Cons.prems(2) e plain by (simp add: c1 rc_inv_merge)
  have get: "RouteConditions_GetCondition c1 t q = (if p = q \<and> cpr_Managed result \<and> map_of (cpr_Conditions result) t \<noteq> None
      then map_of (cpr_Conditions result) t else RouteConditions_GetCondition c t q)" if "plain_parent_ref q" for t q
  proof -
    have "coherent (cpr_Conditions result)" using e by blast
    from merge_get[OF Cons.prems(2) plain(1) that this] show ?thesis by (auto simp: c1)
  qed
  have managed: "cpr_Managed result" if "cpr_Valid result" using e that by (auto simp: takes_managed)
  have acc: "accepted_for c1 p \<longleftrightarrow> (\<exists>gk n. takes extractGVK K k8s b p gk n)"
    using get[OF plain(1)] e managed Cons.prems(5)[of p] by (auto simp: accepted_for_def accepted_def)
  have fresh: "RouteConditions_GetCondition c1 ''Accepted'' q = None" if "q \<in> set ps" for q
    using that Cons.prems(4,5) get[OF plain(2)[OF that]] by auto
  have ih: "rc_inv c' \<and> (\<forall>p \<in> set ps. accepted_for c' p \<longleftrightarrow> (\<exists>gk n. takes extractGVK K k8s b1 p gk n))
    \<and> (\<forall>q t. plain_parent_ref q \<longrightarrow> q \<notin> set ps \<longrightarrow> RouteConditions_GetCondition c' t q = RouteConditions_GetCondition c1 t q)"
    using Cons.prems s inv fresh by (intro Cons.IH) (auto simp: list_all_iff)
  have tk: "takes extractGVK K k8s b1 = takes extractGVK K k8s b" using e by (intro takes_cong) simp
  have "accepted_for c' p \<longleftrightarrow> accepted_for c1 p"
    using ih plain(1) Cons.prems(4) by (simp add: accepted_for_def)
  then show ?case using ih get acc unfolding tk by auto
qed simp

end
