(* ===== verification/RouteStatus.thy ===== *)
theory RouteStatus
  imports RouteTree
begin

text \<open>
  What the route builders of \<open>RouteTree\<close> achieve: the route trees mirror the stored routes
  (\<open>route_builder\<close> is the contract of a kind of route, interpreted on HTTPRoutes and
  TLSRoutes, and each gives a \<open>mirrored_tree\<close>), a route is attached to exactly the
  listeners that take it, and its status says what was checked.
\<close>

subsection \<open>The route trees mirror the store\<close>

text \<open>A stored route has one live node, in the managed or in the unmanaged tree; where both trees
  hold a node of the route, it is the same node.\<close>

definition live_routes :: "('k, 'r) route_kind \<Rightarrow> controller_store \<Rightarrow> namespaced_name \<Rightarrow> 'k option" where
  "live_routes K b k = (case find_route K k b of None \<Rightarrow> None
     | Some r \<Rightarrow> if TreeStatus (tr_status r) = StatusDeleted then None else rt_K8sResource (tr_core r))"

definition route_inv :: "('k, 'r) route_kind \<Rightarrow> controller_store \<Rightarrow> bool" where
  "route_inv K b \<longleftrightarrow> wf_map (rk_tree K (cst_GateTree b)) \<and> wf_map (rk_tree K (cst_UnmanagedGateTree b))
     \<and> (\<forall>k r s. map_of (rk_tree K (cst_GateTree b)) k = Some r \<longrightarrow> map_of (rk_tree K (cst_UnmanagedGateTree b)) k = Some s \<longrightarrow> r = s)"

definition besides_routes :: "(gate_tree \<Rightarrow> 'z) \<Rightarrow> controller_store
    \<Rightarrow> 'z \<times> 'z \<times> cluster_store \<times> referenced_objects \<times> installed_versions \<times> certificate_data storage_updates
      \<times> crt_list_data storage_updates \<times> string" where
  "besides_routes other b = (other (cst_GateTree b), other (cst_UnmanagedGateTree b), cst_ClusterStore b, cst_ReferencedObjects b,
     cst_InstalledGwAPIVersions b, cst_CertUpdates b, cst_CrtListUpdates b, cst_ControllerName b)"

text \<open>The contract of a kind of route: its tree is a field of the gate tree apart from the gateways and
  from the parts \<open>other\<close>, and the check of a section does not read the attached routes.\<close>

locale route_builder =
  fixes K :: "('k, 'r) route_kind" and other :: "gate_tree \<Rightarrow> 'z"
  assumes tree_set: "rk_tree K (rk_set_tree K t g) = t"
    and gws_set: "Gateways (rk_set_tree K t g) = Gateways g"
    and tree_gws: "rk_tree K (g\<lparr>Gateways := x\<rparr>) = rk_tree K g"
    and other_set: "other (rk_set_tree K t g) = other g"
    and other_gws: "other (g\<lparr>Gateways := x\<rparr>) = other g"
    and services_set: "Services (rk_set_tree K t g) = Services g"
    and section_bare: "rk_section_ok K (bare_listener l) = rk_section_ok K l"
begin

lemma checks_frame:
  assumes "Route_processChecks extractGVK K (r, b) = (r', b')"
  shows "only_gateways b b'" "bare_gateways b' = bare_gateways b" "rt_K8sResource r' = rt_K8sResource r"
proof -
  obtain r1 where c: "Route_checkParentRefs extractGVK K (r, b) = (r1, b')" "r' = r1\<lparr>rt_Valid := crr_Valid (rt_CheckParentRefs r1)\<rparr>"
    using assms by (auto simp: Route_processChecks_def split: prod.splits)
  have "only_gateways b b' \<and> bare_gateways b' = bare_gateways b \<and> rt_K8sResource r' = rt_K8sResource r"
  proof (cases "rt_K8sResource r")
    case None
    then show ?thesis using c by (auto simp: checkParentRefs_fold only_gateways_refl)
  next
    case (Some k8s)
    obtain cs v r2 b2 where f: "fold (parent_ref_step extractGVK K k8s) (rk_parentRefs K k8s)
        (route_conditions0 (rt_ControllerName r), False, r, b) = (cs, v, r2, b2)" by (metis prod_cases4)
    then have "b' = b2" "r1 = r2\<lparr>rt_CheckParentRefs := \<lparr>crr_Conditions = cs, crr_Valid = v\<rparr>\<rparr>"
      using c(1) Some by (simp_all add: checkParentRefs_fold)
    then show ?thesis using parent_refs_effect[OF section_bare f] c(2) by (auto simp: attached_by_def)
  qed
  then show "only_gateways b b'" "bare_gateways b' = bare_gateways b" "rt_K8sResource r' = rt_K8sResource r" by auto
qed

lemma tree_only_gateways: "only_gateways b b' \<Longrightarrow> rk_tree K (cst_GateTree b') = rk_tree K (cst_GateTree b)
    \<and> cst_UnmanagedGateTree b' = cst_UnmanagedGateTree b"
proof -
  assume "only_gateways b b'"
  note b' = only_gateways_eq[OF this]
  show ?thesis by (subst (1 2) b') (simp add: tree_gws)
qed

lemma find_only_gateways: "only_gateways b b' \<Longrightarrow> find_route K k b' = find_route K k b"
  using tree_only_gateways[of b b'] by (simp add: find_route_def split: option.split)

lemma inv_only_gateways: "only_gateways b b' \<Longrightarrow> route_inv K b' = route_inv K b"
  using tree_only_gateways[of b b'] by (simp add: route_inv_def)

lemma tree_put [simp]: "rk_tree K (put_route K k r t) = mput k r (rk_tree K t)"
  by (simp add: put_route_def tree_set)

lemma gws_put [simp]: "Gateways (put_route K k r t) = Gateways t"
  by (simp add: put_route_def gws_set)

lemma tree_write: "rk_tree K (write_tree K k r t) = (if mhas (rk_tree K t) k then mput k r (rk_tree K t) else rk_tree K t)"
  by (simp add: write_tree_def)

lemma gws_write: "Gateways (write_tree K k r t) = Gateways t"
  by (simp add: write_tree_def)

lemma write_spec:
  assumes "route_inv K b"
  shows "route_inv K (write_route K k r b)"
    and "find_route K j (write_route K k r b) = (if j = k \<and> find_route K k b \<noteq> None then Some r else find_route K j b)"
  using assms by (auto simp: route_inv_def write_route_def find_route_def tree_write wf_mput map_of_mput mhas_def
      split: option.splits if_splits)

lemma placed_spec:
  fixes k :: namespaced_name and r :: "('k, 'r) route tree_res"
  assumes "route_inv K b"
  defines "w \<equiv> write_route K k r b"
  shows "route_inv K (Route_SetAsManaged K k r w)" "route_inv K (Route_SetAsUnmanaged K k r w)"
    and "find_route K j (Route_SetAsManaged K k r w) = (if j = k then Some r else find_route K j b)"
    and "find_route K j (Route_SetAsUnmanaged K k r w) = (if j = k then Some r else find_route K j b)"
  using assms by (auto simp: route_inv_def write_route_def find_route_def tree_write wf_mput map_of_mput mhas_def tree_gws
      Route_SetAsManaged_def Route_SetAsUnmanaged_def split: option.splits if_splits)

lemma compute_up:
  assumes "Status u = StatusUpserted" "NewObject u = Some k8s" "meta_key (rk_meta K k8s) = k"
  obtains r b1 where "only_gateways b b1" "bare_gateways b1 = bare_gateways b"
    "TreeStatus (tr_status r) = StatusUpserted" "rt_K8sResource (tr_core r) = Some k8s"
    "Route_computeTreeUpdate extractGVK K k u b = Route_SetAsManaged K k r (write_route K k r b1)
     \<or> Route_computeTreeUpdate extractGVK K k u b = Route_SetAsUnmanaged K k r (write_route K k r b1)"
proof -
  define node where "node = (case find_route K k b of
      Some r \<Rightarrow> (let r = Route_SetAsUpserted K k8s r in r\<lparr>tr_core := Route_ResetChecks (tr_core r)\<rparr>)
    | None \<Rightarrow> NewRoute k8s (cst_ControllerName b))"
  obtain core b1 where c: "Route_processChecks extractGVK K (tr_core node, b) = (core, b1)"
    by (cases "Route_processChecks extractGVK K (tr_core node, b)")
  define r where "r = node\<lparr>tr_core := Route_BuildConditions K core\<rparr>"
  note fr = checks_frame[OF c]
  have "TreeStatus (tr_status node) = StatusUpserted" "rt_K8sResource (tr_core node) = Some k8s"
    by (auto simp: node_def NewRoute_def new_tree_res_def Route_SetAsUpserted_def Route_ResetChecks_def set_route_status_def Let_def
        split: option.split)
  then have "TreeStatus (tr_status r) = StatusUpserted" "rt_K8sResource (tr_core r) = Some k8s"
    using fr(3) by (auto simp: r_def Route_BuildConditions_def Let_def)
  moreover have "Route_computeTreeUpdate extractGVK K k u b = (if Route_isManaged core
      then Route_SetAsManaged K k r (write_route K k r b1) else Route_SetAsUnmanaged K k r (write_route K k r b1))"
    using assms c by (simp add: Route_computeTreeUpdate_def Let_def node_def[symmetric] r_def)
  ultimately show ?thesis using that[of b1 r] fr by presburger
qed

lemma fold_delete_frame:
  "only_gateways b (fold (deleteAttachedRoute rk) ps b)" "bare_gateways (fold (deleteAttachedRoute rk) ps b) = bare_gateways b"
  by (induction ps arbitrary: b) (auto simp: only_gateways_refl attach_frame intro: only_gateways_trans[OF only_attach(2)])

lemma compute_del:
  assumes "Status u = StatusDeleted" "find_route K k b = Some r0"
  obtains r b1 where "only_gateways b b1" "bare_gateways b1 = bare_gateways b" "TreeStatus (tr_status r) = StatusDeleted"
    "Route_computeTreeUpdate extractGVK K k u b = write_route K k r b1"
proof -
  define b1 where "b1 = (case rt_K8sResource (tr_core r0) of None \<Rightarrow> b
      | Some k8s \<Rightarrow> fold (deleteAttachedRoute (meta_key (rk_meta K k8s))) (route_ptrs (tr_core r0)) b)"
  define r where "r = (let r' = Route_SetAsDeleted K r0 in r'\<lparr>tr_core := Route_ResetChecks (tr_core r')\<rparr>)"
  have "only_gateways b b1" "bare_gateways b1 = bare_gateways b"
    by (auto simp: b1_def only_gateways_refl fold_delete_frame split: option.split)
  moreover have "Route_computeTreeUpdate extractGVK K k u b = write_route K k r b1"
    using assms by (simp add: Route_computeTreeUpdate_def Let_def b1_def r_def)
  moreover have "TreeStatus (tr_status r) = StatusDeleted"
    by (simp add: r_def Route_SetAsDeleted_def set_route_status_def Let_def)
  ultimately show ?thesis using that by blast
qed

lemma compute_spec:
  assumes inv: "route_inv K b" and reg: "regular_update (\<lambda>x. meta_key (rk_meta K x)) k u"
  shows "route_inv K (Route_computeTreeUpdate extractGVK K k u b)
    \<and> live_routes K (Route_computeTreeUpdate extractGVK K k u b) = (live_routes K b)(k := NewObject u)"
proof -
  consider (up) k8s where "NewObject u = Some k8s" "Status u = StatusUpserted" "meta_key (rk_meta K k8s) = k"
    | (del) r where "NewObject u = None" "Status u = StatusDeleted" "find_route K k b = Some r"
    | (none) "NewObject u = None" "Status u = StatusDeleted" "find_route K k b = None"
    using reg by (auto simp: regular_update_def split: option.splits)
  then show ?thesis
  proof cases
    case up
    from up(2,1,3) show ?thesis
    proof (rule compute_up[where b = b and extractGVK = extractGVK])
      fix r b1 assume h: "only_gateways b b1" "TreeStatus (tr_status r) = StatusUpserted" "rt_K8sResource (tr_core r) = Some k8s"
        and out: "Route_computeTreeUpdate extractGVK K k u b = Route_SetAsManaged K k r (write_route K k r b1)
          \<or> Route_computeTreeUpdate extractGVK K k u b = Route_SetAsUnmanaged K k r (write_route K k r b1)"
      have "route_inv K b1" using inv inv_only_gateways[OF h(1)] by simp
      then show ?thesis using out h up placed_spec find_only_gateways[OF h(1)] by (auto simp: live_routes_def fun_eq_iff)
    qed
  next
    case del
    from del(2,3) show ?thesis
    proof (rule compute_del[where extractGVK = extractGVK])
      fix r b1 assume h: "only_gateways b b1" "TreeStatus (tr_status r) = StatusDeleted"
        and out: "Route_computeTreeUpdate extractGVK K k u b = write_route K k r b1"
      have "route_inv K b1" using inv inv_only_gateways[OF h(1)] by simp
      then show ?thesis unfolding out using write_spec h del find_only_gateways[OF h(1)]
        by (auto simp: live_routes_def fun_eq_iff)
    qed
  next
    case none
    then show ?thesis using inv by (auto simp: Route_computeTreeUpdate_def live_routes_def fun_eq_iff)
  qed
qed

lemma clean_spec:
  assumes "route_inv K b"
  shows "route_inv K (Route_CleanTreeUpdates K b) \<and> live_routes K (Route_CleanTreeUpdates K b) = live_routes K b"
  using assms
  by (auto simp: route_inv_def Route_CleanTreeUpdates_def tree_set wf_clean map_of_clean live_routes_def find_route_def fun_eq_iff
      split: option.splits if_splits)

lemma besides_only_gateways: "only_gateways b b' \<Longrightarrow> besides_routes other b' = besides_routes other b"
proof -
  assume "only_gateways b b'"
  note b' = only_gateways_eq[OF this]
  show ?thesis unfolding besides_routes_def by (subst (1 2 3 4 5 6 7 8) b') (simp add: other_gws)
qed

lemma besides_write: "besides_routes other (write_route K k r b) = besides_routes other b"
  by (simp add: besides_routes_def write_route_def write_tree_def put_route_def other_set)

lemma gateways_write: "Gateways (cst_GateTree (write_route K k r b)) = Gateways (cst_GateTree b)"
  by (simp add: write_route_def gws_write)

lemma services_write: "Services (cst_GateTree (write_route K k r b)) = Services (cst_GateTree b)"
  by (simp add: write_route_def write_tree_def put_route_def services_set)

text \<open>A step of a route builder keeps every gateway up to its attached routes, or drops it.\<close>

lemma compute_frame:
  assumes reg: "regular_update (\<lambda>x. meta_key (rk_meta K x)) k u"
  shows "besides_routes other (Route_computeTreeUpdate extractGVK K k u b) = besides_routes other b
    \<and> (\<forall>j. bare_gateways (Route_computeTreeUpdate extractGVK K k u b) j \<in> {None, bare_gateways b j})
    \<and> (wf_map (Gateways (cst_GateTree b)) \<longrightarrow> wf_map (Gateways (cst_GateTree (Route_computeTreeUpdate extractGVK K k u b))))"
proof -
  have managed: "besides_routes other (Route_SetAsManaged K k r b) = besides_routes other b"
    "bare_gateways (Route_SetAsManaged K k r b) = bare_gateways b" for r b
    by (auto simp: besides_routes_def Route_SetAsManaged_def put_route_def other_set other_gws bare_gateways_def gws_set fun_eq_iff)
  have unmanaged: "besides_routes other (Route_SetAsUnmanaged K k r b) = besides_routes other b"
    "bare_gateways (Route_SetAsUnmanaged K k r b) = (bare_gateways b)(k := None)" for r b
    by (auto simp: besides_routes_def Route_SetAsUnmanaged_def put_route_def other_set other_gws bare_gateways_def gws_set fun_eq_iff map_of_mdel)
  have wf: "Gateways (cst_GateTree (Route_SetAsManaged K k r b)) = Gateways (cst_GateTree b)"
    "Gateways (cst_GateTree (Route_SetAsUnmanaged K k r b)) = mdel k (Gateways (cst_GateTree b))" for r b
    by (simp_all add: Route_SetAsManaged_def Route_SetAsUnmanaged_def)
  have wr: "bare_gateways (write_route K k r b) = bare_gateways b" for r b
    by (simp add: fun_eq_iff bare_gateways_def gateways_write)
  consider (up) k8s where "NewObject u = Some k8s" "Status u = StatusUpserted" "meta_key (rk_meta K k8s) = k"
    | (del) r where "Status u = StatusDeleted" "find_route K k b = Some r"
    | (none) "Status u = StatusDeleted" "find_route K k b = None"
    using reg by (auto simp: regular_update_def split: option.splits)
  then show ?thesis
  proof cases
    case up
    from up(2,1,3) show ?thesis
      by (rule compute_up[where b = b and extractGVK = extractGVK])
        (auto simp: managed unmanaged wr besides_write besides_only_gateways wf wf_mdel only_gateways_def gateways_write)
  next
    case del
    then show ?thesis
      by (rule compute_del[where extractGVK = extractGVK]) (auto simp: wr besides_write besides_only_gateways only_gateways_def gateways_write)
  qed (simp add: Route_computeTreeUpdate_def)
qed

lemma live_of_updates:
  fixes extractGVK :: "k8s_object \<Rightarrow> gvk"
  assumes "route_inv K b" "wf_map upds" "\<And>k u. (k, u) \<in> set upds \<Longrightarrow> regular_update (\<lambda>x. meta_key (rk_meta K x)) k u"
  defines "b1 \<equiv> fold (\<lambda>(k, u). Route_computeTreeUpdate extractGVK K k u) upds b"
  shows "route_inv K b1" "besides_routes other b1 = besides_routes other b" "bare_gateways b1 j \<in> {None, bare_gateways b j}"
    "wf_map (Gateways (cst_GateTree b)) \<longrightarrow> wf_map (Gateways (cst_GateTree b1))"
proof -
  define P where "P x \<longleftrightarrow> route_inv K x \<and> besides_routes other x = besides_routes other b
    \<and> (\<forall>j. bare_gateways x j \<in> {None, bare_gateways b j})
    \<and> (wf_map (Gateways (cst_GateTree b)) \<longrightarrow> wf_map (Gateways (cst_GateTree x)))" for x
  have "P (case e of (k, u) \<Rightarrow> Route_computeTreeUpdate extractGVK K k u x)" if "P x" "e \<in> set upds" for x e
  proof (cases e)
    case (Pair k u)
    then have reg: "regular_update (\<lambda>x. meta_key (rk_meta K x)) k u" using assms(3) that(2) by blast
    have f: "\<forall>j. bare_gateways (Route_computeTreeUpdate extractGVK K k u x) j \<in> {None, bare_gateways x j}"
      using compute_frame[OF reg] by blast
    have "bare_gateways (Route_computeTreeUpdate extractGVK K k u x) j \<in> {None, bare_gateways b j}" for j
      using f[rule_format, of j] that(1)[unfolded P_def] by (metis insert_iff empty_iff)
    then show ?thesis using that(1) compute_spec[OF _ reg] compute_frame[OF reg] Pair unfolding P_def by auto
  qed
  then have "P b1" unfolding b1_def by (intro fold_invariant_all[where P = P]) (use assms(1) in \<open>auto simp: P_def\<close>)
  then show "route_inv K b1" "besides_routes other b1 = besides_routes other b" "bare_gateways b1 j \<in> {None, bare_gateways b j}"
    "wf_map (Gateways (cst_GateTree b)) \<longrightarrow> wf_map (Gateways (cst_GateTree b1))"
    unfolding P_def by blast+
qed

lemma finish_keeps: "rt_K8sResource (finish_route extractGVK K svcs r) = rt_K8sResource r"
  by (auto simp: finish_route_def Route_mergeBackendConditions_def Route_buildRules_def Let_def split: option.split)

lemma finish_loop:
  fixes extractGVK :: "k8s_object \<Rightarrow> gvk"
  assumes "route_inv K b" "wf_map xs" "\<And>k r. (k, r) \<in> set xs \<Longrightarrow> find_route K k b = Some r"
  defines "b' \<equiv> fold (finish_step extractGVK K) xs b"
  shows "route_inv K b' \<and> live_routes K b' = live_routes K b \<and> besides_routes other b' = besides_routes other b
    \<and> Gateways (cst_GateTree b') = Gateways (cst_GateTree b) \<and> Services (cst_GateTree b') = Services (cst_GateTree b)
    \<and> (\<forall>k. find_route K k b' = (case map_of xs k of None \<Rightarrow> find_route K k b
         | Some r \<Rightarrow> Some (if TreeStatus (tr_status r) \<noteq> StatusUpserted then r
             else r\<lparr>tr_core := finish_route extractGVK K (Services (cst_GateTree b)) (tr_core r)\<rparr>)))"
  unfolding b'_def using assms(1-3)
proof (induction xs arbitrary: b)
  case (Cons x xs)
  obtain k r where x: "x = (k, r)" by (cases x)
  define b1 where "b1 = finish_step extractGVK K x b"
  have f: "find_route K k b = Some r" using Cons.prems(3) x by simp
  have k: "map_of xs k = None" "wf_map xs" using Cons.prems(2) by (auto simp: x wf_map_Cons map_of_None_mkeys)
  have b1: "route_inv K b1" "besides_routes other b1 = besides_routes other b"
      "Gateways (cst_GateTree b1) = Gateways (cst_GateTree b)" "Services (cst_GateTree b1) = Services (cst_GateTree b)"
      "find_route K j b1 = (if j = k then Some (if TreeStatus (tr_status r) \<noteq> StatusUpserted then r
           else r\<lparr>tr_core := finish_route extractGVK K (Services (cst_GateTree b)) (tr_core r)\<rparr>) else find_route K j b)" for j
    using write_spec[OF Cons.prems(1)] Cons.prems(1) f
    by (auto simp: b1_def finish_step_def x besides_write gateways_write services_write)
  have live: "live_routes K b1 = live_routes K b"
    by (auto simp: fun_eq_iff live_routes_def b1(5) f finish_keeps)
  have "find_route K j b1 = Some s" if "(j, s) \<in> set xs" for j s
    using that Cons.prems(3)[of j s] k(1) by (auto simp: b1(5) x map_of_eq_None_iff image_iff)
  from Cons.IH[OF b1(1) k(2) this] show ?case using k(1) live b1
    by (auto simp: x b1_def[unfolded x] split: option.splits)
qed simp

lemma builder_spec:
  fixes extractGVK :: "k8s_object \<Rightarrow> gvk"
  assumes "route_inv K b" "wf_map (rk_updates K (cst_ClusterStore b))"
    and reg: "\<And>k u. (k, u) \<in> set (rk_updates K (cst_ClusterStore b)) \<Longrightarrow> regular_update (\<lambda>x. meta_key (rk_meta K x)) k u"
  defines "b1 \<equiv> fold (\<lambda>(k, u). Route_computeTreeUpdate extractGVK K k u) (rk_updates K (cst_ClusterStore b)) b"
    and "b' \<equiv> Route_computeGateTreeUpdates extractGVK K b"
  shows "route_inv K b'" "live_routes K b' = live_routes K b1" "besides_routes other b' = besides_routes other b"
    "bare_gateways b' j \<in> {None, bare_gateways b j}"
    "wf_map (Gateways (cst_GateTree b)) \<longrightarrow> wf_map (Gateways (cst_GateTree b'))"
proof -
  note s = live_of_updates[OF assms(1,2) reg, where extractGVK = extractGVK, folded b1_def]
  have b': "b' = fold (finish_step extractGVK K) (rk_tree K (cst_GateTree b1)) b1"
    by (simp add: b'_def Route_computeGateTreeUpdates_def Let_def b1_def)
  have "wf_map (rk_tree K (cst_GateTree b1))" using s(1) by (simp add: route_inv_def)
  moreover from this have "find_route K k b1 = Some r" if "(k, r) \<in> set (rk_tree K (cst_GateTree b1))" for k r
    using that by (simp add: find_route_def map_of_wf_mem)
  ultimately have f: "route_inv K b' \<and> live_routes K b' = live_routes K b1 \<and> besides_routes other b' = besides_routes other b1
    \<and> Gateways (cst_GateTree b') = Gateways (cst_GateTree b1)"
    unfolding b' using finish_loop[OF s(1)] by blast
  then show "route_inv K b'" "live_routes K b' = live_routes K b1" "besides_routes other b' = besides_routes other b"
    "bare_gateways b' j \<in> {None, bare_gateways b j}"
    "wf_map (Gateways (cst_GateTree b)) \<longrightarrow> wf_map (Gateways (cst_GateTree b'))"
    using s by (auto simp: bare_gateways_def)
qed

end

interpretation http_routes: route_builder HTTPRoute_kind "\<lambda>g. (GatewayClasses g, Secrets g, Services g, TLSRoutes g)"
  by unfold_locales (simp_all add: HTTPRoute_kind_def)

interpretation tls_routes: route_builder TLSRoute_kind "\<lambda>g. (GatewayClasses g, Secrets g, Services g, HTTPRoutes g)"
  by unfold_locales (simp_all add: TLSRoute_kind_def is_passthrough_def bare_listener_def)

interpretation http_tree: mirrored_tree "live_routes HTTPRoute_kind" "Route_CleanTreeUpdates HTTPRoute_kind"
    "Route_computeTreeUpdate extractGVK HTTPRoute_kind" "\<lambda>x. meta_key (rk_meta HTTPRoute_kind x)" "route_inv HTTPRoute_kind"
  by unfold_locales (simp_all add: http_routes.clean_spec http_routes.compute_spec)

interpretation tls_tree: mirrored_tree "live_routes TLSRoute_kind" "Route_CleanTreeUpdates TLSRoute_kind"
    "Route_computeTreeUpdate extractGVK TLSRoute_kind" "\<lambda>x. meta_key (rk_meta TLSRoute_kind x)" "route_inv TLSRoute_kind"
  by unfold_locales (simp_all add: tls_routes.clean_spec tls_routes.compute_spec)

subsection \<open>The status of a route\<close>

definition has_parent :: "route_conditions \<Rightarrow> parent_reference \<Rightarrow> bool" where
  "has_parent c p \<longleftrightarrow> KeyMap_Get (rc_Conditions c) p \<noteq> None"

lemma has_parent_merge:
  assumes "rc_inv c" "plain_parent_ref p" "plain_parent_ref q"
  shows "has_parent (MergeOverrideConditionsForParentRef p conds c) q \<longleftrightarrow> q = p \<or> has_parent c q"
proof -
  have "km_computeKey (rc_Conditions c) = ParentRefToKey" using assms(1) by (simp add: rc_inv_def)
  from prefs.get_set[OF this assms(2,3)] show ?thesis
    by (auto simp: has_parent_def MergeOverrideConditionsForParentRef_def Let_def)
qed

lemma parent_refs_present:
  assumes "fold (parent_ref_step extractGVK K k8s) ps (c, v, r, b) = (c', v', r', b')"
    and sec: "\<And>l. rk_section_ok K (bare_listener l) = rk_section_ok K l"
    and "rc_inv c" "list_all plain_parent_ref ps" "plain_parent_ref q"
  shows "has_parent c' q \<longleftrightarrow> has_parent c q \<or> q \<in> set ps \<and> refers_to_managed extractGVK K k8s b q"
  using assms(1,3-)
proof (induction ps arbitrary: c v r b)
  case (Cons p ps)
  obtain c1 v1 r1 b1 where s: "parent_ref_step extractGVK K k8s p (c, v, r, b) = (c1, v1, r1, b1)"
    by (cases "parent_ref_step extractGVK K k8s p (c, v, r, b)")
  obtain result where res: "Route_checkParentRef extractGVK K k8s p (r, b) = (result, r1, b1)"
    using s by (auto simp: parent_ref_step_def Let_def split: prod.splits if_splits)
  note e = checkParentRef_spec[OF sec res, unfolded parent_ref_effect_def]
  have c1: "c1 = (if cpr_Managed result then MergeOverrideConditionsForParentRef p (cpr_Conditions result) c else c)"
    using s res by (auto simp: parent_ref_step_def split: if_splits)
  have pl: "plain_parent_ref p" using Cons.prems(3) by simp
  have inv: "rc_inv c1" using Cons.prems(2) e pl by (simp add: c1 rc_inv_merge)
  have h: "has_parent c1 q \<longleftrightarrow> has_parent c q \<or> q = p \<and> refers_to_managed extractGVK K k8s b p"
    using has_parent_merge[OF Cons.prems(2) pl Cons.prems(4)] e by (auto simp: c1)
  have rm: "refers_to_managed extractGVK K k8s b1 = refers_to_managed extractGVK K k8s b" using e by (intro takes_cong) simp
  have "has_parent c' q \<longleftrightarrow> has_parent c1 q \<or> q \<in> set ps \<and> refers_to_managed extractGVK K k8s b1 q"
    using Cons.prems s inv by (intro Cons.IH) (auto simp: list_all_iff)
  then show ?case unfolding h rm by auto
qed simp

text \<open>Merging the entries of one conditions map into another, as both loops over a \<open>KeyMap\<close> do.\<close>

lemma merge_loop:
  assumes "rc_inv c" "\<And>k v. (k, v) \<in> set d \<Longrightarrow> coherent (f v) \<and> (\<exists>p. plain_parent_ref p \<and> k = ParentRefToKey p)"
    and "wf_map d" "plain_parent_ref q"
  defines "c' \<equiv> iterate_data (\<lambda>key v. merge_for_key key (f v)) d c"
  shows "rc_inv c' \<and> (has_parent c' q \<longleftrightarrow> map_of d (ParentRefToKey q) \<noteq> None \<or> has_parent c q)
    \<and> RouteConditions_GetCondition c' t q = (case map_of d (ParentRefToKey q) of None \<Rightarrow> RouteConditions_GetCondition c t q
        | Some v \<Rightarrow> (case map_of (f v) t of None \<Rightarrow> RouteConditions_GetCondition c t q | Some x \<Rightarrow> Some x))"
  unfolding c'_def using assms(1-3)
proof (induction d arbitrary: c)
  case (Cons x d)
  obtain k v where x: "x = (k, v)" by (cases x)
  obtain p where p: "plain_parent_ref p" "k = ParentRefToKey p" and coh: "coherent (f v)" using Cons.prems(2)[of k v] x by auto
  let ?c1 = "MergeOverrideConditionsForParentRef p (f v) c"
  have inv: "rc_inv ?c1" by (rule rc_inv_merge[OF Cons.prems(1) p(1) coh])
  have key: "ParentRefToKey q = k \<longleftrightarrow> q = p" using p assms(4) by (metis parent_ref_decode sum.inject(2))
  have fresh: "map_of d k = None" "wf_map d" using Cons.prems(3) by (auto simp: x wf_map_Cons map_of_None_mkeys)
  have step: "iterate_data (\<lambda>key v. merge_for_key key (f v)) (x # d) c = iterate_data (\<lambda>key v. merge_for_key key (f v)) d ?c1"
    using p by (simp add: x merge_for_key_def parent_ref_decode)
  have "rc_inv (iterate_data (\<lambda>key v. merge_for_key key (f v)) d ?c1)
    \<and> (has_parent (iterate_data (\<lambda>key v. merge_for_key key (f v)) d ?c1) q \<longleftrightarrow> map_of d (ParentRefToKey q) \<noteq> None \<or> has_parent ?c1 q)
    \<and> RouteConditions_GetCondition (iterate_data (\<lambda>key v. merge_for_key key (f v)) d ?c1) t q
      = (case map_of d (ParentRefToKey q) of None \<Rightarrow> RouteConditions_GetCondition ?c1 t q
        | Some v \<Rightarrow> (case map_of (f v) t of None \<Rightarrow> RouteConditions_GetCondition ?c1 t q | Some x \<Rightarrow> Some x))"
    using Cons.prems(2) by (intro Cons.IH inv fresh(2)) auto
  then show ?case unfolding step
    using has_parent_merge[OF Cons.prems(1) p(1) assms(4), of "f v"] merge_get[OF Cons.prems(1) p(1) assms(4) coh, of t] fresh(1) key
    by (cases "q = p") (auto simp: x split: option.splits)
qed simp

lemma rc_inv0: "rc_inv (route_conditions0 n)" "\<not> has_parent (route_conditions0 n) p"
  "RouteConditions_GetCondition (route_conditions0 n) t p = None" "RouteConditions_SetGeneration g (route_conditions0 n) = route_conditions0 n"
  by (simp_all add: rc_inv_def data_inv_def route_conditions0_def NewKeyMap_def has_parent_def KeyMap_Get_def
      RouteConditions_GetCondition_def RouteConditions_SetGeneration_def)

lemma rc_inv_entry:
  "rc_inv c \<Longrightarrow> (k, v) \<in> set (km_data (rc_Conditions c)) \<Longrightarrow> coherent v \<and> (\<exists>p. plain_parent_ref p \<and> k = ParentRefToKey p)"
  using data_inv_entry[of "km_data (rc_Conditions c)" k v] by (simp add: rc_inv_def)

lemma rc_inv_wf: "rc_inv c \<Longrightarrow> wf_map (km_data (rc_Conditions c))"
  by (simp add: rc_inv_def data_inv_def)

lemma rc_inv_get:
  assumes "rc_inv c"
  shows "has_parent c q \<longleftrightarrow> map_of (km_data (rc_Conditions c)) (ParentRefToKey q) \<noteq> None"
    and "RouteConditions_GetCondition c t q = (case map_of (km_data (rc_Conditions c)) (ParentRefToKey q) of None \<Rightarrow> None | Some v \<Rightarrow> map_of v t)"
  using assms by (simp_all add: rc_inv_def has_parent_def KeyMap_Get_def RouteConditions_GetCondition_def)

lemma BuildConditions_spec:
  fixes K :: "('k, 'r) route_kind"
  assumes "Route_isManaged r" "rc_inv (crr_Conditions (rt_CheckParentRefs r))" "plain_parent_ref q"
  defines "c \<equiv> rt_Conditions (Route_BuildConditions K r)"
  shows "rc_inv c \<and> (has_parent c q \<longleftrightarrow> has_parent (crr_Conditions (rt_CheckParentRefs r)) q)
    \<and> RouteConditions_GetCondition c t q = RouteConditions_GetCondition (crr_Conditions (rt_CheckParentRefs r)) t q"
proof -
  let ?d = "km_data (rc_Conditions (crr_Conditions (rt_CheckParentRefs r)))"
  have "c = iterate_data (\<lambda>key v. merge_for_key key v) ?d (route_conditions0 (rt_ControllerName r))"
    using assms(1) by (simp add: c_def Route_BuildConditions_def Let_def KeyMap_Iterate_def rc_inv0 split: option.split)
  then show ?thesis
    using merge_loop[OF rc_inv0(1) rc_inv_entry[OF assms(2)] rc_inv_wf[OF assms(2)] assms(3), where f = "\<lambda>v. v" and t = t]
      rc_inv_get[OF assms(2)] by (auto simp: rc_inv0 split: option.splits)
qed

lemma mergeBackendConditions_spec:
  assumes "rc_inv (rt_Conditions r)" "plain_parent_ref q" "coherent (ko_conditions (rt_Rules r))"
  defines "resolved \<equiv> (if ko_conditions (rt_Rules r) \<noteq> [] then ko_conditions (rt_Rules r) else ConditionOKResolvedRef)"
  shows "RouteConditions_GetCondition (rt_Conditions (Route_mergeBackendConditions r)) t q
    = (if has_parent (rt_Conditions r) q \<and> map_of resolved t \<noteq> None then map_of resolved t else RouteConditions_GetCondition (rt_Conditions r) t q)"
proof -
  let ?d = "km_data (rc_Conditions (rt_Conditions r))"
  have "coherent resolved" using assms(3) by (simp add: resolved_def)
  then have "RouteConditions_GetCondition (iterate_data (\<lambda>key v. merge_for_key key resolved) ?d (rt_Conditions r)) t q
      = (case map_of ?d (ParentRefToKey q) of None \<Rightarrow> RouteConditions_GetCondition (rt_Conditions r) t q
        | Some v \<Rightarrow> (case map_of resolved t of None \<Rightarrow> RouteConditions_GetCondition (rt_Conditions r) t q | Some x \<Rightarrow> Some x))"
    using merge_loop[OF assms(1) _ rc_inv_wf[OF assms(1)] assms(2), where f = "\<lambda>_. resolved" and t = t] rc_inv_entry[OF assms(1)]
    by blast
  then show ?thesis unfolding rc_inv_get(1)[OF assms(1)]
    by (auto simp: Route_mergeBackendConditions_def Let_def KeyMap_Iterate_def resolved_def split: option.splits)
qed

subsection \<open>Backend references\<close>

definition only_ko :: "conditions \<Rightarrow> bool" where
  "only_ko c \<longleftrightarrow> coherent c \<and> (\<forall>t v. map_of c t = Some v \<longrightarrow> t = ''ResolvedRefs'' \<and> Cond_Status v = ''False'')"

lemma only_ko_merge: "only_ko a \<Longrightarrow> only_ko b \<Longrightarrow> only_ko (MergeOverrideConditions a b)"
proof -
  assume a: "only_ko a" and b: "only_ko b"
  then have "wf_map b" by (simp add: only_ko_def coherent_def)
  then show ?thesis using a b by (auto simp: only_ko_def coherent_Merge map_of_Merge_wf split: option.splits)
qed

lemma backend_check_conditions:
  "\<not> cr_Valid (backend_ref_check extractGVK services ns r) \<Longrightarrow>
     only_ko (cr_Conditions (backend_ref_check extractGVK services ns r)) \<and> cr_Conditions (backend_ref_check extractGVK services ns r) \<noteq> []"
  by (auto simp: backend_ref_check_def only_ko_def condition_constructors cond_entry_def coherent_def wf_map_def split: if_splits)

lemma Merge_ne: "MergeOverrideConditions c b = [] \<longleftrightarrow> c = [] \<and> b = []"
proof -
  have "mkeys (MergeOverrideConditions c b) = mkeys c \<union> mkeys b"
    unfolding MergeOverrideConditions_def by (induction b arbitrary: c) auto
  moreover have "mkeys m = {} \<longleftrightarrow> m = []" for m :: conditions by (simp add: mkeys_def)
  ultimately show ?thesis by (metis Un_empty)
qed

text \<open>The failing results of all rules, merged.\<close>

lemma ko_conditions_spec:
  assumes "\<And>rule k res. rule \<in> set rules \<Longrightarrow> (k, res) \<in> set (km_data (rr_CheckBackendRef rule)) \<Longrightarrow> \<not> cr_Valid res
    \<Longrightarrow> only_ko (cr_Conditions res) \<and> cr_Conditions res \<noteq> []"
  shows "only_ko (ko_conditions rules)
    \<and> (ko_conditions rules = [] \<longleftrightarrow> (\<forall>rule \<in> set rules. \<forall>(k, res) \<in> set (km_data (rr_CheckBackendRef rule)). cr_Valid res))"
proof -
  let ?f = "\<lambda>_ res conds. (True, if \<not> cr_Valid res then MergeOverrideConditions conds (cr_Conditions res) else conds)"
  have inner: "only_ko (iterate_data ?f d c) \<and> (iterate_data ?f d c = [] \<longleftrightarrow> c = [] \<and> (\<forall>(k, res) \<in> set d. cr_Valid res))"
    if "only_ko c" "\<And>k res. (k, res) \<in> set d \<Longrightarrow> \<not> cr_Valid res \<Longrightarrow> only_ko (cr_Conditions res) \<and> cr_Conditions res \<noteq> []" for d c
    using that
  proof (induction d arbitrary: c)
    case (Cons x d)
    obtain k res where x: "x = (k, res)" by (cases x)
    let ?c = "if \<not> cr_Valid res then MergeOverrideConditions c (cr_Conditions res) else c"
    have "only_ko ?c" "?c = [] \<longleftrightarrow> c = [] \<and> cr_Valid res"
      using Cons.prems(1) Cons.prems(2)[of k res] by (auto simp: x only_ko_merge Merge_ne)
    moreover have "only_ko (iterate_data ?f d ?c) \<and> (iterate_data ?f d ?c = [] \<longleftrightarrow> ?c = [] \<and> (\<forall>(k, res) \<in> set d. cr_Valid res))"
      by (rule Cons.IH[OF calculation(1)]) (use Cons.prems(2) in auto)
    ultimately show ?case by (simp add: x Let_def split: if_splits)
  qed simp
  have "only_ko (fold (\<lambda>rule conds. KeyMap_Iterate ?f (rr_CheckBackendRef rule) conds) rs c)
      \<and> (fold (\<lambda>rule conds. KeyMap_Iterate ?f (rr_CheckBackendRef rule) conds) rs c = []
         \<longleftrightarrow> c = [] \<and> (\<forall>rule \<in> set rs. \<forall>(k, res) \<in> set (km_data (rr_CheckBackendRef rule)). cr_Valid res))"
    if "only_ko c" "set rs \<subseteq> set rules" for rs c
    using that
  proof (induction rs arbitrary: c)
    case (Cons rule rs)
    note i = inner[OF Cons.prems(1), of "km_data (rr_CheckBackendRef rule)"]
    have "only_ko (iterate_data ?f (km_data (rr_CheckBackendRef rule)) c)
      \<and> (iterate_data ?f (km_data (rr_CheckBackendRef rule)) c = [] \<longleftrightarrow> c = [] \<and> (\<forall>(k, res) \<in> set (km_data (rr_CheckBackendRef rule)). cr_Valid res))"
      by (rule i) (use assms Cons.prems(2) in auto)
    then show ?case using Cons.IH[of "iterate_data ?f (km_data (rr_CheckBackendRef rule)) c"] Cons.prems(2)
      by (simp add: KeyMap_Iterate_def)
  qed simp
  from this[of "[]" rules] show ?thesis by (simp add: ko_conditions_def only_ko_def)
qed

text \<open>The validity a rule ends with: \<open>v\<close> is \<open>routeValid\<close>, \<open>old\<close> the value written last.\<close>

fun rule_valid :: "('b \<Rightarrow> bool) \<Rightarrow> bool \<Rightarrow> bool \<Rightarrow> 'b list \<Rightarrow> bool" where
  "rule_valid P v old [] = old"
| "rule_valid P v old (r # rs) = (if P r then rule_valid P v v rs else rule_valid P False old rs)"

lemma rule_valid_failed: "rule_valid P False old rs \<longleftrightarrow> old \<and> \<not> list_ex P rs"
  by (induction rs arbitrary: old) auto

lemma rule_valid_ok: "rule_valid P True True rs \<longleftrightarrow> \<not> list_ex P (dropWhile P rs)"
  by (induction rs) (auto simp: rule_valid_failed)

lemma rule_valid_iff: "rule_valid P True False rs \<longleftrightarrow> rs \<noteq> [] \<and> P (hd rs) \<and> \<not> list_ex P (dropWhile P rs)"
  by (cases rs) (auto simp: rule_valid_ok rule_valid_failed)

lemma rule_check_fold:
  fixes chk :: "backend_object_reference \<Rightarrow> check_result"
  defines "step \<equiv> (\<lambda>backendRef (routeValid, rule).
       let res = chk backendRef;
           rule' = rule\<lparr>rr_CheckBackendRef := KeyMap_Set backendRef res (rr_CheckBackendRef rule)\<rparr>
       in if \<not> cr_Valid res then (False, rule') else (routeValid, rule'\<lparr>rr_Valid := routeValid\<rparr>))"
  shows "snd (fold step refs (v, rule)) = rule
    \<lparr>rr_CheckBackendRef := fold (\<lambda>r. KeyMap_Set r (chk r)) refs (rr_CheckBackendRef rule),
     rr_Valid := rule_valid (\<lambda>r. cr_Valid (chk r)) v (rr_Valid rule) refs\<rparr>"
proof (induction refs arbitrary: v rule)
  case (Cons r refs)
  show ?case using Cons.IH by (simp add: step_def Let_def)
qed simp

lemma KeyMap_sets:
  assumes "km_computeKey m = key"
  shows "km_data (fold (\<lambda>r. KeyMap_Set r (chk r)) refs m) = fold (\<lambda>r. mput (key r) (chk r)) refs (km_data m)
    \<and> km_computeKey (fold (\<lambda>r. KeyMap_Set r (chk r)) refs m) = key"
  using assms by (induction refs arbitrary: m) (auto simp: KeyMap_Set_def)

text \<open>The port is not part of the key, and the check does not read it.\<close>

definition plain_up_to_port :: "backend_object_reference \<Rightarrow> bool" where
  "plain_up_to_port r = plain_backend_ref (BackendObjectReference (bref_group r) (bref_kind r) (bref_namespace r) (bref_name r) None)"

lemma same_key_same_check:
  assumes "plain_up_to_port r" "plain_up_to_port s" "BackendObjectReferenceToKey r = BackendObjectReferenceToKey s"
  shows "backend_ref_check extractGVK services ns r = backend_ref_check extractGVK services ns s"
proof -
  let ?np = "\<lambda>r. BackendObjectReference (bref_group r) (bref_kind r) (bref_namespace r) (bref_name r) None"
  have key: "BackendObjectReferenceToKey (?np x) = BackendObjectReferenceToKey x" for x by (simp add: BackendObjectReferenceToKey_def)
  have "KeyToBackendObjectReference (BackendObjectReferenceToKey (?np x)) = Inr (?np x)" if "plain_up_to_port x" for x
    by (rule backend_ref_decode) (use that in \<open>simp add: plain_up_to_port_def\<close>)
  from this[OF assms(1)] this[OF assms(2)] assms(3) have "?np r = ?np s" unfolding key by simp
  then show ?thesis by (simp add: backend_ref_check_def IsBackendRefGroupKindSupported_def ServiceNsNameKey_def assms(3) Let_def)
qed

lemma fold_mput_entries:
  "wf_map m \<Longrightarrow> wf_map (fold (\<lambda>r. mput (key r) (chk r)) refs m)"
  "(k, v) \<in> set (fold (\<lambda>r. mput (key r) (chk r)) refs m) \<Longrightarrow> wf_map m \<Longrightarrow> (k, v) \<in> set m \<or> (\<exists>r \<in> set refs. k = key r \<and> v = chk r)"
proof -
  show wf: "wf_map m \<Longrightarrow> wf_map (fold (\<lambda>r. mput (key r) (chk r)) refs m)" for refs and m
    by (induction refs arbitrary: m) (auto simp: wf_mput)
  assume "(k, v) \<in> set (fold (\<lambda>r. mput (key r) (chk r)) refs m)" "wf_map m"
  then have "map_of (fold (\<lambda>r. mput (key r) (chk r)) refs m) k = Some v" using wf by (simp add: map_of_wf_mem)
  then have "map_of m k = Some v \<or> (\<exists>r \<in> set refs. k = key r \<and> v = chk r)"
    by (induction refs arbitrary: m) (fastforce simp: map_of_mput split: if_splits)+
  then show "(k, v) \<in> set m \<or> (\<exists>r \<in> set refs. k = key r \<and> v = chk r)" by (auto dest: map_of_SomeD)
qed

lemma fold_mput_present:
  assumes "\<And>r s. r \<in> set refs \<Longrightarrow> s \<in> set refs \<Longrightarrow> key r = key s \<Longrightarrow> chk r = chk s" "r \<in> set refs"
  shows "map_of (fold (\<lambda>r. mput (key r) (chk r)) refs m) (key r) = Some (chk r)"
  using assms
proof (induction refs rule: rev_induct)
  case (snoc x refs)
  show ?case
  proof (cases "key r = key x")
    case True
    then show ?thesis using snoc.prems(1)[of r x] snoc.prems(2) by (simp add: map_of_mput)
  next
    case False
    then have "map_of (fold (\<lambda>r. mput (key r) (chk r)) refs m) (key r) = Some (chk r)"
      using snoc.prems by (intro snoc.IH) auto
    then show ?thesis using False by (simp add: map_of_mput)
  qed
qed simp

abbreviation new_rule :: "'r \<Rightarrow> 'r route_rule" where
  "new_rule rule \<equiv> \<lparr>rr_K8sResource = rule, rr_CheckBackendRef = NewKeyMap BackendObjectReferenceToKey, rr_Valid = False\<rparr>"

lemma rule_results:
  fixes K :: "('k, 'r) route_kind" and extractGVK :: "k8s_object \<Rightarrow> gvk" and services :: "service tree_map" and ns :: string
  assumes "\<And>r. r \<in> set (rk_backendRefs K rule) \<Longrightarrow> plain_up_to_port r"
  defines "chk \<equiv> backend_ref_check extractGVK services ns" and "refs \<equiv> rk_backendRefs K rule"
  defines "rule' \<equiv> Rule_checkBackendRef extractGVK K services ns (new_rule rule)"
  shows "\<And>r. r \<in> set refs \<Longrightarrow> KeyMap_Get (rr_CheckBackendRef rule') r = Some (chk r)"
    and "\<And>k res. (k, res) \<in> set (km_data (rr_CheckBackendRef rule')) \<Longrightarrow> \<exists>r \<in> set refs. res = chk r"
    and "rr_Valid rule' = rule_valid (\<lambda>r. cr_Valid (chk r)) True False refs"
proof -
  have rule': "rule' = (new_rule rule)\<lparr>rr_CheckBackendRef := fold (\<lambda>r. KeyMap_Set r (chk r)) refs (NewKeyMap BackendObjectReferenceToKey),
      rr_Valid := rule_valid (\<lambda>r. cr_Valid (chk r)) True False refs\<rparr>"
    using rule_check_fold[of chk refs True "new_rule rule"] by (simp add: rule'_def Rule_checkBackendRef_def chk_def refs_def)
  note sets = KeyMap_sets[of "NewKeyMap BackendObjectReferenceToKey" BackendObjectReferenceToKey chk refs]
  have d: "km_data (rr_CheckBackendRef rule') = fold (\<lambda>r. mput (BackendObjectReferenceToKey r) (chk r)) refs []"
    and k: "km_computeKey (rr_CheckBackendRef rule') = BackendObjectReferenceToKey"
    using sets by (simp_all add: rule' NewKeyMap_def)
  have same: "chk r = chk s" if "r \<in> set refs" "s \<in> set refs" "BackendObjectReferenceToKey r = BackendObjectReferenceToKey s" for r s
    using same_key_same_check that assms(1) by (simp add: chk_def refs_def)
  show "KeyMap_Get (rr_CheckBackendRef rule') r = Some (chk r)" if "r \<in> set refs" for r
    using fold_mput_present[OF same that] by (simp add: KeyMap_Get_def d k)
  show "\<exists>r \<in> set refs. res = chk r" if "(k, res) \<in> set (km_data (rr_CheckBackendRef rule'))" for k res
    using fold_mput_entries(2)[OF that[unfolded d]] by auto
  show "rr_Valid rule' = rule_valid (\<lambda>r. cr_Valid (chk r)) True False refs" by (simp add: rule')
qed

text \<open>C29: the check of the backend references of an HTTP rule.  The rule holds for each reference the
  result of its own check, and is marked as valid exactly when its references start with one that
  passes and no reference passes after one that failed: a failing reference at the end does not
  make the rule invalid, one before a passing reference does.\<close>

theorem rule_check_exact:
  assumes "\<forall>r \<in> set (hr_backendRefs rule). plain_up_to_port (hb_ref r)"
  shows "let rule' = HTTPRouteRule_checkBackendRef extractGVK services ns (new_rule rule);
             refs = map hb_ref (hr_backendRefs rule); ok = (\<lambda>r. cr_Valid (backend_ref_check extractGVK services ns r))
    in (\<forall>r \<in> set refs. KeyMap_Get (rr_CheckBackendRef rule') r = Some (backend_ref_check extractGVK services ns r))
      \<and> (rr_Valid rule' \<longleftrightarrow> refs \<noteq> [] \<and> ok (hd refs) \<and> \<not> list_ex ok (dropWhile ok refs))"
proof -
  have "plain_up_to_port r" if "r \<in> set (rk_backendRefs HTTPRoute_kind rule)" for r
    using that assms by (auto simp: HTTPRoute_kind_def)
  from rule_results[of HTTPRoute_kind, OF this] show ?thesis
    unfolding Let_def HTTPRouteRule_checkBackendRef_def rule_valid_iff[symmetric]
    by (simp add: HTTPRoute_kind_def)
qed

subsection \<open>Attachment and status of an upserted route\<close>

definition status_true :: "route_conditions \<Rightarrow> string \<Rightarrow> parent_reference \<Rightarrow> bool" where
  "status_true c t p \<longleftrightarrow> (\<exists>v. RouteConditions_GetCondition c t p = Some v \<and> Cond_Status v = ''True'')"

text \<open>Every backend reference of every rule has a supported kind and an existing service.\<close>

definition refs_resolve :: "(k8s_object \<Rightarrow> gvk) \<Rightarrow> ('k, 'r) route_kind \<Rightarrow> service tree_map \<Rightarrow> 'k \<Rightarrow> bool" where
  "refs_resolve extractGVK K services k8s \<longleftrightarrow> (\<forall>rule \<in> set (rk_rules K k8s). \<forall>r \<in> set (rk_backendRefs K rule).
     IsBackendRefGroupKindSupported r extractGVK
     \<and> (\<exists>s. map_of services (ServiceNsNameKey (om_namespace (rk_meta K k8s)) r) = Some s \<and> TreeStatus (tr_status s) \<noteq> StatusDeleted))"

lemma check_valid_iff:
  "cr_Valid (backend_ref_check extractGVK services ns r) \<longleftrightarrow> IsBackendRefGroupKindSupported r extractGVK
     \<and> (\<exists>s. map_of services (ServiceNsNameKey ns r) = Some s \<and> TreeStatus (tr_status s) \<noteq> StatusDeleted)"
  by (auto simp: backend_ref_check_def split: option.splits)

lemma built_rules_ko:
  fixes K :: "('k, 'r) route_kind" and extractGVK :: "k8s_object \<Rightarrow> gvk" and services :: "service tree_map"
  assumes "rt_K8sResource r = Some k8s"
    and plain: "\<And>rule x. rule \<in> set (rk_rules K k8s) \<Longrightarrow> x \<in> set (rk_backendRefs K rule) \<Longrightarrow> plain_up_to_port x"
  defines "rules \<equiv> rt_Rules (Route_buildRules extractGVK K services r)"
  shows "only_ko (ko_conditions rules) \<and> (ko_conditions rules = [] \<longleftrightarrow> refs_resolve extractGVK K services k8s)"
proof -
  define ns where "ns = om_namespace (rk_meta K k8s)"
  have rules: "rules = map (\<lambda>rule. Rule_checkBackendRef extractGVK K services ns (new_rule rule)) (rk_rules K k8s)"
    by (simp add: rules_def Route_buildRules_def assms(1) ns_def)
  have res: "(\<exists>k. (k, res) \<in> set (km_data (rr_CheckBackendRef (Rule_checkBackendRef extractGVK K services ns (new_rule rule)))))
      \<longleftrightarrow> (\<exists>x \<in> set (rk_backendRefs K rule). res = backend_ref_check extractGVK services ns x)" if "rule \<in> set (rk_rules K k8s)" for rule res
  proof
    note rr = rule_results(1,2)[of K rule, OF plain[OF that], where extractGVK = extractGVK and services = services and ns = ns]
    show "\<exists>x \<in> set (rk_backendRefs K rule). res = backend_ref_check extractGVK services ns x"
      if "\<exists>k. (k, res) \<in> set (km_data (rr_CheckBackendRef (Rule_checkBackendRef extractGVK K services ns (new_rule rule))))"
      using that rr(2) by blast
    show "\<exists>k. (k, res) \<in> set (km_data (rr_CheckBackendRef (Rule_checkBackendRef extractGVK K services ns (new_rule rule))))"
      if "\<exists>x \<in> set (rk_backendRefs K rule). res = backend_ref_check extractGVK services ns x"
      using that rr(1) unfolding KeyMap_Get_def by (metis map_of_SomeD)
  qed
  have ko: "only_ko (cr_Conditions c) \<and> cr_Conditions c \<noteq> []"
    if "rule \<in> set rules" "(k, c) \<in> set (km_data (rr_CheckBackendRef rule))" "\<not> cr_Valid c" for rule k c
  proof -
    note h = that
    obtain rule0 where r0: "rule0 \<in> set (rk_rules K k8s)" "rule = Rule_checkBackendRef extractGVK K services ns (new_rule rule0)"
      using h(1) by (auto simp: rules)
    then obtain x where "c = backend_ref_check extractGVK services ns x" using res[OF r0(1), of c] h(2) by auto
    then show ?thesis using backend_check_conditions h(3) by simp
  qed
  have "(\<forall>rule \<in> set rules. \<forall>(k, c) \<in> set (km_data (rr_CheckBackendRef rule)). cr_Valid c)
      \<longleftrightarrow> (\<forall>rule \<in> set (rk_rules K k8s). \<forall>x \<in> set (rk_backendRefs K rule). cr_Valid (backend_ref_check extractGVK services ns x))"
  proof -
    have "(\<forall>(k, c) \<in> set (km_data (rr_CheckBackendRef (Rule_checkBackendRef extractGVK K services ns (new_rule rule)))). cr_Valid c)
        \<longleftrightarrow> (\<forall>x \<in> set (rk_backendRefs K rule). cr_Valid (backend_ref_check extractGVK services ns x))" if "rule \<in> set (rk_rules K k8s)" for rule
    proof -
      have all: "(\<forall>(k, c) \<in> S. cr_Valid c) \<longleftrightarrow> (\<forall>c. (\<exists>k. (k, c) \<in> S) \<longrightarrow> cr_Valid c)" for S :: "(string \<times> check_result) set" by auto
      show ?thesis unfolding all res[OF that] by blast
    qed
    then show ?thesis by (simp add: rules)
  qed
  moreover have "only_ko (ko_conditions rules)
    \<and> (ko_conditions rules = [] \<longleftrightarrow> (\<forall>rule \<in> set rules. \<forall>(k, c) \<in> set (km_data (rr_CheckBackendRef rule)). cr_Valid c))"
    by (rule ko_conditions_spec) (rule ko)
  ultimately show ?thesis by (simp add: refs_resolve_def check_valid_iff ns_def)
qed

context route_builder begin

lemma attachment:
  assumes "rt_K8sResource r = Some k8s" "Route_checkParentRefs extractGVK K (r, b) = (r', b')"
  shows "attached_by extractGVK K k8s b (rk_parentRefs K k8s) b'"
    and "Route_isManaged r' \<longleftrightarrow> (\<exists>p \<in> set (rk_parentRefs K k8s). \<exists>gk n. takes extractGVK K k8s b p gk n)"
    and "rt_K8sResource r' = Some k8s"
    and "list_all plain_parent_ref (rk_parentRefs K k8s) \<Longrightarrow> distinct (rk_parentRefs K k8s) \<Longrightarrow> p \<in> set (rk_parentRefs K k8s) \<Longrightarrow>
      rc_inv (crr_Conditions (rt_CheckParentRefs r'))
      \<and> (has_parent (crr_Conditions (rt_CheckParentRefs r')) p \<longleftrightarrow> refers_to_managed extractGVK K k8s b p)
      \<and> (accepted_for (crr_Conditions (rt_CheckParentRefs r')) p \<longleftrightarrow> (\<exists>gk n. takes extractGVK K k8s b p gk n))"
proof -
  obtain cs v r2 b2 where f: "fold (parent_ref_step extractGVK K k8s) (rk_parentRefs K k8s)
      (route_conditions0 (rt_ControllerName r), False, r, b) = (cs, v, r2, b2)" by (metis prod_cases4)
  have out: "b' = b2" "r' = r2\<lparr>rt_CheckParentRefs := \<lparr>crr_Conditions = cs, crr_Valid = v\<rparr>\<rparr>"
    using assms f by (simp_all add: checkParentRefs_fold)
  note e = parent_refs_effect[OF section_bare f]
  show "attached_by extractGVK K k8s b (rk_parentRefs K k8s) b'" "rt_K8sResource r' = Some k8s"
    "Route_isManaged r' \<longleftrightarrow> (\<exists>p \<in> set (rk_parentRefs K k8s). \<exists>gk n. takes extractGVK K k8s b p gk n)"
    using e assms(1) by (auto simp: out Route_isManaged_def)
  assume plain: "list_all plain_parent_ref (rk_parentRefs K k8s)" "distinct (rk_parentRefs K k8s)" "p \<in> set (rk_parentRefs K k8s)"
  have pp: "plain_parent_ref p" using plain by (simp add: list_all_iff)
  show "rc_inv (crr_Conditions (rt_CheckParentRefs r'))
      \<and> (has_parent (crr_Conditions (rt_CheckParentRefs r')) p \<longleftrightarrow> refers_to_managed extractGVK K k8s b p)
      \<and> (accepted_for (crr_Conditions (rt_CheckParentRefs r')) p \<longleftrightarrow> (\<exists>gk n. takes extractGVK K k8s b p gk n))"
    using parent_refs_conditions[OF section_bare f rc_inv0(1) plain(1,2) rc_inv0(3)] plain(3)
      parent_refs_present[OF f section_bare rc_inv0(1) plain(1) pp] by (simp add: out rc_inv0)
qed

lemma final_status:
  fixes services :: "service tree_map"
  assumes k8s: "rt_K8sResource r = Some k8s" and run: "Route_processChecks extractGVK K (r, b) = (core, b')"
    and refs: "list_all plain_parent_ref (rk_parentRefs K k8s)" "distinct (rk_parentRefs K k8s)" "p \<in> set (rk_parentRefs K k8s)"
    and plain: "\<And>rule x. rule \<in> set (rk_rules K k8s) \<Longrightarrow> x \<in> set (rk_backendRefs K rule) \<Longrightarrow> plain_up_to_port x"
    and man: "Route_isManaged core" "refers_to_managed extractGVK K k8s b p"
  defines "final \<equiv> rt_Conditions (finish_route extractGVK K services (Route_BuildConditions K core))"
  shows "(status_true final ''Accepted'' p \<longleftrightarrow> (\<exists>gk n. takes extractGVK K k8s b p gk n))
    \<and> (status_true final ''ResolvedRefs'' p \<longleftrightarrow> refs_resolve extractGVK K services k8s)"
proof -
  obtain r1 where c: "Route_checkParentRefs extractGVK K (r, b) = (r1, b')" "core = r1\<lparr>rt_Valid := crr_Valid (rt_CheckParentRefs r1)\<rparr>"
    using run by (auto simp: Route_processChecks_def split: prod.splits)
  note at = attachment[OF k8s c(1)] and st = attachment(4)[OF k8s c(1) refs]
  let ?chk = "crr_Conditions (rt_CheckParentRefs r1)"
  have pp: "plain_parent_ref p" using refs by (simp add: list_all_iff)
  define r2 where "r2 = Route_BuildConditions K core"
  define r3 where "r3 = Route_buildRules extractGVK K services r2"
  have core: "rt_CheckParentRefs core = rt_CheckParentRefs r1" "rt_K8sResource core = Some k8s" using c(2) at(3) by simp_all
  have inv: "rc_inv (crr_Conditions (rt_CheckParentRefs core))" using st core(1) by simp
  have b: "rc_inv (rt_Conditions r2)" "has_parent (rt_Conditions r2) p"
      "RouteConditions_GetCondition (rt_Conditions r2) t p = RouteConditions_GetCondition ?chk t p" for t
    using BuildConditions_spec[OF man(1) inv pp, of K] st man(2) core(1) by (auto simp: r2_def)
  have r2: "rt_K8sResource r2 = Some k8s" "Route_isManaged r2"
    using core man(1) by (auto simp: r2_def Route_BuildConditions_def Let_def Route_isManaged_def)
  have c3: "rt_Conditions r3 = rt_Conditions r2" using r2(1) by (simp add: r3_def Route_buildRules_def)
  have ko: "only_ko (ko_conditions (rt_Rules r3))" "ko_conditions (rt_Rules r3) = [] \<longleftrightarrow> refs_resolve extractGVK K services k8s"
    using built_rules_ko[OF r2(1) plain] by (simp_all add: r3_def)
  have final: "final = rt_Conditions (Route_mergeBackendConditions r3)"
    using r2(2) by (simp add: final_def finish_route_def r2_def r3_def)
  have get: "RouteConditions_GetCondition final t p = (let resolved = if ko_conditions (rt_Rules r3) \<noteq> [] then ko_conditions (rt_Rules r3)
      else ConditionOKResolvedRef in if map_of resolved t \<noteq> None then map_of resolved t else RouteConditions_GetCondition ?chk t p)" for t
    using mergeBackendConditions_spec[of r3 p t] b(1,2) c3 pp ko(1) b(3) by (simp add: final only_ko_def Let_def)
  have ok: "map_of ConditionOKResolvedRef ''Accepted'' = None"
    "\<exists>v. map_of ConditionOKResolvedRef ''ResolvedRefs'' = Some v \<and> Cond_Status v = ''True''"
    by (simp_all add: condition_constructors cond_entry_def)
  have none: "map_of (ko_conditions (rt_Rules r3)) ''Accepted'' = None"
    using ko(1) by (cases "map_of (ko_conditions (rt_Rules r3)) ''Accepted''") (auto simp: only_ko_def)
  have some: "\<exists>v. map_of (ko_conditions (rt_Rules r3)) ''ResolvedRefs'' = Some v \<and> Cond_Status v = ''False''"
    if ne: "ko_conditions (rt_Rules r3) \<noteq> []"
  proof -
    obtain t v where "map_of (ko_conditions (rt_Rules r3)) t = Some v"
      using ne by (metis list.exhaust map_of_Cons_code(2) surj_pair)
    then show ?thesis using ko(1) by (auto simp: only_ko_def)
  qed
  have "status_true final ''Accepted'' p \<longleftrightarrow> accepted_for ?chk p"
    using get[of "''Accepted''"] ok(1) none by (simp add: status_true_def accepted_for_def Let_def)
  moreover have "status_true final ''ResolvedRefs'' p \<longleftrightarrow> refs_resolve extractGVK K services k8s"
    using get[of "''ResolvedRefs''"] ok(2) some ko(2) by (auto simp: status_true_def Let_def split: if_splits)
  ultimately show ?thesis using st by blast
qed

end




subsection \<open>Witnesses\<close>

text \<open>A gateway with an HTTP listener for \<open>*.a.com\<close> and one service; a route with two backend
  references, of which the second names no service.\<close>

definition ex_listener :: listener where
  "ex_listener = (listener_node \<lparr>ls_name = ''a'', ls_hostname = Some ''*.a.com'', ls_port = 80, ls_protocol = ''HTTP'', ls_tls = None,
     ls_tlsMode = None, ls_allowedRoutes = None\<rparr>)\<lparr>li_AllowedRouteKinds := [RouteKindHTTP, RouteKindTLS], li_Valid := True,
     li_Owner := NamespacedName ''d'' ''g''\<rparr>"

definition ex_gateway :: "gateway tree_res" where
  "ex_gateway = \<lparr>tr_status = \<lparr>OldTreeResource = None, TreeStatus = StatusUnchanged\<rparr>, tr_core = \<lparr>gw_K8sResource = None, gw_HugGate = None,
     gw_Conditions = [], gw_Listeners = [(''a'', ex_listener)], gw_CheckParamsRef = check_result0,
     gw_CheckValidGatewayClass = check_result0, gw_CheckConflict = check_result0, gw_Valid = True\<rparr>\<rparr>"

definition ex_service :: "service tree_res" where
  "ex_service = \<lparr>tr_status = \<lparr>OldTreeResource = None, TreeStatus = StatusUnchanged\<rparr>, tr_core = \<lparr>sv_K8sResource = None\<rparr>\<rparr>"

definition ex_store :: controller_store where
  "ex_store = \<lparr>cst_ClusterStore = empty_cluster_store,
     cst_GateTree = NewGateTree\<lparr>Gateways := [(NamespacedName ''d'' ''g'', ex_gateway)], Services := [(NamespacedName ''d'' ''s'', ex_service)]\<rparr>,
     cst_UnmanagedGateTree = NewGateTree, cst_ReferencedObjects = NewReferencedObjects scheme_gvk,
     cst_InstalledGwAPIVersions = \<lparr>iv_Versions = [], iv_Updated = None, iv_Valid = False\<rparr>,
     cst_CertUpdates = storage_updates0, cst_CrtListUpdates = storage_updates0, cst_ControllerName = ''hug''\<rparr>"

definition ex_parent :: parent_reference where
  "ex_parent = ParentReference None None None ''g'' (Some ''a'') None"

definition ex_backend :: "string \<Rightarrow> http_backend_ref" where
  "ex_backend n = \<lparr>hb_ref = BackendObjectReference None None None n (Some 80), hb_weight = None, hb_filters = []\<rparr>"

definition ex_rule :: http_route_rule where
  "ex_rule = \<lparr>hr_matches = [Some \<lparr>pm_type = None, pm_value = Some ''/x''\<rparr>], hr_filters = [],
     hr_backendRefs = [ex_backend ''s'', ex_backend ''t'']\<rparr>"

definition ex_route :: http_route_k8s where
  "ex_route = \<lparr>hrk_meta = meta0\<lparr>om_name := ''r'', om_namespace := ''d'', om_generation := 7\<rparr>, hrk_parentRefs = [ex_parent],
     hrk_hostnames = [''w.a.com''], hrk_rules = [ex_rule], hrk_statusParents = []\<rparr>"

definition ex_tls_route :: tls_route_k8s where
  "ex_tls_route = \<lparr>trk_meta = meta0\<lparr>om_name := ''t'', om_namespace := ''d''\<rparr>, trk_parentRefs = [ex_parent],
     trk_hostnames = [''w.a.com''], trk_rules = [], trk_statusParents = []\<rparr>"

lemma ex_takes: "takes scheme_gvk HTTPRoute_kind ex_route ex_store ex_parent (NamespacedName ''d'' ''g'') ''a''"
proof -
  have "listener_refusal (scheme_gvk (rk_object HTTPRoute_kind ex_route)) (rk_hostnames HTTPRoute_kind ex_route) (bare_listener ex_listener) = None"
    by code_simp
  moreover have "IsParentRefGroupKindSupported ex_parent scheme_gvk" by code_simp
  ultimately show ?thesis
    by (simp add: takes_def ex_parent_def GetParentRefNamespacedName_def getNamespace_def rk_meta_def bare_gateways_def bare_def
        HTTPRoute_kind_def ex_route_def ex_store_def ex_gateway_def meta0_def)
qed

abbreviation ex_node :: http_route where
  "ex_node \<equiv> tr_core (NewRoute ex_route ''hug'' :: http_route tree_res)"




theorem rule_check_exact_witness:
  "rr_Valid (HTTPRouteRule_checkBackendRef scheme_gvk (Services (cst_GateTree ex_store)) ''d'' (new_rule ex_rule))"
proof -
  have "\<forall>r \<in> set (hr_backendRefs ex_rule). plain_up_to_port (hb_ref r)" by code_simp
  moreover have "let refs = map hb_ref (hr_backendRefs ex_rule);
      ok = (\<lambda>r. cr_Valid (backend_ref_check scheme_gvk (Services (cst_GateTree ex_store)) ''d'' r))
    in refs \<noteq> [] \<and> ok (hd refs) \<and> \<not> list_ex ok (dropWhile ok refs)" by code_simp
  ultimately show ?thesis
    using rule_check_exact[of ex_rule scheme_gvk "Services (cst_GateTree ex_store)" "''d''"] by (simp add: Let_def)
qed

subsection \<open>What the code does not do\<close>

text \<open>The conditions of a route carry generation 0, whatever the generation of the resource: the
  generation is set before the conditions are there.\<close>

lemma route_conditions_generation_lost:
  "map_option Cond_ObservedGeneration (RouteConditions_GetCondition (rt_Conditions (Route_BuildConditions HTTPRoute_kind
     (fst (Route_processChecks scheme_gvk HTTPRoute_kind (ex_node, ex_store))))) ''Accepted'' ex_parent) = Some 0"
  by code_simp

text \<open>A route that no listener takes and that has the name of a gateway removes that gateway from the
  tree.\<close>

lemma unmanaged_route_drops_gateway:
  "map_of (Gateways (cst_GateTree (HTTPRoute_computeTreeGatewayUpdate scheme_gvk (NamespacedName ''d'' ''g'')
     \<lparr>OldObject = None, NewObject = Some (ex_route\<lparr>hrk_meta := meta0\<lparr>om_name := ''g'', om_namespace := ''d''\<rparr>, hrk_hostnames := [''b.org'']\<rparr>),
      Status = StatusUpserted, Indirect = False\<rparr> ex_store))) (NamespacedName ''d'' ''g'') = None"
  by code_simp

text \<open>A route that stops naming a gateway stays attached to its listener.\<close>

definition ex_upsert :: "http_route_k8s \<Rightarrow> http_route_k8s update" where
  "ex_upsert r = \<lparr>OldObject = None, NewObject = Some r, Status = StatusUpserted, Indirect = False\<rparr>"

lemma moved_route_stays_attached:
  "map_option (\<lambda>l. map fst (li_AttachedRoutes l)) (listener_at
     (HTTPRoute_computeTreeGatewayUpdate scheme_gvk (NamespacedName ''d'' ''r'') (ex_upsert (ex_route\<lparr>hrk_parentRefs := []\<rparr>))
       (HTTPRoute_computeTreeGatewayUpdate scheme_gvk (NamespacedName ''d'' ''r'') (ex_upsert ex_route) ex_store))
     (NamespacedName ''d'' ''g'') ''a'') = Some [NamespacedName ''d'' ''r'']"
  by code_simp

end
