(* ===== verification/LogConf.thy ===== *)
theory LogConf
  imports ClusterStore
begin

text \<open>
  \<open>k8s/gate/logging/logging.go\<close> and \<open>k8s/gate/tree/hug_conf.go\<close>: the log levels per
  category, the filter they make, and their update from the controller configuration resource.

  The package variables are the record \<open>log_settings\<close>; a level is the number
  \<open>slog.Level\<close>.  The locks, the output handler and the source file attribute are left out.
\<close>

definition LevelDebug :: int where "LevelDebug = - 4"
definition LevelInfo :: int where "LevelInfo = 0"
definition LevelWarn :: int where "LevelWarn = 4"
definition LevelError :: int where "LevelError = 8"
definition LevelNone :: int where "LevelNone = 100"

type_synonym category_levels = "(string, int) gomap"

record log_settings =
  lg_DefaultLogLevelPerCategory :: category_levels
  lg_DefaultLevel :: int
  lg_logLevelPerCategory :: category_levels
  lg_level :: int

definition copyCategoryLevels :: "category_levels \<Rightarrow> category_levels" where
  "copyCategoryLevels m = fold (\<lambda>(k, v). mput k v) m []"

text \<open>\<open>level\<close> is not set: it keeps the value it has, 0 at the start.\<close>

definition NewCategoryFilterHandler :: "category_levels \<Rightarrow> int \<Rightarrow> log_settings \<Rightarrow> log_settings" where
  "NewCategoryFilterHandler levels lvl s = s\<lparr>lg_DefaultLogLevelPerCategory := copyCategoryLevels levels, lg_DefaultLevel := lvl,
     lg_logLevelPerCategory := copyCategoryLevels levels\<rparr>"

text \<open>A missing key reads as level 0.\<close>

definition mapsEqual :: "category_levels \<Rightarrow> category_levels \<Rightarrow> bool" where
  "mapsEqual a b = (length a = length b \<and> list_all (\<lambda>(k, v). map_get_default 0 b k = v) a)"

definition ReconcileLogSettings :: "int \<Rightarrow> category_levels \<Rightarrow> log_settings \<Rightarrow> bool \<times> log_settings" where
  "ReconcileLogSettings aLevel categories s =
     (let levelChanged = lg_level s \<noteq> aLevel;
          s = (if levelChanged then s\<lparr>lg_level := aLevel\<rparr> else s);
          newSet = copyCategoryLevels categories;
          changed = (\<not> mapsEqual (lg_logLevelPerCategory s) newSet);
          s = (if changed then s\<lparr>lg_logLevelPerCategory := newSet\<rparr> else s)
      in (levelChanged \<or> changed, s))"

definition ResetToDefaults :: "log_settings \<Rightarrow> log_settings" where
  "ResetToDefaults s = snd (ReconcileLogSettings (lg_DefaultLevel s) (lg_DefaultLogLevelPerCategory s) s)"

definition LogLevelString2SlogLevel :: "string \<Rightarrow> int" where
  "LogLevelString2SlogLevel level =
     (if level = ''Info'' then LevelInfo else if level = ''Warn'' then LevelWarn else if level = ''Error'' then LevelError
      else if level = ''Debug'' then LevelDebug else if level = ''None'' then LevelNone else LevelInfo)"

subsection \<open>The filter\<close>

text \<open>An attribute is its key and its value when that is a string.  The attributes of the groups are
  added to the record up to and including the first category of each group.\<close>

type_synonym log_attr = "string \<times> string option"

definition getCategory :: "string \<Rightarrow> log_attr \<Rightarrow> string" where
  "getCategory categoryKey a = (case a of (k, Some v) \<Rightarrow> if k = categoryKey then v else [] | (_, None) \<Rightarrow> [])"

fun added_attrs :: "string \<Rightarrow> log_attr list \<Rightarrow> log_attr list" where
  "added_attrs categoryKey [] = []"
| "added_attrs categoryKey (a # as) = (if getCategory categoryKey a \<noteq> [] then [a] else a # added_attrs categoryKey as)"

fun first_category :: "string \<Rightarrow> string \<Rightarrow> log_attr list \<Rightarrow> string" where
  "first_category categoryKey cat [] = cat"
| "first_category categoryKey cat (a # as) =
     (if getCategory categoryKey a \<noteq> [] then getCategory categoryKey a else first_category categoryKey cat as)"

definition record_category :: "string \<Rightarrow> log_attr list list \<Rightarrow> log_attr list \<Rightarrow> string" where
  "record_category categoryKey goas attrs =
     (let category = fold (\<lambda>goa cat. first_category categoryKey cat goa) goas ''k8s''
      in first_category categoryKey category (attrs @ concat (map (added_attrs categoryKey) goas)))"

definition log_passes :: "log_settings \<Rightarrow> string \<Rightarrow> int \<Rightarrow> log_attr list list \<Rightarrow> log_attr list \<Rightarrow> bool" where
  "log_passes s categoryKey lvl goas attrs =
     (let catLevel = (case map_of (lg_logLevelPerCategory s) (record_category categoryKey goas attrs) of None \<Rightarrow> lg_level s | Some l \<Rightarrow> l)
      in \<not> (lvl < catLevel \<or> catLevel = LevelNone))"

subsection \<open>The controller configuration\<close>

definition expected_levels :: "hug_conf \<Rightarrow> category_levels" where
  "expected_levels conf = fold (\<lambda>(cat, lvl). mput cat (LogLevelString2SlogLevel lvl)) (hc_categoryLevelList conf) []"

definition HugConf_Build :: "namespaced_name \<Rightarrow> cluster_store \<Rightarrow> log_settings \<Rightarrow> log_settings" where
  "HugConf_Build hugConfNsName cs s =
     (if updates (cs_ControllerConfs cs) = [] then s
      else case map_of (updates (cs_ControllerConfs cs)) hugConfNsName of
        None \<Rightarrow> s
      | Some confUpdate \<Rightarrow>
          (case Status confUpdate of
             StatusDeleted \<Rightarrow> ResetToDefaults s
           | StatusUpserted \<Rightarrow>
               (case map_of (objects (cs_ControllerConfs cs)) hugConfNsName of
                  None \<Rightarrow> s
                | Some newConf \<Rightarrow> snd (ReconcileLogSettings (LogLevelString2SlogLevel (hc_defaultLevel newConf)) (expected_levels newConf) s))
           | StatusUnchanged \<Rightarrow> s))"

subsection \<open>Properties\<close>

lemma copyCategoryLevels_id: "wf_map m \<Longrightarrow> copyCategoryLevels m = m"
  using fold_mput_fresh[of m "[]"] by (simp add: copyCategoryLevels_def wf_map_def)

lemma mapsEqual_same:
  assumes "wf_map a" "wf_map b" "mapsEqual a b" "\<And>k. map_of a k = Some 0 \<Longrightarrow> k \<in> mkeys b"
  shows "map_of a = map_of b"
proof -
  have sub: "map_of b k = Some v" if "map_of a k = Some v" for k v
  proof -
    have "map_get_default 0 b k = v" using assms(3) map_of_SomeD[OF that] by (auto simp: mapsEqual_def list_all_iff)
    moreover have "map_of b k \<noteq> None" if "v = 0" using assms(4)[of k] that \<open>map_of a k = Some v\<close> by (simp add: map_of_None_mkeys)
    ultimately show ?thesis by (cases "map_of b k") (auto simp: map_get_default_def)
  qed
  have "mkeys a \<subseteq> mkeys b" using sub map_of_None_mkeys by (metis option.exhaust subsetI option.distinct(1))
  moreover have "card (mkeys a) = length a" "card (mkeys b) = length b"
    using assms(1,2) by (simp_all add: mkeys_def wf_map_def distinct_card flip: set_map)
  ultimately have "mkeys a = mkeys b"
    using assms(3) by (intro card_subset_eq) (auto simp: mapsEqual_def)
  then show ?thesis using sub by (intro ext) (metis map_of_None_mkeys option.exhaust)
qed

lemma reconciled:
  fixes aLevel :: int
  assumes "wf_map (lg_logLevelPerCategory s)" "wf_map categories"
    and "\<And>k. map_of (lg_logLevelPerCategory s) k = Some 0 \<Longrightarrow> k \<in> mkeys categories"
  defines "s' \<equiv> snd (ReconcileLogSettings aLevel categories s)"
  shows "lg_level s' = aLevel" "map_of (lg_logLevelPerCategory s') = map_of categories"
  using assms mapsEqual_same[OF assms(1,2)] by (auto simp: ReconcileLogSettings_def Let_def copyCategoryLevels_id)

lemma wf_expected: "wf_map (expected_levels conf)"
  unfolding expected_levels_def by (rule fold_invariant_all) (auto intro: wf_intros)

definition wanted_level :: "hug_conf \<Rightarrow> string \<Rightarrow> int" where
  "wanted_level conf category = LogLevelString2SlogLevel
     (case find (\<lambda>(c, _). c = category) (rev (hc_categoryLevelList conf)) of None \<Rightarrow> hc_defaultLevel conf | Some (_, l) \<Rightarrow> l)"

lemma map_of_expected:
  "map_of (expected_levels conf) c = map_option (\<lambda>(_, l). LogLevelString2SlogLevel l) (find (\<lambda>(c', _). c' = c) (rev (hc_categoryLevelList conf)))"
proof -
  have "map_of (fold (\<lambda>(cat, lvl). mput cat (LogLevelString2SlogLevel lvl)) xs []) c
      = map_option (\<lambda>(_, l). LogLevelString2SlogLevel l) (find (\<lambda>(c', _). c' = c) (rev xs))" for xs
    by (induction xs rule: rev_induct) (auto simp: map_of_mput split: prod.splits)
  then show ?thesis by (simp add: expected_levels_def)
qed


definition ex_conf :: hug_conf where
  "ex_conf = \<lparr>hc_meta = meta0, hc_defaultLevel = ''Warn'', hc_categoryLevelList = [(''gate'', ''Debug''), (''app'', ''None''), (''gate'', ''Error'')]\<rparr>"

definition ex_conf_store :: cluster_store where
  "ex_conf_store = empty_cluster_store\<lparr>cs_ControllerConfs := \<lparr>objects = [(NamespacedName [] [], ex_conf)],
     updates = [(NamespacedName [] [], \<lparr>OldObject = None, NewObject = Some ex_conf, Status = StatusUpserted, Indirect = False\<rparr>)]\<rparr>\<rparr>"

definition ex_settings :: log_settings where
  "ex_settings = \<lparr>lg_DefaultLogLevelPerCategory = [], lg_DefaultLevel = 0, lg_logLevelPerCategory = [(''gate'', 0), (''k8s'', 4)], lg_level = 0\<rparr>"


text \<open>Without the proviso a change is missed: the comparison takes an absent category for one at level
  Info.\<close>

lemma log_change_missed:
  "mapsEqual [(''gate'', LevelInfo)] [(''app'', LevelDebug)]
   \<and> snd (ReconcileLogSettings 0 [(''app'', LevelDebug)] (ex_settings\<lparr>lg_logLevelPerCategory := [(''gate'', LevelInfo)]\<rparr>))
     = ex_settings\<lparr>lg_logLevelPerCategory := [(''gate'', LevelInfo)]\<rparr>"
  by code_simp

end
