(* ===== verification/ReloadMgr.thy ===== *)
theory ReloadMgr
  imports Prelude
begin

text \<open>
  \<open>hug/reload/reload-mgr.go\<close>: whether HAProxy has to be reloaded, and the state of the attempts to
  update servers at run time.  The singleton is a value passed along; the logger is left out.
\<close>

record reload_mgr =
  rl_reload :: bool
  rl_attempted :: bool
  rl_failed :: bool

definition reload_Instance :: reload_mgr where
  "reload_Instance = \<lparr>rl_reload = False, rl_attempted = False, rl_failed = False\<rparr>"

definition SetReload :: "reload_mgr \<Rightarrow> reload_mgr" where
  "SetReload r = r\<lparr>rl_reload := True\<rparr>"

definition AttemptDynamicServerStateUpdate :: "reload_mgr \<Rightarrow> reload_mgr" where
  "AttemptDynamicServerStateUpdate r = r\<lparr>rl_attempted := True\<rparr>"

definition SetDynamicServerStateUpdateFailure :: "reload_mgr \<Rightarrow> reload_mgr" where
  "SetDynamicServerStateUpdateFailure r = r\<lparr>rl_failed := True\<rparr>"

definition reload_Reset :: "reload_mgr \<Rightarrow> reload_mgr" where
  "reload_Reset r = r\<lparr>rl_reload := False, rl_attempted := False, rl_failed := False\<rparr>"

definition NeedReload :: "reload_mgr \<Rightarrow> bool" where
  "NeedReload r = rl_reload r"

definition DynamicUpdateServerStateFailed :: "reload_mgr \<Rightarrow> bool" where
  "DynamicUpdateServerStateFailed r = rl_failed r"

definition DynamicUpdateServerStateAttempted :: "reload_mgr \<Rightarrow> bool" where
  "DynamicUpdateServerStateAttempted r = rl_attempted r"

end
