(* ===== verification/GateBuild.thy ===== *)
theory GateBuild
  imports GatewayTree InstalledVersions CertificateFiles RouteStatus LogConf ReloadMgr
begin

text \<open>
  \<open>k8s/gate/handler/tree.go\<close> and the first half of \<open>HandleEventBatch\<close>
  (\<open>handler/batch.go\<close>): one cycle of the controller, from a batch of events to the trees, the log
  settings and the certificate files.  The second half hands the trees to the HAProxy configuration
  and to the status updates.

  \<open>None\<close> is a panic.  \<open>retire_listeners\<close> is not a step of the program: it brings the
  model of the pointers from routes to listeners up to date after the gateway builder made new listeners.
\<close>

text \<open>What the builders get from outside: the texts of validation errors, the merge of HugGates, the
  Kubernetes scheme, the version library, the certificate storage, the file system and the name of the
  configuration resource.\<close>

record ('c, 'v) gate_env =
  ge_text :: field_text
  ge_merge :: "hug_gate \<Rightarrow> hug_gate \<Rightarrow> hug_gate"
  ge_extractGVK :: "k8s_object \<Rightarrow> gvk"
  ge_newConstraint :: "string \<Rightarrow> 'c option"
  ge_newVersion :: "string \<Rightarrow> 'v option"
  ge_check :: "'c \<Rightarrow> 'v \<Rightarrow> bool"
  ge_certStorage :: certificate_storage
  ge_storeCertificateOnDisk :: bool
  ge_io :: file_system
  ge_controllerConfNsName :: namespaced_name
  ge_controllerName :: string

record gate_state =
  gs_store :: controller_store
  gs_gatewayBuilder :: gateway_builder
  gs_disk :: disk
  gs_log :: log_settings
  gs_reload :: reload_mgr

definition cleanTrees :: "controller_store \<Rightarrow> controller_store" where
  "cleanTrees b = TLSRoute_CleanTreeUpdates (HTTPRoute_CleanTreeUpdates (Service_CleanTreeUpdates
     (Gateway_CleanTreeUpdates (GatewayClass_CleanTreeUpdates (Secret_CleanTreeUpdates b)))))"

definition startBuild :: "gate_state \<Rightarrow> gate_state" where
  "startBuild s = s\<lparr>gs_reload := reload_Reset (gs_reload s),
     gs_store := ResetCrtListUpdates (ResetCertificateUpdates (CleanInstalledVersionsUpdates (cleanTrees (gs_store s))))\<rparr>"

definition buildControllerConfCRDUpdates :: "('c, 'v) gate_env \<Rightarrow> gate_state \<Rightarrow> gate_state" where
  "buildControllerConfCRDUpdates env s =
     s\<lparr>gs_log := HugConf_Build (ge_controllerConfNsName env) (cst_ClusterStore (gs_store s)) (gs_log s)\<rparr>"

definition buildInstalledVersionsUpdates :: "('c, 'v) gate_env \<Rightarrow> controller_store \<Rightarrow> controller_store option" where
  "buildInstalledVersionsUpdates env b =
     map_option (\<lambda>iv. b\<lparr>cst_InstalledGwAPIVersions := iv\<rparr>)
       (InstalledVersions_Build (ge_newConstraint env) (ge_newVersion env) (ge_check env)
          (cs_GatewayAPICRDs (cst_ClusterStore b)) (cst_InstalledGwAPIVersions b))"

text \<open>The seven builders, in their order.\<close>

definition run_builders :: "('c, 'v) gate_env \<Rightarrow> gateway_builder \<Rightarrow> controller_store \<Rightarrow> disk
    \<Rightarrow> (gateway_builder \<times> controller_store \<times> disk) option" where
  "run_builders env gb0 b d0 =
     (let b = Secret_computeGateTreeUpdates b;
          b = GatewayClass_ComputeTreeUpdates (ge_text env) b;
          (gb, b) = Gateway_ComputeTreeUpdates (ge_text env) (ge_merge env) (gb0, b);
          b = retire_listeners b
      in case Certificate_ComputeTreeUpdates (ge_extractGVK env) (ge_certStorage env) (ge_storeCertificateOnDisk env) (ge_io env) b d0 of
           None \<Rightarrow> None
         | Some (b, d) \<Rightarrow>
             (let b = Service_computeGateTreeUpdates b;
                  b = HTTPRoute_computeGateTreeUpdates (ge_extractGVK env) b;
                  b = TLSRoute_computeGateTreeUpdates (ge_extractGVK env) b
              in Some (gb, b, d)))"

definition buildGateTree :: "('c, 'v) gate_env \<Rightarrow> gate_state \<Rightarrow> gate_state option" where
  "buildGateTree env s =
     (let s = startBuild s;
          s = s\<lparr>gs_store := UpdateRefences (ge_extractGVK env) (gs_store s)\<rparr>;
          s = buildControllerConfCRDUpdates env s
      in case buildInstalledVersionsUpdates env (gs_store s) of
           None \<Rightarrow> None
         | Some b \<Rightarrow>
             map_option (\<lambda>(gb, b, d). s\<lparr>gs_store := b, gs_gatewayBuilder := gb, gs_disk := d\<rparr>)
               (run_builders env (gs_gatewayBuilder s) b (gs_disk s)))"

definition handle_tree :: "('c, 'v) gate_env \<Rightarrow> event_batch \<Rightarrow> gate_state \<Rightarrow> gate_state option" where
  "handle_tree env batch s =
     (let b = gs_store s
      in buildGateTree env (s\<lparr>gs_store := b\<lparr>cst_ClusterStore := processBatch (ge_extractGVK env) batch (cst_ClusterStore b)\<rparr>\<rparr>))"

definition NewEventHandlerImpl :: "('c, 'v) gate_env \<Rightarrow> log_settings \<Rightarrow> gate_state" where
  "NewEventHandlerImpl env log =
     \<lparr>gs_store = empty_controller_store (ge_extractGVK env) (ge_controllerName env),
      gs_gatewayBuilder = \<lparr>portsWithOneListener = [], portsWithMutipleListeners = [], previousPortsWithMutipleListeners = []\<rparr>,
      gs_disk = [], gs_log = log, gs_reload = reload_Instance\<rparr>"

subsection \<open>What each builder leaves alone\<close>

text \<open>The route trees; only the route builders and the retirement of pointers change them.\<close>

definition route_trees :: "controller_store \<Rightarrow> http_route tree_map \<times> tls_route tree_map \<times> http_route tree_map \<times> tls_route tree_map" where
  "route_trees b = (HTTPRoutes (cst_GateTree b), TLSRoutes (cst_GateTree b), HTTPRoutes (cst_UnmanagedGateTree b),
     TLSRoutes (cst_UnmanagedGateTree b))"

definition besides_secrets where
  "besides_secrets b = (route_trees b, cst_ControllerName b, GatewayClasses (cst_GateTree b), Gateways (cst_GateTree b), Services (cst_GateTree b), cst_ClusterStore b,
     cst_ReferencedObjects b, cst_CertUpdates b, cst_CrtListUpdates b, cst_InstalledGwAPIVersions b, cst_UnmanagedGateTree b)"

lemma secret_frame: "besides_secrets (Secret_computeGateTreeUpdates b) = besides_secrets b"
  unfolding Secret_computeGateTreeUpdates_def
  by (rule fold_pres) (simp add: besides_secrets_def route_trees_def computeTreeSecretUpdate_def Let_def secret_ops split: prod.splits status.splits option.splits)

definition besides_services where
  "besides_services b = (route_trees b, cst_ControllerName b, GatewayClasses (cst_GateTree b), Gateways (cst_GateTree b), Secrets (cst_GateTree b), cst_ClusterStore b,
     cst_ReferencedObjects b, cst_CertUpdates b, cst_CrtListUpdates b, cst_InstalledGwAPIVersions b, cst_UnmanagedGateTree b)"

lemma service_frame: "besides_services (Service_computeGateTreeUpdates b) = besides_services b"
  unfolding Service_computeGateTreeUpdates_def
  by (rule fold_pres) (simp add: besides_services_def route_trees_def computeTreeServiceUpdate_def Let_def service_ops split: prod.splits status.splits option.splits)

definition besides_classes where
  "besides_classes b = (route_trees b, cst_ControllerName b, Gateways (cst_GateTree b), Secrets (cst_GateTree b), Services (cst_GateTree b),
     cst_ReferencedObjects b, cst_CertUpdates b, cst_CrtListUpdates b, cst_InstalledGwAPIVersions b, Gateways (cst_UnmanagedGateTree b))"

lemma class_step_frame:
  "besides_classes (computeTreeGatewayClassUpdate ft k u b) = besides_classes b"
  "cst_ClusterStore (computeTreeGatewayClassUpdate ft k u b) = cst_ClusterStore b"
  by (simp_all add: besides_classes_def route_trees_def computeTreeGatewayClassUpdate_def Let_def put_gwc_def put_unmanaged_gwc_def
      GatewayClass_SetAsManaged_def GatewayClass_SetAsUnmanaged_def split: status.splits option.splits)

lemma class_fold_frame:
  "besides_classes (GatewayClass_computeGateTreeUpdates ft b) = besides_classes b"
  "cst_ClusterStore (GatewayClass_computeGateTreeUpdates ft b) = cst_ClusterStore b"
  unfolding GatewayClass_computeGateTreeUpdates_def
  by (rule fold_pres, simp add: class_step_frame split: prod.splits)+

definition besides_gateways where
  "besides_gateways b = (route_trees b, cst_ControllerName b, GatewayClasses (cst_GateTree b), Secrets (cst_GateTree b), Services (cst_GateTree b), cst_ClusterStore b,
     cst_ReferencedObjects b, cst_CertUpdates b, cst_CrtListUpdates b, cst_InstalledGwAPIVersions b, GatewayClasses (cst_UnmanagedGateTree b))"

lemma put_gw_frame:
  "besides_gateways (put_gw k g b) = besides_gateways b" "besides_gateways (put_unmanaged_gw k g b) = besides_gateways b"
  "besides_gateways (Gateway_SetAsManaged k8s g b) = besides_gateways b"
  "besides_gateways (Gateway_SetAsUnmanaged k8s g b) = besides_gateways b"
  by (simp_all add: besides_gateways_def route_trees_def put_gw_def put_unmanaged_gw_def Gateway_SetAsManaged_def Gateway_SetAsUnmanaged_def Let_def)

lemma pmc_frame:
  "(\<And>g b. besides_gateways (ip g b) = besides_gateways b) \<Longrightarrow>
     besides_gateways (processManagementChecks ft merge ip k8s g b) = besides_gateways b"
  by (simp add: processManagementChecks_def Let_def put_gw_frame)

lemma gateway_step_frame: "besides_gateways (computeTreeGatewayUpdate ft merge k u b) = besides_gateways b"
  unfolding computeTreeGatewayUpdate_def Let_def
  by (auto simp: put_gw_frame split: status.splits option.splits intro!: pmc_frame)

lemma reupsert_frame: "besides_gateways (reupsert_conflicted ft merge k b) = besides_gateways b"
  unfolding reupsert_conflicted_def by (auto simp: put_gw_frame split: option.splits intro!: pmc_frame)

lemma gateway_frame: "besides_gateways (snd (Gateway_ComputeTreeUpdates ft merge (gb, b))) = besides_gateways b"
proof -
  define b1 where "b1 = fold (\<lambda>(k, u). computeTreeGatewayUpdate ft merge k u) (updates (cs_Gateways (cst_ClusterStore b))) b"
  have b1: "besides_gateways b1 = besides_gateways b" unfolding b1_def
    by (rule fold_pres) (simp add: gateway_step_frame split: prod.splits)
  have re: "besides_gateways (fold (reupsert_conflicted ft merge) ks b1) = besides_gateways b1" for ks
    by (rule fold_pres) (rule reupsert_frame)
  have fin: "besides_gateways (x\<lparr>cst_GateTree := (cst_GateTree x)\<lparr>Gateways := y\<rparr>\<rparr>) = besides_gateways x" for x y
    by (simp add: besides_gateways_def route_trees_def)
  show ?thesis
    by (simp add: Gateway_ComputeTreeUpdates_def Gateway_computeGateTreeUpdates_def Builder_checkListenerConflicts_def Let_def
        b1_def[symmetric] fin re b1)
qed

subsection \<open>The secret tree in a cycle\<close>

definition secret_after :: "secret_k8s update \<Rightarrow> secret tree_res option \<Rightarrow> secret tree_res option" where
  "secret_after u n = (case NewObject u of None \<Rightarrow> map_option Secret_SetAsDeleted n
     | Some x \<Rightarrow> Some (case n of None \<Rightarrow> NewSecret x | Some s \<Rightarrow> Secret_SetAsUpserted x s))"

lemma secret_step:
  assumes "regular_update (\<lambda>x. meta_key (sck_meta x)) k u"
  shows "map_of (Secrets (cst_GateTree (computeTreeSecretUpdate k u b))) j
     = (if j = k then secret_after u (map_of (Secrets (cst_GateTree b)) k) else map_of (Secrets (cst_GateTree b)) j)"
  using assms by (cases "NewObject u"; cases "map_of (Secrets (cst_GateTree b)) k")
    (auto simp: regular_update_def secret_after_def computeTreeSecretUpdate_def Let_def put_secret_def Secret_SetAsManaged_def map_of_mput)

lemma secret_fold:
  assumes "wf_map upds" "\<And>k u. (k, u) \<in> set upds \<Longrightarrow> regular_update (\<lambda>x. meta_key (sck_meta x)) k u"
  shows "map_of (Secrets (cst_GateTree (fold (\<lambda>(k, u). computeTreeSecretUpdate k u) upds b))) j
     = (case map_of upds j of None \<Rightarrow> map_of (Secrets (cst_GateTree b)) j
        | Some u \<Rightarrow> secret_after u (map_of (Secrets (cst_GateTree b)) j))"
  using assms
proof (induction upds arbitrary: b)
  case (Cons p upds)
  obtain k u where p: "p = (k, u)" by (cases p)
  have k: "map_of upds k = None" "wf_map upds" using Cons.prems(1) by (auto simp: p wf_map_Cons map_of_None_mkeys)
  have r: "regular_update (\<lambda>x. meta_key (sck_meta x)) k u" using Cons.prems(2)[of k u] by (simp add: p)
  have "map_of (Secrets (cst_GateTree (fold (\<lambda>(k, u). computeTreeSecretUpdate k u) upds (computeTreeSecretUpdate k u b)))) j
     = (case map_of upds j of None \<Rightarrow> map_of (Secrets (cst_GateTree (computeTreeSecretUpdate k u b))) j
        | Some u' \<Rightarrow> secret_after u' (map_of (Secrets (cst_GateTree (computeTreeSecretUpdate k u b))) j))"
    using Cons.prems(2) by (intro Cons.IH k(2)) (simp add: p)
  then show ?case using k(1) by (auto simp: p secret_step[OF r] split: option.splits)
qed simp

definition secret_nodes_ok :: "secret tree_map \<Rightarrow> bool" where
  "secret_nodes_ok t \<longleftrightarrow> wf_map t
     \<and> (\<forall>k s. map_of t k = Some s \<longrightarrow> TreeStatus (tr_status s) \<noteq> StatusDeleted \<longrightarrow> se_K8sResource (tr_core s) \<noteq> None)"

lemma secret_tree_cycle:
  assumes ok: "secret_nodes_ok t0" and cyc: "cycle_ok (live se_K8sResource t0) L1 (map_of upds)" "wf_map upds"
    and keys: "\<And>k x. L1 k = Some x \<Longrightarrow> meta_key (sck_meta x) = k"
    and b: "Secrets (cst_GateTree b) = cleanTreeUpdates t0"
  defines "t1 \<equiv> Secrets (cst_GateTree (fold (\<lambda>(k, u). computeTreeSecretUpdate k u) upds b))"
  shows "cycle_node (live se_K8sResource t0 k) (L1 k) (map_of t1 k)" and "secret_nodes_ok t1"
proof -
  have wf: "wf_map t0" using ok by (simp add: secret_nodes_ok_def)
  have reg: "regular_update (\<lambda>x. meta_key (sck_meta x)) k u" if "(k, u) \<in> set upds" for k u
    using cycle_regular[OF cyc(1) keys] that cyc(2) by (simp add: map_of_wf_mem)
  have t1: "map_of t1 k = (case map_of upds k of None \<Rightarrow> map_of (cleanTreeUpdates t0) k
      | Some u \<Rightarrow> secret_after u (map_of (cleanTreeUpdates t0) k))" for k
    unfolding t1_def b[symmetric] by (rule secret_fold[OF cyc(2) reg])
  have node: "map_of t0 k = Some s \<Longrightarrow> TreeStatus (tr_status s) \<noteq> StatusDeleted \<Longrightarrow> se_K8sResource (tr_core s) \<noteq> None" for k s
    using ok by (simp add: secret_nodes_ok_def)
  show n: "cycle_node (live se_K8sResource t0 k) (L1 k) (map_of t1 k)" for k
    using cyc(1)[unfolded cycle_ok_def, rule_format, of k] node[of k]
    by (cases "map_of upds k"; cases "map_of t0 k"; cases "L1 k")
      (auto simp: t1 map_of_clean[OF wf] cycle_node_def entry_ok_def live_def secret_after_def secret_ops split: if_splits)
  have "wf_map t1" unfolding t1_def
    by (rule fold_invariant_all[where P = "\<lambda>b. wf_map (Secrets (cst_GateTree b))"])
      (auto simp: b wf_clean wf wf_secrets_compute split: prod.splits)
  moreover have "se_K8sResource (tr_core s) \<noteq> None" if "map_of t1 k = Some s" "TreeStatus (tr_status s) \<noteq> StatusDeleted" for k s
    using n[of k] that by (auto simp: cycle_node_def split: status.splits)
  ultimately show "secret_nodes_ok t1" by (simp add: secret_nodes_ok_def)
qed

lemma live_of_cycle:
  assumes "\<And>k. cycle_node (L0 k) (L1 k) (map_of t k)" shows "live se_K8sResource t = L1"
proof
  fix k show "live se_K8sResource t k = L1 k"
    using assms[of k] by (auto simp: cycle_node_def live_def split: option.splits status.splits)
qed

subsection \<open>The references of the stored gateways\<close>

definition declared_refs :: "cluster_store \<Rightarrow> (namespaced_name \<times> namespaced_name) set" where
  "declared_refs cs = {(k, w). \<exists>key gw l rs r. map_of (objects (cs_Gateways cs)) key = Some gw \<and> l \<in> set (gwk_listeners gw)
     \<and> ls_tls l = Some rs \<and> r \<in> set rs \<and> IsSecretGroupKindSupported r
     \<and> k = GetCertificateRefNamespacedName r gw \<and> w = ListenerKey gw l}"

definition listener_refs :: "gateway_k8s \<Rightarrow> listener_k8s \<Rightarrow> (namespaced_name \<times> namespaced_name) set" where
  "listener_refs gw l = (case ls_tls l of None \<Rightarrow> {}
     | Some rs \<Rightarrow> (\<lambda>r. (GetCertificateRefNamespacedName r gw, ListenerKey gw l)) ` {r \<in> set rs. IsSecretGroupKindSupported r})"

lemma add_listener_refs_rel:
  "ref_rel (add_listener_refs g gw l r) = (\<lambda>(k, w). (k, g, w)) ` listener_refs gw l \<union> ref_rel r"
  "ref_inv r \<Longrightarrow> ref_inv (add_listener_refs g gw l r)"
proof -
  have "ref_rel (fold (\<lambda>certRef r. if \<not> IsSecretGroupKindSupported certRef then r
       else AddReferencedByUsingKeys (GetCertificateRefNamespacedName certRef gw) (ListenerKey gw l) g r) rs r)
     = (\<lambda>r. (GetCertificateRefNamespacedName r gw, g, ListenerKey gw l)) ` {r \<in> set rs. IsSecretGroupKindSupported r} \<union> ref_rel r" for rs
    by (induction rs arbitrary: r) (auto simp: rel_add)
  then show "ref_rel (add_listener_refs g gw l r) = (\<lambda>(k, w). (k, g, w)) ` listener_refs gw l \<union> ref_rel r"
    by (auto simp: add_listener_refs_def listener_refs_def split: option.split)
  have "ref_inv r \<Longrightarrow> ref_inv (fold (\<lambda>certRef r. if \<not> IsSecretGroupKindSupported certRef then r
       else AddReferencedByUsingKeys (GetCertificateRefNamespacedName certRef gw) (ListenerKey gw l) g r) rs r)" for rs
    by (rule fold_invariant_all) (auto simp: inv_add)
  then show "ref_inv r \<Longrightarrow> ref_inv (add_listener_refs g gw l r)"
    by (auto simp: add_listener_refs_def split: option.split)
qed

lemma build_refs:
  fixes g :: gvk and gws :: "(namespaced_name, gateway_k8s) gomap"
  assumes "ref_inv r"
  defines "r' \<equiv> fold (\<lambda>(_, gw) r. fold (add_listener_refs g gw) (gwk_listeners gw) r) gws r"
  shows "ref_inv r' \<and> ref_rel r' = (\<lambda>(k, w). (k, g, w)) ` (\<Union>(_, gw) \<in> set gws. \<Union>l \<in> set (gwk_listeners gw). listener_refs gw l) \<union> ref_rel r"
proof -
  have inner: "ref_inv r \<Longrightarrow> ref_inv (fold (add_listener_refs g gw) ls r)
      \<and> ref_rel (fold (add_listener_refs g gw) ls r) = (\<lambda>(k, w). (k, g, w)) ` (\<Union>l \<in> set ls. listener_refs gw l) \<union> ref_rel r" for gw ls r
    by (induction ls arbitrary: r) (auto simp: add_listener_refs_rel)
  show ?thesis unfolding r'_def using assms(1)
  proof (induction gws arbitrary: r)
    case (Cons x gws)
    show ?case using Cons.IH[of "case x of (_, gw) \<Rightarrow> fold (add_listener_refs g gw) (gwk_listeners gw) r"]
        inner[OF Cons.prems, of "snd x" "gwk_listeners (snd x)"] by (cases x) (simp add: image_Un Un_ac)
  qed simp
qed

lemma declared_refs_alt:
  "wf_map (objects (cs_Gateways cs)) \<Longrightarrow>
     declared_refs cs = (\<Union>(_, gw) \<in> set (objects (cs_Gateways cs)). \<Union>l \<in> set (gwk_listeners gw). listener_refs gw l)"
  unfolding declared_refs_def listener_refs_def
  by (auto simp: map_of_wf_mem[symmetric] split: option.splits) (fastforce, blast)

lemma UpdateRefences_spec:
  fixes extractGVK :: "k8s_object \<Rightarrow> gvk"
  assumes "ref_inv (ReferencedSecrets (cst_ReferencedObjects b))" "wf_map (objects (cs_Gateways (cst_ClusterStore b)))"
  defines "b' \<equiv> UpdateRefences extractGVK b"
  shows "b' = b\<lparr>cst_ReferencedObjects := cst_ReferencedObjects b'\<rparr>"
    and "PreviousReferencedSecrets (cst_ReferencedObjects b') = ReferencedSecrets (cst_ReferencedObjects b)"
    and "ref_inv (ReferencedSecrets (cst_ReferencedObjects b'))"
    and "ref_rel (ReferencedSecrets (cst_ReferencedObjects b'))
      = (if updates (cs_Gateways (cst_ClusterStore b)) = [] then ref_rel (ReferencedSecrets (cst_ReferencedObjects b))
         else (\<lambda>(k, w). (k, extractGVK (OGateway gateway0), w)) ` declared_refs (cst_ClusterStore b))"
proof -
  let ?r = "ReferencedSecrets (cst_ReferencedObjects b)" and ?g = "extractGVK (OGateway gateway0)"
  let ?gws = "objects (cs_Gateways (cst_ClusterStore b))"
  define r' where "r' = fold (\<lambda>(_, gw) r. fold (add_listener_refs ?g gw) (gwk_listeners gw) r) ?gws (CleanOwners ?r)"
  have r': "ref_inv r'" "ref_rel r' = (\<lambda>(k, w). (k, ?g, w)) ` declared_refs (cst_ClusterStore b)"
    using build_refs[OF rel_clean(2), of ?g ?gws ?r] declared_refs_alt[OF assms(2)] by (simp_all add: r'_def rel_clean)
  have b': "b' = b\<lparr>cst_ReferencedObjects := (cst_ReferencedObjects b)\<lparr>PreviousReferencedSecrets := ?r,
      ReferencedSecrets := if updates (cs_Gateways (cst_ClusterStore b)) = [] then ?r else r'\<rparr>\<rparr>"
    by (simp add: b'_def UpdateRefences_def cleanReferencedObjects_def buildSecretReferences_def needsReferencedSecretsRebuild_def
        Let_def DeepCopy_same[OF assms(1)] r'_def)
  show "b' = b\<lparr>cst_ReferencedObjects := cst_ReferencedObjects b'\<rparr>"
    "PreviousReferencedSecrets (cst_ReferencedObjects b') = ?r"
    "ref_inv (ReferencedSecrets (cst_ReferencedObjects b'))"
    "ref_rel (ReferencedSecrets (cst_ReferencedObjects b'))
      = (if updates (cs_Gateways (cst_ClusterStore b)) = [] then ref_rel ?r else (\<lambda>(k, w). (k, ?g, w)) ` declared_refs (cst_ClusterStore b))"
    using r' assms(1) by (simp_all add: b')
qed

subsection \<open>The cluster store in a cycle\<close>

lemma object_keys:
  assumes "store_inv c"
  shows "map_of (objects (cs_Secrets c)) k = Some s \<Longrightarrow> meta_key (sck_meta s) = k"
    "map_of (objects (cs_Services c)) k = Some v \<Longrightarrow> meta_key (svk_meta v) = k"
    "map_of (objects (cs_GatewayClasses c)) k = Some gc \<Longrightarrow> meta_key (gck_meta gc) = k"
    "map_of (objects (cs_Gateways c)) k = Some gw \<Longrightarrow> meta_key (gwk_meta gw) = k"
    "map_of (objects (cs_HTTPRoutes c)) k = Some hr \<Longrightarrow> meta_key (rk_meta HTTPRoute_kind hr) = k"
    "map_of (objects (cs_TLSRoutes c)) k = Some tr \<Longrightarrow> meta_key (rk_meta TLSRoute_kind tr) = k"
proof -
  have key: "view_objects c (sid, k) = Some x \<Longrightarrow> ObjectKeyFromObject x = k" for sid x
    using assms by (auto simp: store_inv_def)
  show "map_of (objects (cs_Secrets c)) k = Some s \<Longrightarrow> meta_key (sck_meta s) = k"
    "map_of (objects (cs_Services c)) k = Some v \<Longrightarrow> meta_key (svk_meta v) = k"
    "map_of (objects (cs_GatewayClasses c)) k = Some gc \<Longrightarrow> meta_key (gck_meta gc) = k"
    "map_of (objects (cs_Gateways c)) k = Some gw \<Longrightarrow> meta_key (gwk_meta gw) = k"
    "map_of (objects (cs_HTTPRoutes c)) k = Some hr \<Longrightarrow> meta_key (rk_meta HTTPRoute_kind hr) = k"
    "map_of (objects (cs_TLSRoutes c)) k = Some tr \<Longrightarrow> meta_key (rk_meta TLSRoute_kind tr) = k"
    using key[of SSecret "OSecret s"] key[of SService "OService v"] key[of SGatewayClass "OGatewayClass gc"]
      key[of SGateway "OGateway gw"] key[of SHTTPRoute "OHTTPRoute hr"] key[of STLSRoute "OTLSRoute tr"]
    by (simp_all add: wrap_objects_def ObjectKeyFromObject_def rk_meta_def HTTPRoute_kind_def TLSRoute_kind_def)
qed

lemma store_kinds_wf:
  assumes "store_inv c"
  shows "os_wf (cs_Secrets c)" "os_wf (cs_Services c)" "os_wf (cs_GatewayClasses c)" "os_wf (cs_Gateways c)" "os_wf (cs_GatewayAPICRDs c)"
    "os_wf (cs_HTTPRoutes c)" "os_wf (cs_TLSRoutes c)"
proof -
  have "store_wf sid c" for sid using assms by (simp add: store_inv_def)
  from this[of SSecret] this[of SService] this[of SGatewayClass] this[of SGateway] this[of SGatewayAPICRD] this[of SHTTPRoute] this[of STLSRoute]
  show "os_wf (cs_Secrets c)" "os_wf (cs_Services c)" "os_wf (cs_GatewayClasses c)" "os_wf (cs_Gateways c)" "os_wf (cs_GatewayAPICRDs c)"
    "os_wf (cs_HTTPRoutes c)" "os_wf (cs_TLSRoutes c)"
    by simp_all
qed

text \<open>The updates of a kind describe the change of its objects from one store to the other.\<close>

definition kind_cycle :: "(cluster_store \<Rightarrow> 'o objectStoreImpl) \<Rightarrow> cluster_store \<Rightarrow> cluster_store \<Rightarrow> bool" where
  "kind_cycle kind c c1 \<longleftrightarrow> cycle_ok (map_of (objects (kind c))) (map_of (objects (kind c1))) (map_of (updates (kind c1)))"

definition kinds_cycle :: "cluster_store \<Rightarrow> cluster_store \<Rightarrow> bool" where
  "kinds_cycle c c1 \<longleftrightarrow> kind_cycle cs_Secrets c c1 \<and> kind_cycle cs_Services c c1 \<and> kind_cycle cs_GatewayClasses c c1 \<and> kind_cycle cs_Gateways c c1 \<and> kind_cycle cs_GatewayAPICRDs c c1 \<and> kind_cycle cs_HTTPRoutes c c1 \<and> kind_cycle cs_TLSRoutes c c1"

lemma batch_kinds_cycle:
  assumes "distinct (map (\<lambda>p. extractGVK (fst p)) store_table)"
  shows "kinds_cycle c (processBatch extractGVK batch c)"
proof -
  note cyc = gvk_scheme.batch_cycle[OF gvk_scheme.intro[OF assms], of c batch]
  note un = cycle_ok_unwrap[OF _ cyc]
  show ?thesis unfolding kinds_cycle_def kind_cycle_def
    apply (intro conjI)
    subgoal by (rule un[of OSecret SSecret]) (simp_all add: inj_def)
    subgoal by (rule un[of OService SService]) (simp_all add: inj_def)
    subgoal by (rule un[of OGatewayClass SGatewayClass]) (simp_all add: inj_def)
    subgoal by (rule un[of OGateway SGateway]) (simp_all add: inj_def)
    subgoal by (rule un[of OPartialMetadata SGatewayAPICRD]) (simp_all add: inj_def)
    subgoal by (rule un[of OHTTPRoute SHTTPRoute]) (simp_all add: inj_def)
    subgoal by (rule un[of OTLSRoute STLSRoute]) (simp_all add: inj_def)
    done
qed

subsection \<open>The gateway classes in a cycle\<close>

text \<open>With the indirect updates every update still carries the stored object.\<close>

lemma addIndirect_spec:
  fixes b :: controller_store
  assumes "os_wf (cs_GatewayClasses (cst_ClusterStore b))"
    and cyc: "cycle_ok o0 (map_of (objects (cs_GatewayClasses (cst_ClusterStore b)))) (map_of (updates (cs_GatewayClasses (cst_ClusterStore b))))"
  defines "b' \<equiv> addIndirectGatewayClassesFromInstalledVersions b"
  defines "us \<equiv> updates (cs_GatewayClasses (cst_ClusterStore b'))" and "o1 \<equiv> map_of (objects (cs_GatewayClasses (cst_ClusterStore b)))"
  shows "\<exists>u'. b' = b\<lparr>cst_ClusterStore := (cst_ClusterStore b)\<lparr>cs_GatewayClasses := (cs_GatewayClasses (cst_ClusterStore b))\<lparr>updates := u'\<rparr>\<rparr>\<rparr>"
    and "wf_map us" and "map_of us k = None \<Longrightarrow> o0 k = o1 k"
    and "map_of us k = Some u \<Longrightarrow> NewObject u = o1 k \<and> Status u = (if o1 k = None then StatusDeleted else StatusUpserted)"
proof -
  let ?st = "cs_GatewayClasses (cst_ClusterStore b)"
  let ?f = "\<lambda>(gwcKey, gwc) u. if mhas u gwcKey then u
                else mput gwcKey \<lparr>OldObject = Some gwc, NewObject = Some gwc, Status = StatusUpserted, Indirect = True\<rparr> u"
  have us: "us = (if iv_Updated (cst_InstalledGwAPIVersions b) = Some True then fold ?f (objects ?st) (updates ?st) else updates ?st)"
    by (simp add: us_def b'_def addIndirectGatewayClassesFromInstalledVersions_def Let_def)
  show "\<exists>u'. b' = b\<lparr>cst_ClusterStore := (cst_ClusterStore b)\<lparr>cs_GatewayClasses := ?st\<lparr>updates := u'\<rparr>\<rparr>\<rparr>"
    by (auto simp: b'_def addIndirectGatewayClassesFromInstalledVersions_def Let_def intro: exI[of _ "updates ?st"])
  define P where "P u \<longleftrightarrow> wf_map u \<and> (\<forall>k. (map_of u k = None \<longrightarrow> o0 k = o1 k)
     \<and> (\<forall>x. map_of u k = Some x \<longrightarrow> NewObject x = o1 k \<and> Status x = (if o1 k = None then StatusDeleted else StatusUpserted)))"
    for u :: "(namespaced_name, gateway_class_k8s update) gomap"
  have p0: "P (updates ?st)" using assms(1) cyc
    by (auto simp: P_def os_wf_def cycle_ok_def entry_ok_def o1_def split: option.splits) (metis option.distinct(1) option.sel)+
  have fp: "P (fold ?f xs u)" if "P u" "\<And>k x. (k, x) \<in> set xs \<Longrightarrow> o1 k = Some x" for xs u
    using that
  proof (induction xs arbitrary: u)
    case (Cons a xs)
    obtain k x where a: "a = (k, x)" by (cases a)
    have "o1 k = Some x" using Cons.prems(2) by (simp add: a)
    then have "P (?f a u)" using Cons.prems(1) by (auto simp: P_def a wf_mput map_of_mput)
    then show ?case using Cons.IH[of "?f a u"] Cons.prems(2) by simp
  qed simp
  have "P (fold ?f (objects ?st) (updates ?st))"
    by (rule fp[OF p0]) (use assms(1) in \<open>simp add: os_wf_def o1_def map_of_wf_mem\<close>)
  then have "P us" using p0 by (simp add: us)
  then show "wf_map us" "map_of us k = None \<Longrightarrow> o0 k = o1 k"
    "map_of us k = Some u \<Longrightarrow> NewObject u = o1 k \<and> Status u = (if o1 k = None then StatusDeleted else StatusUpserted)"
    by (auto simp: P_def)
qed

subsection \<open>The state between cycles\<close>

text \<open>What the certificate files need of the stored objects: secrets that hold one key pair, and names
  of referenced secrets and of listeners that make file names apart.\<close>

definition good_store :: "cluster_store \<Rightarrow> bool" where
  "good_store c \<longleftrightarrow> (\<forall>k s. map_of (objects (cs_Secrets c)) k = Some s \<longrightarrow> good_secret s)
     \<and> (\<forall>(k, w) \<in> declared_refs c. good_key k \<and> good_owner w)"

text \<open>No CRD is deleted that was not known.\<close>

definition crd_deletes_known :: "cluster_store \<Rightarrow> bool" where
  "crd_deletes_known c \<longleftrightarrow> (\<forall>k u. map_of (updates (cs_GatewayAPICRDs c)) k = Some u \<longrightarrow> Status u = StatusDeleted \<longrightarrow> OldObject u \<noteq> None)"

definition ports_exclusive :: "gateway tree_map \<Rightarrow> bool" where
  "ports_exclusive gws \<longleftrightarrow>
    (\<forall>k g n l. map_of gws k = Some g \<and> gw_Valid (tr_core g) \<and> (n, l) \<in> set (gw_Listeners (tr_core g)) \<and> li_Valid l \<longrightarrow>
      (\<exists>k8s. gw_K8sResource (tr_core g) = Some k8s \<and>
        port_users gws (ls_port (li_K8sResource l)) = [\<lparr>gl_listenerKey = ListenerKey k8s (li_K8sResource l), gl_gatewayKey = k\<rparr>]))"

definition trees_mirror :: "controller_store \<Rightarrow> bool" where
  "trees_mirror b \<longleftrightarrow> (let c = cst_ClusterStore b in
     secret_nodes_ok (Secrets (cst_GateTree b)) \<and> live_secrets b = map_of (objects (cs_Secrets c))
     \<and> wf_map (Services (cst_GateTree b)) \<and> live_services b = map_of (objects (cs_Services c))
     \<and> gwc_inv b \<and> live_gateway_classes b = map_of (objects (cs_GatewayClasses c))
     \<and> route_inv HTTPRoute_kind b \<and> live_routes HTTPRoute_kind b = map_of (objects (cs_HTTPRoutes c))
     \<and> route_inv TLSRoute_kind b \<and> live_routes TLSRoute_kind b = map_of (objects (cs_TLSRoutes c)))"

definition references_ok :: "(k8s_object \<Rightarrow> gvk) \<Rightarrow> controller_store \<Rightarrow> bool" where
  "references_ok extractGVK b \<longleftrightarrow> ref_inv (ReferencedSecrets (cst_ReferencedObjects b))
     \<and> ref_rel (ReferencedSecrets (cst_ReferencedObjects b)) = (\<lambda>(k, w). (k, extractGVK (OGateway gateway0), w)) ` declared_refs (cst_ClusterStore b)"

definition gate_inv :: "('c, 'v) gate_env \<Rightarrow> gate_state \<Rightarrow> bool" where
  "gate_inv env s \<longleftrightarrow> (let b = gs_store s; c = cst_ClusterStore b in
     store_inv c \<and> good_store c \<and> trees_mirror b
     \<and> gw_inv b \<and> ports_exclusive (Gateways (cst_GateTree b))
     \<and> counts_ok (map_of (objects (cs_GatewayAPICRDs c))) (iv_Versions (cst_InstalledGwAPIVersions b))
     \<and> references_ok (ge_extractGVK env) b
     \<and> cert_files_ok (ge_certStorage env) (declared_refs c) (map_of (objects (cs_Secrets c))) (gs_disk s))"

subsection \<open>Folding a mirrored tree\<close>

context mirrored_tree begin

lemma inv_fold:
  "inv s \<Longrightarrow> (\<And>k u. (k, u) \<in> set upds \<Longrightarrow> regular_update okey k u) \<Longrightarrow> inv (fold (\<lambda>(k, u). compute k u) upds s)"
  by (rule fold_invariant_all) (auto simp: inv_compute)

text \<open>It is enough that every update carries the stored object and that the rest is unchanged.\<close>

lemma mirror_fold:
  assumes "inv s" "wf_map upds" "\<And>k u. (k, u) \<in> set upds \<Longrightarrow> regular_update okey k u" "live_of s = o0"
    and "\<And>k. map_of upds k = None \<Longrightarrow> o0 k = o1 k" "\<And>k u. map_of upds k = Some u \<Longrightarrow> NewObject u = o1 k"
  shows "live_of (fold (\<lambda>(k, u). compute k u) upds s) = o1"
  using live_of_fold[OF assms(1-3)] assms(4-6) by (auto simp: fun_eq_iff split: option.splits)

lemma mirror_cycle:
  assumes "inv s" "wf_map upds" "cycle_ok o0 o1 (map_of upds)" "\<And>k x. o1 k = Some x \<Longrightarrow> okey x = k" "live_of s = o0"
  shows "inv (fold (\<lambda>(k, u). compute k u) upds s)" "live_of (fold (\<lambda>(k, u). compute k u) upds s) = o1"
proof -
  have reg: "regular_update okey j u" if "(j, u) \<in> set upds" for j u
    using cycle_regular[OF assms(3,4)] that assms(2) by (simp add: map_of_wf_mem)
  show "inv (fold (\<lambda>(k, u). compute k u) upds s)" by (rule inv_fold[OF assms(1) reg])
  show "live_of (fold (\<lambda>(k, u). compute k u) upds s) = o1"
  proof (rule mirror_fold[OF assms(1,2) reg assms(5)])
    fix k
    have e: "entry_ok (o0 k) (o1 k) (map_of upds k)" using assms(3) by (simp add: cycle_ok_def)
    show "map_of upds k = None \<Longrightarrow> o0 k = o1 k" "map_of upds k = Some u \<Longrightarrow> NewObject u = o1 k" for u
      using e by (auto simp: entry_ok_def)
  qed
qed

end

subsection \<open>Gateways after the route builders\<close>

lemma bare_fields:
  "bare g = bare g' \<Longrightarrow> gw_K8sResource g = gw_K8sResource g' \<and> gw_Valid g = gw_Valid g' \<and> isManaged g = isManaged g'"
  by (cases g; cases g') (simp add: bare_def isManaged_def)

lemma bare_listeners:
  assumes "bare g = bare g'" "(n, l) \<in> set (gw_Listeners g)"
  obtains l' where "(n, l') \<in> set (gw_Listeners g')" "li_K8sResource l' = li_K8sResource l" "li_Valid l' = li_Valid l"
proof -
  have "map (\<lambda>(n, l). (n, bare_listener l)) (gw_Listeners g) = map (\<lambda>(n, l). (n, bare_listener l)) (gw_Listeners g')"
    using assms(1) by (cases g; cases g') (simp add: bare_def)
  then have "(\<lambda>(n, l). (n, bare_listener l)) ` set (gw_Listeners g) = (\<lambda>(n, l). (n, bare_listener l)) ` set (gw_Listeners g')"
    by (metis set_map)
  moreover have "(n, bare_listener l) \<in> (\<lambda>(n, l). (n, bare_listener l)) ` set (gw_Listeners g)"
    by (rule image_eqI[OF _ assms(2)]) simp
  ultimately have "(n, bare_listener l) \<in> (\<lambda>(n, l). (n, bare_listener l)) ` set (gw_Listeners g')" by simp
  then obtain l' where l': "(n, l') \<in> set (gw_Listeners g')" "bare_listener l = bare_listener l'" by auto
  have sel: "li_K8sResource (bare_listener x) = li_K8sResource x" "li_Valid (bare_listener x) = li_Valid x" for x
    by (simp_all add: bare_listener_def)
  have "li_K8sResource l' = li_K8sResource l" "li_Valid l' = li_Valid l" using l'(2) sel by metis+
  then show ?thesis using that l'(1) by blast
qed

lemma bare_shrink:
  fixes b b' :: controller_store
  assumes ok: "gw_inv b" "ports_exclusive (Gateways (cst_GateTree b))" and wf: "wf_map (Gateways (cst_GateTree b'))"
    and shrink: "\<And>j. bare_gateways b' j \<in> {None, bare_gateways b j}"
  shows "gw_inv b' \<and> ports_exclusive (Gateways (cst_GateTree b'))"
proof -
  let ?m = "Gateways (cst_GateTree b)" and ?m' = "Gateways (cst_GateTree b')"
  have same: "\<exists>g. map_of ?m k = Some g \<and> bare (tr_core g') = bare (tr_core g)
      \<and> (TreeStatus (tr_status g') = StatusDeleted \<longleftrightarrow> TreeStatus (tr_status g) = StatusDeleted)" if "map_of ?m' k = Some g'" for k g'
    using shrink[of k] that by (cases "map_of ?m k") (auto simp: bare_gateways_def)
  have node: "gw_node_ok k g'" if g': "map_of ?m' k = Some g'" for k g'
  proof -
    obtain g where g: "map_of ?m k = Some g" "bare (tr_core g') = bare (tr_core g)"
      "TreeStatus (tr_status g') = StatusDeleted \<longleftrightarrow> TreeStatus (tr_status g) = StatusDeleted" using same[OF g'] by blast
    have ok: "gw_node_ok k g" using ok(1) g(1) by (simp add: gw_inv_def gws_ok_def)
    have ls: "li_K8sResource l \<in> li_K8sResource ` snd ` set (gw_Listeners (tr_core g))" if l: "(n, l) \<in> set (gw_Listeners (tr_core g'))" for n l
      by (rule bare_listeners[OF g(2) l]) (metis image_eqI snd_conv)
    have e: "gw_Listeners (tr_core g') = [] \<longleftrightarrow> gw_Listeners (tr_core g) = []"
      using g(2) by (cases "tr_core g"; cases "tr_core g'") (auto simp: bare_def)
    show ?thesis using ok bare_fields[OF g(2)] e ls g(3) unfolding gw_node_ok_def
      by (cases "gw_K8sResource (tr_core g)") (fastforce split: prod.splits)+
  qed
  then have inv: "gw_inv b'" using wf by (simp add: gw_inv_def gws_ok_def)
  have nar: "narrows ?m' ?m" unfolding narrows_def using same bare_fields by blast
  have "ports_exclusive ?m'" unfolding ports_exclusive_def
  proof (intro allI impI, elim conjE)
    fix k g' n l assume a: "map_of ?m' k = Some g'" "gw_Valid (tr_core g')" "(n, l) \<in> set (gw_Listeners (tr_core g'))" "li_Valid l"
    let ?p = "ls_port (li_K8sResource l)"
    obtain g where g: "map_of ?m k = Some g" "bare (tr_core g') = bare (tr_core g)" using same[OF a(1)] by blast
    obtain l0 where l0: "(n, l0) \<in> set (gw_Listeners (tr_core g))" "li_K8sResource l0 = li_K8sResource l" "li_Valid l0"
      by (rule bare_listeners[OF g(2) a(3)]) (use a(4) in auto)
    note f = bare_fields[OF g(2)]
    obtain k8s where k8s: "gw_K8sResource (tr_core g) = Some k8s"
      and users: "port_users ?m ?p = [\<lparr>gl_listenerKey = ListenerKey k8s (li_K8sResource l), gl_gatewayKey = k\<rparr>]"
      using ok(2)[unfolded ports_exclusive_def, rule_format, of k g n l0] g(1) l0 a(2) f by auto
    have nok: "gw_node_ok k g'" by (rule node[OF a(1)])
    then have l: "li_K8sResource l \<in> set (gwk_listeners k8s)" "meta_key (gwk_meta k8s) = k"
      using a(3) k8s f by (auto simp: gw_node_ok_def)
    have mem: "\<lparr>gl_listenerKey = ListenerKey k8s (li_K8sResource l), gl_gatewayKey = k\<rparr> \<in> set (port_users ?m' ?p)"
      using port_users_mem[OF a(1) _ l(1)] k8s f l(2) by simp
    have "length (port_users ?m' ?p) \<le> 1"
      using port_users_narrows[OF _ wf nar, of ?p] ok(1) users by (simp add: gw_inv_def gws_ok_def)
    then have "port_users ?m' ?p = [\<lparr>gl_listenerKey = ListenerKey k8s (li_K8sResource l), gl_gatewayKey = k\<rparr>]"
      using mem by (cases "port_users ?m' ?p") auto
    then show "\<exists>k8s. gw_K8sResource (tr_core g') = Some k8s \<and>
        port_users ?m' ?p = [\<lparr>gl_listenerKey = ListenerKey k8s (li_K8sResource l), gl_gatewayKey = k\<rparr>]"
      using k8s f by auto
  qed
  with inv show ?thesis by simp
qed

subsection \<open>Retiring pointers\<close>

lemma kind_trees: "rk_tree HTTPRoute_kind = HTTPRoutes" "rk_tree TLSRoute_kind = TLSRoutes"
  "rk_updates HTTPRoute_kind c = updates (cs_HTTPRoutes c)" "rk_updates TLSRoute_kind c = updates (cs_TLSRoutes c)"
  by (simp_all add: HTTPRoute_kind_def TLSRoute_kind_def)

definition besides_route_trees where
  "besides_route_trees b = ((GatewayClasses (cst_GateTree b), Gateways (cst_GateTree b), Secrets (cst_GateTree b), Services (cst_GateTree b)),
     (GatewayClasses (cst_UnmanagedGateTree b), Gateways (cst_UnmanagedGateTree b)), cst_ClusterStore b,
     cst_ReferencedObjects b, cst_CertUpdates b, cst_CrtListUpdates b, cst_InstalledGwAPIVersions b, cst_ControllerName b)"

lemma retire_frame: "besides_route_trees (retire_listeners b) = besides_route_trees b"
  by (simp add: besides_route_trees_def retire_listeners_def retire_tree_def Let_def)

lemma retire_routes:
  "route_inv HTTPRoute_kind b \<Longrightarrow> route_inv HTTPRoute_kind (retire_listeners b)"
  "route_inv TLSRoute_kind b \<Longrightarrow> route_inv TLSRoute_kind (retire_listeners b)"
  "live_routes HTTPRoute_kind (retire_listeners b) = live_routes HTTPRoute_kind b"
  "live_routes TLSRoute_kind (retire_listeners b) = live_routes TLSRoute_kind b"
proof -
  have wf: "wf_map (map (\<lambda>(k, r). (k, retire_route gws r)) t) \<longleftrightarrow> wf_map t" for gws and t :: "('k, 'r) route tree_map"
    by (simp add: wf_map_def comp_def split_beta)
  have node: "tr_status (retire_route gws r) = tr_status r" "rt_K8sResource (tr_core (retire_route gws r)) = rt_K8sResource (tr_core r)"
    for gws and r :: "('k, 'r) route tree_res" by (simp_all add: retire_route_def)
  show "route_inv HTTPRoute_kind b \<Longrightarrow> route_inv HTTPRoute_kind (retire_listeners b)"
    by (auto simp: route_inv_def HTTPRoute_kind_def retire_listeners_def retire_tree_def Let_def wf map_of_map_values)
  show "route_inv TLSRoute_kind b \<Longrightarrow> route_inv TLSRoute_kind (retire_listeners b)"
    by (auto simp: route_inv_def TLSRoute_kind_def retire_listeners_def retire_tree_def Let_def wf map_of_map_values)
  show "live_routes HTTPRoute_kind (retire_listeners b) = live_routes HTTPRoute_kind b"
    by (auto simp: fun_eq_iff live_routes_def find_route_def HTTPRoute_kind_def retire_listeners_def retire_tree_def Let_def
        map_of_map_values node split: option.splits)
  show "live_routes TLSRoute_kind (retire_listeners b) = live_routes TLSRoute_kind b"
    by (auto simp: fun_eq_iff live_routes_def find_route_def TLSRoute_kind_def retire_listeners_def retire_tree_def Let_def
        map_of_map_values node split: option.splits)
qed

text \<open>What the route invariants read.\<close>

lemma route_trees_cong:
  assumes "route_trees b = route_trees b'"
  shows "route_inv HTTPRoute_kind b = route_inv HTTPRoute_kind b'" "live_routes HTTPRoute_kind b = live_routes HTTPRoute_kind b'"
    "route_inv TLSRoute_kind b = route_inv TLSRoute_kind b'" "live_routes TLSRoute_kind b = live_routes TLSRoute_kind b'"
proof -
  have e: "HTTPRoutes (cst_GateTree b) = HTTPRoutes (cst_GateTree b')" "TLSRoutes (cst_GateTree b) = TLSRoutes (cst_GateTree b')"
    "HTTPRoutes (cst_UnmanagedGateTree b) = HTTPRoutes (cst_UnmanagedGateTree b')"
    "TLSRoutes (cst_UnmanagedGateTree b) = TLSRoutes (cst_UnmanagedGateTree b')"
    using assms by (simp_all add: route_trees_def)
  show "route_inv HTTPRoute_kind b = route_inv HTTPRoute_kind b'" "live_routes HTTPRoute_kind b = live_routes HTTPRoute_kind b'"
    "route_inv TLSRoute_kind b = route_inv TLSRoute_kind b'" "live_routes TLSRoute_kind b = live_routes TLSRoute_kind b'"
    unfolding fun_eq_iff route_inv_def live_routes_def find_route_def kind_trees e by blast+
qed

end
