(* ===== verification/GateCycle.thy ===== *)
theory GateCycle
  imports GateBuild
begin

text \<open>
  One cycle of the controller keeps the invariant of the state: \<open>gate_inv\<close> (theory GateBuild) holds
  before a batch of events and after it, and the cycle does not panic.  The proof follows
  \<open>buildGateTree\<close>: the clean up and the references (\<open>cycle_start\<close>), then the seven builders.
\<close>

subsection \<open>The start of a cycle\<close>

text \<open>The trees still mirror the objects of the store \<open>c0\<close> of the last cycle.\<close>

definition trees_start :: "cluster_store \<Rightarrow> controller_store \<Rightarrow> bool" where
  "trees_start c0 b \<longleftrightarrow>
     (\<exists>t0. secret_nodes_ok t0 \<and> live se_K8sResource t0 = map_of (objects (cs_Secrets c0)) \<and> Secrets (cst_GateTree b) = cleanTreeUpdates t0)
     \<and> wf_map (Services (cst_GateTree b)) \<and> live_services b = map_of (objects (cs_Services c0))
     \<and> gwc_inv b \<and> live_gateway_classes b = map_of (objects (cs_GatewayClasses c0)) \<and> gw_inv b
     \<and> route_inv HTTPRoute_kind b \<and> live_routes HTTPRoute_kind b = map_of (objects (cs_HTTPRoutes c0))
     \<and> route_inv TLSRoute_kind b \<and> live_routes TLSRoute_kind b = map_of (objects (cs_TLSRoutes c0))"

abbreviation cleaned :: "controller_store \<Rightarrow> controller_store" where
  "cleaned b \<equiv> ResetCrtListUpdates (ResetCertificateUpdates (CleanInstalledVersionsUpdates (cleanTrees b)))"

lemma cleaned_fields:
  "Secrets (cst_GateTree (cleaned b)) = cleanTreeUpdates (Secrets (cst_GateTree b))"
  "Services (cst_GateTree (cleaned b)) = cleanTreeUpdates (Services (cst_GateTree b))"
  "Gateways (cst_GateTree (cleaned b)) = cleanTreeUpdates (Gateways (cst_GateTree b))"
  "GatewayClasses (cst_GateTree (cleaned b)) = GatewayClasses (cst_GateTree (GatewayClass_CleanTreeUpdates b))"
  "GatewayClasses (cst_UnmanagedGateTree (cleaned b)) = GatewayClasses (cst_UnmanagedGateTree (GatewayClass_CleanTreeUpdates b))"
  "route_trees (cleaned b) = route_trees (Route_CleanTreeUpdates TLSRoute_kind (Route_CleanTreeUpdates HTTPRoute_kind b))"
  "cst_ClusterStore (cleaned b) = cst_ClusterStore b" "cst_ReferencedObjects (cleaned b) = cst_ReferencedObjects b"
  "iv_Versions (cst_InstalledGwAPIVersions (cleaned b)) = iv_Versions (cst_InstalledGwAPIVersions b)"
  "cst_CertUpdates (cleaned b) = storage_updates0" "cst_CrtListUpdates (cleaned b) = storage_updates0"
  by (simp_all add: ResetCrtListUpdates_def ResetCertificateUpdates_def CleanInstalledVersionsUpdates_def cleanTrees_def
      TLSRoute_CleanTreeUpdates_def HTTPRoute_CleanTreeUpdates_def Route_CleanTreeUpdates_def Service_CleanTreeUpdates_def
      Gateway_CleanTreeUpdates_def GatewayClass_CleanTreeUpdates_def Secret_CleanTreeUpdates_def route_trees_def
      HTTPRoute_kind_def TLSRoute_kind_def split: option.split)

lemma route_tree_cong:
  assumes "rk_tree K (cst_GateTree b) = rk_tree K (cst_GateTree b')" "rk_tree K (cst_UnmanagedGateTree b) = rk_tree K (cst_UnmanagedGateTree b')"
  shows "route_inv K b = route_inv K b'" "live_routes K b = live_routes K b'"
  unfolding fun_eq_iff route_inv_def live_routes_def find_route_def assms by blast+

lemma other_kind_clean:
  "route_inv TLSRoute_kind (Route_CleanTreeUpdates HTTPRoute_kind b) = route_inv TLSRoute_kind b"
  "live_routes TLSRoute_kind (Route_CleanTreeUpdates HTTPRoute_kind b) = live_routes TLSRoute_kind b"
  "route_inv HTTPRoute_kind (Route_CleanTreeUpdates TLSRoute_kind b) = route_inv HTTPRoute_kind b"
  "live_routes HTTPRoute_kind (Route_CleanTreeUpdates TLSRoute_kind b) = live_routes HTTPRoute_kind b"
  by (rule route_tree_cong; simp add: Route_CleanTreeUpdates_def HTTPRoute_kind_def TLSRoute_kind_def)+

lemma cleaned_routes:
  assumes "route_inv HTTPRoute_kind b" "route_inv TLSRoute_kind b"
  shows "route_inv HTTPRoute_kind (cleaned b) \<and> live_routes HTTPRoute_kind (cleaned b) = live_routes HTTPRoute_kind b"
    and "route_inv TLSRoute_kind (cleaned b) \<and> live_routes TLSRoute_kind (cleaned b) = live_routes TLSRoute_kind b"
  using http_routes.clean_spec[OF assms(1)] tls_routes.clean_spec[of "Route_CleanTreeUpdates HTTPRoute_kind b"] assms(2)
  by (simp_all add: route_trees_cong[OF cleaned_fields(6)] other_kind_clean)

lemma cleaned_classes:
  assumes "gwc_inv b"
  shows "gwc_inv (cleaned b) \<and> live_gateway_classes (cleaned b) = live_gateway_classes b"
  using gwc_clean[OF assms] unfolding gwc_inv_def live_gateway_classes_def by (simp add: cleaned_fields)

text \<open>The store of the next batch is already in place.\<close>

lemma next_store:
  "gwc_inv (b\<lparr>cst_ClusterStore := c\<rparr>) = gwc_inv b" "live_gateway_classes (b\<lparr>cst_ClusterStore := c\<rparr>) = live_gateway_classes b"
  "route_inv HTTPRoute_kind (b\<lparr>cst_ClusterStore := c\<rparr>) = route_inv HTTPRoute_kind b"
  "live_routes HTTPRoute_kind (b\<lparr>cst_ClusterStore := c\<rparr>) = live_routes HTTPRoute_kind b"
  "route_inv TLSRoute_kind (b\<lparr>cst_ClusterStore := c\<rparr>) = route_inv TLSRoute_kind b"
  "live_routes TLSRoute_kind (b\<lparr>cst_ClusterStore := c\<rparr>) = live_routes TLSRoute_kind b"
  using route_trees_cong[of "b\<lparr>cst_ClusterStore := c\<rparr>" b] by (simp_all add: gwc_inv_def live_gateway_classes_def route_trees_def)

lemma cleaned_start:
  assumes "trees_mirror b" "gw_inv b"
  shows "trees_start (cst_ClusterStore b) (cleaned (b\<lparr>cst_ClusterStore := c\<rparr>))"
proof -
  let ?b = "b\<lparr>cst_ClusterStore := c\<rparr>"
  note m = assms(1)[unfolded trees_mirror_def Let_def]
  have s: "secret_nodes_ok (Secrets (cst_GateTree b))" "live se_K8sResource (Secrets (cst_GateTree b)) = map_of (objects (cs_Secrets (cst_ClusterStore b)))"
    using m by (simp_all add: live_secrets_def)
  have v: "wf_map (Services (cst_GateTree (cleaned ?b)))" "live_services (cleaned ?b) = map_of (objects (cs_Services (cst_ClusterStore b)))"
    using m by (simp_all add: live_services_def cleaned_fields wf_clean live_clean)
  have g: "gw_inv (cleaned ?b)" using assms(2) by (simp add: gw_inv_def cleaned_fields gws_ok_clean)
  have c: "gwc_inv (cleaned ?b) \<and> live_gateway_classes (cleaned ?b) = map_of (objects (cs_GatewayClasses (cst_ClusterStore b)))"
    using cleaned_classes[of ?b] m by (simp add: next_store)
  note r = cleaned_routes[of ?b, unfolded next_store]
  show ?thesis unfolding trees_start_def
    by (intro conjI exI[of _ "Secrets (cst_GateTree b)"]) (use s v g c r m in \<open>simp_all add: cleaned_fields\<close>)
qed

text \<open>Only the references change in \<open>UpdateRefences\<close>, only the versions in the step after it.\<close>

lemma trees_start_frame:
  "trees_start c0 (b\<lparr>cst_ReferencedObjects := r\<rparr>) = trees_start c0 b"
  "trees_start c0 (b\<lparr>cst_InstalledGwAPIVersions := v\<rparr>) = trees_start c0 b"
  using route_trees_cong[of "b\<lparr>cst_ReferencedObjects := r\<rparr>" b] route_trees_cong[of "b\<lparr>cst_InstalledGwAPIVersions := v\<rparr>" b]
  by (simp_all add: trees_start_def live_services_def gwc_inv_def live_gateway_classes_def gw_inv_def route_trees_def)

definition cycle_start :: "(k8s_object \<Rightarrow> gvk) \<Rightarrow> cluster_store \<Rightarrow> controller_store \<Rightarrow> bool" where
  "cycle_start extractGVK c0 b \<longleftrightarrow> trees_start c0 b \<and> references_ok extractGVK b
     \<and> ref_inv (PreviousReferencedSecrets (cst_ReferencedObjects b))
     \<and> gateway_refs extractGVK (PreviousReferencedSecrets (cst_ReferencedObjects b)) = declared_refs c0
     \<and> counts_ok (map_of (objects (cs_GatewayAPICRDs (cst_ClusterStore b)))) (iv_Versions (cst_InstalledGwAPIVersions b))
     \<and> cst_CertUpdates b = storage_updates0 \<and> cst_CrtListUpdates b = storage_updates0"

text \<open>Without an update of a gateway the declared references are the same.\<close>

lemma declared_refs_same:
  assumes "kind_cycle cs_Gateways c0 c1" "updates (cs_Gateways c1) = []"
  shows "declared_refs c1 = declared_refs c0"
proof -
  have "map_of (objects (cs_Gateways c1)) = map_of (objects (cs_Gateways c0))"
    using assms by (auto simp: kind_cycle_def cycle_ok_def entry_ok_def fun_eq_iff)
  then show ?thesis by (simp add: declared_refs_def)
qed

lemma gateway_refs_image:
  "ref_rel r = (\<lambda>(k, w). (k, extractGVK (OGateway gateway0), w)) ` R \<Longrightarrow> gateway_refs extractGVK r = R"
  by (force simp: gateway_refs_def)

lemma references_start:
  fixes extractGVK :: "k8s_object \<Rightarrow> gvk"
  assumes ok: "references_ok extractGVK b" and x: "cst_ReferencedObjects x = cst_ReferencedObjects b" "cst_ClusterStore x = c1"
    and cyc: "kind_cycle cs_Gateways (cst_ClusterStore b) c1" and wf: "wf_map (objects (cs_Gateways c1))"
  defines "y \<equiv> UpdateRefences extractGVK x"
  shows "y = x\<lparr>cst_ReferencedObjects := cst_ReferencedObjects y\<rparr>" "references_ok extractGVK y"
    "ref_inv (PreviousReferencedSecrets (cst_ReferencedObjects y))"
    "gateway_refs extractGVK (PreviousReferencedSecrets (cst_ReferencedObjects y)) = declared_refs (cst_ClusterStore b)"
proof -
  note o = ok[unfolded references_ok_def]
  have "ref_inv (ReferencedSecrets (cst_ReferencedObjects x))" "wf_map (objects (cs_Gateways (cst_ClusterStore x)))" using o wf by (simp_all add: x)
  note s = UpdateRefences_spec[OF this, where extractGVK = extractGVK, folded y_def, unfolded x]
  show y: "y = x\<lparr>cst_ReferencedObjects := cst_ReferencedObjects y\<rparr>" by (rule s(1))
  have "cst_ClusterStore y = c1" by (subst y) (simp add: x)
  then show "references_ok extractGVK y" unfolding references_ok_def
    using s(3,4) o declared_refs_same[OF cyc] by auto
  show "ref_inv (PreviousReferencedSecrets (cst_ReferencedObjects y))"
    "gateway_refs extractGVK (PreviousReferencedSecrets (cst_ReferencedObjects y)) = declared_refs (cst_ClusterStore b)"
    using s(2) o gateway_refs_image by auto
qed

lemma start_ok:
  fixes env :: "('c, 'v) gate_env" and b :: controller_store
  assumes trees: "trees_mirror b" "gw_inv b" and refs: "references_ok (ge_extractGVK env) b"
    and counts: "counts_ok (map_of (objects (cs_GatewayAPICRDs (cst_ClusterStore b)))) (iv_Versions (cst_InstalledGwAPIVersions b))"
    and inv: "store_inv c1" and cyc: "kinds_cycle (cst_ClusterStore b) c1" and known: "crd_deletes_known c1"
  obtains b2 where "buildInstalledVersionsUpdates env (UpdateRefences (ge_extractGVK env) (cleaned (b\<lparr>cst_ClusterStore := c1\<rparr>))) = Some b2"
    "cst_ClusterStore b2 = c1" "cycle_start (ge_extractGVK env) (cst_ClusterStore b) b2"
proof -
  define x where "x = cleaned (b\<lparr>cst_ClusterStore := c1\<rparr>)"
  define y where "y = UpdateRefences (ge_extractGVK env) x"
  have x: "cst_ReferencedObjects x = cst_ReferencedObjects b" "cst_ClusterStore x = c1"
    "iv_Versions (cst_InstalledGwAPIVersions x) = iv_Versions (cst_InstalledGwAPIVersions b)"
    "cst_CertUpdates x = storage_updates0" "cst_CrtListUpdates x = storage_updates0"
    by (simp_all add: x_def cleaned_fields)
  note wfs = store_kinds_wf[OF inv]
  have gw: "kind_cycle cs_Gateways (cst_ClusterStore b) c1" "wf_map (objects (cs_Gateways c1))"
    using cyc wfs by (simp_all add: kinds_cycle_def os_wf_def)
  note r = references_start[OF refs x(1,2) gw, folded y_def]
  have y: "cst_ClusterStore y = c1" "cst_InstalledGwAPIVersions y = cst_InstalledGwAPIVersions x"
    "cst_CertUpdates y = storage_updates0" "cst_CrtListUpdates y = storage_updates0"
    by (subst r(1), simp add: x)+
  have ty: "trees_start (cst_ClusterStore b) y"
    by (subst r(1)) (simp add: trees_start_frame x_def cleaned_start[OF trees])
  have crd: "cycle_ok (map_of (objects (cs_GatewayAPICRDs (cst_ClusterStore b)))) (map_of (objects (cs_GatewayAPICRDs c1))) (map_of (updates (cs_GatewayAPICRDs c1)))"
    "wf_map (updates (cs_GatewayAPICRDs c1))" using cyc wfs by (simp_all add: kinds_cycle_def kind_cycle_def os_wf_def)
  obtain iv where iv: "InstalledVersions_Build (ge_newConstraint env) (ge_newVersion env) (ge_check env) (cs_GatewayAPICRDs c1) (cst_InstalledGwAPIVersions y) = Some iv"
    "counts_ok (map_of (objects (cs_GatewayAPICRDs c1))) (iv_Versions iv)"
    using installed_versions_step[OF _ crd known[unfolded crd_deletes_known_def], of "cst_InstalledGwAPIVersions y"
        "ge_newConstraint env" "ge_newVersion env" "ge_check env"] counts by (auto simp: y x)
  let ?b2 = "y\<lparr>cst_InstalledGwAPIVersions := iv\<rparr>"
  have "cycle_start (ge_extractGVK env) (cst_ClusterStore b) ?b2"
    unfolding cycle_start_def using ty r(2-4) iv(2) by (simp add: trees_start_frame references_ok_def y)
  moreover have "buildInstalledVersionsUpdates env y = Some ?b2" by (simp add: buildInstalledVersionsUpdates_def y(1) iv(1))
  ultimately show ?thesis using that[of ?b2] y(1) by (simp add: y_def x_def)
qed

subsection \<open>The builders\<close>

text \<open>What is left to show of a state whose builders have run: the part of the invariant that the trees,
  the references and the counters make up.\<close>

lemma secrets_step:
  assumes "trees_start c0 b" "cst_ClusterStore b = c1" "store_inv c1" "kind_cycle cs_Secrets c0 c1"
  defines "b1 \<equiv> Secret_computeGateTreeUpdates b"
  shows "cycle_node (map_of (objects (cs_Secrets c0)) k) (map_of (objects (cs_Secrets c1)) k) (map_of (Secrets (cst_GateTree b1)) k)"
    "secret_nodes_ok (Secrets (cst_GateTree b1))" "live_secrets b1 = map_of (objects (cs_Secrets c1))"
proof -
  obtain t0 where t0: "secret_nodes_ok t0" "live se_K8sResource t0 = map_of (objects (cs_Secrets c0))" "Secrets (cst_GateTree b) = cleanTreeUpdates t0"
    using assms(1) by (auto simp: trees_start_def)
  have "cycle_ok (live se_K8sResource t0) (map_of (objects (cs_Secrets c1))) (map_of (updates (cs_Secrets c1)))" "wf_map (updates (cs_Secrets c1))"
    using assms(4) store_kinds_wf[OF assms(3)] by (simp_all add: kind_cycle_def t0(2) os_wf_def)
  note s = secret_tree_cycle[OF t0(1) this object_keys(1)[OF assms(3)] t0(3)]
  have b1: "b1 = fold (\<lambda>(k, u). computeTreeSecretUpdate k u) (updates (cs_Secrets c1)) b"
    by (simp add: b1_def Secret_computeGateTreeUpdates_def assms(2))
  show "cycle_node (map_of (objects (cs_Secrets c0)) k) (map_of (objects (cs_Secrets c1)) k) (map_of (Secrets (cst_GateTree b1)) k)" for k
    using s(1)[of k] by (simp add: b1 t0(2))
  show "secret_nodes_ok (Secrets (cst_GateTree b1))" using s(2) by (simp add: b1)
  show "live_secrets b1 = map_of (objects (cs_Secrets c1))"
    unfolding live_secrets_def b1 by (rule live_of_cycle, rule s(1))
qed

lemma classes_step:
  fixes ft :: field_text
  assumes "gwc_inv b" "live_gateway_classes b = map_of (objects (cs_GatewayClasses c0))" "cst_ClusterStore b = c1" "store_inv c1"
    "kind_cycle cs_GatewayClasses c0 c1"
  defines "b2 \<equiv> GatewayClass_ComputeTreeUpdates ft b"
  shows "gwc_inv b2" "live_gateway_classes b2 = map_of (objects (cs_GatewayClasses c1))" "besides_classes b2 = besides_classes b"
    "\<exists>us. wf_map us \<and> cst_ClusterStore b2 = c1\<lparr>cs_GatewayClasses := (cs_GatewayClasses c1)\<lparr>updates := us\<rparr>\<rparr>"
proof -
  define x where "x = addIndirectGatewayClassesFromInstalledVersions b"
  let ?us = "updates (cs_GatewayClasses (cst_ClusterStore x))" and ?o = "map_of (objects (cs_GatewayClasses c1))"
  have "os_wf (cs_GatewayClasses (cst_ClusterStore b))" using store_kinds_wf[OF assms(4)] by (simp add: assms(3))
  note s = addIndirect_spec[OF this assms(5)[folded assms(3), unfolded kind_cycle_def], folded x_def, unfolded assms(3)]
  obtain us where x: "x = b\<lparr>cst_ClusterStore := c1\<lparr>cs_GatewayClasses := (cs_GatewayClasses c1)\<lparr>updates := us\<rparr>\<rparr>\<rparr>" using s(1) by blast
  have us: "?us = us" by (simp add: x)
  have b2: "b2 = fold (\<lambda>(k, u). computeTreeGatewayClassUpdate ft k u) us x"
    by (simp add: b2_def GatewayClass_ComputeTreeUpdates_def GatewayClass_computeGateTreeUpdates_def x_def[symmetric] us)
  have reg: "regular_update (\<lambda>x. meta_key (gck_meta x)) k u" if "(k, u) \<in> set us" for k u
    using s(4)[of k u] that s(2) object_keys(3)[OF assms(4), of k] by (auto simp: us regular_update_def map_of_wf_mem split: option.splits)
  have ix: "gwc_inv x" "live_gateway_classes x = map_of (objects (cs_GatewayClasses c0))"
    using assms(1,2) by (simp_all add: x next_store)
  show "gwc_inv b2" unfolding b2 by (rule gwc_tree.inv_fold[OF ix(1) reg])
  show "live_gateway_classes b2 = ?o" unfolding b2
    by (rule gwc_tree.mirror_fold[OF ix(1) _ reg ix(2)]) (use s in \<open>auto simp: us\<close>)
  have f: "b2 = GatewayClass_computeGateTreeUpdates ft x" by (simp add: b2_def GatewayClass_ComputeTreeUpdates_def x_def)
  show "besides_classes b2 = besides_classes b" unfolding f class_fold_frame by (simp add: x besides_classes_def route_trees_def)
  show "\<exists>us. wf_map us \<and> cst_ClusterStore b2 = c1\<lparr>cs_GatewayClasses := (cs_GatewayClasses c1)\<lparr>updates := us\<rparr>\<rparr>"
    unfolding f class_fold_frame using s(2) by (auto simp: x)
qed

text \<open>The class builder adds updates of gateway classes to the store and nothing else.\<close>

lemma more_class_updates:
  assumes "c' = c\<lparr>cs_GatewayClasses := (cs_GatewayClasses c)\<lparr>updates := us\<rparr>\<rparr>" "wf_map us"
  shows "store_inv c \<Longrightarrow> store_inv c'" "declared_refs c' = declared_refs c" "good_store c' = good_store c"
    "objects (cs_GatewayClasses c') = objects (cs_GatewayClasses c)"
    "cs_Secrets c' = cs_Secrets c" "cs_Services c' = cs_Services c" "cs_Gateways c' = cs_Gateways c" "cs_GatewayAPICRDs c' = cs_GatewayAPICRDs c"
    "cs_HTTPRoutes c' = cs_HTTPRoutes c" "cs_TLSRoutes c' = cs_TLSRoutes c" "view_objects c' = view_objects c"
proof -
  have v: "view_objects c' (sid, k) = view_objects c (sid, k)" for sid k by (cases sid) (simp_all add: assms(1) wrap_objects_def)
  then show "view_objects c' = view_objects c" by (auto simp: fun_eq_iff)
  have w: "store_wf sid c \<Longrightarrow> store_wf sid c'" for sid using assms(2) by (cases sid) (simp_all add: assms(1) os_wf_def)
  show "store_inv c \<Longrightarrow> store_inv c'" unfolding store_inv_def v using w by blast
  show d: "declared_refs c' = declared_refs c" by (simp add: declared_refs_def assms(1))
  show "good_store c' = good_store c" unfolding good_store_def d by (simp add: assms(1))
qed (simp_all add: assms(1))

lemma gateways_step:
  fixes ft :: field_text and merge :: "hug_gate \<Rightarrow> hug_gate \<Rightarrow> hug_gate" and gb :: gateway_builder
  assumes "gw_inv b" "cs_Gateways (cst_ClusterStore b) = cs_Gateways c1" "store_inv c1" "kind_cycle cs_Gateways c0 c1"
  defines "b3 \<equiv> snd (Gateway_ComputeTreeUpdates ft merge (gb, b))"
  shows "gw_inv b3" "ports_exclusive (Gateways (cst_GateTree b3))"
proof -
  have wf: "wf_map (updates (cs_Gateways c1))" using store_kinds_wf[OF assms(3)] by (simp add: os_wf_def)
  have "\<forall>(k, u) \<in> set (updates (cs_Gateways (cst_ClusterStore b))). regular_update (\<lambda>x. meta_key (gwk_meta x)) k u"
    using cycle_regular[OF assms(4)[unfolded kind_cycle_def] object_keys(4)[OF assms(3)]] wf by (auto simp: assms(2) map_of_wf_mem)
  from listener_ports_step[OF assms(1) this, of ft merge gb, folded b3_def]
  show "gw_inv b3" "ports_exclusive (Gateways (cst_GateTree b3))" by (auto simp: Let_def gw_inv_def ports_exclusive_def)
qed

lemma services_step:
  assumes "wf_map (Services (cst_GateTree b))" "live_services b = map_of (objects (cs_Services c0))"
    "cs_Services (cst_ClusterStore b) = cs_Services c1" "store_inv c1" "kind_cycle cs_Services c0 c1"
  defines "b' \<equiv> Service_computeGateTreeUpdates b"
  shows "wf_map (Services (cst_GateTree b'))" "live_services b' = map_of (objects (cs_Services c1))"
proof -
  have wf: "wf_map (updates (cs_Services c1))" using store_kinds_wf[OF assms(4)] by (simp add: os_wf_def)
  note m = service_tree.mirror_cycle[OF assms(1) wf assms(5)[unfolded kind_cycle_def] object_keys(2)[OF assms(4)] assms(2)]
  show "wf_map (Services (cst_GateTree b'))" "live_services b' = map_of (objects (cs_Services c1))"
    using m by (simp_all add: b'_def Service_computeGateTreeUpdates_def assms(3))
qed

text \<open>A route builder mirrors its routes, keeps the gateway invariants and changes nothing else.\<close>

context route_builder begin

lemma mirrors:
  fixes extractGVK :: "k8s_object \<Rightarrow> gvk"
  shows "mirrored_tree (live_routes K) (Route_CleanTreeUpdates K) (Route_computeTreeUpdate extractGVK K) (\<lambda>x. meta_key (rk_meta K x)) (route_inv K)"
  by unfold_locales (simp_all add: clean_spec compute_spec)

lemma route_step:
  fixes extractGVK :: "k8s_object \<Rightarrow> gvk"
  assumes inv: "route_inv K b" and live: "live_routes K b = o0" and us: "rk_updates K (cst_ClusterStore b) = us" "wf_map us"
    and cyc: "cycle_ok o0 o1 (map_of us)" and keys: "\<And>k x. o1 k = Some x \<Longrightarrow> meta_key (rk_meta K x) = k"
    and gws: "gw_inv b" "ports_exclusive (Gateways (cst_GateTree b))"
  defines "b' \<equiv> Route_computeGateTreeUpdates extractGVK K b"
  shows "route_inv K b'" "live_routes K b' = o1" "gw_inv b'" "ports_exclusive (Gateways (cst_GateTree b'))"
    "besides_routes other b' = besides_routes other b"
proof -
  have reg: "regular_update (\<lambda>x. meta_key (rk_meta K x)) k u" if "(k, u) \<in> set us" for k u
    using cycle_regular[OF cyc keys] that us(2) by (simp add: map_of_wf_mem)
  note bs = builder_spec[OF inv, unfolded us(1), OF us(2) reg, where extractGVK = extractGVK, folded b'_def]
  show "route_inv K b'" by (rule bs(1))
  show "live_routes K b' = o1" using bs(2) mirrored_tree.mirror_cycle(2)[OF mirrors inv us(2) cyc keys live] by simp
  have "gw_inv b' \<and> ports_exclusive (Gateways (cst_GateTree b'))"
    by (rule bare_shrink[OF gws]) (use bs(4,5) gws(1) in \<open>auto simp: gw_inv_def gws_ok_def\<close>)
  then show "gw_inv b'" "ports_exclusive (Gateways (cst_GateTree b'))" by simp_all
  show "besides_routes other b' = besides_routes other b" by (rule bs(3))
qed

end

text \<open>The invariant of the state after the builders, apart from the files.\<close>

definition built :: "(k8s_object \<Rightarrow> gvk) \<Rightarrow> controller_store \<Rightarrow> bool" where
  "built extractGVK b \<longleftrightarrow> (let c = cst_ClusterStore b in
     store_inv c \<and> trees_mirror b \<and> gw_inv b \<and> ports_exclusive (Gateways (cst_GateTree b))
     \<and> counts_ok (map_of (objects (cs_GatewayAPICRDs c))) (iv_Versions (cst_InstalledGwAPIVersions b))
     \<and> references_ok extractGVK b)"

text \<open>The three builders after the certificates: they need the secrets, the classes and the gateways of this
  cycle and the other trees of the last one.\<close>

lemma late_builders:
  fixes extractGVK :: "k8s_object \<Rightarrow> gvk"
  assumes c: "cst_ClusterStore b = c" and inv: "store_inv c"
    and cyc: "kind_cycle cs_Services c0 c" "kind_cycle cs_HTTPRoutes c0 c" "kind_cycle cs_TLSRoutes c0 c"
    and secrets: "secret_nodes_ok (Secrets (cst_GateTree b))" "live_secrets b = map_of (objects (cs_Secrets c))"
    and classes: "gwc_inv b" "live_gateway_classes b = map_of (objects (cs_GatewayClasses c))"
    and gws: "gw_inv b" "ports_exclusive (Gateways (cst_GateTree b))"
    and services: "wf_map (Services (cst_GateTree b))" "live_services b = map_of (objects (cs_Services c0))"
    and http: "route_inv HTTPRoute_kind b" "live_routes HTTPRoute_kind b = map_of (objects (cs_HTTPRoutes c0))"
    and tls: "route_inv TLSRoute_kind b" "live_routes TLSRoute_kind b = map_of (objects (cs_TLSRoutes c0))"
    and refs: "references_ok extractGVK b"
    and counts: "counts_ok (map_of (objects (cs_GatewayAPICRDs c))) (iv_Versions (cst_InstalledGwAPIVersions b))"
  defines "b' \<equiv> TLSRoute_computeGateTreeUpdates extractGVK (HTTPRoute_computeGateTreeUpdates extractGVK (Service_computeGateTreeUpdates b))"
  shows "built extractGVK b'" "cst_ClusterStore b' = c"
proof -
  define b1 where "b1 = Service_computeGateTreeUpdates b"
  define b2 where "b2 = Route_computeGateTreeUpdates extractGVK HTTPRoute_kind b1"
  have b': "b' = Route_computeGateTreeUpdates extractGVK TLSRoute_kind b2"
    by (simp add: b'_def b2_def b1_def TLSRoute_computeGateTreeUpdates_def HTTPRoute_computeGateTreeUpdates_def)
  note kh = cyc(2,3)[unfolded kind_cycle_def]
  have wf: "wf_map (updates (cs_HTTPRoutes c))" "wf_map (updates (cs_TLSRoutes c))" using store_kinds_wf[OF inv] by (simp_all add: os_wf_def)
  have sv: "wf_map (Services (cst_GateTree b1))" "live_services b1 = map_of (objects (cs_Services c))"
    using services_step[OF services _ inv cyc(1)] by (simp_all add: b1_def c)
  note f = service_frame[of b, folded b1_def, unfolded besides_services_def, simplified]
  have rt: "route_trees b1 = route_trees b" using f by simp
  have gws1: "gw_inv b1" "ports_exclusive (Gateways (cst_GateTree b1))" using gws f by (simp_all add: gw_inv_def)
  have hp: "route_inv HTTPRoute_kind b1" "live_routes HTTPRoute_kind b1 = map_of (objects (cs_HTTPRoutes c0))"
      "rk_updates HTTPRoute_kind (cst_ClusterStore b1) = updates (cs_HTTPRoutes c)"
    using http f by (simp_all add: route_trees_cong[OF rt] kind_trees c)
  note h = http_routes.route_step[OF hp wf(1) kh(1) object_keys(5)[OF inv] gws1, where extractGVK = extractGVK, folded b2_def]
  note fh = h(5)[unfolded besides_routes_def, simplified]
  have tb: "route_inv TLSRoute_kind b2" "live_routes TLSRoute_kind b2 = map_of (objects (cs_TLSRoutes c0))"
    using tls route_tree_cong[of TLSRoute_kind b2 b1] fh by (simp_all add: kind_trees route_trees_cong[OF rt])
  have tu: "rk_updates TLSRoute_kind (cst_ClusterStore b2) = updates (cs_TLSRoutes c)" using f fh by (simp add: kind_trees c)
  note t = tls_routes.route_step[OF tb tu wf(2) kh(2) object_keys(6)[OF inv] h(3,4), where extractGVK = extractGVK, folded b']
  note ft = t(5)[unfolded besides_routes_def, simplified]
  have hb: "route_inv HTTPRoute_kind b'" "live_routes HTTPRoute_kind b' = map_of (objects (cs_HTTPRoutes c))"
    using h(1,2) route_tree_cong[of HTTPRoute_kind b' b2] ft by (simp_all add: kind_trees)
  show c': "cst_ClusterStore b' = c" using f fh ft c by simp
  have "trees_mirror b'" unfolding trees_mirror_def Let_def c'
    using secrets classes sv hb t(1,2) f fh ft
    by (simp add: live_secrets_def live_services_def live_gateway_classes_def gwc_inv_def)
  then show "built extractGVK b'" unfolding built_def Let_def c'
    using inv t(3,4) counts refs f fh ft c by (simp add: references_ok_def c')
qed

text \<open>The first builders: secrets, classes and gateways, up to the retirement of pointers.\<close>

lemma early_builders:
  fixes ft :: field_text and merge :: "hug_gate \<Rightarrow> hug_gate \<Rightarrow> hug_gate" and gb :: gateway_builder
  assumes start: "trees_start c0 b" and c: "cst_ClusterStore b = c" and inv: "store_inv c" and cyc: "kinds_cycle c0 c"
  defines "b' \<equiv> retire_listeners (snd (Gateway_ComputeTreeUpdates ft merge (gb, GatewayClass_ComputeTreeUpdates ft (Secret_computeGateTreeUpdates b))))"
  obtains us where "wf_map us" "cst_ClusterStore b' = c\<lparr>cs_GatewayClasses := (cs_GatewayClasses c)\<lparr>updates := us\<rparr>\<rparr>"
    "\<And>k. cycle_node (map_of (objects (cs_Secrets c0)) k) (map_of (objects (cs_Secrets c)) k) (map_of (Secrets (cst_GateTree b')) k)"
    "secret_nodes_ok (Secrets (cst_GateTree b'))" "live_secrets b' = map_of (objects (cs_Secrets c))"
    "gwc_inv b'" "live_gateway_classes b' = map_of (objects (cs_GatewayClasses c))"
    "gw_inv b'" "ports_exclusive (Gateways (cst_GateTree b'))"
    "wf_map (Services (cst_GateTree b'))" "live_services b' = map_of (objects (cs_Services c0))"
    "route_inv HTTPRoute_kind b'" "live_routes HTTPRoute_kind b' = map_of (objects (cs_HTTPRoutes c0))"
    "route_inv TLSRoute_kind b'" "live_routes TLSRoute_kind b' = map_of (objects (cs_TLSRoutes c0))"
    "cst_ReferencedObjects b' = cst_ReferencedObjects b" "cst_InstalledGwAPIVersions b' = cst_InstalledGwAPIVersions b"
    "cst_CertUpdates b' = cst_CertUpdates b" "cst_CrtListUpdates b' = cst_CrtListUpdates b"
proof -
  define b1 where "b1 = Secret_computeGateTreeUpdates b"
  define b2 where "b2 = GatewayClass_ComputeTreeUpdates ft b1"
  define b3 where "b3 = snd (Gateway_ComputeTreeUpdates ft merge (gb, b2))"
  have b': "b' = retire_listeners b3" by (simp add: b'_def b3_def b2_def b1_def)
  note k = cyc[unfolded kinds_cycle_def]
  have ks: "kind_cycle cs_Secrets c0 c" "kind_cycle cs_GatewayClasses c0 c" "kind_cycle cs_Gateways c0 c" using k by simp_all
  note f1 = secret_frame[of b, folded b1_def, unfolded besides_secrets_def, simplified]
  note s = secrets_step[OF start c inv ks(1), folded b1_def]
  note st = start[unfolded trees_start_def]
  have g1: "gwc_inv b1" "live_gateway_classes b1 = map_of (objects (cs_GatewayClasses c0))" "cst_ClusterStore b1 = c" "gw_inv b1"
    using st f1 c by (simp_all add: gwc_inv_def live_gateway_classes_def gw_inv_def)
  note g = classes_step[OF g1(1-3) inv ks(2), where ft = ft, folded b2_def]
  obtain us where us: "wf_map us" "cst_ClusterStore b2 = c\<lparr>cs_GatewayClasses := (cs_GatewayClasses c)\<lparr>updates := us\<rparr>\<rparr>" using g(4) by blast
  note f2 = g(3)[unfolded besides_classes_def, simplified]
  have g2: "gw_inv b2" "cs_Gateways (cst_ClusterStore b2) = cs_Gateways c" using g1(4) f2 us(2) by (simp_all add: gw_inv_def)
  note w = gateways_step[OF g2 inv ks(3), where ft = ft and merge = merge and gb = gb, folded b3_def]
  note f3 = gateway_frame[of ft merge gb b2, folded b3_def, unfolded besides_gateways_def, simplified]
  note f4 = retire_frame[of b3, folded b', unfolded besides_route_trees_def, simplified]
  have rt: "route_trees b3 = route_trees b" using f1 f2 f3 by simp
  note r = retire_routes[of b3, folded b', unfolded route_trees_cong[OF rt]]
  show ?thesis
  proof (rule that[of us])
    show "wf_map us" by (rule us(1))
    show "cst_ClusterStore b' = c\<lparr>cs_GatewayClasses := (cs_GatewayClasses c)\<lparr>updates := us\<rparr>\<rparr>" using us(2) f3 f4 by simp
    have se: "Secrets (cst_GateTree b') = Secrets (cst_GateTree b1)" using f2 f3 f4 by simp
    show "cycle_node (map_of (objects (cs_Secrets c0)) k) (map_of (objects (cs_Secrets c)) k) (map_of (Secrets (cst_GateTree b')) k)" for k
      unfolding se by (rule s(1))
    show "secret_nodes_ok (Secrets (cst_GateTree b'))" unfolding se by (rule s(2))
    show "live_secrets b' = map_of (objects (cs_Secrets c))" using s(3) by (simp add: live_secrets_def se)
    show "gwc_inv b'" using g(1) f3 f4 by (simp add: gwc_inv_def)
    show "live_gateway_classes b' = map_of (objects (cs_GatewayClasses c))" using g(2) f3 f4 by (simp add: live_gateway_classes_def)
    show "gw_inv b'" using w(1) f4 by (simp add: gw_inv_def)
    show "ports_exclusive (Gateways (cst_GateTree b'))" using w(2) f4 by simp
    have sv: "Services (cst_GateTree b') = Services (cst_GateTree b)" using f1 f2 f3 f4 by simp
    show "wf_map (Services (cst_GateTree b'))" "live_services b' = map_of (objects (cs_Services c0))" using st by (simp_all add: live_services_def sv)
    show "route_inv HTTPRoute_kind b'" "live_routes HTTPRoute_kind b' = map_of (objects (cs_HTTPRoutes c0))"
      "route_inv TLSRoute_kind b'" "live_routes TLSRoute_kind b' = map_of (objects (cs_TLSRoutes c0))" using r st by simp_all
    show "cst_ReferencedObjects b' = cst_ReferencedObjects b" "cst_InstalledGwAPIVersions b' = cst_InstalledGwAPIVersions b"
      "cst_CertUpdates b' = cst_CertUpdates b" "cst_CrtListUpdates b' = cst_CrtListUpdates b" using f1 f2 f3 f4 by simp_all
  qed
qed

lemma run_builders_ok:
  fixes env :: "('c, 'v) gate_env"
  assumes start: "cycle_start (ge_extractGVK env) c0 b" and c: "cst_ClusterStore b = c" and inv: "store_inv c" and cyc: "kinds_cycle c0 c"
    and good: "good_store c0" "good_store c" and disk: "ge_storeCertificateOnDisk env" "ge_io env = io_ok"
    and files: "cert_files_ok (ge_certStorage env) (declared_refs c0) (map_of (objects (cs_Secrets c0))) d"
  obtains gb b' d' where "run_builders env gb0 b d = Some (gb, b', d')" "built (ge_extractGVK env) b'" "good_store (cst_ClusterStore b')"
    "view_objects (cst_ClusterStore b') = view_objects c"
    "cert_files_ok (ge_certStorage env) (declared_refs (cst_ClusterStore b')) (map_of (objects (cs_Secrets (cst_ClusterStore b')))) d'"
proof -
  note st = start[unfolded cycle_start_def]
  define gx where "gx = Gateway_ComputeTreeUpdates (ge_text env) (ge_merge env) (gb0, GatewayClass_ComputeTreeUpdates (ge_text env) (Secret_computeGateTreeUpdates b))"
  define b4 where "b4 = retire_listeners (snd gx)"
  have ts: "trees_start c0 b" using st by simp
  obtain us where us: "wf_map us" "cst_ClusterStore b4 = c\<lparr>cs_GatewayClasses := (cs_GatewayClasses c)\<lparr>updates := us\<rparr>\<rparr>"
    and se: "\<And>k. cycle_node (map_of (objects (cs_Secrets c0)) k) (map_of (objects (cs_Secrets c)) k) (map_of (Secrets (cst_GateTree b4)) k)"
    and e: "secret_nodes_ok (Secrets (cst_GateTree b4))" "live_secrets b4 = map_of (objects (cs_Secrets c))"
    "gwc_inv b4" "live_gateway_classes b4 = map_of (objects (cs_GatewayClasses c))"
    "gw_inv b4" "ports_exclusive (Gateways (cst_GateTree b4))"
    "wf_map (Services (cst_GateTree b4))" "live_services b4 = map_of (objects (cs_Services c0))"
    "route_inv HTTPRoute_kind b4" "live_routes HTTPRoute_kind b4 = map_of (objects (cs_HTTPRoutes c0))"
    "route_inv TLSRoute_kind b4" "live_routes TLSRoute_kind b4 = map_of (objects (cs_TLSRoutes c0))"
    and u: "cst_ReferencedObjects b4 = cst_ReferencedObjects b" "cst_InstalledGwAPIVersions b4 = cst_InstalledGwAPIVersions b"
    "cst_CertUpdates b4 = cst_CertUpdates b" "cst_CrtListUpdates b4 = cst_CrtListUpdates b"
    by (rule early_builders[OF ts c inv cyc, of "ge_text env" "ge_merge env" gb0, folded gx_def, folded b4_def]; rule that; assumption?)
  define c' where "c' = cst_ClusterStore b4"
  note m = more_class_updates[OF us(2)[folded c'_def] us(1)]
  have sec: "cycle_secrets (map_of (objects (cs_Secrets c0))) (map_of (objects (cs_Secrets c))) b4"
    unfolding cycle_secrets_def using se good(2) object_keys(1)[OF inv] cyc
    by (auto simp: c'_def[symmetric] m good_store_def kinds_cycle_def kind_cycle_def)
  have ro: "references_ok (ge_extractGVK env) b" "ref_inv (PreviousReferencedSecrets (cst_ReferencedObjects b))"
    "gateway_refs (ge_extractGVK env) (PreviousReferencedSecrets (cst_ReferencedObjects b)) = declared_refs c0" using st by simp_all
  then have R1: "gateway_refs (ge_extractGVK env) (ReferencedSecrets (cst_ReferencedObjects b)) = declared_refs c"
    and ri: "ref_inv (ReferencedSecrets (cst_ReferencedObjects b))" using gateway_refs_image by (auto simp: references_ok_def c)
  have gk: "good_key k \<and> good_owner w" if "(k, w) \<in> declared_refs c0 \<union> declared_refs c" for k w
    using that good by (auto simp: good_store_def)
  have "\<exists>b5 d'. Certificate_ComputeTreeUpdates (ge_extractGVK env) (ge_certStorage env) True io_ok b4 d = Some (b5, d') \<and> same_world b4 b5
    \<and> cst_ReferencedObjects b5 = cst_ReferencedObjects b \<and> cert_files_ok (ge_certStorage env) (declared_refs c) (map_of (objects (cs_Secrets c))) d'"
    using certificate_files_step[OF sec u(1)[symmetric] ri ro(2), of "ge_extractGVK env" "ge_certStorage env" d] gk files st
    by (simp add: R1 ro(3) u)
  then obtain b5 d' where b5: "Certificate_ComputeTreeUpdates (ge_extractGVK env) (ge_certStorage env) True io_ok b4 d = Some (b5, d')"
    "same_world b4 b5" "cst_ReferencedObjects b5 = cst_ReferencedObjects b"
    "cert_files_ok (ge_certStorage env) (declared_refs c) (map_of (objects (cs_Secrets c))) d'" by blast
  note w = b5(2)[unfolded same_world_def]
  define b8 where "b8 = TLSRoute_computeGateTreeUpdates (ge_extractGVK env) (HTTPRoute_computeGateTreeUpdates (ge_extractGVK env) (Service_computeGateTreeUpdates b5))"
  have run: "run_builders env gb0 b d = Some (fst gx, b8, d')"
    using b5(1) disk unfolding b4_def by (cases gx) (simp add: run_builders_def Let_def gx_def[symmetric] b8_def)
  have "cst_ClusterStore b5 = c'" "store_inv c'" "kind_cycle cs_Services c0 c'" "kind_cycle cs_HTTPRoutes c0 c'" "kind_cycle cs_TLSRoutes c0 c'"
    using w m(1) inv cyc by (simp_all add: c'_def[symmetric] kinds_cycle_def kind_cycle_def m)
  moreover have "secret_nodes_ok (Secrets (cst_GateTree b5))" "live_secrets b5 = map_of (objects (cs_Secrets c'))"
    "gwc_inv b5" "live_gateway_classes b5 = map_of (objects (cs_GatewayClasses c'))" "gw_inv b5" "ports_exclusive (Gateways (cst_GateTree b5))"
    "wf_map (Services (cst_GateTree b5))" "live_services b5 = map_of (objects (cs_Services c0))"
    using e w by (simp_all add: m live_secrets_def gwc_inv_def live_gateway_classes_def gw_inv_def live_services_def)
  moreover have "route_inv HTTPRoute_kind b5" "live_routes HTTPRoute_kind b5 = map_of (objects (cs_HTTPRoutes c0))"
    "route_inv TLSRoute_kind b5" "live_routes TLSRoute_kind b5 = map_of (objects (cs_TLSRoutes c0))"
    using e route_trees_cong[of b5 b4] w by (simp_all add: route_trees_def)
  moreover have "references_ok (ge_extractGVK env) b5"
    using ro(1) w by (simp add: references_ok_def b5(3) c c'_def[symmetric] m(2))
  moreover have "counts_ok (map_of (objects (cs_GatewayAPICRDs c'))) (iv_Versions (cst_InstalledGwAPIVersions b5))"
    using st w by (simp add: m c u(2))
  ultimately have "built (ge_extractGVK env) b8" "cst_ClusterStore b8 = c'" unfolding b8_def by (rule late_builders)+
  then show ?thesis using that[OF run] b5(4) good(2) by (simp add: m)
qed

subsection \<open>A cycle keeps the invariant\<close>

lemma handle_tree_ok:
  fixes env :: "('c, 'v) gate_env" and batch :: event_batch
  assumes inv: "gate_inv env s" and gvks: "distinct (map (\<lambda>p. ge_extractGVK env (fst p)) store_table)"
    and disk: "ge_storeCertificateOnDisk env" "ge_io env = io_ok"
  defines "c1 \<equiv> processBatch (ge_extractGVK env) batch (cst_ClusterStore (gs_store s))"
  assumes good: "good_store c1" and known: "crd_deletes_known c1"
  shows "\<exists>s'. handle_tree env batch s = Some s' \<and> gate_inv env s' \<and> view_objects (cst_ClusterStore (gs_store s')) = view_objects c1"
proof -
  let ?b = "gs_store s"
  let ?c0 = "cst_ClusterStore ?b"
  note i = inv[unfolded gate_inv_def Let_def]
  have i1: "trees_mirror ?b" "gw_inv ?b" "references_ok (ge_extractGVK env) ?b" "good_store ?c0"
      "counts_ok (map_of (objects (cs_GatewayAPICRDs ?c0))) (iv_Versions (cst_InstalledGwAPIVersions ?b))"
      "cert_files_ok (ge_certStorage env) (declared_refs ?c0) (map_of (objects (cs_Secrets ?c0))) (gs_disk s)" using i by simp_all
  have c1: "store_inv c1" "kinds_cycle ?c0 c1" using i store_inv_batch batch_kinds_cycle[OF gvks] by (simp_all add: c1_def)
  obtain b2 where b2: "buildInstalledVersionsUpdates env (UpdateRefences (ge_extractGVK env) (cleaned (?b\<lparr>cst_ClusterStore := c1\<rparr>))) = Some b2"
    "cst_ClusterStore b2 = c1" "cycle_start (ge_extractGVK env) ?c0 b2"
    by (rule start_ok[OF i1(1-3,5) c1 known])
  obtain gb b' d' where r: "run_builders env (gs_gatewayBuilder s) b2 (gs_disk s) = Some (gb, b', d')" "built (ge_extractGVK env) b'"
    "good_store (cst_ClusterStore b')" "view_objects (cst_ClusterStore b') = view_objects c1"
    "cert_files_ok (ge_certStorage env) (declared_refs (cst_ClusterStore b')) (map_of (objects (cs_Secrets (cst_ClusterStore b')))) d'"
    by (rule run_builders_ok[OF b2(3,2) c1 i1(4) good disk i1(6)])
  obtain s1 where s1: "handle_tree env batch s = Some s1" "gs_store s1 = b'" "gs_disk s1 = d'"
    using b2(1) r(1) by (auto simp: handle_tree_def buildGateTree_def startBuild_def buildControllerConfCRDUpdates_def Let_def c1_def[symmetric])
  have "gate_inv env s1" using r(2-5) by (simp add: gate_inv_def built_def Let_def s1)
  then show ?thesis using s1(1,2) r(4) by auto
qed

text \<open>The start of the controller.\<close>

lemma gate_inv_initial: "gate_inv env (NewEventHandlerImpl env log)"
proof -
  let ?b = "empty_controller_store (ge_extractGVK env) (ge_controllerName env)"
  have c: "cst_ClusterStore ?b = empty_cluster_store" by (simp add: empty_controller_store_def)
  note e = empty_cluster_store_def newObjectStoreImpl_def empty_controller_store_def NewGateTree_def
  have d: "declared_refs empty_cluster_store = {}" by (simp add: declared_refs_def e)
  have "good_store empty_cluster_store" unfolding good_store_def d by (simp add: e)
  moreover have "trees_mirror ?b" unfolding trees_mirror_def Let_def c
    by (simp add: e secret_nodes_ok_def live_secrets_def live_def live_services_def gwc_inv_def live_gateway_classes_def
        route_inv_def live_routes_def find_route_def kind_trees wf_map_def fun_eq_iff)
  moreover have "gw_inv ?b" "ports_exclusive (Gateways (cst_GateTree ?b))"
    by (simp_all add: e gw_inv_def gws_ok_def ports_exclusive_def wf_map_def)
  moreover have "counts_ok (map_of (objects (cs_GatewayAPICRDs empty_cluster_store))) (iv_Versions (cst_InstalledGwAPIVersions ?b))"
    by (simp add: e counts_ok_def version_keys_def)
  moreover have "references_ok (ge_extractGVK env) ?b" unfolding references_ok_def c d
    by (simp add: e NewReferencedObjects_def NewReferencedBy_def ref_inv_def ref_rel_def owner_rel_def)
  moreover have "cert_files_ok (ge_certStorage env) {} (map_of (objects (cs_Secrets empty_cluster_store))) []"
    by (simp add: cert_files_ok_def served_def)
  ultimately show ?thesis
    using store_inv_empty by (simp add: gate_inv_def Let_def NewEventHandlerImpl_def c d)
qed

subsection \<open>The controller as a state machine\<close>

text \<open>A state is reached by batches whose stores meet the conditions of the certificate files and whose CRD
  deletions are of known CRDs.\<close>

definition batch_ok :: "('c, 'v) gate_env \<Rightarrow> event_batch \<Rightarrow> gate_state \<Rightarrow> bool" where
  "batch_ok env batch s \<longleftrightarrow> (let c = processBatch (ge_extractGVK env) batch (cst_ClusterStore (gs_store s)) in good_store c \<and> crd_deletes_known c)"

inductive gate_reach :: "('c, 'v) gate_env \<Rightarrow> log_settings \<Rightarrow> gate_state \<Rightarrow> bool" for env log where
  reach_start: "gate_reach env log (NewEventHandlerImpl env log)"
| reach_batch: "gate_reach env log s \<Longrightarrow> batch_ok env batch s \<Longrightarrow> handle_tree env batch s = Some s' \<Longrightarrow> gate_reach env log s'"

definition env_ok :: "('c, 'v) gate_env \<Rightarrow> bool" where
  "env_ok env \<longleftrightarrow> distinct (map (\<lambda>p. ge_extractGVK env (fst p)) store_table) \<and> ge_storeCertificateOnDisk env \<and> ge_io env = io_ok"

lemma reach_inv: "gate_reach env log s \<Longrightarrow> env_ok env \<Longrightarrow> gate_inv env s"
proof (induction rule: gate_reach.induct)
  case reach_start
  show ?case by (rule gate_inv_initial)
next
  case (reach_batch s batch s')
  then have "\<exists>s'. handle_tree env batch s = Some s' \<and> gate_inv env s'"
    using handle_tree_ok[of env s batch] by (simp add: env_ok_def batch_ok_def Let_def)
  then show ?case using reach_batch.hyps(3) by simp
qed


text \<open>A gateway with a TLS listener and its secret, in the first batch.\<close>

definition ex_secret :: secret_k8s where
  "ex_secret = \<lparr>sck_meta = meta0\<lparr>om_name := ''cert''\<rparr>, sck_data = [(''tls.key'', ''K''), (''tls.crt'', ''C'')]\<rparr>"

definition ex_tls_gateway :: gateway_k8s where
  "ex_tls_gateway = demo_gateway ''g'' [(demo_listener ''l'' 443)\<lparr>ls_protocol := ''HTTPS'',
     ls_tls := Some [SecretObjectReference None None None ''cert'']\<rparr>]"

definition ex_batch :: event_batch where
  "ex_batch = \<lparr>eb_Events = [UpsertEvent (OGateway ex_tls_gateway), UpsertEvent (OSecret ex_secret)], eb_BatchID = 1\<rparr>"

definition ex_env :: "(unit, unit) gate_env" where
  "ex_env = \<lparr>ge_text = plain_text, ge_merge = (\<lambda>a b. b), ge_extractGVK = scheme_gvk, ge_newConstraint = (\<lambda>_. Some ()), ge_newVersion = (\<lambda>_. Some ()),
     ge_check = (\<lambda>_ _. True), ge_certStorage = \<lparr>CertsBaseDir = ''certs'', CertFilesBaseDir = ''lists''\<rparr>, ge_storeCertificateOnDisk = True, ge_io = io_ok,
     ge_controllerConfNsName = NamespacedName [] ''conf'', ge_controllerName = ''hug''\<rparr>"

lemma ex_batch_store:
  "let c = processBatch scheme_gvk ex_batch empty_cluster_store in
     objects (cs_Gateways c) = [(NamespacedName [] ''g'', ex_tls_gateway)] \<and> objects (cs_Secrets c) = [(NamespacedName [] ''cert'', ex_secret)]
     \<and> updates (cs_GatewayAPICRDs c) = []"
  by code_simp

lemma ex_batch_ok: "batch_ok ex_env ex_batch (NewEventHandlerImpl ex_env log)"
proof -
  define c where "c = processBatch scheme_gvk ex_batch empty_cluster_store"
  have o: "objects (cs_Gateways c) = [(NamespacedName [] ''g'', ex_tls_gateway)]" "objects (cs_Secrets c) = [(NamespacedName [] ''cert'', ex_secret)]"
    "updates (cs_GatewayAPICRDs c) = []" using ex_batch_store unfolding Let_def c_def by simp_all
  have r: "declared_refs c = {(NamespacedName [] ''cert'', NamespacedName [] ''g_l'')}"
    by (auto simp: declared_refs_def o ex_tls_gateway_def demo_gateway_def demo_listener_def gw_named_def IsSecretGroupKindSupported_def
        GetCertificateRefNamespacedName_def ListenerKey_def ListenerKeyFromListenerName_def meta0_def meta_key_def split: if_splits)
  have "good_store c" unfolding good_store_def r by (auto simp: o ex_secret_def good_secret_def good_key_def good_owner_def mhas_iff mkeys_def split: if_splits)
  moreover have "crd_deletes_known c" by (simp add: crd_deletes_known_def o)
  ultimately show ?thesis
    by (simp add: batch_ok_def ex_env_def NewEventHandlerImpl_def empty_controller_store_def c_def[symmetric])
qed

lemma declared_refsI:
  "map_of (objects (cs_Gateways cs)) key = Some gw \<Longrightarrow> l \<in> set (gwk_listeners gw) \<Longrightarrow> ls_tls l = Some rs \<Longrightarrow> r \<in> set rs
     \<Longrightarrow> IsSecretGroupKindSupported r \<Longrightarrow> GetCertificateRefNamespacedName r gw \<in> Domain (declared_refs cs)"
  unfolding declared_refs_def by blast


end
