(* ===== verification/Decimal.thy ===== *)
theory Decimal
  imports Prelude
begin

text \<open>
  Decimal numbers as the program prints them (\<open>strconv.Itoa\<close>, the verb \<open>%d\<close>).
\<close>

definition digit :: "nat \<Rightarrow> char" where
  "digit n = char_of (48 + n)"

fun nat_digits :: "nat \<Rightarrow> string" where
  "nat_digits n = (if n < 10 then [digit n] else nat_digits (n div 10) @ [digit (n mod 10)])"

declare nat_digits.simps [simp del]

definition itoa :: "int \<Rightarrow> string" where
  "itoa i = (if i < 0 then ''-'' @ nat_digits (nat (- i)) else nat_digits (nat i))"

text \<open>Reading the digits back.\<close>

definition digits_value :: "string \<Rightarrow> nat" where
  "digits_value = foldl (\<lambda>v c. 10 * v + (of_char c - 48)) 0"

lemma of_digit: "n < 10 \<Longrightarrow> of_char (digit n) = 48 + n"
  by (simp add: digit_def)

lemma digits_value_nat: "digits_value (nat_digits n) = n"
proof (induction n rule: nat_digits.induct)
  case (1 n)
  show ?case
  proof (cases "n < 10")
    case True
    then show ?thesis by (simp add: nat_digits.simps[of n] digits_value_def of_digit)
  next
    case False
    then show ?thesis using 1 by (simp add: nat_digits.simps[of n] digits_value_def of_digit mod_less_divisor)
  qed
qed

lemma nat_digits_inj: "nat_digits m = nat_digits n \<longleftrightarrow> m = n"
  using digits_value_nat by metis

lemma nat_digits_chars: "c \<in> set (nat_digits n) \<Longrightarrow> \<exists>d < 10. c = digit d"
proof (induction n rule: nat_digits.induct)
  case (1 n)
  show ?case
  proof (cases "n < 10")
    case True
    then show ?thesis using 1(2) by (auto simp: nat_digits.simps[of n])
  next
    case False
    then consider "c \<in> set (nat_digits (n div 10))" | "c = digit (n mod 10)" using 1(2) by (auto simp: nat_digits.simps[of n])
    then show ?thesis using 1(1)[OF False] by cases (auto intro!: exI[of _ "n mod 10"])
  qed
qed

lemma digit_inj: "d < 10 \<Longrightarrow> e < 10 \<Longrightarrow> digit d = digit e \<longleftrightarrow> d = e"
  using of_digit[of d] of_digit[of e] by (metis add_left_cancel)

lemma nat_digits_ne: "nat_digits n \<noteq> []"
  by (simp add: nat_digits.simps[of n])

lemma digit_plain: "d < 10 \<Longrightarrow> digit d \<notin> {CHR '' '', CHR 0x0A, CHR ''-'', CHR '':'', CHR '','', CHR ''_'', CHR ''/''}"
proof
  assume d: "d < 10" and "digit d \<in> {CHR '' '', CHR 0x0A, CHR ''-'', CHR '':'', CHR '','', CHR ''_'', CHR ''/''}"
  then have "of_char (digit d) \<in> (of_char :: char \<Rightarrow> nat) ` {CHR '' '', CHR 0x0A, CHR ''-'', CHR '':'', CHR '','', CHR ''_'', CHR ''/''}" by (rule_tac imageI)
  then show False using d by (simp add: of_digit)
qed

lemma itoa_inj: "itoa i = itoa j \<longleftrightarrow> i = j"
proof -
  have "hd (nat_digits n) \<noteq> CHR ''-''" for n
    using nat_digits_chars[OF hd_in_set[OF nat_digits_ne], of n] digit_plain by (metis insertCI)
  then have "''-'' @ nat_digits m \<noteq> nat_digits n" for m n by (metis append_Cons list.sel(1))
  then show ?thesis by (auto simp: itoa_def nat_digits_inj dest: sym)
qed

end
