(* ===== verification/RuntimeCommands.thy ===== *)
theory RuntimeCommands
  imports Decimal Utils
begin

text \<open>
  \<open>k8s/gate/haproxy/runtime.go\<close>: the commands that put removed servers into maintenance through
  the runtime socket of HAProxy, collected into buffers that are shorter than \<open>BufferSize\<close>.

  The runtime client is not part of the program.  Here it is the argument \<open>execute\<close>: what it answers to a
  command after the commands already sent, an error or a result.  A function that sends returns its
  error together with all commands sent so far.
\<close>

type_synonym runtime_client = "string list \<Rightarrow> string \<Rightarrow> string + string"

definition BufferSize :: nat where "BufferSize = 16000"

record runtime_server_state =
  rss_BackendName :: string
  rss_ServerName :: string
  rss_IP :: string
  rss_State :: string
  rss_Port :: int

text \<open>The command of one server.\<close>

definition server_command :: "runtime_server_state \<Rightarrow> string" where
  "server_command s = ''set server '' @ rss_BackendName s @ ''/'' @ rss_ServerName s @ '' addr '' @ rss_IP s
     @ (if rss_Port s > 0 then '' port '' @ itoa (rss_Port s) else '''')
     @ '';set server '' @ rss_BackendName s @ ''/'' @ rss_ServerName s @ '' state '' @ rss_State s @ '';''"

definition runRaw :: "runtime_client \<Rightarrow> string \<Rightarrow> string \<Rightarrow> string list \<Rightarrow> go_error \<times> string list" where
  "runRaw execute sb backendName sent =
     (case execute sent sb of
        Inl err \<Rightarrow> (Some err, sent @ [sb])
      | Inr result \<Rightarrow>
          (if length result > 5 \<and> take 4 result \<in> {''[3]:'', ''[2]:'', ''[1]:'', ''[0]:''}
           then (Some (''runtime update failed for '' @ backendName), sent @ [sb])
           else (None, sent @ [sb])))"

text \<open>The loop, with the buffer \<open>sb\<close> filled so far; then the rest of the buffer.\<close>

fun send_servers :: "runtime_client \<Rightarrow> runtime_server_state list \<Rightarrow> string \<Rightarrow> string list \<Rightarrow> go_error \<times> string \<times> string list" where
  "send_servers execute [] sb sent = (None, sb, sent)"
| "send_servers execute (server # servers) sb sent =
     (let cmd = server_command server in
      if length sb + length cmd \<ge> BufferSize
      then (case runRaw execute sb (rss_BackendName server) sent of
              (Some err, sent) \<Rightarrow> (Some err, sb, sent)
            | (None, sent) \<Rightarrow> send_servers execute servers cmd sent)
      else send_servers execute servers (sb @ cmd) sent)"

definition RuntimeSetServerAddrAndState :: "runtime_client \<Rightarrow> runtime_server_state list \<Rightarrow> go_error \<times> string list" where
  "RuntimeSetServerAddrAndState execute servers =
     (case servers of
        [] \<Rightarrow> (None, [])
      | s0 # _ \<Rightarrow>
          (case send_servers execute servers [] [] of
             (Some err, _, sent) \<Rightarrow> (Some err, sent)
           | (None, sb, sent) \<Rightarrow> if length sb > 0 then runRaw execute sb (rss_BackendName s0) sent else (None, sent)))"

definition RuntimeDeleteServer :: "(string \<Rightarrow> string \<Rightarrow> go_error) \<Rightarrow> string \<Rightarrow> string \<Rightarrow> go_error" where
  "RuntimeDeleteServer deleteServer backendName serverName = deleteServer backendName serverName"

subsection \<open>Nothing is lost and no buffer is too long\<close>

lemma runRaw_sent: "runRaw execute sb be sent = (e, sent') \<Longrightarrow> sent' = sent @ [sb]"
  by (auto simp: runRaw_def split: sum.splits if_splits)

text \<open>What a loop keeps: everything it was given is in the buffers sent or in the buffer it has, in order.\<close>

lemma send_servers_ok:
  assumes "\<And>s. s \<in> set servers \<Longrightarrow> length (server_command s) < BufferSize" "length sb < BufferSize"
    "\<And>x. x \<in> set sent \<Longrightarrow> length x < BufferSize" "send_servers execute servers sb sent = (e, sb', sent')"
  shows "(\<forall>x \<in> set sent'. length x < BufferSize) \<and> length sb' < BufferSize
    \<and> (e = None \<longrightarrow> concat sent' @ sb' = concat sent @ sb @ concat (map server_command servers))
    \<and> (\<exists>rest. concat sent @ sb @ concat (map server_command servers) = concat sent' @ rest)"
  using assms
proof (induction servers arbitrary: sb sent)
  case (Cons s servers)
  let ?cmd = "server_command s"
  have cmd: "length ?cmd < BufferSize" using Cons.prems(1) by simp
  show ?case
  proof (cases "length sb + length ?cmd \<ge> BufferSize")
    case True
    obtain e1 sent1 where r: "runRaw execute sb (rss_BackendName s) sent = (e1, sent1)" by fastforce
    have sent1: "sent1 = sent @ [sb]" by (rule runRaw_sent[OF r])
    show ?thesis
    proof (cases e1)
      case None
      have "send_servers execute servers ?cmd sent1 = (e, sb', sent')" using Cons.prems(4) True r None by (simp add: Let_def)
      from Cons.IH[OF _ cmd _ this] show ?thesis using Cons.prems(1-3) sent1 by auto
    next
      case (Some err)
      then show ?thesis using Cons.prems True r sent1 by (auto simp: Let_def)
    qed
  next
    case False
    then have "send_servers execute servers (sb @ ?cmd) sent = (e, sb', sent')" using Cons.prems(4) by (simp add: Let_def)
    from Cons.IH[OF _ _ _ this] show ?thesis using Cons.prems(1,3) False by auto
  qed
qed auto


definition ex_server :: runtime_server_state where
  "ex_server = \<lparr>rss_BackendName = ''be'', rss_ServerName = ''s1'', rss_IP = ''127.0.0.1'', rss_State = ''maint'', rss_Port = 1\<rparr>"


end
