(* ===== verification/HaproxyConf.thy ===== *)
theory HaproxyConf
  imports Utils RuntimeCommands
begin

text \<open>
  \<open>k8s/gate/haproxy/configuration.go\<close>, \<open>structured/structured.go\<close>, \<open>diffs/diffs.go\<close> and the data
  of \<open>metadata/\<close>: the HAProxy configuration that the controller keeps, and the differences it hands over after a
  cycle.

  The sections are the models of the client library with the fields the program sets; \<open>be_BaseExtra\<close> stands for
  the base fields of a backend that only the merge with a \<open>Backend\<close> resource sets, \<open>be_OtherLists\<close> for its child lists other than
  ACLs and http-request rules.  \<open>DeepCopyFrontend\<close> and
  \<open>DeepCopyBackend\<close> go through JSON: such values come back unchanged, except that a map without entries
  becomes nil (\<open>omitempty\<close>).  The marshalling of these models does not fail.

  Backends are changed in place through pointers that the differences share, so they live in a store
  (\<open>cf_objs\<close>, a pointer is an index of it); frontends are never changed in place and are values.
\<close>

subsection \<open>Sections\<close>

record k8s_object_info =
  oi_LinkID :: string
  oi_Generation :: int

type_synonym section_info = "(string, (string, k8s_object_info) gomap) gomap"
type_synonym metadata = "(string, section_info) gomap"

record server =
  hs_Name :: string
  hs_Address :: string
  hs_Port :: int
  hs_Maintenance :: string

record acl =
  ac_ACLName :: string
  ac_Criterion :: string
  ac_Value :: string
  ac_Metadata :: "(string \<times> string) list"

record tcp_request_rule =
  tq_Type :: string
  tq_Action :: string
  tq_Cond :: string
  tq_CondTest :: string
  tq_VarName :: string
  tq_VarScope :: string
  tq_Expr :: string
  tq_Timeout :: "int option"

record http_request_rule =
  hq_Type :: string
  hq_VarName :: string
  hq_VarScope :: string
  hq_VarExpr :: string
  hq_LuaAction :: string
  hq_Cond :: string
  hq_CondTest :: string
  hq_Metadata :: "(string \<times> string) list"

record backend =
  be_Name :: string
  be_Metadata :: metadata
  be_Mode :: string
  be_From :: string
  be_Balance :: string
  be_Abortonclose :: string
  be_ServerTimeout :: int
  be_Forwardfor :: "string option"
  be_DefaultServerCheck :: string
  be_BaseExtra :: "string list"
  be_ACLList :: "acl list"
  be_HTTPRequestRuleList :: "http_request_rule list"
  be_OtherLists :: "string list"
  be_Servers :: "(string, server) gomap option"

record backend_switching_rule =
  bs_Name :: string
  bs_Cond :: string
  bs_CondTest :: string

record bind =
  bi_Name :: string
  bi_Address :: string
  bi_Port :: "int option"
  bi_CrtList :: string
  bi_Ssl :: bool

record frontend =
  fe_Name :: string
  fe_From :: string
  fe_Metadata :: metadata
  fe_DefaultBackend :: string
  fe_Mode :: string
  fe_ACLList :: "acl list"
  fe_TCPRequestRuleList :: "tcp_request_rule list"
  fe_HTTPRequestRuleList :: "http_request_rule list"
  fe_BackendSwitchingRuleList :: "backend_switching_rule list"
  fe_Binds :: "(string, bind) gomap option"

subsection \<open>Equality of sections\<close>

text \<open>Maps are equal when they have the same keys with equal values, in any order; \<open>cmp.Equal\<close> also tells a nil map
  from an empty one.\<close>

definition gomap_rel :: "('v \<Rightarrow> 'v \<Rightarrow> bool) \<Rightarrow> ('k, 'v) gomap \<Rightarrow> ('k, 'v) gomap \<Rightarrow> bool" where
  "gomap_rel eq a b = (length a = length b \<and> list_all (\<lambda>(k, v). case map_of b k of None \<Rightarrow> False | Some w \<Rightarrow> eq v w) a)"

definition metadata_equal :: "metadata \<Rightarrow> metadata \<Rightarrow> bool" where
  "metadata_equal = gomap_rel (gomap_rel (gomap_rel (=)))"

definition servers_equal :: "(string, server) gomap option \<Rightarrow> (string, server) gomap option \<Rightarrow> bool" where
  "servers_equal a b = (case (a, b) of (None, None) \<Rightarrow> True | (Some x, Some y) \<Rightarrow> gomap_rel (=) x y | _ \<Rightarrow> False)"

definition backend_equal_but_servers :: "backend \<Rightarrow> backend \<Rightarrow> bool" where
  "backend_equal_but_servers a b =
     (metadata_equal (be_Metadata a) (be_Metadata b)
      \<and> a\<lparr>be_Metadata := [], be_Servers := None\<rparr> = b\<lparr>be_Metadata := [], be_Servers := None\<rparr>)"

text \<open>\<open>Frontend.Equal\<close> of the models does not tell a nil map from an empty one.\<close>

definition map_or_empty :: "('k, 'v) gomap option \<Rightarrow> ('k, 'v) gomap" where
  "map_or_empty m = (case m of None \<Rightarrow> [] | Some x \<Rightarrow> x)"

definition frontend_Equal :: "frontend \<Rightarrow> frontend \<Rightarrow> bool" where
  "frontend_Equal a b =
     (metadata_equal (fe_Metadata a) (fe_Metadata b) \<and> gomap_rel (=) (map_or_empty (fe_Binds a)) (map_or_empty (fe_Binds b))
      \<and> a\<lparr>fe_Metadata := [], fe_Binds := None\<rparr> = b\<lparr>fe_Metadata := [], fe_Binds := None\<rparr>)"

definition omit_empty :: "('k, 'v) gomap option \<Rightarrow> ('k, 'v) gomap option" where
  "omit_empty m = (if m = Some [] then None else m)"

definition DeepCopyFrontend :: "frontend \<Rightarrow> frontend" where
  "DeepCopyFrontend f = f\<lparr>fe_Binds := omit_empty (fe_Binds f)\<rparr>"

definition DeepCopyBackend :: "backend \<Rightarrow> backend" where
  "DeepCopyBackend b = b\<lparr>be_Servers := omit_empty (be_Servers b)\<rparr>"

subsection \<open>The configuration\<close>

record haproxy_conf_diffs =
  df_CreatedFE :: "(string, frontend) gomap"
  df_CreatedBE :: "(string, nat) gomap"
  df_UpdatedFE :: "(string, frontend) gomap"
  df_UpdatedBE :: "(string, nat) gomap"
  df_DeletedFE :: "string goset"
  df_DeletedBE :: "string goset"
  df_ReloadNeed :: bool

definition no_diffs :: haproxy_conf_diffs where
  "no_diffs = \<lparr>df_CreatedFE = [], df_CreatedBE = [], df_UpdatedFE = [], df_UpdatedBE = [], df_DeletedFE = [], df_DeletedBE = [],
     df_ReloadNeed = False\<rparr>"

text \<open>The values of the deleted sections are all nil, so their map is a set of names.\<close>

definition diffs_IsEmpty :: "haproxy_conf_diffs \<Rightarrow> bool" where
  "diffs_IsEmpty d = (df_CreatedFE d = [] \<and> df_CreatedBE d = [] \<and> df_UpdatedFE d = [] \<and> df_UpdatedBE d = []
     \<and> df_DeletedFE d = [] \<and> df_DeletedBE d = [])"

record configuration =
  cf_Frontends :: "(string, frontend) gomap"
  cf_Backends :: "(string, nat) gomap"
  cf_diffs :: haproxy_conf_diffs
  cf_objs :: "backend list"

definition resetDiffs :: "configuration \<Rightarrow> configuration" where
  "resetDiffs c = c\<lparr>cf_diffs := no_diffs\<rparr>"

definition map_diffs :: "(haproxy_conf_diffs \<Rightarrow> haproxy_conf_diffs) \<Rightarrow> configuration \<Rightarrow> configuration" where
  "map_diffs f c = c\<lparr>cf_diffs := f (cf_diffs c)\<rparr>"

definition upsertFrontend :: "frontend option \<Rightarrow> configuration \<Rightarrow> go_error \<times> configuration" where
  "upsertFrontend fe c =
     (case fe of
        None \<Rightarrow> (Some ''nil frontend'', c)
      | Some fe \<Rightarrow>
          (case map_of (cf_Frontends c) (fe_Name fe) of
             Some previousFe \<Rightarrow>
               if frontend_Equal previousFe fe then (None, c)
               else (None, (map_diffs (df_UpdatedFE_update (mput (fe_Name fe) (DeepCopyFrontend fe))) c)\<lparr>cf_Frontends := mput (fe_Name fe) fe (cf_Frontends c)\<rparr>)
           | None \<Rightarrow>
               (None, (map_diffs (df_CreatedFE_update (mput (fe_Name fe) (DeepCopyFrontend fe))) c)
                        \<lparr>cf_Frontends := mput (fe_Name fe) (DeepCopyFrontend fe) (cf_Frontends c)\<rparr>)))"

definition conf_deleteFrontend :: "string \<Rightarrow> configuration \<Rightarrow> configuration" where
  "conf_deleteFrontend feName c =
     (case map_of (cf_Frontends c) feName of
        None \<Rightarrow> c
      | Some fe \<Rightarrow> (map_diffs (df_DeletedFE_update (sput (fe_Name fe))) c)\<lparr>cf_Frontends := mdel feName (cf_Frontends c)\<rparr>)"

text \<open>\<open>new_obj\<close> is the allocation of an object.\<close>

definition new_obj :: "backend \<Rightarrow> configuration \<Rightarrow> nat \<times> configuration" where
  "new_obj b c = (length (cf_objs c), c\<lparr>cf_objs := cf_objs c @ [b]\<rparr>)"

definition upsertBackend :: "backend option \<Rightarrow> configuration \<Rightarrow> go_error \<times> configuration" where
  "upsertBackend be c =
     (case be of
        None \<Rightarrow> (Some ''nil backend'', c)
      | Some be \<Rightarrow>
          (case map_of (cf_Backends c) (be_Name be) of
             Some previous \<Rightarrow>
               let previousBe = cf_objs c ! previous in
               if backend_equal_but_servers previousBe be then (None, c)
               else
                 let be' = be\<lparr>be_Servers := be_Servers previousBe\<rparr>;
                     (q, c1) = new_obj (DeepCopyBackend be') c;
                     (p, c2) = new_obj be' c1
                 in (None, (map_diffs (df_UpdatedBE_update (mput (be_Name be) q)) c2)\<lparr>cf_Backends := mput (be_Name be) p (cf_Backends c)\<rparr>)
           | None \<Rightarrow>
               let (q, c1) = new_obj (DeepCopyBackend be) c
               in (None, (map_diffs (df_CreatedBE_update (mput (be_Name be) q)) c1)\<lparr>cf_Backends := mput (be_Name be) q (cf_Backends c)\<rparr>)))"

definition maint_state :: "string \<Rightarrow> string \<Rightarrow> runtime_server_state" where
  "maint_state beName serverName =
     \<lparr>rss_BackendName = beName, rss_ServerName = serverName, rss_IP = ''127.0.0.1'', rss_State = ''maint'', rss_Port = 1\<rparr>"

definition upsertBackendWithServers :: "string \<Rightarrow> (string, server) gomap \<Rightarrow> configuration \<Rightarrow> (string + runtime_server_state list) \<times> configuration" where
  "upsertBackendWithServers beName servers c =
     (case map_of (cf_Backends c) beName of
        None \<Rightarrow> (Inl (''could not find backend '' @ beName), c)
      | Some p \<Rightarrow>
          let be = cf_objs c ! p;
              beBackup = DeepCopyBackend be;
              c1 = c\<lparr>cf_objs := (cf_objs c)[p := be\<lparr>be_Servers := Some servers\<rparr>]\<rparr>
          in if servers_equal (be_Servers beBackup) (Some servers) then (Inr [], c1)
             else (Inr (map (maint_state (be_Name be) \<circ> fst) (SetDifference (map_or_empty (be_Servers beBackup)) servers)),
                   (map_diffs (df_UpdatedBE_update (mput (be_Name be) p)) c1)\<lparr>cf_Backends := mput (be_Name be) p (cf_Backends c)\<rparr>))"

definition upsertBackendMetadata :: "string \<Rightarrow> metadata \<Rightarrow> configuration \<Rightarrow> configuration" where
  "upsertBackendMetadata beName md c =
     (case map_of (cf_Backends c) beName of
        None \<Rightarrow> c
      | Some p \<Rightarrow>
          let be = (cf_objs c ! p)\<lparr>be_Metadata := md\<rparr>;
              (q, c1) = new_obj (DeepCopyBackend be) (c\<lparr>cf_objs := (cf_objs c)[p := be]\<rparr>)
          in (map_diffs (df_UpdatedBE_update (mput beName q)) c1)\<lparr>cf_Backends := mput beName p (cf_Backends c)\<rparr>)"

definition conf_deleteBackend :: "string \<Rightarrow> configuration \<Rightarrow> configuration" where
  "conf_deleteBackend beName c =
     (case map_of (cf_Backends c) beName of
        None \<Rightarrow> c
      | Some p \<Rightarrow> (map_diffs (df_DeletedBE_update (sput (be_Name (cf_objs c ! p)))) c)\<lparr>cf_Backends := mdel beName (cf_Backends c)\<rparr>)"

subsection \<open>What happens to one section\<close>

text \<open>The view of a section name: whether it is among the deleted ones, its updated and its created value, and its
  current value.  The operations change the view of one name only.\<close>

type_synonym 'v view = "bool \<times> 'v option \<times> 'v option \<times> 'v option"

definition deref :: "configuration \<Rightarrow> (string, nat) gomap \<Rightarrow> string \<Rightarrow> backend option" where
  "deref c m n = map_option (\<lambda>p. cf_objs c ! p) (map_of m n)"

definition be_view :: "configuration \<Rightarrow> string \<Rightarrow> backend view" where
  "be_view c n = (mhas (df_DeletedBE (cf_diffs c)) n, deref c (df_UpdatedBE (cf_diffs c)) n, deref c (df_CreatedBE (cf_diffs c)) n,
     deref c (cf_Backends c) n)"

definition fe_view :: "configuration \<Rightarrow> string \<Rightarrow> frontend view" where
  "fe_view c n = (mhas (df_DeletedFE (cf_diffs c)) n, map_of (df_UpdatedFE (cf_diffs c)) n, map_of (df_CreatedFE (cf_diffs c)) n,
     map_of (cf_Frontends c) n)"

definition ptrs_ok :: "backend list \<Rightarrow> (string, nat) gomap \<Rightarrow> bool" where
  "ptrs_ok objs m = (\<forall>n p. map_of m n = Some p \<longrightarrow> p < length objs \<and> be_Name (objs ! p) = n)"

text \<open>The maps of the differences have distinct keys, and sections are kept under their names.\<close>

definition named_frontends :: "(string, frontend) gomap \<Rightarrow> bool" where
  "named_frontends m = (wf_map m \<and> (\<forall>n f. map_of m n = Some f \<longrightarrow> fe_Name f = n))"

definition diffs_ok :: "haproxy_conf_diffs \<Rightarrow> bool" where
  "diffs_ok d = (named_frontends (df_CreatedFE d) \<and> named_frontends (df_UpdatedFE d) \<and> wf_map (df_CreatedBE d) \<and> wf_map (df_UpdatedBE d)
     \<and> wf_map (df_DeletedFE d) \<and> wf_map (df_DeletedBE d))"

definition conf_inv :: "configuration \<Rightarrow> bool" where
  "conf_inv c = (diffs_ok (cf_diffs c) \<and> ptrs_ok (cf_objs c) (cf_Backends c) \<and> ptrs_ok (cf_objs c) (df_UpdatedBE (cf_diffs c)) \<and> ptrs_ok (cf_objs c) (df_CreatedBE (cf_diffs c))
     \<and> (\<forall>b \<in> set (cf_objs c). wf_map (map_or_empty (be_Servers b)))
     \<and> (\<forall>n f. map_of (cf_Frontends c) n = Some f \<longrightarrow> fe_Name f = n))"

lemma diffs_ok_ops [simp]:
  assumes "diffs_ok d"
  shows "fe_Name f = n \<Longrightarrow> diffs_ok (df_CreatedFE_update (mput n f) d)" "fe_Name f = n \<Longrightarrow> diffs_ok (df_UpdatedFE_update (mput n f) d)"
    "diffs_ok (df_CreatedBE_update (mput n p) d)" "diffs_ok (df_UpdatedBE_update (mput n p) d)" "diffs_ok (df_DeletedFE_update (sput n) d)"
    "diffs_ok (df_DeletedBE_update (sput n) d)" "diffs_ok (df_ReloadNeed_update g d)"
  using assms by (simp_all add: diffs_ok_def named_frontends_def wf_mput wf_sput map_of_mput)

lemma diffs_ok_none [simp]: "diffs_ok no_diffs"
  by (simp add: diffs_ok_def no_diffs_def named_frontends_def)

lemmas no_diffs_ok = diffs_ok_none[unfolded no_diffs_def]

declare no_diffs_ok [simp]

lemma no_diffs_maps [simp]:
  "df_CreatedFE no_diffs = []" "df_UpdatedFE no_diffs = []" "df_CreatedBE no_diffs = []" "df_UpdatedBE no_diffs = []"
  "df_DeletedFE no_diffs = []" "df_DeletedBE no_diffs = []"
  by (simp_all add: no_diffs_def)

lemma ptrs_ok_append: "ptrs_ok objs m \<Longrightarrow> ptrs_ok (objs @ bs) m"
  unfolding ptrs_ok_def by (metis length_append nth_append trans_less_add1)

lemma ptrs_ok_update: "ptrs_ok objs m \<Longrightarrow> be_Name b = be_Name (objs ! p) \<Longrightarrow> ptrs_ok (objs[p := b]) m"
  unfolding ptrs_ok_def by (metis length_list_update nth_list_update_eq nth_list_update_neq)

lemma ptrs_ok_mput: "ptrs_ok objs m \<Longrightarrow> p < length objs \<Longrightarrow> be_Name (objs ! p) = n \<Longrightarrow> ptrs_ok objs (mput n p m)"
  by (simp add: ptrs_ok_def map_of_mput)

lemma ptrs_ok_mdel: "ptrs_ok objs m \<Longrightarrow> ptrs_ok objs (mdel n m)"
  by (simp add: ptrs_ok_def map_of_mdel)

lemma deref_append: "ptrs_ok (cf_objs c) m \<Longrightarrow> map_option (\<lambda>p. (cf_objs c @ bs) ! p) (map_of m n) = deref c m n"
  by (cases "map_of m n") (auto simp: deref_def ptrs_ok_def nth_append)

text \<open>An object changed in place is seen through its name only.\<close>

lemma deref_update:
  assumes "ptrs_ok (cf_objs c) m" "p < length (cf_objs c)" "n \<noteq> be_Name (cf_objs c ! p)"
  shows "map_option (\<lambda>q. (cf_objs c)[p := b] ! q) (map_of m n) = deref c m n"
  using assms by (cases "map_of m n") (auto simp: deref_def ptrs_ok_def nth_list_update)

lemma omit_empty_wf: "wf_map (map_or_empty (omit_empty s)) \<longleftrightarrow> wf_map (map_or_empty s)"
  by (simp add: omit_empty_def map_or_empty_def)

lemmas conf_ops = upsertBackend_def conf_deleteBackend_def upsertBackendMetadata_def upsertBackendWithServers_def
  upsertFrontend_def conf_deleteFrontend_def map_diffs_def new_obj_def Let_def

subsubsection \<open>The invariant\<close>

lemma conf_inv_upsertBackend:
  assumes "conf_inv c" "wf_map (map_or_empty (be_Servers be))"
  shows "conf_inv (snd (upsertBackend (Some be) c))"
proof (cases "map_of (cf_Backends c) (be_Name be)")
  case None
  then show ?thesis using assms
    by (simp add: conf_ops conf_inv_def DeepCopyBackend_def omit_empty_wf nth_append ptrs_ok_mput ptrs_ok_append)
next
  case (Some p)
  then have "p < length (cf_objs c)" using assms(1) by (simp add: conf_inv_def ptrs_ok_def)
  then have "wf_map (map_or_empty (be_Servers (cf_objs c ! p)))" using assms(1) by (simp add: conf_inv_def)
  then show ?thesis using assms Some
    by (simp add: conf_ops conf_inv_def DeepCopyBackend_def omit_empty_wf nth_append ptrs_ok_mput ptrs_ok_append)
qed

lemma conf_inv_deleteBackend: "conf_inv c \<Longrightarrow> conf_inv (conf_deleteBackend n c)"
  by (auto simp: conf_ops conf_inv_def intro: ptrs_ok_mdel split: option.split)

lemma ptr_at:
  assumes "conf_inv c" "map_of (cf_Backends c) n = Some p"
  shows "p < length (cf_objs c)" "be_Name (cf_objs c ! p) = n" "wf_map (map_or_empty (be_Servers (cf_objs c ! p)))"
  using assms by (simp_all add: conf_inv_def ptrs_ok_def)

lemma conf_inv_update:
  assumes "conf_inv c" "wf_map (map_or_empty (be_Servers b))" "be_Name b = be_Name (cf_objs c ! p)"
  shows "conf_inv (c\<lparr>cf_objs := (cf_objs c)[p := b]\<rparr>)"
  using assms set_update_subset_insert[of "cf_objs c" p b] by (auto simp: conf_inv_def intro: ptrs_ok_update)

lemma conf_inv_upsertBackendMetadata:
  assumes "conf_inv c" shows "conf_inv (upsertBackendMetadata n md c)"
proof (cases "map_of (cf_Backends c) n")
  case (Some p)
  let ?b = "(cf_objs c ! p)\<lparr>be_Metadata := md\<rparr>"
  have "conf_inv (c\<lparr>cf_objs := (cf_objs c)[p := ?b]\<rparr>)" using conf_inv_update[OF assms, of ?b p] ptr_at[OF assms Some] by simp
  then show ?thesis using Some ptr_at[OF assms Some]
    by (simp add: conf_ops conf_inv_def DeepCopyBackend_def omit_empty_wf nth_append ptrs_ok_mput ptrs_ok_append)
qed (use assms in \<open>simp add: conf_ops\<close>)

lemma conf_inv_upsertBackendWithServers:
  assumes "conf_inv c" "wf_map servers" shows "conf_inv (snd (upsertBackendWithServers n servers c))"
proof (cases "map_of (cf_Backends c) n")
  case (Some p)
  let ?b = "(cf_objs c ! p)\<lparr>be_Servers := Some servers\<rparr>"
  have "conf_inv (c\<lparr>cf_objs := (cf_objs c)[p := ?b]\<rparr>)"
    using conf_inv_update[OF assms(1), of ?b p] ptr_at[OF assms(1) Some] assms(2) by (simp add: map_or_empty_def)
  then show ?thesis using Some ptr_at[OF assms(1) Some] by (simp add: conf_ops conf_inv_def ptrs_ok_mput)
qed (use assms in \<open>simp add: conf_ops\<close>)

lemma conf_inv_frontends:
  assumes "conf_inv c"
  shows "conf_inv (snd (upsertFrontend fe c))" "conf_inv (conf_deleteFrontend n c)" "conf_inv (resetDiffs c)"
  using assms
  by (auto simp: conf_ops conf_inv_def map_of_mput map_of_mdel resetDiffs_def ptrs_ok_def DeepCopyFrontend_def
      split: option.splits if_splits)

subsubsection \<open>The views after an operation\<close>

lemma be_view_upsertBackend:
  assumes "conf_inv c"
  shows "be_view (snd (upsertBackend (Some be) c)) m =
    (if m \<noteq> be_Name be then be_view c m
     else case be_view c m of (d, u, cr, cur) \<Rightarrow>
       (case cur of
          None \<Rightarrow> (d, u, Some (DeepCopyBackend be), Some (DeepCopyBackend be))
        | Some prev \<Rightarrow>
            if backend_equal_but_servers prev be then (d, u, cr, cur)
            else let be' = be\<lparr>be_Servers := be_Servers prev\<rparr> in (d, Some (DeepCopyBackend be'), cr, Some be')))"
proof -
  have ok: "ptrs_ok (cf_objs c) (cf_Backends c)" "ptrs_ok (cf_objs c) (df_UpdatedBE (cf_diffs c))" "ptrs_ok (cf_objs c) (df_CreatedBE (cf_diffs c))"
    using assms by (simp_all add: conf_inv_def)
  note d = deref_append[OF ok(1)] deref_append[OF ok(2)] deref_append[OF ok(3)]
  show ?thesis
  proof (cases "map_of (cf_Backends c) (be_Name be)")
    case None
    then show ?thesis using d[of "[DeepCopyBackend be]"]
      by (simp add: conf_ops be_view_def deref_def map_of_mput)
  next
    case (Some p)
    show ?thesis
    proof (cases "backend_equal_but_servers (cf_objs c ! p) be")
      case False
      then show ?thesis using Some d[of "[DeepCopyBackend (be\<lparr>be_Servers := be_Servers (cf_objs c ! p)\<rparr>), be\<lparr>be_Servers := be_Servers (cf_objs c ! p)\<rparr>]"]
        by (simp add: conf_ops be_view_def deref_def map_of_mput nth_append)
    qed (use Some in \<open>simp add: conf_ops be_view_def deref_def\<close>)
  qed
qed

lemma be_view_deleteBackend:
  assumes "conf_inv c"
  shows "be_view (conf_deleteBackend n c) m =
    (if m \<noteq> n then be_view c m
     else case be_view c m of (d, u, cr, cur) \<Rightarrow> if cur = None then (d, u, cr, cur) else (True, u, cr, None))"
proof (cases "map_of (cf_Backends c) n")
  case (Some p)
  then show ?thesis using ptr_at[OF assms Some] by (simp add: conf_ops be_view_def deref_def map_of_mdel mhas_iff)
qed (simp add: conf_ops be_view_def deref_def)

lemma be_view_update_other:
  assumes "conf_inv c" "p < length (cf_objs c)" "m \<noteq> be_Name (cf_objs c ! p)"
  shows "be_view (c\<lparr>cf_objs := (cf_objs c)[p := b]\<rparr>) m = be_view c m"
proof -
  have ok: "ptrs_ok (cf_objs c) (cf_Backends c)" "ptrs_ok (cf_objs c) (df_UpdatedBE (cf_diffs c))" "ptrs_ok (cf_objs c) (df_CreatedBE (cf_diffs c))"
    using assms(1) by (simp_all add: conf_inv_def)
  show ?thesis using deref_update[OF ok(1) assms(2,3), of b] deref_update[OF ok(2) assms(2,3), of b] deref_update[OF ok(3) assms(2,3), of b]
    by (simp add: be_view_def deref_def)
qed

text \<open>Updating the metadata also changes the values that the differences share with the configuration; the new updated value
  hides them.\<close>

lemma be_view_upsertBackendMetadata:
  assumes "conf_inv c"
  shows "m \<noteq> n \<Longrightarrow> be_view (upsertBackendMetadata n md c) m = be_view c m"
    and "be_view c n = (d, u, cr, Some b) \<Longrightarrow> \<exists>cr'. (cr' = None \<longleftrightarrow> cr = None) \<and> be_view (upsertBackendMetadata n md c) n
      = (d, Some (DeepCopyBackend (b\<lparr>be_Metadata := md\<rparr>)), cr', Some (b\<lparr>be_Metadata := md\<rparr>))"
    and "be_view c n = (d, u, cr, None) \<Longrightarrow> be_view (upsertBackendMetadata n md c) n = (d, u, cr, None)"
proof -
  assume m: "m \<noteq> n"
  show "be_view (upsertBackendMetadata n md c) m = be_view c m"
  proof (cases "map_of (cf_Backends c) n")
    case (Some p)
    let ?b = "(cf_objs c ! p)\<lparr>be_Metadata := md\<rparr>" let ?c = "c\<lparr>cf_objs := (cf_objs c)[p := ?b]\<rparr>"
    note pt = ptr_at[OF assms Some]
    have inv: "conf_inv ?c" using conf_inv_update[OF assms, of ?b p] pt by simp
    then have ok: "ptrs_ok (cf_objs ?c) (cf_Backends c)" "ptrs_ok (cf_objs ?c) (df_UpdatedBE (cf_diffs c))" "ptrs_ok (cf_objs ?c) (df_CreatedBE (cf_diffs c))"
      by (simp_all add: conf_inv_def)
    have "be_view (upsertBackendMetadata n md c) m = be_view ?c m"
      using Some m deref_append[OF ok(1)] deref_append[OF ok(2)] deref_append[OF ok(3)] by (simp add: conf_ops be_view_def deref_def map_of_mput)
    then show ?thesis using be_view_update_other[OF assms pt(1), of m ?b] pt(2) m by simp
  qed (simp add: conf_ops)
next
  assume "be_view c n = (d, u, cr, Some b)"
  then obtain p where p: "map_of (cf_Backends c) n = Some p" "b = cf_objs c ! p" "d = mhas (df_DeletedBE (cf_diffs c)) n"
      "cr = deref c (df_CreatedBE (cf_diffs c)) n"
    by (auto simp: be_view_def deref_def)
  then show "\<exists>cr'. (cr' = None \<longleftrightarrow> cr = None) \<and> be_view (upsertBackendMetadata n md c) n = (d, Some (DeepCopyBackend (b\<lparr>be_Metadata := md\<rparr>)), cr', Some (b\<lparr>be_Metadata := md\<rparr>))"
    using ptr_at[OF assms p(1)] by (simp add: conf_ops be_view_def deref_def map_of_mput nth_append)
next
  assume "be_view c n = (d, u, cr, None)"
  then show "be_view (upsertBackendMetadata n md c) n = (d, u, cr, None)" by (auto simp: conf_ops be_view_def deref_def)
qed

lemma be_view_upsertBackendWithServers_other:
  assumes "conf_inv c" "m \<noteq> n"
  shows "be_view (snd (upsertBackendWithServers n servers c)) m = be_view c m"
proof (cases "map_of (cf_Backends c) n")
  case (Some p)
  let ?b = "(cf_objs c ! p)\<lparr>be_Servers := Some servers\<rparr>" let ?c = "c\<lparr>cf_objs := (cf_objs c)[p := ?b]\<rparr>"
  have "be_view (snd (upsertBackendWithServers n servers c)) m = be_view ?c m"
    using Some assms(2) ptr_at[OF assms(1) Some] by (simp add: conf_ops be_view_def deref_def map_of_mput)
  then show ?thesis using be_view_update_other[OF assms(1), of p m ?b] ptr_at[OF assms(1) Some] assms(2) by simp
qed (simp add: conf_ops)

lemma fe_view_upsertFrontend:
  "fe_view (snd (upsertFrontend (Some fe) c)) m =
    (if m \<noteq> fe_Name fe then fe_view c m
     else case fe_view c m of (d, u, cr, cur) \<Rightarrow>
       (case cur of
          None \<Rightarrow> (d, u, Some (DeepCopyFrontend fe), Some (DeepCopyFrontend fe))
        | Some prev \<Rightarrow> if frontend_Equal prev fe then (d, u, cr, cur) else (d, Some (DeepCopyFrontend fe), cr, Some fe)))"
  by (simp add: conf_ops fe_view_def map_of_mput split: option.split)

lemma fe_view_deleteFrontend:
  assumes "conf_inv c"
  shows "fe_view (conf_deleteFrontend n c) m =
    (if m \<noteq> n then fe_view c m
     else case fe_view c m of (d, u, cr, cur) \<Rightarrow> if cur = None then (d, u, cr, cur) else (True, u, cr, None))"
  using assms by (auto simp: conf_inv_def conf_ops fe_view_def map_of_mdel mhas_iff split: option.split)

text \<open>Neither side looks at the other.\<close>

lemma views_apart:
  "fe_view (snd (upsertBackend be c)) m = fe_view c m" "fe_view (conf_deleteBackend n c) m = fe_view c m"
  "fe_view (upsertBackendMetadata n md c) m = fe_view c m" "fe_view (snd (upsertBackendWithServers n servers c)) m = fe_view c m"
  "be_view (snd (upsertFrontend fe c)) m = be_view c m" "be_view (conf_deleteFrontend n c) m = be_view c m"
  by (simp_all add: conf_ops fe_view_def be_view_def deref_def split: option.split)

subsection \<open>Applying the differences\<close>

text \<open>What the receiver of the differences gets for a name: created sections, then updated ones, then the deletions; a name
  without a difference keeps its old section.\<close>

definition section_after :: "'v option \<Rightarrow> 'v view \<Rightarrow> 'v option" where
  "section_after old v = (case v of (d, u, cr, cur) \<Rightarrow> if d then None else if u \<noteq> None then u else if cr \<noteq> None then cr else old)"

definition current :: "'v view \<Rightarrow> 'v option" where
  "current v = (case v of (d, u, cr, cur) \<Rightarrow> cur)"

definition same_backend :: "backend \<Rightarrow> backend \<Rightarrow> bool" where
  "same_backend a b = (a\<lparr>be_Servers := None\<rparr> = b\<lparr>be_Servers := None\<rparr>
     \<and> map_of (map_or_empty (be_Servers a)) = map_of (map_or_empty (be_Servers b)))"

definition same_frontend :: "frontend \<Rightarrow> frontend \<Rightarrow> bool" where
  "same_frontend a b = (DeepCopyFrontend a = DeepCopyFrontend b)"

text \<open>A view is sourced when everything that is changed or deleted was there before or is created first, so that the receiver can
  apply it.  It is exact when moreover the receiver gets the current section, and sound when a section that is gone is gone for
  the receiver.\<close>

definition sourced_view :: "'v option \<Rightarrow> 'v view \<Rightarrow> bool" where
  "sourced_view old v = (case v of (d, u, cr, cur) \<Rightarrow> d \<or> u \<noteq> None \<or> cur \<noteq> None \<longrightarrow> old \<noteq> None \<or> cr \<noteq> None)"

definition agrees_view :: "('v \<Rightarrow> 'v \<Rightarrow> bool) \<Rightarrow> 'v option \<Rightarrow> 'v view \<Rightarrow> bool" where
  "agrees_view eq old v = rel_option eq (section_after old v) (current v)"

definition vanishes_view :: "'v option \<Rightarrow> 'v view \<Rightarrow> bool" where
  "vanishes_view old v = (current v = None \<longrightarrow> section_after old v = None)"

definition exact_view :: "('v \<Rightarrow> 'v \<Rightarrow> bool) \<Rightarrow> 'v option \<Rightarrow> 'v view \<Rightarrow> bool" where
  "exact_view eq old v = (agrees_view eq old v \<and> sourced_view old v)"

definition gone_view :: "'v option \<Rightarrow> 'v view \<Rightarrow> bool" where
  "gone_view old v = (vanishes_view old v \<and> sourced_view old v)"

definition deleted_view :: "'v view \<Rightarrow> bool" where
  "deleted_view v = fst v"

lemma same_backend_refl [simp]: "same_backend b b"
  by (simp add: same_backend_def)

lemma same_backend_trans: "same_backend a b \<Longrightarrow> same_backend b c \<Longrightarrow> same_backend a c"
  by (simp add: same_backend_def)

lemma same_backend_sym: "same_backend a b \<Longrightarrow> same_backend b a"
  by (simp add: same_backend_def)

lemma same_backend_copy [simp]: "same_backend (DeepCopyBackend b) b"
  by (auto simp: same_backend_def DeepCopyBackend_def omit_empty_def map_or_empty_def)

lemma same_frontend_copy [simp]: "same_frontend (DeepCopyFrontend b) b" "same_frontend b b"
  by (auto simp: same_frontend_def DeepCopyFrontend_def omit_empty_def)

lemma agrees_vanishes: "agrees_view eq old v \<Longrightarrow> vanishes_view old v"
  by (auto simp: agrees_view_def vanishes_view_def)

lemma exact_gone: "exact_view eq old v \<Longrightarrow> gone_view old v"
  unfolding exact_view_def gone_view_def using agrees_vanishes by blast

lemma view_parts:
  "current (be_view c n) = deref c (cf_Backends c) n" "deleted_view (be_view c n) = mhas (df_DeletedBE (cf_diffs c)) n"
  "current (fe_view c n) = map_of (cf_Frontends c) n" "deleted_view (fe_view c n) = mhas (df_DeletedFE (cf_diffs c)) n"
  by (simp_all add: current_def deleted_view_def be_view_def fe_view_def)

lemma exact_reset:
  "exact_view same_backend (current (be_view c n)) (be_view (resetDiffs c) n)"
  "exact_view same_frontend (current (fe_view c n)) (fe_view (resetDiffs c) n)"
  by (simp_all add: exact_view_def sourced_view_def agrees_view_def section_after_def current_def be_view_def fe_view_def resetDiffs_def no_diffs_def mhas_def deref_def
      option.rel_refl)

lemma gomap_rel_eq:
  assumes "wf_map a" "wf_map b" "gomap_rel (=) a b"
  shows "map_of a = map_of b"
proof -
  have sub: "map_of a k = Some v \<Longrightarrow> map_of b k = Some v" for k v
    using assms(3) map_of_SomeD[of a k v] by (auto simp: gomap_rel_def list_all_iff split: option.splits)
  then have "mkeys a \<subseteq> mkeys b" unfolding mhas_iff[symmetric] by (auto simp: mhas_iff[symmetric] mhas_def)
  moreover have "card (mkeys a) = card (mkeys b)" using assms by (simp add: gomap_rel_def length_wf_map[symmetric])
  ultimately have "mkeys a = mkeys b" by (intro card_subset_eq) simp_all
  then show ?thesis using sub by (intro ext) (metis map_of_None_mkeys not_None_eq)
qed

lemma servers_equal_same:
  assumes "servers_equal (omit_empty s) (Some t)" "wf_map (map_or_empty s)" "wf_map t"
  shows "map_of (map_or_empty s) = map_of t"
  using assms gomap_rel_eq[of "map_or_empty s" t] by (cases s) (auto simp: servers_equal_def omit_empty_def map_or_empty_def split: if_splits)

subsubsection \<open>The operations keep the views in agreement\<close>

lemma upsertBackend_agrees:
  assumes "conf_inv c" "agrees_view same_backend old (be_view c m)" "m = be_Name be \<longrightarrow> current (be_view c m) = None \<longrightarrow> \<not> deleted_view (be_view c m)"
  shows "agrees_view same_backend old (be_view (snd (upsertBackend (Some be) c)) m)"
  using assms(2,3) unfolding be_view_upsertBackend[OF assms(1)]
  by (cases "be_view c m") (auto simp: agrees_view_def section_after_def current_def deleted_view_def Let_def split: option.splits)

lemma upsertBackend_vanishes:
  assumes "conf_inv c" "vanishes_view old (be_view c m)"
  shows "vanishes_view old (be_view (snd (upsertBackend (Some be) c)) m)"
  using assms(2) unfolding be_view_upsertBackend[OF assms(1)]
  by (cases "be_view c m") (auto simp: vanishes_view_def section_after_def current_def Let_def split: option.splits if_splits)

lemma deleteBackend_agrees:
  assumes "conf_inv c" "if m = n then vanishes_view old (be_view c m) else agrees_view eq old (be_view c m)"
  shows "agrees_view eq old (be_view (conf_deleteBackend n c) m)"
  using assms(2) unfolding be_view_deleteBackend[OF assms(1)]
  by (cases "be_view c m") (auto simp: agrees_view_def vanishes_view_def section_after_def current_def split: if_splits)

lemma deleteBackend_vanishes:
  assumes "conf_inv c" "vanishes_view old (be_view c m)"
  shows "vanishes_view old (be_view (conf_deleteBackend n c) m)"
  using assms(2) unfolding be_view_deleteBackend[OF assms(1)]
  by (cases "be_view c m") (auto simp: vanishes_view_def section_after_def current_def)

lemma upsertBackendMetadata_agrees:
  assumes "conf_inv c" "agrees_view same_backend old (be_view c m)"
  shows "agrees_view same_backend old (be_view (upsertBackendMetadata n md c) m)"
proof (cases "m = n")
  case True
  obtain d u cr cur where v: "be_view c n = (d, u, cr, cur)" by (cases "be_view c n")
  show ?thesis
  proof (cases cur)
    case (Some b)
    obtain cr' where "be_view (upsertBackendMetadata n md c) n = (d, Some (DeepCopyBackend (b\<lparr>be_Metadata := md\<rparr>)), cr', Some (b\<lparr>be_Metadata := md\<rparr>))"
      using be_view_upsertBackendMetadata(2)[OF assms(1)] v Some by blast
    then show ?thesis using assms(2) True v Some by (auto simp: agrees_view_def section_after_def current_def split: if_splits)
  qed (use assms(2) True v be_view_upsertBackendMetadata(3)[OF assms(1)] in auto)
qed (use assms be_view_upsertBackendMetadata(1)[OF assms(1)] in simp)

lemma upsertBackendMetadata_vanishes:
  assumes "conf_inv c" "vanishes_view old (be_view c m)"
  shows "vanishes_view old (be_view (upsertBackendMetadata n md c) m)"
proof (cases "m = n")
  case True
  obtain d u cr cur where v: "be_view c n = (d, u, cr, cur)" by (cases "be_view c n")
  show ?thesis
  proof (cases cur)
    case (Some b)
    obtain cr' where "be_view (upsertBackendMetadata n md c) n = (d, Some (DeepCopyBackend (b\<lparr>be_Metadata := md\<rparr>)), cr', Some (b\<lparr>be_Metadata := md\<rparr>))"
      using be_view_upsertBackendMetadata(2)[OF assms(1)] v Some by blast
    then show ?thesis using True assms(2) v Some by (auto simp: vanishes_view_def current_def)
  qed (use assms(2) True v be_view_upsertBackendMetadata(3)[OF assms(1)] in auto)
qed (use assms be_view_upsertBackendMetadata(1)[OF assms(1)] in simp)

lemma deref_same_update:
  assumes "same_backend b (cf_objs c ! p)" "p < length (cf_objs c)"
  shows "rel_option same_backend (map_option (\<lambda>q. (cf_objs c)[p := b] ! q) (map_of m n)) (deref c m n)"
  using assms by (cases "map_of m n") (auto simp: deref_def nth_list_update)

lemma agrees_same_views:
  assumes "agrees_view same_backend old (d, u, cr, cur)" "rel_option same_backend u' u" "rel_option same_backend cr' cr" "rel_option same_backend cur' cur"
  shows "agrees_view same_backend old (d, u', cr', cur')"
  using assms by (auto simp: agrees_view_def section_after_def current_def option_rel_Some1 option_rel_Some2 same_backend_def split: if_splits
      elim!: option.rel_cases)

text \<open>Equal servers change the stored object without a difference; other servers make the stored object itself the updated
  value.\<close>

lemma upsertBackendWithServers_agrees:
  assumes "conf_inv c" "wf_map servers" "agrees_view same_backend old (be_view c m)"
  shows "agrees_view same_backend old (be_view (snd (upsertBackendWithServers n servers c)) m)"
proof (cases "m = n \<and> map_of (cf_Backends c) n \<noteq> None")
  case True
  then obtain p where p: "map_of (cf_Backends c) n = Some p" by auto
  note pt = ptr_at[OF assms(1) p]
  let ?b = "(cf_objs c ! p)\<lparr>be_Servers := Some servers\<rparr>"
  have nd: "\<not> mhas (df_DeletedBE (cf_diffs c)) n"
    using assms(3) True p by (auto simp: agrees_view_def section_after_def current_def be_view_def deref_def split: if_splits)
  show ?thesis
  proof (cases "servers_equal (be_Servers (DeepCopyBackend (cf_objs c ! p))) (Some servers)")
    case eq: True
    then have "same_backend ?b (cf_objs c ! p)"
      using servers_equal_same[of "be_Servers (cf_objs c ! p)" servers] pt(3) assms(2)
      by (simp add: DeepCopyBackend_def same_backend_def map_or_empty_def)
    note r = deref_same_update[OF this pt(1)]
    have v: "be_view (snd (upsertBackendWithServers n servers c)) n = (mhas (df_DeletedBE (cf_diffs c)) n,
        map_option (\<lambda>q. (cf_objs c)[p := ?b] ! q) (map_of (df_UpdatedBE (cf_diffs c)) n),
        map_option (\<lambda>q. (cf_objs c)[p := ?b] ! q) (map_of (df_CreatedBE (cf_diffs c)) n),
        map_option (\<lambda>q. (cf_objs c)[p := ?b] ! q) (map_of (cf_Backends c) n))"
      using eq p by (simp add: conf_ops be_view_def deref_def)
    have e: "agrees_view same_backend old (mhas (df_DeletedBE (cf_diffs c)) n, deref c (df_UpdatedBE (cf_diffs c)) n,
        deref c (df_CreatedBE (cf_diffs c)) n, deref c (cf_Backends c) n)" using assms(3) True by (simp add: be_view_def)
    have "agrees_view same_backend old (be_view (snd (upsertBackendWithServers n servers c)) n)"
      unfolding v by (rule agrees_same_views[OF e r r r])
    then show ?thesis using True by simp
  next
    case False
    then have "\<exists>cr'. (cr' = None \<longleftrightarrow> deref c (df_CreatedBE (cf_diffs c)) n = None) \<and> be_view (snd (upsertBackendWithServers n servers c)) n = (False, Some ?b, cr', Some ?b)"
      using p pt nd by (simp add: conf_ops be_view_def deref_def map_of_mput)
    moreover have "current (be_view c n) \<noteq> None" using p by (simp add: view_parts deref_def)
    ultimately show ?thesis using True assms(3) by (auto simp: agrees_view_def section_after_def current_def be_view_def)
  qed
next
  case False
  then show ?thesis using assms(3) be_view_upsertBackendWithServers_other[OF assms(1), of m n servers]
    by (cases "m = n") (simp_all add: conf_ops)
qed

lemma upsertFrontend_agrees:
  assumes "agrees_view same_frontend old (fe_view c m)" "m = fe_Name fe \<longrightarrow> current (fe_view c m) = None \<longrightarrow> \<not> deleted_view (fe_view c m)"
  shows "agrees_view same_frontend old (fe_view (snd (upsertFrontend (Some fe) c)) m)"
  using assms unfolding fe_view_upsertFrontend
  by (cases "fe_view c m") (auto simp: agrees_view_def section_after_def current_def deleted_view_def split: option.splits)

lemma deleteFrontend_agrees:
  assumes "conf_inv c" "if m = n then vanishes_view old (fe_view c m) else agrees_view eq old (fe_view c m)"
  shows "agrees_view eq old (fe_view (conf_deleteFrontend n c) m)"
  using assms(2) unfolding fe_view_deleteFrontend[OF assms(1)]
  by (cases "fe_view c m") (auto simp: agrees_view_def vanishes_view_def section_after_def current_def split: if_splits)

subsubsection \<open>The operations keep the views exact\<close>

text \<open>What is touched was touched before or is created, and what is created stays so.\<close>

definition touched_view :: "'v view \<Rightarrow> bool" where
  "touched_view v = (case v of (d, u, cr, cur) \<Rightarrow> d \<or> u \<noteq> None \<or> cur \<noteq> None)"

definition created_view :: "'v view \<Rightarrow> bool" where
  "created_view v = (case v of (d, u, cr, cur) \<Rightarrow> cr \<noteq> None)"

lemma map_of_mkeys: "map_of m k = Some v \<Longrightarrow> k \<in> mkeys m"
  by (metis map_of_None_mkeys option.distinct(1))

lemma sourced_mono:
  assumes "sourced_view old v" "touched_view v' \<Longrightarrow> touched_view v \<or> created_view v'" "created_view v \<Longrightarrow> created_view v'"
  shows "sourced_view old v'"
  using assms by (auto simp: sourced_view_def touched_view_def created_view_def split: prod.splits)

lemma view_flags:
  "touched_view (be_view c n) \<longleftrightarrow> mhas (df_DeletedBE (cf_diffs c)) n \<or> mhas (df_UpdatedBE (cf_diffs c)) n \<or> mhas (cf_Backends c) n"
  "created_view (be_view c n) \<longleftrightarrow> mhas (df_CreatedBE (cf_diffs c)) n"
  "touched_view (fe_view c n) \<longleftrightarrow> mhas (df_DeletedFE (cf_diffs c)) n \<or> mhas (df_UpdatedFE (cf_diffs c)) n \<or> mhas (cf_Frontends c) n"
  "created_view (fe_view c n) \<longleftrightarrow> mhas (df_CreatedFE (cf_diffs c)) n"
  by (simp_all add: touched_view_def created_view_def be_view_def fe_view_def deref_def mhas_def)

lemma sourced_backends:
  assumes "conf_inv c" "sourced_view old (be_view c m)"
  shows "sourced_view old (be_view (snd (upsertBackend (Some be) c)) m)" "sourced_view old (be_view (conf_deleteBackend n c) m)"
    "sourced_view old (be_view (upsertBackendMetadata n md c) m)" "sourced_view old (be_view (snd (upsertBackendWithServers n servers c)) m)"
proof -
  note step = sourced_mono[OF assms(2)]
  have n: "map_of (cf_Backends c) k = Some p \<Longrightarrow> be_Name (cf_objs c ! p) = k" for k p using ptr_at(2)[OF assms(1)] .
  show "sourced_view old (be_view (snd (upsertBackend (Some be) c)) m)"
    by (rule step) (auto simp: view_flags conf_ops mhas_iff split: option.splits if_splits dest: map_of_mkeys)
  show "sourced_view old (be_view (conf_deleteBackend n c) m)"
    by (rule step) (auto simp: view_flags conf_ops mhas_iff n split: option.splits dest: map_of_mkeys)
  show "sourced_view old (be_view (upsertBackendMetadata n md c) m)"
    by (rule step) (auto simp: view_flags conf_ops mhas_iff n split: option.splits dest: map_of_mkeys)
  show "sourced_view old (be_view (snd (upsertBackendWithServers n servers c)) m)"
    by (rule step) (auto simp: view_flags conf_ops mhas_iff n split: option.splits if_splits dest: map_of_mkeys)
qed

lemma sourced_frontends:
  assumes "conf_inv c" "sourced_view old (fe_view c m)"
  shows "sourced_view old (fe_view (snd (upsertFrontend (Some fe) c)) m)" "sourced_view old (fe_view (conf_deleteFrontend n c) m)"
proof -
  note step = sourced_mono[OF assms(2)]
  have n: "map_of (cf_Frontends c) k = Some f \<Longrightarrow> fe_Name f = k" for k f using assms(1) by (simp add: conf_inv_def)
  show "sourced_view old (fe_view (snd (upsertFrontend (Some fe) c)) m)"
    by (rule step) (auto simp: view_flags conf_ops mhas_iff split: option.splits if_splits dest: map_of_mkeys)
  show "sourced_view old (fe_view (conf_deleteFrontend n c) m)"
    by (rule step) (auto simp: view_flags conf_ops mhas_iff n split: option.splits dest: map_of_mkeys)
qed

lemma upsertBackend_exact:
  assumes "conf_inv c" "exact_view same_backend old (be_view c m)" "m = be_Name be \<longrightarrow> current (be_view c m) = None \<longrightarrow> \<not> deleted_view (be_view c m)"
  shows "exact_view same_backend old (be_view (snd (upsertBackend (Some be) c)) m)"
  using upsertBackend_agrees[OF assms(1) _ assms(3)] sourced_backends(1)[OF assms(1)] assms(2) by (simp add: exact_view_def)

lemma upsertBackend_gone:
  "conf_inv c \<Longrightarrow> gone_view old (be_view c m) \<Longrightarrow> gone_view old (be_view (snd (upsertBackend (Some be) c)) m)"
  by (simp add: gone_view_def upsertBackend_vanishes sourced_backends(1))

lemma deleteBackend_exact:
  assumes "conf_inv c" "if m = n then gone_view old (be_view c m) else exact_view eq old (be_view c m)"
  shows "exact_view eq old (be_view (conf_deleteBackend n c) m)"
  using assms deleteBackend_agrees[OF assms(1), of m n old eq] sourced_backends(2)[OF assms(1), of old m n]
  by (simp add: exact_view_def gone_view_def split: if_splits)

lemma deleteBackend_gone:
  "conf_inv c \<Longrightarrow> gone_view old (be_view c m) \<Longrightarrow> gone_view old (be_view (conf_deleteBackend n c) m)"
  by (simp add: gone_view_def deleteBackend_vanishes sourced_backends(2))

lemma upsertBackendMetadata_exact:
  "conf_inv c \<Longrightarrow> exact_view same_backend old (be_view c m) \<Longrightarrow> exact_view same_backend old (be_view (upsertBackendMetadata n md c) m)"
  by (simp add: exact_view_def upsertBackendMetadata_agrees sourced_backends(3))

lemma upsertBackendMetadata_gone:
  "conf_inv c \<Longrightarrow> gone_view old (be_view c m) \<Longrightarrow> gone_view old (be_view (upsertBackendMetadata n md c) m)"
  by (simp add: gone_view_def upsertBackendMetadata_vanishes sourced_backends(3))

lemma upsertBackendWithServers_exact:
  assumes "conf_inv c" "wf_map servers" "exact_view same_backend old (be_view c m)"
  shows "exact_view same_backend old (be_view (snd (upsertBackendWithServers n servers c)) m)"
  using assms by (simp add: exact_view_def upsertBackendWithServers_agrees sourced_backends(4))

lemma upsertFrontend_exact:
  assumes "conf_inv c" "exact_view same_frontend old (fe_view c m)" "m = fe_Name fe \<longrightarrow> current (fe_view c m) = None \<longrightarrow> \<not> deleted_view (fe_view c m)"
  shows "exact_view same_frontend old (fe_view (snd (upsertFrontend (Some fe) c)) m)"
  using upsertFrontend_agrees[OF _ assms(3)] sourced_frontends(1)[OF assms(1)] assms(2) by (simp add: exact_view_def)

lemma deleteFrontend_exact:
  assumes "conf_inv c" "if m = n then gone_view old (fe_view c m) else exact_view eq old (fe_view c m)"
  shows "exact_view eq old (fe_view (conf_deleteFrontend n c) m)"
  using assms deleteFrontend_agrees[OF assms(1), of m n old eq] sourced_frontends(2)[OF assms(1), of old m n]
  by (simp add: exact_view_def gone_view_def split: if_splits)

subsection \<open>The differences of a cycle\<close>

datatype conf_op = UpsertFE frontend | DeleteFE string | UpsertBE backend | DeleteBE string
  | SetServers string "(string, server) gomap" | SetMetadata string metadata

fun run_op :: "conf_op \<Rightarrow> configuration \<Rightarrow> configuration" where
  "run_op (UpsertFE fe) c = snd (upsertFrontend (Some fe) c)"
| "run_op (DeleteFE n) c = conf_deleteFrontend n c"
| "run_op (UpsertBE be) c = snd (upsertBackend (Some be) c)"
| "run_op (DeleteBE n) c = conf_deleteBackend n c"
| "run_op (SetServers n servers) c = snd (upsertBackendWithServers n servers c)"
| "run_op (SetMetadata n md) c = upsertBackendMetadata n md c"

text \<open>No section is created again after it was deleted in the same cycle; the maps of servers are maps.\<close>

fun op_allowed :: "conf_op \<Rightarrow> configuration \<Rightarrow> bool" where
  "op_allowed (UpsertFE fe) c = (mhas (cf_Frontends c) (fe_Name fe) \<or> \<not> mhas (df_DeletedFE (cf_diffs c)) (fe_Name fe))"
| "op_allowed (UpsertBE be) c = (wf_map (map_or_empty (be_Servers be))
     \<and> (mhas (cf_Backends c) (be_Name be) \<or> \<not> mhas (df_DeletedBE (cf_diffs c)) (be_Name be)))"
| "op_allowed (SetServers n servers) c = wf_map servers"
| "op_allowed _ c = True"

fun ops_allowed :: "conf_op list \<Rightarrow> configuration \<Rightarrow> bool" where
  "ops_allowed [] c = True"
| "ops_allowed (x # xs) c = (op_allowed x c \<and> ops_allowed xs (run_op x c))"

definition conf_exact :: "configuration \<Rightarrow> configuration \<Rightarrow> bool" where
  "conf_exact c0 c = (conf_inv c \<and> (\<forall>n. exact_view same_backend (current (be_view c0 n)) (be_view c n))
     \<and> (\<forall>n. exact_view same_frontend (current (fe_view c0 n)) (fe_view c n)))"

lemma conf_exact_start: "conf_inv c \<Longrightarrow> conf_exact c (resetDiffs c)"
  by (simp add: conf_exact_def conf_inv_frontends exact_reset)

lemma conf_exact_step:
  assumes "conf_exact c0 c" "op_allowed x c"
  shows "conf_exact c0 (run_op x c)"
proof -
  note ex = assms(1)[unfolded conf_exact_def]
  show ?thesis
  proof (cases x)
    case (UpsertFE fe)
    then show ?thesis using ex assms(2)
      by (auto simp: conf_exact_def conf_inv_frontends views_apart view_parts mhas_def intro!: upsertFrontend_exact)
  next
    case (DeleteFE n)
    then show ?thesis using ex by (auto simp: conf_exact_def conf_inv_frontends views_apart intro!: deleteFrontend_exact exact_gone[of same_frontend])
  next
    case (UpsertBE be)
    then show ?thesis using ex assms(2)
      by (auto simp: conf_exact_def conf_inv_upsertBackend views_apart view_parts deref_def mhas_def
          intro!: upsertBackend_exact)
  next
    case (DeleteBE n)
    then show ?thesis using ex by (auto simp: conf_exact_def conf_inv_deleteBackend views_apart intro!: deleteBackend_exact exact_gone[of same_backend])
  next
    case (SetServers n servers)
    then show ?thesis using ex assms(2)
      by (auto simp: conf_exact_def conf_inv_upsertBackendWithServers views_apart intro!: upsertBackendWithServers_exact)
  next
    case (SetMetadata n md)
    then show ?thesis using ex by (auto simp: conf_exact_def conf_inv_upsertBackendMetadata views_apart intro!: upsertBackendMetadata_exact)
  qed
qed

lemma conf_exact_run: "conf_exact c0 c \<Longrightarrow> ops_allowed xs c \<Longrightarrow> conf_exact c0 (fold run_op xs c)"
  by (induction xs arbitrary: c) (auto intro: conf_exact_step)

text \<open>C35: the differences of a cycle are exact.  When the differences are reset and any operations follow, none of which
  creates a section again after its deletion, then whoever holds the old sections and applies the created, the updated
  and the deleted ones in this order has exactly the new sections, although the differences share objects that are
  changed in place.\<close>

theorem configuration_diffs_exact:
  assumes "conf_inv c" "ops_allowed ops (resetDiffs c)" "c' = fold run_op ops (resetDiffs c)"
  shows "rel_option same_backend (section_after (current (be_view c n)) (be_view c' n)) (current (be_view c' n))
    \<and> rel_option same_frontend (section_after (current (fe_view c n)) (fe_view c' n)) (current (fe_view c' n))"
  using conf_exact_run[OF conf_exact_start[OF assms(1)] assms(2)] by (simp add: conf_exact_def exact_view_def agrees_view_def assms(3))

definition ex_be :: "string \<Rightarrow> backend" where
  "ex_be n = \<lparr>be_Name = n, be_Metadata = [], be_Mode = ''http'', be_From = ''d'', be_Balance = ''roundrobin'', be_Abortonclose = ''disabled'',
     be_ServerTimeout = 50000, be_Forwardfor = Some ''enabled'', be_DefaultServerCheck = ''enabled'', be_BaseExtra = [], be_ACLList = [], be_HTTPRequestRuleList = [], be_OtherLists = [], be_Servers = None\<rparr>"

definition ex_srv :: server where
  "ex_srv = \<lparr>hs_Name = ''s1'', hs_Address = ''10.0.0.1'', hs_Port = 8080, hs_Maintenance = ''disabled''\<rparr>"

definition conf0 :: configuration where
  "conf0 = \<lparr>cf_Frontends = [], cf_Backends = [], cf_diffs = no_diffs, cf_objs = []\<rparr>"

definition ex_ops :: "conf_op list" where
  "ex_ops = [UpsertBE (ex_be ''a''), SetServers ''a'' [(''s1'', ex_srv)], UpsertBE (ex_be ''b''), DeleteBE ''b'']"

theorem configuration_diffs_exact_witness:
  "let c' = fold run_op ex_ops (resetDiffs conf0) in
   current (be_view c' ''a'') = Some ((ex_be ''a'')\<lparr>be_Servers := Some [(''s1'', ex_srv)]\<rparr>) \<and> current (be_view c' ''b'') = None
   \<and> rel_option same_backend (section_after None (be_view c' ''a'')) (current (be_view c' ''a''))
   \<and> section_after None (be_view c' ''b'') = None"
proof -
  let ?c = "fold run_op ex_ops (resetDiffs conf0)"
  have inv: "conf_inv conf0" by (simp add: conf_inv_def conf0_def ptrs_ok_def no_diffs_def)
  have ok: "ops_allowed ex_ops (resetDiffs conf0)" by code_simp
  have v: "current (be_view ?c ''a'') = Some ((ex_be ''a'')\<lparr>be_Servers := Some [(''s1'', ex_srv)]\<rparr>)" "current (be_view ?c ''b'') = None"
    by code_simp+
  have o: "current (be_view conf0 n) = None" for n by (simp add: current_def be_view_def conf0_def deref_def)
  note e = configuration_diffs_exact[OF inv ok refl]
  show ?thesis using e[of "''a''"] e[of "''b''"] v by (simp add: o Let_def option.rel_sel)
qed

text \<open>A section that is deleted and created again in one cycle is lost for the receiver, which runs the deletions last.\<close>

lemma recreated_section_lost:
  assumes "conf_inv c" "mhas (cf_Backends c) n" "be_Name be = n"
  shows "section_after old (be_view (run_op (UpsertBE be) (run_op (DeleteBE n) c)) n) = None
    \<and> current (be_view (run_op (UpsertBE be) (run_op (DeleteBE n) c)) n) \<noteq> None"
proof -
  have "current (be_view c n) \<noteq> None" using assms(2) by (auto simp: current_def be_view_def deref_def mhas_def)
  then show ?thesis using assms(3)
    by (cases "be_view c n")
      (auto simp: be_view_upsertBackend[OF conf_inv_deleteBackend[OF assms(1)]] be_view_deleteBackend[OF assms(1)] section_after_def current_def)
qed

text \<open>The differences that were handed over change when the servers change in a later cycle: the updated backend is the
  stored object itself.\<close>

lemma handed_diffs_change:
  "let c1 = fold run_op [UpsertBE (ex_be ''a''), SetServers ''a'' [(''s1'', ex_srv)]] conf0;
       handed = df_UpdatedBE (cf_diffs c1);
       c2 = run_op (SetServers ''a'' []) (resetDiffs c1)
   in map_option be_Servers (deref c1 handed ''a'') = Some (Some [(''s1'', ex_srv)]) \<and> map_option be_Servers (deref c2 handed ''a'') = Some (Some [])"
  by code_simp

end
