(* ===== verification/BackendOwners.thy ===== *)
theory BackendOwners
  imports K8sTypes HaproxyConf
begin

text \<open>
  The owners of backends (\<open>BackendReferencedBy\<close> of \<open>k8s/gate/haproxy/backends.go\<close>) and the metadata of a backend
  (\<open>metadata/backend.go\<close>): which routes reference which backend, with the generation of the route.
\<close>

datatype backend_owner_type = BackendOwnerTypeHTTPRoute | BackendOwnerTypeTLSRoute

fun owner_type_string :: "backend_owner_type \<Rightarrow> string" where
  "owner_type_string BackendOwnerTypeHTTPRoute = ''HTTPRoute''"
| "owner_type_string BackendOwnerTypeTLSRoute = ''TLSRoute''"

type_synonym route_owners = "(namespaced_name, int) gomap"
type_synonym type_owners = "(backend_owner_type, route_owners) gomap"
type_synonym backend_owners = "(string, type_owners) gomap"

definition NewBackendOwners :: backend_owners where
  "NewBackendOwners = []"

definition owners_add :: "string \<Rightarrow> backend_owner_type \<Rightarrow> namespaced_name \<Rightarrow> int \<Rightarrow> backend_owners \<Rightarrow> backend_owners" where
  "owners_add backendName ownerType ownerKey generation bo =
     (let byType = map_get_default [] bo backendName;
          byKey = map_get_default [] byType ownerType
      in mput backendName (mput ownerType (mput ownerKey generation byKey) byType) bo)"

text \<open>\<open>addHTTPRoute\<close> and \<open>addTLSRoute\<close>: the generation of the route, unless the route is nil.\<close>

definition addRoute :: "backend_owner_type \<Rightarrow> string \<Rightarrow> namespaced_name \<Rightarrow> int option \<Rightarrow> backend_owners \<Rightarrow> go_error \<times> backend_owners" where
  "addRoute ownerType backendName routeKey generation bo =
     (case generation of
        None \<Rightarrow> (Some ''nil route'', bo)
      | Some g \<Rightarrow> (None, owners_add backendName ownerType routeKey g bo))"

definition owners_remove :: "string \<Rightarrow> backend_owner_type \<Rightarrow> namespaced_name \<Rightarrow> backend_owners \<Rightarrow> backend_owners" where
  "owners_remove backendName ownerType ownerKey bo =
     (case map_of bo backendName of
        None \<Rightarrow> bo
      | Some ownersForBackend \<Rightarrow>
          (case map_of ownersForBackend ownerType of
             None \<Rightarrow> bo
           | Some ownersForType \<Rightarrow> mput backendName (mput ownerType (mdel ownerKey ownersForType) ownersForBackend) bo))"

definition getBackendsReferencedBy :: "backend_owner_type \<Rightarrow> namespaced_name \<Rightarrow> backend_owners \<Rightarrow> string goset" where
  "getBackendsReferencedBy ownerType ownerKey bo =
     fold (\<lambda>(backendName, ownersForBackend) backends.
        case map_of ownersForBackend ownerType of
          None \<Rightarrow> backends
        | Some ownersForType \<Rightarrow> if mhas ownersForType ownerKey then sput backendName backends else backends) bo []"

text \<open>\<open>cleanupUnreferencedBackendsForHTTPRoutes\<close>: types without an owner go, and then backends without a type; the names
  of these backends are returned.\<close>

definition cleanup_backend :: "backend_owner_type \<Rightarrow> string \<times> type_owners \<Rightarrow> backend_owners \<times> string goset \<Rightarrow> backend_owners \<times> string goset" where
  "cleanup_backend ownerType = (\<lambda>(beName, ownersForBackend) (bo, deleted).
     case map_of ownersForBackend ownerType of
       None \<Rightarrow> (bo, deleted)
     | Some ownersForType \<Rightarrow>
         let left = (if ownersForType = [] then mdel ownerType ownersForBackend else ownersForBackend) in
         if left = [] then (mdel beName bo, sput beName deleted) else (mput beName left bo, deleted))"

definition cleanupUnreferencedBackendsForType :: "backend_owner_type \<Rightarrow> backend_owners \<times> string goset \<Rightarrow> backend_owners \<times> string goset" where
  "cleanupUnreferencedBackendsForType ownerType s = fold (cleanup_backend ownerType) (fst s) s"

subsection \<open>The metadata of a backend\<close>

definition UnifiedGatewayMetaDataKey :: string where "UnifiedGatewayMetaDataKey = ''hug''"

record route_metada_info =
  ri_OwnerType :: string
  ri_Generation :: int

definition BackendMetaData :: "string \<Rightarrow> (string, route_metada_info) gomap \<Rightarrow> metadata" where
  "BackendMetaData linkID routesInfo =
     [(UnifiedGatewayMetaDataKey,
       fold (\<lambda>(routeKey, routeInfo) md.
          mput (ri_OwnerType routeInfo)
            (mput routeKey \<lparr>oi_LinkID = linkID, oi_Generation = ri_Generation routeInfo\<rparr> (map_get_default [] md (ri_OwnerType routeInfo))) md)
        routesInfo [])]"

definition routes_info :: "backend_owner_type \<Rightarrow> route_owners \<Rightarrow> (string, route_metada_info) gomap" where
  "routes_info ownerType owners =
     fold (\<lambda>(routeKey, generation). mput (nn_string routeKey) \<lparr>ri_OwnerType = owner_type_string ownerType, ri_Generation = generation\<rparr>) owners []"

subsection \<open>The owners as a relation\<close>

definition backend_rel :: "backend_owners \<Rightarrow> (string \<times> backend_owner_type \<times> namespaced_name) set" where
  "backend_rel bo = {(n, t, k). \<exists>byType byKey. map_of bo n = Some byType \<and> map_of byType t = Some byKey \<and> mhas byKey k}"

text \<open>Maps are maps, and a backend is only kept with at least one type.\<close>

definition owners_inv :: "backend_owners \<Rightarrow> bool" where
  "owners_inv bo = (wf_map bo \<and> (\<forall>n byType. map_of bo n = Some byType \<longrightarrow> wf_map byType \<and> byType \<noteq> [] \<and> (\<forall>t byKey. map_of byType t = Some byKey \<longrightarrow> wf_map byKey)))"

lemma mput_not_Nil [simp]: "mput k v m \<noteq> []"
  by (cases m) auto

lemma backend_rel_add: "backend_rel (owners_add n t k g bo) = insert (n, t, k) (backend_rel bo)"
  by (auto simp: backend_rel_def owners_add_def Let_def map_of_mput mhas_iff map_get_default_def split: if_splits option.splits)

lemma owners_inv_add: "owners_inv bo \<Longrightarrow> owners_inv (owners_add n t k g bo)"
  by (auto simp: owners_inv_def owners_add_def Let_def map_of_mput map_get_default_def wf_map_Cons intro!: wf_intros split: if_splits option.splits)

lemma backend_rel_remove: "backend_rel (owners_remove n t k bo) = backend_rel bo - {(n, t, k)}"
  by (auto simp: backend_rel_def owners_remove_def map_of_mput mhas_iff split: if_splits option.splits)

lemma owners_inv_remove: "owners_inv bo \<Longrightarrow> owners_inv (owners_remove n t k bo)"
  by (auto simp: owners_inv_def owners_remove_def map_of_mput intro!: wf_intros split: if_splits option.splits)

lemma mkeys_owners: "mkeys (owners_add n t k g bo) = insert n (mkeys bo)" "mkeys (owners_remove n t k bo) = mkeys bo"
proof -
  show "mkeys (owners_add n t k g bo) = insert n (mkeys bo)" by (simp add: owners_add_def Let_def)
  show "mkeys (owners_remove n t k bo) = mkeys bo"
    by (auto simp: owners_remove_def mhas_iff[symmetric] mhas_def map_of_mput split: option.split if_splits)
qed

lemma mkeys_fold_select:
  "mkeys (fold (\<lambda>(n, b) s. if P b then sput n s else s) xs s) = {n. \<exists>b. (n, b) \<in> set xs \<and> P b} \<union> mkeys s"
  by (induction xs arbitrary: s) (auto split: if_splits)

lemma mkeys_getBackendsReferencedBy:
  assumes "wf_map bo" shows "mkeys (getBackendsReferencedBy t k bo) = {n. (n, t, k) \<in> backend_rel bo}"
proof -
  let ?P = "\<lambda>byType. case map_of byType t of None \<Rightarrow> False | Some byKey \<Rightarrow> mhas byKey k"
  have "getBackendsReferencedBy t k bo = fold (\<lambda>(n, byType) s. if ?P byType then sput n s else s) bo []"
    unfolding getBackendsReferencedBy_def by (rule fold_cong) (auto split: option.splits)
  then show ?thesis using assms by (auto simp: mkeys_fold_select backend_rel_def map_of_wf_mem split: option.splits)
qed

lemma wf_getBackendsReferencedBy [wf_intros]: "wf_map (getBackendsReferencedBy t k bo)"
  unfolding getBackendsReferencedBy_def by (rule fold_invariant_all) (auto intro: wf_intros split: option.splits)

subsection \<open>The cleanup\<close>

definition clean_types :: "backend_owner_type \<Rightarrow> type_owners \<Rightarrow> type_owners" where
  "clean_types t byType = (if map_of byType t = Some [] then mdel t byType else byType)"

lemma cleanup_backend_eq:
  "byType \<noteq> [] \<Longrightarrow> cleanup_backend t (n, byType) (bo, d) =
     (if map_of byType t = None then (bo, d)
      else if clean_types t byType = [] then (mdel n bo, sput n d) else (mput n (clean_types t byType) bo, d))"
  by (auto simp: cleanup_backend_def clean_types_def Let_def split: option.split)

lemma fold_cleanup_owners:
  assumes "wf_map xs" "\<forall>(n, byType) \<in> set xs. byType \<noteq> []"
  shows "map_of (fst (fold (cleanup_backend t) xs s)) n =
      (case map_of xs n of
         None \<Rightarrow> map_of (fst s) n
       | Some byType \<Rightarrow> if map_of byType t = None then map_of (fst s) n else if clean_types t byType = [] then None else Some (clean_types t byType))"
  using assms
proof (induction xs arbitrary: s)
  case (Cons x xs)
  obtain m byType where x: "x = (m, byType)" by (cases x)
  have ne: "byType \<noteq> []" and wf: "wf_map xs" "m \<notin> mkeys xs" "\<forall>(n, byType) \<in> set xs. byType \<noteq> []"
    using Cons.prems by (auto simp: x wf_map_Cons)
  have m: "map_of (fst (cleanup_backend t x s)) n = (if n \<noteq> m \<or> map_of byType t = None then map_of (fst s) n
      else if clean_types t byType = [] then None else Some (clean_types t byType))"
    by (cases s) (auto simp: x cleanup_backend_eq[OF ne] map_of_mput map_of_mdel)
  show ?case
  proof (cases "n = m")
    case True
    then have "map_of xs n = None" using wf(2) by (simp add: map_of_None_mkeys)
    then show ?thesis using Cons.IH[OF wf(1,3), of "cleanup_backend t x s"] m True by (simp add: x)
  qed (use Cons.IH[OF wf(1,3), of "cleanup_backend t x s"] m in \<open>simp add: x split: option.split\<close>)
qed simp

lemma fold_cleanup_deleted:
  assumes "\<forall>(n, byType) \<in> set xs. byType \<noteq> []"
  shows "mkeys (snd (fold (cleanup_backend t) xs s)) = mkeys (snd s) \<union> {n. \<exists>byType. (n, byType) \<in> set xs \<and> clean_types t byType = []}"
  using assms
proof (induction xs arbitrary: s)
  case (Cons x xs)
  obtain m byType where x: "x = (m, byType)" by (cases x)
  have ne: "byType \<noteq> []" using Cons.prems by (simp add: x)
  then have "clean_types t byType = [] \<Longrightarrow> map_of byType t \<noteq> None" by (auto simp: clean_types_def split: if_splits)
  then have "mkeys (snd (cleanup_backend t x s)) = mkeys (snd s) \<union> (if clean_types t byType = [] then {m} else {})"
    by (cases s) (auto simp: x cleanup_backend_eq[OF ne])
  then show ?case using Cons.IH[of "cleanup_backend t x s"] Cons.prems by (auto simp: x)
qed simp

lemma wf_fold_cleanup:
  assumes "wf_map (fst s)" "wf_map (snd s)"
  shows "wf_map (fst (fold (cleanup_backend t) xs s)) \<and> wf_map (snd (fold (cleanup_backend t) xs s))"
  by (rule fold_invariant_all)
    (use assms in \<open>auto simp: cleanup_backend_def Let_def intro: wf_intros split: option.splits prod.splits\<close>)

lemma cleanup_ok:
  assumes "owners_inv bo" "wf_map d" "cleanupUnreferencedBackendsForType t (bo, d) = (bo', d')"
  shows "owners_inv bo'" "backend_rel bo' = backend_rel bo" "mkeys d' = mkeys d \<union> (mkeys bo - mkeys bo')" "wf_map d'"
    "map_of bo' n = (case map_of bo n of None \<Rightarrow> None | Some byType \<Rightarrow> if clean_types t byType = [] then None else Some (clean_types t byType))"
proof -
  have f: "fold (cleanup_backend t) bo (bo, d) = (bo', d')" using assms(3) by (simp add: cleanupUnreferencedBackendsForType_def)
  have nn: "map_of bo n = Some b \<Longrightarrow> b \<noteq> []" for n b using assms(1) by (simp add: owners_inv_def)
  have wf1: "wf_map bo" using assms(1) by (simp add: owners_inv_def)
  have "b \<noteq> []" if "(n, b) \<in> set bo" for n b using that nn[of n b] wf1 by (simp add: map_of_wf_mem)
  then have wf: "wf_map bo" "\<forall>(n, byType) \<in> set bo. byType \<noteq> []" using wf1 by auto
  have m: "map_of bo' n = (case map_of bo n of None \<Rightarrow> None | Some byType \<Rightarrow> if clean_types t byType = [] then None else Some (clean_types t byType))" for n
    using fold_cleanup_owners[OF wf, of t "(bo, d)" n] nn[of n] by (auto simp: f clean_types_def split: option.split)
  then show "map_of bo' n = (case map_of bo n of None \<Rightarrow> None | Some byType \<Rightarrow> if clean_types t byType = [] then None else Some (clean_types t byType))" .
  have w: "wf_map bo'" "wf_map d'" using wf_fold_cleanup[of "(bo, d)" t bo] wf(1) assms(2) by (simp_all add: f)
  then show "wf_map d'" by simp
  show "owners_inv bo'" using w assms(1) unfolding owners_inv_def
    by (auto simp: m clean_types_def map_of_mdel intro: wf_intros split: option.splits if_splits)
  have ct: "map_of (clean_types t b) t' = Some byKey \<and> mhas byKey k \<longleftrightarrow> map_of b t' = Some byKey \<and> mhas byKey k" for b t' byKey k
    by (auto simp: clean_types_def map_of_mdel mhas_def)
  have "clean_types t b = [] \<Longrightarrow> map_of b t' = Some byKey \<Longrightarrow> \<not> mhas byKey k" for b t' byKey k using ct[of b t' byKey k] by auto
  then have "(\<exists>byType byKey. map_of bo' n = Some byType \<and> map_of byType t' = Some byKey \<and> mhas byKey k)
    \<longleftrightarrow> (\<exists>byType byKey. map_of bo n = Some byType \<and> map_of byType t' = Some byKey \<and> mhas byKey k)" for n t' k
    using ct by (cases "map_of bo n") (auto simp: m split: if_splits)
  then show "backend_rel bo' = backend_rel bo" by (simp add: backend_rel_def)
  have "n \<in> mkeys bo - mkeys bo' \<longleftrightarrow> (\<exists>b. (n, b) \<in> set bo \<and> clean_types t b = [])" for n
    using wf(1) by (auto simp: mhas_iff[symmetric] mhas_def m map_of_wf_mem split: option.splits if_splits)
  then show "mkeys d' = mkeys d \<union> (mkeys bo - mkeys bo')" using fold_cleanup_deleted[OF wf(2), of t "(bo, d)"] by (auto simp: f)
qed

lemma nonempty_key: assumes "m \<noteq> []" shows "\<exists>k v. map_of m k = Some v"
proof -
  obtain a b l where "m = (a, b) # l" using assms by (metis neq_Nil_conv surj_pair)
  then have "map_of m a = Some b" by simp
  then show ?thesis by blast
qed

text \<open>After both cleanups exactly the referenced backends have an entry.\<close>

lemma cleanup_both:
  assumes "owners_inv bo" "wf_map d"
    and "cleanupUnreferencedBackendsForType BackendOwnerTypeTLSRoute (cleanupUnreferencedBackendsForType BackendOwnerTypeHTTPRoute (bo, d)) = (bo', d')"
  shows "owners_inv bo'" "backend_rel bo' = backend_rel bo" "mkeys bo' = {n. \<exists>t k. (n, t, k) \<in> backend_rel bo}"
    "mkeys d' = mkeys d \<union> {n \<in> mkeys bo. \<not> (\<exists>t k. (n, t, k) \<in> backend_rel bo)}" "wf_map d'"
proof -
  obtain bo1 d1 where 1: "cleanupUnreferencedBackendsForType BackendOwnerTypeHTTPRoute (bo, d) = (bo1, d1)" by fastforce
  note c1 = cleanup_ok[OF assms(1,2) 1]
  have 2: "cleanupUnreferencedBackendsForType BackendOwnerTypeTLSRoute (bo1, d1) = (bo', d')" using assms(3) 1 by simp
  note c2 = cleanup_ok[OF c1(1,4) 2]
  show "owners_inv bo'" "wf_map d'" by (fact c2(1), fact c2(4))
  show rel: "backend_rel bo' = backend_rel bo" using c1(2) c2(2) by simp
  have "\<exists>t k. (n, t, k) \<in> backend_rel bo" if h: "map_of bo' n = Some byType" for n byType
  proof -
    obtain b0 where b0: "map_of bo n = Some b0" "byType = clean_types BackendOwnerTypeTLSRoute (clean_types BackendOwnerTypeHTTPRoute b0)" "byType \<noteq> []"
      using h c2(5)[of n] c1(5)[of n] by (auto split: option.splits if_splits)
    obtain t byKey where t: "map_of byType t = Some byKey" using nonempty_key[OF b0(3)] by blast
    have "byKey \<noteq> []" using t b0(2) by (cases t) (auto simp: clean_types_def map_of_mdel split: if_splits)
    then obtain k where "mhas byKey k" using nonempty_key[of byKey] by (auto simp: mhas_def)
    then have "(n, t, k) \<in> backend_rel bo'" using h t by (auto simp: backend_rel_def)
    then show ?thesis using rel by blast
  qed
  then show k: "mkeys bo' = {n. \<exists>t k. (n, t, k) \<in> backend_rel bo}"
    unfolding rel[symmetric] by (auto simp: mhas_iff[symmetric] mhas_def backend_rel_def)
  have "mkeys bo1 \<subseteq> mkeys bo" "mkeys bo' \<subseteq> mkeys bo1"
    using c1(5) c2(5) by (auto simp: mhas_iff[symmetric] mhas_def split: option.splits)
  then show "mkeys d' = mkeys d \<union> {n \<in> mkeys bo. \<not> (\<exists>t k. (n, t, k) \<in> backend_rel bo)}" using c1(3) c2(3) k by blast
qed

end
