(* ===== verification/MapStore.thy ===== *)
theory MapStore
  imports Utils CertStorage
begin

text \<open>
  The map files HAProxy routes with: \<open>k8s/gate/haproxy/storage/maps/maps.go\<close> (one map and its changes in
  a cycle), \<open>k8s/gate/haproxy/storage/maps.go\<close> (all maps and their files) and
  \<open>k8s/gate/fileutils/fileutils.go\<close> (reading a file of keys and values).

  A map that was never filled (\<open>nil\<close> in Go) is the empty map: no function of the program tells them
  apart.  A \<open>*MapData\<close> pointer is the full path under which the storage holds the map.
\<close>

subsection \<open>One map\<close>

record map_data =
  md_data :: "(string, string) gomap"
  md_Path :: file_path
  md_Add :: "(string, string) gomap"
  md_Update :: "(string, string) gomap"
  md_Delete :: "string list"

definition SetData :: "(string, string) gomap \<Rightarrow> map_data \<Rightarrow> map_data" where
  "SetData d m = m\<lparr>md_data := d\<rparr>"

definition AddData :: "string \<Rightarrow> string \<Rightarrow> map_data \<Rightarrow> map_data" where
  "AddData key val m =
     (let m = (if mhas (md_data m) key then m\<lparr>md_Update := mput key val (md_Update m)\<rparr>
               else m\<lparr>md_Add := mput key val (md_Add m)\<rparr>)
      in m\<lparr>md_data := mput key val (md_data m)\<rparr>)"

definition DeleteData :: "string \<Rightarrow> map_data \<Rightarrow> map_data" where
  "DeleteData key m = m\<lparr>md_data := mdel key (md_data m), md_Delete := md_Delete m @ [key]\<rparr>"

definition clear_updates :: "map_data \<Rightarrow> map_data" where
  "clear_updates m = m\<lparr>md_Add := [], md_Update := [], md_Delete := []\<rparr>"

subsection \<open>Files of keys and values\<close>

text \<open>\<open>bufio.Scanner\<close> with \<open>ScanLines\<close>: the lines without their end, a final empty line left out;
  a line that does not fit into the buffer is an error.\<close>

definition MaxScanTokenSize :: nat where "MaxScanTokenSize = 65536"

definition drop_cr :: "string \<Rightarrow> string" where
  "drop_cr s = (if s \<noteq> [] \<and> last s = CHR 0x0D then butlast s else s)"

definition scan_lines :: "string \<Rightarrow> string list option" where
  "scan_lines s =
     (let parts = split_on (CHR 0x0A) s; raw = (if last parts = [] then butlast parts else parts) in
      if list_ex (\<lambda>l. length l \<ge> MaxScanTokenSize) raw then None else Some (map drop_cr raw))"

text \<open>\<open>strings.TrimSpace\<close> on ASCII white space.\<close>

definition is_space :: "char \<Rightarrow> bool" where
  "is_space c \<longleftrightarrow> c \<in> {CHR '' '', CHR 0x09, CHR 0x0A, CHR 0x0B, CHR 0x0C, CHR 0x0D}"

definition TrimSpace :: "string \<Rightarrow> string" where
  "TrimSpace s = rev (dropWhile is_space (rev (dropWhile is_space s)))"

definition read_line :: "char \<Rightarrow> string \<Rightarrow> (string, string) gomap \<Rightarrow> (string, string) gomap" where
  "read_line separator line data =
     (case split_two separator line of
        [k, v] \<Rightarrow> if TrimSpace k \<noteq> [] then mput (TrimSpace k) (TrimSpace v) data else data
      | _ \<Rightarrow> data)"

datatype read_error = OpenFailed string | TokenTooLong

definition ReadKeyValueFile :: "(string \<Rightarrow> bool) \<Rightarrow> string \<Rightarrow> char \<Rightarrow> disk \<Rightarrow> read_error + (string, string) gomap" where
  "ReadKeyValueFile can_open filename separator d =
     (case map_of d filename of
        None \<Rightarrow> Inr []
      | Some content \<Rightarrow>
          if \<not> can_open filename then Inl (OpenFailed filename)
          else case scan_lines content of
                 None \<Rightarrow> Inl TokenTooLong
               | Some ls \<Rightarrow> Inr (fold (read_line separator) ls []))"

subsection \<open>The storage\<close>

definition PATH_EXACT_MAP :: string where "PATH_EXACT_MAP = ''path_exact''"
definition PATH_EXACT_DOMAIN_WILDCARD_MAP :: string where "PATH_EXACT_DOMAIN_WILDCARD_MAP = ''domain_wildcard_path_exact''"
definition PATH_PREFIX_MAP :: string where "PATH_PREFIX_MAP = ''path_prefix''"
definition PATH_REGEX_MAP :: string where "PATH_REGEX_MAP = ''path_regex''"
definition SNI_MAP :: string where "SNI_MAP = ''sni''"
definition SNI_DOMAIN_WILDCARD_MAP :: string where "SNI_DOMAIN_WILDCARD_MAP = ''domain_wildcard_sni''"

record maps_storage =
  ms_Maps :: "(string, map_data) gomap"
  ms_MapsBaseDir :: string

datatype maps_error = MapsDirNotSet | UnknownStructure string

definition NewMapsStorage :: "string \<Rightarrow> string \<Rightarrow> maps_error + maps_storage" where
  "NewMapsStorage structureType mapsBaseDir =
     (if mapsBaseDir = [] then Inl MapsDirNotSet
      else if structureType = ''default'' then Inr \<lparr>ms_Maps = [], ms_MapsBaseDir = mapsBaseDir\<rparr>
      else Inl (UnknownStructure structureType))"

definition MapPath :: "string \<Rightarrow> string \<Rightarrow> string \<Rightarrow> file_path" where
  "MapPath mapsBaseDir frontendName mapName =
     \<lparr>fp_Dir = path_join [mapsBaseDir, frontendName], fp_FileName = mapName @ ''.map''\<rparr>"

definition readFromDisk :: "(string \<Rightarrow> bool) \<Rightarrow> disk \<Rightarrow> string \<Rightarrow> map_data \<Rightarrow> map_data" where
  "readFromDisk can_open d name m =
     (case ReadKeyValueFile can_open name (CHR '' '') d of Inl _ \<Rightarrow> m | Inr data \<Rightarrow> SetData data m)"

definition EnsureMapData :: "(string \<Rightarrow> bool) \<Rightarrow> disk \<Rightarrow> file_path \<Rightarrow> maps_storage \<Rightarrow> maps_storage" where
  "EnsureMapData can_open d filePath ms =
     (let name = FullPath filePath in
      if mhas (ms_Maps ms) name then ms
      else ms\<lparr>ms_Maps := mput name (readFromDisk can_open d name
             \<lparr>md_data = [], md_Path = filePath, md_Add = [], md_Update = [], md_Delete = []\<rparr>) (ms_Maps ms)\<rparr>)"

text \<open>\<open>GetMapData\<close> ensures the map and returns a pointer to it: its name.\<close>

definition GetMapData :: "(string \<Rightarrow> bool) \<Rightarrow> disk \<Rightarrow> file_path \<Rightarrow> maps_storage \<Rightarrow> string \<times> maps_storage" where
  "GetMapData can_open d filePath ms = (FullPath filePath, EnsureMapData can_open d filePath ms)"

definition update_map :: "string \<Rightarrow> (map_data \<Rightarrow> map_data) \<Rightarrow> maps_storage \<Rightarrow> maps_storage" where
  "update_map name f ms = (case map_of (ms_Maps ms) name of None \<Rightarrow> ms | Some m \<Rightarrow> ms\<lparr>ms_Maps := mput name (f m) (ms_Maps ms)\<rparr>)"

definition map_text :: "(string, string) gomap \<Rightarrow> string" where
  "map_text data = concat (map (\<lambda>(k, v). k @ '' '' @ v @ [CHR 0x0A]) data)"

definition Maps_WriteOnDisk :: "(string \<Rightarrow> write_outcome) \<Rightarrow> map_data \<Rightarrow> disk \<Rightarrow> io_error option \<times> disk" where
  "Maps_WriteOnDisk io m d =
     (let name = FullPath (md_Path m) in
      case io name of
        NotCreated \<Rightarrow> (Some (WriteFailed name), d)
      | CutAfter n \<Rightarrow> (Some (WriteFailed name), mput name (take n (map_text (md_data m))) d)
      | Written \<Rightarrow> (None, mput name (map_text (md_data m)) d))"

text \<open>\<open>os.Remove\<close> of a file that is not there is an error.\<close>

definition Maps_DeleteFromDisk :: "(string \<Rightarrow> bool) \<Rightarrow> map_data \<Rightarrow> disk \<Rightarrow> io_error option \<times> disk" where
  "Maps_DeleteFromDisk io m d =
     (let name = FullPath (md_Path m) in
      if mhas d name \<and> io name then (None, mdel name d) else (Some (RemoveFailed name), d))"

subsection \<open>Reading back what was written\<close>

definition plain_key :: "string \<Rightarrow> bool" where
  "plain_key k \<longleftrightarrow> k \<noteq> [] \<and> list_all (\<lambda>c. \<not> is_space c) k"

definition plain_value :: "string \<Rightarrow> bool" where
  "plain_value v \<longleftrightarrow> CHR 0x0A \<notin> set v \<and> (v \<noteq> [] \<longrightarrow> \<not> is_space (hd v) \<and> \<not> is_space (last v))"

definition line_fits :: "string \<times> string \<Rightarrow> bool" where
  "line_fits e \<longleftrightarrow> (case e of (k, v) \<Rightarrow> length k + length v + 1 < MaxScanTokenSize)"

lemma TrimSpace_plain:
  assumes "s \<noteq> [] \<Longrightarrow> \<not> is_space (hd s) \<and> \<not> is_space (last s)"
  shows "TrimSpace s = s"
proof -
  have "dropWhile is_space s = s" "dropWhile is_space (rev s) = rev s" using assms by (auto simp: dropWhile_eq_self_iff hd_rev)
  then show ?thesis by (simp add: TrimSpace_def)
qed

lemma split_two_at: "c \<notin> set k \<Longrightarrow> split_two c (k @ c # v) = [k, v]"
proof -
  assume c: "c \<notin> set k"
  then have "dropWhile (\<lambda>x. x \<noteq> c) (k @ c # v) = c # v" "takeWhile (\<lambda>x. x \<noteq> c) (k @ c # v) = k"
    by (induction k) auto
  then show ?thesis by simp
qed

lemma plain_key_facts:
  assumes "plain_key k"
  shows "k \<noteq> []" "CHR '' '' \<notin> set k" "CHR 0x0A \<notin> set k" "TrimSpace k = k"
proof -
  have k: "k \<noteq> []" "\<And>c. c \<in> set k \<Longrightarrow> \<not> is_space c" using assms by (auto simp: plain_key_def list_all_iff)
  have "is_space (CHR '' '')" "is_space (CHR 0x0A)" by (simp_all add: is_space_def)
  then show "k \<noteq> []" "CHR '' '' \<notin> set k" "CHR 0x0A \<notin> set k" using k by blast+
  show "TrimSpace k = k" using k by (intro TrimSpace_plain) (simp add: hd_in_set last_in_set)
qed

lemma drop_cr_line:
  assumes "plain_value v" shows "drop_cr (k @ CHR '' '' # v) = k @ CHR '' '' # v"
  using assms by (cases "v = []") (auto simp: drop_cr_def plain_value_def is_space_def)

lemma read_line_entry:
  assumes "plain_key k" "plain_value v"
  shows "read_line (CHR '' '') (drop_cr (k @ CHR '' '' # v)) data = mput k v data"
proof -
  have "split_two (CHR '' '') (k @ CHR '' '' # v) = [k, v]" by (rule split_two_at[OF plain_key_facts(2)[OF assms(1)]])
  moreover have "TrimSpace v = v" using assms(2) by (intro TrimSpace_plain) (simp add: plain_value_def)
  ultimately show ?thesis
    unfolding drop_cr_line[OF assms(2)] read_line_def using plain_key_facts[OF assms(1)] by simp
qed

lemma split_on_line: "c \<notin> set l \<Longrightarrow> split_on c (l @ c # s) = l # split_on c s"
  by (induction l) auto

lemma split_map_text:
  assumes "list_all (\<lambda>(k, v). plain_key k \<and> plain_value v) data"
  shows "split_on (CHR 0x0A) (map_text data) = map (\<lambda>(k, v). k @ CHR '' '' # v) data @ [[]]"
  using assms
proof (induction data)
  case (Cons e data)
  obtain k v where e: "e = (k, v)" by (cases e)
  have nl: "CHR 0x0A \<notin> set (k @ CHR '' '' # v)" using Cons.prems plain_key_facts(3) by (auto simp: e plain_value_def)
  have "map_text (e # data) = (k @ CHR '' '' # v) @ CHR 0x0A # map_text data" by (simp add: map_text_def e)
  then show ?case using split_on_line[OF nl, of "map_text data"] Cons by (simp add: e)
qed (simp add: map_text_def)

lemma scan_map_text:
  assumes "list_all (\<lambda>(k, v). plain_key k \<and> plain_value v) data" "list_all line_fits data"
  shows "scan_lines (map_text data) = Some (map (\<lambda>(k, v). drop_cr (k @ CHR '' '' # v)) data)"
  using assms(2) by (auto simp: scan_lines_def Let_def split_map_text[OF assms(1)] comp_def split_beta line_fits_def list_all_iff list_ex_iff)

lemma fold_read_entries:
  assumes "list_all (\<lambda>(k, v). plain_key k \<and> plain_value v) data"
  shows "fold (read_line (CHR '' '')) (map (\<lambda>(k, v). drop_cr (k @ CHR '' '' # v)) data) acc = fold (\<lambda>(k, v). mput k v) data acc"
  using assms by (induction data arbitrary: acc) (auto simp: read_line_entry)

lemma map_of_fold_mput:
  "wf_map data \<Longrightarrow> map_of (fold (\<lambda>(k, v). mput k v) data acc) k = (case map_of data k of None \<Rightarrow> map_of acc k | Some v \<Rightarrow> Some v)"
  by (induction data arbitrary: acc) (auto simp: wf_map_Cons map_of_mput map_of_None_mkeys[symmetric] split: option.splits)


definition ex_map :: map_data where
  "ex_map = \<lparr>md_data = [(''a.com/'', ''be1''), (''a.com/x'', ''{ l : be2 }'')], md_Path = \<lparr>fp_Dir = ''m'', fp_FileName = ''p.map''\<rparr>,
     md_Add = [], md_Update = [], md_Delete = []\<rparr>"


text \<open>A key with a space, as the path of a regular expression may have, comes back cut in two.\<close>

lemma map_key_with_space_cut:
  "ReadKeyValueFile (\<lambda>_. True) ''f'' (CHR '' '') [(''f'', map_text [(''/a b'', ''be'')])] = Inr [(''/a'', ''b be'')]"
  by (simp add: ReadKeyValueFile_def map_text_def scan_lines_def MaxScanTokenSize_def read_line_def drop_cr_def TrimSpace_def is_space_def)

end
