(* ===== verification/MapSync.thy ===== *)
theory MapSync
  imports MapStore
begin

text \<open>
  \<open>runtimeMapSync\<close> and \<open>getMapID\<close> of \<open>k8s/gate/haproxy/routes-maps.go\<close>: the changes of a
  cycle are applied to the maps of the running HAProxy.

  The runtime client is not part of the program: it is the argument \<open>client\<close>, on a state of its own, with
  the documented behaviour of its commands as the hypothesis \<open>client_laws\<close>.
\<close>

record 'w map_client =
  mc_ShowMaps :: "'w \<Rightarrow> (string \<times> string) list"
  mc_DeleteMapEntry :: "string \<Rightarrow> string \<Rightarrow> 'w \<Rightarrow> go_error \<times> 'w"
  mc_SetMapEntry :: "string \<Rightarrow> string \<Rightarrow> string \<Rightarrow> 'w \<Rightarrow> go_error \<times> 'w"
  mc_AddMapEntry :: "string \<Rightarrow> string \<Rightarrow> string \<Rightarrow> 'w \<Rightarrow> go_error \<times> 'w"

record map_sync_error =
  mse_Type :: string
  mse_MapName :: string
  mse_Key :: string
  mse_Value :: string
  mse_Err :: string

definition ErrMapRuntimeUpdate_Error :: "map_sync_error \<Rightarrow> string" where
  "ErrMapRuntimeUpdate_Error e = (let q = [CHR 0x27] in
     ''runtime '' @ mse_Type e @ '' map error: map '' @ q @ mse_MapName e @ q @ '', key '' @ q @ mse_Key e @ q
     @ '', value '' @ q @ mse_Value e @ q @ '': '' @ mse_Err e)"

definition getMapID :: "'w map_client \<Rightarrow> string \<Rightarrow> 'w \<Rightarrow> string" where
  "getMapID client fullPath w =
     (case find (\<lambda>m. snd m = fullPath) (mc_ShowMaps client w) of None \<Rightarrow> [] | Some m \<Rightarrow> CHR ''#'' # fst m)"

text \<open>\<open>strings.Contains\<close>.\<close>

definition str_contains :: "string \<Rightarrow> string \<Rightarrow> bool" where
  "str_contains s sub \<longleftrightarrow> list_ex (\<lambda>n. take (length sub) (drop n s) = sub) [0..<length s + 1]"

text \<open>A loop that stops at the first error.\<close>

fun until_error :: "('a \<Rightarrow> 'w \<Rightarrow> 'e option \<times> 'w) \<Rightarrow> 'a list \<Rightarrow> 'w \<Rightarrow> 'e option \<times> 'w" where
  "until_error f [] w = (None, w)"
| "until_error f (x # xs) w = (case f x w of (Some e, w') \<Rightarrow> (Some e, w') | (None, w') \<Rightarrow> until_error f xs w')"

definition map_not_found :: "string \<Rightarrow> map_data \<Rightarrow> string \<Rightarrow> string \<Rightarrow> map_sync_error" where
  "map_not_found ty m key val = \<lparr>mse_Type = ty, mse_MapName = FullPath (md_Path m), mse_Key = key, mse_Value = val, mse_Err = ''map not found''\<rparr>"

definition map_failed :: "string \<Rightarrow> map_data \<Rightarrow> string \<Rightarrow> string \<Rightarrow> string \<Rightarrow> map_sync_error" where
  "map_failed ty m key val err = \<lparr>mse_Type = ty, mse_MapName = fp_FileName (md_Path m), mse_Key = key, mse_Value = val, mse_Err = err\<rparr>"

definition sync_delete :: "'w map_client \<Rightarrow> map_data \<Rightarrow> string \<Rightarrow> 'w \<Rightarrow> map_sync_error option \<times> 'w" where
  "sync_delete client m key w =
     (let mapID = getMapID client (FullPath (md_Path m)) w in
      if mapID = [] then (Some (map_not_found ''update'' m key []), w)
      else case mc_DeleteMapEntry client mapID key w of
             (Some err, w') \<Rightarrow> (Some (map_failed ''delete'' m key [] err), w')
           | (None, w') \<Rightarrow> (None, w'))"

definition sync_update :: "'w map_client \<Rightarrow> map_data \<Rightarrow> string \<times> string \<Rightarrow> 'w \<Rightarrow> map_sync_error option \<times> 'w" where
  "sync_update client m e w =
     (let (key, val) = e; mapID = getMapID client (FullPath (md_Path m)) w in
      if mapID = [] then (Some (map_not_found ''update'' m key val), w)
      else case mc_SetMapEntry client mapID key val w of
             (Some err, w') \<Rightarrow> (Some (map_failed ''update'' m key val err), w')
           | (None, w') \<Rightarrow> (None, w'))"

definition sync_add :: "'w map_client \<Rightarrow> map_data \<Rightarrow> string \<times> string \<Rightarrow> 'w \<Rightarrow> map_sync_error option \<times> 'w" where
  "sync_add client m e w =
     (let (key, val) = e; mapID = getMapID client (FullPath (md_Path m)) w in
      if mapID = [] then (Some (map_not_found ''add'' m key val), w)
      else case mc_AddMapEntry client mapID key val w of
             (Some err, w') \<Rightarrow> if \<not> str_contains err ''already exists'' then (Some (map_failed ''add'' m key val err), w') else (None, w')
           | (None, w') \<Rightarrow> (None, w'))"

definition sync_map :: "'w map_client \<Rightarrow> map_data \<Rightarrow> 'w \<Rightarrow> map_sync_error option \<times> 'w" where
  "sync_map client m w =
     (case until_error (sync_delete client m) (rev (md_Delete m)) w of
        (Some e, w) \<Rightarrow> (Some e, w)
      | (None, w) \<Rightarrow>
          (case until_error (sync_update client m) (md_Update m) w of
             (Some e, w) \<Rightarrow> (Some e, w)
           | (None, w) \<Rightarrow> until_error (sync_add client m) (md_Add m) w))"

definition runtimeMapSync :: "'w map_client \<Rightarrow> maps_storage \<Rightarrow> 'w \<Rightarrow> map_sync_error option \<times> 'w" where
  "runtimeMapSync client ms w = until_error (\<lambda>(_, m). sync_map client m) (ms_Maps ms) w"

subsection \<open>The commands of HAProxy\<close>

text \<open>\<open>content w id\<close> are the entries of the map \<open>id\<close>.  A deletion or a change of an entry that exists
  and an addition of one that does not exist succeed and do just that; a change of a missing entry fails.\<close>

definition client_laws :: "'w map_client \<Rightarrow> ('w \<Rightarrow> string \<Rightarrow> string \<Rightarrow> string option) \<Rightarrow> bool" where
  "client_laws client content \<longleftrightarrow>
     (\<forall>w. distinct (map fst (mc_ShowMaps client w)))
     \<and> (\<forall>w i k. i \<in> fst ` set (mc_ShowMaps client w) \<and> content w i k \<noteq> None \<longrightarrow>
          (\<exists>w'. mc_DeleteMapEntry client (CHR ''#'' # i) k w = (None, w') \<and> mc_ShowMaps client w' = mc_ShowMaps client w
             \<and> content w' = (content w)(i := (content w i)(k := None))))
     \<and> (\<forall>w i k v. i \<in> fst ` set (mc_ShowMaps client w) \<and> content w i k \<noteq> None \<longrightarrow>
          (\<exists>w'. mc_SetMapEntry client (CHR ''#'' # i) k v w = (None, w') \<and> mc_ShowMaps client w' = mc_ShowMaps client w
             \<and> content w' = (content w)(i := (content w i)(k := Some v))))
     \<and> (\<forall>w i k v. i \<in> fst ` set (mc_ShowMaps client w) \<and> content w i k = None \<longrightarrow>
          (\<exists>w'. mc_AddMapEntry client (CHR ''#'' # i) k v w = (None, w') \<and> mc_ShowMaps client w' = mc_ShowMaps client w
             \<and> content w' = (content w)(i := (content w i)(k := Some v))))
     \<and> (\<forall>w i k v. i \<in> fst ` set (mc_ShowMaps client w) \<and> content w i k = None \<longrightarrow> fst (mc_SetMapEntry client (CHR ''#'' # i) k v w) \<noteq> None)"

text \<open>The map file \<open>f\<close> is loaded as \<open>i\<close>.\<close>

definition loaded :: "'w map_client \<Rightarrow> 'w \<Rightarrow> string \<Rightarrow> string \<Rightarrow> bool" where
  "loaded client w f i \<longleftrightarrow> (case find (\<lambda>m. snd m = f) (mc_ShowMaps client w) of None \<Rightarrow> False | Some m \<Rightarrow> fst m = i)"

lemma loaded_facts:
  assumes "loaded client w f i"
  shows "getMapID client f w = CHR ''#'' # i" "i \<in> fst ` set (mc_ShowMaps client w)" "(i, f) \<in> set (mc_ShowMaps client w)"
proof -
  obtain m where m: "find (\<lambda>m. snd m = f) (mc_ShowMaps client w) = Some m" "fst m = i"
    using assms by (auto simp: loaded_def split: option.splits)
  then show "getMapID client f w = CHR ''#'' # i" by (simp add: getMapID_def)
  have "m \<in> set (mc_ShowMaps client w)" "snd m = f" using m(1) by (auto simp: find_Some_iff)
  then show "i \<in> fst ` set (mc_ShowMaps client w)" "(i, f) \<in> set (mc_ShowMaps client w)" using m(2) by (cases m; force)+
qed

lemma loaded_same_maps: "mc_ShowMaps client w' = mc_ShowMaps client w \<Longrightarrow> loaded client w' f i = loaded client w f i"
  by (simp add: loaded_def)

lemma loaded_inj:
  assumes "client_laws client content" "loaded client w f i" "loaded client w g i" shows "f = g"
proof -
  have "distinct (map fst (mc_ShowMaps client w))" using assms(1) by (simp add: client_laws_def)
  then show ?thesis using loaded_facts(3)[OF assms(2)] loaded_facts(3)[OF assms(3)] by (metis eq_key_imp_eq_value)
qed

subsection \<open>The three loops\<close>

text \<open>The effect of a loop on the one map it is about.\<close>

definition changes :: "'w map_client \<Rightarrow> ('w \<Rightarrow> string \<Rightarrow> string \<Rightarrow> string option) \<Rightarrow> string \<Rightarrow> 'w \<Rightarrow> (string \<Rightarrow> string option) \<Rightarrow> 'e option \<times> 'w \<Rightarrow> bool" where
  "changes client content i w new r \<longleftrightarrow> fst r = None \<and> mc_ShowMaps client (snd r) = mc_ShowMaps client w \<and> content (snd r) = (content w)(i := new)"

lemma deletes_loop:
  assumes laws: "client_laws client content" and "loaded client w (FullPath (md_Path m)) i" "distinct ks" "set ks \<subseteq> dom (content w i)"
  shows "changes client content i w (\<lambda>k. if k \<in> set ks then None else content w i k) (until_error (sync_delete client m) ks w)"
  using assms(2-4)
proof (induction ks arbitrary: w)
  case (Cons k ks)
  note l = loaded_facts[OF Cons.prems(1)]
  obtain w' where w': "mc_DeleteMapEntry client (CHR ''#'' # i) k w = (None, w')" "mc_ShowMaps client w' = mc_ShowMaps client w"
    "content w' = (content w)(i := (content w i)(k := None))"
    using laws l(2) Cons.prems(3) unfolding client_laws_def by (metis domIff insert_subset list.simps(15))
  have "sync_delete client m k w = (None, w')" by (simp add: sync_delete_def l(1) w'(1) Let_def)
  moreover have "changes client content i w' (\<lambda>j. if j \<in> set ks then None else content w' i j) (until_error (sync_delete client m) ks w')"
    using Cons.prems by (intro Cons.IH) (auto simp: loaded_same_maps[OF w'(2)] w'(3))
  ultimately show ?case by (auto simp: changes_def w' fun_eq_iff)
qed (simp add: changes_def)

lemma updates_loop:
  assumes laws: "client_laws client content" and "loaded client w (FullPath (md_Path m)) i" "wf_map us" "mkeys us \<subseteq> dom (content w i)"
  shows "changes client content i w (content w i ++ map_of us) (until_error (sync_update client m) us w)"
  using assms(2-4)
proof (induction us arbitrary: w)
  case (Cons e us)
  obtain k v where e: "e = (k, v)" by (cases e)
  note l = loaded_facts[OF Cons.prems(1)]
  obtain w' where w': "mc_SetMapEntry client (CHR ''#'' # i) k v w = (None, w')" "mc_ShowMaps client w' = mc_ShowMaps client w"
    "content w' = (content w)(i := (content w i)(k := Some v))"
    using laws l(2) Cons.prems(3) unfolding client_laws_def e by (metis domIff insert_subset mkeys_Cons fst_conv)
  have "sync_update client m e w = (None, w')" by (simp add: sync_update_def l(1) w'(1) Let_def e)
  moreover have "changes client content i w' (content w' i ++ map_of us) (until_error (sync_update client m) us w')"
    using Cons.prems by (intro Cons.IH) (auto simp: loaded_same_maps[OF w'(2)] w'(3) wf_map_Cons e)
  moreover have "map_of us k = None" using Cons.prems(2) by (simp add: e wf_map_Cons map_of_None_mkeys)
  ultimately show ?case by (auto simp: changes_def w' fun_eq_iff e map_add_def split: option.splits)
qed (simp add: changes_def)

lemma adds_loop:
  assumes laws: "client_laws client content" and "loaded client w (FullPath (md_Path m)) i" "wf_map us" "mkeys us \<inter> dom (content w i) = {}"
  shows "changes client content i w (content w i ++ map_of us) (until_error (sync_add client m) us w)"
  using assms(2-4)
proof (induction us arbitrary: w)
  case (Cons e us)
  obtain k v where e: "e = (k, v)" by (cases e)
  note l = loaded_facts[OF Cons.prems(1)]
  have "content w i k = None" using Cons.prems(3) by (auto simp: e)
  then obtain w' where w': "mc_AddMapEntry client (CHR ''#'' # i) k v w = (None, w')" "mc_ShowMaps client w' = mc_ShowMaps client w"
    "content w' = (content w)(i := (content w i)(k := Some v))"
    using laws l(2) unfolding client_laws_def by metis
  have "sync_add client m e w = (None, w')" by (simp add: sync_add_def l(1) w'(1) Let_def e)
  moreover have k: "k \<notin> mkeys us" "map_of us k = None" using Cons.prems(2) by (simp_all add: e wf_map_Cons map_of_None_mkeys)
  moreover have "changes client content i w' (content w' i ++ map_of us) (until_error (sync_add client m) us w')"
    using Cons.prems k by (intro Cons.IH) (auto simp: loaded_same_maps[OF w'(2)] w'(3) wf_map_Cons e split: if_splits)
  ultimately show ?case by (auto simp: changes_def w' fun_eq_iff e map_add_def split: option.splits)
qed (simp add: changes_def)

subsection \<open>The changes of a cycle\<close>

datatype map_op = MAdd string string | MDel string

fun apply_op :: "map_op \<Rightarrow> map_data \<Rightarrow> map_data" where
  "apply_op (MAdd k v) m = AddData k v m"
| "apply_op (MDel k) m = DeleteData k m"

text \<open>The changes that the order of the three loops can carry out: no second addition of a new key, no deletion
  of a key that was changed in this cycle or is not there.\<close>

fun op_ok :: "map_data \<Rightarrow> map_op \<Rightarrow> bool" where
  "op_ok m (MAdd k v) \<longleftrightarrow> \<not> mhas (md_Add m) k"
| "op_ok m (MDel k) \<longleftrightarrow> mhas (md_data m) k \<and> \<not> mhas (md_Add m) k \<and> \<not> mhas (md_Update m) k"

fun ops_ok :: "map_data \<Rightarrow> map_op list \<Rightarrow> bool" where
  "ops_ok m [] \<longleftrightarrow> True"
| "ops_ok m (x # xs) \<longleftrightarrow> op_ok m x \<and> ops_ok (apply_op x m) xs"

text \<open>The recorded changes lead from \<open>D0\<close> to the data.\<close>

definition records :: "(string \<Rightarrow> string option) \<Rightarrow> map_data \<Rightarrow> bool" where
  "records D0 m \<longleftrightarrow> distinct (md_Delete m) \<and> wf_map (md_Update m) \<and> wf_map (md_Add m) \<and> set (md_Delete m) \<subseteq> dom D0
     \<and> mkeys (md_Update m) \<subseteq> dom D0 - set (md_Delete m) \<and> mkeys (md_Add m) \<inter> (dom D0 - set (md_Delete m)) = {}
     \<and> (\<forall>k. map_of (md_data m) k = (case map_of (md_Add m) k of Some v \<Rightarrow> Some v
          | None \<Rightarrow> (case map_of (md_Update m) k of Some v \<Rightarrow> Some v | None \<Rightarrow> if k \<in> set (md_Delete m) then None else D0 k)))"

lemma records_start: "records (map_of (md_data m)) (clear_updates m)"
  by (simp add: records_def clear_updates_def wf_map_def mkeys_def)

lemma records_lookup:
  assumes "records D0 m" "k \<notin> mkeys (md_Add m)"
  shows "map_of (md_data m) k \<noteq> None \<longleftrightarrow> k \<in> dom D0 - set (md_Delete m)"
proof -
  have a: "map_of (md_Add m) k = None" using assms(2) by (simp add: map_of_None_mkeys)
  have "map_of (md_data m) k = (case map_of (md_Update m) k of Some v \<Rightarrow> Some v | None \<Rightarrow> if k \<in> set (md_Delete m) then None else D0 k)"
    using assms(1) a by (simp add: records_def)
  moreover have "map_of (md_Update m) k \<noteq> None \<Longrightarrow> k \<in> dom D0 - set (md_Delete m)"
    using assms(1) by (auto simp: records_def map_of_None_mkeys)
  ultimately show ?thesis by (auto split: option.splits if_splits)
qed

lemma records_step:
  assumes r: "records D0 m" and ok: "op_ok m x" shows "records D0 (apply_op x m)"
proof (cases x)
  case (MAdd k v)
  have a: "k \<notin> mkeys (md_Add m)" using ok by (simp add: MAdd mhas_iff)
  note d = records_lookup[OF r a]
  show ?thesis
  proof (cases "mhas (md_data m) k")
    case True
    then have k: "k \<in> dom D0 - set (md_Delete m)" using d by (simp add: mhas_def)
    have "map_of (md_Add m) k = None" using a by (simp add: map_of_None_mkeys)
    then show ?thesis using r True k by (auto simp: MAdd AddData_def records_def map_of_mput wf_mput mkeys_mput split: option.splits)
  next
    case False
    then have k: "k \<notin> dom D0 - set (md_Delete m)" using d by (simp add: mhas_def)
    then show ?thesis using r False by (auto simp: MAdd AddData_def records_def map_of_mput wf_mput mkeys_mput split: option.splits)
  qed
next
  case (MDel k)
  have a: "k \<notin> mkeys (md_Add m)" "k \<notin> mkeys (md_Update m)" "map_of (md_data m) k \<noteq> None" using ok by (simp_all add: MDel mhas_iff map_of_None_mkeys)
  then have k: "k \<in> dom D0 - set (md_Delete m)" using records_lookup[OF r a(1)] by blast
  have "map_of (md_Add m) k = None" "map_of (md_Update m) k = None" using a by (simp_all add: map_of_None_mkeys)
  then show ?thesis using r k a by (auto simp: MDel DeleteData_def records_def map_of_mdel split: option.splits)
qed

lemma records_run: "records D0 m \<Longrightarrow> ops_ok m xs \<Longrightarrow> records D0 (fold apply_op xs m)"
  by (induction xs arbitrary: m) (auto intro: records_step)

lemma sync_map_ok:
  assumes laws: "client_laws client content" and l: "loaded client w (FullPath (md_Path m)) i" and r: "records (content w i) m"
  shows "changes client content i w (map_of (md_data m)) (sync_map client m w)"
proof -
  let ?D = "content w i" and ?L = "set (md_Delete m)"
  obtain e1 w1 where d: "until_error (sync_delete client m) (rev (md_Delete m)) w = (e1, w1)" by fastforce
  have "changes client content i w (\<lambda>k. if k \<in> ?L then None else ?D k) (e1, w1)"
    using deletes_loop[OF laws l, of "rev (md_Delete m)"] r d by (simp add: records_def)
  then have c1: "e1 = None" "mc_ShowMaps client w1 = mc_ShowMaps client w" "content w1 = (content w)(i := \<lambda>k. if k \<in> ?L then None else ?D k)"
    by (simp_all add: changes_def)
  have l1: "loaded client w1 (FullPath (md_Path m)) i" using l loaded_same_maps[OF c1(2)] by simp
  have dom1: "dom (content w1 i) = dom ?D - ?L" by (auto simp: c1(3) dom_def)
  obtain e2 w2 where u: "until_error (sync_update client m) (md_Update m) w1 = (e2, w2)" by fastforce
  have "changes client content i w1 (content w1 i ++ map_of (md_Update m)) (e2, w2)"
    using updates_loop[OF laws l1, of "md_Update m"] r u by (simp add: records_def dom1)
  then have c2: "e2 = None" "mc_ShowMaps client w2 = mc_ShowMaps client w1" "content w2 = (content w1)(i := content w1 i ++ map_of (md_Update m))"
    by (simp_all add: changes_def)
  have l2: "loaded client w2 (FullPath (md_Path m)) i" using l1 loaded_same_maps[OF c2(2)] by simp
  have "dom (content w2 i) = dom ?D - ?L" using r by (auto simp: c2(3) dom1 records_def dom_map_of_conv_image_fst mkeys_def)
  then have "changes client content i w2 (content w2 i ++ map_of (md_Add m)) (until_error (sync_add client m) (md_Add m) w2)"
    using adds_loop[OF laws l2, of "md_Add m"] r by (simp add: records_def)
  moreover have "content w2 i ++ map_of (md_Add m) = map_of (md_data m)"
    using r by (auto simp: records_def fun_eq_iff c2(3) c1(3) map_add_def split: option.splits)
  ultimately show ?thesis using c1 c2 by (simp add: sync_map_def d u changes_def)
qed

text \<open>Each map that is loaded gets the data it has in memory.\<close>

abbreviation map_file :: "map_data \<Rightarrow> string" where
  "map_file m \<equiv> FullPath (md_Path m)"

lemma sync_maps_ok:
  assumes laws: "client_laws client content"
    and "\<And>n m. (n, m) \<in> set ms \<Longrightarrow> loaded client w (map_file m) (i (map_file m)) \<and> records (content w (i (map_file m))) m"
    and "distinct (map (\<lambda>(n, m). map_file m) ms)"
  shows "\<exists>w'. until_error (\<lambda>(_, m). sync_map client m) ms w = (None, w')
    \<and> (\<forall>(n, m) \<in> set ms. content w' (i (map_file m)) = map_of (md_data m))
    \<and> (\<forall>j. j \<notin> (\<lambda>(n, m). i (map_file m)) ` set ms \<longrightarrow> content w' j = content w j)"
  using assms(2,3)
proof (induction ms arbitrary: w)
  case (Cons e ms)
  obtain n m where e: "e = (n, m)" by (cases e)
  let ?i = "i (map_file m)"
  have l: "loaded client w (map_file m) ?i" "records (content w ?i) m" using Cons.prems(1)[of n m] by (simp_all add: e)
  obtain w1 where w1: "sync_map client m w = (None, w1)" "mc_ShowMaps client w1 = mc_ShowMaps client w" "content w1 = (content w)(?i := map_of (md_data m))"
    using sync_map_ok[OF laws l] by (cases "sync_map client m w") (auto simp: changes_def)
  have ne: "i (map_file m') \<noteq> ?i" if "(n', m') \<in> set ms" for n' m'
  proof
    assume "i (map_file m') = ?i"
    then have "map_file m' = map_file m" using loaded_inj[OF laws] Cons.prems(1)[of n' m'] l(1) that by (metis list.set_intros(2))
    then show False using Cons.prems(2) that by (force simp: e)
  qed
  have "\<exists>w'. until_error (\<lambda>(_, m). sync_map client m) ms w1 = (None, w')
    \<and> (\<forall>(n, m) \<in> set ms. content w' (i (map_file m)) = map_of (md_data m))
    \<and> (\<forall>j. j \<notin> (\<lambda>(n, m). i (map_file m)) ` set ms \<longrightarrow> content w' j = content w1 j)"
  proof (rule Cons.IH)
    fix n' m' assume m': "(n', m') \<in> set ms"
    show "loaded client w1 (map_file m') (i (map_file m')) \<and> records (content w1 (i (map_file m'))) m'"
      using Cons.prems(1)[of n' m'] m' ne[OF m'] by (simp add: loaded_same_maps[OF w1(2)] w1(3))
  qed (use Cons.prems(2) in simp)
  then obtain w' where w': "until_error (\<lambda>(_, m). sync_map client m) ms w1 = (None, w')"
    "\<forall>(n, m) \<in> set ms. content w' (i (map_file m)) = map_of (md_data m)"
    "\<forall>j. j \<notin> (\<lambda>(n, m). i (map_file m)) ` set ms \<longrightarrow> content w' j = content w1 j" by blast
  have "?i \<notin> (\<lambda>(n, m). i (map_file m)) ` set ms" using ne by force
  then have "content w' ?i = map_of (md_data m)" using w'(3) w1(3) by simp
  then show ?case using w' w1 by (auto simp: e)
qed auto

lemma path_ops: "md_Path (fold apply_op ops m) = md_Path m"
proof -
  have "md_Path (apply_op x m) = md_Path m" for x m by (cases x) (simp_all add: AddData_def DeleteData_def Let_def)
  then show ?thesis by (induction ops arbitrary: m) simp_all
qed


subsection \<open>A running HAProxy\<close>

text \<open>A state is the list of the loaded maps: the identifier, the file and the entries.\<close>

type_synonym running = "(string \<times> string \<times> (string, string) gomap) list"

definition entries :: "running \<Rightarrow> string \<Rightarrow> string \<Rightarrow> string option" where
  "entries w i k = (case map_of w i of None \<Rightarrow> None | Some (f, d) \<Rightarrow> map_of d k)"

definition change :: "((string, string) gomap \<Rightarrow> (string, string) gomap) \<Rightarrow> string \<Rightarrow> running \<Rightarrow> running" where
  "change g i w = map (\<lambda>(j, f, d). (j, f, if j = i then g d else d)) w"

definition haproxy_maps :: "running map_client" where
  "haproxy_maps = \<lparr>mc_ShowMaps = (\<lambda>w. map (\<lambda>(i, f, d). (i, f)) (AList.clearjunk w)),
     mc_DeleteMapEntry = (\<lambda>i k w. if entries w (tl i) k = None then (Some ''Key not found.'', w) else (None, change (mdel k) (tl i) w)),
     mc_SetMapEntry = (\<lambda>i k v w. if entries w (tl i) k = None then (Some ''Key not found.'', w) else (None, change (mput k v) (tl i) w)),
     mc_AddMapEntry = (\<lambda>i k v w. if entries w (tl i) k = None then (None, change (mput k v) (tl i) w) else (Some ''already exists'', w))\<rparr>"

lemma map_of_change: "map_of (change g i w) j = map_option (\<lambda>(f, d). (f, if j = i then g d else d)) (map_of w j)"
  by (induction w) (auto simp: change_def)

lemma shown_change: "mc_ShowMaps haproxy_maps (change g i w) = mc_ShowMaps haproxy_maps w"
proof -
  have del: "AList.delete j (change g i w) = change g i (AList.delete j w)" for j and w :: running
    by (induction w) (auto simp: change_def)
  have "AList.clearjunk (change g i w) = change g i (AList.clearjunk w)"
  proof (induction w rule: clearjunk.induct)
    case (2 p w)
    obtain j f d where p: "p = (j, f, d)" by (cases p)
    have "change g i (p # w) = (j, f, if j = i then g d else d) # change g i w" by (simp add: change_def p)
    then show ?case using 2 by (simp add: del p) (simp add: change_def)
  qed (simp add: change_def)
  then show ?thesis by (simp add: haproxy_maps_def) (simp add: change_def comp_def split_def)
qed

lemma entries_change:
  assumes "i \<in> fst ` set (mc_ShowMaps haproxy_maps w)"
  shows "entries (change (mdel k) i w) = (entries w)(i := (entries w i)(k := None))"
    "entries (change (mput k v) i w) = (entries w)(i := (entries w i)(k := Some v))"
proof -
  have "i \<in> fst ` set (AList.clearjunk w)" using assms by (force simp: haproxy_maps_def)
  then have "map_of w i \<noteq> None" by (metis map_of_clearjunk weak_map_of_SomeI map_of_eq_None_iff)
  then show "entries (change (mdel k) i w) = (entries w)(i := (entries w i)(k := None))"
    "entries (change (mput k v) i w) = (entries w)(i := (entries w i)(k := Some v))"
    by (auto simp: fun_eq_iff entries_def map_of_change map_of_mdel map_of_mput split: option.splits)
qed

lemma haproxy_laws: "client_laws haproxy_maps entries"
proof -
  have "distinct (map fst (mc_ShowMaps haproxy_maps w))" for w
    by (simp add: haproxy_maps_def comp_def split_def distinct_clearjunk)
  moreover have "mc_DeleteMapEntry haproxy_maps (CHR ''#'' # i) k w = (if entries w i k = None then (Some ''Key not found.'', w) else (None, change (mdel k) i w))"
    "mc_SetMapEntry haproxy_maps (CHR ''#'' # i) k v w = (if entries w i k = None then (Some ''Key not found.'', w) else (None, change (mput k v) i w))"
    "mc_AddMapEntry haproxy_maps (CHR ''#'' # i) k v w = (if entries w i k = None then (None, change (mput k v) i w) else (Some ''already exists'', w))"
    for i k v w by (simp_all add: haproxy_maps_def)
  ultimately show ?thesis unfolding client_laws_def by (auto simp: shown_change entries_change)
qed

definition ex_changes :: "map_op list" where
  "ex_changes = [MDel ''b.com/'', MAdd ''a.com/'' ''be2'', MAdd ''c.com/'' ''be3'', MAdd ''a.com/'' ''be4'']"

definition ex_loaded :: map_data where
  "ex_loaded = \<lparr>md_data = [(''a.com/'', ''be1''), (''b.com/'', ''be1'')], md_Path = \<lparr>fp_Dir = ''m'', fp_FileName = ''p.map''\<rparr>,
     md_Add = [], md_Update = [], md_Delete = []\<rparr>"


text \<open>A new key that is added twice in a cycle is recorded as an addition and as a change; the change is tried first
  and fails, so that the key is never added.\<close>

lemma new_key_added_twice_fails:
  assumes "client_laws client content" "loaded client w (map_file m) i" "content w i = map_of (md_data m)" "map_of (md_data m) k = None"
  shows "fst (sync_map client (AddData k v2 (AddData k v1 (clear_updates m))) w) \<noteq> None"
proof -
  let ?m = "AddData k v2 (AddData k v1 (clear_updates m))"
  have m: "md_Delete ?m = []" "md_Update ?m = [(k, v2)]" "md_Path ?m = md_Path m"
    using assms(4) by (simp_all add: AddData_def clear_updates_def mhas_def map_of_mput Let_def)
  note l = loaded_facts[OF assms(2)]
  have "fst (mc_SetMapEntry client (CHR ''#'' # i) k v2 w) \<noteq> None"
    using assms(1,3,4) l(2) unfolding client_laws_def by metis
  then show ?thesis by (cases "mc_SetMapEntry client (CHR ''#'' # i) k v2 w") (auto simp: sync_map_def m sync_update_def l(1))
qed

text \<open>A key that is added and deleted in one cycle: the deletion is tried first, and a deletion of a missing key
  that goes through leaves the key in the running HAProxy although the storage no longer has it.\<close>

lemma added_then_deleted_recorded:
  assumes "map_of (md_data m) k = None"
  shows "let m' = DeleteData k (AddData k v (clear_updates m)) in md_Delete m' = [k] \<and> md_Add m' = [(k, v)] \<and> map_of (md_data m') k = None"
  using assms by (simp add: AddData_def DeleteData_def clear_updates_def mhas_def Let_def map_of_mdel)

end
