(* ===== verification/RouteMaps.thy ===== *)
theory RouteMaps
  imports RouteTree MapSync Decimal
begin

text \<open>
  \<open>k8s/gate/haproxy/routes.go\<close>, \<open>domains.go\<close> and the first part of \<open>routes-maps.go\<close>: the entries of
  the routes in the maps of their frontends.

  The names of frontends, backends and servers come from templates of the configuration
  (\<open>getFrontendName\<close>, \<open>getBackendName\<close>, \<open>getServerName\<close>), the hash of filters from JSON and
  MD5: \<open>hap_names\<close> holds these functions.  \<open>None\<close> is a panic: a match without a path, a path type without a
  map, or the missing resource of a route.
\<close>

record hap_names =
  hn_frontend :: "namespaced_name \<Rightarrow> string \<Rightarrow> string + string"
  hn_backend :: "namespaced_name \<Rightarrow> int \<Rightarrow> string \<Rightarrow> string + string"
  hn_server :: "string \<Rightarrow> int \<Rightarrow> string + string"
  hn_filterHash :: "http_filter list \<Rightarrow> string"

definition getFilterHash :: "hap_names \<Rightarrow> http_filter list \<Rightarrow> string" where
  "getFilterHash names filters = (if filters = [] then ''_'' else hn_filterHash names filters)"

definition isDomainWildcard :: "string \<Rightarrow> bool" where
  "isDomainWildcard domain = has_prefix domain ''*.''"

subsection \<open>The value of an entry\<close>

text \<open>The backends of a rule that passed their check and have a name, with their weights.\<close>

definition backend_port :: "backend_object_reference \<Rightarrow> int" where
  "backend_port r = (case bref_port r of None \<Rightarrow> 0 | Some p \<Rightarrow> p)"

definition map_backend :: "hap_names \<Rightarrow> string \<Rightarrow> 'r route_rule \<Rightarrow> backend_object_reference \<Rightarrow> int option \<Rightarrow> string \<Rightarrow> (string \<times> int) option" where
  "map_backend names routeNs rule ref weight filterHash =
     (case KeyMap_Get (rr_CheckBackendRef rule) ref of
        None \<Rightarrow> None
      | Some checkResult \<Rightarrow>
          if \<not> cr_Valid checkResult then None
          else let svckey = NamespacedName (case bref_namespace ref of None \<Rightarrow> routeNs | Some ns \<Rightarrow> ns) (bref_name ref)
               in case hn_backend names svckey (backend_port ref) filterHash of
                    Inl _ \<Rightarrow> None
                  | Inr backendName \<Rightarrow> Some (backendName, case weight of None \<Rightarrow> 0 | Some w \<Rightarrow> w))"

definition http_rule_backends :: "hap_names \<Rightarrow> string \<Rightarrow> http_route_rule route_rule \<Rightarrow> (string \<times> int) list" where
  "http_rule_backends names routeNs rule =
     List.map_filter (\<lambda>b. map_backend names routeNs rule (hb_ref b) (hb_weight b) (getFilterHash names (hb_filters b)))
       (hr_backendRefs (rr_K8sResource rule))"

definition tls_rule_backends :: "hap_names \<Rightarrow> string \<Rightarrow> tls_backend_ref list route_rule \<Rightarrow> (string \<times> int) list" where
  "tls_rule_backends names routeNs rule =
     List.map_filter (\<lambda>b. map_backend names routeNs rule (tb_ref b) (tb_weight b) []) (rr_K8sResource rule)"

definition weighted_value :: "(string \<times> int) list \<Rightarrow> string" where
  "weighted_value bs =
     (let q = [CHR 0x22] in
      ''{'' @ q @ ''a'' @ q @ '':'' @ q @ ''wr'' @ q @ '','' @ q @ ''l'' @ q @ '':'' @ q
        @ join '','' (map (\<lambda>(n, w). n @ '':'' @ itoa w) bs) @ q @ ''}'')"

definition http_route_value :: "(string \<times> int) list \<Rightarrow> string" where
  "http_route_value bs = (case bs of [] \<Rightarrow> [] | [b] \<Rightarrow> fst b | _ \<Rightarrow> weighted_value bs)"

definition tls_route_value :: "(string \<times> int) list \<Rightarrow> string" where
  "tls_route_value bs = (case bs of [b] \<Rightarrow> fst b | _ \<Rightarrow> weighted_value bs)"

subsection \<open>HTTP routes\<close>

record http_maps =
  hm_exact :: string
  hm_prefix :: string
  hm_regex :: string
  hm_wildcard :: string

text \<open>The path and the type of a match.\<close>

definition match_path :: "http_path_match option \<Rightarrow> (string \<times> string) option" where
  "match_path m = map_option (\<lambda>p. (case pm_value p of None \<Rightarrow> ''/'' | Some v \<Rightarrow> v, case pm_type p of None \<Rightarrow> ''PathPrefix'' | Some t \<Rightarrow> t)) m"

definition type_map :: "http_maps \<Rightarrow> string \<Rightarrow> string option" where
  "type_map hm pathType =
     (if pathType = ''Exact'' then Some (hm_exact hm)
      else if pathType = ''PathPrefix'' then Some (hm_prefix hm)
      else if pathType = ''RegularExpression'' then Some (hm_regex hm) else None)"

definition entry_map :: "http_maps \<Rightarrow> string \<Rightarrow> string \<Rightarrow> string option" where
  "entry_map hm pathType hostname =
     (if pathType = ''Exact'' \<and> isDomainWildcard hostname then Some (hm_wildcard hm) else type_map hm pathType)"

definition write_host :: "http_maps \<Rightarrow> string \<Rightarrow> (string \<Rightarrow> map_op) \<Rightarrow> string \<Rightarrow> string \<Rightarrow> maps_storage \<Rightarrow> maps_storage option" where
  "write_host hm pathType oper path hostname ms =
     (case entry_map hm pathType hostname of None \<Rightarrow> None
      | Some n \<Rightarrow> Some (update_map n (apply_op (oper (hostname @ path))) ms))"

definition onDeletedHTTPRoute :: "http_maps \<Rightarrow> http_route \<Rightarrow> maps_storage \<Rightarrow> maps_storage option" where
  "onDeletedHTTPRoute hm route ms =
     (case rt_K8sResource route of
        None \<Rightarrow> None
      | Some k8s \<Rightarrow>
          foldo (\<lambda>rule. foldo (\<lambda>mt ms. case match_path mt of
               None \<Rightarrow> None
             | Some (path, pathType) \<Rightarrow> foldo (write_host hm pathType MDel path) (hrk_hostnames k8s) ms)
            (hr_matches (rr_K8sResource rule))) (rt_Rules route) ms)"

definition rule_op :: "bool \<Rightarrow> string \<Rightarrow> string \<Rightarrow> map_op" where
  "rule_op valid value key = (if valid then MAdd key value else MDel key)"

definition write_match :: "http_maps \<Rightarrow> string list \<Rightarrow> string list \<Rightarrow> bool \<Rightarrow> string \<Rightarrow> http_path_match option \<Rightarrow> maps_storage \<Rightarrow> maps_storage option" where
  "write_match hm hostnames hosts valid routeValue mt ms =
     (case match_path mt of
        None \<Rightarrow> None
      | Some (path, pathType) \<Rightarrow>
          Option.bind (foldo (write_host hm pathType (rule_op valid routeValue) path) hostnames ms)
            (foldo (write_host hm pathType (rule_op valid routeValue) path) hosts))"

definition onValidHTTPRouteUpserted :: "hap_names \<Rightarrow> http_maps \<Rightarrow> string list \<Rightarrow> http_route \<Rightarrow> maps_storage \<Rightarrow> maps_storage option" where
  "onValidHTTPRouteUpserted names hm hosts route ms =
     (case rt_K8sResource route of
        None \<Rightarrow> None
      | Some k8s \<Rightarrow>
          foldo (\<lambda>rule. foldo (write_match hm (hrk_hostnames k8s) hosts (rr_Valid rule)
                 (http_route_value (http_rule_backends names (om_namespace (hrk_meta k8s)) rule)))
              (hr_matches (rr_K8sResource rule))) (rt_Rules route) ms)"

definition onUpsertedHTTPRoute :: "hap_names \<Rightarrow> http_maps \<Rightarrow> string list \<Rightarrow> http_route \<Rightarrow> maps_storage \<Rightarrow> maps_storage option" where
  "onUpsertedHTTPRoute names hm hosts route ms =
     (if rt_Valid route then onValidHTTPRouteUpserted names hm hosts route ms else Some ms)"

subsection \<open>TLS routes\<close>

text \<open>The caller has read the hostnames of the resource before, so that a missing resource panics in any case.\<close>

record tls_maps =
  tm_sni :: string
  tm_wildcard :: string

definition onDeletedTLSRoute :: "tls_maps \<Rightarrow> tls_route \<Rightarrow> maps_storage \<Rightarrow> maps_storage option" where
  "onDeletedTLSRoute tm route ms =
     (case rt_K8sResource route of
        None \<Rightarrow> None
      | Some k8s \<Rightarrow> Some (fold (\<lambda>h. update_map (if isDomainWildcard h then tm_wildcard tm else tm_sni tm) (DeleteData h)) (trk_hostnames k8s) ms))"

text \<open>One rule; \<open>inserted\<close> is the set \<open>hostnamesInserted\<close>, which starts empty for every rule.\<close>

definition write_sni :: "tls_maps \<Rightarrow> bool \<Rightarrow> string \<Rightarrow> string \<Rightarrow> string goset \<times> maps_storage \<Rightarrow> string goset \<times> maps_storage" where
  "write_sni tm valid routeValue hostname s =
     (case s of (inserted, ms) \<Rightarrow>
        if valid then
          (sput hostname inserted, update_map (if isDomainWildcard hostname then tm_wildcard tm else tm_sni tm) (AddData hostname routeValue) ms)
        else if \<not> mhas inserted hostname then (inserted, update_map (tm_sni tm) (DeleteData hostname) ms)
        else (inserted, ms))"

definition onValidTLSRouteUpserted :: "hap_names \<Rightarrow> tls_maps \<Rightarrow> string list \<Rightarrow> tls_route \<Rightarrow> maps_storage \<Rightarrow> maps_storage option" where
  "onValidTLSRouteUpserted names tm hosts route ms =
     (case rt_K8sResource route of
        None \<Rightarrow> None
      | Some k8s \<Rightarrow>
          Some (fold (\<lambda>rule ms. snd (fold (write_sni tm (rr_Valid rule)
                 (tls_route_value (tls_rule_backends names (om_namespace (trk_meta k8s)) rule))) hosts ([], ms)))
             (rt_Rules route) ms))"

definition onUpsertedTLSRoute :: "hap_names \<Rightarrow> tls_maps \<Rightarrow> string list \<Rightarrow> tls_route \<Rightarrow> maps_storage \<Rightarrow> maps_storage option" where
  "onUpsertedTLSRoute names tm hosts route ms =
     (if rt_Valid route then onValidTLSRouteUpserted names tm hosts route ms else Some ms)"

subsection \<open>All routes\<close>

text \<open>What the loops over the routes use besides the trees: the names, whether a map file can be opened, the
  disk and the base directory.\<close>

record maps_env =
  me_names :: hap_names
  me_can_open :: "string \<Rightarrow> bool"
  me_disk :: disk

text \<open>An error of the name template is only logged; the name is then empty.\<close>

definition frontend_of :: "hap_names \<Rightarrow> listener_ptr \<Rightarrow> string" where
  "frontend_of names l = (case hn_frontend names (lp_Owner l) (ls_name (lp_K8sResource l)) of Inl _ \<Rightarrow> [] | Inr n \<Rightarrow> n)"

definition ensure_named :: "maps_env \<Rightarrow> string \<Rightarrow> string \<Rightarrow> maps_storage \<Rightarrow> maps_storage" where
  "ensure_named env frontend mapName ms = EnsureMapData (me_can_open env) (me_disk env) (MapPath (ms_MapsBaseDir ms) frontend mapName) ms"

definition map_name :: "string \<Rightarrow> string \<Rightarrow> string \<Rightarrow> string" where
  "map_name baseDir frontend mapName = FullPath (MapPath baseDir frontend mapName)"

definition http_maps_of :: "maps_env \<Rightarrow> listener_ptr \<Rightarrow> maps_storage \<Rightarrow> http_maps \<times> maps_storage" where
  "http_maps_of env l ms =
     (let fe = frontend_of (me_names env) l; d = ms_MapsBaseDir ms in
      (\<lparr>hm_exact = map_name d fe PATH_EXACT_MAP, hm_prefix = map_name d fe PATH_PREFIX_MAP, hm_regex = map_name d fe PATH_REGEX_MAP,
        hm_wildcard = map_name d fe PATH_EXACT_DOMAIN_WILDCARD_MAP\<rparr>,
       fold (ensure_named env fe) [PATH_EXACT_MAP, PATH_PREFIX_MAP, PATH_REGEX_MAP, PATH_EXACT_DOMAIN_WILDCARD_MAP] ms))"

definition tls_maps_of :: "maps_env \<Rightarrow> listener_ptr \<Rightarrow> maps_storage \<Rightarrow> tls_maps \<times> maps_storage" where
  "tls_maps_of env l ms =
     (let fe = frontend_of (me_names env) l; d = ms_MapsBaseDir ms in
      (\<lparr>tm_sni = map_name d fe SNI_MAP, tm_wildcard = map_name d fe SNI_DOMAIN_WILDCARD_MAP\<rparr>,
       fold (ensure_named env fe) [SNI_MAP, SNI_DOMAIN_WILDCARD_MAP] ms))"

definition clean_http_route :: "maps_env \<Rightarrow> http_route tree_res \<Rightarrow> maps_storage \<Rightarrow> maps_storage option" where
  "clean_http_route env r ms =
     (case OldTreeResource (tr_status r) of
        None \<Rightarrow> Some ms
      | Some old \<Rightarrow> foldo (\<lambda>l ms. let (hm, ms) = http_maps_of env l ms in onDeletedHTTPRoute hm old ms) (route_ptrs old) ms)"

definition fill_http_route :: "maps_env \<Rightarrow> http_route tree_res \<Rightarrow> maps_storage \<Rightarrow> maps_storage option" where
  "fill_http_route env r ms = foldo (\<lambda>l ms.
     case rt_K8sResource (tr_core r) of
       None \<Rightarrow> None
     | Some k8s \<Rightarrow>
         (let hosts = GetHostnamesForRouteWithListener (ls_hostname (lp_K8sResource l)) (hrk_hostnames k8s);
              (hm, ms) = http_maps_of env l ms
          in case TreeStatus (tr_status r) of
               StatusUnchanged \<Rightarrow> Some ms
             | StatusUpserted \<Rightarrow> onUpsertedHTTPRoute (me_names env) hm hosts (tr_core r) ms
             | StatusDeleted \<Rightarrow> onDeletedHTTPRoute hm (tr_core r) ms))
     (route_ptrs (tr_core r)) ms"

definition fillMapsForHTTPRoutes :: "maps_env \<Rightarrow> http_route tree_map \<Rightarrow> maps_storage \<Rightarrow> maps_storage option" where
  "fillMapsForHTTPRoutes env routes ms =
     Option.bind (foldo (\<lambda>(_, r). clean_http_route env r) routes ms) (foldo (\<lambda>(_, r). fill_http_route env r) routes)"

definition clean_tls_route :: "maps_env \<Rightarrow> tls_route tree_res \<Rightarrow> maps_storage \<Rightarrow> maps_storage option" where
  "clean_tls_route env r ms =
     (case OldTreeResource (tr_status r) of
        None \<Rightarrow> Some ms
      | Some old \<Rightarrow> foldo (\<lambda>l ms. let (tm, ms) = tls_maps_of env l ms in onDeletedTLSRoute tm old ms) (route_ptrs old) ms)"

definition fill_tls_route :: "maps_env \<Rightarrow> tls_route tree_res \<Rightarrow> maps_storage \<Rightarrow> maps_storage option" where
  "fill_tls_route env r ms = foldo (\<lambda>l ms.
     case rt_K8sResource (tr_core r) of
       None \<Rightarrow> None
     | Some k8s \<Rightarrow>
         (let hosts = GetHostnamesForRouteWithListener (ls_hostname (lp_K8sResource l)) (trk_hostnames k8s);
              (tm, ms) = tls_maps_of env l ms
          in case TreeStatus (tr_status r) of
               StatusUnchanged \<Rightarrow> Some ms
             | StatusUpserted \<Rightarrow> onUpsertedTLSRoute (me_names env) tm hosts (tr_core r) ms
             | StatusDeleted \<Rightarrow> onDeletedTLSRoute tm (tr_core r) ms))
     (route_ptrs (tr_core r)) ms"

definition fillMapsForTLSRoutes :: "maps_env \<Rightarrow> tls_route tree_map \<Rightarrow> maps_storage \<Rightarrow> maps_storage option" where
  "fillMapsForTLSRoutes env routes ms =
     Option.bind (foldo (\<lambda>(_, r). clean_tls_route env r) routes ms) (foldo (\<lambda>(_, r). fill_tls_route env r) routes)"

definition fillMaps :: "maps_env \<Rightarrow> gate_tree \<Rightarrow> maps_storage \<Rightarrow> maps_storage option" where
  "fillMaps env t ms = Option.bind (fillMapsForHTTPRoutes env (HTTPRoutes t) ms) (fillMapsForTLSRoutes env (TLSRoutes t))"

definition writeMaps :: "bool \<Rightarrow> (string \<Rightarrow> write_outcome) \<Rightarrow> maps_storage \<Rightarrow> disk \<Rightarrow> disk" where
  "writeMaps storeMapsOnDisk io ms d =
     (if \<not> storeMapsOnDisk then d else fold (\<lambda>(_, m) d. snd (Maps_WriteOnDisk io m d)) (ms_Maps ms) d)"

record 'w maps_result =
  mr_storage :: maps_storage
  mr_disk :: disk
  mr_error :: "map_sync_error option"
  mr_runtime :: 'w

definition processRoutes :: "maps_env \<Rightarrow> bool \<Rightarrow> (string \<Rightarrow> write_outcome) \<Rightarrow> bool \<Rightarrow> 'w map_client \<Rightarrow> gate_tree \<Rightarrow> maps_storage \<Rightarrow> 'w
    \<Rightarrow> 'w maps_result option" where
  "processRoutes env storeMapsOnDisk io runtimeUpdate client t ms w =
     (let ms = ms\<lparr>ms_Maps := map (\<lambda>(n, m). (n, clear_updates m)) (ms_Maps ms)\<rparr> in
      case fillMaps env t ms of
        None \<Rightarrow> None
      | Some ms \<Rightarrow>
          (let d = writeMaps storeMapsOnDisk io ms (me_disk env);
               (e, w) = (if runtimeUpdate then runtimeMapSync client ms w else (None, w))
           in Some \<lparr>mr_storage = ms, mr_disk = d, mr_error = e, mr_runtime = w\<rparr>))"

subsection \<open>The entries of an HTTP route\<close>

text \<open>The entries as one flat list of writes: for each rule, match and hostname the map and the change.\<close>

definition host_writes :: "http_maps \<Rightarrow> string \<Rightarrow> (string \<Rightarrow> map_op) \<Rightarrow> string \<Rightarrow> string list \<Rightarrow> (string \<times> map_op) list" where
  "host_writes hm pathType oper path hostnames = map (\<lambda>h. (the (entry_map hm pathType h), oper (h @ path))) hostnames"

definition match_writes :: "http_maps \<Rightarrow> string list \<Rightarrow> bool \<Rightarrow> string \<Rightarrow> http_path_match option \<Rightarrow> (string \<times> map_op) list" where
  "match_writes hm hostnames valid value mt =
     (let (path, pathType) = the (match_path mt) in host_writes hm pathType (rule_op valid value) path hostnames)"

definition http_writes :: "hap_names \<Rightarrow> http_maps \<Rightarrow> http_route_k8s \<Rightarrow> string list \<Rightarrow> http_route_rule route_rule list \<Rightarrow> (string \<times> map_op) list" where
  "http_writes names hm k8s hosts rules =
     concat (map (\<lambda>rule. concat (map (match_writes hm (hrk_hostnames k8s @ hosts) (rr_Valid rule)
         (http_route_value (http_rule_backends names (om_namespace (hrk_meta k8s)) rule))) (hr_matches (rr_K8sResource rule)))) rules)"

definition known_types :: "string set" where
  "known_types = {''Exact'', ''PathPrefix'', ''RegularExpression''}"

text \<open>A match can be written when it has a path and, as soon as there is a hostname, a type with a map.\<close>

definition match_ok :: "string list \<Rightarrow> http_path_match option \<Rightarrow> bool" where
  "match_ok hostnames mt \<longleftrightarrow> (case match_path mt of None \<Rightarrow> False | Some (_, pathType) \<Rightarrow> hostnames = [] \<or> pathType \<in> known_types)"

abbreviation run_write :: "string \<times> map_op \<Rightarrow> maps_storage \<Rightarrow> maps_storage" where
  "run_write w \<equiv> update_map (fst w) (apply_op (snd w))"

lemma entry_map_known: "entry_map hm pathType h \<noteq> None \<longleftrightarrow> pathType \<in> known_types"
  by (auto simp: entry_map_def type_map_def known_types_def)

lemma write_hosts:
  "foldo (write_host hm pathType oper path) hs ms =
     (if hs = [] \<or> pathType \<in> known_types then Some (fold run_write (host_writes hm pathType oper path hs) ms) else None)"
proof (cases "pathType \<in> known_types")
  case True
  then have e: "entry_map hm pathType h = Some (the (entry_map hm pathType h))" for h using entry_map_known[of hm pathType h] by auto
  have "write_host hm pathType oper path h ms = Some (update_map (the (entry_map hm pathType h)) (apply_op (oper (h @ path))) ms)" for h ms
    unfolding write_host_def by (subst e) simp
  then have "foldo (write_host hm pathType oper path) hs ms = Some (fold run_write (host_writes hm pathType oper path hs) ms)"
    by (induction hs arbitrary: ms) (simp_all add: host_writes_def)
  then show ?thesis using True by simp
next
  case False
  then have "write_host hm pathType oper path h ms = None" for h ms using entry_map_known[of hm pathType h] by (simp add: write_host_def)
  then show ?thesis using False by (cases hs) (simp_all add: host_writes_def)
qed

lemma write_match_flat:
  "write_match hm hostnames hosts valid value mt ms =
     (if match_ok (hostnames @ hosts) mt then Some (fold run_write (match_writes hm (hostnames @ hosts) valid value mt) ms) else None)"
  by (cases "match_path mt"; cases "hostnames = []") (auto simp: write_match_def match_ok_def write_hosts match_writes_def host_writes_def split: if_splits)

lemma foldo_flat:
  assumes "\<And>x s. x \<in> set xs \<Longrightarrow> f x s = (if ok x then Some (fold run_write (ws x) s) else None)"
  shows "foldo f xs s = (if list_all ok xs then Some (fold run_write (concat (map ws xs)) s) else None)"
  using assms by (induction xs arbitrary: s) auto

lemma onValidHTTPRoute_flat:
  assumes "rt_K8sResource route = Some k8s"
  shows "onValidHTTPRouteUpserted names hm hosts route ms =
    (if list_all (\<lambda>rule. list_all (match_ok (hrk_hostnames k8s @ hosts)) (hr_matches (rr_K8sResource rule))) (rt_Rules route)
     then Some (fold run_write (http_writes names hm k8s hosts (rt_Rules route)) ms) else None)"
  unfolding onValidHTTPRouteUpserted_def assms option.case http_writes_def
  by (rule foldo_flat, rule foldo_flat) (rule write_match_flat)

subsection \<open>Lookups after a list of writes\<close>

definition map_lookup :: "maps_storage \<Rightarrow> string \<Rightarrow> string \<Rightarrow> string option" where
  "map_lookup ms n k = (case map_of (ms_Maps ms) n of None \<Rightarrow> None | Some m \<Rightarrow> map_of (md_data m) k)"

fun op_key :: "map_op \<Rightarrow> string" where "op_key (MAdd k v) = k" | "op_key (MDel k) = k"
fun op_result :: "map_op \<Rightarrow> string option" where "op_result (MAdd k v) = Some v" | "op_result (MDel k) = None"

text \<open>The last write to a key of a map.\<close>

definition last_write :: "string \<Rightarrow> string \<Rightarrow> (string \<times> map_op) list \<Rightarrow> string option option" where
  "last_write n k ws = (case filter (\<lambda>w. fst w = n \<and> op_key (snd w) = k) ws of [] \<Rightarrow> None | xs \<Rightarrow> Some (op_result (snd (last xs))))"

lemma lookup_run_write:
  assumes "mhas (ms_Maps ms) n"
  shows "map_lookup (run_write w ms) n k = (if fst w = n \<and> op_key (snd w) = k then op_result (snd w) else map_lookup ms n k)"
    "mhas (ms_Maps (run_write w ms)) n"
proof -
  have d: "map_of (md_data (apply_op x m)) k = (if op_key x = k then op_result x else map_of (md_data m) k)" for x m
    by (cases x) (auto simp: AddData_def DeleteData_def Let_def map_of_mput map_of_mdel)
  show "map_lookup (run_write w ms) n k = (if fst w = n \<and> op_key (snd w) = k then op_result (snd w) else map_lookup ms n k)"
    using assms by (cases "map_of (ms_Maps ms) (fst w)") (auto simp: map_lookup_def update_map_def d mhas_def map_of_mput)
  show "mhas (ms_Maps (run_write w ms)) n"
    using assms by (cases "map_of (ms_Maps ms) (fst w)") (auto simp: update_map_def mhas_def map_of_mput)
qed

lemma last_write_snoc:
  "last_write n k (ws @ [w]) = (if fst w = n \<and> op_key (snd w) = k then Some (op_result (snd w)) else last_write n k ws)"
  by (cases "filter (\<lambda>w. fst w = n \<and> op_key (snd w) = k) ws") (auto simp: last_write_def)

lemma lookup_run_writes:
  assumes "mhas (ms_Maps ms) n"
  shows "map_lookup (fold run_write ws ms) n k = (case last_write n k ws of None \<Rightarrow> map_lookup ms n k | Some v \<Rightarrow> v)"
    "mhas (ms_Maps (fold run_write ws ms)) n"
proof -
  have "mhas (ms_Maps (fold run_write ws ms)) n
    \<and> map_lookup (fold run_write ws ms) n k = (case last_write n k ws of None \<Rightarrow> map_lookup ms n k | Some v \<Rightarrow> v)"
  proof (induction ws rule: rev_induct)
    case Nil
    then show ?case using assms by (simp add: last_write_def)
  next
    case (snoc w ws)
    then have h: "mhas (ms_Maps (fold run_write ws ms)) n" by simp
    show ?case using snoc lookup_run_write(1)[OF h, of w k] lookup_run_write(2)[OF h, of w] by (simp add: last_write_snoc)
  qed
  then show "mhas (ms_Maps (fold run_write ws ms)) n"
    "map_lookup (fold run_write ws ms) n k = (case last_write n k ws of None \<Rightarrow> map_lookup ms n k | Some v \<Rightarrow> v)" by simp_all
qed


definition ex_names :: hap_names where
  "ex_names = \<lparr>hn_frontend = (\<lambda>g l. Inr (nn_name g @ ''_'' @ l)), hn_backend = (\<lambda>s p f. Inr (nn_name s)), hn_server = (\<lambda>a p. Inr a), hn_filterHash = (\<lambda>_. ''h'')\<rparr>"

definition ex_backend_ref :: "string \<Rightarrow> int \<Rightarrow> http_backend_ref" where
  "ex_backend_ref n w = \<lparr>hb_ref = BackendObjectReference None None None n (Some 80),
     hb_weight = Some w, hb_filters = []\<rparr>"

definition ex_tree_rule :: "http_route_rule route_rule" where
  "ex_tree_rule = (let k8s = \<lparr>hr_matches = [Some \<lparr>pm_type = Some ''Exact'', pm_value = Some ''/x''\<rparr>], hr_filters = [],
       hr_backendRefs = [ex_backend_ref ''be1'' 70, ex_backend_ref ''be2'' 30]\<rparr>
     in \<lparr>rr_K8sResource = k8s, rr_CheckBackendRef = fold (\<lambda>b. KeyMap_Set (hb_ref b) \<lparr>cr_Conditions = [], cr_Valid = True\<rparr>) (hr_backendRefs k8s)
         (NewKeyMap BackendObjectReferenceToKey), rr_Valid = True\<rparr>)"

definition ex_route_k8s :: http_route_k8s where
  "ex_route_k8s = \<lparr>hrk_meta = meta0\<lparr>om_name := ''r''\<rparr>, hrk_parentRefs = [], hrk_hostnames = [''a.com'', ''*.b.com''], hrk_rules = [], hrk_statusParents = []\<rparr>"

definition ex_tree_route :: http_route where
  "ex_tree_route = (tr_core (NewRoute ex_route_k8s ''hug''))\<lparr>rt_Rules := [ex_tree_rule], rt_Valid := True\<rparr>"

definition ex_http_maps :: http_maps where
  "ex_http_maps = \<lparr>hm_exact = ''e'', hm_prefix = ''p'', hm_regex = ''r'', hm_wildcard = ''w''\<rparr>"

definition ex_maps :: maps_storage where
  "ex_maps = \<lparr>ms_Maps = map (\<lambda>n. (n, \<lparr>md_data = [], md_Path = \<lparr>fp_Dir = ''m'', fp_FileName = n\<rparr>, md_Add = [], md_Update = [], md_Delete = []\<rparr>)) [''e'', ''p'', ''r'', ''w''],
     ms_MapsBaseDir = ''m''\<rparr>"

lemma ex_route_writes:
  "last_write ''w'' ''*.b.com/x'' (http_writes ex_names ex_http_maps ex_route_k8s [''a.com''] (rt_Rules ex_tree_route)) = Some (Some (weighted_value [(''be1'', 70), (''be2'', 30)]))"
  "list_all (\<lambda>rule. list_all (match_ok (hrk_hostnames ex_route_k8s @ [''a.com''])) (hr_matches (rr_K8sResource rule))) (rt_Rules ex_tree_route)"
  by code_simp+


subsection \<open>What stays in the maps\<close>

lemma no_listeners: "km_data (rt_Listeners r) = [] \<Longrightarrow> route_ptrs r = []"
  by (simp add: route_ptrs_def)

lemma copied_listeners: "route_ptrs (route_copy r) = []"
proof -
  have "fold (\<lambda>(k, v) d. case None of None \<Rightarrow> d | Some c \<Rightarrow> mput k (c v) d) xs [] = []" for xs :: "(string \<times> listener_ptr list) list"
    by (induction xs) auto
  then show ?thesis by (intro no_listeners) (simp add: route_copy_def KeyMap_DeepCopy_def NewKeyMap_def)
qed

text \<open>A deleted route has no listeners any more, neither the node nor the copy it keeps of its last state, so that
  its entries are never removed from the maps.\<close>

lemma deleted_http_route_keeps_entries:
  assumes "r' = Route_SetAsDeleted HTTPRoute_kind r"
  shows "clean_http_route env (r'\<lparr>tr_core := Route_ResetChecks (tr_core r')\<rparr>) ms = Some ms"
    "fill_http_route env (r'\<lparr>tr_core := Route_ResetChecks (tr_core r')\<rparr>) ms = Some ms"
proof -
  have "route_ptrs (Route_ResetChecks (tr_core r')) = []" by (rule no_listeners) (simp add: Route_ResetChecks_def KeyMap_Clear_def)
  then show "fill_http_route env (r'\<lparr>tr_core := Route_ResetChecks (tr_core r')\<rparr>) ms = Some ms" by (simp add: fill_http_route_def)
  show "clean_http_route env (r'\<lparr>tr_core := Route_ResetChecks (tr_core r')\<rparr>) ms = Some ms"
    by (simp add: copied_listeners clean_http_route_def assms Route_SetAsDeleted_def set_route_status_def Let_def)
qed

lemma deleted_tls_route_keeps_entries:
  assumes "r' = Route_SetAsDeleted TLSRoute_kind r"
  shows "clean_tls_route env (r'\<lparr>tr_core := Route_ResetChecks (tr_core r')\<rparr>) ms = Some ms"
    "fill_tls_route env (r'\<lparr>tr_core := Route_ResetChecks (tr_core r')\<rparr>) ms = Some ms"
proof -
  have "route_ptrs (Route_ResetChecks (tr_core r')) = []" by (rule no_listeners) (simp add: Route_ResetChecks_def KeyMap_Clear_def)
  then show "fill_tls_route env (r'\<lparr>tr_core := Route_ResetChecks (tr_core r')\<rparr>) ms = Some ms" by (simp add: fill_tls_route_def)
  show "clean_tls_route env (r'\<lparr>tr_core := Route_ResetChecks (tr_core r')\<rparr>) ms = Some ms"
    by (simp add: copied_listeners clean_tls_route_def assms Route_SetAsDeleted_def set_route_status_def Let_def)
qed

text \<open>A hostname of the route that the listener accepts is written twice, by the loop over the hostnames of the
  route and by the loop over the accepted ones; for a new key the synchronisation then fails
  (\<open>new_key_added_twice_fails\<close>).\<close>

lemma accepted_host_written_twice:
  "filter (\<lambda>w. op_key (snd w) = ''a.com/x'') (http_writes ex_names ex_http_maps ex_route_k8s [''a.com''] (rt_Rules ex_tree_route))
     = [(''e'', MAdd ''a.com/x'' (weighted_value [(''be1'', 70), (''be2'', 30)])), (''e'', MAdd ''a.com/x'' (weighted_value [(''be1'', 70), (''be2'', 30)]))]"
  by code_simp

text \<open>The set of inserted hostnames starts again with every rule: an invalid rule deletes the entry that a valid rule before
  it has added.\<close>

lemma invalid_tls_rule_deletes_entry:
  assumes "rt_K8sResource route = Some k8s" "rt_Rules route = [r1, r2]" "rr_Valid r1" "\<not> rr_Valid r2" "\<not> isDomainWildcard h" "mhas (ms_Maps ms) (tm_sni tm)"
  shows "\<exists>ms'. onValidTLSRouteUpserted names tm [h] route ms = Some ms' \<and> map_lookup ms' (tm_sni tm) h = None"
proof -
  let ?v = "tls_route_value (tls_rule_backends names (om_namespace (trk_meta k8s)) r1)"
  have ops: "apply_op (MAdd h ?v) = AddData h ?v" "apply_op (MDel h) = DeleteData h" by (simp_all add: fun_eq_iff)
  have "onValidTLSRouteUpserted names tm [h] route ms = Some (fold run_write [(tm_sni tm, MAdd h ?v), (tm_sni tm, MDel h)] ms)"
    by (simp add: onValidTLSRouteUpserted_def assms write_sni_def mhas_def ops)
  then show ?thesis using lookup_run_writes(1)[OF assms(6), of "[(tm_sni tm, MAdd h ?v), (tm_sni tm, MDel h)]" h] by (simp add: last_write_def)
qed

end
