(* ===== verification/Backends.thy ===== *)
theory Backends
  imports BackendOwners RouteMaps
begin

text \<open>
  \<open>k8s/gate/haproxy/backends.go\<close>: the backends of the HTTP and TLS routes.  A cycle first records which backends the
  changed routes reference (the owners) and which backends are impacted, and then changes the configuration.

  The code for both kinds of route is the same up to the kind of owner and the filters, so the functions here take
  these as arguments; the two instances follow them.  \<open>mergo.Merge\<close>, which merges a \<open>Backend\<close> resource
  with its name cleared into a new backend, is the function \<open>cp_merge\<close>; its first argument tells whether slices are
  appended.  \<open>None\<close> is a panic: the missing resource of a valid route.
\<close>

subsection \<open>The state of the manager\<close>

record conf_params =
  cp_names :: hap_names
  cp_LinkID :: string
  cp_DefaultsSectionName :: string
  cp_extractGVK :: "k8s_object \<Rightarrow> gvk"
  cp_merge :: "bool \<Rightarrow> backend_cr \<Rightarrow> backend \<Rightarrow> string + backend"

record backend_impacted =
  ib_Name :: string
  ib_HTTPRouteKey :: namespaced_name
  ib_BackendRef :: http_backend_ref

record backends_impacted =
  ic_Upserted :: "(string, (namespaced_name, backend_impacted) gomap) gomap"
  ic_Deleted :: "string goset"
  ic_Unreferenced :: "string goset"

definition no_impact :: backends_impacted where
  "no_impact = \<lparr>ic_Upserted = [], ic_Deleted = [], ic_Unreferenced = []\<rparr>"

record first_sync =
  fs_frontends :: "string goset"
  fs_backends :: "string goset"
  fs_flag :: bool

record frontends_owned =
  fo_current :: "(namespaced_name, string goset) gomap"
  fo_byUpdatedGateways :: "(namespaced_name, string goset) gomap"

record conf_mgr =
  cm_impacted :: backends_impacted
  cm_frontendsOwned :: frontends_owned
  cm_owners :: backend_owners
  cm_conf :: configuration
  cm_firstSync :: first_sync

definition NewHaproxyConfMgr :: "configuration \<Rightarrow> conf_mgr" where
  "NewHaproxyConfMgr startup =
     \<lparr>cm_impacted = no_impact, cm_frontendsOwned = \<lparr>fo_current = [], fo_byUpdatedGateways = []\<rparr>, cm_owners = NewBackendOwners,
      cm_conf = startup, cm_firstSync = \<lparr>fs_frontends = [], fs_backends = [], fs_flag = True\<rparr>\<rparr>"

subsection \<open>Impacted backends\<close>

definition http_backend_ref0 :: http_backend_ref where
  "http_backend_ref0 = \<lparr>hb_ref = BackendObjectReference None None None [] None, hb_weight = None, hb_filters = []\<rparr>"

definition addImpactedBackendUpserted :: "string \<Rightarrow> namespaced_name \<Rightarrow> http_backend_ref \<Rightarrow> conf_mgr \<Rightarrow> conf_mgr" where
  "addImpactedBackendUpserted backendName routeKey ref b =
     (let ups = ic_Upserted (cm_impacted b);
          impactedBe = \<lparr>ib_Name = backendName, ib_HTTPRouteKey = routeKey, ib_BackendRef = ref\<rparr>
      in b\<lparr>cm_impacted := (cm_impacted b)\<lparr>ic_Upserted := mput backendName (mput routeKey impactedBe (map_get_default [] ups backendName)) ups\<rparr>\<rparr>)"

definition addImpactedBackendDeleted :: "string \<Rightarrow> conf_mgr \<Rightarrow> conf_mgr" where
  "addImpactedBackendDeleted backendName b =
     b\<lparr>cm_impacted := (cm_impacted b)\<lparr>ic_Deleted := sput backendName (ic_Deleted (cm_impacted b))\<rparr>\<rparr>"

definition addImpactedBackendUnreferenced :: "string \<Rightarrow> conf_mgr \<Rightarrow> conf_mgr" where
  "addImpactedBackendUnreferenced backendName b =
     b\<lparr>cm_impacted := (cm_impacted b)\<lparr>ic_Unreferenced := sput backendName (ic_Unreferenced (cm_impacted b))\<rparr>\<rparr>"

subsection \<open>The references of a route\<close>

text \<open>A reference with its filter hash and what is kept of it for the impacted backend.\<close>

type_synonym rule_ref = "backend_object_reference \<times> string \<times> http_backend_ref"

definition http_rule_refs :: "conf_params \<Rightarrow> http_route_rule \<Rightarrow> rule_ref list" where
  "http_rule_refs p rule = map (\<lambda>b. (hb_ref b, getFilterHash (cp_names p) (hb_filters b), b)) (hr_backendRefs rule)"

definition tls_rule_refs :: "tls_backend_ref list \<Rightarrow> rule_ref list" where
  "tls_rule_refs rule = map (\<lambda>b. (tb_ref b, [], http_backend_ref0)) rule"

definition upsert_ref :: "conf_params \<Rightarrow> backend_owner_type \<Rightarrow> namespaced_name \<Rightarrow> objmeta \<Rightarrow> (backend_object_reference, check_result) key_map
    \<Rightarrow> rule_ref \<Rightarrow> string list \<times> string goset \<times> conf_mgr \<Rightarrow> string list \<times> string goset \<times> conf_mgr" where
  "upsert_ref p ownerType routeKey meta checks = (\<lambda>(ref, filterHash, httpRef) (errs, upserted, b).
     case hn_backend (cp_names p) (ServiceNsNameKey (om_namespace meta) ref) (backend_port ref) filterHash of
       Inl err \<Rightarrow> (Errors_Add [Some err] errs, upserted, b)
     | Inr beName \<Rightarrow>
         (case KeyMap_Get checks ref of
            None \<Rightarrow> (errs, upserted, b)
          | Some checkResult \<Rightarrow>
              if \<not> cr_Valid checkResult then (errs, upserted, b)
              else (case addRoute ownerType beName routeKey (Some (om_generation meta)) (cm_owners b) of
                      (Some err, _) \<Rightarrow> (Errors_Add [Some err] errs, upserted, b)
                    | (None, bo) \<Rightarrow> (errs, sput beName upserted, addImpactedBackendUpserted beName routeKey httpRef (b\<lparr>cm_owners := bo\<rparr>)))))"

definition upsert_rules :: "conf_params \<Rightarrow> backend_owner_type \<Rightarrow> ('r \<Rightarrow> rule_ref list) \<Rightarrow> namespaced_name \<Rightarrow> objmeta \<Rightarrow> 'r route_rule list
    \<Rightarrow> conf_mgr \<Rightarrow> string list \<times> string goset \<times> conf_mgr" where
  "upsert_rules p ownerType refs routeKey meta rules b =
     fold (\<lambda>rule s. if rr_Valid rule then fold (upsert_ref p ownerType routeKey meta (rr_CheckBackendRef rule)) (refs (rr_K8sResource rule)) s else s)
       rules ([], [], b)"

definition drop_unreferenced :: "backend_owner_type \<Rightarrow> namespaced_name \<Rightarrow> string goset \<Rightarrow> conf_mgr \<Rightarrow> conf_mgr" where
  "drop_unreferenced ownerType routeKey upserted b =
     fold (\<lambda>(beName, _) b. addImpactedBackendUnreferenced beName (b\<lparr>cm_owners := owners_remove beName ownerType routeKey (cm_owners b)\<rparr>))
       (SetDifference (getBackendsReferencedBy ownerType routeKey (cm_owners b)) upserted) b"

definition upsertRouteBackends :: "conf_params \<Rightarrow> backend_owner_type \<Rightarrow> ('k \<Rightarrow> objmeta) \<Rightarrow> ('r \<Rightarrow> rule_ref list) \<Rightarrow> namespaced_name \<Rightarrow> ('k, 'r) route
    \<Rightarrow> conf_mgr \<Rightarrow> (go_error \<times> conf_mgr) option" where
  "upsertRouteBackends p ownerType meta refs routeKey route b =
     (case rt_K8sResource route of
        None \<Rightarrow> if list_ex (\<lambda>r. rr_Valid r \<and> refs (rr_K8sResource r) \<noteq> []) (rt_Rules route) then None
                else Some (None, drop_unreferenced ownerType routeKey [] b)
      | Some k8s \<Rightarrow>
          (let (errs, upserted, b) = upsert_rules p ownerType refs routeKey (meta k8s) (rt_Rules route) b
           in Some (Errors_Result errs, drop_unreferenced ownerType routeKey upserted b)))"

text \<open>\<open>onInvalidHTTPRouteUpserted\<close>, \<open>onDeletedHTTPRoute\<close> and their TLS forms.\<close>

definition release_route :: "backend_owner_type \<Rightarrow> namespaced_name \<Rightarrow> conf_mgr \<Rightarrow> conf_mgr" where
  "release_route ownerType routeKey b =
     fold (\<lambda>(beName, _) b. addImpactedBackendDeleted beName (b\<lparr>cm_owners := owners_remove beName ownerType routeKey (cm_owners b)\<rparr>))
       (getBackendsReferencedBy ownerType routeKey (cm_owners b)) b"

definition onUpsertedRoute :: "conf_params \<Rightarrow> backend_owner_type \<Rightarrow> ('k \<Rightarrow> objmeta) \<Rightarrow> ('r \<Rightarrow> rule_ref list) \<Rightarrow> namespaced_name \<Rightarrow> ('k, 'r) route
    \<Rightarrow> conf_mgr \<Rightarrow> (go_error \<times> conf_mgr) option" where
  "onUpsertedRoute p ownerType meta refs routeKey route b =
     (if rt_Valid route then upsertRouteBackends p ownerType meta refs routeKey route b else Some (None, release_route ownerType routeKey b))"

definition process_route :: "conf_params \<Rightarrow> backend_owner_type \<Rightarrow> ('k \<Rightarrow> objmeta) \<Rightarrow> ('r \<Rightarrow> rule_ref list) \<Rightarrow> namespaced_name \<times> ('k, 'r) route tree_res
    \<Rightarrow> string list \<times> conf_mgr \<Rightarrow> (string list \<times> conf_mgr) option" where
  "process_route p ownerType meta refs = (\<lambda>(routeKey, route) (errs, b).
     case TreeStatus (tr_status route) of
       StatusUnchanged \<Rightarrow> Some (errs, b)
     | StatusUpserted \<Rightarrow> map_option (\<lambda>(err, b). (Errors_Add [err] errs, b)) (onUpsertedRoute p ownerType meta refs routeKey (tr_core route) b)
     | StatusDeleted \<Rightarrow> Some (errs, release_route ownerType routeKey b))"

definition cleanupUnreferencedBackends :: "conf_mgr \<Rightarrow> conf_mgr" where
  "cleanupUnreferencedBackends b =
     (let (bo, deleted) = cleanupUnreferencedBackendsForType BackendOwnerTypeTLSRoute
            (cleanupUnreferencedBackendsForType BackendOwnerTypeHTTPRoute (cm_owners b, ic_Deleted (cm_impacted b)))
      in b\<lparr>cm_owners := bo, cm_impacted := (cm_impacted b)\<lparr>ic_Deleted := deleted\<rparr>\<rparr>)"

subsection \<open>New backends\<close>

text \<open>One filter: \<open>MergeType\<close> filters set how the following merges treat slices.\<close>

definition merge_filter :: "conf_params \<Rightarrow> (namespaced_name, backend_cr) gomap \<Rightarrow> string \<Rightarrow> http_filter
    \<Rightarrow> string list \<times> bool \<times> backend \<Rightarrow> string list \<times> bool \<times> backend" where
  "merge_filter p crs ns flt = (\<lambda>(errs, appendSlice, be).
     if hf_type flt \<noteq> ''ExtensionRef'' then (errs, appendSlice, be)
     else
       let supported = IsFilterExtensionRefKindSupported (hf_extensionRef flt) (cp_extractGVK p);
           mergeType = IsFilterExtensionRefKindMergeType (hf_extensionRef flt) (cp_extractGVK p)
       in if \<not> (supported \<or> mergeType) then (errs, appendSlice, be)
          else case hf_extensionRef flt of
            None \<Rightarrow> (errs, appendSlice, be)
          | Some r \<Rightarrow>
              if mergeType \<and> lref_name r = ''Override'' then (errs, False, be)
              else if mergeType \<and> lref_name r = ''Append'' then (errs, True, be)
              else case map_of crs (NamespacedName ns (lref_name r)) of
                     None \<Rightarrow> (errs, appendSlice, be)
                   | Some beCR \<Rightarrow> (case cp_merge p appendSlice beCR be of
                                    Inl err \<Rightarrow> (Errors_Add [Some err] errs, appendSlice, be)
                                  | Inr be' \<Rightarrow> (errs, appendSlice, be')))"

definition mergeWithBackendCRs :: "conf_params \<Rightarrow> (namespaced_name, backend_cr) gomap \<Rightarrow> http_backend_ref \<Rightarrow> string \<Rightarrow> backend \<Rightarrow> string list \<times> backend" where
  "mergeWithBackendCRs p crs backendRef ns be =
     (let (errs, _, be) = fold (merge_filter p crs ns) (hb_filters backendRef) ([], True, be) in (errs, be))"

definition newBackend :: "conf_params \<Rightarrow> (namespaced_name, backend_cr) gomap \<Rightarrow> string \<Rightarrow> metadata \<Rightarrow> http_backend_ref \<Rightarrow> string \<Rightarrow> bool \<Rightarrow> go_error \<times> backend" where
  "newBackend p crs backendName md backendRef ns isHTTPBackend =
     (let be = \<lparr>be_Name = backendName, be_Metadata = md, be_Mode = (if isHTTPBackend then ''http'' else ''tcp''),
                be_From = cp_DefaultsSectionName p, be_Balance = ''roundrobin'', be_Abortonclose = ''disabled'', be_ServerTimeout = 50000,
                be_Forwardfor = (if isHTTPBackend then Some ''enabled'' else None), be_DefaultServerCheck = ''enabled'', be_BaseExtra = [], be_ACLList = [], be_HTTPRequestRuleList = [], be_OtherLists = [],
                be_Servers = None\<rparr>;
          (errs, be) = mergeWithBackendCRs p crs backendRef ns be
      in (Errors_Result errs, be))"

subsection \<open>The configuration of the impacted backends\<close>

text \<open>The owners whose metadata a backend shows: the HTTP routes, or the TLS routes when there are none.\<close>

definition owners_shown :: "type_owners \<Rightarrow> (backend_owner_type \<times> route_owners) option" where
  "owners_shown owners =
     (case map_of owners BackendOwnerTypeHTTPRoute of
        Some o1 \<Rightarrow> Some (BackendOwnerTypeHTTPRoute, o1)
      | None \<Rightarrow> map_option (Pair BackendOwnerTypeTLSRoute) (map_of owners BackendOwnerTypeTLSRoute))"

definition mark_backend :: "string \<Rightarrow> conf_mgr \<Rightarrow> conf_mgr" where
  "mark_backend n b = (if fs_flag (cm_firstSync b) then b\<lparr>cm_firstSync := (cm_firstSync b)\<lparr>fs_backends := sput n (fs_backends (cm_firstSync b))\<rparr>\<rparr> else b)"

definition unmark_backend :: "string \<Rightarrow> conf_mgr \<Rightarrow> conf_mgr" where
  "unmark_backend n b = (if fs_flag (cm_firstSync b) then b\<lparr>cm_firstSync := (cm_firstSync b)\<lparr>fs_backends := mdel n (fs_backends (cm_firstSync b))\<rparr>\<rparr> else b)"

text \<open>The loops over the impacted references and over the owners keep the last reference and take the first owner they
  meet.\<close>

definition upsert_impacted :: "conf_params \<Rightarrow> (namespaced_name, backend_cr) gomap \<Rightarrow> string \<times> (namespaced_name, backend_impacted) gomap
    \<Rightarrow> string list \<times> conf_mgr \<Rightarrow> string list \<times> conf_mgr" where
  "upsert_impacted p crs = (\<lambda>(backendName, mapImpactedBEs) (errs, b).
     case map_of (cm_owners b) backendName of
       None \<Rightarrow> (Errors_Add [Some (''could not find owner for backend '' @ backendName)] errs, b)
     | Some owners \<Rightarrow>
         (case owners_shown owners of
            None \<Rightarrow> (Errors_Add [Some ''could not find owners for type HTTPRoute/TLSRoute''] errs, b)
          | Some (ownerType, ownersForRoute) \<Rightarrow>
              let beMd = BackendMetaData (cp_LinkID p) (routes_info ownerType ownersForRoute);
                  backendRef = (if mapImpactedBEs = [] then http_backend_ref0 else ib_BackendRef (snd (last mapImpactedBEs)));
                  ns = (case ownersForRoute of [] \<Rightarrow> [] | (owner, _) # _ \<Rightarrow> nn_namespace owner)
              in case newBackend p crs backendName beMd backendRef ns (ownerType = BackendOwnerTypeHTTPRoute) of
                   (Some err, _) \<Rightarrow> (Errors_Add [Some err] errs, b)
                 | (None, be) \<Rightarrow>
                     (case upsertBackend (Some be) (cm_conf b) of
                        (Some err, c) \<Rightarrow> (Errors_Add [Some err] errs, b\<lparr>cm_conf := c\<rparr>)
                      | (None, c) \<Rightarrow> (errs, mark_backend (be_Name be) (b\<lparr>cm_conf := c\<rparr>)))))"

definition processBackendsUpsertedInCycle :: "conf_params \<Rightarrow> (namespaced_name, backend_cr) gomap \<Rightarrow> conf_mgr \<Rightarrow> string list \<times> conf_mgr" where
  "processBackendsUpsertedInCycle p crs b = fold (upsert_impacted p crs) (ic_Upserted (cm_impacted b)) ([], b)"

definition unreference_backend :: "conf_params \<Rightarrow> string \<Rightarrow> conf_mgr \<Rightarrow> conf_mgr" where
  "unreference_backend p backendName b =
     (case map_of (cm_owners b) backendName of
        None \<Rightarrow> b
      | Some owners \<Rightarrow>
          (case owners_shown owners of
             None \<Rightarrow> unmark_backend backendName (b\<lparr>cm_conf := conf_deleteBackend backendName (cm_conf b)\<rparr>)
           | Some (ownerType, ownersForRoute) \<Rightarrow>
               mark_backend backendName (b\<lparr>cm_conf := upsertBackendMetadata backendName
                 (BackendMetaData (cp_LinkID p) (routes_info ownerType ownersForRoute)) (cm_conf b)\<rparr>)))"

definition processBackendsUnreferencedInCycle :: "conf_params \<Rightarrow> conf_mgr \<Rightarrow> conf_mgr" where
  "processBackendsUnreferencedInCycle p b = fold (\<lambda>(n, _). unreference_backend p n) (ic_Unreferenced (cm_impacted b)) b"

definition processBackendsDeletedInCycle :: "conf_mgr \<Rightarrow> conf_mgr" where
  "processBackendsDeletedInCycle b =
     fold (\<lambda>(n, _) b. unmark_backend n (b\<lparr>cm_conf := conf_deleteBackend n (cm_conf b)\<rparr>)) (ic_Deleted (cm_impacted b)) b"

definition processBackendsModifiedInCycle :: "conf_params \<Rightarrow> (namespaced_name, backend_cr) gomap \<Rightarrow> conf_mgr \<Rightarrow> string list \<times> conf_mgr" where
  "processBackendsModifiedInCycle p crs b =
     (let (errs, b) = processBackendsUpsertedInCycle p crs b
      in (errs, processBackendsDeletedInCycle (processBackendsUnreferencedInCycle p b)))"

subsection \<open>HTTP and TLS routes\<close>

definition process_routes :: "conf_params \<Rightarrow> backend_owner_type \<Rightarrow> ('k \<Rightarrow> objmeta) \<Rightarrow> ('r \<Rightarrow> rule_ref list) \<Rightarrow> (namespaced_name, backend_cr) gomap
    \<Rightarrow> ('k, 'r) route tree_map \<Rightarrow> conf_mgr \<Rightarrow> (go_error \<times> conf_mgr) option" where
  "process_routes p ownerType meta refs crs routes b =
     (case foldo (process_route p ownerType meta refs) routes ([], b) of
        None \<Rightarrow> None
      | Some (errs, b) \<Rightarrow>
          (let (errs', b) = processBackendsModifiedInCycle p crs (cleanupUnreferencedBackends b)
           in Some (Errors_Result (Errors_Add [Errors_Result errs'] errs), b)))"

definition processHTTPRoutes :: "conf_params \<Rightarrow> (namespaced_name, backend_cr) gomap \<Rightarrow> http_route tree_map \<Rightarrow> conf_mgr \<Rightarrow> (go_error \<times> conf_mgr) option" where
  "processHTTPRoutes p = process_routes p BackendOwnerTypeHTTPRoute hrk_meta (http_rule_refs p)"

definition processTLSRoutes :: "conf_params \<Rightarrow> (namespaced_name, backend_cr) gomap \<Rightarrow> tls_route tree_map \<Rightarrow> conf_mgr \<Rightarrow> (go_error \<times> conf_mgr) option" where
  "processTLSRoutes p = process_routes p BackendOwnerTypeTLSRoute trk_meta tls_rule_refs"

subsection \<open>The backends a route wants\<close>

definition wanted_ref :: "conf_params \<Rightarrow> objmeta \<Rightarrow> (backend_object_reference, check_result) key_map \<Rightarrow> rule_ref \<Rightarrow> (string \<times> http_backend_ref) option" where
  "wanted_ref p meta checks = (\<lambda>(ref, filterHash, httpRef).
     case (hn_backend (cp_names p) (ServiceNsNameKey (om_namespace meta) ref) (backend_port ref) filterHash, KeyMap_Get checks ref) of
       (Inr beName, Some checkResult) \<Rightarrow> if cr_Valid checkResult then Some (beName, httpRef) else None
     | _ \<Rightarrow> None)"

definition wanted_backends :: "conf_params \<Rightarrow> ('r \<Rightarrow> rule_ref list) \<Rightarrow> objmeta \<Rightarrow> 'r route_rule list \<Rightarrow> (string \<times> http_backend_ref) list" where
  "wanted_backends p refs meta rules =
     concat (map (\<lambda>r. if rr_Valid r then List.map_filter (wanted_ref p meta (rr_CheckBackendRef r)) (refs (rr_K8sResource r)) else []) rules)"

definition claim :: "backend_owner_type \<Rightarrow> namespaced_name \<Rightarrow> int \<Rightarrow> string \<times> http_backend_ref \<Rightarrow> conf_mgr \<Rightarrow> conf_mgr" where
  "claim t k g = (\<lambda>(n, ref) b. addImpactedBackendUpserted n k ref (b\<lparr>cm_owners := owners_add n t k g (cm_owners b)\<rparr>))"

lemma upsert_ref_wanted:
  "snd (upsert_ref p t k meta checks r (e, u, b)) =
     (case wanted_ref p meta checks r of None \<Rightarrow> (u, b) | Some w \<Rightarrow> (sput (fst w) u, claim t k (om_generation meta) w b))"
  by (auto simp: upsert_ref_def wanted_ref_def addRoute_def claim_def split: sum.split option.split prod.split)

lemma fold_upsert_ref:
  "snd (fold (upsert_ref p t k meta checks) rs s) =
     (let ws = List.map_filter (wanted_ref p meta checks) rs
      in (fold sput (map fst ws) (fst (snd s)), fold (claim t k (om_generation meta)) ws (snd (snd s))))"
proof (induction rs arbitrary: s)
  case (Cons r rs)
  obtain e u b where s: "s = (e, u, b)" by (cases s)
  show ?case using Cons.IH[of "upsert_ref p t k meta checks r s"] upsert_ref_wanted[of p t k meta checks r e u b]
    by (cases "wanted_ref p meta checks r") (simp_all add: s Let_def map_filter_def)
qed (simp add: map_filter_def)

lemma upsert_rules_wanted:
  "snd (upsert_rules p t refs k meta rules b) =
     (let ws = wanted_backends p refs meta rules in (fold sput (map fst ws) [], fold (claim t k (om_generation meta)) ws b))"
proof -
  have "snd (fold (\<lambda>rule s. if rr_Valid rule then fold (upsert_ref p t k meta (rr_CheckBackendRef rule)) (refs (rr_K8sResource rule)) s else s) rules s)
      = (let ws = wanted_backends p refs meta rules in (fold sput (map fst ws) (fst (snd s)), fold (claim t k (om_generation meta)) ws (snd (snd s))))" for s
    by (induction rules arbitrary: s) (auto simp: wanted_backends_def fold_upsert_ref Let_def)
  from this[of "([], [], b)"] show ?thesis by (simp add: upsert_rules_def)
qed

subsubsection \<open>What changes the owners and the impact\<close>

text \<open>The parts of the state that routes change: the relation of the owners, the upserted and the deleted names.\<close>

abbreviation rel_of :: "conf_mgr \<Rightarrow> (string \<times> backend_owner_type \<times> namespaced_name) set" where
  "rel_of b \<equiv> backend_rel (cm_owners b)"

abbreviation upserted_of :: "conf_mgr \<Rightarrow> string set" where
  "upserted_of b \<equiv> mkeys (ic_Upserted (cm_impacted b))"

abbreviation deleted_of :: "conf_mgr \<Rightarrow> string set" where
  "deleted_of b \<equiv> mkeys (ic_Deleted (cm_impacted b))"

definition mgr_inv :: "conf_mgr \<Rightarrow> bool" where
  "mgr_inv b = (owners_inv (cm_owners b) \<and> wf_map (ic_Deleted (cm_impacted b)) \<and> conf_inv (cm_conf b))"

definition same_rest :: "conf_mgr \<Rightarrow> conf_mgr \<Rightarrow> bool" where
  "same_rest b b' = (cm_conf b' = cm_conf b \<and> cm_firstSync b' = cm_firstSync b \<and> cm_frontendsOwned b' = cm_frontendsOwned b)"

lemma claims:
  assumes "mgr_inv b"
  shows "mgr_inv (fold (claim t k g) ws b) \<and> rel_of (fold (claim t k g) ws b) = rel_of b \<union> {(n, t, k) |n. n \<in> fst ` set ws}
    \<and> upserted_of (fold (claim t k g) ws b) = upserted_of b \<union> fst ` set ws \<and> deleted_of (fold (claim t k g) ws b) = deleted_of b
    \<and> same_rest b (fold (claim t k g) ws b) \<and> mkeys (cm_owners (fold (claim t k g) ws b)) = mkeys (cm_owners b) \<union> fst ` set ws"
  using assms
proof (induction ws arbitrary: b)
  case (Cons w ws)
  obtain n ref where w: "w = (n, ref)" by (cases w)
  let ?b = "claim t k g w b"
  have "mgr_inv ?b" "rel_of ?b = insert (n, t, k) (rel_of b)" "upserted_of ?b = insert n (upserted_of b)" "deleted_of ?b = deleted_of b" "same_rest b ?b"
    "mkeys (cm_owners ?b) = insert n (mkeys (cm_owners b))"
    using Cons.prems by (simp_all add: mkeys_owners w claim_def addImpactedBackendUpserted_def mgr_inv_def owners_inv_add backend_rel_add same_rest_def Let_def)
  then show ?case using Cons.IH[of ?b] by (auto simp: w same_rest_def)
qed (simp add: same_rest_def)

lemma drops:
  assumes "mgr_inv b"
  shows "let b' = fold (\<lambda>(n, u) b. addImpactedBackendUnreferenced n (b\<lparr>cm_owners := owners_remove n t k (cm_owners b)\<rparr>)) ns b
    in mgr_inv b' \<and> rel_of b' = rel_of b - {(n, t, k) |n. n \<in> mkeys ns} \<and> upserted_of b' = upserted_of b \<and> deleted_of b' = deleted_of b \<and> same_rest b b'
      \<and> mkeys (cm_owners b') = mkeys (cm_owners b)"
  using assms
proof (induction ns arbitrary: b)
  case (Cons w ns)
  let ?b = "addImpactedBackendUnreferenced (fst w) (b\<lparr>cm_owners := owners_remove (fst w) t k (cm_owners b)\<rparr>)"
  have "mgr_inv ?b" "rel_of ?b = rel_of b - {(fst w, t, k)}" "upserted_of ?b = upserted_of b" "deleted_of ?b = deleted_of b" "same_rest b ?b" "mkeys (cm_owners ?b) = mkeys (cm_owners b)"
    using Cons.prems by (simp_all add: mkeys_owners addImpactedBackendUnreferenced_def mgr_inv_def owners_inv_remove backend_rel_remove same_rest_def)
  then show ?case using Cons.IH[of ?b] by (auto simp: same_rest_def Let_def split_def)
qed (simp add: same_rest_def)

lemma releases:
  assumes "mgr_inv b"
  shows "let b' = fold (\<lambda>(n, u) b. addImpactedBackendDeleted n (b\<lparr>cm_owners := owners_remove n t k (cm_owners b)\<rparr>)) ns b
    in mgr_inv b' \<and> rel_of b' = rel_of b - {(n, t, k) |n. n \<in> mkeys ns} \<and> upserted_of b' = upserted_of b
       \<and> deleted_of b' = deleted_of b \<union> mkeys ns \<and> same_rest b b' \<and> mkeys (cm_owners b') = mkeys (cm_owners b)"
  using assms
proof (induction ns arbitrary: b)
  case (Cons w ns)
  let ?b = "addImpactedBackendDeleted (fst w) (b\<lparr>cm_owners := owners_remove (fst w) t k (cm_owners b)\<rparr>)"
  have "mgr_inv ?b" "rel_of ?b = rel_of b - {(fst w, t, k)}" "upserted_of ?b = upserted_of b" "deleted_of ?b = insert (fst w) (deleted_of b)" "same_rest b ?b" "mkeys (cm_owners ?b) = mkeys (cm_owners b)"
    using Cons.prems by (simp_all add: mkeys_owners addImpactedBackendDeleted_def mgr_inv_def owners_inv_remove backend_rel_remove same_rest_def wf_sput)
  then show ?case using Cons.IH[of ?b] by (auto simp: same_rest_def Let_def split_def)
qed (simp add: same_rest_def)

subsubsection \<open>One route\<close>

definition refreshed :: "('k, 'r) route tree_res \<Rightarrow> bool" where
  "refreshed r = (TreeStatus (tr_status r) = StatusUpserted \<and> rt_Valid (tr_core r))"

definition released :: "('k, 'r) route tree_res \<Rightarrow> bool" where
  "released r = (TreeStatus (tr_status r) = StatusDeleted \<or> TreeStatus (tr_status r) = StatusUpserted \<and> \<not> rt_Valid (tr_core r))"

definition route_claims :: "conf_params \<Rightarrow> ('k \<Rightarrow> objmeta) \<Rightarrow> ('r \<Rightarrow> rule_ref list) \<Rightarrow> ('k, 'r) route tree_res \<Rightarrow> string set" where
  "route_claims p meta refs r =
     (case rt_K8sResource (tr_core r) of None \<Rightarrow> {} | Some k8s \<Rightarrow> fst ` set (wanted_backends p refs (meta k8s) (rt_Rules (tr_core r))))"

definition referenced :: "conf_mgr \<Rightarrow> backend_owner_type \<Rightarrow> namespaced_name \<Rightarrow> string set" where
  "referenced b t k = {n. (n, t, k) \<in> rel_of b}"

text \<open>The effect of a route on the relation and on the impacted names.\<close>

definition route_effect :: "conf_params \<Rightarrow> backend_owner_type \<Rightarrow> ('k \<Rightarrow> objmeta) \<Rightarrow> ('r \<Rightarrow> rule_ref list) \<Rightarrow> namespaced_name \<Rightarrow> ('k, 'r) route tree_res
    \<Rightarrow> conf_mgr \<Rightarrow> conf_mgr \<Rightarrow> bool" where
  "route_effect p t meta refs k r b b' =
     (mgr_inv b' \<and> same_rest b b' \<and> mkeys (cm_owners b') = mkeys (cm_owners b) \<union> (if refreshed r then route_claims p meta refs r else {})
      \<and> referenced b' t k = (if refreshed r then route_claims p meta refs r else if released r then {} else referenced b t k)
      \<and> (\<forall>t' k'. (t', k') \<noteq> (t, k) \<longrightarrow> referenced b' t' k' = referenced b t' k')
      \<and> upserted_of b' = upserted_of b \<union> (if refreshed r then route_claims p meta refs r else {})
      \<and> deleted_of b' = deleted_of b \<union> (if released r then referenced b t k else {}))"

lemma drop_unreferenced_ok:
  assumes "mgr_inv b"
  shows "mgr_inv (drop_unreferenced t k u b)" "rel_of (drop_unreferenced t k u b) = rel_of b - {(n, t, k) |n. n \<notin> mkeys u}"
    "upserted_of (drop_unreferenced t k u b) = upserted_of b" "deleted_of (drop_unreferenced t k u b) = deleted_of b" "same_rest b (drop_unreferenced t k u b)"
    "mkeys (cm_owners (drop_unreferenced t k u b)) = mkeys (cm_owners b)"
proof -
  have wf: "wf_map (cm_owners b)" using assms by (simp add: mgr_inv_def owners_inv_def)
  note d = drops[OF assms, of t k "SetDifference (getBackendsReferencedBy t k (cm_owners b)) u", folded drop_unreferenced_def, unfolded Let_def]
  show "mgr_inv (drop_unreferenced t k u b)" "upserted_of (drop_unreferenced t k u b) = upserted_of b"
    "deleted_of (drop_unreferenced t k u b) = deleted_of b" "same_rest b (drop_unreferenced t k u b)"
    "mkeys (cm_owners (drop_unreferenced t k u b)) = mkeys (cm_owners b)" using d by simp_all
  show "rel_of (drop_unreferenced t k u b) = rel_of b - {(n, t, k) |n. n \<notin> mkeys u}" using d wf by (auto simp: mkeys_getBackendsReferencedBy)
qed

lemma release_route_effect:
  assumes "mgr_inv b" "released r" "\<not> refreshed r"
  shows "route_effect p t meta refs k r b (release_route t k b)"
proof -
  have wf: "wf_map (cm_owners b)" using assms by (simp add: mgr_inv_def owners_inv_def)
  note d = releases[OF assms(1), of t k "getBackendsReferencedBy t k (cm_owners b)", folded release_route_def, unfolded Let_def]
  show ?thesis using d wf assms(2,3) by (auto simp: route_effect_def referenced_def mkeys_getBackendsReferencedBy)
qed

lemma upsertRouteBackends_effect:
  assumes "mgr_inv b" "refreshed r" "upsertRouteBackends p t meta refs k (tr_core r) b = Some (e, b')"
  shows "route_effect p t meta refs k r b b'"
proof (cases "rt_K8sResource (tr_core r)")
  case None
  then have b': "b' = drop_unreferenced t k [] b" using assms(3) by (auto simp: upsertRouteBackends_def split: if_splits)
  show ?thesis using drop_unreferenced_ok[OF assms(1), of t k "[]"] assms(2) None
    by (auto simp: b' route_effect_def referenced_def route_claims_def refreshed_def released_def)
next
  case (Some k8s)
  let ?ws = "wanted_backends p refs (meta k8s) (rt_Rules (tr_core r))"
  let ?b = "fold (claim t k (om_generation (meta k8s))) ?ws b"
  have b': "b' = drop_unreferenced t k (fold sput (map fst ?ws) []) ?b"
    using assms(3) Some upsert_rules_wanted[of p t refs k "meta k8s" "rt_Rules (tr_core r)" b]
    by (auto simp: upsertRouteBackends_def Let_def split: prod.splits)
  note c = claims[OF assms(1), of t k "om_generation (meta k8s)" ?ws]
  have inv: "mgr_inv ?b" using c by blast
  have "same_rest b b'" using c drop_unreferenced_ok(5)[OF inv, of t k "fold sput (map fst ?ws) []"] by (auto simp: b' same_rest_def)
  moreover have "mgr_inv b'" "upserted_of b' = upserted_of b \<union> fst ` set ?ws" "deleted_of b' = deleted_of b" "mkeys (cm_owners b') = mkeys (cm_owners b) \<union> fst ` set ?ws"
    using c drop_unreferenced_ok(1,3,4,6)[OF inv, of t k "fold sput (map fst ?ws) []"] by (simp_all add: b')
  moreover have "rel_of b' = (rel_of b \<union> {(n, t, k) |n. n \<in> fst ` set ?ws}) - {(n, t, k) |n. n \<notin> fst ` set ?ws}"
    using c drop_unreferenced_ok(2)[OF inv, of t k "fold sput (map fst ?ws) []"] by (simp add: b' mkeys_fold_sput)
  ultimately show ?thesis using assms(2) Some by (auto simp: route_effect_def referenced_def route_claims_def refreshed_def released_def)
qed

lemma process_route_effect:
  assumes "mgr_inv b" "process_route p t meta refs (k, r) (errs, b) = Some (errs', b')"
  shows "route_effect p t meta refs k r b b'"
proof (cases "refreshed r")
  case True
  then show ?thesis using assms upsertRouteBackends_effect[OF assms(1) True]
    by (auto simp: refreshed_def process_route_def onUpsertedRoute_def)
next
  case nr: False
  show ?thesis
  proof (cases "released r")
    case True
    then have "b' = release_route t k b" using assms(2) nr
      by (auto simp: released_def refreshed_def process_route_def onUpsertedRoute_def split: if_splits)
    then show ?thesis using release_route_effect[OF assms(1) True nr] by simp
  next
    case False
    then have "TreeStatus (tr_status r) = StatusUnchanged" using nr
      by (cases "TreeStatus (tr_status r)") (auto simp: released_def refreshed_def)
    then show ?thesis using assms nr False by (auto simp: route_effect_def process_route_def same_rest_def)
  qed
qed

subsubsection \<open>All routes of a kind\<close>

definition claims_of :: "conf_params \<Rightarrow> ('k \<Rightarrow> objmeta) \<Rightarrow> ('r \<Rightarrow> rule_ref list) \<Rightarrow> ('k, 'r) route tree_map \<Rightarrow> string set" where
  "claims_of p meta refs routes = \<Union>{route_claims p meta refs r |k r. (k, r) \<in> set routes \<and> refreshed r}"

definition released_by :: "conf_mgr \<Rightarrow> backend_owner_type \<Rightarrow> ('k, 'r) route tree_map \<Rightarrow> string set" where
  "released_by b t routes = \<Union>{referenced b t k |k r. (k, r) \<in> set routes \<and> released r}"

definition expected :: "conf_params \<Rightarrow> backend_owner_type \<Rightarrow> ('k \<Rightarrow> objmeta) \<Rightarrow> ('r \<Rightarrow> rule_ref list) \<Rightarrow> ('k, 'r) route tree_map \<Rightarrow> conf_mgr \<Rightarrow> namespaced_name \<Rightarrow> string set" where
  "expected p t meta refs routes b k =
     (case map_of routes k of
        None \<Rightarrow> referenced b t k
      | Some r \<Rightarrow> if refreshed r then route_claims p meta refs r else if released r then {} else referenced b t k)"

lemma process_route_fold:
  assumes "mgr_inv b" "wf_map routes" "foldo (process_route p t meta refs) routes (errs, b) = Some (errs', b')"
  shows "mgr_inv b' \<and> same_rest b b' \<and> mkeys (cm_owners b') = mkeys (cm_owners b) \<union> claims_of p meta refs routes
    \<and> (\<forall>k. referenced b' t k = expected p t meta refs routes b k) \<and> (\<forall>t' k. t' \<noteq> t \<longrightarrow> referenced b' t' k = referenced b t' k)
    \<and> upserted_of b' = upserted_of b \<union> claims_of p meta refs routes \<and> deleted_of b' = deleted_of b \<union> released_by b t routes"
  using assms
proof (induction routes arbitrary: errs b)
  case (Cons x routes)
  obtain k r where x: "x = (k, r)" by (cases x)
  obtain errs1 b1 where 1: "process_route p t meta refs (k, r) (errs, b) = Some (errs1, b1)" "foldo (process_route p t meta refs) routes (errs1, b1) = Some (errs', b')"
    using Cons.prems(3) by (auto simp: x split: option.splits)
  note e = process_route_effect[OF Cons.prems(1) 1(1), unfolded route_effect_def]
  have wf: "wf_map routes" "k \<notin> mkeys routes" using Cons.prems(2) by (auto simp: x wf_map_Cons)
  have inv1: "mgr_inv b1" using e by blast
  note ih = Cons.IH[OF inv1 wf(1) 1(2)]
  have ref1: "k' \<noteq> k \<Longrightarrow> referenced b1 t k' = referenced b t k'" for k' using e by blast
  have nk: "map_of routes k = None" using wf(2) by (simp add: map_of_None_mkeys)
  have "expected p t meta refs routes b1 k' = expected p t meta refs (x # routes) b k'" for k'
    using e nk ref1[of k'] by (cases "k' = k") (auto simp: expected_def x split: option.split)
  moreover have "released_by b t (x # routes) = released_by b1 t routes \<union> (if released r then referenced b t k else {})"
  proof -
    have "k' \<noteq> k" if "(k', r') \<in> set routes" for k' r' using that wf(2) by (force simp: mkeys_def)
    then show ?thesis using ref1 by (auto simp: released_by_def x) blast+
  qed
  moreover have "claims_of p meta refs (x # routes) = claims_of p meta refs routes \<union> (if refreshed r then route_claims p meta refs r else {})"
    by (auto simp: claims_of_def x)
  moreover have "same_rest b b'" using e ih by (simp add: same_rest_def)
  ultimately show ?case using e ih by auto
qed (simp add: same_rest_def expected_def claims_of_def released_by_def)

text \<open>The cleanup keeps the relation; backends that lost their last owner are deleted.\<close>

lemma cleanupUnreferencedBackends_ok:
  assumes "mgr_inv b"
  shows "mgr_inv (cleanupUnreferencedBackends b)" "rel_of (cleanupUnreferencedBackends b) = rel_of b" "same_rest b (cleanupUnreferencedBackends b)"
    "upserted_of (cleanupUnreferencedBackends b) = upserted_of b"
    "deleted_of (cleanupUnreferencedBackends b) = deleted_of b \<union> {n \<in> mkeys (cm_owners b). \<not> (\<exists>t k. n \<in> referenced b t k)}"
    "mkeys (cm_owners (cleanupUnreferencedBackends b)) = {n. \<exists>t k. n \<in> referenced b t k}"
proof -
  obtain bo d where c: "cleanupUnreferencedBackendsForType BackendOwnerTypeTLSRoute
      (cleanupUnreferencedBackendsForType BackendOwnerTypeHTTPRoute (cm_owners b, ic_Deleted (cm_impacted b))) = (bo, d)" by fastforce
  have i: "owners_inv (cm_owners b)" "wf_map (ic_Deleted (cm_impacted b))" using assms by (simp_all add: mgr_inv_def)
  note k = cleanup_both[OF i c]
  show "mgr_inv (cleanupUnreferencedBackends b)" using k assms by (simp add: cleanupUnreferencedBackends_def c mgr_inv_def)
  show "rel_of (cleanupUnreferencedBackends b) = rel_of b" "upserted_of (cleanupUnreferencedBackends b) = upserted_of b"
    "same_rest b (cleanupUnreferencedBackends b)" using k by (simp_all add: cleanupUnreferencedBackends_def c same_rest_def)
  show "deleted_of (cleanupUnreferencedBackends b) = deleted_of b \<union> {n \<in> mkeys (cm_owners b). \<not> (\<exists>t k. n \<in> referenced b t k)}"
    "mkeys (cm_owners (cleanupUnreferencedBackends b)) = {n. \<exists>t k. n \<in> referenced b t k}"
    using k by (simp_all add: cleanupUnreferencedBackends_def c referenced_def)
qed

end
