(* ===== verification/Frontends.thy ===== *)
theory Frontends
  imports Backends GatewayTree
begin

text \<open>
  \<open>k8s/gate/haproxy/frontends.go\<close> and \<open>metadata/frontend.go\<close>: one frontend per valid listener, with its binds, rules and
  maps, and the frontends each gateway owns.

  A new frontend also registers its maps in the storage of maps, so the functions pass that storage along.  \<open>None\<close> is a
  panic: the missing resource of a gateway.
\<close>

record front_env =
  fv_params :: conf_params
  fv_maps :: maps_env
  fv_certStorage :: certificate_storage
  fv_IPv4BindAddress :: string
  fv_IPv6BindAddress :: string
  fv_DisableIPv4 :: bool
  fv_DisableIPv6 :: bool

abbreviation fv_names :: "front_env \<Rightarrow> hap_names" where
  "fv_names env \<equiv> cp_names (fv_params env)"

subsection \<open>The frontends owned by a gateway\<close>

definition AddToUpdated :: "namespaced_name \<Rightarrow> string \<Rightarrow> frontends_owned \<Rightarrow> frontends_owned" where
  "AddToUpdated gwKey frontendName f =
     f\<lparr>fo_byUpdatedGateways := mput gwKey (sput frontendName (map_get_default [] (fo_byUpdatedGateways f) gwKey)) (fo_byUpdatedGateways f)\<rparr>"

definition RemoveFromUpdated :: "namespaced_name \<Rightarrow> string \<Rightarrow> frontends_owned \<Rightarrow> frontends_owned" where
  "RemoveFromUpdated gwKey frontendName f =
     f\<lparr>fo_byUpdatedGateways := mput gwKey (mdel frontendName (map_get_default [] (fo_byUpdatedGateways f) gwKey)) (fo_byUpdatedGateways f)\<rparr>"

definition finalizeFrontendsByGateway :: "frontends_owned \<Rightarrow> frontends_owned" where
  "finalizeFrontendsByGateway f =
     fold (\<lambda>(gwKey, names) f. \<lparr>fo_current = mput gwKey names (fo_current f), fo_byUpdatedGateways = mdel gwKey (fo_byUpdatedGateways f)\<rparr>)
       (fo_byUpdatedGateways f) f"

subsection \<open>Metadata\<close>

definition FrontendMetadata :: "namespaced_name \<Rightarrow> string \<Rightarrow> int \<Rightarrow> string \<Rightarrow> metadata" where
  "FrontendMetadata objKey kind generation linkID =
     [(UnifiedGatewayMetaDataKey, [(kind, [(nn_string objKey, \<lparr>oi_LinkID = linkID, oi_Generation = generation\<rparr>)])])]"

definition FrontendMetaData :: "conf_params \<Rightarrow> gateway tree_res \<Rightarrow> metadata option" where
  "FrontendMetaData p treeGw =
     map_option (\<lambda>k8s. FrontendMetadata (meta_key (gwk_meta k8s)) (gvk_kind (cp_extractGVK p (OGateway k8s))) (om_generation (gwk_meta k8s)) (cp_LinkID p))
       (GetK8sResource treeGw)"

subsection \<open>Rules\<close>

definition tcp_rule0 :: tcp_request_rule where
  "tcp_rule0 = \<lparr>tq_Type = [], tq_Action = [], tq_Cond = [], tq_CondTest = [], tq_VarName = [], tq_VarScope = [], tq_Expr = [], tq_Timeout = None\<rparr>"

definition http_rule0 :: http_request_rule where
  "http_rule0 = \<lparr>hq_Type = [], hq_VarName = [], hq_VarScope = [], hq_VarExpr = [], hq_LuaAction = [], hq_Cond = [], hq_CondTest = [], hq_Metadata = []\<rparr>"

definition set_txn :: "string \<Rightarrow> string \<Rightarrow> string \<Rightarrow> http_request_rule" where
  "set_txn var expr comment = http_rule0\<lparr>hq_Type := ''set-var'', hq_VarName := var, hq_VarScope := ''txn'', hq_VarExpr := expr,
     hq_Metadata := (if comment = [] then [] else [(''hug'', comment)])\<rparr>"

definition passthrough_rules :: "string \<Rightarrow> string \<Rightarrow> tcp_request_rule list" where
  "passthrough_rules sniMap sniDomainWildcardMap =
     [tcp_rule0\<lparr>tq_Type := ''content'', tq_Action := ''reject'', tq_Cond := ''if'', tq_CondTest := ''!{ req_ssl_hello_type 1 }''\<rparr>,
      tcp_rule0\<lparr>tq_Type := ''inspect-delay'', tq_Timeout := Some 50000\<rparr>,
      tcp_rule0\<lparr>tq_Type := ''content'', tq_Action := ''set-var'', tq_VarName := ''sni'', tq_VarScope := ''sess'', tq_Expr := ''req_ssl_sni''\<rparr>,
      tcp_rule0\<lparr>tq_Type := ''content'', tq_Action := ''set-var'', tq_VarName := ''sni_match'', tq_VarScope := ''txn'',
        tq_Expr := ''req_ssl_sni,map('' @ sniMap @ '')''\<rparr>,
      tcp_rule0\<lparr>tq_Type := ''content'', tq_Action := ''set-var'', tq_VarName := ''sni_match,ifnotexists'', tq_VarScope := ''txn'',
        tq_Expr := ''req_ssl_sni,map_end('' @ sniDomainWildcardMap @ '')''\<rparr>]"

definition http_rules :: "string \<Rightarrow> string \<Rightarrow> string \<Rightarrow> string \<Rightarrow> http_request_rule list" where
  "http_rules pathExactMap pathPrefixMap pathDomainWPathExactMap pathRegexMap =
     [set_txn ''path'' ''path'' [],
      set_txn ''host'' ''req.hdr(Host),host_only'' [],
      set_txn ''base'' (''var(txn.host),concat('' @ [CHR 0x22, CHR 0x22] @ '',txn.path)'') [],
      set_txn ''route'' (''var(txn.base),map('' @ pathExactMap @ '')'') ''exact domain + exact path'',
      set_txn ''route,ifnotexists'' (''path,map('' @ pathExactMap @ '')'') ''any domain + exact path'',
      set_txn ''route,ifnotexists'' (''var(txn.base),map_beg('' @ pathPrefixMap @ '')'') ''exact domain + path prefix'',
      set_txn ''route,ifnotexists'' (''path,map_beg('' @ pathPrefixMap @ '')'') ''any domain + path prefix'',
      set_txn ''route,ifnotexists'' (''var(txn.base),map_end('' @ pathDomainWPathExactMap @ '')'') ''domain wildcard + exact path'',
      set_txn ''route,ifnotexists'' (''path,map_reg('' @ pathRegexMap @ '')'') ''any domain + path regex'',
      set_txn ''route,ifnotexists'' (''var(txn.base),map_reg('' @ pathRegexMap @ '')'')
        ''domain wildcard + path prefix or regex, exact domain + path regex'',
      http_rule0\<lparr>hq_Type := ''lua'', hq_LuaAction := ''route'', hq_Cond := ''if'', hq_CondTest := ''route_is_json'', hq_Metadata := [(''hug'', ''lua routing'')]\<rparr>]"

definition switching_rules :: "string \<Rightarrow> backend_switching_rule list" where
  "switching_rules target =
     [\<lparr>bs_Name = ''%[var(txn.backend)]'', bs_Cond = ''if'', bs_CondTest = ''route_is_json''\<rparr>, \<lparr>bs_Name = target, bs_Cond = [], bs_CondTest = []\<rparr>]"

definition json_acl :: "string \<Rightarrow> acl list" where
  "json_acl criterion = [\<lparr>ac_ACLName = ''route_is_json'', ac_Criterion = criterion, ac_Value = ''-m str {'', ac_Metadata = [(''hug'', ''for lua routing'')]\<rparr>]"

definition is_passthrough_listener :: "listener_k8s \<Rightarrow> bool" where
  "is_passthrough_listener l = (ls_tls l \<noteq> None \<and> ls_tlsMode l = Some ''Passthrough'')"

definition frontend_mode :: "string \<Rightarrow> string" where
  "frontend_mode protocol = (if protocol = ''HTTP'' \<or> protocol = ''HTTPS'' then ''http'' else if protocol = ''TCP'' then ''tcp'' else [])"

subsection \<open>Binds\<close>

text \<open>\<open>bindParams\<close>: a listener that terminates TLS names the crt-list of its key.\<close>

definition bindParams :: "front_env \<Rightarrow> string \<Rightarrow> gateway tree_res \<Rightarrow> listener \<Rightarrow> bind \<Rightarrow> bind option" where
  "bindParams env bindName treeGw treeListener bd =
     (let bd = bd\<lparr>bi_Name := bindName\<rparr>; l = li_K8sResource treeListener in
      if ls_tls l = None then Some bd
      else if ls_tlsMode l = Some ''Terminate''
      then map_option (\<lambda>k8s. bd\<lparr>bi_CrtList := FullPath (CertListPath (fv_certStorage env) (ListenerKey k8s l)), bi_Ssl := True\<rparr>) (gw_K8sResource (tr_core treeGw))
      else Some bd)"

definition add_bind :: "front_env \<Rightarrow> bool \<Rightarrow> string \<Rightarrow> string \<Rightarrow> string \<Rightarrow> gateway tree_res \<Rightarrow> listener \<Rightarrow> frontend \<Rightarrow> frontend option" where
  "add_bind env disabled bindName address dflt treeGw treeListener fe =
     (if disabled then Some fe
      else map_option (\<lambda>bd. fe\<lparr>fe_Binds := Some (mput (bi_Name bd) bd (map_or_empty (fe_Binds fe)))\<rparr>)
        (bindParams env bindName treeGw treeListener
          \<lparr>bi_Name = [], bi_Address = (if address \<noteq> [] then address else dflt), bi_Port = Some (ls_port (li_K8sResource treeListener)), bi_CrtList = [], bi_Ssl = False\<rparr>))"

subsection \<open>New frontends\<close>

definition ensure_frontend_maps :: "front_env \<Rightarrow> string \<Rightarrow> maps_storage \<Rightarrow> maps_storage" where
  "ensure_frontend_maps env frontendName ms =
     fold (ensure_named (fv_maps env) frontendName)
       [PATH_EXACT_MAP, PATH_PREFIX_MAP, PATH_REGEX_MAP, PATH_EXACT_DOMAIN_WILDCARD_MAP, SNI_MAP, SNI_DOMAIN_WILDCARD_MAP] ms"

definition base_frontend :: "front_env \<Rightarrow> string \<Rightarrow> string \<Rightarrow> metadata \<Rightarrow> listener_k8s \<Rightarrow> frontend" where
  "base_frontend env baseDir frontendName md l =
     (let file_of = map_name baseDir frontendName;
          fe = \<lparr>fe_Name = frontendName, fe_From = cp_DefaultsSectionName (fv_params env), fe_Metadata = md, fe_DefaultBackend = ''backend_not_found'',
                fe_Mode = frontend_mode (ls_protocol l), fe_ACLList = [], fe_TCPRequestRuleList = [], fe_HTTPRequestRuleList = [],
                fe_BackendSwitchingRuleList = [], fe_Binds = None\<rparr>
      in if is_passthrough_listener l
         then fe\<lparr>fe_TCPRequestRuleList := passthrough_rules (file_of SNI_MAP) (file_of SNI_DOMAIN_WILDCARD_MAP),
                 fe_BackendSwitchingRuleList := switching_rules ''%[var(txn.sni_match),field(1,.)]'',
                 fe_ACLList := json_acl ''var(txn.sni_match),bytes(0,1)''\<rparr>
         else fe\<lparr>fe_HTTPRequestRuleList := http_rules (file_of PATH_EXACT_MAP) (file_of PATH_PREFIX_MAP) (file_of PATH_EXACT_DOMAIN_WILDCARD_MAP)
                   (file_of PATH_REGEX_MAP),
                 fe_BackendSwitchingRuleList := switching_rules ''%[var(txn.route)]'',
                 fe_ACLList := json_acl ''var(txn.route),bytes(0,1)''\<rparr>)"

definition newFrontend :: "front_env \<Rightarrow> namespaced_name \<Rightarrow> gateway tree_res \<Rightarrow> listener \<Rightarrow> maps_storage \<Rightarrow> ((string + frontend) \<times> maps_storage) option" where
  "newFrontend env gwKey treeGw treeListener ms =
     (let l = li_K8sResource treeListener in
      case hn_frontend (fv_names env) gwKey (ls_name l) of
        Inl err \<Rightarrow> Some (Inl (''failed to get frontend name: '' @ err), ms)
      | Inr frontendName \<Rightarrow>
          (case FrontendMetaData (fv_params env) treeGw of
             None \<Rightarrow> None
           | Some md \<Rightarrow>
               map_option (\<lambda>fe. (Inr fe, ensure_frontend_maps env frontendName ms))
                 (Option.bind (add_bind env (fv_DisableIPv4 env) ''v4'' (fv_IPv4BindAddress env) ''0.0.0.0'' treeGw treeListener
                                (base_frontend env (ms_MapsBaseDir ms) frontendName md l))
                    (add_bind env (fv_DisableIPv6 env) ''v6'' (fv_IPv6BindAddress env) ''::'' treeGw treeListener))))"

subsection \<open>Gateways\<close>

definition mark_frontend :: "string \<Rightarrow> conf_mgr \<Rightarrow> conf_mgr" where
  "mark_frontend n b = (if fs_flag (cm_firstSync b) then b\<lparr>cm_firstSync := (cm_firstSync b)\<lparr>fs_frontends := sput n (fs_frontends (cm_firstSync b))\<rparr>\<rparr> else b)"

definition unmark_frontend :: "string \<Rightarrow> conf_mgr \<Rightarrow> conf_mgr" where
  "unmark_frontend n b = (if fs_flag (cm_firstSync b) then b\<lparr>cm_firstSync := (cm_firstSync b)\<lparr>fs_frontends := mdel n (fs_frontends (cm_firstSync b))\<rparr>\<rparr> else b)"

definition deleteFrontend :: "namespaced_name \<Rightarrow> string \<Rightarrow> conf_mgr \<Rightarrow> conf_mgr" where
  "deleteFrontend gwKey feName b =
     b\<lparr>cm_conf := conf_deleteFrontend feName (cm_conf b), cm_frontendsOwned := RemoveFromUpdated gwKey feName (cm_frontendsOwned b)\<rparr>"

text \<open>An error of the name template leaves the state as it is; the callers go on with the next listener.\<close>

definition deleteFrontendForListener :: "front_env \<Rightarrow> namespaced_name \<Rightarrow> listener_k8s \<Rightarrow> conf_mgr \<Rightarrow> conf_mgr" where
  "deleteFrontendForListener env gwKey l b =
     (case hn_frontend (fv_names env) gwKey (ls_name l) of
        Inl _ \<Rightarrow> b
      | Inr feName \<Rightarrow> unmark_frontend feName (deleteFrontend gwKey feName b))"

definition deleteFrontendForAllListeners :: "front_env \<Rightarrow> namespaced_name \<Rightarrow> gateway tree_res \<Rightarrow> conf_mgr \<Rightarrow> go_error \<times> conf_mgr" where
  "deleteFrontendForAllListeners env gwKey gw b =
     (case GetK8sResource gw of
        None \<Rightarrow> (Some (''no K8s resource found for gateway '' @ nn_string gwKey), b)
      | Some k8s \<Rightarrow> (None, fold (deleteFrontendForListener env gwKey) (gwk_listeners k8s) b))"

text \<open>The listeners of a valid gateway; an error of a new frontend ends the loop.\<close>

fun upsert_listeners :: "front_env \<Rightarrow> namespaced_name \<Rightarrow> gateway tree_res \<Rightarrow> (string \<times> listener) list \<Rightarrow> conf_mgr \<times> maps_storage
    \<Rightarrow> (go_error \<times> conf_mgr \<times> maps_storage) option" where
  "upsert_listeners env gwKey gw [] (b, ms) = Some (None, b, ms)"
| "upsert_listeners env gwKey gw ((_, l) # ls) (b, ms) =
     (if \<not> li_Valid l then upsert_listeners env gwKey gw ls (deleteFrontendForListener env gwKey (li_K8sResource l) b, ms)
      else case newFrontend env gwKey gw l ms of
             None \<Rightarrow> None
           | Some (Inl err, ms) \<Rightarrow> Some (Some err, b, ms)
           | Some (Inr newFe, ms) \<Rightarrow>
               (let b = mark_frontend (fe_Name newFe) b in
                case upsertFrontend (Some newFe) (cm_conf b) of
                  (Some _, c) \<Rightarrow> upsert_listeners env gwKey gw ls (b\<lparr>cm_conf := c\<rparr>, ms)
                | (None, c) \<Rightarrow> upsert_listeners env gwKey gw ls
                    (b\<lparr>cm_conf := c, cm_frontendsOwned := AddToUpdated gwKey (fe_Name newFe) (cm_frontendsOwned b)\<rparr>, ms)))"

definition upsertFrontends :: "front_env \<Rightarrow> namespaced_name \<Rightarrow> gateway tree_res \<Rightarrow> conf_mgr \<times> maps_storage \<Rightarrow> (go_error \<times> conf_mgr \<times> maps_storage) option" where
  "upsertFrontends env gwKey gw s = upsert_listeners env gwKey gw (gw_Listeners (tr_core gw)) s"

definition onUpsertedGateway :: "front_env \<Rightarrow> namespaced_name \<Rightarrow> gateway tree_res \<Rightarrow> conf_mgr \<times> maps_storage \<Rightarrow> (go_error \<times> conf_mgr \<times> maps_storage) option" where
  "onUpsertedGateway env gwKey gw s =
     (if gw_Valid (tr_core gw) then upsertFrontends env gwKey gw s
      else let (err, b) = deleteFrontendForAllListeners env gwKey gw (fst s) in Some (err, b, snd s))"

definition process_gateway :: "front_env \<Rightarrow> namespaced_name \<times> gateway tree_res \<Rightarrow> string list \<times> conf_mgr \<times> maps_storage
    \<Rightarrow> (string list \<times> conf_mgr \<times> maps_storage) option" where
  "process_gateway env = (\<lambda>(gwKey, gw) (errs, b, ms).
     case TreeStatus (tr_status gw) of
       StatusUnchanged \<Rightarrow> Some (errs, b, ms)
     | StatusUpserted \<Rightarrow> map_option (\<lambda>(err, s). (Errors_Add [err] errs, s)) (onUpsertedGateway env gwKey gw (b, ms))
     | StatusDeleted \<Rightarrow> (let (err, b) = deleteFrontendForAllListeners env gwKey gw b in Some (Errors_Add [err] errs, b, ms)))"

definition process_unmanaged :: "front_env \<Rightarrow> namespaced_name \<times> gateway tree_res \<Rightarrow> string list \<times> conf_mgr \<Rightarrow> string list \<times> conf_mgr" where
  "process_unmanaged env = (\<lambda>(gwKey, gw) (errs, b). let (err, b) = deleteFrontendForAllListeners env gwKey gw b in (Errors_Add [err] errs, b))"

definition cleanup_gateway :: "namespaced_name \<Rightarrow> conf_mgr \<Rightarrow> conf_mgr" where
  "cleanup_gateway gwKey b =
     fold (\<lambda>(frontendName, _) b.
        if mhas (map_get_default [] (fo_byUpdatedGateways (cm_frontendsOwned b)) gwKey) frontendName then b else deleteFrontend gwKey frontendName b)
      (map_get_default [] (fo_current (cm_frontendsOwned b)) gwKey) b"

definition cleanupFrontendsForGateways :: "conf_mgr \<Rightarrow> conf_mgr" where
  "cleanupFrontendsForGateways b = fold (\<lambda>(gwKey, _). cleanup_gateway gwKey) (fo_byUpdatedGateways (cm_frontendsOwned b)) b"

definition processGateways :: "front_env \<Rightarrow> gateway tree_map \<Rightarrow> gateway tree_map \<Rightarrow> conf_mgr \<Rightarrow> maps_storage \<Rightarrow> (go_error \<times> conf_mgr \<times> maps_storage) option" where
  "processGateways env managed unmanaged b ms =
     (case foldo (process_gateway env) managed ([], b, ms) of
        None \<Rightarrow> None
      | Some (errs, b, ms) \<Rightarrow>
          (let (errs, b) = fold (process_unmanaged env) unmanaged (errs, b);
               b = cleanupFrontendsForGateways b;
               b = b\<lparr>cm_frontendsOwned := finalizeFrontendsByGateway (cm_frontendsOwned b)\<rparr>
           in Some (Errors_Result errs, b, ms)))"

end
