(* ===== verification/BackendCycle.thy ===== *)
theory BackendCycle
  imports Backends
begin

text \<open>
  What the two passes of a cycle over the routes (\<open>processHTTPRoutes\<close>, \<open>processTLSRoutes\<close>) do to the backends of the
  configuration: the differences stay exact, and a backend is configured as long as a route owns it, unless a
  route that referenced it was deleted or became invalid.
\<close>

subsection \<open>The merge with \<open>Backend\<close> resources\<close>

text \<open>What is relied on of the merge: it keeps the name, since the name of the merged resource is cleared, and its result is a
  map of servers; \<open>merge_total\<close> adds that it succeeds.\<close>

definition merge_named :: "conf_params \<Rightarrow> bool" where
  "merge_named p = (\<forall>a cr be be'. cp_merge p a cr be = Inr be' \<longrightarrow>
     be_Name be' = be_Name be \<and> (wf_map (map_or_empty (be_Servers be)) \<longrightarrow> wf_map (map_or_empty (be_Servers be'))))"

definition merge_total :: "conf_params \<Rightarrow> bool" where
  "merge_total p = (\<forall>a cr be. \<exists>be'. cp_merge p a cr be = Inr be')"

lemma merge_filter_ok:
  assumes "merge_named p" "be_Name be = n \<and> wf_map (map_or_empty (be_Servers be))" "merge_filter p crs ns f (errs, a, be) = (errs', a', be')"
  shows "be_Name be' = n \<and> wf_map (map_or_empty (be_Servers be')) \<and> (merge_total p \<longrightarrow> errs' = errs)"
  using assms unfolding merge_named_def merge_total_def merge_filter_def Let_def
  by (auto split: if_splits option.splits sum.splits) (metis Inl_Inr_False)+

lemma fold_merge_ok:
  assumes "merge_named p" "be_Name be = n \<and> wf_map (map_or_empty (be_Servers be))" "fold (merge_filter p crs ns) fs (errs, a, be) = (errs', a', be')"
  shows "be_Name be' = n \<and> wf_map (map_or_empty (be_Servers be')) \<and> (merge_total p \<longrightarrow> errs' = errs)"
  using assms(2,3)
proof (induction fs arbitrary: errs a be)
  case (Cons f fs)
  obtain errs1 a1 be1 where 1: "merge_filter p crs ns f (errs, a, be) = (errs1, a1, be1)" by (metis prod_cases3)
  show ?case using Cons.IH[of be1 errs1 a1] Cons.prems(2) 1 merge_filter_ok[OF assms(1) Cons.prems(1) 1] by auto
qed simp

lemma Errors_Result_Nil [simp]: "Errors_Result [] = None"
  by (simp add: Errors_Result_def)

lemma newBackend_ok:
  assumes "merge_named p" "newBackend p crs n md ref ns http = (e, be)"
  shows "be_Name be = n" "wf_map (map_or_empty (be_Servers be))" "merge_total p \<Longrightarrow> e = None"
proof -
  let ?be = "\<lparr>be_Name = n, be_Metadata = md, be_Mode = (if http then ''http'' else ''tcp''),
                be_From = cp_DefaultsSectionName p, be_Balance = ''roundrobin'', be_Abortonclose = ''disabled'', be_ServerTimeout = 50000,
                be_Forwardfor = (if http then Some ''enabled'' else None), be_DefaultServerCheck = ''enabled'', be_BaseExtra = [], be_ACLList = [], be_HTTPRequestRuleList = [], be_OtherLists = [],
                be_Servers = None\<rparr>"
  obtain errs a be' where f: "fold (merge_filter p crs ns) (hb_filters ref) ([], True, ?be) = (errs, a, be')" by (metis prod_cases3)
  have "be_Name be' = n \<and> wf_map (map_or_empty (be_Servers be')) \<and> (merge_total p \<longrightarrow> errs = [])"
    by (rule fold_merge_ok[OF assms(1) _ f]) (simp add: map_or_empty_def)
  then show "be_Name be = n" "wf_map (map_or_empty (be_Servers be))" "merge_total p \<Longrightarrow> e = None"
    using assms(2) f by (auto simp: newBackend_def mergeWithBackendCRs_def Let_def)
qed

subsection \<open>The changes of the configuration\<close>

definition has_backend :: "configuration \<Rightarrow> string \<Rightarrow> bool" where
  "has_backend c n = (current (be_view c n) \<noteq> None)"

abbreviation present :: "conf_mgr \<Rightarrow> string \<Rightarrow> bool" where
  "present b \<equiv> has_backend (cm_conf b)"

text \<open>The differences during the passes: names that will be deleted last may be out of step in between.\<close>

definition track :: "(string \<Rightarrow> backend option) \<Rightarrow> string set \<Rightarrow> configuration \<Rightarrow> bool" where
  "track old D c = (conf_inv c \<and> (\<forall>n. gone_view (old n) (be_view c n)
     \<and> (n \<notin> D \<longrightarrow> \<not> deleted_view (be_view c n) \<and> exact_view same_backend (old n) (be_view c n))))"

lemma fst_upsertBackend [simp]: "fst (upsertBackend (Some be) c) = None"
  by (simp add: upsertBackend_def Let_def new_obj_def split: option.split)

lemma deleted_view_ops:
  assumes "conf_inv c"
  shows "deleted_view (be_view (snd (upsertBackend (Some be) c)) m) = deleted_view (be_view c m)"
    "deleted_view (be_view (upsertBackendMetadata n md c) m) = deleted_view (be_view c m)"
    "m \<noteq> n \<Longrightarrow> deleted_view (be_view (conf_deleteBackend n c) m) = deleted_view (be_view c m)"
    "deleted_view (be_view (snd (upsertBackendWithServers n servers c)) m) = deleted_view (be_view c m)"
  using assms by (auto simp: view_parts conf_ops mhas_iff ptr_at split: option.split)

lemma has_upsertBackend:
  "conf_inv c \<Longrightarrow> has_backend (snd (upsertBackend (Some be) c)) m \<longleftrightarrow> m = be_Name be \<or> has_backend c m"
  by (cases "be_view c m") (auto simp: has_backend_def be_view_upsertBackend current_def Let_def split: option.split)

lemma has_metadata:
  assumes "conf_inv c"
  shows "has_backend (upsertBackendMetadata n md c) m \<longleftrightarrow> has_backend c m"
proof (cases "m = n")
  case True
  obtain d u cr cur where v: "be_view c n = (d, u, cr, cur)" by (cases "be_view c n")
  show ?thesis
  proof (cases cur)
    case None
    then show ?thesis using be_view_upsertBackendMetadata(3)[OF assms, of n d u cr md] v True by (simp add: has_backend_def current_def)
  next
    case (Some b)
    then show ?thesis using be_view_upsertBackendMetadata(2)[OF assms, of n d u cr b md] v True by (auto simp: has_backend_def current_def)
  qed
qed (simp add: has_backend_def be_view_upsertBackendMetadata(1)[OF assms])

lemma has_delete:
  "conf_inv c \<Longrightarrow> has_backend (conf_deleteBackend n c) m \<longleftrightarrow> m \<noteq> n \<and> has_backend c m"
  by (cases "be_view c m") (auto simp: has_backend_def be_view_deleteBackend current_def)

lemma track_upsert:
  assumes "track old D c" "wf_map (map_or_empty (be_Servers be))"
  shows "track old D (snd (upsertBackend (Some be) c))"
  using assms by (auto simp: track_def conf_inv_upsertBackend deleted_view_ops intro!: upsertBackend_gone upsertBackend_exact)

lemma track_metadata: "track old D c \<Longrightarrow> track old D (upsertBackendMetadata n md c)"
  by (auto simp: track_def conf_inv_upsertBackendMetadata deleted_view_ops intro!: upsertBackendMetadata_gone upsertBackendMetadata_exact)

lemma track_delete:
  assumes "track old D c" "n \<in> D" shows "track old D (conf_deleteBackend n c)"
proof -
  have "m \<notin> D \<Longrightarrow> \<not> deleted_view (be_view (conf_deleteBackend n c) m)" for m
    using assms deleted_view_ops(3)[of c m n] by (auto simp: track_def)
  then show ?thesis using assms by (auto simp: track_def conf_inv_deleteBackend intro!: deleteBackend_gone deleteBackend_exact)
qed

subsubsection \<open>The three passes over the impacted backends\<close>

text \<open>The passes change the configuration and the marks of the first synchronisation only.\<close>

definition same_owners :: "conf_mgr \<Rightarrow> conf_mgr \<Rightarrow> bool" where
  "same_owners b b' = (cm_owners b' = cm_owners b \<and> cm_impacted b' = cm_impacted b \<and> cm_frontendsOwned b' = cm_frontendsOwned b)"

lemma mark_parts [simp]:
  "cm_owners (mark_backend n b) = cm_owners b" "cm_impacted (mark_backend n b) = cm_impacted b" "cm_conf (mark_backend n b) = cm_conf b"
  "cm_frontendsOwned (mark_backend n b) = cm_frontendsOwned b" "cm_owners (unmark_backend n b) = cm_owners b"
  "cm_impacted (unmark_backend n b) = cm_impacted b" "cm_conf (unmark_backend n b) = cm_conf b" "cm_frontendsOwned (unmark_backend n b) = cm_frontendsOwned b"
  by (simp_all add: mark_backend_def unmark_backend_def)

lemma owners_shown_some: "byType \<noteq> [] \<Longrightarrow> owners_shown byType \<noteq> None"
proof -
  assume "byType \<noteq> []"
  then obtain t k where "map_of byType t = Some k" using nonempty_key by blast
  then show ?thesis by (cases t) (auto simp: owners_shown_def split: option.split)
qed

lemma upsert_impacted_cases:
  assumes "merge_named p" "upsert_impacted p crs (n, imp) (errs, b) = (errs', b')"
  shows "(b' = b \<and> \<not> (merge_total p \<and> owners_inv (cm_owners b) \<and> n \<in> mkeys (cm_owners b)))
    \<or> (\<exists>be. be_Name be = n \<and> wf_map (map_or_empty (be_Servers be)) \<and> b' = mark_backend n (b\<lparr>cm_conf := snd (upsertBackend (Some be) (cm_conf b))\<rparr>))"
proof (cases "map_of (cm_owners b) n")
  case None
  then have "b' = b" using assms(2) by (simp add: upsert_impacted_def)
  then show ?thesis using None by (simp add: map_of_None_mkeys)
next
  case (Some byType)
  show ?thesis
  proof (cases "owners_shown byType")
    case None
    have "b' = b" using assms(2) by (simp add: upsert_impacted_def Some None)
    moreover have "\<not> owners_inv (cm_owners b)" using owners_shown_some[of byType] None Some by (auto simp: owners_inv_def)
    ultimately show ?thesis by blast
  next
    case shown: (Some x)
    obtain t ow where x: "x = (t, ow)" by (cases x)
    let ?ref = "if imp = [] then http_backend_ref0 else ib_BackendRef (snd (last imp))"
    let ?ns = "case ow of [] \<Rightarrow> [] | (owner, _) # _ \<Rightarrow> nn_namespace owner"
    obtain e be where nb: "newBackend p crs n (BackendMetaData (cp_LinkID p) (routes_info t ow)) ?ref ?ns (t = BackendOwnerTypeHTTPRoute) = (e, be)" by fastforce
    obtain c where c: "upsertBackend (Some be) (cm_conf b) = (None, c)" using fst_upsertBackend[of be "cm_conf b"] by (metis prod.collapse)
    note ok = newBackend_ok[OF assms(1) nb]
    have "upsert_impacted p crs (n, imp) (errs, b) =
        (case e of Some err \<Rightarrow> (Errors_Add [Some err] errs, b) | None \<Rightarrow> (errs, mark_backend (be_Name be) (b\<lparr>cm_conf := c\<rparr>)))"
      by (cases e) (simp_all add: upsert_impacted_def Some shown x nb c Let_def del: list.case)
    then show ?thesis using assms(2) ok c by (cases e) auto
  qed
qed

lemma upserted_pass:
  assumes "merge_named p" "mgr_inv b" "fold (upsert_impacted p crs) xs (errs, b) = (errs', b')"
  shows "mgr_inv b' \<and> same_owners b b' \<and> (track old D (cm_conf b) \<longrightarrow> track old D (cm_conf b'))
    \<and> (\<forall>n. present b n \<longrightarrow> present b' n) \<and> (\<forall>n. present b' n \<longrightarrow> present b n \<or> n \<in> mkeys xs)
    \<and> (merge_total p \<longrightarrow> (\<forall>n \<in> mkeys xs \<inter> mkeys (cm_owners b). present b' n))"
  using assms(2,3)
proof (induction xs arbitrary: errs b)
  case (Cons x xs)
  obtain n imp where x: "x = (n, imp)" by (cases x)
  obtain errs1 b1 where 1: "upsert_impacted p crs (n, imp) (errs, b) = (errs1, b1)" by fastforce
  have inv: "conf_inv (cm_conf b)" "owners_inv (cm_owners b)" using Cons.prems(1) by (simp_all add: mgr_inv_def)
  have step: "mgr_inv b1 \<and> same_owners b b1 \<and> (track old D (cm_conf b) \<longrightarrow> track old D (cm_conf b1))
    \<and> (\<forall>m. present b m \<longrightarrow> present b1 m) \<and> (\<forall>m. present b1 m \<longrightarrow> present b m \<or> m = n) \<and> (merge_total p \<longrightarrow> n \<in> mkeys (cm_owners b) \<longrightarrow> present b1 n)"
    using upsert_impacted_cases[OF assms(1) 1] Cons.prems(1) inv
    by (auto simp: same_owners_def mgr_inv_def conf_inv_upsertBackend has_upsertBackend intro: track_upsert)
  have "fold (upsert_impacted p crs) xs (errs1, b1) = (errs', b')" using Cons.prems(2) by (simp add: x 1)
  from Cons.IH[OF _ this] step show ?case by (auto simp: x same_owners_def)
qed (simp add: same_owners_def)

lemma unreferenced_pass:
  assumes "mgr_inv b" "b' = fold (\<lambda>(n, _). unreference_backend p n) xs b"
  shows "mgr_inv b' \<and> same_owners b b' \<and> (track old D (cm_conf b) \<longrightarrow> track old D (cm_conf b')) \<and> (\<forall>n. present b' n \<longleftrightarrow> present b n)"
  using assms
proof (induction xs arbitrary: b)
  case (Cons x xs)
  let ?b = "unreference_backend p (fst x) b"
  have inv: "conf_inv (cm_conf b)" "owners_inv (cm_owners b)" using Cons.prems(1) by (simp_all add: mgr_inv_def)
  have step: "mgr_inv ?b \<and> same_owners b ?b \<and> (track old D (cm_conf b) \<longrightarrow> track old D (cm_conf ?b)) \<and> (\<forall>n. present ?b n \<longleftrightarrow> present b n)"
  proof (cases "map_of (cm_owners b) (fst x)")
    case (Some byType)
    then have "owners_shown byType \<noteq> None" using owners_shown_some inv(2) by (auto simp: owners_inv_def)
    then show ?thesis using Some Cons.prems(1) inv
      by (auto simp: unreference_backend_def same_owners_def mgr_inv_def conf_inv_upsertBackendMetadata has_metadata
          intro: track_metadata)
  qed (use Cons.prems in \<open>simp add: unreference_backend_def same_owners_def\<close>)
  then show ?case using Cons.IH[of ?b] Cons.prems(2) by (simp add: split_def same_owners_def)
qed (simp add: same_owners_def)

lemma deleted_pass:
  assumes "mgr_inv b" "b' = fold (\<lambda>(n, _) b. unmark_backend n (b\<lparr>cm_conf := conf_deleteBackend n (cm_conf b)\<rparr>)) xs b"
  shows "mgr_inv b' \<and> same_owners b b' \<and> (track old D (cm_conf b) \<longrightarrow> mkeys xs \<subseteq> D \<longrightarrow> track old D (cm_conf b'))
    \<and> (\<forall>n. present b' n \<longleftrightarrow> present b n \<and> n \<notin> mkeys xs)"
  using assms
proof (induction xs arbitrary: b)
  case (Cons x xs)
  let ?b = "unmark_backend (fst x) (b\<lparr>cm_conf := conf_deleteBackend (fst x) (cm_conf b)\<rparr>)"
  have inv: "conf_inv (cm_conf b)" using Cons.prems(1) by (simp add: mgr_inv_def)
  have "mgr_inv ?b" "same_owners b ?b" "track old D (cm_conf b) \<Longrightarrow> fst x \<in> D \<Longrightarrow> track old D (cm_conf ?b)" "\<And>n. present ?b n \<longleftrightarrow> present b n \<and> n \<noteq> fst x"
    using Cons.prems(1) inv
    by (auto simp: same_owners_def mgr_inv_def conf_inv_deleteBackend has_delete intro: track_delete)
  then show ?case using Cons.IH[of ?b] Cons.prems(2) by (auto simp: split_def same_owners_def)
qed (simp add: same_owners_def)

subsection \<open>A pass over the routes of a kind\<close>

definition owned :: "conf_mgr \<Rightarrow> string set" where
  "owned b = {n. \<exists>t k. n \<in> referenced b t k}"

definition tidy :: "conf_mgr \<Rightarrow> bool" where
  "tidy b = (mkeys (cm_owners b) = owned b)"

lemma referenced_cong: "rel_of b = rel_of b' \<Longrightarrow> referenced b = referenced b'"
  by (simp add: referenced_def fun_eq_iff)

lemma process_routes_ok:
  assumes "merge_named p" "mgr_inv b" "wf_map routes" "process_routes p t meta refs crs routes b = Some (e, b')"
  shows "mgr_inv b'" "tidy b'" "cm_frontendsOwned b' = cm_frontendsOwned b"
    "referenced b' t k = expected p t meta refs routes b k" "t' \<noteq> t \<Longrightarrow> referenced b' t' k = referenced b t' k"
    "upserted_of b' = upserted_of b \<union> claims_of p meta refs routes"
    "deleted_of b' = deleted_of b \<union> released_by b t routes \<union> ((mkeys (cm_owners b) \<union> claims_of p meta refs routes) - owned b')"
    "present b' n \<Longrightarrow> n \<notin> deleted_of b' \<and> (present b n \<or> n \<in> upserted_of b')"
    "n \<notin> deleted_of b' \<Longrightarrow> present b n \<or> (merge_total p \<and> n \<in> upserted_of b' \<inter> owned b') \<Longrightarrow> present b' n"
    "track old D (cm_conf b) \<Longrightarrow> deleted_of b' \<subseteq> D \<Longrightarrow> track old D (cm_conf b')"
proof -
  obtain errs b1 where 1: "foldo (process_route p t meta refs) routes ([], b) = Some (errs, b1)"
    and 2: "b' = snd (processBackendsModifiedInCycle p crs (cleanupUnreferencedBackends b1))"
    using assms(4) by (auto simp: process_routes_def split: option.splits prod.splits)
  note r = process_route_fold[OF assms(2,3) 1]
  have inv1: "mgr_inv b1" using r by blast
  let ?c = "cleanupUnreferencedBackends b1"
  note c = cleanupUnreferencedBackends_ok[OF inv1]
  obtain errs2 b2 where 3: "processBackendsUpsertedInCycle p crs ?c = (errs2, b2)" by fastforce
  note u = upserted_pass[OF assms(1) c(1) 3[unfolded processBackendsUpsertedInCycle_def], of old D]
  have inv2: "mgr_inv b2" using u by blast
  let ?b3 = "processBackendsUnreferencedInCycle p b2"
  note un = unreferenced_pass[OF inv2 processBackendsUnreferencedInCycle_def[of p b2], of old D]
  have inv3: "mgr_inv ?b3" using un by blast
  have b': "b' = processBackendsDeletedInCycle ?b3" using 2 3 by (simp add: processBackendsModifiedInCycle_def)
  note d = deleted_pass[OF inv3 b'[unfolded processBackendsDeletedInCycle_def], of old D]
  have own: "cm_owners b' = cm_owners ?c" "cm_impacted b' = cm_impacted ?c" "cm_frontendsOwned b' = cm_frontendsOwned b" "cm_impacted ?b3 = cm_impacted ?c"
    using d un u c(3) r by (simp_all add: same_owners_def same_rest_def)
  have rel: "referenced b' = referenced b1" using own(1) c(2) by (intro referenced_cong) simp
  show "mgr_inv b'" using d by blast
  show "cm_frontendsOwned b' = cm_frontendsOwned b" by (fact own(3))
  show "tidy b'" using c(6) own(1) rel by (simp add: tidy_def owned_def)
  show "referenced b' t k = expected p t meta refs routes b k" "t' \<noteq> t \<Longrightarrow> referenced b' t' k = referenced b t' k" using r rel by simp_all
  show ups: "upserted_of b' = upserted_of b \<union> claims_of p meta refs routes" using r own(2) c(4) by simp
  show "deleted_of b' = deleted_of b \<union> released_by b t routes \<union> ((mkeys (cm_owners b) \<union> claims_of p meta refs routes) - owned b')"
    using r own(2) c(5) rel by (auto simp: owned_def)
  have conf: "cm_conf ?c = cm_conf b" using c(3) r by (simp add: same_rest_def)
  show "n \<notin> deleted_of b' \<and> (present b n \<or> n \<in> upserted_of b')" if "present b' n"
    using that d un u own(2,4) conf by auto
  show "present b' n" if "n \<notin> deleted_of b'" "present b n \<or> (merge_total p \<and> n \<in> upserted_of b' \<inter> owned b')"
  proof -
    have "owned b' = mkeys (cm_owners ?c)" using c(6) rel by (simp add: owned_def)
    then have "present b2 n" using that(2) u conf own(2) by auto
    then show ?thesis using that(1) d un own(2,4) by auto
  qed
  show "track old D (cm_conf b')" if "track old D (cm_conf b)" "deleted_of b' \<subseteq> D"
    using that d un u own(2,4) conf by auto
qed

subsection \<open>Both passes of a cycle\<close>

definition process_all_routes :: "conf_params \<Rightarrow> (namespaced_name, backend_cr) gomap \<Rightarrow> http_route tree_map \<Rightarrow> tls_route tree_map \<Rightarrow> conf_mgr \<Rightarrow> conf_mgr option" where
  "process_all_routes p crs hs ts b =
     (case processHTTPRoutes p crs hs b of None \<Rightarrow> None | Some (_, b) \<Rightarrow> map_option snd (processTLSRoutes p crs ts b))"

text \<open>The backends that the routes deleted or invalidated in this cycle referenced, and those that lost all their owners
  in the pass over the HTTP routes.\<close>

definition released_backends :: "conf_mgr \<Rightarrow> http_route tree_map \<Rightarrow> tls_route tree_map \<Rightarrow> string set" where
  "released_backends b hs ts = released_by b BackendOwnerTypeHTTPRoute hs \<union> released_by b BackendOwnerTypeTLSRoute ts"

definition abandoned_backends :: "conf_params \<Rightarrow> http_route tree_map \<Rightarrow> conf_mgr \<Rightarrow> string set" where
  "abandoned_backends p hs b = {n \<in> owned b. (\<forall>k. n \<notin> expected p BackendOwnerTypeHTTPRoute hrk_meta (http_rule_refs p) hs b k)
     \<and> (\<forall>k. n \<notin> referenced b BackendOwnerTypeTLSRoute k)}"

lemma all_routes_steps:
  assumes "process_all_routes p crs hs ts b = Some b2"
  obtains e1 b1 e2 where "process_routes p BackendOwnerTypeHTTPRoute hrk_meta (http_rule_refs p) crs hs b = Some (e1, b1)"
    "process_routes p BackendOwnerTypeTLSRoute trk_meta tls_rule_refs crs ts b1 = Some (e2, b2)"
  using assms by (auto simp: process_all_routes_def processHTTPRoutes_def processTLSRoutes_def split: option.splits)

lemma all_owned: "n \<in> owned b \<longleftrightarrow> (\<exists>k. n \<in> referenced b BackendOwnerTypeHTTPRoute k) \<or> (\<exists>k. n \<in> referenced b BackendOwnerTypeTLSRoute k)"
proof
  assume "n \<in> owned b"
  then obtain t k where "n \<in> referenced b t k" by (auto simp: owned_def)
  then show "(\<exists>k. n \<in> referenced b BackendOwnerTypeHTTPRoute k) \<or> (\<exists>k. n \<in> referenced b BackendOwnerTypeTLSRoute k)" by (cases t) auto
qed (auto simp: owned_def)

lemma owner_types_differ [simp]: "BackendOwnerTypeTLSRoute \<noteq> BackendOwnerTypeHTTPRoute" "BackendOwnerTypeHTTPRoute \<noteq> BackendOwnerTypeTLSRoute"
  by simp_all

text \<open>The deletions of both passes.\<close>

lemma all_routes_deleted:
  assumes "merge_named p" "mgr_inv b" "tidy b" "cm_impacted b = no_impact" "wf_map hs" "wf_map ts" "process_all_routes p crs hs ts b = Some b2"
  shows "deleted_of b2 = released_backends b hs ts \<union> abandoned_backends p hs b \<union> (owned b - owned b2)"
proof -
  obtain e1 b1 e2 where 1: "process_routes p BackendOwnerTypeHTTPRoute hrk_meta (http_rule_refs p) crs hs b = Some (e1, b1)"
    and 2: "process_routes p BackendOwnerTypeTLSRoute trk_meta tls_rule_refs crs ts b1 = Some (e2, b2)"
    by (rule all_routes_steps[OF assms(7)])
  note h = process_routes_ok[OF assms(1,2,5) 1]
  note t = process_routes_ok[OF assms(1) h(1) assms(6) 2]
  have claimed: "claims_of p hrk_meta (http_rule_refs p) hs \<subseteq> owned b1"
  proof
    fix n assume "n \<in> claims_of p hrk_meta (http_rule_refs p) hs"
    then obtain k r where "(k, r) \<in> set hs" "refreshed r" "n \<in> route_claims p hrk_meta (http_rule_refs p) r" by (auto simp: claims_of_def)
    then have "n \<in> referenced b1 BackendOwnerTypeHTTPRoute k" using assms(5) by (simp add: h(4) expected_def map_of_wf_mem)
    then show "n \<in> owned b1" by (auto simp: owned_def)
  qed
  have claimed2: "claims_of p trk_meta tls_rule_refs ts \<subseteq> owned b2"
  proof
    fix n assume "n \<in> claims_of p trk_meta tls_rule_refs ts"
    then obtain k r where "(k, r) \<in> set ts" "refreshed r" "n \<in> route_claims p trk_meta tls_rule_refs r" by (auto simp: claims_of_def)
    then have "n \<in> referenced b2 BackendOwnerTypeTLSRoute k" using assms(6) by (simp add: t(4) expected_def map_of_wf_mem)
    then show "n \<in> owned b2" by (auto simp: owned_def)
  qed
  have ref: "referenced b1 BackendOwnerTypeTLSRoute k = referenced b BackendOwnerTypeTLSRoute k" for k by (rule h(5)) simp
  have rel: "released_by b1 BackendOwnerTypeTLSRoute ts = released_by b BackendOwnerTypeTLSRoute ts" by (simp add: released_by_def ref)
  have ab: "owned b - owned b1 = abandoned_backends p hs b" by (auto simp: abandoned_backends_def all_owned[of _ b1] h(4) ref)
  have sub: "owned b1 - owned b2 \<subseteq> owned b - owned b2"
  proof
    fix n assume n: "n \<in> owned b1 - owned b2"
    then obtain k where "n \<in> referenced b1 BackendOwnerTypeHTTPRoute k \<or> n \<in> referenced b1 BackendOwnerTypeTLSRoute k" by (auto simp: all_owned)
    moreover have "n \<notin> referenced b1 BackendOwnerTypeHTTPRoute k" using n t(5)[of BackendOwnerTypeHTTPRoute k] by (auto simp: owned_def)
    ultimately show "n \<in> owned b - owned b2" using n ref by (auto simp: owned_def)
  qed
  have "deleted_of b1 = released_by b BackendOwnerTypeHTTPRoute hs \<union> abandoned_backends p hs b"
    using h(7) claimed assms(3,4) ab by (auto simp: tidy_def no_impact_def)
  moreover have "deleted_of b2 = deleted_of b1 \<union> released_by b BackendOwnerTypeTLSRoute ts \<union> (owned b1 - owned b2)"
    using t(7) claimed2 h(2) rel by (auto simp: tidy_def)
  ultimately show ?thesis using sub ab by (auto simp: released_backends_def)
qed

lemma all_routes_present:
  assumes "merge_named p" "mgr_inv b" "wf_map hs" "wf_map ts" "process_all_routes p crs hs ts b = Some b2"
  shows "present b2 n \<Longrightarrow> n \<notin> deleted_of b2"
    "merge_total p \<Longrightarrow> n \<in> owned b2 \<Longrightarrow> n \<notin> deleted_of b2 \<Longrightarrow> present b n \<or> n \<notin> owned b \<Longrightarrow> present b2 n"
    "mgr_inv b2" "tidy b2" "referenced b2 BackendOwnerTypeHTTPRoute k = expected p BackendOwnerTypeHTTPRoute hrk_meta (http_rule_refs p) hs b k"
    "referenced b2 BackendOwnerTypeTLSRoute k = expected p BackendOwnerTypeTLSRoute trk_meta tls_rule_refs ts b k"
    "track old (deleted_of b2) (cm_conf b) \<Longrightarrow> track old (deleted_of b2) (cm_conf b2)"
proof -
  obtain e1 b1 e2 where 1: "process_routes p BackendOwnerTypeHTTPRoute hrk_meta (http_rule_refs p) crs hs b = Some (e1, b1)"
    and 2: "process_routes p BackendOwnerTypeTLSRoute trk_meta tls_rule_refs crs ts b1 = Some (e2, b2)"
    by (rule all_routes_steps[OF assms(5)])
  note h = process_routes_ok[OF assms(1,2,3) 1]
  note t = process_routes_ok[OF assms(1) h(1) assms(4) 2]
  have ref: "referenced b1 BackendOwnerTypeTLSRoute k = referenced b BackendOwnerTypeTLSRoute k" for k by (rule h(5)) simp
  have ref2: "referenced b2 BackendOwnerTypeHTTPRoute k = referenced b1 BackendOwnerTypeHTTPRoute k" for k by (rule t(5)) simp
  show "mgr_inv b2" "tidy b2" by (fact t(1), fact t(2))
  show "referenced b2 BackendOwnerTypeHTTPRoute k = expected p BackendOwnerTypeHTTPRoute hrk_meta (http_rule_refs p) hs b k" by (simp add: ref2 h(4))
  show "referenced b2 BackendOwnerTypeTLSRoute k = expected p BackendOwnerTypeTLSRoute trk_meta tls_rule_refs ts b k"
    by (simp add: t(4) expected_def ref split: option.split)
  show "n \<notin> deleted_of b2" if "present b2 n" using t(8)[OF that] by blast
  have sub: "deleted_of b1 \<subseteq> deleted_of b2" using t(7) by blast
  show "track old (deleted_of b2) (cm_conf b2)" if "track old (deleted_of b2) (cm_conf b)"
    using t(10)[OF h(10)[OF that sub]] by blast
  show "present b2 n" if m: "merge_total p" and n: "n \<in> owned b2" "n \<notin> deleted_of b2" "present b n \<or> n \<notin> owned b"
  proof (cases "present b n")
    case True
    then show ?thesis using h(9)[of n] t(9)[of n] n(2) sub by blast
  next
    case False
    then have "n \<notin> owned b" using n(3) by blast
    then have new: "n \<notin> referenced b BackendOwnerTypeHTTPRoute k" "n \<notin> referenced b BackendOwnerTypeTLSRoute k" for k by (auto simp: owned_def)
    have "n \<in> upserted_of b2"
    proof (cases "\<exists>k. n \<in> referenced b2 BackendOwnerTypeHTTPRoute k")
      case True
      then obtain k where "n \<in> expected p BackendOwnerTypeHTTPRoute hrk_meta (http_rule_refs p) hs b k" by (auto simp: ref2 h(4))
      then have "n \<in> claims_of p hrk_meta (http_rule_refs p) hs" using new assms(3)
        by (auto simp: expected_def claims_of_def split: option.splits if_splits) (metis map_of_SomeD)
      then show ?thesis using h(6) t(6) by blast
    next
      case False
      then obtain k where "n \<in> expected p BackendOwnerTypeTLSRoute trk_meta tls_rule_refs ts b1 k" using n(1) by (auto simp: all_owned t(4))
      then have "n \<in> claims_of p trk_meta tls_rule_refs ts" using new assms(4)
        by (auto simp: expected_def claims_of_def ref split: option.splits if_splits) (metis map_of_SomeD)
      then show ?thesis using t(6) by blast
    qed
    then show ?thesis using t(9)[of n] n(1,2) m by blast
  qed
qed


definition ex_params :: conf_params where
  "ex_params = \<lparr>cp_names = ex_names, cp_LinkID = ''l'', cp_DefaultsSectionName = ''d'', cp_extractGVK = scheme_gvk, cp_merge = (\<lambda>_ _ be. Inr be)\<rparr>"

definition ex_routes :: "http_route tree_map" where
  "ex_routes = [(NamespacedName ''d'' ''r'', new_tree_res (ex_tree_route\<lparr>rt_Valid := True\<rparr>))]"

definition ex_mgr :: conf_mgr where
  "ex_mgr = NewHaproxyConfMgr conf0"

lemma ex_owned: "referenced ex_mgr t k = {}" "owned ex_mgr = {}"
  by (simp_all add: owned_def referenced_def backend_rel_def ex_mgr_def NewHaproxyConfMgr_def NewBackendOwners_def)


text \<open>A backend that a released route referenced is removed even when other routes still own it.\<close>

lemma shared_backend_deleted:
  assumes "merge_named p" "mgr_inv b" "tidy b" "cm_impacted b = no_impact" "wf_map hs" "wf_map ts" "process_all_routes p crs hs ts b = Some b2"
    and "(k, r) \<in> set hs" "released r" "n \<in> referenced b BackendOwnerTypeHTTPRoute k"
  shows "\<not> present b2 n"
proof -
  have "n \<in> released_backends b hs ts" using assms(8-10) by (auto simp: released_backends_def released_by_def)
  then show ?thesis using all_routes_present(1)[OF assms(1,2,5,6,7), of n] all_routes_deleted[OF assms(1-7)] by blast
qed

text \<open>The differences of the backends stay exact through both passes.\<close>

lemma all_routes_exact:
  assumes "merge_named p" "mgr_inv b" "wf_map hs" "wf_map ts" "process_all_routes p crs hs ts b = Some b2"
    and "\<forall>n. exact_view same_backend (old n) (be_view (cm_conf b) n) \<and> \<not> deleted_view (be_view (cm_conf b) n)"
  shows "exact_view same_backend (old n) (be_view (cm_conf b2) n)"
proof -
  note r = all_routes_present[OF assms(1-5)]
  have "track old (deleted_of b2) (cm_conf b)" using assms(2,6) exact_gone by (simp add: track_def mgr_inv_def) blast
  then have t: "track old (deleted_of b2) (cm_conf b2)" by (rule r(7))
  show ?thesis
  proof (cases "n \<in> deleted_of b2")
    case True
    then have "current (be_view (cm_conf b2) n) = None" using r(1)[of n] unfolding has_backend_def by blast
    then show ?thesis using t by (simp add: track_def gone_view_def vanishes_view_def exact_view_def agrees_view_def)
  qed (use t in \<open>simp add: track_def\<close>)
qed

end
