(* ===== verification/FrontendCycle.thy ===== *)
theory FrontendCycle
  imports Frontends BackendCycle
begin

text \<open>
  What \<open>processGateways\<close> does to the frontends: after it a gateway has exactly the frontends of its valid listeners, and the
  differences stay exact.  The template of the names has to give different names to different listeners
  (\<open>names_ok\<close>), as the default template does on Kubernetes names, which hold no underscore.
\<close>

definition k8s_name :: "string \<Rightarrow> bool" where
  "k8s_name s = (CHR ''_'' \<notin> set s)"

definition k8s_key :: "namespaced_name \<Rightarrow> bool" where
  "k8s_key k = (k8s_name (nn_namespace k) \<and> k8s_name (nn_name k))"

definition names_ok :: "hap_names \<Rightarrow> bool" where
  "names_ok names = ((\<forall>gw l. \<exists>n. hn_frontend names gw l = Inr n)
     \<and> (\<forall>gw l gw' l' n. k8s_key gw \<longrightarrow> k8s_name l \<longrightarrow> k8s_key gw' \<longrightarrow> k8s_name l' \<longrightarrow>
          hn_frontend names gw l = Inr n \<longrightarrow> hn_frontend names gw' l' = Inr n \<longrightarrow> gw = gw' \<and> l = l'))"

definition fname :: "hap_names \<Rightarrow> namespaced_name \<Rightarrow> string \<Rightarrow> string" where
  "fname names gw l = (case hn_frontend names gw l of Inl _ \<Rightarrow> [] | Inr n \<Rightarrow> n)"

text \<open>The names a gateway can give to its frontends.\<close>

definition fnames :: "hap_names \<Rightarrow> namespaced_name \<Rightarrow> string set" where
  "fnames names gw = (if k8s_key gw then fname names gw ` {l. k8s_name l} else {})"

lemma hn_fname: "names_ok names \<Longrightarrow> hn_frontend names gw l = Inr (fname names gw l)"
  by (metis fname_def names_ok_def sum.simps(6))

lemma fname_inj:
  assumes "names_ok names" "k8s_key gw" "k8s_name l" "k8s_key gw'" "k8s_name l'"
  shows "fname names gw l = fname names gw' l' \<longleftrightarrow> gw = gw' \<and> l = l'"
  using hn_fname[OF assms(1), of gw l] hn_fname[OF assms(1), of gw' l'] assms unfolding names_ok_def by metis

subsection \<open>Frontends of the configuration\<close>

definition has_frontend :: "conf_mgr \<Rightarrow> string \<Rightarrow> bool" where
  "has_frontend b n = mhas (cf_Frontends (cm_conf b)) n"

definition updated_by :: "conf_mgr \<Rightarrow> namespaced_name \<Rightarrow> string set option" where
  "updated_by b gw = map_option mkeys (map_of (fo_byUpdatedGateways (cm_frontendsOwned b)) gw)"

definition owned_by :: "conf_mgr \<Rightarrow> namespaced_name \<Rightarrow> string set" where
  "owned_by b gw = mkeys (map_get_default [] (fo_current (cm_frontendsOwned b)) gw)"

text \<open>Steps of the gateways leave the routes' side alone.\<close>

definition gw_frame :: "conf_mgr \<Rightarrow> conf_mgr \<Rightarrow> bool" where
  "gw_frame b b' = (cm_owners b' = cm_owners b \<and> cm_impacted b' = cm_impacted b \<and> fo_current (cm_frontendsOwned b') = fo_current (cm_frontendsOwned b)
     \<and> (\<forall>n. be_view (cm_conf b') n = be_view (cm_conf b) n) \<and> (conf_inv (cm_conf b) \<longrightarrow> conf_inv (cm_conf b'))
     \<and> (wf_map (fo_byUpdatedGateways (cm_frontendsOwned b)) \<longrightarrow> wf_map (fo_byUpdatedGateways (cm_frontendsOwned b'))))"

lemma gw_frame_refl [simp]: "gw_frame b b"
  by (simp add: gw_frame_def)

lemma gw_frame_trans: "gw_frame a b \<Longrightarrow> gw_frame b c \<Longrightarrow> gw_frame a c"
  by (simp add: gw_frame_def)

text \<open>A step for the gateway \<open>gw\<close> that leaves the names in \<open>good\<close> configured and those in \<open>bad\<close> not.\<close>

definition gw_step :: "namespaced_name \<Rightarrow> string set \<Rightarrow> string set \<Rightarrow> conf_mgr \<Rightarrow> conf_mgr \<Rightarrow> bool" where
  "gw_step gw good bad b b' =
     (gw_frame b b' \<and> (\<forall>n. n \<notin> good \<union> bad \<longrightarrow> fe_view (cm_conf b') n = fe_view (cm_conf b) n)
      \<and> (\<forall>n. has_frontend b' n \<longleftrightarrow> n \<in> good \<or> has_frontend b n \<and> n \<notin> bad)
      \<and> (\<forall>g. g \<noteq> gw \<longrightarrow> updated_by b' g = updated_by b g)
      \<and> updated_by b' gw = (if good \<union> bad = {} then updated_by b gw
           else Some (((case updated_by b gw of None \<Rightarrow> {} | Some s \<Rightarrow> s) \<union> good) - bad)))"

definition fe_exact :: "(string \<Rightarrow> frontend option) \<Rightarrow> conf_mgr \<Rightarrow> bool" where
  "fe_exact old b = (\<forall>n. exact_view same_frontend (old n) (fe_view (cm_conf b) n))"

lemma gw_step_none [simp]: "gw_step gw {} {} b b"
  by (simp add: gw_step_def)

lemma gw_stepD:
  assumes "gw_step gw good bad b b'"
  shows "gw_frame b b'" "n \<notin> good \<union> bad \<Longrightarrow> fe_view (cm_conf b') n = fe_view (cm_conf b) n"
    "has_frontend b' n \<longleftrightarrow> n \<in> good \<or> has_frontend b n \<and> n \<notin> bad" "g \<noteq> gw \<Longrightarrow> updated_by b' g = updated_by b g"
    "updated_by b' gw = (if good \<union> bad = {} then updated_by b gw else Some (((case updated_by b gw of None \<Rightarrow> {} | Some s \<Rightarrow> s) \<union> good) - bad))"
  using assms by (simp_all add: gw_step_def)

lemma gw_stepI:
  assumes "gw_frame b b'" "\<And>n. n \<notin> good \<union> bad \<Longrightarrow> fe_view (cm_conf b') n = fe_view (cm_conf b) n"
    "\<And>n. has_frontend b' n \<longleftrightarrow> n \<in> good \<or> has_frontend b n \<and> n \<notin> bad" "\<And>g. g \<noteq> gw \<Longrightarrow> updated_by b' g = updated_by b g"
    "updated_by b' gw = (if good \<union> bad = {} then updated_by b gw else Some (((case updated_by b gw of None \<Rightarrow> {} | Some s \<Rightarrow> s) \<union> good) - bad))"
  shows "gw_step gw good bad b b'"
  unfolding gw_step_def using assms by blast

lemma gw_step_trans:
  assumes "gw_step gw g1 b1 x y" "gw_step gw g2 b2 y z" "g1 \<inter> b2 = {}" "g2 \<inter> b1 = {}"
  shows "gw_step gw (g1 \<union> g2) (b1 \<union> b2) x z"
proof (rule gw_stepI)
  note 1 = gw_stepD[OF assms(1)] and 2 = gw_stepD[OF assms(2)]
  show "gw_frame x z" by (rule gw_frame_trans[OF 1(1) 2(1)])
  show "fe_view (cm_conf z) n = fe_view (cm_conf x) n" if "n \<notin> (g1 \<union> g2) \<union> (b1 \<union> b2)" for n using that 1(2) 2(2) by simp
  show "has_frontend z n \<longleftrightarrow> n \<in> g1 \<union> g2 \<or> has_frontend x n \<and> n \<notin> b1 \<union> b2" for n using 1(3)[of n] 2(3)[of n] assms(3,4) by blast
  show "updated_by z g = updated_by x g" if "g \<noteq> gw" for g using 1(4)[OF that] 2(4)[OF that] by simp
  show "updated_by z gw = (if (g1 \<union> g2) \<union> (b1 \<union> b2) = {} then updated_by x gw
      else Some (((case updated_by x gw of None \<Rightarrow> {} | Some s \<Rightarrow> s) \<union> (g1 \<union> g2)) - (b1 \<union> b2)))"
    using 1(5) 2(5) assms(3,4) by (cases "g1 \<union> b1 = {}"; cases "g2 \<union> b2 = {}") auto
qed

lemma updated_by_Add: "updated_by (b\<lparr>cm_conf := c, cm_frontendsOwned := AddToUpdated gw n (cm_frontendsOwned b)\<rparr>) g =
   (if g = gw then Some (insert n (case updated_by b gw of None \<Rightarrow> {} | Some s \<Rightarrow> s)) else updated_by b g)"
  by (simp add: updated_by_def AddToUpdated_def map_of_mput map_get_default_def split: option.split)

lemma updated_by_Remove: "updated_by (b\<lparr>cm_conf := c, cm_frontendsOwned := RemoveFromUpdated gw n (cm_frontendsOwned b)\<rparr>) g =
   (if g = gw then Some ((case updated_by b gw of None \<Rightarrow> {} | Some s \<Rightarrow> s) - {n}) else updated_by b g)"
  by (simp add: updated_by_def RemoveFromUpdated_def map_of_mput map_get_default_def split: option.split)

lemma has_frontend_view: "has_frontend b n \<longleftrightarrow> current (fe_view (cm_conf b) n) \<noteq> None"
  by (simp add: has_frontend_def view_parts mhas_def)

lemma deleteFrontend_step:
  assumes "conf_inv (cm_conf b)"
  shows "gw_step gw {} {n} b (deleteFrontend gw n b)" "fe_exact old b \<Longrightarrow> fe_exact old (deleteFrontend gw n b)"
proof -
  have v: "fe_view (cm_conf (deleteFrontend gw n b)) m = (if m \<noteq> n then fe_view (cm_conf b) m
     else case fe_view (cm_conf b) m of (d, u, cr, cur) \<Rightarrow> if cur = None then (d, u, cr, cur) else (True, u, cr, None))" for m
    using fe_view_deleteFrontend[OF assms] by (simp add: deleteFrontend_def)
  have "has_frontend (deleteFrontend gw n b) m \<longleftrightarrow> has_frontend b m \<and> m \<noteq> n" for m
    unfolding has_frontend_view v by (cases "fe_view (cm_conf b) m") (auto simp: current_def)
  moreover have "gw_frame b (deleteFrontend gw n b)"
    by (simp add: deleteFrontend_def gw_frame_def conf_inv_frontends RemoveFromUpdated_def views_apart wf_mput)
  moreover have "updated_by (deleteFrontend gw n b) g = (if g = gw then Some ((case updated_by b gw of None \<Rightarrow> {} | Some s \<Rightarrow> s) - {n}) else updated_by b g)" for g
    unfolding deleteFrontend_def by (rule updated_by_Remove)
  ultimately show "gw_step gw {} {n} b (deleteFrontend gw n b)" by (intro gw_stepI) (simp_all add: v)
  show "fe_exact old (deleteFrontend gw n b)" if "fe_exact old b"
    unfolding fe_exact_def
  proof
    fix m show "exact_view same_frontend (old m) (fe_view (cm_conf (deleteFrontend gw n b)) m)"
      using that deleteFrontend_exact[OF assms, of m n "old m" same_frontend] exact_gone[of same_frontend "old m" "fe_view (cm_conf b) m"]
      by (cases "m = n") (simp_all add: deleteFrontend_def fe_exact_def)
  qed
qed

lemma mark_frontend_parts [simp]:
  "cm_owners (mark_frontend n b) = cm_owners b" "cm_impacted (mark_frontend n b) = cm_impacted b" "cm_conf (mark_frontend n b) = cm_conf b"
  "cm_frontendsOwned (mark_frontend n b) = cm_frontendsOwned b" "cm_owners (unmark_frontend n b) = cm_owners b"
  "cm_impacted (unmark_frontend n b) = cm_impacted b" "cm_conf (unmark_frontend n b) = cm_conf b" "cm_frontendsOwned (unmark_frontend n b) = cm_frontendsOwned b"
  by (simp_all add: mark_frontend_def unmark_frontend_def)

lemma gw_step_marks [simp]:
  "gw_step gw good bad b (unmark_frontend n b') = gw_step gw good bad b b'" "fe_exact old (unmark_frontend n b') = fe_exact old b'"
  "gw_step gw good bad (mark_frontend n b) b' = gw_step gw good bad b b'" "fe_exact old (mark_frontend n b) = fe_exact old b"
  by (simp_all add: gw_step_def gw_frame_def has_frontend_def updated_by_def fe_exact_def)

lemma deleteFrontendForListener_step:
  assumes "names_ok (fv_names env)" "conf_inv (cm_conf b)"
  shows "gw_step gw {} {fname (fv_names env) gw (ls_name l)} b (deleteFrontendForListener env gw l b)"
    "fe_exact old b \<Longrightarrow> fe_exact old (deleteFrontendForListener env gw l b)"
  using deleteFrontend_step[OF assms(2)] by (simp_all add: deleteFrontendForListener_def hn_fname[OF assms(1)])

lemma delete_listeners_step:
  assumes "names_ok (fv_names env)" "conf_inv (cm_conf b)"
  shows "gw_step gw {} (fname (fv_names env) gw ` ls_name ` set ls) b (fold (deleteFrontendForListener env gw) ls b)"
    "fe_exact old b \<Longrightarrow> fe_exact old (fold (deleteFrontendForListener env gw) ls b)"
proof -
  have "gw_step gw {} (fname (fv_names env) gw ` ls_name ` set ls) b (fold (deleteFrontendForListener env gw) ls b)
    \<and> (fe_exact old b \<longrightarrow> fe_exact old (fold (deleteFrontendForListener env gw) ls b))"
    using assms(2)
  proof (induction ls arbitrary: b)
    case (Cons l ls)
    let ?b = "deleteFrontendForListener env gw l b"
    note s = deleteFrontendForListener_step(1)[OF assms(1) Cons.prems, of gw l] deleteFrontendForListener_step(2)[OF assms(1) Cons.prems, of old gw l]
    have "conf_inv (cm_conf ?b)" using gw_stepD(1)[OF s(1)] Cons.prems by (simp add: gw_frame_def)
    note ih = Cons.IH[OF this]
    show ?case using gw_step_trans[OF s(1) conjunct1[OF ih]] s(2) ih by simp
  qed simp
  then show "gw_step gw {} (fname (fv_names env) gw ` ls_name ` set ls) b (fold (deleteFrontendForListener env gw) ls b)"
    "fe_exact old b \<Longrightarrow> fe_exact old (fold (deleteFrontendForListener env gw) ls b)" by simp_all
qed

subsection \<open>Listeners\<close>

lemma add_bind_name: "add_bind env dis bn a d gw l fe = Some fe' \<Longrightarrow> fe_Name fe' = fe_Name fe"
  by (auto simp: add_bind_def split: if_splits)

lemma newFrontend_name:
  assumes "names_ok (fv_names env)" "newFrontend env gw g l ms = Some (r, ms')"
  shows "\<exists>fe. r = Inr fe \<and> fe_Name fe = fname (fv_names env) gw (ls_name (li_K8sResource l))"
proof -
  obtain md fe1 fe where f: "add_bind env (fv_DisableIPv4 env) ''v4'' (fv_IPv4BindAddress env) ''0.0.0.0'' g l
      (base_frontend env (ms_MapsBaseDir ms) (fname (fv_names env) gw (ls_name (li_K8sResource l))) md (li_K8sResource l)) = Some fe1"
    "add_bind env (fv_DisableIPv6 env) ''v6'' (fv_IPv6BindAddress env) ''::'' g l fe1 = Some fe" "r = Inr fe"
    using assms(2) by (auto simp: newFrontend_def Let_def hn_fname[OF assms(1)] bind_eq_Some_conv split: option.splits)
  have "fe_Name fe = fname (fv_names env) gw (ls_name (li_K8sResource l))"
    using add_bind_name[OF f(1)] add_bind_name[OF f(2)] by (simp add: base_frontend_def Let_def)
  then show ?thesis using f(3) by blast
qed

lemma upsert_step:
  fixes b fe gw
  defines "b' \<equiv> b\<lparr>cm_conf := snd (upsertFrontend (Some fe) (cm_conf b)), cm_frontendsOwned := AddToUpdated gw (fe_Name fe) (cm_frontendsOwned b)\<rparr>"
  assumes "conf_inv (cm_conf b)"
  shows "gw_step gw {fe_Name fe} {} b b'" "fe_exact old b \<Longrightarrow> \<not> deleted_view (fe_view (cm_conf b) (fe_Name fe)) \<Longrightarrow> fe_exact old b'"
proof -
  have "has_frontend b' m \<longleftrightarrow> m = fe_Name fe \<or> has_frontend b m" for m
    unfolding has_frontend_view b'_def by (cases "fe_view (cm_conf b) m") (auto simp: fe_view_upsertFrontend current_def split: option.split)
  moreover have "gw_frame b b'" by (simp add: b'_def gw_frame_def conf_inv_frontends AddToUpdated_def views_apart wf_mput)
  moreover have "updated_by b' g = (if g = gw then Some (insert (fe_Name fe) (case updated_by b gw of None \<Rightarrow> {} | Some s \<Rightarrow> s)) else updated_by b g)" for g
    unfolding b'_def by (rule updated_by_Add)
  ultimately show "gw_step gw {fe_Name fe} {} b b'" by (intro gw_stepI) (simp_all add: b'_def fe_view_upsertFrontend)
  show "fe_exact old b'" if "fe_exact old b" "\<not> deleted_view (fe_view (cm_conf b) (fe_Name fe))"
    using that upsertFrontend_exact[of "cm_conf b" "old _" _ fe] assms(2) by (simp add: fe_exact_def b'_def)
qed

definition good_names :: "hap_names \<Rightarrow> namespaced_name \<Rightarrow> (string \<times> listener) list \<Rightarrow> string set" where
  "good_names names gw ls = {fname names gw (ls_name (li_K8sResource l)) |k l. (k, l) \<in> set ls \<and> li_Valid l}"

definition bad_names :: "hap_names \<Rightarrow> namespaced_name \<Rightarrow> (string \<times> listener) list \<Rightarrow> string set" where
  "bad_names names gw ls = {fname names gw (ls_name (li_K8sResource l)) |k l. (k, l) \<in> set ls \<and> \<not> li_Valid l}"

definition listeners_ok :: "(string \<times> listener) list \<Rightarrow> bool" where
  "listeners_ok ls = (distinct (map (\<lambda>(_, l). ls_name (li_K8sResource l)) ls) \<and> (\<forall>(_, l) \<in> set ls. k8s_name (ls_name (li_K8sResource l))))"

lemma listeners_ok_Cons:
  assumes "names_ok names" "k8s_key gw" "listeners_ok ((k, l) # ls)"
  shows "listeners_ok ls" "fname names gw (ls_name (li_K8sResource l)) \<notin> good_names names gw ls" "fname names gw (ls_name (li_K8sResource l)) \<notin> bad_names names gw ls"
proof -
  have d: "ls_name (li_K8sResource l) \<noteq> ls_name (li_K8sResource l')" "k8s_name (ls_name (li_K8sResource l))" "k8s_name (ls_name (li_K8sResource l'))" if "(k', l') \<in> set ls" for k' l'
    using assms(3) that by (auto simp: listeners_ok_def)
  have "fname names gw (ls_name (li_K8sResource l)) \<noteq> fname names gw (ls_name (li_K8sResource l'))" if "(k', l') \<in> set ls" for k' l'
    using fname_inj[OF assms(1,2) d(2)[OF that] assms(2) d(3)[OF that]] d(1)[OF that] by blast
  then show "fname names gw (ls_name (li_K8sResource l)) \<notin> good_names names gw ls" "fname names gw (ls_name (li_K8sResource l)) \<notin> bad_names names gw ls"
    by (auto simp: good_names_def bad_names_def)
  show "listeners_ok ls" using assms(3) by (simp add: listeners_ok_def)
qed

lemma names_Cons:
  "good_names names gw ((k, l) # ls) = (if li_Valid l then {fname names gw (ls_name (li_K8sResource l))} else {}) \<union> good_names names gw ls"
  "bad_names names gw ((k, l) # ls) = (if li_Valid l then {} else {fname names gw (ls_name (li_K8sResource l))}) \<union> bad_names names gw ls"
  by (auto simp: good_names_def bad_names_def)

lemma names_Nil [simp]: "good_names names gw [] = {}" "bad_names names gw [] = {}"
  by (simp_all add: good_names_def bad_names_def)

lemma upsert_listeners_step:
  assumes "names_ok (fv_names env)" "conf_inv (cm_conf b)" "listeners_ok ls" "upsert_listeners env gw g ls (b, ms) = Some (e, b', ms')" "k8s_key gw"
  shows "gw_step gw (good_names (fv_names env) gw ls) (bad_names (fv_names env) gw ls) b b'
    \<and> (fe_exact old b \<longrightarrow> (\<forall>n \<in> good_names (fv_names env) gw ls. \<not> deleted_view (fe_view (cm_conf b) n)) \<longrightarrow> fe_exact old b')"
  using assms(2-4)
proof (induction ls arbitrary: b ms)
  case (Cons x ls)
  obtain k l where x: "x = (k, l)" by (cases x)
  let ?n = "fname (fv_names env) gw (ls_name (li_K8sResource l))"
  have ds: "listeners_ok ls" and nn: "?n \<notin> good_names (fv_names env) gw ls" "?n \<notin> bad_names (fv_names env) gw ls"
    using listeners_ok_Cons[OF assms(1,5)] Cons.prems(2) unfolding x by blast+
  have step: ?case if st: "gw_step gw G B b b1" "fe_exact old b \<longrightarrow> (\<forall>n \<in> G. \<not> deleted_view (fe_view (cm_conf b) n)) \<longrightarrow> fe_exact old b1"
      "G \<union> B = {?n}" "G = (if li_Valid l then {?n} else {})" "B = (if li_Valid l then {} else {?n})" "upsert_listeners env gw g ls (b1, ms1) = Some (e, b', ms')" for G B b1 ms1
  proof -
    have "conf_inv (cm_conf b1)" using gw_stepD(1)[OF st(1)] Cons.prems(1) by (simp add: gw_frame_def)
    note ih = Cons.IH[OF this ds st(6)]
    have v: "deleted_view (fe_view (cm_conf b1) n) = deleted_view (fe_view (cm_conf b) n)" if "n \<in> good_names (fv_names env) gw ls" for n
    proof -
      have "n \<notin> G \<union> B" using that nn(1) unfolding st(3) by blast
      then show ?thesis by (simp add: gw_stepD(2)[OF st(1)])
    qed
    have e: "good_names (fv_names env) gw (x # ls) = G \<union> good_names (fv_names env) gw ls" "bad_names (fv_names env) gw (x # ls) = B \<union> bad_names (fv_names env) gw ls"
      by (simp_all add: x names_Cons st(4,5))
    have "gw_step gw (G \<union> good_names (fv_names env) gw ls) (B \<union> bad_names (fv_names env) gw ls) b b'"
      using nn st(4,5) by (intro gw_step_trans[OF st(1) conjunct1[OF ih]]) (auto split: if_splits)
    then show ?case using ih st(2) v by (simp add: e)
  qed
  show ?case
  proof (cases "li_Valid l")
    case False
    show ?thesis
      by (rule step[of "{}" "{?n}" "deleteFrontendForListener env gw (li_K8sResource l) b" ms])
        (use False Cons.prems(3) deleteFrontendForListener_step[OF assms(1) Cons.prems(1)] in \<open>simp_all add: x\<close>)
  next
    case True
    obtain fe ms1 where fe: "newFrontend env gw g l ms = Some (Inr fe, ms1)" "fe_Name fe = ?n"
      using Cons.prems(3) True newFrontend_name[OF assms(1), of gw g l ms] by (auto simp: x split: option.splits)
    let ?b = "mark_frontend (fe_Name fe) b"
    let ?b1 = "?b\<lparr>cm_conf := snd (upsertFrontend (Some fe) (cm_conf ?b)), cm_frontendsOwned := AddToUpdated gw (fe_Name fe) (cm_frontendsOwned ?b)\<rparr>"
    have inv: "conf_inv (cm_conf ?b)" using Cons.prems(1) by simp
    have nil: "fst (upsertFrontend (Some fe) (cm_conf b)) = None" by (simp add: upsertFrontend_def split: option.split)
    have u: "upsert_listeners env gw g ls (?b1, ms1) = Some (e, b', ms')"
      using Cons.prems(3) True fe(1) nil by (auto simp: x Let_def split: prod.splits option.splits)
    show ?thesis by (rule step[of "{?n}" "{}" ?b1 ms1]) (use True u upsert_step(1)[OF inv, of gw fe] upsert_step(2)[OF inv, of old fe gw] fe(2) in \<open>simp_all del: mark_frontend_parts(4)\<close>)
  qed
qed simp

subsection \<open>Gateways\<close>

definition all_names :: "hap_names \<Rightarrow> namespaced_name \<Rightarrow> gateway tree_res \<Rightarrow> string set" where
  "all_names names gw g = fname names gw ` ls_name ` set (case GetK8sResource g of None \<Rightarrow> [] | Some k8s \<Rightarrow> gwk_listeners k8s)"

definition serving :: "gateway tree_res \<Rightarrow> bool" where
  "serving g = (TreeStatus (tr_status g) = StatusUpserted \<and> gw_Valid (tr_core g))"

definition gw_good :: "hap_names \<Rightarrow> namespaced_name \<Rightarrow> gateway tree_res \<Rightarrow> string set" where
  "gw_good names gw g = (if serving g then good_names names gw (gw_Listeners (tr_core g)) else {})"

definition gw_bad :: "hap_names \<Rightarrow> namespaced_name \<Rightarrow> gateway tree_res \<Rightarrow> string set" where
  "gw_bad names gw g = (if serving g then bad_names names gw (gw_Listeners (tr_core g))
     else if TreeStatus (tr_status g) = StatusUnchanged then {} else all_names names gw g)"

text \<open>The names of a gateway and of its listeners, in the tree and in its Kubernetes object, are Kubernetes names.\<close>

definition gateway_named :: "namespaced_name \<Rightarrow> gateway tree_res \<Rightarrow> bool" where
  "gateway_named gw g = (k8s_key gw \<and> listeners_ok (gw_Listeners (tr_core g))
     \<and> (\<forall>l \<in> set (case GetK8sResource g of None \<Rightarrow> [] | Some k8s \<Rightarrow> gwk_listeners k8s). k8s_name (ls_name l)))"

definition gws_named :: "gateway tree_map \<Rightarrow> bool" where
  "gws_named gws = (wf_map gws \<and> (\<forall>(k, g) \<in> set gws. gateway_named k g))"

lemma delete_all_step:
  assumes "names_ok (fv_names env)" "conf_inv (cm_conf b)" "deleteFrontendForAllListeners env gw g b = (e, b')"
  shows "gw_step gw {} (all_names (fv_names env) gw g) b b'" "fe_exact old b \<Longrightarrow> fe_exact old b'"
  using delete_listeners_step(1)[OF assms(1,2), of gw "case GetK8sResource g of None \<Rightarrow> [] | Some k8s \<Rightarrow> gwk_listeners k8s"]
    delete_listeners_step(2)[OF assms(1,2), of old gw "case GetK8sResource g of None \<Rightarrow> [] | Some k8s \<Rightarrow> gwk_listeners k8s"] assms(3)
  by (auto simp: deleteFrontendForAllListeners_def all_names_def split: option.splits)

lemma process_gateway_step:
  assumes "names_ok (fv_names env)" "conf_inv (cm_conf b)" "gateway_named gw g"
    and "process_gateway env (gw, g) (errs, b, ms) = Some (errs', b', ms')"
  shows "gw_step gw (gw_good (fv_names env) gw g) (gw_bad (fv_names env) gw g) b b'
    \<and> (fe_exact old b \<longrightarrow> (\<forall>n \<in> gw_good (fv_names env) gw g. \<not> deleted_view (fe_view (cm_conf b) n)) \<longrightarrow> fe_exact old b')"
proof (cases "serving g")
  case True
  then obtain e where "upsert_listeners env gw g (gw_Listeners (tr_core g)) (b, ms) = Some (e, b', ms')"
    using assms(4) by (auto simp: serving_def process_gateway_def onUpsertedGateway_def upsertFrontends_def)
  moreover have "listeners_ok (gw_Listeners (tr_core g))" "k8s_key gw" using assms(3) by (simp_all add: gateway_named_def)
  ultimately show ?thesis using upsert_listeners_step[OF assms(1,2), of "gw_Listeners (tr_core g)" gw g ms e b' ms' old] True by (simp add: gw_good_def gw_bad_def)
next
  case ns: False
  show ?thesis
  proof (cases "TreeStatus (tr_status g) = StatusUnchanged")
    case True
    then show ?thesis using assms(4) ns by (simp add: process_gateway_def gw_good_def gw_bad_def)
  next
    case False
    then obtain e where "deleteFrontendForAllListeners env gw g b = (e, b')"
      using assms(4) ns by (auto simp: serving_def process_gateway_def onUpsertedGateway_def split: status.splits prod.splits)
    from delete_all_step[OF assms(1,2) this] show ?thesis using ns False by (simp add: gw_good_def gw_bad_def)
  qed
qed

text \<open>The steps of several gateways, given by their sets of names.\<close>

definition gws_step :: "(namespaced_name \<Rightarrow> string set) \<Rightarrow> (namespaced_name \<Rightarrow> string set) \<Rightarrow> conf_mgr \<Rightarrow> conf_mgr \<Rightarrow> bool" where
  "gws_step good bad b b' =
     (gw_frame b b' \<and> (\<forall>n. n \<notin> \<Union>(range good) \<union> \<Union>(range bad) \<longrightarrow> fe_view (cm_conf b') n = fe_view (cm_conf b) n)
      \<and> (\<forall>n. has_frontend b' n \<longleftrightarrow> n \<in> \<Union>(range good) \<or> has_frontend b n \<and> n \<notin> \<Union>(range bad))
      \<and> (\<forall>g. updated_by b' g = (if good g \<union> bad g = {} then updated_by b g
           else Some (((case updated_by b g of None \<Rightarrow> {} | Some s \<Rightarrow> s) \<union> good g) - bad g))))"

lemma gws_step_none: "gws_step (\<lambda>_. {}) (\<lambda>_. {}) b b"
  by (simp add: gws_step_def)

lemma gws_stepD:
  assumes "gws_step good bad b b'"
  shows "gw_frame b b'" "n \<notin> \<Union>(range good) \<union> \<Union>(range bad) \<Longrightarrow> fe_view (cm_conf b') n = fe_view (cm_conf b) n"
    "has_frontend b' n \<longleftrightarrow> n \<in> \<Union>(range good) \<or> has_frontend b n \<and> n \<notin> \<Union>(range bad)"
    "updated_by b' g = (if good g \<union> bad g = {} then updated_by b g else Some (((case updated_by b g of None \<Rightarrow> {} | Some s \<Rightarrow> s) \<union> good g) - bad g))"
  using assms by (simp_all add: gws_step_def)

lemma gws_stepI:
  assumes "gw_frame b b'" "\<And>n. n \<notin> \<Union>(range good) \<union> \<Union>(range bad) \<Longrightarrow> fe_view (cm_conf b') n = fe_view (cm_conf b) n"
    "\<And>n. has_frontend b' n \<longleftrightarrow> n \<in> \<Union>(range good) \<or> has_frontend b n \<and> n \<notin> \<Union>(range bad)"
    "\<And>g. updated_by b' g = (if good g \<union> bad g = {} then updated_by b g else Some (((case updated_by b g of None \<Rightarrow> {} | Some s \<Rightarrow> s) \<union> good g) - bad g))"
  shows "gws_step good bad b b'"
  unfolding gws_step_def using assms by simp

lemma gws_step_trans:
  assumes "gw_step gw G B x y" "gws_step good bad y z" "good gw = {}" "bad gw = {}" "G \<inter> \<Union>(range bad) = {}" "B \<inter> \<Union>(range good) = {}"
  shows "gws_step (good(gw := G)) (bad(gw := B)) x z"
proof -
  note 1 = gw_stepD[OF assms(1)] and 2 = gws_stepD[OF assms(2)]
  have u: "\<Union>(range (good(gw := G))) = G \<union> \<Union>(range good)" "\<Union>(range (bad(gw := B))) = B \<union> \<Union>(range bad)" using assms(3,4) by auto
  show ?thesis
  proof (rule gws_stepI, unfold u)
    show "gw_frame x z" by (rule gw_frame_trans[OF 1(1) 2(1)])
    show "fe_view (cm_conf z) n = fe_view (cm_conf x) n" if "n \<notin> (G \<union> \<Union>(range good)) \<union> (B \<union> \<Union>(range bad))" for n
      using 1(2)[of n] 2(2)[of n] that by simp
    have "n \<notin> \<Union>(range bad)" if "n \<in> G" for n using that assms(5) by blast
    moreover have "n \<notin> B" if "n \<in> \<Union>(range good)" for n using that assms(6) by blast
    ultimately show "has_frontend z n \<longleftrightarrow> n \<in> G \<union> \<Union>(range good) \<or> has_frontend x n \<and> n \<notin> B \<union> \<Union>(range bad)" for n
      unfolding 1(3)[of n] 2(3)[of n] by fast
    show "updated_by z g = (if (good(gw := G)) g \<union> (bad(gw := B)) g = {} then updated_by x g
        else Some (((case updated_by x g of None \<Rightarrow> {} | Some s \<Rightarrow> s) \<union> (good(gw := G)) g) - (bad(gw := B)) g))" for g
      using 1(4)[of g] 1(5) 2(4)[of g] assms(3,4) by (cases "g = gw") simp_all
  qed
qed

lemma fname_sets:
  assumes "gateway_named gw g"
  shows "gw_good names gw g \<subseteq> fnames names gw" "gw_bad names gw g \<subseteq> fnames names gw" "all_names names gw g \<subseteq> fnames names gw"
  using assms by (auto simp: gateway_named_def listeners_ok_def fnames_def gw_good_def gw_bad_def all_names_def good_names_def bad_names_def)

lemma fname_ranges:
  assumes "names_ok names" "gw \<noteq> gw'"
  shows "fnames names gw \<inter> fnames names gw' = {}"
  using fname_inj[OF assms(1)] assms(2) by (auto simp: fnames_def)

definition good_of :: "hap_names \<Rightarrow> gateway tree_map \<Rightarrow> namespaced_name \<Rightarrow> string set" where
  "good_of names gws gw = (case map_of gws gw of None \<Rightarrow> {} | Some g \<Rightarrow> gw_good names gw g)"

definition bad_of :: "hap_names \<Rightarrow> gateway tree_map \<Rightarrow> namespaced_name \<Rightarrow> string set" where
  "bad_of names gws gw = (case map_of gws gw of None \<Rightarrow> {} | Some g \<Rightarrow> gw_bad names gw g)"

lemma of_Cons:
  "good_of names ((k, g) # gws) = (good_of names gws)(k := gw_good names k g)" "bad_of names ((k, g) # gws) = (bad_of names gws)(k := gw_bad names k g)"
  by (auto simp: good_of_def bad_of_def fun_eq_iff)

lemma gws_named_Cons: "gws_named ((k, g) # gws) \<longleftrightarrow> gws_named gws \<and> k \<notin> mkeys gws \<and> gateway_named k g"
  by (auto simp: gws_named_def wf_map_Cons)

lemma gws_named_wf: "gws_named gws \<Longrightarrow> wf_map gws"
  by (simp add: gws_named_def)

lemma gws_named_of: "gws_named gws \<Longrightarrow> map_of gws gw = Some g \<Longrightarrow> gateway_named gw g"
  using map_of_SomeD[of gws gw g] by (auto simp: gws_named_def)

lemma of_sets:
  assumes "gws_named gws"
  shows "good_of names gws gw \<subseteq> fnames names gw" "bad_of names gws gw \<subseteq> fnames names gw"
proof -
  have "good_of names gws gw \<subseteq> fnames names gw \<and> bad_of names gws gw \<subseteq> fnames names gw"
  proof (cases "map_of gws gw")
    case (Some g)
    then show ?thesis using fname_sets(1,2)[OF gws_named_of[OF assms Some], of names] by (simp add: good_of_def bad_of_def)
  qed (simp add: good_of_def bad_of_def)
  then show "good_of names gws gw \<subseteq> fnames names gw" "bad_of names gws gw \<subseteq> fnames names gw" by simp_all
qed

lemma apart:
  assumes "names_ok names" "A \<subseteq> fnames names gw" "\<And>g. S g \<subseteq> fnames names g" "S gw = {}"
  shows "A \<inter> \<Union>(range S) = {}"
proof -
  have "n \<notin> S g" if "n \<in> A" for n g
  proof (cases "g = gw")
    case False
    then show ?thesis using fname_ranges[OF assms(1) False] that assms(2) assms(3)[of g] by blast
  qed (simp add: assms(4))
  then show ?thesis by blast
qed

lemma managed_steps:
  assumes "names_ok (fv_names env)" "conf_inv (cm_conf b)" "gws_named gws"
    and "foldo (process_gateway env) gws (errs, b, ms) = Some (errs', b', ms')"
  shows "gws_step (good_of (fv_names env) gws) (bad_of (fv_names env) gws) b b'
    \<and> (fe_exact old b \<longrightarrow> (\<forall>n \<in> \<Union>(range (good_of (fv_names env) gws)). \<not> deleted_view (fe_view (cm_conf b) n)) \<longrightarrow> fe_exact old b')"
  using assms(2-)
proof (induction gws arbitrary: errs b ms)
  case Nil
  then show ?case using gws_step_none[of b] by (simp add: good_of_def bad_of_def)
next
  case (Cons x gws)
  obtain k g where x: "x = (k, g)" by (cases x)
  let ?N = "fv_names env"
  obtain errs1 b1 ms1 where 1: "process_gateway env (k, g) (errs, b, ms) = Some (errs1, b1, ms1)"
      "foldo (process_gateway env) gws (errs1, b1, ms1) = Some (errs', b', ms')"
    using Cons.prems(3) by (auto simp: x split: option.splits)
  have wf: "gws_named gws" "k \<notin> mkeys gws" and ds: "gateway_named k g" using Cons.prems(2) by (simp_all add: x gws_named_Cons)
  note st = process_gateway_step[OF assms(1) Cons.prems(1) ds 1(1), of old]
  have s1: "gw_step k (gw_good ?N k g) (gw_bad ?N k g) b b1" using st by blast
  have "conf_inv (cm_conf b1)" using gw_stepD(1)[OF s1] Cons.prems(1) by (simp add: gw_frame_def)
  note ih = Cons.IH[OF this wf(1) 1(2)]
  have z: "good_of ?N gws k = {}" "bad_of ?N gws k = {}" using wf(2) by (simp_all add: good_of_def bad_of_def map_of_None_mkeys[symmetric])
  have ap: "gw_good ?N k g \<inter> \<Union>(range (bad_of ?N gws)) = {}" "gw_bad ?N k g \<inter> \<Union>(range (good_of ?N gws)) = {}" "gw_good ?N k g \<inter> \<Union>(range (good_of ?N gws)) = {}"
    by (rule apart[OF assms(1) fname_sets(1)[OF ds] of_sets(2)[OF wf(1)] z(2)], rule apart[OF assms(1) fname_sets(2)[OF ds] of_sets(1)[OF wf(1)] z(1)],
        rule apart[OF assms(1) fname_sets(1)[OF ds] of_sets(1)[OF wf(1)] z(1)])
  have "gws_step (good_of ?N (x # gws)) (bad_of ?N (x # gws)) b b'"
    unfolding x of_Cons by (rule gws_step_trans[OF s1 conjunct1[OF ih] z ap(1,2)])
  moreover have "fe_exact old b'" if h: "fe_exact old b" "\<forall>n \<in> \<Union>(range (good_of ?N (x # gws))). \<not> deleted_view (fe_view (cm_conf b) n)"
  proof -
    have u: "\<Union>(range (good_of ?N (x # gws))) = gw_good ?N k g \<union> \<Union>(range (good_of ?N gws))" using z(1) unfolding x of_Cons by auto
    have "fe_exact old b1" using st h unfolding u by blast
    moreover have "\<not> deleted_view (fe_view (cm_conf b1) n)" if "n \<in> \<Union>(range (good_of ?N gws))" for n
    proof -
      have "n \<notin> gw_good ?N k g \<union> gw_bad ?N k g" using ap(2,3) that by blast
      then show ?thesis using gw_stepD(2)[OF s1] h(2) that unfolding u by simp
    qed
    ultimately show ?thesis using ih by blast
  qed
  ultimately show ?case by blast
qed

definition all_of :: "hap_names \<Rightarrow> gateway tree_map \<Rightarrow> namespaced_name \<Rightarrow> string set" where
  "all_of names gws gw = (case map_of gws gw of None \<Rightarrow> {} | Some g \<Rightarrow> all_names names gw g)"

lemma all_of_simps:
  "all_of names ((k, g) # gws) = (all_of names gws)(k := all_names names k g)" "all_of names [] = (\<lambda>_. {})" "gws_named gws \<Longrightarrow> all_of names gws gw \<subseteq> fnames names gw"
  by (auto simp: all_of_def fun_eq_iff split: option.splits dest: gws_named_of intro: subsetD[OF fname_sets(3)])

lemma unmanaged_steps:
  assumes "names_ok (fv_names env)" "conf_inv (cm_conf b)" "wf_map gws" "fold (process_unmanaged env) gws (errs, b) = (errs', b')"
  shows "gws_step (\<lambda>_. {}) (all_of (fv_names env) gws) b b' \<and> (fe_exact old b \<longrightarrow> fe_exact old b')"
  using assms(2-)
proof (induction gws arbitrary: errs b)
  case Nil
  then show ?case using gws_step_none[of b] by (simp add: all_of_simps)
next
  case (Cons x gws)
  obtain k g where x: "x = (k, g)" by (cases x)
  let ?N = "fv_names env"
  obtain e b1 where 1: "deleteFrontendForAllListeners env k g b = (e, b1)" "fold (process_unmanaged env) gws (Errors_Add [e] errs, b1) = (errs', b')"
    using Cons.prems(3) by (auto simp: x process_unmanaged_def split: prod.splits)
  note s1 = delete_all_step(1)[OF assms(1) Cons.prems(1) 1(1)] and s2 = delete_all_step(2)[OF assms(1) Cons.prems(1) 1(1), of old]
  have wf: "wf_map gws" "k \<notin> mkeys gws" using Cons.prems(2) by (simp_all add: x wf_map_Cons)
  have "conf_inv (cm_conf b1)" using gw_stepD(1)[OF s1] Cons.prems(1) by (simp add: gw_frame_def)
  note ih = Cons.IH[OF this wf(1) 1(2)]
  have z: "all_of ?N gws k = {}" using wf(2) by (simp add: all_of_def map_of_None_mkeys[symmetric])
  have "gws_step ((\<lambda>_. {})(k := {})) ((all_of ?N gws)(k := all_names ?N k g)) b b'"
    by (rule gws_step_trans[OF s1 conjunct1[OF ih]]) (simp_all add: z)
  moreover have "(\<lambda>_. {})(k := {}) = (\<lambda>_::namespaced_name. {}::string set)" by (simp add: fun_eq_iff)
  ultimately show ?case using ih s2 by (simp only: x all_of_simps) blast
qed

subsection \<open>Frontends a gateway does not have any more\<close>

definition upd :: "conf_mgr \<Rightarrow> namespaced_name \<Rightarrow> string set" where
  "upd b gw = (case updated_by b gw of None \<Rightarrow> {} | Some s \<Rightarrow> s)"

lemma upd_mhas: "mhas (map_get_default [] (fo_byUpdatedGateways (cm_frontendsOwned b)) gw) n \<longleftrightarrow> n \<in> upd b gw"
  by (simp add: upd_def updated_by_def mhas_iff map_get_default_def split: option.split)

lemma cleanup_fold_step:
  assumes "conf_inv (cm_conf b)"
  shows "gw_step gw {} (fst ` set ns - upd b gw) b
      (fold (\<lambda>(n, _) b. if mhas (map_get_default [] (fo_byUpdatedGateways (cm_frontendsOwned b)) gw) n then b else deleteFrontend gw n b) ns b)
    \<and> (fe_exact old b \<longrightarrow> fe_exact old
      (fold (\<lambda>(n, _) b. if mhas (map_get_default [] (fo_byUpdatedGateways (cm_frontendsOwned b)) gw) n then b else deleteFrontend gw n b) ns b))"
  using assms
proof (induction ns arbitrary: b)
  case (Cons x ns)
  obtain n u where x: "x = (n, u)" by (cases x)
  show ?case
  proof (cases "n \<in> upd b gw")
    case True
    then show ?thesis using Cons.IH[OF Cons.prems] by (simp add: x upd_mhas insert_Diff_if)
  next
    case False
    note s = deleteFrontend_step(1)[OF Cons.prems, of gw n] deleteFrontend_step(2)[OF Cons.prems, of old gw n]
    have "conf_inv (cm_conf (deleteFrontend gw n b))" using gw_stepD(1)[OF s(1)] Cons.prems by (simp add: gw_frame_def)
    note ih = Cons.IH[OF this]
    have u: "upd (deleteFrontend gw n b) gw = upd b gw" using gw_stepD(5)[OF s(1)] False by (auto simp: upd_def split: option.splits)
    show ?thesis using gw_step_trans[OF s(1) conjunct1[OF ih]] ih s(2) False by (simp add: x upd_mhas u insert_Diff_if)
  qed
qed simp

lemma cleanup_gateway_step:
  assumes "conf_inv (cm_conf b)"
  shows "gw_step gw {} (owned_by b gw - upd b gw) b (cleanup_gateway gw b)" "fe_exact old b \<Longrightarrow> fe_exact old (cleanup_gateway gw b)"
  using cleanup_fold_step[OF assms, of gw "map_get_default [] (fo_current (cm_frontendsOwned b)) gw" old]
  by (simp_all add: cleanup_gateway_def owned_by_def mkeys_def)

lemma owned_by_frame: "gw_frame b b' \<Longrightarrow> owned_by b' gw = owned_by b gw"
  by (simp add: gw_frame_def owned_by_def)

lemma cleanup_steps:
  assumes "conf_inv (cm_conf b)" "wf_map kvs"
  shows "gws_step (\<lambda>_. {}) (\<lambda>gw. if gw \<in> mkeys kvs then owned_by b gw - upd b gw else {}) b (fold (\<lambda>(gw, _). cleanup_gateway gw) kvs b)
    \<and> (fe_exact old b \<longrightarrow> fe_exact old (fold (\<lambda>(gw, _). cleanup_gateway gw) kvs b))"
  using assms
proof (induction kvs arbitrary: b)
  case Nil
  then show ?case using gws_step_none[of b] by simp
next
  case (Cons x kvs)
  obtain k v where x: "x = (k, v)" by (cases x)
  have wf: "wf_map kvs" "k \<notin> mkeys kvs" using Cons.prems(2) by (simp_all add: x wf_map_Cons)
  let ?b = "cleanup_gateway k b"
  note s = cleanup_gateway_step(1)[OF Cons.prems(1), of k] cleanup_gateway_step(2)[OF Cons.prems(1), of old k]
  have "conf_inv (cm_conf ?b)" using gw_stepD(1)[OF s(1)] Cons.prems(1) by (simp add: gw_frame_def)
  note ih = Cons.IH[OF this wf(1)]
  have o: "owned_by ?b g = owned_by b g" for g by (rule owned_by_frame[OF gw_stepD(1)[OF s(1)]])
  have u: "upd ?b g = upd b g" if "g \<noteq> k" for g using gw_stepD(4)[OF s(1) that] by (simp add: upd_def)
  have e: "(\<lambda>gw. if gw \<in> mkeys kvs then owned_by ?b gw - upd ?b gw else {}) = (\<lambda>gw. if gw \<in> mkeys kvs then owned_by b gw - upd b gw else {})"
  proof
    fix g show "(if g \<in> mkeys kvs then owned_by ?b g - upd ?b g else {}) = (if g \<in> mkeys kvs then owned_by b g - upd b g else {})"
      using wf(2) by (cases "g = k") (simp_all add: o u)
  qed
  have "gws_step ((\<lambda>_. {})(k := {})) ((\<lambda>gw. if gw \<in> mkeys kvs then owned_by b gw - upd b gw else {})(k := owned_by b k - upd b k)) b
      (fold (\<lambda>(gw, _). cleanup_gateway gw) kvs ?b)"
    by (rule gws_step_trans[OF s(1) conjunct1[OF ih, unfolded e]]) (simp_all add: wf(2))
  moreover have "(\<lambda>_. {})(k := {}) = (\<lambda>_::namespaced_name. {}::string set)"
    "(\<lambda>gw. if gw \<in> mkeys kvs then owned_by b gw - upd b gw else {})(k := owned_by b k - upd b k)
       = (\<lambda>gw. if gw \<in> mkeys (x # kvs) then owned_by b gw - upd b gw else {})"
    by (simp_all add: fun_eq_iff x)
  ultimately show ?case using ih s(2) by (simp add: x)
qed

lemma finalize_fold:
  "wf_map kvs \<Longrightarrow> map_of (fo_current (fold (\<lambda>(gwKey, names) f. \<lparr>fo_current = mput gwKey names (fo_current f),
      fo_byUpdatedGateways = mdel gwKey (fo_byUpdatedGateways f)\<rparr>) kvs f)) gw = (case map_of kvs gw of None \<Rightarrow> map_of (fo_current f) gw | Some v \<Rightarrow> Some v)"
  "mkeys (fo_byUpdatedGateways (fold (\<lambda>(gwKey, names) f. \<lparr>fo_current = mput gwKey names (fo_current f),
      fo_byUpdatedGateways = mdel gwKey (fo_byUpdatedGateways f)\<rparr>) kvs f)) = mkeys (fo_byUpdatedGateways f) - mkeys kvs"
  by (induction kvs arbitrary: f) (auto simp: wf_map_Cons map_of_mput map_of_None_mkeys[symmetric] split: option.splits)

lemma finalize_parts:
  assumes "wf_map (fo_byUpdatedGateways f)"
  shows "map_of (fo_current (finalizeFrontendsByGateway f)) gw = (case map_of (fo_byUpdatedGateways f) gw of None \<Rightarrow> map_of (fo_current f) gw | Some v \<Rightarrow> Some v)"
    "fo_byUpdatedGateways (finalizeFrontendsByGateway f) = []"
proof -
  show "map_of (fo_current (finalizeFrontendsByGateway f)) gw = (case map_of (fo_byUpdatedGateways f) gw of None \<Rightarrow> map_of (fo_current f) gw | Some v \<Rightarrow> Some v)"
    unfolding finalizeFrontendsByGateway_def by (rule finalize_fold(1)[OF assms])
  have "mkeys (fo_byUpdatedGateways (finalizeFrontendsByGateway f)) = {}" unfolding finalizeFrontendsByGateway_def finalize_fold(2) by simp
  then show "fo_byUpdatedGateways (finalizeFrontendsByGateway f) = []" by (simp add: mkeys_def)
qed

subsection \<open>A cycle of the gateways\<close>

definition frontends_of :: "hap_names \<Rightarrow> conf_mgr \<Rightarrow> namespaced_name \<Rightarrow> string set" where
  "frontends_of names b gw = {n. has_frontend b n \<and> n \<in> fnames names gw}"

text \<open>Between two cycles the frontends owned by a gateway are those of its listeners in the configuration.\<close>

definition owned_inv :: "hap_names \<Rightarrow> conf_mgr \<Rightarrow> bool" where
  "owned_inv names b = (conf_inv (cm_conf b) \<and> fo_byUpdatedGateways (cm_frontendsOwned b) = [] \<and> (\<forall>gw. owned_by b gw = frontends_of names b gw))"

text \<open>What holds already before the first cycle, when the configuration comes from the start-up files.\<close>

definition owned_inv0 :: "hap_names \<Rightarrow> conf_mgr \<Rightarrow> bool" where
  "owned_inv0 names b = (conf_inv (cm_conf b) \<and> fo_byUpdatedGateways (cm_frontendsOwned b) = [] \<and> (\<forall>gw. owned_by b gw \<subseteq> fnames names gw))"

lemma owned_inv_weak: "owned_inv names b \<Longrightarrow> owned_inv0 names b"
  by (auto simp: owned_inv_def owned_inv0_def frontends_of_def)

text \<open>The frontends a gateway has after the cycle, given those it had before.\<close>

definition expected_frontends :: "hap_names \<Rightarrow> gateway tree_map \<Rightarrow> gateway tree_map \<Rightarrow> namespaced_name \<Rightarrow> string set \<Rightarrow> string set" where
  "expected_frontends names managed unmanaged gw before =
     (case map_of managed gw of
        Some g \<Rightarrow>
          if serving g then if gw_Listeners (tr_core g) = [] then before else good_names names gw (gw_Listeners (tr_core g))
          else if TreeStatus (tr_status g) = StatusUnchanged \<or> all_names names gw g = {} then before else {}
      | None \<Rightarrow>
          (case map_of unmanaged gw of None \<Rightarrow> before | Some g \<Rightarrow> if all_names names gw g = {} then before else {}))"

lemma gws_step_append:
  assumes "gws_step good bad x y" "gws_step (\<lambda>_. {}) bad' y z" "\<And>g. good g \<inter> \<Union>(range bad') = {}"
  shows "gws_step good (\<lambda>g. bad g \<union> bad' g) x z"
proof (rule gws_stepI)
  note 1 = gws_stepD[OF assms(1)] and 2 = gws_stepD[OF assms(2)]
  have u: "\<Union>(range (\<lambda>g. bad g \<union> bad' g)) = \<Union>(range bad) \<union> \<Union>(range bad')" by auto
  show "gw_frame x z" by (rule gw_frame_trans[OF 1(1) 2(1)])
  show "fe_view (cm_conf z) n = fe_view (cm_conf x) n" if "n \<notin> \<Union>(range good) \<union> \<Union>(range (\<lambda>g. bad g \<union> bad' g))" for n
    using 1(2)[of n] 2(2)[of n] that by simp
  have "n \<notin> \<Union>(range bad')" if "n \<in> \<Union>(range good)" for n using that assms(3) by blast
  then show "has_frontend z n \<longleftrightarrow> n \<in> \<Union>(range good) \<or> has_frontend x n \<and> n \<notin> \<Union>(range (\<lambda>g. bad g \<union> bad' g))" for n
    unfolding 1(3)[of n] 2(3)[of n] u by fast
  fix g
  have "good g \<inter> bad' g = {}" using assms(3)[of g] by blast
  then show "updated_by z g = (if good g \<union> (bad g \<union> bad' g) = {} then updated_by x g
      else Some (((case updated_by x g of None \<Rightarrow> {} | Some s \<Rightarrow> s) \<union> good g) - (bad g \<union> bad' g)))"
    using 1(4)[of g] 2(4)[of g] by (cases "good g \<union> bad g = {}"; cases "bad' g = {}") auto
qed

lemma good_bad_disjoint:
  assumes "names_ok names" "k8s_key gw" "listeners_ok ls"
  shows "good_names names gw ls \<inter> bad_names names gw ls = {}"
  using assms(3)
proof (induction ls)
  case (Cons x ls)
  obtain k l where x: "x = (k, l)" by (cases x)
  note n = listeners_ok_Cons[OF assms(1,2) Cons.prems[unfolded x]]
  show ?case using n Cons.IH[OF n(1)] by (auto simp: x names_Cons)
qed simp

lemma names_empty: "good_names names gw ls \<union> bad_names names gw ls = {} \<longleftrightarrow> ls = []"
  by (cases ls) (auto simp: names_Cons split: if_splits)

definition touched :: "hap_names \<Rightarrow> gateway tree_map \<Rightarrow> gateway tree_map \<Rightarrow> namespaced_name \<Rightarrow> bool" where
  "touched names managed unmanaged gw = (good_of names managed gw \<union> (bad_of names managed gw \<union> all_of names unmanaged gw) \<noteq> {})"

lemma expected_frontends_touched:
  assumes "mkeys managed \<inter> mkeys unmanaged = {}"
  shows "expected_frontends names managed unmanaged gw before = (if touched names managed unmanaged gw then good_of names managed gw else before)"
proof (cases "map_of managed gw")
  case None
  then show ?thesis by (simp add: expected_frontends_def touched_def good_of_def bad_of_def all_of_def split: option.split)
next
  case (Some g)
  then have "gw \<in> mkeys managed" using map_of_None_mkeys[of managed gw] by auto
  then have "map_of unmanaged gw = None" using assms unfolding map_of_None_mkeys by blast
  then show ?thesis using Some names_empty[of names gw "gw_Listeners (tr_core g)"]
    by (auto simp: expected_frontends_def touched_def good_of_def bad_of_def all_of_def gw_good_def gw_bad_def)
qed

lemma good_of_disjoint:
  assumes "names_ok names" "gws_named managed" "mkeys managed \<inter> mkeys unmanaged = {}"
  shows "good_of names managed gw \<inter> bad_of names managed gw = {}" "good_of names managed gw \<noteq> {} \<Longrightarrow> all_of names unmanaged gw = {}"
proof -
  show "good_of names managed gw \<inter> bad_of names managed gw = {}"
  proof (cases "map_of managed gw")
    case (Some g)
    have "k8s_key gw" "listeners_ok (gw_Listeners (tr_core g))" using gws_named_of[OF assms(2) Some] by (simp_all add: gateway_named_def)
    from good_bad_disjoint[OF assms(1) this] show ?thesis by (auto simp: good_of_def bad_of_def gw_good_def gw_bad_def Some)
  qed (simp add: good_of_def)
  show "all_of names unmanaged gw = {}" if "good_of names managed gw \<noteq> {}"
  proof -
    have "gw \<in> mkeys managed" using that map_of_None_mkeys[of managed gw] by (auto simp: good_of_def split: option.splits)
    then have "map_of unmanaged gw = None" using assms(3) unfolding map_of_None_mkeys by blast
    then show ?thesis by (simp add: all_of_def)
  qed
qed

lemma upd_None: "gw \<in> mkeys (fo_byUpdatedGateways (cm_frontendsOwned b)) \<longleftrightarrow> updated_by b gw \<noteq> None"
  using map_of_None_mkeys[of "fo_byUpdatedGateways (cm_frontendsOwned b)" gw] by (auto simp: updated_by_def)

text \<open>The three loops together: a gateway that is touched ends up with its valid listeners, the others are left alone.\<close>

lemma processGateways_step:
  fixes env
  defines "N \<equiv> fv_names env"
  assumes "names_ok N" "owned_inv0 N b" "gws_named managed" "gws_named unmanaged" "mkeys managed \<inter> mkeys unmanaged = {}"
    and fs: "foldo (process_gateway env) managed ([], b, ms) = Some (errs, b1, ms')" "fold (process_unmanaged env) unmanaged (errs, b1) = (errs', b2)"
  shows "gws_step (good_of N managed)
      (\<lambda>g. (bad_of N managed g \<union> all_of N unmanaged g) \<union> (if touched N managed unmanaged g then owned_by b g - good_of N managed g else {}))
      b (cleanupFrontendsForGateways b2)
    \<and> (fe_exact old b \<longrightarrow> (\<forall>n \<in> \<Union>(range (good_of N managed)). \<not> deleted_view (fe_view (cm_conf b) n)) \<longrightarrow> fe_exact old (cleanupFrontendsForGateways b2))"
proof -
  have inv: "conf_inv (cm_conf b)" and nil: "fo_byUpdatedGateways (cm_frontendsOwned b) = []" and ow: "owned_by b gw \<subseteq> fnames N gw" for gw
    using assms(3) by (simp_all add: owned_inv0_def)
  note m = managed_steps[OF assms(2)[unfolded N_def] inv assms(4) fs(1), of old, folded N_def]
  have "conf_inv (cm_conf b1)" using gws_stepD(1)[OF conjunct1[OF m]] inv by (simp add: gw_frame_def)
  note u = unmanaged_steps[OF assms(2)[unfolded N_def] this gws_named_wf[OF assms(5)] fs(2), of old, folded N_def]
  have ap: "good_of N managed g \<inter> \<Union>(range (all_of N unmanaged)) = {}" for g
  proof (cases "good_of N managed g = {}")
    case False
    then have "all_of N unmanaged g = {}" by (rule good_of_disjoint(2)[OF assms(2,4,6)])
    then show ?thesis by (rule apart[OF assms(2) of_sets(1)[OF assms(4)] all_of_simps(3)[OF assms(5)]])
  qed simp
  have s2: "gws_step (good_of N managed) (\<lambda>g. bad_of N managed g \<union> all_of N unmanaged g) b b2"
    by (rule gws_step_append[OF conjunct1[OF m] conjunct1[OF u] ap])
  note d2 = gws_stepD[OF s2]
  have inv2: "conf_inv (cm_conf b2)" "wf_map (fo_byUpdatedGateways (cm_frontendsOwned b2))" using d2(1) inv nil by (simp_all add: gw_frame_def)
  have b0: "updated_by b g = None" for g using nil by (simp add: updated_by_def)
  have gd: "good_of N managed g - (bad_of N managed g \<union> all_of N unmanaged g) = good_of N managed g" for g
    using good_of_disjoint[OF assms(2,4,6), of g] by blast
  have ub: "updated_by b2 g = (if touched N managed unmanaged g then Some (good_of N managed g) else None)" for g
    using d2(4)[of g] by (simp add: b0 touched_def gd)
  have e: "(\<lambda>g. if g \<in> mkeys (fo_byUpdatedGateways (cm_frontendsOwned b2)) then owned_by b2 g - upd b2 g else {})
      = (\<lambda>g. if touched N managed unmanaged g then owned_by b g - good_of N managed g else {})"
    by (simp add: fun_eq_iff upd_None upd_def ub owned_by_frame[OF d2(1)])
  note c = cleanup_steps[OF inv2, of old, unfolded e, folded cleanupFrontendsForGateways_def]
  have ap3: "good_of N managed g \<inter> \<Union>(range (\<lambda>g. if touched N managed unmanaged g then owned_by b g - good_of N managed g else {})) = {}" for g
  proof -
    have "n \<notin> (if touched N managed unmanaged h then owned_by b h - good_of N managed h else {})" if n: "n \<in> good_of N managed g" for n h
    proof (cases "h = g")
      case False
      have "n \<in> fnames N g" using n of_sets(1)[OF assms(4)] by blast
      then have "n \<notin> fnames N h" using fname_ranges[OF assms(2) False] by blast
      then show ?thesis using ow[of h] by auto
    qed (use n in simp)
    then show ?thesis by blast
  qed
  show ?thesis using gws_step_append[OF s2 conjunct1[OF c] ap3] m u c by blast
qed

lemma frontends_of_step:
  assumes "names_ok N" "gws_named managed" "gws_step (good_of N managed) bad b b'" "\<And>g. bad g \<subseteq> fnames N g"
  shows "frontends_of N b' gw = good_of N managed gw \<union> (frontends_of N b gw - bad gw)"
proof -
  have gk: "n \<in> \<Union>(range (good_of N managed)) \<longleftrightarrow> n \<in> good_of N managed gw" "n \<in> \<Union>(range bad) \<longleftrightarrow> n \<in> bad gw" if "n \<in> fnames N gw" for n
  proof -
    have "n \<notin> fnames N h" if "h \<noteq> gw" for h using fname_ranges[OF assms(1) that] \<open>n \<in> fnames N gw\<close> by blast
    then have "n \<in> good_of N managed h \<Longrightarrow> h = gw" "n \<in> bad h \<Longrightarrow> h = gw" for h using of_sets(1)[OF assms(2)] assms(4) by blast+
    then show "n \<in> \<Union>(range (good_of N managed)) \<longleftrightarrow> n \<in> good_of N managed gw" "n \<in> \<Union>(range bad) \<longleftrightarrow> n \<in> bad gw" by blast+
  qed
  have "n \<in> frontends_of N b' gw \<longleftrightarrow> n \<in> good_of N managed gw \<union> (frontends_of N b gw - bad gw)" for n
  proof (cases "n \<in> fnames N gw")
    case True
    show ?thesis using gws_stepD(3)[OF assms(3), of n] True unfolding gk(1)[OF True] gk(2)[OF True] by (simp add: frontends_of_def)
  next
    case False
    then have "n \<notin> good_of N managed gw" using of_sets(1)[OF assms(2)] by blast
    then show ?thesis using False by (simp add: frontends_of_def)
  qed
  then show ?thesis by blast
qed

lemma owned_by_finalize:
  assumes "wf_map (fo_byUpdatedGateways (cm_frontendsOwned b))"
  shows "owned_by (b\<lparr>cm_frontendsOwned := finalizeFrontendsByGateway (cm_frontendsOwned b)\<rparr>) g = (case updated_by b g of None \<Rightarrow> owned_by b g | Some s \<Rightarrow> s)"
  by (simp add: owned_by_def updated_by_def map_get_default_def finalize_parts(1)[OF assms] split: option.split)

text \<open>The whole cycle from the weak invariant: what a gateway owns and has afterwards.\<close>

lemma processGateways_weak:
  fixes env
  defines "N \<equiv> fv_names env"
  assumes "names_ok N" "owned_inv0 N b" "gws_named managed" "gws_named unmanaged" "mkeys managed \<inter> mkeys unmanaged = {}"
    and run: "processGateways env managed unmanaged b ms = Some (e, b', ms')"
  shows "owned_inv0 N b'" "owned_by b' gw = (if touched N managed unmanaged gw then good_of N managed gw else owned_by b gw)"
    "has_frontend b' n \<longleftrightarrow> n \<in> \<Union>(range (good_of N managed)) \<or> has_frontend b n
       \<and> n \<notin> \<Union>(range (\<lambda>g. (bad_of N managed g \<union> all_of N unmanaged g) \<union> (if touched N managed unmanaged g then owned_by b g - good_of N managed g else {})))"
    "frontends_of N b' gw = good_of N managed gw \<union> (frontends_of N b gw
       - ((bad_of N managed gw \<union> all_of N unmanaged gw) \<union> (if touched N managed unmanaged gw then owned_by b gw - good_of N managed gw else {})))"
    "be_view (cm_conf b') n = be_view (cm_conf b) n" "cm_owners b' = cm_owners b" "cm_impacted b' = cm_impacted b"
    "fe_exact old b \<Longrightarrow> \<forall>n. \<not> deleted_view (fe_view (cm_conf b) n) \<Longrightarrow> fe_exact old b'"
proof -
  obtain errs b1 errs' b2 where fs: "foldo (process_gateway env) managed ([], b, ms) = Some (errs, b1, ms')"
      "fold (process_unmanaged env) unmanaged (errs, b1) = (errs', b2)"
    and b': "b' = (cleanupFrontendsForGateways b2)\<lparr>cm_frontendsOwned := finalizeFrontendsByGateway (cm_frontendsOwned (cleanupFrontendsForGateways b2))\<rparr>"
    using run by (auto simp: processGateways_def Let_def split: option.splits prod.splits)
  let ?b3 = "cleanupFrontendsForGateways b2"
  let ?bad = "\<lambda>g. (bad_of N managed g \<union> all_of N unmanaged g) \<union> (if touched N managed unmanaged g then owned_by b g - good_of N managed g else {})"
  note s = processGateways_step[OF assms(2)[unfolded N_def] assms(3)[unfolded N_def] assms(4,5,6) fs, of old, folded N_def]
  have st: "gws_step (good_of N managed) ?bad b ?b3" using s by blast
  note d = gws_stepD[OF st]
  have nil: "fo_byUpdatedGateways (cm_frontendsOwned b) = []" and inv: "conf_inv (cm_conf b)" and ow: "owned_by b g \<subseteq> fnames N g" for g
    using assms(3) by (simp_all add: owned_inv0_def)
  have sub: "?bad g \<subseteq> fnames N g" for g using of_sets(2)[OF assms(4)] all_of_simps(3)[OF assms(5)] ow[of g] by auto
  have dj: "good_of N managed g \<inter> ?bad g = {}" for g using good_of_disjoint[OF assms(2,4,6), of g] by auto
  have ub: "updated_by ?b3 g = (if touched N managed unmanaged g then Some (good_of N managed g) else None)" for g
  proof -
    have "updated_by b g = None" using nil by (simp add: updated_by_def)
    then show ?thesis using d(4)[of g] dj[of g] by (auto simp: touched_def)
  qed
  have wf: "wf_map (fo_byUpdatedGateways (cm_frontendsOwned ?b3))" and inv3: "conf_inv (cm_conf ?b3)" using d(1) nil inv by (simp_all add: gw_frame_def)
  have o: "owned_by b' g = (if touched N managed unmanaged g then good_of N managed g else owned_by b g)" for g
    unfolding b' owned_by_finalize[OF wf] by (simp add: ub owned_by_frame[OF d(1)])
  have h: "has_frontend b' m = has_frontend ?b3 m" for m by (simp add: has_frontend_def b')
  show "owned_by b' gw = (if touched N managed unmanaged gw then good_of N managed gw else owned_by b gw)" by (rule o)
  show "owned_inv0 N b'" using inv3 finalize_parts(2)[OF wf] ow of_sets(1)[OF assms(4)] by (simp add: owned_inv0_def o) (simp add: b')
  show "has_frontend b' n \<longleftrightarrow> n \<in> \<Union>(range (good_of N managed)) \<or> has_frontend b n \<and> n \<notin> \<Union>(range ?bad)" unfolding h by (rule d(3))
  show "frontends_of N b' gw = good_of N managed gw \<union> (frontends_of N b gw - ?bad gw)"
    using frontends_of_step[OF assms(2,4) st sub, of gw] by (simp add: frontends_of_def h)
  show "be_view (cm_conf b') n = be_view (cm_conf b) n" "cm_owners b' = cm_owners b" "cm_impacted b' = cm_impacted b" using d(1) by (simp_all add: gw_frame_def b')
  show "fe_exact old b'" if "fe_exact old b" "\<forall>n. \<not> deleted_view (fe_view (cm_conf b) n)" using s that by (simp add: b' fe_exact_def)
qed

lemma processGateways_ok:
  fixes env
  defines "N \<equiv> fv_names env"
  assumes "names_ok N" "owned_inv N b" "gws_named managed" "gws_named unmanaged" "mkeys managed \<inter> mkeys unmanaged = {}"
    and run: "processGateways env managed unmanaged b ms = Some (e, b', ms')"
  shows "owned_inv N b'" "frontends_of N b' gw = expected_frontends N managed unmanaged gw (frontends_of N b gw)"
proof -
  note w = processGateways_weak[OF assms(2)[unfolded N_def] owned_inv_weak[OF assms(3)[unfolded N_def]] assms(4-6) run, folded N_def]
  have ow: "owned_by b g = frontends_of N b g" for g using assms(3) by (simp add: owned_inv_def)
  have fr: "frontends_of N b' g = (if touched N managed unmanaged g then good_of N managed g else frontends_of N b g)" for g
    unfolding w(4) ow using good_of_disjoint[OF assms(2,4,6), of g] by (auto simp: touched_def)
  show "frontends_of N b' gw = expected_frontends N managed unmanaged gw (frontends_of N b gw)"
    unfolding expected_frontends_touched[OF assms(6)] by (rule fr)
  show "owned_inv N b'" using w(1) by (simp add: owned_inv_def owned_inv0_def w(2) fr ow)
qed

subsection \<open>No panic\<close>

lemma add_bind_total: "gw_K8sResource (tr_core g) = Some k \<Longrightarrow> \<exists>fe'. add_bind env d n a d' g l fe = Some fe'"
  by (simp add: add_bind_def bindParams_def Let_def)

lemma newFrontend_total:
  assumes "gw_K8sResource (tr_core g) = Some k"
  shows "\<exists>r ms'. newFrontend env gw g l ms = Some (r, ms')"
proof (cases "hn_frontend (fv_names env) gw (ls_name (li_K8sResource l))")
  case (Inr n)
  obtain md where md: "FrontendMetaData (fv_params env) g = Some md" using assms by (simp add: FrontendMetaData_def GetK8sResource_def)
  obtain fe1 where 1: "add_bind env (fv_DisableIPv4 env) ''v4'' (fv_IPv4BindAddress env) ''0.0.0.0'' g l
      (base_frontend env (ms_MapsBaseDir ms) n md (li_K8sResource l)) = Some fe1" using add_bind_total[OF assms] by blast
  obtain fe where "add_bind env (fv_DisableIPv6 env) ''v6'' (fv_IPv6BindAddress env) ''::'' g l fe1 = Some fe" using add_bind_total[OF assms] by blast
  then show ?thesis using 1 md Inr by (simp add: newFrontend_def Let_def)
qed (simp add: newFrontend_def Let_def)

lemma upsert_listeners_total:
  assumes "gw_K8sResource (tr_core g) = Some k"
  shows "\<exists>r. upsert_listeners env gw g ls (b, ms) = Some r"
proof (induction ls arbitrary: b ms)
  case (Cons x ls)
  obtain k l where x: "x = (k, l)" by (cases x)
  obtain r ms1 where "newFrontend env gw g l ms = Some (r, ms1)" using newFrontend_total[OF assms] by blast
  then show ?case using Cons.IH by (auto simp: x Let_def split: sum.split prod.split option.split)
qed simp

lemma process_gateway_total:
  assumes "serving g \<longrightarrow> gw_K8sResource (tr_core g) \<noteq> None"
  shows "\<exists>s'. process_gateway env (gw, g) s = Some s'"
proof (cases "serving g")
  case True
  then obtain k where k: "gw_K8sResource (tr_core g) = Some k" using assms by auto
  obtain errs b ms where s: "s = (errs, b, ms)" by (cases s)
  obtain r where "upsert_listeners env gw g (gw_Listeners (tr_core g)) (b, ms) = Some r" using upsert_listeners_total[OF k] by blast
  then show ?thesis using True by (cases r) (simp add: s process_gateway_def onUpsertedGateway_def upsertFrontends_def serving_def)
qed (cases s; auto simp: process_gateway_def onUpsertedGateway_def serving_def Let_def split: status.splits prod.splits)

lemma foldo_total:
  assumes "\<And>x s. x \<in> set xs \<Longrightarrow> \<exists>s'. f x s = Some s'"
  shows "\<exists>s'. foldo f xs s = Some s'"
  using assms
proof (induction xs arbitrary: s)
  case (Cons x xs)
  obtain s' where "f x s = Some s'" using Cons.prems[of x s] by auto
  then show ?case using Cons by simp
qed simp

lemma processGateways_total:
  assumes "\<forall>(k, g) \<in> set managed. serving g \<longrightarrow> gw_K8sResource (tr_core g) \<noteq> None"
  shows "\<exists>e b' ms'. processGateways env managed unmanaged b ms = Some (e, b', ms')"
proof -
  have "\<exists>s'. foldo (process_gateway env) managed ([], b, ms) = Some s'"
  proof (rule foldo_total)
    fix x s assume x: "x \<in> set managed"
    obtain k g where kg: "x = (k, g)" by (cases x)
    have "serving g \<longrightarrow> gw_K8sResource (tr_core g) \<noteq> None" using assms x unfolding kg by blast
    then show "\<exists>s'. process_gateway env x s = Some s'" unfolding kg by (rule process_gateway_total)
  qed
  then show ?thesis by (auto simp: processGateways_def Let_def split: prod.splits)
qed

text \<open>C37: the frontends of the gateways.  The names of the frontends differ between listeners, as those of the default template do, and between two cycles
  the frontends owned by a gateway are those it has in the configuration.  Then \<open>processGateways\<close> returns; a valid gateway with listeners has
  afterwards exactly the frontends of its valid listeners; a gateway that was deleted, became invalid or is not managed any more has none; every other
  gateway keeps its own; the backends are left alone; the invariant holds again; and exact differences of the frontends stay exact.\<close>

theorem gateway_frontends_exact:
  assumes "names_ok (fv_names env)" "owned_inv (fv_names env) b" "gws_named managed" "gws_named unmanaged" "mkeys managed \<inter> mkeys unmanaged = {}"
    and "\<forall>(k, g) \<in> set managed. serving g \<longrightarrow> gw_K8sResource (tr_core g) \<noteq> None"
  shows "\<exists>e b' ms'. processGateways env managed unmanaged b ms = Some (e, b', ms') \<and> owned_inv (fv_names env) b'
    \<and> (\<forall>gw. frontends_of (fv_names env) b' gw = expected_frontends (fv_names env) managed unmanaged gw (frontends_of (fv_names env) b gw))
    \<and> (\<forall>n. be_view (cm_conf b') n = be_view (cm_conf b) n) \<and> cm_owners b' = cm_owners b
    \<and> (\<forall>old. fe_exact old b \<longrightarrow> (\<forall>n. \<not> deleted_view (fe_view (cm_conf b) n)) \<longrightarrow> fe_exact old b')"
proof -
  obtain e b' ms' where run: "processGateways env managed unmanaged b ms = Some (e, b', ms')" using processGateways_total[OF assms(6)] by blast
  note w = processGateways_weak[OF assms(1) owned_inv_weak[OF assms(2)] assms(3-5) run]
  show ?thesis using run processGateways_ok[OF assms(1-5) run] w(5,6,8) by blast
qed

text \<open>The default template joins the link and the names with underscores.\<close>

definition default_frontend_name :: "string \<Rightarrow> namespaced_name \<Rightarrow> string \<Rightarrow> string" where
  "default_frontend_name link gw l = link @ ''_'' @ nn_namespace gw @ ''_'' @ nn_name gw @ ''_'' @ l"

lemma join_inj: "k8s_name a \<Longrightarrow> k8s_name a' \<Longrightarrow> a @ CHR ''_'' # r = a' @ CHR ''_'' # r' \<longleftrightarrow> a = a' \<and> r = r'"
  unfolding k8s_name_def by (induction a arbitrary: a') (case_tac a'; auto)+

lemma default_names_ok:
  assumes "\<And>gw l. hn_frontend names gw l = Inr (default_frontend_name link gw l)"
  shows "names_ok names"
  by (auto simp: names_ok_def assms default_frontend_name_def k8s_key_def join_inj intro: namespaced_name.expand)

definition ex_front_env :: front_env where
  "ex_front_env = \<lparr>fv_params = ex_params\<lparr>cp_names := ex_names\<lparr>hn_frontend := \<lambda>gw l. Inr (default_frontend_name ''hug'' gw l)\<rparr>\<rparr>,
     fv_maps = \<lparr>me_names = ex_names, me_can_open = (\<lambda>_. True), me_disk = []\<rparr>, fv_certStorage = \<lparr>CertsBaseDir = ''certs'', CertFilesBaseDir = ''lists''\<rparr>,
     fv_IPv4BindAddress = [], fv_IPv6BindAddress = [], fv_DisableIPv4 = False, fv_DisableIPv6 = False\<rparr>"

definition ex_fe_listener :: "string \<Rightarrow> bool \<Rightarrow> string \<times> listener" where
  "ex_fe_listener n v = (n, \<lparr>li_K8sResource = demo_listener n 80, li_Conditions = [], li_AttachedRoutes = [], li_Owner = NamespacedName ''d'' ''g'',
     li_CheckRouteGroupKind = check_result0, li_CheckProtocol = check_result0, li_CheckSecret = check_result0, li_CheckConflict = check_result0,
     li_AllowedRouteKinds = [], li_Valid = v\<rparr>)"

definition ex_front_gateway :: "gateway tree_res" where
  "ex_front_gateway = (let g = NewGateway (demo_gateway ''g'' [demo_listener ''a'' 80, demo_listener ''b'' 80])
     in g\<lparr>tr_core := (tr_core g)\<lparr>gw_Listeners := [ex_fe_listener ''a'' True, ex_fe_listener ''b'' False], gw_Valid := True\<rparr>\<rparr>)"

theorem gateway_frontends_exact_witness:
  "\<exists>e b' ms'. processGateways ex_front_env [(NamespacedName ''d'' ''g'', ex_front_gateway)] [] (NewHaproxyConfMgr conf0) \<lparr>ms_Maps = [], ms_MapsBaseDir = ''m''\<rparr> = Some (e, b', ms')
    \<and> frontends_of (fv_names ex_front_env) b' (NamespacedName ''d'' ''g'') = {''hug_d_g_a''}"
proof -
  let ?gws = "[(NamespacedName ''d'' ''g'', ex_front_gateway)]" and ?b = "NewHaproxyConfMgr conf0"
  have n: "names_ok (fv_names ex_front_env)" by (rule default_names_ok[of _ "''hug''"]) (simp add: ex_front_env_def)
  have i: "owned_inv (fv_names ex_front_env) ?b"
    by (simp add: owned_inv_def NewHaproxyConfMgr_def conf0_def conf_inv_def ptrs_ok_def no_diffs_def owned_by_def frontends_of_def has_frontend_def mhas_def)
  have l: "gw_Listeners (tr_core ex_front_gateway) = [ex_fe_listener ''a'' True, ex_fe_listener ''b'' False]" by (simp add: ex_front_gateway_def Let_def)
  have s: "serving ex_front_gateway" by (simp add: serving_def ex_front_gateway_def Let_def NewGateway_def new_tree_res_def)
  have k: "gw_K8sResource (tr_core ex_front_gateway) = Some (demo_gateway ''g'' [demo_listener ''a'' 80, demo_listener ''b'' 80])"
    by (simp add: ex_front_gateway_def Let_def NewGateway_def new_tree_res_def)
  have g: "gws_named ?gws" "gws_named []"
    by (simp_all add: gws_named_def wf_map_def gateway_named_def k8s_key_def k8s_name_def listeners_ok_def l ex_fe_listener_def demo_listener_def GetK8sResource_def k demo_gateway_def)
  have e: "expected_frontends (fv_names ex_front_env) ?gws [] (NamespacedName ''d'' ''g'') x = {''hug_d_g_a''}" for x
    using s by (simp add: expected_frontends_def l ex_fe_listener_def names_Cons fname_def ex_front_env_def default_frontend_name_def demo_listener_def)
  show ?thesis using gateway_frontends_exact[OF n i g, of "\<lparr>ms_Maps = [], ms_MapsBaseDir = ''m''\<rparr>"] e k by fastforce
qed

text \<open>A valid gateway without listeners keeps the frontends it had: none of its names is touched, so the clean-up passes it over.\<close>

lemma emptied_gateway_kept:
  assumes "names_ok (fv_names env)" "owned_inv (fv_names env) b" "gws_named managed" "gws_named unmanaged" "mkeys managed \<inter> mkeys unmanaged = {}"
    and "processGateways env managed unmanaged b ms = Some (e, b', ms')" "map_of managed gw = Some g" "serving g" "gw_Listeners (tr_core g) = []"
  shows "frontends_of (fv_names env) b' gw = frontends_of (fv_names env) b gw"
  using processGateways_ok(2)[OF assms(1-6), of gw] assms(7-9) by (simp add: expected_frontends_def)

end
