(* ===== verification/Servers.thy ===== *)
theory Servers
  imports Frontends ReloadMgr
begin

text \<open>
  \<open>k8s/gate/haproxy/servers.go\<close>: the servers of the backends, from the endpoint slices of their services.

  The client of Kubernetes, which lists the slices of a service, and the runtime client of HAProxy are arguments
  (\<open>sv_list\<close>, \<open>sv_execute\<close>); the names of the servers come from the template
  \<open>hn_server\<close>.  The answer to the deletion of a server at run time is only logged, so only the attempt is kept.
  \<open>None\<close> is a panic: a nil object is read.
\<close>

record svc_endpoints =
  se_endpoints :: "endpoint list"
  se_ports :: "endpoint_port list"

datatype be_port = BackendPort (bp_backendName: string) (bp_svcPort: int)

type_synonym service_backends = "(namespaced_name, be_port goset) gomap"

record srv_env =
  sv_front :: front_env
  sv_services :: "(namespaced_name, service_k8s) gomap"
  sv_httpRoutes :: "http_route tree_map"
  sv_tlsRoutes :: "tls_route tree_map"
  sv_epsUpdates :: "(namespaced_name, endpoint_slice update) gomap"
  sv_list :: "namespaced_name \<Rightarrow> string + endpoint_slice list"
  sv_execute :: runtime_client

abbreviation sv_params :: "srv_env \<Rightarrow> conf_params" where
  "sv_params env \<equiv> fv_params (sv_front env)"

subsection \<open>Endpoints of a service\<close>

definition add_slice :: "endpoint_slice \<Rightarrow> (string, svc_endpoints) gomap \<Rightarrow> (string, svc_endpoints) gomap" where
  "add_slice eps m =
     (let e = map_get_default \<lparr>se_endpoints = [], se_ports = []\<rparr> m (es_addressType eps)
      in mput (es_addressType eps)
           \<lparr>se_endpoints = se_endpoints e @ filter (\<lambda>ep. ep_ready ep = Some True) (es_endpoints eps), se_ports = se_ports e @ es_ports eps\<rparr> m)"

definition getSvcEndpoints :: "srv_env \<Rightarrow> namespaced_name \<Rightarrow> string + (string, svc_endpoints) gomap" where
  "getSvcEndpoints env svcKey = (case sv_list env svcKey of Inl err \<Rightarrow> Inl err | Inr slices \<Rightarrow> Inr (fold add_slice slices []))"

subsection \<open>Servers of a backend\<close>

definition int_or_string_String :: "int_or_string \<Rightarrow> string" where
  "int_or_string_String v = (case v of IntVal i \<Rightarrow> itoa i | StrVal s \<Rightarrow> s)"

definition target_port :: "service_k8s \<Rightarrow> int \<Rightarrow> int_or_string" where
  "target_port svc bePort = (case List.find (\<lambda>p. sp_port p = bePort) (svk_ports svc) of None \<Rightarrow> IntVal 0 | Some p \<Rightarrow> sp_targetPort p)"

text \<open>The loop over the ports of the endpoints ends at the first one that matches; a named port without number leaves 0.\<close>

fun port_matches :: "int_or_string \<Rightarrow> endpoint_port \<Rightarrow> bool" where
  "port_matches (IntVal i) p = (epp_port p = Some i)"
| "port_matches (StrVal s) p = (epp_name p = Some s)"

definition server_port :: "int_or_string \<Rightarrow> endpoint_port list \<Rightarrow> int option" where
  "server_port targetPort ports =
     map_option (\<lambda>p. case epp_port p of None \<Rightarrow> 0 | Some i \<Rightarrow> i) (List.find (port_matches targetPort) ports)"

definition type_disabled :: "front_env \<Rightarrow> string \<Rightarrow> bool" where
  "type_disabled env addressType = (addressType = ''IPv4'' \<and> fv_DisableIPv4 env \<or> addressType = ''IPv6'' \<and> fv_DisableIPv6 env)"

definition add_server :: "hap_names \<Rightarrow> int \<Rightarrow> int \<Rightarrow> string \<Rightarrow> string list \<times> (string, server) gomap \<Rightarrow> string list \<times> (string, server) gomap" where
  "add_server names bePort serverPort address = (\<lambda>(errs, servers).
     case hn_server names address bePort of
       Inl err \<Rightarrow> (Errors_Add [Some err] errs, servers)
     | Inr serverName \<Rightarrow> (errs, mput serverName
         \<lparr>hs_Name = serverName, hs_Address = address, hs_Port = serverPort, hs_Maintenance = ''disabled''\<rparr> servers))"

definition add_type_servers :: "front_env \<Rightarrow> int \<Rightarrow> int_or_string \<Rightarrow> string \<times> svc_endpoints \<Rightarrow> string list \<times> (string, server) gomap
    \<Rightarrow> string list \<times> (string, server) gomap" where
  "add_type_servers env bePort targetPort = (\<lambda>(addressType, e) s.
     if type_disabled env addressType then s
     else case server_port targetPort (se_ports e) of
            None \<Rightarrow> s
          | Some serverPort \<Rightarrow> fold (add_server (fv_names env) bePort serverPort) (concat (map ep_addresses (se_endpoints e))) s)"

definition getServersForBackend :: "srv_env \<Rightarrow> namespaced_name \<Rightarrow> be_port \<Rightarrow> (string, svc_endpoints) gomap \<Rightarrow> go_error \<times> (string, server) gomap" where
  "getServersForBackend env svcKey be svcEndpoints =
     (case map_of (sv_services env) svcKey of
        None \<Rightarrow> (Some (''could not retrieve the Service '' @ nn_string svcKey), [])
      | Some svc \<Rightarrow>
          (let targetPort = target_port svc (bp_svcPort be) in
           if int_or_string_String targetPort = [] \<or> int_or_string_String targetPort = ''<nil>''
           then (Some (''no TargetPort found on Service '' @ nn_string svcKey @ '' matching Port '' @ itoa (bp_svcPort be)), [])
           else let (errs, servers) = fold (add_type_servers (sv_front env) (bp_svcPort be) targetPort) svcEndpoints ([], [])
                in (Errors_Result errs, servers)))"

subsection \<open>Backends by service\<close>

definition add_backend_port :: "namespaced_name \<Rightarrow> be_port \<Rightarrow> service_backends \<Rightarrow> service_backends" where
  "add_backend_port svcKey bp m = mput svcKey (sput bp (map_get_default [] m svcKey)) m"

definition backend_of_ref :: "conf_params \<Rightarrow> objmeta \<Rightarrow> string \<Rightarrow> rule_ref \<Rightarrow> service_backends \<Rightarrow> service_backends" where
  "backend_of_ref p meta beName = (\<lambda>(ref, filterHash, _) m.
     let nsName = GetNamespacedName (bref_name ref) (case bref_namespace ref of None \<Rightarrow> [] | Some ns \<Rightarrow> ns) (om_namespace meta);
         svcPort = backend_port ref
     in case hn_backend (cp_names p) nsName svcPort filterHash of
          Inl _ \<Rightarrow> m
        | Inr ruleBeName \<Rightarrow> if ruleBeName \<noteq> beName then m else add_backend_port nsName (BackendPort beName svcPort) m)"

definition backends_of_route :: "conf_params \<Rightarrow> ('k \<Rightarrow> objmeta) \<Rightarrow> ('r \<Rightarrow> rule_ref list) \<Rightarrow> string \<Rightarrow> ('k, 'r) route \<Rightarrow> service_backends \<Rightarrow> service_backends option" where
  "backends_of_route p meta refs beName route m =
     (let rs = concat (map (\<lambda>rule. if rr_Valid rule then refs (rr_K8sResource rule) else []) (rt_Rules route)) in
      case rt_K8sResource route of
        None \<Rightarrow> if rs = [] then Some m else None
      | Some k8s \<Rightarrow> Some (fold (backend_of_ref p (meta k8s) beName) rs m))"

definition backends_of_owners :: "conf_params \<Rightarrow> ('k \<Rightarrow> objmeta) \<Rightarrow> ('r \<Rightarrow> rule_ref list) \<Rightarrow> ('k, 'r) route tree_map \<Rightarrow> route_owners \<Rightarrow> string
    \<Rightarrow> service_backends \<Rightarrow> service_backends option" where
  "backends_of_owners p meta refs routes routeOwners beName m =
     foldo (\<lambda>(ownerRouteKey, _) m. case map_of routes ownerRouteKey of None \<Rightarrow> Some m | Some r \<Rightarrow> backends_of_route p meta refs beName (tr_core r) m) routeOwners m"

definition backendsByServiceForHTTPRoute :: "srv_env \<Rightarrow> route_owners \<Rightarrow> string \<Rightarrow> service_backends \<Rightarrow> service_backends option" where
  "backendsByServiceForHTTPRoute env = backends_of_owners (sv_params env) hrk_meta (http_rule_refs (sv_params env)) (sv_httpRoutes env)"

definition backendsByServiceForTLSRoute :: "srv_env \<Rightarrow> route_owners \<Rightarrow> string \<Rightarrow> service_backends \<Rightarrow> service_backends option" where
  "backendsByServiceForTLSRoute env = backends_of_owners (sv_params env) trk_meta tls_rule_refs (sv_tlsRoutes env)"

definition backendsByService :: "srv_env \<Rightarrow> backend_owners \<Rightarrow> service_backends option" where
  "backendsByService env owners =
     foldo (\<lambda>(beName, o1) m.
        case owners_shown o1 of
          None \<Rightarrow> Some m
        | Some (BackendOwnerTypeHTTPRoute, routeOwners) \<Rightarrow> backendsByServiceForHTTPRoute env routeOwners beName m
        | Some (BackendOwnerTypeTLSRoute, routeOwners) \<Rightarrow> backendsByServiceForTLSRoute env routeOwners beName m) owners []"

definition getServiceNameFromEndpointSlice :: "endpoint_slice \<Rightarrow> string" where
  "getServiceNameFromEndpointSlice eps = map_get_default [] (om_labels (es_meta eps)) ''kubernetes.io/service-name''"

definition endpointSliceUpdatedByService :: "srv_env \<Rightarrow> (namespaced_name, (namespaced_name, endpoint_slice) gomap) gomap option" where
  "endpointSliceUpdatedByService env =
     foldo (\<lambda>(epsKey, eps) res.
        case (case Status eps of StatusUpserted \<Rightarrow> NewObject eps | StatusDeleted \<Rightarrow> OldObject eps | _ \<Rightarrow> None) of
          None \<Rightarrow> None
        | Some k8sEps \<Rightarrow>
            (let updatedSvcKey = NamespacedName (om_namespace (es_meta k8sEps)) (getServiceNameFromEndpointSlice k8sEps)
             in Some (mput updatedSvcKey (mput epsKey k8sEps (map_get_default [] res updatedSvcKey)) res))) (sv_epsUpdates env) []"

subsection \<open>The servers of all backends\<close>

text \<open>The configuration, the reload manager, and what was sent to the runtime socket: commands and deletions of servers.\<close>

record srv_state =
  ss_conf :: configuration
  ss_reload :: reload_mgr
  ss_sent :: "string list"
  ss_deleted :: "(string \<times> string) list"

definition set_backend_servers :: "srv_env \<Rightarrow> namespaced_name \<Rightarrow> (string, svc_endpoints) gomap \<Rightarrow> be_port \<Rightarrow> string list \<times> srv_state \<Rightarrow> string list \<times> srv_state" where
  "set_backend_servers env svcKey svcEndpoints backendPort = (\<lambda>(errs, s).
     case getServersForBackend env svcKey backendPort svcEndpoints of
       (Some err, _) \<Rightarrow> (Errors_Add [Some err] errs, s)
     | (None, servers) \<Rightarrow>
         (case upsertBackendWithServers (bp_backendName backendPort) servers (ss_conf s) of
            (Inl err, c) \<Rightarrow> (Errors_Add [Some err] errs, s\<lparr>ss_conf := c\<rparr>)
          | (Inr states, c) \<Rightarrow>
              let s = s\<lparr>ss_conf := c\<rparr> in
              if states = [] then (errs, s)
              else let s = s\<lparr>ss_reload := AttemptDynamicServerStateUpdate (ss_reload s)\<rparr>;
                       (err, sent) = RuntimeSetServerAddrAndState (\<lambda>sent. sv_execute env (ss_sent s @ sent)) states;
                       s = s\<lparr>ss_sent := ss_sent s @ sent\<rparr>
                   in if err \<noteq> None
                      then (Errors_Add [err] errs, s\<lparr>ss_reload := SetDynamicServerStateUpdateFailure (ss_reload s)\<rparr>)
                      else (errs, s\<lparr>ss_deleted := ss_deleted s @ map (\<lambda>st. (rss_BackendName st, rss_ServerName st)) states\<rparr>)))"

definition backends_changed :: "configuration \<Rightarrow> be_port goset \<Rightarrow> bool" where
  "backends_changed c backends = list_ex (\<lambda>(bp, _). mhas (df_CreatedBE (cf_diffs c)) (bp_backendName bp) \<or> mhas (df_UpdatedBE (cf_diffs c)) (bp_backendName bp)) backends"

definition set_service_servers :: "srv_env \<Rightarrow> (namespaced_name, (namespaced_name, endpoint_slice) gomap) gomap \<Rightarrow> namespaced_name \<times> be_port goset
    \<Rightarrow> string list \<times> srv_state \<Rightarrow> string list \<times> srv_state" where
  "set_service_servers env epsUpdates = (\<lambda>(svcKey, backends) (errs, s).
     if \<not> mhas epsUpdates svcKey \<and> \<not> backends_changed (ss_conf s) backends then (errs, s)
     else case getSvcEndpoints env svcKey of
            Inl err \<Rightarrow> (Errors_Add [Some err] errs, s)
          | Inr svcEndpoints \<Rightarrow> fold (\<lambda>(bp, _). set_backend_servers env svcKey svcEndpoints bp) backends (errs, s))"

definition processEndpointSlices :: "srv_env \<Rightarrow> backend_owners \<Rightarrow> srv_state \<Rightarrow> (go_error \<times> srv_state) option" where
  "processEndpointSlices env owners s =
     (if sv_epsUpdates env = [] \<and> df_CreatedBE (cf_diffs (ss_conf s)) = [] \<and> df_UpdatedBE (cf_diffs (ss_conf s)) = [] then Some (None, s)
      else case endpointSliceUpdatedByService env of
             None \<Rightarrow> None
           | Some epsUpdates \<Rightarrow>
               (case backendsByService env owners of
                  None \<Rightarrow> None
                | Some bs \<Rightarrow> (let (errs, s) = fold (set_service_servers env epsUpdates) bs ([], s) in Some (Errors_Result errs, s))))"

subsection \<open>Which servers a backend gets\<close>

definition of_type :: "string \<Rightarrow> endpoint_slice list \<Rightarrow> endpoint_slice list" where
  "of_type t slices = filter (\<lambda>s. es_addressType s = t) slices"

definition ready_endpoints :: "endpoint_slice list \<Rightarrow> endpoint list" where
  "ready_endpoints slices = concat (map (\<lambda>s. filter (\<lambda>ep. ep_ready ep = Some True) (es_endpoints s)) slices)"

lemma fold_add_slice:
  "wf_map m \<Longrightarrow> wf_map (fold add_slice slices m)"
  "map_of (fold add_slice slices m) t = (if of_type t slices = [] then map_of m t
     else let e = map_get_default \<lparr>se_endpoints = [], se_ports = []\<rparr> m t
          in Some \<lparr>se_endpoints = se_endpoints e @ ready_endpoints (of_type t slices), se_ports = se_ports e @ concat (map es_ports (of_type t slices))\<rparr>)"
proof -
  show "wf_map m \<Longrightarrow> wf_map (fold add_slice slices m)"
    by (induction slices arbitrary: m) (simp_all add: add_slice_def Let_def wf_mput)
  show "map_of (fold add_slice slices m) t = (if of_type t slices = [] then map_of m t
     else let e = map_get_default \<lparr>se_endpoints = [], se_ports = []\<rparr> m t
          in Some \<lparr>se_endpoints = se_endpoints e @ ready_endpoints (of_type t slices), se_ports = se_ports e @ concat (map es_ports (of_type t slices))\<rparr>)"
    by (induction slices arbitrary: m)
      (auto simp: add_slice_def of_type_def ready_endpoints_def Let_def map_of_mput map_get_default_def)
qed

text \<open>An address that a backend with port \<open>bePort\<close> gets a server for, with the port of the server.\<close>

definition served_address :: "front_env \<Rightarrow> int_or_string \<Rightarrow> endpoint_slice list \<Rightarrow> string \<Rightarrow> int \<Rightarrow> bool" where
  "served_address env targetPort slices a port =
     (\<exists>t. \<not> type_disabled env t \<and> server_port targetPort (concat (map es_ports (of_type t slices))) = Some port
       \<and> (\<exists>s \<in> set slices. es_addressType s = t \<and> (\<exists>ep \<in> set (es_endpoints s). ep_ready ep = Some True \<and> a \<in> set (ep_addresses ep))))"

definition names_servers :: "hap_names \<Rightarrow> bool" where
  "names_servers names = (\<forall>a p. \<exists>n. hn_server names a p = Inr n)"

definition sname :: "hap_names \<Rightarrow> string \<Rightarrow> int \<Rightarrow> string" where
  "sname names a p = (case hn_server names a p of Inl _ \<Rightarrow> [] | Inr n \<Rightarrow> n)"

definition server_of :: "hap_names \<Rightarrow> int \<Rightarrow> string \<times> int \<Rightarrow> server" where
  "server_of names bePort = (\<lambda>(a, port). \<lparr>hs_Name = sname names a bePort, hs_Address = a, hs_Port = port, hs_Maintenance = ''disabled''\<rparr>)"

definition put_server :: "hap_names \<Rightarrow> int \<Rightarrow> string \<times> int \<Rightarrow> (string, server) gomap \<Rightarrow> (string, server) gomap" where
  "put_server names bePort ap m = mput (sname names (fst ap) bePort) (server_of names bePort ap) m"

lemma add_server_put:
  assumes "names_servers names"
  shows "add_server names bePort port a (errs, m) = (errs, put_server names bePort (a, port) m)"
proof -
  obtain n where "hn_server names a bePort = Inr n" using assms by (auto simp: names_servers_def)
  then show ?thesis by (simp add: add_server_def put_server_def server_of_def sname_def)
qed

lemma fold_add_server:
  assumes "names_servers names"
  shows "fold (add_server names bePort port) as (errs, m) = (errs, fold (put_server names bePort) (map (\<lambda>a. (a, port)) as) m)"
  by (induction as arbitrary: m) (simp_all add: add_server_put[OF assms])

text \<open>The addresses with their ports, in the order in which they are written.\<close>

definition type_addresses :: "front_env \<Rightarrow> int_or_string \<Rightarrow> string \<times> svc_endpoints \<Rightarrow> (string \<times> int) list" where
  "type_addresses env targetPort = (\<lambda>(t, e). if type_disabled env t then []
     else case server_port targetPort (se_ports e) of None \<Rightarrow> [] | Some port \<Rightarrow> map (\<lambda>a. (a, port)) (concat (map ep_addresses (se_endpoints e))))"

lemma fold_add_type_servers:
  assumes "names_servers (fv_names env)"
  shows "fold (add_type_servers env bePort targetPort) eps (errs, m)
    = (errs, fold (put_server (fv_names env) bePort) (concat (map (type_addresses env targetPort) eps)) m)"
proof (induction eps arbitrary: m)
  case (Cons x eps)
  obtain t e where x: "x = (t, e)" by (cases x)
  show ?case using Cons.IH
    by (simp add: x add_type_servers_def type_addresses_def fold_add_server[OF assms] split: option.split)
qed simp

lemma fold_put_server:
  "wf_map m \<Longrightarrow> wf_map (fold (put_server names bePort) aps m)"
  "mkeys (fold (put_server names bePort) aps m) = mkeys m \<union> (\<lambda>(a, _). sname names a bePort) ` set aps"
  by (induction aps arbitrary: m) (auto simp: put_server_def wf_mput)

lemma fold_put_server_value:
  "map_of (fold (put_server names bePort) aps m) n = Some s \<Longrightarrow>
     map_of m n = Some s \<or> (\<exists>ap \<in> set aps. n = sname names (fst ap) bePort \<and> s = server_of names bePort ap)"
proof (induction aps arbitrary: m)
  case (Cons ap aps)
  from Cons.IH[of "put_server names bePort ap m"] Cons.prems
  have "map_of (put_server names bePort ap m) n = Some s \<or> (\<exists>ap \<in> set aps. n = sname names (fst ap) bePort \<and> s = server_of names bePort ap)" by simp
  then show ?case by (auto simp: put_server_def map_of_mput split: if_splits)
qed simp

lemma type_addresses_iff:
  "(a, port) \<in> set (type_addresses env targetPort (t, e)) \<longleftrightarrow>
     \<not> type_disabled env t \<and> server_port targetPort (se_ports e) = Some port \<and> a \<in> set (concat (map ep_addresses (se_endpoints e)))"
  by (auto simp: type_addresses_def image_iff split: option.split)

lemma served_addresses:
  "(a, port) \<in> set (concat (map (type_addresses env targetPort) (fold add_slice slices []))) \<longleftrightarrow> served_address env targetPort slices a port"
proof -
  have wf: "wf_map (fold add_slice slices [])" by (rule fold_add_slice(1)) simp
  have "(a, port) \<in> set (concat (map (type_addresses env targetPort) (fold add_slice slices [])))
      \<longleftrightarrow> (\<exists>t e. map_of (fold add_slice slices []) t = Some e \<and> (a, port) \<in> set (type_addresses env targetPort (t, e)))"
    using map_of_wf_mem[OF wf] by auto
  also have "\<dots> \<longleftrightarrow> (\<exists>t. of_type t slices \<noteq> [] \<and> \<not> type_disabled env t \<and> server_port targetPort (concat (map es_ports (of_type t slices))) = Some port
      \<and> a \<in> set (concat (map ep_addresses (ready_endpoints (of_type t slices)))))"
    unfolding type_addresses_iff by (rule ex_cong1) (simp add: fold_add_slice(2) Let_def)
  also have "\<dots> \<longleftrightarrow> served_address env targetPort slices a port"
    unfolding served_address_def by (rule ex_cong1) (auto simp: of_type_def ready_endpoints_def filter_empty_conv)
  finally show ?thesis .
qed

text \<open>The servers of a backend are exactly those of the served addresses.\<close>

definition servers_for :: "front_env \<Rightarrow> service_k8s \<Rightarrow> int \<Rightarrow> endpoint_slice list \<Rightarrow> (string, server) gomap \<Rightarrow> bool" where
  "servers_for env svc bePort slices servers =
     (wf_map servers \<and> mkeys servers = {sname (fv_names env) a bePort |a port. served_address env (target_port svc bePort) slices a port}
      \<and> (\<forall>n s. map_of servers n = Some s \<longrightarrow> (\<exists>a port. served_address env (target_port svc bePort) slices a port
           \<and> n = sname (fv_names env) a bePort \<and> s = server_of (fv_names env) bePort (a, port))))"

lemma getServersForBackend_slices:
  assumes "map_of (sv_services env) svcKey = Some svc" "int_or_string_String (target_port svc (bp_svcPort be)) \<notin> {[], ''<nil>''}"
    and "names_servers (fv_names (sv_front env))"
  shows "\<exists>servers. getServersForBackend env svcKey be (fold add_slice slices []) = (None, servers) \<and> servers_for (sv_front env) svc (bp_svcPort be) slices servers"
proof -
  let ?N = "fv_names (sv_front env)" and ?t = "target_port svc (bp_svcPort be)"
  let ?aps = "concat (map (type_addresses (sv_front env) ?t) (fold add_slice slices []))"
  let ?m = "fold (put_server ?N (bp_svcPort be)) ?aps []"
  have "getServersForBackend env svcKey be (fold add_slice slices []) = (None, ?m)"
    using assms(1,2) fold_add_type_servers[OF assms(3), of "bp_svcPort be" ?t "fold add_slice slices []" "[]" "[]"]
    by (simp add: getServersForBackend_def Let_def Errors_Result_def)
  moreover have "wf_map ?m" by (rule fold_put_server(1)) simp
  moreover have "mkeys ?m = {sname ?N a (bp_svcPort be) |a port. served_address (sv_front env) ?t slices a port}"
    unfolding fold_put_server(2) served_addresses[symmetric] by force
  moreover have "\<exists>a port. served_address (sv_front env) ?t slices a port \<and> n = sname ?N a (bp_svcPort be) \<and> s = server_of ?N (bp_svcPort be) (a, port)"
    if "map_of ?m n = Some s" for n s
    using fold_put_server_value[OF that] unfolding served_addresses[symmetric] by (metis map_of.simps(1) option.distinct(1) prod.collapse fst_conv)
  ultimately show ?thesis unfolding servers_for_def by blast
qed

text \<open>Endpoints of a second slice get the port of the first one: the ports of all slices of a type are collected before the target port is
  looked up.\<close>

definition ex_slice :: "string \<Rightarrow> int \<Rightarrow> endpoint_slice" where
  "ex_slice a p = \<lparr>es_meta = meta0, es_addressType = ''IPv4'', es_endpoints = [\<lparr>ep_addresses = [a], ep_ready = Some True\<rparr>],
     es_ports = [\<lparr>epp_name = Some ''web'', epp_port = Some p\<rparr>]\<rparr>"

lemma second_slice_port_lost:
  "server_port (StrVal ''web'') (concat (map es_ports (of_type ''IPv4'' [ex_slice ''10.0.0.1'' 8080, ex_slice ''10.0.0.2'' 9090]))) = Some 8080
   \<and> server_port (StrVal ''web'') (es_ports (ex_slice ''10.0.0.2'' 9090)) = Some 9090"
  by code_simp

text \<open>A service without the port of the backend gives no error: the target port stays 0, which no test rejects.\<close>

lemma missing_port_accepted:
  assumes "map_of (sv_services env) svcKey = Some svc" "\<forall>p \<in> set (svk_ports svc). sp_port p \<noteq> bp_svcPort be" "names_servers (fv_names (sv_front env))"
  shows "fst (getServersForBackend env svcKey be eps) = None"
proof -
  have "List.find (\<lambda>p. sp_port p = bp_svcPort be) (svk_ports svc) = None" using assms(2) by (simp add: find_None_iff)
  then have "target_port svc (bp_svcPort be) = IntVal 0" by (simp add: target_port_def)
  moreover have "int_or_string_String (IntVal 0) \<notin> {[], ''<nil>''}" by code_simp
  ultimately show ?thesis using assms(1) fold_add_type_servers[OF assms(3), of "bp_svcPort be" "IntVal 0" eps "[]" "[]"]
    by (simp add: getServersForBackend_def Let_def Errors_Result_def)
qed

text \<open>A slice that is created and deleted in one batch has neither object, and reading it panics.\<close>

lemma transient_slice_panics:
  assumes "sv_epsUpdates env = updates (os_delete (meta_key (es_meta eps)) (os_upsert as_EndpointSlice (OEndpointSlice eps) (newObjectStoreImpl [] [])))"
  shows "endpointSliceUpdatedByService env = None"
  by (simp add: endpointSliceUpdatedByService_def assms os_delete_def os_upsert_def as_EndpointSlice_def newObjectStoreImpl_def ObjectKeyFromObject_def
      Let_def map_of_mput update0_def)

subsection \<open>The configuration after the servers\<close>

lemma current_withServers:
  assumes "conf_inv c"
  shows "current (be_view (snd (upsertBackendWithServers n servers c)) m) =
    (if m = n then map_option (\<lambda>be. be\<lparr>be_Servers := Some servers\<rparr>) (current (be_view c m)) else current (be_view c m))"
proof (cases "map_of (cf_Backends c) n")
  case (Some p)
  show ?thesis
  proof (cases "m = n")
    case True
    then show ?thesis using Some ptr_at[OF assms Some] by (simp add: conf_ops current_def be_view_def deref_def map_of_mput)
  qed (simp add: be_view_upsertBackendWithServers_other[OF assms])
qed (simp add: conf_ops current_def be_view_def deref_def)

lemma diffs_withServers:
  assumes "conf_inv c" "m \<noteq> n"
  shows "mhas (df_CreatedBE (cf_diffs (snd (upsertBackendWithServers n servers c)))) m = mhas (df_CreatedBE (cf_diffs c)) m"
    "mhas (df_UpdatedBE (cf_diffs (snd (upsertBackendWithServers n servers c)))) m = mhas (df_UpdatedBE (cf_diffs c)) m"
proof -
  have "be_Name (cf_objs c ! p) = n" if "map_of (cf_Backends c) n = Some p" for p by (rule ptr_at(2)[OF assms(1) that])
  then show "mhas (df_CreatedBE (cf_diffs (snd (upsertBackendWithServers n servers c)))) m = mhas (df_CreatedBE (cf_diffs c)) m"
    "mhas (df_UpdatedBE (cf_diffs (snd (upsertBackendWithServers n servers c)))) m = mhas (df_UpdatedBE (cf_diffs c)) m"
    using assms(2) by (auto simp: conf_ops mhas_def map_of_mput split: option.split)
qed

definition computed :: "srv_env \<Rightarrow> namespaced_name \<Rightarrow> (string, svc_endpoints) gomap \<Rightarrow> be_port \<Rightarrow> (string, server) gomap option" where
  "computed env svcKey eps bp = (case getServersForBackend env svcKey bp eps of (None, m) \<Rightarrow> Some m | _ \<Rightarrow> None)"

lemma set_backend_servers_conf:
  "ss_conf (snd (set_backend_servers env svcKey eps bp (errs, s))) =
     (case computed env svcKey eps bp of None \<Rightarrow> ss_conf s | Some m \<Rightarrow> snd (upsertBackendWithServers (bp_backendName bp) m (ss_conf s)))"
  by (auto simp: set_backend_servers_def computed_def Let_def split: prod.splits option.splits sum.splits)

text \<open>The servers to set in a cycle, one after the other.\<close>

definition jobs_of_service :: "srv_env \<Rightarrow> (namespaced_name, (namespaced_name, endpoint_slice) gomap) gomap \<Rightarrow> configuration \<Rightarrow> namespaced_name \<times> be_port goset
    \<Rightarrow> (string \<times> (string, server) gomap) list" where
  "jobs_of_service env ups c = (\<lambda>(svcKey, backends).
     if \<not> mhas ups svcKey \<and> \<not> backends_changed c backends then []
     else case getSvcEndpoints env svcKey of
            Inl _ \<Rightarrow> []
          | Inr eps \<Rightarrow> List.map_filter (\<lambda>(bp, _). map_option (Pair (bp_backendName bp)) (computed env svcKey eps bp)) backends)"

definition set_servers :: "(string \<times> (string, server) gomap) list \<Rightarrow> configuration \<Rightarrow> configuration" where
  "set_servers js c = fold (\<lambda>(n, m) c. snd (upsertBackendWithServers n m c)) js c"

lemma fold_set_backend_servers:
  "ss_conf (snd (fold (\<lambda>(bp, _). set_backend_servers env svcKey eps bp) bps (errs, s))) =
     set_servers (List.map_filter (\<lambda>(bp, _). map_option (Pair (bp_backendName bp)) (computed env svcKey eps bp)) bps) (ss_conf s)"
proof (induction bps arbitrary: errs s)
  case (Cons x bps)
  obtain bp u where x: "x = (bp, u)" by (cases x)
  obtain errs1 s1 where 1: "set_backend_servers env svcKey eps bp (errs, s) = (errs1, s1)" by fastforce
  have "ss_conf s1 = (case computed env svcKey eps bp of None \<Rightarrow> ss_conf s | Some m \<Rightarrow> snd (upsertBackendWithServers (bp_backendName bp) m (ss_conf s)))"
    using set_backend_servers_conf[of env svcKey eps bp errs s] by (simp add: 1)
  then show ?case using Cons.IH[of errs1 s1] by (simp add: x 1 map_filter_def set_servers_def split: option.split)
qed (simp add: map_filter_def set_servers_def)

lemma set_service_servers_conf:
  "ss_conf (snd (set_service_servers env ups x (errs, s))) = set_servers (jobs_of_service env ups (ss_conf s) x) (ss_conf s)"
proof -
  obtain k bps where x: "x = (k, bps)" by (cases x)
  show ?thesis unfolding x set_service_servers_def jobs_of_service_def
    by (simp add: set_servers_def[of "[]"] fold_set_backend_servers split: sum.split)
qed

lemma wf_add_server: "wf_map (snd s) \<Longrightarrow> wf_map (snd (fold (add_server names bePort port) as s))"
  by (induction as arbitrary: s) (auto simp: add_server_def wf_mput split: prod.split sum.split)

lemma wf_add_type_servers: "wf_map (snd s) \<Longrightarrow> wf_map (snd (fold (add_type_servers env bePort targetPort) eps s))"
proof (induction eps arbitrary: s)
  case (Cons x eps)
  have "wf_map (snd (add_type_servers env bePort targetPort x s))"
    using Cons.prems by (auto simp: add_type_servers_def wf_add_server split: prod.split option.split)
  then show ?case using Cons.IH by simp
qed simp

lemma computed_wf: "computed env svcKey eps bp = Some m \<Longrightarrow> wf_map m"
  using wf_add_type_servers[of "([], [])" "sv_front env" "bp_svcPort bp" _ eps]
  by (auto simp: computed_def getServersForBackend_def Let_def split: option.splits prod.splits if_splits) (metis snd_conv)

lemma jobs_memD:
  assumes "(n, m) \<in> set (jobs_of_service env ups c (k, bps))"
  shows "\<exists>eps bp u. getSvcEndpoints env k = Inr eps \<and> (bp, u) \<in> set bps \<and> computed env k eps bp = Some m \<and> n = bp_backendName bp"
proof (cases "getSvcEndpoints env k")
  case (Inr eps)
  then have "(n, m) \<in> set (List.map_filter (\<lambda>(bp, _). map_option (Pair (bp_backendName bp)) (computed env k eps bp)) bps)"
    using assms by (simp add: jobs_of_service_def split: if_splits)
  then show ?thesis using Inr by (force simp: map_filter_def)
qed (use assms in \<open>simp add: jobs_of_service_def split: if_splits\<close>)

lemma jobs_wf: "(n, m) \<in> set (jobs_of_service env ups c x) \<Longrightarrow> wf_map m"
  using jobs_memD[of n m env ups c "fst x" "snd x"] computed_wf by auto

lemma jobs_names: "(n, m) \<in> set (jobs_of_service env ups c x) \<Longrightarrow> n \<in> bp_backendName ` mkeys (snd x)"
  using jobs_memD[of n m env ups c "fst x" "snd x"] by (force simp: mkeys_def)

lemma set_servers_Cons: "set_servers ((k, m) # js) c = set_servers js (snd (upsertBackendWithServers k m c))"
  by (simp add: set_servers_def)

definition jobs_ok :: "(string \<times> (string, server) gomap) list \<Rightarrow> bool" where
  "jobs_ok js = list_all (\<lambda>(_, m). wf_map m) js"

lemma set_servers_inv: "conf_inv c \<Longrightarrow> jobs_ok js \<Longrightarrow> conf_inv (set_servers js c)"
  by (induction js arbitrary: c) (auto simp: jobs_ok_def set_servers_Cons conf_inv_upsertBackendWithServers set_servers_def[of "[]"])

lemma set_servers_exact: "conf_exact c0 c \<Longrightarrow> jobs_ok js \<Longrightarrow> conf_exact c0 (set_servers js c)"
proof (induction js arbitrary: c)
  case (Cons j js)
  obtain k m where j: "j = (k, m)" by (cases j)
  show ?case using Cons conf_exact_step[OF Cons.prems(1), of "SetServers k m"] by (simp add: j jobs_ok_def set_servers_Cons)
qed (simp add: set_servers_def)

lemma set_servers_frontends: "fe_view (set_servers js c) n = fe_view c n"
  by (induction js arbitrary: c) (auto simp: set_servers_Cons views_apart set_servers_def[of "[]"])

lemma set_servers_diffs:
  assumes "conf_inv c" "jobs_ok js" "n \<notin> fst ` set js"
  shows "mhas (df_CreatedBE (cf_diffs (set_servers js c))) n = mhas (df_CreatedBE (cf_diffs c)) n
    \<and> mhas (df_UpdatedBE (cf_diffs (set_servers js c))) n = mhas (df_UpdatedBE (cf_diffs c)) n"
  using assms
proof (induction js arbitrary: c)
  case (Cons j js)
  obtain k m where j: "j = (k, m)" by (cases j)
  have h: "wf_map m" "jobs_ok js" "n \<noteq> k" "n \<notin> fst ` set js" using Cons.prems by (auto simp: j jobs_ok_def)
  from Cons.IH[OF conf_inv_upsertBackendWithServers[OF Cons.prems(1) h(1)] h(2,4)] show ?case
    using diffs_withServers[OF Cons.prems(1) h(3)] by (simp add: j set_servers_Cons)
qed (simp add: set_servers_def)

lemma set_servers_current:
  assumes "conf_inv c" "jobs_ok js" "distinct (map fst js)"
  shows "current (be_view (set_servers js c) n) =
    (case map_of js n of None \<Rightarrow> current (be_view c n) | Some m \<Rightarrow> map_option (\<lambda>be. be\<lparr>be_Servers := Some m\<rparr>) (current (be_view c n)))"
  using assms
proof (induction js arbitrary: c)
  case (Cons j js)
  obtain k m where j: "j = (k, m)" by (cases j)
  have h: "wf_map m" "jobs_ok js" "distinct (map fst js)" "map_of js k = None" using Cons.prems by (auto simp: j jobs_ok_def map_of_eq_None_iff)
  from Cons.IH[OF conf_inv_upsertBackendWithServers[OF Cons.prems(1) h(1)] h(2,3)] show ?case
    using current_withServers[OF Cons.prems(1), of k m n] h(4) by (cases "n = k") (simp_all add: j set_servers_Cons split: option.split)
qed (simp add: set_servers_def)

subsection \<open>All services\<close>

definition all_jobs :: "srv_env \<Rightarrow> (namespaced_name, (namespaced_name, endpoint_slice) gomap) gomap \<Rightarrow> configuration \<Rightarrow> service_backends
    \<Rightarrow> (string \<times> (string, server) gomap) list" where
  "all_jobs env ups c bs = concat (map (jobs_of_service env ups c) bs)"

definition backend_names :: "service_backends \<Rightarrow> string list" where
  "backend_names bs = concat (map (\<lambda>(_, bps). map (\<lambda>(bp, _). bp_backendName bp) bps) bs)"

lemma backend_names_mem: "n \<in> set (backend_names bs) \<longleftrightarrow> (\<exists>x \<in> set bs. n \<in> bp_backendName ` mkeys (snd x))"
  by (auto simp: backend_names_def mkeys_def case_prod_beta image_image)

lemma jobs_ok_service: "jobs_ok (jobs_of_service env ups c x)"
  using jobs_wf[of _ _ env ups c x] by (auto simp: jobs_ok_def list_all_iff)

lemma jobs_frame:
  assumes "\<And>n. n \<in> bp_backendName ` mkeys (snd x) \<Longrightarrow> mhas (df_CreatedBE (cf_diffs c')) n = mhas (df_CreatedBE (cf_diffs c)) n
    \<and> mhas (df_UpdatedBE (cf_diffs c')) n = mhas (df_UpdatedBE (cf_diffs c)) n"
  shows "jobs_of_service env ups c' x = jobs_of_service env ups c x"
proof -
  obtain k bps where x: "x = (k, bps)" by (cases x)
  have "backends_changed c' bps = backends_changed c bps"
    unfolding backends_changed_def by (rule list_ex_cong) (use assms in \<open>force simp: x mkeys_def\<close>)+
  then show ?thesis by (simp add: x jobs_of_service_def)
qed

lemma processEndpointSlices_conf:
  assumes "conf_inv (ss_conf s)" "distinct (backend_names bs)"
  shows "ss_conf (snd (fold (set_service_servers env ups) bs (errs, s))) = set_servers (all_jobs env ups (ss_conf s) bs) (ss_conf s)"
  using assms
proof (induction bs arbitrary: errs s)
  case (Cons x bs)
  let ?j = "jobs_of_service env ups (ss_conf s) x"
  obtain errs1 s1 where 1: "set_service_servers env ups x (errs, s) = (errs1, s1)" by fastforce
  have c1: "ss_conf s1 = set_servers ?j (ss_conf s)" using set_service_servers_conf[of env ups x errs s] by (simp add: 1)
  have inv: "conf_inv (ss_conf s1)" unfolding c1 by (rule set_servers_inv[OF Cons.prems(1) jobs_ok_service])
  have "jobs_of_service env ups (ss_conf s1) y = jobs_of_service env ups (ss_conf s) y" if "y \<in> set bs" for y
  proof (rule jobs_frame)
    fix n assume n: "n \<in> bp_backendName ` mkeys (snd y)"
    have "n \<in> set (backend_names bs)" using n that backend_names_mem[of n bs] by blast
    moreover have "fst ` set ?j \<subseteq> set (backend_names [x])" using jobs_names[of _ _ env ups "ss_conf s" x] backend_names_mem[of _ "[x]"] by auto
    moreover have "set (backend_names [x]) \<inter> set (backend_names bs) = {}" using Cons.prems(2) by (simp add: backend_names_def case_prod_beta)
    ultimately have "n \<notin> fst ` set ?j" by blast
    from set_servers_diffs[OF Cons.prems(1) jobs_ok_service this]
    show "mhas (df_CreatedBE (cf_diffs (ss_conf s1))) n = mhas (df_CreatedBE (cf_diffs (ss_conf s))) n
      \<and> mhas (df_UpdatedBE (cf_diffs (ss_conf s1))) n = mhas (df_UpdatedBE (cf_diffs (ss_conf s))) n" unfolding c1 .
  qed
  then have "all_jobs env ups (ss_conf s1) bs = all_jobs env ups (ss_conf s) bs" unfolding all_jobs_def by (simp cong: map_cong)
  moreover have "distinct (backend_names bs)" using Cons.prems(2) by (simp add: backend_names_def)
  ultimately show ?case using Cons.IH[OF inv, of errs1] by (simp add: 1) (simp add: all_jobs_def set_servers_def c1)
qed (simp add: all_jobs_def set_servers_def)

lemma distinct_jobs:
  assumes "distinct (backend_names bs)"
  shows "distinct (map fst (all_jobs env ups c bs))"
  using assms
proof (induction bs)
  case (Cons x bs)
  obtain k bps where x: "x = (k, bps)" by (cases x)
  have d: "distinct (map (\<lambda>(bp, _). bp_backendName bp) bps)" "distinct (backend_names bs)" "set (backend_names [x]) \<inter> set (backend_names bs) = {}"
    using Cons.prems by (simp_all add: x backend_names_def)
  have "map fst (List.map_filter (\<lambda>(bp, _). map_option (Pair (bp_backendName bp)) (computed env k eps bp)) bps)
      = map (\<lambda>(bp, _). bp_backendName bp) (filter (\<lambda>(bp, _). computed env k eps bp \<noteq> None) bps)" for eps
    by (induction bps) (auto simp: map_filter_def)
  then have "distinct (map fst (jobs_of_service env ups c x))" using d(1) by (auto simp: x jobs_of_service_def distinct_map_filter split: sum.split)
  moreover have "fst ` set (jobs_of_service env ups c x) \<inter> fst ` set (all_jobs env ups c bs) = {}"
  proof -
    have "fst ` set (jobs_of_service env ups c x) \<subseteq> set (backend_names [x])" using jobs_names[of _ _ env ups c x] backend_names_mem[of _ "[x]"] by auto
    moreover have "fst ` set (all_jobs env ups c bs) \<subseteq> set (backend_names bs)"
      using jobs_names[of _ _ env ups c] backend_names_mem[of _ bs] by (fastforce simp: all_jobs_def)
    ultimately show ?thesis using d(3) by blast
  qed
  ultimately show ?case using Cons.IH[OF d(2)] by (simp add: all_jobs_def)
qed (simp add: all_jobs_def)

lemma processEndpointSlices_jobs:
  assumes "conf_inv (ss_conf s)" "endpointSliceUpdatedByService env = Some ups" "backendsByService env owners = Some bs" "distinct (backend_names bs)"
  shows "\<exists>e s'. processEndpointSlices env owners s = Some (e, s') \<and> ss_conf s' = set_servers (all_jobs env ups (ss_conf s) bs) (ss_conf s)"
proof (cases "sv_epsUpdates env = [] \<and> df_CreatedBE (cf_diffs (ss_conf s)) = [] \<and> df_UpdatedBE (cf_diffs (ss_conf s)) = []")
  case True
  then have u: "ups = []" using assms(2) by (simp add: endpointSliceUpdatedByService_def)
  have "\<not> backends_changed (ss_conf s) bps" for bps using True by (simp add: backends_changed_def mhas_def list_ex_iff case_prod_beta)
  then have "jobs_of_service env ups (ss_conf s) x = []" for x by (simp add: jobs_of_service_def u mhas_def split: prod.split)
  then have "all_jobs env ups (ss_conf s) bs = []" by (simp add: all_jobs_def)
  then show ?thesis using True by (simp add: processEndpointSlices_def set_servers_def)
next
  case False
  then show ?thesis using processEndpointSlices_conf[OF assms(1,4), of env ups "[]"] assms(2,3)
    by (auto simp: processEndpointSlices_def split: prod.split)
qed

lemma all_jobs_mem:
  assumes "(svcKey, bps) \<in> set bs" "(bp, u) \<in> set bps" "mhas ups svcKey \<or> backends_changed c bps" "getSvcEndpoints env svcKey = Inr eps"
    "computed env svcKey eps bp = Some m"
  shows "(bp_backendName bp, m) \<in> set (all_jobs env ups c bs)"
proof -
  have "(bp_backendName bp, m) \<in> set (jobs_of_service env ups c (svcKey, bps))"
    using assms(2-5) by (force simp: jobs_of_service_def map_filter_def)
  then show ?thesis using assms(1) by (auto simp: all_jobs_def)
qed


definition ex_srv_slice :: endpoint_slice where
  "ex_srv_slice = (ex_slice ''10.0.0.1'' 8080)\<lparr>es_meta := meta0\<lparr>om_labels := [(''kubernetes.io/service-name'', ''be1'')]\<rparr>\<rparr>"

definition ex_srv_env :: srv_env where
  "ex_srv_env = \<lparr>sv_front = \<lparr>fv_params = \<lparr>cp_names = ex_names, cp_LinkID = [], cp_DefaultsSectionName = [], cp_extractGVK = scheme_gvk, cp_merge = (\<lambda>_ _ be. Inr be)\<rparr>,
       fv_maps = \<lparr>me_names = ex_names, me_can_open = (\<lambda>_. True), me_disk = []\<rparr>, fv_certStorage = \<lparr>CertsBaseDir = [], CertFilesBaseDir = []\<rparr>,
       fv_IPv4BindAddress = [], fv_IPv6BindAddress = [], fv_DisableIPv4 = False, fv_DisableIPv6 = False\<rparr>,
     sv_services = [(NamespacedName [] ''be1'', \<lparr>svk_meta = meta0, svk_ports = [\<lparr>sp_name = [], sp_port = 80, sp_targetPort = StrVal ''web''\<rparr>]\<rparr>)],
     sv_httpRoutes = [(NamespacedName [] ''r'', new_tree_res ex_tree_route)], sv_tlsRoutes = [],
     sv_epsUpdates = [(NamespacedName [] ''s'', \<lparr>OldObject = None, NewObject = Some ex_srv_slice, Status = StatusUpserted, Indirect = False\<rparr>)],
     sv_list = (\<lambda>_. Inr [ex_srv_slice]), sv_execute = (\<lambda>_ _. Inr [])\<rparr>"

definition ex_srv_owners :: backend_owners where
  "ex_srv_owners = [(''be1'', [(BackendOwnerTypeHTTPRoute, [(NamespacedName [] ''r'', 1)])])]"

definition ex_srv_state :: srv_state where
  "ex_srv_state = \<lparr>ss_conf = run_op (UpsertBE (ex_be ''be1'')) conf0, ss_reload = reload_Instance, ss_sent = [], ss_deleted = []\<rparr>"


end
