(* ===== verification/RuntimeCerts.thy ===== *)
theory RuntimeCerts
  imports MapSync ReloadMgr TreeCore
begin

text \<open>
  \<open>k8s/gate/haproxy/certificates.go\<close>: the certificates and crt-lists that changed in a cycle are sent to the running
  HAProxy, or a reload is asked for.

  The runtime client is not part of the program: it is the argument \<open>rc\<close>, on a state of its own, with the
  documented behaviour of its commands as the hypothesis \<open>cert_laws\<close>.  The mutex only serialises calls
  and is left out.
\<close>

record 'w cert_client =
  rc_NewCertEntry :: "string \<Rightarrow> 'w \<Rightarrow> go_error \<times> 'w"
  rc_SetCertEntry :: "string \<Rightarrow> string \<Rightarrow> 'w \<Rightarrow> go_error \<times> 'w"
  rc_CommitCertEntry :: "string \<Rightarrow> 'w \<Rightarrow> go_error \<times> 'w"
  rc_AbortCertEntry :: "string \<Rightarrow> 'w \<Rightarrow> go_error \<times> 'w"
  rc_DeleteCertEntry :: "string \<Rightarrow> 'w \<Rightarrow> go_error \<times> 'w"
  rc_ShowCrtListEntries :: "string \<Rightarrow> 'w \<Rightarrow> (string + string list) \<times> 'w"
  rc_AddCrtListEntry :: "string \<Rightarrow> string \<Rightarrow> 'w \<Rightarrow> go_error \<times> 'w"
  rc_DeleteCrtListEntry :: "string \<Rightarrow> string \<Rightarrow> 'w \<Rightarrow> go_error \<times> 'w"

subsection \<open>Commands\<close>

text \<open>The new content goes into a transaction; a failed commit aborts it.\<close>

definition runtimeUpdateCert :: "'w cert_client \<Rightarrow> certificate_data \<Rightarrow> 'w \<Rightarrow> go_error \<times> 'w" where
  "runtimeUpdateCert rc cert w =
     (let certName = FullPath (cd_Path cert) in
      case rc_SetCertEntry rc certName (cd_Data cert) w of
        (Some err, w) \<Rightarrow> (Some err, w)
      | (None, w) \<Rightarrow>
          (case rc_CommitCertEntry rc certName w of
             (Some err, w) \<Rightarrow> (Some err, snd (rc_AbortCertEntry rc certName w))
           | (None, w) \<Rightarrow> (None, w)))"

definition runtimeCreateCert :: "'w cert_client \<Rightarrow> certificate_data \<Rightarrow> 'w \<Rightarrow> go_error \<times> 'w" where
  "runtimeCreateCert rc cert w =
     (case rc_NewCertEntry rc (FullPath (cd_Path cert)) w of
        (Some err, w) \<Rightarrow> (Some err, w)
      | (None, w) \<Rightarrow> runtimeUpdateCert rc cert w)"

definition runtimeDeleteCert :: "'w cert_client \<Rightarrow> certificate_data \<Rightarrow> 'w \<Rightarrow> go_error \<times> 'w" where
  "runtimeDeleteCert rc cert w = rc_DeleteCertEntry rc (FullPath (cd_Path cert)) w"

definition runtimeUpdateCrtList :: "'w cert_client \<Rightarrow> crt_list_data \<Rightarrow> 'w \<Rightarrow> go_error \<times> 'w" where
  "runtimeUpdateCrtList rc crtList w =
     (let path = FullPath (cl_Path crtList) in
      case rc_ShowCrtListEntries rc path w of
        (Inl err, w) \<Rightarrow> (Some err, w)
      | (Inr listed, w) \<Rightarrow>
          (let currentCerts = fold sput listed []; newContent = fold sput (cl_Content crtList) [] in
           case until_error (\<lambda>(cert, _). rc_AddCrtListEntry rc path cert) (SetDifference newContent currentCerts) w of
             (Some err, w) \<Rightarrow> (Some err, w)
           | (None, w) \<Rightarrow> until_error (\<lambda>(cert, _). rc_DeleteCrtListEntry rc path cert) (SetDifference currentCerts newContent) w))"

definition runtimeCertificatesPrechecks :: "crt_list_data storage_updates \<Rightarrow> reload_mgr \<Rightarrow> reload_mgr" where
  "runtimeCertificatesPrechecks crtLists r =
     (let r = (if su_Created crtLists \<noteq> [] then SetReload r else r) in if su_Deleted crtLists \<noteq> [] then SetReload r else r)"

text \<open>A phase that failed asks for a reload and ends the loop.\<close>

definition executeRuntimeCertCommands :: "'w cert_client \<Rightarrow> certificate_data storage_updates \<Rightarrow> crt_list_data storage_updates \<Rightarrow> reload_mgr \<times> 'w
    \<Rightarrow> go_error \<times> reload_mgr \<times> 'w" where
  "executeRuntimeCertCommands rc certs crtLists = (\<lambda>(r, w).
     if NeedReload r then (None, r, w)
     else case until_error (\<lambda>(_, c). runtimeCreateCert rc c) (su_Created certs) w of
            (Some err, w) \<Rightarrow> (Some err, SetReload r, w)
          | (None, w) \<Rightarrow>
              (case until_error (\<lambda>(_, c). runtimeUpdateCert rc c) (su_Updated certs) w of
                 (Some err, w) \<Rightarrow> (Some err, SetReload r, w)
               | (None, w) \<Rightarrow>
                   (case until_error (\<lambda>(_, l). runtimeUpdateCrtList rc l) (su_Updated crtLists) w of
                      (Some err, w) \<Rightarrow> (Some err, SetReload r, w)
                    | (None, w) \<Rightarrow>
                        (case until_error (\<lambda>(_, c). runtimeDeleteCert rc c) (su_Deleted certs) w of
                           (Some err, w) \<Rightarrow> (Some err, SetReload r, w)
                         | (None, w) \<Rightarrow> (None, r, w)))))"

definition processCertificates :: "bool \<Rightarrow> 'w cert_client \<Rightarrow> certificate_data storage_updates \<Rightarrow> crt_list_data storage_updates \<Rightarrow> reload_mgr \<times> 'w
    \<Rightarrow> go_error \<times> reload_mgr \<times> 'w" where
  "processCertificates runtimeUpdate rc certs crtLists = (\<lambda>(r, w).
     if \<not> runtimeUpdate then (None, r, w)
     else executeRuntimeCertCommands rc certs crtLists (runtimeCertificatesPrechecks crtLists r, w))"

subsection \<open>The commands of HAProxy\<close>

text \<open>\<open>cert w f\<close> is the content of the certificate file \<open>f\<close> that HAProxy uses, \<open>tx w\<close> its open transaction and
  \<open>crts w l\<close> the certificates of the list \<open>l\<close>.  What a command does when it succeeds; an error says nothing.\<close>

definition cert_laws :: "'w cert_client \<Rightarrow> ('w \<Rightarrow> string \<Rightarrow> string option) \<Rightarrow> ('w \<Rightarrow> (string \<times> string) option) \<Rightarrow> ('w \<Rightarrow> string \<Rightarrow> string set) \<Rightarrow> bool" where
  "cert_laws rc cert tx crts \<longleftrightarrow>
     (\<forall>w w' f. rc_NewCertEntry rc f w = (None, w') \<longrightarrow> cert w' = (cert w)(f \<mapsto> []) \<and> crts w' = crts w)
     \<and> (\<forall>w w' f d. rc_SetCertEntry rc f d w = (None, w') \<longrightarrow> cert w' = cert w \<and> crts w' = crts w \<and> tx w' = Some (f, d))
     \<and> (\<forall>w w' f d. rc_CommitCertEntry rc f w = (None, w') \<longrightarrow> tx w = Some (f, d) \<longrightarrow> cert w' = (cert w)(f \<mapsto> d) \<and> crts w' = crts w)
     \<and> (\<forall>w w' f. rc_DeleteCertEntry rc f w = (None, w') \<longrightarrow> cert w' = (cert w)(f := None) \<and> crts w' = crts w)
     \<and> (\<forall>w w' l es. rc_ShowCrtListEntries rc l w = (Inr es, w') \<longrightarrow> cert w' = cert w \<and> crts w' = crts w \<and> set es = crts w l)
     \<and> (\<forall>w w' l c. rc_AddCrtListEntry rc l c w = (None, w') \<longrightarrow> cert w' = cert w \<and> crts w' = (crts w)(l := insert c (crts w l)))
     \<and> (\<forall>w w' l c. rc_DeleteCrtListEntry rc l c w = (None, w') \<longrightarrow> cert w' = cert w \<and> crts w' = (crts w)(l := crts w l - {c}))"

lemma cert_lawsD:
  assumes "cert_laws rc cert tx crts"
  shows "rc_NewCertEntry rc f w = (None, w') \<Longrightarrow> cert w' = (cert w)(f \<mapsto> []) \<and> crts w' = crts w"
    "rc_SetCertEntry rc f d w = (None, w') \<Longrightarrow> cert w' = cert w \<and> crts w' = crts w \<and> tx w' = Some (f, d)"
    "rc_CommitCertEntry rc f w = (None, w') \<Longrightarrow> tx w = Some (f, d) \<Longrightarrow> cert w' = (cert w)(f \<mapsto> d) \<and> crts w' = crts w"
    "rc_DeleteCertEntry rc f w = (None, w') \<Longrightarrow> cert w' = (cert w)(f := None) \<and> crts w' = crts w"
    "rc_ShowCrtListEntries rc l w = (Inr es, w') \<Longrightarrow> cert w' = cert w \<and> crts w' = crts w \<and> set es = crts w l"
    "rc_AddCrtListEntry rc l c w = (None, w') \<Longrightarrow> cert w' = cert w \<and> crts w' = (crts w)(l := insert c (crts w l))"
    "rc_DeleteCrtListEntry rc l c w = (None, w') \<Longrightarrow> cert w' = cert w \<and> crts w' = (crts w)(l := crts w l - {c})"
proof -
  note l = assms[unfolded cert_laws_def]
  show "rc_NewCertEntry rc f w = (None, w') \<Longrightarrow> cert w' = (cert w)(f \<mapsto> []) \<and> crts w' = crts w"
    by (rule l[THEN conjunct1, rule_format])
  show "rc_SetCertEntry rc f d w = (None, w') \<Longrightarrow> cert w' = cert w \<and> crts w' = crts w \<and> tx w' = Some (f, d)"
    by (rule l[THEN conjunct2, THEN conjunct1, rule_format])
  show "rc_CommitCertEntry rc f w = (None, w') \<Longrightarrow> tx w = Some (f, d) \<Longrightarrow> cert w' = (cert w)(f \<mapsto> d) \<and> crts w' = crts w"
    by (rule l[THEN conjunct2, THEN conjunct2, THEN conjunct1, rule_format])
  note l = l[THEN conjunct2, THEN conjunct2, THEN conjunct2]
  show "rc_DeleteCertEntry rc f w = (None, w') \<Longrightarrow> cert w' = (cert w)(f := None) \<and> crts w' = crts w"
    by (rule l[THEN conjunct1, rule_format])
  show "rc_ShowCrtListEntries rc l w = (Inr es, w') \<Longrightarrow> cert w' = cert w \<and> crts w' = crts w \<and> set es = crts w l"
    by (rule l[THEN conjunct2, THEN conjunct1, rule_format])
  show "rc_AddCrtListEntry rc l c w = (None, w') \<Longrightarrow> cert w' = cert w \<and> crts w' = (crts w)(l := insert c (crts w l))"
    by (rule l[THEN conjunct2, THEN conjunct2, THEN conjunct1, rule_format])
  show "rc_DeleteCrtListEntry rc l c w = (None, w') \<Longrightarrow> cert w' = cert w \<and> crts w' = (crts w)(l := crts w l - {c})"
    by (rule l[THEN conjunct2, THEN conjunct2, THEN conjunct2, rule_format])
qed

lemma runtimeUpdateCert_ok:
  assumes "cert_laws rc cert tx crts" "runtimeUpdateCert rc c w = (None, w')"
  shows "cert w' = (cert w)(FullPath (cd_Path c) \<mapsto> cd_Data c) \<and> crts w' = crts w"
proof -
  obtain w1 where 1: "rc_SetCertEntry rc (FullPath (cd_Path c)) (cd_Data c) w = (None, w1)" "rc_CommitCertEntry rc (FullPath (cd_Path c)) w1 = (None, w')"
    using assms(2) by (auto simp: runtimeUpdateCert_def Let_def split: prod.splits option.splits)
  show ?thesis using cert_lawsD(2)[OF assms(1) 1(1)] cert_lawsD(3)[OF assms(1) 1(2)] by simp
qed

lemma runtimeCreateCert_ok:
  assumes "cert_laws rc cert tx crts" "runtimeCreateCert rc c w = (None, w')"
  shows "cert w' = (cert w)(FullPath (cd_Path c) \<mapsto> cd_Data c) \<and> crts w' = crts w"
proof -
  obtain w1 where 1: "rc_NewCertEntry rc (FullPath (cd_Path c)) w = (None, w1)" "runtimeUpdateCert rc c w1 = (None, w')"
    using assms(2) by (auto simp: runtimeCreateCert_def split: prod.splits option.splits)
  show ?thesis using cert_lawsD(1)[OF assms(1) 1(1)] runtimeUpdateCert_ok[OF assms(1) 1(2)] by simp
qed

lemma until_error_ok:
  assumes "until_error f (x # xs) w = (None, w')"
  obtains w1 where "f x w = (None, w1)" "until_error f xs w1 = (None, w')"
  using assms by (auto split: prod.splits option.splits)

text \<open>A loop of writes to certificates: the last write of a file counts.\<close>

lemma writes_ok:
  assumes "\<And>c w w'. f c w = (None, w') \<Longrightarrow> cert w' = (cert w)(g c := v c) \<and> crts w' = crts w" "until_error (\<lambda>(_, c). f c) cs w = (None, w')"
  shows "cert w' = fold (\<lambda>(_, c) m. m(g c := v c)) cs (cert w) \<and> crts w' = crts w"
  using assms(2)
proof (induction cs arbitrary: w)
  case (Cons x cs)
  obtain k c where x: "x = (k, c)" by (cases x)
  obtain w1 where 1: "f c w = (None, w1)" "until_error (\<lambda>(_, c). f c) cs w1 = (None, w')" using Cons.prems by (auto simp: x split: prod.splits option.splits)
  show ?case using assms(1)[OF 1(1)] Cons.IH[OF 1(2)] by (simp add: x)
qed simp

lemma list_adds_ok:
  assumes "cert_laws rc cert tx crts" "until_error (\<lambda>(c, _). rc_AddCrtListEntry rc l c) xs w = (None, w')"
  shows "cert w' = cert w \<and> crts w' = (crts w)(l := crts w l \<union> mkeys xs)"
  using assms(2)
proof (induction xs arbitrary: w)
  case (Cons x xs)
  obtain c u where x: "x = (c, u)" by (cases x)
  obtain w1 where 1: "rc_AddCrtListEntry rc l c w = (None, w1)" "until_error (\<lambda>(c, _). rc_AddCrtListEntry rc l c) xs w1 = (None, w')"
    using Cons.prems by (auto simp: x split: prod.splits option.splits)
  show ?case using cert_lawsD(6)[OF assms(1) 1(1)] Cons.IH[OF 1(2)] by (auto simp: x fun_eq_iff)
qed simp

lemma list_deletes_ok:
  assumes "cert_laws rc cert tx crts" "until_error (\<lambda>(c, _). rc_DeleteCrtListEntry rc l c) xs w = (None, w')"
  shows "cert w' = cert w \<and> crts w' = (crts w)(l := crts w l - mkeys xs)"
  using assms(2)
proof (induction xs arbitrary: w)
  case (Cons x xs)
  obtain c u where x: "x = (c, u)" by (cases x)
  obtain w1 where 1: "rc_DeleteCrtListEntry rc l c w = (None, w1)" "until_error (\<lambda>(c, _). rc_DeleteCrtListEntry rc l c) xs w1 = (None, w')"
    using Cons.prems by (auto simp: x split: prod.splits option.splits)
  show ?case using cert_lawsD(7)[OF assms(1) 1(1)] Cons.IH[OF 1(2)] by (auto simp: x fun_eq_iff)
qed simp

lemma runtimeUpdateCrtList_ok:
  assumes "cert_laws rc cert tx crts" "runtimeUpdateCrtList rc l w = (None, w')"
  shows "cert w' = cert w \<and> crts w' = (crts w)(FullPath (cl_Path l) := set (cl_Content l))"
proof -
  let ?p = "FullPath (cl_Path l)"
  obtain listed w1 w2 where 1: "rc_ShowCrtListEntries rc ?p w = (Inr listed, w1)"
      "until_error (\<lambda>(c, _). rc_AddCrtListEntry rc ?p c) (SetDifference (fold sput (cl_Content l) []) (fold sput listed [])) w1 = (None, w2)"
      "until_error (\<lambda>(c, _). rc_DeleteCrtListEntry rc ?p c) (SetDifference (fold sput listed []) (fold sput (cl_Content l) [])) w2 = (None, w')"
    using assms(2) by (auto simp: runtimeUpdateCrtList_def Let_def split: prod.splits option.splits sum.splits)
  note s = cert_lawsD(5)[OF assms(1) 1(1)] and a = list_adds_ok[OF assms(1) 1(2)] and d = list_deletes_ok[OF assms(1) 1(3)]
  have "set listed = crts w ?p" using s by blast
  moreover have "(set listed \<union> (set (cl_Content l) - set listed)) - (set listed - set (cl_Content l)) = set (cl_Content l)" by blast
  ultimately show ?thesis using s a d by (simp add: mkeys_fold_sput fun_eq_iff)
qed

lemma fold_writes_other: "f \<notin> g ` set (map snd cs) \<Longrightarrow> fold (\<lambda>(_, c) m. m(g c := v c)) cs m f = m f"
  by (induction cs arbitrary: m) auto

lemma fold_writes:
  assumes "distinct (map (\<lambda>x. g (snd x)) cs)" "(k, c) \<in> set cs"
  shows "fold (\<lambda>(_, c) m. m(g c := v c)) cs m (g c) = v c"
  using assms
proof (induction cs arbitrary: m)
  case (Cons x cs)
  obtain k' c' where x: "x = (k', c')" by (cases x)
  show ?case
  proof (cases "(k, c) = x")
    case True
    then have "g c \<notin> g ` set (map snd cs)" using Cons.prems(1) by (auto simp: x)
    from fold_writes_other[OF this, of v "m(g c := v c)"] have "fold (\<lambda>(_, c) m. m(g c := v c)) cs (m(g c := v c)) (g c) = v c" by (simp only: fun_upd_same)
    then show ?thesis using True by (simp add: x del: fun_upd_apply)
  next
    case False
    then have "(k, c) \<in> set cs" "distinct (map (\<lambda>x. g (snd x)) cs)" using Cons.prems by (auto simp: x)
    from Cons.IH[OF this(2,1)] show ?thesis by (simp add: x del: fun_upd_apply)
  qed
qed simp

lemma lists_ok:
  assumes "cert_laws rc cert tx crts" "until_error (\<lambda>(_, l). runtimeUpdateCrtList rc l) ls w = (None, w')"
  shows "cert w' = cert w \<and> crts w' = fold (\<lambda>(_, l) m. m(FullPath (cl_Path l) := set (cl_Content l))) ls (crts w)"
  using assms(2)
proof (induction ls arbitrary: w)
  case (Cons x ls)
  obtain k l where x: "x = (k, l)" by (cases x)
  obtain w1 where 1: "runtimeUpdateCrtList rc l w = (None, w1)" "until_error (\<lambda>(_, l). runtimeUpdateCrtList rc l) ls w1 = (None, w')"
    using Cons.prems by (auto simp: x split: prod.splits option.splits)
  show ?case using runtimeUpdateCrtList_ok[OF assms(1) 1(1)] Cons.IH[OF 1(2)] by (simp add: x)
qed simp

text \<open>Without a reload every phase ran to its end.\<close>

lemma executeRuntimeCertCommands_cases:
  assumes "executeRuntimeCertCommands rc certs crtLists (r, w) = (e, r', w')"
  shows "e \<noteq> None \<Longrightarrow> NeedReload r'" "NeedReload r \<Longrightarrow> NeedReload r'"
    "\<not> NeedReload r' \<Longrightarrow> \<exists>w1 w2 w3. until_error (\<lambda>(_, c). runtimeCreateCert rc c) (su_Created certs) w = (None, w1)
       \<and> until_error (\<lambda>(_, c). runtimeUpdateCert rc c) (su_Updated certs) w1 = (None, w2)
       \<and> until_error (\<lambda>(_, l). runtimeUpdateCrtList rc l) (su_Updated crtLists) w2 = (None, w3)
       \<and> until_error (\<lambda>(_, c). runtimeDeleteCert rc c) (su_Deleted certs) w3 = (None, w')"
  using assms by (auto simp: executeRuntimeCertCommands_def NeedReload_def SetReload_def split: if_splits prod.splits option.splits)

definition cert_file_path :: "string \<times> certificate_data \<Rightarrow> string" where
  "cert_file_path c = FullPath (cd_Path (snd c))"

text \<open>The certificates after the three phases that write them.\<close>

lemma cert_writes:
  fixes m certs
  defines "m' \<equiv> fold (\<lambda>(_, c) m. m(FullPath (cd_Path c) := None)) (su_Deleted certs)
      (fold (\<lambda>(_, c) m. m(FullPath (cd_Path c) := Some (cd_Data c))) (su_Updated certs)
        (fold (\<lambda>(_, c) m. m(FullPath (cd_Path c) := Some (cd_Data c))) (su_Created certs) m))"
  assumes "distinct (map cert_file_path (su_Created certs @ su_Updated certs @ su_Deleted certs))"
  shows "c \<in> set (su_Created certs @ su_Updated certs) \<Longrightarrow> m' (cert_file_path c) = Some (cd_Data (snd c))"
    "c \<in> set (su_Deleted certs) \<Longrightarrow> m' (cert_file_path c) = None"
    "f \<notin> cert_file_path ` set (su_Created certs @ su_Updated certs @ su_Deleted certs) \<Longrightarrow> m' f = m f"
proof -
  let ?g = "\<lambda>c. FullPath (cd_Path c)"
  have p: "cert_file_path = (\<lambda>x. ?g (snd x))" by (simp add: fun_eq_iff cert_file_path_def)
  note other = fold_writes_other[where g = ?g and v = "\<lambda>_. None"] fold_writes_other[where g = ?g and v = "\<lambda>c. Some (cd_Data c)"]
  have d: "distinct (map (\<lambda>x. ?g (snd x)) (su_Created certs))" "distinct (map (\<lambda>x. ?g (snd x)) (su_Updated certs))" "distinct (map (\<lambda>x. ?g (snd x)) (su_Deleted certs))"
    using assms(2) by (simp_all add: p)
  have ap: "c \<in> set (su_Created certs) \<Longrightarrow> cert_file_path c \<notin> ?g ` set (map snd (su_Updated certs)) \<union> ?g ` set (map snd (su_Deleted certs))"
    "c \<in> set (su_Updated certs) \<Longrightarrow> cert_file_path c \<notin> ?g ` set (map snd (su_Deleted certs))" for c
    using assms(2) by (auto simp: cert_file_path_def)
  show "m' (cert_file_path c) = Some (cd_Data (snd c))" if h: "c \<in> set (su_Created certs @ su_Updated certs)"
  proof (cases "c \<in> set (su_Created certs)")
    case True
    have "m' (cert_file_path c) = fold (\<lambda>(_, c) m. m(?g c := Some (cd_Data c))) (su_Created certs) m (cert_file_path c)"
      using ap(1)[OF True] by (simp add: m'_def other)
    then show ?thesis using fold_writes[OF d(1), of "fst c" "snd c" "\<lambda>c. Some (cd_Data c)"] True by (simp add: cert_file_path_def)
  next
    case False
    then have u: "c \<in> set (su_Updated certs)" using h by simp
    then show ?thesis using ap(2)[OF u] fold_writes[OF d(2), of "fst c" "snd c" "\<lambda>c. Some (cd_Data c)"]
      by (simp add: m'_def cert_file_path_def other)
  qed
  show "m' (cert_file_path c) = None" if "c \<in> set (su_Deleted certs)"
    using fold_writes[OF d(3), of "fst c" "snd c" "\<lambda>_. None"] that by (simp add: m'_def cert_file_path_def)
  show "m' f = m f" if "f \<notin> cert_file_path ` set (su_Created certs @ su_Updated certs @ su_Deleted certs)"
    using that by (simp add: m'_def p image_Un image_image other)
qed

lemma executeRuntimeCertCommands_writes:
  assumes "cert_laws rc cert tx crts" "executeRuntimeCertCommands rc certs crtLists (r, w) = (e, r', w')" "\<not> NeedReload r'"
  shows "cert w' = fold (\<lambda>(_, c) m. m(FullPath (cd_Path c) := None)) (su_Deleted certs)
      (fold (\<lambda>(_, c) m. m(FullPath (cd_Path c) := Some (cd_Data c))) (su_Updated certs)
        (fold (\<lambda>(_, c) m. m(FullPath (cd_Path c) := Some (cd_Data c))) (su_Created certs) (cert w)))"
    "crts w' = fold (\<lambda>(_, l) m. m(FullPath (cl_Path l) := set (cl_Content l))) (su_Updated crtLists) (crts w)"
proof -
  obtain w1 w2 w3 where r: "until_error (\<lambda>(_, c). runtimeCreateCert rc c) (su_Created certs) w = (None, w1)"
      "until_error (\<lambda>(_, c). runtimeUpdateCert rc c) (su_Updated certs) w1 = (None, w2)"
      "until_error (\<lambda>(_, l). runtimeUpdateCrtList rc l) (su_Updated crtLists) w2 = (None, w3)"
      "until_error (\<lambda>(_, c). runtimeDeleteCert rc c) (su_Deleted certs) w3 = (None, w')"
    using executeRuntimeCertCommands_cases(3)[OF assms(2,3)] by blast
  have del: "runtimeDeleteCert rc c w = (None, w') \<Longrightarrow> cert w' = (cert w)(FullPath (cd_Path c) := None) \<and> crts w' = crts w" for c w w'
    unfolding runtimeDeleteCert_def by (rule cert_lawsD(4)[OF assms(1)])
  let ?g = "\<lambda>c. FullPath (cd_Path c)"
  have 1: "cert w1 = fold (\<lambda>(_, c) m. m(?g c := Some (cd_Data c))) (su_Created certs) (cert w) \<and> crts w1 = crts w"
    by (rule writes_ok[OF runtimeCreateCert_ok[OF assms(1)] r(1)])
  have 2: "cert w2 = fold (\<lambda>(_, c) m. m(?g c := Some (cd_Data c))) (su_Updated certs) (cert w1) \<and> crts w2 = crts w1"
    by (rule writes_ok[OF runtimeUpdateCert_ok[OF assms(1)] r(2)])
  have 4: "cert w' = fold (\<lambda>(_, c) m. m(?g c := None)) (su_Deleted certs) (cert w3) \<and> crts w' = crts w3" by (rule writes_ok[OF del r(4)])
  note p = 1 2 lists_ok[OF assms(1) r(3)] 4
  show "cert w' = fold (\<lambda>(_, c) m. m(FullPath (cd_Path c) := None)) (su_Deleted certs)
      (fold (\<lambda>(_, c) m. m(FullPath (cd_Path c) := Some (cd_Data c))) (su_Updated certs)
        (fold (\<lambda>(_, c) m. m(FullPath (cd_Path c) := Some (cd_Data c))) (su_Created certs) (cert w)))"
    "crts w' = fold (\<lambda>(_, l) m. m(FullPath (cl_Path l) := set (cl_Content l))) (su_Updated crtLists) (crts w)"
    using p by simp_all
qed

text \<open>C38: certificates at run time.  An error, and a crt-list that is created or deleted, always ask for a reload.  Without a reload the running HAProxy has
  the new content of every created and updated certificate, none of the deleted ones, and exactly the new content in every
  updated crt-list; other certificates and lists are as before.  A file is changed once in a cycle, and the commands of HAProxy do what
  they document.\<close>

theorem runtime_certificates_synced:
  assumes "cert_laws rc cert tx crts" "processCertificates True rc certs crtLists (r, w) = (e, r', w')"
    and "distinct (map cert_file_path (su_Created certs @ su_Updated certs @ su_Deleted certs))" "distinct (map (\<lambda>l. FullPath (cl_Path (snd l))) (su_Updated crtLists))"
  shows "(e \<noteq> None \<or> su_Created crtLists \<noteq> [] \<or> su_Deleted crtLists \<noteq> [] \<longrightarrow> NeedReload r')
    \<and> (\<not> NeedReload r' \<longrightarrow>
         (\<forall>c \<in> set (su_Created certs @ su_Updated certs). cert w' (cert_file_path c) = Some (cd_Data (snd c)))
         \<and> (\<forall>c \<in> set (su_Deleted certs). cert w' (cert_file_path c) = None)
         \<and> (\<forall>f. f \<notin> cert_file_path ` set (su_Created certs @ su_Updated certs @ su_Deleted certs) \<longrightarrow> cert w' f = cert w f)
         \<and> (\<forall>l \<in> set (su_Updated crtLists). crts w' (FullPath (cl_Path (snd l))) = set (cl_Content (snd l)))
         \<and> (\<forall>f. f \<notin> (\<lambda>l. FullPath (cl_Path (snd l))) ` set (su_Updated crtLists) \<longrightarrow> crts w' f = crts w f))"
proof -
  have ex: "executeRuntimeCertCommands rc certs crtLists (runtimeCertificatesPrechecks crtLists r, w) = (e, r', w')"
    using assms(2) by (simp add: processCertificates_def)
  note ca = executeRuntimeCertCommands_cases[OF ex]
  have reload: "NeedReload r'" if "e \<noteq> None \<or> su_Created crtLists \<noteq> [] \<or> su_Deleted crtLists \<noteq> []"
    using that ca(1,2) by (auto simp: runtimeCertificatesPrechecks_def NeedReload_def SetReload_def Let_def)
  have lists: "crts w' (FullPath (cl_Path (snd l))) = set (cl_Content (snd l))" if "\<not> NeedReload r'" "l \<in> set (su_Updated crtLists)" for l
    using executeRuntimeCertCommands_writes(2)[OF assms(1) ex that(1)] assms(4) that(2)
      fold_writes[of "\<lambda>l. FullPath (cl_Path l)" "su_Updated crtLists" "fst l" "snd l" "\<lambda>l. set (cl_Content l)"] by simp
  have others: "crts w' f = crts w f" if "\<not> NeedReload r'" "f \<notin> (\<lambda>l. FullPath (cl_Path (snd l))) ` set (su_Updated crtLists)" for f
    using executeRuntimeCertCommands_writes(2)[OF assms(1) ex that(1)] that(2)
      fold_writes_other[of f "\<lambda>l. FullPath (cl_Path l)" "su_Updated crtLists" "\<lambda>l. set (cl_Content l)"] by (simp add: image_image)
  have c: "\<not> NeedReload r' \<Longrightarrow> c \<in> set (su_Created certs @ su_Updated certs) \<Longrightarrow> cert w' (cert_file_path c) = Some (cd_Data (snd c))"
    "\<not> NeedReload r' \<Longrightarrow> c \<in> set (su_Deleted certs) \<Longrightarrow> cert w' (cert_file_path c) = None"
    "\<not> NeedReload r' \<Longrightarrow> f \<notin> cert_file_path ` set (su_Created certs @ su_Updated certs @ su_Deleted certs) \<Longrightarrow> cert w' f = cert w f" for c f
    using cert_writes[OF assms(3), where m = "cert w"] executeRuntimeCertCommands_writes(1)[OF assms(1) ex] by simp_all
  show ?thesis using reload lists others c by blast
qed

record ex_haproxy =
  xh_certs :: "(string, string) gomap"
  xh_tx :: "(string \<times> string) option"
  xh_lists :: "(string, string goset) gomap"

text \<open>A HAProxy that always succeeds.\<close>

definition ex_cert_client :: "ex_haproxy cert_client" where
  "ex_cert_client = \<lparr>rc_NewCertEntry = (\<lambda>f w. (None, w\<lparr>xh_certs := mput f [] (xh_certs w)\<rparr>)),
     rc_SetCertEntry = (\<lambda>f d w. (None, w\<lparr>xh_tx := Some (f, d)\<rparr>)),
     rc_CommitCertEntry = (\<lambda>f w. case xh_tx w of Some (g, d) \<Rightarrow> if g = f then (None, w\<lparr>xh_certs := mput f d (xh_certs w), xh_tx := None\<rparr>) else (Some ''no transaction'', w)
        | None \<Rightarrow> (Some ''no transaction'', w)),
     rc_AbortCertEntry = (\<lambda>f w. (None, w\<lparr>xh_tx := None\<rparr>)),
     rc_DeleteCertEntry = (\<lambda>f w. (None, w\<lparr>xh_certs := mdel f (xh_certs w)\<rparr>)),
     rc_ShowCrtListEntries = (\<lambda>l w. (Inr (map fst (map_get_default [] (xh_lists w) l)), w)),
     rc_AddCrtListEntry = (\<lambda>l c w. (None, w\<lparr>xh_lists := mput l (sput c (map_get_default [] (xh_lists w) l)) (xh_lists w)\<rparr>)),
     rc_DeleteCrtListEntry = (\<lambda>l c w. (None, w\<lparr>xh_lists := mput l (mdel c (map_get_default [] (xh_lists w) l)) (xh_lists w)\<rparr>))\<rparr>"

lemma ex_cert_client_laws: "cert_laws ex_cert_client (\<lambda>w. map_of (xh_certs w)) xh_tx (\<lambda>w l. mkeys (map_get_default [] (xh_lists w) l))"
  unfolding cert_laws_def
  by (intro conjI allI impI) (auto simp: ex_cert_client_def map_of_mput map_of_mdel fun_eq_iff list.set_map[of fst] mkeys_def[symmetric] split: if_splits option.splits)

definition ex_cert :: "string \<Rightarrow> string \<Rightarrow> string \<times> certificate_data" where
  "ex_cert f d = (f, NewCertificateData \<lparr>fp_Dir = ''/certs'', fp_FileName = f\<rparr> d)"

theorem runtime_certificates_synced_witness:
  "let certs = \<lparr>su_Created = [ex_cert ''a.pem'' ''A''], su_Updated = [], su_Deleted = [ex_cert ''b.pem'' []]\<rparr>;
       crtLists = \<lparr>su_Created = [], su_Updated = [(''l'', NewCrtListData \<lparr>fp_Dir = ''/lists'', fp_FileName = ''l''\<rparr> [''/certs/a.pem''])], su_Deleted = []\<rparr>;
       w = \<lparr>xh_certs = [(''/certs/b.pem'', ''B'')], xh_tx = None, xh_lists = [(''/lists/l'', [(''/certs/b.pem'', ())])]\<rparr>
   in \<exists>e r' w'. processCertificates True ex_cert_client certs crtLists (reload_Instance, w) = (e, r', w') \<and> \<not> NeedReload r'
     \<and> map_of (xh_certs w') ''/certs/a.pem'' = Some ''A'' \<and> map_of (xh_certs w') ''/certs/b.pem'' = None
     \<and> mkeys (map_get_default [] (xh_lists w') ''/lists/l'') = {''/certs/a.pem''}"
proof -
  define certs where "certs = \<lparr>su_Created = [ex_cert ''a.pem'' ''A''], su_Updated = [], su_Deleted = [ex_cert ''b.pem'' []]\<rparr>"
  define crtLists where "crtLists = \<lparr>su_Created = [], su_Updated = [(''l'', NewCrtListData \<lparr>fp_Dir = ''/lists'', fp_FileName = ''l''\<rparr> [''/certs/a.pem''])], su_Deleted = []\<rparr>"
  define w where "w = \<lparr>xh_certs = [(''/certs/b.pem'', ''B'')], xh_tx = None, xh_lists = [(''/lists/l'', [(''/certs/b.pem'', ())])]\<rparr>"
  obtain e r' w' where run: "processCertificates True ex_cert_client certs crtLists (reload_Instance, w) = (e, r', w')" using prod_cases3 by blast
  have "\<not> NeedReload (fst (snd (processCertificates True ex_cert_client certs crtLists (reload_Instance, w))))"
    unfolding certs_def crtLists_def w_def by code_simp
  then have n: "\<not> NeedReload r'" by (simp add: run)
  have p: "cert_file_path (ex_cert ''a.pem'' ''A'') = ''/certs/a.pem''" "cert_file_path (ex_cert ''b.pem'' []) = ''/certs/b.pem''"
    "FullPath \<lparr>fp_Dir = ''/lists'', fp_FileName = ''l''\<rparr> = ''/lists/l''" by code_simp+
  have d: "distinct (map cert_file_path (su_Created certs @ su_Updated certs @ su_Deleted certs))" "distinct (map (\<lambda>l. FullPath (cl_Path (snd l))) (su_Updated crtLists))"
    by (simp_all add: certs_def crtLists_def p)
  note t = runtime_certificates_synced[OF ex_cert_client_laws run d]
  have "map_of (xh_certs w') ''/certs/a.pem'' = Some ''A''" using t n by (simp add: certs_def p) (simp add: ex_cert_def NewCertificateData_def)
  moreover have "map_of (xh_certs w') ''/certs/b.pem'' = None" using t n by (simp add: certs_def p)
  moreover have "mkeys (map_get_default [] (xh_lists w') ''/lists/l'') = {''/certs/a.pem''}" using t n by (simp add: crtLists_def NewCrtListData_def p)
  ultimately show ?thesis using run n unfolding certs_def[symmetric] crtLists_def[symmetric] w_def[symmetric] Let_def by blast
qed

end
