(* ===== verification/ConfMgr.thy ===== *)
theory ConfMgr
  imports FrontendCycle Servers RuntimeCerts
begin

text \<open>
  \<open>k8s/gate/haproxy/haproxyconf_mgr.go\<close>: a cycle of the configuration manager.  \<open>ComputeDiffs\<close> resets the
  differences and runs the gateways, the certificates, the routes, the maps, the clean-up after the first cycle and the servers.

  Errors of the parts are only logged.  \<open>None\<close> is a panic of one of the parts.
\<close>

record 'w compute_env =
  ce_front :: front_env
  ce_RuntimeUpdate :: bool
  ce_StoreMapsOnDisk :: bool
  ce_io :: "string \<Rightarrow> write_outcome"
  ce_mapClient :: "'w map_client"
  ce_certClient :: "'w cert_client"
  ce_list :: "namespaced_name \<Rightarrow> string + endpoint_slice list"
  ce_execute :: runtime_client

record 'w mgr_state =
  mg_mgr :: conf_mgr
  mg_maps :: maps_storage
  mg_disk :: disk
  mg_reload :: reload_mgr
  mg_runtime :: 'w
  mg_sent :: "string list"
  mg_deleted :: "(string \<times> string) list"

text \<open>What the servers need, out of the store of the controller.\<close>

definition srv_env_of :: "'w compute_env \<Rightarrow> controller_store \<Rightarrow> srv_env" where
  "srv_env_of env st =
     \<lparr>sv_front = ce_front env, sv_services = objects (cs_Services (cst_ClusterStore st)), sv_httpRoutes = HTTPRoutes (cst_GateTree st),
      sv_tlsRoutes = TLSRoutes (cst_GateTree st), sv_epsUpdates = updates (cs_EndpointSlices (cst_ClusterStore st)), sv_list = ce_list env,
      sv_execute = ce_execute env\<rparr>"

definition maps_env_of :: "'w compute_env \<Rightarrow> disk \<Rightarrow> maps_env" where
  "maps_env_of env d = (fv_maps (ce_front env))\<lparr>me_disk := d\<rparr>"

definition front_env_of :: "'w compute_env \<Rightarrow> disk \<Rightarrow> front_env" where
  "front_env_of env d = (ce_front env)\<lparr>fv_maps := maps_env_of env d\<rparr>"

definition cleanupAfterFirstSync :: "conf_mgr \<Rightarrow> conf_mgr" where
  "cleanupAfterFirstSync b =
     (if \<not> fs_flag (cm_firstSync b) then b
      else let c = fold (\<lambda>(feName, _) c. if mhas (fs_frontends (cm_firstSync b)) feName then c else conf_deleteFrontend feName c)
                     (cf_Frontends (cm_conf b)) (cm_conf b);
               c = fold (\<lambda>(beName, _) c. if mhas (fs_backends (cm_firstSync b)) beName then c else conf_deleteBackend beName c) (cf_Backends c) c
           in b\<lparr>cm_conf := c, cm_firstSync := \<lparr>fs_frontends = [], fs_backends = [], fs_flag = False\<rparr>\<rparr>)"

definition start_cycle :: "conf_mgr \<Rightarrow> conf_mgr" where
  "start_cycle b = b\<lparr>cm_conf := resetDiffs (cm_conf b), cm_impacted := no_impact\<rparr>"

definition ComputeDiffs :: "'w compute_env \<Rightarrow> controller_store \<Rightarrow> 'w mgr_state \<Rightarrow> 'w mgr_state option" where
  "ComputeDiffs env st m =
     (let p = fv_params (ce_front env); tree = cst_GateTree st;
          crs = objects (cs_BackendCRs (cst_ClusterStore st)) in
      case processGateways (front_env_of env (mg_disk m)) (Gateways tree) (Gateways (cst_UnmanagedGateTree st)) (start_cycle (mg_mgr m)) (mg_maps m) of
        None \<Rightarrow> None
      | Some (_, b, ms) \<Rightarrow>
          (let (_, r, w) = processCertificates (ce_RuntimeUpdate env) (ce_certClient env) (cst_CertUpdates st) (cst_CrtListUpdates st) (mg_reload m, mg_runtime m) in
           case process_all_routes p crs (HTTPRoutes tree) (TLSRoutes tree) b of
             None \<Rightarrow> None
           | Some b \<Rightarrow>
               (let b = b\<lparr>cm_conf := map_diffs (df_ReloadNeed_update (\<lambda>_. NeedReload r)) (cm_conf b)\<rparr> in
                case processRoutes (maps_env_of env (mg_disk m)) (ce_StoreMapsOnDisk env) (ce_io env) (ce_RuntimeUpdate env) (ce_mapClient env) tree ms w of
                  None \<Rightarrow> None
                | Some res \<Rightarrow>
                    (let b = cleanupAfterFirstSync b in
                     case processEndpointSlices (srv_env_of env st) (cm_owners b) \<lparr>ss_conf = cm_conf b, ss_reload = r, ss_sent = mg_sent m, ss_deleted = mg_deleted m\<rparr> of
                       None \<Rightarrow> None
                     | Some (_, s) \<Rightarrow>
                         Some \<lparr>mg_mgr = b\<lparr>cm_conf := ss_conf s\<rparr>, mg_maps = mr_storage res, mg_disk = mr_disk res, mg_reload = ss_reload s,
                           mg_runtime = mr_runtime res, mg_sent = ss_sent s, mg_deleted = ss_deleted s\<rparr>))))"

definition GetDiffs :: "'w mgr_state \<Rightarrow> haproxy_conf_diffs" where
  "GetDiffs m = cf_diffs (cm_conf (mg_mgr m))"

subsection \<open>Routes leave the frontends alone\<close>

definition routes_frame :: "conf_mgr \<Rightarrow> conf_mgr \<Rightarrow> bool" where
  "routes_frame b b' = ((\<forall>n. fe_view (cm_conf b') n = fe_view (cm_conf b) n) \<and> cm_frontendsOwned b' = cm_frontendsOwned b
     \<and> fs_frontends (cm_firstSync b') = fs_frontends (cm_firstSync b) \<and> fs_flag (cm_firstSync b') = fs_flag (cm_firstSync b))"

lemma routes_frame_refl [simp]: "routes_frame b b"
  by (simp add: routes_frame_def)

lemma routes_frame_trans: "routes_frame a b \<Longrightarrow> routes_frame b c \<Longrightarrow> routes_frame a c"
  by (simp add: routes_frame_def)

lemma routes_frame_fold:
  assumes "\<And>x s. routes_frame (g s) (g (f x s))"
  shows "routes_frame (g s) (g (fold f xs s))"
  by (induction xs arbitrary: s) (auto intro: routes_frame_trans assms)

lemma same_rest_frame: "same_rest b b' \<Longrightarrow> routes_frame b b'"
  by (simp add: same_rest_def routes_frame_def)

lemma marks_frame: "routes_frame b (mark_backend n b')  = routes_frame b b'" "routes_frame b (unmark_backend n b') = routes_frame b b'"
  by (simp_all add: routes_frame_def mark_backend_def unmark_backend_def)

lemma upsert_impacted_frame: "routes_frame b (snd (upsert_impacted p crs x (errs, b)))"
  by (auto simp: upsert_impacted_def Let_def marks_frame split: prod.split option.split)
    (auto simp: routes_frame_def views_apart split: prod.splits dest!: arg_cong[of "upsertBackend _ _" _ snd])

lemma unreference_frame: "routes_frame b (unreference_backend p n b)"
  by (auto simp: unreference_backend_def marks_frame split: option.split prod.split) (simp_all add: routes_frame_def views_apart)

lemma modified_frame: "routes_frame b (snd (processBackendsModifiedInCycle p crs b))"
proof -
  obtain errs b1 where 1: "processBackendsUpsertedInCycle p crs b = (errs, b1)" by fastforce
  have "routes_frame b b1" using routes_frame_fold[where g = snd and f = "upsert_impacted p crs" and s = "([], b)" and xs = "ic_Upserted (cm_impacted b)"] upsert_impacted_frame 1
    by (metis (no_types, lifting) processBackendsUpsertedInCycle_def prod.collapse snd_conv)
  moreover have "routes_frame b1 (processBackendsUnreferencedInCycle p b1)"
    unfolding processBackendsUnreferencedInCycle_def by (rule routes_frame_fold[where g = "\<lambda>b. b"]) (simp add: unreference_frame split: prod.split)
  moreover have "routes_frame b2 (processBackendsDeletedInCycle b2)" for b2
    unfolding processBackendsDeletedInCycle_def by (rule routes_frame_fold[where g = "\<lambda>b. b"]) (auto simp: routes_frame_def unmark_backend_def views_apart split: prod.split)
  ultimately show ?thesis using 1 by (simp add: processBackendsModifiedInCycle_def) (metis routes_frame_trans)
qed

lemma process_routes_frame:
  assumes "mgr_inv b" "wf_map routes" "process_routes p t meta refs crs routes b = Some (e, b')"
  shows "routes_frame b b'"
proof -
  obtain errs b1 where 1: "foldo (process_route p t meta refs) routes ([], b) = Some (errs, b1)"
    and 2: "b' = snd (processBackendsModifiedInCycle p crs (cleanupUnreferencedBackends b1))"
    using assms(3) by (auto simp: process_routes_def split: option.splits prod.splits)
  have r: "same_rest b b1" "mgr_inv b1" using process_route_fold[OF assms(1,2) 1] by blast+
  show ?thesis unfolding 2 using routes_frame_trans[OF same_rest_frame[OF r(1)] routes_frame_trans[OF same_rest_frame[OF cleanupUnreferencedBackends_ok(3)[OF r(2)]] modified_frame]] .
qed

lemma all_routes_frame:
  assumes "merge_named p" "mgr_inv b" "wf_map hs" "wf_map ts" "process_all_routes p crs hs ts b = Some b2"
  shows "routes_frame b b2"
proof -
  obtain e1 b1 e2 where 1: "process_routes p BackendOwnerTypeHTTPRoute hrk_meta (http_rule_refs p) crs hs b = Some (e1, b1)"
    and 2: "process_routes p BackendOwnerTypeTLSRoute trk_meta tls_rule_refs crs ts b1 = Some (e2, b2)"
    by (rule all_routes_steps[OF assms(5)])
  show ?thesis by (rule routes_frame_trans[OF process_routes_frame[OF assms(2,3) 1] process_routes_frame[OF process_routes_ok(1)[OF assms(1,2,3) 1] assms(4) 2]])
qed

subsection \<open>The names marked in the first cycle\<close>

abbreviation marks :: "conf_mgr \<Rightarrow> string set" where
  "marks b \<equiv> mkeys (fs_frontends (cm_firstSync b))"

abbreviation first :: "conf_mgr \<Rightarrow> bool" where
  "first b \<equiv> fs_flag (cm_firstSync b)"

lemma marks_delete_listener:
  assumes "names_ok (fv_names env)" "first b"
  shows "marks (deleteFrontendForListener env gw l b) = marks b - {fname (fv_names env) gw (ls_name l)} \<and> first (deleteFrontendForListener env gw l b)"
  using assms by (simp add: deleteFrontendForListener_def hn_fname unmark_frontend_def deleteFrontend_def)

lemma marks_delete_listeners:
  assumes "names_ok (fv_names env)" "first b"
  shows "marks (fold (deleteFrontendForListener env gw) ls b) = marks b - fname (fv_names env) gw ` ls_name ` set ls \<and> first (fold (deleteFrontendForListener env gw) ls b)"
  using assms(2)
proof (induction ls arbitrary: b)
  case (Cons l ls)
  show ?case using marks_delete_listener[OF assms(1) Cons.prems, of gw l] Cons.IH[of "deleteFrontendForListener env gw l b"] by auto
qed simp

lemma marks_delete_all:
  assumes "names_ok (fv_names env)" "first b" "deleteFrontendForAllListeners env gw g b = (e, b')"
  shows "marks b' = marks b - all_names (fv_names env) gw g \<and> first b'"
  using marks_delete_listeners[OF assms(1,2), of gw] assms(2,3) by (auto simp: deleteFrontendForAllListeners_def all_names_def split: option.splits)

lemma marks_upsert_listeners:
  assumes "names_ok (fv_names env)" "k8s_key gw" "first b" "listeners_ok ls" "upsert_listeners env gw g ls (b, ms) = Some (e, b', ms')"
  shows "marks b' = (marks b \<union> good_names (fv_names env) gw ls) - bad_names (fv_names env) gw ls \<and> first b'"
  using assms(3-)
proof (induction ls arbitrary: b ms)
  case (Cons x ls)
  obtain k l where x: "x = (k, l)" by (cases x)
  let ?n = "fname (fv_names env) gw (ls_name (li_K8sResource l))"
  note n = listeners_ok_Cons[OF assms(1,2) Cons.prems(2)[unfolded x]]
  show ?case
  proof (cases "li_Valid l")
    case False
    let ?b = "deleteFrontendForListener env gw (li_K8sResource l) b"
    have "upsert_listeners env gw g ls (?b, ms) = Some (e, b', ms')" using Cons.prems(3) False by (simp add: x)
    from Cons.IH[OF _ n(1) this] show ?thesis using marks_delete_listener[OF assms(1) Cons.prems(1), of gw "li_K8sResource l"] n False
      by (auto simp: x names_Cons)
  next
    case True
    obtain fe ms1 where fe: "newFrontend env gw g l ms = Some (Inr fe, ms1)" "fe_Name fe = ?n"
      using Cons.prems(3) True newFrontend_name[OF assms(1), of gw g l ms] by (auto simp: x split: option.splits)
    let ?b = "mark_frontend (fe_Name fe) b"
    let ?b1 = "?b\<lparr>cm_conf := snd (upsertFrontend (Some fe) (cm_conf ?b)), cm_frontendsOwned := AddToUpdated gw (fe_Name fe) (cm_frontendsOwned ?b)\<rparr>"
    have nil: "fst (upsertFrontend (Some fe) (cm_conf b)) = None" by (simp add: upsertFrontend_def split: option.split)
    have "upsert_listeners env gw g ls (?b1, ms1) = Some (e, b', ms')"
      using Cons.prems(3) True fe(1) nil by (auto simp: x Let_def split: prod.splits option.splits)
    from Cons.IH[OF _ n(1) this] show ?thesis using Cons.prems(1) n True fe(2) by (auto simp: x names_Cons mark_frontend_def)
  qed
qed simp

lemma marks_gateway:
  assumes "names_ok (fv_names env)" "first b" "gateway_named gw g" "process_gateway env (gw, g) (errs, b, ms) = Some (errs', b', ms')"
  shows "marks b' = (marks b \<union> gw_good (fv_names env) gw g) - gw_bad (fv_names env) gw g \<and> first b'"
proof (cases "serving g")
  case True
  then obtain e where "upsert_listeners env gw g (gw_Listeners (tr_core g)) (b, ms) = Some (e, b', ms')"
    using assms(4) by (auto simp: serving_def process_gateway_def onUpsertedGateway_def upsertFrontends_def)
  then show ?thesis using marks_upsert_listeners[OF assms(1) _ assms(2)] assms(3) True by (auto simp: gateway_named_def gw_good_def gw_bad_def)
next
  case ns: False
  show ?thesis
  proof (cases "TreeStatus (tr_status g) = StatusUnchanged")
    case True
    then show ?thesis using assms(2,4) ns by (auto simp: process_gateway_def gw_good_def gw_bad_def)
  next
    case False
    then obtain e where "deleteFrontendForAllListeners env gw g b = (e, b')"
      using assms(4) ns by (auto simp: serving_def process_gateway_def onUpsertedGateway_def split: status.splits prod.splits)
    from marks_delete_all[OF assms(1,2) this] show ?thesis using ns False by (simp add: gw_good_def gw_bad_def)
  qed
qed

lemma Union_of_Cons:
  assumes "k \<notin> mkeys gws"
  shows "\<Union>(range (good_of names ((k, g) # gws))) = gw_good names k g \<union> \<Union>(range (good_of names gws))"
    "\<Union>(range (bad_of names ((k, g) # gws))) = gw_bad names k g \<union> \<Union>(range (bad_of names gws))"
    "\<Union>(range (all_of names ((k, g) # gws))) = all_names names k g \<union> \<Union>(range (all_of names gws))"
proof -
  have z: "good_of names gws k = {}" "bad_of names gws k = {}" "all_of names gws k = {}"
    using assms by (simp_all add: good_of_def bad_of_def all_of_def map_of_None_mkeys[symmetric])
  have "\<Union>(range (f(k := A))) = A \<union> \<Union>(range f)" if "f k = {}" for f :: "namespaced_name \<Rightarrow> string set" and A using that by auto
  then show "\<Union>(range (good_of names ((k, g) # gws))) = gw_good names k g \<union> \<Union>(range (good_of names gws))"
    "\<Union>(range (bad_of names ((k, g) # gws))) = gw_bad names k g \<union> \<Union>(range (bad_of names gws))"
    "\<Union>(range (all_of names ((k, g) # gws))) = all_names names k g \<union> \<Union>(range (all_of names gws))"
    unfolding of_Cons all_of_simps(1) using z by metis+
qed

lemma marks_managed:
  assumes "names_ok (fv_names env)" "first b" "gws_named gws" "foldo (process_gateway env) gws (errs, b, ms) = Some (errs', b', ms')"
  shows "marks b' = (marks b \<union> \<Union>(range (good_of (fv_names env) gws))) - \<Union>(range (bad_of (fv_names env) gws)) \<and> first b'"
  using assms(2-)
proof (induction gws arbitrary: errs b ms)
  case Nil
  then show ?case by (simp add: good_of_def bad_of_def)
next
  case (Cons x gws)
  obtain k g where x: "x = (k, g)" by (cases x)
  let ?N = "fv_names env"
  obtain errs1 b1 ms1 where 1: "process_gateway env (k, g) (errs, b, ms) = Some (errs1, b1, ms1)"
      "foldo (process_gateway env) gws (errs1, b1, ms1) = Some (errs', b', ms')"
    using Cons.prems(3) by (auto simp: x split: option.splits)
  have wf: "gws_named gws" "k \<notin> mkeys gws" "gateway_named k g" using Cons.prems(2) by (simp_all add: x gws_named_Cons)
  have m: "marks b1 = (marks b \<union> gw_good ?N k g) - gw_bad ?N k g" "first b1" using marks_gateway[OF assms(1) Cons.prems(1) wf(3) 1(1)] by blast+
  have "good_of ?N gws k = {}" using wf(2) by (simp add: good_of_def map_of_None_mkeys[symmetric])
  then have ap: "gw_bad ?N k g \<inter> \<Union>(range (good_of ?N gws)) = {}" by (rule apart[OF assms(1) fname_sets(2)[OF wf(3)] of_sets(1)[OF wf(1)]])
  have ih: "marks b' = (marks b1 \<union> \<Union>(range (good_of ?N gws))) - \<Union>(range (bad_of ?N gws))" "first b'" using Cons.IH[OF m(2) wf(1) 1(2)] by blast+
  have set: "((M \<union> g) - d \<union> G) - D = (M \<union> (g \<union> G)) - (d \<union> D)" if "d \<inter> G = {}" for M g d G D :: "string set" using that by blast
  have "marks b' = (marks b \<union> (gw_good ?N k g \<union> \<Union>(range (good_of ?N gws)))) - (gw_bad ?N k g \<union> \<Union>(range (bad_of ?N gws)))"
    unfolding ih(1) m(1) by (rule set[OF ap])
  then show ?case using ih(2) unfolding x Union_of_Cons[OF wf(2)] by blast
qed

lemma marks_unmanaged:
  assumes "names_ok (fv_names env)" "first b" "gws_named gws" "fold (process_unmanaged env) gws (errs, b) = (errs', b')"
  shows "marks b' = marks b - \<Union>(range (all_of (fv_names env) gws)) \<and> first b'"
  using assms(2-)
proof (induction gws arbitrary: errs b)
  case Nil
  then show ?case by (simp add: all_of_simps)
next
  case (Cons x gws)
  obtain k g where x: "x = (k, g)" by (cases x)
  obtain e b1 where 1: "deleteFrontendForAllListeners env k g b = (e, b1)" "fold (process_unmanaged env) gws (Errors_Add [e] errs, b1) = (errs', b')"
    using Cons.prems(3) by (auto simp: x process_unmanaged_def split: prod.splits)
  have wf: "gws_named gws" "k \<notin> mkeys gws" using Cons.prems(2) by (simp_all add: x gws_named_Cons)
  have m: "marks b1 = marks b - all_names (fv_names env) k g" "first b1" using marks_delete_all[OF assms(1) Cons.prems(1) 1(1)] by blast+
  show ?case using Cons.IH[OF m(2) wf(1) 1(2)] unfolding x Union_of_Cons(3)[OF wf(2)] m(1) by blast
qed

lemma cleanup_firstSync: "cm_firstSync (cleanupFrontendsForGateways b) = cm_firstSync b"
proof -
  have d: "cm_firstSync (fold (\<lambda>(n, _) b. if mhas (map_get_default [] (fo_byUpdatedGateways (cm_frontendsOwned b)) gw) n then b else deleteFrontend gw n b) ns b)
      = cm_firstSync b" for gw ns b
    by (induction ns arbitrary: b) (auto simp: deleteFrontend_def)
  have "cm_firstSync (fold (\<lambda>(gw, _). cleanup_gateway gw) kvs b) = cm_firstSync b" for kvs b
    by (induction kvs arbitrary: b) (auto simp: cleanup_gateway_def d)
  then show ?thesis by (simp add: cleanupFrontendsForGateways_def)
qed

lemma first_deletes:
  "first (deleteFrontendForListener env gw l b) = first b" "first (fold (deleteFrontendForListener env gw) ls b) = first b"
  "deleteFrontendForAllListeners env gw g b = (e, b') \<Longrightarrow> first b' = first b"
proof -
  show d: "first (deleteFrontendForListener env gw l b) = first b" for l b
    by (simp add: deleteFrontendForListener_def unmark_frontend_def deleteFrontend_def split: sum.split)
  show f: "first (fold (deleteFrontendForListener env gw) ls b) = first b" for ls
    by (induction ls arbitrary: b) (simp_all add: d)
  show "deleteFrontendForAllListeners env gw g b = (e, b') \<Longrightarrow> first b' = first b"
    by (auto simp: deleteFrontendForAllListeners_def f split: option.splits)
qed

lemma first_upsert_listeners: "upsert_listeners env gw g ls (b, ms) = Some (e, b', ms') \<Longrightarrow> first b' = first b"
proof (induction ls arbitrary: b ms)
  case (Cons x ls)
  obtain k l where x: "x = (k, l)" by (cases x)
  show ?case
  proof (cases "li_Valid l")
    case False
    then show ?thesis using Cons by (simp add: x first_deletes(1))
  next
    case True
    then show ?thesis using Cons by (fastforce simp: x mark_frontend_def Let_def split: option.splits prod.splits sum.splits if_splits)
  qed
qed simp

lemma first_gateway: "process_gateway env (gw, g) (errs, b, ms) = Some (errs', b', ms') \<Longrightarrow> first b' = first b"
  by (auto simp: process_gateway_def onUpsertedGateway_def upsertFrontends_def dest: first_upsert_listeners first_deletes(3)
      split: status.splits if_splits prod.splits)

lemma first_managed: "foldo (process_gateway env) gws (errs, b, ms) = Some (errs', b', ms') \<Longrightarrow> first b' = first b"
proof (induction gws arbitrary: errs b ms)
  case (Cons x gws)
  obtain k g where x: "x = (k, g)" by (cases x)
  obtain errs1 b1 ms1 where 1: "process_gateway env (k, g) (errs, b, ms) = Some (errs1, b1, ms1)"
      "foldo (process_gateway env) gws (errs1, b1, ms1) = Some (errs', b', ms')"
    using Cons.prems by (auto simp: x split: option.splits)
  show ?case using first_gateway[OF 1(1)] Cons.IH[OF 1(2)] by simp
qed simp

lemma first_unmanaged: "fold (process_unmanaged env) gws (errs, b) = (errs', b') \<Longrightarrow> first b' = first b"
proof (induction gws arbitrary: errs b)
  case (Cons x gws)
  obtain k g where x: "x = (k, g)" by (cases x)
  obtain e b1 where 1: "deleteFrontendForAllListeners env k g b = (e, b1)" "fold (process_unmanaged env) gws (Errors_Add [e] errs, b1) = (errs', b')"
    using Cons.prems by (auto simp: x process_unmanaged_def split: prod.splits)
  show ?case using first_deletes(3)[OF 1(1)] Cons.IH[OF 1(2)] by simp
qed simp

lemma first_processGateways:
  assumes "processGateways env managed unmanaged b ms = Some (e, b', ms')"
  shows "first b' = first b"
proof -
  obtain errs b1 errs' b2 where "foldo (process_gateway env) managed ([], b, ms) = Some (errs, b1, ms')"
      "fold (process_unmanaged env) unmanaged (errs, b1) = (errs', b2)" "cm_firstSync b' = cm_firstSync b2"
    using assms by (auto simp: processGateways_def Let_def cleanup_firstSync split: option.splits prod.splits)
  then show ?thesis using first_managed[of env managed] first_unmanaged[of env unmanaged] by metis
qed

lemma marks_processGateways:
  assumes "names_ok (fv_names env)" "first b" "marks b = {}" "gws_named managed" "gws_named unmanaged" "mkeys managed \<inter> mkeys unmanaged = {}"
    and "processGateways env managed unmanaged b ms = Some (e, b', ms')"
  shows "marks b' = \<Union>(range (good_of (fv_names env) managed))" "first b'"
proof -
  let ?N = "fv_names env"
  obtain errs b1 errs' b2 where fs: "foldo (process_gateway env) managed ([], b, ms) = Some (errs, b1, ms')"
      "fold (process_unmanaged env) unmanaged (errs, b1) = (errs', b2)"
    and b': "cm_firstSync b' = cm_firstSync b2"
    using assms(7) by (auto simp: processGateways_def Let_def cleanup_firstSync split: option.splits prod.splits)
  have 1: "marks b1 = \<Union>(range (good_of ?N managed)) - \<Union>(range (bad_of ?N managed))" "first b1"
    using marks_managed[OF assms(1,2,4) fs(1)] assms(3) by simp_all
  have 2: "marks b2 = marks b1 - \<Union>(range (all_of ?N unmanaged))" "first b2" using marks_unmanaged[OF assms(1) 1(2) assms(5) fs(2)] by blast+
  have "good_of ?N managed g \<inter> (bad_of ?N managed h \<union> all_of ?N unmanaged h) = {}" for g h
  proof (cases "h = g")
    case True
    then show ?thesis using good_of_disjoint[OF assms(1,4,6), of g] by blast
  next
    case False
    then show ?thesis using fname_ranges[OF assms(1) False] of_sets[OF assms(4)] all_of_simps(3)[OF assms(5)] by blast
  qed
  then have "\<Union>(range (good_of ?N managed)) \<inter> (\<Union>(range (bad_of ?N managed)) \<union> \<Union>(range (all_of ?N unmanaged))) = {}" by blast
  then have "marks b2 = \<Union>(range (good_of ?N managed))" unfolding 2(1) 1(1) by blast
  then show "marks b' = \<Union>(range (good_of ?N managed))" "first b'" using 2(2) by (simp_all add: b')
qed

subsection \<open>The rest of the cycle\<close>

lemma fold_delete_frontends:
  assumes "conf_inv c"
  shows "let c' = fold (\<lambda>(n, _) c. if mhas M n then c else conf_deleteFrontend n c) fs c in
    (\<forall>n. mhas (cf_Frontends c') n \<longleftrightarrow> mhas (cf_Frontends c) n \<and> \<not> (n \<in> mkeys fs \<and> \<not> mhas M n)) \<and> conf_inv c' \<and> (conf_exact c0 c \<longrightarrow> conf_exact c0 c')"
  using assms
proof (induction fs arbitrary: c)
  case (Cons x fs)
  obtain k v where x: "x = (k, v)" by (cases x)
  let ?c = "if mhas M k then c else conf_deleteFrontend k c"
  have inv: "conf_inv ?c" using Cons.prems by (simp add: conf_inv_frontends)
  have h: "mhas (cf_Frontends ?c) n \<longleftrightarrow> mhas (cf_Frontends c) n \<and> \<not> (n = k \<and> \<not> mhas M n)" for n
    by (auto simp: conf_ops mhas_iff split: option.split) (auto simp: mhas_iff[symmetric] mhas_def)
  have e: "conf_exact c0 c \<longrightarrow> conf_exact c0 ?c" using conf_exact_step[of c0 c "DeleteFE k"] by simp
  show ?case using Cons.IH[OF inv] h e unfolding Let_def x by auto
qed (simp add: Let_def)

lemma fold_delete_backends:
  assumes "conf_inv c"
  shows "let c' = fold (\<lambda>(n, _) c. if mhas M n then c else conf_deleteBackend n c) bs c in
    cf_Frontends c' = cf_Frontends c \<and> conf_inv c' \<and> (conf_exact c0 c \<longrightarrow> conf_exact c0 c')"
  using assms
proof (induction bs arbitrary: c)
  case (Cons x bs)
  obtain k v where x: "x = (k, v)" by (cases x)
  let ?c = "if mhas M k then c else conf_deleteBackend k c"
  have inv: "conf_inv ?c" using Cons.prems by (simp add: conf_inv_deleteBackend)
  have f: "cf_Frontends ?c = cf_Frontends c" by (simp add: conf_ops split: option.split)
  have e: "conf_exact c0 c \<longrightarrow> conf_exact c0 ?c" using conf_exact_step[of c0 c "DeleteBE k"] by simp
  show ?case using Cons.IH[OF inv] f e unfolding Let_def x by auto
qed (simp add: Let_def)

lemma cleanupAfterFirstSync_ok:
  assumes "conf_inv (cm_conf b)"
  shows "conf_inv (cm_conf (cleanupAfterFirstSync b))" "conf_exact c0 (cm_conf b) \<Longrightarrow> conf_exact c0 (cm_conf (cleanupAfterFirstSync b))"
    "has_frontend (cleanupAfterFirstSync b) n \<longleftrightarrow> has_frontend b n \<and> (first b \<longrightarrow> n \<in> marks b)"
    "cm_owners (cleanupAfterFirstSync b) = cm_owners b" "cm_frontendsOwned (cleanupAfterFirstSync b) = cm_frontendsOwned b" "\<not> first (cleanupAfterFirstSync b)"
proof -
  let ?c = "fold (\<lambda>(n, _) c. if mhas (fs_frontends (cm_firstSync b)) n then c else conf_deleteFrontend n c) (cf_Frontends (cm_conf b)) (cm_conf b)"
  let ?d = "fold (\<lambda>(n, _) c. if mhas (fs_backends (cm_firstSync b)) n then c else conf_deleteBackend n c) (cf_Backends ?c) ?c"
  have e: "cm_conf (cleanupAfterFirstSync b) = (if first b then ?d else cm_conf b)" by (simp add: cleanupAfterFirstSync_def Let_def)
  note f = fold_delete_frontends[OF assms, of "fs_frontends (cm_firstSync b)" "cf_Frontends (cm_conf b)" c0, unfolded Let_def]
  have "conf_inv ?c" using f by blast
  note g = fold_delete_backends[OF this, of "fs_backends (cm_firstSync b)" "cf_Backends ?c" c0, unfolded Let_def]
  show "conf_inv (cm_conf (cleanupAfterFirstSync b))" unfolding e using assms g by simp
  show "conf_exact c0 (cm_conf (cleanupAfterFirstSync b))" if "conf_exact c0 (cm_conf b)" unfolding e using that f g by simp
  have "mhas (cf_Frontends ?c) n \<longleftrightarrow> mhas (cf_Frontends (cm_conf b)) n \<and> n \<in> marks b" using f by (auto simp: mhas_iff)
  then show "has_frontend (cleanupAfterFirstSync b) n \<longleftrightarrow> has_frontend b n \<and> (first b \<longrightarrow> n \<in> marks b)" using g by (simp add: has_frontend_def e)
  show "cm_owners (cleanupAfterFirstSync b) = cm_owners b" "cm_frontendsOwned (cleanupAfterFirstSync b) = cm_frontendsOwned b" "\<not> first (cleanupAfterFirstSync b)"
    by (simp_all add: cleanupAfterFirstSync_def Let_def)
qed

lemma set_service_servers_fold:
  assumes "conf_inv (ss_conf s)"
  shows "let s' = snd (fold (set_service_servers env ups) bs (errs, s)) in
    conf_inv (ss_conf s') \<and> (conf_exact c0 (ss_conf s) \<longrightarrow> conf_exact c0 (ss_conf s')) \<and> (\<forall>n. fe_view (ss_conf s') n = fe_view (ss_conf s) n)"
  using assms
proof (induction bs arbitrary: errs s)
  case (Cons x bs)
  obtain errs1 s1 where 1: "set_service_servers env ups x (errs, s) = (errs1, s1)" by fastforce
  have c: "ss_conf s1 = set_servers (jobs_of_service env ups (ss_conf s) x) (ss_conf s)" using set_service_servers_conf[of env ups x errs s] by (simp add: 1)
  note ok = jobs_ok_service[of env ups "ss_conf s" x]
  have "conf_inv (ss_conf s1)" unfolding c by (rule set_servers_inv[OF Cons.prems ok])
  from Cons.IH[OF this, of errs1] show ?case using set_servers_exact[OF _ ok, of c0 "ss_conf s"] by (simp add: 1 Let_def) (simp add: c set_servers_frontends)
qed (simp add: Let_def)

lemma processEndpointSlices_frame:
  assumes "conf_inv (ss_conf s)" "processEndpointSlices env owners s = Some (e, s')"
  shows "conf_inv (ss_conf s')" "conf_exact c0 (ss_conf s) \<Longrightarrow> conf_exact c0 (ss_conf s')" "fe_view (ss_conf s') n = fe_view (ss_conf s) n"
proof -
  have "s' = s \<or> (\<exists>ups bs. s' = snd (fold (set_service_servers env ups) bs ([], s)))"
    using assms(2) by (auto simp: processEndpointSlices_def split: if_splits option.splits prod.splits) (metis snd_conv)+
  then show "conf_inv (ss_conf s')" "conf_exact c0 (ss_conf s) \<Longrightarrow> conf_exact c0 (ss_conf s')" "fe_view (ss_conf s') n = fe_view (ss_conf s) n"
    using assms(1) set_service_servers_fold[OF assms(1), of env _ _ "[]" c0] by (auto simp: Let_def)
qed

subsection \<open>A whole cycle\<close>

text \<open>What a cycle needs of the store: the keys of the maps are distinct, the gateways and listeners have Kubernetes names.\<close>

definition store_ok :: "controller_store \<Rightarrow> bool" where
  "store_ok st = (gws_named (Gateways (cst_GateTree st)) \<and> gws_named (Gateways (cst_UnmanagedGateTree st))
     \<and> mkeys (Gateways (cst_GateTree st)) \<inter> mkeys (Gateways (cst_UnmanagedGateTree st)) = {}
     \<and> wf_map (HTTPRoutes (cst_GateTree st)) \<and> wf_map (TLSRoutes (cst_GateTree st)))"

definition manager_env_ok :: "'w compute_env \<Rightarrow> bool" where
  "manager_env_ok env = (names_ok (fv_names (ce_front env)) \<and> merge_named (fv_params (ce_front env)))"

abbreviation ce_names :: "'w compute_env \<Rightarrow> hap_names" where
  "ce_names env \<equiv> fv_names (ce_front env)"

definition cycle_inv :: "hap_names \<Rightarrow> conf_mgr \<Rightarrow> bool" where
  "cycle_inv names b = (owned_inv0 names b \<and> owners_inv (cm_owners b))"

lemma ComputeDiffs_parts:
  assumes "ComputeDiffs env st m = Some m'"
  obtains e1 b1 ms r w b2 c s e where
    "processGateways (front_env_of env (mg_disk m)) (Gateways (cst_GateTree st)) (Gateways (cst_UnmanagedGateTree st)) (start_cycle (mg_mgr m)) (mg_maps m) = Some (e1, b1, ms)"
    "process_all_routes (fv_params (ce_front env)) c (HTTPRoutes (cst_GateTree st)) (TLSRoutes (cst_GateTree st)) b1 = Some b2"
    "processEndpointSlices (srv_env_of env st) (cm_owners (cleanupAfterFirstSync (b2\<lparr>cm_conf := map_diffs (df_ReloadNeed_update (\<lambda>_. NeedReload r)) (cm_conf b2)\<rparr>)))
       \<lparr>ss_conf = cm_conf (cleanupAfterFirstSync (b2\<lparr>cm_conf := map_diffs (df_ReloadNeed_update (\<lambda>_. NeedReload r)) (cm_conf b2)\<rparr>)), ss_reload = r, ss_sent = mg_sent m, ss_deleted = mg_deleted m\<rparr>
       = Some (e, s)"
    "mg_mgr m' = (cleanupAfterFirstSync (b2\<lparr>cm_conf := map_diffs (df_ReloadNeed_update (\<lambda>_. NeedReload r)) (cm_conf b2)\<rparr>))\<lparr>cm_conf := ss_conf s\<rparr>"
  using assms by (auto simp: ComputeDiffs_def Let_def split: option.splits prod.splits)

lemma reload_need_views:
  "be_view (map_diffs (df_ReloadNeed_update f) c) n = be_view c n" "fe_view (map_diffs (df_ReloadNeed_update f) c) n = fe_view c n"
  "conf_inv (map_diffs (df_ReloadNeed_update f) c) = conf_inv c"
  by (simp_all add: map_diffs_def be_view_def fe_view_def deref_def conf_inv_def diffs_ok_def)

lemma front_env_names: "fv_names (front_env_of env d) = ce_names env"
  by (simp add: front_env_of_def)

lemma start_cycle_ok:
  assumes "cycle_inv names b"
  shows "owned_inv0 names (start_cycle b)" "owners_inv (cm_owners (start_cycle b))" "cm_impacted (start_cycle b) = no_impact"
    "fe_exact (\<lambda>n. current (fe_view (cm_conf b) n)) (start_cycle b)" "\<not> deleted_view (fe_view (cm_conf (start_cycle b)) n)"
    "exact_view same_backend (current (be_view (cm_conf b) n)) (be_view (cm_conf (start_cycle b)) n)" "\<not> deleted_view (be_view (cm_conf (start_cycle b)) n)"
    "frontends_of names (start_cycle b) gw = frontends_of names b gw" "owned_by (start_cycle b) gw = owned_by b gw" "cm_firstSync (start_cycle b) = cm_firstSync b"
    "has_frontend (start_cycle b) n = has_frontend b n"
  using assms
  by (simp_all add: cycle_inv_def owned_inv0_def start_cycle_def conf_inv_frontends owned_by_def fe_exact_def exact_reset frontends_of_def has_frontend_def)
    (simp_all add: deleted_view_def fe_view_def be_view_def resetDiffs_def no_diffs_def mhas_def)

text \<open>Everything a cycle does to the configuration, in terms of the state after the gateways.\<close>

lemma ComputeDiffs_steps:
  assumes "manager_env_ok env" "store_ok st" "cycle_inv (ce_names env) (mg_mgr m)" "ComputeDiffs env st m = Some m'"
  obtains e1 b1 ms where
    "processGateways (front_env_of env (mg_disk m)) (Gateways (cst_GateTree st)) (Gateways (cst_UnmanagedGateTree st)) (start_cycle (mg_mgr m)) (mg_maps m) = Some (e1, b1, ms)"
    "cycle_inv (ce_names env) (mg_mgr m')" "conf_exact (cm_conf (mg_mgr m)) (cm_conf (mg_mgr m'))"
    "\<And>n. has_frontend (mg_mgr m') n \<longleftrightarrow> has_frontend b1 n \<and> (first b1 \<longrightarrow> n \<in> marks b1)"
    "cm_frontendsOwned (mg_mgr m') = cm_frontendsOwned b1" "\<not> first (mg_mgr m')"
proof -
  let ?b = "mg_mgr m" and ?N = "ce_names env" and ?p = "fv_params (ce_front env)"
  obtain e1 b1 ms r w b2 c s e where 1: "processGateways (front_env_of env (mg_disk m)) (Gateways (cst_GateTree st)) (Gateways (cst_UnmanagedGateTree st)) (start_cycle ?b) (mg_maps m) = Some (e1, b1, ms)"
    and 2: "process_all_routes ?p c (HTTPRoutes (cst_GateTree st)) (TLSRoutes (cst_GateTree st)) b1 = Some b2"
    and 3: "processEndpointSlices (srv_env_of env st) (cm_owners (cleanupAfterFirstSync (b2\<lparr>cm_conf := map_diffs (df_ReloadNeed_update (\<lambda>_. NeedReload r)) (cm_conf b2)\<rparr>)))
       \<lparr>ss_conf = cm_conf (cleanupAfterFirstSync (b2\<lparr>cm_conf := map_diffs (df_ReloadNeed_update (\<lambda>_. NeedReload r)) (cm_conf b2)\<rparr>)), ss_reload = r, ss_sent = mg_sent m, ss_deleted = mg_deleted m\<rparr> = Some (e, s)"
    and m': "mg_mgr m' = (cleanupAfterFirstSync (b2\<lparr>cm_conf := map_diffs (df_ReloadNeed_update (\<lambda>_. NeedReload r)) (cm_conf b2)\<rparr>))\<lparr>cm_conf := ss_conf s\<rparr>"
    by (rule ComputeDiffs_parts[OF assms(4)])
  let ?b3 = "b2\<lparr>cm_conf := map_diffs (df_ReloadNeed_update (\<lambda>_. NeedReload r)) (cm_conf b2)\<rparr>"
  have so: "gws_named (Gateways (cst_GateTree st))" "gws_named (Gateways (cst_UnmanagedGateTree st))" "mkeys (Gateways (cst_GateTree st)) \<inter> mkeys (Gateways (cst_UnmanagedGateTree st)) = {}"
    "wf_map (HTTPRoutes (cst_GateTree st))" "wf_map (TLSRoutes (cst_GateTree st))" using assms(2) by (simp_all add: store_ok_def)
  have eo: "names_ok (fv_names (front_env_of env (mg_disk m)))" "merge_named ?p" using assms(1) by (simp_all add: manager_env_ok_def front_env_names)
  note st0 = start_cycle_ok[OF assms(3)]
  note g = processGateways_weak[OF eo(1) _ so(1,2,3) 1, unfolded front_env_names, OF st0(1)]
  have fe1: "fe_exact (\<lambda>n. current (fe_view (cm_conf ?b) n)) b1" using g(8)[OF st0(4)] st0(5) by blast
  have "mgr_inv b1" using g(1,6,7) st0(2,3) by (simp add: mgr_inv_def owned_inv0_def no_impact_def)
  note inv1 = this
  have be: "exact_view same_backend (current (be_view (cm_conf ?b) n)) (be_view (cm_conf b2) n)" for n
    by (rule all_routes_exact[OF eo(2) inv1 so(4,5) 2]) (simp add: g(5) st0(6,7))
  have inv2: "mgr_inv b2" by (rule all_routes_present(3)[OF eo(2) inv1 so(4,5) 2])
  note fr = all_routes_frame[OF eo(2) inv1 so(4,5) 2, unfolded routes_frame_def]
  have ex3: "conf_exact (cm_conf ?b) (cm_conf ?b3)" and ci3: "conf_inv (cm_conf ?b3)"
    using inv2 be fe1 fr by (simp_all add: conf_exact_def mgr_inv_def reload_need_views fe_exact_def)
  note cl = cleanupAfterFirstSync_ok[OF ci3]
  note sv = processEndpointSlices_frame[OF _ 3, simplified, OF cl(1)]
  have "has_frontend b2 n = has_frontend b1 n" for n using fr unfolding has_frontend_view by simp
  then have h3: "has_frontend ?b3 n = has_frontend b1 n" for n unfolding has_frontend_view by (simp add: reload_need_views)
  have "conf_exact (cm_conf ?b) (cm_conf (mg_mgr m'))" using sv(2) cl(2)[OF ex3] by (simp add: m')
  moreover have "has_frontend (mg_mgr m') n \<longleftrightarrow> has_frontend b1 n \<and> (first b1 \<longrightarrow> n \<in> marks b1)" for n
    using cl(3)[of n] sv(3)[of n] fr h3[of n] unfolding has_frontend_view by (simp add: m')
  moreover have own: "cm_frontendsOwned (mg_mgr m') = cm_frontendsOwned b1" using fr by (simp add: m' cl(5))
  moreover have "cycle_inv ?N (mg_mgr m')"
    using own g(1) sv(1) inv2 by (simp add: cycle_inv_def owned_inv0_def owned_by_def mgr_inv_def) (simp add: m' cl(4))
  moreover have "\<not> first (mg_mgr m')" using cl(6) by (simp add: m')
  ultimately show ?thesis using that 1 by blast
qed

end
