(* ===== verification/ConfCycle.thy ===== *)
theory ConfCycle
  imports ConfMgr
begin

text \<open>
  What a cycle of the configuration manager promises: it returns when the tree can be read (no panic), its differences are exact, the
  first cycle leaves only frontends of the cluster, and every later cycle keeps the frontends in step with the gateways.
\<close>

subsection \<open>When a cycle returns\<close>

text \<open>A route whose parts that a cycle reads are there: its resource, and for HTTP the path of every match with a known type.\<close>

definition has_resource :: "('k, 'r) route \<Rightarrow> bool" where
  "has_resource r = (rt_K8sResource r \<noteq> None \<or> rt_Rules r = [] \<and> route_ptrs r = [])"

definition paths_known :: "http_route \<Rightarrow> bool" where
  "paths_known r = list_all (\<lambda>rule. list_all (match_ok [[]]) (hr_matches (rr_K8sResource rule))) (rt_Rules r)"

definition with_old :: "('c \<Rightarrow> bool) \<Rightarrow> 'c tree_res \<Rightarrow> bool" where
  "with_old ok r = (ok (tr_core r) \<and> (case OldTreeResource (tr_status r) of None \<Rightarrow> True | Some old \<Rightarrow> ok old))"

definition slice_readable :: "endpoint_slice update \<Rightarrow> bool" where
  "slice_readable u = (case Status u of StatusUpserted \<Rightarrow> NewObject u \<noteq> None | StatusDeleted \<Rightarrow> OldObject u \<noteq> None | _ \<Rightarrow> False)"

definition readable :: "controller_store \<Rightarrow> bool" where
  "readable st =
     ((\<forall>(k, g) \<in> set (Gateways (cst_GateTree st)). serving g \<longrightarrow> gw_K8sResource (tr_core g) \<noteq> None)
      \<and> (\<forall>(k, r) \<in> set (HTTPRoutes (cst_GateTree st)). with_old (\<lambda>r. has_resource r \<and> paths_known r) r)
      \<and> (\<forall>(k, r) \<in> set (TLSRoutes (cst_GateTree st)). with_old has_resource r)
      \<and> (\<forall>(k, u) \<in> set (updates (cs_EndpointSlices (cst_ClusterStore st))). slice_readable u))"

lemma foldo_pairs_total:
  assumes "\<And>k x s. (k, x) \<in> set xs \<Longrightarrow> \<exists>s'. f (k, x) s = Some s'"
  shows "\<exists>s'. foldo f xs s = Some s'"
  by (rule foldo_total) (use assms in auto)

lemma match_ok_hosts: "match_ok [[]] mt \<Longrightarrow> match_ok hs mt"
  by (auto simp: match_ok_def split: option.splits)

lemma onUpsertedHTTPRoute_total:
  assumes "has_resource r" "paths_known r" "route_ptrs r \<noteq> []"
  shows "\<exists>ms'. onUpsertedHTTPRoute names hm hosts r ms = Some ms'"
proof -
  obtain k8s where k: "rt_K8sResource r = Some k8s" using assms by (auto simp: has_resource_def)
  have "list_all (\<lambda>rule. list_all (match_ok (hrk_hostnames k8s @ hosts)) (hr_matches (rr_K8sResource rule))) (rt_Rules r)"
    using assms(2) match_ok_hosts by (auto simp: paths_known_def list_all_iff)
  then show ?thesis using onValidHTTPRoute_flat[OF k, of names hm hosts ms] by (auto simp: onUpsertedHTTPRoute_def)
qed

lemma onDeletedHTTPRoute_total:
  assumes "has_resource r" "paths_known r" "route_ptrs r \<noteq> []"
  shows "\<exists>ms'. onDeletedHTTPRoute hm r ms = Some ms'"
proof -
  obtain k8s where k: "rt_K8sResource r = Some k8s" using assms by (auto simp: has_resource_def)
  have "\<exists>s'. (case match_path mt of None \<Rightarrow> None | Some (path, pathType) \<Rightarrow> foldo (write_host hm pathType MDel path) (hrk_hostnames k8s) s) = Some s'"
    if "match_ok [[]] mt" for mt s using that by (auto simp: match_ok_def write_hosts split: option.splits)
  then show ?thesis using assms(2) unfolding onDeletedHTTPRoute_def k option.case
    by (intro foldo_total) (auto simp: paths_known_def list_all_iff)
qed

lemma http_route_total:
  assumes "with_old (\<lambda>r. has_resource r \<and> paths_known r) r"
  shows "\<exists>ms'. clean_http_route env r ms = Some ms'" "\<exists>ms'. fill_http_route env r ms = Some ms'"
proof -
  have cur: "has_resource (tr_core r)" "paths_known (tr_core r)" and old: "OldTreeResource (tr_status r) = Some x \<Longrightarrow> has_resource x \<and> paths_known x" for x
    using assms by (auto simp: with_old_def)
  show "\<exists>ms'. clean_http_route env r ms = Some ms'"
  proof (cases "OldTreeResource (tr_status r)")
    case (Some x)
    show ?thesis unfolding clean_http_route_def Some option.case
    proof (rule foldo_total)
      fix l ms assume "l \<in> set (route_ptrs x)"
      then have "route_ptrs x \<noteq> []" by auto
      then show "\<exists>ms'. (let (hm, ms) = http_maps_of env l ms in onDeletedHTTPRoute hm x ms) = Some ms'"
        using onDeletedHTTPRoute_total[of x] old[OF Some] by (simp add: split_def Let_def)
    qed
  qed (simp add: clean_http_route_def)
  show "\<exists>ms'. fill_http_route env r ms = Some ms'" unfolding fill_http_route_def
  proof (rule foldo_total)
    fix l ms assume "l \<in> set (route_ptrs (tr_core r))"
    then have n: "route_ptrs (tr_core r) \<noteq> []" by auto
    obtain k8s where k: "rt_K8sResource (tr_core r) = Some k8s" using cur(1) n by (auto simp: has_resource_def)
    show "\<exists>ms'. (case rt_K8sResource (tr_core r) of None \<Rightarrow> None | Some k8s \<Rightarrow>
        (let hosts = GetHostnamesForRouteWithListener (ls_hostname (lp_K8sResource l)) (hrk_hostnames k8s); (hm, ms) = http_maps_of env l ms
          in case TreeStatus (tr_status r) of StatusUnchanged \<Rightarrow> Some ms
             | StatusUpserted \<Rightarrow> onUpsertedHTTPRoute (me_names env) hm hosts (tr_core r) ms
             | StatusDeleted \<Rightarrow> onDeletedHTTPRoute hm (tr_core r) ms)) = Some ms'"
      using onDeletedHTTPRoute_total[OF cur n] onUpsertedHTTPRoute_total[OF cur n] by (simp add: k Let_def split_def split: status.split)
  qed
qed

lemma tls_route_total:
  assumes "with_old has_resource r"
  shows "\<exists>ms'. clean_tls_route env r ms = Some ms'" "\<exists>ms'. fill_tls_route env r ms = Some ms'"
proof -
  have cur: "has_resource (tr_core r)" and old: "OldTreeResource (tr_status r) = Some x \<Longrightarrow> has_resource x" for x using assms by (auto simp: with_old_def)
  show "\<exists>ms'. clean_tls_route env r ms = Some ms'"
  proof (cases "OldTreeResource (tr_status r)")
    case (Some x)
    show ?thesis unfolding clean_tls_route_def Some option.case
      by (rule foldo_total) (use old[OF Some] in \<open>auto simp: has_resource_def onDeletedTLSRoute_def split_def Let_def\<close>)
  qed (simp add: clean_tls_route_def)
  show "\<exists>ms'. fill_tls_route env r ms = Some ms'" unfolding fill_tls_route_def
    by (rule foldo_total) (use cur in \<open>auto simp: has_resource_def onDeletedTLSRoute_def onUpsertedTLSRoute_def onValidTLSRouteUpserted_def Let_def split_def split: status.split\<close>)
qed

lemma fillMaps_total:
  assumes "readable st"
  shows "\<exists>ms'. fillMaps env (cst_GateTree st) ms = Some ms'"
proof -
  have h: "with_old (\<lambda>r. has_resource r \<and> paths_known r) r" if "(k, r) \<in> set (HTTPRoutes (cst_GateTree st))" for k r using assms that by (auto simp: readable_def)
  have t: "with_old has_resource r" if "(k, r) \<in> set (TLSRoutes (cst_GateTree st))" for k r using assms that by (auto simp: readable_def)
  obtain ms1 where 1: "foldo (\<lambda>(_, r). clean_http_route env r) (HTTPRoutes (cst_GateTree st)) ms = Some ms1"
    using foldo_pairs_total[of _ "\<lambda>(_, r). clean_http_route env r"] http_route_total(1)[OF h] by (metis case_prod_conv)
  obtain ms2 where 2: "foldo (\<lambda>(_, r). fill_http_route env r) (HTTPRoutes (cst_GateTree st)) ms1 = Some ms2"
    using foldo_pairs_total[of _ "\<lambda>(_, r). fill_http_route env r"] http_route_total(2)[OF h] by (metis case_prod_conv)
  obtain ms3 where 3: "foldo (\<lambda>(_, r). clean_tls_route env r) (TLSRoutes (cst_GateTree st)) ms2 = Some ms3"
    using foldo_pairs_total[of _ "\<lambda>(_, r). clean_tls_route env r"] tls_route_total(1)[OF t] by (metis case_prod_conv)
  obtain ms4 where 4: "foldo (\<lambda>(_, r). fill_tls_route env r) (TLSRoutes (cst_GateTree st)) ms3 = Some ms4"
    using foldo_pairs_total[of _ "\<lambda>(_, r). fill_tls_route env r"] tls_route_total(2)[OF t] by (metis case_prod_conv)
  show ?thesis using 1 2 3 4 by (simp add: fillMaps_def fillMapsForHTTPRoutes_def fillMapsForTLSRoutes_def)
qed

lemma process_route_total:
  assumes "has_resource (tr_core r)"
  shows "\<exists>s'. process_route p t meta refs (k, r) s = Some s'"
proof -
  obtain errs b where s: "s = (errs, b)" by (cases s)
  have "\<exists>x. upsertRouteBackends p t meta refs k (tr_core r) b = Some x"
    using assms by (auto simp: upsertRouteBackends_def has_resource_def Let_def split: option.split prod.split)
  then show ?thesis by (auto simp: s process_route_def onUpsertedRoute_def split: status.split)
qed

lemma process_routes_total:
  assumes "\<And>k r. (k, r) \<in> set routes \<Longrightarrow> has_resource (tr_core r)"
  shows "\<exists>e b'. process_routes p t meta refs crs routes b = Some (e, b')"
proof -
  have "\<exists>s'. foldo (process_route p t meta refs) routes ([], b) = Some s'" by (rule foldo_pairs_total) (rule process_route_total[OF assms])
  then show ?thesis by (auto simp: process_routes_def Let_def split: prod.split)
qed

lemma backends_of_owners_total:
  assumes "\<And>k r. (k, r) \<in> set routes \<Longrightarrow> has_resource (tr_core r)"
  shows "\<exists>m'. backends_of_owners p meta refs routes os beName m = Some m'"
  unfolding backends_of_owners_def
proof (rule foldo_pairs_total)
  fix k x and m :: service_backends
  show "\<exists>m'. (case (k, x) of (k, _) \<Rightarrow> \<lambda>m. case map_of routes k of None \<Rightarrow> Some m | Some r \<Rightarrow> backends_of_route p meta refs beName (tr_core r) m) m = Some m'"
  proof (cases "map_of routes k")
    case (Some r)
    then have "has_resource (tr_core r)" using assms map_of_SomeD by fast
    then show ?thesis using Some by (auto simp: backends_of_route_def has_resource_def Let_def split: option.split)
  qed simp
qed

lemma processEndpointSlices_total:
  assumes "readable st"
  shows "\<exists>e s'. processEndpointSlices (srv_env_of env st) owners s = Some (e, s')"
proof -
  have h: "has_resource (tr_core r)" if "(k, r) \<in> set (HTTPRoutes (cst_GateTree st))" for k r using assms that by (auto simp: readable_def with_old_def)
  have t: "has_resource (tr_core r)" if "(k, r) \<in> set (TLSRoutes (cst_GateTree st))" for k r using assms that by (auto simp: readable_def with_old_def)
  have "\<exists>ups. endpointSliceUpdatedByService (srv_env_of env st) = Some ups"
    unfolding endpointSliceUpdatedByService_def
  proof (rule foldo_pairs_total)
    fix k u and res :: "(namespaced_name, (namespaced_name, endpoint_slice) gomap) gomap"
    assume "(k, u) \<in> set (sv_epsUpdates (srv_env_of env st))"
    then have "slice_readable u" using assms by (auto simp: readable_def srv_env_of_def)
    then show "\<exists>s'. (case (k, u) of (epsKey, eps) \<Rightarrow> \<lambda>res. case (case Status eps of StatusUpserted \<Rightarrow> NewObject eps | StatusDeleted \<Rightarrow> OldObject eps | _ \<Rightarrow> None) of
        None \<Rightarrow> None | Some k8sEps \<Rightarrow> (let updatedSvcKey = NamespacedName (om_namespace (es_meta k8sEps)) (getServiceNameFromEndpointSlice k8sEps)
          in Some (mput updatedSvcKey (mput epsKey k8sEps (map_get_default [] res updatedSvcKey)) res))) res = Some s'"
      by (auto simp: slice_readable_def Let_def split: status.splits)
  qed
  moreover have "\<exists>bs. backendsByService (srv_env_of env st) owners = Some bs"
    unfolding backendsByService_def
    by (rule foldo_pairs_total) (auto simp: srv_env_of_def backendsByServiceForHTTPRoute_def backendsByServiceForTLSRoute_def split: option.split prod.split backend_owner_type.split intro!: backends_of_owners_total h t)
  ultimately show ?thesis by (auto simp: processEndpointSlices_def Let_def split: prod.split)
qed

lemma ComputeDiffs_returns:
  fixes env :: "'w compute_env"
  assumes "readable st"
  shows "\<exists>m'. ComputeDiffs env st m = Some m'"
proof -
  have h: "has_resource (tr_core r)" if "(k, r) \<in> set (HTTPRoutes (cst_GateTree st))" for k r using assms that by (auto simp: readable_def with_old_def)
  have t: "has_resource (tr_core r)" if "(k, r) \<in> set (TLSRoutes (cst_GateTree st))" for k r using assms that by (auto simp: readable_def with_old_def)
  have g: "\<exists>e b ms. processGateways fenv (Gateways (cst_GateTree st)) ug b0 ms0 = Some (e, b, ms)" for fenv ug b0 ms0
    by (rule processGateways_total) (use assms in \<open>auto simp: readable_def\<close>)
  have r: "\<exists>b'. process_all_routes p crs (HTTPRoutes (cst_GateTree st)) (TLSRoutes (cst_GateTree st)) b = Some b'" for p crs b
    using process_routes_total[of "HTTPRoutes (cst_GateTree st)" p BackendOwnerTypeHTTPRoute hrk_meta "http_rule_refs p" crs b, OF h]
      process_routes_total[of "TLSRoutes (cst_GateTree st)" p BackendOwnerTypeTLSRoute trk_meta tls_rule_refs crs, OF t]
    by (fastforce simp: process_all_routes_def processHTTPRoutes_def processTLSRoutes_def)
  have q: "\<exists>res. processRoutes menv sd io ru cl (cst_GateTree st) ms w = Some res" for menv sd io ru ms w and cl :: "'w map_client"
    using fillMaps_total[OF assms, of menv] by (auto simp: processRoutes_def Let_def split: option.split prod.split)
  obtain e1 b1 ms where 1: "processGateways (front_env_of env (mg_disk m)) (Gateways (cst_GateTree st)) (Gateways (cst_UnmanagedGateTree st)) (start_cycle (mg_mgr m)) (mg_maps m) = Some (e1, b1, ms)"
    using g by blast
  obtain e2 rl w where 2: "processCertificates (ce_RuntimeUpdate env) (ce_certClient env) (cst_CertUpdates st) (cst_CrtListUpdates st) (mg_reload m, mg_runtime m) = (e2, rl, w)"
    using prod_cases3 by blast
  obtain b2 where 3: "process_all_routes (fv_params (ce_front env)) (objects (cs_BackendCRs (cst_ClusterStore st))) (HTTPRoutes (cst_GateTree st)) (TLSRoutes (cst_GateTree st)) b1 = Some b2"
    using r by blast
  obtain res where 4: "processRoutes (maps_env_of env (mg_disk m)) (ce_StoreMapsOnDisk env) (ce_io env) (ce_RuntimeUpdate env) (ce_mapClient env) (cst_GateTree st) ms w = Some res"
    using q by blast
  let ?b = "cleanupAfterFirstSync (b2\<lparr>cm_conf := map_diffs (df_ReloadNeed_update (\<lambda>_. NeedReload rl)) (cm_conf b2)\<rparr>)"
  obtain e5 s5 where 5: "processEndpointSlices (srv_env_of env st) (cm_owners ?b) \<lparr>ss_conf = cm_conf ?b, ss_reload = rl, ss_sent = mg_sent m, ss_deleted = mg_deleted m\<rparr> = Some (e5, s5)"
    using processEndpointSlices_total[OF assms] by blast
  show ?thesis unfolding ComputeDiffs_def Let_def 1 2 3 option.case prod.case 4 5 by blast
qed

subsection \<open>The differences\<close>

text \<open>C2: a cycle of the configuration manager.  When the tree can be read, \<open>ComputeDiffs\<close> returns, and its differences are exact: whoever holds the
  sections from before the cycle, from the start-up files or an earlier cycle, and applies the created, the updated and the deleted ones in this order has
  the sections of the new configuration.  The invariant that the next cycle needs holds again.\<close>

theorem compute_diffs_exact:
  assumes "manager_env_ok env" "store_ok st" "readable st" "cycle_inv (ce_names env) (mg_mgr m)"
  shows "\<exists>m'. ComputeDiffs env st m = Some m' \<and> cycle_inv (ce_names env) (mg_mgr m')
    \<and> (\<forall>n. rel_option same_backend (section_after (current (be_view (cm_conf (mg_mgr m)) n)) (be_view (cm_conf (mg_mgr m')) n)) (current (be_view (cm_conf (mg_mgr m')) n)))
    \<and> (\<forall>n. rel_option same_frontend (section_after (current (fe_view (cm_conf (mg_mgr m)) n)) (fe_view (cm_conf (mg_mgr m')) n)) (current (fe_view (cm_conf (mg_mgr m')) n)))"
proof -
  obtain m' where run: "ComputeDiffs env st m = Some m'" using ComputeDiffs_returns[OF assms(3)] by blast
  then have "cycle_inv (ce_names env) (mg_mgr m')" "conf_exact (cm_conf (mg_mgr m)) (cm_conf (mg_mgr m'))"
    using ComputeDiffs_steps[OF assms(1,2,4) run] by blast+
  then show ?thesis using run by (simp add: conf_exact_def exact_view_def agrees_view_def)
qed

subsection \<open>Frontends over the cycles\<close>

text \<open>All frontends are owned, and the first cycle is over.\<close>

definition settled :: "hap_names \<Rightarrow> conf_mgr \<Rightarrow> bool" where
  "settled names b = (owned_inv names b \<and> owners_inv (cm_owners b) \<and> \<not> first b \<and> (\<forall>n. has_frontend b n \<longrightarrow> (\<exists>gw. n \<in> fnames names gw)))"

definition cycle_frontends :: "hap_names \<Rightarrow> controller_store \<Rightarrow> (namespaced_name \<Rightarrow> string set) \<Rightarrow> namespaced_name \<Rightarrow> string set" where
  "cycle_frontends names st F gw = expected_frontends names (Gateways (cst_GateTree st)) (Gateways (cst_UnmanagedGateTree st)) gw (F gw)"

lemma settled_all: "settled names b \<Longrightarrow> has_frontend b n \<longleftrightarrow> (\<exists>gw. n \<in> frontends_of names b gw)"
  by (auto simp: settled_def frontends_of_def)

lemma frontends_of_cong: "(\<And>n. has_frontend b n = has_frontend b' n) \<Longrightarrow> frontends_of names b gw = frontends_of names b' gw"
  by (simp add: frontends_of_def)

lemma owned_by_cong: "cm_frontendsOwned b = cm_frontendsOwned b' \<Longrightarrow> owned_by b gw = owned_by b' gw"
  by (simp add: owned_by_def)

lemma settled_cycle:
  assumes "manager_env_ok env" "store_ok st" "settled (ce_names env) (mg_mgr m)" "ComputeDiffs env st m = Some m'"
  shows "settled (ce_names env) (mg_mgr m')" "frontends_of (ce_names env) (mg_mgr m') = cycle_frontends (ce_names env) st (frontends_of (ce_names env) (mg_mgr m))"
proof -
  let ?N = "ce_names env"
  have ci: "cycle_inv ?N (mg_mgr m)" using assms(3) owned_inv_weak by (auto simp: settled_def cycle_inv_def)
  obtain e1 b1 ms where s: "processGateways (front_env_of env (mg_disk m)) (Gateways (cst_GateTree st)) (Gateways (cst_UnmanagedGateTree st)) (start_cycle (mg_mgr m)) (mg_maps m) = Some (e1, b1, ms)"
    "cycle_inv ?N (mg_mgr m')" "\<And>n. has_frontend (mg_mgr m') n \<longleftrightarrow> has_frontend b1 n \<and> (first b1 \<longrightarrow> n \<in> marks b1)"
    "cm_frontendsOwned (mg_mgr m') = cm_frontendsOwned b1" "\<not> first (mg_mgr m')"
    by (rule ComputeDiffs_steps[OF assms(1,2) ci assms(4)]) blast
  note st0 = start_cycle_ok[OF ci]
  have so: "gws_named (Gateways (cst_GateTree st))" "gws_named (Gateways (cst_UnmanagedGateTree st))" "mkeys (Gateways (cst_GateTree st)) \<inter> mkeys (Gateways (cst_UnmanagedGateTree st)) = {}"
    using assms(2) by (simp_all add: store_ok_def)
  have no: "names_ok (fv_names (front_env_of env (mg_disk m)))" using assms(1) by (simp add: manager_env_ok_def front_env_names)
  have gi: "owned_inv ?N (start_cycle (mg_mgr m))" using assms(3) st0(1,8,9) by (simp add: settled_def owned_inv_def owned_inv0_def)
  note g = processGateways_ok[OF no _ so s(1), unfolded front_env_names, OF gi]
  note w = processGateways_weak[OF no _ so s(1), unfolded front_env_names, OF st0(1)]
  have "first b1 = first (start_cycle (mg_mgr m))" by (rule first_processGateways[OF s(1)])
  then have nf: "\<not> first b1" using assms(3) st0(10) by (simp add: settled_def)
  then have h: "has_frontend (mg_mgr m') n = has_frontend b1 n" for n using s(3)[of n] by simp
  have f: "frontends_of ?N (mg_mgr m') gw = frontends_of ?N b1 gw" for gw by (rule frontends_of_cong) (rule h)
  show "frontends_of ?N (mg_mgr m') = cycle_frontends ?N st (frontends_of ?N (mg_mgr m))"
    by (rule ext) (simp add: f g(2) cycle_frontends_def st0(8))
  have "owned_inv ?N (mg_mgr m')" using g(1) s(2) by (simp add: owned_inv_def cycle_inv_def owned_inv0_def f owned_by_cong[OF s(4)])
  moreover have "\<exists>gw. n \<in> fnames ?N gw" if "has_frontend (mg_mgr m') n" for n
    using that[unfolded h w(3)] of_sets(1)[OF so(1), of ?N] assms(3) st0(11)[of n] by (auto simp: settled_def)
  ultimately show "settled ?N (mg_mgr m')" using s(2,5) by (simp add: settled_def cycle_inv_def)
qed

text \<open>The first cycle.\<close>

lemma first_cycle:
  assumes "manager_env_ok env" "store_ok st" "conf_inv startup" "mg_mgr m = NewHaproxyConfMgr startup" "ComputeDiffs env st m = Some m'"
  shows "settled (ce_names env) (mg_mgr m')" "frontends_of (ce_names env) (mg_mgr m') = good_of (ce_names env) (Gateways (cst_GateTree st))"
proof -
  let ?N = "ce_names env" and ?g = "good_of (ce_names env) (Gateways (cst_GateTree st))"
  have ow: "owned_by (mg_mgr m) gw = {}" for gw by (simp add: assms(4) NewHaproxyConfMgr_def owned_by_def)
  have ci: "cycle_inv ?N (mg_mgr m)" using assms(3) ow
    by (simp add: cycle_inv_def owned_inv0_def) (simp add: assms(4) NewHaproxyConfMgr_def owners_inv_def NewBackendOwners_def)
  obtain e1 b1 ms where s: "processGateways (front_env_of env (mg_disk m)) (Gateways (cst_GateTree st)) (Gateways (cst_UnmanagedGateTree st)) (start_cycle (mg_mgr m)) (mg_maps m) = Some (e1, b1, ms)"
    "cycle_inv ?N (mg_mgr m')" "\<And>n. has_frontend (mg_mgr m') n \<longleftrightarrow> has_frontend b1 n \<and> (first b1 \<longrightarrow> n \<in> marks b1)"
    "cm_frontendsOwned (mg_mgr m') = cm_frontendsOwned b1" "\<not> first (mg_mgr m')"
    by (rule ComputeDiffs_steps[OF assms(1,2) ci assms(5)]) blast
  note st0 = start_cycle_ok[OF ci]
  have so: "gws_named (Gateways (cst_GateTree st))" "gws_named (Gateways (cst_UnmanagedGateTree st))" "mkeys (Gateways (cst_GateTree st)) \<inter> mkeys (Gateways (cst_UnmanagedGateTree st)) = {}"
    using assms(2) by (simp_all add: store_ok_def)
  have no: "names_ok (fv_names (front_env_of env (mg_disk m)))" using assms(1) by (simp add: manager_env_ok_def front_env_names)
  note w = processGateways_weak[OF no _ so s(1), unfolded front_env_names, OF st0(1)]
  have f0: "first (start_cycle (mg_mgr m))" "marks (start_cycle (mg_mgr m)) = {}" by (simp_all add: start_cycle_def assms(4) NewHaproxyConfMgr_def)
  note mk = marks_processGateways[OF no f0 so s(1), unfolded front_env_names]
  have h: "has_frontend (mg_mgr m') n \<longleftrightarrow> n \<in> \<Union>(range ?g)" for n unfolding s(3) w(3) using mk by blast
  have fo: "frontends_of ?N (mg_mgr m') gw = ?g gw" for gw
  proof -
    have "n \<in> frontends_of ?N (mg_mgr m') gw \<longleftrightarrow> n \<in> ?g gw" for n
    proof
      assume n: "n \<in> frontends_of ?N (mg_mgr m') gw"
      then obtain gw' where g': "n \<in> ?g gw'" unfolding frontends_of_def h by blast
      have "gw' = gw" using fname_ranges[of ?N gw' gw] no n g' of_sets(1)[OF so(1), of ?N gw'] by (auto simp: front_env_names frontends_of_def)
      then show "n \<in> ?g gw" using g' by simp
    next
      assume "n \<in> ?g gw"
      then show "n \<in> frontends_of ?N (mg_mgr m') gw" using of_sets(1)[OF so(1), of ?N gw] by (auto simp: frontends_of_def h)
    qed
    then show ?thesis by blast
  qed
  then show "frontends_of ?N (mg_mgr m') = ?g" by (rule ext)
  have "owned_by (mg_mgr m') gw = ?g gw" for gw unfolding owned_by_cong[OF s(4)] w(2) by (simp add: st0(9) ow touched_def)
  then have "owned_inv ?N (mg_mgr m')" using s(2) by (simp add: owned_inv_def cycle_inv_def owned_inv0_def fo)
  then show "settled ?N (mg_mgr m')" using s(2,5) h of_sets(1)[OF so(1), of ?N] by (auto simp: settled_def cycle_inv_def)
qed

lemma later_cycles:
  assumes "manager_env_ok env" "\<forall>st \<in> set sts. store_ok st \<and> readable st" "settled (ce_names env) (mg_mgr m)"
  shows "\<exists>m'. foldo (ComputeDiffs env) sts m = Some m' \<and> settled (ce_names env) (mg_mgr m')
    \<and> frontends_of (ce_names env) (mg_mgr m') = fold (cycle_frontends (ce_names env)) sts (frontends_of (ce_names env) (mg_mgr m))"
  using assms(2,3)
proof (induction sts arbitrary: m)
  case (Cons st sts)
  obtain m1 where 1: "ComputeDiffs env st m = Some m1" using ComputeDiffs_returns[of st env m] Cons.prems(1) by auto
  note s = settled_cycle[OF assms(1) _ Cons.prems(2) 1]
  show ?case using Cons.IH[of m1] Cons.prems(1) s 1 by simp
qed simp


subsection \<open>An example\<close>

definition ex_compute_env :: "unit compute_env" where
  "ex_compute_env = \<lparr>ce_front = ex_front_env, ce_RuntimeUpdate = False, ce_StoreMapsOnDisk = False, ce_io = (\<lambda>_. Written),
     ce_mapClient = \<lparr>mc_ShowMaps = (\<lambda>_. []), mc_DeleteMapEntry = (\<lambda>_ _ w. (None, w)), mc_SetMapEntry = (\<lambda>_ _ _ w. (None, w)), mc_AddMapEntry = (\<lambda>_ _ _ w. (None, w))\<rparr>,
     ce_certClient = \<lparr>rc_NewCertEntry = (\<lambda>_ w. (None, w)), rc_SetCertEntry = (\<lambda>_ _ w. (None, w)), rc_CommitCertEntry = (\<lambda>_ w. (None, w)), rc_AbortCertEntry = (\<lambda>_ w. (None, w)),
       rc_DeleteCertEntry = (\<lambda>_ w. (None, w)), rc_ShowCrtListEntries = (\<lambda>_ w. (Inr [], w)), rc_AddCrtListEntry = (\<lambda>_ _ w. (None, w)), rc_DeleteCrtListEntry = (\<lambda>_ _ w. (None, w))\<rparr>,
     ce_list = (\<lambda>_. Inr []), ce_execute = (\<lambda>_ _. Inr [])\<rparr>"

definition ex_cycle_store :: "gateway tree_res \<Rightarrow> controller_store" where
  "ex_cycle_store g = (empty_controller_store scheme_gvk ''hug'')\<lparr>cst_GateTree := NewGateTree\<lparr>Gateways := [(NamespacedName ''d'' ''g'', g)]\<rparr>\<rparr>"

text \<open>A frontend from the start-up files that no gateway has.\<close>

definition ex_startup :: configuration where
  "ex_startup = conf0\<lparr>cf_Frontends := [(''hug_d_old_l'', \<lparr>fe_Name = ''hug_d_old_l'', fe_From = [], fe_Metadata = [], fe_DefaultBackend = [], fe_Mode = [], fe_ACLList = [],
     fe_TCPRequestRuleList = [], fe_HTTPRequestRuleList = [], fe_BackendSwitchingRuleList = [], fe_Binds = None\<rparr>)]\<rparr>"

definition ex_mgr_state :: "unit mgr_state" where
  "ex_mgr_state = \<lparr>mg_mgr = NewHaproxyConfMgr ex_startup, mg_maps = \<lparr>ms_Maps = [], ms_MapsBaseDir = ''m''\<rparr>, mg_disk = [], mg_reload = reload_Instance, mg_runtime = (),
     mg_sent = [], mg_deleted = []\<rparr>"

definition ex_deleted_gateway :: "gateway tree_res" where
  "ex_deleted_gateway = ex_front_gateway\<lparr>tr_status := \<lparr>OldTreeResource = Some (tr_core ex_front_gateway), TreeStatus = StatusDeleted\<rparr>\<rparr>"

lemma ex_ok:
  "manager_env_ok ex_compute_env" "store_ok (ex_cycle_store ex_front_gateway)" "readable (ex_cycle_store ex_front_gateway)"
  "store_ok (ex_cycle_store ex_deleted_gateway)" "readable (ex_cycle_store ex_deleted_gateway)" "conf_inv ex_startup"
proof -
  have n: "names_ok (fv_names ex_front_env)" by (rule default_names_ok[of _ "''hug''"]) (simp add: ex_front_env_def)
  then show "manager_env_ok ex_compute_env" by (simp add: manager_env_ok_def ex_compute_env_def) (simp add: merge_named_def ex_front_env_def ex_params_def)
  have l: "gw_Listeners (tr_core ex_front_gateway) = [ex_fe_listener ''a'' True, ex_fe_listener ''b'' False]" by (simp add: ex_front_gateway_def Let_def)
  have k: "gw_K8sResource (tr_core ex_front_gateway) = Some (demo_gateway ''g'' [demo_listener ''a'' 80, demo_listener ''b'' 80])"
    by (simp add: ex_front_gateway_def Let_def NewGateway_def new_tree_res_def)
  have g: "gateway_named (NamespacedName ''d'' ''g'') ex_front_gateway" "gateway_named (NamespacedName ''d'' ''g'') ex_deleted_gateway"
    by (simp_all add: gateway_named_def k8s_key_def k8s_name_def listeners_ok_def ex_deleted_gateway_def l ex_fe_listener_def demo_listener_def GetK8sResource_def k demo_gateway_def)
  then show "store_ok (ex_cycle_store ex_front_gateway)" "store_ok (ex_cycle_store ex_deleted_gateway)"
    by (simp_all add: store_ok_def ex_cycle_store_def gws_named_def wf_map_def NewGateTree_def empty_controller_store_def)
  show "readable (ex_cycle_store ex_front_gateway)" "readable (ex_cycle_store ex_deleted_gateway)"
    by (simp_all add: readable_def ex_cycle_store_def NewGateTree_def empty_controller_store_def k ex_deleted_gateway_def empty_cluster_store_def newObjectStoreImpl_def)
  show "conf_inv ex_startup" by (simp add: ex_startup_def conf0_def conf_inv_def ptrs_ok_def no_diffs_def)
qed

lemma ex_start: "mg_mgr ex_mgr_state = NewHaproxyConfMgr ex_startup"
  by (simp add: ex_mgr_state_def)

theorem compute_diffs_exact_witness:
  "\<exists>m'. ComputeDiffs ex_compute_env (ex_cycle_store ex_front_gateway) ex_mgr_state = Some m'
    \<and> rel_option same_frontend (section_after (current (fe_view ex_startup ''hug_d_old_l'')) (fe_view (cm_conf (mg_mgr m')) ''hug_d_old_l''))
        (current (fe_view (cm_conf (mg_mgr m')) ''hug_d_old_l''))"
proof -
  have "cycle_inv (ce_names ex_compute_env) (mg_mgr ex_mgr_state)" using ex_ok(6)
    by (simp add: ex_start cycle_inv_def owned_inv0_def NewHaproxyConfMgr_def owned_by_def owners_inv_def NewBackendOwners_def)
  from compute_diffs_exact[OF ex_ok(1,2,3) this] show ?thesis unfolding ex_start by (auto simp: NewHaproxyConfMgr_def)
qed


end
