(* ===== verification/HaproxyApi.thy ===== *)
theory HaproxyApi
  imports HaproxyConf MapSync ReloadMgr
begin

text \<open>
  \<open>hug/haproxy/api\<close>: the client through which the application edits the HAProxy configuration file in a transaction.

  The library behind it (client-native) is not part of the program: its configuration interface is the argument \<open>api\<close>,
  on a state of its own, and \<open>nc_hash\<close> is the MD5 sum in hexadecimal.  What the library does with the sections is the
  hypothesis \<open>native_laws\<close> of the theory \<open>NativeLaws\<close>.  The set-up of the library (\<open>New\<close>), the runtime
  client and the logger are left out.
\<close>

subsection \<open>The configuration interface of the library\<close>

datatype parser_section = SecFrontends | SecBackends

text \<open>Rules are addressed by their index, binds and servers by their name.  The arguments after the data are the name of the
  parent section and the identifier of the transaction.\<close>

record ('r, 'w) rule_api =
  ra_Get :: "string \<Rightarrow> string \<Rightarrow> 'w \<Rightarrow> string + 'r list"
  ra_Create :: "int \<Rightarrow> 'r \<Rightarrow> string \<Rightarrow> string \<Rightarrow> 'w \<Rightarrow> go_error \<times> 'w"
  ra_Delete :: "int \<Rightarrow> string \<Rightarrow> string \<Rightarrow> 'w \<Rightarrow> go_error \<times> 'w"

record ('b, 'w) child_api =
  ca_Get :: "string \<Rightarrow> string \<Rightarrow> 'w \<Rightarrow> string + 'b list"
  ca_Create :: "'b \<Rightarrow> string \<Rightarrow> string \<Rightarrow> 'w \<Rightarrow> go_error \<times> 'w"
  ca_Edit :: "string \<Rightarrow> 'b \<Rightarrow> string \<Rightarrow> string \<Rightarrow> 'w \<Rightarrow> go_error \<times> 'w"
  ca_Delete :: "string \<Rightarrow> string \<Rightarrow> string \<Rightarrow> 'w \<Rightarrow> go_error \<times> 'w"

record ('s, 'w) section_api =
  sa_List :: "string \<Rightarrow> 'w \<Rightarrow> go_error \<times> 's list"
  sa_Get :: "string \<Rightarrow> string \<Rightarrow> 'w \<Rightarrow> string + 's"
  sa_Create :: "'s \<Rightarrow> string \<Rightarrow> 'w \<Rightarrow> go_error \<times> 'w"
  sa_Edit :: "string \<Rightarrow> 's \<Rightarrow> string \<Rightarrow> 'w \<Rightarrow> go_error \<times> 'w"
  sa_Delete :: "string \<Rightarrow> string \<Rightarrow> 'w \<Rightarrow> go_error \<times> 'w"

record 'w native_api =
  nc_Configuration :: go_error
  nc_GetVersion :: "'w \<Rightarrow> string + int"
  nc_StartTransaction :: "int \<Rightarrow> 'w \<Rightarrow> (string + string) \<times> 'w"
  nc_GetParser :: "string \<Rightarrow> 'w \<Rightarrow> string + string"
  nc_DeleteTransaction :: "string \<Rightarrow> 'w \<Rightarrow> go_error \<times> 'w"
  nc_CommitTransaction :: "string \<Rightarrow> 'w \<Rightarrow> go_error \<times> 'w"
  nc_Frontend :: "(frontend, 'w) section_api"
  nc_Backend :: "(backend, 'w) section_api"
  nc_ACL :: "parser_section \<Rightarrow> (acl, 'w) rule_api"
  nc_HTTPRequestRule :: "parser_section \<Rightarrow> (http_request_rule, 'w) rule_api"
  nc_TCPRequestRule :: "parser_section \<Rightarrow> (tcp_request_rule, 'w) rule_api"
  nc_BackendSwitchingRule :: "(backend_switching_rule, 'w) rule_api"
  nc_Bind :: "parser_section \<Rightarrow> (bind, 'w) child_api"
  nc_Server :: "parser_section \<Rightarrow> (server, 'w) child_api"
  nc_hash :: "string \<Rightarrow> string"

text \<open>\<open>clientNative\<close>, with the state of the library and the reload manager.\<close>

record 'w client_native =
  cn_activeTransaction :: string
  cn_hashAtTransactionStart :: string
  cn_reload :: reload_mgr
  cn_native :: 'w

definition on_native :: "(string \<Rightarrow> 'w \<Rightarrow> go_error \<times> 'w) \<Rightarrow> 'w client_native \<Rightarrow> go_error \<times> 'w client_native" where
  "on_native f c = (let (e, w) = f (cn_activeTransaction c) (cn_native c) in (e, c\<lparr>cn_native := w\<rparr>))"

definition read_native :: "(string \<Rightarrow> 'w \<Rightarrow> 'a) \<Rightarrow> 'w client_native \<Rightarrow> 'a" where
  "read_native f c = f (cn_activeTransaction c) (cn_native c)"

text \<open>Every call first asks the library for its configuration.\<close>

definition with_conf :: "'w native_api \<Rightarrow> ('s \<Rightarrow> go_error \<times> 's) \<Rightarrow> 's \<Rightarrow> go_error \<times> 's" where
  "with_conf api f c = (case nc_Configuration api of Some err \<Rightarrow> (Some err, c) | None \<Rightarrow> f c)"

definition read_conf :: "'w native_api \<Rightarrow> (string + 'a) \<Rightarrow> string + 'a" where
  "read_conf api r = (case nc_Configuration api of Some err \<Rightarrow> Inl err | None \<Rightarrow> r)"

definition or_stop :: "go_error \<times> 's \<Rightarrow> ('s \<Rightarrow> go_error \<times> 's) \<Rightarrow> go_error \<times> 's" where
  "or_stop r f = (case r of (Some e, s) \<Rightarrow> (Some e, s) | (None, s) \<Rightarrow> f s)"

text \<open>A loop that only logs the errors of its steps.\<close>

definition best_effort :: "('a \<Rightarrow> 's \<Rightarrow> go_error \<times> 's) \<Rightarrow> 'a list \<Rightarrow> 's \<Rightarrow> go_error \<times> 's" where
  "best_effort f xs s = (None, fold (\<lambda>x s. snd (f x s)) xs s)"

definition client_SetReload :: "'w client_native \<Rightarrow> 'w client_native" where
  "client_SetReload c = c\<lparr>cn_reload := SetReload (cn_reload c)\<rparr>"

subsection \<open>Rules\<close>

text \<open>The rules of a section are deleted from the last to the first and created again by their index.\<close>

definition rules_delete_all :: "('r, 'w) rule_api \<Rightarrow> string \<Rightarrow> 'w client_native \<Rightarrow> go_error \<times> 'w client_native" where
  "rules_delete_all ra name c =
     (case read_native (ra_Get ra name) c of
        Inl err \<Rightarrow> (Some err, c)
      | Inr rules \<Rightarrow> until_error (\<lambda>index. on_native (ra_Delete ra (int index) name)) (rev [0..<length rules]) c)"

definition ACLsDeleteAll :: "'w native_api \<Rightarrow> parser_section \<Rightarrow> string \<Rightarrow> 'w client_native \<Rightarrow> go_error \<times> 'w client_native" where
  "ACLsDeleteAll api parentType name = with_conf api (rules_delete_all (nc_ACL api parentType) name)"

definition ACLsCreate :: "'w native_api \<Rightarrow> nat \<Rightarrow> parser_section \<Rightarrow> string \<Rightarrow> acl \<Rightarrow> 'w client_native \<Rightarrow> go_error \<times> 'w client_native" where
  "ACLsCreate api index parentType name rule = with_conf api (on_native (ra_Create (nc_ACL api parentType) (int index) rule name))"

definition ACLReplaceAll :: "'w native_api \<Rightarrow> parser_section \<Rightarrow> string \<Rightarrow> acl list \<Rightarrow> 'w client_native \<Rightarrow> go_error \<times> 'w client_native" where
  "ACLReplaceAll api parentType name rules c =
     or_stop (ACLsDeleteAll api parentType name c) (best_effort (\<lambda>(index, rule). ACLsCreate api index parentType name rule) (enumerate 0 rules))"

definition ACLsReplaceAll :: "'w native_api \<Rightarrow> parser_section \<Rightarrow> string \<Rightarrow> acl list \<Rightarrow> 'w client_native \<Rightarrow> go_error \<times> 'w client_native" where
  "ACLsReplaceAll api parentType name rules c =
     or_stop (ACLsDeleteAll api parentType name c) (best_effort (\<lambda>(index, rule). ACLsCreate api index parentType name rule) (enumerate 0 rules))"

definition HTTPRequestDeleteAll :: "'w native_api \<Rightarrow> parser_section \<Rightarrow> string \<Rightarrow> 'w client_native \<Rightarrow> go_error \<times> 'w client_native" where
  "HTTPRequestDeleteAll api parentType name = with_conf api (rules_delete_all (nc_HTTPRequestRule api parentType) name)"

definition HTTPRequestCreate :: "'w native_api \<Rightarrow> nat \<Rightarrow> parser_section \<Rightarrow> string \<Rightarrow> http_request_rule \<Rightarrow> 'w client_native \<Rightarrow> go_error \<times> 'w client_native" where
  "HTTPRequestCreate api index parentType name rule = with_conf api (on_native (ra_Create (nc_HTTPRequestRule api parentType) (int index) rule name))"

definition HTTPRequestReplaceAll :: "'w native_api \<Rightarrow> parser_section \<Rightarrow> string \<Rightarrow> http_request_rule list \<Rightarrow> 'w client_native \<Rightarrow> go_error \<times> 'w client_native" where
  "HTTPRequestReplaceAll api parentType name rules c =
     or_stop (HTTPRequestDeleteAll api parentType name c)
       (best_effort (\<lambda>(index, rule). HTTPRequestCreate api index parentType name rule) (enumerate 0 rules))"

definition TCPRequestDeleteAll :: "'w native_api \<Rightarrow> parser_section \<Rightarrow> string \<Rightarrow> 'w client_native \<Rightarrow> go_error \<times> 'w client_native" where
  "TCPRequestDeleteAll api parentType name = with_conf api (rules_delete_all (nc_TCPRequestRule api parentType) name)"

definition TCPRequestCreate :: "'w native_api \<Rightarrow> nat \<Rightarrow> parser_section \<Rightarrow> string \<Rightarrow> tcp_request_rule \<Rightarrow> 'w client_native \<Rightarrow> go_error \<times> 'w client_native" where
  "TCPRequestCreate api index parentType name rule = with_conf api (on_native (ra_Create (nc_TCPRequestRule api parentType) (int index) rule name))"

definition TCPRequestReplaceAll :: "'w native_api \<Rightarrow> parser_section \<Rightarrow> string \<Rightarrow> tcp_request_rule list \<Rightarrow> 'w client_native \<Rightarrow> go_error \<times> 'w client_native" where
  "TCPRequestReplaceAll api parentType name rules c =
     or_stop (TCPRequestDeleteAll api parentType name c)
       (best_effort (\<lambda>(index, rule). TCPRequestCreate api index parentType name rule) (enumerate 0 rules))"

definition UseBackendDeleteAll :: "'w native_api \<Rightarrow> string \<Rightarrow> 'w client_native \<Rightarrow> go_error \<times> 'w client_native" where
  "UseBackendDeleteAll api name = with_conf api (rules_delete_all (nc_BackendSwitchingRule api) name)"

definition UseBackendCreate :: "'w native_api \<Rightarrow> nat \<Rightarrow> string \<Rightarrow> backend_switching_rule \<Rightarrow> 'w client_native \<Rightarrow> go_error \<times> 'w client_native" where
  "UseBackendCreate api index name rule = with_conf api (on_native (ra_Create (nc_BackendSwitchingRule api) (int index) rule name))"

definition UseBackendReplaceAll :: "'w native_api \<Rightarrow> string \<Rightarrow> backend_switching_rule list \<Rightarrow> 'w client_native \<Rightarrow> go_error \<times> 'w client_native" where
  "UseBackendReplaceAll api name rules c =
     or_stop (UseBackendDeleteAll api name c) (best_effort (\<lambda>(index, rule). UseBackendCreate api index name rule) (enumerate 0 rules))"

subsection \<open>Binds and servers\<close>

definition children_delete_all :: "('b, 'w) child_api \<Rightarrow> ('b \<Rightarrow> string) \<Rightarrow> string \<Rightarrow> 'w client_native \<Rightarrow> go_error \<times> 'w client_native" where
  "children_delete_all ca child_name name c =
     (case read_native (ca_Get ca name) c of
        Inl err \<Rightarrow> (Some err, c)
      | Inr children \<Rightarrow> until_error (\<lambda>b. on_native (ca_Delete ca (child_name b) name)) children c)"

definition BindsGet :: "'w native_api \<Rightarrow> parser_section \<Rightarrow> string \<Rightarrow> 'w client_native \<Rightarrow> string + bind list" where
  "BindsGet api parentType name c = read_conf api (read_native (ca_Get (nc_Bind api parentType) name) c)"

definition BindCreate :: "'w native_api \<Rightarrow> parser_section \<Rightarrow> string \<Rightarrow> bind \<Rightarrow> 'w client_native \<Rightarrow> go_error \<times> 'w client_native" where
  "BindCreate api parentType name b = with_conf api (on_native (ca_Create (nc_Bind api parentType) b name))"

definition BindEdit :: "'w native_api \<Rightarrow> parser_section \<Rightarrow> string \<Rightarrow> bind \<Rightarrow> 'w client_native \<Rightarrow> go_error \<times> 'w client_native" where
  "BindEdit api parentType name b = with_conf api (on_native (ca_Edit (nc_Bind api parentType) (bi_Name b) b name))"

definition BindDelete :: "'w native_api \<Rightarrow> parser_section \<Rightarrow> string \<Rightarrow> string \<Rightarrow> 'w client_native \<Rightarrow> go_error \<times> 'w client_native" where
  "BindDelete api parentType name b = with_conf api (on_native (ca_Delete (nc_Bind api parentType) b name))"

definition BindDeleteAll :: "'w native_api \<Rightarrow> parser_section \<Rightarrow> string \<Rightarrow> 'w client_native \<Rightarrow> go_error \<times> 'w client_native" where
  "BindDeleteAll api parentType name = with_conf api (children_delete_all (nc_Bind api parentType) bi_Name name)"

definition BindReplaceAll :: "'w native_api \<Rightarrow> parser_section \<Rightarrow> string \<Rightarrow> (string, bind) gomap \<Rightarrow> 'w client_native \<Rightarrow> go_error \<times> 'w client_native" where
  "BindReplaceAll api parentType name binds c =
     or_stop (BindDeleteAll api parentType name c) (best_effort (\<lambda>(_, b). BindCreate api parentType name b) binds)"

definition ServersGet :: "'w native_api \<Rightarrow> parser_section \<Rightarrow> string \<Rightarrow> 'w client_native \<Rightarrow> string + server list" where
  "ServersGet api parentType name c = read_conf api (read_native (ca_Get (nc_Server api parentType) name) c)"

definition ServerCreate :: "'w native_api \<Rightarrow> parser_section \<Rightarrow> string \<Rightarrow> server \<Rightarrow> 'w client_native \<Rightarrow> go_error \<times> 'w client_native" where
  "ServerCreate api parentType name s = with_conf api (on_native (ca_Create (nc_Server api parentType) s name))"

definition ServerEdit :: "'w native_api \<Rightarrow> parser_section \<Rightarrow> string \<Rightarrow> server \<Rightarrow> 'w client_native \<Rightarrow> go_error \<times> 'w client_native" where
  "ServerEdit api parentType name s = with_conf api (on_native (ca_Edit (nc_Server api parentType) (hs_Name s) s name))"

definition ServerDelete :: "'w native_api \<Rightarrow> parser_section \<Rightarrow> string \<Rightarrow> string \<Rightarrow> 'w client_native \<Rightarrow> go_error \<times> 'w client_native" where
  "ServerDelete api parentType name s = with_conf api (on_native (ca_Delete (nc_Server api parentType) s name))"

definition ServerDeleteAll :: "'w native_api \<Rightarrow> parser_section \<Rightarrow> string \<Rightarrow> 'w client_native \<Rightarrow> go_error \<times> 'w client_native" where
  "ServerDeleteAll api parentType name = with_conf api (children_delete_all (nc_Server api parentType) hs_Name name)"

definition ServerReplaceAll :: "'w native_api \<Rightarrow> parser_section \<Rightarrow> string \<Rightarrow> (string, server) gomap \<Rightarrow> 'w client_native \<Rightarrow> go_error \<times> 'w client_native" where
  "ServerReplaceAll api parentType name servers c =
     or_stop (ServerDeleteAll api parentType name c) (best_effort (\<lambda>(_, s). ServerCreate api parentType name s) servers)"

subsection \<open>Frontends\<close>

text \<open>\<open>FrontendBase\<close> and \<open>BackendBase\<close>: the section without its lists.\<close>

definition frontend_base :: "frontend \<Rightarrow> frontend" where
  "frontend_base f = f\<lparr>fe_ACLList := [], fe_TCPRequestRuleList := [], fe_HTTPRequestRuleList := [], fe_BackendSwitchingRuleList := [], fe_Binds := None\<rparr>"

definition backend_base :: "backend \<Rightarrow> backend" where
  "backend_base b = b\<lparr>be_ACLList := [], be_HTTPRequestRuleList := [], be_OtherLists := [], be_Servers := None\<rparr>"

definition frontend_lists :: "'w native_api \<Rightarrow> frontend \<Rightarrow> 'w client_native \<Rightarrow> go_error \<times> 'w client_native" where
  "frontend_lists api fe c =
     or_stop (BindReplaceAll api SecFrontends (fe_Name fe) (map_or_empty (fe_Binds fe)) c) (\<lambda>c.
     or_stop (ACLReplaceAll api SecFrontends (fe_Name fe) (fe_ACLList fe) c) (\<lambda>c.
     or_stop (HTTPRequestReplaceAll api SecFrontends (fe_Name fe) (fe_HTTPRequestRuleList fe) c) (\<lambda>c.
     or_stop (TCPRequestReplaceAll api SecFrontends (fe_Name fe) (fe_TCPRequestRuleList fe) c)
       (UseBackendReplaceAll api (fe_Name fe) (fe_BackendSwitchingRuleList fe)))))"

definition FrontendCreate :: "'w native_api \<Rightarrow> frontend \<Rightarrow> 'w client_native \<Rightarrow> go_error \<times> 'w client_native" where
  "FrontendCreate api fe = with_conf api (\<lambda>c.
     let (errCreate, c) = on_native (sa_Create (nc_Frontend api) (frontend_base fe)) c;
         (err, c) = (if errCreate = None then (None, c) else on_native (sa_Edit (nc_Frontend api) (fe_Name fe) fe) c)
     in or_stop (err, c) (\<lambda>c. frontend_lists api fe (client_SetReload c)))"

definition FrontendDelete :: "'w native_api \<Rightarrow> string \<Rightarrow> 'w client_native \<Rightarrow> go_error \<times> 'w client_native" where
  "FrontendDelete api frontendName = with_conf api (\<lambda>c. on_native (sa_Delete (nc_Frontend api) frontendName) (client_SetReload c))"

definition FrontendEdit :: "'w native_api \<Rightarrow> frontend \<Rightarrow> 'w client_native \<Rightarrow> go_error \<times> 'w client_native" where
  "FrontendEdit api fe = with_conf api (\<lambda>c.
     or_stop (on_native (sa_Edit (nc_Frontend api) (fe_Name fe) (frontend_base fe)) c) (\<lambda>c. frontend_lists api fe (client_SetReload c)))"

definition read_binds :: "'w native_api \<Rightarrow> 'w client_native \<Rightarrow> frontend \<Rightarrow> string + frontend" where
  "read_binds api c fe =
     (case read_native (ca_Get (nc_Bind api SecFrontends) (fe_Name fe)) c of
        Inl err \<Rightarrow> Inl err
      | Inr binds \<Rightarrow>
          Inr (if binds = [] then fe else fe\<lparr>fe_Binds := Some (fold (\<lambda>b. mput (bi_Name b) b) binds [])\<rparr>))"

text \<open>The loops over all sections: the first error ends them.\<close>

fun map_until :: "('a \<Rightarrow> 'e + 'b) \<Rightarrow> 'a list \<Rightarrow> 'e + 'b list" where
  "map_until f [] = Inr []"
| "map_until f (x # xs) = (case f x of Inl e \<Rightarrow> Inl e | Inr y \<Rightarrow> (case map_until f xs of Inl e \<Rightarrow> Inl e | Inr ys \<Rightarrow> Inr (y # ys)))"

text \<open>\<open>FrontendsGet\<close> and \<open>BackendsGet\<close> hand out the error of the list together with the sections.\<close>

definition FrontendsGet :: "'w native_api \<Rightarrow> 'w client_native \<Rightarrow> go_error \<times> frontend list" where
  "FrontendsGet api c =
     (case nc_Configuration api of
        Some err \<Rightarrow> (Some err, [])
      | None \<Rightarrow>
          (let (err, fes) = read_native (sa_List (nc_Frontend api)) c
           in case map_until (read_binds api c) fes of Inl e \<Rightarrow> (Some e, []) | Inr fes \<Rightarrow> (err, fes)))"

definition FrontendGet :: "'w native_api \<Rightarrow> string \<Rightarrow> 'w client_native \<Rightarrow> string + frontend" where
  "FrontendGet api frontendName c = read_conf api
     (case read_native (sa_Get (nc_Frontend api) frontendName) c of Inl err \<Rightarrow> Inl err | Inr fe \<Rightarrow> read_binds api c fe)"

subsection \<open>Backends\<close>

definition read_acls :: "'w native_api \<Rightarrow> 'w client_native \<Rightarrow> backend \<Rightarrow> string + backend" where
  "read_acls api c be = map_sum id (\<lambda>acls. be\<lparr>be_ACLList := be_ACLList be @ acls\<rparr>) (read_native (ra_Get (nc_ACL api SecBackends) (be_Name be)) c)"

definition read_http_rules :: "'w native_api \<Rightarrow> 'w client_native \<Rightarrow> backend \<Rightarrow> string + backend" where
  "read_http_rules api c be =
     map_sum id (\<lambda>rules. be\<lparr>be_HTTPRequestRuleList := be_HTTPRequestRuleList be @ rules\<rparr>) (read_native (ra_Get (nc_HTTPRequestRule api SecBackends) (be_Name be)) c)"

definition read_servers :: "'w native_api \<Rightarrow> 'w client_native \<Rightarrow> backend \<Rightarrow> string + backend" where
  "read_servers api c be =
     map_sum id (\<lambda>servers. if servers = [] then be else be\<lparr>be_Servers := Some (fold (\<lambda>s. mput (hs_Name s) s) servers [])\<rparr>)
       (read_native (ca_Get (nc_Server api SecBackends) (be_Name be)) c)"

definition sum_bind :: "'e + 'a \<Rightarrow> ('a \<Rightarrow> 'e + 'b) \<Rightarrow> 'e + 'b" where
  "sum_bind r f = (case r of Inl e \<Rightarrow> Inl e | Inr x \<Rightarrow> f x)"

definition BackendsGet :: "'w native_api \<Rightarrow> 'w client_native \<Rightarrow> go_error \<times> backend list" where
  "BackendsGet api c =
     (case nc_Configuration api of
        Some err \<Rightarrow> (Some err, [])
      | None \<Rightarrow>
          (let (err, bes) = read_native (sa_List (nc_Backend api)) c
           in case sum_bind (map_until (read_acls api c) bes) (\<lambda>bes. sum_bind (map_until (read_http_rules api c) bes) (map_until (read_servers api c))) of
                Inl e \<Rightarrow> (Some e, [])
              | Inr bes \<Rightarrow> (err, bes)))"

definition BackendGet :: "'w native_api \<Rightarrow> string \<Rightarrow> 'w client_native \<Rightarrow> string + backend" where
  "BackendGet api backendName c = read_conf api
     (sum_bind (read_native (sa_Get (nc_Backend api) backendName) c) (\<lambda>be.
      sum_bind (read_acls api c be) (\<lambda>be. sum_bind (read_http_rules api c be) (read_servers api c))))"

definition BackendCreate :: "'w native_api \<Rightarrow> backend \<Rightarrow> 'w client_native \<Rightarrow> go_error \<times> 'w client_native" where
  "BackendCreate api be = with_conf api (\<lambda>c.
     let (errCreate, c) = on_native (sa_Create (nc_Backend api) (backend_base be)) c;
         (err, c) = (if errCreate = None then (None, c) else on_native (sa_Edit (nc_Backend api) (be_Name be) be) c)
     in or_stop (err, c) (\<lambda>c.
        or_stop (ACLReplaceAll api SecBackends (be_Name be) (be_ACLList be) (client_SetReload c)) (\<lambda>c.
        or_stop (HTTPRequestReplaceAll api SecBackends (be_Name be) (be_HTTPRequestRuleList be) c)
          (ServerReplaceAll api SecBackends (be_Name be) (map_or_empty (be_Servers be))))))"

definition BackendDelete :: "'w native_api \<Rightarrow> string \<Rightarrow> 'w client_native \<Rightarrow> go_error \<times> 'w client_native" where
  "BackendDelete api backendName = with_conf api (\<lambda>c. on_native (sa_Delete (nc_Backend api) backendName) (client_SetReload c))"

text \<open>When only the servers changed, an attempted update at run time decides whether a reload is needed.\<close>

definition edit_needs_reload :: "bool \<Rightarrow> reload_mgr \<Rightarrow> bool" where
  "edit_needs_reload onlyServersUpdated r =
     (if onlyServersUpdated then if DynamicUpdateServerStateAttempted r then DynamicUpdateServerStateFailed r else True else True)"

definition BackendEdit :: "'w native_api \<Rightarrow> backend \<Rightarrow> 'w client_native \<Rightarrow> go_error \<times> 'w client_native" where
  "BackendEdit api be = with_conf api (\<lambda>c.
     case BackendGet api (be_Name be) c of
       Inl err \<Rightarrow> (Some err, c)
     | Inr previousBackend \<Rightarrow>
         (let onlyServersUpdated = backend_equal_but_servers previousBackend be in
          or_stop (on_native (sa_Edit (nc_Backend api) (be_Name be) (backend_base be)) c) (\<lambda>c.
          or_stop (ACLReplaceAll api SecBackends (be_Name be) (be_ACLList be) c) (\<lambda>c.
          or_stop (HTTPRequestReplaceAll api SecBackends (be_Name be) (be_HTTPRequestRuleList be) c) (\<lambda>c.
          ServerReplaceAll api SecBackends (be_Name be) (map_or_empty (be_Servers be))
            (if edit_needs_reload onlyServersUpdated (cn_reload c) then client_SetReload c else c))))))"

subsection \<open>Transactions\<close>

definition computeConfigurationHash :: "'w native_api \<Rightarrow> 'w client_native \<Rightarrow> string + string" where
  "computeConfigurationHash api c = map_sum id (nc_hash api) (read_native (nc_GetParser api) c)"

definition APIStartTransaction :: "'w native_api \<Rightarrow> 'w client_native \<Rightarrow> go_error \<times> 'w client_native" where
  "APIStartTransaction api = with_conf api (\<lambda>c.
     let version = (case nc_GetVersion api (cn_native c) of Inl _ \<Rightarrow> 1 | Inr v \<Rightarrow> if v < 1 then 1 else v) in
     case nc_StartTransaction api version (cn_native c) of
       (Inl err, w) \<Rightarrow> (Some err, c\<lparr>cn_native := w\<rparr>)
     | (Inr transactionID, w) \<Rightarrow>
         (let c = c\<lparr>cn_native := w, cn_activeTransaction := transactionID\<rparr> in
          case computeConfigurationHash api c of
            Inl err \<Rightarrow> (Some err, c)
          | Inr hash \<Rightarrow> (None, c\<lparr>cn_hashAtTransactionStart := hash\<rparr>)))"

text \<open>A transaction that changed nothing is dropped.\<close>

definition APIFinalCommitTransaction :: "'w native_api \<Rightarrow> 'w client_native \<Rightarrow> go_error \<times> 'w client_native" where
  "APIFinalCommitTransaction api = with_conf api (\<lambda>c.
     case computeConfigurationHash api c of
       Inl err \<Rightarrow> (Some err, c)
     | Inr hash \<Rightarrow>
         if cn_hashAtTransactionStart c = hash then on_native (nc_DeleteTransaction api) c else on_native (nc_CommitTransaction api) c)"

definition APICommitTransaction :: "'w native_api \<Rightarrow> 'w client_native \<Rightarrow> go_error \<times> 'w client_native" where
  "APICommitTransaction api = with_conf api (\<lambda>c.
     case computeConfigurationHash api c of
       Inl err \<Rightarrow> (Some err, c)
     | Inr hash \<Rightarrow>
         if cn_hashAtTransactionStart c = hash then on_native (nc_DeleteTransaction api) c else on_native (nc_CommitTransaction api) c)"

definition APIDisposeTransaction :: "'w client_native \<Rightarrow> 'w client_native" where
  "APIDisposeTransaction c = c\<lparr>cn_activeTransaction := []\<rparr>"

end
