(* ===== verification/NativeLaws.thy ===== *)
theory NativeLaws
  imports HaproxyApi
begin

text \<open>
  What the library promises about the configuration file, and what the operations of the client then do to a section.

  A file is seen as its sections: the base fields, the lists of rules, and the binds or servers by name.  \<open>tx t w\<close> is the
  content of the transaction \<open>t\<close> and \<open>tx [] w\<close> that of the file itself.  The laws say what the documented operations do on
  data that passes the validation of the models.
\<close>

subsection \<open>Files\<close>

record fe_section =
  sf_base :: frontend
  sf_binds :: "string \<Rightarrow> bind option"
  sf_acls :: "acl list"
  sf_http :: "http_request_rule list"
  sf_tcp :: "tcp_request_rule list"
  sf_switch :: "backend_switching_rule list"

record be_section =
  sb_base :: backend
  sb_acls :: "acl list"
  sb_http :: "http_request_rule list"
  sb_servers :: "string \<Rightarrow> server option"

record conf_file =
  file_fe :: "string \<Rightarrow> fe_section option"
  file_be :: "string \<Rightarrow> be_section option"

text \<open>The section that a model describes.  The other lists of a backend are not written.\<close>

definition fe_written :: "frontend \<Rightarrow> fe_section" where
  "fe_written f = \<lparr>sf_base = frontend_base f, sf_binds = map_of (map_or_empty (fe_Binds f)), sf_acls = fe_ACLList f, sf_http = fe_HTTPRequestRuleList f,
     sf_tcp = fe_TCPRequestRuleList f, sf_switch = fe_BackendSwitchingRuleList f\<rparr>"

definition be_written :: "backend \<Rightarrow> be_section" where
  "be_written b = \<lparr>sb_base = backend_base b, sb_acls = be_ACLList b, sb_http = be_HTTPRequestRuleList b, sb_servers = map_of (map_or_empty (be_Servers b))\<rparr>"

definition on_fe :: "(fe_section \<Rightarrow> fe_section) \<Rightarrow> string \<Rightarrow> conf_file \<Rightarrow> conf_file" where
  "on_fe g n F = F\<lparr>file_fe := (file_fe F)(n := map_option g (file_fe F n))\<rparr>"

definition on_be :: "(be_section \<Rightarrow> be_section) \<Rightarrow> string \<Rightarrow> conf_file \<Rightarrow> conf_file" where
  "on_be g n F = F\<lparr>file_be := (file_be F)(n := map_option g (file_be F n))\<rparr>"

definition put_fe :: "string \<Rightarrow> fe_section option \<Rightarrow> conf_file \<Rightarrow> conf_file" where
  "put_fe n s F = F\<lparr>file_fe := (file_fe F)(n := s)\<rparr>"

definition put_be :: "string \<Rightarrow> be_section option \<Rightarrow> conf_file \<Rightarrow> conf_file" where
  "put_be n s F = F\<lparr>file_be := (file_be F)(n := s)\<rparr>"

subsection \<open>A part of a section\<close>

text \<open>Reading and replacing one part of a section, a list of rules or a map of children.  The client replaces every part in the same way,
  so what it does is shown once for any part.\<close>

locale section_part =
  fixes part_get :: "conf_file \<Rightarrow> string \<Rightarrow> 'p option" and part_put :: "string \<Rightarrow> 'p \<Rightarrow> conf_file \<Rightarrow> conf_file"
  assumes get_put: "part_get F n \<noteq> None \<Longrightarrow> part_get (part_put n p F) n = Some p"
    and put_put: "part_put n p (part_put n q F) = part_put n p F"
    and put_get: "part_get F n = Some p \<Longrightarrow> part_put n p F = F"

abbreviation fe_acls_get where "fe_acls_get F n \<equiv> map_option sf_acls (file_fe F n)"
abbreviation fe_acls_put where "fe_acls_put n p \<equiv> on_fe (sf_acls_update (\<lambda>_. p)) n"
abbreviation fe_http_get where "fe_http_get F n \<equiv> map_option sf_http (file_fe F n)"
abbreviation fe_http_put where "fe_http_put n p \<equiv> on_fe (sf_http_update (\<lambda>_. p)) n"
abbreviation fe_tcp_get where "fe_tcp_get F n \<equiv> map_option sf_tcp (file_fe F n)"
abbreviation fe_tcp_put where "fe_tcp_put n p \<equiv> on_fe (sf_tcp_update (\<lambda>_. p)) n"
abbreviation fe_switch_get where "fe_switch_get F n \<equiv> map_option sf_switch (file_fe F n)"
abbreviation fe_switch_put where "fe_switch_put n p \<equiv> on_fe (sf_switch_update (\<lambda>_. p)) n"
abbreviation fe_binds_get where "fe_binds_get F n \<equiv> map_option sf_binds (file_fe F n)"
abbreviation fe_binds_put where "fe_binds_put n p \<equiv> on_fe (sf_binds_update (\<lambda>_. p)) n"
abbreviation be_acls_get where "be_acls_get F n \<equiv> map_option sb_acls (file_be F n)"
abbreviation be_acls_put where "be_acls_put n p \<equiv> on_be (sb_acls_update (\<lambda>_. p)) n"
abbreviation be_http_get where "be_http_get F n \<equiv> map_option sb_http (file_be F n)"
abbreviation be_http_put where "be_http_put n p \<equiv> on_be (sb_http_update (\<lambda>_. p)) n"
abbreviation be_servers_get where "be_servers_get F n \<equiv> map_option sb_servers (file_be F n)"
abbreviation be_servers_put where "be_servers_put n p \<equiv> on_be (sb_servers_update (\<lambda>_. p)) n"

subsection \<open>The laws\<close>

record validity =
  v_fe :: "frontend \<Rightarrow> bool"
  v_be :: "backend \<Rightarrow> bool"
  v_acl :: "acl \<Rightarrow> bool"
  v_http :: "http_request_rule \<Rightarrow> bool"
  v_tcp :: "tcp_request_rule \<Rightarrow> bool"
  v_switch :: "backend_switching_rule \<Rightarrow> bool"
  v_bind :: "bind \<Rightarrow> bool"
  v_server :: "server \<Rightarrow> bool"

type_synonym 'w tx_view = "string \<Rightarrow> 'w \<Rightarrow> conf_file option"

text \<open>A command that succeeds, leaves the transaction with the content \<open>F'\<close> and the file as it is.\<close>

definition succeeds :: "'w tx_view \<Rightarrow> string \<Rightarrow> 'w \<Rightarrow> go_error \<times> 'w \<Rightarrow> conf_file \<Rightarrow> bool" where
  "succeeds tx t w r F' = (fst r = None \<and> tx t (snd r) = Some F' \<and> tx [] (snd r) = tx [] w)"

definition rule_laws :: "'w tx_view \<Rightarrow> ('r, 'w) rule_api \<Rightarrow> (conf_file \<Rightarrow> string \<Rightarrow> 'r list option) \<Rightarrow> (string \<Rightarrow> 'r list \<Rightarrow> conf_file \<Rightarrow> conf_file)
    \<Rightarrow> ('r \<Rightarrow> bool) \<Rightarrow> bool" where
  "rule_laws tx ra get put valid = (\<forall>t w F n rs. t \<noteq> [] \<longrightarrow> tx t w = Some F \<longrightarrow> get F n = Some rs \<longrightarrow>
     ra_Get ra n t w = Inr rs
     \<and> (\<forall>i < length rs. succeeds tx t w (ra_Delete ra (int i) n t w) (put n (take i rs @ drop (Suc i) rs) F))
     \<and> (\<forall>i r. i \<le> length rs \<longrightarrow> valid r \<longrightarrow> succeeds tx t w (ra_Create ra (int i) r n t w) (put n (take i rs @ r # drop i rs) F)))"

definition child_laws :: "'w tx_view \<Rightarrow> ('b, 'w) child_api \<Rightarrow> ('b \<Rightarrow> string) \<Rightarrow> (conf_file \<Rightarrow> string \<Rightarrow> (string \<Rightarrow> 'b option) option)
    \<Rightarrow> (string \<Rightarrow> (string \<Rightarrow> 'b option) \<Rightarrow> conf_file \<Rightarrow> conf_file) \<Rightarrow> ('b \<Rightarrow> bool) \<Rightarrow> bool" where
  "child_laws tx ca name get put valid = (\<forall>t w F n m. t \<noteq> [] \<longrightarrow> tx t w = Some F \<longrightarrow> get F n = Some m \<longrightarrow>
     (\<exists>bs. ca_Get ca n t w = Inr bs \<and> distinct (map name bs) \<and> m = map_of (map (\<lambda>b. (name b, b)) bs))
     \<and> (\<forall>k \<in> dom m. succeeds tx t w (ca_Delete ca k n t w) (put n (m(k := None)) F))
     \<and> (\<forall>b. name b \<notin> dom m \<longrightarrow> valid b \<longrightarrow> succeeds tx t w (ca_Create ca b n t w) (put n (m(name b \<mapsto> b)) F)))"

definition frontend_laws :: "'w tx_view \<Rightarrow> (frontend, 'w) section_api \<Rightarrow> (frontend \<Rightarrow> bool) \<Rightarrow> bool" where
  "frontend_laws tx sa valid = (\<forall>t w F f. t \<noteq> [] \<longrightarrow> tx t w = Some F \<longrightarrow>
     (valid f \<longrightarrow> file_fe F (fe_Name f) = None \<longrightarrow>
        succeeds tx t w (sa_Create sa f t w) (put_fe (fe_Name f) (Some (fe_written (frontend_base f))) F))
     \<and> (file_fe F (fe_Name f) \<noteq> None \<longrightarrow> fst (sa_Create sa f t w) \<noteq> None \<and> tx t (snd (sa_Create sa f t w)) = Some F \<and> tx [] (snd (sa_Create sa f t w)) = tx [] w)
     \<and> (valid f \<longrightarrow> file_fe F (fe_Name f) \<noteq> None \<longrightarrow>
        succeeds tx t w (sa_Edit sa (fe_Name f) f t w) (on_fe (sf_base_update (\<lambda>_. frontend_base f)) (fe_Name f) F))
     \<and> (\<forall>n. file_fe F n \<noteq> None \<longrightarrow> succeeds tx t w (sa_Delete sa n t w) (put_fe n None F)))"

definition backend_laws :: "'w tx_view \<Rightarrow> (backend, 'w) section_api \<Rightarrow> (backend \<Rightarrow> bool) \<Rightarrow> bool" where
  "backend_laws tx sa valid = (\<forall>t w F b. t \<noteq> [] \<longrightarrow> tx t w = Some F \<longrightarrow>
     (valid b \<longrightarrow> file_be F (be_Name b) = None \<longrightarrow>
        succeeds tx t w (sa_Create sa b t w) (put_be (be_Name b) (Some (be_written (backend_base b))) F))
     \<and> (file_be F (be_Name b) \<noteq> None \<longrightarrow> fst (sa_Create sa b t w) \<noteq> None \<and> tx t (snd (sa_Create sa b t w)) = Some F \<and> tx [] (snd (sa_Create sa b t w)) = tx [] w)
     \<and> (valid b \<longrightarrow> file_be F (be_Name b) \<noteq> None \<longrightarrow>
        succeeds tx t w (sa_Edit sa (be_Name b) b t w) (on_be (sb_base_update (\<lambda>_. backend_base b)) (be_Name b) F))
     \<and> (\<forall>n s. file_be F n = Some s \<longrightarrow> succeeds tx t w (sa_Delete sa n t w) (put_be n None F) \<and> sa_Get sa n t w = Inr (sb_base s) \<and> be_Name (sb_base s) = n \<and> backend_base (sb_base s) = sb_base s))"

text \<open>Transactions: a new one is a copy of the file, a commit makes it the file, and a failure leaves the file alone.  The text of a
  transaction determines its content; \<open>texts\<close> are the texts that occur, on which the hash has no collision.\<close>

definition transaction_laws :: "'w tx_view \<Rightarrow> 'w native_api \<Rightarrow> string set \<Rightarrow> bool" where
  "transaction_laws tx api texts = (nc_Configuration api = None \<and> inj_on (nc_hash api) texts
     \<and> (\<forall>v w t w'. nc_StartTransaction api v w = (Inr t, w') \<longrightarrow> t \<noteq> [] \<and> tx t w' = tx [] w)
     \<and> (\<forall>v w. tx [] (snd (nc_StartTransaction api v w)) = tx [] w)
     \<and> (\<forall>t w s. nc_GetParser api t w = Inr s \<longrightarrow> s \<in> texts)
     \<and> (\<forall>t w w' s. nc_GetParser api t w = Inr s \<longrightarrow> nc_GetParser api t w' = Inr s \<longrightarrow> tx t w = tx t w')
     \<and> (\<forall>t w. t \<noteq> [] \<longrightarrow> tx [] (snd (nc_DeleteTransaction api t w)) = tx [] w)
     \<and> (\<forall>t w. t \<noteq> [] \<longrightarrow> tx [] (snd (nc_CommitTransaction api t w)) = (if fst (nc_CommitTransaction api t w) = None then tx t w else tx [] w)))"

definition native_laws :: "'w tx_view \<Rightarrow> 'w native_api \<Rightarrow> string set \<Rightarrow> validity \<Rightarrow> bool" where
  "native_laws tx api texts V =
     (transaction_laws tx api texts \<and> frontend_laws tx (nc_Frontend api) (v_fe V) \<and> backend_laws tx (nc_Backend api) (v_be V)
      \<and> rule_laws tx (nc_ACL api SecFrontends) fe_acls_get fe_acls_put (v_acl V) \<and> rule_laws tx (nc_ACL api SecBackends) be_acls_get be_acls_put (v_acl V)
      \<and> rule_laws tx (nc_HTTPRequestRule api SecFrontends) fe_http_get fe_http_put (v_http V)
      \<and> rule_laws tx (nc_HTTPRequestRule api SecBackends) be_http_get be_http_put (v_http V)
      \<and> rule_laws tx (nc_TCPRequestRule api SecFrontends) fe_tcp_get fe_tcp_put (v_tcp V)
      \<and> rule_laws tx (nc_BackendSwitchingRule api) fe_switch_get fe_switch_put (v_switch V)
      \<and> child_laws tx (nc_Bind api SecFrontends) bi_Name fe_binds_get fe_binds_put (v_bind V)
      \<and> child_laws tx (nc_Server api SecBackends) hs_Name be_servers_get be_servers_put (v_server V))"

lemma native_lawsD:
  assumes "native_laws tx api texts V"
  shows "transaction_laws tx api texts" "frontend_laws tx (nc_Frontend api) (v_fe V)" "backend_laws tx (nc_Backend api) (v_be V)"
    "rule_laws tx (nc_ACL api SecFrontends) fe_acls_get fe_acls_put (v_acl V)" "rule_laws tx (nc_ACL api SecBackends) be_acls_get be_acls_put (v_acl V)"
    "rule_laws tx (nc_HTTPRequestRule api SecFrontends) fe_http_get fe_http_put (v_http V)"
    "rule_laws tx (nc_HTTPRequestRule api SecBackends) be_http_get be_http_put (v_http V)"
    "rule_laws tx (nc_TCPRequestRule api SecFrontends) fe_tcp_get fe_tcp_put (v_tcp V)"
    "rule_laws tx (nc_BackendSwitchingRule api) fe_switch_get fe_switch_put (v_switch V)"
    "child_laws tx (nc_Bind api SecFrontends) bi_Name fe_binds_get fe_binds_put (v_bind V)"
    "child_laws tx (nc_Server api SecBackends) hs_Name be_servers_get be_servers_put (v_server V)"
  using assms unfolding native_laws_def by blast+

lemma native_configuration: "native_laws tx api texts V \<Longrightarrow> nc_Configuration api = None"
  unfolding native_laws_def transaction_laws_def by blast

lemma transaction_lawsD:
  assumes "transaction_laws tx api texts"
  shows "inj_on (nc_hash api) texts" "nc_StartTransaction api v w = (Inr t, w') \<Longrightarrow> t \<noteq> [] \<and> tx t w' = tx [] w"
    "tx [] (snd (nc_StartTransaction api v w)) = tx [] w" "nc_GetParser api t w = Inr s \<Longrightarrow> s \<in> texts"
    "nc_GetParser api t w = Inr s \<Longrightarrow> nc_GetParser api t w' = Inr s \<Longrightarrow> tx t w = tx t w'"
    "t \<noteq> [] \<Longrightarrow> tx [] (snd (nc_DeleteTransaction api t w)) = tx [] w"
    "t \<noteq> [] \<Longrightarrow> tx [] (snd (nc_CommitTransaction api t w)) = (if fst (nc_CommitTransaction api t w) = None then tx t w else tx [] w)"
proof -
  note A = assms[unfolded transaction_laws_def, THEN conjunct2]
  show "inj_on (nc_hash api) texts" by (rule A[THEN conjunct1])
  note A2 = A[THEN conjunct2]
  show "nc_StartTransaction api v w = (Inr t, w') \<Longrightarrow> t \<noteq> [] \<and> tx t w' = tx [] w" by (rule A2[THEN conjunct1, rule_format])
  note A3 = A2[THEN conjunct2]
  show "tx [] (snd (nc_StartTransaction api v w)) = tx [] w" by (rule A3[THEN conjunct1, rule_format])
  note A4 = A3[THEN conjunct2]
  show "nc_GetParser api t w = Inr s \<Longrightarrow> s \<in> texts" by (rule A4[THEN conjunct1, rule_format])
  note A5 = A4[THEN conjunct2]
  show "nc_GetParser api t w = Inr s \<Longrightarrow> nc_GetParser api t w' = Inr s \<Longrightarrow> tx t w = tx t w'" by (rule A5[THEN conjunct1, rule_format])
  note A6 = A5[THEN conjunct2]
  show "t \<noteq> [] \<Longrightarrow> tx [] (snd (nc_DeleteTransaction api t w)) = tx [] w" by (rule A6[THEN conjunct1, rule_format])
  show "t \<noteq> [] \<Longrightarrow> tx [] (snd (nc_CommitTransaction api t w)) = (if fst (nc_CommitTransaction api t w) = None then tx t w else tx [] w)"
    by (rule A6[THEN conjunct2, rule_format])
qed

lemma rule_lawsD:
  assumes "rule_laws tx ra get put valid" "t \<noteq> []" "tx t w = Some F" "get F n = Some rs"
  shows "ra_Get ra n t w = Inr rs" "i < length rs \<Longrightarrow> succeeds tx t w (ra_Delete ra (int i) n t w) (put n (take i rs @ drop (Suc i) rs) F)"
    "i \<le> length rs \<Longrightarrow> valid r \<Longrightarrow> succeeds tx t w (ra_Create ra (int i) r n t w) (put n (take i rs @ r # drop i rs) F)"
  using assms unfolding rule_laws_def by blast+

lemma child_lawsD:
  assumes "child_laws tx ca name get put valid" "t \<noteq> []" "tx t w = Some F" "get F n = Some m"
  shows "\<exists>bs. ca_Get ca n t w = Inr bs \<and> distinct (map name bs) \<and> m = map_of (map (\<lambda>b. (name b, b)) bs)"
    "m k = Some x \<Longrightarrow> succeeds tx t w (ca_Delete ca k n t w) (put n (m(k := None)) F)"
    "m (name b) = None \<Longrightarrow> valid b \<Longrightarrow> succeeds tx t w (ca_Create ca b n t w) (put n (m(name b \<mapsto> b)) F)"
  using assms unfolding child_laws_def by blast+

lemma frontend_lawsD:
  assumes "frontend_laws tx sa valid" "t \<noteq> []" "tx t w = Some F"
  shows "valid f \<Longrightarrow> file_fe F (fe_Name f) = None \<Longrightarrow> succeeds tx t w (sa_Create sa f t w) (put_fe (fe_Name f) (Some (fe_written (frontend_base f))) F)"
    "file_fe F (fe_Name f) = Some s \<Longrightarrow> fst (sa_Create sa f t w) \<noteq> None \<and> tx t (snd (sa_Create sa f t w)) = Some F \<and> tx [] (snd (sa_Create sa f t w)) = tx [] w"
    "valid f \<Longrightarrow> file_fe F (fe_Name f) = Some s \<Longrightarrow> succeeds tx t w (sa_Edit sa (fe_Name f) f t w) (on_fe (sf_base_update (\<lambda>_. frontend_base f)) (fe_Name f) F)"
    "file_fe F n = Some s \<Longrightarrow> succeeds tx t w (sa_Delete sa n t w) (put_fe n None F)"
  using assms unfolding frontend_laws_def by blast+

lemma backend_lawsD:
  assumes "backend_laws tx sa valid" "t \<noteq> []" "tx t w = Some F"
  shows "valid b \<Longrightarrow> file_be F (be_Name b) = None \<Longrightarrow> succeeds tx t w (sa_Create sa b t w) (put_be (be_Name b) (Some (be_written (backend_base b))) F)"
    "file_be F (be_Name b) = Some s \<Longrightarrow> fst (sa_Create sa b t w) \<noteq> None \<and> tx t (snd (sa_Create sa b t w)) = Some F \<and> tx [] (snd (sa_Create sa b t w)) = tx [] w"
    "valid b \<Longrightarrow> file_be F (be_Name b) = Some s \<Longrightarrow> succeeds tx t w (sa_Edit sa (be_Name b) b t w) (on_be (sb_base_update (\<lambda>_. backend_base b)) (be_Name b) F)"
    "file_be F n = Some s \<Longrightarrow> succeeds tx t w (sa_Delete sa n t w) (put_be n None F)"
    "file_be F n = Some s \<Longrightarrow> sa_Get sa n t w = Inr (sb_base s) \<and> be_Name (sb_base s) = n \<and> backend_base (sb_base s) = sb_base s"
  using assms unfolding backend_laws_def by blast+

subsection \<open>Replacing a part of a section\<close>

text \<open>An operation of the client that succeeds, leaves the transaction with the content \<open>F'\<close>, and the file, the transaction identifier and
  the hash as they are.\<close>

definition did :: "'w tx_view \<Rightarrow> 'w client_native \<Rightarrow> go_error \<times> 'w client_native \<Rightarrow> conf_file \<Rightarrow> bool" where
  "did tx c r F' = (fst r = None \<and> tx (cn_activeTransaction c) (cn_native (snd r)) = Some F' \<and> tx [] (cn_native (snd r)) = tx [] (cn_native c)
     \<and> cn_activeTransaction (snd r) = cn_activeTransaction c \<and> cn_hashAtTransactionStart (snd r) = cn_hashAtTransactionStart c)"

definition in_tx :: "'w tx_view \<Rightarrow> 'w client_native \<Rightarrow> conf_file \<Rightarrow> bool" where
  "in_tx tx c F = (cn_activeTransaction c \<noteq> [] \<and> tx (cn_activeTransaction c) (cn_native c) = Some F)"

lemma did_on_native: "succeeds tx (cn_activeTransaction c) (cn_native c) (f (cn_activeTransaction c) (cn_native c)) F' \<Longrightarrow> did tx c (on_native f c) F'"
  by (simp add: did_def on_native_def succeeds_def split_def Let_def)

lemma did_in_tx: "in_tx tx c F \<Longrightarrow> did tx c r F' \<Longrightarrow> in_tx tx (snd r) F'"
  by (simp add: in_tx_def did_def)

lemma did_none: "in_tx tx c F \<Longrightarrow> did tx c (None, c) F"
  by (simp add: in_tx_def did_def)

lemma did_trans: "did tx c r F' \<Longrightarrow> did tx (snd r) r' F'' \<Longrightarrow> did tx c r' F''"
  by (simp add: did_def)

lemma did_or_stop: "did tx c r F' \<Longrightarrow> did tx (snd r) (f (snd r)) F'' \<Longrightarrow> did tx c (or_stop r f) F''"
  by (cases r) (auto simp: did_def or_stop_def)

lemma with_conf_None: "nc_Configuration api = None \<Longrightarrow> with_conf api f = f"
  by (simp add: with_conf_def fun_eq_iff)

lemma until_error_Cons_did: "did tx c (f x c) F' \<Longrightarrow> did tx (snd (f x c)) (until_error f xs (snd (f x c))) F'' \<Longrightarrow> did tx c (until_error f (x # xs) c) F''"
  by (cases "f x c") (auto simp: did_def)

lemma best_effort_Cons_did: "did tx c (f x c) F' \<Longrightarrow> did tx (snd (f x c)) (best_effort f xs (snd (f x c))) F'' \<Longrightarrow> did tx c (best_effort f (x # xs) c) F''"
  by (simp add: did_def best_effort_def)

lemma best_effort_Nil_did: "in_tx tx c F \<Longrightarrow> did tx c (best_effort f [] c) F"
  by (simp add: best_effort_def did_none)

locale rule_part = section_part part_get part_put
  for part_get :: "conf_file \<Rightarrow> string \<Rightarrow> 'r list option" and part_put :: "string \<Rightarrow> 'r list \<Rightarrow> conf_file \<Rightarrow> conf_file"
begin

lemma delete_loop:
  assumes laws: "rule_laws tx ra part_get part_put valid"
  shows "in_tx tx c F \<Longrightarrow> part_get F n = Some rs \<Longrightarrow> k \<le> length rs
    \<Longrightarrow> did tx c (until_error (\<lambda>i. on_native (ra_Delete ra (int i) n)) (rev [0..<k]) c) (part_put n (drop k rs) F)"
proof (induction k arbitrary: rs c F)
  case 0
  then show ?case using put_get did_none by simp
next
  case (Suc k)
  let ?f = "\<lambda>i. on_native (ra_Delete ra (int i) n)" and ?rs = "take k rs @ drop (Suc k) rs"
  have 1: "did tx c (?f k c) (part_put n ?rs F)"
    using rule_lawsD(2)[OF laws, of "cn_activeTransaction c" "cn_native c" F n rs k] Suc.prems by (intro did_on_native) (simp add: in_tx_def)
  have "did tx (snd (?f k c)) (until_error ?f (rev [0..<k]) (snd (?f k c))) (part_put n (drop k ?rs) (part_put n ?rs F))"
    using Suc.IH[OF did_in_tx[OF Suc.prems(1) 1], of ?rs] Suc.prems get_put[of F n ?rs] by simp
  then show ?case using until_error_Cons_did[of tx c ?f k, OF 1] Suc.prems(3) by (simp add: put_put)
qed

lemma create_loop:
  assumes laws: "rule_laws tx ra part_get part_put valid"
  shows "in_tx tx c F \<Longrightarrow> part_get F n = Some pre \<Longrightarrow> list_all valid rules
    \<Longrightarrow> did tx c (best_effort (\<lambda>(i, r). on_native (ra_Create ra (int i) r n)) (enumerate (length pre) rules) c) (part_put n (pre @ rules) F)"
proof (induction rules arbitrary: pre c F)
  case Nil
  then show ?case using put_get best_effort_Nil_did by simp
next
  case (Cons r rules)
  let ?f = "\<lambda>(i, r). on_native (ra_Create ra (int i) r n)" and ?x = "(length pre, r)"
  have 1: "did tx c (?f ?x c) (part_put n (pre @ [r]) F)"
    using rule_lawsD(3)[OF laws, of "cn_activeTransaction c" "cn_native c" F n pre "length pre" r] Cons.prems
    by (simp, intro did_on_native) (simp add: in_tx_def)
  have "did tx (snd (?f ?x c)) (best_effort ?f (enumerate (length (pre @ [r])) rules) (snd (?f ?x c))) (part_put n ((pre @ [r]) @ rules) (part_put n (pre @ [r]) F))"
    by (rule Cons.IH[OF did_in_tx[OF Cons.prems(1) 1]]) (use Cons.prems get_put[of F n "pre @ [r]"] in simp_all)
  then show ?case using best_effort_Cons_did[of tx c ?f ?x, OF 1] by (simp add: put_put)
qed

lemma replace_rules:
  assumes "rule_laws tx ra part_get part_put valid" "in_tx tx c F" "part_get F n \<noteq> None" "list_all valid rules"
  shows "did tx c (or_stop (rules_delete_all ra n c) (best_effort (\<lambda>(i, r). on_native (ra_Create ra (int i) r n)) (enumerate 0 rules))) (part_put n rules F)"
proof -
  obtain rs where rs: "part_get F n = Some rs" using assms(3) by blast
  have "rules_delete_all ra n c = until_error (\<lambda>i. on_native (ra_Delete ra (int i) n)) (rev [0..<length rs]) c"
    using rule_lawsD(1)[OF assms(1), of "cn_activeTransaction c" "cn_native c" F n rs] assms(2) rs
    by (simp add: rules_delete_all_def read_native_def in_tx_def)
  then have 1: "did tx c (rules_delete_all ra n c) (part_put n [] F)" using delete_loop[OF assms(1,2) rs, of "length rs"] by simp
  have "part_get (part_put n [] F) n = Some []" using get_put assms(3) by blast
  from create_loop[OF assms(1) did_in_tx[OF assms(2) 1] this assms(4)]
  show ?thesis by (intro did_or_stop[OF 1]) (simp add: put_put)
qed

end

text \<open>The same for binds and servers, which have names.\<close>

definition named_children :: "('b \<Rightarrow> string) \<Rightarrow> (string, 'b) gomap \<Rightarrow> bool" where
  "named_children name m = (wf_map m \<and> list_all (\<lambda>(k, b). name b = k) m)"

locale child_part = section_part part_get part_put
  for part_get :: "conf_file \<Rightarrow> string \<Rightarrow> (string \<Rightarrow> 'b option) option" and part_put :: "string \<Rightarrow> (string \<Rightarrow> 'b option) \<Rightarrow> conf_file \<Rightarrow> conf_file"
begin

lemma delete_loop:
  assumes laws: "child_laws tx ca name part_get part_put valid"
  shows "in_tx tx c F \<Longrightarrow> part_get F n = Some m \<Longrightarrow> distinct (map name bs) \<Longrightarrow> name ` set bs \<subseteq> dom m
    \<Longrightarrow> did tx c (until_error (\<lambda>b. on_native (ca_Delete ca (name b) n)) bs c) (part_put n (m |` (- name ` set bs)) F)"
proof (induction bs arbitrary: m c F)
  case Nil
  then show ?case using put_get did_none by simp
next
  case (Cons b bs)
  let ?f = "\<lambda>b. on_native (ca_Delete ca (name b) n)" and ?m = "m(name b := None)"
  obtain x where x: "m (name b) = Some x" using Cons.prems(4) by auto
  have 1: "did tx c (?f b c) (part_put n ?m F)"
    using child_lawsD(2)[OF laws, of "cn_activeTransaction c" "cn_native c" F n m "name b" x] Cons.prems x
    by (intro did_on_native) (simp add: in_tx_def)
  have "name ` set bs \<subseteq> dom ?m" using Cons.prems(3,4) by auto (metis domD image_eqI subsetD)+
  then have "did tx (snd (?f b c)) (until_error ?f bs (snd (?f b c))) (part_put n (?m |` (- name ` set bs)) (part_put n ?m F))"
    using Cons.IH[OF did_in_tx[OF Cons.prems(1) 1], of ?m] Cons.prems(2,3) get_put[of F n ?m] by fastforce
  moreover have "?m |` (- name ` set bs) = m |` (- name ` set (b # bs))" by (auto simp: restrict_map_def)
  ultimately show ?case using until_error_Cons_did[of tx c ?f b, OF 1] by (simp add: put_put)
qed

lemma create_loop:
  assumes laws: "child_laws tx ca name part_get part_put valid"
  shows "in_tx tx c F \<Longrightarrow> part_get F n = Some m \<Longrightarrow> named_children name cs \<Longrightarrow> list_all (valid \<circ> snd) cs \<Longrightarrow> mkeys cs \<inter> dom m = {}
    \<Longrightarrow> did tx c (best_effort (\<lambda>(_, b). on_native (ca_Create ca b n)) cs c) (part_put n (m ++ map_of cs) F)"
proof (induction cs arbitrary: m c F)
  case Nil
  then show ?case using put_get best_effort_Nil_did by simp
next
  case (Cons x cs)
  obtain k b where x: "x = (k, b)" by (cases x)
  have n: "name b = k" "k \<notin> mkeys cs" "named_children name cs" using Cons.prems(3) by (simp_all add: x named_children_def wf_map_Cons)
  let ?f = "\<lambda>(_, b). on_native (ca_Create ca b n)"
  have 1: "did tx c (?f x c) (part_put n (m(k \<mapsto> b)) F)"
    using child_lawsD(3)[OF laws, of "cn_activeTransaction c" "cn_native c" F n m b] Cons.prems n
    by (simp add: x, intro did_on_native) (auto simp: in_tx_def)
  have d: "mkeys cs \<inter> dom (m(k \<mapsto> b)) = {}" using Cons.prems(5) n(2) by (simp add: x)
  have v: "list_all (valid \<circ> snd) cs" using Cons.prems(4) by (simp add: comp_def)
  have g: "part_get (part_put n (m(k \<mapsto> b)) F) n = Some (m(k \<mapsto> b))" by (rule get_put) (simp add: Cons.prems(2))
  have "did tx (snd (?f x c)) (best_effort ?f cs (snd (?f x c))) (part_put n (m(k \<mapsto> b) ++ map_of cs) (part_put n (m(k \<mapsto> b)) F))"
    by (rule Cons.IH[OF did_in_tx[OF Cons.prems(1) 1] g n(3) v d])
  moreover have "m(k \<mapsto> b) ++ map_of cs = m ++ map_of (x # cs)" using n(2) by (auto simp: x map_add_def fun_eq_iff map_of_None_mkeys[symmetric] split: option.split)
  ultimately have "did tx (snd (?f x c)) (best_effort ?f cs (snd (?f x c))) (part_put n (m ++ map_of (x # cs)) F)" by (simp only: put_put)
  then show ?case by (rule best_effort_Cons_did[of tx c ?f x, OF 1])
qed

lemma replace_children:
  assumes "child_laws tx ca name part_get part_put valid" "in_tx tx c F" "part_get F n \<noteq> None" "named_children name cs" "list_all (valid \<circ> snd) cs"
  shows "did tx c (or_stop (children_delete_all ca name n c) (best_effort (\<lambda>(_, b). on_native (ca_Create ca b n)) cs)) (part_put n (map_of cs) F)"
proof -
  obtain m where m: "part_get F n = Some m" using assms(3) by blast
  then obtain bs where bs: "ca_Get ca n (cn_activeTransaction c) (cn_native c) = Inr bs" "distinct (map name bs)" "m = map_of (map (\<lambda>b. (name b, b)) bs)"
    using child_lawsD(1)[OF assms(1), of "cn_activeTransaction c" "cn_native c" F n m] assms(2) by (auto simp: in_tx_def)
  have d: "dom m = name ` set bs" by (simp add: bs(3) dom_map_of_conv_image_fst image_image)
  then have e: "m |` (- name ` set bs) = Map.empty" by (auto simp: restrict_map_def fun_eq_iff)
  have 1: "did tx c (children_delete_all ca name n c) (part_put n Map.empty F)"
    using delete_loop[OF assms(1,2) m bs(2)] d e by (simp add: children_delete_all_def read_native_def bs(1))
  have "part_get (part_put n Map.empty F) n = Some Map.empty" using get_put assms(3) by blast
  from create_loop[OF assms(1) did_in_tx[OF assms(2) 1] this assms(4,5)]
  show ?thesis by (intro did_or_stop[OF 1]) (simp add: put_put)
qed

end

subsubsection \<open>The parts of the sections\<close>

lemma on_section_parts:
  "file_fe (on_fe g n F) n = map_option g (file_fe F n)" "on_fe g n (on_fe h n F) = on_fe (g \<circ> h) n F"
  "file_be (on_be g' n F) n = map_option g' (file_be F n)" "on_be g' n (on_be h' n F) = on_be (g' \<circ> h') n F"
  by (simp_all add: on_fe_def on_be_def option.map_comp)

lemma on_section_same:
  "(\<And>s. file_fe F n = Some s \<Longrightarrow> g s = s) \<Longrightarrow> on_fe g n F = F" "(\<And>s. file_be F n = Some s \<Longrightarrow> g' s = s) \<Longrightarrow> on_be g' n F = F"
  by (cases "file_fe F n"; cases "file_be F n"; auto simp: on_fe_def on_be_def fun_upd_idem)+

interpretation fe_acls: rule_part fe_acls_get fe_acls_put
  by unfold_locales (auto simp: on_section_parts comp_def option.map_comp intro!: on_section_same)

interpretation fe_http: rule_part fe_http_get fe_http_put
  by unfold_locales (auto simp: on_section_parts comp_def option.map_comp intro!: on_section_same)

interpretation fe_tcp: rule_part fe_tcp_get fe_tcp_put
  by unfold_locales (auto simp: on_section_parts comp_def option.map_comp intro!: on_section_same)

interpretation fe_switch: rule_part fe_switch_get fe_switch_put
  by unfold_locales (auto simp: on_section_parts comp_def option.map_comp intro!: on_section_same)

interpretation be_acls: rule_part be_acls_get be_acls_put
  by unfold_locales (auto simp: on_section_parts comp_def option.map_comp intro!: on_section_same)

interpretation be_http: rule_part be_http_get be_http_put
  by unfold_locales (auto simp: on_section_parts comp_def option.map_comp intro!: on_section_same)

interpretation fe_binds: child_part fe_binds_get fe_binds_put
  by unfold_locales (auto simp: on_section_parts comp_def option.map_comp intro!: on_section_same)

interpretation be_servers: child_part be_servers_get be_servers_put
  by unfold_locales (auto simp: on_section_parts comp_def option.map_comp intro!: on_section_same)

end
