(* ===== verification/ApiEffects.thy ===== *)
theory ApiEffects
  imports NativeLaws
begin

text \<open>
  What the operations of the client do to the sections of a transaction, under the laws of the library: after
  \<open>FrontendCreate\<close>, \<open>FrontendEdit\<close>, \<open>BackendCreate\<close> and \<open>BackendEdit\<close> the section is the one the model describes,
  whatever it was before; and when they ask for a reload.
\<close>

definition fe_valid :: "validity \<Rightarrow> frontend \<Rightarrow> bool" where
  "fe_valid V f = (v_fe V f \<and> v_fe V (frontend_base f) \<and> list_all (v_acl V) (fe_ACLList f) \<and> list_all (v_http V) (fe_HTTPRequestRuleList f)
     \<and> list_all (v_tcp V) (fe_TCPRequestRuleList f) \<and> list_all (v_switch V) (fe_BackendSwitchingRuleList f)
     \<and> named_children bi_Name (map_or_empty (fe_Binds f)) \<and> list_all (v_bind V \<circ> snd) (map_or_empty (fe_Binds f)))"

definition be_valid :: "validity \<Rightarrow> backend \<Rightarrow> bool" where
  "be_valid V b = (v_be V b \<and> v_be V (backend_base b) \<and> list_all (v_acl V) (be_ACLList b) \<and> list_all (v_http V) (be_HTTPRequestRuleList b)
     \<and> named_children hs_Name (map_or_empty (be_Servers b)) \<and> list_all (v_server V \<circ> snd) (map_or_empty (be_Servers b)))"

subsection \<open>Replacing the lists\<close>

lemma did_SetReload: "did tx (client_SetReload c) r F = did tx c r F" "in_tx tx (client_SetReload c) F = in_tx tx c F"
  by (simp_all add: did_def in_tx_def client_SetReload_def)

lemma part_there:
  "file_fe F n \<noteq> None \<Longrightarrow> map_option g (file_fe F n) \<noteq> None" "file_be F n \<noteq> None \<Longrightarrow> map_option g' (file_be F n) \<noteq> None"
  "file_fe F n \<noteq> None \<Longrightarrow> file_fe (on_fe h n F) n \<noteq> None" "file_be F n \<noteq> None \<Longrightarrow> file_be (on_be h' n F) n \<noteq> None"
  by (simp_all add: on_section_parts)

lemma replace_fe_parts:
  assumes laws: "native_laws tx api texts V" and F: "in_tx tx c F" "file_fe F n \<noteq> None"
  shows "list_all (v_acl V) acls \<Longrightarrow> did tx c (ACLReplaceAll api SecFrontends n acls c) (fe_acls_put n acls F)"
    "list_all (v_http V) https \<Longrightarrow> did tx c (HTTPRequestReplaceAll api SecFrontends n https c) (fe_http_put n https F)"
    "list_all (v_tcp V) tcps \<Longrightarrow> did tx c (TCPRequestReplaceAll api SecFrontends n tcps c) (fe_tcp_put n tcps F)"
    "list_all (v_switch V) switches \<Longrightarrow> did tx c (UseBackendReplaceAll api n switches c) (fe_switch_put n switches F)"
    "named_children bi_Name binds \<Longrightarrow> list_all (v_bind V \<circ> snd) binds \<Longrightarrow> did tx c (BindReplaceAll api SecFrontends n binds c) (fe_binds_put n (map_of binds) F)"
proof -
  note nc = with_conf_None[OF native_configuration[OF laws]] and L = native_lawsD[OF laws]
  show "did tx c (ACLReplaceAll api SecFrontends n acls c) (fe_acls_put n acls F)" if "list_all (v_acl V) acls"
    unfolding ACLReplaceAll_def ACLsDeleteAll_def ACLsCreate_def nc by (rule fe_acls.replace_rules[OF L(4) F(1) part_there(1)[OF F(2)] that])
  show "did tx c (HTTPRequestReplaceAll api SecFrontends n https c) (fe_http_put n https F)" if "list_all (v_http V) https"
    unfolding HTTPRequestReplaceAll_def HTTPRequestDeleteAll_def HTTPRequestCreate_def nc by (rule fe_http.replace_rules[OF L(6) F(1) part_there(1)[OF F(2)] that])
  show "did tx c (TCPRequestReplaceAll api SecFrontends n tcps c) (fe_tcp_put n tcps F)" if "list_all (v_tcp V) tcps"
    unfolding TCPRequestReplaceAll_def TCPRequestDeleteAll_def TCPRequestCreate_def nc by (rule fe_tcp.replace_rules[OF L(8) F(1) part_there(1)[OF F(2)] that])
  show "did tx c (UseBackendReplaceAll api n switches c) (fe_switch_put n switches F)" if "list_all (v_switch V) switches"
    unfolding UseBackendReplaceAll_def UseBackendDeleteAll_def UseBackendCreate_def nc by (rule fe_switch.replace_rules[OF L(9) F(1) part_there(1)[OF F(2)] that])
  show "did tx c (BindReplaceAll api SecFrontends n binds c) (fe_binds_put n (map_of binds) F)" if "named_children bi_Name binds" "list_all (v_bind V \<circ> snd) binds"
    unfolding BindReplaceAll_def BindDeleteAll_def BindCreate_def nc by (rule fe_binds.replace_children[OF L(10) F(1) part_there(1)[OF F(2)] that])
qed

lemma replace_be_parts:
  assumes laws: "native_laws tx api texts V" and F: "in_tx tx c F" "file_be F n \<noteq> None"
  shows "list_all (v_acl V) acls \<Longrightarrow> did tx c (ACLReplaceAll api SecBackends n acls c) (be_acls_put n acls F)"
    "list_all (v_http V) https \<Longrightarrow> did tx c (HTTPRequestReplaceAll api SecBackends n https c) (be_http_put n https F)"
    "named_children hs_Name servers \<Longrightarrow> list_all (v_server V \<circ> snd) servers
      \<Longrightarrow> did tx c (ServerReplaceAll api SecBackends n servers c) (be_servers_put n (map_of servers) F)"
proof -
  note nc = with_conf_None[OF native_configuration[OF laws]] and L = native_lawsD[OF laws]
  show "did tx c (ACLReplaceAll api SecBackends n acls c) (be_acls_put n acls F)" if "list_all (v_acl V) acls"
    unfolding ACLReplaceAll_def ACLsDeleteAll_def ACLsCreate_def nc by (rule be_acls.replace_rules[OF L(5) F(1) part_there(2)[OF F(2)] that])
  show "did tx c (HTTPRequestReplaceAll api SecBackends n https c) (be_http_put n https F)" if "list_all (v_http V) https"
    unfolding HTTPRequestReplaceAll_def HTTPRequestDeleteAll_def HTTPRequestCreate_def nc by (rule be_http.replace_rules[OF L(7) F(1) part_there(2)[OF F(2)] that])
  show "did tx c (ServerReplaceAll api SecBackends n servers c) (be_servers_put n (map_of servers) F)" if "named_children hs_Name servers" "list_all (v_server V \<circ> snd) servers"
    unfolding ServerReplaceAll_def ServerDeleteAll_def ServerCreate_def nc by (rule be_servers.replace_children[OF L(11) F(1) part_there(2)[OF F(2)] that])
qed

lemma frontend_lists_did:
  assumes laws: "native_laws tx api texts V" and F: "in_tx tx c F" "file_fe F (fe_Name f) = Some s" and v: "fe_valid V f"
  shows "did tx c (frontend_lists api f c) (put_fe (fe_Name f) (Some ((fe_written f)\<lparr>sf_base := sf_base s\<rparr>)) F)"
proof -
  let ?n = "fe_Name f"
  have there: "file_fe F ?n \<noteq> None" using F(2) by simp
  note v = v[unfolded fe_valid_def]
  let ?F1 = "fe_binds_put ?n (map_of (map_or_empty (fe_Binds f))) F" and ?r1 = "BindReplaceAll api SecFrontends ?n (map_or_empty (fe_Binds f)) c"
  have 1: "did tx c ?r1 ?F1" using replace_fe_parts(5)[OF laws F(1) there] v by blast
  note t1 = part_there(3)[OF there]
  let ?F2 = "fe_acls_put ?n (fe_ACLList f) ?F1" and ?r2 = "ACLReplaceAll api SecFrontends ?n (fe_ACLList f) (snd ?r1)"
  have 2: "did tx (snd ?r1) ?r2 ?F2" using replace_fe_parts(1)[OF laws did_in_tx[OF F(1) 1] t1] v by blast
  note i2 = did_in_tx[OF did_in_tx[OF F(1) 1] 2] and t2 = part_there(3)[OF t1]
  let ?F3 = "fe_http_put ?n (fe_HTTPRequestRuleList f) ?F2" and ?r3 = "HTTPRequestReplaceAll api SecFrontends ?n (fe_HTTPRequestRuleList f) (snd ?r2)"
  have 3: "did tx (snd ?r2) ?r3 ?F3" using replace_fe_parts(2)[OF laws i2 t2] v by blast
  note i3 = did_in_tx[OF i2 3] and t3 = part_there(3)[OF t2]
  let ?F4 = "fe_tcp_put ?n (fe_TCPRequestRuleList f) ?F3" and ?r4 = "TCPRequestReplaceAll api SecFrontends ?n (fe_TCPRequestRuleList f) (snd ?r3)"
  have 4: "did tx (snd ?r3) ?r4 ?F4" using replace_fe_parts(3)[OF laws i3 t3] v by blast
  have 5: "did tx (snd ?r4) (UseBackendReplaceAll api ?n (fe_BackendSwitchingRuleList f) (snd ?r4)) (fe_switch_put ?n (fe_BackendSwitchingRuleList f) ?F4)"
    using replace_fe_parts(4)[OF laws did_in_tx[OF i3 4] part_there(3)[OF t3]] v by blast
  have "fe_switch_put ?n (fe_BackendSwitchingRuleList f) ?F4 = put_fe ?n (Some ((fe_written f)\<lparr>sf_base := sf_base s\<rparr>)) F"
    using F(2) by (cases s) (simp add: on_fe_def put_fe_def fe_written_def)
  then show ?thesis unfolding frontend_lists_def using did_or_stop[OF 1] did_or_stop[OF 2] did_or_stop[OF 3] did_or_stop[OF 4] 5 by simp
qed

subsection \<open>Sections\<close>

lemma put_sections:
  "put_fe n s (put_fe n s' F) = put_fe n s F" "put_fe n s (on_fe g n F) = put_fe n s F" "file_fe (put_fe n s F) m = (if m = n then s else file_fe F m)"
  "put_be n b (put_be n b' F) = put_be n b F" "put_be n b (on_be h n F) = put_be n b F" "file_be (put_be n b F) m = (if m = n then b else file_be F m)"
  "file_be (put_fe n s F) m = file_be F m" "file_fe (put_be n b F) m = file_fe F m"
  by (simp_all add: put_fe_def put_be_def on_fe_def on_be_def)

lemma written_base [simp]:
  "frontend_base (frontend_base f) = frontend_base f" "backend_base (backend_base b) = backend_base b" "fe_Name (frontend_base f) = fe_Name f"
  "be_Name (backend_base b) = be_Name b" "sf_base (fe_written f) = frontend_base f" "sb_base (be_written b) = backend_base b"
  by (simp_all add: frontend_base_def backend_base_def fe_written_def be_written_def)

lemma fe_written_base: "(fe_written f)\<lparr>sf_base := frontend_base f\<rparr> = fe_written f"
  by (simp add: fe_written_def)

lemma FrontendCreate_did:
  assumes laws: "native_laws tx api texts V" and F: "in_tx tx c F" and v: "fe_valid V f"
  shows "did tx c (FrontendCreate api f c) (put_fe (fe_Name f) (Some (fe_written f)) F)"
proof -
  note nc = with_conf_None[OF native_configuration[OF laws]]
  note FL = frontend_lawsD[OF native_lawsD(2)[OF laws], of "cn_activeTransaction c" _ F]
  have t: "cn_activeTransaction c \<noteq> []" "tx (cn_activeTransaction c) (cn_native c) = Some F" using F by (simp_all add: in_tx_def)
  let ?n = "fe_Name f" and ?create = "on_native (sa_Create (nc_Frontend api) (frontend_base f)) c"
  have lists: "did tx c' (frontend_lists api f (client_SetReload c')) (put_fe ?n (Some (fe_written f)) F)"
    if "in_tx tx c' F'" "file_fe F' ?n = Some s" "sf_base s = frontend_base f" "\<And>x. put_fe ?n x F' = put_fe ?n x F" for c' F' s
    using frontend_lists_did[OF laws _ that(2) v, of "client_SetReload c'"] that(1,3,4) by (simp add: did_SetReload fe_written_base)
  show ?thesis
  proof (cases "file_fe F ?n")
    case None
    have 1: "did tx c ?create (put_fe ?n (Some (fe_written (frontend_base f))) F)"
      using FL(1)[OF t, of "frontend_base f"] None v by (intro did_on_native) (simp add: fe_valid_def)
    then have "FrontendCreate api f c = or_stop (None, snd ?create) (\<lambda>c. frontend_lists api f (client_SetReload c))"
      by (simp add: FrontendCreate_def nc did_def split_def Let_def)
    moreover have "did tx c (None, snd ?create) (put_fe ?n (Some (fe_written (frontend_base f))) F)" using 1 by (simp add: did_def)
    ultimately show ?thesis using lists[OF did_in_tx[OF F 1], of "fe_written (frontend_base f)"] by (auto simp: put_sections intro: did_or_stop)
  next
    case (Some s)
    let ?edit = "on_native (sa_Edit (nc_Frontend api) ?n f) (snd ?create)"
    have c: "fst ?create \<noteq> None" "in_tx tx (snd ?create) F" "tx [] (cn_native (snd ?create)) = tx [] (cn_native c)" "cn_activeTransaction (snd ?create) = cn_activeTransaction c"
      "cn_hashAtTransactionStart (snd ?create) = cn_hashAtTransactionStart c"
      using FL(2)[OF t, of "frontend_base f" s] Some F by (simp_all add: on_native_def in_tx_def split_def Let_def)
    have 2: "did tx (snd ?create) ?edit (on_fe (sf_base_update (\<lambda>_. frontend_base f)) ?n F)"
      using FL(3)[of "cn_native (snd ?create)" f s] c(2,4) t(1) Some v by (intro did_on_native) (simp add: fe_valid_def in_tx_def)
    then have 3: "did tx c ?edit (on_fe (sf_base_update (\<lambda>_. frontend_base f)) ?n F)" using c by (simp add: did_def)
    have "FrontendCreate api f c = or_stop ?edit (\<lambda>c. frontend_lists api f (client_SetReload c))"
      using c(1) by (auto simp: FrontendCreate_def nc split_def Let_def)
    then show ?thesis using lists[OF did_in_tx[OF F 3], of "s\<lparr>sf_base := frontend_base f\<rparr>"] Some by (auto simp: put_sections on_section_parts intro: did_or_stop[OF 3])
  qed
qed

lemma FrontendEdit_did:
  assumes laws: "native_laws tx api texts V" and F: "in_tx tx c F" "file_fe F (fe_Name f) = Some s" and v: "fe_valid V f"
  shows "did tx c (FrontendEdit api f c) (put_fe (fe_Name f) (Some (fe_written f)) F)"
proof -
  let ?n = "fe_Name f" and ?edit = "on_native (sa_Edit (nc_Frontend api) (fe_Name f) (frontend_base f)) c"
  have 1: "did tx c ?edit (on_fe (sf_base_update (\<lambda>_. frontend_base f)) ?n F)"
    using frontend_lawsD(3)[OF native_lawsD(2)[OF laws], of "cn_activeTransaction c" "cn_native c" F "frontend_base f" s] F v
    by (intro did_on_native) (simp add: fe_valid_def in_tx_def)
  have "did tx (snd ?edit) (frontend_lists api f (client_SetReload (snd ?edit))) (put_fe ?n (Some (fe_written f)) F)"
    using frontend_lists_did[OF laws _ _ v, of "client_SetReload (snd ?edit)" "on_fe (sf_base_update (\<lambda>_. frontend_base f)) ?n F" "s\<lparr>sf_base := frontend_base f\<rparr>"]
      did_in_tx[OF F(1) 1] F(2) by (simp add: did_SetReload fe_written_base put_sections on_section_parts)
  then show ?thesis unfolding FrontendEdit_def with_conf_None[OF native_configuration[OF laws]] by (rule did_or_stop[OF 1])
qed

lemma FrontendDelete_did:
  assumes laws: "native_laws tx api texts V" and F: "in_tx tx c F" "file_fe F n = Some s"
  shows "did tx c (FrontendDelete api n c) (put_fe n None F)"
proof -
  have "did tx (client_SetReload c) (on_native (sa_Delete (nc_Frontend api) n) (client_SetReload c)) (put_fe n None F)"
    using frontend_lawsD(4)[OF native_lawsD(2)[OF laws], of "cn_activeTransaction c" "cn_native c" F n s] F
    by (intro did_on_native) (simp add: in_tx_def client_SetReload_def)
  then show ?thesis by (simp add: FrontendDelete_def with_conf_None[OF native_configuration[OF laws]] did_SetReload)
qed

text \<open>Backends: the lists are replaced in the same order by the creation and the edit, with the reload decided in between.\<close>

lemma backend_lists_did:
  assumes laws: "native_laws tx api texts V" and F: "in_tx tx c F" "file_be F (be_Name b) = Some s" and v: "be_valid V b"
    and g: "\<And>c. cn_activeTransaction (g c) = cn_activeTransaction c \<and> cn_hashAtTransactionStart (g c) = cn_hashAtTransactionStart c \<and> cn_native (g c) = cn_native c"
  shows "did tx c (or_stop (ACLReplaceAll api SecBackends (be_Name b) (be_ACLList b) c) (\<lambda>c.
      or_stop (HTTPRequestReplaceAll api SecBackends (be_Name b) (be_HTTPRequestRuleList b) c) (\<lambda>c.
      ServerReplaceAll api SecBackends (be_Name b) (map_or_empty (be_Servers b)) (g c)))) (put_be (be_Name b) (Some ((be_written b)\<lparr>sb_base := sb_base s\<rparr>)) F)"
proof -
  let ?n = "be_Name b"
  have there: "file_be F ?n \<noteq> None" using F(2) by simp
  note v = v[unfolded be_valid_def]
  let ?F1 = "be_acls_put ?n (be_ACLList b) F" and ?r1 = "ACLReplaceAll api SecBackends ?n (be_ACLList b) c"
  have 1: "did tx c ?r1 ?F1" using replace_be_parts(1)[OF laws F(1) there] v by blast
  note t1 = part_there(4)[OF there]
  let ?F2 = "be_http_put ?n (be_HTTPRequestRuleList b) ?F1" and ?r2 = "HTTPRequestReplaceAll api SecBackends ?n (be_HTTPRequestRuleList b) (snd ?r1)"
  have 2: "did tx (snd ?r1) ?r2 ?F2" using replace_be_parts(2)[OF laws did_in_tx[OF F(1) 1] t1] v by blast
  have "in_tx tx (g (snd ?r2)) ?F2" using did_in_tx[OF did_in_tx[OF F(1) 1] 2] g by (simp add: in_tx_def)
  then have "did tx (g (snd ?r2)) (ServerReplaceAll api SecBackends ?n (map_or_empty (be_Servers b)) (g (snd ?r2))) (be_servers_put ?n (map_of (map_or_empty (be_Servers b))) ?F2)"
    using replace_be_parts(3)[OF laws _ part_there(4)[OF t1]] v by blast
  then have 3: "did tx (snd ?r2) (ServerReplaceAll api SecBackends ?n (map_or_empty (be_Servers b)) (g (snd ?r2))) (be_servers_put ?n (map_of (map_or_empty (be_Servers b))) ?F2)"
    using g[of "snd ?r2"] by (simp add: did_def)
  have "be_servers_put ?n (map_of (map_or_empty (be_Servers b))) ?F2 = put_be ?n (Some ((be_written b)\<lparr>sb_base := sb_base s\<rparr>)) F"
    using F(2) by (cases s) (simp add: on_be_def put_be_def be_written_def)
  then show ?thesis using did_or_stop[OF 1] did_or_stop[OF 2] 3 by simp
qed

lemma be_written_base: "(be_written b)\<lparr>sb_base := backend_base b\<rparr> = be_written b"
  by (simp add: be_written_def)

lemma BackendCreate_did:
  assumes laws: "native_laws tx api texts V" and F: "in_tx tx c F" and v: "be_valid V b"
  shows "did tx c (BackendCreate api b c) (put_be (be_Name b) (Some (be_written b)) F)"
proof -
  note nc = with_conf_None[OF native_configuration[OF laws]]
  note FL = backend_lawsD[OF native_lawsD(3)[OF laws], of "cn_activeTransaction c" _ F]
  have t: "cn_activeTransaction c \<noteq> []" "tx (cn_activeTransaction c) (cn_native c) = Some F" using F by (simp_all add: in_tx_def)
  let ?n = "be_Name b" and ?create = "on_native (sa_Create (nc_Backend api) (backend_base b)) c"
  let ?rest = "\<lambda>c. or_stop (ACLReplaceAll api SecBackends ?n (be_ACLList b) (client_SetReload c)) (\<lambda>c.
      or_stop (HTTPRequestReplaceAll api SecBackends ?n (be_HTTPRequestRuleList b) c) (ServerReplaceAll api SecBackends ?n (map_or_empty (be_Servers b))))"
  have lists: "did tx c' (?rest c') (put_be ?n (Some (be_written b)) F)"
    if "in_tx tx c' F'" "file_be F' ?n = Some s" "sb_base s = backend_base b" "\<And>x. put_be ?n x F' = put_be ?n x F" for c' F' s
    using backend_lists_did[OF laws _ that(2) v, of "client_SetReload c'" "\<lambda>c. c"] that(1,3,4) by (simp add: did_SetReload be_written_base)
  show ?thesis
  proof (cases "file_be F ?n")
    case None
    have 1: "did tx c ?create (put_be ?n (Some (be_written (backend_base b))) F)"
      using FL(1)[OF t, of "backend_base b"] None v by (intro did_on_native) (simp add: be_valid_def)
    then have "BackendCreate api b c = or_stop (None, snd ?create) ?rest" by (simp add: BackendCreate_def nc did_def split_def Let_def)
    moreover have "did tx c (None, snd ?create) (put_be ?n (Some (be_written (backend_base b))) F)" using 1 by (simp add: did_def)
    ultimately show ?thesis using lists[OF did_in_tx[OF F 1], of "be_written (backend_base b)"] by (auto simp: put_sections intro: did_or_stop)
  next
    case (Some s)
    let ?edit = "on_native (sa_Edit (nc_Backend api) ?n b) (snd ?create)"
    have c: "fst ?create \<noteq> None" "in_tx tx (snd ?create) F" "tx [] (cn_native (snd ?create)) = tx [] (cn_native c)" "cn_activeTransaction (snd ?create) = cn_activeTransaction c"
      "cn_hashAtTransactionStart (snd ?create) = cn_hashAtTransactionStart c"
      using FL(2)[OF t, of "backend_base b" s] Some F by (simp_all add: on_native_def in_tx_def split_def Let_def)
    have 2: "did tx (snd ?create) ?edit (on_be (sb_base_update (\<lambda>_. backend_base b)) ?n F)"
      using FL(3)[of "cn_native (snd ?create)" b s] c(2,4) t(1) Some v by (intro did_on_native) (simp add: be_valid_def in_tx_def)
    then have 3: "did tx c ?edit (on_be (sb_base_update (\<lambda>_. backend_base b)) ?n F)" using c by (simp add: did_def)
    have "BackendCreate api b c = or_stop ?edit ?rest" using c(1) by (auto simp: BackendCreate_def nc split_def Let_def)
    then show ?thesis using lists[OF did_in_tx[OF F 3], of "s\<lparr>sb_base := backend_base b\<rparr>"] Some by (auto simp: put_sections on_section_parts intro: did_or_stop[OF 3])
  qed
qed

text \<open>The section that the edit reads first is there.\<close>

lemma fold_named_children:
  assumes "distinct (map name bs)"
  shows "map_of (fold (\<lambda>b. mput (name b) b) bs m) = map_of m ++ map_of (map (\<lambda>b. (name b, b)) bs)"
  using assms
proof (induction bs arbitrary: m)
  case (Cons b bs)
  have "map_of (map (\<lambda>b. (name b, b)) bs) (name b) = None" using Cons.prems by (force simp: map_of_eq_None_iff)
  then show ?case using Cons by (auto simp: map_of_mput map_add_def fun_eq_iff split: option.split)
qed simp

lemma BackendGet_there:
  assumes laws: "native_laws tx api texts V" and F: "in_tx tx c F" "file_be F n = Some s"
  shows "\<exists>b. BackendGet api n c = Inr b \<and> be_written b = s \<and> be_OtherLists b = []"
proof -
  have t: "cn_activeTransaction c \<noteq> []" "tx (cn_activeTransaction c) (cn_native c) = Some F" using F(1) by (simp_all add: in_tx_def)
  note L = native_lawsD[OF laws]
  have b: "sa_Get (nc_Backend api) n (cn_activeTransaction c) (cn_native c) = Inr (sb_base s)" "be_Name (sb_base s) = n" "backend_base (sb_base s) = sb_base s"
    using backend_lawsD(5)[OF L(3) t F(2)] by blast+
  have e: "be_ACLList (sb_base s) = []" "be_HTTPRequestRuleList (sb_base s) = []" "be_OtherLists (sb_base s) = []" "be_Servers (sb_base s) = None"
    using arg_cong[OF b(3), of be_ACLList] arg_cong[OF b(3), of be_HTTPRequestRuleList] arg_cong[OF b(3), of be_OtherLists] arg_cong[OF b(3), of be_Servers]
    by (simp_all add: backend_base_def)
  have acls: "ra_Get (nc_ACL api SecBackends) n (cn_activeTransaction c) (cn_native c) = Inr (sb_acls s)" using rule_lawsD(1)[OF L(5) t] F(2) by simp
  have http: "ra_Get (nc_HTTPRequestRule api SecBackends) n (cn_activeTransaction c) (cn_native c) = Inr (sb_http s)" using rule_lawsD(1)[OF L(7) t] F(2) by simp
  obtain srv where srv: "ca_Get (nc_Server api SecBackends) n (cn_activeTransaction c) (cn_native c) = Inr srv" "distinct (map hs_Name srv)"
      "sb_servers s = map_of (map (\<lambda>x. (hs_Name x, x)) srv)" using child_lawsD(1)[OF L(11) t] F(2) by fastforce
  let ?b = "(sb_base s)\<lparr>be_ACLList := sb_acls s, be_HTTPRequestRuleList := sb_http s\<rparr>"
  let ?b' = "if srv = [] then ?b else ?b\<lparr>be_Servers := Some (fold (\<lambda>x. mput (hs_Name x) x) srv [])\<rparr>"
  have "BackendGet api n c = Inr ?b'" using b(1,2) e
    by (simp add: BackendGet_def read_conf_def native_configuration[OF laws] sum_bind_def read_native_def read_acls_def read_http_rules_def read_servers_def acls http srv(1))
  moreover have "backend_base ?b' = sb_base s" using e by (simp add: backend_base_def)
  moreover have "be_OtherLists ?b' = []" using e(3) by simp
  moreover have "map_of (map_or_empty (be_Servers ?b')) = sb_servers s"
    using e(4) fold_named_children[OF srv(2), of "[]"] srv(3) by (auto simp: map_or_empty_def)
  ultimately show ?thesis by (cases s) (auto simp: be_written_def)
qed

lemma BackendEdit_did:
  assumes laws: "native_laws tx api texts V" and F: "in_tx tx c F" "file_be F (be_Name b) = Some s" and v: "be_valid V b"
  shows "did tx c (BackendEdit api b c) (put_be (be_Name b) (Some (be_written b)) F)"
proof -
  obtain prev where prev: "BackendGet api (be_Name b) c = Inr prev" using BackendGet_there[OF laws F] by blast
  let ?n = "be_Name b" and ?edit = "on_native (sa_Edit (nc_Backend api) (be_Name b) (backend_base b)) c"
  let ?g = "\<lambda>c. if edit_needs_reload (backend_equal_but_servers prev b) (cn_reload c) then client_SetReload c else c"
  have 1: "did tx c ?edit (on_be (sb_base_update (\<lambda>_. backend_base b)) ?n F)"
    using backend_lawsD(3)[OF native_lawsD(3)[OF laws], of "cn_activeTransaction c" "cn_native c" F "backend_base b" s] F v
    by (intro did_on_native) (simp add: be_valid_def in_tx_def)
  have g: "cn_activeTransaction (?g c) = cn_activeTransaction c \<and> cn_hashAtTransactionStart (?g c) = cn_hashAtTransactionStart c \<and> cn_native (?g c) = cn_native c" for c :: "'a client_native"
    by (simp add: client_SetReload_def)
  have f: "file_be (on_be (sb_base_update (\<lambda>_. backend_base b)) ?n F) ?n = Some (s\<lparr>sb_base := backend_base b\<rparr>)" using F(2) by (simp add: on_section_parts)
  note l = backend_lists_did[OF laws did_in_tx[OF F(1) 1] f v g]
  show ?thesis unfolding BackendEdit_def with_conf_None[OF native_configuration[OF laws]] prev sum.case Let_def
    by (rule did_or_stop[OF 1]) (use l in \<open>simp add: be_written_base put_sections\<close>)
qed

lemma BackendDelete_did:
  assumes laws: "native_laws tx api texts V" and F: "in_tx tx c F" "file_be F n = Some s"
  shows "did tx c (BackendDelete api n c) (put_be n None F)"
proof -
  have "did tx (client_SetReload c) (on_native (sa_Delete (nc_Backend api) n) (client_SetReload c)) (put_be n None F)"
    using backend_lawsD(4)[OF native_lawsD(3)[OF laws], of "cn_activeTransaction c" "cn_native c" F n s] F
    by (intro did_on_native) (simp add: in_tx_def client_SetReload_def)
  then show ?thesis by (simp add: BackendDelete_def with_conf_None[OF native_configuration[OF laws]] did_SetReload)
qed

end
