(* ===== verification/AppManager.thy ===== *)
theory AppManager
  imports ApiEffects
begin

text \<open>
  \<open>hug/haproxy/main.go\<close>: the application receives the differences of a cycle, applies them to the configuration file in one
  transaction, and reloads HAProxy when that is needed.

  The control of the HAProxy process is the argument \<open>svc\<close> on a state of its own (\<open>HaproxyProcess\<close> has the implementations).  The
  pointers of the differences are read in the objects \<open>objs\<close> of the configuration; they are never nil.
\<close>

record conf_update_result =
  cu_Error :: go_error
  cu_UpdatedSectionsMetaData :: "(string, metadata) gomap"

record ('w, 'p) app_manager =
  am_client :: "'w client_native"
  am_process :: 'p
  am_results :: "conf_update_result list"

text \<open>A loop that collects the errors of its steps.\<close>

definition collect :: "('x \<Rightarrow> 's \<Rightarrow> go_error \<times> 's) \<Rightarrow> 'x list \<Rightarrow> string list \<times> 's \<Rightarrow> string list \<times> 's" where
  "collect f = fold (\<lambda>x (errs, s). let (err, s) = f x s in (Errors_Add [err] errs, s))"

definition processCreate :: "'w native_api \<Rightarrow> backend list \<Rightarrow> haproxy_conf_diffs \<Rightarrow> 'w client_native \<Rightarrow> go_error \<times> 'w client_native" where
  "processCreate api objs d c =
     (let (errs, c) = collect (\<lambda>(_, createdFE). FrontendCreate api createdFE) (df_CreatedFE d) ([], c);
          (errs, c) = collect (\<lambda>(_, createdBE). BackendCreate api (objs ! createdBE)) (df_CreatedBE d) (errs, c)
      in (Errors_Result errs, c))"

definition processUpdate :: "'w native_api \<Rightarrow> backend list \<Rightarrow> haproxy_conf_diffs \<Rightarrow> 'w client_native \<Rightarrow> go_error \<times> 'w client_native" where
  "processUpdate api objs d c =
     (let (errs, c) = collect (\<lambda>(_, updatedFE). FrontendEdit api updatedFE) (df_UpdatedFE d) ([], c);
          (errs, c) = collect (\<lambda>(_, updatedBE). BackendEdit api (objs ! updatedBE)) (df_UpdatedBE d) (errs, c)
      in (Errors_Result errs, c))"

definition processDelete :: "'w native_api \<Rightarrow> haproxy_conf_diffs \<Rightarrow> 'w client_native \<Rightarrow> go_error \<times> 'w client_native" where
  "processDelete api d c =
     (let (errs, c) = collect (\<lambda>(feName, _). FrontendDelete api feName) (df_DeletedFE d) ([], c);
          (errs, c) = collect (\<lambda>(beName, _). BackendDelete api beName) (df_DeletedBE d) (errs, c)
      in (Errors_Result errs, c))"

definition addFrontendMetadataToResult :: "frontend \<Rightarrow> (string, metadata) gomap \<Rightarrow> (string, metadata) gomap" where
  "addFrontendMetadataToResult fe meta = mput (fe_Name fe) (fe_Metadata fe) meta"

definition addBackendMetadataToResult :: "backend \<Rightarrow> (string, metadata) gomap \<Rightarrow> (string, metadata) gomap" where
  "addBackendMetadataToResult be meta = mput (be_Name be) (be_Metadata be) meta"

text \<open>The result is only logged.  The deleted sections are nil in the differences and add nothing to it.\<close>

definition confUpdateProcessed :: "backend list \<Rightarrow> haproxy_conf_diffs \<Rightarrow> go_error \<Rightarrow> ('w, 'p) app_manager \<Rightarrow> ('w, 'p) app_manager" where
  "confUpdateProcessed objs d err h =
     (let meta = fold (\<lambda>(_, fe). addFrontendMetadataToResult fe) (df_UpdatedFE d) (fold (\<lambda>(_, fe). addFrontendMetadataToResult fe) (df_CreatedFE d) []);
          meta = fold (\<lambda>(_, p). addBackendMetadataToResult (objs ! p)) (df_UpdatedBE d) (fold (\<lambda>(_, p). addBackendMetadataToResult (objs ! p)) (df_CreatedBE d) meta)
      in h\<lparr>am_client := APIDisposeTransaction (am_client h), am_results := am_results h @ [\<lparr>cu_Error = err, cu_UpdatedSectionsMetaData = meta\<rparr>]\<rparr>)"

definition run_transaction :: "'w native_api \<Rightarrow> backend list \<Rightarrow> haproxy_conf_diffs \<Rightarrow> 'w client_native \<Rightarrow> go_error \<times> 'w client_native" where
  "run_transaction api objs d c =
     or_stop (APIStartTransaction api c) (\<lambda>c. or_stop (processCreate api objs d c) (\<lambda>c. or_stop (processUpdate api objs d c) (\<lambda>c.
     or_stop (processDelete api d c) (APIFinalCommitTransaction api))))"

definition applyCfgUpdates :: "'w native_api \<Rightarrow> (string \<Rightarrow> 'p \<Rightarrow> (string \<times> go_error) \<times> 'p) \<Rightarrow> backend list \<Rightarrow> haproxy_conf_diffs
    \<Rightarrow> ('w, 'p) app_manager \<Rightarrow> go_error \<times> ('w, 'p) app_manager" where
  "applyCfgUpdates api svc objs d h =
     (if diffs_IsEmpty d \<and> \<not> df_ReloadNeed d then (None, h)
      else let (err, c) = run_transaction api objs d (am_client h);
               h = h\<lparr>am_client := c\<rparr>;
               (err, h) = (if err \<noteq> None then (err, h)
                           else if NeedReload (cn_reload c) then let ((msg, err), p) = svc ''reload'' (am_process h) in (err, h\<lparr>am_process := p\<rparr>)
                           else (None, h))
           in (err, confUpdateProcessed objs d err h))"

text \<open>The loop over the channel: errors are logged and the next differences are taken.\<close>

definition app_Run :: "'w native_api \<Rightarrow> (string \<Rightarrow> 'p \<Rightarrow> (string \<times> go_error) \<times> 'p) \<Rightarrow> (backend list \<times> haproxy_conf_diffs) list \<Rightarrow> ('w, 'p) app_manager
    \<Rightarrow> ('w, 'p) app_manager" where
  "app_Run api svc = fold (\<lambda>(objs, d) h. snd (applyCfgUpdates api svc objs d h))"

subsection \<open>The differences applied to a file\<close>

definition map_view :: "('a \<Rightarrow> 'b) \<Rightarrow> 'a view \<Rightarrow> 'b view" where
  "map_view g v = (case v of (d, u, cr, cur) \<Rightarrow> (d, map_option g u, map_option g cr, map_option g cur))"

definition applied_file :: "configuration \<Rightarrow> conf_file \<Rightarrow> conf_file" where
  "applied_file c F = \<lparr>file_fe = (\<lambda>n. section_after (file_fe F n) (map_view fe_written (fe_view c n))),
     file_be = (\<lambda>n. section_after (file_be F n) (map_view be_written (be_view c n)))\<rparr>"

text \<open>Every changed or deleted section is in the file or is created first, and the library accepts the sections.\<close>

definition applicable :: "configuration \<Rightarrow> conf_file \<Rightarrow> bool" where
  "applicable c F = (\<forall>n. sourced_view (file_fe F n) (mhas (df_DeletedFE (cf_diffs c)) n, map_option fe_written (map_of (df_UpdatedFE (cf_diffs c)) n),
       map_option fe_written (map_of (df_CreatedFE (cf_diffs c)) n), None)
     \<and> sourced_view (file_be F n) (mhas (df_DeletedBE (cf_diffs c)) n, map_option be_written (deref c (df_UpdatedBE (cf_diffs c)) n),
       map_option be_written (deref c (df_CreatedBE (cf_diffs c)) n), None))"

definition diffs_valid :: "validity \<Rightarrow> configuration \<Rightarrow> bool" where
  "diffs_valid V c = (list_all (fe_valid V \<circ> snd) (df_CreatedFE (cf_diffs c)) \<and> list_all (fe_valid V \<circ> snd) (df_UpdatedFE (cf_diffs c))
     \<and> list_all (\<lambda>(_, p). be_valid V (cf_objs c ! p)) (df_CreatedBE (cf_diffs c)) \<and> list_all (\<lambda>(_, p). be_valid V (cf_objs c ! p)) (df_UpdatedBE (cf_diffs c)))"

lemma collect_did:
  assumes step: "\<And>x c F. x \<in> set xs \<Longrightarrow> in_tx tx c F \<Longrightarrow> ok x F \<Longrightarrow> did tx c (f x c) (g x F)"
    and keep: "\<And>x y F. x \<in> set xs \<Longrightarrow> y \<in> set xs \<Longrightarrow> x \<noteq> y \<Longrightarrow> ok y F \<Longrightarrow> ok y (g x F)"
  shows "distinct xs \<Longrightarrow> \<forall>x \<in> set xs. ok x F \<Longrightarrow> in_tx tx c F \<Longrightarrow> \<exists>c'. collect f xs (errs, c) = (errs, c') \<and> did tx c (None, c') (fold g xs F)"
  using step keep
proof (induction xs arbitrary: c F)
  case (Cons x xs)
  have 1: "did tx c (f x c) (g x F)" using Cons.prems by simp
  have ok: "\<forall>y \<in> set xs. ok y (g x F)"
  proof
    fix y assume y: "y \<in> set xs"
    then have "x \<noteq> y" using Cons.prems(1) by auto
    then show "ok y (g x F)" using Cons.prems(5)[of x y F] Cons.prems(2) y by simp
  qed
  obtain c' where c': "collect f xs (errs, snd (f x c)) = (errs, c')" "did tx (snd (f x c)) (None, c') (fold g xs (g x F))"
    using Cons.IH[OF _ ok did_in_tx[OF Cons.prems(3) 1]] Cons.prems(1,4,5) by auto
  have "collect f (x # xs) (errs, c) = (errs, c')" using 1 c'(1) by (simp add: collect_def did_def Errors_Add_def split_def Let_def)
  then show ?case using did_trans[OF 1 c'(2)] by simp
qed (simp add: collect_def did_none)

subsubsection \<open>The file after the loops\<close>

lemma fold_put_fe:
  assumes "wf_map m"
  shows "fold (\<lambda>(n, x). put_fe n (g x)) m F = F\<lparr>file_fe := \<lambda>n. case map_of m n of None \<Rightarrow> file_fe F n | Some x \<Rightarrow> g x\<rparr>"
  using assms
proof (induction m arbitrary: F)
  case (Cons a m)
  obtain k x where a: "a = (k, x)" by (cases a)
  have "map_of m k = None" using Cons.prems by (simp add: a wf_map_Cons map_of_None_mkeys)
  then have "(\<lambda>n. case map_of m n of None \<Rightarrow> file_fe (put_fe k (g x) F) n | Some x \<Rightarrow> g x) = (\<lambda>n. case map_of (a # m) n of None \<Rightarrow> file_fe F n | Some x \<Rightarrow> g x)"
    by (auto simp: a put_sections fun_eq_iff split: option.split)
  then show ?case using Cons.IH[of "put_fe k (g x) F"] Cons.prems by (simp add: a wf_map_Cons) (simp add: put_fe_def)
qed simp

lemma fold_put_be:
  assumes "wf_map m"
  shows "fold (\<lambda>(n, x). put_be n (g x)) m F = F\<lparr>file_be := \<lambda>n. case map_of m n of None \<Rightarrow> file_be F n | Some x \<Rightarrow> g x\<rparr>"
  using assms
proof (induction m arbitrary: F)
  case (Cons a m)
  obtain k x where a: "a = (k, x)" by (cases a)
  have "map_of m k = None" using Cons.prems by (simp add: a wf_map_Cons map_of_None_mkeys)
  then have "(\<lambda>n. case map_of m n of None \<Rightarrow> file_be (put_be k (g x) F) n | Some x \<Rightarrow> g x) = (\<lambda>n. case map_of (a # m) n of None \<Rightarrow> file_be F n | Some x \<Rightarrow> g x)"
    by (auto simp: a put_sections fun_eq_iff split: option.split)
  then show ?case using Cons.IH[of "put_be k (g x) F"] Cons.prems by (simp add: a wf_map_Cons) (simp add: put_be_def)
qed simp

lemma distinct_wf: "wf_map m \<Longrightarrow> distinct m"
  by (simp add: wf_map_def distinct_map)

text \<open>Two entries of a map with distinct keys that differ have different keys.\<close>

lemma entries_differ: "wf_map m \<Longrightarrow> x \<in> set m \<Longrightarrow> y \<in> set m \<Longrightarrow> x \<noteq> y \<Longrightarrow> fst x \<noteq> fst y"
  by (auto simp: wf_map_def distinct_map inj_on_def)

lemma applicableD:
  assumes "applicable c F"
  shows "mhas (df_DeletedFE (cf_diffs c)) n \<or> mhas (df_UpdatedFE (cf_diffs c)) n \<Longrightarrow> file_fe F n \<noteq> None \<or> mhas (df_CreatedFE (cf_diffs c)) n"
    "mhas (df_DeletedBE (cf_diffs c)) n \<or> mhas (df_UpdatedBE (cf_diffs c)) n \<Longrightarrow> file_be F n \<noteq> None \<or> mhas (df_CreatedBE (cf_diffs c)) n"
  using assms[unfolded applicable_def, rule_format, of n] by (auto simp: sourced_view_def mhas_def deref_def)

lemma wf_entry: "wf_map m \<Longrightarrow> (k, x) \<in> set m \<Longrightarrow> map_of m k = Some x"
  by (simp add: wf_map_def)

abbreviation created_file :: "configuration \<Rightarrow> conf_file \<Rightarrow> conf_file" where
  "created_file c F \<equiv> fold (\<lambda>(n, p). put_be n (Some (be_written (cf_objs c ! p)))) (df_CreatedBE (cf_diffs c))
     (fold (\<lambda>(n, fe). put_fe n (Some (fe_written fe))) (df_CreatedFE (cf_diffs c)) F)"

abbreviation updated_file :: "configuration \<Rightarrow> conf_file \<Rightarrow> conf_file" where
  "updated_file c F \<equiv> fold (\<lambda>(n, p). put_be n (Some (be_written (cf_objs c ! p)))) (df_UpdatedBE (cf_diffs c))
     (fold (\<lambda>(n, fe). put_fe n (Some (fe_written fe))) (df_UpdatedFE (cf_diffs c)) F)"

abbreviation deleted_file :: "configuration \<Rightarrow> conf_file \<Rightarrow> conf_file" where
  "deleted_file c F \<equiv> fold (\<lambda>(n, _). put_be n None) (df_DeletedBE (cf_diffs c)) (fold (\<lambda>(n, _). put_fe n None) (df_DeletedFE (cf_diffs c)) F)"

lemma applied_file_steps:
  assumes "conf_inv c" shows "deleted_file c (updated_file c (created_file c F)) = applied_file c F"
proof -
  have w: "wf_map (df_CreatedFE (cf_diffs c))" "wf_map (df_UpdatedFE (cf_diffs c))" "wf_map (df_CreatedBE (cf_diffs c))" "wf_map (df_UpdatedBE (cf_diffs c))"
    "wf_map (df_DeletedFE (cf_diffs c))" "wf_map (df_DeletedBE (cf_diffs c))" using assms by (simp_all add: conf_inv_def diffs_ok_def named_frontends_def)
  show ?thesis
    unfolding fold_put_fe[OF w(1)] fold_put_fe[OF w(2)] fold_put_fe[OF w(5)] fold_put_be[OF w(3)] fold_put_be[OF w(4)] fold_put_be[OF w(6)]
    by (auto simp: applied_file_def section_after_def map_view_def fe_view_def be_view_def deref_def mhas_def fun_eq_iff split: option.split)
qed

subsubsection \<open>The loops of a transaction\<close>

lemma collect_both:
  assumes "\<exists>c1. collect f xs ([], c) = ([], c1) \<and> did tx c (None, c1) F1" "\<And>c1. in_tx tx c1 F1 \<Longrightarrow> \<exists>c2. collect g ys ([], c1) = ([], c2) \<and> did tx c1 (None, c2) F2"
    "in_tx tx c F"
  shows "did tx c (let (errs, c) = collect f xs ([], c); (errs, c) = collect g ys (errs, c) in (Errors_Result errs, c)) F2"
proof -
  obtain c1 where 1: "collect f xs ([], c) = ([], c1)" "did tx c (None, c1) F1" using assms(1) by blast
  obtain c2 where 2: "collect g ys ([], c1) = ([], c2)" "did tx c1 (None, c2) F2" using assms(2)[of c1] did_in_tx[OF assms(3) 1(2)] by auto
  have "Errors_Result [] = None" by (simp add: Errors_Result_None)
  then show ?thesis using 1 2 did_trans[OF 1(2), of "(None, c2)" F2] by simp
qed

lemma processCreate_did:
  assumes laws: "native_laws tx api texts V" and inv: "conf_inv c" and v: "diffs_valid V c" and F: "in_tx tx cl F"
  shows "did tx cl (processCreate api (cf_objs c) (cf_diffs c) cl) (created_file c F)"
proof -
  let ?d = "cf_diffs c"
  have w: "wf_map (df_CreatedFE ?d)" "wf_map (df_CreatedBE ?d)" using inv by (simp_all add: conf_inv_def diffs_ok_def named_frontends_def)
  have n: "fe_Name f = k" "fe_valid V f" if "(k, f) \<in> set (df_CreatedFE ?d)" for k f
    using wf_entry[OF w(1) that] inv that v by (auto simp: conf_inv_def diffs_ok_def named_frontends_def diffs_valid_def list_all_iff)
  have b: "be_Name (cf_objs c ! p) = k" "be_valid V (cf_objs c ! p)" if "(k, p) \<in> set (df_CreatedBE ?d)" for k p
    using wf_entry[OF w(2) that] inv that v by (auto simp: conf_inv_def ptrs_ok_def diffs_valid_def list_all_iff)
  have s: "did tx c' (FrontendCreate api f c') (put_fe k (Some (fe_written f)) F')" if "(k, f) \<in> set (df_CreatedFE ?d)" "in_tx tx c' F'" for k f c' F'
    using FrontendCreate_did[OF laws that(2) n(2)[OF that(1)]] n(1)[OF that(1)] by simp
  have 1: "\<exists>c'. collect (\<lambda>(_, f). FrontendCreate api f) (df_CreatedFE ?d) ([], cl) = ([], c') \<and>
      did tx cl (None, c') (fold (\<lambda>(n, f). put_fe n (Some (fe_written f))) (df_CreatedFE ?d) F)"
    by (rule collect_did[where ok = "\<lambda>_ _. True"]) (use F w s in \<open>auto intro: distinct_wf\<close>)
  have s': "did tx c' (BackendCreate api (cf_objs c ! p) c') (put_be k (Some (be_written (cf_objs c ! p))) F')"
    if "(k, p) \<in> set (df_CreatedBE ?d)" "in_tx tx c' F'" for k p c' F' using BackendCreate_did[OF laws that(2) b(2)[OF that(1)]] b(1)[OF that(1)] by simp
  have 2: "\<exists>c'. collect (\<lambda>(_, p). BackendCreate api (cf_objs c ! p)) (df_CreatedBE ?d) ([], c1) = ([], c') \<and>
      did tx c1 (None, c') (fold (\<lambda>(n, p). put_be n (Some (be_written (cf_objs c ! p)))) (df_CreatedBE ?d) F1)" if "in_tx tx c1 F1" for c1 F1
    by (rule collect_did[where ok = "\<lambda>_ _. True"]) (use that w s' in \<open>auto intro: distinct_wf\<close>)
  show ?thesis unfolding processCreate_def by (rule collect_both[OF 1 2 F])
qed

text \<open>An edit or a deletion needs the section; those of the other names keep it.\<close>

lemma processUpdate_did:
  assumes laws: "native_laws tx api texts V" and inv: "conf_inv c" and v: "diffs_valid V c" and F: "in_tx tx cl F"
    and there: "\<And>n. mhas (df_UpdatedFE (cf_diffs c)) n \<Longrightarrow> file_fe F n \<noteq> None" "\<And>n. mhas (df_UpdatedBE (cf_diffs c)) n \<Longrightarrow> file_be F n \<noteq> None"
  shows "did tx cl (processUpdate api (cf_objs c) (cf_diffs c) cl) (updated_file c F)"
proof -
  let ?d = "cf_diffs c" and ?F1 = "fold (\<lambda>(n, f). put_fe n (Some (fe_written f))) (df_UpdatedFE (cf_diffs c)) F"
  have w: "wf_map (df_UpdatedFE ?d)" "wf_map (df_UpdatedBE ?d)" using inv by (simp_all add: conf_inv_def diffs_ok_def named_frontends_def)
  have n: "fe_Name f = k" "fe_valid V f" "file_fe F k \<noteq> None" if "(k, f) \<in> set (df_UpdatedFE ?d)" for k f
    using wf_entry[OF w(1) that] inv that v there(1)[of k] by (auto simp: conf_inv_def diffs_ok_def named_frontends_def diffs_valid_def list_all_iff mhas_def)
  have b: "be_Name (cf_objs c ! p) = k" "be_valid V (cf_objs c ! p)" "file_be F k \<noteq> None" if "(k, p) \<in> set (df_UpdatedBE ?d)" for k p
    using wf_entry[OF w(2) that] inv that v there(2)[of k] by (auto simp: conf_inv_def ptrs_ok_def diffs_valid_def list_all_iff mhas_def)
  have s: "did tx c' (FrontendEdit api f c') (put_fe k (Some (fe_written f)) F')" if "(k, f) \<in> set (df_UpdatedFE ?d)" "in_tx tx c' F'" "file_fe F' k \<noteq> None" for k f c' F'
    using FrontendEdit_did[OF laws that(2) _ n(2)[OF that(1)]] n(1)[OF that(1)] that(3) by auto
  have 1: "\<exists>c'. collect (\<lambda>(_, f). FrontendEdit api f) (df_UpdatedFE ?d) ([], cl) = ([], c') \<and> did tx cl (None, c') ?F1"
    by (rule collect_did[where ok = "\<lambda>(k, _) F. file_fe F k \<noteq> None"]) (use F w s n(3) in \<open>auto simp: put_sections intro: distinct_wf split: if_splits\<close>)
  have s': "did tx c' (BackendEdit api (cf_objs c ! p) c') (put_be k (Some (be_written (cf_objs c ! p))) F')"
    if "(k, p) \<in> set (df_UpdatedBE ?d)" "in_tx tx c' F'" "file_be F' k \<noteq> None" for k p c' F'
    using BackendEdit_did[OF laws that(2) _ b(2)[OF that(1)]] b(1)[OF that(1)] that(3) by auto
  have "file_be ?F1 k = file_be F k" for k unfolding fold_put_fe[OF w(1)] by simp
  then have 2: "\<exists>c'. collect (\<lambda>(_, p). BackendEdit api (cf_objs c ! p)) (df_UpdatedBE ?d) ([], c1) = ([], c') \<and>
      did tx c1 (None, c') (fold (\<lambda>(n, p). put_be n (Some (be_written (cf_objs c ! p)))) (df_UpdatedBE ?d) ?F1)" if "in_tx tx c1 ?F1" for c1
    using that by (intro collect_did[where ok = "\<lambda>(k, _) F. file_be F k \<noteq> None"]) (use w s' b(3) in \<open>auto simp: put_sections intro: distinct_wf split: if_splits\<close>)
  show ?thesis unfolding processUpdate_def by (rule collect_both[OF 1 2 F])
qed

lemma processDelete_did:
  assumes laws: "native_laws tx api texts V" and inv: "conf_inv c" and F: "in_tx tx cl F"
    and there: "\<And>n. mhas (df_DeletedFE (cf_diffs c)) n \<Longrightarrow> file_fe F n \<noteq> None" "\<And>n. mhas (df_DeletedBE (cf_diffs c)) n \<Longrightarrow> file_be F n \<noteq> None"
  shows "did tx cl (processDelete api (cf_diffs c) cl) (deleted_file c F)"
proof -
  let ?d = "cf_diffs c" and ?F1 = "fold (\<lambda>(n, _). put_fe n None) (df_DeletedFE (cf_diffs c)) F"
  have w: "wf_map (df_DeletedFE ?d)" "wf_map (df_DeletedBE ?d)" using inv by (simp_all add: conf_inv_def diffs_ok_def)
  have n: "file_fe F k \<noteq> None" if "(k, u) \<in> set (df_DeletedFE ?d)" for k u using wf_entry[OF w(1) that] there(1)[of k] by (simp add: mhas_def)
  have b: "file_be F k \<noteq> None" if "(k, u) \<in> set (df_DeletedBE ?d)" for k u using wf_entry[OF w(2) that] there(2)[of k] by (simp add: mhas_def)
  have 1: "\<exists>c'. collect (\<lambda>(n, _). FrontendDelete api n) (df_DeletedFE ?d) ([], cl) = ([], c') \<and> did tx cl (None, c') ?F1"
    by (rule collect_did[where ok = "\<lambda>(k, _) F. file_fe F k \<noteq> None"])
      (use F w n FrontendDelete_did[OF laws] in \<open>auto simp: put_sections intro: distinct_wf\<close>)
  have "file_be ?F1 k = file_be F k" for k unfolding fold_put_fe[OF w(1)] by simp
  then have 2: "\<exists>c'. collect (\<lambda>(n, _). BackendDelete api n) (df_DeletedBE ?d) ([], c1) = ([], c') \<and>
      did tx c1 (None, c') (fold (\<lambda>(n, _). put_be n None) (df_DeletedBE ?d) ?F1)" if "in_tx tx c1 ?F1" for c1
    using that by (intro collect_did[where ok = "\<lambda>(k, _) F. file_be F k \<noteq> None"])
      (use w b BackendDelete_did[OF laws] in \<open>auto simp: put_sections intro: distinct_wf\<close>)
  show ?thesis unfolding processDelete_def by (rule collect_both[OF 1 2 F])
qed

subsection \<open>A transaction\<close>

text \<open>The commands of a transaction that may fail for reasons outside the sections do not; the contents in \<open>P\<close> can be printed.\<close>

definition transactions_work :: "'w tx_view \<Rightarrow> 'w native_api \<Rightarrow> conf_file set \<Rightarrow> bool" where
  "transactions_work tx api P = ((\<forall>v w. \<exists>t w'. nc_StartTransaction api v w = (Inr t, w')) \<and> (\<forall>t w. \<forall>F \<in> P. tx t w = Some F \<longrightarrow> (\<exists>s. nc_GetParser api t w = Inr s))
     \<and> (\<forall>t w. t \<noteq> [] \<longrightarrow> tx t w \<noteq> None \<longrightarrow> fst (nc_DeleteTransaction api t w) = None \<and> fst (nc_CommitTransaction api t w) = None))"

lemma start_transaction:
  assumes laws: "native_laws tx api texts V" and F: "tx [] (cn_native c) = Some F" and r: "APIStartTransaction api c = (e, c')"
  shows "tx [] (cn_native c') = Some F" "cn_reload c' = cn_reload c"
    "e = None \<Longrightarrow> in_tx tx c' F \<and> (\<exists>s. nc_GetParser api (cn_activeTransaction c') (cn_native c') = Inr s \<and> cn_hashAtTransactionStart c' = nc_hash api s)"
    "transactions_work tx api P \<Longrightarrow> F \<in> P \<Longrightarrow> e = None"
proof -
  define v where "v = (case nc_GetVersion api (cn_native c) of Inl _ \<Rightarrow> 1 | Inr v \<Rightarrow> if v < 1 then 1 else v)"
  obtain res w where st: "nc_StartTransaction api v (cn_native c) = (res, w)" by fastforce
  have TL: "transaction_laws tx api texts" by (rule native_lawsD(1)[OF laws])
  have f: "tx [] w = Some F" using transaction_lawsD(3)[OF TL, of v "cn_native c"] st F by simp
  have t: "res = Inr t \<Longrightarrow> t \<noteq> [] \<and> tx t w = Some F" for t using transaction_lawsD(2)[OF TL, of v "cn_native c" t w] st F by simp
  note R = r[unfolded APIStartTransaction_def with_conf_None[OF native_configuration[OF laws]] v_def[symmetric] Let_def st prod.case]
  show "tx [] (cn_native c') = Some F" "cn_reload c' = cn_reload c" using R f by (auto split: sum.splits)
  show "in_tx tx c' F \<and> (\<exists>s. nc_GetParser api (cn_activeTransaction c') (cn_native c') = Inr s \<and> cn_hashAtTransactionStart c' = nc_hash api s)" if "e = None"
    using R t that by (auto simp: in_tx_def computeConfigurationHash_def read_native_def map_sum_def split: sum.splits)
  show "e = None" if work: "transactions_work tx api P" "F \<in> P"
  proof -
    obtain t' where t': "res = Inr t'" using work(1) st unfolding transactions_work_def by (metis prod.inject)
    then obtain s where "nc_GetParser api t' w = Inr s" using work t[OF t'] unfolding transactions_work_def by blast
    then show ?thesis using R t' by (auto simp: computeConfigurationHash_def read_native_def)
  qed
qed

lemma commit_transaction:
  assumes laws: "native_laws tx api texts V" and F: "tx [] (cn_native c0) = Some F" "in_tx tx c0 F"
    and h: "nc_GetParser api (cn_activeTransaction c0) (cn_native c0) = Inr s" "cn_hashAtTransactionStart c0 = nc_hash api s"
    and d: "did tx c0 (None, c) F'" and r: "APIFinalCommitTransaction api c = (e, c')"
  shows "e = None \<Longrightarrow> tx [] (cn_native c') = Some F'" "e \<noteq> None \<Longrightarrow> tx [] (cn_native c') = Some F" "cn_reload c' = cn_reload c"
    "transactions_work tx api P \<Longrightarrow> F' \<in> P \<Longrightarrow> e = None"
proof -
  let ?t = "cn_activeTransaction c"
  have t: "?t \<noteq> []" "?t = cn_activeTransaction c0" "tx ?t (cn_native c) = Some F'" "tx [] (cn_native c) = Some F" "cn_hashAtTransactionStart c = nc_hash api s"
    using F d h(2) by (simp_all add: in_tx_def did_def)
  note TL = transaction_lawsD[OF native_lawsD(1)[OF laws]]
  note R = r[unfolded APIFinalCommitTransaction_def with_conf_None[OF native_configuration[OF laws]]]
  have same: "F' = F" if "nc_GetParser api ?t (cn_native c) = Inr s'" "nc_hash api s = nc_hash api s'" for s'
  proof -
    have "s = s'" using inj_onD[OF TL(1) that(2) TL(4)[OF h(1)] TL(4)[OF that(1)]] .
    then have "tx ?t (cn_native c) = tx ?t (cn_native c0)" using TL(5)[of ?t "cn_native c" s "cn_native c0"] h(1) that(1) t(2) by simp
    then show ?thesis using t(2,3) F(2) by (simp add: in_tx_def)
  qed
  have del: "tx [] (snd (nc_DeleteTransaction api ?t (cn_native c))) = Some F" using TL(6)[OF t(1)] t(4) by simp
  have com: "tx [] (snd (nc_CommitTransaction api ?t (cn_native c))) = (if fst (nc_CommitTransaction api ?t (cn_native c)) = None then Some F' else Some F)"
    using TL(7)[OF t(1), of "cn_native c"] t(3,4) by simp
  show "e = None \<Longrightarrow> tx [] (cn_native c') = Some F'" "e \<noteq> None \<Longrightarrow> tx [] (cn_native c') = Some F" "cn_reload c' = cn_reload c"
    using R t same del com by (auto simp: computeConfigurationHash_def read_native_def on_native_def map_sum_def split_def Let_def split: sum.splits if_splits)
  show "e = None" if work: "transactions_work tx api P" "F' \<in> P"
  proof -
    obtain s' where "nc_GetParser api ?t (cn_native c) = Inr s'" using work t(3) unfolding transactions_work_def by blast
    moreover have "fst (nc_DeleteTransaction api ?t (cn_native c)) = None" "fst (nc_CommitTransaction api ?t (cn_native c)) = None"
      using work(1) t(1,3) unfolding transactions_work_def by (metis option.distinct(1))+
    ultimately show ?thesis using R by (auto simp: computeConfigurationHash_def read_native_def on_native_def split_def Let_def split: if_splits)
  qed
qed

text \<open>After the creations, everything that is updated or deleted is there; the updates keep it.\<close>

lemma created_there:
  assumes "conf_inv c" "applicable c F"
  shows "mhas (df_DeletedFE (cf_diffs c)) n \<or> mhas (df_UpdatedFE (cf_diffs c)) n \<Longrightarrow> file_fe (created_file c F) n \<noteq> None"
    "mhas (df_DeletedBE (cf_diffs c)) n \<or> mhas (df_UpdatedBE (cf_diffs c)) n \<Longrightarrow> file_be (created_file c F) n \<noteq> None"
proof -
  have w: "wf_map (df_CreatedFE (cf_diffs c))" "wf_map (df_CreatedBE (cf_diffs c))" using assms(1) by (simp_all add: conf_inv_def diffs_ok_def named_frontends_def)
  show "file_fe (created_file c F) n \<noteq> None" if "mhas (df_DeletedFE (cf_diffs c)) n \<or> mhas (df_UpdatedFE (cf_diffs c)) n"
    using applicableD(1)[OF assms(2) that] unfolding fold_put_fe[OF w(1)] fold_put_be[OF w(2)] by (auto simp: mhas_def split: option.split)
  show "file_be (created_file c F) n \<noteq> None" if "mhas (df_DeletedBE (cf_diffs c)) n \<or> mhas (df_UpdatedBE (cf_diffs c)) n"
    using applicableD(2)[OF assms(2) that] unfolding fold_put_fe[OF w(1)] fold_put_be[OF w(2)] by (auto simp: mhas_def split: option.split)
qed

lemma updated_there:
  assumes "conf_inv c"
  shows "file_fe F n \<noteq> None \<Longrightarrow> file_fe (updated_file c F) n \<noteq> None" "file_be F n \<noteq> None \<Longrightarrow> file_be (updated_file c F) n \<noteq> None"
proof -
  have w: "wf_map (df_UpdatedFE (cf_diffs c))" "wf_map (df_UpdatedBE (cf_diffs c))" using assms by (simp_all add: conf_inv_def diffs_ok_def named_frontends_def)
  show "file_fe F n \<noteq> None \<Longrightarrow> file_fe (updated_file c F) n \<noteq> None" "file_be F n \<noteq> None \<Longrightarrow> file_be (updated_file c F) n \<noteq> None"
    unfolding fold_put_fe[OF w(1)] fold_put_be[OF w(2)] by (auto split: option.split)
qed

lemma run_transaction_ok:
  assumes laws: "native_laws tx api texts V" and inv: "conf_inv c" and v: "diffs_valid V c" and ap: "applicable c F"
    and F: "tx [] (cn_native cl) = Some F" and r: "run_transaction api (cf_objs c) (cf_diffs c) cl = (e, cl')"
  shows "e = None \<Longrightarrow> tx [] (cn_native cl') = Some (applied_file c F)" "e \<noteq> None \<Longrightarrow> tx [] (cn_native cl') = Some F"
    "transactions_work tx api {F, applied_file c F} \<Longrightarrow> e = None"
proof -
  obtain e0 c0 where s0: "APIStartTransaction api cl = (e0, c0)" by fastforce
  note st = start_transaction[OF laws F s0]
  have all: "(e = None \<longrightarrow> tx [] (cn_native cl') = Some (applied_file c F)) \<and> (e \<noteq> None \<longrightarrow> tx [] (cn_native cl') = Some F)
    \<and> (transactions_work tx api {F, applied_file c F} \<longrightarrow> e = None)"
  proof (cases e0)
    case None
    obtain s where f0: "in_tx tx c0 F" and s: "nc_GetParser api (cn_activeTransaction c0) (cn_native c0) = Inr s" "cn_hashAtTransactionStart c0 = nc_hash api s"
      using st(3) None by blast
    let ?r1 = "processCreate api (cf_objs c) (cf_diffs c) c0" let ?r2 = "processUpdate api (cf_objs c) (cf_diffs c) (snd ?r1)" let ?r3 = "processDelete api (cf_diffs c) (snd ?r2)"
    have 1: "did tx c0 ?r1 (created_file c F)" by (rule processCreate_did[OF laws inv v f0])
    note f1 = did_in_tx[OF f0 1]
    have 2: "did tx (snd ?r1) ?r2 (updated_file c (created_file c F))" by (rule processUpdate_did[OF laws inv v f1]) (rule created_there[OF inv ap], blast)+
    note f2 = did_in_tx[OF f1 2]
    have 3: "did tx (snd ?r2) ?r3 (deleted_file c (updated_file c (created_file c F)))"
      by (rule processDelete_did[OF laws inv f2]) (rule updated_there[OF inv], rule created_there[OF inv ap], blast)+
    have d: "did tx c0 (None, snd ?r3) (applied_file c F)"
      using did_trans[OF did_trans[OF 1 2] 3] unfolding applied_file_steps[OF inv] by (simp add: did_def)
    have "run_transaction api (cf_objs c) (cf_diffs c) cl = APIFinalCommitTransaction api (snd ?r3)"
      using 1 2 3 by (simp add: run_transaction_def s0 None or_stop_def did_def split_def split: option.split)
    then have "APIFinalCommitTransaction api (snd ?r3) = (e, cl')" using r by simp
    from commit_transaction[OF laws st(1) f0 s d this] show ?thesis by blast
  next
    case (Some err)
    then have "e = Some err" "cl' = c0" using r s0 by (simp_all add: run_transaction_def or_stop_def)
    then show ?thesis using st(1,4) Some by blast
  qed
  show "e = None \<Longrightarrow> tx [] (cn_native cl') = Some (applied_file c F)" "e \<noteq> None \<Longrightarrow> tx [] (cn_native cl') = Some F"
    "transactions_work tx api {F, applied_file c F} \<Longrightarrow> e = None" using all by blast+
qed

subsection \<open>Reloads\<close>

text \<open>The operations never take back a request for a reload and leave the state of the runtime updates alone.\<close>

definition reload_le :: "reload_mgr \<Rightarrow> reload_mgr \<Rightarrow> bool" where
  "reload_le r r' = ((rl_reload r \<longrightarrow> rl_reload r') \<and> rl_attempted r' = rl_attempted r \<and> rl_failed r' = rl_failed r)"

lemma reload_le_refl [simp]: "reload_le r r" and reload_le_trans: "reload_le r r' \<Longrightarrow> reload_le r' r'' \<Longrightarrow> reload_le r r''"
  by (auto simp: reload_le_def)

lemma reload_on_native [simp]: "cn_reload (snd (on_native f c)) = cn_reload c"
  by (simp add: on_native_def split_def Let_def)

lemma reload_with_conf: "(\<And>c. cn_reload (snd (f c)) = cn_reload c) \<Longrightarrow> cn_reload (snd (with_conf api f c)) = cn_reload c"
  by (simp add: with_conf_def split: option.split)

lemma reload_until_error: "(\<And>x c. cn_reload (snd (f x c)) = cn_reload c) \<Longrightarrow> cn_reload (snd (until_error f xs c)) = cn_reload c"
  by (induction xs arbitrary: c) (auto split: prod.split option.split, (metis snd_conv)+)

lemma reload_best_effort: "(\<And>x c. cn_reload (snd (f x c)) = cn_reload c) \<Longrightarrow> cn_reload (snd (best_effort f xs c)) = cn_reload c"
  unfolding best_effort_def by (induction xs arbitrary: c) auto

lemma reload_or_stop: "cn_reload (snd r) = x \<Longrightarrow> (\<And>c. cn_reload c = x \<Longrightarrow> cn_reload (snd (f c)) = x) \<Longrightarrow> cn_reload (snd (or_stop r f)) = x"
  by (cases r) (auto simp: or_stop_def split: option.split)

lemma reload_delete_all: "cn_reload (snd (rules_delete_all ra n c)) = cn_reload c" "cn_reload (snd (children_delete_all ca name n c)) = cn_reload c"
  by (simp_all add: rules_delete_all_def children_delete_all_def reload_until_error split: sum.split)

lemma reload_replace_all [simp]:
  "cn_reload (snd (ACLReplaceAll api sec n acls c)) = cn_reload c" "cn_reload (snd (HTTPRequestReplaceAll api sec n https c)) = cn_reload c"
  "cn_reload (snd (TCPRequestReplaceAll api sec n tcps c)) = cn_reload c" "cn_reload (snd (UseBackendReplaceAll api n switches c)) = cn_reload c"
  "cn_reload (snd (BindReplaceAll api sec n binds c)) = cn_reload c" "cn_reload (snd (ServerReplaceAll api sec n servers c)) = cn_reload c"
  by (unfold ACLReplaceAll_def HTTPRequestReplaceAll_def TCPRequestReplaceAll_def UseBackendReplaceAll_def BindReplaceAll_def ServerReplaceAll_def
      ACLsDeleteAll_def HTTPRequestDeleteAll_def TCPRequestDeleteAll_def UseBackendDeleteAll_def BindDeleteAll_def ServerDeleteAll_def
      ACLsCreate_def HTTPRequestCreate_def TCPRequestCreate_def UseBackendCreate_def BindCreate_def ServerCreate_def)
    (rule reload_or_stop, rule reload_with_conf, rule reload_delete_all, simp add: reload_best_effort reload_with_conf split_def)+

lemma reload_frontend_lists [simp]: "cn_reload (snd (frontend_lists api f c)) = cn_reload c"
  unfolding frontend_lists_def by (intro reload_or_stop) auto

lemma SetReload_le: "reload_le (cn_reload c) (cn_reload (client_SetReload c))" "rl_reload (cn_reload (client_SetReload c))"
  by (simp_all add: client_SetReload_def SetReload_def reload_le_def)

lemma le_or_stop:
  fixes r :: "go_error \<times> 'w client_native"
  assumes "cn_reload (snd r) = cn_reload c" "\<And>c'. cn_reload c' = cn_reload c \<Longrightarrow> reload_le (cn_reload c) (cn_reload (snd (f c')))"
  shows "reload_le (cn_reload c) (cn_reload (snd (or_stop r f)))"
  using assms by (cases r) (auto simp: or_stop_def split: option.split)

lemma frontend_reload:
  "reload_le (cn_reload c) (cn_reload (snd (FrontendCreate api f c)))" "fst (FrontendCreate api f c) = None \<Longrightarrow> rl_reload (cn_reload (snd (FrontendCreate api f c)))"
  "reload_le (cn_reload c) (cn_reload (snd (FrontendEdit api f c)))" "fst (FrontendEdit api f c) = None \<Longrightarrow> rl_reload (cn_reload (snd (FrontendEdit api f c)))"
  "reload_le (cn_reload c) (cn_reload (snd (FrontendDelete api n c)))" "fst (FrontendDelete api n c) = None \<Longrightarrow> rl_reload (cn_reload (snd (FrontendDelete api n c)))"
  using SetReload_le
  by (auto simp: FrontendCreate_def FrontendEdit_def FrontendDelete_def with_conf_def or_stop_def split_def Let_def client_SetReload_def SetReload_def reload_le_def
      split: option.splits if_splits)

lemma backend_reload:
  "reload_le (cn_reload c) (cn_reload (snd (BackendCreate api b c)))" "fst (BackendCreate api b c) = None \<Longrightarrow> rl_reload (cn_reload (snd (BackendCreate api b c)))"
  "reload_le (cn_reload c) (cn_reload (snd (BackendDelete api n c)))" "fst (BackendDelete api n c) = None \<Longrightarrow> rl_reload (cn_reload (snd (BackendDelete api n c)))"
  by (auto simp: BackendCreate_def BackendDelete_def with_conf_def or_stop_def split_def Let_def client_SetReload_def SetReload_def reload_le_def
      split: option.splits if_splits)

text \<open>An edit without a reload changes the servers only, after a successful attempt to set the state of servers at run time.\<close>

definition only_servers :: "be_section \<Rightarrow> backend \<Rightarrow> bool" where
  "only_servers s b = (\<exists>previous. be_written previous = s \<and> backend_equal_but_servers previous b)"

lemma edit_reload:
  "reload_le (cn_reload c) (cn_reload (snd (BackendEdit api b c)))"
  "native_laws tx api texts V \<Longrightarrow> in_tx tx c F \<Longrightarrow> file_be F (be_Name b) = Some s \<Longrightarrow> fst (BackendEdit api b c) = None \<Longrightarrow> \<not> rl_reload (cn_reload (snd (BackendEdit api b c)))
    \<Longrightarrow> rl_attempted (cn_reload c) \<and> \<not> rl_failed (cn_reload c) \<and> only_servers s b"
proof -
  let ?g = "\<lambda>prev c. if edit_needs_reload (backend_equal_but_servers prev b) (cn_reload c) then client_SetReload c else c"
  let ?rest = "\<lambda>prev c. or_stop (ACLReplaceAll api SecBackends (be_Name b) (be_ACLList b) c) (\<lambda>c. or_stop (HTTPRequestReplaceAll api SecBackends (be_Name b) (be_HTTPRequestRuleList b) c) (\<lambda>c.
      ServerReplaceAll api SecBackends (be_Name b) (map_or_empty (be_Servers b)) (?g prev c)))"
  let ?edit = "on_native (sa_Edit (nc_Backend api) (be_Name b) (backend_base b))"
  have g: "reload_le (cn_reload c') (cn_reload (?g prev c'))" for prev c' by (simp add: SetReload_le)
  have rest: "reload_le (cn_reload c') (cn_reload (snd (?rest prev c')))" for prev c'
  proof (rule le_or_stop)
    fix c1 :: "'a client_native" assume 1: "cn_reload c1 = cn_reload c'"
    have "reload_le (cn_reload c1) (cn_reload (snd (or_stop (HTTPRequestReplaceAll api SecBackends (be_Name b) (be_HTTPRequestRuleList b) c1) (\<lambda>c.
        ServerReplaceAll api SecBackends (be_Name b) (map_or_empty (be_Servers b)) (?g prev c)))))" by (rule le_or_stop) (simp, metis g reload_replace_all(6))
    then show "reload_le (cn_reload c') (cn_reload (snd (or_stop (HTTPRequestReplaceAll api SecBackends (be_Name b) (be_HTTPRequestRuleList b) c1) (\<lambda>c.
        ServerReplaceAll api SecBackends (be_Name b) (map_or_empty (be_Servers b)) (?g prev c)))))" unfolding 1 .
  qed simp
  have whole: "reload_le (cn_reload c) (cn_reload (snd (or_stop (?edit c) (?rest prev))))" for prev by (rule le_or_stop) (simp, metis rest)
  show "reload_le (cn_reload c) (cn_reload (snd (BackendEdit api b c)))"
    using whole by (simp add: BackendEdit_def with_conf_def Let_def split: option.split sum.split)
  show "rl_attempted (cn_reload c) \<and> \<not> rl_failed (cn_reload c) \<and> only_servers s b"
    if laws: "native_laws tx api texts V" and F: "in_tx tx c F" "file_be F (be_Name b) = Some s"
      and e: "fst (BackendEdit api b c) = None" "\<not> rl_reload (cn_reload (snd (BackendEdit api b c)))"
  proof -
    obtain prev where prev: "BackendGet api (be_Name b) c = Inr prev" "be_written prev = s" using BackendGet_there[OF laws F] by blast
    have B: "BackendEdit api b c = or_stop (?edit c) (?rest prev)"
      by (simp add: BackendEdit_def with_conf_None[OF native_configuration[OF laws]] prev(1) Let_def)
    have ok: "fst (or_stop r f) = None \<Longrightarrow> fst r = None \<and> or_stop r f = f (snd r)" for r and f :: "'a client_native \<Rightarrow> go_error \<times> 'a client_native"
      by (cases r) (auto simp: or_stop_def split: option.splits)
    have o1: "BackendEdit api b c = ?rest prev (snd (?edit c))" using ok[of "?edit c" "?rest prev"] e(1) B by simp
    let ?c2 = "snd (ACLReplaceAll api SecBackends (be_Name b) (be_ACLList b) (snd (?edit c)))"
    let ?c3 = "snd (HTTPRequestReplaceAll api SecBackends (be_Name b) (be_HTTPRequestRuleList b) ?c2)"
    have o2: "BackendEdit api b c = or_stop (HTTPRequestReplaceAll api SecBackends (be_Name b) (be_HTTPRequestRuleList b) ?c2) (\<lambda>c.
        ServerReplaceAll api SecBackends (be_Name b) (map_or_empty (be_Servers b)) (?g prev c))" using conjunct2[OF ok[OF e(1)[unfolded o1]]] unfolding o1 .
    have "BackendEdit api b c = ServerReplaceAll api SecBackends (be_Name b) (map_or_empty (be_Servers b)) (?g prev ?c3)"
      using conjunct2[OF ok[OF e(1)[unfolded o2]]] unfolding o2 .
    then have "\<not> rl_reload (cn_reload (?g prev ?c3))" using e(2) by simp
    then have "\<not> edit_needs_reload (backend_equal_but_servers prev b) (cn_reload c)" using SetReload_le(2)[of ?c3] by (auto split: if_splits)
    then show ?thesis using prev(2)
      by (auto simp: edit_needs_reload_def only_servers_def DynamicUpdateServerStateAttempted_def DynamicUpdateServerStateFailed_def split: if_splits)
  qed
qed

lemma collect_le:
  assumes "\<And>x c. reload_le (cn_reload c) (cn_reload (snd (f x c)))"
  shows "reload_le (cn_reload c) (cn_reload (snd (collect f xs (errs, c))))"
proof (induction xs arbitrary: errs c)
  case (Cons x xs)
  have "collect f (x # xs) (errs, c) = collect f xs (Errors_Add [fst (f x c)] errs, snd (f x c))" by (simp add: collect_def split_def Let_def)
  then show ?case using reload_le_trans[OF assms Cons.IH] by simp
qed (simp add: collect_def)

lemma collect_result_le:
  assumes "\<And>x c. reload_le (cn_reload c) (cn_reload (snd (f x c)))" "collect f xs (errs, c) = (errs', c')"
  shows "reload_le (cn_reload c) (cn_reload c')"
  using collect_le[of f c xs errs, OF assms(1)] assms(2) by simp

text \<open>A loop whose steps ask for a reload when they succeed, and that ends without errors, asks for a reload unless it is empty.\<close>

lemma collect_keeps_errors: "\<exists>es'. fst (collect f zs (es, c)) = es @ es'"
proof (induction zs arbitrary: es c)
  case (Cons z zs)
  have "collect f (z # zs) (es, c) = collect f zs (Errors_Add [fst (f z c)] es, snd (f z c))" by (simp add: collect_def split_def Let_def)
  then show ?case using Cons.IH[of "Errors_Add [fst (f z c)] es" "snd (f z c)"] by (auto simp: Errors_Add_filter)
qed (simp add: collect_def)

lemma collect_asks:
  assumes "\<And>x c. reload_le (cn_reload c) (cn_reload (snd (f x c)))" "\<And>x c. fst (f x c) = None \<Longrightarrow> rl_reload (cn_reload (snd (f x c)))"
    "collect f xs ([], c) = ([], c')" "\<not> rl_reload (cn_reload c')"
  shows "xs = []"
proof (cases xs)
  case (Cons x ys)
  have e: "collect f (x # ys) ([], c) = collect f ys (Errors_Add [fst (f x c)] [], snd (f x c))" by (simp add: collect_def split_def Let_def)
  then have "Errors_Add [fst (f x c)] [] = []" using assms(3) collect_keeps_errors[of f ys "Errors_Add [fst (f x c)] []" "snd (f x c)"] by (auto simp: Cons)
  then have "fst (f x c) = None" by (cases "fst (f x c)") (simp_all add: Errors_Add_def)
  then have "rl_reload (cn_reload c')" using assms(2)[of x c] collect_le[of f "snd (f x c)" ys "Errors_Add [fst (f x c)] []", OF assms(1)] e assms(3)
    by (simp add: Cons reload_le_def)
  then show ?thesis using assms(4) by simp
qed simp

lemma edits_reload:
  assumes laws: "native_laws tx api texts V"
  shows "wf_map m \<Longrightarrow> in_tx tx c F \<Longrightarrow> (\<And>k p. (k, p) \<in> set m \<Longrightarrow> be_Name (objs ! p) = k \<and> be_valid V (objs ! p) \<and> file_be F k \<noteq> None)
    \<Longrightarrow> \<not> rl_reload (cn_reload (snd (collect (\<lambda>(_, p). BackendEdit api (objs ! p)) m (errs, c)))) \<Longrightarrow> (k, p) \<in> set m
    \<Longrightarrow> rl_attempted (cn_reload c) \<and> \<not> rl_failed (cn_reload c) \<and> (\<exists>s. file_be F k = Some s \<and> only_servers s (objs ! p))"
proof (induction m arbitrary: c F errs)
  case (Cons x m)
  obtain k0 p0 where x: "x = (k0, p0)" by (cases x)
  let ?f = "\<lambda>(_, p). BackendEdit api (objs ! p)" and ?b = "objs ! p0" let ?r = "BackendEdit api ?b c"
  have n: "be_Name ?b = k0" "be_valid V ?b" "file_be F k0 \<noteq> None" using Cons.prems(3)[of k0 p0] by (simp_all add: x)
  obtain s where s: "file_be F k0 = Some s" using n(3) by blast
  have d: "did tx c ?r (put_be k0 (Some (be_written ?b)) F)" using BackendEdit_did[OF laws Cons.prems(2) _ n(2)] s n(1) by auto
  have w: "wf_map m" "k0 \<notin> mkeys m" using Cons.prems(1) by (simp_all add: x wf_map_Cons)
  have e: "collect ?f (x # m) (errs, c) = collect ?f m (errs, snd ?r)" using d by (simp add: collect_def x split_def Let_def did_def Errors_Add_def)
  have nr: "\<not> rl_reload (cn_reload (snd (collect ?f m (errs, snd ?r))))" using Cons.prems(4) unfolding e .
  have le: "reload_le (cn_reload (snd ?r)) (cn_reload (snd (collect ?f m (errs, snd ?r))))" by (rule collect_le) (simp add: edit_reload(1) split: prod.split)
  have h: "rl_attempted (cn_reload c) \<and> \<not> rl_failed (cn_reload c) \<and> only_servers s ?b"
    using edit_reload(2)[OF laws Cons.prems(2), of ?b s] s n(1) d nr le by (simp add: did_def reload_le_def)
  have eq: "rl_attempted (cn_reload (snd ?r)) = rl_attempted (cn_reload c)" "rl_failed (cn_reload (snd ?r)) = rl_failed (cn_reload c)"
    using edit_reload(1)[of c api ?b] by (simp_all add: reload_le_def)
  show ?case
  proof (cases "(k, p) = x")
    case True
    then show ?thesis using h s by (simp add: x)
  next
    case False
    then have km: "(k, p) \<in> set m" using Cons.prems(5) by simp
    have other: "k' \<noteq> k0" if "(k', p') \<in> set m" for k' p' using that w(2) by (force simp: mkeys_def)
    have pre: "be_Name (objs ! p') = k' \<and> be_valid V (objs ! p') \<and> file_be (put_be k0 (Some (be_written ?b)) F) k' \<noteq> None" if "(k', p') \<in> set m" for k' p'
      using Cons.prems(3)[of k' p'] that by (simp add: put_sections)
    show ?thesis using Cons.IH[OF w(1) did_in_tx[OF Cons.prems(2) d] pre nr km] eq other[OF km] by (simp add: put_sections)
  qed
qed simp

lemma run_transaction_reload:
  assumes laws: "native_laws tx api texts V" and inv: "conf_inv c" and v: "diffs_valid V c" and ap: "applicable c F"
    and F: "tx [] (cn_native cl) = Some F" and r: "run_transaction api (cf_objs c) (cf_diffs c) cl = (None, cl')" and nr: "\<not> rl_reload (cn_reload cl')"
  shows "df_CreatedFE (cf_diffs c) = []" "df_CreatedBE (cf_diffs c) = []" "df_UpdatedFE (cf_diffs c) = []" "df_DeletedFE (cf_diffs c) = []" "df_DeletedBE (cf_diffs c) = []"
    "(k, p) \<in> set (df_UpdatedBE (cf_diffs c)) \<Longrightarrow> rl_attempted (cn_reload cl) \<and> \<not> rl_failed (cn_reload cl) \<and> (\<exists>s. file_be F k = Some s \<and> only_servers s (cf_objs c ! p))"
proof -
  let ?d = "cf_diffs c" and ?objs = "cf_objs c"
  obtain e0 c0 where s0: "APIStartTransaction api cl = (e0, c0)" by fastforce
  have e0: "e0 = None" using r by (cases e0) (simp_all add: run_transaction_def s0 or_stop_def)
  note st = start_transaction[OF laws F s0]
  have f0: "in_tx tx c0 F" using st(3) e0 by blast
  have w: "wf_map (df_UpdatedBE ?d)" using inv by (simp add: conf_inv_def diffs_ok_def)
  obtain es1 c1 where 1: "collect (\<lambda>(_, f). FrontendCreate api f) (df_CreatedFE ?d) ([], c0) = (es1, c1)" by fastforce
  obtain es2 c2 where 2: "collect (\<lambda>(_, p). BackendCreate api (?objs ! p)) (df_CreatedBE ?d) (es1, c1) = (es2, c2)" by fastforce
  obtain es3 c3 where 3: "collect (\<lambda>(_, f). FrontendEdit api f) (df_UpdatedFE ?d) ([], c2) = (es3, c3)" by fastforce
  obtain es4 c4 where 4: "collect (\<lambda>(_, p). BackendEdit api (?objs ! p)) (df_UpdatedBE ?d) (es3, c3) = (es4, c4)" by fastforce
  obtain es5 c5 where 5: "collect (\<lambda>(n, _). FrontendDelete api n) (df_DeletedFE ?d) ([], c4) = (es5, c5)" by fastforce
  obtain es6 c6 where 6: "collect (\<lambda>(n, _). BackendDelete api n) (df_DeletedBE ?d) (es5, c5) = (es6, c6)" by fastforce
  have pc: "processCreate api ?objs ?d c0 = (Errors_Result es2, c2)" "processUpdate api ?objs ?d c2 = (Errors_Result es4, c4)" "processDelete api ?d c4 = (Errors_Result es6, c6)"
    by (simp_all add: processCreate_def processUpdate_def processDelete_def 1 2 3 4 5 6)
  have none: "es2 = []" "es4 = []" "es6 = []" and commit: "APIFinalCommitTransaction api c6 = (None, cl')"
    using r by (auto simp: run_transaction_def s0 e0 or_stop_def pc Errors_Result_None[symmetric] split: option.splits)
  have grow: "collect f xs (es, x) = ([], y) \<Longrightarrow> es = []" for f :: "'x \<Rightarrow> 'a client_native \<Rightarrow> go_error \<times> 'a client_native" and xs es x y
    using collect_keeps_errors[of f xs es x] by auto
  note es = grow[OF 2[unfolded none]] grow[OF 4[unfolded none]] grow[OF 6[unfolded none]]
  have le: "reload_le (cn_reload c1) (cn_reload c2)" "reload_le (cn_reload c2) (cn_reload c3)" "reload_le (cn_reload c3) (cn_reload c4)"
      "reload_le (cn_reload c4) (cn_reload c5)" "reload_le (cn_reload c5) (cn_reload c6)"
    by (rule collect_result_le[OF _ 2] collect_result_le[OF _ 3] collect_result_le[OF _ 4] collect_result_le[OF _ 5] collect_result_le[OF _ 6],
        simp add: frontend_reload backend_reload edit_reload(1) split_def)+
  have "cn_reload cl' = cn_reload c6" using commit native_configuration[OF laws]
    by (auto simp: APIFinalCommitTransaction_def with_conf_def on_native_def split_def Let_def split: sum.splits if_splits)
  then have n6: "\<not> rl_reload (cn_reload c6)" using nr by simp
  then have n5: "\<not> rl_reload (cn_reload c5)" "\<not> rl_reload (cn_reload c4)" "\<not> rl_reload (cn_reload c3)" "\<not> rl_reload (cn_reload c2)" "\<not> rl_reload (cn_reload c1)"
    using le by (auto simp: reload_le_def)
  show cfe: "df_CreatedFE ?d = []" by (rule collect_asks[OF _ _ 1[unfolded es] n5(5)]) (simp_all add: frontend_reload(1,2) split_def)
  show cbe: "df_CreatedBE ?d = []" by (rule collect_asks[OF _ _ 2[unfolded es none] n5(4)]) (simp_all add: backend_reload(1,2) split_def)
  show ufe: "df_UpdatedFE ?d = []" by (rule collect_asks[OF _ _ 3[unfolded es] n5(3)]) (simp_all add: frontend_reload(3,4) split_def)
  show "df_DeletedFE ?d = []" by (rule collect_asks[OF _ _ 5[unfolded es] n5(1)]) (simp_all add: frontend_reload(5,6) split_def)
  show "df_DeletedBE ?d = []" by (rule collect_asks[OF _ _ 6[unfolded es none] n6]) (simp_all add: backend_reload(3,4) split_def)
  have same: "c3 = c0" using 1 2 3 unfolding cfe cbe ufe by (simp add: collect_def)
  have pre: "be_Name (?objs ! q) = n \<and> be_valid V (?objs ! q) \<and> file_be F n \<noteq> None" if "(n, q) \<in> set (df_UpdatedBE ?d)" for n q
    using wf_entry[OF w that] inv that v applicableD(2)[OF ap, of n] cbe by (auto simp: conf_inv_def ptrs_ok_def diffs_valid_def list_all_iff mhas_def)
  show "rl_attempted (cn_reload cl) \<and> \<not> rl_failed (cn_reload cl) \<and> (\<exists>s. file_be F k = Some s \<and> only_servers s (?objs ! p))" if "(k, p) \<in> set (df_UpdatedBE ?d)"
    using edits_reload[OF laws w f0 pre _ that, of "[]"] 4[unfolded es none same] n5(2) st(2) by simp
qed

lemma empty_diffs_applied: "diffs_IsEmpty (cf_diffs c) \<Longrightarrow> applied_file c F = F"
  by (simp add: applied_file_def diffs_IsEmpty_def section_after_def map_view_def fe_view_def be_view_def deref_def mhas_def)

lemma applied_by_transaction:
  assumes "native_laws tx api texts V" "conf_inv c" "diffs_valid V c" "applicable c F" "tx [] (cn_native (am_client h)) = Some F"
    "applyCfgUpdates api svc (cf_objs c) (cf_diffs c) h = (e, h')" "transactions_work tx api {F, applied_file c F}"
  shows "tx [] (cn_native (am_client h')) = Some (applied_file c F)"
proof (cases "diffs_IsEmpty (cf_diffs c) \<and> \<not> df_ReloadNeed (cf_diffs c)")
  case True
  then show ?thesis using assms(5,6) empty_diffs_applied[of c F] by (simp add: applyCfgUpdates_def)
next
  case False
  obtain er cl where r: "run_transaction api (cf_objs c) (cf_diffs c) (am_client h) = (er, cl)" by fastforce
  have "am_client h' = APIDisposeTransaction cl"
    using assms(6) False by (auto simp: applyCfgUpdates_def r confUpdateProcessed_def Let_def split_def split: if_splits)
  then show ?thesis using run_transaction_ok[OF assms(1-5) r] assms(7) by (auto simp: APIDisposeTransaction_def)
qed

text \<open>The other direction, for one changed backend: when the state of servers was set at run time without a failure, a change of the servers is written to the file and HAProxy is not reloaded,
  even when servers were added, which only a reload makes known to HAProxy.\<close>

lemma equal_but_servers_written:
  assumes "be_written a = s" "be_written b = s" "be_OtherLists a = be_OtherLists b"
  shows "backend_equal_but_servers a x = backend_equal_but_servers b x"
proof -
  have e: "backend_base a = backend_base b" "be_ACLList a = be_ACLList b" "be_HTTPRequestRuleList a = be_HTTPRequestRuleList b"
    using assms by (auto simp: be_written_def)
  have "y\<lparr>be_Servers := None\<rparr> = (backend_base y)\<lparr>be_ACLList := be_ACLList y, be_HTTPRequestRuleList := be_HTTPRequestRuleList y, be_OtherLists := be_OtherLists y\<rparr>" for y
    by (simp add: backend_base_def)
  then have "a\<lparr>be_Servers := None\<rparr> = b\<lparr>be_Servers := None\<rparr>" using e assms(3) by metis
  note both = arg_cong[OF this, of "be_Metadata_update (\<lambda>_. [])"] arg_cong[OF this, of be_Metadata]
  have "y\<lparr>be_Servers := None, be_Metadata := []\<rparr> = y\<lparr>be_Metadata := [], be_Servers := None\<rparr>" for y :: backend by simp
  with both show ?thesis by (simp add: backend_equal_but_servers_def)
qed

lemma edit_keeps_reload:
  assumes laws: "native_laws tx api texts V" and F: "in_tx tx c F" "file_be F (be_Name b) = Some s" and b: "only_servers s b" "be_OtherLists b = []"
    and r: "rl_attempted (cn_reload c)" "\<not> rl_failed (cn_reload c)"
  shows "cn_reload (snd (BackendEdit api b c)) = cn_reload c"
proof -
  obtain prev where prev: "BackendGet api (be_Name b) c = Inr prev" "be_written prev = s" "be_OtherLists prev = []" using BackendGet_there[OF laws F] by blast
  obtain q where q: "be_written q = s" "backend_equal_but_servers q b" using b(1) by (auto simp: only_servers_def)
  have "be_OtherLists q = []" using arg_cong[of _ _ be_OtherLists] q(2) b(2) by (auto simp: backend_equal_but_servers_def dest!: arg_cong[where f = be_OtherLists])
  then have eq: "backend_equal_but_servers prev b" using equal_but_servers_written[OF prev(2) q(1)] prev(3) q(2) by simp
  have nr: "cn_reload c' = cn_reload c \<Longrightarrow> \<not> edit_needs_reload True (cn_reload c')" for c'
    using r by (simp add: edit_needs_reload_def DynamicUpdateServerStateAttempted_def DynamicUpdateServerStateFailed_def)
  show ?thesis unfolding BackendEdit_def with_conf_None[OF native_configuration[OF laws]] prev(1) sum.case Let_def
    by (intro reload_or_stop) (simp_all add: eq nr)
qed

lemma servers_changed_without_reload:
  assumes laws: "native_laws tx api texts V" "conf_inv c" "diffs_valid V c" "applicable c F" "tx [] (cn_native (am_client h)) = Some F"
    and d: "df_CreatedFE (cf_diffs c) = []" "df_CreatedBE (cf_diffs c) = []" "df_UpdatedFE (cf_diffs c) = []" "df_UpdatedBE (cf_diffs c) = [(n, p)]"
      "df_DeletedFE (cf_diffs c) = []" "df_DeletedBE (cf_diffs c) = []"
    and s: "file_be F n = Some s" "only_servers s (cf_objs c ! p)" "be_OtherLists (cf_objs c ! p) = []"
    and r: "DynamicUpdateServerStateAttempted (cn_reload (am_client h))" "\<not> DynamicUpdateServerStateFailed (cn_reload (am_client h))" "\<not> NeedReload (cn_reload (am_client h))"
    and w: "transactions_work tx api {F, applied_file c F}"
  shows "\<exists>h'. applyCfgUpdates api svc (cf_objs c) (cf_diffs c) h = (None, h') \<and> am_process h' = am_process h \<and> \<not> NeedReload (cn_reload (am_client h'))
    \<and> tx [] (cn_native (am_client h')) = Some (applied_file c F) \<and> file_be (applied_file c F) n = Some (be_written (cf_objs c ! p))"
proof -
  let ?cl = "am_client h" and ?b = "cf_objs c ! p"
  obtain e0 c0 where s0: "APIStartTransaction api ?cl = (e0, c0)" by fastforce
  note st = start_transaction[OF laws(1,5) s0]
  have e0: "e0 = None" using st(4)[OF w] by simp
  have f0: "in_tx tx c0 F" using st(3) e0 by blast
  have nb: "be_Name ?b = n" "be_valid V ?b" using laws(2,3) d(4) by (auto simp: conf_inv_def ptrs_ok_def diffs_valid_def)
  have e: "did tx c0 (BackendEdit api ?b c0) (put_be n (Some (be_written ?b)) F)" using BackendEdit_did[OF laws(1) f0 _ nb(2)] s(1) nb(1) by auto
  have k: "cn_reload (snd (BackendEdit api ?b c0)) = cn_reload ?cl"
    using edit_keeps_reload[OF laws(1) f0 _ s(2,3)] s(1) nb(1) st(2) r by (simp add: DynamicUpdateServerStateAttempted_def DynamicUpdateServerStateFailed_def)
  obtain er cl' where rt: "run_transaction api (cf_objs c) (cf_diffs c) ?cl = (er, cl')" by fastforce
  note ok = run_transaction_ok[OF laws rt]
  have er: "er = None" using ok(3) w by blast
  have "run_transaction api (cf_objs c) (cf_diffs c) ?cl = APIFinalCommitTransaction api (snd (BackendEdit api ?b c0))"
    using e by (simp add: run_transaction_def s0 e0 or_stop_def processCreate_def processUpdate_def processDelete_def d collect_def Errors_Add_def Errors_Result_def did_def split_def Let_def)
  then have "cn_reload cl' = cn_reload ?cl" using rt er k native_configuration[OF laws(1)]
    by (auto simp: APIFinalCommitTransaction_def with_conf_def on_native_def split_def Let_def split: sum.splits if_splits)
  moreover have "\<not> diffs_IsEmpty (cf_diffs c)" by (simp add: diffs_IsEmpty_def d)
  moreover have "file_be (applied_file c F) n = Some (be_written ?b)"
    by (simp add: applied_file_def section_after_def map_view_def be_view_def deref_def d mhas_def)
  ultimately show ?thesis using ok(1)[OF er] r(3)
    by (simp add: applyCfgUpdates_def rt er confUpdateProcessed_def APIDisposeTransaction_def Let_def)
qed



end
