(* ===== verification/NativeModel.thy ===== *)
theory NativeModel
  imports AppManager
begin

text \<open>
  A small configuration library that does what \<open>native_laws\<close> asks for: the sections of the file and of one open transaction are kept as
  models, every model is accepted, and the text of a transaction is defined for two given contents.  It shows that the laws can hold together and is
  used in the examples only.
\<close>

record file_data =
  fd_fe :: "string \<Rightarrow> frontend option"
  fd_be :: "string \<Rightarrow> backend option"

definition fd_wf :: "file_data \<Rightarrow> bool" where
  "fd_wf R = ((\<forall>n f. fd_fe R n = Some f \<longrightarrow> named_children bi_Name (map_or_empty (fe_Binds f)))
     \<and> (\<forall>n b. fd_be R n = Some b \<longrightarrow> be_Name b = n \<and> named_children hs_Name (map_or_empty (be_Servers b))))"

definition fd_view :: "file_data \<Rightarrow> conf_file" where
  "fd_view R = \<lparr>file_fe = (\<lambda>n. map_option fe_written (fd_fe R n)), file_be = (\<lambda>n. map_option be_written (fd_be R n))\<rparr>"

record model_world =
  mw_file :: file_data
  mw_open :: "file_data option"

definition mw_tx :: "model_world tx_view" where
  "mw_tx t w = (case if t = [] then Some (mw_file w) else if t = ''tx'' then mw_open w else None of
     None \<Rightarrow> None | Some R \<Rightarrow> if fd_wf R then Some (fd_view R) else None)"

definition edit_open :: "(file_data \<Rightarrow> file_data option) \<Rightarrow> string \<Rightarrow> model_world \<Rightarrow> go_error \<times> model_world" where
  "edit_open f t w = (if t \<noteq> ''tx'' then (Some ''no transaction'', w)
     else case Option.bind (mw_open w) f of None \<Rightarrow> (Some ''refused'', w) | Some R \<Rightarrow> (None, w\<lparr>mw_open := Some R\<rparr>))"

definition read_open :: "(file_data \<Rightarrow> 'a option) \<Rightarrow> string \<Rightarrow> model_world \<Rightarrow> string + 'a" where
  "read_open f t w = (case if t = ''tx'' then Option.bind (mw_open w) f else None of None \<Rightarrow> Inl ''not found'' | Some x \<Rightarrow> Inr x)"

definition change_fe :: "string \<Rightarrow> (frontend \<Rightarrow> frontend) \<Rightarrow> file_data \<Rightarrow> file_data option" where
  "change_fe n g R = map_option (\<lambda>f. R\<lparr>fd_fe := (fd_fe R)(n \<mapsto> g f)\<rparr>) (fd_fe R n)"

definition change_be :: "string \<Rightarrow> (backend \<Rightarrow> backend) \<Rightarrow> file_data \<Rightarrow> file_data option" where
  "change_be n g R = map_option (\<lambda>b. R\<lparr>fd_be := (fd_be R)(n \<mapsto> g b)\<rparr>) (fd_be R n)"

text \<open>The operations on rules and children, for sections reached by \<open>look\<close> and changed by \<open>ch\<close>.\<close>

definition model_rules :: "(file_data \<Rightarrow> string \<Rightarrow> 's option) \<Rightarrow> (string \<Rightarrow> ('s \<Rightarrow> 's) \<Rightarrow> file_data \<Rightarrow> file_data option) \<Rightarrow> ('s \<Rightarrow> 'r list) \<Rightarrow> (('r list \<Rightarrow> 'r list) \<Rightarrow> 's \<Rightarrow> 's)
    \<Rightarrow> ('r, model_world) rule_api" where
  "model_rules look ch sel upd =
     \<lparr>ra_Get = (\<lambda>n. read_open (\<lambda>R. map_option sel (look R n))), ra_Create = (\<lambda>i r n. edit_open (ch n (upd (\<lambda>rs. take (nat i) rs @ r # drop (nat i) rs)))),
      ra_Delete = (\<lambda>i n. edit_open (ch n (upd (\<lambda>rs. take (nat i) rs @ drop (Suc (nat i)) rs))))\<rparr>"

definition model_children :: "(file_data \<Rightarrow> string \<Rightarrow> 's option) \<Rightarrow> (string \<Rightarrow> ('s \<Rightarrow> 's) \<Rightarrow> file_data \<Rightarrow> file_data option) \<Rightarrow> ('b \<Rightarrow> string)
    \<Rightarrow> ('s \<Rightarrow> (string, 'b) gomap option) \<Rightarrow> (((string, 'b) gomap option \<Rightarrow> (string, 'b) gomap option) \<Rightarrow> 's \<Rightarrow> 's) \<Rightarrow> ('b, model_world) child_api" where
  "model_children look ch name sel upd =
     \<lparr>ca_Get = (\<lambda>n. read_open (\<lambda>R. map_option (map snd \<circ> map_or_empty \<circ> sel) (look R n))),
      ca_Create = (\<lambda>b n. edit_open (ch n (upd (\<lambda>m. Some (mput (name b) b (map_or_empty m)))))),
      ca_Edit = (\<lambda>k b n. edit_open (ch n (upd (\<lambda>m. Some (mput k b (map_or_empty m)))))),
      ca_Delete = (\<lambda>k n. edit_open (ch n (upd (\<lambda>m. Some (mdel k (map_or_empty m))))))\<rparr>"

definition with_fe_base :: "frontend \<Rightarrow> frontend \<Rightarrow> frontend" where
  "with_fe_base f g = (frontend_base f)\<lparr>fe_ACLList := fe_ACLList g, fe_TCPRequestRuleList := fe_TCPRequestRuleList g, fe_HTTPRequestRuleList := fe_HTTPRequestRuleList g,
     fe_BackendSwitchingRuleList := fe_BackendSwitchingRuleList g, fe_Binds := fe_Binds g\<rparr>"

definition with_be_base :: "backend \<Rightarrow> backend \<Rightarrow> backend" where
  "with_be_base b g = (backend_base b)\<lparr>be_ACLList := be_ACLList g, be_HTTPRequestRuleList := be_HTTPRequestRuleList g, be_Servers := be_Servers g\<rparr>"

definition model_frontends :: "(frontend, model_world) section_api" where
  "model_frontends =
     \<lparr>sa_List = (\<lambda>_ _. (None, [])), sa_Get = (\<lambda>n. read_open (\<lambda>R. map_option frontend_base (fd_fe R n))),
      sa_Create = (\<lambda>f. edit_open (\<lambda>R. if fd_fe R (fe_Name f) \<noteq> None then None else Some (R\<lparr>fd_fe := (fd_fe R)(fe_Name f \<mapsto> frontend_base f)\<rparr>))),
      sa_Edit = (\<lambda>n f. edit_open (change_fe n (with_fe_base f))),
      sa_Delete = (\<lambda>n. edit_open (\<lambda>R. if fd_fe R n = None then None else Some (R\<lparr>fd_fe := (fd_fe R)(n := None)\<rparr>)))\<rparr>"

definition model_backends :: "(backend, model_world) section_api" where
  "model_backends =
     \<lparr>sa_List = (\<lambda>_ _. (None, [])), sa_Get = (\<lambda>n. read_open (\<lambda>R. map_option backend_base (fd_be R n))),
      sa_Create = (\<lambda>b. edit_open (\<lambda>R. if fd_be R (be_Name b) \<noteq> None then None else Some (R\<lparr>fd_be := (fd_be R)(be_Name b \<mapsto> backend_base b)\<rparr>))),
      sa_Edit = (\<lambda>n b. edit_open (change_be n (with_be_base b))),
      sa_Delete = (\<lambda>n. edit_open (\<lambda>R. if fd_be R n = None then None else Some (R\<lparr>fd_be := (fd_be R)(n := None)\<rparr>)))\<rparr>"

definition model_api :: "conf_file \<Rightarrow> conf_file \<Rightarrow> model_world native_api" where
  "model_api F0 F1 =
     \<lparr>nc_Configuration = None, nc_GetVersion = (\<lambda>_. Inr 1), nc_StartTransaction = (\<lambda>_ w. (Inr ''tx'', w\<lparr>mw_open := Some (mw_file w)\<rparr>)),
      nc_GetParser = (\<lambda>t w. case mw_tx t w of None \<Rightarrow> Inl ''no transaction'' | Some F \<Rightarrow> if F = F0 then Inr ''old'' else if F = F1 then Inr ''new'' else Inl ''too long''),
      nc_DeleteTransaction = (\<lambda>t w. if t = ''tx'' then (None, w\<lparr>mw_open := None\<rparr>) else (Some ''no transaction'', w)),
      nc_CommitTransaction = (\<lambda>t w. case if t = ''tx'' then mw_open w else None of
          None \<Rightarrow> (Some ''no transaction'', w) | Some R \<Rightarrow> (None, w\<lparr>mw_file := R, mw_open := None\<rparr>)),
      nc_Frontend = model_frontends, nc_Backend = model_backends,
      nc_ACL = (\<lambda>sec. case sec of SecFrontends \<Rightarrow> model_rules fd_fe change_fe fe_ACLList fe_ACLList_update | SecBackends \<Rightarrow> model_rules fd_be change_be be_ACLList be_ACLList_update),
      nc_HTTPRequestRule = (\<lambda>sec. case sec of SecFrontends \<Rightarrow> model_rules fd_fe change_fe fe_HTTPRequestRuleList fe_HTTPRequestRuleList_update
          | SecBackends \<Rightarrow> model_rules fd_be change_be be_HTTPRequestRuleList be_HTTPRequestRuleList_update),
      nc_TCPRequestRule = (\<lambda>_. model_rules fd_fe change_fe fe_TCPRequestRuleList fe_TCPRequestRuleList_update),
      nc_BackendSwitchingRule = model_rules fd_fe change_fe fe_BackendSwitchingRuleList fe_BackendSwitchingRuleList_update,
      nc_Bind = (\<lambda>_. model_children fd_fe change_fe bi_Name fe_Binds fe_Binds_update),
      nc_Server = (\<lambda>_. model_children fd_be change_be hs_Name be_Servers be_Servers_update), nc_hash = (\<lambda>s. s)\<rparr>"

definition all_valid :: validity where
  "all_valid = \<lparr>v_fe = (\<lambda>_. True), v_be = (\<lambda>_. True), v_acl = (\<lambda>_. True), v_http = (\<lambda>_. True), v_tcp = (\<lambda>_. True), v_switch = (\<lambda>_. True), v_bind = (\<lambda>_. True), v_server = (\<lambda>_. True)\<rparr>"

subsection \<open>The laws hold\<close>

lemma mw_tx_open: "mw_tx t w = Some F \<Longrightarrow> t \<noteq> [] \<Longrightarrow> t = ''tx'' \<and> (\<exists>R. mw_open w = Some R \<and> fd_wf R \<and> F = fd_view R)"
  by (auto simp: mw_tx_def split: option.splits if_splits)

lemma edit_open_succeeds:
  assumes "mw_open w = Some R" "f R = Some R'" "fd_wf R'" "F' = fd_view R'"
  shows "succeeds mw_tx ''tx'' w (edit_open f ''tx'' w) F'"
  using assms by (simp add: succeeds_def edit_open_def mw_tx_def)

text \<open>A change of a section that keeps the invariant and is a change \<open>G\<close> of what is written.\<close>

lemma change_fe_succeeds:
  assumes "mw_open w = Some R" "fd_wf R" "fd_fe R n = Some f" "named_children bi_Name (map_or_empty (fe_Binds (g f)))" "fe_written (g f) = G (fe_written f)"
  shows "succeeds mw_tx ''tx'' w (edit_open (change_fe n g) ''tx'' w) (on_fe G n (fd_view R))"
proof (rule edit_open_succeeds[OF assms(1)])
  show "change_fe n g R = Some (R\<lparr>fd_fe := (fd_fe R)(n \<mapsto> g f)\<rparr>)" by (simp add: change_fe_def assms(3))
  show "fd_wf (R\<lparr>fd_fe := (fd_fe R)(n \<mapsto> g f)\<rparr>)" using assms(2,4) by (simp add: fd_wf_def)
  show "on_fe G n (fd_view R) = fd_view (R\<lparr>fd_fe := (fd_fe R)(n \<mapsto> g f)\<rparr>)" using assms(3,5) by (auto simp: on_fe_def fd_view_def fun_eq_iff)
qed

lemma change_be_succeeds:
  assumes "mw_open w = Some R" "fd_wf R" "fd_be R n = Some f" "named_children hs_Name (map_or_empty (be_Servers (g f)))" "be_Name (g f) = n" "be_written (g f) = G (be_written f)"
  shows "succeeds mw_tx ''tx'' w (edit_open (change_be n g) ''tx'' w) (on_be G n (fd_view R))"
proof (rule edit_open_succeeds[OF assms(1)])
  show "change_be n g R = Some (R\<lparr>fd_be := (fd_be R)(n \<mapsto> g f)\<rparr>)" by (simp add: change_be_def assms(3))
  show "fd_wf (R\<lparr>fd_be := (fd_be R)(n \<mapsto> g f)\<rparr>)" using assms(2,4,5) by (simp add: fd_wf_def)
  show "on_be G n (fd_view R) = fd_view (R\<lparr>fd_be := (fd_be R)(n \<mapsto> g f)\<rparr>)" using assms(3,6) by (auto simp: on_be_def fd_view_def fun_eq_iff)
qed

lemma fe_rule_laws:
  assumes "\<And>f. sel f = S (fe_written f)" "\<And>h f. fe_written (upd h f) = U (h (sel f)) (fe_written f)" "\<And>h f. fe_Binds (upd h f) = fe_Binds f"
  shows "rule_laws mw_tx (model_rules fd_fe change_fe sel upd) (\<lambda>F n. map_option S (file_fe F n)) (\<lambda>n p. on_fe (U p) n) valid"
  unfolding rule_laws_def
proof (intro allI impI)
  fix t w F n rs assume t: "t \<noteq> []" "mw_tx t w = Some F" "map_option S (file_fe F n) = Some rs"
  then obtain R where R: "t = ''tx''" "mw_open w = Some R" "fd_wf R" "F = fd_view R" using mw_tx_open by blast
  then obtain f where f: "fd_fe R n = Some f" "sel f = rs" using t(3) assms(1) by (auto simp: fd_view_def)
  have b: "named_children bi_Name (map_or_empty (fe_Binds (upd h f)))" for h using R(3) f(1) by (simp add: fd_wf_def assms(3))
  have c: "succeeds mw_tx t w (edit_open (change_fe n (upd h)) t w) (on_fe (U (h rs)) n F)" for h
    unfolding R(1,4) by (rule change_fe_succeeds[OF R(2,3) f(1)]) (simp_all add: b assms(2) f(2))
  show "ra_Get (model_rules fd_fe change_fe sel upd) n t w = Inr rs \<and>
      (\<forall>i<length rs. succeeds mw_tx t w (ra_Delete (model_rules fd_fe change_fe sel upd) (int i) n t w) (on_fe (U (take i rs @ drop (Suc i) rs)) n F)) \<and>
      (\<forall>i r. i \<le> length rs \<longrightarrow> valid r \<longrightarrow> succeeds mw_tx t w (ra_Create (model_rules fd_fe change_fe sel upd) (int i) r n t w) (on_fe (U (take i rs @ r # drop i rs)) n F))"
    using c[of "\<lambda>rs. take i rs @ drop (Suc i) rs" for i] c[of "\<lambda>rs. take i rs @ r # drop i rs" for i r] f R(1,2) by (simp add: model_rules_def read_open_def)
qed

lemma be_rule_laws:
  assumes "\<And>f. sel f = S (be_written f)" "\<And>h f. be_written (upd h f) = U (h (sel f)) (be_written f)" "\<And>h f. be_Servers (upd h f) = be_Servers f" "\<And>h f. be_Name (upd h f) = be_Name f"
  shows "rule_laws mw_tx (model_rules fd_be change_be sel upd) (\<lambda>F n. map_option S (file_be F n)) (\<lambda>n p. on_be (U p) n) valid"
  unfolding rule_laws_def
proof (intro allI impI)
  fix t w F n rs assume t: "t \<noteq> []" "mw_tx t w = Some F" "map_option S (file_be F n) = Some rs"
  then obtain R where R: "t = ''tx''" "mw_open w = Some R" "fd_wf R" "F = fd_view R" using mw_tx_open by blast
  then obtain f where f: "fd_be R n = Some f" "sel f = rs" using t(3) assms(1) by (auto simp: fd_view_def)
  have b: "named_children hs_Name (map_or_empty (be_Servers (upd h f)))" "be_Name (upd h f) = n" for h using R(3) f(1) by (simp_all add: fd_wf_def assms(3,4))
  have c: "succeeds mw_tx t w (edit_open (change_be n (upd h)) t w) (on_be (U (h rs)) n F)" for h
    unfolding R(1,4) by (rule change_be_succeeds[OF R(2,3) f(1)]) (simp_all add: b assms(2) f(2))
  show "ra_Get (model_rules fd_be change_be sel upd) n t w = Inr rs \<and>
      (\<forall>i<length rs. succeeds mw_tx t w (ra_Delete (model_rules fd_be change_be sel upd) (int i) n t w) (on_be (U (take i rs @ drop (Suc i) rs)) n F)) \<and>
      (\<forall>i r. i \<le> length rs \<longrightarrow> valid r \<longrightarrow> succeeds mw_tx t w (ra_Create (model_rules fd_be change_be sel upd) (int i) r n t w) (on_be (U (take i rs @ r # drop i rs)) n F))"
    using c[of "\<lambda>rs. take i rs @ drop (Suc i) rs" for i] c[of "\<lambda>rs. take i rs @ r # drop i rs" for i r] f R(1,2) by (simp add: model_rules_def read_open_def)
qed

lemma named_children_ops:
  assumes "named_children name m"
  shows "named_children name (mput (name b) b m)" "named_children name (mdel k m)" "distinct (map name (map snd m))" "map_of (map (\<lambda>b. (name b, b)) (map snd m)) = map_of m"
proof -
  have n: "wf_map m" "\<And>k b. (k, b) \<in> set m \<Longrightarrow> name b = k" using assms by (auto simp: named_children_def list_all_iff)
  have e: "map (\<lambda>b. (name b, b)) (map snd m) = m" using n(2) by (induction m) auto
  have "map name (map snd m) = map fst m" using n(2) by (induction m) auto
  then show "distinct (map name (map snd m))" using n(1) unfolding wf_map_def by (simp del: map_map)
  show "map_of (map (\<lambda>b. (name b, b)) (map snd m)) = map_of m" unfolding e ..
  have "(k', b') \<in> set (mput (name b) b m) \<Longrightarrow> name b' = k'" for k' b'
    using wf_entry[OF wf_mput[OF n(1)], of k' b' "name b" b] n(2) map_of_SomeD[of m k' b'] by (auto simp: map_of_mput split: if_splits)
  then show "named_children name (mput (name b) b m)" using n(1) by (auto simp: named_children_def list_all_iff wf_mput)
  have "(k', b') \<in> set (mdel k m) \<Longrightarrow> name b' = k'" for k' b'
    using wf_entry[OF wf_mdel[OF n(1)], of k' b' k] n(2) map_of_SomeD[of m k' b'] by (auto simp: map_of_mdel split: if_splits)
  then show "named_children name (mdel k m)" using n(1) by (auto simp: named_children_def list_all_iff wf_mdel)
qed

lemma map_or_empty_Some: "map_or_empty (Some m) = m"
  by (simp add: map_or_empty_def)

lemma map_of_child_ops: "map_of (mput k b m) = (map_of m)(k \<mapsto> b)" "map_of (mdel k m) = (map_of m)(k := None)"
  by (auto simp: map_of_mput map_of_mdel fun_eq_iff)

lemma bind_laws: "child_laws mw_tx (model_children fd_fe change_fe bi_Name fe_Binds fe_Binds_update) bi_Name fe_binds_get fe_binds_put valid"
  unfolding child_laws_def
proof (intro allI impI)
  fix t w F n m assume t: "t \<noteq> []" "mw_tx t w = Some F" "fe_binds_get F n = Some m"
  let ?api = "model_children fd_fe change_fe bi_Name fe_Binds fe_Binds_update"
  obtain R where R: "t = ''tx''" "mw_open w = Some R" "fd_wf R" "F = fd_view R" using t mw_tx_open by blast
  then obtain f where f: "fd_fe R n = Some f" "map_of (map_or_empty (fe_Binds f)) = m" using t(3) by (auto simp: fd_view_def fe_written_def)
  have nc: "named_children bi_Name (map_or_empty (fe_Binds f))" using R(3) f(1) by (simp add: fd_wf_def)
  note ops = named_children_ops[OF nc]
  have c: "succeeds mw_tx t w (edit_open (change_fe n (fe_Binds_update (\<lambda>m. Some (h (map_or_empty m))))) t w) (fe_binds_put n (map_of (h (map_or_empty (fe_Binds f)))) F)"
    if "named_children bi_Name (h (map_or_empty (fe_Binds f)))" for h
    unfolding R(1,4) by (rule change_fe_succeeds[OF R(2,3) f(1)]) (simp_all add: that fe_written_def frontend_base_def map_or_empty_Some)
  have "ca_Get ?api n t w = Inr (map snd (map_or_empty (fe_Binds f)))" using f(1) R(1,2) by (simp add: model_children_def read_open_def)
  then have "\<exists>bs. ca_Get ?api n t w = Inr bs \<and> distinct (map bi_Name bs) \<and> m = map_of (map (\<lambda>b. (bi_Name b, b)) bs)"
    using ops(3) ops(4)[unfolded f(2)] by (intro exI[of _ "map snd (map_or_empty (fe_Binds f))"]) (simp del: map_map)
  moreover have "succeeds mw_tx t w (ca_Delete ?api k n t w) (fe_binds_put n (m(k := None)) F)" for k
    using c[of "mdel k", OF ops(2)] by (simp add: model_children_def map_of_child_ops f(2))
  moreover have "succeeds mw_tx t w (ca_Create ?api b n t w) (fe_binds_put n (m(bi_Name b \<mapsto> b)) F)" for b
    using c[of "mput (bi_Name b) b", OF ops(1)] by (simp add: model_children_def map_of_child_ops f(2))
  ultimately show "(\<exists>bs. ca_Get ?api n t w = Inr bs \<and> distinct (map bi_Name bs) \<and> m = map_of (map (\<lambda>b. (bi_Name b, b)) bs)) \<and>
      (\<forall>k\<in>dom m. succeeds mw_tx t w (ca_Delete ?api k n t w) (fe_binds_put n (m(k := None)) F)) \<and>
      (\<forall>b. bi_Name b \<notin> dom m \<longrightarrow> valid b \<longrightarrow> succeeds mw_tx t w (ca_Create ?api b n t w) (fe_binds_put n (m(bi_Name b \<mapsto> b)) F))"
    by blast
qed

lemma server_laws: "child_laws mw_tx (model_children fd_be change_be hs_Name be_Servers be_Servers_update) hs_Name be_servers_get be_servers_put valid"
  unfolding child_laws_def
proof (intro allI impI)
  fix t w F n m assume t: "t \<noteq> []" "mw_tx t w = Some F" "be_servers_get F n = Some m"
  let ?api = "model_children fd_be change_be hs_Name be_Servers be_Servers_update"
  obtain R where R: "t = ''tx''" "mw_open w = Some R" "fd_wf R" "F = fd_view R" using t mw_tx_open by blast
  then obtain f where f: "fd_be R n = Some f" "map_of (map_or_empty (be_Servers f)) = m" using t(3) by (auto simp: fd_view_def be_written_def)
  have nc: "named_children hs_Name (map_or_empty (be_Servers f))" "be_Name f = n" using R(3) f(1) by (simp_all add: fd_wf_def)
  note ops = named_children_ops[OF nc(1)]
  have c: "succeeds mw_tx t w (edit_open (change_be n (be_Servers_update (\<lambda>m. Some (h (map_or_empty m))))) t w) (be_servers_put n (map_of (h (map_or_empty (be_Servers f)))) F)"
    if "named_children hs_Name (h (map_or_empty (be_Servers f)))" for h
    unfolding R(1,4) by (rule change_be_succeeds[OF R(2,3) f(1)]) (simp_all add: that be_written_def backend_base_def map_or_empty_Some nc(2))
  have "ca_Get ?api n t w = Inr (map snd (map_or_empty (be_Servers f)))" using f(1) R(1,2) by (simp add: model_children_def read_open_def)
  then have "\<exists>bs. ca_Get ?api n t w = Inr bs \<and> distinct (map hs_Name bs) \<and> m = map_of (map (\<lambda>b. (hs_Name b, b)) bs)"
    using ops(3) ops(4)[unfolded f(2)] by (intro exI[of _ "map snd (map_or_empty (be_Servers f))"]) (simp del: map_map)
  moreover have "succeeds mw_tx t w (ca_Delete ?api k n t w) (be_servers_put n (m(k := None)) F)" for k
    using c[of "mdel k", OF ops(2)] by (simp add: model_children_def map_of_child_ops f(2))
  moreover have "succeeds mw_tx t w (ca_Create ?api b n t w) (be_servers_put n (m(hs_Name b \<mapsto> b)) F)" for b
    using c[of "mput (hs_Name b) b", OF ops(1)] by (simp add: model_children_def map_of_child_ops f(2))
  ultimately show "(\<exists>bs. ca_Get ?api n t w = Inr bs \<and> distinct (map hs_Name bs) \<and> m = map_of (map (\<lambda>b. (hs_Name b, b)) bs)) \<and>
      (\<forall>k\<in>dom m. succeeds mw_tx t w (ca_Delete ?api k n t w) (be_servers_put n (m(k := None)) F)) \<and>
      (\<forall>b. hs_Name b \<notin> dom m \<longrightarrow> valid b \<longrightarrow> succeeds mw_tx t w (ca_Create ?api b n t w) (be_servers_put n (m(hs_Name b \<mapsto> b)) F))"
    by blast
qed

lemma model_frontend_laws: "frontend_laws mw_tx model_frontends valid"
  unfolding frontend_laws_def
proof (intro allI impI)
  fix t w F and f :: frontend assume t: "t \<noteq> []" "mw_tx t w = Some F"
  then obtain R where R: "t = ''tx''" "mw_open w = Some R" "fd_wf R" "F = fd_view R" using mw_tx_open by blast
  let ?n = "fe_Name f"
  have "succeeds mw_tx t w (sa_Create model_frontends f t w) (put_fe ?n (Some (fe_written (frontend_base f))) F)" if "file_fe F ?n = None"
  proof -
    have "fd_fe R ?n = None" using that by (simp add: R(4) fd_view_def)
    then show ?thesis unfolding R(1,4) model_frontends_def using R(3)
      by (simp, intro edit_open_succeeds[OF R(2), of _ "R\<lparr>fd_fe := (fd_fe R)(?n \<mapsto> frontend_base f)\<rparr>"])
        (auto simp: fd_wf_def frontend_base_def named_children_def map_or_empty_def put_fe_def fd_view_def fun_eq_iff)
  qed
  moreover have "fst (sa_Create model_frontends f t w) \<noteq> None \<and> mw_tx t (snd (sa_Create model_frontends f t w)) = Some F \<and> mw_tx [] (snd (sa_Create model_frontends f t w)) = mw_tx [] w"
    if "file_fe F ?n \<noteq> None" using that R t(2) by (auto simp: model_frontends_def edit_open_def fd_view_def)
  moreover have "succeeds mw_tx t w (sa_Edit model_frontends ?n f t w) (on_fe (sf_base_update (\<lambda>_. frontend_base f)) ?n F)" if some: "file_fe F ?n \<noteq> None"
  proof -
    obtain g where g: "fd_fe R ?n = Some g" using some by (auto simp: R(4) fd_view_def)
    then have "named_children bi_Name (map_or_empty (fe_Binds (with_fe_base f g)))" using R(3) by (simp add: with_fe_base_def fd_wf_def)
    then show ?thesis unfolding R(1,4) model_frontends_def using change_fe_succeeds[OF R(2,3) g, of "with_fe_base f" "sf_base_update (\<lambda>_. frontend_base f)"]
      by (simp add: fe_written_def with_fe_base_def frontend_base_def)
  qed
  moreover have "succeeds mw_tx t w (sa_Delete model_frontends n t w) (put_fe n None F)" if "file_fe F n \<noteq> None" for n
    unfolding R(1,4) model_frontends_def using that R(3,4)
    by (simp, intro edit_open_succeeds[OF R(2), of _ "R\<lparr>fd_fe := (fd_fe R)(n := None)\<rparr>"]) (auto simp: fd_wf_def put_fe_def fd_view_def fun_eq_iff)
  ultimately show "(valid f \<longrightarrow> file_fe F ?n = None \<longrightarrow> succeeds mw_tx t w (sa_Create model_frontends f t w) (put_fe ?n (Some (fe_written (frontend_base f))) F)) \<and>
      (file_fe F ?n \<noteq> None \<longrightarrow> fst (sa_Create model_frontends f t w) \<noteq> None \<and> mw_tx t (snd (sa_Create model_frontends f t w)) = Some F \<and> mw_tx [] (snd (sa_Create model_frontends f t w)) = mw_tx [] w) \<and>
      (valid f \<longrightarrow> file_fe F ?n \<noteq> None \<longrightarrow> succeeds mw_tx t w (sa_Edit model_frontends ?n f t w) (on_fe (sf_base_update (\<lambda>_. frontend_base f)) ?n F)) \<and>
      (\<forall>n. file_fe F n \<noteq> None \<longrightarrow> succeeds mw_tx t w (sa_Delete model_frontends n t w) (put_fe n None F))" using t(2) by simp
qed

lemma model_backend_laws: "backend_laws mw_tx model_backends valid"
  unfolding backend_laws_def
proof (intro allI impI)
  fix t w F and f :: backend assume t: "t \<noteq> []" "mw_tx t w = Some F"
  then obtain R where R: "t = ''tx''" "mw_open w = Some R" "fd_wf R" "F = fd_view R" using mw_tx_open by blast
  let ?n = "be_Name f"
  have "succeeds mw_tx t w (sa_Create model_backends f t w) (put_be ?n (Some (be_written (backend_base f))) F)" if "file_be F ?n = None"
  proof -
    have "fd_be R ?n = None" using that by (simp add: R(4) fd_view_def)
    then show ?thesis unfolding R(1,4) model_backends_def using R(3)
      by (simp, intro edit_open_succeeds[OF R(2), of _ "R\<lparr>fd_be := (fd_be R)(?n \<mapsto> backend_base f)\<rparr>"])
        (auto simp: fd_wf_def backend_base_def named_children_def map_or_empty_def put_be_def fd_view_def fun_eq_iff)
  qed
  moreover have "fst (sa_Create model_backends f t w) \<noteq> None \<and> mw_tx t (snd (sa_Create model_backends f t w)) = Some F \<and> mw_tx [] (snd (sa_Create model_backends f t w)) = mw_tx [] w"
    if "file_be F ?n \<noteq> None" using that R t(2) by (auto simp: model_backends_def edit_open_def fd_view_def)
  moreover have "succeeds mw_tx t w (sa_Edit model_backends ?n f t w) (on_be (sb_base_update (\<lambda>_. backend_base f)) ?n F)" if some: "file_be F ?n \<noteq> None"
  proof -
    obtain g where g: "fd_be R ?n = Some g" using some by (auto simp: R(4) fd_view_def)
    then have "named_children hs_Name (map_or_empty (be_Servers (with_be_base f g)))" "be_Name (with_be_base f g) = ?n" using R(3) by (simp_all add: with_be_base_def fd_wf_def)
    then show ?thesis unfolding R(1,4) model_backends_def using change_be_succeeds[OF R(2,3) g, of "with_be_base f" "sb_base_update (\<lambda>_. backend_base f)"]
      by (simp add: be_written_def with_be_base_def backend_base_def)
  qed
  moreover have "succeeds mw_tx t w (sa_Delete model_backends n t w) (put_be n None F) \<and> sa_Get model_backends n t w = Inr (sb_base s) \<and> be_Name (sb_base s) = n \<and> backend_base (sb_base s) = sb_base s"
    if s: "file_be F n = Some s" for n s
  proof -
    obtain g where g: "fd_be R n = Some g" "be_written g = s" "be_Name g = n" using s R(3) by (auto simp: R(4) fd_view_def fd_wf_def)
    have "succeeds mw_tx t w (sa_Delete model_backends n t w) (put_be n None F)"
      unfolding R(1,4) model_backends_def using g R(3)
      by (simp, intro edit_open_succeeds[OF R(2), of _ "R\<lparr>fd_be := (fd_be R)(n := None)\<rparr>"]) (auto simp: fd_wf_def put_be_def fd_view_def fun_eq_iff)
    then show ?thesis using g R(1,2) by (auto simp: model_backends_def read_open_def)
  qed
  ultimately show "(valid f \<longrightarrow> file_be F ?n = None \<longrightarrow> succeeds mw_tx t w (sa_Create model_backends f t w) (put_be ?n (Some (be_written (backend_base f))) F)) \<and>
      (file_be F ?n \<noteq> None \<longrightarrow> fst (sa_Create model_backends f t w) \<noteq> None \<and> mw_tx t (snd (sa_Create model_backends f t w)) = Some F \<and> mw_tx [] (snd (sa_Create model_backends f t w)) = mw_tx [] w) \<and>
      (valid f \<longrightarrow> file_be F ?n \<noteq> None \<longrightarrow> succeeds mw_tx t w (sa_Edit model_backends ?n f t w) (on_be (sb_base_update (\<lambda>_. backend_base f)) ?n F)) \<and>
      (\<forall>n s. file_be F n = Some s \<longrightarrow> succeeds mw_tx t w (sa_Delete model_backends n t w) (put_be n None F) \<and> sa_Get model_backends n t w = Inr (sb_base s)
        \<and> be_Name (sb_base s) = n \<and> backend_base (sb_base s) = sb_base s)" using t(2) by simp
qed

lemma model_transaction_laws: "transaction_laws mw_tx (model_api F0 F1) UNIV"
  unfolding transaction_laws_def
proof (intro conjI allI impI)
  fix t w w' s assume "nc_GetParser (model_api F0 F1) t w = Inr s" "nc_GetParser (model_api F0 F1) t w' = Inr s"
  then show "mw_tx t w = mw_tx t w'" by (auto simp: model_api_def split: option.splits if_splits)
next
  fix t :: string and w assume "t \<noteq> []"
  then show "mw_tx [] (snd (nc_CommitTransaction (model_api F0 F1) t w)) = (if fst (nc_CommitTransaction (model_api F0 F1) t w) = None then mw_tx t w else mw_tx [] w)"
    by (auto simp: model_api_def mw_tx_def split: option.splits)
qed (auto simp: model_api_def mw_tx_def inj_on_def)

lemma model_laws: "native_laws mw_tx (model_api F0 F1) UNIV all_valid"
  unfolding native_laws_def
proof (intro conjI)
  show "transaction_laws mw_tx (model_api F0 F1) UNIV" by (rule model_transaction_laws)
  show "frontend_laws mw_tx (nc_Frontend (model_api F0 F1)) (v_fe all_valid)" "backend_laws mw_tx (nc_Backend (model_api F0 F1)) (v_be all_valid)"
    by (simp_all add: model_api_def model_frontend_laws model_backend_laws)
  show "child_laws mw_tx (nc_Bind (model_api F0 F1) SecFrontends) bi_Name fe_binds_get fe_binds_put (v_bind all_valid)"
    "child_laws mw_tx (nc_Server (model_api F0 F1) SecBackends) hs_Name be_servers_get be_servers_put (v_server all_valid)"
    by (simp_all add: model_api_def bind_laws server_laws)
  show "rule_laws mw_tx (nc_ACL (model_api F0 F1) SecFrontends) fe_acls_get fe_acls_put (v_acl all_valid)"
    "rule_laws mw_tx (nc_HTTPRequestRule (model_api F0 F1) SecFrontends) fe_http_get fe_http_put (v_http all_valid)"
    "rule_laws mw_tx (nc_TCPRequestRule (model_api F0 F1) SecFrontends) fe_tcp_get fe_tcp_put (v_tcp all_valid)"
    "rule_laws mw_tx (nc_BackendSwitchingRule (model_api F0 F1)) fe_switch_get fe_switch_put (v_switch all_valid)"
    unfolding model_api_def native_api.simps parser_section.case by (rule fe_rule_laws; simp add: fe_written_def frontend_base_def)+
  show "rule_laws mw_tx (nc_ACL (model_api F0 F1) SecBackends) be_acls_get be_acls_put (v_acl all_valid)"
    "rule_laws mw_tx (nc_HTTPRequestRule (model_api F0 F1) SecBackends) be_http_get be_http_put (v_http all_valid)"
    unfolding model_api_def native_api.simps parser_section.case by (rule be_rule_laws; simp add: be_written_def backend_base_def)+
qed

lemma model_works: "transactions_work mw_tx (model_api F0 F1) {F0, F1}"
  by (auto simp: transactions_work_def model_api_def mw_tx_def split: option.splits)

end
