(* ===== verification/Deploy.thy ===== *)
theory Deploy
  imports ConfCycle NativeModel
begin

text \<open>
  The end of \<open>HandleEventBatch\<close> (\<open>handler/batch.go\<close>) with the application behind the channel: a cycle of the configuration manager is computed, and its
  differences are applied to the configuration file when there are any or a reload is needed.  The reload manager is one object for both sides.

  The differences are taken to be applied before the next batch is handled.
\<close>

definition deploy :: "'v compute_env \<Rightarrow> 'w native_api \<Rightarrow> (string \<Rightarrow> 'p \<Rightarrow> (string \<times> go_error) \<times> 'p) \<Rightarrow> controller_store
    \<Rightarrow> 'v mgr_state \<times> ('w, 'p) app_manager \<Rightarrow> ('v mgr_state \<times> ('w, 'p) app_manager) option" where
  "deploy env api svc st = (\<lambda>(m, h).
     case ComputeDiffs env st m of
       None \<Rightarrow> None
     | Some m \<Rightarrow>
         (let d = GetDiffs m in
          if \<not> diffs_IsEmpty d \<or> df_ReloadNeed d
          then let h = h\<lparr>am_client := (am_client h)\<lparr>cn_reload := mg_reload m\<rparr>\<rparr>;
                   h = snd (applyCfgUpdates api svc (cf_objs (cm_conf (mg_mgr m))) d h)
               in Some (m\<lparr>mg_reload := cn_reload (am_client h)\<rparr>, h)
          else Some (m, h)))"

text \<open>The file has every section of the configuration.\<close>

definition holds :: "conf_file \<Rightarrow> configuration \<Rightarrow> bool" where
  "holds F c = ((\<forall>n f. map_of (cf_Frontends c) n = Some f \<longrightarrow> file_fe F n = Some (fe_written f))
     \<and> (\<forall>n b. deref c (cf_Backends c) n = Some b \<longrightarrow> file_be F n = Some (be_written b)))"

lemma same_written:
  "same_frontend f g \<Longrightarrow> fe_written f = fe_written g" "same_backend a b \<Longrightarrow> be_written a = be_written b"
proof -
  assume "same_frontend f g"
  then have e: "DeepCopyFrontend f = DeepCopyFrontend g" by (simp add: same_frontend_def)
  have "map_or_empty (omit_empty x) = map_or_empty x" for x :: "(string, bind) gomap option" by (simp add: omit_empty_def map_or_empty_def)
  then have w: "fe_written (DeepCopyFrontend x) = fe_written x" for x by (simp add: DeepCopyFrontend_def fe_written_def frontend_base_def)
  show "fe_written f = fe_written g" using arg_cong[OF e, of fe_written] by (simp add: w)
next
  assume s: "same_backend a b"
  then have e: "a\<lparr>be_Servers := None\<rparr> = b\<lparr>be_Servers := None\<rparr>" "map_of (map_or_empty (be_Servers a)) = map_of (map_or_empty (be_Servers b))" by (simp_all add: same_backend_def)
  have w: "be_written x = (be_written (x\<lparr>be_Servers := None\<rparr>))\<lparr>sb_servers := map_of (map_or_empty (be_Servers x))\<rparr>" for x by (simp add: be_written_def backend_base_def)
  show "be_written a = be_written b" unfolding w[of a] w[of b] e ..
qed

subsection \<open>One section\<close>

text \<open>An exact view, applied to a file that has the old section, gives the new one.\<close>

lemma exact_applied:
  assumes "exact_view eq old v" "\<And>x. old = Some x \<Longrightarrow> fsec = Some (g x)" "\<And>x y. eq x y \<Longrightarrow> g x = g y"
  shows "current v = Some y \<Longrightarrow> section_after fsec (map_view g v) = Some (g y)" "current v = None \<Longrightarrow> old \<noteq> None \<Longrightarrow> section_after fsec (map_view g v) = None"
    "sourced_view fsec (case v of (d, u, cr, cur) \<Rightarrow> (d, map_option g u, map_option g cr, None))"
proof -
  obtain d u cr cur where v: "v = (d, u, cr, cur)" by (cases v)
  show "section_after fsec (map_view g v) = Some (g y)" if "current v = Some y"
    using assms that by (auto simp: v exact_view_def agrees_view_def current_def section_after_def map_view_def option_rel_Some2 split: if_splits)
  show "section_after fsec (map_view g v) = None" if "current v = None" "old \<noteq> None"
    using assms(1) that by (auto simp: v exact_view_def agrees_view_def current_def section_after_def map_view_def split: if_splits)
  show "sourced_view fsec (case v of (d, u, cr, cur) \<Rightarrow> (d, map_option g u, map_option g cr, None))"
    using assms(1,2) by (auto simp: v exact_view_def sourced_view_def)
qed

lemma exact_holds:
  assumes "conf_exact c0 c" "holds F c0"
  shows "applicable c F" "holds (applied_file c F) c"
    "map_of (cf_Frontends c0) n \<noteq> None \<Longrightarrow> map_of (cf_Frontends c) n = None \<Longrightarrow> file_fe (applied_file c F) n = None"
    "deref c0 (cf_Backends c0) n \<noteq> None \<Longrightarrow> deref c (cf_Backends c) n = None \<Longrightarrow> file_be (applied_file c F) n = None"
proof -
  have ex: "exact_view same_frontend (current (fe_view c0 n)) (fe_view c n)" "exact_view same_backend (current (be_view c0 n)) (be_view c n)" for n
    using assms(1) by (simp_all add: conf_exact_def)
  have old: "current (fe_view c0 n) = Some f \<Longrightarrow> file_fe F n = Some (fe_written f)" "current (be_view c0 n) = Some b \<Longrightarrow> file_be F n = Some (be_written b)" for n f b
    using assms(2) by (auto simp: holds_def view_parts)
  note A = exact_applied[OF ex(1) old(1) same_written(1)] and B = exact_applied[OF ex(2) old(2) same_written(2)]
  show "applicable c F" using A(3) B(3) by (simp add: applicable_def fe_view_def be_view_def)
  show "holds (applied_file c F) c" using A(1) B(1) by (simp add: holds_def applied_file_def view_parts)
  show "map_of (cf_Frontends c0) n \<noteq> None \<Longrightarrow> map_of (cf_Frontends c) n = None \<Longrightarrow> file_fe (applied_file c F) n = None"
    "deref c0 (cf_Backends c0) n \<noteq> None \<Longrightarrow> deref c (cf_Backends c) n = None \<Longrightarrow> file_be (applied_file c F) n = None"
    using A(2)[of n] B(2)[of n] by (simp_all add: applied_file_def view_parts)
qed


subsection \<open>Examples\<close>

text \<open>The library of \<open>NativeModel\<close> with a file that holds the given sections.\<close>

definition ex_file :: "(string \<times> frontend) list \<Rightarrow> (string \<times> backend) list \<Rightarrow> file_data" where
  "ex_file fes bes = \<lparr>fd_fe = map_of fes, fd_be = map_of bes\<rparr>"

definition ex_app :: "file_data \<Rightarrow> reload_mgr \<Rightarrow> (model_world, unit) app_manager" where
  "ex_app R rl = \<lparr>am_client = \<lparr>cn_activeTransaction = [], cn_hashAtTransactionStart = [], cn_reload = rl, cn_native = \<lparr>mw_file = R, mw_open = None\<rparr>\<rparr>,
     am_process = (), am_results = []\<rparr>"

definition ex_svc :: "string \<Rightarrow> unit \<Rightarrow> (string \<times> go_error) \<times> unit" where
  "ex_svc action p = (([], None), p)"

lemma ex_app_file: "fd_wf R \<Longrightarrow> mw_tx [] (cn_native (am_client (ex_app R rl))) = Some (fd_view R)"
  by (simp add: ex_app_def mw_tx_def)

definition ex_served :: "server \<Rightarrow> backend" where
  "ex_served srv = (ex_be ''a'')\<lparr>be_Servers := Some [(hs_Name srv, srv)]\<rparr>"

definition ex_conf1 :: configuration where
  "ex_conf1 = fold run_op [UpsertBE (ex_be ''a''), SetServers ''a'' [(''s1'', ex_srv)]] (resetDiffs conf0)"

definition ex_srv2 :: server where
  "ex_srv2 = ex_srv\<lparr>hs_Name := ''s2'', hs_Address := ''10.0.0.2''\<rparr>"

definition ex_conf2 :: configuration where
  "ex_conf2 = run_op (SetServers ''a'' [(''s2'', ex_srv2)]) (resetDiffs ex_conf1)"

lemma ex_conf_exact: "conf_exact conf0 ex_conf1" "conf_exact ex_conf1 ex_conf2"
proof -
  have "conf_inv conf0" by (simp add: conf_inv_def conf0_def ptrs_ok_def no_diffs_def)
  moreover have "ops_allowed [UpsertBE (ex_be ''a''), SetServers ''a'' [(''s1'', ex_srv)]] (resetDiffs conf0)" by code_simp
  ultimately show 1: "conf_exact conf0 ex_conf1" unfolding ex_conf1_def by (intro conf_exact_run conf_exact_start)
  have "ops_allowed [SetServers ''a'' [(''s2'', ex_srv2)]] (resetDiffs ex_conf1)" by code_simp
  moreover have "conf_inv ex_conf1" using 1 by (simp add: conf_exact_def)
  ultimately have "conf_exact ex_conf1 (fold run_op [SetServers ''a'' [(''s2'', ex_srv2)]] (resetDiffs ex_conf1))" by (intro conf_exact_run conf_exact_start)
  then show "conf_exact ex_conf1 ex_conf2" by (simp add: ex_conf2_def)
qed

lemma ex_conf_parts:
  "cf_Backends ex_conf1 = [(''a'', 0)]" "cf_objs ex_conf1 = [ex_served ex_srv]" "cf_Frontends ex_conf1 = []"
  "cf_objs ex_conf2 ! 0 = ex_served ex_srv2"
  "cf_diffs ex_conf1 = no_diffs\<lparr>df_CreatedBE := [(''a'', 0)], df_UpdatedBE := [(''a'', 0)]\<rparr>" "cf_diffs ex_conf2 = no_diffs\<lparr>df_UpdatedBE := [(''a'', 0)]\<rparr>"
  by code_simp+

lemma ex_valid: "be_valid all_valid (ex_served ex_srv)" "be_valid all_valid (ex_served ex_srv2)"
  by (simp_all add: be_valid_def all_valid_def ex_served_def ex_be_def ex_srv_def ex_srv2_def named_children_def map_or_empty_def wf_map_def)



text \<open>The first cycle on a cluster without gateways removes the section that an earlier run left in the file.\<close>

definition ex_no_gateways :: controller_store where
  "ex_no_gateways = empty_controller_store scheme_gvk ''hug''"

lemma no_routes:
  "cm_owners b = [] \<Longrightarrow> cm_impacted b = no_impact \<Longrightarrow> process_routes p ty meta refs crs [] b = Some (None, b)"
  by (simp add: process_routes_def processBackendsModifiedInCycle_def processBackendsUpsertedInCycle_def processBackendsUnreferencedInCycle_def
    processBackendsDeletedInCycle_def cleanupUnreferencedBackends_def cleanupUnreferencedBackendsForType_def no_impact_def Errors_Result_def Errors_Add_def Let_def)

lemma nothing_to_process:
  "fo_byUpdatedGateways (cm_frontendsOwned b) = [] \<Longrightarrow> processGateways env [] [] b ms = Some (None, b, ms)"
  "cm_owners b = [] \<Longrightarrow> cm_impacted b = no_impact \<Longrightarrow> process_all_routes p crs [] [] b = Some b"
  by (simp_all add: processGateways_def cleanupFrontendsForGateways_def finalizeFrontendsByGateway_def Errors_Result_def process_all_routes_def processHTTPRoutes_def
    processTLSRoutes_def no_routes)

lemma ex_first_cleanup:
  assumes "fs_flag (cm_firstSync b)" "fs_frontends (cm_firstSync b) = []" "cm_conf b = ex_startup"
  shows "cm_conf (cleanupAfterFirstSync b) = conf0\<lparr>cf_diffs := no_diffs\<lparr>df_DeletedFE := [(''hug_d_old_l'', ())]\<rparr>\<rparr>"
  using assms by (simp add: cleanupAfterFirstSync_def Let_def ex_startup_def conf0_def conf_deleteFrontend_def map_diffs_def no_diffs_def mhas_def sput_def)

lemma ex_no_gateways_cycle:
  assumes "ComputeDiffs ex_compute_env ex_no_gateways ex_mgr_state = Some m'"
  shows "cf_diffs (cm_conf (mg_mgr m')) = no_diffs\<lparr>df_DeletedFE := [(''hug_d_old_l'', ())]\<rparr>" "cf_Frontends (cm_conf (mg_mgr m')) = []"
proof -
  let ?b = "start_cycle (NewHaproxyConfMgr ex_startup)"
  have b: "fo_byUpdatedGateways (cm_frontendsOwned ?b) = []" "cm_owners ?b = []" "cm_impacted ?b = no_impact" "cm_conf ?b = ex_startup" "fs_flag (cm_firstSync ?b)" "fs_frontends (cm_firstSync ?b) = []"
    "fs_backends (cm_firstSync ?b) = []"
    by (simp_all add: start_cycle_def NewHaproxyConfMgr_def NewBackendOwners_def resetDiffs_def ex_startup_def conf0_def no_diffs_def)
  have st: "Gateways (cst_GateTree ex_no_gateways) = []" "Gateways (cst_UnmanagedGateTree ex_no_gateways) = []" "HTTPRoutes (cst_GateTree ex_no_gateways) = []"
    "TLSRoutes (cst_GateTree ex_no_gateways) = []" "updates (cs_EndpointSlices (cst_ClusterStore ex_no_gateways)) = []"
    by (simp_all add: ex_no_gateways_def empty_controller_store_def NewGateTree_def empty_cluster_store_def newObjectStoreImpl_def)
  have i: "ex_startup\<lparr>cf_diffs := no_diffs\<lparr>df_ReloadNeed := False\<rparr>\<rparr> = ex_startup" "NeedReload reload_Instance = False" "cf_diffs ex_startup = no_diffs"
    by (simp_all add: ex_startup_def conf0_def no_diffs_def NeedReload_def reload_Instance_def)
  have "cf_diffs (cm_conf (mg_mgr m')) = no_diffs\<lparr>df_DeletedFE := [(''hug_d_old_l'', ())]\<rparr> \<and> cf_Frontends (cm_conf (mg_mgr m')) = []"
    using assms by (auto simp: ComputeDiffs_def st ex_mgr_state_def nothing_to_process b i ex_first_cleanup processCertificates_def ex_compute_env_def processRoutes_def fillMaps_def fillMapsForHTTPRoutes_def fillMapsForTLSRoutes_def
      map_diffs_def processEndpointSlices_def srv_env_of_def conf0_def Let_def split: option.splits)
  then show "cf_diffs (cm_conf (mg_mgr m')) = no_diffs\<lparr>df_DeletedFE := [(''hug_d_old_l'', ())]\<rparr>" "cf_Frontends (cm_conf (mg_mgr m')) = []" by auto
qed


end
