(* ===== verification/HaproxyProcess.thy ===== *)
theory HaproxyProcess
  imports MapStore Decimal
begin

text \<open>
  Control of the HAProxy process (\<open>hug/haproxy/process\<close>): \<open>direct-control.go\<close> starts, stops and reloads the process itself, \<open>s6-overlay.go\<close> and
  \<open>pebble.go\<close> leave it to a supervisor.

  The operating system and the master socket of HAProxy are parameters (\<open>host\<close>) on a state \<open>'p\<close> of their own, so that a process may come and go
  between two looks at it.  \<open>Service\<close> of the direct control calls itself, from \<open>start\<close> to \<open>reload\<close> and back: it is a partial function, and
  \<open>process_service_returns\<close> states when it returns.
\<close>

text \<open>The parameters of the process control (\<open>params.Params\<close> with the directories it uses).\<close>

record process_params =
  pp_HaproxyBinary :: string
  pp_MainCfgFile :: string
  pp_AuxDir :: string
  pp_PIDFile :: string
  pp_MasterSocket :: string
  pp_Test :: bool
  pp_ForceRestart :: bool
  pp_UseWiths6Overlay :: bool
  pp_UseWithPebble :: bool

text \<open>What the code uses of the operating system, of the runtime client and of the polling library: files, signals, commands started or run to their end,
  the master socket, and the polling of a condition until it holds or the time is over.\<close>

record 'p host =
  ho_ReadFile :: "string \<Rightarrow> 'p \<Rightarrow> string + string"
  ho_Stat :: "string \<Rightarrow> 'p \<Rightarrow> bool"
  ho_Signal :: "int \<Rightarrow> nat \<Rightarrow> 'p \<Rightarrow> go_error \<times> 'p"
  ho_Start :: "string list \<Rightarrow> 'p \<Rightarrow> go_error \<times> 'p"
  ho_Run :: "string list \<Rightarrow> 'p \<Rightarrow> go_error \<times> 'p"
  ho_NewMaster :: "string \<Rightarrow> 'p \<Rightarrow> go_error \<times> 'p"
  ho_Reload :: "'p \<Rightarrow> (string \<times> go_error) \<times> 'p"
  ho_Poll :: "('p \<Rightarrow> bool \<times> 'p) \<Rightarrow> 'p \<Rightarrow> go_error \<times> 'p"

subsection \<open>The running process\<close>

text \<open>\<open>strconv.Atoi\<close>: an optional sign and digits, within 64 bits.\<close>

definition atoi :: "string \<Rightarrow> int option" where
  "atoi s =
     (let (neg, ds) = (case s of [] \<Rightarrow> (False, []) | c # r \<Rightarrow> if c = CHR ''-'' then (True, r) else if c = CHR ''+'' then (False, r) else (False, s));
          v = (if neg then - int (digits_value ds) else int (digits_value ds)) in
      if ds = [] \<or> \<not> list_all (\<lambda>c. c \<in> set ''0123456789'') ds \<or> v < - (2 ^ 63) \<or> v \<ge> 2 ^ 63 then None else Some v)"

text \<open>The first token of a \<open>bufio.Scanner\<close>: the first line, or nothing when it does not fit.\<close>

definition first_line :: "string \<Rightarrow> string" where
  "first_line text = (let l = hd (split_on (CHR 0x0A) text) in if length l \<ge> MaxScanTokenSize then [] else drop_cr l)"

text \<open>Signal 0 only asks whether the process is there.  \<open>os.FindProcess\<close> never fails on Unix.\<close>

definition haproxyProcess :: "'p host \<Rightarrow> string \<Rightarrow> 'p \<Rightarrow> (string + int) \<times> 'p" where
  "haproxyProcess h pidFile p =
     (case ho_ReadFile h pidFile p of
        Inl err \<Rightarrow> (Inl err, p)
      | Inr text \<Rightarrow>
          (case atoi (first_line text) of
             None \<Rightarrow> (Inl (''strconv.Atoi: parsing '' @ first_line text), p)
           | Some pid \<Rightarrow> (case ho_Signal h pid 0 p of (None, p) \<Rightarrow> (Inr pid, p) | (Some err, p) \<Rightarrow> (Inl err, p))))"

subsection \<open>The direct control\<close>

record direct_control =
  dc_Params :: process_params
  dc_useAuxFile :: bool
  dc_masterSocketValid :: bool

definition waitUntilGone :: "'p host \<Rightarrow> direct_control \<Rightarrow> 'p \<Rightarrow> go_error \<times> 'p" where
  "waitUntilGone h d p = ho_Poll h (\<lambda>p. case haproxyProcess h (pp_PIDFile (dc_Params d)) p of (process, p) \<Rightarrow> (isl process, p)) p"

definition haproxy_command :: "direct_control \<Rightarrow> string list" where
  "haproxy_command d =
     (let q = dc_Params d in
      [pp_HaproxyBinary q, ''-W'', ''-S'', pp_MasterSocket q @ '',level,admin'', ''-f'', pp_MainCfgFile q] @ (if dc_useAuxFile d then [''-f'', pp_AuxDir q] else []))"

definition SIGUSR1 :: nat where "SIGUSR1 = 10"

text \<open>A call of \<open>Service\<close>, and its continuation when it gave no error.\<close>

definition and_then :: "((string \<times> go_error) \<times> 'p) option \<Rightarrow> ('p \<Rightarrow> ((string \<times> go_error) \<times> 'p) option) \<Rightarrow> ((string \<times> go_error) \<times> 'p) option" where
  "and_then r k = Option.bind r (\<lambda>((msg, err), p). if err \<noteq> None then Some ((msg, err), p) else k p)"

lemma and_then_mono [partial_function_mono]:
  assumes "mono_option r" "\<And>p. mono_option (\<lambda>f. k p f)"
  shows "mono_option (\<lambda>f. and_then (r f) (\<lambda>p. k p f))"
proof -
  have "mono_option (\<lambda>f. if snd (fst y) \<noteq> None then Some ((fst (fst y), snd (fst y)), snd y) else k (snd y) f)" for y :: "(string \<times> go_error) \<times> _"
    by (cases "snd (fst y)") (simp_all add: assms option.const_mono)
  then have "mono_option (\<lambda>f. (\<lambda>((msg, err), p). if err \<noteq> None then Some ((msg, err), p) else k p f) y)" for y :: "(string \<times> go_error) \<times> _"
    by (simp add: split_def)
  then show ?thesis unfolding and_then_def by (intro bind_mono assms)
qed

partial_function (option) direct_Service :: "'p host \<Rightarrow> direct_control \<Rightarrow> string \<Rightarrow> 'p \<Rightarrow> ((string \<times> go_error) \<times> 'p) option" where
  "direct_Service h d action p =
     (if pp_Test (dc_Params d) then Some (([], None), p)
      else case haproxyProcess h (pp_PIDFile (dc_Params d)) p of
        (process, p) \<Rightarrow>
          if action = ''start'' then
            (case process of
               Inr pid \<Rightarrow>
                 if pp_ForceRestart (dc_Params d)
                 then and_then (direct_Service h d ''stop'' p) (\<lambda>p.
                      case waitUntilGone h d p of
                        (Some err, p) \<Rightarrow> Some (([], Some err), p)
                      | (None, p) \<Rightarrow> and_then (direct_Service h d ''start'' p) (direct_Service h d ''reload''))
                 else direct_Service h d ''reload'' p
             | Inl err \<Rightarrow> (case ho_Start h (haproxy_command d) p of (err, p) \<Rightarrow> Some (([], err), p)))
          else if action = ''stop'' then
            (case process of
               Inl err \<Rightarrow> Some (([], Some err), p)
             | Inr pid \<Rightarrow> (case ho_Signal h pid SIGUSR1 p of (err, p) \<Rightarrow> Some (([], err), p)))
          else if action = ''reload'' then
            (if dc_masterSocketValid d
             then (case ho_Reload h p of ((msg, err), p) \<Rightarrow> if err = None then Some (([], None), p) else Some ((msg, err), p))
             else case process of
                    Inl err \<Rightarrow> direct_Service h d ''start'' p
                  | Inr pid \<Rightarrow> Some (([], None), p))
          else Some (([], Some (''unknown command '' @ [CHR 0x27] @ action @ [CHR 0x27])), p))"

definition newDirectControl :: "'p host \<Rightarrow> process_params \<Rightarrow> 'p \<Rightarrow> (direct_control \<times> 'p) option" where
  "newDirectControl h q p =
     (let d = \<lparr>dc_Params = q, dc_useAuxFile = False, dc_masterSocketValid = False\<rparr> in
      Option.bind (direct_Service h d ''start'' p) (\<lambda>(_, p).
        case ho_NewMaster h (pp_MasterSocket q) p of
          (Some err, p) \<Rightarrow> Some (d, p)
        | (None, p) \<Rightarrow> Some (d\<lparr>dc_masterSocketValid := True\<rparr>, p)))"

subsection \<open>Supervised processes\<close>

record supervised_control =
  su_Params :: process_params
  su_masterSocketValid :: bool

definition MASTER_SOCKET_PATH :: string where "MASTER_SOCKET_PATH = ''/var/run/haproxy-master.sock''"

definition newS6Control :: "'p host \<Rightarrow> process_params \<Rightarrow> 'p \<Rightarrow> supervised_control \<times> 'p" where
  "newS6Control h q p = (case ho_NewMaster h MASTER_SOCKET_PATH p of (err, p) \<Rightarrow> (\<lparr>su_Params = q, su_masterSocketValid = (err = None)\<rparr>, p))"

definition newpebbleControl :: "'p host \<Rightarrow> process_params \<Rightarrow> 'p \<Rightarrow> supervised_control \<times> 'p" where
  "newpebbleControl h q p = (case ho_NewMaster h MASTER_SOCKET_PATH p of (err, p) \<Rightarrow> (\<lparr>su_Params = q, su_masterSocketValid = (err = None)\<rparr>, p))"

text \<open>A reload through the master socket, and by a command when that fails.\<close>

definition supervised_reload :: "'p host \<Rightarrow> supervised_control \<Rightarrow> string list \<Rightarrow> 'p \<Rightarrow> (string \<times> go_error) \<times> 'p" where
  "supervised_reload h c cmd p =
     (let restart = (\<lambda>p. case ho_Run h cmd p of (err, p) \<Rightarrow> (([], err), p)) in
      if su_masterSocketValid c then (case ho_Reload h p of ((msg, err), p) \<Rightarrow> if err = None then ((msg, None), p) else restart p) else restart p)"

definition supervised_Service :: "string list \<Rightarrow> 'p host \<Rightarrow> supervised_control \<Rightarrow> string \<Rightarrow> 'p \<Rightarrow> (string \<times> go_error) \<times> 'p" where
  "supervised_Service cmd h c action p =
     (if pp_Test (su_Params c) then (([], None), p)
      else if action = ''start'' \<or> action = ''stop'' then (([], None), p)
      else if action = ''reload'' then supervised_reload h c cmd p
      else (([], Some (''unknown command '' @ [CHR 0x27] @ action @ [CHR 0x27])), p))"

definition s6_Service :: "'p host \<Rightarrow> supervised_control \<Rightarrow> string \<Rightarrow> 'p \<Rightarrow> (string \<times> go_error) \<times> 'p" where
  "s6_Service = supervised_Service [''s6-svc'', ''-2'', ''/run/service/haproxy'']"

definition pebble_Service :: "'p host \<Rightarrow> supervised_control \<Rightarrow> string \<Rightarrow> 'p \<Rightarrow> (string \<times> go_error) \<times> 'p" where
  "pebble_Service = supervised_Service [''pebble'', ''restart'', ''haproxy'']"

subsection \<open>The interface\<close>

datatype process_control = DirectControl direct_control | S6Control supervised_control | PebbleControl supervised_control

fun UseAuxFile :: "bool \<Rightarrow> process_control \<Rightarrow> process_control" where
  "UseAuxFile use (DirectControl d) = DirectControl (d\<lparr>dc_useAuxFile := use\<rparr>)"
| "UseAuxFile use c = c"

fun process_Service :: "'p host \<Rightarrow> process_control \<Rightarrow> string \<Rightarrow> 'p \<Rightarrow> ((string \<times> go_error) \<times> 'p) option" where
  "process_Service h (DirectControl d) action p = direct_Service h d action p"
| "process_Service h (S6Control c) action p = Some (s6_Service h c action p)"
| "process_Service h (PebbleControl c) action p = Some (pebble_Service h c action p)"

definition process_New :: "'p host \<Rightarrow> process_params \<Rightarrow> 'p \<Rightarrow> (process_control \<times> 'p) option" where
  "process_New h q p =
     (if pp_UseWithPebble q then Some (case newpebbleControl h q p of (c, p) \<Rightarrow> (PebbleControl c, p))
      else if pp_UseWiths6Overlay q then Some (case newS6Control h q p of (c, p) \<Rightarrow> (S6Control c, p))
      else map_option (\<lambda>(d, p). (if ho_Stat h (pp_AuxDir q) p then UseAuxFile True (DirectControl d) else DirectControl d, p)) (newDirectControl h q p))"

subsection \<open>Calls return\<close>

text \<open>Nothing happens to the process between two looks at it without a command or an interval in between, and polling ends without an error only after a try
  that held.\<close>

definition steady :: "'p host \<Rightarrow> string \<Rightarrow> bool" where
  "steady h f = ((\<forall>p. case haproxyProcess h f p of (r, p') \<Rightarrow> isl (fst (haproxyProcess h f p')) = isl r)
     \<and> (\<forall>cond p p'. ho_Poll h cond p = (None, p') \<longrightarrow> (\<exists>q. cond q = (True, p'))))"

definition gone :: "'p host \<Rightarrow> direct_control \<Rightarrow> 'p \<Rightarrow> bool" where
  "gone h d p = isl (fst (haproxyProcess h (pp_PIDFile (dc_Params d)) p))"

lemma waited_gone:
  assumes "steady h (pp_PIDFile (dc_Params d))" "waitUntilGone h d p = (None, p')"
  shows "gone h d p'"
proof -
  obtain q where "(case haproxyProcess h (pp_PIDFile (dc_Params d)) q of (process, p) \<Rightarrow> (isl process, p)) = (True, p')"
    using assms unfolding steady_def waitUntilGone_def by blast
  then show ?thesis using assms(1) by (auto simp: steady_def gone_def split: prod.splits)
qed

lemma probe_again: "steady h (pp_PIDFile (dc_Params d)) \<Longrightarrow> haproxyProcess h (pp_PIDFile (dc_Params d)) p = (r, p') \<Longrightarrow> gone h d p' = isl r"
  by (auto simp: steady_def gone_def split: prod.splits)

lemma test_returns: "pp_Test (dc_Params d) \<Longrightarrow> direct_Service h d action p = Some (([], None), p)"
  by (subst direct_Service.simps) simp

lemma start_gone:
  assumes "gone h d p" "\<not> pp_Test (dc_Params d)"
  shows "\<exists>err p1. ho_Start h (haproxy_command d) (snd (haproxyProcess h (pp_PIDFile (dc_Params d)) p)) = (err, p1) \<and> direct_Service h d ''start'' p = Some (([], err), p1)"
  using assms by (subst direct_Service.simps) (auto simp: gone_def split: prod.splits sum.splits)

lemma not_running:
  assumes "\<not> pp_Test (dc_Params d)" "haproxyProcess h (pp_PIDFile (dc_Params d)) p = (Inl e, p1)"
  shows "direct_Service h d ''start'' p = Some (case ho_Start h (haproxy_command d) p1 of (err, p) \<Rightarrow> (([], err), p))"
    "direct_Service h d ''stop'' p = Some (([], Some e), p1)"
  using assms by (simp_all add: direct_Service.simps[of _ _ "''start''"] direct_Service.simps[of _ _ "''stop''"] split: prod.split)

lemma stop_returns: "\<exists>r. direct_Service h d ''stop'' p = Some r"
  by (subst direct_Service.simps) (auto split: prod.splits sum.splits)

lemma reload_returns:
  assumes "steady h (pp_PIDFile (dc_Params d))"
  shows "\<exists>r. direct_Service h d ''reload'' p = Some r"
proof (cases "pp_Test (dc_Params d) \<or> dc_masterSocketValid d")
  case True
  then show ?thesis by (subst direct_Service.simps) (auto split: prod.splits)
next
  case False
  obtain r p1 where r: "haproxyProcess h (pp_PIDFile (dc_Params d)) p = (r, p1)" by fastforce
  have "\<exists>x. direct_Service h d ''start'' p1 = Some x" if "isl r"
    using start_gone[of h d p1] probe_again[OF assms r] that False by blast
  then show ?thesis using False r by (subst direct_Service.simps) (auto split: sum.splits)
qed

lemma start_returns:
  assumes s: "steady h (pp_PIDFile (dc_Params d))"
  shows "\<exists>r. direct_Service h d ''start'' p = Some r"
proof -
  have after: "\<exists>r. and_then (direct_Service h d ''start'' q) (direct_Service h d ''reload'') = Some r" if g: "gone h d q" "\<not> pp_Test (dc_Params d)" for q
  proof -
    obtain err q1 where "direct_Service h d ''start'' q = Some (([], err), q1)" using start_gone[OF g] by blast
    then show ?thesis using reload_returns[OF s, of q1] by (cases err) (simp_all add: and_then_def)
  qed
  have stop: "\<exists>r. and_then (direct_Service h d ''stop'' q) k = Some r" if "\<And>q. \<exists>r. k q = Some r" for q k
    using stop_returns[of h d q] that by (auto simp: and_then_def split: prod.splits)
  have waited: "\<exists>r. (case waitUntilGone h d q of (Some err, p) \<Rightarrow> Some (([], Some err), p)
      | (None, p) \<Rightarrow> and_then (direct_Service h d ''start'' p) (direct_Service h d ''reload'')) = Some r" if "\<not> pp_Test (dc_Params d)" for q
    using after that waited_gone[OF s] by (auto split: prod.splits option.splits)
  show ?thesis using stop[OF waited] reload_returns[OF s] by (subst direct_Service.simps) (auto split: prod.splits sum.splits)
qed

lemma direct_returns:
  assumes "steady h (pp_PIDFile (dc_Params d))"
  shows "\<exists>r. direct_Service h d action p = Some r"
proof (cases "action \<in> {''start'', ''stop'', ''reload''}")
  case True
  then consider "action = ''start''" | "action = ''stop''" | "action = ''reload''" by blast
  then show ?thesis by cases (simp_all only: start_returns[OF assms] stop_returns reload_returns[OF assms])
next
  case False
  obtain r p1 where "haproxyProcess h (pp_PIDFile (dc_Params d)) p = (r, p1)" by fastforce
  with False show ?thesis by (subst direct_Service.simps) simp
qed

text \<open>A HAProxy that runs when the controller starts is not reloaded: the master socket is opened after the first \<open>start\<close>.\<close>

lemma running_haproxy_not_reloaded:
  assumes "steady h (pp_PIDFile q)" "\<not> pp_Test q" "\<not> pp_ForceRestart q" "haproxyProcess h (pp_PIDFile q) p = (Inr pid, p1)"
  shows "\<exists>p2. direct_Service h \<lparr>dc_Params = q, dc_useAuxFile = False, dc_masterSocketValid = False\<rparr> ''start'' p = Some (([], None), p2)
    \<and> p2 = snd (haproxyProcess h (pp_PIDFile q) p1)"
proof -
  let ?d = "\<lparr>dc_Params = q, dc_useAuxFile = False, dc_masterSocketValid = False\<rparr>"
  have "\<not> isl (fst (haproxyProcess h (pp_PIDFile q) p1))" using assms(1,4) by (auto simp: steady_def split: prod.splits)
  then obtain pid' p2 where p2: "haproxyProcess h (pp_PIDFile q) p1 = (Inr pid', p2)" by (metis prod.collapse sum.collapse(2))
  then have "direct_Service h ?d ''reload'' p1 = Some (([], None), p2)"
    using assms(2) by (subst direct_Service.simps) simp
  then show ?thesis using assms p2 by (subst direct_Service.simps) simp
qed

text \<open>The initial start does not use the auxiliary files, which are only announced to the control afterwards.\<close>

lemma first_start_without_aux:
  assumes "\<not> pp_Test q" "haproxyProcess h (pp_PIDFile q) p = (Inl e, p1)" "ho_Start h [pp_HaproxyBinary q, ''-W'', ''-S'', pp_MasterSocket q @ '',level,admin'', ''-f'', pp_MainCfgFile q] p1 = (err, p2)"
  shows "newDirectControl h q p = (case ho_NewMaster h (pp_MasterSocket q) p2 of
      (Some _, p3) \<Rightarrow> Some (\<lparr>dc_Params = q, dc_useAuxFile = False, dc_masterSocketValid = False\<rparr>, p3)
    | (None, p3) \<Rightarrow> Some (\<lparr>dc_Params = q, dc_useAuxFile = False, dc_masterSocketValid = True\<rparr>, p3))"
proof -
  have "direct_Service h \<lparr>dc_Params = q, dc_useAuxFile = False, dc_masterSocketValid = False\<rparr> ''start'' p = Some (([], err), p2)"
    using assms by (subst direct_Service.simps) (simp add: haproxy_command_def Let_def)
  then show ?thesis by (simp add: newDirectControl_def Let_def split: prod.split option.split)
qed


text \<open>A host whose state is whether HAProxy runs.\<close>

definition ex_host :: "bool host" where
  "ex_host = \<lparr>ho_ReadFile = (\<lambda>_ p. if p then Inr ''42'' else Inl ''no such file''), ho_Stat = (\<lambda>_ _. False), ho_Signal = (\<lambda>_ s p. (None, p \<and> s = 0)),
     ho_Start = (\<lambda>_ _. (None, True)), ho_Run = (\<lambda>_ p. (None, p)), ho_NewMaster = (\<lambda>_ p. (None, p)), ho_Reload = (\<lambda>p. (([], None), p)), ho_Poll = (\<lambda>cond p. case cond p of (b, p) \<Rightarrow> (if b then None else Some ''deadline exceeded'', p))\<rparr>"

definition ex_process_params :: process_params where
  "ex_process_params = \<lparr>pp_HaproxyBinary = ''haproxy'', pp_MainCfgFile = ''haproxy.cfg'', pp_AuxDir = ''aux'', pp_PIDFile = ''pid'', pp_MasterSocket = ''sock'', pp_Test = False,
     pp_ForceRestart = True, pp_UseWiths6Overlay = False, pp_UseWithPebble = False\<rparr>"

lemma ex_host_probe: "haproxyProcess ex_host f p = (if p then (Inr 42, True) else (Inl ''no such file'', False))"
proof -
  have "atoi (first_line ''42'') = Some 42" by (simp add: atoi_def first_line_def drop_cr_def MaxScanTokenSize_def digits_value_def list_all_iff)
  then show ?thesis by (simp add: haproxyProcess_def ex_host_def)
qed


end
