(* ===== verification/HugConfig.thy ===== *)
theory HugConfig
  imports HaproxyApi LogConf
begin

text \<open>
  The configuration of the controller process (\<open>hug/configuration\<close>): the directories with their defaults, those of an external HAProxy, the files that are made
  at the start, and the two flag types.

  The flag library is a parameter: \<open>Init\<close> starts from the parsed flags.  The file system is a parameter on a state \<open>'d\<close> of its own.
\<close>

record haproxy_dirs =
  hd_CfgDir :: string
  hd_MainCfgFile :: string
  hd_RouteLuaFile :: string
  hd_HaproxyBinary :: string
  hd_RuntimeDir :: string
  hd_StateDir :: string
  hd_AuxDir :: string
  hd_PIDFile :: string
  hd_RuntimeSocket :: string
  hd_MasterSocket :: string
  hd_PatternDir :: string
  hd_ErrFileDir :: string
  hd_CertsDir :: string
  hd_CertListDir :: string
  hd_MapsDir :: string

record external =
  ex_CfgDir :: string
  ex_HaproxyBinary :: string
  ex_RuntimeDir :: string
  ex_StateDir :: string
  ex_AuxDir :: string
  ex_External :: bool

text \<open>The flags that the modelled code reads.\<close>

record hug_config =
  hc_LogSettings :: "(string \<times> int) list"
  hc_Dirs :: haproxy_dirs
  hc_LogType :: string
  hc_External :: external
  hc_StatsPort :: int
  hc_ControllerPort :: int
  hc_AddStatsPortToFrontend :: bool
  hc_Test :: bool
  hc_DisableIPv4 :: bool
  hc_DisableIPv6 :: bool

datatype stat_result = StatOk | StatNotExist | StatError string

record 'd file_system =
  fs_MkdirAll :: "string \<Rightarrow> 'd \<Rightarrow> go_error \<times> 'd"
  fs_Stat :: "string \<Rightarrow> 'd \<Rightarrow> stat_result"
  fs_WriteFile :: "string \<Rightarrow> string \<Rightarrow> 'd \<Rightarrow> go_error \<times> 'd"

subsection \<open>Flag types\<close>

record namespace_name_value =
  nv_Namespace :: string
  nv_Name :: string

definition NamespaceName_String :: "namespace_name_value option \<Rightarrow> string" where
  "NamespaceName_String nv = (case nv of None \<Rightarrow> [] | Some nv \<Rightarrow> nv_Namespace nv @ ''/'' @ nv_Name nv)"

definition NamespaceName_Set :: "string \<Rightarrow> string + namespace_name_value" where
  "NamespaceName_Set s = (case split_two (CHR ''/'') s of [a, b] \<Rightarrow> Inr \<lparr>nv_Namespace = a, nv_Name = b\<rparr> | _ \<Rightarrow> Inl ''invalid format: expected namespace/name'')"

text \<open>A nil slice and an empty slice are both \<open>[]\<close>.\<close>

definition CommaSeparated_String :: "string list \<Rightarrow> string" where
  "CommaSeparated_String c = join '','' c"

definition CommaSeparated_Set :: "string \<Rightarrow> string list" where
  "CommaSeparated_Set s = (if s = [] then [] else split_on (CHR '','') s)"

lemma namespace_name_set_string: "CHR ''/'' \<notin> set (nv_Namespace nv) \<Longrightarrow> NamespaceName_Set (NamespaceName_String (Some nv)) = Inr nv"
  by (simp add: NamespaceName_Set_def NamespaceName_String_def split_two_at del: split_two.simps)

lemma comma_separated_string_set: "CommaSeparated_String (CommaSeparated_Set s) = s"
  by (simp add: CommaSeparated_String_def CommaSeparated_Set_def join_split)

subsection \<open>Defaults\<close>

definition no_dirs :: haproxy_dirs where
  "no_dirs = \<lparr>hd_CfgDir = [], hd_MainCfgFile = [], hd_RouteLuaFile = [], hd_HaproxyBinary = [], hd_RuntimeDir = [], hd_StateDir = [], hd_AuxDir = [], hd_PIDFile = [],
     hd_RuntimeSocket = [], hd_MasterSocket = [], hd_PatternDir = [], hd_ErrFileDir = [], hd_CertsDir = [], hd_CertListDir = [], hd_MapsDir = []\<rparr>"

definition externalDefaults :: external where
  "externalDefaults = \<lparr>ex_CfgDir = ''/tmp/hug/etc'', ex_HaproxyBinary = ''/usr/local/sbin/haproxy'', ex_RuntimeDir = ''/tmp/hug/run'', ex_StateDir = ''/tmp/hug/state/'',
     ex_AuxDir = ''/tmp/hug/etc/aux'', ex_External = False\<rparr>"

definition HaproxyDefaults :: haproxy_dirs where
  "HaproxyDefaults = no_dirs\<lparr>hd_HaproxyBinary := ''/usr/local/sbin/haproxy'', hd_CfgDir := ''/usr/local/hug'', hd_AuxDir := ''/usr/local/hug/aux'', hd_RuntimeDir := ''/var/run'',
     hd_StateDir := ''/var/state/haproxy''\<rparr>"

definition default_if_empty :: "string \<Rightarrow> string \<Rightarrow> string" where
  "default_if_empty v d = (if v = [] then d else v)"

definition external_with_defaults :: "external \<Rightarrow> external" where
  "external_with_defaults e =
     (if ex_HaproxyBinary externalDefaults = [] then e
      else let e = e\<lparr>ex_HaproxyBinary := default_if_empty (ex_HaproxyBinary e) (ex_HaproxyBinary externalDefaults),
                     ex_CfgDir := default_if_empty (ex_CfgDir e) (ex_CfgDir externalDefaults),
                     ex_RuntimeDir := default_if_empty (ex_RuntimeDir e) (ex_RuntimeDir externalDefaults),
                     ex_StateDir := default_if_empty (ex_StateDir e) (ex_StateDir externalDefaults)\<rparr>
           in e\<lparr>ex_AuxDir := default_if_empty (ex_AuxDir e) (path_join [ex_CfgDir e, ''aux''])\<rparr>)"

text \<open>\<open>initExternal\<close> with the directories of an external HAProxy.\<close>

definition with_external :: "external \<Rightarrow> hug_config \<Rightarrow> hug_config" where
  "with_external e c =
     (if \<not> ex_External e then c
      else let e = external_with_defaults e in
           c\<lparr>hc_External := e, hc_Dirs := (hc_Dirs c)\<lparr>hd_CfgDir := ex_CfgDir e, hd_HaproxyBinary := ex_HaproxyBinary e, hd_RuntimeDir := ex_RuntimeDir e,
             hd_StateDir := ex_StateDir e, hd_AuxDir := ex_AuxDir e\<rparr>\<rparr>)"

definition base_dirs :: "hug_config \<Rightarrow> string list" where
  "base_dirs c = [hd_CfgDir (hc_Dirs c), hd_RuntimeDir (hc_Dirs c), hd_StateDir (hc_Dirs c), hd_AuxDir (hc_Dirs c)]"

definition make_dirs :: "'d file_system \<Rightarrow> string list \<Rightarrow> 'd \<Rightarrow> go_error \<times> 'd" where
  "make_dirs fs = until_error (fs_MkdirAll fs)"

definition initExternal :: "'d file_system \<Rightarrow> external \<Rightarrow> hug_config \<Rightarrow> 'd \<Rightarrow> (go_error \<times> hug_config) \<times> 'd" where
  "initExternal fs e c d = (let c = with_external e c; (err, d) = make_dirs fs (base_dirs c) d in ((err, c), d))"

subsection \<open>Init\<close>

definition default_log_settings :: "(string \<times> int) list" where
  "default_log_settings = [(''k8s'', LevelInfo), (''gate'', LevelDebug), (''status'', LevelDebug), (''batch'', LevelDebug), (''app'', LevelDebug), (''certs-storage'', LevelDebug)]"

text \<open>The paths below the configuration and run-time directories; a test run has no sockets.\<close>

definition derived_paths :: "bool \<Rightarrow> haproxy_dirs \<Rightarrow> haproxy_dirs" where
  "derived_paths test h =
     (let h = h\<lparr>hd_MainCfgFile := path_join [hd_CfgDir h, ''haproxy.cfg''], hd_RouteLuaFile := path_join [hd_CfgDir h, ''route.lua''],
                hd_PIDFile := path_join [hd_RuntimeDir h, ''haproxy.pid''], hd_RuntimeSocket := path_join [hd_RuntimeDir h, ''haproxy-runtime-api.sock''],
                hd_MasterSocket := path_join [hd_RuntimeDir h, ''haproxy-master.sock'']\<rparr>
      in if test then h\<lparr>hd_HaproxyBinary := ''echo'', hd_RuntimeSocket := [], hd_MasterSocket := []\<rparr> else h)"

definition storage_dirs :: "haproxy_dirs \<Rightarrow> haproxy_dirs" where
  "storage_dirs h = h\<lparr>hd_CertsDir := path_join [hd_CfgDir h, ''certs''], hd_CertListDir := path_join [hd_CfgDir h, ''certlists''], hd_MapsDir := path_join [hd_CfgDir h, ''maps''],
     hd_PatternDir := path_join [hd_CfgDir h, ''patterns''], hd_ErrFileDir := path_join [hd_CfgDir h, ''errorfiles'']\<rparr>"

definition create_if_missing :: "'d file_system \<Rightarrow> string \<Rightarrow> string \<Rightarrow> 'd \<Rightarrow> go_error \<times> 'd" where
  "create_if_missing fs f text d = (case fs_Stat fs f d of StatOk \<Rightarrow> (None, d) | StatNotExist \<Rightarrow> fs_WriteFile fs f text d | StatError e \<Rightarrow> (Some e, d))"

text \<open>\<open>HaproxyCfg\<close> and \<open>RouteLua\<close> are the embedded texts.\<close>

definition config_Init :: "'d file_system \<Rightarrow> string \<Rightarrow> string \<Rightarrow> external \<Rightarrow> hug_config \<Rightarrow> 'd \<Rightarrow> (go_error \<times> hug_config) \<times> 'd" where
  "config_Init fs HaproxyCfg RouteLua e c d =
     (let c = c\<lparr>hc_Dirs := HaproxyDefaults, hc_ControllerPort := (if hc_ControllerPort c = 0 then 6060 else hc_ControllerPort c),
                hc_LogType := default_if_empty (hc_LogType c) ''json''\<rparr>;
          ((err, c), d) = initExternal fs e c d in
      if err \<noteq> None then ((err, c), d)
      else if [] \<in> set (base_dirs c) then ((Some ''failed to init controller config: missing config directories []'', c), d)
      else let c = c\<lparr>hc_LogSettings := (if hc_LogSettings c = [] then default_log_settings else hc_LogSettings c), hc_Dirs := derived_paths (hc_Test c) (hc_Dirs c)\<rparr>;
               h = hc_Dirs c in
           case (if hc_Test c then StatOk else fs_Stat fs (hd_HaproxyBinary h) d) of
             StatNotExist \<Rightarrow> ((Some ''no such file'', c), d)
           | StatError e \<Rightarrow> ((Some e, c), d)
           | StatOk \<Rightarrow>
               (case or_stop (create_if_missing fs (hd_MainCfgFile h) HaproxyCfg d) (create_if_missing fs (hd_RouteLuaFile h) RouteLua) of
                  (Some e, d) \<Rightarrow> ((Some e, c), d)
                | (None, d) \<Rightarrow>
                    let c = c\<lparr>hc_Dirs := storage_dirs h\<rparr>; h = hc_Dirs c;
                        (err, d) = make_dirs fs [hd_CertsDir h, hd_CertListDir h, hd_MapsDir h, hd_ErrFileDir h, hd_StateDir h, hd_PatternDir h] d
                    in ((err, c), d)))"

text \<open>A configuration that was initialised without an error has all its directories.\<close>

lemma base_dirs_filled:
  "[] \<notin> set (base_dirs (with_external e (c\<lparr>hc_Dirs := HaproxyDefaults\<rparr>)))"
proof -
  have "[] \<noteq> path_join [d, ''aux'']" for d by (simp add: path_join_def path_clean_def Let_def)
  then show ?thesis
    by (simp add: base_dirs_def with_external_def HaproxyDefaults_def no_dirs_def external_with_defaults_def externalDefaults_def default_if_empty_def Let_def)
qed

end
