(* ===== verification/Startup.thy ===== *)
theory Startup
  imports HugConfig Deploy
begin

text \<open>
  The start of the controller (\<open>hug/startup/startup.go\<close>): the sections that the gateway manages are read from the configuration file of an earlier run, the global section
  gets the settings that the gateway needs, and the statistics frontend its binds.

  The configuration library is a parameter (\<open>startup_client\<close>) on a state of its own.  \<open>netip.ParseAddr\<close> is modelled by the kind of address it accepts.
\<close>

subsection \<open>Addresses\<close>

datatype addr_family = Addr4 | Addr6

definition ipv4_octet :: "string \<Rightarrow> bool" where
  "ipv4_octet s = (s \<noteq> [] \<and> list_all (\<lambda>c. c \<in> set ''0123456789'') s \<and> (hd s = CHR ''0'' \<longrightarrow> length s = 1) \<and> digits_value s \<le> 255)"

definition ipv4_fields :: "string \<Rightarrow> bool" where
  "ipv4_fields s = (let parts = split_on (CHR ''.'') s in length parts = 4 \<and> list_all ipv4_octet parts)"

definition is_hex :: "char \<Rightarrow> bool" where
  "is_hex c = (c \<in> set ''0123456789abcdefABCDEF'')"

text \<open>The loop of \<open>parseIPv6\<close> with the number of 16-bit groups that are left and whether \<open>::\<close> was seen.\<close>

fun parse_groups :: "nat \<Rightarrow> bool \<Rightarrow> string \<Rightarrow> (nat \<times> bool \<times> string) option" where
  "parse_groups 0 ellipsis s = Some (0, ellipsis, s)"
| "parse_groups (Suc k) ellipsis s =
     (let hex = takeWhile is_hex s; rest = dropWhile is_hex s in
      if hex = [] \<or> length hex > 4 then None
      else if rest = [] then Some (k, ellipsis, [])
      else if hd rest = CHR ''.''
      then (if (\<not> ellipsis \<and> k \<noteq> 1) \<or> k < 1 \<or> \<not> ipv4_fields s then None else Some (k - 1, ellipsis, []))
      else if hd rest \<noteq> CHR '':'' \<or> tl rest = [] then None
      else if hd (tl rest) \<noteq> CHR '':'' then parse_groups k ellipsis (tl rest)
      else if ellipsis then None
      else if tl (tl rest) = [] then Some (k, True, [])
      else parse_groups k True (tl (tl rest)))"

definition ipv6_addr :: "string \<Rightarrow> bool" where
  "ipv6_addr s =
     (case split_two (CHR ''%'') s of
        [_, []] \<Rightarrow> False
      | s # _ \<Rightarrow>
          let leading = has_prefix s ''::''; r = (if leading then drop 2 s else s) in
          (leading \<and> r = []) \<or> (case parse_groups 8 leading r of None \<Rightarrow> False | Some (left, ellipsis, rest) \<Rightarrow> rest = [] \<and> (if left > 0 then ellipsis else \<not> ellipsis))
      | [] \<Rightarrow> False)"

definition ParseAddr :: "string \<Rightarrow> addr_family option" where
  "ParseAddr s =
     (case dropWhile (\<lambda>c. c \<notin> set ''.:%'') s of
        [] \<Rightarrow> None
      | c # _ \<Rightarrow> if c = CHR ''.'' then (if ipv4_fields s then Some Addr4 else None)
                 else if c = CHR '':'' then (if ipv6_addr s then Some Addr6 else None)
                 else None)"

subsection \<open>The global section\<close>

record runtime_api =
  rp_Address :: "string option"
  rp_Extra :: "string list"

record lua_options =
  lo_LoadPerThread :: string
  lo_Extra :: "string list"

record global_conf =
  gl_LuaOptions :: "lua_options option"
  gl_RuntimeAPIs :: "runtime_api list"
  gl_Extra :: "string list"

text \<open>\<open>filepath.Dir\<close>.\<close>

definition path_dir :: "string \<Rightarrow> string" where
  "path_dir p = path_clean (rev (dropWhile (\<lambda>c. c \<noteq> CHR ''/'') (rev p)))"

definition fix_global :: "hug_config \<Rightarrow> global_conf \<Rightarrow> global_conf" where
  "fix_global c g =
     (let lua = (case gl_LuaOptions g of None \<Rightarrow> \<lparr>lo_LoadPerThread = [], lo_Extra = []\<rparr> | Some l \<Rightarrow> l);
          g = g\<lparr>gl_LuaOptions := Some (lua\<lparr>lo_LoadPerThread := path_join [path_dir (hd_MainCfgFile (hc_Dirs c)), ''route.lua'']\<rparr>)\<rparr>;
          socket = \<lparr>rp_Address = Some (hd_RuntimeSocket (hc_Dirs c)), rp_Extra = []\<rparr> in
      case gl_RuntimeAPIs g of
        [] \<Rightarrow> g\<lparr>gl_RuntimeAPIs := [socket]\<rparr>
      | a # _ \<Rightarrow> if rp_Address a = Some (hd_RuntimeSocket (hc_Dirs c)) then g else g\<lparr>gl_RuntimeAPIs := socket # gl_RuntimeAPIs g\<rparr>)"

subsection \<open>The configuration library\<close>

record 'w startup_client =
  sc_New :: go_error
  sc_Backends :: "'w \<Rightarrow> string + backend list"
  sc_Frontends :: "'w \<Rightarrow> string + frontend list"
  sc_Global :: "'w \<Rightarrow> string + global_conf"
  sc_Version :: "'w \<Rightarrow> string + int"
  sc_PushGlobal :: "global_conf \<Rightarrow> int \<Rightarrow> 'w \<Rightarrow> go_error \<times> 'w"
  sc_CreateBind :: "string \<Rightarrow> bind \<Rightarrow> int \<Rightarrow> 'w \<Rightarrow> go_error \<times> 'w"
  sc_EditBind :: "string \<Rightarrow> string \<Rightarrow> bind \<Rightarrow> int \<Rightarrow> 'w \<Rightarrow> go_error \<times> 'w"

subsection \<open>The statistics frontend\<close>

definition StatsFrontendName :: string where "StatsFrontendName = ''stats''"

text \<open>The last bind with a port of each family.\<close>

definition stats_binds :: "(string, bind) gomap \<Rightarrow> bind option \<times> bind option" where
  "stats_binds binds = fold (\<lambda>(_, bd) (bindv4, bindv6).
     if bi_Port bd = None then (bindv4, bindv6)
     else case ParseAddr (bi_Address bd) of Some Addr4 \<Rightarrow> (Some bd, bindv6) | Some Addr6 \<Rightarrow> (bindv4, Some bd) | None \<Rightarrow> (bindv4, bindv6)) binds (None, None)"

definition ensure_stats_bind :: "'w startup_client \<Rightarrow> hug_config \<Rightarrow> string \<Rightarrow> string \<Rightarrow> bind option \<Rightarrow> frontend \<times> 'w \<Rightarrow> go_error \<times> frontend \<times> 'w" where
  "ensure_stats_bind sc c name address found = (\<lambda>(fe, w).
     case sc_Version sc w of
       Inl err \<Rightarrow> (Some err, fe, w)
     | Inr version \<Rightarrow>
         let put = (\<lambda>bd. fe\<lparr>fe_Binds := Some (mput (bi_Name bd) bd (map_or_empty (fe_Binds fe)))\<rparr>) in
         (case found of
            None \<Rightarrow>
              let bd = \<lparr>bi_Name = name, bi_Address = address, bi_Port = Some (hc_StatsPort c), bi_CrtList = [], bi_Ssl = False\<rparr> in
              (case sc_CreateBind sc StatsFrontendName bd version w of (Some err, w) \<Rightarrow> (Some err, fe, w) | (None, w) \<Rightarrow> (None, put bd, w))
          | Some bd \<Rightarrow>
              let bd = bd\<lparr>bi_Port := Some (hc_StatsPort c)\<rparr> in
              (case sc_EditBind sc (bi_Name bd) StatsFrontendName bd version w of (Some err, w) \<Rightarrow> (Some err, fe, w) | (None, w) \<Rightarrow> (None, put bd, w))))"

definition stats_frontend_binds :: "'w startup_client \<Rightarrow> hug_config \<Rightarrow> frontend \<times> 'w \<Rightarrow> go_error \<times> frontend \<times> 'w" where
  "stats_frontend_binds sc c = (\<lambda>(fe, w).
     let (bindv4, bindv6) = stats_binds (map_or_empty (fe_Binds fe)) in
     or_stop (if hc_DisableIPv4 c then (None, fe, w) else ensure_stats_bind sc c ''stats'' ''0.0.0.0'' bindv4 (fe, w))
       (\<lambda>s. if hc_DisableIPv6 c then (None, s) else ensure_stats_bind sc c ''v6'' ''::'' bindv6 s))"

text \<open>The frontends are pointers: the one that changes is changed in the list too.\<close>

definition addBindPortToStatsFrontend :: "'w startup_client \<Rightarrow> hug_config \<Rightarrow> frontend list \<times> 'w \<Rightarrow> go_error \<times> frontend list \<times> 'w" where
  "addBindPortToStatsFrontend sc c = (\<lambda>(fes, w).
     case rev (filter (\<lambda>i. fe_Name (fes ! i) = StatsFrontendName) [0..<length fes]) of
       [] \<Rightarrow> (None, fes, w)
     | i # _ \<Rightarrow> (case stats_frontend_binds sc c (fes ! i, w) of (err, fe, w) \<Rightarrow> (err, fes[i := fe], w)))"

subsection \<open>Reading the file\<close>

record structured =
  sd_Frontends :: "(string, frontend) gomap"
  sd_Backends :: "(string, backend) gomap"

definition isUnifiedGatewayManaged :: "metadata \<Rightarrow> bool" where
  "isUnifiedGatewayManaged md = mhas md UnifiedGatewayMetaDataKey"

text \<open>The section maps share their frontends with the list, so they are made from the list as it is at the end.\<close>

definition managed_sections :: "frontend list \<Rightarrow> backend list \<Rightarrow> structured" where
  "managed_sections fes bes =
     \<lparr>sd_Frontends = fold (\<lambda>fe m. if isUnifiedGatewayManaged (fe_Metadata fe) then mput (fe_Name fe) fe m else m) fes [],
      sd_Backends = fold (\<lambda>be m. if isUnifiedGatewayManaged (be_Metadata be) then mput (be_Name be) be m else m) bes []\<rparr>"

definition StructuredFromFile :: "'w startup_client \<Rightarrow> hug_config \<Rightarrow> 'w \<Rightarrow> (string + structured) \<times> 'w" where
  "StructuredFromFile sc c w =
     (case sc_New sc of Some err \<Rightarrow> (Inl err, w) | None \<Rightarrow>
      case sc_Backends sc w of Inl err \<Rightarrow> (Inl err, w) | Inr backends \<Rightarrow>
      case sc_Frontends sc w of Inl err \<Rightarrow> (Inl err, w) | Inr frontends \<Rightarrow>
      case sc_Global sc w of Inl err \<Rightarrow> (Inl err, w) | Inr global \<Rightarrow>
      case sc_Version sc w of Inl err \<Rightarrow> (Inl err, w) | Inr version \<Rightarrow>
      case sc_PushGlobal sc (fix_global c global) version w of
        (Some err, w) \<Rightarrow> (Inl err, w)
      | (None, w) \<Rightarrow>
          if hc_AddStatsPortToFrontend c
          then (case addBindPortToStatsFrontend sc c (frontends, w) of
                  (Some err, _, w) \<Rightarrow> (Inl err, w)
                | (None, frontends, w) \<Rightarrow> (Inr (managed_sections frontends backends), w))
          else (Inr (managed_sections frontends backends), w))"

text \<open>The configuration that the manager starts with: the backends are allocated.\<close>

definition startup_configuration :: "structured \<Rightarrow> configuration" where
  "startup_configuration s =
     \<lparr>cf_Frontends = sd_Frontends s, cf_Backends = zip (map fst (sd_Backends s)) [0..<length (sd_Backends s)], cf_diffs = no_diffs, cf_objs = map snd (sd_Backends s)\<rparr>"

subsection \<open>The library\<close>

text \<open>What the library documents, for a view of the file: the sections are read as they are in the file under distinct names, and a push or a change of a bind that succeeds
  changes just that.  Servers of a backend are a map.\<close>

definition sections_read :: "('s \<Rightarrow> string) \<Rightarrow> ('s \<Rightarrow> 't) \<Rightarrow> 's list \<Rightarrow> (string \<Rightarrow> 't option) \<Rightarrow> bool" where
  "sections_read name written xs sections = (distinct (map name xs) \<and> (\<forall>n. sections n = map_option written (map_of (map (\<lambda>x. (name x, x)) xs) n)))"

definition startup_laws :: "'w startup_client \<Rightarrow> ('w \<Rightarrow> conf_file) \<Rightarrow> bool" where
  "startup_laws sc view =
     ((\<forall>w fes. sc_Frontends sc w = Inr fes \<longrightarrow> sections_read fe_Name fe_written fes (file_fe (view w)))
      \<and> (\<forall>w bes. sc_Backends sc w = Inr bes \<longrightarrow> sections_read be_Name be_written bes (file_be (view w)) \<and> (\<forall>b \<in> set bes. wf_map (map_or_empty (be_Servers b))))
      \<and> (\<forall>w g v w'. sc_PushGlobal sc g v w = (None, w') \<longrightarrow> view w' = view w \<and> sc_Global sc w' = Inr g)
      \<and> (\<forall>n bd v w w'. sc_CreateBind sc n bd v w = (None, w') \<longrightarrow>
           view w' = on_fe (\<lambda>s. s\<lparr>sf_binds := (sf_binds s)(bi_Name bd \<mapsto> bd)\<rparr>) n (view w) \<and> sc_Global sc w' = sc_Global sc w)
      \<and> (\<forall>k n bd v w w'. sc_EditBind sc k n bd v w = (None, w') \<longrightarrow>
           view w' = on_fe (\<lambda>s. s\<lparr>sf_binds := (sf_binds s)(k \<mapsto> bd)\<rparr>) n (view w) \<and> sc_Global sc w' = sc_Global sc w))"

lemma startup_lawsD:
  assumes "startup_laws sc view"
  shows "sc_Frontends sc w = Inr fes \<Longrightarrow> sections_read fe_Name fe_written fes (file_fe (view w))"
    "sc_Backends sc w = Inr bes \<Longrightarrow> sections_read be_Name be_written bes (file_be (view w)) \<and> (\<forall>b \<in> set bes. wf_map (map_or_empty (be_Servers b)))"
    "sc_PushGlobal sc g v w = (None, w') \<Longrightarrow> view w' = view w \<and> sc_Global sc w' = Inr g"
    "sc_CreateBind sc n bd v w = (None, w') \<Longrightarrow> view w' = on_fe (\<lambda>s. s\<lparr>sf_binds := (sf_binds s)(bi_Name bd \<mapsto> bd)\<rparr>) n (view w) \<and> sc_Global sc w' = sc_Global sc w"
    "sc_EditBind sc k n bd v w = (None, w') \<Longrightarrow> view w' = on_fe (\<lambda>s. s\<lparr>sf_binds := (sf_binds s)(k \<mapsto> bd)\<rparr>) n (view w) \<and> sc_Global sc w' = sc_Global sc w"
  using assms unfolding startup_laws_def by (elim conjE; simp)+

subsection \<open>Lists of sections\<close>

lemma fold_select:
  assumes "distinct (map name xs)"
  shows "map_of (fold (\<lambda>x m. if P x then mput (name x) x m else m) xs m) n
      = (case map_of (map (\<lambda>x. (name x, x)) xs) n of Some x \<Rightarrow> if P x then Some x else map_of m n | None \<Rightarrow> map_of m n)"
  using assms
proof (induction xs arbitrary: m)
  case (Cons x xs)
  have "map_of (map (\<lambda>x. (name x, x)) xs) (name x) = None" using Cons.prems by (auto simp: map_of_eq_None_iff image_image)
  then show ?case using Cons by (auto simp: map_of_mput split: option.split)
qed simp

lemma wf_fold_select: "wf_map m \<Longrightarrow> wf_map (fold (\<lambda>x m. if P x then mput (name x) x m else m) xs m)"
  by (induction xs arbitrary: m) (auto simp: wf_mput)

lemma map_of_own_name: "map_of (map (\<lambda>x. (name x, x)) xs) n = Some x \<Longrightarrow> x \<in> set xs \<and> name x = n"
  by (auto dest!: map_of_SomeD)

lemma map_of_list_update:
  assumes "distinct (map name xs)" "i < length xs" "name y = name (xs ! i)"
  shows "map_of (map (\<lambda>x. (name x, x)) (xs[i := y])) n = (if n = name y then Some y else map_of (map (\<lambda>x. (name x, x)) xs) n)"
  using assms
proof (induction xs arbitrary: i)
  case (Cons x xs)
  then show ?case by (cases i) (auto, metis imageI nth_mem)
qed simp

lemma section_changed:
  assumes "sections_read name written xs sections" "i < length xs" "name y = name (xs ! i)"
  shows "sections_read name written (xs[i := y]) (sections(name y := map_option (\<lambda>_. written y) (sections (name y))))"
proof -
  have "map name (xs[i := y]) = map name xs" using assms(2,3) by (metis list_update_id map_update)
  moreover have "map_of (map (\<lambda>x. (name x, x)) xs) (name (xs ! i)) = Some (xs ! i)" using assms(1,2)
    by (intro map_of_is_SomeI) (auto simp: sections_read_def o_def)
  then have "sections (name y) = Some (written (xs ! i))" using assms by (simp add: sections_read_def)
  ultimately show ?thesis using assms map_of_list_update[of name xs i y] by (auto simp: sections_read_def)
qed

subsection \<open>The statistics frontend\<close>

lemma written_bind:
  "fe_written (fe\<lparr>fe_Binds := Some (mput k bd (map_or_empty (fe_Binds fe)))\<rparr>) = (fe_written fe)\<lparr>sf_binds := (sf_binds (fe_written fe))(k \<mapsto> bd)\<rparr>"
  by (simp add: fe_written_def frontend_base_def map_or_empty_def fun_eq_iff map_of_mput)

text \<open>A step on the statistics frontend: its section in the file follows the frontend in memory, and nothing else changes.\<close>

definition stats_step :: "('w \<Rightarrow> conf_file) \<Rightarrow> 'w startup_client \<Rightarrow> frontend \<times> 'w \<Rightarrow> frontend \<times> 'w \<Rightarrow> bool" where
  "stats_step view sc s s' = (case (s, s') of ((fe, w), (fe', w')) \<Rightarrow>
     fe_Name fe' = fe_Name fe \<and> fe_Metadata fe' = fe_Metadata fe \<and> sc_Global sc w' = sc_Global sc w \<and> file_be (view w') = file_be (view w)
     \<and> (file_fe (view w) StatsFrontendName = Some (fe_written fe) \<longrightarrow> file_fe (view w') = (file_fe (view w))(StatsFrontendName \<mapsto> fe_written fe')))"

lemma ensure_stats_bind_step:
  assumes "startup_laws sc view" "ensure_stats_bind sc c name address found (fe, w) = (None, s')"
  shows "stats_step view sc (fe, w) s'"
proof -
  note L = startup_lawsD(4,5)[OF assms(1)]
  show ?thesis using assms(2)
    by (auto simp: ensure_stats_bind_def Let_def stats_step_def written_bind on_fe_def fun_eq_iff dest!: L split: sum.splits option.splits prod.splits)
qed

lemma stats_step_refl: "stats_step view sc s s"
  by (auto simp: stats_step_def split: prod.split)

lemma stats_step_trans: "stats_step view sc s s' \<Longrightarrow> stats_step view sc s' s'' \<Longrightarrow> stats_step view sc s s''"
  by (auto simp: stats_step_def split: prod.splits)

lemma stats_frontend_binds_step:
  assumes "startup_laws sc view" "stats_frontend_binds sc c (fe, w) = (None, fe', w')"
  shows "stats_step view sc (fe, w) (fe', w')"
proof -
  obtain b4 b6 where b: "stats_binds (map_or_empty (fe_Binds fe)) = (b4, b6)" by fastforce
  define first where "first = (if hc_DisableIPv4 c then (None, fe, w) else ensure_stats_bind sc c ''stats'' ''0.0.0.0'' b4 (fe, w))"
  obtain fe1 w1 where 1: "first = (None, fe1, w1)" using assms(2) by (cases first) (auto simp: stats_frontend_binds_def b or_stop_def first_def[symmetric] split: option.splits)
  have "stats_step view sc (fe, w) (fe1, w1)" using 1 ensure_stats_bind_step[OF assms(1)] stats_step_refl[of view sc "(fe, w)"] by (auto simp: first_def split: if_splits)
  moreover have "stats_step view sc (fe1, w1) (fe', w')"
    using assms(2) 1 ensure_stats_bind_step[OF assms(1)] stats_step_refl[of view sc "(fe1, w1)"]
    by (auto simp: stats_frontend_binds_def b or_stop_def first_def[symmetric] split: if_splits)
  ultimately show ?thesis by (rule stats_step_trans)
qed

lemma addBindPort_step:
  assumes laws: "startup_laws sc view" and r: "sections_read fe_Name fe_written fes (file_fe (view w))" and a: "addBindPortToStatsFrontend sc c (fes, w) = (None, fes', w')"
  shows "sections_read fe_Name fe_written fes' (file_fe (view w')) \<and> file_be (view w') = file_be (view w) \<and> sc_Global sc w' = sc_Global sc w
    \<and> (\<forall>n. n \<noteq> StatsFrontendName \<longrightarrow> file_fe (view w') n = file_fe (view w) n)
    \<and> map (\<lambda>f. (fe_Name f, fe_Metadata f)) fes' = map (\<lambda>f. (fe_Name f, fe_Metadata f)) fes"
proof (cases "rev (filter (\<lambda>i. fe_Name (fes ! i) = StatsFrontendName) [0..<length fes])")
  case Nil
  then show ?thesis using a r by (simp add: addBindPortToStatsFrontend_def)
next
  case (Cons i js)
  then have "i \<in> set (rev (filter (\<lambda>i. fe_Name (fes ! i) = StatsFrontendName) [0..<length fes]))" by simp
  then have i: "i < length fes" "fe_Name (fes ! i) = StatsFrontendName" by simp_all
  obtain fe where fe: "stats_frontend_binds sc c (fes ! i, w) = (None, fe, w')" "fes' = fes[i := fe]"
    using a Cons by (auto simp: addBindPortToStatsFrontend_def split: prod.splits)
  have there: "file_fe (view w) StatsFrontendName = Some (fe_written (fes ! i))"
    using r i map_of_is_SomeI[of "map (\<lambda>x. (fe_Name x, x)) fes" StatsFrontendName "fes ! i"] by (force simp: sections_read_def o_def)
  have s: "fe_Name fe = StatsFrontendName" "fe_Metadata fe = fe_Metadata (fes ! i)" "sc_Global sc w' = sc_Global sc w" "file_be (view w') = file_be (view w)"
    "file_fe (view w') = (file_fe (view w))(StatsFrontendName \<mapsto> fe_written fe)"
    using stats_frontend_binds_step[OF laws fe(1)] there i(2) by (simp_all add: stats_step_def)
  have "(file_fe (view w))(fe_Name fe := map_option (\<lambda>_. fe_written fe) (file_fe (view w) (fe_Name fe))) = file_fe (view w')" using s(1,5) there by simp
  then have "sections_read fe_Name fe_written fes' (file_fe (view w'))" using section_changed[OF r i(1), of fe] s(1) i(2) fe(2) by simp
  moreover have "map (\<lambda>f. (fe_Name f, fe_Metadata f)) fes' = map (\<lambda>f. (fe_Name f, fe_Metadata f)) fes"
    unfolding fe(2) map_update using i s(1,2) by (metis (no_types, lifting) length_map list_update_id nth_map)
  ultimately show ?thesis using s by simp
qed

subsection \<open>The configuration at the start\<close>

lemma fix_global_idem: "fix_global c (fix_global c g) = fix_global c g"
  by (cases "gl_RuntimeAPIs g") (simp_all add: fix_global_def Let_def)

lemma managed_lookup:
  "distinct (map fe_Name fes) \<Longrightarrow> map_of (sd_Frontends (managed_sections fes bes)) n
     = (case map_of (map (\<lambda>x. (fe_Name x, x)) fes) n of Some f \<Rightarrow> if isUnifiedGatewayManaged (fe_Metadata f) then Some f else None | None \<Rightarrow> None)"
  "distinct (map be_Name bes) \<Longrightarrow> map_of (sd_Backends (managed_sections fes bes)) n
     = (case map_of (map (\<lambda>x. (be_Name x, x)) bes) n of Some b \<Rightarrow> if isUnifiedGatewayManaged (be_Metadata b) then Some b else None | None \<Rightarrow> None)"
  by (simp_all add: managed_sections_def fold_select split: option.split)

lemma map_of_own_iff:
  assumes "distinct (map name xs)"
  shows "map_of (map (\<lambda>x. (name x, x)) xs) n = Some x \<longleftrightarrow> x \<in> set xs \<and> name x = n"
proof
  assume "x \<in> set xs \<and> name x = n"
  then have "(n, x) \<in> set (map (\<lambda>x. (name x, x)) xs)" by force
  moreover have "distinct (map fst (map (\<lambda>x. (name x, x)) xs))" using assms by (simp add: o_def)
  ultimately show "map_of (map (\<lambda>x. (name x, x)) xs) n = Some x" by (rule map_of_is_SomeI[rotated])
qed (rule map_of_own_name)

lemma managed_mem:
  assumes "distinct (map fe_Name fes)"
  shows "mhas (sd_Frontends (managed_sections fes bes)) n \<longleftrightarrow> (\<exists>md. (n, md) \<in> set (map (\<lambda>f. (fe_Name f, fe_Metadata f)) fes) \<and> isUnifiedGatewayManaged md)"
proof -
  have "mhas (sd_Frontends (managed_sections fes bes)) n \<longleftrightarrow> (\<exists>f. map_of (map (\<lambda>x. (fe_Name x, x)) fes) n = Some f \<and> isUnifiedGatewayManaged (fe_Metadata f))"
    by (simp add: mhas_def managed_lookup(1)[OF assms] split: option.split)
  also have "\<dots> \<longleftrightarrow> (\<exists>f \<in> set fes. fe_Name f = n \<and> isUnifiedGatewayManaged (fe_Metadata f))" unfolding map_of_own_iff[OF assms] by blast
  finally show ?thesis by auto
qed

lemma wf_managed: "wf_map (sd_Frontends (managed_sections fes bes))" "wf_map (sd_Backends (managed_sections fes bes))"
  by (simp_all add: managed_sections_def wf_fold_select)

text \<open>The allocated backends are those of the map.\<close>

lemma allocated:
  "map_of (zip (map fst m) [0..<length m]) n = Some p \<Longrightarrow> p < length m \<and> fst (m ! p) = n"
  by (auto dest!: map_of_SomeD simp: in_set_zip)

lemma deref_startup:
  assumes "wf_map (sd_Backends s)"
  shows "deref (startup_configuration s) (cf_Backends (startup_configuration s)) n = map_of (sd_Backends s) n"
proof (cases "map_of (zip (map fst (sd_Backends s)) [0..<length (sd_Backends s)]) n")
  case None
  then have "n \<notin> fst ` set (sd_Backends s)" by (simp add: map_of_zip_is_None)
  then show ?thesis using None by (simp add: deref_def startup_configuration_def map_of_eq_None_iff[symmetric])
next
  case (Some p)
  then have "p < length (sd_Backends s) \<and> fst (sd_Backends s ! p) = n" by (rule allocated)
  then have "(n, snd (sd_Backends s ! p)) \<in> set (sd_Backends s)" by (metis nth_mem prod.collapse)
  then have "map_of (sd_Backends s) n = Some (snd (sd_Backends s ! p))" using assms by (simp add: wf_map_def)
  then show ?thesis using Some \<open>p < length (sd_Backends s) \<and> fst (sd_Backends s ! p) = n\<close> by (simp add: deref_def startup_configuration_def)
qed

lemma managed_configuration:
  assumes f: "sections_read fe_Name fe_written fes (file_fe F)" and b: "sections_read be_Name be_written bes (file_be F)"
    and wf: "\<forall>b \<in> set bes. wf_map (map_or_empty (be_Servers b))" and c: "c = startup_configuration (managed_sections fes bes)"
  shows "conf_inv c" "holds F c"
proof -
  let ?s = "managed_sections fes bes"
  have d: "distinct (map fe_Name fes)" "distinct (map be_Name bes)" using f b by (simp_all add: sections_read_def)
  have fe: "map_of (sd_Frontends ?s) n = Some f \<Longrightarrow> map_of (map (\<lambda>x. (fe_Name x, x)) fes) n = Some f" for n f
    by (auto simp: managed_lookup(1)[OF d(1)] split: option.splits if_splits)
  have be: "map_of (sd_Backends ?s) n = Some b \<Longrightarrow> map_of (map (\<lambda>x. (be_Name x, x)) bes) n = Some b" for n b
    by (auto simp: managed_lookup(2)[OF d(2)] split: option.splits if_splits)
  have entry: "map_of (sd_Backends ?s) k = Some v" if "(k, v) \<in> set (sd_Backends ?s)" for k v using that wf_managed(2) by (simp add: map_of_wf_mem)
  have own: "be_Name v = k \<and> v \<in> set bes" if "(k, v) \<in> set (sd_Backends ?s)" for k v using map_of_own_name[OF be[OF entry[OF that]]] by simp
  have "p < length (cf_objs c) \<and> be_Name (cf_objs c ! p) = n" if "map_of (cf_Backends c) n = Some p" for n p
  proof -
    have p: "p < length (sd_Backends ?s) \<and> fst (sd_Backends ?s ! p) = n" by (rule allocated) (use that in \<open>simp add: c startup_configuration_def\<close>)
    then have "(n, snd (sd_Backends ?s ! p)) \<in> set (sd_Backends ?s)" by (metis nth_mem prod.collapse)
    from own[OF this] p show ?thesis by (simp add: c startup_configuration_def)
  qed
  then have objs: "ptrs_ok (cf_objs c) (cf_Backends c)" by (simp add: ptrs_ok_def)
  have servers: "\<forall>b \<in> set (cf_objs c). wf_map (map_or_empty (be_Servers b))" using own wf by (auto simp: c startup_configuration_def)
  have named: "map_of (sd_Frontends ?s) n = Some f \<Longrightarrow> fe_Name f = n" for n f using map_of_own_name[OF fe] by blast
  show "conf_inv c" using objs servers named by (simp add: conf_inv_def) (simp add: c startup_configuration_def no_diffs_def ptrs_ok_def diffs_ok_def named_frontends_def)
  have "file_fe F n = Some (fe_written f)" if "map_of (sd_Frontends ?s) n = Some f" for n f using fe[OF that] f by (simp add: sections_read_def)
  moreover have "file_be F n = Some (be_written b)" if "map_of (sd_Backends ?s) n = Some b" for n b using be[OF that] b by (simp add: sections_read_def)
  ultimately show "holds F c" by (simp add: holds_def c deref_startup[OF wf_managed(2)]) (simp add: startup_configuration_def)
qed

lemma managed_iff:
  assumes "sections_read fe_Name fe_written fes (file_fe F)" "sections_read be_Name be_written bes (file_be F)"
  shows "mhas (sd_Frontends (managed_sections fes bes)) n \<longleftrightarrow> (\<exists>f. file_fe F n = Some f \<and> isUnifiedGatewayManaged (fe_Metadata (sf_base f)))"
    "mhas (sd_Backends (managed_sections fes bes)) n \<longleftrightarrow> (\<exists>b. file_be F n = Some b \<and> isUnifiedGatewayManaged (be_Metadata (sb_base b)))"
  using assms by (auto simp: mhas_def sections_read_def managed_lookup fe_written_def be_written_def frontend_base_def backend_base_def split: option.split)

lemma startup_parts:
  assumes laws: "startup_laws sc view" and r: "StructuredFromFile sc c w = (Inr s, w')"
  obtains fes bes fes' g where "sc_Frontends sc w = Inr fes" "sc_Backends sc w = Inr bes" "s = managed_sections fes' bes" "sc_Global sc w' = Inr (fix_global c g)"
    "sections_read fe_Name fe_written fes' (file_fe (view w'))" "file_be (view w') = file_be (view w)" "\<And>n. n \<noteq> StatsFrontendName \<Longrightarrow> file_fe (view w') n = file_fe (view w) n"
    "map (\<lambda>f. (fe_Name f, fe_Metadata f)) fes' = map (\<lambda>f. (fe_Name f, fe_Metadata f)) fes"
proof -
  obtain bes fes g v w1 where p: "sc_Backends sc w = Inr bes" "sc_Frontends sc w = Inr fes" "sc_PushGlobal sc (fix_global c g) v w = (None, w1)"
      "(if hc_AddStatsPortToFrontend c then (case addBindPortToStatsFrontend sc c (fes, w1) of
          (Some err, _, w) \<Rightarrow> (Inl err, w) | (None, frontends, w) \<Rightarrow> (Inr (managed_sections frontends bes), w))
        else (Inr (managed_sections fes bes), w1)) = (Inr s, w')"
    using r by (auto simp: StructuredFromFile_def split: option.splits sum.splits prod.splits)
  have w1: "view w1 = view w" "sc_Global sc w1 = Inr (fix_global c g)" using startup_lawsD(3)[OF laws p(3)] by simp_all
  have rd: "sections_read fe_Name fe_written fes (file_fe (view w1))" using startup_lawsD(1)[OF laws p(2)] w1(1) by simp
  show thesis
  proof (cases "hc_AddStatsPortToFrontend c")
    case False
    then show thesis using that[OF p(2,1), of fes g] p(4) w1 rd by simp
  next
    case True
    then obtain fes' where a: "addBindPortToStatsFrontend sc c (fes, w1) = (None, fes', w')" "s = managed_sections fes' bes"
      using p(4) by (auto split: prod.splits option.splits)
    from addBindPort_step[OF laws rd a(1)] show thesis using that[OF p(2,1) a(2), of g] w1 by simp
  qed
qed

text \<open>C5: the manager starts from the file.  When the configuration library reads and writes the file as documented, a start without an error gives the sections of the file that
  carry the metadata of the gateway and no others; the configuration made of them is well-formed, the file holds it, and the manager is ready for its first cycle.  Apart
  from the statistics frontend no section is changed, and the global section has the settings of the gateway, so that another start leaves it as it is.\<close>

theorem startup_configuration_ok:
  assumes "startup_laws sc view" "StructuredFromFile sc c w = (Inr s, w')"
  shows "conf_inv (startup_configuration s) \<and> cycle_inv names (NewHaproxyConfMgr (startup_configuration s)) \<and> holds (view w') (startup_configuration s)
    \<and> (\<forall>n. mhas (sd_Frontends s) n \<longleftrightarrow> (\<exists>f. file_fe (view w) n = Some f \<and> mhas (fe_Metadata (sf_base f)) UnifiedGatewayMetaDataKey))
    \<and> (\<forall>n. mhas (sd_Backends s) n \<longleftrightarrow> (\<exists>b. file_be (view w) n = Some b \<and> mhas (be_Metadata (sb_base b)) UnifiedGatewayMetaDataKey))
    \<and> file_be (view w') = file_be (view w) \<and> (\<forall>n. n \<noteq> StatsFrontendName \<longrightarrow> file_fe (view w') n = file_fe (view w) n)
    \<and> (\<exists>g. sc_Global sc w' = Inr g \<and> fix_global c g = g)"
proof -
  obtain fes bes fes' g where p: "sc_Frontends sc w = Inr fes" "sc_Backends sc w = Inr bes" "s = managed_sections fes' bes" "sc_Global sc w' = Inr (fix_global c g)"
    "sections_read fe_Name fe_written fes' (file_fe (view w'))" "file_be (view w') = file_be (view w)" "\<And>n. n \<noteq> StatsFrontendName \<Longrightarrow> file_fe (view w') n = file_fe (view w) n"
    "map (\<lambda>f. (fe_Name f, fe_Metadata f)) fes' = map (\<lambda>f. (fe_Name f, fe_Metadata f)) fes"
    by (rule startup_parts[OF assms]) blast
  have bes: "sections_read be_Name be_written bes (file_be (view w'))" "\<forall>b \<in> set bes. wf_map (map_or_empty (be_Servers b))"
    using startup_lawsD(2)[OF assms(1) p(2)] p(6) by simp_all
  have fes: "sections_read fe_Name fe_written fes (file_fe (view w))" by (rule startup_lawsD(1)[OF assms(1) p(1)])
  note ok = managed_configuration[OF p(5) bes arg_cong[OF p(3), of startup_configuration]]
  have d: "distinct (map fe_Name fes')" "distinct (map fe_Name fes)" using p(5) fes by (simp_all add: sections_read_def)
  have "mhas (sd_Frontends (managed_sections fes' bes)) n = mhas (sd_Frontends (managed_sections fes bes)) n" for n
    unfolding managed_mem[OF d(1)] managed_mem[OF d(2)] p(8) ..
  then have fe: "mhas (sd_Frontends s) n \<longleftrightarrow> (\<exists>f. file_fe (view w) n = Some f \<and> mhas (fe_Metadata (sf_base f)) UnifiedGatewayMetaDataKey)" for n
    using managed_iff(1)[OF fes conjunct1[OF startup_lawsD(2)[OF assms(1) p(2)]], of n] p(3) by (simp add: isUnifiedGatewayManaged_def)
  have be: "mhas (sd_Backends s) n \<longleftrightarrow> (\<exists>b. file_be (view w) n = Some b \<and> mhas (be_Metadata (sb_base b)) UnifiedGatewayMetaDataKey)" for n
    using managed_iff(2)[OF fes conjunct1[OF startup_lawsD(2)[OF assms(1) p(2)]], of n] p(3) by (simp add: managed_sections_def isUnifiedGatewayManaged_def)
  have "cycle_inv names (NewHaproxyConfMgr (startup_configuration s))" using ok(1)
    by (simp add: cycle_inv_def owned_inv0_def NewHaproxyConfMgr_def owned_by_def owners_inv_def NewBackendOwners_def)
  then show ?thesis using ok fe be p(4,6,7) fix_global_idem[of c g] by blast
qed

text \<open>A bind on all addresses is not seen: the start adds another one.\<close>

lemma star_bind_not_seen: "bi_Address bd = ''*'' \<or> bi_Address bd = [] \<Longrightarrow> stats_binds [(k, bd)] = (None, None)"
proof -
  have "ParseAddr ''*'' = None" "ParseAddr [] = None" by code_simp+
  then show "bi_Address bd = ''*'' \<or> bi_Address bd = [] \<Longrightarrow> stats_binds [(k, bd)] = (None, None)" by (auto simp: stats_binds_def)
qed

lemma addresses_parsed:
  "ParseAddr ''0.0.0.0'' = Some Addr4" "ParseAddr ''::'' = Some Addr6" "ParseAddr ''fe80::1%eth0'' = Some Addr6" "ParseAddr ''::ffff:10.0.0.1'' = Some Addr6"
  "ParseAddr ''10.0.0.256'' = None" "ParseAddr ''01.2.3.4'' = None" "ParseAddr ''1:2:3:4:5:6:7:8:9'' = None" "ParseAddr ''1::2::3'' = None"
  by code_simp+

subsection \<open>An example\<close>

text \<open>A library whose file is two lists of sections and the global section.\<close>

type_synonym list_file = "frontend list \<times> backend list \<times> global_conf"

definition list_view :: "list_file \<Rightarrow> conf_file" where
  "list_view = (\<lambda>(fes, bes, _). \<lparr>file_fe = (\<lambda>n. map_option fe_written (map_of (map (\<lambda>f. (fe_Name f, f)) fes) n)),
     file_be = (\<lambda>n. map_option be_written (map_of (map (\<lambda>b. (be_Name b, b)) bes) n))\<rparr>)"

definition put_bind :: "string \<Rightarrow> string \<Rightarrow> bind \<Rightarrow> frontend \<Rightarrow> frontend" where
  "put_bind n k bd f = (if fe_Name f = n then f\<lparr>fe_Binds := Some (mput k bd (map_or_empty (fe_Binds f)))\<rparr> else f)"

definition list_client :: "list_file startup_client" where
  "list_client =
     \<lparr>sc_New = None, sc_Backends = (\<lambda>(_, bes, _). if distinct (map be_Name bes) \<and> list_all (\<lambda>b. wf_map (map_or_empty (be_Servers b))) bes then Inr bes else Inl ''invalid file''),
      sc_Frontends = (\<lambda>(fes, _, _). if distinct (map fe_Name fes) then Inr fes else Inl ''invalid file''), sc_Global = (\<lambda>(_, _, g). Inr g), sc_Version = (\<lambda>_. Inr 1),
      sc_PushGlobal = (\<lambda>g _ (fes, bes, _). (None, fes, bes, g)), sc_CreateBind = (\<lambda>n bd _ (fes, bes, g). (None, map (put_bind n (bi_Name bd) bd) fes, bes, g)),
      sc_EditBind = (\<lambda>k n bd _ (fes, bes, g). (None, map (put_bind n k bd) fes, bes, g))\<rparr>"

lemma map_of_updated:
  "(\<And>x. name (u x) = name x) \<Longrightarrow> map_of (map (\<lambda>x. (name x, x)) (map u xs)) n = map_option u (map_of (map (\<lambda>x. (name x, x)) xs) n)"
  by (induction xs) auto

lemma list_view_bind:
  "list_view (map (put_bind n k bd) fes, bes, g) = on_fe (\<lambda>s. s\<lparr>sf_binds := (sf_binds s)(k \<mapsto> bd)\<rparr>) n (list_view (fes, bes, g))"
proof -
  have name: "fe_Name (put_bind n k bd f) = fe_Name f" for f by (simp add: put_bind_def)
  have "map_option fe_written (map_option (put_bind n k bd) (map_of (map (\<lambda>f. (fe_Name f, f)) fes) m))
      = (if m = n then map_option (\<lambda>s. s\<lparr>sf_binds := (sf_binds s)(k \<mapsto> bd)\<rparr>) (map_option fe_written (map_of (map (\<lambda>f. (fe_Name f, f)) fes) m))
         else map_option fe_written (map_of (map (\<lambda>f. (fe_Name f, f)) fes) m))" for m
  proof (cases "map_of (map (\<lambda>f. (fe_Name f, f)) fes) m")
    case (Some f)
    then have "fe_Name f = m" using map_of_own_name[OF Some] by blast
    then show ?thesis unfolding Some by (simp add: put_bind_def written_bind)
  qed auto
  then show ?thesis by (simp add: list_view_def on_fe_def fun_eq_iff map_of_updated[of fe_Name, OF name] del: map_map)
qed

lemma list_client_laws: "startup_laws list_client list_view"
  by (auto simp: startup_laws_def list_client_def sections_read_def list_view_bind list_all_iff split: if_splits) (simp_all add: list_view_def)

definition ex_section :: "string \<Rightarrow> metadata \<Rightarrow> frontend" where
  "ex_section n md = \<lparr>fe_Name = n, fe_From = [], fe_Metadata = md, fe_DefaultBackend = [], fe_Mode = ''http'', fe_ACLList = [], fe_TCPRequestRuleList = [], fe_HTTPRequestRuleList = [],
     fe_BackendSwitchingRuleList = [], fe_Binds = None\<rparr>"

definition ex_hug_config :: hug_config where
  "ex_hug_config = \<lparr>hc_LogSettings = [], hc_Dirs = HaproxyDefaults\<lparr>hd_MainCfgFile := ''/usr/local/hug/haproxy.cfg'', hd_RuntimeSocket := ''/var/run/s''\<rparr>, hc_LogType = ''json'',
     hc_External = externalDefaults, hc_StatsPort = 1024, hc_ControllerPort = 6060, hc_AddStatsPortToFrontend = True, hc_Test = False, hc_DisableIPv4 = False, hc_DisableIPv6 = True\<rparr>"

definition ex_start_file :: list_file where
  "ex_start_file = ([ex_section ''stats'' [], ex_section ''hug_d_g_l'' [(UnifiedGatewayMetaDataKey, [])]], [ex_be ''backend_not_found''],
     \<lparr>gl_LuaOptions = None, gl_RuntimeAPIs = [], gl_Extra = []\<rparr>)"

theorem startup_configuration_ok_witness:
  "\<exists>s w'. StructuredFromFile list_client ex_hug_config ex_start_file = (Inr s, w') \<and> conf_inv (startup_configuration s) \<and> holds (list_view w') (startup_configuration s)
     \<and> mhas (sd_Frontends s) ''hug_d_g_l'' \<and> \<not> mhas (sd_Frontends s) ''stats'' \<and> \<not> mhas (sd_Backends s) ''backend_not_found''"
proof -
  have "\<not> isl (fst (StructuredFromFile list_client ex_hug_config ex_start_file))" by code_simp
  then have "\<exists>s w'. StructuredFromFile list_client ex_hug_config ex_start_file = (Inr s, w')" by (metis prod.collapse sum.collapse(2))
  then obtain s w' where r: "StructuredFromFile list_client ex_hug_config ex_start_file = (Inr s, w')" by blast
  note ok = startup_configuration_ok[OF list_client_laws r]
  have "file_fe (list_view ex_start_file) ''hug_d_g_l'' = Some (fe_written (ex_section ''hug_d_g_l'' [(UnifiedGatewayMetaDataKey, [])]))"
    "file_fe (list_view ex_start_file) ''stats'' = Some (fe_written (ex_section ''stats'' []))"
    "file_be (list_view ex_start_file) ''backend_not_found'' = Some (be_written (ex_be ''backend_not_found''))"
    by (simp_all add: list_view_def ex_start_file_def ex_section_def ex_be_def)
  then have "mhas (sd_Frontends s) ''hug_d_g_l''" "\<not> mhas (sd_Frontends s) ''stats''" "\<not> mhas (sd_Backends s) ''backend_not_found''"
    using ok by (simp_all add: isUnifiedGatewayManaged_def fe_written_def be_written_def frontend_base_def backend_base_def ex_section_def ex_be_def mhas_def)
  then show ?thesis using r ok by blast
qed

end
