(* ===== verification/StatusUpdate.thy ===== *)
theory StatusUpdate
  imports RouteStatus "HOL-Library.Multiset"
begin

text \<open>
  The status of resources (\<open>k8s/gate/status\<close>): what the controller wants as status, the comparison with the status in the cluster, and the update with its retries.

  The Kubernetes client and the back-off library are parameters on a state \<open>'w\<close> of their own.  The type assertions of the patchers are types here, so
  the patchers have no error.
\<close>

subsection \<open>Statuses\<close>

text \<open>The parts of a status that the controller does not write are kept as texts.\<close>

record gateway_class_status =
  gcs_Conditions :: "metav1_condition list"
  gcs_Other :: "string list"

record gateway_status =
  gs_Addresses :: "string list"
  gs_Conditions :: "metav1_condition list"
  gs_Listeners :: "listener_status list"

subsection \<open>The patchers\<close>

text \<open>A patcher compares a status and makes one.  The comparison may sort lists of the patcher and of the status in place.\<close>

record ('p, 's) patcher_ops =
  po_StatusEqual :: "'p \<Rightarrow> 's \<Rightarrow> bool \<times> 'p \<times> 's"
  po_SetStatus :: "'p \<Rightarrow> int \<Rightarrow> 's \<Rightarrow> 's"

definition newGatewayClassStatusPatcher :: "gateway_class \<Rightarrow> conditions" where
  "newGatewayClassStatusPatcher gwc = gc_Conditions gwc"

definition gatewayClass_StatusEqual :: "conditions \<Rightarrow> gateway_class_status \<Rightarrow> bool \<times> conditions \<times> gateway_class_status" where
  "gatewayClass_StatusEqual sp s = (Conditions_Equal sp (NewConditionsFromMetav1Conditions (gcs_Conditions s)), sp, s)"

definition gatewayClass_SetStatus :: "conditions \<Rightarrow> int \<Rightarrow> gateway_class_status \<Rightarrow> gateway_class_status" where
  "gatewayClass_SetStatus sp now s = \<lparr>gcs_Conditions = ToMetav1Conditions now sp, gcs_Other = []\<rparr>"

record gateway_patcher =
  gp_conditions :: conditions
  gp_listenerStatuses :: "listener_status list"

text \<open>\<open>int32\<close> of a length wraps around.\<close>

definition int32 :: "nat \<Rightarrow> int" where
  "int32 n = (int n + 2 ^ 31) mod 2 ^ 32 - 2 ^ 31"

definition newGatewayStatusPatcher :: "int \<Rightarrow> gateway \<Rightarrow> gateway_patcher" where
  "newGatewayStatusPatcher now gw =
     \<lparr>gp_conditions = gw_Conditions gw,
      gp_listenerStatuses = (if gw_Valid gw
        then map (\<lambda>(_, l). \<lparr>lst_name = ls_name (li_K8sResource l), lst_supportedKinds = li_AllowedRouteKinds l, lst_attachedRoutes = int32 (length (li_AttachedRoutes l)),
               lst_conditions = ToMetav1Conditions now (li_Conditions l)\<rparr>) (gw_Listeners gw)
        else [])\<rparr>"

definition listenerStatusEqual :: "listener_status \<Rightarrow> listener_status \<Rightarrow> bool" where
  "listenerStatusEqual a b =
     (if lst_name a \<noteq> lst_name b then False
      else if lst_attachedRoutes a \<noteq> lst_attachedRoutes b then False
      else if \<not> Conditions_Equal (NewConditionsFromMetav1Conditions (lst_conditions a)) (NewConditionsFromMetav1Conditions (lst_conditions b)) then False
      else lst_supportedKinds a = lst_supportedKinds b)"

definition sortListenerStatusByName :: "listener_status list \<Rightarrow> listener_status list" where
  "sortListenerStatusByName = sort_key lst_name"

text \<open>\<open>ListenerStatusesEqual\<close> sorts both slices.\<close>

definition ListenerStatusesEqual :: "listener_status list \<Rightarrow> listener_status list \<Rightarrow> bool \<times> listener_status list \<times> listener_status list" where
  "ListenerStatusesEqual a b =
     (let a = sortListenerStatusByName a; b = sortListenerStatusByName b in (list_all2 listenerStatusEqual a b, a, b))"

definition gateway_StatusEqual :: "gateway_patcher \<Rightarrow> gateway_status \<Rightarrow> bool \<times> gateway_patcher \<times> gateway_status" where
  "gateway_StatusEqual sp s =
     (if \<not> Conditions_Equal (gp_conditions sp) (NewConditionsFromMetav1Conditions (gs_Conditions s)) then (False, sp, s)
      else let (eq, a, b) = ListenerStatusesEqual (gp_listenerStatuses sp) (gs_Listeners s)
           in (eq, sp\<lparr>gp_listenerStatuses := a\<rparr>, s\<lparr>gs_Listeners := b\<rparr>))"

definition gateway_SetStatus :: "gateway_patcher \<Rightarrow> int \<Rightarrow> gateway_status \<Rightarrow> gateway_status" where
  "gateway_SetStatus sp now s = \<lparr>gs_Addresses = [], gs_Conditions = ToMetav1Conditions now (gp_conditions sp), gs_Listeners = gp_listenerStatuses sp\<rparr>"

subsection \<open>Routes\<close>

record route_patcher =
  rp_controllerName :: string
  rp_conditions :: route_conditions

definition newHTTPRouteStatusPatcher :: "http_route \<Rightarrow> route_patcher" where
  "newHTTPRouteStatusPatcher r = \<lparr>rp_controllerName = rt_ControllerName r, rp_conditions = rt_Conditions r\<rparr>"

definition newTLSRouteStatusPatcher :: "tls_route \<Rightarrow> route_patcher" where
  "newTLSRouteStatusPatcher r = \<lparr>rp_controllerName = rt_ControllerName r, rp_conditions = rt_Conditions r\<rparr>"

definition FilterStatusByControllerName :: "route_parent_status list \<Rightarrow> string \<Rightarrow> route_parent_status list" where
  "FilterStatusByControllerName parents controllerName = filter (\<lambda>p. rps_controllerName p = controllerName) parents"

definition FilterTLSRouteStatusByControllerName :: "route_parent_status list \<Rightarrow> string \<Rightarrow> route_parent_status list" where
  "FilterTLSRouteStatusByControllerName parents controllerName = filter (\<lambda>p. rps_controllerName p = controllerName) parents"

definition RouteStatusesEqual :: "route_conditions \<Rightarrow> route_conditions \<Rightarrow> bool" where
  "RouteStatusesEqual a b = RouteConditions_Equal a b"

text \<open>\<open>sort.Slice\<close> with the order of the code.\<close>

definition parent_ref_less :: "parent_reference \<Rightarrow> parent_reference \<Rightarrow> bool" where
  "parent_ref_less a b =
     (let g = ComparePointers (pref_group a) (pref_group b); k = ComparePointers (pref_kind a) (pref_kind b); n = ComparePointers (pref_namespace a) (pref_namespace b);
          s = ComparePointers (pref_sectionName a) (pref_sectionName b); p = ComparePointers (pref_port a) (pref_port b) in
      if g \<noteq> 0 then g < 0 else if k \<noteq> 0 then k < 0 else if n \<noteq> 0 then n < 0
      else if pref_name a \<noteq> pref_name b then pref_name a < pref_name b
      else if s \<noteq> 0 then s < 0 else if p \<noteq> 0 then p < 0 else False)"

primrec insert_by :: "('a \<Rightarrow> 'a \<Rightarrow> bool) \<Rightarrow> 'a \<Rightarrow> 'a list \<Rightarrow> 'a list" where
  "insert_by lt x [] = [x]"
| "insert_by lt x (y # ys) = (if lt y x then y # insert_by lt x ys else x # y # ys)"

definition sortRouteParentStatusByParentRef :: "route_parent_status list \<Rightarrow> route_parent_status list" where
  "sortRouteParentStatusByParentRef parents = foldr (insert_by (\<lambda>a b. parent_ref_less (rps_parentRef a) (rps_parentRef b))) parents []"

definition httpRoute_StatusEqual :: "route_patcher \<Rightarrow> route_parent_status list \<Rightarrow> bool \<times> route_patcher \<times> route_parent_status list" where
  "httpRoute_StatusEqual sp parents =
     (let clusterConds = NewRouteConditionsFromV1RouteConditions (FilterStatusByControllerName parents (rp_controllerName sp)) (rp_controllerName sp)
      in (RouteStatusesEqual clusterConds (rp_conditions sp), sp, parents))"

definition tlsRoute_StatusEqual :: "route_patcher \<Rightarrow> route_parent_status list \<Rightarrow> bool \<times> route_patcher \<times> route_parent_status list" where
  "tlsRoute_StatusEqual sp parents =
     (let clusterConds = NewRouteConditionsFromV1RouteConditions (FilterTLSRouteStatusByControllerName parents (rp_controllerName sp)) (rp_controllerName sp)
      in (RouteStatusesEqual clusterConds (rp_conditions sp), sp, parents))"

definition route_parents :: "route_patcher \<Rightarrow> int \<Rightarrow> route_parent_status list \<Rightarrow> route_parent_status list" where
  "route_parents sp now parents =
     (let preserved = filter (\<lambda>p. rps_controllerName p \<noteq> rp_controllerName sp) parents
      in sortRouteParentStatusByParentRef (preserved @ ToV1RouteConditions now (rp_conditions sp)))"

definition httpRoute_SetStatus :: "route_patcher \<Rightarrow> int \<Rightarrow> route_parent_status list \<Rightarrow> route_parent_status list" where
  "httpRoute_SetStatus = route_parents"

definition tlsRoute_SetStatus :: "route_patcher \<Rightarrow> int \<Rightarrow> route_parent_status list \<Rightarrow> route_parent_status list" where
  "tlsRoute_SetStatus = route_parents"

subsection \<open>Updates\<close>

datatype 's get_result = Found 's | NotFound | GetError string

text \<open>The client for one kind of resource: reads, whole updates and patches of the status of a name.\<close>

record ('s, 'w) status_api =
  ap_Get :: "namespaced_name \<Rightarrow> 'w \<Rightarrow> 's get_result \<times> 'w"
  ap_Update :: "namespaced_name \<Rightarrow> 's \<Rightarrow> 'w \<Rightarrow> go_error \<times> 'w"
  ap_Patch :: "namespaced_name \<Rightarrow> 's \<Rightarrow> 's \<Rightarrow> 'w \<Rightarrow> go_error \<times> 'w"

text \<open>A missing object is treated as the empty object it is read into.\<close>

definition getClusterObj :: "('s, 'w) status_api \<Rightarrow> 's \<Rightarrow> namespaced_name \<Rightarrow> 'w \<Rightarrow> (string + 's) \<times> 'w" where
  "getClusterObj api blank n w =
     (case ap_Get api n w of
        (Found s, w) \<Rightarrow> (Inr s, w)
      | (NotFound, w) \<Rightarrow> (Inr blank, w)
      | (GetError e, w) \<Rightarrow> (Inl ''failed to get cluster object'', w))"

text \<open>One try: whether it is done, and an error that ends the retries.  The patcher is kept between the tries.\<close>

definition TryUpdateStatusFunc :: "('p, 's) patcher_ops \<Rightarrow> ('s, 'w) status_api \<Rightarrow> int \<Rightarrow> 's \<Rightarrow> namespaced_name \<Rightarrow> 'p \<times> 'w \<Rightarrow> (bool \<times> go_error) \<times> 'p \<times> 'w" where
  "TryUpdateStatusFunc ops api now blank n = (\<lambda>(sp, w).
     case getClusterObj api blank n w of
       (Inl err, w) \<Rightarrow> ((False, Some err), sp, w)
     | (Inr clusterObj, w) \<Rightarrow>
         (case po_StatusEqual ops sp clusterObj of
            (True, sp, clusterObj) \<Rightarrow> ((True, None), sp, w)
          | (False, sp, clusterObj) \<Rightarrow>
              (case ap_Update api n (po_SetStatus ops sp now clusterObj) w of (Some err, w) \<Rightarrow> ((False, None), sp, w) | (None, w) \<Rightarrow> ((True, None), sp, w))))"

definition TryPatchStatusFunc :: "('p, 's) patcher_ops \<Rightarrow> ('s, 'w) status_api \<Rightarrow> int \<Rightarrow> 's \<Rightarrow> namespaced_name \<Rightarrow> 'p \<times> 'w \<Rightarrow> (bool \<times> go_error) \<times> 'p \<times> 'w" where
  "TryPatchStatusFunc ops api now blank n = (\<lambda>(sp, w).
     case getClusterObj api blank n w of
       (Inl err, w) \<Rightarrow> ((False, Some err), sp, w)
     | (Inr clusterObj, w) \<Rightarrow>
         (case po_StatusEqual ops sp clusterObj of
            (True, sp, clusterObj) \<Rightarrow> ((True, None), sp, w)
          | (False, sp, clusterObj) \<Rightarrow>
              (case ap_Patch api n clusterObj (po_SetStatus ops sp now clusterObj) w of (Some err, w) \<Rightarrow> ((False, None), sp, w) | (None, w) \<Rightarrow> ((True, None), sp, w))))"

text \<open>The clients of all kinds, the clock, the cancellation of the context, and the back-off library for the states of the patchers.\<close>

record 'w status_client =
  sl_GatewayClass :: "(gateway_class_status, 'w) status_api"
  sl_Gateway :: "(gateway_status, 'w) status_api"
  sl_HTTPRoute :: "(route_parent_status list, 'w) status_api"
  sl_TLSRoute :: "(route_parent_status list, 'w) status_api"
  sl_Now :: "'w \<Rightarrow> int"
  sl_Done :: "'w \<Rightarrow> bool"
  sl_BackoffConditions :: "(conditions \<times> 'w \<Rightarrow> (bool \<times> go_error) \<times> conditions \<times> 'w) \<Rightarrow> conditions \<times> 'w \<Rightarrow> go_error \<times> conditions \<times> 'w"
  sl_BackoffGateway :: "(gateway_patcher \<times> 'w \<Rightarrow> (bool \<times> go_error) \<times> gateway_patcher \<times> 'w) \<Rightarrow> gateway_patcher \<times> 'w \<Rightarrow> go_error \<times> gateway_patcher \<times> 'w"
  sl_BackoffRoute :: "(route_patcher \<times> 'w \<Rightarrow> (bool \<times> go_error) \<times> route_patcher \<times> 'w) \<Rightarrow> route_patcher \<times> 'w \<Rightarrow> go_error \<times> route_patcher \<times> 'w"

definition gatewayClass_ops :: "(conditions, gateway_class_status) patcher_ops" where
  "gatewayClass_ops = \<lparr>po_StatusEqual = gatewayClass_StatusEqual, po_SetStatus = gatewayClass_SetStatus\<rparr>"

definition gateway_ops :: "(gateway_patcher, gateway_status) patcher_ops" where
  "gateway_ops = \<lparr>po_StatusEqual = gateway_StatusEqual, po_SetStatus = gateway_SetStatus\<rparr>"

definition httpRoute_ops :: "(route_patcher, route_parent_status list) patcher_ops" where
  "httpRoute_ops = \<lparr>po_StatusEqual = httpRoute_StatusEqual, po_SetStatus = httpRoute_SetStatus\<rparr>"

definition tlsRoute_ops :: "(route_patcher, route_parent_status list) patcher_ops" where
  "tlsRoute_ops = \<lparr>po_StatusEqual = tlsRoute_StatusEqual, po_SetStatus = tlsRoute_SetStatus\<rparr>"

text \<open>The writers; an error is only logged.  \<open>None\<close> is a nil resource that is dereferenced.\<close>

definition writeGatewayClassStatus :: "'w status_client \<Rightarrow> gateway_class \<Rightarrow> 'w \<Rightarrow> (go_error \<times> 'w) option" where
  "writeGatewayClassStatus cl gwc w =
     map_option (\<lambda>k. case sl_BackoffConditions cl (TryUpdateStatusFunc gatewayClass_ops (sl_GatewayClass cl) (sl_Now cl w) \<lparr>gcs_Conditions = [], gcs_Other = []\<rparr> (meta_key (gck_meta k)))
         (newGatewayClassStatusPatcher gwc, w) of (err, _, w) \<Rightarrow> (err, w)) (gc_K8sResource gwc)"

definition writeGatewayStatus :: "'w status_client \<Rightarrow> gateway \<Rightarrow> 'w \<Rightarrow> (go_error \<times> 'w) option" where
  "writeGatewayStatus cl gw w =
     map_option (\<lambda>k. case sl_BackoffGateway cl (TryUpdateStatusFunc gateway_ops (sl_Gateway cl) (sl_Now cl w) \<lparr>gs_Addresses = [], gs_Conditions = [], gs_Listeners = []\<rparr> (meta_key (gwk_meta k)))
         (newGatewayStatusPatcher (sl_Now cl w) gw, w) of (err, _, w) \<Rightarrow> (err, w)) (gw_K8sResource gw)"

definition writeHTTPRouteStatus :: "'w status_client \<Rightarrow> http_route \<Rightarrow> 'w \<Rightarrow> (go_error \<times> 'w) option" where
  "writeHTTPRouteStatus cl r w =
     map_option (\<lambda>k. case sl_BackoffRoute cl (TryPatchStatusFunc httpRoute_ops (sl_HTTPRoute cl) (sl_Now cl w) [] (meta_key (hrk_meta k)))
         (newHTTPRouteStatusPatcher r, w) of (err, _, w) \<Rightarrow> (err, w)) (rt_K8sResource r)"

definition writeTLSRouteStatus :: "'w status_client \<Rightarrow> tls_route \<Rightarrow> 'w \<Rightarrow> (go_error \<times> 'w) option" where
  "writeTLSRouteStatus cl r w =
     map_option (\<lambda>k. case sl_BackoffRoute cl (TryPatchStatusFunc tlsRoute_ops (sl_TLSRoute cl) (sl_Now cl w) [] (meta_key (trk_meta k)))
         (newTLSRouteStatusPatcher r, w) of (err, _, w) \<Rightarrow> (err, w)) (rt_K8sResource r)"

text \<open>\<open>UpdateStatus\<close>: the loops stop when the context is done.  The first component says that they have stopped.\<close>

definition update_one :: "'w status_client \<Rightarrow> ('c tree_res \<Rightarrow> bool) \<Rightarrow> ('c \<Rightarrow> 'w \<Rightarrow> (go_error \<times> 'w) option) \<Rightarrow> namespaced_name \<times> 'c tree_res \<Rightarrow> bool \<times> 'w \<Rightarrow> (bool \<times> 'w) option" where
  "update_one cl skip f = (\<lambda>(_, r) (stopped, w).
     if stopped \<or> sl_Done cl w then Some (True, w)
     else if TreeStatus (tr_status r) \<in> {StatusDeleted, StatusUnchanged} \<or> skip r then Some (False, w)
     else map_option (\<lambda>(_, w). (False, w)) (f (tr_core r) w))"

definition UpdateStatus :: "'w status_client \<Rightarrow> gate_tree \<Rightarrow> 'w \<Rightarrow> 'w option" where
  "UpdateStatus cl t w =
     map_option snd
       (Option.bind (foldo (update_one cl (\<lambda>g. \<not> gc_Managed (tr_core g)) (writeGatewayClassStatus cl)) (GatewayClasses t) (False, w))
         (\<lambda>s. Option.bind (foldo (update_one cl (\<lambda>_. False) (writeGatewayStatus cl)) (Gateways t) s)
         (\<lambda>s. Option.bind (foldo (update_one cl (\<lambda>_. False) (writeHTTPRouteStatus cl)) (HTTPRoutes t) s)
         (foldo (update_one cl (\<lambda>_. False) (writeTLSRouteStatus cl)) (TLSRoutes t)))))"

subsection \<open>The interface of the patchers\<close>

text \<open>What a client of a patcher relies on: a comparison does not change its verdicts, and a status that the patcher has made is equal to what it wants.\<close>

locale status_patcher =
  fixes ops :: "('p, 's) patcher_ops" and good :: "'p \<Rightarrow> bool"
  assumes verdicts: "good sp \<Longrightarrow> po_StatusEqual ops sp s = (b, sp', s') \<Longrightarrow> good sp' \<and> fst (po_StatusEqual ops sp' t) = fst (po_StatusEqual ops sp t) \<and> fst (po_StatusEqual ops sp s') = b"
    and set_equal: "good sp \<Longrightarrow> fst (po_StatusEqual ops sp (po_SetStatus ops sp now s))"

text \<open>What the client documents, for the view of the stored statuses.  A patch is computed against the status that was read; it is complete when the status
  changes.\<close>

definition api_laws :: "('s, 'w) status_api \<Rightarrow> ('w \<Rightarrow> namespaced_name \<Rightarrow> 's option) \<Rightarrow> bool" where
  "api_laws api view =
     ((\<forall>n w s w'. ap_Get api n w = (Found s, w') \<longrightarrow> view w' n = Some s)
      \<and> (\<forall>n w w'. ap_Get api n w = (NotFound, w') \<longrightarrow> view w' n = None)
      \<and> (\<forall>n s w w'. ap_Update api n s w = (None, w') \<longrightarrow> view w' n = Some s)
      \<and> (\<forall>n s s' w w'. ap_Patch api n s s' w = (None, w') \<longrightarrow> s \<noteq> s' \<longrightarrow> view w' n = Some s'))"

text \<open>The back-off library returns nil only after a try that was done.\<close>

definition backoff_ok :: "(('p \<times> 'w \<Rightarrow> (bool \<times> go_error) \<times> 'p \<times> 'w) \<Rightarrow> 'p \<times> 'w \<Rightarrow> go_error \<times> 'p \<times> 'w) \<Rightarrow> bool" where
  "backoff_ok b = (\<forall>I f s s'. (\<forall>x. I x \<longrightarrow> I (snd (f x))) \<longrightarrow> I s \<longrightarrow> b f s = (None, s') \<longrightarrow> (\<exists>x. I x \<and> f x = ((True, None), s')))"

lemma backoff_okD:
  assumes "backoff_ok b" "\<And>x. I x \<Longrightarrow> I (snd (f x))" "I s" "b f s = (None, s')"
  obtains x where "I x" "f x = ((True, None), s')"
  using assms unfolding backoff_ok_def by blast

definition shown :: "('p, 's) patcher_ops \<Rightarrow> 'p \<Rightarrow> 's option \<Rightarrow> 's \<Rightarrow> bool" where
  "shown ops sp stored blank = (case stored of None \<Rightarrow> fst (po_StatusEqual ops sp blank) | Some s \<Rightarrow> fst (po_StatusEqual ops sp s))"

context status_patcher
begin

definition same_wish :: "'p \<Rightarrow> 'p \<Rightarrow> bool" where
  "same_wish sp sp' = (good sp \<and> good sp' \<and> (\<forall>t. fst (po_StatusEqual ops sp' t) = fst (po_StatusEqual ops sp t)))"

lemma compared:
  assumes w: "same_wish sp0 sp" and e: "po_StatusEqual ops sp s = (b, sp', s')"
  shows "same_wish sp0 sp' \<and> fst (po_StatusEqual ops sp0 s) = b \<and> fst (po_StatusEqual ops sp0 s') = b"
proof -
  have g: "good sp0" "good sp" "fst (po_StatusEqual ops sp t) = fst (po_StatusEqual ops sp0 t)" for t using w by (simp_all add: same_wish_def)
  have v: "good sp'" "fst (po_StatusEqual ops sp' t) = fst (po_StatusEqual ops sp t)" "fst (po_StatusEqual ops sp s') = b" for t
    using verdicts[OF g(2) e, of t] by blast+
  show ?thesis using g(1) v(1) by (simp add: same_wish_def g(3)[symmetric] v(2,3) e)
qed

lemma made: "same_wish sp0 sp \<Longrightarrow> fst (po_StatusEqual ops sp0 (po_SetStatus ops sp now s))"
  using set_equal[of sp now s] by (auto simp: same_wish_def)

lemma read_object:
  assumes "api_laws api view" "getClusterObj api blank n w = (Inr s, w')"
  shows "view w' n = Some s \<or> view w' n = None \<and> s = blank"
  using assms by (auto simp: getClusterObj_def api_laws_def split: prod.splits get_result.splits)

lemma try_keeps:
  "same_wish sp0 sp \<Longrightarrow> same_wish sp0 (fst (snd (TryUpdateStatusFunc ops api now blank n (sp, w))))"
  "same_wish sp0 sp \<Longrightarrow> same_wish sp0 (fst (snd (TryPatchStatusFunc ops api now blank n (sp, w))))"
  by (auto simp: TryUpdateStatusFunc_def TryPatchStatusFunc_def dest: compared split: prod.splits sum.splits bool.splits option.splits)

lemma update_done:
  assumes laws: "api_laws api view" and w: "same_wish sp0 sp" and r: "TryUpdateStatusFunc ops api now blank n (sp, w) = ((True, None), sp', w')"
  shows "shown ops sp0 (view w' n) blank"
proof -
  obtain s w1 where g: "getClusterObj api blank n w = (Inr s, w1)" using r by (auto simp: TryUpdateStatusFunc_def split: prod.splits sum.splits)
  obtain b sp1 s1 where e: "po_StatusEqual ops sp s = (b, sp1, s1)" using prod_cases3 by blast
  note c = compared[OF w e]
  show ?thesis
  proof (cases b)
    case True
    then have "w' = w1" using r g e by (simp add: TryUpdateStatusFunc_def)
    then show ?thesis using read_object[OF laws g] c True by (auto simp: shown_def)
  next
    case False
    then have "ap_Update api n (po_SetStatus ops sp1 now s1) w1 = (None, w')" using r g e by (auto simp: TryUpdateStatusFunc_def split: prod.splits option.splits)
    then have "view w' n = Some (po_SetStatus ops sp1 now s1)" using laws by (simp add: api_laws_def)
    then show ?thesis using made[of sp0 sp1 now s1] c by (simp add: shown_def)
  qed
qed

lemma patch_done:
  assumes laws: "api_laws api view" and w: "same_wish sp0 sp" and r: "TryPatchStatusFunc ops api now blank n (sp, w) = ((True, None), sp', w')"
  shows "shown ops sp0 (view w' n) blank"
proof -
  obtain s w1 where g: "getClusterObj api blank n w = (Inr s, w1)" using r by (auto simp: TryPatchStatusFunc_def split: prod.splits sum.splits)
  obtain b sp1 s1 where e: "po_StatusEqual ops sp s = (b, sp1, s1)" using prod_cases3 by blast
  note c = compared[OF w e]
  show ?thesis
  proof (cases b)
    case True
    then have "w' = w1" using r g e by (simp add: TryPatchStatusFunc_def)
    then show ?thesis using read_object[OF laws g] c True by (auto simp: shown_def)
  next
    case False
    have m: "fst (po_StatusEqual ops sp0 (po_SetStatus ops sp1 now s1))" using made c by blast
    then have "s1 \<noteq> po_SetStatus ops sp1 now s1" using c False by metis
    moreover have "ap_Patch api n s1 (po_SetStatus ops sp1 now s1) w1 = (None, w')" using r g e False by (auto simp: TryPatchStatusFunc_def split: prod.splits option.splits)
    ultimately have "view w' n = Some (po_SetStatus ops sp1 now s1)" using laws by (simp add: api_laws_def)
    then show ?thesis using m by (simp add: shown_def)
  qed
qed

lemma backed_off:
  assumes laws: "api_laws api view" "backoff_ok b" and g: "good sp"
  shows "b (TryUpdateStatusFunc ops api now blank n) (sp, w) = (None, sp', w') \<Longrightarrow> shown ops sp (view w' n) blank"
    "b (TryPatchStatusFunc ops api now blank n) (sp, w) = (None, sp', w') \<Longrightarrow> shown ops sp (view w' n) blank"
proof -
  let ?I = "\<lambda>(x, _). same_wish sp x"
  have i: "?I (sp, w)" using g by (simp add: same_wish_def)
  have k: "?I x \<Longrightarrow> ?I (snd (TryUpdateStatusFunc ops api now blank n x))" "?I x \<Longrightarrow> ?I (snd (TryPatchStatusFunc ops api now blank n x))" for x
    using try_keeps[of sp "fst x" api now blank n "snd x"] by (simp_all add: split_def)
  show "shown ops sp (view w' n) blank" if "b (TryUpdateStatusFunc ops api now blank n) (sp, w) = (None, sp', w')"
    by (rule backoff_okD[where I = ?I, OF laws(2) k(1) i that]) (auto intro: update_done[OF laws(1)])
  show "shown ops sp (view w' n) blank" if "b (TryPatchStatusFunc ops api now blank n) (sp, w) = (None, sp', w')"
    by (rule backoff_okD[where I = ?I, OF laws(2) k(2) i that]) (auto intro: patch_done[OF laws(1)])
qed

end

subsection \<open>The patchers keep the contract\<close>

lemma Conditions_Equal_refl: "coherent c \<Longrightarrow> Conditions_Equal c c"
  by (simp add: Equal_iff)

interpretation gwc_patcher: status_patcher gatewayClass_ops coherent
  by unfold_locales (auto simp: gatewayClass_ops_def gatewayClass_StatusEqual_def gatewayClass_SetStatus_def list_roundtrip Conditions_Equal_refl)

definition good_gateway :: "gateway_patcher \<Rightarrow> bool" where
  "good_gateway sp = (coherent (gp_conditions sp) \<and> (\<forall>l \<in> set (gp_listenerStatuses sp). coherent (NewConditionsFromMetav1Conditions (lst_conditions l))))"

lemma sort_twice: "sort_key f (sort_key f xs) = sort_key f xs"
  by (rule sort_key_id_if_sorted) simp

interpretation gw_patcher: status_patcher gateway_ops good_gateway
proof
  fix sp s b sp' s' t
  assume "good_gateway sp" "po_StatusEqual gateway_ops sp s = (b, sp', s')"
  then show "good_gateway sp' \<and> fst (po_StatusEqual gateway_ops sp' t) = fst (po_StatusEqual gateway_ops sp t) \<and> fst (po_StatusEqual gateway_ops sp s') = b"
    by (auto simp: gateway_ops_def gateway_StatusEqual_def ListenerStatusesEqual_def sortListenerStatusByName_def good_gateway_def sort_twice Let_def split: if_splits)
next
  fix sp now s
  assume g: "good_gateway sp"
  then have "listenerStatusEqual l l" if "l \<in> set (gp_listenerStatuses sp)" for l using that by (simp add: listenerStatusEqual_def good_gateway_def Conditions_Equal_refl)
  then have "list_all2 listenerStatusEqual (sort_key lst_name (gp_listenerStatuses sp)) (sort_key lst_name (gp_listenerStatuses sp))" by (intro list.rel_refl_strong) simp
  then show "fst (po_StatusEqual gateway_ops sp (po_SetStatus gateway_ops sp now s))" using g
    by (simp add: gateway_ops_def gateway_StatusEqual_def gateway_SetStatus_def good_gateway_def list_roundtrip Conditions_Equal_refl ListenerStatusesEqual_def sortListenerStatusByName_def Let_def)
qed

text \<open>Rows in another order give the same conditions.\<close>

lemma permuted_rows: "mset xs = mset (map f d) \<Longrightarrow> \<exists>d'. mset d' = mset d \<and> xs = map f d'"
proof (induction xs arbitrary: d)
  case (Cons x xs)
  then have "x \<in> set (map f d)" by (metis list.set_intros(1) set_mset_mset)
  then obtain y where y: "y \<in> set d" "x = f y" by auto
  have "add_mset (f y) (mset xs) = image_mset f (mset d)" using Cons.prems y by simp
  then have "mset xs = image_mset f (mset d) - {#f y#}" by (metis add_mset_remove_trivial)
  then have "mset xs = mset (map f (remove1 y d))" using y by (simp add: image_mset_Diff)
  then obtain d' where "mset d' = mset (remove1 y d)" "xs = map f d'" using Cons.IH by blast
  then show ?case using y by (intro exI[of _ "y # d'"]) simp
qed simp

lemma data_inv_permuted:
  assumes "data_inv d" "mset d' = mset d"
  shows "data_inv d'" "length d' = length d" "map_of d' = map_of d"
proof -
  have s: "set d' = set d" using assms(2) by (metis set_mset_mset)
  show l: "length d' = length d" using assms(2) by (metis size_mset)
  have "mset (map fst d') = mset (map fst d)" using assms(2) by (simp add: mset_map)
  from mset_eq_imp_distinct_iff[OF this] have wf: "distinct (map fst d)" "distinct (map fst d')" using assms(1) by (simp_all add: data_inv_def wf_map_def)
  show m: "map_of d' = map_of d" unfolding map_of_inject_set[OF wf(2,1)] by (rule s)
  show "data_inv d'" unfolding data_inv_def wf_map_def m using assms(1) wf(2) by (simp add: data_inv_def)
qed

lemma permuted_conditions:
  assumes c: "rc_inv c" and rows: "mset parents = mset (ToV1RouteConditions now c)"
  shows "RouteConditions_Equal (NewRouteConditionsFromV1RouteConditions parents (rc_ControllerName c)) c"
proof -
  let ?d = "km_data (rc_Conditions c)" and ?n = "rc_ControllerName c"
  obtain d' where d': "mset d' = mset ?d" "parents = map (parent_row now ?n) d'"
    using permuted_rows[of parents "parent_row now ?n" ?d] rows by (auto simp: ToV1_rows[OF c])
  have inv: "data_inv ?d" using c by (simp add: rc_inv_def)
  note p = data_inv_permuted[OF inv d'(1)]
  have e: "NewRouteConditionsFromV1RouteConditions parents ?n = \<lparr>rc_Conditions = \<lparr>km_data = d', km_computeKey = ParentRefToKey\<rparr>, rc_ControllerName = ?n\<rparr>"
    using rows_back[of "[]" d' ?n now] p(1) d'(2) by (simp add: NewRouteConditionsFromV1RouteConditions_def NewKeyMap_def)
  have "rc_inv (NewRouteConditionsFromV1RouteConditions parents ?n)" by (simp add: e rc_inv_def p(1))
  from RouteConditions_Equal_iff[OF this c] show ?thesis by (simp add: e p(2,3))
qed

lemma mset_insert_by: "mset (insert_by lt x xs) = add_mset x (mset xs)"
  by (induction xs) simp_all

lemma mset_sort_parents: "mset (sortRouteParentStatusByParentRef xs) = mset xs"
  unfolding sortRouteParentStatusByParentRef_def by (induction xs) (simp_all add: mset_insert_by)

definition good_route :: "route_patcher \<Rightarrow> bool" where
  "good_route sp = (rc_inv (rp_conditions sp) \<and> rc_ControllerName (rp_conditions sp) = rp_controllerName sp)"

lemma own_rows: "rc_inv c \<Longrightarrow> p \<in> set (ToV1RouteConditions now c) \<Longrightarrow> rps_controllerName p = rc_ControllerName c"
  by (auto simp: ToV1_rows parent_row_def)

text \<open>The list that is written: the rows of other controllers as they were, and the wanted rows.\<close>

lemma route_parents_rows:
  assumes "good_route sp"
  shows "mset (filter (\<lambda>p. rps_controllerName p = rp_controllerName sp) (route_parents sp now ps)) = mset (ToV1RouteConditions now (rp_conditions sp))"
    "mset (filter (\<lambda>p. rps_controllerName p \<noteq> rp_controllerName sp) (route_parents sp now ps)) = mset (filter (\<lambda>p. rps_controllerName p \<noteq> rp_controllerName sp) ps)"
proof -
  let ?rows = "ToV1RouteConditions now (rp_conditions sp)"
  have own: "filter (\<lambda>p. rps_controllerName p = rp_controllerName sp) ?rows = ?rows" "filter (\<lambda>p. rps_controllerName p \<noteq> rp_controllerName sp) ?rows = []"
    using assms own_rows[of "rp_conditions sp" _ now] by (auto simp: good_route_def filter_id_conv filter_empty_conv)
  have m: "mset (filter P (route_parents sp now ps)) = filter_mset P (mset (filter (\<lambda>p. rps_controllerName p \<noteq> rp_controllerName sp) ps @ ?rows))" for P
    by (simp add: route_parents_def Let_def mset_sort_parents)
  show "mset (filter (\<lambda>p. rps_controllerName p = rp_controllerName sp) (route_parents sp now ps)) = mset ?rows"
    "mset (filter (\<lambda>p. rps_controllerName p \<noteq> rp_controllerName sp) (route_parents sp now ps)) = mset (filter (\<lambda>p. rps_controllerName p \<noteq> rp_controllerName sp) ps)"
    unfolding m mset_filter[symmetric] filter_append own by (simp_all add: filter_filter_mset)
qed

lemma route_set_equal:
  assumes "good_route sp"
  shows "RouteStatusesEqual (NewRouteConditionsFromV1RouteConditions (filter (\<lambda>p. rps_controllerName p = rp_controllerName sp) (route_parents sp now ps)) (rp_controllerName sp)) (rp_conditions sp)"
  using permuted_conditions[OF _ route_parents_rows(1)[OF assms]] assms by (simp add: RouteStatusesEqual_def good_route_def)

interpretation http_patcher: status_patcher httpRoute_ops good_route
  by unfold_locales (auto simp: httpRoute_ops_def httpRoute_StatusEqual_def httpRoute_SetStatus_def FilterStatusByControllerName_def Let_def route_set_equal)

interpretation tls_patcher: status_patcher tlsRoute_ops good_route
  by unfold_locales (auto simp: tlsRoute_ops_def tlsRoute_StatusEqual_def tlsRoute_SetStatus_def FilterTLSRouteStatusByControllerName_def Let_def route_set_equal)

subsection \<open>What is written\<close>

definition client_documented :: "'w status_client \<Rightarrow> ('w \<Rightarrow> namespaced_name \<Rightarrow> gateway_class_status option) \<Rightarrow> ('w \<Rightarrow> namespaced_name \<Rightarrow> gateway_status option)
    \<Rightarrow> ('w \<Rightarrow> namespaced_name \<Rightarrow> route_parent_status list option) \<Rightarrow> ('w \<Rightarrow> namespaced_name \<Rightarrow> route_parent_status list option) \<Rightarrow> bool" where
  "client_documented cl vc vg vh vt = (api_laws (sl_GatewayClass cl) vc \<and> api_laws (sl_Gateway cl) vg \<and> api_laws (sl_HTTPRoute cl) vh \<and> api_laws (sl_TLSRoute cl) vt
     \<and> backoff_ok (sl_BackoffConditions cl) \<and> backoff_ok (sl_BackoffGateway cl) \<and> backoff_ok (sl_BackoffRoute cl))"

lemma good_new_gateway:
  assumes "coherent (gw_Conditions gw)" "\<forall>(_, l) \<in> set (gw_Listeners gw). coherent (li_Conditions l)"
  shows "good_gateway (newGatewayStatusPatcher now gw)"
  using assms by (auto simp: good_gateway_def newGatewayStatusPatcher_def list_roundtrip)

text \<open>A resource that is not changed is not touched.\<close>

lemma nothing_to_update:
  "\<forall>(_, r) \<in> set xs. TreeStatus (tr_status r) \<in> {StatusDeleted, StatusUnchanged} \<Longrightarrow> \<exists>b'. foldo (update_one cl skip f) xs (b, w) = Some (b', w)"
  by (induction xs arbitrary: b) (auto simp: update_one_def)

lemma unchanged_not_updated:
  assumes "\<forall>(_, r) \<in> set (GatewayClasses t). TreeStatus (tr_status r) \<in> {StatusDeleted, StatusUnchanged}" "\<forall>(_, r) \<in> set (Gateways t). TreeStatus (tr_status r) \<in> {StatusDeleted, StatusUnchanged}"
    "\<forall>(_, r) \<in> set (HTTPRoutes t). TreeStatus (tr_status r) \<in> {StatusDeleted, StatusUnchanged}" "\<forall>(_, r) \<in> set (TLSRoutes t). TreeStatus (tr_status r) \<in> {StatusDeleted, StatusUnchanged}"
  shows "UpdateStatus cl t w = Some w"
proof -
  obtain b1 where 1: "foldo (update_one cl (\<lambda>g. \<not> gc_Managed (tr_core g)) (writeGatewayClassStatus cl)) (GatewayClasses t) (False, w) = Some (b1, w)" using nothing_to_update[OF assms(1), of cl "\<lambda>g. \<not> gc_Managed (tr_core g)" "writeGatewayClassStatus cl" False w] by blast
  obtain b2 where 2: "foldo (update_one cl (\<lambda>_. False) (writeGatewayStatus cl)) (Gateways t) (b1, w) = Some (b2, w)" using nothing_to_update[OF assms(2), of cl "\<lambda>_. False" "writeGatewayStatus cl" b1 w] by blast
  obtain b3 where 3: "foldo (update_one cl (\<lambda>_. False) (writeHTTPRouteStatus cl)) (HTTPRoutes t) (b2, w) = Some (b3, w)" using nothing_to_update[OF assms(3), of cl "\<lambda>_. False" "writeHTTPRouteStatus cl" b2 w] by blast
  obtain b4 where "foldo (update_one cl (\<lambda>_. False) (writeTLSRouteStatus cl)) (TLSRoutes t) (b3, w) = Some (b4, w)" using nothing_to_update[OF assms(4), of cl "\<lambda>_. False" "writeTLSRouteStatus cl" b3 w] by blast
  with 1 2 3 show ?thesis by (simp add: UpdateStatus_def)
qed


subsection \<open>An example\<close>

record status_world =
  sw_class :: "namespaced_name \<Rightarrow> gateway_class_status option"
  sw_gateway :: "namespaced_name \<Rightarrow> gateway_status option"
  sw_http :: "namespaced_name \<Rightarrow> route_parent_status list option"
  sw_tls :: "namespaced_name \<Rightarrow> route_parent_status list option"

definition map_api :: "('w \<Rightarrow> namespaced_name \<Rightarrow> 's option) \<Rightarrow> ((namespaced_name \<Rightarrow> 's option) \<Rightarrow> 'w \<Rightarrow> 'w) \<Rightarrow> ('s, 'w) status_api" where
  "map_api get put =
     (let write = (\<lambda>n s w. if get w n = None then (Some ''not found'', w) else (None, put ((get w)(n \<mapsto> s)) w)) in
      \<lparr>ap_Get = (\<lambda>n w. (case get w n of None \<Rightarrow> NotFound | Some s \<Rightarrow> Found s, w)), ap_Update = write, ap_Patch = (\<lambda>n _. write n)\<rparr>)"

lemma map_api_laws: "(\<And>f w. get (put f w) = f) \<Longrightarrow> api_laws (map_api get put) get"
  by (auto simp: api_laws_def map_api_def Let_def split: option.splits if_splits)

definition try_once :: "('s \<Rightarrow> (bool \<times> go_error) \<times> 's) \<Rightarrow> 's \<Rightarrow> go_error \<times> 's" where
  "try_once f s = (case f s of ((True, None), s) \<Rightarrow> (None, s) | (_, s) \<Rightarrow> (Some ''timed out'', s))"

lemma try_once_ok: "backoff_ok try_once"
  unfolding backoff_ok_def
proof (intro allI impI)
  fix I :: "'a \<times> 'b \<Rightarrow> bool" and f s s'
  assume "I s" "try_once f s = (None, s')"
  then show "\<exists>x. I x \<and> f x = ((True, None), s')" by (intro exI[of _ s]) (auto simp: try_once_def split: prod.splits bool.splits option.splits)
qed

definition ex_status_client :: "status_world status_client" where
  "ex_status_client = \<lparr>sl_GatewayClass = map_api sw_class (\<lambda>f. sw_class_update (\<lambda>_. f)), sl_Gateway = map_api sw_gateway (\<lambda>f. sw_gateway_update (\<lambda>_. f)),
     sl_HTTPRoute = map_api sw_http (\<lambda>f. sw_http_update (\<lambda>_. f)), sl_TLSRoute = map_api sw_tls (\<lambda>f. sw_tls_update (\<lambda>_. f)), sl_Now = (\<lambda>_. 7), sl_Done = (\<lambda>_. False),
     sl_BackoffConditions = try_once, sl_BackoffGateway = try_once, sl_BackoffRoute = try_once\<rparr>"

definition ex_class :: gateway_class where
  "ex_class = \<lparr>gc_K8sResource = Some gateway_class0, gc_HugGate = None, gc_Conditions = NewGatewayClassAcceptedOK, gc_CheckParamsRef = check_result0, gc_Valid = True, gc_Managed = True\<rparr>"

definition ex_world :: status_world where
  "ex_world = \<lparr>sw_class = (\<lambda>_. Some \<lparr>gcs_Conditions = [], gcs_Other = [''SupportedFeatures'']\<rparr>), sw_gateway = (\<lambda>_. None), sw_http = (\<lambda>_. None), sw_tls = (\<lambda>_. None)\<rparr>"


text \<open>The condition for invalid parameters of a gateway is stored under another key than its type: it is never found equal to what was written, and the status is
  written again in every cycle in which the gateway is looked at.\<close>

lemma invalid_parameters_never_settle:
  "\<not> fst (gateway_StatusEqual \<lparr>gp_conditions = NewGatewayAcceptedInvalidParameters err, gp_listenerStatuses = ls\<rparr>
     (gateway_SetStatus \<lparr>gp_conditions = NewGatewayAcceptedInvalidParameters err, gp_listenerStatuses = ls\<rparr> now s))"
  by (simp add: gateway_StatusEqual_def gateway_SetStatus_def NewGatewayAcceptedInvalidParameters_def cond_entry_def Conditions_Equal_def NewConditionsFromMetav1Conditions_def
    ToMetav1Conditions_def NewConditionFromMetav1Condition_def map_get_default_def condition0_def)

text \<open>The status of a gateway is replaced as a whole: addresses that another component has set are lost.\<close>

lemma gateway_addresses_lost: "gs_Addresses (gateway_SetStatus sp now s) = []"
  by (simp add: gateway_SetStatus_def)

end
