(* ===== verification/Spec2Isabelle.thy ===== *)
theory Spec2Isabelle
  imports RouteConditions EventLoop GateCycle Deploy HaproxyProcess Startup StatusUpdate
begin

text \<open>
  Verification development of the HAProxy Unified Gateway, a Kubernetes controller in Go that turns Gateway API
  resources into an HAProxy configuration.

  \<^bold>\<open>The program.\<close>  Watches of the Kubernetes API deliver events.  \<open>k8s/gate/handler/monitor.go\<close> collects them
  in batches; for each batch \<open>handler/batch.go\<close> and \<open>handler/tree.go\<close> run one cycle: the events change the
  cluster store (\<open>k8s/gate/store\<close>), builders turn the changed objects into a tree of gateway classes, gateways,
  listeners, secrets, services and routes with their validity and conditions (\<open>k8s/gate/tree\<close>,
  \<open>k8s/gate/conditions\<close>, \<open>k8s/gate/references\<close>), certificate files and crt-lists follow the referenced secrets
  (\<open>tree/certificate_builder.go\<close>, \<open>haproxy/storage\<close>), and the HAProxy side (\<open>k8s/gate/haproxy\<close>) writes
  frontends, backends, servers and the map files of the routes, with runtime commands where no reload is needed.

  \<^bold>\<open>Conventions.\<close>  A Go map is an association list with distinct keys (\<open>Prelude\<close>): the order of the list is the order
  in which a loop visits the map, so a theorem over all lists covers every order Go may choose.  A nil pointer is \<open>None\<close>,
  a panic is \<open>None\<close> of the result, an error is a value.  Machine integers are \<open>int\<close>: ports, weights and
  generations are only compared, copied and printed.  Logging has no effect on the state and is left out.
  Third-party code (JSON texts of schemas, templates of names, the Kubernetes client, the runtime API of HAProxy, the file
  system) is an argument of the definitions that use it; what is relied on is a named hypothesis, with a concrete instance in
  the witness.

  \<^bold>\<open>Theories, in the order of the code.\<close>
  \<^item> \<open>Prelude\<close>, \<open>GoStrings\<close>, \<open>Decimal\<close>: maps with the locale \<open>map_adt\<close>, strings, decimal numbers.
  \<^item> \<open>Utils\<close>, \<open>KeyMap\<close> (\<open>k8s/gate/utils\<close>): names, hostname matching, errors, key maps and their codecs.
  \<^item> \<open>K8sTypes\<close>: the API objects with the fields the program reads.
  \<^item> \<open>ObjectStore\<close>, \<open>ClusterStore\<close> (\<open>k8s/gate/store\<close>): typed stores with the record of their changes; the update maps
    describe exactly the difference between two cycles.
  \<^item> \<open>References\<close>: nested owner maps, refined to a relation.
  \<^item> \<open>Conditions\<close>, \<open>RouteConditions\<close>: condition maps, their list form and round trips.
  \<^item> \<open>TreeCore\<close>, \<open>SecretServiceTree\<close>, \<open>InstalledVersions\<close>, \<open>GatewayClassTree\<close>, \<open>ListenerTree\<close>,
    \<open>GatewayTree\<close>, \<open>RouteTree\<close>, \<open>RouteStatus\<close> (\<open>k8s/gate/tree\<close>): the tree nodes, their checks and builders.  The locale
    \<open>mirrored_tree\<close> states that a builder keeps one node per stored object.
  \<^item> \<open>CertStorage\<close>, \<open>StoredFiles\<close>, \<open>CertificateBuilder\<close>, \<open>CertificateFiles\<close>: certificate files, crt-lists and the builder
    that keeps them in step with the referenced secrets.
  \<^item> \<open>LogConf\<close>, \<open>ReloadMgr\<close>: log settings and the reload flags.
  \<^item> \<open>EventLoop\<close> (\<open>handler/monitor.go\<close>): the loop as a step relation with the handler goroutine and an explicit heap
    of slices; delivery in order, and progress.
  \<^item> \<open>GateBuild\<close>, \<open>GateCycle\<close> (\<open>handler/tree.go\<close>, \<open>handler/batch.go\<close>): one cycle composed of all builders; an
    invariant of every reachable state joins the components.
  \<^item> \<open>MapStore\<close>, \<open>MapSync\<close>, \<open>RouteMaps\<close> (\<open>haproxy/storage/maps.go\<close>, \<open>haproxy/routes-maps.go\<close>, \<open>haproxy/routes.go\<close>):
    the maps of the routes, their files and the synchronisation with the running HAProxy.
  \<^item> \<open>RuntimeCommands\<close> (\<open>haproxy/runtime.go\<close>): the commands for servers, in bounded chunks.
  \<^item> \<open>HaproxyConf\<close> (\<open>haproxy/configuration.go\<close>): the stored configuration and its differences.

  \<^bold>\<open>Not modelled.\<close>  The start of the processes, the command line and the registration of watches are calls of
  libraries.
\<close>

end
